(* ===== verification/Rust_Strings.thy ===== *)
theory Rust_Strings
  imports Main "HOL-Library.Char_ord" "HOL-Library.List_Lexorder"
begin

text \<open>
  Prelude, part 1: the parts of Rust's string and integer library that the services use.

  A Rust \<open>String\<close> is a sequence of UTF-8 bytes; here it is a \<^typ>\<open>string\<close> whose characters are
  those bytes, so \<open>length\<close> is Rust's \<open>len()\<close>, the order of HOL-Library.List_Lexorder is Rust's
  (and SQLite's BINARY collation's) byte order, and \<open>utf8_chars\<close> is \<open>chars()\<close>.  The theory also
  holds the collections of rewrite rules shared by the component theories.
\<close>

named_theorems rust_defs \<open>definitions of string primitives, unfolded on demand\<close>
named_theorems svc_inv \<open>preservation lemmas of the services' table invariants\<close>

subsection \<open>Prefixes, suffixes, splitting\<close>

definition starts_with :: "string \<Rightarrow> string \<Rightarrow> bool" where
  "starts_with s p \<longleftrightarrow> take (length p) s = p"

definition ends_with :: "string \<Rightarrow> string \<Rightarrow> bool" where
  "ends_with s p \<longleftrightarrow> length p \<le> length s \<and> drop (length s - length p) s = p"

definition strip_prefix :: "string \<Rightarrow> string \<Rightarrow> string option" where
  "strip_prefix p s = (if starts_with s p then Some (drop (length p) s) else None)"

definition strip_suffix :: "string \<Rightarrow> string \<Rightarrow> string option" where
  "strip_suffix p s = (if ends_with s p then Some (take (length s - length p) s) else None)"

fun str_contains :: "string \<Rightarrow> string \<Rightarrow> bool" where
  "str_contains [] p = (p = [])"
| "str_contains (c # s) p = (starts_with (c # s) p \<or> str_contains s p)"

text \<open>\<open>s.find(p)\<close>, \<open>s.split_once(c)\<close> and \<open>s.rsplit_once(c)\<close>; offsets count bytes.\<close>

fun str_find :: "string \<Rightarrow> string \<Rightarrow> nat option" where
  "str_find p [] = (if p = [] then Some 0 else None)"
| "str_find p (c # s) = (if starts_with (c # s) p then Some 0 else map_option Suc (str_find p s))"

lemma str_find_bound: "str_find p s = Some i \<Longrightarrow> i + length p \<le> length s"
proof (induction s arbitrary: i)
  case (Cons c s)
  show ?case
  proof (cases "starts_with (c # s) p")
    case True
    then have "length (take (length p) (c # s)) = length p" unfolding starts_with_def by (rule arg_cong)
    with True Cons.prems show ?thesis by (auto simp: min_def split: if_splits)
  next
    case False
    with Cons show ?thesis by (auto split: option.splits)
  qed
qed (simp split: if_splits)

definition split_once :: "char \<Rightarrow> string \<Rightarrow> (string \<times> string) option" where
  "split_once c s =
     (if c \<in> set s then Some (takeWhile (\<lambda>x. x \<noteq> c) s, tl (dropWhile (\<lambda>x. x \<noteq> c) s)) else None)"

definition rsplit_once :: "char \<Rightarrow> string \<Rightarrow> (string \<times> string) option" where
  "rsplit_once c s = map_option (\<lambda>(a, b). (rev b, rev a)) (split_once c (rev s))"

text \<open>\<open>s.split(c)\<close>: never empty, one more piece than there are separators.\<close>

fun split_on :: "char \<Rightarrow> string \<Rightarrow> string list" where
  "split_on c [] = [[]]"
| "split_on c (x # xs) =
     (if x = c then [] # split_on c xs
      else (case split_on c xs of [] \<Rightarrow> [[x]] | p # ps \<Rightarrow> (x # p) # ps))"

fun join_on :: "char \<Rightarrow> string list \<Rightarrow> string" where
  "join_on c [] = []"
| "join_on c [p] = p"
| "join_on c (p # q # ps) = p @ [c] @ join_on c (q # ps)"

definition trim_end_char :: "char \<Rightarrow> string \<Rightarrow> string" where
  "trim_end_char c s = rev (dropWhile (\<lambda>x. x = c) (rev s))"

definition trim_start_char :: "char \<Rightarrow> string \<Rightarrow> string" where
  "trim_start_char c s = dropWhile (\<lambda>x. x = c) s"

text \<open>The UTF-8 encodings of the code points with the Unicode \<open>White_Space\<close> property.\<close>

definition whitespace_seqs :: "string list" where
  "whitespace_seqs =
     [[CHR 0x09], [CHR 0x0A], [CHR 0x0B], [CHR 0x0C], [CHR 0x0D], [CHR 0x20],
      [CHR 0xC2, CHR 0x85], [CHR 0xC2, CHR 0xA0], [CHR 0xE1, CHR 0x9A, CHR 0x80],
      [CHR 0xE2, CHR 0x80, CHR 0x80], [CHR 0xE2, CHR 0x80, CHR 0x81],
      [CHR 0xE2, CHR 0x80, CHR 0x82], [CHR 0xE2, CHR 0x80, CHR 0x83],
      [CHR 0xE2, CHR 0x80, CHR 0x84], [CHR 0xE2, CHR 0x80, CHR 0x85],
      [CHR 0xE2, CHR 0x80, CHR 0x86], [CHR 0xE2, CHR 0x80, CHR 0x87],
      [CHR 0xE2, CHR 0x80, CHR 0x88], [CHR 0xE2, CHR 0x80, CHR 0x89],
      [CHR 0xE2, CHR 0x80, CHR 0x8A], [CHR 0xE2, CHR 0x80, CHR 0xA8],
      [CHR 0xE2, CHR 0x80, CHR 0xA9], [CHR 0xE2, CHR 0x80, CHR 0xAF],
      [CHR 0xE2, CHR 0x81, CHR 0x9F], [CHR 0xE3, CHR 0x80, CHR 0x80]]"

function strip_seqs :: "string list \<Rightarrow> string \<Rightarrow> string" where
  "strip_seqs ws s =
     (case find (\<lambda>w. w \<noteq> [] \<and> starts_with s w) ws of
        None \<Rightarrow> s
      | Some w \<Rightarrow> strip_seqs ws (drop (length w) s))"
  by pat_completeness auto
termination
proof (relation "measure (\<lambda>(ws, s). length s)")
  fix ws s w
  assume "find (\<lambda>w. w \<noteq> [] \<and> starts_with s w) ws = Some w"
  then have "w \<noteq> []" and "take (length w) s = w"
    by (auto simp: find_Some_iff starts_with_def)
  then have "s \<noteq> []" and "0 < length w" by auto
  then show "((ws, drop (length w) s), (ws, s)) \<in> measure (\<lambda>(ws, s). length s)"
    by simp
qed simp

declare strip_seqs.simps [simp del]

definition trim_start :: "string \<Rightarrow> string" where
  "trim_start s = strip_seqs whitespace_seqs s"

definition trim_end :: "string \<Rightarrow> string" where
  "trim_end s = rev (strip_seqs (map rev whitespace_seqs) (rev s))"

definition trim :: "string \<Rightarrow> string" where
  "trim s = trim_end (trim_start s)"

lemma length_strip_seqs: "length (strip_seqs ws s) \<le> length s"
proof (induction ws s rule: strip_seqs.induct)
  case (1 ws s)
  then show ?case
    by (subst strip_seqs.simps) (auto split: option.splits intro: le_trans)
qed

lemma length_trim: "length (trim s) \<le> length s"
  unfolding trim_def trim_end_def trim_start_def
  using length_strip_seqs[of whitespace_seqs s]
    length_strip_seqs[of "map rev whitespace_seqs" "rev (strip_seqs whitespace_seqs s)"] by simp

subsection \<open>Characters\<close>

abbreviation code_of :: "char \<Rightarrow> nat" where
  "code_of c \<equiv> of_char c"

definition is_digit :: "char \<Rightarrow> bool" where
  "is_digit c \<longleftrightarrow> c \<in> set ''0123456789''"

definition is_upper :: "char \<Rightarrow> bool" where
  "is_upper c \<longleftrightarrow> 65 \<le> code_of c \<and> code_of c \<le> 90"

definition is_lower :: "char \<Rightarrow> bool" where
  "is_lower c \<longleftrightarrow> 97 \<le> code_of c \<and> code_of c \<le> 122"

definition is_alnum :: "char \<Rightarrow> bool" where
  "is_alnum c \<longleftrightarrow> is_digit c \<or> is_upper c \<or> is_lower c"

definition to_lower :: "char \<Rightarrow> char" where
  "to_lower c = (if is_upper c then char_of (code_of c + 32) else c)"

definition ascii_lowercase :: "string \<Rightarrow> string" where
  "ascii_lowercase s = map to_lower s"

definition to_upper :: "char \<Rightarrow> char" where
  "to_upper c = (if is_lower c then char_of (code_of c - 32) else c)"

definition ascii_uppercase :: "string \<Rightarrow> string" where
  "ascii_uppercase s = map to_upper s"

definition eq_ignore_ascii_case :: "string \<Rightarrow> string \<Rightarrow> bool" where
  "eq_ignore_ascii_case a b \<longleftrightarrow> ascii_lowercase a = ascii_lowercase b"

text \<open>Visible ASCII characters; a word begins and ends with one, so trimming stops there.\<close>

definition visible :: "char \<Rightarrow> bool" where
  "visible c \<longleftrightarrow> 32 < code_of c \<and> code_of c < 127"

definition visible_word :: "string \<Rightarrow> bool" where
  "visible_word s \<longleftrightarrow> s \<noteq> [] \<and> visible (hd s) \<and> visible (last s)"

lemma whitespace_not_visible:
  "list_all (\<lambda>w. \<not> visible (hd w)) whitespace_seqs" "list_all (\<lambda>w. \<not> visible (hd w)) (map rev whitespace_seqs)"
  by (simp_all add: whitespace_seqs_def visible_def)

lemma strip_seqs_visible:
  assumes "list_all (\<lambda>w. \<not> visible (hd w)) ws" "visible c"
  shows "strip_seqs ws (c # s) = c # s"
proof -
  have "\<not> (w \<noteq> [] \<and> starts_with (c # s) w)" if "w \<in> set ws" for w
    using assms that by (cases w) (auto simp: starts_with_def list_all_iff)
  then have "find (\<lambda>w. w \<noteq> [] \<and> starts_with (c # s) w) ws = None" by (auto simp: find_None_iff)
  then show ?thesis by (subst strip_seqs.simps) simp
qed

lemma strip_seqs_space:
  "strip_seqs whitespace_seqs (CHR '' '' # s) = strip_seqs whitespace_seqs s"
  "strip_seqs (map rev whitespace_seqs) (CHR '' '' # s) = strip_seqs (map rev whitespace_seqs) s"
  by (subst strip_seqs.simps, simp add: whitespace_seqs_def starts_with_def)+

lemma trim_word:
  assumes "visible_word s"
  shows "trim s = s" "trim (CHR '' '' # s) = s" "trim (s @ [CHR '' '']) = s" "trim (CHR '' '' # s @ [CHR '' '']) = s"
proof -
  obtain c r where s: "s = c # r" "visible c" using assms by (cases s) (auto simp: visible_word_def)
  obtain d q where rs: "rev s = d # q" "visible d"
    using assms by (cases "rev s") (auto simp: visible_word_def hd_rev[symmetric])
  have start: "trim_start (s @ t) = s @ t" "trim_start (CHR '' '' # s @ t) = s @ t" for t
    using s by (simp_all add: trim_start_def strip_seqs_space strip_seqs_visible[OF whitespace_not_visible(1)])
  have "trim_end s = s" "trim_end (s @ [CHR '' '']) = s"
    using rs strip_seqs_visible[OF whitespace_not_visible(2) rs(2)]
    by (simp_all add: trim_end_def strip_seqs_space rev_swap)
  then show "trim s = s" "trim (CHR '' '' # s) = s" "trim (s @ [CHR '' '']) = s" "trim (CHR '' '' # s @ [CHR '' '']) = s"
    using start[of "[]"] start[of "[CHR '' '']"] by (simp_all add: trim_def)
qed

subsection \<open>UTF-8\<close>

text \<open>
  \<open>utf8_step s\<close> looks at the front of a non-empty byte string: whether it starts with a
  well-formed sequence, and how many bytes that sequence, or the maximal ill-formed piece that
  \<open>String::from_utf8_lossy\<close> replaces by one U+FFFD, takes.
\<close>

definition byte_in :: "nat \<Rightarrow> nat \<Rightarrow> string \<Rightarrow> nat \<Rightarrow> bool" where
  "byte_in lo hi s i \<longleftrightarrow> i < length s \<and> lo \<le> code_of (s ! i) \<and> code_of (s ! i) \<le> hi"

definition utf8_step :: "string \<Rightarrow> bool \<times> nat" where
  "utf8_step s =
     (let a = code_of (hd s);
          two = (\<lambda>lo hi. byte_in lo hi s 1);
          cont = byte_in 0x80 0xBF s;
          three = (\<lambda>lo hi. if \<not> two lo hi then (False, 1)
                          else if \<not> cont 2 then (False, 2) else (True, 3));
          four = (\<lambda>lo hi. if \<not> two lo hi then (False, 1)
                         else if \<not> cont 2 then (False, 2)
                         else if \<not> cont 3 then (False, 3) else (True, 4))
      in if a < 0x80 then (True, 1)
         else if a < 0xC2 then (False, 1)
         else if a < 0xE0 then (if cont 1 then (True, 2) else (False, 1))
         else if a = 0xE0 then three 0xA0 0xBF
         else if a = 0xED then three 0x80 0x9F
         else if a < 0xF0 then three 0x80 0xBF
         else if a = 0xF0 then four 0x90 0xBF
         else if a < 0xF4 then four 0x80 0xBF
         else if a = 0xF4 then four 0x80 0x8F
         else (False, 1))"

lemma utf8_step_pos: "0 < snd (utf8_step s)"
  by (simp add: utf8_step_def Let_def)

text \<open>The pieces of a byte string, each with its verdict.\<close>

function utf8_pieces :: "string \<Rightarrow> (bool \<times> string) list" where
  "utf8_pieces s =
     (if s = [] then []
      else (case utf8_step s of (ok, n) \<Rightarrow> (ok, take n s) # utf8_pieces (drop n s)))"
  by pat_completeness auto
termination
proof (relation "measure length", goal_cases)
  case (2 s ok n)
  then have "0 < n" using utf8_step_pos[of s] by (metis snd_conv)
  with 2 show ?case by simp
qed simp

declare utf8_pieces.simps [simp del]

definition utf8_valid :: "string \<Rightarrow> bool" where
  "utf8_valid s \<longleftrightarrow> list_all fst (utf8_pieces s)"

definition from_utf8_lossy :: "string \<Rightarrow> string" where
  "from_utf8_lossy s =
     concat (map (\<lambda>(ok, p). if ok then p else [CHR 0xEF, CHR 0xBF, CHR 0xBD]) (utf8_pieces s))"

definition code_point :: "string \<Rightarrow> nat" where
  "code_point p =
     (let a = code_of (hd p);
          lead = (if a < 0x80 then a else if a < 0xE0 then a - 0xC0
                  else if a < 0xF0 then a - 0xE0 else a - 0xF0)
      in foldl (\<lambda>n c. n * 64 + (code_of c - 0x80)) lead (tl p))"

text \<open>\<open>chars()\<close> of a Rust string, which is always well-formed.\<close>

definition utf8_chars :: "string \<Rightarrow> nat list" where
  "utf8_chars s = map (code_point \<circ> snd) (utf8_pieces s)"

lemma concat_utf8_pieces: "concat (map snd (utf8_pieces s)) = s"
proof (induction s rule: utf8_pieces.induct)
  case (1 s)
  then show ?case by (subst utf8_pieces.simps) (auto split: prod.splits)
qed

lemma from_utf8_lossy_valid [simp]: "utf8_valid s \<Longrightarrow> from_utf8_lossy s = s"
proof -
  assume "utf8_valid s"
  then have eq: "map (\<lambda>(ok, p). if ok then p else [CHR 0xEF, CHR 0xBF, CHR 0xBD]) (utf8_pieces s)
      = map snd (utf8_pieces s)"
    by (auto simp: utf8_valid_def list_all_iff)
  show ?thesis unfolding from_utf8_lossy_def eq by (rule concat_utf8_pieces)
qed

lemma utf8_valid_ascii: "list_all (\<lambda>c. code_of c < 128) s \<Longrightarrow> utf8_valid s"
proof (induction s)
  case Nil
  then show ?case by (simp add: utf8_valid_def utf8_pieces.simps)
next
  case (Cons c s)
  then have "utf8_step (c # s) = (True, 1)" by (simp add: utf8_step_def)
  with Cons show ?case by (simp add: utf8_valid_def utf8_pieces.simps[of "c # s"])
qed

subsection \<open>Decimal integers\<close>

definition digit_char :: "nat \<Rightarrow> char" where
  "digit_char d = ''0123456789'' ! d"

fun show_nat :: "nat \<Rightarrow> string" where
  "show_nat n = (if n < 10 then [digit_char n] else show_nat (n div 10) @ [digit_char (n mod 10)])"

declare show_nat.simps [simp del]

definition show_int :: "int \<Rightarrow> string" where
  "show_int i = (if i < 0 then CHR ''-'' # show_nat (nat (- i)) else show_nat (nat i))"

text \<open>\<open>{:0width}\<close> of an unsigned number.\<close>

definition show_padded :: "nat \<Rightarrow> nat \<Rightarrow> string" where
  "show_padded width n = (let s = show_nat n in replicate (width - length s) (CHR ''0'') @ s)"

text \<open>\<open>{:X}\<close>.\<close>

fun show_hex_upper :: "nat \<Rightarrow> string" where
  "show_hex_upper n =
     (if n < 16 then [''0123456789ABCDEF'' ! n]
      else show_hex_upper (n div 16) @ [''0123456789ABCDEF'' ! (n mod 16)])"

declare show_hex_upper.simps [simp del]

definition digit_val :: "char \<Rightarrow> nat" where
  "digit_val c = code_of c - 48"

definition digits_value :: "string \<Rightarrow> nat" where
  "digits_value s = foldl (\<lambda>n c. 10 * n + digit_val c) 0 s"

definition parse_nat :: "string \<Rightarrow> nat option" where
  "parse_nat s = (if s \<noteq> [] \<and> list_all is_digit s then Some (digits_value s) else None)"

definition i64_min :: int where "i64_min = - (2 ^ 63)"
definition i64_max :: int where "i64_max = 2 ^ 63 - 1"
definition in_i64 :: "int \<Rightarrow> bool" where
  "in_i64 i \<longleftrightarrow> i64_min \<le> i \<and> i \<le> i64_max"

text \<open>\<open>str::parse::<i64>\<close>: an optional sign, at least one digit, and the value in range.\<close>

definition parse_i64 :: "string \<Rightarrow> int option" where
  "parse_i64 s =
     (let v = (case s of
           [] \<Rightarrow> None
         | c # r \<Rightarrow>
             if c = CHR ''-'' then map_option (\<lambda>n. - int n) (parse_nat r)
             else if c = CHR ''+'' then map_option int (parse_nat r)
             else map_option int (parse_nat s))
      in case v of Some i \<Rightarrow> if in_i64 i then Some i else None | None \<Rightarrow> None)"

text \<open>\<open>parse::<usize>\<close>.\<close>

definition parse_usize :: "string \<Rightarrow> nat option" where
  "parse_usize s =
     Option.bind (parse_nat (case s of c # r \<Rightarrow> if c = CHR ''+'' then r else s | [] \<Rightarrow> s))
       (\<lambda>n. if n < 2 ^ 64 then Some n else None)"

text \<open>
  Whether \<open>str::parse::<f64>\<close> accepts a string: an optional sign, then \<open>inf\<close>, \<open>infinity\<close> or
  \<open>nan\<close> in any case, or a decimal number with an optional exponent.
\<close>

definition is_decimal :: "string \<Rightarrow> bool" where
  "is_decimal s =
     (case split_on (CHR ''.'') s of
        [a] \<Rightarrow> a \<noteq> [] \<and> list_all is_digit a
      | [a, b] \<Rightarrow> a @ b \<noteq> [] \<and> list_all is_digit (a @ b)
      | _ \<Rightarrow> False)"

definition strip_sign :: "string \<Rightarrow> string" where
  "strip_sign s = (case s of [] \<Rightarrow> [] | c # r \<Rightarrow> if c = CHR ''-'' \<or> c = CHR ''+'' then r else s)"

definition parses_f64 :: "string \<Rightarrow> bool" where
  "parses_f64 s =
     (let u = strip_sign s in
      ascii_lowercase u \<in> {''inf'', ''infinity'', ''nan''} \<or>
      (case split_on (CHR ''e'') (ascii_lowercase u) of
         [m] \<Rightarrow> is_decimal m
       | [m, x] \<Rightarrow> is_decimal m \<and> (let d = strip_sign x in d \<noteq> [] \<and> list_all is_digit d)
       | _ \<Rightarrow> False))"

subsection \<open>Lemmas\<close>

lemma starts_with_append [simp]: "starts_with (p @ s) p"
  by (simp add: starts_with_def)

lemma starts_with_iff: "starts_with s p \<longleftrightarrow> (\<exists>r. s = p @ r)"
  unfolding starts_with_def by (metis append_eq_conv_conj append_take_drop_id)

lemma ends_with_iff: "ends_with s p \<longleftrightarrow> (\<exists>r. s = r @ p)"
  unfolding ends_with_def
  by (metis append_take_drop_id add_diff_cancel_right' append_eq_conv_conj diff_le_self
      le_add2 length_append)

lemma strip_prefix_append [simp]: "strip_prefix p (p @ s) = Some s"
  by (simp add: strip_prefix_def)

lemma strip_prefix_Some_iff: "strip_prefix p s = Some r \<longleftrightarrow> s = p @ r"
  by (auto simp: strip_prefix_def starts_with_iff)

lemma split_on_nonempty [simp]: "split_on c s \<noteq> []"
  by (induction s) (auto split: list.splits)

lemma split_on_no_sep: "c \<notin> set s \<Longrightarrow> split_on c s = [s]"
  by (induction s) auto

lemma split_on_concat: "split_on c (s @ c # t) = split_on c s @ split_on c t"
proof (induction s)
  case (Cons x s)
  then show ?case by (cases "split_on c s") auto
qed simp

lemma split_on_append:
  "c \<notin> set p \<Longrightarrow> split_on c (p @ c # s) = p # split_on c s"
  by (simp add: split_on_concat split_on_no_sep)

lemma split_on_pieces: "p \<in> set (split_on c s) \<Longrightarrow> c \<notin> set p"
  by (induction s arbitrary: p) (auto split: list.splits if_splits)

lemma split_on_Cons_simps:
  "split_on c (c # xs) = [] # split_on c xs"
  "x \<noteq> c \<Longrightarrow> split_on c (x # xs) = (x # hd (split_on c xs)) # tl (split_on c xs)"
  by (auto split: list.splits)

lemma join_split: "join_on c (split_on c s) = s"
proof (induction s)
  case (Cons x xs)
  obtain p ps where ps: "split_on c xs = p # ps" by (cases "split_on c xs") simp_all
  show ?case
  proof (cases "x = c")
    case True
    with Cons ps show ?thesis by simp
  next
    case False
    with Cons ps show ?thesis by (cases ps) auto
  qed
qed simp

lemma last_split_on:
  "c \<notin> set t \<Longrightarrow> last (split_on c (s @ c # t)) = t"
  by (simp add: split_on_concat split_on_no_sep)

lemma last_split_no_sep: "c \<notin> set (last (split_on c s))"
  by (rule split_on_pieces[OF last_in_set]) simp

lemma digit_cases: "d < 10 \<Longrightarrow> d = 0 \<or> d = 1 \<or> d = 2 \<or> d = 3 \<or> d = 4 \<or> d = 5 \<or> d = 6 \<or> d = 7 \<or> d = 8 \<or> d = (9::nat)"
  by arith

lemma is_digit_digit_char [simp]: "d < 10 \<Longrightarrow> is_digit (digit_char d)"
  by (drule digit_cases) (auto simp: is_digit_def digit_char_def)

lemma digit_val_digit_char [simp]: "d < 10 \<Longrightarrow> digit_val (digit_char d) = d"
  by (drule digit_cases) (auto simp: digit_val_def digit_char_def)

lemma digit_char_digit_val: "is_digit c \<Longrightarrow> digit_char (digit_val c) = c"
  by (auto simp: is_digit_def digit_val_def digit_char_def)

lemma digit_val_less: "is_digit c \<Longrightarrow> digit_val c < 10"
  by (auto simp: is_digit_def digit_val_def)

lemma show_nat_nonempty [simp]: "show_nat n \<noteq> []"
  by (subst show_nat.simps) simp

lemma show_nat_digits: "list_all is_digit (show_nat n)"
proof (induction n rule: show_nat.induct)
  case (1 n)
  then show ?case by (subst show_nat.simps) simp
qed

lemma digits_value_snoc [simp]: "digits_value (s @ [c]) = 10 * digits_value s + digit_val c"
  by (simp add: digits_value_def)

lemma digits_value_show_nat [simp]: "digits_value (show_nat n) = n"
proof (induction n rule: show_nat.induct)
  case (1 n)
  show ?case
  proof (cases "n < 10")
    case True
    then show ?thesis by (subst show_nat.simps) (simp add: digits_value_def)
  next
    case False
    with 1 have "digits_value (show_nat (n div 10)) = n div 10" by simp
    with False show ?thesis by (subst show_nat.simps) simp
  qed
qed

lemma parse_nat_show_nat [simp]: "parse_nat (show_nat n) = Some n"
  by (simp add: parse_nat_def show_nat_digits)

lemma show_nat_inject [simp]: "show_nat m = show_nat n \<longleftrightarrow> m = n"
  by (metis digits_value_show_nat)

lemma not_digit_sign [simp]: "\<not> is_digit (CHR ''-'')" "\<not> is_digit (CHR ''+'')"
  by (simp_all add: is_digit_def)

lemma show_nat_hd_digit: "show_nat n = c # r \<Longrightarrow> is_digit c"
  using show_nat_digits[of n] by simp

lemma digit_visible: "is_digit c \<Longrightarrow> visible c"
  unfolding is_digit_def visible_def by auto

lemma show_nat_visible: "list_all visible (show_nat n)" "visible (hd (show_nat n))" "visible (last (show_nat n))"
  "visible_word (show_nat n)"
proof -
  show all: "list_all visible (show_nat n)" using show_nat_digits[of n] digit_visible by (auto simp: list_all_iff)
  then show ends: "visible (hd (show_nat n))" "visible (last (show_nat n))" by (simp_all add: list_all_iff)
  then show "visible_word (show_nat n)" by (simp add: visible_word_def)
qed

lemma not_in_show_nat: "\<not> is_digit c \<Longrightarrow> c \<notin> set (show_nat n)"
  using show_nat_digits[of n] by (auto simp: list_all_iff)

lemma split_once_append: "c \<notin> set u \<Longrightarrow> split_once c (u @ c # w) = Some (u, w)"
  unfolding split_once_def by (induction u) auto

lemma rsplit_once_append: "c \<notin> set w \<Longrightarrow> rsplit_once c (u @ c # w) = Some (u, w)"
  by (simp add: rsplit_once_def split_once_append)

lemma parse_usize_show: "n < 2 ^ 64 \<Longrightarrow> parse_usize (show_nat n) = Some n"
proof -
  assume n: "n < 2 ^ 64"
  obtain c r where s: "show_nat n = c # r" using show_nat_nonempty[of n] by (cases "show_nat n") blast+
  then have "c \<noteq> CHR ''+''" using show_nat_hd_digit[OF s] by (auto simp: is_digit_def)
  with n s parse_nat_show_nat[of n] show ?thesis by (simp add: parse_usize_def)
qed

lemma parse_i64_show_int [simp]:
  assumes "in_i64 i"
  shows "parse_i64 (show_int i) = Some i"
proof (cases "i < 0")
  case True
  then show ?thesis using assms by (simp add: parse_i64_def show_int_def)
next
  case False
  obtain c r where cr: "show_nat (nat i) = c # r" by (cases "show_nat (nat i)") simp_all
  then have "is_digit c" by (rule show_nat_hd_digit)
  then have "c \<noteq> CHR ''-''" "c \<noteq> CHR ''+''" by auto
  moreover have "parse_nat (c # r) = Some (nat i)" by (simp flip: cr)
  ultimately show ?thesis using assms False cr by (simp add: parse_i64_def show_int_def)
qed

lemma parse_i64_range: "parse_i64 s = Some i \<Longrightarrow> in_i64 i"
  by (auto simp: parse_i64_def Let_def split: option.splits if_splits)

lemma show_int_inject [simp]: "show_int i = show_int j \<longleftrightarrow> i = j"
proof
  assume eq: "show_int i = show_int j"
  have neg: "CHR ''-'' # s \<noteq> show_nat n" for s n
    using show_nat_hd_digit[of n "CHR ''-''" s] by auto
  show "i = j"
    using eq neg neg[symmetric] by (auto simp: show_int_def split: if_splits)
qed simp

lemma show_int_nonempty [simp]: "show_int i \<noteq> []"
  by (simp add: show_int_def)

lemma to_lower_idem [simp]: "to_lower (to_lower c) = to_lower c"
proof (cases "is_upper c")
  case True
  then have "code_of c + 32 < 256" and "\<not> is_upper (char_of (code_of c + 32))"
    by (auto simp: is_upper_def of_char_of)
  with True show ?thesis by (simp add: to_lower_def)
qed (simp add: to_lower_def)

lemma ascii_lowercase_idem [simp]: "ascii_lowercase (ascii_lowercase s) = ascii_lowercase s"
  by (simp add: ascii_lowercase_def)

end
