(* ===== verification/F64.thy ===== *)
theory F64
  imports Rust_Strings "HOL-Library.Countable"
begin

text \<open>
  Prelude: the double-precision numbers of Rust's \<open>f64\<close>.

  A number is not-a-number or its exact value; the infinities are the values \<open>2 ^ 1024\<close> and
  \<open>- (2 ^ 1024)\<close>, just past the finite ones, and the two zeros are one value (no service tells them
  apart).  \<open>f64_round\<close> is the rounding to the nearest double, ties to even, that conversions,
  literals and arithmetic have in common; \<open>parse_f64\<close> is \<open>str::parse::<f64>\<close>.
\<close>

datatype f64 = F64_NaN | F64 rat

subsection \<open>Rounding\<close>

definition pow2 :: "int \<Rightarrow> rat" where
  "pow2 e = (if 0 \<le> e then 2 ^ nat e else 1 / 2 ^ nat (- e))"

fun log2_nat :: "nat \<Rightarrow> nat" where
  "log2_nat n = (if n < 2 then 0 else Suc (log2_nat (n div 2)))"

declare log2_nat.simps [simp del]

text \<open>The exponent of the leading bit of a positive number.\<close>

definition log2_rat :: "rat \<Rightarrow> int" where
  "log2_rat q =
     (case quotient_of q of (n, d) \<Rightarrow>
        let k = int (log2_nat (nat n)) - int (log2_nat (nat d)) in if pow2 k \<le> q then k else k - 1)"

definition round_even :: "rat \<Rightarrow> int" where
  "round_even q =
     (let n = \<lfloor>q\<rfloor>; f = q - of_int n in
      if f < 1 / 2 \<or> (f = 1 / 2 \<and> even n) then n else n + 1)"

text \<open>The unit in the last place: 53 significant bits, and never below the smallest subnormal.\<close>

definition f64_ulp :: "rat \<Rightarrow> int" where
  "f64_ulp q = max (-1074) (log2_rat q - 52)"

definition f64_inf :: rat where
  "f64_inf = 2 ^ 1024"

definition f64_round :: "rat \<Rightarrow> rat" where
  "f64_round q =
     (if q = 0 then 0
      else let u = pow2 (f64_ulp \<bar>q\<bar>)
           in sgn q * min f64_inf (of_int (round_even (\<bar>q\<bar> / u)) * u))"

definition f64_of_int :: "int \<Rightarrow> f64" where
  "f64_of_int n = F64 (f64_round (of_int n))"

definition f64_finite :: "f64 \<Rightarrow> bool" where
  "f64_finite x = (case x of F64_NaN \<Rightarrow> False | F64 q \<Rightarrow> \<bar>q\<bar> < f64_inf)"

text \<open>The comparison operators of \<open>f64\<close>: not-a-number satisfies none of them.\<close>

fun f64_eq :: "f64 \<Rightarrow> f64 \<Rightarrow> bool" where
  "f64_eq (F64 x) (F64 y) = (x = y)"
| "f64_eq _ _ = False"

fun f64_less :: "f64 \<Rightarrow> f64 \<Rightarrow> bool" where
  "f64_less (F64 x) (F64 y) = (x < y)"
| "f64_less _ _ = False"

subsection \<open>Decimal text\<close>

text \<open>The value of a mantissa \<open>a.b\<close> with a decimal exponent.\<close>

definition decimal_value :: "string \<Rightarrow> int \<Rightarrow> rat" where
  "decimal_value m x =
     (let parts = split_on (CHR ''.'') m;
          frac = concat (tl parts);
          k = x - int (length frac);
          n = of_nat (digits_value (hd parts @ frac))
      in if 0 \<le> k then n * 10 ^ nat k else n / 10 ^ nat (- k))"

definition signed_digits :: "string \<Rightarrow> int" where
  "signed_digits s =
     (case s of c # r \<Rightarrow> if c = CHR ''-'' then - int (digits_value r) else int (digits_value (strip_sign s))
      | [] \<Rightarrow> 0)"

definition parse_f64 :: "string \<Rightarrow> f64 option" where
  "parse_f64 s =
     (if \<not> parses_f64 s then None
      else
        let neg = starts_with s ''-'';
            u = ascii_lowercase (strip_sign s);
            sign = (\<lambda>q. if neg then - q else q)
        in Some (if u = ''nan'' then F64_NaN
                 else if u = ''inf'' \<or> u = ''infinity'' then F64 (sign f64_inf)
                 else (case split_on (CHR ''e'') u of
                         [m, x] \<Rightarrow> F64 (sign (f64_round (decimal_value m (signed_digits x))))
                       | _ \<Rightarrow> F64 (sign (f64_round (decimal_value u 0))))))"

subsection \<open>Small integers are exact\<close>

lemma log2_nat_bounds: "0 < n \<Longrightarrow> 2 ^ log2_nat n \<le> n \<and> n < 2 ^ Suc (log2_nat n)"
proof (induction n rule: log2_nat.induct)
  case (1 n)
  show ?case
  proof (cases "n < 2")
    case True
    with 1 show ?thesis by (subst (1 2) log2_nat.simps) auto
  next
    case False
    with 1 have "2 ^ log2_nat (n div 2) \<le> n div 2 \<and> n div 2 < 2 ^ Suc (log2_nat (n div 2))" by auto
    then show ?thesis using False by (subst (1 2) log2_nat.simps) (simp, linarith)
  qed
qed

lemma log2_nat_less: "0 < n \<Longrightarrow> n < 2 ^ k \<Longrightarrow> log2_nat n < k"
  using log2_nat_bounds[of n] by (metis le_less_trans one_less_numeral_iff power_strict_increasing_iff semiring_norm(76))

lemma log2_rat_int:
  assumes "0 < n"
  shows "log2_rat (of_int n) = int (log2_nat (nat n))"
proof -
  have "quotient_of (of_int n) = (n, 1)" by (simp add: quotient_of_int)
  moreover have "log2_nat (nat 1) = 0" by (simp add: log2_nat.simps)
  moreover have "(of_nat (2 ^ log2_nat (nat n)) :: rat) \<le> of_nat (nat n)"
    using log2_nat_bounds[of "nat n"] assms by (intro of_nat_mono) simp
  then have "pow2 (int (log2_nat (nat n))) \<le> of_int n" using assms by (simp add: pow2_def)
  ultimately show ?thesis by (simp add: log2_rat_def Let_def)
qed

lemma round_even_int [simp]: "round_even (of_int n) = n"
  by (simp add: round_even_def)

lemma f64_round_int:
  assumes "\<bar>n\<bar> < 2 ^ 53"
  shows "f64_round (of_int n) = of_int n"
proof (cases "n = 0")
  case False
  let ?q = "of_int \<bar>n\<bar> :: rat"
  have q: "\<bar>of_int n\<bar> = ?q" by simp
  have e: "f64_ulp ?q \<le> 0"
    using log2_rat_int[of "\<bar>n\<bar>"] log2_nat_less[of "nat \<bar>n\<bar>" 53] False assms by (simp add: f64_ulp_def nat_less_iff)
  define k where "k = nat (- f64_ulp ?q)"
  have u: "pow2 (f64_ulp ?q) = 1 / 2 ^ k" using e by (cases "f64_ulp ?q = 0") (auto simp: pow2_def k_def)
  have "?q / (1 / 2 ^ k) = of_int (\<bar>n\<bar> * 2 ^ k)" by simp
  then have r: "of_int (round_even (?q / (1 / 2 ^ k))) * (1 / 2 ^ k) = ?q" by (simp only: round_even_int) simp
  have "(of_int \<bar>n\<bar> :: rat) \<le> of_int (2 ^ 53)" using assms by (intro of_int_le_iff[THEN iffD2]) simp
  also have "\<dots> \<le> f64_inf" unfolding f64_inf_def of_int_power of_int_numeral by (rule power_increasing) simp_all
  finally have "min f64_inf ?q = ?q" by simp
  then show ?thesis unfolding f64_round_def Let_def q u r using False by (simp add: sgn_if)
qed (simp add: f64_round_def)

lemma f64_of_int_small: "\<bar>n\<bar> < 2 ^ 53 \<Longrightarrow> f64_of_int n = F64 (of_int n)"
  by (simp add: f64_of_int_def f64_round_int)

end
