(* ===== verification/Dict.thy ===== *)
theory Dict
  imports F64
begin

text \<open>
  Prelude, part 2: key/value interfaces.

  \<open>dict\<close> is the contract of a keyed store: what a lookup returns after an insert and a removal,
  and that both keep the store's invariant.  The lemmas of the locale (what a sequence of writes
  leaves behind, which writes commute) are proved once.  Its first interpretation is the model of
  \<open>std::collections::BTreeMap\<close>, an association list strictly sorted by key; component theories
  interpret it again on their own tables.
\<close>

locale dict =
  fixes ok :: "'m \<Rightarrow> bool"
    and get :: "'m \<Rightarrow> 'k \<Rightarrow> 'v option"
    and ins :: "'k \<Rightarrow> 'v \<Rightarrow> 'm \<Rightarrow> 'm"
    and del :: "'k \<Rightarrow> 'm \<Rightarrow> 'm"
  assumes ok_ins: "ok m \<Longrightarrow> ok (ins k v m)"
    and ok_del: "ok m \<Longrightarrow> ok (del k m)"
    and get_ins: "ok m \<Longrightarrow> get (ins k v m) j = (if j = k then Some v else get m j)"
    and get_del: "ok m \<Longrightarrow> get (del k m) j = (if j = k then None else get m j)"
begin

lemma get_ins_map: "ok m \<Longrightarrow> get (ins k v m) = (get m)(k \<mapsto> v)"
  by (rule ext) (simp add: get_ins)

lemma get_del_map: "ok m \<Longrightarrow> get (del k m) = (get m)(k := None)"
  by (rule ext) (simp add: get_del)

lemma ok_fold_ins: "ok m \<Longrightarrow> ok (fold (\<lambda>(k, v). ins k v) kvs m)"
  by (induction kvs arbitrary: m) (auto intro: ok_ins)

lemma get_fold_ins: "ok m \<Longrightarrow> get (fold (\<lambda>(k, v). ins k v) kvs m) = get m ++ map_of (rev kvs)"
proof (induction kvs arbitrary: m)
  case (Cons kv kvs)
  obtain k v where kv: "kv = (k, v)" by fastforce
  from Cons.prems have "ok (ins k v m)" by (rule ok_ins)
  then have "get (fold (\<lambda>(k, v). ins k v) kvs (ins k v m)) = get (ins k v m) ++ map_of (rev kvs)"
    by (rule Cons.IH)
  with Cons.prems kv show ?case by (auto simp: get_ins_map map_add_def split: option.splits)
qed simp

lemma ok_fold_del: "ok m \<Longrightarrow> ok (fold del ks m)"
  by (induction ks arbitrary: m) (auto intro: ok_del)

lemma get_fold_del: "ok m \<Longrightarrow> get (fold del ks m) j = (if j \<in> set ks then None else get m j)"
  by (induction ks arbitrary: m) (auto simp: get_del ok_del)

lemma last_write_wins: "ok m \<Longrightarrow> get (ins k v (ins k w m)) = get (ins k v m)"
  by (simp add: get_ins_map ok_ins)

lemma writes_commute: "ok m \<Longrightarrow> j \<noteq> k \<Longrightarrow> get (ins j u (ins k v m)) = get (ins k v (ins j u m))"
  by (simp add: get_ins_map ok_ins fun_upd_twist)

end

subsection \<open>BTreeMap\<close>

type_synonym 'v btree = "(string \<times> 'v) list"

definition bt_ok :: "('k::linorder \<times> 'v) list \<Rightarrow> bool" where
  "bt_ok m \<longleftrightarrow> sorted_wrt (<) (map fst m)"

abbreviation bt_get :: "('k \<times> 'v) list \<Rightarrow> 'k \<Rightarrow> 'v option" where
  "bt_get m k \<equiv> map_of m k"

definition bt_insert :: "'k::linorder \<Rightarrow> 'v \<Rightarrow> ('k \<times> 'v) list \<Rightarrow> ('k \<times> 'v) list" where
  "bt_insert k v m = filter (\<lambda>p. fst p < k) m @ (k, v) # filter (\<lambda>p. k < fst p) m"

definition bt_remove :: "'k::linorder \<Rightarrow> ('k \<times> 'v) list \<Rightarrow> ('k \<times> 'v) list" where
  "bt_remove k m = filter (\<lambda>p. fst p \<noteq> k) m"

text \<open>\<open>BTreeMap::extend\<close> and collecting an iterator of pairs: later pairs overwrite earlier ones.\<close>

definition bt_extend :: "('k::linorder \<times> 'v) list \<Rightarrow> ('k \<times> 'v) list \<Rightarrow> ('k \<times> 'v) list" where
  "bt_extend m kvs = fold (\<lambda>(k, v). bt_insert k v) kvs m"

abbreviation bt_of_list :: "('k::linorder \<times> 'v) list \<Rightarrow> ('k \<times> 'v) list" where
  "bt_of_list kvs \<equiv> bt_extend [] kvs"

lemma bt_ok_Nil [simp]: "bt_ok []"
  by (simp add: bt_ok_def)

lemma bt_ok_filter: "bt_ok m \<Longrightarrow> bt_ok (filter P m)"
  by (simp add: bt_ok_def sorted_wrt_map sorted_wrt_filter)

lemma bt_ok_insert [simp]: "bt_ok m \<Longrightarrow> bt_ok (bt_insert k v m)"
  by (auto simp: bt_ok_def bt_insert_def sorted_wrt_append sorted_wrt_map sorted_wrt_filter
      intro: less_trans)

lemma bt_ok_remove [simp]: "bt_ok m \<Longrightarrow> bt_ok (bt_remove k m)"
  by (simp add: bt_remove_def bt_ok_filter)

lemma bt_ok_distinct: "bt_ok m \<Longrightarrow> distinct (map fst m)"
  using strict_sorted_iff[of "map fst m"] by (simp add: bt_ok_def)

lemma map_of_filter_key: "map_of (filter (\<lambda>p. P (fst p)) m) k = (if P k then map_of m k else None)"
  by (induction m) auto

lemmas bt_filter_keys =
  map_of_filter_key[where P = "\<lambda>x. x < k" for k] map_of_filter_key[where P = "\<lambda>x. k < x" for k]
  map_of_filter_key[where P = "\<lambda>x. x \<noteq> k" for k]

lemma bt_get_insert [simp]:
  "bt_get (bt_insert k v m) j = (if j = k then Some v else bt_get m j)" for k :: "'k::linorder"
  by (cases j k rule: linorder_cases)
     (auto simp: bt_insert_def map_add_def bt_filter_keys split: option.splits)

lemma bt_get_remove [simp]: "bt_get (bt_remove k m) j = (if j = k then None else bt_get m j)"
  by (simp add: bt_remove_def bt_filter_keys)

interpretation btree: dict bt_ok map_of bt_insert bt_remove
  by unfold_locales simp_all

lemma bt_ok_extend [simp]: "bt_ok m \<Longrightarrow> bt_ok (bt_extend m kvs)"
  unfolding bt_extend_def by (rule btree.ok_fold_ins)

lemma bt_get_extend: "bt_ok m \<Longrightarrow> bt_get (bt_extend m kvs) = map_of m ++ map_of (rev kvs)"
  unfolding bt_extend_def by (rule btree.get_fold_ins)

text \<open>A map is determined by its lookups, so equal contents means equal lists.\<close>

lemma bt_ok_Cons: "bt_ok (p # m) \<longleftrightarrow> (\<forall>q\<in>set m. fst p < fst q) \<and> bt_ok m"
  by (auto simp: bt_ok_def)

lemma bt_keys_set: "set (map fst m) = dom (map_of m)"
  by (simp add: dom_map_of_conv_image_fst)

lemma bt_eqI:
  assumes "bt_ok m" "bt_ok n" "map_of m = map_of n"
  shows "m = n"
proof -
  have "set (map fst m) = set (map fst n)"
    using assms(3) by (simp only: bt_keys_set)
  then have keys: "map fst m = map fst n"
    using assms(1,2) by (intro strict_sorted_equal) (auto simp: bt_ok_def)
  have "map snd m = map snd n"
  proof -
    have vals: "map snd l = map (the \<circ> map_of l) (map fst l)" if "distinct (map fst l)"
      for l :: "('a \<times> 'b) list"
      using that by (auto simp: map_of_eq_Some_iff)
    show ?thesis
      using keys assms(3) by (simp only: vals[OF bt_ok_distinct[OF assms(1)]]
          vals[OF bt_ok_distinct[OF assms(2)]])
  qed
  with keys show ?thesis by (metis zip_map_fst_snd)
qed

lemma map_of_rev_distinct: "distinct (map fst m) \<Longrightarrow> map_of (rev m) = map_of m"
  by (rule map_of_eqI) (auto simp: map_of_eq_Some_iff rev_map[symmetric] dest: weak_map_of_SomeI)

lemma bt_of_list_sorted [simp]: "bt_ok m \<Longrightarrow> bt_of_list m = m"
  by (rule bt_eqI) (simp_all add: bt_get_extend map_of_rev_distinct bt_ok_distinct)

lemma bt_ok_map_snd [simp]: "bt_ok (map (\<lambda>(k, v). (k, f v)) m) \<longleftrightarrow> bt_ok m"
  by (simp add: bt_ok_def case_prod_beta comp_def)

end
