(* ===== verification/Json.thy ===== *)
theory Json
  imports Dict
begin

text \<open>
  Prelude, part 3: JSON values and the code outside the repository.

  \<open>json\<close> is \<open>serde_json::Value\<close> (objects are BTreeMaps, the crate's default; a number is an integer
  when it is written as one and a double otherwise).  The crates the services call for text
  encodings, hashes and identifiers are not part of the repository: they are the fields of the
  record \<open>externals\<close>, an argument of every definition that uses one.  What a theorem needs of
  them is one of the named predicates below.
\<close>

datatype json =
    JNull
  | JBool bool
  | JInt int
  | JFloat f64
  | JStr string
  | JArr "json list"
  | JObj "(string \<times> json) list"

text \<open>\<open>Value::get\<close> with a string key, and the \<open>as_\<dots>\<close> projections.\<close>

fun json_get :: "string \<Rightarrow> json \<Rightarrow> json option" where
  "json_get k (JObj m) = map_of m k"
| "json_get k _ = None"

fun as_str :: "json \<Rightarrow> string option" where
  "as_str (JStr s) = Some s"
| "as_str _ = None"

fun as_bool :: "json \<Rightarrow> bool option" where
  "as_bool (JBool b) = Some b"
| "as_bool _ = None"

fun as_i64 :: "json \<Rightarrow> int option" where
  "as_i64 (JInt n) = (if in_i64 n then Some n else None)"
| "as_i64 _ = None"

fun as_u64 :: "json \<Rightarrow> nat option" where
  "as_u64 (JInt n) = (if 0 \<le> n \<and> n < 2 ^ 64 then Some (nat n) else None)"
| "as_u64 _ = None"

fun as_f64 :: "json \<Rightarrow> f64 option" where
  "as_f64 (JInt n) = Some (f64_of_int n)"
| "as_f64 (JFloat x) = Some x"
| "as_f64 _ = None"

fun as_array :: "json \<Rightarrow> json list option" where
  "as_array (JArr xs) = Some xs"
| "as_array _ = None"

fun as_object :: "json \<Rightarrow> (string \<times> json) list option" where
  "as_object (JObj m) = Some m"
| "as_object _ = None"

abbreviation json_str :: "string \<Rightarrow> json \<Rightarrow> string option" where
  "json_str k v \<equiv> Option.bind (json_get k v) as_str"

text \<open>
  The values serde_json reads back exactly as it printed them: every object is a BTreeMap, integers
  have 64 bits, strings are UTF-8, and the nesting stays below the parser's recursion limit.  Numbers
  with a fraction are left out: the crate's default features do not promise to read them back.
\<close>

primrec json_depth :: "json \<Rightarrow> nat" where
  "json_depth JNull = 0"
| "json_depth (JBool b) = 0"
| "json_depth (JInt n) = 0"
| "json_depth (JFloat s) = 0"
| "json_depth (JStr s) = 0"
| "json_depth (JArr xs) = Suc (fold max (map json_depth xs) 0)"
| "json_depth (JObj m) = Suc (fold max (map snd (map (map_prod id json_depth) m)) 0)"

primrec json_exact :: "json \<Rightarrow> bool" where
  "json_exact JNull = True"
| "json_exact (JBool b) = True"
| "json_exact (JInt n) = (- (2 ^ 63) \<le> n \<and> n < 2 ^ 64)"
| "json_exact (JFloat s) = False"
| "json_exact (JStr s) = utf8_valid s"
| "json_exact (JArr xs) = list_all id (map json_exact xs)"
| "json_exact (JObj m) =
     (bt_ok m \<and> list_all (\<lambda>(k, ok). utf8_valid k \<and> ok) (map (map_prod id json_exact) m))"

definition json_ok :: "json \<Rightarrow> bool" where
  "json_ok v \<longleftrightarrow> json_exact v \<and> json_depth v < 128"

subsection \<open>External functions\<close>

record externals =
  json_parse :: "string \<Rightarrow> json option"      \<comment> \<open>serde_json::from_str\<close>
  json_print :: "json \<Rightarrow> string"             \<comment> \<open>Value::to_string\<close>
  md5_raw :: "string \<Rightarrow> string"              \<comment> \<open>lower-case hex MD5 of bytes\<close>
  sha256_hex :: "string \<Rightarrow> string"
  b64_encode :: "string \<Rightarrow> string"           \<comment> \<open>base64 STANDARD\<close>
  b64_decode :: "string \<Rightarrow> string option"
  b64url_encode :: "string \<Rightarrow> string"        \<comment> \<open>base64 URL_SAFE_NO_PAD\<close>
  b64url_decode :: "string \<Rightarrow> string option"
  uuid_v4 :: "nat \<Rightarrow> string"                 \<comment> \<open>the text of the n-th UUID drawn\<close>
  to_rfc3339 :: "int \<Rightarrow> string"              \<comment> \<open>of epoch milliseconds\<close>
  from_rfc3339 :: "string \<Rightarrow> int option"     \<comment> \<open>to epoch seconds\<close>
  json_error :: "string \<Rightarrow> string"           \<comment> \<open>why serde_json::from_str rejects a text\<close>
  iso_millis :: "int \<Rightarrow> string"              \<comment> \<open>chrono, format %Y-%m-%dT%H:%M:%S%.3fZ\<close>
  to_rfc2822 :: "int \<Rightarrow> string"
  rfc3339_micros :: "int \<Rightarrow> string"          \<comment> \<open>chrono, to_rfc3339_opts(Micros, true) of a UTC time\<close>
  reparse_micros :: "string \<Rightarrow> string option" \<comment> \<open>a parsed RFC 3339 text printed that way\<close>
  str_lowercase :: "string \<Rightarrow> string"        \<comment> \<open>str::to_lowercase, by the Unicode tables\<close>

text \<open>Documented behaviour of the crates, used as hypotheses.\<close>

definition b64url_roundtrip :: "externals \<Rightarrow> bool" where
  "b64url_roundtrip E \<longleftrightarrow> (\<forall>s. b64url_decode E (b64url_encode E s) = Some s)"

definition b64_roundtrip :: "externals \<Rightarrow> bool" where
  "b64_roundtrip E \<longleftrightarrow> (\<forall>s. b64_decode E (b64_encode E s) = Some s)"

text \<open>serde_json parses what it prints.\<close>

definition json_roundtrip :: "externals \<Rightarrow> bool" where
  "json_roundtrip E \<longleftrightarrow> (\<forall>v. json_ok v \<longrightarrow> json_parse E (json_print E v) = Some v)"

lemma json_print_inject:
  "json_roundtrip E \<Longrightarrow> json_ok v \<Longrightarrow> json_ok w \<Longrightarrow> json_print E v = json_print E w \<longleftrightarrow> v = w"
  unfolding json_roundtrip_def by (metis option.inject)

text \<open>
  The first character of a base64 text stands for the upper six bits of the first byte (RFC 4648).
\<close>

definition b64url_alphabet :: string where
  "b64url_alphabet = ''ABCDEFGHIJKLMNOPQRSTUVWXYZabcdefghijklmnopqrstuvwxyz0123456789-_''"

definition b64url_head :: "externals \<Rightarrow> bool" where
  "b64url_head E \<longleftrightarrow>
     (\<forall>c s. \<exists>r. b64url_encode E (c # s) = b64url_alphabet ! (code_of c div 4) # r)"

text \<open>Drawn UUIDs differ, and their text is hexadecimal digits and hyphens.\<close>

definition uuid_char :: "char \<Rightarrow> bool" where
  "uuid_char c \<longleftrightarrow> c \<in> set ''0123456789abcdef-''"

definition uuids_fresh :: "externals \<Rightarrow> bool" where
  "uuids_fresh E \<longleftrightarrow> inj (uuid_v4 E) \<and> (\<forall>n. list_all uuid_char (uuid_v4 E n))"

text \<open>\<open>Uuid::simple\<close>: the same text without hyphens.\<close>

definition uuid_simple :: "string \<Rightarrow> string" where
  "uuid_simple u = filter (\<lambda>c. c \<noteq> CHR ''-'') u"

text \<open>
  A concrete instance that satisfies the hypotheses, for witnesses: the base64 functions put the
  right first character in front of the bytes, the n-th UUID is the decimal numeral of n.
\<close>

definition sample_b64url :: "string \<Rightarrow> string" where
  "sample_b64url s = (case s of [] \<Rightarrow> [] | c # r \<Rightarrow> b64url_alphabet ! (code_of c div 4) # s)"

instance f64 :: countable
  by countable_datatype

instance json :: countable
  by countable_datatype

text \<open>JSON values are printed as the numeral of their place in an enumeration.\<close>

definition sample_json_print :: "json \<Rightarrow> string" where
  "sample_json_print v = show_nat (to_nat v)"

definition sample_json_parse :: "string \<Rightarrow> json option" where
  "sample_json_parse s = map_option from_nat (parse_nat s)"

definition sample_ext :: externals where
  "sample_ext =
     \<lparr> json_parse = sample_json_parse, json_print = sample_json_print, md5_raw = (\<lambda>s. s), sha256_hex = (\<lambda>s. s),
       b64_encode = (\<lambda>s. s), b64_decode = Some, b64url_encode = sample_b64url,
       b64url_decode = (\<lambda>s. Some (tl s)),
       uuid_v4 = show_nat, to_rfc3339 = show_int, from_rfc3339 = parse_i64,
       json_error = (\<lambda>s. ''invalid''), iso_millis = show_int, to_rfc2822 = show_int,
       rfc3339_micros = show_int, reparse_micros = Some,
       str_lowercase = ascii_lowercase \<rparr>"

lemma digit_uuid_char: "is_digit c \<Longrightarrow> uuid_char c"
  unfolding is_digit_def uuid_char_def by (simp, elim disjE) simp_all

lemma show_nat_uuid_chars: "list_all uuid_char (show_nat n)"
  using show_nat_digits[of n] by (metis digit_uuid_char list_all_iff)

lemma sample_ext_laws [simp]:
  "b64url_roundtrip sample_ext" "b64_roundtrip sample_ext" "uuids_fresh sample_ext"
  "b64url_head sample_ext" "json_roundtrip sample_ext"
  by (auto simp: sample_ext_def json_roundtrip_def sample_json_print_def sample_json_parse_def b64url_roundtrip_def b64_roundtrip_def uuids_fresh_def
      b64url_head_def sample_b64url_def show_nat_uuid_chars split: list.splits intro: injI)

lemma ascii_b64url_not_p:
  assumes "b64url_head E" "code_of c < 128"
  shows "b64url_encode E (c # s) \<noteq> CHR ''p'' # t"
proof
  assume "b64url_encode E (c # s) = CHR ''p'' # t"
  with assms(1) have p: "b64url_alphabet ! (code_of c div 4) = CHR ''p''"
    by (metis b64url_head_def list.inject)
  have "code_of c div 4 < 32" using assms(2) by simp
  moreover have "length b64url_alphabet = 64" by (simp add: b64url_alphabet_def)
  ultimately have "b64url_alphabet ! (code_of c div 4) \<in> set (take 32 b64url_alphabet)"
    by (simp only: in_set_conv_nth) (intro exI[of _ "code_of c div 4"], simp)
  moreover have "CHR ''p'' \<notin> set (take 32 b64url_alphabet)" by (simp add: b64url_alphabet_def)
  ultimately show False using p by simp
qed

lemma uuid_no_bar: "uuids_fresh E \<Longrightarrow> CHR ''|'' \<notin> set (uuid_v4 E n)"
proof
  assume "uuids_fresh E" and "CHR ''|'' \<in> set (uuid_v4 E n)"
  then have "uuid_char (CHR ''|'')" by (metis list_all_iff uuids_fresh_def)
  then show False by (simp add: uuid_char_def)
qed

lemma uuid_inject: "uuids_fresh E \<Longrightarrow> uuid_v4 E m = uuid_v4 E n \<longleftrightarrow> m = n"
  by (auto simp: uuids_fresh_def inj_def)

lemma b64url_inject: "b64url_roundtrip E \<Longrightarrow> b64url_encode E s = b64url_encode E t \<longleftrightarrow> s = t"
  unfolding b64url_roundtrip_def by (metis option.inject)

end
