(* ===== verification/Service.thy ===== *)
theory Service
  imports Json
begin

text \<open>
  Prelude, part 4: tables, results and the contract of a service.

  SQLite tables are lists of row records in insertion (rowid) order; the generic lemmas below say
  what SQL's DELETE, UPDATE and INSERT keep of a UNIQUE column.  Fallible operations return
  \<open>error + value\<close>.  The locale \<open>service\<close> is the contract of a state machine whose operations keep
  an invariant under a condition on its environment; every service interprets it with its own
  operations, and every run of operations then keeps the invariant.
\<close>

subsection \<open>Results\<close>

type_synonym ('e, 'a) result = "'e + 'a"

definition try_bind :: "('e, 'a) result \<Rightarrow> ('a \<Rightarrow> ('e, 'b) result) \<Rightarrow> ('e, 'b) result" where
  "try_bind x f = (case x of Inl e \<Rightarrow> Inl e | Inr v \<Rightarrow> f v)"

lemma try_bind_simps [simp]: "try_bind (Inl e) f = Inl e" "try_bind (Inr v) f = f v"
  by (simp_all add: try_bind_def)

lemma try_bind_Inr_iff: "try_bind x f = Inr w \<longleftrightarrow> (\<exists>v. x = Inr v \<and> f v = Inr w)"
  by (cases x) auto

text \<open>
  Request handlers thread a state through fallible calls: an action returns its result and the
  state it leaves, also when it fails.
\<close>

type_synonym ('s, 'e, 'a) action = "'s \<Rightarrow> ('e, 'a) result \<times> 's"

definition act_bind :: "('s, 'e, 'a) action \<Rightarrow> ('a \<Rightarrow> ('s, 'e, 'b) action) \<Rightarrow> ('s, 'e, 'b) action" where
  "act_bind m f = (\<lambda>s. case m s of (Inl e, s') \<Rightarrow> (Inl e, s') | (Inr v, s') \<Rightarrow> f v s')"

definition act_result :: "('e, 'a) result \<Rightarrow> ('s, 'e, 'a) action" where
  "act_result r = (\<lambda>s. (r, s))"

definition act_return :: "'a \<Rightarrow> ('s, 'e, 'a) action" where
  "act_return v = (\<lambda>s. (Inr v, s))"

definition act_keeps :: "('s \<Rightarrow> bool) \<Rightarrow> ('s, 'e, 'a) action \<Rightarrow> bool" where
  "act_keeps P m \<longleftrightarrow> (\<forall>s. P s \<longrightarrow> P (snd (m s)))"

lemma act_keepsI: "(\<And>s r s'. P s \<Longrightarrow> m s = (r, s') \<Longrightarrow> P s') \<Longrightarrow> act_keeps P m"
  unfolding act_keeps_def by (metis prod.collapse)

lemma act_keepsD: "act_keeps P m \<Longrightarrow> P s \<Longrightarrow> m s = (r, s') \<Longrightarrow> P s'"
  unfolding act_keeps_def by (metis snd_conv)

lemma act_keeps_bind [intro!]:
  "act_keeps P m \<Longrightarrow> (\<And>v. act_keeps P (f v)) \<Longrightarrow> act_keeps P (act_bind m f)"
  by (rule act_keepsI) (auto simp: act_bind_def split: prod.splits sum.splits dest: act_keepsD)

lemma act_keeps_result [intro!, simp]: "act_keeps P (act_result r)"
  by (simp add: act_keeps_def act_result_def)

lemma act_keeps_return [intro!, simp]: "act_keeps P (act_return v)"
  by (simp add: act_keeps_def act_return_def)

lemma keeps_if: "act_keeps P m \<Longrightarrow> act_keeps P n \<Longrightarrow> act_keeps P (if c then m else n)"
  by simp

lemma keeps_prod: "(\<And>x y. v = (x, y) \<Longrightarrow> act_keeps P (f x y)) \<Longrightarrow> act_keeps P (case v of (x, y) \<Rightarrow> f x y)"
  by (cases v) simp

lemma keeps_option:
  "(v = None \<Longrightarrow> act_keeps P m) \<Longrightarrow> (\<And>x. v = Some x \<Longrightarrow> act_keeps P (f x)) \<Longrightarrow>
   act_keeps P (case v of None \<Rightarrow> m | Some x \<Rightarrow> f x)"
  by (cases v) simp_all

text \<open>What an action returns, beside what it keeps.\<close>

definition act_post :: "('s \<Rightarrow> bool) \<Rightarrow> ('s, 'e, 'a) action \<Rightarrow> ('a \<Rightarrow> bool) \<Rightarrow> bool" where
  "act_post P m Q \<longleftrightarrow> (\<forall>s. P s \<longrightarrow> P (snd (m s)) \<and> (\<forall>v. fst (m s) = Inr v \<longrightarrow> Q v))"

lemma act_keeps_bind_post:
  assumes "act_post P m Q" "\<And>v. Q v \<Longrightarrow> act_keeps P (f v)"
  shows "act_keeps P (act_bind m f)"
proof (rule act_keepsI)
  fix s r s' assume s: "P s" and run: "act_bind m f s = (r, s')"
  obtain v t where m: "m s = (v, t)" by (cases "m s")
  with assms(1) s have "P t" "\<And>w. v = Inr w \<Longrightarrow> Q w" by (auto simp: act_post_def)
  with run m assms(2) show "P s'" by (cases v) (auto simp: act_bind_def dest: act_keepsD)
qed

lemma act_post_bind:
  assumes "act_post P m Q" "\<And>v. Q v \<Longrightarrow> act_post P (f v) R"
  shows "act_post P (act_bind m f) R"
  unfolding act_post_def
proof (intro allI impI)
  fix s assume s: "P s"
  obtain v t where m: "m s = (v, t)" by (cases "m s")
  with assms(1) s have "P t" "\<And>w. v = Inr w \<Longrightarrow> Q w" by (auto simp: act_post_def)
  with m assms(2) show "P (snd (act_bind m f s)) \<and> (\<forall>v. fst (act_bind m f s) = Inr v \<longrightarrow> R v)"
    by (cases v) (auto simp: act_bind_def act_post_def)
qed

lemma act_post_result: "(\<And>v. r = Inr v \<Longrightarrow> Q v) \<Longrightarrow> act_post P (act_result r) Q"
  by (auto simp: act_post_def act_result_def)

lemma act_post_keeps: "act_keeps P m \<Longrightarrow> act_post P m (\<lambda>_. True)"
  by (simp add: act_post_def act_keeps_def)

lemma act_bind_cases:
  assumes "act_bind m f s = (r, s')"
  obtains (fail) e where "m s = (Inl e, s')" "r = Inl e" | (go) v t where "m s = (Inr v, t)" "f v t = (r, s')"
  using assms by (cases "m s"; cases "fst (m s)") (auto simp: act_bind_def)

text \<open>A loop of calls that stops at the first error.\<close>

fun act_all :: "('a \<Rightarrow> ('s, 'e, unit) action) \<Rightarrow> 'a list \<Rightarrow> ('s, 'e, unit) action" where
  "act_all f [] = act_return ()"
| "act_all f (x # xs) = act_bind (f x) (\<lambda>_. act_all f xs)"

lemma act_all_keeps: "(\<And>x. x \<in> set xs \<Longrightarrow> act_keeps P (f x)) \<Longrightarrow> act_keeps P (act_all f xs)"
  by (induction xs) auto

subsection \<open>Seed documents\<close>

text \<open>The list under a key of a seed document, and the text of a value that should be a string.\<close>

definition seed_items :: "string \<Rightarrow> json \<Rightarrow> json list" where
  "seed_items key doc = (case Option.bind (json_get key doc) as_array of Some items \<Rightarrow> items | None \<Rightarrow> [])"

definition plain_text :: "externals \<Rightarrow> json \<Rightarrow> string" where
  "plain_text E v = (case v of JStr s \<Rightarrow> s | _ \<Rightarrow> json_print E v)"

subsection \<open>Rows\<close>

definition sql_update :: "('r \<Rightarrow> bool) \<Rightarrow> ('r \<Rightarrow> 'r) \<Rightarrow> 'r list \<Rightarrow> 'r list" where
  "sql_update P f rows = map (\<lambda>r. if P r then f r else r) rows"

definition sql_delete :: "('r \<Rightarrow> bool) \<Rightarrow> 'r list \<Rightarrow> 'r list" where
  "sql_delete P rows = filter (\<lambda>r. \<not> P r) rows"

definition sql_count :: "('r \<Rightarrow> bool) \<Rightarrow> 'r list \<Rightarrow> nat" where
  "sql_count P rows = length (filter P rows)"

lemma set_sql_update: "set (sql_update P f rows) = (\<lambda>r. if P r then f r else r) ` set rows"
  by (simp add: sql_update_def)

lemma set_sql_delete [simp]: "set (sql_delete P rows) = {r \<in> set rows. \<not> P r}"
  by (simp add: sql_delete_def)

lemma length_sql_update [simp]: "length (sql_update P f rows) = length rows"
  by (simp add: sql_update_def)

lemma map_key_sql_update:
  "(\<And>r. P r \<Longrightarrow> key (f r) = key r) \<Longrightarrow> map key (sql_update P f rows) = map key rows"
  by (simp add: sql_update_def)

lemma distinct_sql_delete [intro]: "distinct (map key rows) \<Longrightarrow> distinct (map key (sql_delete P rows))"
  by (simp add: sql_delete_def distinct_map_filter)

lemma sorted_wrt_sql_delete [intro]:
  "sorted_wrt R (map key rows) \<Longrightarrow> sorted_wrt R (map key (sql_delete P rows))"
  by (simp add: sql_delete_def sorted_wrt_map sorted_wrt_filter)

lemma find_unique:
  assumes "distinct (map key rows)" "r \<in> set rows" "key r = k"
  shows "find (\<lambda>r. key r = k) rows = Some r"
  using assms by (induction rows) (auto simp: image_iff)

lemma find_append: "find P (xs @ ys) = (case find P xs of None \<Rightarrow> find P ys | Some x \<Rightarrow> Some x)"
  by (induction xs) auto

lemma find_Some_set: "find P xs = Some x \<Longrightarrow> x \<in> set xs \<and> P x"
  by (induction xs) (auto split: if_splits)

lemma find_None_set: "find P xs = None \<longleftrightarrow> (\<forall>x\<in>set xs. \<not> P x)"
  by (induction xs) auto

lemma find_sql_delete: "find P (sql_delete Q rows) = find (\<lambda>r. P r \<and> \<not> Q r) rows"
  by (induction rows) (auto simp: sql_delete_def)

lemma key_inject:
  "distinct (map key rows) \<Longrightarrow> r \<in> set rows \<Longrightarrow> s \<in> set rows \<Longrightarrow> key r = key s \<Longrightarrow> r = s"
  by (induction rows) (auto simp: image_iff)

lemma sql_update_none: "(\<And>r. r \<in> set rows \<Longrightarrow> \<not> P r) \<Longrightarrow> sql_update P f rows = rows"
  by (induction rows) (auto simp: sql_update_def)

lemma find_sql_update:
  "(\<And>r. P (f r) = P r) \<Longrightarrow> find P (sql_update Q f rows) = map_option (\<lambda>r. if Q r then f r else r) (find P rows)"
  by (induction rows) (simp_all add: sql_update_def)

text \<open>INSERT .. ON CONFLICT DO UPDATE: the rows that conflict are changed by \<open>f\<close>.\<close>

definition sql_upsert :: "('r \<Rightarrow> bool) \<Rightarrow> ('r \<Rightarrow> 'r) \<Rightarrow> 'r \<Rightarrow> 'r list \<Rightarrow> 'r list" where
  "sql_upsert P f r rows = (if list_ex P rows then sql_update P f rows else rows @ [r])"

lemma find_sql_upsert:
  assumes "P r" "\<And>x. P x \<Longrightarrow> P (f x)"
  shows "find P (sql_upsert P f r rows) = Some (case find P rows of Some x \<Rightarrow> f x | None \<Rightarrow> r)"
proof (induction rows)
  case (Cons x xs)
  then show ?case using assms by (auto simp: sql_upsert_def sql_update_def find_append split: if_splits option.splits)
qed (simp add: sql_upsert_def assms)

lemma sorted_wrt_less_distinct: "sorted_wrt (<) (xs :: 'a :: preorder list) \<Longrightarrow> distinct xs"
  by (induction xs) auto

text \<open>Giving the row of one primary key an unused value of another UNIQUE column.\<close>

lemma distinct_sql_update_key:
  assumes "distinct (map ident rows)" "distinct (map key rows)" "k \<notin> key ` set rows"
    and f: "\<And>r. key (f r) = k"
  shows "distinct (map key (sql_update (\<lambda>r. ident r = i) f rows))"
  using assms(1-3)
proof (induction rows)
  case (Cons r rs)
  show ?case
  proof (cases "ident r = i")
    case True
    with Cons.prems(1) have "sql_update (\<lambda>r. ident r = i) f rs = rs"
      by (intro sql_update_none) (auto simp: image_iff)
    with True Cons.prems f show ?thesis by (auto simp: sql_update_def)
  next
    case False
    have "key r \<notin> set (map key (sql_update (\<lambda>r. ident r = i) f rs))"
      using Cons.prems(2,3) f by (auto simp: set_sql_update image_iff split: if_splits)
    moreover have "distinct (map key (sql_update (\<lambda>r. ident r = i) f rs))" using Cons by simp
    moreover have "sql_update (\<lambda>r. ident r = i) f (r # rs) = r # sql_update (\<lambda>r. ident r = i) f rs"
      using False by (simp add: sql_update_def)
    ultimately show ?thesis by simp
  qed
qed (simp add: sql_update_def)

subsection \<open>Runs of a service\<close>

fun run_ops :: "('op \<Rightarrow> 's \<Rightarrow> 'r \<times> 's) \<Rightarrow> 'op list \<Rightarrow> 's \<Rightarrow> 'r list \<times> 's" where
  "run_ops exec [] s = ([], s)"
| "run_ops exec (x # xs) s =
     (let s' = snd (exec x s) in (fst (exec x s) # fst (run_ops exec xs s'), snd (run_ops exec xs s')))"

lemma run_ops_append:
  "run_ops exec (xs @ ys) s =
     (fst (run_ops exec xs s) @ fst (run_ops exec ys (snd (run_ops exec xs s))),
      snd (run_ops exec ys (snd (run_ops exec xs s))))"
  by (induction xs arbitrary: s) (simp_all add: Let_def)

lemma length_run_ops [simp]: "length (fst (run_ops exec xs s)) = length xs"
  by (induction xs arbitrary: s) (simp_all add: Let_def)

lemma run_ops_nth:
  "k < length xs \<Longrightarrow> fst (run_ops exec xs s) ! k = fst (exec (xs ! k) (snd (run_ops exec (take k xs) s)))"
  by (induction xs arbitrary: s k) (auto simp: Let_def nth_Cons split: nat.split)

locale service =
  fixes env_ok :: "'env \<Rightarrow> bool"
    and init :: "'s"
    and exec :: "'env \<Rightarrow> 'op \<Rightarrow> 's \<Rightarrow> 'r \<times> 's"
    and inv :: "'env \<Rightarrow> 's \<Rightarrow> bool"
  assumes inv_init: "env_ok e \<Longrightarrow> inv e init"
    and inv_exec: "env_ok e \<Longrightarrow> inv e s \<Longrightarrow> inv e (snd (exec e x s))"
begin

lemma inv_run: "env_ok e \<Longrightarrow> inv e s \<Longrightarrow> inv e (snd (run_ops (exec e) xs s))"
proof (induction xs arbitrary: s)
  case (Cons x xs)
  then show ?case by (simp add: Let_def inv_exec)
qed simp

text \<open>A further invariant and a fact about every response, for operations of a given kind.\<close>

lemma run_with:
  assumes env: "env_ok e"
    and step: "\<And>s x. inv e s \<Longrightarrow> I s \<Longrightarrow> A x \<Longrightarrow> I (snd (exec e x s)) \<and> P (fst (exec e x s))"
    and start: "inv e s" "I s" "\<forall>x\<in>set xs. A x"
  shows "I (snd (run_ops (exec e) xs s)) \<and> (\<forall>r\<in>set (fst (run_ops (exec e) xs s)). P r)"
  using start
proof (induction xs arbitrary: s)
  case (Cons x xs)
  then have "I (snd (exec e x s)) \<and> P (fst (exec e x s))" "inv e (snd (exec e x s))"
    using step[of s x] inv_exec[OF env] by auto
  with Cons.IH[of "snd (exec e x s)"] Cons.prems(3) show ?case by (auto simp: Let_def)
qed simp

lemma inv_reached: "env_ok e \<Longrightarrow> inv e (snd (run_ops (exec e) xs init))"
  by (rule inv_run) (simp_all add: inv_init)

end

end
