(* ===== verification/Sqs_Models.thy ===== *)
theory Sqs_Models
  imports Service
begin

text \<open>
  SQS, part 1: error values (src/src/aws/sqs/errors.rs) and the data model with the
  message-attribute codec (src/src/aws/sqs/models.rs).

  The lemmas show that the JSON form of message attributes decodes to the attributes it encodes,
  and that the byte string hashed for \<open>MD5OfMessageAttributes\<close> determines the attributes.
\<close>

subsection \<open>Errors\<close>

record sqs_error =
  err_code :: string
  err_query_code :: string
  err_message :: string
  err_sender_fault :: bool

definition sqs_error_new :: "string \<Rightarrow> string \<Rightarrow> string \<Rightarrow> sqs_error" where
  "sqs_error_new code query_code message =
     \<lparr> err_code = code, err_query_code = query_code, err_message = message,
       err_sender_fault = True \<rparr>"

definition queue_does_not_exist :: sqs_error where
  "queue_does_not_exist =
     sqs_error_new ''QueueDoesNotExist'' ''AWS.SimpleQueueService.NonExistentQueue''
       ''The specified queue does not exist.''"

definition queue_name_exists :: "string \<Rightarrow> sqs_error" where
  "queue_name_exists msg = sqs_error_new ''QueueNameExists'' ''QueueAlreadyExists'' msg"

definition receipt_handle_invalid :: "string \<Rightarrow> sqs_error" where
  "receipt_handle_invalid rh =
     sqs_error_new ''ReceiptHandleIsInvalid'' ''ReceiptHandleIsInvalid''
       (''The input receipt handle '' @ [CHR 0x22] @ rh @ [CHR 0x22]
        @ '' is not a valid receipt handle.'')"

definition message_not_inflight :: sqs_error where
  "message_not_inflight =
     sqs_error_new ''MessageNotInflight'' ''AWS.SimpleQueueService.MessageNotInflight''
       (''The message referred to isn'' @ [CHR 0x27] @ ''t in flight.'')"

definition invalid_attribute_name :: "string \<Rightarrow> sqs_error" where
  "invalid_attribute_name msg = sqs_error_new ''InvalidAttributeName'' ''InvalidAttributeName'' msg"

definition invalid_attribute_value :: "string \<Rightarrow> sqs_error" where
  "invalid_attribute_value msg = sqs_error_new ''InvalidAttributeValue'' ''InvalidAttributeValue'' msg"

definition invalid_parameter :: "string \<Rightarrow> sqs_error" where
  "invalid_parameter msg = sqs_error_new ''InvalidParameterValue'' ''InvalidParameterValue'' msg"

definition missing_parameter :: "string \<Rightarrow> sqs_error" where
  "missing_parameter name =
     sqs_error_new ''MissingParameter'' ''MissingParameter''
       (''The request must contain the parameter '' @ name @ ''.'')"

definition invalid_message_contents :: "string \<Rightarrow> sqs_error" where
  "invalid_message_contents msg =
     sqs_error_new ''InvalidMessageContents'' ''InvalidMessageContents'' msg"

definition empty_batch :: sqs_error where
  "empty_batch =
     sqs_error_new ''EmptyBatchRequest'' ''AWS.SimpleQueueService.EmptyBatchRequest''
       ''There should be at least one SendMessageBatchRequestEntry in the request.''"

definition too_many_entries :: "nat \<Rightarrow> sqs_error" where
  "too_many_entries n =
     sqs_error_new ''TooManyEntriesInBatchRequest''
       ''AWS.SimpleQueueService.TooManyEntriesInBatchRequest''
       (''Maximum number of entries per request are 10. You have sent '' @ show_nat n @ ''.'')"

definition ids_not_distinct :: "string \<Rightarrow> sqs_error" where
  "ids_not_distinct i =
     sqs_error_new ''BatchEntryIdsNotDistinct'' ''AWS.SimpleQueueService.BatchEntryIdsNotDistinct''
       (''Id '' @ i @ '' repeated.'')"

definition invalid_batch_entry_id :: "string \<Rightarrow> sqs_error" where
  "invalid_batch_entry_id i =
     sqs_error_new ''InvalidBatchEntryId'' ''AWS.SimpleQueueService.InvalidBatchEntryId''
       (''A batch entry id can only contain alphanumeric characters, hyphens and underscores. ''
        @ ''It can be at most 80 letters long. Id: '' @ i)"

definition batch_too_long :: "int \<Rightarrow> sqs_error" where
  "batch_too_long limit =
     sqs_error_new ''BatchRequestTooLong'' ''AWS.SimpleQueueService.BatchRequestTooLong''
       (''Batch requests cannot be longer than '' @ show_int limit @ '' bytes.'')"

definition unsupported :: "string \<Rightarrow> sqs_error" where
  "unsupported msg =
     sqs_error_new ''UnsupportedOperation'' ''AWS.SimpleQueueService.UnsupportedOperation'' msg"

definition internal :: "string \<Rightarrow> sqs_error" where
  "internal msg =
     \<lparr> err_code = ''InternalError'', err_query_code = ''InternalError'', err_message = msg,
       err_sender_fault = False \<rparr>"

definition sqs_error_status :: "sqs_error \<Rightarrow> nat" where
  "sqs_error_status e = (if err_sender_fault e then 400 else 500)"

subsection \<open>Message attributes\<close>

record msg_attr =
  data_type :: string
  string_value :: "string option"
  binary_value :: "string option"

type_synonym msg_attrs = "msg_attr btree"

definition is_binary :: "msg_attr \<Rightarrow> bool" where
  "is_binary a \<longleftrightarrow> starts_with (data_type a) ''Binary''"

definition base_type :: "msg_attr \<Rightarrow> string" where
  "base_type a = hd (split_on (CHR ''.'') (data_type a))"

definition value_bytes :: "msg_attr \<Rightarrow> string" where
  "value_bytes a =
     (if is_binary a then (case binary_value a of Some b \<Rightarrow> b | None \<Rightarrow> [])
      else (case string_value a of Some s \<Rightarrow> s | None \<Rightarrow> []))"

definition msg_attr_to_json :: "externals \<Rightarrow> msg_attr \<Rightarrow> json" where
  "msg_attr_to_json E a =
     (let m = bt_insert ''DataType'' (JStr (data_type a)) [];
          m = (case string_value a of Some s \<Rightarrow> bt_insert ''StringValue'' (JStr s) m | None \<Rightarrow> m);
          m = (case binary_value a of
                 Some b \<Rightarrow> bt_insert ''BinaryValue'' (JStr (b64_encode E b)) m | None \<Rightarrow> m)
      in JObj m)"

definition attrs_to_json :: "externals \<Rightarrow> msg_attrs \<Rightarrow> json" where
  "attrs_to_json E attrs = JObj (bt_of_list (map (\<lambda>(k, a). (k, msg_attr_to_json E a)) attrs))"

text \<open>
  One attribute of \<open>parse_attrs\<close>, the body of its loop after the check of the name: reading the
  fields, and the check of the value against the declared type.
\<close>

definition check_attr :: "string \<Rightarrow> msg_attr \<Rightarrow> (string, msg_attr) result" where
  "check_attr name a =
     (let base = base_type a in
      if base = ''String'' \<or> base = ''Number'' then
        (case string_value a of
           None \<Rightarrow> Inl (''The message attribute '' @ [CHR 0x27] @ name @ [CHR 0x27]
                        @ '' with type '' @ [CHR 0x27] @ base @ [CHR 0x27]
                        @ '' must use field '' @ [CHR 0x27] @ ''String'' @ [CHR 0x27] @ ''.'')
         | Some s \<Rightarrow>
             if base = ''Number'' \<and> \<not> parses_f64 (trim s) then
               Inl (''Can'' @ [CHR 0x27] @ ''t cast the value of message attribute ''
                    @ [CHR 0x27] @ name @ [CHR 0x27] @ '' to a number.'')
             else Inr a)
      else if base = ''Binary'' then
        (if binary_value a = None then
           Inl (''The message attribute '' @ [CHR 0x27] @ name @ [CHR 0x27]
                @ '' with type '' @ [CHR 0x27] @ ''Binary'' @ [CHR 0x27]
                @ '' must use field '' @ [CHR 0x27] @ ''Binary'' @ [CHR 0x27] @ ''.'')
         else Inr a)
      else Inl (''The type of message attribute '' @ [CHR 0x27] @ name @ [CHR 0x27]
                @ '' is invalid. You must use only the following supported type ''
                @ ''prefixes: Binary, Number, String.''))"

definition parse_attr :: "externals \<Rightarrow> string \<Rightarrow> json \<Rightarrow> (string, msg_attr) result" where
  "parse_attr E name val =
     (case json_str ''DataType'' val of
        None \<Rightarrow> Inl (''The message attribute '' @ [CHR 0x27] @ name @ [CHR 0x27]
                     @ '' must contain a non-empty attribute type.'')
      | Some dt \<Rightarrow>
          try_bind
            (case json_str ''BinaryValue'' val of
               None \<Rightarrow> Inr None
             | Some b \<Rightarrow>
                 (case b64_decode E b of
                    Some raw \<Rightarrow> Inr (Some raw)
                  | None \<Rightarrow> Inl (''The message attribute '' @ [CHR 0x27] @ name @ [CHR 0x27]
                                 @ '' has an invalid binary value.'')))
            (\<lambda>bv. check_attr name \<lparr> data_type = dt, string_value = json_str ''StringValue'' val,
                                    binary_value = bv \<rparr>))"

fun parse_attr_list ::
    "externals \<Rightarrow> (string \<times> json) list \<Rightarrow> msg_attrs \<Rightarrow> (string, msg_attrs) result" where
  "parse_attr_list E [] out = Inr out"
| "parse_attr_list E ((name, val) # rest) out =
     (if name = [] \<or> 256 < length name then
        Inl (''Message attribute name '' @ [CHR 0x27] @ name @ [CHR 0x27] @ '' is invalid.'')
      else try_bind (parse_attr E name val)
             (\<lambda>a. parse_attr_list E rest (bt_insert name a out)))"

definition parse_attrs :: "externals \<Rightarrow> json option \<Rightarrow> (string, msg_attrs) result" where
  "parse_attrs E v =
     (case v of
        None \<Rightarrow> Inr []
      | Some JNull \<Rightarrow> Inr []
      | Some w \<Rightarrow>
          (case as_object w of
             None \<Rightarrow> Inl ''MessageAttributes must be a map''
           | Some obj \<Rightarrow> parse_attr_list E obj []))"

subsection \<open>Digests\<close>

text \<open>\<open>(b.len() as u32).to_be_bytes()\<close>.\<close>

definition be32 :: "nat \<Rightarrow> string" where
  "be32 n = (let w = n mod 2 ^ 32 in
     [char_of (w div 2 ^ 24), char_of (w div 2 ^ 16 mod 256), char_of (w div 2 ^ 8 mod 256),
      char_of (w mod 256)])"

definition push_len :: "string \<Rightarrow> string" where
  "push_len b = be32 (length b) @ b"

text \<open>The bytes fed to the digest for one attribute, and for all of them in name order.\<close>

definition attr_digest_bytes :: "string \<times> msg_attr \<Rightarrow> string" where
  "attr_digest_bytes p = (case p of (name, a) \<Rightarrow>
     push_len name @ push_len (data_type a) @ [if is_binary a then CHR 0x02 else CHR 0x01]
     @ push_len (value_bytes a))"

definition digest_bytes :: "msg_attrs \<Rightarrow> string" where
  "digest_bytes attrs = concat (map attr_digest_bytes attrs)"

definition md5_of_attrs :: "externals \<Rightarrow> msg_attrs \<Rightarrow> string" where
  "md5_of_attrs E attrs = md5_raw E (digest_bytes attrs)"

definition md5_hex :: "externals \<Rightarrow> string \<Rightarrow> string" where
  "md5_hex E b = md5_raw E b"

subsection \<open>Queues\<close>

definition ACCOUNT_ID :: string where "ACCOUNT_ID = ''000000000000''"
definition REGION :: string where "REGION = ''us-east-1''"

record sqs_queue =
  q_id :: int
  q_name :: string
  q_attributes :: "string btree"
  q_tags :: "string btree"
  q_created_ts :: int
  q_modified_ts :: int

definition queue_arn :: "string \<Rightarrow> string" where
  "queue_arn name = ''arn:aws:sqs:'' @ REGION @ '':'' @ ACCOUNT_ID @ '':'' @ name"

definition sqs_queue_arn :: "sqs_queue \<Rightarrow> string" where
  "sqs_queue_arn q = queue_arn (q_name q)"

definition default_attr :: "string \<Rightarrow> string option" where
  "default_attr name =
     (if name = ''VisibilityTimeout'' then Some ''30''
      else if name = ''DelaySeconds'' then Some ''0''
      else if name = ''MessageRetentionPeriod'' then Some ''345600''
      else if name = ''ReceiveMessageWaitTimeSeconds'' then Some ''0''
      else if name = ''MaximumMessageSize'' then Some ''262144''
      else if name = ''SqsManagedSseEnabled'' then Some ''false''
      else None)"

definition attr_i64 :: "sqs_queue \<Rightarrow> string \<Rightarrow> int" where
  "attr_i64 q name =
     (case Option.bind (bt_get (q_attributes q) name) parse_i64 of
        Some n \<Rightarrow> n
      | None \<Rightarrow> (case Option.bind (default_attr name) parse_i64 of Some d \<Rightarrow> d | None \<Rightarrow> 0))"

definition attr_bool :: "sqs_queue \<Rightarrow> string \<Rightarrow> bool" where
  "attr_bool q name =
     (case bt_get (q_attributes q) name of
        Some v \<Rightarrow> eq_ignore_ascii_case v ''true'' | None \<Rightarrow> False)"

definition is_fifo :: "sqs_queue \<Rightarrow> bool" where
  "is_fifo q = attr_bool q ''FifoQueue''"

definition redrive :: "externals \<Rightarrow> sqs_queue \<Rightarrow> (string \<times> int) option" where
  "redrive E q =
     Option.bind (bt_get (q_attributes q) ''RedrivePolicy'') (\<lambda>text.
     Option.bind (json_parse E text) (\<lambda>v.
     Option.bind (json_str ''deadLetterTargetArn'' v) (\<lambda>arn.
     Option.bind (Option.bind (json_get ''maxReceiveCount'' v)
         (\<lambda>m. case as_i64 m of Some n \<Rightarrow> Some n | None \<Rightarrow> Option.bind (as_str m) parse_i64)) (\<lambda>mx.
     Some (arn, mx)))))"

record received_message =
  rm_message_id :: string
  rm_receipt_handle :: string
  rm_body :: string
  rm_attributes :: "string btree"
  rm_message_attributes :: msg_attrs

record send_outcome =
  so_message_id :: string
  so_md5_body :: string
  so_md5_attrs :: "string option"
  so_md5_system_attrs :: "string option"
  so_sequence_number :: "string option"

record send_input =
  si_body :: string
  si_delay_seconds :: "int option"
  si_attributes :: msg_attrs
  si_system_attributes :: msg_attrs
  si_group_id :: "string option"
  si_dedup_id :: "string option"

subsection \<open>The attribute codec\<close>

lemma json_str_msg_attr [simp]:
  "json_str ''DataType'' (msg_attr_to_json E a) = Some (data_type a)"
  "json_str ''StringValue'' (msg_attr_to_json E a) = string_value a"
  "json_str ''BinaryValue'' (msg_attr_to_json E a) = map_option (b64_encode E) (binary_value a)"
  by (auto simp: msg_attr_to_json_def Let_def split: option.splits)

lemma check_attr_id: "check_attr name a = Inr b \<Longrightarrow> b = a"
  unfolding check_attr_def Let_def by (simp split: if_splits option.splits)

lemma parse_attr_checked: "parse_attr E name val = Inr a \<Longrightarrow> check_attr name a = Inr a"
  unfolding parse_attr_def try_bind_def
  by (auto split: option.splits sum.splits dest: check_attr_id)

lemma parse_attr_reencode:
  assumes "b64_roundtrip E" "parse_attr E name val = Inr a"
  shows "parse_attr E name (msg_attr_to_json E a) = Inr a"
proof -
  have "parse_attr E name (msg_attr_to_json E a) = check_attr name a"
    using assms(1) unfolding parse_attr_def json_str_msg_attr
    by (cases a) (auto simp: b64_roundtrip_def split: option.splits)
  with parse_attr_checked[OF assms(2)] show ?thesis by simp
qed

definition attr_good :: "externals \<Rightarrow> string \<times> msg_attr \<Rightarrow> bool" where
  "attr_good E p \<longleftrightarrow> fst p \<noteq> [] \<and> length (fst p) \<le> 256
     \<and> parse_attr E (fst p) (msg_attr_to_json E (snd p)) = Inr (snd p)"

lemma set_bt_insert: "set (bt_insert k v m) \<subseteq> insert (k, v) (set m)"
  by (auto simp: bt_insert_def)

lemma list_all_bt_insert: "P (k, v) \<Longrightarrow> list_all P m \<Longrightarrow> list_all P (bt_insert k v m)"
  using set_bt_insert[of k v m] unfolding list_all_iff by blast

lemma parse_attr_list_good:
  assumes "b64_roundtrip E" "parse_attr_list E obj out = Inr attrs"
    and "list_all (attr_good E) out" "bt_ok out"
  shows "list_all (attr_good E) attrs \<and> bt_ok attrs"
  using assms
proof (induction E obj out rule: parse_attr_list.induct)
  case (2 E name val rest out)
  then obtain a where a: "parse_attr E name val = Inr a" and
    name: "\<not> (name = [] \<or> 256 < length name)" and
    rest: "parse_attr_list E rest (bt_insert name a out) = Inr attrs"
    by (auto simp: try_bind_Inr_iff split: if_splits)
  have "attr_good E (name, a)"
    using name parse_attr_reencode[OF \<open>b64_roundtrip E\<close> a] by (simp add: attr_good_def)
  with 2 name a rest show ?case by (simp add: list_all_bt_insert)
qed simp

lemma parse_attr_list_encoded:
  "list_all (attr_good E) attrs \<Longrightarrow>
   parse_attr_list E (map (\<lambda>(k, a). (k, msg_attr_to_json E a)) attrs) out
     = Inr (bt_extend out attrs)"
  by (induction attrs arbitrary: out) (auto simp: attr_good_def bt_extend_def)

lemma parse_attrs_encoded:
  assumes "list_all (attr_good E) attrs" "bt_ok attrs"
  shows "parse_attrs E (Some (attrs_to_json E attrs)) = Inr attrs"
  using assms by (simp add: parse_attrs_def attrs_to_json_def parse_attr_list_encoded)

lemma parse_attrs_good:
  assumes "b64_roundtrip E" "parse_attrs E v = Inr attrs"
  shows "list_all (attr_good E) attrs \<and> bt_ok attrs"
proof (cases "\<exists>obj. v = Some (JObj obj)")
  case True
  with assms parse_attr_list_good[of E _ "[]" attrs] show ?thesis
    by (auto simp: parse_attrs_def)
next
  case False
  with assms(2) have "attrs = []" by (auto simp: parse_attrs_def split: option.splits json.splits)
  then show ?thesis by simp
qed

subsection \<open>The digested bytes determine the attributes\<close>

lemma length_be32 [simp]: "length (be32 n) = 4"
  by (simp add: be32_def Let_def)

lemma be32_inject:
  assumes "m < 2 ^ 32" "n < 2 ^ 32" "be32 m = be32 n"
  shows "m = n"
proof -
  have byte: "(char_of a :: char) = char_of b \<longleftrightarrow> a mod 256 = b mod 256" for a b :: nat
    by (metis of_char_of char_of_mod_256)
  have eqs: "m div 16777216 = n div 16777216" "m div 65536 mod 256 = n div 65536 mod 256"
    "m div 256 mod 256 = n div 256 mod 256" "m mod 256 = n mod 256"
    using assms by (simp_all add: be32_def Let_def byte)
  have step: "a = b" if "a div 256 = b div 256" "a mod 256 = b mod 256" for a b :: nat
    using that by (metis div_mult_mod_eq)
  have dd: "x div 65536 div 256 = x div 16777216" "x div 256 div 256 = x div 65536" for x :: nat
    using div_mult2_eq[of x 65536 256] div_mult2_eq[of x 256 256] by simp_all
  have high: "m div 65536 = n div 65536" by (rule step) (simp_all only: dd eqs)
  have "m div 256 = n div 256" by (rule step) (simp_all only: dd eqs high)
  then show ?thesis using eqs(4) by (rule step)
qed

lemma push_len_append_inject:
  assumes "length a < 2 ^ 32" "length b < 2 ^ 32" "push_len a @ r = push_len b @ s"
  shows "a = b \<and> r = s"
proof -
  have "be32 (length a) = be32 (length b)" and ab: "a @ r = b @ s"
    using assms(3) by (auto simp: push_len_def append_eq_append_conv)
  with assms(1,2) have "length a = length b" by (blast intro: be32_inject)
  with ab show ?thesis by (simp add: append_eq_append_conv)
qed

definition attr_small :: "string \<times> msg_attr \<Rightarrow> bool" where
  "attr_small p \<longleftrightarrow> length (fst p) < 2 ^ 32 \<and> length (data_type (snd p)) < 2 ^ 32
     \<and> length (value_bytes (snd p)) < 2 ^ 32"

definition attr_view :: "string \<times> msg_attr \<Rightarrow> string \<times> string \<times> string" where
  "attr_view p = (fst p, data_type (snd p), value_bytes (snd p))"

lemma attr_digest_append_inject:
  assumes "attr_small p" "attr_small q" "attr_digest_bytes p @ r = attr_digest_bytes q @ s"
  shows "attr_view p = attr_view q \<and> r = s"
proof -
  obtain n a m b where pq: "p = (n, a)" "q = (m, b)" by fastforce
  have small: "length n < 2 ^ 32" "length m < 2 ^ 32" "length (data_type a) < 2 ^ 32"
    "length (data_type b) < 2 ^ 32" "length (value_bytes a) < 2 ^ 32"
    "length (value_bytes b) < 2 ^ 32"
    using assms(1,2) by (simp_all only: pq attr_small_def fst_conv snd_conv)
  define ta where "ta = (if is_binary a then CHR 0x02 else CHR 0x01)"
  define tb where "tb = (if is_binary b then CHR 0x02 else CHR 0x01)"
  have "push_len n @ push_len (data_type a) @ [ta] @ push_len (value_bytes a) @ r
      = push_len m @ push_len (data_type b) @ [tb] @ push_len (value_bytes b) @ s"
    using assms(3) by (simp only: pq attr_digest_bytes_def prod.case append_assoc ta_def tb_def)
  note name = push_len_append_inject[OF small(1,2) this]
  note type = push_len_append_inject[OF small(3,4) conjunct2[OF name]]
  then have "push_len (value_bytes a) @ r = push_len (value_bytes b) @ s" by simp
  note val = push_len_append_inject[OF small(5,6) this]
  from name type val show ?thesis by (simp add: pq attr_view_def)
qed

lemma digest_bytes_view_inject:
  "list_all attr_small xs \<Longrightarrow> list_all attr_small ys \<Longrightarrow> digest_bytes xs = digest_bytes ys \<Longrightarrow>
   map attr_view xs = map attr_view ys"
proof (induction xs arbitrary: ys)
  case Nil
  then show ?case
    by (cases ys) (auto simp: digest_bytes_def attr_digest_bytes_def push_len_def be32_def Let_def
        split: prod.splits)
next
  case (Cons x xs)
  then show ?case
  proof (cases ys)
    case Nil
    with Cons.prems show ?thesis
      by (auto simp: digest_bytes_def attr_digest_bytes_def push_len_def be32_def Let_def
          split: prod.splits)
  next
    case (Cons y zs)
    with Cons.prems show ?thesis
      using attr_digest_append_inject[of x y "digest_bytes xs" "digest_bytes zs"] Cons.IH[of zs]
      by (auto simp: digest_bytes_def)
  qed
qed

end
