(* ===== verification/Sqs_Queues.thy ===== *)
theory Sqs_Queues
  imports Sqs_Models
begin

text \<open>
  SQS, part 2: the tables (src/src/aws/sqs/schema.rs) and the queue operations of
  src/src/aws/sqs/service.rs: names, pagination, attribute validation, creation, deletion,
  attributes and tags.

  The JSON text columns \<open>attributes\<close> and \<open>tags\<close> are held as the maps they encode, and the
  attribute columns of messages as the JSON values they encode.  A SELECT without a result is the
  empty case of a list; failures of SQLite itself other than a violated constraint are not
  modelled.  A transaction that returns early is rolled back: the definition returns the state it
  was given.
\<close>

subsection \<open>Tables\<close>

record sqs_queue_row =
  qr_id :: int
  qr_name :: string
  qr_url :: string
  qr_created_at :: string
  qr_attributes :: "string btree"
  qr_tags :: "string btree"
  qr_created_ts :: int
  qr_modified_ts :: int
  qr_fifo_seq :: int

record sqs_message =
  m_id :: int
  m_message_id :: string
  m_queue_id :: int
  m_body :: string
  m_receipt_handle :: string
  m_visible :: bool
  m_created_at :: string
  m_visible_at :: int
  m_sent_at :: int
  m_receive_count :: int
  m_first_receive_at :: "int option"
  m_attributes :: "json option"
  m_system_attributes :: "json option"
  m_group_id :: "string option"
  m_dedup_id :: "string option"
  m_sequence_number :: "string option"
  m_dlq_source_arn :: "string option"

record sqs_dedup =
  d_queue_id :: int
  d_dedup_id :: string
  d_message_id :: string
  d_sequence_number :: string
  d_expires_at :: int

text \<open>
  The three tables, the next AUTOINCREMENT values (never reused), and how many UUIDs have been
  drawn.
\<close>

record sqs_db =
  sqs_queues :: "sqs_queue_row list"
  sqs_messages :: "sqs_message list"
  sqs_fifo_dedup :: "sqs_dedup list"
  next_queue_id :: int
  next_message_id :: int
  uuid_ctr :: nat

definition sqs_init :: sqs_db where
  "sqs_init = \<lparr> sqs_queues = [], sqs_messages = [], sqs_fifo_dedup = [], next_queue_id = 1,
                 next_message_id = 1, uuid_ctr = 0 \<rparr>"

subsection \<open>Names and lookup\<close>

definition queue_name_of :: "string \<Rightarrow> string" where
  "queue_name_of i =
     (let i = trim_end_char (CHR ''/'') (trim i) in
      if starts_with i ''arn:'' then last (split_on (CHR '':'') i)
      else last (split_on (CHR ''/'') (hd (split_on (CHR ''?'') i))))"

definition arn_for :: "string \<Rightarrow> string" where
  "arn_for i = queue_arn (queue_name_of i)"

definition queue_url :: "string \<Rightarrow> string \<Rightarrow> string" where
  "queue_url base_url name =
     trim_end_char (CHR ''/'') base_url @ ''/'' @ ACCOUNT_ID @ ''/'' @ name"

definition queue_from_row :: "externals \<Rightarrow> sqs_queue_row \<Rightarrow> sqs_queue" where
  "queue_from_row E r =
     (let created = (if qr_created_ts r = 0
                     then (case from_rfc3339 E (qr_created_at r) of Some t \<Rightarrow> t | None \<Rightarrow> 0)
                     else qr_created_ts r)
      in \<lparr> q_id = qr_id r, q_name = qr_name r, q_attributes = qr_attributes r, q_tags = qr_tags r,
           q_created_ts = created,
           q_modified_ts = (if qr_modified_ts r = 0 then created else qr_modified_ts r) \<rparr>)"

definition find_queue :: "externals \<Rightarrow> string \<Rightarrow> sqs_db \<Rightarrow> sqs_queue option" where
  "find_queue E name db =
     map_option (queue_from_row E) (find (\<lambda>r. qr_name r = name) (sqs_queues db))"

definition require_queue :: "externals \<Rightarrow> string \<Rightarrow> sqs_db \<Rightarrow> (sqs_error, sqs_queue) result" where
  "require_queue E name db =
     (case find_queue E name db of None \<Rightarrow> Inl queue_does_not_exist | Some q \<Rightarrow> Inr q)"

definition get_queue :: "externals \<Rightarrow> string \<Rightarrow> sqs_db \<Rightarrow> (sqs_error, sqs_queue) result" where
  "get_queue E i db =
     (let name = queue_name_of i in
      if name = [] then Inl queue_does_not_exist else require_queue E name db)"

definition all_queues :: "externals \<Rightarrow> sqs_db \<Rightarrow> sqs_queue list" where
  "all_queues E db = map (queue_from_row E) (sort_key qr_name (sqs_queues db))"

definition valid_queue_name :: "string \<Rightarrow> bool" where
  "valid_queue_name name =
     (let base = (case strip_suffix ''.fifo'' name of Some b \<Rightarrow> b | None \<Rightarrow> name) in
      base \<noteq> [] \<and> length name \<le> 80
      \<and> list_all (\<lambda>c. is_alnum c \<or> c = CHR ''-'' \<or> c = CHR ''_'') base)"

subsection \<open>Pagination\<close>

text \<open>The start index, the page limit, and the page with the token of the next one.\<close>

definition page_start :: "externals \<Rightarrow> string list \<Rightarrow> string option \<Rightarrow> (sqs_error, nat) result" where
  "page_start E names next_token =
     (case next_token of
        None \<Rightarrow> Inr 0
      | Some t \<Rightarrow>
          if t = [] then Inr 0
          else (case b64url_decode E t of
                  None \<Rightarrow> Inl (invalid_parameter ''Invalid NextToken value.'')
                | Some bytes \<Rightarrow>
                    let after = from_utf8_lossy bytes in
                    Inr (length (takeWhile (\<lambda>n. \<not> after < n) names))))"

definition page_limit :: "int option \<Rightarrow> (sqs_error, nat) result" where
  "page_limit mx =
     (case mx of
        None \<Rightarrow> Inr 1000
      | Some m \<Rightarrow>
          if \<not> (1 \<le> m \<and> m \<le> 1000) then
            Inl (invalid_parameter (''Value '' @ show_int m @ '' for parameter MaxResults is invalid. ''
                 @ ''Reason: MaxResults must be an integer between 1 and 1000.''))
          else Inr (nat m))"

definition paginate ::
    "externals \<Rightarrow> string list \<Rightarrow> int option \<Rightarrow> string option
      \<Rightarrow> (sqs_error, string list \<times> string option) result" where
  "paginate E names mx next_token =
     try_bind (page_start E names next_token) (\<lambda>start.
     try_bind (page_limit mx) (\<lambda>limit.
       let page = take limit (drop start names);
           more = (start + length page < length names)
       in Inr (page,
               if more \<and> mx \<noteq> None then
                 (if page = [] then None else Some (b64url_encode E (last page)))
               else None)))"

definition list_queues ::
    "externals \<Rightarrow> string \<Rightarrow> string \<Rightarrow> int option \<Rightarrow> string option \<Rightarrow> sqs_db
      \<Rightarrow> (sqs_error, string list \<times> string option) result" where
  "list_queues E base_url prefix mx next_token db =
     try_bind (paginate E (filter (\<lambda>n. starts_with n prefix) (sort (map qr_name (sqs_queues db))))
                 mx next_token)
       (\<lambda>(page, token). Inr (map (queue_url base_url) page, token))"

definition list_dead_letter_source_queues ::
    "externals \<Rightarrow> string \<Rightarrow> string \<Rightarrow> int option \<Rightarrow> string option \<Rightarrow> sqs_db
      \<Rightarrow> (sqs_error, string list \<times> string option) result" where
  "list_dead_letter_source_queues E base_url queue mx next_token db =
     try_bind (get_queue E queue db) (\<lambda>q.
     try_bind (paginate E
                 (map q_name (filter (\<lambda>s. case redrive E s of Some (a, _) \<Rightarrow> a = sqs_queue_arn q
                                                            | None \<Rightarrow> False) (all_queues E db)))
                 mx next_token)
       (\<lambda>(page, token). Inr (map (queue_url base_url) page, token)))"

subsection \<open>Attributes\<close>

definition MAX_VISIBILITY :: int where "MAX_VISIBILITY = 43200"

definition effective_attr :: "sqs_queue \<Rightarrow> string \<Rightarrow> string option" where
  "effective_attr q name =
     (case bt_get (q_attributes q) name of
        Some v \<Rightarrow> Some v
      | None \<Rightarrow>
          (case default_attr name of
             Some d \<Rightarrow> Some d
           | None \<Rightarrow>
               if is_fifo q then
                 (if name = ''ContentBasedDeduplication'' then Some ''false''
                  else if name = ''DeduplicationScope'' then Some ''queue''
                  else if name = ''FifoThroughputLimit'' then Some ''perQueue''
                  else if name = ''FifoQueue'' then Some ''true''
                  else None)
               else if name = ''FifoQueue'' then Some ''false''
               else None))"

definition invalid_value_for :: "string \<Rightarrow> sqs_error" where
  "invalid_value_for name =
     invalid_attribute_value (''Invalid value for the parameter '' @ name @ ''.'')"

definition parse_bool_attr :: "string \<Rightarrow> string \<Rightarrow> (sqs_error, string) result" where
  "parse_bool_attr name v =
     (if ascii_lowercase v = ''true'' then Inr ''true''
      else if ascii_lowercase v = ''false'' then Inr ''false''
      else Inl (invalid_value_for name))"

definition parse_int_attr ::
    "string \<Rightarrow> string \<Rightarrow> int \<Rightarrow> int \<Rightarrow> (sqs_error, string) result" where
  "parse_int_attr name v mn mx =
     (case parse_i64 (trim v) of
        Some n \<Rightarrow> if mn \<le> n \<and> n \<le> mx then Inr (show_int n) else Inl (invalid_value_for name)
      | None \<Rightarrow> Inl (invalid_value_for name))"

definition redrive_json :: "string \<Rightarrow> int \<Rightarrow> json" where
  "redrive_json arn mx =
     JObj [(''deadLetterTargetArn'', JStr arn), (''maxReceiveCount'', JInt mx)]"

definition normalize_redrive ::
    "externals \<Rightarrow> sqs_db \<Rightarrow> string \<Rightarrow> bool \<Rightarrow> (sqs_error, string) result" where
  "normalize_redrive E db v fifo =
     (if v = [] then Inr []
      else
        let bad = (\<lambda>reason. invalid_parameter
                     (''Value '' @ v @ '' for parameter RedrivePolicy is invalid. Reason: '' @ reason))
        in case json_parse E v of
             None \<Rightarrow> Inl (bad ''Redrive policy is not a valid JSON map.'')
           | Some parsed \<Rightarrow>
             case json_str ''deadLetterTargetArn'' parsed of
               None \<Rightarrow> Inl (bad (''Redrive policy does not contain mandatory attribute: ''
                              @ ''deadLetterTargetArn.''))
             | Some arn \<Rightarrow>
               case Option.bind (json_get ''maxReceiveCount'' parsed)
                      (\<lambda>m. case as_i64 m of Some n \<Rightarrow> Some n
                           | None \<Rightarrow> Option.bind (as_str m) (\<lambda>s. parse_i64 (trim s))) of
                 None \<Rightarrow> Inl (bad (''Redrive policy does not contain mandatory attribute: ''
                                @ ''maxReceiveCount.''))
               | Some mx \<Rightarrow>
                 if \<not> (1 \<le> mx \<and> mx \<le> 1000) then
                   Inl (bad ''Invalid value for maxReceiveCount: must be between 1 and 1000.'')
                 else
                   case find_queue E (queue_name_of arn) db of
                     None \<Rightarrow> Inl (bad ''Dead letter target does not exist.'')
                   | Some dlq \<Rightarrow>
                     if is_fifo dlq \<noteq> fifo then
                       Inl (bad ''Dead-letter queue must be same type of queue as the source.'')
                     else Inr (json_print E (redrive_json arn mx)))"

definition unknown_attribute :: "string \<Rightarrow> sqs_error" where
  "unknown_attribute k = invalid_attribute_name (''Unknown Attribute '' @ k @ ''.'')"

text \<open>The \<open>match\<close> of \<open>validate_attributes\<close>, arm by arm.\<close>

definition validate_attr ::
    "externals \<Rightarrow> sqs_db \<Rightarrow> bool \<Rightarrow> string \<Rightarrow> string \<Rightarrow> (sqs_error, string) result" where
  "validate_attr E db fifo k v =
     (if k = ''VisibilityTimeout'' then parse_int_attr k v 0 MAX_VISIBILITY
      else if k = ''DelaySeconds'' then parse_int_attr k v 0 900
      else if k = ''MaximumMessageSize'' then parse_int_attr k v 1024 1048576
      else if k = ''MessageRetentionPeriod'' then parse_int_attr k v 60 1209600
      else if k = ''ReceiveMessageWaitTimeSeconds'' then parse_int_attr k v 0 20
      else if k = ''KmsDataKeyReusePeriodSeconds'' then parse_int_attr k v 60 86400
      else if k = ''SqsManagedSseEnabled'' then parse_bool_attr k v
      else if k = ''KmsMasterKeyId'' then Inr v
      else if k = ''FifoQueue'' then parse_bool_attr k v
      else if (k = ''ContentBasedDeduplication'' \<or> k = ''DeduplicationScope''
               \<or> k = ''FifoThroughputLimit'') \<and> \<not> fifo then Inl (unknown_attribute k)
      else if k = ''ContentBasedDeduplication'' then parse_bool_attr k v
      else if k = ''DeduplicationScope'' then
        (if v = ''messageGroup'' \<or> v = ''queue'' then Inr v else Inl (invalid_value_for k))
      else if k = ''FifoThroughputLimit'' then
        (if v = ''perQueue'' \<or> v = ''perMessageGroupId'' then Inr v else Inl (invalid_value_for k))
      else if k = ''Policy'' \<or> k = ''RedriveAllowPolicy'' then
        (if v \<noteq> [] \<and> json_parse E v = None then
           Inl (invalid_attribute_value (''Invalid value for the parameter '' @ k @ ''. Reason: ''
                @ k @ '' must be valid JSON.''))
         else Inr v)
      else if k = ''RedrivePolicy'' then normalize_redrive E db v fifo
      else Inl (unknown_attribute k))"

fun validate_attr_list ::
    "externals \<Rightarrow> sqs_db \<Rightarrow> bool \<Rightarrow> string btree \<Rightarrow> string btree \<Rightarrow> (sqs_error, string btree) result"
  where
  "validate_attr_list E db fifo [] out = Inr out"
| "validate_attr_list E db fifo ((k, v) # rest) out =
     try_bind (validate_attr E db fifo k v)
       (\<lambda>norm. validate_attr_list E db fifo rest (bt_insert k norm out))"

definition validate_attributes ::
    "externals \<Rightarrow> sqs_db \<Rightarrow> string \<Rightarrow> string btree \<Rightarrow> bool \<Rightarrow> (sqs_error, string btree) result" where
  "validate_attributes E db queue_name attrs creating =
     (let fifo = (if creating then
                    (case bt_get attrs ''FifoQueue'' of
                       Some v \<Rightarrow> eq_ignore_ascii_case v ''true'' | None \<Rightarrow> False)
                  else ends_with queue_name ''.fifo'')
      in validate_attr_list E db fifo attrs [])"

subsection \<open>Creating, deleting and configuring queues\<close>

definition name_rule :: string where
  "name_rule = ''Can only include alphanumeric characters, hyphens, or underscores. 1 to 80 in length''"

definition create_queue_tx ::
    "externals \<Rightarrow> string \<Rightarrow> string \<Rightarrow> string btree \<Rightarrow> string btree \<Rightarrow> int \<Rightarrow> sqs_db
      \<Rightarrow> (sqs_error, unit) result \<times> sqs_db" where
  "create_queue_tx E name url attributes tags now db =
     (if \<not> valid_queue_name name then (Inl (invalid_parameter name_rule), db)
      else case validate_attributes E db name attributes True of
        Inl e \<Rightarrow> (Inl e, db)
      | Inr normalized \<Rightarrow>
          let fifo = (case bt_get normalized ''FifoQueue'' of Some v \<Rightarrow> v = ''true'' | None \<Rightarrow> False)
          in if fifo \<noteq> ends_with name ''.fifo'' then
               (Inl (invalid_parameter
                  (if fifo then ''The name of a FIFO queue can only include alphanumeric characters, ''
                       @ ''hyphens, or underscores, must end with .fifo suffix and be 1 to 80 in length.''
                   else name_rule)), db)
             else case find_queue E name db of
               Some existing \<Rightarrow>
                 (case find (\<lambda>(k, v). (case effective_attr existing k of Some c \<Rightarrow> c | None \<Rightarrow> []) \<noteq> v)
                         normalized of
                    Some (k, v) \<Rightarrow>
                      (Inl (queue_name_exists (''A queue already exists with the same name and a ''
                            @ ''different value for attribute '' @ k)), db)
                  | None \<Rightarrow> (Inr (), db))
             | None \<Rightarrow>
                 (Inr (),
                  db\<lparr> sqs_queues := sqs_queues db @
                        [\<lparr> qr_id = next_queue_id db, qr_name = name, qr_url = url,
                           qr_created_at = to_rfc3339 E now,
                           qr_attributes = filter (\<lambda>(k, v). v \<noteq> []) normalized, qr_tags = tags,
                           qr_created_ts = now div 1000, qr_modified_ts = now div 1000,
                           qr_fifo_seq = 0 \<rparr>],
                      next_queue_id := next_queue_id db + 1 \<rparr>))"

text \<open>The database part of \<open>delete_queue\<close> and \<open>purge_queue\<close>, for a queue read earlier.\<close>

definition delete_queue_tx :: "sqs_queue \<Rightarrow> sqs_db \<Rightarrow> sqs_db" where
  "delete_queue_tx q db =
     db\<lparr> sqs_messages := sql_delete (\<lambda>m. m_queue_id m = q_id q) (sqs_messages db),
         sqs_fifo_dedup := sql_delete (\<lambda>d. d_queue_id d = q_id q) (sqs_fifo_dedup db),
         sqs_queues := sql_delete (\<lambda>r. qr_id r = q_id q) (sqs_queues db) \<rparr>"

definition purge_queue_tx :: "sqs_queue \<Rightarrow> sqs_db \<Rightarrow> sqs_db" where
  "purge_queue_tx q db =
     db\<lparr> sqs_messages := sql_delete (\<lambda>m. m_queue_id m = q_id q) (sqs_messages db) \<rparr>"

definition merge_attr :: "string \<times> string \<Rightarrow> string btree \<Rightarrow> string btree" where
  "merge_attr kv m =
     (case kv of (k, v) \<Rightarrow> if v = [] then bt_remove k m else bt_insert k v m)"

definition set_attributes_tx ::
    "externals \<Rightarrow> sqs_queue \<Rightarrow> string btree \<Rightarrow> int \<Rightarrow> sqs_db \<Rightarrow> (sqs_error, unit) result \<times> sqs_db" where
  "set_attributes_tx E q attributes now db =
     (case validate_attributes E db (q_name q) attributes False of
        Inl e \<Rightarrow> (Inl e, db)
      | Inr normalized \<Rightarrow>
          if (case bt_get normalized ''FifoQueue'' of
                Some v \<Rightarrow> (v = ''true'') \<noteq> is_fifo q | None \<Rightarrow> False) then
            (Inl (invalid_attribute_value (''Invalid value for the parameter FifoQueue. Reason: ''
                  @ ''Modifying queue type is not supported.'')), db)
          else
            (Inr (),
             db\<lparr> sqs_queues := sql_update (\<lambda>r. qr_id r = q_id q)
                   (\<lambda>r. r\<lparr> qr_attributes := fold merge_attr normalized (q_attributes q),
                           qr_modified_ts := now div 1000 \<rparr>) (sqs_queues db) \<rparr>))"

definition write_tags ::
    "int \<Rightarrow> string btree \<Rightarrow> sqs_db \<Rightarrow> (sqs_error, unit) result \<times> sqs_db" where
  "write_tags i tags db =
     (if 50 < length tags then (Inl (invalid_parameter ''Too many tags added for queue.''), db)
      else (Inr (),
            db\<lparr> sqs_queues := sql_update (\<lambda>r. qr_id r = i) (\<lambda>r. r\<lparr> qr_tags := tags \<rparr>)
                  (sqs_queues db) \<rparr>))"

definition tag_queue_tx ::
    "sqs_queue \<Rightarrow> string btree \<Rightarrow> sqs_db \<Rightarrow> (sqs_error, unit) result \<times> sqs_db" where
  "tag_queue_tx q tags db = write_tags (q_id q) (bt_extend (q_tags q) tags) db"

definition untag_queue_tx ::
    "sqs_queue \<Rightarrow> string list \<Rightarrow> sqs_db \<Rightarrow> (sqs_error, unit) result \<times> sqs_db" where
  "untag_queue_tx q keys db = write_tags (q_id q) (fold bt_remove keys (q_tags q)) db"

text \<open>
  The service operations: read the queue in one call to the database, then act in another.
\<close>

definition with_queue ::
    "externals \<Rightarrow> string \<Rightarrow> (sqs_queue \<Rightarrow> sqs_db \<Rightarrow> (sqs_error, 'a) result \<times> sqs_db) \<Rightarrow> sqs_db
      \<Rightarrow> (sqs_error, 'a) result \<times> sqs_db" where
  "with_queue E queue f db =
     (case get_queue E queue db of Inl e \<Rightarrow> (Inl e, db) | Inr q \<Rightarrow> f q db)"

definition create_queue ::
    "externals \<Rightarrow> string \<Rightarrow> string \<Rightarrow> string btree \<Rightarrow> string btree \<Rightarrow> int \<Rightarrow> sqs_db
      \<Rightarrow> (sqs_error, string) result \<times> sqs_db" where
  "create_queue E base_url name attributes tags now db =
     (let url = queue_url base_url name in
      case create_queue_tx E name url attributes tags now db of
        (Inl e, db') \<Rightarrow> (Inl e, db') | (Inr _, db') \<Rightarrow> (Inr url, db'))"

definition get_queue_url ::
    "externals \<Rightarrow> string \<Rightarrow> string \<Rightarrow> sqs_db \<Rightarrow> (sqs_error, string) result" where
  "get_queue_url E base_url name db =
     try_bind (get_queue E name db) (\<lambda>q. Inr (queue_url base_url (q_name q)))"

definition delete_queue :: "externals \<Rightarrow> string \<Rightarrow> sqs_db \<Rightarrow> (sqs_error, unit) result \<times> sqs_db" where
  "delete_queue E queue = with_queue E queue (\<lambda>q db. (Inr (), delete_queue_tx q db))"

definition purge_queue :: "externals \<Rightarrow> string \<Rightarrow> sqs_db \<Rightarrow> (sqs_error, unit) result \<times> sqs_db" where
  "purge_queue E queue = with_queue E queue (\<lambda>q db. (Inr (), purge_queue_tx q db))"

definition set_queue_attributes ::
    "externals \<Rightarrow> string \<Rightarrow> string btree \<Rightarrow> int \<Rightarrow> sqs_db \<Rightarrow> (sqs_error, unit) result \<times> sqs_db" where
  "set_queue_attributes E queue attributes now =
     with_queue E queue (\<lambda>q. set_attributes_tx E q attributes now)"

definition tag_queue ::
    "externals \<Rightarrow> string \<Rightarrow> string btree \<Rightarrow> sqs_db \<Rightarrow> (sqs_error, unit) result \<times> sqs_db" where
  "tag_queue E queue tags = with_queue E queue (\<lambda>q. tag_queue_tx q tags)"

definition untag_queue ::
    "externals \<Rightarrow> string \<Rightarrow> string list \<Rightarrow> sqs_db \<Rightarrow> (sqs_error, unit) result \<times> sqs_db" where
  "untag_queue E queue keys = with_queue E queue (\<lambda>q. untag_queue_tx q keys)"

end
