(* ===== verification/Sqs_Messages.thy ===== *)
theory Sqs_Messages
  imports Sqs_Queues
begin

text \<open>
  SQS, part 3: the message operations of src/src/aws/sqs/service.rs (retention, sending with FIFO
  deduplication, receiving with visibility timeouts, message groups and dead-letter redrive,
  deletion and visibility changes), the long-polling loop, and the internal entry point of
  src/src/aws/sqs/mod.rs.

  Time is an argument: \<open>now\<close> is the result of \<open>now_ms()\<close>.  Each transaction is one definition
  over the whole database, run for a queue record that the caller read earlier.
\<close>

subsection \<open>Retention\<close>

definition refresh :: "sqs_queue \<Rightarrow> int \<Rightarrow> sqs_db \<Rightarrow> sqs_db" where
  "refresh q now db =
     (let retention_ms = attr_i64 q ''MessageRetentionPeriod'' * 1000 in
      db\<lparr> sqs_messages :=
            sql_update (\<lambda>m. m_queue_id m = q_id q \<and> m_visible m \<noteq> (m_visible_at m \<le> now))
              (\<lambda>m. m\<lparr> m_visible := (m_visible_at m \<le> now) \<rparr>)
              (sql_delete (\<lambda>m. m_queue_id m = q_id q \<and> 0 < m_sent_at m
                              \<and> m_sent_at m + retention_ms < now) (sqs_messages db)),
          sqs_fifo_dedup := sql_delete (\<lambda>d. d_expires_at d < now) (sqs_fifo_dedup db) \<rparr>)"

subsection \<open>Queue attributes\<close>

definition COMPUTED_ATTRS :: "string list" where
  "COMPUTED_ATTRS =
     [''QueueArn'', ''ApproximateNumberOfMessages'', ''ApproximateNumberOfMessagesNotVisible'',
      ''ApproximateNumberOfMessagesDelayed'', ''CreatedTimestamp'', ''LastModifiedTimestamp'']"

definition CONFIG_ATTRS :: "string list" where
  "CONFIG_ATTRS =
     [''VisibilityTimeout'', ''DelaySeconds'', ''MaximumMessageSize'', ''MessageRetentionPeriod'',
      ''ReceiveMessageWaitTimeSeconds'', ''SqsManagedSseEnabled'', ''Policy'', ''RedrivePolicy'',
      ''RedriveAllowPolicy'', ''KmsMasterKeyId'', ''KmsDataKeyReusePeriodSeconds'', ''FifoQueue'',
      ''ContentBasedDeduplication'', ''DeduplicationScope'', ''FifoThroughputLimit'']"

definition count_visible :: "sqs_queue \<Rightarrow> int \<Rightarrow> sqs_db \<Rightarrow> nat" where
  "count_visible q now db =
     sql_count (\<lambda>m. m_queue_id m = q_id q \<and> m_visible_at m \<le> now) (sqs_messages db)"

definition count_not_visible :: "sqs_queue \<Rightarrow> int \<Rightarrow> sqs_db \<Rightarrow> nat" where
  "count_not_visible q now db =
     sql_count (\<lambda>m. m_queue_id m = q_id q \<and> now < m_visible_at m \<and> 0 < m_receive_count m)
       (sqs_messages db)"

definition count_delayed :: "sqs_queue \<Rightarrow> int \<Rightarrow> sqs_db \<Rightarrow> nat" where
  "count_delayed q now db =
     sql_count (\<lambda>m. m_queue_id m = q_id q \<and> now < m_visible_at m \<and> m_receive_count m = 0)
       (sqs_messages db)"

text \<open>The value \<open>get_attributes_tx\<close> reports for one name, if it reports one.\<close>

definition attribute_value :: "sqs_queue \<Rightarrow> int \<Rightarrow> sqs_db \<Rightarrow> string \<Rightarrow> string option" where
  "attribute_value q now db n =
     (if n = ''QueueArn'' then Some (sqs_queue_arn q)
      else if n = ''ApproximateNumberOfMessages'' then Some (show_nat (count_visible q now db))
      else if n = ''ApproximateNumberOfMessagesNotVisible'' then
        Some (show_nat (count_not_visible q now db))
      else if n = ''ApproximateNumberOfMessagesDelayed'' then
        Some (show_nat (count_delayed q now db))
      else if n = ''CreatedTimestamp'' then Some (show_int (q_created_ts q))
      else if n = ''LastModifiedTimestamp'' then Some (show_int (q_modified_ts q))
      else if \<not> is_fifo q \<and> n \<in> {''FifoQueue'', ''ContentBasedDeduplication'',
                                    ''DeduplicationScope'', ''FifoThroughputLimit''} then None
      else effective_attr q n)"

definition get_attributes_tx ::
    "sqs_queue \<Rightarrow> string list \<Rightarrow> int \<Rightarrow> sqs_db \<Rightarrow> (sqs_error, string btree) result \<times> sqs_db" where
  "get_attributes_tx q names now db =
     (case find (\<lambda>n. n \<noteq> ''All'' \<and> n \<notin> set COMPUTED_ATTRS \<and> n \<notin> set CONFIG_ATTRS) names of
        Some n \<Rightarrow> (Inl (unknown_attribute n), db)
      | None \<Rightarrow>
          let wanted = (\<lambda>n. ''All'' \<in> set names \<or> n \<in> set names);
              db' = refresh q now db
          in (Inr (fold (\<lambda>n out. case attribute_value q now db' n of
                            Some v \<Rightarrow> bt_insert n v out | None \<Rightarrow> out)
                     (filter wanted (COMPUTED_ATTRS @ CONFIG_ATTRS)) []), db'))"

definition get_queue_attributes ::
    "externals \<Rightarrow> string \<Rightarrow> string list \<Rightarrow> int \<Rightarrow> sqs_db
      \<Rightarrow> (sqs_error, string btree) result \<times> sqs_db" where
  "get_queue_attributes E queue names now =
     with_queue E queue (\<lambda>q. get_attributes_tx q names now)"

subsection \<open>Sending\<close>

definition DEDUP_WINDOW_MS :: int where "DEDUP_WINDOW_MS = 5 * 60 * 1000"
definition MAX_ATTRIBUTES :: nat where "MAX_ATTRIBUTES = 10"

definition valid_body_char :: "nat \<Rightarrow> bool" where
  "valid_body_char ch \<longleftrightarrow>
     ch = 0x9 \<or> ch = 0xA \<or> ch = 0xD \<or> (0x20 \<le> ch \<and> ch \<le> 0xD7FF) \<or> (0xE000 \<le> ch \<and> ch \<le> 0xFFFD)
     \<or> (0x10000 \<le> ch \<and> ch \<le> 0x10FFFF)"

definition attrs_size :: "msg_attrs \<Rightarrow> nat" where
  "attrs_size attrs =
     sum_list (map (\<lambda>(k, a). length k + length (data_type a) + length (value_bytes a)) attrs)"

definition message_size :: "send_input \<Rightarrow> nat" where
  "message_size input = length (si_body input) + attrs_size (si_attributes input)"

text \<open>The checks before the transaction; the result is the delay in seconds.\<close>

definition send_check :: "sqs_queue \<Rightarrow> send_input \<Rightarrow> (sqs_error, int) result" where
  "send_check q input =
     (if si_body input = [] then Inl (missing_parameter ''MessageBody'')
      else case find (\<lambda>ch. \<not> valid_body_char ch) (utf8_chars (si_body input)) of
        Some bad \<Rightarrow>
          Inl (invalid_message_contents (''Invalid binary character '' @ [CHR 0x27] @ ''#x''
               @ show_hex_upper bad @ [CHR 0x27] @ '' was found in the message body, the set of ''
               @ ''allowed characters is #x9 | #xA | #xD | #x20 to #xD7FF | #xE000 to #xFFFD | ''
               @ ''#x10000 to #x10FFFF''))
      | None \<Rightarrow>
          if MAX_ATTRIBUTES < length (si_attributes input) then
            Inl (invalid_parameter (''Number of message attributes [''
                 @ show_nat (length (si_attributes input)) @ ''] exceeds the allowed maximum [''
                 @ show_nat MAX_ATTRIBUTES @ ''].''))
          else let limit = attr_i64 q ''MaximumMessageSize'' in
          if limit < int (message_size input) then
            Inl (invalid_parameter (''One or more parameters are invalid. Reason: Message must be ''
                 @ ''shorter than '' @ show_int limit @ '' bytes.''))
          else case find (\<lambda>k. k \<noteq> ''AWSTraceHeader'') (map fst (si_system_attributes input)) of
            Some k \<Rightarrow> Inl (invalid_parameter (''Message system attribute name '' @ [CHR 0x27] @ k
                            @ [CHR 0x27] @ '' is invalid.''))
          | None \<Rightarrow>
              (case si_delay_seconds input of
                 Some d \<Rightarrow>
                   if is_fifo q then
                     Inl (invalid_parameter (''Value for parameter DelaySeconds is invalid. Reason: ''
                          @ ''The request include parameter that is not valid for this queue type.''))
                   else if \<not> (0 \<le> d \<and> d \<le> 900) then
                     Inl (invalid_parameter (''Value '' @ show_int d @ '' for parameter DelaySeconds is ''
                          @ ''invalid. Reason: DelaySeconds must be >= 0 and <= 900.''))
                   else Inr d
               | None \<Rightarrow> Inr (attr_i64 q ''DelaySeconds'')))"

definition insert_message ::
    "externals \<Rightarrow> int \<Rightarrow> string \<Rightarrow> send_input \<Rightarrow> int \<Rightarrow> int \<Rightarrow> string option \<Rightarrow> string option
      \<Rightarrow> sqs_db \<Rightarrow> (sqs_error, unit) result \<times> sqs_db" where
  "insert_message E queue_id message_id input now visible_at dedup_id sequence_number db =
     (let rh = ''pending-'' @ uuid_v4 E (uuid_ctr db);
          db = db\<lparr> uuid_ctr := Suc (uuid_ctr db) \<rparr>
      in if rh \<in> m_receipt_handle ` set (sqs_messages db) then
           (Inl (internal ''UNIQUE constraint failed: sqs_messages.receipt_handle''), db)
         else
           (Inr (),
            db\<lparr> sqs_messages := sqs_messages db @
                  [\<lparr> m_id = next_message_id db, m_message_id = message_id, m_queue_id = queue_id,
                     m_body = si_body input, m_receipt_handle = rh,
                     m_visible = (visible_at \<le> now), m_created_at = to_rfc3339 E now,
                     m_visible_at = visible_at, m_sent_at = now, m_receive_count = 0,
                     m_first_receive_at = None,
                     m_attributes = (if si_attributes input = [] then None
                                     else Some (attrs_to_json E (si_attributes input))),
                     m_system_attributes = (if si_system_attributes input = [] then None
                                            else Some (attrs_to_json E (si_system_attributes input))),
                     m_group_id = si_group_id input, m_dedup_id = dedup_id,
                     m_sequence_number = sequence_number, m_dlq_source_arn = None \<rparr>],
                next_message_id := next_message_id db + 1 \<rparr>))"

text \<open>What the FIFO branch of \<open>send_tx\<close> decides.\<close>

datatype fifo_decision =
    FifoError sqs_error
  | FifoDuplicate string string     \<comment> \<open>message id and sequence number of the earlier send\<close>
  | FifoFresh string string sqs_db  \<comment> \<open>deduplication id, sequence number, database after the bump\<close>

definition sequence_number_text :: "int \<Rightarrow> string" where
  "sequence_number_text seq =
     show_padded 20 (nat ((10000000000000000000 + seq) mod 2 ^ 64))"

definition fifo_decide ::
    "externals \<Rightarrow> sqs_queue \<Rightarrow> send_input \<Rightarrow> int \<Rightarrow> sqs_db \<Rightarrow> fifo_decision" where
  "fifo_decide E q input now db =
     (if (case si_group_id input of Some g \<Rightarrow> g | None \<Rightarrow> []) = [] then
        FifoError (missing_parameter ''MessageGroupId'')
      else
        let given = (case si_dedup_id input of Some d \<Rightarrow> if d = [] then None else Some d | None \<Rightarrow> None)
        in case (case given of
                   Some d \<Rightarrow> Some d
                 | None \<Rightarrow> if attr_bool q ''ContentBasedDeduplication''
                           then Some (sha256_hex E (si_body input)) else None) of
             None \<Rightarrow> FifoError (invalid_parameter (''The queue should either have ''
                       @ ''ContentBasedDeduplication enabled or MessageDeduplicationId provided explicitly''))
           | Some dedup \<Rightarrow>
               (case find (\<lambda>d. d_queue_id d = q_id q \<and> d_dedup_id d = dedup \<and> now \<le> d_expires_at d)
                       (sqs_fifo_dedup db) of
                  Some d \<Rightarrow> FifoDuplicate (d_message_id d) (d_sequence_number d)
                | None \<Rightarrow>
                    let db' = db\<lparr> sqs_queues := sql_update (\<lambda>r. qr_id r = q_id q)
                                    (\<lambda>r. r\<lparr> qr_fifo_seq := qr_fifo_seq r + 1 \<rparr>) (sqs_queues db) \<rparr>
                    in case find (\<lambda>r. qr_id r = q_id q) (sqs_queues db') of
                         None \<Rightarrow> FifoError (internal ''Query returned no rows'')
                       | Some r \<Rightarrow> FifoFresh dedup (sequence_number_text (qr_fifo_seq r)) db'))"

text \<open>\<open>INSERT OR REPLACE\<close> on the primary key \<open>(queue_id, dedup_id)\<close>.\<close>

definition remember_dedup ::
    "int \<Rightarrow> string \<Rightarrow> string \<Rightarrow> string \<Rightarrow> int \<Rightarrow> sqs_db \<Rightarrow> sqs_db" where
  "remember_dedup queue_id dedup message_id seq now db =
     db\<lparr> sqs_fifo_dedup :=
           sql_delete (\<lambda>d. d_queue_id d = queue_id \<and> d_dedup_id d = dedup) (sqs_fifo_dedup db) @
           [\<lparr> d_queue_id = queue_id, d_dedup_id = dedup, d_message_id = message_id,
              d_sequence_number = seq, d_expires_at = now + DEDUP_WINDOW_MS \<rparr>] \<rparr>"

definition mk_outcome ::
    "externals \<Rightarrow> send_input \<Rightarrow> string \<Rightarrow> string option \<Rightarrow> send_outcome" where
  "mk_outcome E input message_id seq =
     \<lparr> so_message_id = message_id, so_md5_body = md5_hex E (si_body input),
       so_md5_attrs = (if si_attributes input = [] then None
                       else Some (md5_of_attrs E (si_attributes input))),
       so_md5_system_attrs = (if si_system_attributes input = [] then None
                              else Some (md5_of_attrs E (si_system_attributes input))),
       so_sequence_number = seq \<rparr>"

definition send_tx ::
    "externals \<Rightarrow> sqs_queue \<Rightarrow> send_input \<Rightarrow> int \<Rightarrow> sqs_db \<Rightarrow> (sqs_error, send_outcome) result \<times> sqs_db"
  where
  "send_tx E q input now db =
     (case send_check q input of
        Inl e \<Rightarrow> (Inl e, db)
      | Inr delay \<Rightarrow>
          let db1 = refresh q now db;
              store = (\<lambda>dedup seq db2.
                let message_id = uuid_v4 E (uuid_ctr db2) in
                case insert_message E (q_id q) message_id input now (now + delay * 1000) dedup seq
                       (db2\<lparr> uuid_ctr := Suc (uuid_ctr db2) \<rparr>) of
                  (Inl e, db3) \<Rightarrow> (Inl e, db\<lparr> uuid_ctr := uuid_ctr db3 \<rparr>)
                | (Inr _, db3) \<Rightarrow>
                    (Inr (mk_outcome E input message_id seq),
                     case (dedup, seq) of
                       (Some d, Some s) \<Rightarrow> remember_dedup (q_id q) d message_id s now db3
                     | _ \<Rightarrow> db3))
          in if is_fifo q then
               (case fifo_decide E q input now db1 of
                  FifoError e \<Rightarrow> (Inl e, db)
                | FifoDuplicate mid seq \<Rightarrow> (Inr (mk_outcome E input mid (Some seq)), db)
                | FifoFresh dedup seq db2 \<Rightarrow> store (Some dedup) (Some seq) db2)
             else store None None db1)"

definition send ::
    "externals \<Rightarrow> string \<Rightarrow> send_input \<Rightarrow> int \<Rightarrow> sqs_db \<Rightarrow> (sqs_error, send_outcome) result \<times> sqs_db"
  where
  "send E queue input now = with_queue E queue (\<lambda>q. send_tx E q input now)"

definition check_batch_size ::
    "externals \<Rightarrow> string \<Rightarrow> nat \<Rightarrow> sqs_db \<Rightarrow> (sqs_error, unit) result" where
  "check_batch_size E queue bytes db =
     try_bind (get_queue E queue db) (\<lambda>q.
       let limit = attr_i64 q ''MaximumMessageSize'' in
       if limit < int bytes then Inl (batch_too_long limit) else Inr ())"

subsection \<open>Receiving\<close>

record receive_options =
  ro_max :: int
  ro_visibility_timeout :: "int option"
  ro_wait_seconds :: "int option"
  ro_system_attribute_names :: "string list"
  ro_message_attribute_names :: "string list"

definition new_receipt_handle :: "externals \<Rightarrow> string \<Rightarrow> string \<Rightarrow> nat \<Rightarrow> string" where
  "new_receipt_handle E queue message_id n =
     b64url_encode E (queue @ ''|'' @ message_id @ ''|'' @ uuid_v4 E n @ ''|''
                      @ uuid_simple (uuid_v4 E (Suc n)))"

definition parse_receipt_handle :: "externals \<Rightarrow> string \<Rightarrow> string option" where
  "parse_receipt_handle E rh =
     Option.bind (b64url_decode E rh) (\<lambda>raw.
       if \<not> utf8_valid raw then None
       else let parts = split_on (CHR ''|'') raw in
            if length parts = 4 then Some (parts ! 1) else None)"

definition wants :: "string list \<Rightarrow> string \<Rightarrow> bool" where
  "wants names name \<longleftrightarrow> list_ex (\<lambda>n. n = ''All'' \<or> n = name) names"

definition wants_message_attr :: "string list \<Rightarrow> string \<Rightarrow> bool" where
  "wants_message_attr names name \<longleftrightarrow>
     list_ex (\<lambda>n. n = ''All'' \<or> n = ''.*'' \<or> n = name
                \<or> (case strip_suffix ''.*'' n of Some p \<Rightarrow> starts_with name (p @ ''.'')
                   | None \<Rightarrow> False)) names"

text \<open>Attributes read back from a JSON column: unreadable text counts as none.\<close>

definition stored_attrs :: "externals \<Rightarrow> json option \<Rightarrow> msg_attrs" where
  "stored_attrs E col =
     (case col of
        None \<Rightarrow> []
      | Some v \<Rightarrow> (case parse_attrs E (Some v) of Inr attrs \<Rightarrow> attrs | Inl _ \<Rightarrow> []))"

text \<open>The system attributes of a delivered message, in the order the code inserts them.\<close>

definition system_attributes ::
    "externals \<Rightarrow> bool \<Rightarrow> sqs_message \<Rightarrow> int \<Rightarrow> int \<Rightarrow> string list \<Rightarrow> string btree" where
  "system_attributes E fifo m count first sys_names =
     (let put = (\<lambda>(name, value) acc. case value of
                   Some v \<Rightarrow> if wants sys_names name then bt_insert name v acc else acc
                 | None \<Rightarrow> acc)
      in fold put
           ([(''SenderId'', Some ACCOUNT_ID),
             (''SentTimestamp'', Some (show_int (m_sent_at m))),
             (''ApproximateReceiveCount'', Some (show_int count)),
             (''ApproximateFirstReceiveTimestamp'', Some (show_int first)),
             (''MessageGroupId'', m_group_id m)]
            @ (if fifo then [(''MessageDeduplicationId'', m_dedup_id m),
                             (''SequenceNumber'', m_sequence_number m)] else [])
            @ [(''DeadLetterQueueSourceArn'', m_dlq_source_arn m),
               (''AWSTraceHeader'',
                Option.bind (map_of (stored_attrs E (m_system_attributes m)) ''AWSTraceHeader'')
                  string_value)])
           [])"

text \<open>The UPDATE of a row that is moved to the dead-letter queue, and of one that is delivered.\<close>

definition redrive_row :: "int \<Rightarrow> int \<Rightarrow> string \<Rightarrow> string \<Rightarrow> sqs_message \<Rightarrow> sqs_message" where
  "redrive_row dlq_id now source_arn rh m =
     m\<lparr> m_queue_id := dlq_id, m_receive_count := 0, m_first_receive_at := None,
        m_visible_at := now, m_visible := True, m_dlq_source_arn := Some source_arn,
        m_receipt_handle := rh \<rparr>"

definition deliver_row :: "string \<Rightarrow> int \<Rightarrow> int \<Rightarrow> int \<Rightarrow> int \<Rightarrow> sqs_message \<Rightarrow> sqs_message" where
  "deliver_row rh count first now vt m =
     m\<lparr> m_receipt_handle := rh, m_receive_count := count, m_first_receive_at := Some first,
        m_visible_at := now + vt * 1000, m_visible := (vt = 0) \<rparr>"

text \<open>\<open>UPDATE sqs_messages \<dots> WHERE id = ?\<close> with a new receipt handle, which must be unused.\<close>

definition update_message ::
    "int \<Rightarrow> string \<Rightarrow> (sqs_message \<Rightarrow> sqs_message) \<Rightarrow> sqs_db \<Rightarrow> sqs_db option" where
  "update_message i rh f db =
     (if \<exists>m\<in>set (sqs_messages db). m_id m \<noteq> i \<and> m_receipt_handle m = rh then None
      else Some (db\<lparr> sqs_messages := sql_update (\<lambda>m. m_id m = i) f (sqs_messages db) \<rparr>))"

definition received ::
    "externals \<Rightarrow> sqs_queue \<Rightarrow> receive_options \<Rightarrow> sqs_message \<Rightarrow> string \<Rightarrow> int \<Rightarrow> int
      \<Rightarrow> received_message" where
  "received E q opts m rh count first =
     \<lparr> rm_message_id = m_message_id m, rm_receipt_handle = rh, rm_body = m_body m,
       rm_attributes = system_attributes E (is_fifo q) m count first (ro_system_attribute_names opts),
       rm_message_attributes =
         filter (\<lambda>(k, _). wants_message_attr (ro_message_attribute_names opts) k)
           (stored_attrs E (m_attributes m)) \<rparr>"

definition unique_handle_error :: sqs_error where
  "unique_handle_error = internal ''UNIQUE constraint failed: sqs_messages.receipt_handle''"

definition group_blocked :: "bool \<Rightarrow> string set \<Rightarrow> sqs_message \<Rightarrow> bool" where
  "group_blocked fifo blocked m =
     (case m_group_id m of Some g \<Rightarrow> fifo \<and> g \<in> blocked | None \<Rightarrow> False)"

definition block_group :: "bool \<Rightarrow> sqs_message \<Rightarrow> string set \<Rightarrow> string set" where
  "block_group fifo m blocked =
     (case m_group_id m of Some g \<Rightarrow> if fifo then insert g blocked else blocked | None \<Rightarrow> blocked)"

text \<open>The loop over the candidate rows: \<open>out\<close> is what has been received so far.\<close>

fun receive_loop ::
    "externals \<Rightarrow> sqs_queue \<Rightarrow> (sqs_queue \<times> int) option \<Rightarrow> receive_options \<Rightarrow> int \<Rightarrow> int
      \<Rightarrow> sqs_message list \<Rightarrow> string set \<Rightarrow> received_message list \<Rightarrow> sqs_db
      \<Rightarrow> (sqs_error, received_message list) result \<times> sqs_db" where
  "receive_loop E q dlq opts now vt [] blocked out db = (Inr out, db)"
| "receive_loop E q dlq opts now vt (m # ms) blocked out db =
     (if ro_max opts \<le> int (length out) then (Inr out, db)
      else if group_blocked (is_fifo q) blocked m then
        receive_loop E q dlq opts now vt ms blocked out db
      else case (case dlq of Some (d, mx) \<Rightarrow> if mx \<le> m_receive_count m then Some d else None
                           | None \<Rightarrow> None) of
        Some d \<Rightarrow>
          let rh = ''pending-'' @ uuid_v4 E (uuid_ctr db);
              db = db\<lparr> uuid_ctr := Suc (uuid_ctr db) \<rparr>
          in (case update_message (m_id m) rh (redrive_row (q_id d) now (sqs_queue_arn q) rh) db of
                None \<Rightarrow> (Inl unique_handle_error, db)
              | Some db' \<Rightarrow>
                  receive_loop E q dlq opts now vt ms (block_group (is_fifo q) m blocked) out db')
      | None \<Rightarrow>
          let rh = new_receipt_handle E (q_name q) (m_message_id m) (uuid_ctr db);
              db = db\<lparr> uuid_ctr := uuid_ctr db + 2 \<rparr>;
              count = m_receive_count m + 1;
              first = (case m_first_receive_at m of Some t \<Rightarrow> t | None \<Rightarrow> now)
          in (case update_message (m_id m) rh (deliver_row rh count first now vt) db of
                None \<Rightarrow> (Inl unique_handle_error, db)
              | Some db' \<Rightarrow>
                  receive_loop E q dlq opts now vt ms blocked
                    (out @ [received E q opts m rh count first]) db'))"

definition candidates :: "sqs_queue \<Rightarrow> int \<Rightarrow> sqs_db \<Rightarrow> sqs_message list" where
  "candidates q now db =
     sort_key m_id (filter (\<lambda>m. m_queue_id m = q_id q \<and> m_visible_at m \<le> now) (sqs_messages db))"

definition inflight_groups :: "sqs_queue \<Rightarrow> int \<Rightarrow> sqs_db \<Rightarrow> string set" where
  "inflight_groups q now db =
     set (List.map_filter m_group_id
       (filter (\<lambda>m. m_queue_id m = q_id q \<and> now < m_visible_at m \<and> 0 < m_receive_count m)
          (sqs_messages db)))"

definition dead_letter_target :: "externals \<Rightarrow> sqs_queue \<Rightarrow> sqs_db \<Rightarrow> (sqs_queue \<times> int) option" where
  "dead_letter_target E q db =
     (case redrive E q of
        Some (arn, mx) \<Rightarrow> map_option (\<lambda>d. (d, mx)) (find_queue E (queue_name_of arn) db)
      | None \<Rightarrow> None)"

definition receive_tx ::
    "externals \<Rightarrow> sqs_queue \<Rightarrow> receive_options \<Rightarrow> int \<Rightarrow> sqs_db
      \<Rightarrow> (sqs_error, received_message list) result \<times> sqs_db" where
  "receive_tx E q opts now db =
     (let db1 = refresh q now db;
          vt = (case ro_visibility_timeout opts of Some t \<Rightarrow> t | None \<Rightarrow> attr_i64 q ''VisibilityTimeout'');
          blocked = (if is_fifo q then inflight_groups q now db1 else {})
      in case receive_loop E q (dead_letter_target E q db1) opts now vt (candidates q now db1)
                blocked [] db1 of
           (Inl e, db2) \<Rightarrow> (Inl e, db\<lparr> uuid_ctr := uuid_ctr db2 \<rparr>)
         | (Inr out, db2) \<Rightarrow> (Inr out, db2))"

text \<open>The checks of \<open>receive\<close>; the result is the queue read and the wait in seconds.\<close>

definition receive_check ::
    "externals \<Rightarrow> string \<Rightarrow> receive_options \<Rightarrow> sqs_db \<Rightarrow> (sqs_error, sqs_queue \<times> int) result" where
  "receive_check E queue opts db =
     try_bind (get_queue E queue db) (\<lambda>q.
       if \<not> (1 \<le> ro_max opts \<and> ro_max opts \<le> 10) then
         Inl (invalid_parameter (''Value '' @ show_int (ro_max opts) @ '' for parameter ''
              @ ''MaxNumberOfMessages is invalid. Reason: Must be between 1 and 10, if provided.''))
       else case (case ro_visibility_timeout opts of
                    Some vt \<Rightarrow> if 0 \<le> vt \<and> vt \<le> MAX_VISIBILITY then None else Some vt
                  | None \<Rightarrow> None) of
         Some vt \<Rightarrow>
           Inl (invalid_parameter (''Value '' @ show_int vt @ '' for parameter VisibilityTimeout is ''
                @ ''invalid. Reason: Must be between 0 and 43200, if provided.''))
       | None \<Rightarrow>
           let wait = (case ro_wait_seconds opts of
                         Some w \<Rightarrow> w | None \<Rightarrow> attr_i64 q ''ReceiveMessageWaitTimeSeconds'')
           in if \<not> (0 \<le> wait \<and> wait \<le> 20) then
                Inl (invalid_parameter (''Value '' @ show_int wait @ '' for parameter WaitTimeSeconds ''
                     @ ''is invalid. Reason: Must be >= 0 and <= 20, if provided.''))
              else Inr (q, wait))"

text \<open>
  The polling loop of \<open>receive\<close>.  Between two polls other requests run: \<open>others i\<close> is what they do
  to the database before the i-th poll, \<open>wall i\<close> the wall clock (\<open>now_ms\<close>) during it and
  \<open>instant i\<close> the monotonic clock after it.  \<open>None\<close> stands for running out of \<open>fuel\<close>.
\<close>

fun poll_loop ::
    "nat \<Rightarrow> externals \<Rightarrow> string \<Rightarrow> receive_options \<Rightarrow> int \<Rightarrow> (nat \<Rightarrow> int) \<Rightarrow> (nat \<Rightarrow> int)
      \<Rightarrow> (nat \<Rightarrow> sqs_db \<Rightarrow> sqs_db) \<Rightarrow> nat \<Rightarrow> sqs_db
      \<Rightarrow> ((sqs_error, received_message list) result \<times> sqs_db) option" where
  "poll_loop 0 E name opts deadline wall instant others i db = None"
| "poll_loop (Suc fuel) E name opts deadline wall instant others i db =
     (let db0 = others i db in
      case require_queue E name db0 of
        Inl e \<Rightarrow> Some (Inl e, db0)
      | Inr q \<Rightarrow>
          (case receive_tx E q opts (wall i) db0 of
             (Inl e, db1) \<Rightarrow> Some (Inl e, db1)
           | (Inr msgs, db1) \<Rightarrow>
               if msgs \<noteq> [] \<or> deadline \<le> instant i then Some (Inr msgs, db1)
               else poll_loop fuel E name opts deadline wall instant others (Suc i) db1))"

definition receive ::
    "nat \<Rightarrow> externals \<Rightarrow> string \<Rightarrow> receive_options \<Rightarrow> int \<Rightarrow> (nat \<Rightarrow> int) \<Rightarrow> (nat \<Rightarrow> int)
      \<Rightarrow> (nat \<Rightarrow> sqs_db \<Rightarrow> sqs_db) \<Rightarrow> sqs_db
      \<Rightarrow> ((sqs_error, received_message list) result \<times> sqs_db) option" where
  "receive fuel E queue opts start wall instant others db =
     (case receive_check E queue opts db of
        Inl e \<Rightarrow> Some (Inl e, db)
      | Inr (q, wait) \<Rightarrow>
          poll_loop fuel E (q_name q) opts (start + wait * 1000) wall instant others 0 db)"

subsection \<open>Acknowledging and changing visibility\<close>

definition delete_message_tx ::
    "externals \<Rightarrow> sqs_queue \<Rightarrow> string \<Rightarrow> sqs_db \<Rightarrow> (sqs_error, unit) result \<times> sqs_db" where
  "delete_message_tx E q rh db =
     (if rh = [] then (Inl (missing_parameter ''ReceiptHandle''), db)
      else
        let P = (\<lambda>m. m_queue_id m = q_id q \<and> m_receipt_handle m = rh);
            n = sql_count P (sqs_messages db);
            db' = db\<lparr> sqs_messages := sql_delete P (sqs_messages db) \<rparr>
        in if n = 0 \<and> parse_receipt_handle E rh = None then (Inl (receipt_handle_invalid rh), db')
           else (Inr (), db'))"

definition delete_message ::
    "externals \<Rightarrow> string \<Rightarrow> string \<Rightarrow> sqs_db \<Rightarrow> (sqs_error, unit) result \<times> sqs_db" where
  "delete_message E queue rh = with_queue E queue (\<lambda>q. delete_message_tx E q rh)"

definition change_visibility_tx ::
    "externals \<Rightarrow> sqs_queue \<Rightarrow> string \<Rightarrow> int \<Rightarrow> int \<Rightarrow> sqs_db \<Rightarrow> (sqs_error, unit) result \<times> sqs_db"
  where
  "change_visibility_tx E q rh timeout now db =
     (if rh = [] then (Inl (missing_parameter ''ReceiptHandle''), db)
      else if \<not> (0 \<le> timeout \<and> timeout \<le> MAX_VISIBILITY) then
        (Inl (invalid_parameter (''Value '' @ show_int timeout @ '' for parameter VisibilityTimeout ''
              @ ''is invalid. Reason: Must be between 0 and 43200, if provided.'')), db)
      else
        let P = (\<lambda>m. m_queue_id m = q_id q \<and> m_receipt_handle m = rh);
            n = sql_count P (sqs_messages db);
            db' = db\<lparr> sqs_messages :=
                        sql_update P (\<lambda>m. m\<lparr> m_visible_at := now + timeout * 1000,
                                            m_visible := (timeout = 0) \<rparr>) (sqs_messages db) \<rparr>
        in if 0 < n then (Inr (), db')
           else case parse_receipt_handle E rh of
             None \<Rightarrow> (Inl (receipt_handle_invalid rh), db')
           | Some message_id \<Rightarrow>
               (case find (\<lambda>m. m_queue_id m = q_id q \<and> m_message_id m = message_id)
                       (sqs_messages db') of
                  Some m \<Rightarrow>
                    if m_visible_at m \<le> now then (Inl message_not_inflight, db')
                    else (Inl (invalid_parameter (''Value '' @ rh @ '' for parameter ReceiptHandle is ''
                            @ ''invalid. Reason: Message does not exist or is not available for ''
                            @ ''visibility timeout change.'')), db')
                | None \<Rightarrow>
                    (Inl (invalid_parameter (''Value '' @ rh @ '' for parameter ReceiptHandle is ''
                       @ ''invalid. Reason: Message does not exist or is not available for ''
                       @ ''visibility timeout change.'')), db')))"

definition change_visibility ::
    "externals \<Rightarrow> string \<Rightarrow> string \<Rightarrow> int \<Rightarrow> int \<Rightarrow> sqs_db \<Rightarrow> (sqs_error, unit) result \<times> sqs_db"
  where
  "change_visibility E queue rh timeout now =
     with_queue E queue (\<lambda>q. change_visibility_tx E q rh timeout now)"

subsection \<open>Sending on behalf of other services\<close>

text \<open>
  \<open>send_with\<close>: the queue is looked up, then looked up again by name inside \<open>send\<close>; a FIFO queue
  gets a group and a deduplication id when the caller has none.
\<close>

definition send_with ::
    "externals \<Rightarrow> string \<Rightarrow> string \<Rightarrow> msg_attrs \<Rightarrow> string option \<Rightarrow> string option \<Rightarrow> int \<Rightarrow> sqs_db
      \<Rightarrow> (sqs_error, string) result \<times> sqs_db" where
  "send_with E queue body attributes group_id dedup_id now db =
     (case get_queue E queue db of
        Inl e \<Rightarrow> (Inl e, db)
      | Inr q \<Rightarrow>
          let (group, dedup, db') =
                (if is_fifo q then
                   (Some (case group_id of Some g \<Rightarrow> g | None \<Rightarrow> ''cloudtwin''),
                    case dedup_id of Some d \<Rightarrow> (Some d, db)
                    | None \<Rightarrow> (Some (uuid_v4 E (uuid_ctr db)), db\<lparr> uuid_ctr := Suc (uuid_ctr db) \<rparr>))
                 else (group_id, None, db))
          in case send E (q_name q)
                    \<lparr> si_body = body, si_delay_seconds = None, si_attributes = attributes,
                      si_system_attributes = [], si_group_id = group, si_dedup_id = dedup \<rparr> now db' of
               (Inl e, db'') \<Rightarrow> (Inl e, db'') | (Inr out, db'') \<Rightarrow> (Inr (so_message_id out), db''))"

definition send_internal ::
    "externals \<Rightarrow> string \<Rightarrow> string \<Rightarrow> json option \<Rightarrow> int \<Rightarrow> sqs_db
      \<Rightarrow> (string + sqs_error, string) result \<times> sqs_db" where
  "send_internal E queue body message_attributes now db =
     (case parse_attrs E message_attributes of
        Inl e \<Rightarrow> (Inl (Inl e), db)
      | Inr attrs \<Rightarrow>
          (case send_with E queue body attrs None None now db of
             (Inl e, db') \<Rightarrow> (Inl (Inr e), db') | (Inr mid, db') \<Rightarrow> (Inr mid, db')))"

end
