(* ===== verification/Sqs_Invariant.thy ===== *)
theory Sqs_Invariant
  imports Sqs_Messages
begin

text \<open>
  SQS, part 4: the invariant of the SQS tables and its preservation by every transaction, for a
  queue record read at any earlier moment, so for every interleaving of requests.

  The invariant holds the table constraints (unique names, ids and receipt handles), where receipt
  handles come from, that stored attribute values are in the range the validation promises, and
  that a queue is FIFO exactly when its name says so.
\<close>

subsection \<open>Receipt handles\<close>

definition sqs_env :: "externals \<Rightarrow> bool" where
  "sqs_env E \<longleftrightarrow> uuids_fresh E \<and> b64url_roundtrip E \<and> b64url_head E"

definition ascii_start :: "string \<Rightarrow> bool" where
  "ascii_start s \<longleftrightarrow> (case s of [] \<Rightarrow> True | c # _ \<Rightarrow> code_of c < 128)"

text \<open>A handle made from the first \<open>n\<close> UUIDs drawn.\<close>

definition handle_before :: "externals \<Rightarrow> nat \<Rightarrow> string \<Rightarrow> bool" where
  "handle_before E n rh \<longleftrightarrow>
     (\<exists>i<n. rh = ''pending-'' @ uuid_v4 E i)
     \<or> (\<exists>qn mid i. Suc i < n \<and> ascii_start qn \<and> rh = new_receipt_handle E qn mid i)"

lemma handle_before_mono: "handle_before E m rh \<Longrightarrow> m \<le> n \<Longrightarrow> handle_before E n rh"
  unfolding handle_before_def by (blast intro: less_le_trans)

lemma uuid_simple_no_bar: "uuids_fresh E \<Longrightarrow> CHR ''|'' \<notin> set (uuid_simple (uuid_v4 E n))"
  using uuid_no_bar by (auto simp: uuid_simple_def)

lemma handle_text_split:
  assumes "uuids_fresh E"
  shows "split_on (CHR ''|'') (q @ ''|'' @ mid @ ''|'' @ uuid_v4 E n @ ''|'' @ uuid_simple (uuid_v4 E m))
    = split_on (CHR ''|'') q @ split_on (CHR ''|'') mid @ [uuid_v4 E n, uuid_simple (uuid_v4 E m)]"
  using assms
  by (simp add: split_on_concat split_on_no_sep uuid_no_bar uuid_simple_no_bar)

lemma new_receipt_handle_draw:
  assumes "sqs_env E" "new_receipt_handle E q mid n = new_receipt_handle E q' mid' n'"
  shows "n = n'"
proof -
  have fresh: "uuids_fresh E" and b64: "b64url_roundtrip E" using assms(1) by (simp_all add: sqs_env_def)
  have "split_on (CHR ''|'') (q @ ''|'' @ mid @ ''|'' @ uuid_v4 E n @ ''|'' @ uuid_simple (uuid_v4 E (Suc n)))
    = split_on (CHR ''|'') (q' @ ''|'' @ mid' @ ''|'' @ uuid_v4 E n' @ ''|'' @ uuid_simple (uuid_v4 E (Suc n')))"
    using assms(2) b64url_inject[OF b64] by (simp only: new_receipt_handle_def)
  then have "(split_on (CHR ''|'') q @ split_on (CHR ''|'') mid) @ [uuid_v4 E n, uuid_simple (uuid_v4 E (Suc n))]
    = (split_on (CHR ''|'') q' @ split_on (CHR ''|'') mid') @ [uuid_v4 E n', uuid_simple (uuid_v4 E (Suc n'))]"
    unfolding handle_text_split[OF fresh] append_assoc .
  then have "uuid_v4 E n = uuid_v4 E n'"
    by (subst (asm) append_eq_append_conv) simp_all
  then show ?thesis using fresh by (simp add: uuid_inject)
qed

lemma new_receipt_handle_not_pending:
  assumes "sqs_env E" "ascii_start q"
  shows "new_receipt_handle E q mid n \<noteq> ''pending-'' @ u"
proof -
  obtain c r where "q @ ''|'' @ mid @ ''|'' @ uuid_v4 E n @ ''|'' @ uuid_simple (uuid_v4 E (Suc n))
      = c # r" and "code_of c < 128"
    using assms(2) by (cases q) (auto simp: ascii_start_def)
  then show ?thesis
    using ascii_b64url_not_p[of E c r] assms(1) by (simp add: new_receipt_handle_def sqs_env_def)
qed

lemma handle_before_cases:
  assumes "handle_before E n rh"
  obtains (pending) i where "i < n" "rh = ''pending-'' @ uuid_v4 E i"
    | (issued) q mid i where "Suc i < n" "ascii_start q" "rh = new_receipt_handle E q mid i"
  using assms unfolding handle_before_def by blast

lemma pending_unused:
  assumes "sqs_env E" "handle_before E n rh"
  shows "rh \<noteq> ''pending-'' @ uuid_v4 E n"
  using assms(2)
proof (cases rule: handle_before_cases)
  case (pending i)
  moreover have "uuid_v4 E i \<noteq> uuid_v4 E n"
    using assms(1) pending(1) by (simp add: sqs_env_def uuid_inject)
  ultimately show ?thesis by simp
next
  case (issued q mid i)
  show ?thesis
    unfolding issued(3) by (rule new_receipt_handle_not_pending[OF assms(1) issued(2)])
qed

lemma issued_unused:
  assumes "sqs_env E" "handle_before E n rh" "ascii_start q"
  shows "rh \<noteq> new_receipt_handle E q mid n"
proof
  assume rh: "rh = new_receipt_handle E q mid n"
  from assms(2) show False
  proof (cases rule: handle_before_cases)
    case (pending i)
    with rh new_receipt_handle_not_pending[OF assms(1,3)] show ?thesis by metis
  next
    case (issued q' mid' i)
    with rh new_receipt_handle_draw[OF assms(1)] have "i = n" by metis
    with issued show ?thesis by simp
  qed
qed

subsection \<open>The invariant\<close>

text \<open>The integer attributes and their ranges.\<close>

definition int_attr_ranges :: "(string \<times> int \<times> int) list" where
  "int_attr_ranges =
     [(''VisibilityTimeout'', 0, 43200), (''DelaySeconds'', 0, 900),
      (''MaximumMessageSize'', 1024, 1048576), (''MessageRetentionPeriod'', 60, 1209600),
      (''ReceiveMessageWaitTimeSeconds'', 0, 20), (''KmsDataKeyReusePeriodSeconds'', 60, 86400)]"

definition value_in_range :: "string \<Rightarrow> string \<Rightarrow> bool" where
  "value_in_range k v \<longleftrightarrow>
     (case map_of int_attr_ranges k of
        None \<Rightarrow> True
      | Some (lo, hi) \<Rightarrow> (\<exists>n. v = show_int n \<and> lo \<le> n \<and> n \<le> hi))"

definition attrs_valid :: "string btree \<Rightarrow> bool" where
  "attrs_valid attrs \<longleftrightarrow> (\<forall>k v. map_of attrs k = Some v \<longrightarrow> value_in_range k v)"

definition fifo_flag :: "string btree \<Rightarrow> bool" where
  "fifo_flag attrs \<longleftrightarrow>
     (case map_of attrs ''FifoQueue'' of Some v \<Rightarrow> eq_ignore_ascii_case v ''true'' | None \<Rightarrow> False)"

definition queue_row_ok :: "int \<Rightarrow> sqs_queue_row \<Rightarrow> bool" where
  "queue_row_ok next r \<longleftrightarrow>
     0 < qr_id r \<and> qr_id r < next \<and> valid_queue_name (qr_name r) \<and> bt_ok (qr_attributes r)
     \<and> attrs_valid (qr_attributes r)
     \<and> (fifo_flag (qr_attributes r) \<longleftrightarrow> ends_with (qr_name r) ''.fifo'')"

definition queues_ok :: "sqs_db \<Rightarrow> bool" where
  "queues_ok db \<longleftrightarrow>
     distinct (map qr_name (sqs_queues db)) \<and> sorted_wrt (<) (map qr_id (sqs_queues db))
     \<and> (\<forall>r\<in>set (sqs_queues db). queue_row_ok (next_queue_id db) r) \<and> 0 < next_queue_id db"

definition message_ok :: "externals \<Rightarrow> sqs_db \<Rightarrow> sqs_message \<Rightarrow> bool" where
  "message_ok E db m \<longleftrightarrow>
     m_id m < next_message_id db \<and> m_queue_id m < next_queue_id db \<and> 0 \<le> m_receive_count m
     \<and> (\<exists>i<uuid_ctr db. m_message_id m = uuid_v4 E i)
     \<and> handle_before E (uuid_ctr db) (m_receipt_handle m)"

definition messages_ok :: "externals \<Rightarrow> sqs_db \<Rightarrow> bool" where
  "messages_ok E db \<longleftrightarrow>
     sorted_wrt (<) (map m_id (sqs_messages db))
     \<and> distinct (map m_receipt_handle (sqs_messages db))
     \<and> distinct (map m_message_id (sqs_messages db))
     \<and> (\<forall>m\<in>set (sqs_messages db). message_ok E db m)"

definition dedup_key :: "sqs_dedup \<Rightarrow> int \<times> string" where
  "dedup_key d = (d_queue_id d, d_dedup_id d)"

definition dedup_ok :: "sqs_db \<Rightarrow> bool" where
  "dedup_ok db \<longleftrightarrow> distinct (map dedup_key (sqs_fifo_dedup db))"

definition sqs_ok :: "externals \<Rightarrow> sqs_db \<Rightarrow> bool" where
  "sqs_ok E db \<longleftrightarrow> queues_ok db \<and> messages_ok E db \<and> dedup_ok db"

text \<open>What a queue record read earlier still satisfies.\<close>

definition snapshot_ok :: "sqs_queue \<Rightarrow> sqs_db \<Rightarrow> bool" where
  "snapshot_ok q db \<longleftrightarrow>
     0 < q_id q \<and> q_id q < next_queue_id db \<and> valid_queue_name (q_name q) \<and> bt_ok (q_attributes q)
     \<and> attrs_valid (q_attributes q)
     \<and> (fifo_flag (q_attributes q) \<longleftrightarrow> ends_with (q_name q) ''.fifo'')"

lemma fifo_flag_is_fifo [simp]: "fifo_flag (q_attributes q) = is_fifo q"
  by (simp add: fifo_flag_def is_fifo_def attr_bool_def)

lemma is_alnum_ascii: "is_alnum c \<Longrightarrow> code_of c < 128"
  by (auto simp: is_alnum_def is_digit_def is_upper_def is_lower_def)

lemma valid_queue_name_ascii: "valid_queue_name n \<Longrightarrow> ascii_start n"
proof (cases n)
  case (Cons c r)
  assume v: "valid_queue_name n"
  define base where "base = (case strip_suffix ''.fifo'' n of Some b \<Rightarrow> b | None \<Rightarrow> n)"
  from v have b: "base \<noteq> []" "list_all (\<lambda>c. is_alnum c \<or> c = CHR ''-'' \<or> c = CHR ''_'') base"
    by (simp_all add: valid_queue_name_def Let_def base_def)
  then obtain d ds where d: "base = d # ds" by (cases base) auto
  have "hd base = c"
    using Cons b(1) by (auto simp: base_def strip_suffix_def take_Cons' split: if_splits)
  with b(2) d have "is_alnum c \<or> c = CHR ''-'' \<or> c = CHR ''_''" by simp
  then have "code_of c < 128" by (auto dest: is_alnum_ascii)
  with Cons show ?thesis by (simp add: ascii_start_def)
qed (simp add: ascii_start_def)

lemma snapshot_of_row:
  "queues_ok db \<Longrightarrow> r \<in> set (sqs_queues db) \<Longrightarrow> snapshot_ok (queue_from_row E r) db"
  by (auto simp: queues_ok_def queue_row_ok_def snapshot_ok_def queue_from_row_def Let_def
      simp flip: fifo_flag_is_fifo)

lemma find_queue_snapshot: "queues_ok db \<Longrightarrow> find_queue E n db = Some q \<Longrightarrow> snapshot_ok q db"
  by (auto simp: find_queue_def dest!: find_Some_set intro: snapshot_of_row)

lemma find_queue_name: "find_queue E n db = Some q \<Longrightarrow> q_name q = n"
  by (auto simp: find_queue_def queue_from_row_def Let_def dest!: find_Some_set)

lemma get_queue_snapshot: "queues_ok db \<Longrightarrow> get_queue E n db = Inr q \<Longrightarrow> snapshot_ok q db"
  by (auto simp: get_queue_def require_queue_def Let_def split: if_splits option.splits
      dest: find_queue_snapshot)

lemma snapshot_mono:
  "snapshot_ok q db \<Longrightarrow> next_queue_id db \<le> next_queue_id db' \<Longrightarrow> snapshot_ok q db'"
  by (auto simp: snapshot_ok_def)

lemma sqs_ok_init: "sqs_ok E sqs_init"
  by (simp add: sqs_ok_def queues_ok_def messages_ok_def dedup_ok_def sqs_init_def)

subsection \<open>Preservation: queues\<close>

lemma parse_int_attr_range:
  "parse_int_attr k v lo hi = Inr w \<Longrightarrow> \<exists>n. w = show_int n \<and> lo \<le> n \<and> n \<le> hi"
  by (auto simp: parse_int_attr_def split: option.splits if_splits)

lemma validate_attr_range: "validate_attr E db fifo k v = Inr w \<Longrightarrow> value_in_range k w"
proof (cases "map_of int_attr_ranges k")
  case (Some p)
  assume v: "validate_attr E db fifo k v = Inr w"
  obtain lo hi where "p = (lo, hi)" by fastforce
  with Some v have "parse_int_attr k v lo hi = Inr w"
    by (auto simp: int_attr_ranges_def validate_attr_def MAX_VISIBILITY_def split: if_splits)
  with Some \<open>p = (lo, hi)\<close> show ?thesis
    by (auto simp: value_in_range_def dest: parse_int_attr_range)
qed (simp add: value_in_range_def)

lemma parse_bool_attr_values: "parse_bool_attr k v = Inr w \<Longrightarrow> w = ''true'' \<or> w = ''false''"
  by (auto simp: parse_bool_attr_def split: if_splits)

lemma validate_attr_fifo:
  "validate_attr E db fifo ''FifoQueue'' v = Inr w \<Longrightarrow> w = ''true'' \<or> w = ''false''"
  by (rule parse_bool_attr_values) (simp add: validate_attr_def)

text \<open>What every pair of a validated attribute map satisfies.\<close>

definition norm_attr :: "string \<Rightarrow> string \<Rightarrow> bool" where
  "norm_attr k v \<longleftrightarrow> value_in_range k v \<and> (k = ''FifoQueue'' \<longrightarrow> v = ''true'' \<or> v = ''false'')"

definition norm_attrs :: "string btree \<Rightarrow> bool" where
  "norm_attrs m \<longleftrightarrow> (\<forall>k v. map_of m k = Some v \<longrightarrow> norm_attr k v)"

lemma validate_attr_list_norm:
  "validate_attr_list E db fifo attrs out = Inr m \<Longrightarrow> bt_ok out \<Longrightarrow> norm_attrs out \<Longrightarrow>
   bt_ok m \<and> norm_attrs m"
proof (induction E db fifo attrs out rule: validate_attr_list.induct)
  case (2 E db fifo k v rest out)
  then obtain w where w: "validate_attr E db fifo k v = Inr w"
    and rest: "validate_attr_list E db fifo rest (bt_insert k w out) = Inr m"
    by (auto simp: try_bind_Inr_iff)
  have "norm_attr k w"
    using w validate_attr_range[OF w] by (auto simp: norm_attr_def dest: validate_attr_fifo)
  then have "norm_attrs (bt_insert k w out)"
    using 2 by (simp add: norm_attrs_def)
  with 2 w rest show ?case by simp
qed simp

lemma validate_attributes_norm:
  "validate_attributes E db n attrs c = Inr m \<Longrightarrow> bt_ok m \<and> norm_attrs m"
  unfolding validate_attributes_def Let_def
  by (erule validate_attr_list_norm) (simp_all add: norm_attrs_def)

lemma norm_attrs_valid: "norm_attrs m \<Longrightarrow> attrs_valid m"
  by (simp add: norm_attrs_def norm_attr_def attrs_valid_def)

lemma map_of_filter_vals:
  "distinct (map fst m) \<Longrightarrow>
   map_of (filter (\<lambda>(k, v). v \<noteq> []) m) k = (case map_of m k of Some [] \<Rightarrow> None | x \<Rightarrow> x)"
proof (induction m)
  case (Cons p m)
  obtain j w where p: "p = (j, w)" by fastforce
  from Cons.prems p have "j \<notin> fst ` set m" by simp
  then have "map_of m j = None" by (simp add: map_of_eq_None_iff)
  with Cons p show ?case by (auto split: option.splits list.splits)
qed simp

lemma fifo_flag_norm:
  "norm_attrs m \<Longrightarrow>
   fifo_flag m \<longleftrightarrow> (case map_of m ''FifoQueue'' of Some v \<Rightarrow> v = ''true'' | None \<Rightarrow> False)"
  by (fastforce simp: fifo_flag_def norm_attrs_def norm_attr_def eq_ignore_ascii_case_def
      ascii_lowercase_def to_lower_def is_upper_def split: option.splits)

lemma stored_attrs_ok:
  assumes "bt_ok m" "norm_attrs m"
  shows "bt_ok (filter (\<lambda>(k, v). v \<noteq> []) m)" "attrs_valid (filter (\<lambda>(k, v). v \<noteq> []) m)"
    "fifo_flag (filter (\<lambda>(k, v). v \<noteq> []) m) = fifo_flag m"
proof -
  note get = map_of_filter_vals[OF bt_ok_distinct[OF assms(1)]]
  show "bt_ok (filter (\<lambda>(k, v). v \<noteq> []) m)" by (rule bt_ok_filter[OF assms(1)])
  show "attrs_valid (filter (\<lambda>(k, v). v \<noteq> []) m)"
    using norm_attrs_valid[OF assms(2)] by (auto simp: attrs_valid_def get split: option.splits list.splits)
  show "fifo_flag (filter (\<lambda>(k, v). v \<noteq> []) m) = fifo_flag m"
    by (auto simp: fifo_flag_def get eq_ignore_ascii_case_def ascii_lowercase_def
        split: option.splits list.splits)
qed

text \<open>Messages do not depend on queue rows, as long as ids are not taken back.\<close>

lemma message_ok_mono:
  assumes "message_ok E db m" "next_message_id db \<le> next_message_id db'"
    "next_queue_id db \<le> next_queue_id db'" "uuid_ctr db \<le> uuid_ctr db'"
  shows "message_ok E db' m"
proof -
  have "\<exists>i<uuid_ctr db'. m_message_id m = uuid_v4 E i"
    using assms(1,4) unfolding message_ok_def by (blast intro: less_le_trans)
  with assms show ?thesis
    unfolding message_ok_def by (simp add: handle_before_mono[of E "uuid_ctr db" _ "uuid_ctr db'"])
qed

lemma messages_ok_cong:
  assumes "messages_ok E db" "sqs_messages db' = sqs_messages db"
    "next_message_id db \<le> next_message_id db'" "next_queue_id db \<le> next_queue_id db'"
    "uuid_ctr db \<le> uuid_ctr db'"
  shows "messages_ok E db'"
  using assms message_ok_mono[of E db _ db'] by (simp add: messages_ok_def)

lemma queues_ok_cong:
  "queues_ok db \<Longrightarrow> sqs_queues db' = sqs_queues db \<Longrightarrow> next_queue_id db' = next_queue_id db \<Longrightarrow>
   queues_ok db'"
  by (simp add: queues_ok_def)

lemma queues_ok_rows:
  assumes "queues_ok db" "next_queue_id db' = next_queue_id db"
    and "sqs_queues db' = sql_update (\<lambda>r. qr_id r = i) f (sqs_queues db)"
    and "\<And>r. qr_name (f r) = qr_name r \<and> qr_id (f r) = qr_id r"
    and "\<And>r. r \<in> set (sqs_queues db) \<Longrightarrow> qr_id r = i \<Longrightarrow> queue_row_ok (next_queue_id db) (f r)"
  shows "queues_ok db'"
proof -
  have "map qr_name (sqs_queues db') = map qr_name (sqs_queues db)"
    "map qr_id (sqs_queues db') = map qr_id (sqs_queues db)"
    using assms(3,4) by (auto intro: map_key_sql_update)
  with assms show ?thesis by (auto simp: queues_ok_def set_sql_update)
qed

lemma dedup_ok_cong: "dedup_ok db \<Longrightarrow> sqs_fifo_dedup db' = sqs_fifo_dedup db \<Longrightarrow> dedup_ok db'"
  by (simp add: dedup_ok_def)

lemma find_queue_None_name: "find_queue E n db = None \<Longrightarrow> n \<notin> qr_name ` set (sqs_queues db)"
  by (auto simp: find_queue_def find_None_set)

lemma queue_row_ok_mono: "queue_row_ok n r \<Longrightarrow> n \<le> m \<Longrightarrow> queue_row_ok m r"
  by (simp add: queue_row_ok_def)

text \<open>The row \<open>create_queue_tx\<close> adds when it adds one.\<close>

lemma create_queue_cases:
  assumes "create_queue_tx E name url attrs tags now db = (res, db')"
  obtains (same) "db' = db"
    | (added) m where "res = Inr ()" "valid_queue_name name" "find_queue E name db = None"
      "validate_attributes E db name attrs True = Inr m"
      "fifo_flag m \<longleftrightarrow> ends_with name ''.fifo''"
      "db' = db\<lparr> sqs_queues := sqs_queues db @
               [\<lparr> qr_id = next_queue_id db, qr_name = name, qr_url = url,
                  qr_created_at = to_rfc3339 E now,
                  qr_attributes = filter (\<lambda>(k, v). v \<noteq> []) m, qr_tags = tags,
                  qr_created_ts = now div 1000, qr_modified_ts = now div 1000, qr_fifo_seq = 0 \<rparr>],
             next_queue_id := next_queue_id db + 1 \<rparr>"
proof (cases "db' = db")
  case False
  with assms obtain m where m: "validate_attributes E db name attrs True = Inr m"
    by (auto simp: create_queue_tx_def split: if_splits sum.splits)
  note fifo_flag_norm[OF conjunct2[OF validate_attributes_norm[OF m]]]
  with False assms m that(2)[OF _ _ _ m] show ?thesis
    by (auto simp: create_queue_tx_def Let_def split: if_splits option.splits prod.splits)
qed (rule that(1))

lemma create_queue_ok [svc_inv]:
  assumes ok: "sqs_ok E db" and c: "create_queue_tx E name url attrs tags now db = (res, db')"
  shows "sqs_ok E db'"
  using c
proof (cases rule: create_queue_cases)
  case same
  with ok show ?thesis by simp
next
  case (added m)
  note m = validate_attributes_norm[OF added(4)]
  from ok added have "queues_ok db'"
    using stored_attrs_ok[of m] m find_queue_None_name[OF added(3)]
    by (auto simp: sqs_ok_def queues_ok_def sorted_wrt_append queue_row_ok_def)
  moreover have "messages_ok E db'"
    using ok added(6) by (auto simp: sqs_ok_def intro: messages_ok_cong)
  moreover have "dedup_ok db'" using ok added(6) by (simp add: sqs_ok_def dedup_ok_def)
  ultimately show ?thesis by (simp add: sqs_ok_def)
qed

lemma create_queue_next: "create_queue_tx E n u a t now db = (res, db') \<Longrightarrow> next_queue_id db \<le> next_queue_id db'"
  by (erule create_queue_cases) auto

lemma delete_queue_ok [svc_inv]: "sqs_ok E db \<Longrightarrow> sqs_ok E (delete_queue_tx q db)"
  by (auto simp: sqs_ok_def queues_ok_def messages_ok_def message_ok_def dedup_ok_def
      delete_queue_tx_def)

lemma purge_queue_ok [svc_inv]: "sqs_ok E db \<Longrightarrow> sqs_ok E (purge_queue_tx q db)"
  by (auto simp: sqs_ok_def queues_ok_def messages_ok_def message_ok_def dedup_ok_def
      purge_queue_tx_def)

lemma write_tags_ok [svc_inv]:
  assumes "sqs_ok E db" "write_tags i tags db = (res, db')"
  shows "sqs_ok E db'"
proof (cases "db' = db")
  case False
  with assms(2) have db': "db' = db\<lparr> sqs_queues := sql_update (\<lambda>r. qr_id r = i)
      (\<lambda>r. r\<lparr> qr_tags := tags \<rparr>) (sqs_queues db) \<rparr>"
    by (auto simp: write_tags_def split: if_splits)
  have "queues_ok db'"
    by (rule queues_ok_rows[where db = db and f = "\<lambda>r. r\<lparr> qr_tags := tags \<rparr>" and i = i])
       (use assms(1) db' in \<open>auto simp: sqs_ok_def queues_ok_def queue_row_ok_def\<close>)
  with assms(1) db' show ?thesis
    by (auto simp: sqs_ok_def dedup_ok_def intro: messages_ok_cong)
qed (use assms in simp)

lemma merge_attr_fold_ok:
  "bt_ok m \<Longrightarrow> attrs_valid m \<Longrightarrow> \<forall>(k, v)\<in>set kvs. norm_attr k v \<Longrightarrow>
   bt_ok (fold merge_attr kvs m) \<and> attrs_valid (fold merge_attr kvs m)"
proof (induction kvs arbitrary: m)
  case (Cons kv kvs)
  obtain k v where kv: "kv = (k, v)" by fastforce
  have "bt_ok (merge_attr kv m) \<and> attrs_valid (merge_attr kv m)"
    using Cons.prems by (auto simp: kv merge_attr_def attrs_valid_def norm_attr_def)
  with Cons show ?case by simp
qed simp

lemma fifo_flag_merge:
  "\<forall>(k, v)\<in>set kvs. norm_attr k v \<and> (k = ''FifoQueue'' \<longrightarrow> (v = ''true'') = b) \<Longrightarrow>
   fifo_flag m = b \<Longrightarrow> fifo_flag (fold merge_attr kvs m) = b"
proof (induction kvs arbitrary: m)
  case (Cons kv kvs)
  obtain k v where kv: "kv = (k, v)" by fastforce
  have "fifo_flag (merge_attr kv m) = b"
  proof (cases "k = ''FifoQueue''")
    case True
    with Cons.prems kv have "v = ''true'' \<or> v = ''false''" "(v = ''true'') = b"
      by (auto simp: norm_attr_def)
    then show ?thesis
      by (auto simp: True kv merge_attr_def fifo_flag_def eq_ignore_ascii_case_def
          ascii_lowercase_def to_lower_def is_upper_def)
  next
    case False
    with Cons.prems kv show ?thesis by (auto simp: merge_attr_def fifo_flag_def)
  qed
  with Cons show ?case by simp
qed simp

lemma set_attributes_cases:
  assumes "set_attributes_tx E q attrs now db = (res, db')"
  obtains (same) "db' = db"
    | (changed) m where "res = Inr ()" "validate_attributes E db (q_name q) attrs False = Inr m"
      "\<And>v. map_of m ''FifoQueue'' = Some v \<Longrightarrow> (v = ''true'') = is_fifo q"
      "db' = db\<lparr> sqs_queues := sql_update (\<lambda>r. qr_id r = q_id q)
           (\<lambda>r. r\<lparr> qr_attributes := fold merge_attr m (q_attributes q),
                   qr_modified_ts := now div 1000 \<rparr>) (sqs_queues db) \<rparr>"
proof (cases "db' = db")
  case False
  with assms obtain m where m: "validate_attributes E db (q_name q) attrs False = Inr m"
    by (auto simp: set_attributes_tx_def split: sum.splits)
  with False assms that(2)[OF _ m] show ?thesis
    by (auto simp: set_attributes_tx_def split: if_splits option.splits)
qed (rule that(1))

text \<open>
  A queue's id determines its name, so writing back attributes merged from an earlier read of the
  same queue keeps its type.  \<open>named_as\<close> states that for one snapshot.
\<close>

definition named_as :: "sqs_queue \<Rightarrow> sqs_db \<Rightarrow> bool" where
  "named_as q db \<longleftrightarrow> (\<forall>r\<in>set (sqs_queues db). qr_id r = q_id q \<longrightarrow> qr_name r = q_name q)"

lemma set_attributes_ok [svc_inv]:
  assumes ok: "sqs_ok E db" and q: "snapshot_ok q db" "named_as q db"
    and s: "set_attributes_tx E q attrs now db = (res, db')"
  shows "sqs_ok E db'"
  using s
proof (cases rule: set_attributes_cases)
  case same
  with ok show ?thesis by simp
next
  case (changed m)
  note m = validate_attributes_norm[OF changed(2)]
  then have dm: "distinct (map fst m)" and vals: "(k, v) \<in> set m \<Longrightarrow> map_of m k = Some v" for k v
    by (simp_all add: bt_ok_distinct)
  have norm: "\<forall>(k, v)\<in>set m. norm_attr k v"
    using m vals by (auto simp: norm_attrs_def)
  then have "\<forall>(k, v)\<in>set m. norm_attr k v \<and> (k = ''FifoQueue'' \<longrightarrow> (v = ''true'') = is_fifo q)"
    using changed(3) vals by blast
  then have flag: "fifo_flag (fold merge_attr m (q_attributes q)) = is_fifo q"
    by (rule fifo_flag_merge) simp
  have merged: "bt_ok (fold merge_attr m (q_attributes q)) \<and> attrs_valid (fold merge_attr m (q_attributes q))"
    using q(1) norm by (intro merge_attr_fold_ok) (simp_all add: snapshot_ok_def)
  have "queues_ok db'"
    by (rule queues_ok_rows[where db = db and i = "q_id q" and
          f = "\<lambda>r. r\<lparr> qr_attributes := fold merge_attr m (q_attributes q), qr_modified_ts := now div 1000 \<rparr>"])
       (use ok q merged flag changed(4) in
         \<open>auto simp: sqs_ok_def queues_ok_def queue_row_ok_def snapshot_ok_def named_as_def\<close>)
  with ok changed(4) show ?thesis
    by (auto simp: sqs_ok_def dedup_ok_def intro: messages_ok_cong)
qed

subsection \<open>Preservation: messages\<close>

lemma refresh_tables [simp]:
  "sqs_queues (refresh q now db) = sqs_queues db"
  "next_queue_id (refresh q now db) = next_queue_id db"
  "next_message_id (refresh q now db) = next_message_id db"
  "uuid_ctr (refresh q now db) = uuid_ctr db"
  by (simp_all add: refresh_def Let_def)

lemma refresh_ok [svc_inv]: "sqs_ok E db \<Longrightarrow> sqs_ok E (refresh q now db)"
  by (auto simp: sqs_ok_def queues_ok_def messages_ok_def message_ok_def dedup_ok_def refresh_def
      Let_def set_sql_update map_key_sql_update)

lemma get_attributes_ok [svc_inv]:
  "sqs_ok E db \<Longrightarrow> get_attributes_tx q names now db = (res, db') \<Longrightarrow> sqs_ok E db'"
  by (auto simp: get_attributes_tx_def Let_def split: option.splits intro: refresh_ok)

lemma insert_message_fresh:
  assumes env: "sqs_env E" and ok: "messages_ok E db"
  shows "''pending-'' @ uuid_v4 E (uuid_ctr db) \<notin> m_receipt_handle ` set (sqs_messages db)"
proof
  assume "''pending-'' @ uuid_v4 E (uuid_ctr db) \<in> m_receipt_handle ` set (sqs_messages db)"
  then obtain m where "m \<in> set (sqs_messages db)"
    and "m_receipt_handle m = ''pending-'' @ uuid_v4 E (uuid_ctr db)" by auto
  with ok pending_unused[OF env, of "uuid_ctr db" "m_receipt_handle m"] show False
    by (auto simp: messages_ok_def message_ok_def)
qed

text \<open>The row a send adds, and that adding it cannot fail.\<close>

definition sent_row ::
    "externals \<Rightarrow> int \<Rightarrow> string \<Rightarrow> send_input \<Rightarrow> int \<Rightarrow> int \<Rightarrow> string option \<Rightarrow> string option \<Rightarrow> sqs_db
      \<Rightarrow> sqs_message" where
  "sent_row E queue_id message_id input now visible_at dedup_id sequence_number db =
     \<lparr> m_id = next_message_id db, m_message_id = message_id, m_queue_id = queue_id,
       m_body = si_body input, m_receipt_handle = ''pending-'' @ uuid_v4 E (uuid_ctr db),
       m_visible = (visible_at \<le> now), m_created_at = to_rfc3339 E now,
       m_visible_at = visible_at, m_sent_at = now, m_receive_count = 0, m_first_receive_at = None,
       m_attributes = (if si_attributes input = [] then None
                       else Some (attrs_to_json E (si_attributes input))),
       m_system_attributes = (if si_system_attributes input = [] then None
                              else Some (attrs_to_json E (si_system_attributes input))),
       m_group_id = si_group_id input, m_dedup_id = dedup_id,
       m_sequence_number = sequence_number, m_dlq_source_arn = None \<rparr>"

lemma insert_message_eq:
  assumes "sqs_env E" "messages_ok E db"
  shows "insert_message E i mid input now va dedup seq db =
    (Inr (), db\<lparr> sqs_messages := sqs_messages db @ [sent_row E i mid input now va dedup seq db],
                next_message_id := next_message_id db + 1, uuid_ctr := Suc (uuid_ctr db) \<rparr>)"
  using insert_message_fresh[OF assms] by (simp add: insert_message_def sent_row_def Let_def)

lemma messages_ok_append:
  assumes env: "sqs_env E" and ok: "messages_ok E db"
    and m: "m_id m = next_message_id db" "m_queue_id m < next_queue_id db" "0 \<le> m_receive_count m"
      "m_message_id m = uuid_v4 E (uuid_ctr db)"
      "m_receipt_handle m = ''pending-'' @ uuid_v4 E (Suc (uuid_ctr db))"
    and db': "sqs_messages db' = sqs_messages db @ [m]" "next_queue_id db' = next_queue_id db"
      "next_message_id db' = next_message_id db + 1" "uuid_ctr db' = Suc (Suc (uuid_ctr db))"
  shows "messages_ok E db'"
proof -
  have old: "message_ok E db' r" if "r \<in> set (sqs_messages db)" for r
    by (rule message_ok_mono[of E db]) (use ok that db' in \<open>simp_all add: messages_ok_def\<close>)
  have "\<exists>i<Suc (Suc (uuid_ctr db)). uuid_v4 E (uuid_ctr db) = uuid_v4 E i"
    and "\<exists>i<Suc (Suc (uuid_ctr db)). uuid_v4 E (Suc (uuid_ctr db)) = uuid_v4 E i"
    by (auto intro: exI[of _ "uuid_ctr db"] exI[of _ "Suc (uuid_ctr db)"])
  then have new: "message_ok E db' m"
    using m db' by (simp add: message_ok_def handle_before_def)
  have "messages_ok E (db\<lparr> uuid_ctr := Suc (uuid_ctr db) \<rparr>)"
    by (rule messages_ok_cong[OF ok]) simp_all
  from insert_message_fresh[OF env this]
  have rh: "m_receipt_handle m \<notin> m_receipt_handle ` set (sqs_messages db)" using m by simp
  have mid: "m_message_id m \<notin> m_message_id ` set (sqs_messages db)"
  proof
    assume "m_message_id m \<in> m_message_id ` set (sqs_messages db)"
    then obtain r where "r \<in> set (sqs_messages db)" "m_message_id r = m_message_id m" by auto
    with ok m(4) obtain i where "i < uuid_ctr db" "uuid_v4 E i = uuid_v4 E (uuid_ctr db)"
      by (auto simp: messages_ok_def message_ok_def)
    with env show False by (simp add: sqs_env_def uuid_inject)
  qed
  show ?thesis
    using ok m db' old new rh mid
    by (auto simp: messages_ok_def message_ok_def sorted_wrt_append)
qed

lemma fifo_decide_fresh:
  assumes "fifo_decide E q input now db = FifoFresh dedup seq db2"
  shows "db2 = db\<lparr> sqs_queues := sql_update (\<lambda>r. qr_id r = q_id q)
                  (\<lambda>r. r\<lparr> qr_fifo_seq := qr_fifo_seq r + 1 \<rparr>) (sqs_queues db) \<rparr>"
    and "\<not> (\<exists>d\<in>set (sqs_fifo_dedup db). d_queue_id d = q_id q \<and> d_dedup_id d = dedup \<and> now \<le> d_expires_at d)"
    and "\<exists>r\<in>set (sqs_queues db). qr_id r = q_id q \<and> seq = sequence_number_text (qr_fifo_seq r + 1)"
proof -
  let ?db2 = "db\<lparr> sqs_queues := sql_update (\<lambda>r. qr_id r = q_id q)
                  (\<lambda>r. r\<lparr> qr_fifo_seq := qr_fifo_seq r + 1 \<rparr>) (sqs_queues db) \<rparr>"
  from assms obtain r where
    none: "find (\<lambda>d. d_queue_id d = q_id q \<and> d_dedup_id d = dedup \<and> now \<le> d_expires_at d)
       (sqs_fifo_dedup db) = None"
    and r: "find (\<lambda>r. qr_id r = q_id q) (sqs_queues ?db2) = Some r"
    and "seq = sequence_number_text (qr_fifo_seq r)" and "db2 = ?db2"
    by (auto simp: fifo_decide_def Let_def split: if_splits option.splits)
  from find_Some_set[OF r] have "\<exists>s\<in>set (sqs_queues db). qr_id s = q_id q \<and> qr_fifo_seq r = qr_fifo_seq s + 1"
    by (auto simp: set_sql_update split: if_splits)
  with none \<open>seq = _\<close> \<open>db2 = ?db2\<close> show
    "db2 = db\<lparr> sqs_queues := sql_update (\<lambda>r. qr_id r = q_id q)
                  (\<lambda>r. r\<lparr> qr_fifo_seq := qr_fifo_seq r + 1 \<rparr>) (sqs_queues db) \<rparr>"
    "\<not> (\<exists>d\<in>set (sqs_fifo_dedup db). d_queue_id d = q_id q \<and> d_dedup_id d = dedup \<and> now \<le> d_expires_at d)"
    "\<exists>r\<in>set (sqs_queues db). qr_id r = q_id q \<and> seq = sequence_number_text (qr_fifo_seq r + 1)"
    by (auto simp: find_None_set)
qed

text \<open>The database after a message has been stored, from the one before the insertion.\<close>

definition stored_db ::
    "externals \<Rightarrow> sqs_queue \<Rightarrow> send_input \<Rightarrow> int \<Rightarrow> int \<Rightarrow> string option \<Rightarrow> string option \<Rightarrow> sqs_db \<Rightarrow> sqs_db"
  where
  "stored_db E q input now delay dedup seq db =
     db\<lparr> sqs_messages := sqs_messages db @
           [sent_row E (q_id q) (uuid_v4 E (uuid_ctr db)) input now (now + delay * 1000) dedup seq
              (db\<lparr> uuid_ctr := Suc (uuid_ctr db) \<rparr>)],
         next_message_id := next_message_id db + 1, uuid_ctr := Suc (Suc (uuid_ctr db)) \<rparr>"

lemma send_tx_cases:
  assumes env: "sqs_env E" and ok: "sqs_ok E db" and s: "send_tx E q input now db = (res, db')"
  obtains (rejected) e where "res = Inl e" "db' = db"
    | (duplicate) mid seq where "is_fifo q"
      "fifo_decide E q input now (refresh q now db) = FifoDuplicate mid seq"
      "res = Inr (mk_outcome E input mid (Some seq))" "db' = db"
    | (standard) delay where "\<not> is_fifo q" "send_check q input = Inr delay"
      "res = Inr (mk_outcome E input (uuid_v4 E (uuid_ctr db)) None)"
      "db' = stored_db E q input now delay None None (refresh q now db)"
    | (fifo) delay dedup seq db2 where "is_fifo q" "send_check q input = Inr delay"
      "fifo_decide E q input now (refresh q now db) = FifoFresh dedup seq db2"
      "res = Inr (mk_outcome E input (uuid_v4 E (uuid_ctr db)) (Some seq))"
      "db' = remember_dedup (q_id q) dedup (uuid_v4 E (uuid_ctr db)) seq now
               (stored_db E q input now delay (Some dedup) (Some seq) db2)"
proof (cases "send_check q input")
  case (Inl e)
  with s have "res = Inl e" "db' = db" by (simp_all add: send_tx_def)
  then show ?thesis by (rule that(1))
next
  case (Inr delay)
  have ok1: "messages_ok E (refresh q now db)" using refresh_ok[OF ok] by (simp add: sqs_ok_def)
  have ins: "insert_message E (q_id q) mid input now va dedup seq (db2\<lparr> uuid_ctr := Suc (uuid_ctr db2) \<rparr>)
      = (Inr (), db2\<lparr> sqs_messages := sqs_messages db2 @
           [sent_row E (q_id q) mid input now va dedup seq (db2\<lparr> uuid_ctr := Suc (uuid_ctr db2) \<rparr>)],
           next_message_id := next_message_id db2 + 1, uuid_ctr := Suc (Suc (uuid_ctr db2)) \<rparr>)"
    if "messages_ok E db2" for db2 mid va dedup seq
    using insert_message_eq[OF env messages_ok_cong[OF that, of "db2\<lparr> uuid_ctr := Suc (uuid_ctr db2) \<rparr>"]]
    by simp
  show ?thesis
  proof (cases "is_fifo q")
    case False
    with s Inr ins[OF ok1] have "res = Inr (mk_outcome E input (uuid_v4 E (uuid_ctr db)) None)"
      "db' = stored_db E q input now delay None None (refresh q now db)"
      by (simp_all add: send_tx_def Let_def stored_db_def)
    then show ?thesis by (rule that(3)[OF False Inr])
  next
    case True
    show ?thesis
    proof (cases "fifo_decide E q input now (refresh q now db)")
      case (FifoError e)
      with True s Inr have "res = Inl e" "db' = db" by (simp_all add: send_tx_def Let_def)
      then show ?thesis by (rule that(1))
    next
      case (FifoDuplicate mid seq)
      with True s Inr have "res = Inr (mk_outcome E input mid (Some seq))" "db' = db"
        by (simp_all add: send_tx_def Let_def)
      then show ?thesis by (rule that(2)[OF True FifoDuplicate])
    next
      case (FifoFresh dedup seq db2)
      note db2 = fifo_decide_fresh(1)[OF FifoFresh]
      have "messages_ok E db2" by (rule messages_ok_cong[OF ok1]) (simp_all add: db2)
      from s True Inr FifoFresh ins[OF this] have
        "res = Inr (mk_outcome E input (uuid_v4 E (uuid_ctr db2)) (Some seq))"
        "db' = remember_dedup (q_id q) dedup (uuid_v4 E (uuid_ctr db2)) seq now
               (stored_db E q input now delay (Some dedup) (Some seq) db2)"
        by (simp_all add: send_tx_def Let_def stored_db_def)
      moreover have "uuid_ctr db2 = uuid_ctr db" by (simp add: db2)
      ultimately show ?thesis using that(4)[OF True Inr FifoFresh] by simp
    qed
  qed
qed

lemma stored_db_messages_ok:
  assumes "sqs_env E" "messages_ok E db" "snapshot_ok q db"
  shows "messages_ok E (stored_db E q input now delay dedup seq db)"
  by (rule messages_ok_append[OF assms(1,2), where
      m = "sent_row E (q_id q) (uuid_v4 E (uuid_ctr db)) input now (now + delay * 1000) dedup seq
              (db\<lparr> uuid_ctr := Suc (uuid_ctr db) \<rparr>)"])
     (use assms(3) in \<open>simp_all add: stored_db_def sent_row_def snapshot_ok_def\<close>)

lemma stored_db_tables [simp]:
  "sqs_queues (stored_db E q input now delay dedup seq db) = sqs_queues db"
  "sqs_fifo_dedup (stored_db E q input now delay dedup seq db) = sqs_fifo_dedup db"
  "next_queue_id (stored_db E q input now delay dedup seq db) = next_queue_id db"
  by (simp_all add: stored_db_def)

lemma remember_dedup_tables [simp]:
  "sqs_queues (remember_dedup i d mid s now db) = sqs_queues db"
  "sqs_messages (remember_dedup i d mid s now db) = sqs_messages db"
  "next_queue_id (remember_dedup i d mid s now db) = next_queue_id db"
  "next_message_id (remember_dedup i d mid s now db) = next_message_id db"
  "uuid_ctr (remember_dedup i d mid s now db) = uuid_ctr db"
  by (simp_all add: remember_dedup_def)

lemma remember_dedup_ok: "dedup_ok db \<Longrightarrow> dedup_ok (remember_dedup i d mid s now db)"
  by (auto simp: dedup_ok_def remember_dedup_def dedup_key_def)

lemma send_ok [svc_inv]:
  assumes env: "sqs_env E" and ok: "sqs_ok E db" and q: "snapshot_ok q db"
    and s: "send_tx E q input now db = (res, db')"
  shows "sqs_ok E db' \<and> next_queue_id db' = next_queue_id db"
  using env ok s
proof (cases rule: send_tx_cases)
  case (standard delay)
  note r = refresh_ok[OF ok, of q now]
  have "messages_ok E db'"
    unfolding standard(4) using env r q
    by (intro stored_db_messages_ok) (auto simp: sqs_ok_def snapshot_ok_def)
  with r standard(4) show ?thesis by (auto simp: sqs_ok_def queues_ok_def dedup_ok_def)
next
  case (fifo delay dedup seq db2)
  note r = refresh_ok[OF ok, of q now]
  note db2 = fifo_decide_fresh(1)[OF fifo(3)]
  have "messages_ok E db2" by (rule messages_ok_cong[where db = "refresh q now db"])
      (use r in \<open>simp_all add: sqs_ok_def db2\<close>)
  then have m: "messages_ok E (stored_db E q input now delay (Some dedup) (Some seq) db2)"
    using env q by (intro stored_db_messages_ok) (simp_all add: snapshot_ok_def db2)
  have "messages_ok E db'" unfolding fifo(5) by (rule messages_ok_cong[OF m]) simp_all
  moreover have "queues_ok db2"
    by (rule queues_ok_rows[where db = "refresh q now db" and i = "q_id q" and
          f = "\<lambda>r. r\<lparr> qr_fifo_seq := qr_fifo_seq r + 1 \<rparr>"])
       (use r in \<open>auto simp: db2 sqs_ok_def queues_ok_def queue_row_ok_def\<close>)
  then have "queues_ok db'" by (rule queues_ok_cong) (simp_all add: fifo(5))
  moreover have "dedup_ok db'"
    unfolding fifo(5) by (rule remember_dedup_ok) (use r in \<open>simp add: dedup_ok_def sqs_ok_def db2\<close>)
  moreover have "next_queue_id db' = next_queue_id db" by (simp add: fifo(5) db2)
  ultimately show ?thesis by (simp add: sqs_ok_def)
qed (use ok in simp_all)

end
