(* ===== verification/Sqs_Receive.thy ===== *)
theory Sqs_Receive
  imports Sqs_Invariant "HOL-Library.Sublist"
begin

text \<open>
  SQS, part 5: the specification of receiving.

  \<open>receive_plan\<close> says, for the visible rows of a queue in order, which ones a receive delivers and
  which ones it moves to the dead-letter queue.  The loop of \<open>receive_tx\<close>, which rewrites rows one
  UPDATE at a time, is proved to carry out exactly this plan and never to fail; order, visibility,
  redrive and conservation are then facts about the plan.
\<close>

subsection \<open>The plan\<close>

datatype receive_action = Deliver | Redrive

fun receive_plan ::
    "bool \<Rightarrow> int option \<Rightarrow> int \<Rightarrow> sqs_message list \<Rightarrow> string set
      \<Rightarrow> (sqs_message \<times> receive_action) list" where
  "receive_plan fifo mx n [] blocked = []"
| "receive_plan fifo mx n (m # ms) blocked =
     (if n \<le> 0 then []
      else if group_blocked fifo blocked m then receive_plan fifo mx n ms blocked
      else if (case mx of Some k \<Rightarrow> k \<le> m_receive_count m | None \<Rightarrow> False)
        then (m, Redrive) # receive_plan fifo mx n ms (block_group fifo m blocked)
        else (m, Deliver) # receive_plan fifo mx (n - 1) ms blocked)"

text \<open>The first UUID each step of the plan draws.\<close>

fun stamp :: "nat \<Rightarrow> ('m \<times> receive_action) list \<Rightarrow> ('m \<times> receive_action \<times> nat) list" where
  "stamp n [] = []"
| "stamp n ((m, Deliver) # p) = (m, Deliver, n) # stamp (n + 2) p"
| "stamp n ((m, Redrive) # p) = (m, Redrive, n) # stamp (Suc n) p"

fun draws :: "('m \<times> receive_action) list \<Rightarrow> nat" where
  "draws [] = 0"
| "draws ((m, Deliver) # p) = draws p + 2"
| "draws ((m, Redrive) # p) = Suc (draws p)"

definition delivered :: "('m \<times> receive_action) list \<Rightarrow> 'm list" where
  "delivered p = map fst (filter (\<lambda>(m, a). a = Deliver) p)"

definition redriven :: "('m \<times> receive_action) list \<Rightarrow> 'm list" where
  "redriven p = map fst (filter (\<lambda>(m, a). a = Redrive) p)"

lemma delivered_simps [simp]:
  "delivered [] = []" "delivered ((m, Deliver) # p) = m # delivered p"
  "delivered ((m, Redrive) # p) = delivered p"
  by (simp_all add: delivered_def)

lemma redriven_simps [simp]:
  "redriven [] = []" "redriven ((m, Deliver) # p) = redriven p"
  "redriven ((m, Redrive) # p) = m # redriven p"
  by (simp_all add: redriven_def)

lemma set_delivered: "m \<in> set (delivered p) \<longleftrightarrow> (m, Deliver) \<in> set p"
  by (force simp: delivered_def)

lemma set_redriven: "m \<in> set (redriven p) \<longleftrightarrow> (m, Redrive) \<in> set p"
  by (force simp: redriven_def)

lemma plan_subseq: "subseq (map fst (receive_plan fifo mx n ms blocked)) ms"
  by (induction fifo mx n ms blocked rule: receive_plan.induct) auto

lemma plan_bound: "int (length (delivered (receive_plan fifo mx n ms blocked))) \<le> max 0 n"
  by (induction fifo mx n ms blocked rule: receive_plan.induct) auto

lemma plan_not_blocked:
  "(m, a) \<in> set (receive_plan fifo mx n ms blocked) \<Longrightarrow> \<not> group_blocked fifo blocked m"
proof (induction fifo mx n ms blocked rule: receive_plan.induct)
  case (2 fifo mx n m' ms blocked)
  then show ?case
    by (auto simp: group_blocked_def block_group_def split: if_splits option.splits)
qed simp

lemma plan_action:
  "(m, a) \<in> set (receive_plan fifo mx n ms blocked) \<Longrightarrow>
     a = (if (case mx of Some k \<Rightarrow> k \<le> m_receive_count m | None \<Rightarrow> False) then Redrive else Deliver)"
  by (induction fifo mx n ms blocked rule: receive_plan.induct) (auto split: if_splits option.splits)

text \<open>Within a message group the delivered messages are the oldest visible ones.\<close>

lemma plan_group_blocked:
  assumes "g \<in> blocked"
  shows "filter (\<lambda>m. m_group_id m = Some g) (map fst (receive_plan True mx n ms blocked)) = []"
  using plan_not_blocked[of _ _ True mx n ms blocked] assms
  by (force simp: group_blocked_def filter_empty_conv split: option.splits)

lemma plan_group_order:
  "prefix (filter (\<lambda>m. m_group_id m = Some g) (delivered (receive_plan True mx n ms blocked)))
     (filter (\<lambda>m. m_group_id m = Some g) ms)"
proof (induction True mx n ms blocked rule: receive_plan.induct)
  case (2 mx n m ms blocked)
  let ?G = "filter (\<lambda>m. m_group_id m = Some g)"
  have skip: "?G (delivered (receive_plan True mx k ms b)) = []" if "g \<in> b" for b k
    using plan_group_blocked[OF that, of mx k ms]
    by (force simp: filter_empty_conv delivered_def)
  show ?case
  proof (cases "m_group_id m = Some g")
    case True
    with skip[of "insert g blocked"] skip[of blocked] 2 show ?thesis
      by (simp add: group_blocked_def block_group_def)
  next
    case False
    with 2 show ?thesis by (simp add: group_blocked_def)
  qed
qed simp

lemma stamp_fst: "map (\<lambda>(m, a, n). (m, a)) (stamp n p) = p"
  by (induction n p rule: stamp.induct) simp_all

lemma stamp_keys: "map fst (stamp n p) = map fst p"
  by (induction n p rule: stamp.induct) simp_all

lemma plan_set: "(m, a) \<in> set (receive_plan fifo mx n ms blocked) \<Longrightarrow> m \<in> set ms"
  using list_emb_set[OF plan_subseq[of fifo mx n ms blocked], of m] by force

lemma stamp_plan_set: "fst ` set (stamp k (receive_plan fifo mx n ms blocked)) \<subseteq> set ms"
proof -
  have "fst ` set (stamp k (receive_plan fifo mx n ms blocked)) = fst ` set (receive_plan fifo mx n ms blocked)"
    using stamp_keys[of k "receive_plan fifo mx n ms blocked"] by (metis list.set_map)
  then show ?thesis by (auto dest: plan_set)
qed

lemma stamp_range:
  "(m, a, k) \<in> set (stamp n p) \<Longrightarrow> n \<le> k \<and> (if a = Deliver then Suc k else k) < n + draws p"
  by (induction n p rule: stamp.induct) (fastforce split: if_splits)+

subsection \<open>What the plan does to the table\<close>

definition first_receive :: "int \<Rightarrow> sqs_message \<Rightarrow> int" where
  "first_receive now m = (case m_first_receive_at m of Some t \<Rightarrow> t | None \<Rightarrow> now)"

fun action_row ::
    "externals \<Rightarrow> sqs_queue \<Rightarrow> int \<Rightarrow> int \<Rightarrow> int \<Rightarrow> sqs_message \<times> receive_action \<times> nat
      \<Rightarrow> sqs_message \<Rightarrow> sqs_message" where
  "action_row E q dlq_id now vt (m, Deliver, n) =
     deliver_row (new_receipt_handle E (q_name q) (m_message_id m) n) (m_receive_count m + 1)
       (first_receive now m) now vt"
| "action_row E q dlq_id now vt (m, Redrive, n) =
     redrive_row dlq_id now (sqs_queue_arn q) (''pending-'' @ uuid_v4 E n)"

definition planned_row ::
    "externals \<Rightarrow> sqs_queue \<Rightarrow> int \<Rightarrow> int \<Rightarrow> int \<Rightarrow> (sqs_message \<times> receive_action \<times> nat) list
      \<Rightarrow> sqs_message \<Rightarrow> sqs_message" where
  "planned_row E q dlq_id now vt S r =
     (case find (\<lambda>(m, a, n). m_id m = m_id r) S of
        None \<Rightarrow> r | Some s \<Rightarrow> action_row E q dlq_id now vt s r)"

fun planned_message ::
    "externals \<Rightarrow> sqs_queue \<Rightarrow> receive_options \<Rightarrow> int \<Rightarrow> sqs_message \<times> receive_action \<times> nat
      \<Rightarrow> received_message" where
  "planned_message E q opts now (m, a, n) =
     received E q opts m (new_receipt_handle E (q_name q) (m_message_id m) n)
       (m_receive_count m + 1) (first_receive now m)"

lemma action_row_keys [simp]:
  "m_id (action_row E q i now vt s r) = m_id r"
  "m_message_id (action_row E q i now vt s r) = m_message_id r"
  "m_body (action_row E q i now vt s r) = m_body r"
  "m_attributes (action_row E q i now vt s r) = m_attributes r"
  "m_group_id (action_row E q i now vt s r) = m_group_id r"
  by (cases "(E, q, i, now, vt, s)" rule: action_row.cases; simp add: deliver_row_def redrive_row_def)+

lemma planned_row_keys [simp]:
  "m_id (planned_row E q i now vt S r) = m_id r"
  "m_message_id (planned_row E q i now vt S r) = m_message_id r"
  "m_body (planned_row E q i now vt S r) = m_body r"
  "m_attributes (planned_row E q i now vt S r) = m_attributes r"
  "m_group_id (planned_row E q i now vt S r) = m_group_id r"
  by (simp_all add: planned_row_def split: option.splits)

lemma planned_row_Nil [simp]: "planned_row E q i now vt [] r = r"
  by (simp add: planned_row_def)

lemma planned_rows_Cons:
  assumes "fst s = m" "m_id m \<notin> m_id ` fst ` set S"
  shows "map (planned_row E q i now vt (s # S)) rows =
    map (planned_row E q i now vt S) (sql_update (\<lambda>r. m_id r = m_id m) (action_row E q i now vt s) rows)"
proof -
  have none: "find (\<lambda>(x, a, n). m_id x = m_id m) S = None"
    unfolding find_None_set
  proof
    fix x assume "x \<in> set S"
    then have "m_id (fst x) \<in> m_id ` fst ` set S" by blast
    with assms(2) have "m_id (fst x) \<noteq> m_id m" by metis
    then show "\<not> (case x of (x, a, n) \<Rightarrow> m_id x = m_id m)" by (simp add: split_beta)
  qed
  show ?thesis
    using assms(1) none by (cases s) (simp add: sql_update_def planned_row_def)
qed

subsection \<open>The loop carries out the plan\<close>

lemma issued_handle_before:
  "valid_queue_name qn \<Longrightarrow> Suc i < n \<Longrightarrow> handle_before E n (new_receipt_handle E qn mid i)"
  unfolding handle_before_def by (blast dest: valid_queue_name_ascii)

lemma update_message_fresh:
  "rh \<notin> m_receipt_handle ` set (sqs_messages db) \<Longrightarrow>
     update_message i rh f db =
       Some (db\<lparr> sqs_messages := sql_update (\<lambda>m. m_id m = i) f (sqs_messages db) \<rparr>)"
  by (auto simp: update_message_def)

text \<open>Rewriting the row of one id with an unused handle keeps the message table well-formed.\<close>

lemma messages_ok_update:
  assumes ok: "messages_ok E db"
    and fresh: "rh \<notin> m_receipt_handle ` set (sqs_messages db)"
    and f: "\<And>r. m_id (f r) = m_id r" "\<And>r. m_message_id (f r) = m_message_id r"
      "\<And>r. m_receipt_handle (f r) = rh" "\<And>r. r \<in> set (sqs_messages db) \<Longrightarrow> m_queue_id (f r) < next_queue_id db"
      "\<And>r. r \<in> set (sqs_messages db) \<Longrightarrow> 0 \<le> m_receive_count (f r)"
    and n: "handle_before E n rh" "uuid_ctr db \<le> n"
  shows "messages_ok E (db\<lparr> sqs_messages := sql_update (\<lambda>m. m_id m = i) f (sqs_messages db),
                           uuid_ctr := n \<rparr>)" (is "messages_ok E ?db")
proof -
  let ?rows = "sql_update (\<lambda>m. m_id m = i) f (sqs_messages db)"
  have ids: "map m_id ?rows = map m_id (sqs_messages db)"
    "map m_message_id ?rows = map m_message_id (sqs_messages db)"
    using f by (simp_all add: map_key_sql_update)
  have sorted: "sorted_wrt (<) (map m_id (sqs_messages db))"
    and handles: "distinct (map m_receipt_handle (sqs_messages db))"
    using ok by (simp_all add: messages_ok_def)
  have "distinct (map m_receipt_handle ?rows)"
    using sorted_wrt_less_distinct[OF sorted] handles fresh f(3) by (rule distinct_sql_update_key)
  moreover have "message_ok E ?db r" if "r \<in> set ?rows" for r
  proof -
    from that obtain s where s: "s \<in> set (sqs_messages db)" "r = (if m_id s = i then f s else s)"
      by (auto simp: set_sql_update)
    with ok have "message_ok E db s" by (simp add: messages_ok_def)
    with s f n show ?thesis
      by (auto simp: message_ok_def intro: handle_before_mono less_le_trans)
  qed
  ultimately show ?thesis using ids sorted ok by (simp add: messages_ok_def)
qed

lemma redrive_step:
  assumes env: "sqs_env E" and ok: "messages_ok E db" and d: "d < next_queue_id db"
    and rh: "rh = ''pending-'' @ uuid_v4 E (uuid_ctr db)"
  shows "update_message i rh (redrive_row d now arn rh) (db\<lparr> uuid_ctr := Suc (uuid_ctr db) \<rparr>) =
      Some (db\<lparr> sqs_messages := sql_update (\<lambda>m. m_id m = i) (redrive_row d now arn rh) (sqs_messages db),
                uuid_ctr := Suc (uuid_ctr db) \<rparr>)"
    and "messages_ok E (db\<lparr> sqs_messages := sql_update (\<lambda>m. m_id m = i) (redrive_row d now arn rh)
                             (sqs_messages db), uuid_ctr := Suc (uuid_ctr db) \<rparr>)"
proof -
  note fresh = insert_message_fresh[OF env ok, folded rh]
  then show "update_message i rh (redrive_row d now arn rh) (db\<lparr> uuid_ctr := Suc (uuid_ctr db) \<rparr>) =
      Some (db\<lparr> sqs_messages := sql_update (\<lambda>m. m_id m = i) (redrive_row d now arn rh) (sqs_messages db),
                uuid_ctr := Suc (uuid_ctr db) \<rparr>)"
    by (simp add: update_message_fresh)
  show "messages_ok E (db\<lparr> sqs_messages := sql_update (\<lambda>m. m_id m = i) (redrive_row d now arn rh)
                             (sqs_messages db), uuid_ctr := Suc (uuid_ctr db) \<rparr>)"
    by (rule messages_ok_update[OF ok fresh])
       (use d rh in \<open>auto simp: redrive_row_def handle_before_def\<close>)
qed

lemma deliver_step:
  assumes env: "sqs_env E" and ok: "messages_ok E db" and q: "valid_queue_name qn"
    and count: "0 \<le> count" and rh: "rh = new_receipt_handle E qn mid (uuid_ctr db)"
  shows "update_message i rh (deliver_row rh count first now vt) (db\<lparr> uuid_ctr := uuid_ctr db + 2 \<rparr>) =
      Some (db\<lparr> sqs_messages := sql_update (\<lambda>m. m_id m = i) (deliver_row rh count first now vt) (sqs_messages db),
                uuid_ctr := uuid_ctr db + 2 \<rparr>)"
    and "messages_ok E (db\<lparr> sqs_messages := sql_update (\<lambda>m. m_id m = i) (deliver_row rh count first now vt)
                             (sqs_messages db), uuid_ctr := uuid_ctr db + 2 \<rparr>)"
proof -
  have fresh: "rh \<notin> m_receipt_handle ` set (sqs_messages db)"
  proof
    assume "rh \<in> m_receipt_handle ` set (sqs_messages db)"
    then obtain m where "m \<in> set (sqs_messages db)" "rh = m_receipt_handle m" by auto
    with ok have "handle_before E (uuid_ctr db) rh" by (auto simp: messages_ok_def message_ok_def)
    from issued_unused[OF env this valid_queue_name_ascii[OF q], of mid] rh show False by simp
  qed
  then show "update_message i rh (deliver_row rh count first now vt) (db\<lparr> uuid_ctr := uuid_ctr db + 2 \<rparr>) =
      Some (db\<lparr> sqs_messages := sql_update (\<lambda>m. m_id m = i) (deliver_row rh count first now vt) (sqs_messages db),
                uuid_ctr := uuid_ctr db + 2 \<rparr>)"
    by (simp add: update_message_fresh)
  have "handle_before E (uuid_ctr db + 2) rh" unfolding rh by (rule issued_handle_before[OF q]) simp
  moreover have "m_queue_id m < next_queue_id db" if "m \<in> set (sqs_messages db)" for m
    using ok that by (simp add: messages_ok_def message_ok_def)
  ultimately show "messages_ok E (db\<lparr> sqs_messages := sql_update (\<lambda>m. m_id m = i) (deliver_row rh count first now vt)
                             (sqs_messages db), uuid_ctr := uuid_ctr db + 2 \<rparr>)"
    using count by (intro messages_ok_update[OF ok fresh]) (simp_all add: deliver_row_def)
qed

text \<open>The threshold and the target of the dead-letter policy.\<close>

definition dlq_id :: "(sqs_queue \<times> int) option \<Rightarrow> int" where
  "dlq_id dlq = (case dlq of Some (d, _) \<Rightarrow> q_id d | None \<Rightarrow> 0)"

lemma receive_loop_plan:
  assumes env: "sqs_env E" and q: "valid_queue_name (q_name q)"
    and dlq: "\<And>d mx. dlq = Some (d, mx) \<Longrightarrow> q_id d < next_queue_id db"
    and ok: "messages_ok E db" and ms: "sorted_wrt (<) (map m_id ms)" "\<And>m. m \<in> set ms \<Longrightarrow> 0 \<le> m_receive_count m"
    and p: "p = receive_plan (is_fifo q) (map_option snd dlq) (ro_max opts - int (length out)) ms blocked"
    and S: "S = stamp (uuid_ctr db) p"
  shows "receive_loop E q dlq opts now vt ms blocked out db =
      (Inr (out @ map (planned_message E q opts now) (filter (\<lambda>(m, a, n). a = Deliver) S)),
       db\<lparr> sqs_messages := map (planned_row E q (dlq_id dlq) now vt S) (sqs_messages db),
           uuid_ctr := uuid_ctr db + draws p \<rparr>)
    \<and> messages_ok E (db\<lparr> sqs_messages := map (planned_row E q (dlq_id dlq) now vt S) (sqs_messages db),
           uuid_ctr := uuid_ctr db + draws p \<rparr>)"
  using dlq ok ms p S
proof (induction ms arbitrary: blocked out db p S)
  case Nil
  then show ?case by simp
next
  case (Cons m ms)
  note IH = Cons.IH and dlq = Cons.prems(1) and ok = Cons.prems(2)
    and sorted = Cons.prems(3) and count = Cons.prems(4) and p = Cons.prems(5) and S = Cons.prems(6)
  have tail: "sorted_wrt (<) (map m_id ms)" "\<And>m'. m' \<in> set ms \<Longrightarrow> 0 \<le> m_receive_count m'"
    using sorted count by simp_all
  have fresh_id: "m_id m \<notin> m_id ` fst ` set (stamp n (receive_plan f x k ms b))" for n f x k b
    using sorted stamp_plan_set[of n f x k ms b] by force
  consider (full) "ro_max opts \<le> int (length out)"
    | (skip) "\<not> ro_max opts \<le> int (length out)" "group_blocked (is_fifo q) blocked m"
    | (redrive) d mx where "\<not> ro_max opts \<le> int (length out)" "\<not> group_blocked (is_fifo q) blocked m"
      "dlq = Some (d, mx)" "mx \<le> m_receive_count m"
    | (deliver) "\<not> ro_max opts \<le> int (length out)" "\<not> group_blocked (is_fifo q) blocked m"
      "\<not> (case map_option snd dlq of Some k \<Rightarrow> k \<le> m_receive_count m | None \<Rightarrow> False)"
    by (cases "ro_max opts \<le> int (length out)"; cases "group_blocked (is_fifo q) blocked m"; cases dlq)
       (auto simp: not_le, meson not_le)
  then show ?case
  proof cases
    case full
    with p S ok show ?thesis by simp
  next
    case skip
    with p have "p = receive_plan (is_fifo q) (map_option snd dlq) (ro_max opts - int (length out)) ms blocked"
      by simp
    from IH[OF dlq ok tail this S] skip show ?thesis by simp
  next
    case redrive
    let ?rh = "''pending-'' @ uuid_v4 E (uuid_ctr db)"
    let ?f = "redrive_row (q_id d) now (sqs_queue_arn q) ?rh"
    let ?db = "db\<lparr> sqs_messages := sql_update (\<lambda>r. m_id r = m_id m) ?f (sqs_messages db),
                   uuid_ctr := Suc (uuid_ctr db) \<rparr>"
    let ?p = "receive_plan (is_fifo q) (map_option snd dlq) (ro_max opts - int (length out)) ms
        (block_group (is_fifo q) m blocked)"
    have pe: "p = (m, Redrive) # ?p" using redrive p by simp
    have "q_id d < next_queue_id db" using dlq redrive by blast
    note step = redrive_step[OF env ok this refl, of "m_id m" now "sqs_queue_arn q"]
    have row: "?f = action_row E q (dlq_id dlq) now vt (m, Redrive, uuid_ctr db)"
      using redrive by (simp add: dlq_id_def)
    have "receive_loop E q dlq opts now vt (m # ms) blocked out db =
        receive_loop E q dlq opts now vt ms (block_group (is_fifo q) m blocked) out ?db"
      using redrive step(1) by (simp add: Let_def)
    moreover have "map (planned_row E q (dlq_id dlq) now vt S) (sqs_messages db) =
        map (planned_row E q (dlq_id dlq) now vt (stamp (Suc (uuid_ctr db)) ?p)) (sqs_messages ?db)"
      unfolding S pe stamp.simps row
      by (subst planned_rows_Cons[where m = m]) (simp_all add: fresh_id)
    moreover note IH[of ?db ?p out "block_group (is_fifo q) m blocked" "stamp (Suc (uuid_ctr db)) ?p"]
    ultimately show ?thesis using step(2) dlq tail by (simp add: pe S)
  next
    case deliver
    let ?n = "uuid_ctr db"
    let ?rh = "new_receipt_handle E (q_name q) (m_message_id m) ?n"
    let ?f = "deliver_row ?rh (m_receive_count m + 1) (first_receive now m) now vt"
    let ?db = "db\<lparr> sqs_messages := sql_update (\<lambda>r. m_id r = m_id m) ?f (sqs_messages db),
                   uuid_ctr := uuid_ctr db + 2 \<rparr>"
    let ?o = "out @ [received E q opts m ?rh (m_receive_count m + 1) (first_receive now m)]"
    let ?p = "receive_plan (is_fifo q) (map_option snd dlq) (ro_max opts - int (length ?o)) ms blocked"
    have pe: "p = (m, Deliver) # ?p" using deliver p by (simp add: algebra_simps)
    have "0 \<le> m_receive_count m + 1" using count[of m] by simp
    note step = deliver_step[OF env ok q this refl, of "m_id m" "m_message_id m" "first_receive now m" now vt]
    have row: "?f = action_row E q (dlq_id dlq) now vt (m, Deliver, ?n)" by simp
    have "(case dlq of Some (d, mx) \<Rightarrow> if mx \<le> m_receive_count m then Some d else None | None \<Rightarrow> None) = None"
      using deliver(3) by (auto split: option.splits)
    then have "receive_loop E q dlq opts now vt (m # ms) blocked out db =
        receive_loop E q dlq opts now vt ms blocked ?o ?db"
      using deliver step(1) by (simp add: Let_def first_receive_def)
    moreover have "map (planned_row E q (dlq_id dlq) now vt S) (sqs_messages db) =
        map (planned_row E q (dlq_id dlq) now vt (stamp (uuid_ctr db + 2) ?p)) (sqs_messages ?db)"
      unfolding S pe stamp.simps row
      by (subst planned_rows_Cons[where m = m]) (simp_all add: fresh_id)
    moreover note IH[of ?db ?p ?o blocked "stamp (uuid_ctr db + 2) ?p"]
    ultimately show ?thesis using step(2) dlq tail by (simp add: pe S)
  qed
qed

subsection \<open>Receiving\<close>

definition receive_vt :: "sqs_queue \<Rightarrow> receive_options \<Rightarrow> int" where
  "receive_vt q opts =
     (case ro_visibility_timeout opts of Some t \<Rightarrow> t | None \<Rightarrow> attr_i64 q ''VisibilityTimeout'')"

text \<open>The plan of one receive, on the table after retention.\<close>

definition plan_of ::
    "externals \<Rightarrow> sqs_queue \<Rightarrow> receive_options \<Rightarrow> int \<Rightarrow> sqs_db \<Rightarrow> (sqs_message \<times> receive_action) list"
  where
  "plan_of E q opts now db =
     receive_plan (is_fifo q) (map_option snd (dead_letter_target E q (refresh q now db))) (ro_max opts)
       (candidates q now (refresh q now db))
       (if is_fifo q then inflight_groups q now (refresh q now db) else {})"

definition plan_rows ::
    "externals \<Rightarrow> sqs_queue \<Rightarrow> receive_options \<Rightarrow> int \<Rightarrow> sqs_db \<Rightarrow> sqs_message \<Rightarrow> sqs_message" where
  "plan_rows E q opts now db =
     planned_row E q (dlq_id (dead_letter_target E q (refresh q now db))) now (receive_vt q opts)
       (stamp (uuid_ctr db) (plan_of E q opts now db))"

definition plan_out ::
    "externals \<Rightarrow> sqs_queue \<Rightarrow> receive_options \<Rightarrow> int \<Rightarrow> sqs_db \<Rightarrow> received_message list" where
  "plan_out E q opts now db =
     map (planned_message E q opts now)
       (filter (\<lambda>(m, a, n). a = Deliver) (stamp (uuid_ctr db) (plan_of E q opts now db)))"

definition plan_db :: "externals \<Rightarrow> sqs_queue \<Rightarrow> receive_options \<Rightarrow> int \<Rightarrow> sqs_db \<Rightarrow> sqs_db" where
  "plan_db E q opts now db =
     (refresh q now db)
       \<lparr> sqs_messages := map (plan_rows E q opts now db) (sqs_messages (refresh q now db)),
         uuid_ctr := uuid_ctr db + draws (plan_of E q opts now db) \<rparr>"

lemma messages_sorted:
  "messages_ok E db \<Longrightarrow> sorted_wrt (<) (map m_id (filter P (sqs_messages db)))"
  by (simp add: messages_ok_def sorted_wrt_map sorted_wrt_filter)

lemma candidates_eq:
  assumes "messages_ok E db"
  shows "candidates q now db =
    filter (\<lambda>m. m_queue_id m = q_id q \<and> m_visible_at m \<le> now) (sqs_messages db)"
proof -
  have "sorted_wrt (<) (map m_id (filter (\<lambda>m. m_queue_id m = q_id q \<and> m_visible_at m \<le> now) (sqs_messages db)))"
    by (rule messages_sorted[OF assms])
  then have "sorted (map m_id (filter (\<lambda>m. m_queue_id m = q_id q \<and> m_visible_at m \<le> now) (sqs_messages db)))"
    by (rule sorted_wrt_mono_rel[rotated]) simp
  then show ?thesis by (simp add: candidates_def sorted_sort_id sort_key_id_if_sorted)
qed

lemma dead_letter_snapshot:
  "queues_ok db \<Longrightarrow> dead_letter_target E q db = Some (d, mx) \<Longrightarrow> snapshot_ok d db"
  by (auto simp: dead_letter_target_def split: option.splits intro: find_queue_snapshot)

text \<open>A receive never fails, and does what its plan says.\<close>

lemma receive_tx_plan:
  assumes env: "sqs_env E" and ok: "sqs_ok E db" and q: "snapshot_ok q db"
  shows "receive_tx E q opts now db = (Inr (plan_out E q opts now db), plan_db E q opts now db)"
    and "sqs_ok E (plan_db E q opts now db)"
proof -
  let ?r = "refresh q now db" and ?dlq = "dead_letter_target E q (refresh q now db)"
  have r: "sqs_ok E ?r" by (rule refresh_ok[OF ok])
  then have m: "messages_ok E ?r" and qs: "queues_ok ?r" by (simp_all add: sqs_ok_def)
  have "valid_queue_name (q_name q)" using q by (simp add: snapshot_ok_def)
  moreover have "q_id d < next_queue_id ?r" if "?dlq = Some (d, mx)" for d mx
    using dead_letter_snapshot[OF qs that] by (simp add: snapshot_ok_def)
  moreover have "sorted_wrt (<) (map m_id (candidates q now ?r))"
    unfolding candidates_eq[OF m] by (rule messages_sorted[OF m])
  moreover have "0 \<le> m_receive_count x" if "x \<in> set (candidates q now ?r)" for x
    using m that by (auto simp: candidates_eq[OF m] messages_ok_def message_ok_def)
  ultimately have loop: "receive_loop E q ?dlq opts now (receive_vt q opts) (candidates q now ?r)
        (if is_fifo q then inflight_groups q now ?r else {}) [] ?r = (Inr (plan_out E q opts now db), (plan_db E q opts now db))
      \<and> messages_ok E (plan_db E q opts now db)"
    using receive_loop_plan[OF env _ _ m _ _ refl refl, where q = q and dlq = ?dlq and
        ms = "candidates q now ?r" and opts = opts and now = now and vt = "receive_vt q opts" and
        out = "[]" and blocked = "if is_fifo q then inflight_groups q now ?r else {}"]
    by (simp add: plan_out_def plan_db_def plan_rows_def plan_of_def)
  then show "receive_tx E q opts now db = (Inr (plan_out E q opts now db), (plan_db E q opts now db))"
    by (simp add: receive_tx_def Let_def receive_vt_def)
  from r loop show "sqs_ok E (plan_db E q opts now db)" by (simp add: sqs_ok_def queues_ok_def dedup_ok_def plan_db_def)
qed

lemma receive_ok [svc_inv]:
  "sqs_env E \<Longrightarrow> sqs_ok E db \<Longrightarrow> snapshot_ok q db \<Longrightarrow> receive_tx E q opts now db = (res, db')
     \<Longrightarrow> sqs_ok E db' \<and> next_queue_id db' = next_queue_id db"
  using receive_tx_plan[of E db q opts now] by (auto simp: plan_db_def)

lemma delete_message_ok [svc_inv]:
  "sqs_ok E db \<Longrightarrow> delete_message_tx E q rh db = (res, db')
     \<Longrightarrow> sqs_ok E db' \<and> next_queue_id db' = next_queue_id db"
  by (auto simp: delete_message_tx_def Let_def sqs_ok_def queues_ok_def dedup_ok_def messages_ok_def
      message_ok_def split: if_splits)

lemma change_visibility_rows:
  assumes "change_visibility_tx E q rh timeout now db = (res, db')"
  shows "\<exists>P f. db' = db\<lparr> sqs_messages := sql_update P f (sqs_messages db) \<rparr>
     \<and> (\<forall>m. \<exists>v b. f m = m\<lparr> m_visible_at := v, m_visible := b \<rparr>)"
proof -
  have id: "db = db\<lparr> sqs_messages := sql_update (\<lambda>m. False) (\<lambda>m. m\<lparr> m_visible_at := m_visible_at m,
      m_visible := m_visible m \<rparr>) (sqs_messages db) \<rparr>" by (simp add: sql_update_none)
  from assms have "db' = db \<or> db' = db\<lparr> sqs_messages :=
      sql_update (\<lambda>m. m_queue_id m = q_id q \<and> m_receipt_handle m = rh)
        (\<lambda>m. m\<lparr> m_visible_at := now + timeout * 1000, m_visible := (timeout = 0) \<rparr>) (sqs_messages db) \<rparr>"
    by (auto simp: change_visibility_tx_def Let_def split: if_splits option.splits)
  then show ?thesis
  proof
    assume "db' = db"
    with id show ?thesis by blast
  qed blast
qed

lemma change_visibility_ok [svc_inv]:
  assumes "sqs_ok E db" "change_visibility_tx E q rh timeout now db = (res, db')"
  shows "sqs_ok E db' \<and> next_queue_id db' = next_queue_id db"
proof -
  from change_visibility_rows[OF assms(2)] obtain P f where
    db': "db' = db\<lparr> sqs_messages := sql_update P f (sqs_messages db) \<rparr>"
    and "\<And>m. \<exists>v b. f m = m\<lparr> m_visible_at := v, m_visible := b \<rparr>" by blast
  then have f: "m_id (f m) = m_id m \<and> m_queue_id (f m) = m_queue_id m
      \<and> m_receipt_handle (f m) = m_receipt_handle m \<and> m_message_id (f m) = m_message_id m
      \<and> m_receive_count (f m) = m_receive_count m" for m
    by (metis sqs_message.select_convs sqs_message.surjective sqs_message.update_convs)
  show ?thesis
    using assms(1) f
    by (auto simp: db' sqs_ok_def queues_ok_def dedup_ok_def messages_ok_def message_ok_def
        set_sql_update map_key_sql_update)
qed

end
