(* ===== verification/Sqs_System.thy ===== *)
theory Sqs_System
  imports Sqs_Receive
begin

text \<open>
  SQS, part 6: the service as a state machine.

  A request reads the queue record in one call to the database and acts on it in a second one;
  other requests run in between.  The machine keeps every record ever read and lets any operation
  use any of them, so its runs include every interleaving of requests.  It interprets the contract
  \<open>service\<close> with the invariant of part 4.
\<close>

subsection \<open>The machine\<close>

datatype sqs_queue_op =
    DeleteQueue
  | PurgeQueue
  | SetAttributes "string btree" int
  | TagQueue "string btree"
  | UntagQueue "string list"
  | GetAttributes "string list" int
  | SendMessage send_input int
  | ReceiveMessage receive_options int
  | DeleteMessage string
  | ChangeVisibility string int int

datatype sqs_op =
    ReadQueue string
  | CreateQueue string string "string btree" "string btree" int
  | QueueOp nat sqs_queue_op

datatype sqs_resp =
    RDone "(sqs_error, unit) result"
  | RQueue "(sqs_error, sqs_queue) result"
  | RAttributes "(sqs_error, string btree) result"
  | RSent "(sqs_error, send_outcome) result"
  | RReceived "(sqs_error, received_message list) result"
  | RNothing

record sqs_sys =
  sys_db :: sqs_db
  sys_reads :: "sqs_queue list"

fun sqs_queue_exec :: "externals \<Rightarrow> sqs_queue \<Rightarrow> sqs_queue_op \<Rightarrow> sqs_db \<Rightarrow> sqs_resp \<times> sqs_db" where
  "sqs_queue_exec E q DeleteQueue db = (RDone (Inr ()), delete_queue_tx q db)"
| "sqs_queue_exec E q PurgeQueue db = (RDone (Inr ()), purge_queue_tx q db)"
| "sqs_queue_exec E q (SetAttributes attrs now) db =
     map_prod RDone id (set_attributes_tx E q attrs now db)"
| "sqs_queue_exec E q (TagQueue tags) db = map_prod RDone id (tag_queue_tx q tags db)"
| "sqs_queue_exec E q (UntagQueue keys) db = map_prod RDone id (untag_queue_tx q keys db)"
| "sqs_queue_exec E q (GetAttributes names now) db =
     map_prod RAttributes id (get_attributes_tx q names now db)"
| "sqs_queue_exec E q (SendMessage input now) db = map_prod RSent id (send_tx E q input now db)"
| "sqs_queue_exec E q (ReceiveMessage opts now) db =
     map_prod RReceived id (receive_tx E q opts now db)"
| "sqs_queue_exec E q (DeleteMessage rh) db = map_prod RDone id (delete_message_tx E q rh db)"
| "sqs_queue_exec E q (ChangeVisibility rh timeout now) db =
     map_prod RDone id (change_visibility_tx E q rh timeout now db)"

definition sqs_exec :: "externals \<Rightarrow> sqs_op \<Rightarrow> sqs_sys \<Rightarrow> sqs_resp \<times> sqs_sys" where
  "sqs_exec E x s =
     (case x of
        ReadQueue n \<Rightarrow>
          (RQueue (get_queue E n (sys_db s)),
           case get_queue E n (sys_db s) of
             Inl _ \<Rightarrow> s | Inr q \<Rightarrow> s\<lparr> sys_reads := sys_reads s @ [q] \<rparr>)
      | CreateQueue name url attrs tags now \<Rightarrow>
          (case create_queue_tx E name url attrs tags now (sys_db s) of
             (res, db') \<Rightarrow> (RDone res, s\<lparr> sys_db := db' \<rparr>))
      | QueueOp i act \<Rightarrow>
          if i < length (sys_reads s) then
            (case sqs_queue_exec E (sys_reads s ! i) act (sys_db s) of
               (r, db') \<Rightarrow> (r, s\<lparr> sys_db := db' \<rparr>))
          else (RNothing, s))"

definition sqs_sys_init :: sqs_sys where
  "sqs_sys_init = \<lparr> sys_db = sqs_init, sys_reads = [] \<rparr>"

definition sqs_sys_ok :: "externals \<Rightarrow> sqs_sys \<Rightarrow> bool" where
  "sqs_sys_ok E s \<longleftrightarrow>
     sqs_ok E (sys_db s)
     \<and> (\<forall>q\<in>set (sys_reads s). snapshot_ok q (sys_db s) \<and> named_as q (sys_db s))"

subsection \<open>What a transaction keeps of the queue table\<close>

definition queue_keys :: "sqs_db \<Rightarrow> (int \<times> string) set" where
  "queue_keys db = (\<lambda>r. (qr_id r, qr_name r)) ` set (sqs_queues db)"

definition keeps_names :: "sqs_db \<Rightarrow> sqs_db \<Rightarrow> bool" where
  "keeps_names db db' \<longleftrightarrow>
     next_queue_id db \<le> next_queue_id db'
     \<and> (\<forall>(i, n)\<in>queue_keys db'. i < next_queue_id db \<longrightarrow> (i, n) \<in> queue_keys db)"

lemma keeps_names_same:
  "next_queue_id db' = next_queue_id db \<Longrightarrow> queue_keys db' \<subseteq> queue_keys db \<Longrightarrow> keeps_names db db'"
  by (auto simp: keeps_names_def)

lemma queue_keys_rows:
  "(\<And>r. qr_name (f r) = qr_name r \<and> qr_id (f r) = qr_id r) \<Longrightarrow>
   sqs_queues db' = sql_update P f (sqs_queues db) \<Longrightarrow> queue_keys db' = queue_keys db"
  using map_key_sql_update[of P "\<lambda>r. (qr_id r, qr_name r)" f "sqs_queues db"]
  by (simp add: queue_keys_def flip: set_map)

lemma keeps_names_rows:
  "next_queue_id db' = next_queue_id db \<Longrightarrow> (\<And>r. qr_name (f r) = qr_name r \<and> qr_id (f r) = qr_id r) \<Longrightarrow>
   sqs_queues db' = sql_update P f (sqs_queues db) \<Longrightarrow> keeps_names db db'"
  by (rule keeps_names_same) (simp_all add: queue_keys_rows[of f])

lemma keeps_names_refl: "sqs_queues db' = sqs_queues db \<Longrightarrow> next_queue_id db' = next_queue_id db \<Longrightarrow> keeps_names db db'"
  by (simp add: keeps_names_same queue_keys_def)

lemma named_as_keys: "named_as q db \<longleftrightarrow> (\<forall>(i, n)\<in>queue_keys db. i = q_id q \<longrightarrow> n = q_name q)"
  by (auto simp: named_as_def queue_keys_def)

lemma named_as_kept: "snapshot_ok q db \<Longrightarrow> named_as q db \<Longrightarrow> keeps_names db db' \<Longrightarrow> named_as q db'"
  unfolding named_as_keys keeps_names_def snapshot_ok_def by blast

lemma read_named_as:
  assumes "queues_ok db" "get_queue E n db = Inr q"
  shows "named_as q db"
proof -
  from assms(2) obtain r where r: "r \<in> set (sqs_queues db)" "q = queue_from_row E r"
    by (auto simp: get_queue_def require_queue_def find_queue_def Let_def
        split: if_splits option.splits dest!: find_Some_set)
  have "distinct (map qr_id (sqs_queues db))"
    using assms(1) by (simp add: queues_ok_def sorted_wrt_less_distinct)
  with r show ?thesis
    by (auto simp: named_as_def queue_from_row_def Let_def dest: key_inject)
qed

lemma create_queue_keeps:
  assumes "create_queue_tx E n u a t now db = (res, db')"
  shows "keeps_names db db'"
  using assms by (cases rule: create_queue_cases) (auto simp: keeps_names_def queue_keys_def)

lemma write_tags_keeps: "write_tags i tags db = (res, db') \<Longrightarrow> keeps_names db db'"
  using keeps_names_rows[of db' db "\<lambda>r. r\<lparr> qr_tags := tags \<rparr>" "\<lambda>r. qr_id r = i"] keeps_names_refl[of db db]
  by (auto simp: write_tags_def split: if_splits)

lemma set_attributes_keeps:
  assumes "set_attributes_tx E q a now db = (res, db')"
  shows "keeps_names db db'"
  using assms
proof (cases rule: set_attributes_cases)
  case (changed m)
  then show ?thesis
    by (intro keeps_names_rows[where P = "\<lambda>r. qr_id r = q_id q" and f = "\<lambda>r. r\<lparr> qr_attributes :=
        fold merge_attr m (q_attributes q), qr_modified_ts := now div 1000 \<rparr>"]) simp_all
qed (simp add: keeps_names_refl)

lemma send_keeps:
  assumes "sqs_env E" "sqs_ok E db" "send_tx E q input now db = (res, db')"
  shows "keeps_names db db'"
  using assms
proof (cases rule: send_tx_cases)
  case (fifo delay dedup seq db2)
  then show ?thesis
    by (intro keeps_names_rows[where P = "\<lambda>r. qr_id r = q_id q" and
          f = "\<lambda>r. r\<lparr> qr_fifo_seq := qr_fifo_seq r + 1 \<rparr>"])
       (simp_all add: fifo_decide_fresh(1)[OF fifo(3)])
qed (simp_all add: keeps_names_refl)

lemma delete_queue_keeps: "keeps_names db (delete_queue_tx q db)"
  by (rule keeps_names_same) (auto simp: queue_keys_def delete_queue_tx_def)

lemma answered: "map_prod f id p = (r, d) \<Longrightarrow> \<exists>a. p = (a, d)"
  by (cases p) auto

lemma sqs_queue_exec_ok:
  assumes env: "sqs_env E" and ok: "sqs_ok E db" and q: "snapshot_ok q db" "named_as q db"
    and x: "sqs_queue_exec E q act db = (r, db')"
  shows "sqs_ok E db' \<and> keeps_names db db'"
proof (cases act)
  case DeleteQueue
  with x ok show ?thesis by (auto simp: delete_queue_ok delete_queue_keeps)
next
  case PurgeQueue
  then have db': "db' = purge_queue_tx q db" using x by simp
  have "keeps_names db db'" by (rule keeps_names_refl) (simp_all add: db' purge_queue_tx_def)
  with purge_queue_ok[OF ok] db' show ?thesis by simp
next
  case (SetAttributes attrs now)
  with x obtain res where "set_attributes_tx E q attrs now db = (res, db')"
    by (auto dest: answered)
  with ok q show ?thesis by (blast intro: set_attributes_ok set_attributes_keeps)
next
  case (TagQueue tags)
  with x obtain res where "write_tags (q_id q) (bt_extend (q_tags q) tags) db = (res, db')"
    by (auto simp: tag_queue_tx_def dest: answered)
  with ok show ?thesis by (blast intro: write_tags_ok write_tags_keeps)
next
  case (UntagQueue keys)
  with x obtain res where "write_tags (q_id q) (fold bt_remove keys (q_tags q)) db = (res, db')"
    by (auto simp: untag_queue_tx_def dest: answered)
  with ok show ?thesis by (blast intro: write_tags_ok write_tags_keeps)
next
  case (GetAttributes names now)
  with x obtain res where g: "get_attributes_tx q names now db = (res, db')"
    by (auto dest: answered)
  then have "db' = db \<or> db' = refresh q now db"
    by (auto simp: get_attributes_tx_def Let_def split: option.splits)
  with get_attributes_ok[OF ok g] show ?thesis by (auto intro: keeps_names_refl)
next
  case (SendMessage input now)
  with x obtain res where "send_tx E q input now db = (res, db')"
    by (auto dest: answered)
  with env ok q show ?thesis by (blast dest: send_ok send_keeps)
next
  case (ReceiveMessage opts now)
  with x receive_tx_plan[OF env ok q(1), of opts now] show ?thesis
    by (auto simp: plan_db_def intro: keeps_names_refl)
next
  case (DeleteMessage rh)
  with x obtain res where d: "delete_message_tx E q rh db = (res, db')"
    by (auto dest: answered)
  then have "sqs_queues db' = sqs_queues db" by (auto simp: delete_message_tx_def Let_def split: if_splits)
  with delete_message_ok[OF ok d] show ?thesis by (auto intro: keeps_names_refl)
next
  case (ChangeVisibility rh timeout now)
  with x obtain res where d: "change_visibility_tx E q rh timeout now db = (res, db')"
    by (auto dest: answered)
  from change_visibility_rows[OF d] have "sqs_queues db' = sqs_queues db" by auto
  with change_visibility_ok[OF ok d] show ?thesis by (auto intro: keeps_names_refl)
qed

lemma sqs_exec_ok:
  assumes env: "sqs_env E" and ok: "sqs_sys_ok E s"
  shows "sqs_sys_ok E (snd (sqs_exec E x s))"
proof -
  have kept: "sqs_sys_ok E (s\<lparr> sys_db := db' \<rparr>)" if "sqs_ok E db'" "keeps_names (sys_db s) db'" for db'
    using ok that named_as_kept[OF _ _ that(2)]
    by (auto simp: sqs_sys_ok_def keeps_names_def intro: snapshot_mono)
  have db: "sqs_ok E (sys_db s)" using ok by (simp add: sqs_sys_ok_def)
  then have qs: "queues_ok (sys_db s)" by (simp add: sqs_ok_def)
  show ?thesis
  proof (cases x)
    case (ReadQueue n)
    with ok show ?thesis
      by (auto simp: sqs_exec_def sqs_sys_ok_def get_queue_snapshot[OF qs] read_named_as[OF qs]
          split: sum.splits)
  next
    case (CreateQueue n u a t now)
    obtain res db' where c: "create_queue_tx E n u a t now (sys_db s) = (res, db')" by fastforce
    with kept[OF create_queue_ok[OF db c] create_queue_keeps[OF c]] show ?thesis
      by (simp add: CreateQueue sqs_exec_def)
  next
    case (QueueOp i act)
    show ?thesis
    proof (cases "i < length (sys_reads s)")
      case True
      obtain r db' where a: "sqs_queue_exec E (sys_reads s ! i) act (sys_db s) = (r, db')" by fastforce
      from ok True have "snapshot_ok (sys_reads s ! i) (sys_db s)" "named_as (sys_reads s ! i) (sys_db s)"
        by (simp_all add: sqs_sys_ok_def)
      from sqs_queue_exec_ok[OF env db this a] kept[of db'] True a show ?thesis
        by (simp add: QueueOp sqs_exec_def)
    qed (use ok QueueOp in \<open>simp add: sqs_exec_def\<close>)
  qed
qed

interpretation sqs: service sqs_env sqs_sys_init sqs_exec sqs_sys_ok
  by unfold_locales (simp add: sqs_sys_ok_def sqs_sys_init_def sqs_ok_init, rule sqs_exec_ok)

subsection \<open>Queue names\<close>

lemma valid_queue_name_nonempty: "valid_queue_name n \<Longrightarrow> n \<noteq> []"
  by (auto simp: valid_queue_name_def strip_suffix_def ends_with_def split: if_splits)

lemma name_char: "is_alnum c \<or> c = CHR ''-'' \<or> c = CHR ''_'' \<Longrightarrow> visible c \<and> c \<notin> {CHR '':'', CHR ''/'', CHR ''?''}"
  by (auto simp: is_alnum_def is_digit_def is_upper_def is_lower_def visible_def)

lemma valid_queue_name_chars:
  assumes "valid_queue_name n" "c \<in> set n"
  shows "visible c \<and> c \<notin> {CHR '':'', CHR ''/'', CHR ''?''}"
proof (cases "strip_suffix ''.fifo'' n")
  case None
  with assms show ?thesis by (intro name_char) (auto simp: valid_queue_name_def list_all_iff)
next
  case (Some b)
  then have "n = b @ ''.fifo''"
    by (auto simp: strip_suffix_def ends_with_iff split: if_splits)
  moreover have "visible c \<and> c \<notin> {CHR '':'', CHR ''/'', CHR ''?''}" if "c \<in> set b"
    using assms(1) Some that by (intro name_char) (auto simp: valid_queue_name_def list_all_iff)
  moreover have "visible c \<and> c \<notin> {CHR '':'', CHR ''/'', CHR ''?''}" if "c \<in> set ''.fifo''"
    using that by (simp, elim disjE) (simp_all add: visible_def)
  ultimately show ?thesis using assms(2) by (metis Un_iff set_append)
qed

lemma queue_name_of_valid:
  assumes "valid_queue_name n"
  shows "queue_name_of n = n"
proof -
  have ne: "n \<noteq> []" using valid_queue_name_nonempty[OF assms] .
  have chars: "visible c \<and> c \<notin> {CHR '':'', CHR ''/'', CHR ''?''}" if "c \<in> set n" for c
    using valid_queue_name_chars[OF assms that] .
  have "visible_word n" using chars ne by (simp add: visible_word_def)
  then have t: "trim n = n" by (rule trim_word)
  have "last n \<noteq> CHR ''/''" using chars[of "last n"] ne by auto
  then have "trim_end_char (CHR ''/'') n = n"
    using ne by (cases n rule: rev_cases) (simp_all add: trim_end_char_def)
  moreover have "\<not> starts_with n ''arn:''" using chars[of "CHR '':''"] by (auto simp: starts_with_iff)
  moreover have "split_on (CHR ''/'') n = [n]" "split_on (CHR ''?'') n = [n]" using chars by (auto intro!: split_on_no_sep)
  ultimately show ?thesis by (simp add: queue_name_of_def t)
qed

lemma get_queue_by_name:
  assumes "sqs_ok E db" "get_queue E i db = Inr q"
  shows "get_queue E (q_name q) db = Inr q"
proof -
  from assms(2) have f: "find_queue E (queue_name_of i) db = Some q" and ne: "queue_name_of i \<noteq> []"
    by (auto simp: get_queue_def require_queue_def Let_def split: if_splits option.splits)
  have name: "q_name q = queue_name_of i" by (rule find_queue_name[OF f])
  have "valid_queue_name (q_name q)"
    using get_queue_snapshot[OF _ assms(2)] assms(1) by (simp add: sqs_ok_def snapshot_ok_def)
  from queue_name_of_valid[OF this] f ne show ?thesis by (simp add: get_queue_def require_queue_def name)
qed

end
