(* ===== verification/Http.thy ===== *)
theory Http
  imports Service
begin

text \<open>
  Prelude, part 6: responses, request fields and the telemetry sink (src/src/telemetry.rs), which
  the request handlers of the services share.
\<close>

record http_response =
  http_status :: nat
  http_headers :: "(string \<times> string) list"
  http_body :: string

text \<open>\<open>json!\<close> with an object, and a map of strings as a value.\<close>

definition json_obj :: "(string \<times> json) list \<Rightarrow> json" where
  "json_obj kvs = JObj (bt_of_list kvs)"

definition json_strings :: "string btree \<Rightarrow> json" where
  "json_strings m = JObj (map (\<lambda>(k, v). (k, JStr v)) m)"

lemma json_get_obj: "json_get k (json_obj kvs) = map_of (rev kvs) k"
  by (simp add: json_obj_def bt_get_extend)

text \<open>\<open>axum::Json\<close> with status 200, and the error shape of the AWS JSON protocol (src/src/proto.rs).\<close>

definition axum_json :: "externals \<Rightarrow> json \<Rightarrow> http_response" where
  "axum_json E v =
     \<lparr> http_status = 200, http_headers = [(''content-type'', ''application/json'')],
       http_body = json_print E v \<rparr>"

definition json_error_response :: "externals \<Rightarrow> nat \<Rightarrow> string \<Rightarrow> string \<Rightarrow> http_response" where
  "json_error_response E status code message =
     \<lparr> http_status = status, http_headers = [(''content-type'', ''application/x-amz-json-1.0'')],
       http_body = json_print E (json_obj [(''__type'', JStr code), (''message'', JStr message)]) \<rparr>"

text \<open>
  A row of the \<open>events\<close> table.  A failed insertion is only logged; the model keeps the insertion.
\<close>

record event =
  ev_provider :: string
  ev_service :: string
  ev_action :: string
  ev_payload :: string
  ev_created_at :: string

definition emit_event ::
    "externals \<Rightarrow> string \<Rightarrow> string \<Rightarrow> string \<Rightarrow> string \<Rightarrow> int \<Rightarrow> event list \<Rightarrow> event list" where
  "emit_event E provider svc action payload now events =
     events @ [\<lparr> ev_provider = provider, ev_service = svc, ev_action = action,
                 ev_payload = payload, ev_created_at = to_rfc3339 E now \<rparr>]"

text \<open>Values of an object as strings: a string as it is, anything else printed.\<close>

definition value_text :: "externals \<Rightarrow> json \<Rightarrow> string" where
  "value_text E v = (case v of JStr s \<Rightarrow> s | other \<Rightarrow> json_print E other)"

definition string_map :: "externals \<Rightarrow> json option \<Rightarrow> string btree" where
  "string_map E v =
     (case Option.bind v as_object of
        Some m \<Rightarrow> bt_of_list (map (\<lambda>(k, v). (k, value_text E v)) m) | None \<Rightarrow> [])"

definition string_list :: "json option \<Rightarrow> string list" where
  "string_list v =
     (case Option.bind v as_array of Some a \<Rightarrow> List.map_filter as_str a | None \<Rightarrow> [])"

subsection \<open>Requests and header values\<close>

text \<open>A request as the extractors of axum hand it over: query parameters decoded, header names in lower case.\<close>

record web_request =
  rq_params :: "(string \<times> string) list"
  rq_headers :: "(string \<times> string) list"
  rq_body :: string

text \<open>\<open>HeaderValue::to_str\<close> and \<open>from_str\<close> accept visible ASCII, space and tab.\<close>

definition header_text :: "string \<Rightarrow> bool" where
  "header_text v \<longleftrightarrow> list_all (\<lambda>c. visible c \<or> c = CHR '' '' \<or> c = CHR 0x09) v"

definition header_get :: "string \<Rightarrow> web_request \<Rightarrow> string option" where
  "header_get name r = (case map_of (rq_headers r) name of Some v \<Rightarrow> if header_text v then Some v else None | None \<Rightarrow> None)"

text \<open>The conversion of a string to a header value also lets bytes above 127 pass.\<close>

definition header_bytes :: "string \<Rightarrow> bool" where
  "header_bytes v \<longleftrightarrow> list_all (\<lambda>c. 32 \<le> code_of c \<and> code_of c \<noteq> 127 \<or> c = CHR 0x09) v"

definition set_header :: "string \<Rightarrow> string \<Rightarrow> http_response \<Rightarrow> http_response" where
  "set_header name v resp = resp\<lparr> http_headers := filter (\<lambda>(k, _). k \<noteq> name) (http_headers resp) @ [(name, v)] \<rparr>"

text \<open>\<open>HeaderMap::insert\<close> under \<open>if let Ok(v) = HeaderValue::from_str(..)\<close>.\<close>

definition try_header :: "string \<Rightarrow> string \<Rightarrow> http_response \<Rightarrow> http_response" where
  "try_header name v resp = (if header_text v then set_header name v resp else resp)"

definition status_response :: "nat \<Rightarrow> http_response" where
  "status_response status = \<lparr> http_status = status, http_headers = [], http_body = [] \<rparr>"

text \<open>\<open>(status, [(name, value)], bytes)\<close>: a value that is no header value makes it an error.\<close>

definition bytes_response :: "nat \<Rightarrow> (string \<times> string) list \<Rightarrow> string \<Rightarrow> http_response" where
  "bytes_response status hs body =
     (if list_all (\<lambda>(_, v). header_bytes v) hs then
        fold (\<lambda>(k, v). set_header k v) hs
          \<lparr> http_status = status, http_headers = [(''content-type'', ''application/octet-stream'')], http_body = body \<rparr>
      else \<lparr> http_status = 500, http_headers = [(''content-type'', ''text/plain; charset=utf-8'')],
             http_body = ''failed to parse header value'' \<rparr>)"

end
