(* ===== verification/Sqs_Handlers.thy ===== *)
theory Sqs_Handlers
  imports Sqs_System Http
begin

text \<open>
  SQS, part 10: the request handlers of src/src/aws/sqs/handlers.rs: the fields of a request, the
  batch operations, the dispatch on the action and the responses.

  The state of a handler is the SQS tables and the telemetry events.  \<open>clk\<close> supplies the clocks:
  \<open>wall i\<close> is the wall clock of the i-th call a request makes; the remaining fields are those of the
  long-polling loop.
\<close>

record sqs_app =
  app_db :: sqs_db
  app_events :: "event list"

record poll_clock =
  ck_fuel :: nat
  ck_start :: int
  ck_wall :: "nat \<Rightarrow> int"
  ck_instant :: "nat \<Rightarrow> int"
  ck_others :: "nat \<Rightarrow> sqs_db \<Rightarrow> sqs_db"

definition on_db :: "(sqs_db \<Rightarrow> ('e, 'a) result \<times> sqs_db) \<Rightarrow> (sqs_app, 'e, 'a) action" where
  "on_db f = (\<lambda>s. case f (app_db s) of (r, db) \<Rightarrow> (r, s\<lparr> app_db := db \<rparr>))"

definition read_db :: "(sqs_db \<Rightarrow> ('e, 'a) result) \<Rightarrow> (sqs_app, 'e, 'a) action" where
  "read_db f = (\<lambda>s. (f (app_db s), s))"

definition emit :: "externals \<Rightarrow> int \<Rightarrow> string \<Rightarrow> json \<Rightarrow> (sqs_app, 'e, unit) action" where
  "emit E now action payload =
     (\<lambda>s. (Inr (), s\<lparr> app_events := emit_event E ''aws'' ''sqs'' action (json_print E payload) now
                                      (app_events s) \<rparr>))"

subsection \<open>Responses\<close>

definition ok_response :: "externals \<Rightarrow> json \<Rightarrow> http_response" where
  "ok_response E v =
     \<lparr> http_status = 200,
       http_headers = [(''content-type'', ''application/x-amz-json-1.0''), (''x-amzn-RequestId'', ''cloudtwin'')],
       http_body = json_print E v \<rparr>"

definition error_response :: "externals \<Rightarrow> sqs_error \<Rightarrow> http_response" where
  "error_response E e =
     \<lparr> http_status = sqs_error_status e,
       http_headers =
         [(''content-type'', ''application/x-amz-json-1.0''),
          (''x-amzn-query-error'',
           err_query_code e @ '';'' @ (if err_sender_fault e then ''Sender'' else ''Receiver'')),
          (''x-amzn-RequestId'', ''cloudtwin'')],
       http_body = json_print E (json_obj [(''__type'', JStr (''com.amazonaws.sqs#'' @ err_code e)),
                                           (''message'', JStr (err_message e))]) \<rparr>"

subsection \<open>Request fields\<close>

definition str_field :: "json \<Rightarrow> string \<Rightarrow> string option" where
  "str_field body key = Option.bind (json_get key body) as_str"

definition required :: "json \<Rightarrow> string \<Rightarrow> (sqs_error, string) result" where
  "required body key =
     (case str_field body key of
        Some s \<Rightarrow> if s = [] then Inl (missing_parameter key) else Inr s
      | None \<Rightarrow> Inl (missing_parameter key))"

definition int_field :: "json \<Rightarrow> string \<Rightarrow> (sqs_error, int option) result" where
  "int_field body key =
     (let bad = Inl (invalid_parameter (''Invalid value for the parameter '' @ key @ ''.'')) in
      case json_get key body of
        None \<Rightarrow> Inr None
      | Some JNull \<Rightarrow> Inr None
      | Some (JInt n) \<Rightarrow> (case as_i64 (JInt n) of Some i \<Rightarrow> Inr (Some i) | None \<Rightarrow> bad)
      | Some (JStr s) \<Rightarrow> (case parse_i64 (trim s) of Some i \<Rightarrow> Inr (Some i) | None \<Rightarrow> bad)
      | Some _ \<Rightarrow> bad)"

definition attrs_field :: "externals \<Rightarrow> json \<Rightarrow> string \<Rightarrow> (sqs_error, msg_attrs) result" where
  "attrs_field E entry key =
     (case parse_attrs E (json_get key entry) of Inl m \<Rightarrow> Inl (invalid_parameter m) | Inr a \<Rightarrow> Inr a)"

definition send_input_of :: "externals \<Rightarrow> json \<Rightarrow> (sqs_error, send_input) result" where
  "send_input_of E entry =
     (case str_field entry ''MessageBody'' of
        None \<Rightarrow> Inl (missing_parameter ''MessageBody'')
      | Some body \<Rightarrow>
          try_bind (int_field entry ''DelaySeconds'') (\<lambda>delay.
          try_bind (attrs_field E entry ''MessageAttributes'') (\<lambda>attrs.
          try_bind (attrs_field E entry ''MessageSystemAttributes'') (\<lambda>sys.
            Inr \<lparr> si_body = body, si_delay_seconds = delay, si_attributes = attrs,
                  si_system_attributes = sys, si_group_id = str_field entry ''MessageGroupId'',
                  si_dedup_id = str_field entry ''MessageDeduplicationId'' \<rparr>))))"

definition valid_batch_id :: "string \<Rightarrow> bool" where
  "valid_batch_id i \<longleftrightarrow>
     i \<noteq> [] \<and> length i \<le> 80 \<and> list_all (\<lambda>c. is_alnum c \<or> c = CHR ''-'' \<or> c = CHR ''_'') i"

definition entry_id :: "json \<Rightarrow> string" where
  "entry_id e = (case str_field e ''Id'' of Some i \<Rightarrow> i | None \<Rightarrow> [])"

fun check_entries :: "json list \<Rightarrow> string set \<Rightarrow> sqs_error option" where
  "check_entries [] seen = None"
| "check_entries (e # es) seen =
     (let i = entry_id e in
      if \<not> valid_batch_id i then Some (invalid_batch_entry_id i)
      else if i \<in> seen then Some (ids_not_distinct i)
      else check_entries es (insert i seen))"

definition batch_entries :: "json \<Rightarrow> (sqs_error, json list) result" where
  "batch_entries body =
     (let entries = (case Option.bind (json_get ''Entries'' body) as_array of Some a \<Rightarrow> a | None \<Rightarrow> []) in
      if entries = [] then Inl empty_batch
      else if 10 < length entries then Inl (too_many_entries (length entries))
      else case check_entries entries {} of Some e \<Rightarrow> Inl e | None \<Rightarrow> Inr entries)"

definition failed_entry :: "string \<Rightarrow> sqs_error \<Rightarrow> json" where
  "failed_entry i e =
     json_obj [(''Id'', JStr i), (''SenderFault'', JBool (err_sender_fault e)),
               (''Code'', JStr (err_query_code e)), (''Message'', JStr (err_message e))]"

definition opt_field :: "string \<Rightarrow> string option \<Rightarrow> (string \<times> json) list" where
  "opt_field k v = (case v of Some s \<Rightarrow> [(k, JStr s)] | None \<Rightarrow> [])"

definition send_result :: "send_outcome \<Rightarrow> (string \<times> json) list" where
  "send_result out =
     [(''MessageId'', JStr (so_message_id out)), (''MD5OfMessageBody'', JStr (so_md5_body out))]
     @ opt_field ''MD5OfMessageAttributes'' (so_md5_attrs out)
     @ opt_field ''MD5OfMessageSystemAttributes'' (so_md5_system_attrs out)
     @ opt_field ''SequenceNumber'' (so_sequence_number out)"

subsection \<open>Actions\<close>

type_synonym sqs_handler = "(sqs_app, sqs_error, json) action"

definition url_field :: "json \<Rightarrow> (string \<Rightarrow> sqs_handler) \<Rightarrow> sqs_handler" where
  "url_field body k = act_bind (act_result (required body ''QueueUrl'')) k"

definition handle_create_queue :: "externals \<Rightarrow> string \<Rightarrow> int \<Rightarrow> json \<Rightarrow> sqs_handler" where
  "handle_create_queue E base now body =
     act_bind (act_result (required body ''QueueName'')) (\<lambda>name.
     let attrs = string_map E (json_get ''Attributes'' body);
         tags = string_map E (case json_get ''tags'' body of Some t \<Rightarrow> Some t | None \<Rightarrow> json_get ''Tags'' body)
     in act_bind (on_db (create_queue E base name attrs tags now)) (\<lambda>url.
        act_bind (emit E now ''create_queue'' (json_obj [(''queue'', JStr name)])) (\<lambda>_.
        act_return (json_obj [(''QueueUrl'', JStr url)]))))"

definition handle_get_queue_url :: "externals \<Rightarrow> string \<Rightarrow> json \<Rightarrow> sqs_handler" where
  "handle_get_queue_url E base body =
     act_bind (act_result (required body ''QueueName'')) (\<lambda>name.
     act_bind (read_db (get_queue_url E base name)) (\<lambda>url.
     act_return (json_obj [(''QueueUrl'', JStr url)])))"

definition handle_list_queues :: "externals \<Rightarrow> string \<Rightarrow> json \<Rightarrow> sqs_handler" where
  "handle_list_queues E base body =
     (let pre = (case str_field body ''QueueNamePrefix'' of Some p \<Rightarrow> p | None \<Rightarrow> []) in
      act_bind (act_result (int_field body ''MaxResults'')) (\<lambda>mx.
      act_bind (read_db (list_queues E base pre mx (str_field body ''NextToken''))) (\<lambda>(urls, token).
      act_return (json_obj ((if urls = [] then [] else [(''QueueUrls'', JArr (map JStr urls))])
                            @ opt_field ''NextToken'' token)))))"

definition handle_list_dlq_sources :: "externals \<Rightarrow> string \<Rightarrow> json \<Rightarrow> sqs_handler" where
  "handle_list_dlq_sources E base body =
     url_field body (\<lambda>url.
     act_bind (act_result (int_field body ''MaxResults'')) (\<lambda>mx.
     act_bind (read_db (list_dead_letter_source_queues E base url mx (str_field body ''NextToken''))) (\<lambda>(urls, token).
     act_return (json_obj ([(''queueUrls'', JArr (map JStr urls))] @ opt_field ''NextToken'' token)))))"

text \<open>An action on a queue that answers with an empty object and reports itself.\<close>

definition handle_simple ::
    "externals \<Rightarrow> int \<Rightarrow> string \<Rightarrow> (string \<times> json) list \<Rightarrow> (sqs_db \<Rightarrow> (sqs_error, unit) result \<times> sqs_db)
      \<Rightarrow> sqs_handler" where
  "handle_simple E now action payload f =
     act_bind (on_db f) (\<lambda>_. act_bind (emit E now action (json_obj payload)) (\<lambda>_. act_return (JObj [])))"

definition handle_get_attributes :: "externals \<Rightarrow> int \<Rightarrow> json \<Rightarrow> sqs_handler" where
  "handle_get_attributes E now body =
     url_field body (\<lambda>url.
     act_bind (on_db (get_queue_attributes E url (string_list (json_get ''AttributeNames'' body)) now)) (\<lambda>attrs.
     act_return (if attrs = [] then JObj [] else json_obj [(''Attributes'', json_strings attrs)])))"

definition handle_list_tags :: "externals \<Rightarrow> json \<Rightarrow> sqs_handler" where
  "handle_list_tags E body =
     url_field body (\<lambda>url.
     act_bind (read_db (get_queue E url)) (\<lambda>q.
     act_return (if q_tags q = [] then JObj [] else json_obj [(''Tags'', json_strings (q_tags q))])))"

definition handle_send :: "externals \<Rightarrow> int \<Rightarrow> json \<Rightarrow> sqs_handler" where
  "handle_send E now body =
     url_field body (\<lambda>url.
     act_bind (act_result (send_input_of E body)) (\<lambda>input.
     act_bind (on_db (send E url input now)) (\<lambda>out.
     act_bind (emit E now ''send_message''
       (json_obj [(''queue_url'', JStr url), (''message_id'', JStr (so_message_id out))])) (\<lambda>_.
     act_return (json_obj (send_result out))))))"

text \<open>
  The loop of a batch: every entry in turn, its answer appended to the successful or to the failed
  ones.
\<close>

fun batch_loop ::
    "(nat \<Rightarrow> 'x \<Rightarrow> (sqs_app, sqs_error, json) action) \<Rightarrow> ('x \<Rightarrow> string) \<Rightarrow> nat \<Rightarrow> 'x list
      \<Rightarrow> sqs_app \<Rightarrow> (json list \<times> json list) \<times> sqs_app" where
  "batch_loop step ident i [] s = (([], []), s)"
| "batch_loop step ident i (x # xs) s =
     (case step i x s of
        (Inr v, s') \<Rightarrow>
          (case batch_loop step ident (Suc i) xs s' of ((ok, failed), s'') \<Rightarrow> ((v # ok, failed), s''))
      | (Inl e, s') \<Rightarrow>
          (case batch_loop step ident (Suc i) xs s' of
             ((ok, failed), s'') \<Rightarrow> ((ok, failed_entry (ident x) e # failed), s'')))"

definition batch_answer ::
    "externals \<Rightarrow> int \<Rightarrow> string \<Rightarrow> (nat \<Rightarrow> (string \<times> json) list) \<Rightarrow> (json list \<times> json list) \<times> sqs_app
      \<Rightarrow> (sqs_error, json) result \<times> sqs_app" where
  "batch_answer E now action payload r =
     (case r of ((ok, failed), s) \<Rightarrow>
        act_bind (emit E now action (json_obj (payload (length ok))))
          (\<lambda>_. act_return (json_obj [(''Successful'', JArr ok), (''Failed'', JArr failed)])) s)"

definition send_entry ::
    "externals \<Rightarrow> string \<Rightarrow> (nat \<Rightarrow> int) \<Rightarrow> nat \<Rightarrow> string \<times> (sqs_error, send_input) result \<Rightarrow> sqs_handler" where
  "send_entry E url wall i x =
     (case x of (ident, input) \<Rightarrow>
        act_bind (act_result input) (\<lambda>inp.
        act_bind (on_db (send E url inp (wall i))) (\<lambda>out.
        act_return (json_obj (send_result out @ [(''Id'', JStr ident)])))))"

definition handle_send_batch :: "externals \<Rightarrow> (nat \<Rightarrow> int) \<Rightarrow> json \<Rightarrow> sqs_handler" where
  "handle_send_batch E wall body =
     url_field body (\<lambda>url.
     act_bind (read_db (get_queue E url)) (\<lambda>_.
     act_bind (act_result (batch_entries body)) (\<lambda>entries.
     let inputs = map (\<lambda>e. (entry_id e, send_input_of E e)) entries;
         bytes = sum_list (map (\<lambda>(_, r). case r of Inr inp \<Rightarrow> message_size inp | Inl _ \<Rightarrow> 0) inputs)
     in act_bind (read_db (check_batch_size E url bytes)) (\<lambda>_ s.
        batch_answer E (wall (length inputs)) ''send_message_batch''
          (\<lambda>n. [(''queue_url'', JStr url), (''count'', JInt (int n))])
          (batch_loop (send_entry E url wall) fst 0 inputs s)))))"

definition message_json :: "externals \<Rightarrow> received_message \<Rightarrow> json" where
  "message_json E m =
     json_obj ([(''MessageId'', JStr (rm_message_id m)), (''ReceiptHandle'', JStr (rm_receipt_handle m)),
                (''MD5OfBody'', JStr (md5_hex E (rm_body m))), (''Body'', JStr (rm_body m))]
               @ (if rm_attributes m = [] then [] else [(''Attributes'', json_strings (rm_attributes m))])
               @ (if rm_message_attributes m = [] then []
                  else [(''MD5OfMessageAttributes'', JStr (md5_of_attrs E (rm_message_attributes m))),
                        (''MessageAttributes'', attrs_to_json E (rm_message_attributes m))]))"

definition receive_options_of :: "json \<Rightarrow> (sqs_error, receive_options) result" where
  "receive_options_of body =
     try_bind (int_field body ''MaxNumberOfMessages'') (\<lambda>mx.
     try_bind (int_field body ''VisibilityTimeout'') (\<lambda>vt.
     try_bind (int_field body ''WaitTimeSeconds'') (\<lambda>wait.
       Inr \<lparr> ro_max = (case mx of Some n \<Rightarrow> n | None \<Rightarrow> 1), ro_visibility_timeout = vt,
             ro_wait_seconds = wait,
             ro_system_attribute_names = string_list (json_get ''AttributeNames'' body)
               @ string_list (json_get ''MessageSystemAttributeNames'' body),
             ro_message_attribute_names = string_list (json_get ''MessageAttributeNames'' body) \<rparr>)))"

text \<open>\<open>None\<close> stands for the polling loop running out of fuel.\<close>

definition handle_receive ::
    "externals \<Rightarrow> poll_clock \<Rightarrow> json \<Rightarrow> sqs_app \<Rightarrow> ((sqs_error, json) result \<times> sqs_app) option" where
  "handle_receive E clk body s =
     (case try_bind (required body ''QueueUrl'') (\<lambda>url.
             try_bind (receive_options_of body) (\<lambda>opts. Inr (url, opts))) of
        Inl e \<Rightarrow> Some (Inl e, s)
      | Inr (url, opts) \<Rightarrow>
          map_option (\<lambda>(r, db).
            act_bind (act_result r) (\<lambda>msgs.
              if msgs = [] then act_return (JObj [])
              else act_bind (emit E (ck_wall clk 0) ''receive_message''
                     (json_obj [(''queue_url'', JStr url), (''count'', JInt (int (length msgs)))]))
                   (\<lambda>_. act_return (json_obj [(''Messages'', JArr (map (message_json E) msgs))])))
              (s\<lparr> app_db := db \<rparr>))
            (receive (ck_fuel clk) E url opts (ck_start clk) (ck_wall clk) (ck_instant clk)
               (ck_others clk) (app_db s)))"

definition delete_entry :: "externals \<Rightarrow> string \<Rightarrow> nat \<Rightarrow> json \<Rightarrow> sqs_handler" where
  "delete_entry E url i e =
     act_bind (on_db (delete_message E url (case str_field e ''ReceiptHandle'' of Some rh \<Rightarrow> rh | None \<Rightarrow> [])))
       (\<lambda>_. act_return (json_obj [(''Id'', JStr (entry_id e))]))"

definition handle_delete_batch :: "externals \<Rightarrow> int \<Rightarrow> json \<Rightarrow> sqs_handler" where
  "handle_delete_batch E now body =
     url_field body (\<lambda>url.
     act_bind (read_db (get_queue E url)) (\<lambda>_.
     act_bind (act_result (batch_entries body)) (\<lambda>entries s.
       batch_answer E now ''delete_message_batch''
         (\<lambda>n. [(''queue_url'', JStr url), (''count'', JInt (int n))])
         (batch_loop (delete_entry E url) entry_id 0 entries s))))"

definition visibility_entry :: "externals \<Rightarrow> string \<Rightarrow> (nat \<Rightarrow> int) \<Rightarrow> nat \<Rightarrow> json \<Rightarrow> sqs_handler" where
  "visibility_entry E url wall i e =
     act_bind (act_result (try_bind (int_field e ''VisibilityTimeout'') (\<lambda>t.
       case t of Some timeout \<Rightarrow> Inr timeout | None \<Rightarrow> Inl (missing_parameter ''VisibilityTimeout'')))) (\<lambda>timeout.
     act_bind (on_db (change_visibility E url
        (case str_field e ''ReceiptHandle'' of Some rh \<Rightarrow> rh | None \<Rightarrow> []) timeout (wall i))) (\<lambda>_.
     act_return (json_obj [(''Id'', JStr (entry_id e))])))"

definition handle_visibility_batch :: "externals \<Rightarrow> (nat \<Rightarrow> int) \<Rightarrow> json \<Rightarrow> sqs_handler" where
  "handle_visibility_batch E wall body =
     url_field body (\<lambda>url.
     act_bind (read_db (get_queue E url)) (\<lambda>_.
     act_bind (act_result (batch_entries body)) (\<lambda>entries s.
       batch_answer E (wall (length entries)) ''change_message_visibility_batch''
         (\<lambda>n. [(''queue_url'', JStr url)])
         (batch_loop (visibility_entry E url wall) entry_id 0 entries s))))"

definition handle_visibility :: "externals \<Rightarrow> int \<Rightarrow> json \<Rightarrow> sqs_handler" where
  "handle_visibility E now body =
     url_field body (\<lambda>url.
     act_bind (act_result (required body ''ReceiptHandle'')) (\<lambda>rh.
     act_bind (act_result (try_bind (int_field body ''VisibilityTimeout'') (\<lambda>t.
       case t of Some timeout \<Rightarrow> Inr timeout | None \<Rightarrow> Inl (missing_parameter ''VisibilityTimeout'')))) (\<lambda>timeout.
     handle_simple E now ''change_message_visibility''
       [(''queue_url'', JStr url), (''timeout'', JInt timeout)]
       (change_visibility E url rh timeout now))))"

definition dispatch ::
    "externals \<Rightarrow> string \<Rightarrow> poll_clock \<Rightarrow> string \<Rightarrow> json \<Rightarrow> sqs_app
      \<Rightarrow> ((sqs_error, json) result \<times> sqs_app) option" where
  "dispatch E base clk action body s =
     (let now = ck_wall clk 0; url = (\<lambda>u. [(''queue_url'', JStr u)]) in
      if action = ''CreateQueue'' then Some (handle_create_queue E base now body s)
      else if action = ''GetQueueUrl'' then Some (handle_get_queue_url E base body s)
      else if action = ''ListQueues'' then Some (handle_list_queues E base body s)
      else if action = ''ListDeadLetterSourceQueues'' then Some (handle_list_dlq_sources E base body s)
      else if action = ''DeleteQueue'' then
        Some (url_field body (\<lambda>u. handle_simple E now ''delete_queue'' (url u) (delete_queue E u)) s)
      else if action = ''PurgeQueue'' then
        Some (url_field body (\<lambda>u. handle_simple E now ''purge_queue'' (url u) (purge_queue E u)) s)
      else if action = ''GetQueueAttributes'' then Some (handle_get_attributes E now body s)
      else if action = ''SetQueueAttributes'' then
        (let attrs = string_map E (json_get ''Attributes'' body) in
         Some (url_field body (\<lambda>u. handle_simple E now ''set_queue_attributes''
                 (url u @ [(''attributes'', json_strings attrs)]) (set_queue_attributes E u attrs now)) s))
      else if action = ''TagQueue'' then
        Some (url_field body (\<lambda>u. handle_simple E now ''tag_queue'' (url u)
                (tag_queue E u (string_map E (json_get ''Tags'' body)))) s)
      else if action = ''UntagQueue'' then
        Some (url_field body (\<lambda>u. handle_simple E now ''untag_queue'' (url u)
                (untag_queue E u (string_list (json_get ''TagKeys'' body)))) s)
      else if action = ''ListQueueTags'' then Some (handle_list_tags E body s)
      else if action = ''AddPermission'' \<or> action = ''RemovePermission'' then
        Some (url_field body (\<lambda>u. act_bind (read_db (get_queue E u)) (\<lambda>_. act_return (JObj []))) s)
      else if action = ''SendMessage'' then Some (handle_send E now body s)
      else if action = ''SendMessageBatch'' then Some (handle_send_batch E (ck_wall clk) body s)
      else if action = ''ReceiveMessage'' then handle_receive E clk body s
      else if action = ''DeleteMessage'' then
        Some (url_field body (\<lambda>u. act_bind (act_result (required body ''ReceiptHandle'')) (\<lambda>rh.
                handle_simple E now ''delete_message'' (url u) (delete_message E u rh))) s)
      else if action = ''DeleteMessageBatch'' then Some (handle_delete_batch E now body s)
      else if action = ''ChangeMessageVisibility'' then Some (handle_visibility E now body s)
      else if action = ''ChangeMessageVisibilityBatch'' then
        Some (handle_visibility_batch E (ck_wall clk) body s)
      else Some (Inl (unsupported (''Unknown SQS operation: '' @ action)), s))"

definition handle_json ::
    "externals \<Rightarrow> string \<Rightarrow> poll_clock \<Rightarrow> string \<Rightarrow> json \<Rightarrow> sqs_app \<Rightarrow> (http_response \<times> sqs_app) option" where
  "handle_json E base clk target body s =
     (let action = (case strip_prefix ''AmazonSQS.'' target of Some a \<Rightarrow> a | None \<Rightarrow> target) in
      map_option (\<lambda>(r, s'). (case r of Inr v \<Rightarrow> ok_response E v | Inl e \<Rightarrow> error_response E e, s'))
        (dispatch E base clk action body s))"

end
