(* ===== verification/Sqs_Samples.thy ===== *)
theory Sqs_Samples
  imports Sqs_System
begin

text \<open>
  SQS, part 7: a concrete database for the witnesses.  One queue, standard or FIFO, holds two
  visible messages of one group; the service's invariant holds for it, and the simplifier can
  run the transactions on it.
\<close>

definition sample_queue :: "bool \<Rightarrow> sqs_queue_row" where
  "sample_queue fifo =
     \<lparr> qr_id = 1, qr_name = (if fifo then ''jobs.fifo'' else ''jobs''), qr_url = ''u'',
       qr_created_at = ''9'', qr_attributes = (if fifo then [(''FifoQueue'', ''true'')] else []),
       qr_tags = [], qr_created_ts = 9, qr_modified_ts = 9, qr_fifo_seq = 2 \<rparr>"

definition sample_message :: "int \<Rightarrow> string \<Rightarrow> string \<Rightarrow> string \<Rightarrow> sqs_message" where
  "sample_message i mid b u =
     \<lparr> m_id = i, m_message_id = mid, m_queue_id = 1, m_body = b, m_receipt_handle = ''pending-'' @ u,
       m_visible = True, m_created_at = ''9'', m_visible_at = 9, m_sent_at = 9, m_receive_count = 0,
       m_first_receive_at = None, m_attributes = None, m_system_attributes = None,
       m_group_id = Some ''g'', m_dedup_id = None, m_sequence_number = None,
       m_dlq_source_arn = None \<rparr>"

definition sample_db :: "bool \<Rightarrow> sqs_db" where
  "sample_db fifo =
     \<lparr> sqs_queues = [sample_queue fifo],
       sqs_messages = [sample_message 1 ''0'' ''a'' ''1'', sample_message 2 ''2'' ''b'' ''3''],
       sqs_fifo_dedup = [], next_queue_id = 2, next_message_id = 3, uuid_ctr = 4 \<rparr>"

definition sample_read :: "bool \<Rightarrow> sqs_queue" where
  "sample_read fifo =
     \<lparr> q_id = 1, q_name = (if fifo then ''jobs.fifo'' else ''jobs''),
       q_attributes = (if fifo then [(''FifoQueue'', ''true'')] else []), q_tags = [],
       q_created_ts = 9, q_modified_ts = 9 \<rparr>"

definition sample_sys :: "bool \<Rightarrow> sqs_sys" where
  "sample_sys fifo = \<lparr> sys_db = sample_db fifo, sys_reads = [sample_read fifo] \<rparr>"

definition sample_opts :: "int \<Rightarrow> receive_options" where
  "sample_opts n =
     \<lparr> ro_max = n, ro_visibility_timeout = None, ro_wait_seconds = None,
       ro_system_attribute_names = [], ro_message_attribute_names = [''All''] \<rparr>"

lemma sample_env [simp]: "sqs_env sample_ext"
  by (simp add: sqs_env_def)

lemma sample_uuid: "uuid_v4 sample_ext n = show_nat n"
  by (simp add: sample_ext_def)

lemma sample_messages_ok: "messages_ok sample_ext (sample_db fifo)"
proof -
  have "\<exists>i<4. ''0'' = show_nat i" by (rule exI[of _ 0]) (simp add: show_nat.simps digit_char_def)
  moreover have "\<exists>i<4. ''1'' = show_nat i" by (rule exI[of _ 1]) (simp add: show_nat.simps digit_char_def)
  moreover have "\<exists>i<4. ''2'' = show_nat i" by (rule exI[of _ 2]) (simp add: show_nat.simps digit_char_def)
  moreover have "\<exists>i<4. ''3'' = show_nat i" by (rule exI[of _ 3]) (simp add: show_nat.simps digit_char_def)
  ultimately show ?thesis
    by (simp add: messages_ok_def message_ok_def sample_db_def sample_message_def handle_before_def
        sample_uuid)
qed

lemma sample_queues_ok: "queues_ok (sample_db fifo)"
  by (cases fifo)
     (simp_all add: queues_ok_def sample_db_def sample_queue_def queue_row_ok_def valid_queue_name_def
       strip_suffix_def ends_with_def attrs_valid_def value_in_range_def int_attr_ranges_def fifo_flag_def
       is_alnum_def is_digit_def is_upper_def is_lower_def eq_ignore_ascii_case_def ascii_lowercase_def
       to_lower_def bt_ok_def)

lemma sample_read_eq: "get_queue sample_ext (q_name (sample_read fifo)) (sample_db fifo) = Inr (sample_read fifo)"
  by (cases fifo; simp add: sample_read_def sample_db_def sample_queue_def; code_simp)

lemma sample_db_ok [simp]: "sqs_ok sample_ext (sample_db fifo)"
  using sample_messages_ok sample_queues_ok by (simp add: sqs_ok_def dedup_ok_def sample_db_def)

lemma sample_read_ok [simp]:
  "snapshot_ok (sample_read fifo) (sample_db fifo)" "named_as (sample_read fifo) (sample_db fifo)"
  by (rule get_queue_snapshot[OF sample_queues_ok sample_read_eq],
      rule read_named_as[OF sample_queues_ok sample_read_eq])

lemma sample_sys_ok [simp]: "sqs_sys_ok sample_ext (sample_sys fifo)"
  by (simp add: sqs_sys_ok_def sample_sys_def)

lemma sample_attrs [simp]:
  "attr_i64 (sample_read fifo) ''MessageRetentionPeriod'' = 345600"
  "attr_i64 (sample_read fifo) ''VisibilityTimeout'' = 30"
  "attr_i64 (sample_read fifo) ''MaximumMessageSize'' = 262144"
  "attr_i64 (sample_read fifo) ''DelaySeconds'' = 0"
  by (simp_all add: sample_read_def attr_i64_def default_attr_def parse_i64_def parse_nat_def
      digits_value_def digit_val_def is_digit_def in_i64_def i64_min_def i64_max_def)

lemma sample_refresh [simp]: "refresh (sample_read fifo) 9 (sample_db fifo) = sample_db fifo"
  by (simp add: refresh_def sample_db_def sample_message_def sql_update_def sql_delete_def)

lemma sample_inflight [simp]: "inflight_groups (sample_read fifo) 9 (sample_db fifo) = {}"
  by (simp add: inflight_groups_def map_filter_def sample_db_def sample_message_def)

lemma sample_fifo [simp]: "is_fifo (sample_read fifo) = fifo"
  by (simp add: sample_read_def is_fifo_def attr_bool_def eq_ignore_ascii_case_def)

lemma sample_candidates [simp]:
  "candidates (sample_read fifo) 9 (sample_db fifo)
     = [sample_message 1 ''0'' ''a'' ''1'', sample_message 2 ''2'' ''b'' ''3'']"
  by (simp add: candidates_def sample_read_def sample_db_def sample_message_def)

lemma sample_dlq [simp]: "dead_letter_target sample_ext (sample_read fifo) db = None"
  by (simp add: dead_letter_target_def redrive_def sample_read_def)

lemma sample_plan [simp]:
  "plan_of sample_ext (sample_read False) (sample_opts 1) 9 (sample_db False)
     = [(sample_message 1 ''0'' ''a'' ''1'', Deliver)]"
  "plan_of sample_ext (sample_read True) (sample_opts 2) 9 (sample_db True)
     = [(sample_message 1 ''0'' ''a'' ''1'', Deliver), (sample_message 2 ''2'' ''b'' ''3'', Deliver)]"
  unfolding plan_of_def sample_refresh sample_candidates sample_dlq sample_inflight sample_fifo
  by (simp_all add: sample_opts_def group_blocked_def sample_message_def)

lemma sample_receive:
  "receive_tx sample_ext (sample_read fifo) opts 9 (sample_db fifo) =
     (Inr (plan_out sample_ext (sample_read fifo) opts 9 (sample_db fifo)),
      plan_db sample_ext (sample_read fifo) opts 9 (sample_db fifo))"
  by (rule receive_tx_plan(1)) simp_all

definition sample_delivery :: "bool \<Rightarrow> nat \<Rightarrow> string \<Rightarrow> string \<Rightarrow> received_message" where
  "sample_delivery fifo n mid b =
     \<lparr> rm_message_id = mid,
       rm_receipt_handle = new_receipt_handle sample_ext (q_name (sample_read fifo)) mid n,
       rm_body = b, rm_attributes = [], rm_message_attributes = [] \<rparr>"

lemma sample_uuid_ctr [simp]: "uuid_ctr (sample_db fifo) = 4"
  by (simp add: sample_db_def)

lemma sample_ids: "map m_message_id (sqs_messages (sample_db fifo)) = [''0'', ''2'']"
  by (simp add: sample_db_def sample_message_def)

lemma sample_queues: "sqs_queues (sample_db fifo) = [sample_queue fifo]"
  by (simp add: sample_db_def)

lemma sample_out [simp]:
  "plan_out sample_ext (sample_read False) (sample_opts 1) 9 (sample_db False)
     = [sample_delivery False 4 ''0'' ''a'']"
  "plan_out sample_ext (sample_read True) (sample_opts 2) 9 (sample_db True)
     = [sample_delivery True 4 ''0'' ''a'', sample_delivery True 6 ''2'' ''b'']"
  unfolding plan_out_def sample_plan sample_uuid_ctr
  by (simp_all add: received_def sample_delivery_def sample_message_def sample_opts_def
      system_attributes_def wants_def stored_attrs_def first_receive_def)

lemma sample_exec_receive:
  "sqs_exec sample_ext (QueueOp 0 (ReceiveMessage opts 9)) (sample_sys fifo) =
     (RReceived (Inr (plan_out sample_ext (sample_read fifo) opts 9 (sample_db fifo))),
      (sample_sys fifo)\<lparr> sys_db := plan_db sample_ext (sample_read fifo) opts 9 (sample_db fifo) \<rparr>)"
  by (simp add: sqs_exec_def sample_sys_def sample_receive)

text \<open>The first message received again once its timeout is over.\<close>

definition sample_redelivery :: sqs_message where
  "sample_redelivery =
     deliver_row (new_receipt_handle sample_ext ''jobs'' ''0'' 4) 1 9 9 30 (sample_message 1 ''0'' ''a'' ''1'')"

lemma sample_plan_db:
  "plan_db sample_ext (sample_read False) (sample_opts 1) 9 (sample_db False) =
     (sample_db False)\<lparr> sqs_messages := [sample_redelivery, sample_message 2 ''2'' ''b'' ''3''], uuid_ctr := 6 \<rparr>"
proof -
  have row: "plan_rows sample_ext (sample_read False) (sample_opts 1) 9 (sample_db False)
    = planned_row sample_ext (sample_read False) 0 9 30 [(sample_message 1 ''0'' ''a'' ''1'', Deliver, 4)]"
    unfolding plan_rows_def sample_refresh sample_dlq sample_plan sample_uuid_ctr
    by (simp add: dlq_id_def receive_vt_def) (simp add: sample_opts_def)
  show ?thesis
    unfolding plan_db_def row sample_refresh sample_plan sample_uuid_ctr
    by (simp add: sample_db_def planned_row_def sample_redelivery_def)
       (simp add: sample_message_def first_receive_def sample_read_def)
qed

lemma sample_refresh_again:
  "refresh (sample_read False) 30009 (plan_db sample_ext (sample_read False) (sample_opts 1) 9 (sample_db False)) =
     (sample_db False)\<lparr> sqs_messages := [sample_redelivery\<lparr> m_visible := True \<rparr>, sample_message 2 ''2'' ''b'' ''3''],
                        uuid_ctr := 6 \<rparr>"
  unfolding sample_plan_db refresh_def sample_attrs
  by (simp add: sql_update_def sql_delete_def sample_redelivery_def deliver_row_def
      sample_message_def sample_read_def sample_db_def)

lemma sample_plan_again:
  "plan_of sample_ext (sample_read False) (sample_opts 1) 30009
     (plan_db sample_ext (sample_read False) (sample_opts 1) 9 (sample_db False))
   = [(sample_redelivery\<lparr> m_visible := True \<rparr>, Deliver)]"
  unfolding plan_of_def sample_refresh_again sample_dlq sample_fifo
  by (simp add: candidates_def sample_redelivery_def sample_message_def deliver_row_def sample_read_def
      group_blocked_def sample_opts_def)

text \<open>A message sent to the FIFO sample queue.\<close>

definition sample_input :: "string \<Rightarrow> send_input" where
  "sample_input b =
     \<lparr> si_body = b, si_delay_seconds = None, si_attributes = [], si_system_attributes = [],
       si_group_id = Some ''g'', si_dedup_id = Some ''d'' \<rparr>"

lemma sample_send_check:
  "code_of c < 128 \<Longrightarrow> 32 \<le> code_of c \<Longrightarrow> send_check (sample_read fifo) (sample_input [c]) = Inr 0"
  unfolding send_check_def sample_attrs sample_fifo
  by (simp add: sample_input_def utf8_chars_def utf8_pieces.simps utf8_step_def code_point_def valid_body_char_def
      MAX_ATTRIBUTES_def message_size_def attrs_size_def)

lemma sample_decide:
  "\<exists>db2. fifo_decide sample_ext (sample_read True) (sample_input b) 9 (sample_db True)
     = FifoFresh ''d'' ''10000000000000000003'' db2"
  by (simp add: fifo_decide_def sample_input_def) 
     (simp add: sample_db_def sample_queue_def sample_read_def sql_update_def sequence_number_text_def
       show_padded_def show_nat.simps digit_char_def)

lemma sample_send:
  assumes "code_of c < 128" "32 \<le> code_of c"
  shows "\<exists>db'. send_tx sample_ext (sample_read True) (sample_input [c]) 9 (sample_db True)
    = (Inr (mk_outcome sample_ext (sample_input [c]) ''4'' (Some ''10000000000000000003'')), db')
    \<and> db' \<noteq> sample_db True"
proof -
  obtain db2 where dec: "fifo_decide sample_ext (sample_read True) (sample_input [c]) 9 (sample_db True)
     = FifoFresh ''d'' ''10000000000000000003'' db2" using sample_decide by blast
  note db2 = fifo_decide_fresh(1)[OF dec]
  have ok: "messages_ok sample_ext (db2\<lparr> uuid_ctr := 5 \<rparr>)"
    by (rule messages_ok_cong[OF sample_messages_ok[of True]]) (simp_all add: db2)
  have ctr: "uuid_ctr db2 = 4" by (simp add: db2)
  obtain db' where s: "send_tx sample_ext (sample_read True) (sample_input [c]) 9 (sample_db True)
      = (Inr (mk_outcome sample_ext (sample_input [c]) ''4'' (Some ''10000000000000000003'')), db')"
    and "uuid_ctr db' = 6"
    using insert_message_eq[OF sample_env ok]
    by (simp add: send_tx_def sample_send_check[OF assms] Let_def dec ctr sample_uuid show_nat.simps digit_char_def)
  moreover from this(2) have "db' \<noteq> sample_db True" by auto
  ultimately show ?thesis by blast
qed

text \<open>The standard sample queue without messages, and a message sent to it.\<close>

definition sample_empty :: sqs_db where
  "sample_empty = purge_queue_tx (sample_read False) (sample_db False)"

lemma sample_empty_ok [simp]:
  "sqs_ok sample_ext sample_empty" "snapshot_ok (sample_read False) sample_empty"
  "sqs_messages sample_empty = []" "uuid_ctr sample_empty = 4"
proof -
  show "sqs_ok sample_ext sample_empty" unfolding sample_empty_def by (rule purge_queue_ok) simp
  show "snapshot_ok (sample_read False) sample_empty"
    by (rule snapshot_mono[OF sample_read_ok(1)]) (simp add: sample_empty_def purge_queue_tx_def)
  show "sqs_messages sample_empty = []"
    by (simp add: sample_empty_def purge_queue_tx_def sql_delete_def sample_read_def sample_db_def sample_message_def)
  show "uuid_ctr sample_empty = 4" by (simp add: sample_empty_def purge_queue_tx_def)
qed

lemma sample_send_empty:
  "\<exists>db'. send_tx sample_ext (sample_read False) (sample_input ''x'') 9 sample_empty
    = (Inr (mk_outcome sample_ext (sample_input ''x'') ''4'' None), db') \<and> db' \<noteq> sample_empty"
proof -
  let ?r = "refresh (sample_read False) 9 sample_empty"
  have ok: "messages_ok sample_ext (?r\<lparr> uuid_ctr := 5 \<rparr>)"
    by (rule messages_ok_cong[where db = ?r])
       (use refresh_ok[OF sample_empty_ok(1)] in \<open>auto simp: sqs_ok_def\<close>)
  obtain db' where "send_tx sample_ext (sample_read False) (sample_input ''x'') 9 sample_empty
      = (Inr (mk_outcome sample_ext (sample_input ''x'') ''4'' None), db')" and "uuid_ctr db' = 6"
    using insert_message_eq[OF sample_env ok]
    by (simp add: send_tx_def sample_send_check Let_def sample_uuid show_nat.simps digit_char_def)
  moreover from this(2) have "db' \<noteq> sample_empty" by auto
  ultimately show ?thesis by blast
qed

end
