(* ===== verification/Sqs_Properties.thy ===== *)
theory Sqs_Properties
  imports Sqs_Samples
begin

text \<open>
  SQS, part 8: what clients of the queue service rely on, over the transactions and the state
  machine of the previous parts.  Witnesses run the machine from the empty database with
  \<open>sample_ext\<close>.
\<close>

subsection \<open>Rows after a receive\<close>

text \<open>The step of the plan for a row, with the first UUID it draws.\<close>

lemma plan_of_candidates:
  "(m, a) \<in> set (plan_of E q opts now db) \<Longrightarrow> m \<in> set (candidates q now (refresh q now db))"
  unfolding plan_of_def by (rule plan_set)

lemma set_candidates:
  "m \<in> set (candidates q now db) \<longleftrightarrow> m \<in> set (sqs_messages db) \<and> m_queue_id m = q_id q \<and> m_visible_at m \<le> now"
  by (simp add: candidates_def)

lemma in_stamp: "(m, a, n) \<in> set (stamp k p) \<Longrightarrow> (m, a) \<in> set p"
  by (induction k p rule: stamp.induct) auto

lemma plan_out_ids:
  "map rm_message_id (plan_out E q opts now db) = map m_message_id (delivered (plan_of E q opts now db))"
proof -
  have "map rm_message_id (map (planned_message E q opts now) (filter (\<lambda>(m, a, n). a = Deliver) (stamp k p)))
      = map m_message_id (delivered p)" for k p
    by (induction k p rule: stamp.induct) (simp_all add: received_def)
  then show ?thesis by (simp add: plan_out_def)
qed

lemma plan_rows_cases:
  assumes ok: "messages_ok E (refresh q now db)" and r: "r \<in> set (sqs_messages (refresh q now db))"
  obtains (kept) "plan_rows E q opts now db r = r" "r \<notin> fst ` set (plan_of E q opts now db)"
    | (acted) a n where "(r, a, n) \<in> set (stamp (uuid_ctr db) (plan_of E q opts now db))"
      "plan_rows E q opts now db r =
        action_row E q (dlq_id (dead_letter_target E q (refresh q now db))) now (receive_vt q opts) (r, a, n) r"
proof (cases "find (\<lambda>(m, a, n). m_id m = m_id r) (stamp (uuid_ctr db) (plan_of E q opts now db))")
  case None
  have "r \<notin> fst ` set (stamp (uuid_ctr db) (plan_of E q opts now db))"
    using None by (force simp: find_None_set)
  then have "r \<notin> fst ` set (plan_of E q opts now db)"
    by (metis list.set_map stamp_keys)
  with None that(1) show ?thesis by (simp add: plan_rows_def planned_row_def)
next
  case (Some s)
  obtain m a n where s: "s = (m, a, n)" by (cases s)
  from find_Some_set[OF Some] s have mem: "(m, a, n) \<in> set (stamp (uuid_ctr db) (plan_of E q opts now db))"
    and id: "m_id m = m_id r" by auto
  have "m \<in> set (sqs_messages (refresh q now db))"
    using plan_of_candidates[OF in_stamp[OF mem]] by (simp add: set_candidates)
  then have "m = r"
    using key_inject[of m_id, OF _ _ r id] ok by (simp add: messages_ok_def sorted_wrt_less_distinct)
  with that(2) mem Some s show ?thesis by (simp add: plan_rows_def planned_row_def)
qed

lemma plan_out_member:
  assumes "x \<in> set (plan_out E q opts now db)"
  obtains m n where "(m, Deliver, n) \<in> set (stamp (uuid_ctr db) (plan_of E q opts now db))"
    "x = received E q opts m (new_receipt_handle E (q_name q) (m_message_id m) n)
           (m_receive_count m + 1) (first_receive now m)"
  using assms by (auto simp: plan_out_def)

text \<open>The row of a message that has just been delivered.\<close>

lemma delivered_row:
  assumes env: "sqs_env E" and ok: "sqs_ok E db" and q: "snapshot_ok q db"
    and x: "x \<in> set (plan_out E q opts now db)"
  obtains m where "m \<in> set (candidates q now (refresh q now db))" "rm_message_id x = m_message_id m"
    "(m, Deliver) \<in> set (plan_of E q opts now db)"
    "plan_rows E q opts now db m = deliver_row (rm_receipt_handle x) (m_receive_count m + 1)
       (first_receive now m) now (receive_vt q opts) m"
    "plan_rows E q opts now db m \<in> set (sqs_messages (plan_db E q opts now db))"
    "\<exists>n mid. uuid_ctr db \<le> n \<and> Suc n < uuid_ctr (plan_db E q opts now db)
       \<and> rm_receipt_handle x = new_receipt_handle E (q_name q) mid n"
proof -
  from refresh_ok[OF ok] have r: "messages_ok E (refresh q now db)" by (simp add: sqs_ok_def)
  from x obtain m n where mem: "(m, Deliver, n) \<in> set (stamp (uuid_ctr db) (plan_of E q opts now db))"
    and xe: "x = received E q opts m (new_receipt_handle E (q_name q) (m_message_id m) n)
           (m_receive_count m + 1) (first_receive now m)" by (rule plan_out_member)
  have c: "m \<in> set (candidates q now (refresh q now db))"
    by (rule plan_of_candidates[OF in_stamp[OF mem]])
  then have t: "m \<in> set (sqs_messages (refresh q now db))" by (simp add: set_candidates)
  have dist: "distinct (map (m_id \<circ> fst) (stamp (uuid_ctr db) (plan_of E q opts now db)))"
  proof -
    have "sorted_wrt (<) (map m_id (candidates q now (refresh q now db)))"
      unfolding candidates_eq[OF r] by (rule messages_sorted[OF r])
    then have "distinct (map m_id (map fst (plan_of E q opts now db)))"
      by (metis plan_of_def plan_subseq subseq_map sorted_wrt_less_distinct subseq_conv_nths distinct_nthsI)
    then show ?thesis by (metis map_map stamp_keys)
  qed
  have "find (\<lambda>(m', a, n). m_id m' = m_id m) (stamp (uuid_ctr db) (plan_of E q opts now db)) = Some (m, Deliver, n)"
    using find_unique[OF dist mem] by (simp add: comp_def case_prod_unfold)
  then have row: "plan_rows E q opts now db m = deliver_row (rm_receipt_handle x) (m_receive_count m + 1)
       (first_receive now m) now (receive_vt q opts) m"
    by (simp add: plan_rows_def planned_row_def xe received_def)
  have "plan_rows E q opts now db m \<in> set (sqs_messages (plan_db E q opts now db))"
    using t by (simp add: plan_db_def)
  moreover have "\<exists>n mid. uuid_ctr db \<le> n \<and> Suc n < uuid_ctr (plan_db E q opts now db)
       \<and> rm_receipt_handle x = new_receipt_handle E (q_name q) mid n"
    using stamp_range[OF mem] by (auto simp: plan_db_def xe received_def)
  ultimately show ?thesis
    using that[OF c _ in_stamp[OF mem] row] xe by (simp add: received_def)
qed

subsection \<open>Exclusive delivery\<close>

text \<open>A message that exists and, wherever its row is, stays invisible until \<open>T\<close>.\<close>

definition hidden_until :: "externals \<Rightarrow> string \<Rightarrow> int \<Rightarrow> sqs_db \<Rightarrow> bool" where
  "hidden_until E mid T db \<longleftrightarrow>
     (\<exists>i<uuid_ctr db. mid = uuid_v4 E i)
     \<and> (\<forall>r\<in>set (sqs_messages db). m_message_id r = mid \<longrightarrow> T \<le> m_visible_at r)"

text \<open>Operations that neither change a visibility timeout nor receive at \<open>T\<close> or later.\<close>

fun quiet_before :: "int \<Rightarrow> sqs_op \<Rightarrow> bool" where
  "quiet_before T (QueueOp i (ChangeVisibility rh timeout now)) = False"
| "quiet_before T (QueueOp i (ReceiveMessage opts now)) = (now < T)"
| "quiet_before T x = True"

lemma hidden_rows:
  assumes "hidden_until E mid T db" "uuid_ctr db \<le> uuid_ctr db'"
    and "\<And>r'. r' \<in> set (sqs_messages db') \<Longrightarrow> m_message_id r' \<noteq> mid \<or>
           (\<exists>r\<in>set (sqs_messages db). m_message_id r' = m_message_id r \<and> m_visible_at r \<le> m_visible_at r')"
  shows "hidden_until E mid T db'"
proof -
  have "\<exists>i<uuid_ctr db'. mid = uuid_v4 E i"
    using assms(1,2) unfolding hidden_until_def by (blast intro: less_le_trans)
  moreover have "T \<le> m_visible_at r'" if "r' \<in> set (sqs_messages db')" "m_message_id r' = mid" for r'
    using assms(3)[OF that(1)] that(2) assms(1) unfolding hidden_until_def by fastforce
  ultimately show ?thesis by (simp add: hidden_until_def)
qed

lemma refresh_rows:
  assumes "r' \<in> set (sqs_messages (refresh q now db))"
  obtains r b where "r \<in> set (sqs_messages db)" "r' = r\<lparr> m_visible := b \<rparr>"
proof -
  from assms obtain r where "r \<in> set (sqs_messages db)" "r' = r \<or> (\<exists>b. r' = r\<lparr> m_visible := b \<rparr>)"
    by (auto simp: refresh_def Let_def set_sql_update)
  then show ?thesis using that[of r "m_visible r"] that[of r] by auto
qed

lemma refresh_rows_key:
  assumes "r' \<in> set (sqs_messages (refresh q now db))"
  shows "\<exists>r\<in>set (sqs_messages db). m_message_id r' = m_message_id r \<and> m_visible_at r \<le> m_visible_at r'"
  using assms by (rule refresh_rows) auto

lemma hidden_refresh: "hidden_until E mid T db \<Longrightarrow> hidden_until E mid T (refresh q now db)"
  by (erule hidden_rows) (simp_all add: refresh_rows_key)

lemma hidden_send:
  assumes env: "sqs_env E" and ok: "sqs_ok E db" and h: "hidden_until E mid T db"
    and s: "send_tx E q input now db = (res, db')"
  shows "hidden_until E mid T db'"
proof -
  have fresh: "uuid_v4 E (uuid_ctr db) \<noteq> mid"
    using h env by (auto simp: hidden_until_def sqs_env_def uuid_inject)
  note r = hidden_refresh[OF h, of q now]
  from env ok s show ?thesis
  proof (cases rule: send_tx_cases)
    case (standard delay)
    then show ?thesis
      using r fresh by (auto simp: hidden_until_def stored_db_def sent_row_def less_Suc_eq)
  next
    case (fifo delay dedup seq db2)
    then show ?thesis
      using r fresh fifo_decide_fresh(1)[OF fifo(3)]
      by (auto simp: hidden_until_def stored_db_def sent_row_def less_Suc_eq remember_dedup_def)
  qed (use h in simp_all)
qed

lemma hidden_receive:
  assumes env: "sqs_env E" and ok: "sqs_ok E db" and q: "snapshot_ok q db"
    and h: "hidden_until E mid T db" and t: "now < T"
    and s: "receive_tx E q opts now db = (res, db')"
  shows "hidden_until E mid T db' \<and> (\<forall>out. res = Inr out \<longrightarrow> mid \<notin> rm_message_id ` set out)"
proof -
  note plan = receive_tx_plan(1)[OF env ok q, of opts now]
  note r = hidden_refresh[OF h, of q now]
  from refresh_ok[OF ok] have m: "messages_ok E (refresh q now db)" by (simp add: sqs_ok_def)
  have away: "m_message_id c \<noteq> mid" if "c \<in> set (candidates q now (refresh q now db))" for c
    using r t that by (auto simp: hidden_until_def set_candidates)
  have "hidden_until E mid T (plan_db E q opts now db)"
  proof (rule hidden_rows[OF r])
    fix r' assume "r' \<in> set (sqs_messages (plan_db E q opts now db))"
    then obtain c where c: "c \<in> set (sqs_messages (refresh q now db))" "r' = plan_rows E q opts now db c"
      by (auto simp: plan_db_def)
    from m c(1) show "m_message_id r' \<noteq> mid \<or> (\<exists>r\<in>set (sqs_messages (refresh q now db)).
        m_message_id r' = m_message_id r \<and> m_visible_at r \<le> m_visible_at r')"
    proof (cases rule: plan_rows_cases[where opts = opts])
      case (acted a n)
      then show ?thesis using away plan_of_candidates[OF in_stamp[OF acted(1)]] c by simp
    qed (use c in auto)
  qed (simp add: plan_db_def)
  moreover have "mid \<notin> rm_message_id ` set (plan_out E q opts now db)"
  proof
    assume "mid \<in> rm_message_id ` set (plan_out E q opts now db)"
    then obtain x where x: "x \<in> set (plan_out E q opts now db)" "rm_message_id x = mid" by auto
    from delivered_row[OF env ok q x(1)] obtain c where
      "c \<in> set (candidates q now (refresh q now db))" "rm_message_id x = m_message_id c" by metis
    with away x(2) show False by auto
  qed
  ultimately show ?thesis using s plan by auto
qed

lemma hidden_subset:
  "hidden_until E mid T db \<Longrightarrow> uuid_ctr db' = uuid_ctr db \<Longrightarrow>
   set (sqs_messages db') \<subseteq> set (sqs_messages db) \<Longrightarrow> hidden_until E mid T db'"
  by (auto simp: hidden_until_def)

lemma hidden_queue_step:
  assumes env: "sqs_env E" and ok: "sqs_ok E db" and q: "snapshot_ok q db"
    and h: "hidden_until E mid T db" and quiet: "quiet_before T (QueueOp i act)"
    and x: "sqs_queue_exec E q act db = (r, db')"
  shows "hidden_until E mid T db' \<and> (\<forall>out. r = RReceived (Inr out) \<longrightarrow> mid \<notin> rm_message_id ` set out)"
proof (cases act)
  case (SetAttributes attrs now)
  with x obtain res where s: "set_attributes_tx E q attrs now db = (res, db')" by (auto dest: answered)
  then have "hidden_until E mid T db'"
    by (cases rule: set_attributes_cases) (auto intro: hidden_subset[OF h])
  with SetAttributes x s show ?thesis by auto
next
  case (SendMessage input now)
  with x obtain res where s: "send_tx E q input now db = (res, db')" by (auto dest: answered)
  with hidden_send[OF env ok h s] SendMessage x s show ?thesis by auto
next
  case (ReceiveMessage opts now)
  then have "now < T" using quiet by simp
  from hidden_receive[OF env ok q h this, of opts] ReceiveMessage x show ?thesis
    by (cases "receive_tx E q opts now db") auto
qed (use x h quiet in \<open>auto simp: delete_queue_tx_def purge_queue_tx_def tag_queue_tx_def
      untag_queue_tx_def write_tags_def get_attributes_tx_def delete_message_tx_def Let_def
      intro: hidden_refresh hidden_subset[OF h] split: if_splits option.splits\<close>)

lemma hidden_step:
  assumes env: "sqs_env E" and ok: "sqs_sys_ok E s" and h: "hidden_until E mid T (sys_db s)"
    and x: "quiet_before T x"
  shows "hidden_until E mid T (sys_db (snd (sqs_exec E x s)))
    \<and> (\<forall>out. fst (sqs_exec E x s) = RReceived (Inr out) \<longrightarrow> mid \<notin> rm_message_id ` set out)"
proof (cases x)
  case (ReadQueue n)
  with h show ?thesis by (auto simp: sqs_exec_def split: sum.splits)
next
  case (CreateQueue n u a t now)
  obtain res db' where c: "create_queue_tx E n u a t now (sys_db s) = (res, db')" by fastforce
  then have "hidden_until E mid T db'"
    by (cases rule: create_queue_cases) (auto intro: hidden_subset[OF h])
  with c show ?thesis by (simp add: CreateQueue sqs_exec_def)
next
  case (QueueOp i act)
  show ?thesis
  proof (cases "i < length (sys_reads s)")
    case True
    then have "sqs_ok E (sys_db s)" "snapshot_ok (sys_reads s ! i) (sys_db s)"
      using ok by (simp_all add: sqs_sys_ok_def)
    from hidden_queue_step[OF env this h, of i act] x QueueOp True show ?thesis
      by (cases "sqs_queue_exec E (sys_reads s ! i) act (sys_db s)") (simp add: sqs_exec_def)
  qed (use QueueOp h in \<open>simp add: sqs_exec_def\<close>)
qed

lemma received_hidden:
  assumes env: "sqs_env E" and ok: "sqs_ok E db" and q: "snapshot_ok q db"
    and s: "receive_tx E q opts now db = (Inr out, db')" and x: "x \<in> set out"
  shows "hidden_until E (rm_message_id x) (now + receive_vt q opts * 1000) db'"
proof -
  note plan = receive_tx_plan[OF env ok q, of opts now]
  from plan(1) s have out: "out = plan_out E q opts now db" and db': "db' = plan_db E q opts now db" by simp_all
  from plan(2) have m: "messages_ok E db'" by (simp add: db' sqs_ok_def)
  from delivered_row[OF env ok q x[unfolded out]] obtain c where c: "rm_message_id x = m_message_id c"
    "plan_rows E q opts now db c = deliver_row (rm_receipt_handle x) (m_receive_count c + 1)
       (first_receive now c) now (receive_vt q opts) c"
    "plan_rows E q opts now db c \<in> set (sqs_messages db')" by (metis db')
  let ?r = "plan_rows E q opts now db c"
  have r: "m_message_id ?r = rm_message_id x" "m_visible_at ?r = now + receive_vt q opts * 1000"
    using c(1,2) by (simp_all add: deliver_row_def)
  have "m_visible_at r' = now + receive_vt q opts * 1000"
    if "r' \<in> set (sqs_messages db')" "m_message_id r' = rm_message_id x" for r'
    using key_inject[of m_message_id "sqs_messages db'" r' ?r] m c(3) r that by (simp add: messages_ok_def)
  moreover have "\<exists>i<uuid_ctr db'. rm_message_id x = uuid_v4 E i"
    using m c(3) r(1) unfolding messages_ok_def message_ok_def by metis
  ultimately show ?thesis by (simp add: hidden_until_def)
qed

text \<open>
  C1: Exclusive delivery.  A message handed to one consumer is not handed to another one before its
  visibility timeout ends: whatever requests follow, in any interleaving and through any queue
  records read before or since, as long as none of them changes a visibility timeout, no receive
  that runs before the end of the timeout returns the message.
\<close>

theorem sqs_exclusive_delivery:
  assumes "sqs_env E" "sqs_sys_ok E s" "i < length (sys_reads s)"
    and "sqs_exec E (QueueOp i (ReceiveMessage opts now)) s = (RReceived (Inr out), s')" "x \<in> set out"
    and "\<forall>y\<in>set ops. quiet_before (now + receive_vt (sys_reads s ! i) opts * 1000) y"
  shows "\<forall>r\<in>set (fst (run_ops (sqs_exec E) ops s')).
    \<forall>out'. r = RReceived (Inr out') \<longrightarrow> rm_message_id x \<notin> rm_message_id ` set out'"
proof -
  let ?q = "sys_reads s ! i" and ?T = "now + receive_vt (sys_reads s ! i) opts * 1000"
  obtain res db' where r: "receive_tx E ?q opts now (sys_db s) = (res, db')" by fastforce
  with assms(3,4) have e: "res = Inr out" "s' = s\<lparr> sys_db := db' \<rparr>" by (simp_all add: sqs_exec_def)
  have "sqs_ok E (sys_db s)" "snapshot_ok ?q (sys_db s)"
    using assms(2,3) by (simp_all add: sqs_sys_ok_def)
  from received_hidden[OF assms(1) this r[unfolded e] assms(5)]
  have "hidden_until E (rm_message_id x) ?T (sys_db s')" by (simp add: e)
  moreover have "sqs_sys_ok E s'" using sqs_exec_ok[OF assms(1,2)] assms(4) by (metis snd_conv)
  ultimately show ?thesis
    using sqs.run_with[OF assms(1), where I = "\<lambda>s. hidden_until E (rm_message_id x) ?T (sys_db s)"
        and A = "quiet_before ?T" and s = s' and xs = ops
        and P = "\<lambda>r. \<forall>out'. r = RReceived (Inr out') \<longrightarrow> rm_message_id x \<notin> rm_message_id ` set out'"]
      hidden_step[OF assms(1)] assms(6) by blast
qed

theorem sqs_exclusive_delivery_witness:
  "list_all (\<lambda>r. case r of RReceived (Inr out') \<Rightarrow> ''0'' \<notin> rm_message_id ` set out' | _ \<Rightarrow> True)
     (fst (run_ops (sqs_exec sample_ext)
        [QueueOp 0 (ReceiveMessage (sample_opts 10) 29999), ReadQueue ''jobs'',
         QueueOp 1 (ReceiveMessage (sample_opts 10) 30000)]
        (snd (sqs_exec sample_ext (QueueOp 0 (ReceiveMessage (sample_opts 1) 9)) (sample_sys False)))))"
  (is "list_all _ (fst (run_ops _ ?ops ?s))")
proof -
  have x: "rm_message_id (sample_delivery False 4 ''0'' ''a'') = ''0''" by (simp add: sample_delivery_def)
  have "\<forall>r\<in>set (fst (run_ops (sqs_exec sample_ext) ?ops ?s)).
      \<forall>out'. r = RReceived (Inr out') \<longrightarrow> ''0'' \<notin> rm_message_id ` set out'"
    by (rule sqs_exclusive_delivery[of sample_ext "sample_sys False" 0 "sample_opts 1" 9
          "[sample_delivery False 4 ''0'' ''a'']" _ "sample_delivery False 4 ''0'' ''a''", unfolded x])
       (simp_all add: sample_exec_receive, simp_all add: sample_sys_def receive_vt_def sample_opts_def)
  then show ?thesis unfolding list_all_iff by (auto split: sqs_resp.splits sum.splits)
qed

subsection \<open>Order, redrive and conservation\<close>

text \<open>
  C2: Message groups.  A receive on a FIFO queue delivers, of every message group, an initial part
  of the group's visible messages in the order they were sent, and nothing of a group that has a
  message in flight.
\<close>

theorem sqs_fifo_order:
  assumes "sqs_env E" "sqs_ok E db" "snapshot_ok q db" "is_fifo q"
    and "receive_tx E q opts now db = (res, db')"
  shows "\<exists>outs ds. res = Inr outs
    \<and> map rm_message_id outs = map m_message_id ds
    \<and> (\<forall>g. prefix (filter (\<lambda>m. m_group_id m = Some g) ds)
               (filter (\<lambda>m. m_group_id m = Some g)
                  (filter (\<lambda>m. m_queue_id m = q_id q \<and> m_visible_at m \<le> now) (sqs_messages (refresh q now db)))))
    \<and> (\<forall>r\<in>set (sqs_messages (refresh q now db)). \<forall>g. m_queue_id r = q_id q \<and> now < m_visible_at r
         \<and> 0 < m_receive_count r \<and> m_group_id r = Some g \<longrightarrow> (\<forall>m\<in>set ds. m_group_id m \<noteq> Some g))"
proof -
  let ?ds = "delivered (plan_of E q opts now db)"
  have r: "messages_ok E (refresh q now db)" using refresh_ok[OF assms(2)] by (simp add: sqs_ok_def)
  have "prefix (filter (\<lambda>m. m_group_id m = Some g) ?ds)
      (filter (\<lambda>m. m_group_id m = Some g) (candidates q now (refresh q now db)))" for g
    using assms(4) by (simp add: plan_of_def plan_group_order)
  moreover have "m_group_id m \<noteq> Some g"
    if "r \<in> set (sqs_messages (refresh q now db))" "m_queue_id r = q_id q \<and> now < m_visible_at r
      \<and> 0 < m_receive_count r \<and> m_group_id r = Some g" "m \<in> set ?ds" for r g m
  proof
    assume g: "m_group_id m = Some g"
    from that(1,2) have "g \<in> inflight_groups q now (refresh q now db)"
      by (force simp: inflight_groups_def List.map_filter_def)
    moreover from that(3) have "(m, Deliver) \<in> set (plan_of E q opts now db)" by (simp add: set_delivered)
    ultimately show False
      using plan_not_blocked[of m Deliver] assms(4) g by (fastforce simp: plan_of_def group_blocked_def)
  qed
  ultimately show ?thesis
    using receive_tx_plan(1)[OF assms(1-3), of opts now] assms(5) plan_out_ids[of E q opts now db]
    by (intro exI[of _ "plan_out E q opts now db"] exI[of _ ?ds]) (simp flip: candidates_eq[OF r])
qed

theorem sqs_fifo_order_witness:
  "let db = sample_db True; q = sample_read True in
   \<exists>ds. map rm_message_id [sample_delivery True 4 ''0'' ''a'', sample_delivery True 6 ''2'' ''b''] = map m_message_id ds
    \<and> (\<forall>g. prefix (filter (\<lambda>m. m_group_id m = Some g) ds)
               (filter (\<lambda>m. m_group_id m = Some g)
                  (filter (\<lambda>m. m_queue_id m = q_id q \<and> m_visible_at m \<le> 9) (sqs_messages db))))"
proof -
  have "\<exists>outs ds. (Inr (plan_out sample_ext (sample_read True) (sample_opts 2) 9 (sample_db True)) :: (sqs_error, _) result) = Inr outs
    \<and> map rm_message_id outs = map m_message_id ds
    \<and> (\<forall>g. prefix (filter (\<lambda>m. m_group_id m = Some g) ds)
          (filter (\<lambda>m. m_group_id m = Some g) (filter (\<lambda>m. m_queue_id m = q_id (sample_read True) \<and> m_visible_at m \<le> 9)
            (sqs_messages (refresh (sample_read True) 9 (sample_db True))))))
    \<and> (\<forall>r\<in>set (sqs_messages (refresh (sample_read True) 9 (sample_db True))). \<forall>g. m_queue_id r = q_id (sample_read True) \<and> 9 < m_visible_at r
         \<and> 0 < m_receive_count r \<and> m_group_id r = Some g \<longrightarrow> (\<forall>m\<in>set ds. m_group_id m \<noteq> Some g))"
    by (rule sqs_fifo_order[OF _ _ _ _ sample_receive]) simp_all
  then show ?thesis unfolding Let_def sample_refresh sample_out by blast
qed

text \<open>
  What a receive does to the rows.  It adds and loses no message: the table after it has the
  same messages in the same order.  A message it returned has its receive count raised by one, a
  new handle and the visibility timeout, and its count was below the redrive limit.  A message
  whose count had reached the limit is moved to the dead-letter queue, visible at once, with its
  count reset and the source recorded, and is not returned.  Every other row is untouched.
\<close>

theorem sqs_receive_rows:
  assumes "sqs_env E" "sqs_ok E db" "snapshot_ok q db"
    and "receive_tx E q opts now db = (Inr out, db')"
  shows "map m_message_id (sqs_messages db') = map m_message_id (sqs_messages (refresh q now db))
    \<and> list_all2 (\<lambda>r r'.
        r' = r \<and> m_message_id r \<notin> rm_message_id ` set out
      \<or> (\<exists>x\<in>set out. rm_message_id x = m_message_id r \<and> m_queue_id r = q_id q \<and> m_visible_at r \<le> now
           \<and> (\<forall>d mx. dead_letter_target E q (refresh q now db) = Some (d, mx) \<longrightarrow> m_receive_count r < mx)
           \<and> r' = deliver_row (rm_receipt_handle x) (m_receive_count r + 1) (first_receive now r) now
                    (receive_vt q opts) r)
      \<or> (\<exists>d mx rh. dead_letter_target E q (refresh q now db) = Some (d, mx) \<and> mx \<le> m_receive_count r
           \<and> m_queue_id r = q_id q \<and> m_message_id r \<notin> rm_message_id ` set out
           \<and> r' = redrive_row (q_id d) now (sqs_queue_arn q) rh r))
      (sqs_messages (refresh q now db)) (sqs_messages db')"
  (is "_ \<and> list_all2 ?R _ _")
proof -
  from receive_tx_plan(1)[OF assms(1-3), of opts now] assms(4)
  have out: "out = plan_out E q opts now db" and db': "db' = plan_db E q opts now db" by simp_all
  let ?db = "refresh q now db" and ?p = "plan_of E q opts now db" and ?f = "plan_rows E q opts now db"
  have ok: "messages_ok E ?db" using refresh_ok[OF assms(2)] by (simp add: sqs_ok_def)
  have ids: "rm_message_id ` set out = m_message_id ` set (delivered ?p)"
    using plan_out_ids[of E q opts now db] unfolding out by (metis list.set_map)
  have same: "m = r" if "m \<in> set (sqs_messages ?db)" "r \<in> set (sqs_messages ?db)" "m_message_id m = m_message_id r" for m r
    using key_inject[of m_message_id, OF _ that] ok by (simp add: messages_ok_def)
  have deliv: "r \<in> set (delivered ?p)" if "r \<in> set (sqs_messages ?db)" "m_message_id r \<in> rm_message_id ` set out" for r
  proof -
    from that(2) obtain m where m: "m \<in> set (delivered ?p)" "m_message_id m = m_message_id r"
      unfolding ids by auto
    then have "m \<in> set (sqs_messages ?db)"
      by (auto simp: set_delivered set_candidates dest: plan_of_candidates)
    with same m that(1) show ?thesis by metis
  qed
  have "?R r (?f r)" if r: "r \<in> set (sqs_messages ?db)" for r
    using ok r
  proof (cases rule: plan_rows_cases[where opts = opts])
    case kept
    then have "r \<notin> set (delivered ?p)" by (force simp: set_delivered)
    with kept deliv[OF r] show ?thesis by auto
  next
    case (acted a n)
    note mem = in_stamp[OF acted(1)]
    have q: "m_queue_id r = q_id q" "m_visible_at r \<le> now"
      using plan_of_candidates[OF mem] by (simp_all add: set_candidates)
    note a = plan_action[OF mem[unfolded plan_of_def]]
    show ?thesis
    proof (cases a)
      case Deliver
      let ?x = "planned_message E q opts now (r, a, n)"
      have "?x \<in> set out" using acted(1) Deliver by (force simp: out plan_out_def)
      moreover have "m_receive_count r < mx" if "dead_letter_target E q ?db = Some (d, mx)" for d mx
        using a that Deliver by (simp split: if_splits)
      ultimately show ?thesis
        using acted(2) q Deliver by (intro disjI2 disjI1 bexI[of _ ?x]) (simp_all add: received_def)
    next
      case Redrive
      with a obtain d mx where d: "dead_letter_target E q ?db = Some (d, mx)" "mx \<le> m_receive_count r"
        by (auto split: if_splits option.splits)
      have "r \<notin> set (delivered ?p)"
      proof
        assume "r \<in> set (delivered ?p)"
        then have "(r, Deliver) \<in> set ?p" by (simp add: set_delivered)
        from plan_action[OF this[unfolded plan_of_def]] a Redrive show False by (simp split: if_splits)
      qed
      with deliv[OF r] have "m_message_id r \<notin> rm_message_id ` set out" by blast
      with acted(2) q d Redrive show ?thesis by (simp add: dlq_id_def) metis
    qed
  qed
  moreover have "m_message_id (?f r) = m_message_id r" for r by (simp add: plan_rows_def)
  ultimately show ?thesis by (simp add: db' plan_db_def list.rel_map list.rel_refl_strong)
qed

theorem sqs_receive_rows_witness:
  "map m_message_id (sqs_messages (plan_db sample_ext (sample_read False) (sample_opts 1) 9 (sample_db False)))
     = [''0'', ''2'']"
  using sqs_receive_rows[of sample_ext "sample_db False" "sample_read False" "sample_opts 1" 9, OF _ _ _ sample_receive]
  by (simp add: sample_ids)

subsection \<open>Acknowledging\<close>

lemma new_receipt_handle_nonempty: "sqs_env E \<Longrightarrow> new_receipt_handle E qn mid n \<noteq> []"
proof -
  assume "sqs_env E"
  obtain c r where "qn @ ''|'' @ mid @ ''|'' @ uuid_v4 E n @ ''|'' @ uuid_simple (uuid_v4 E (Suc n)) = c # r"
    by (cases qn) auto
  with \<open>sqs_env E\<close> show ?thesis
    unfolding new_receipt_handle_def sqs_env_def b64url_head_def by (metis list.discI)
qed

lemma handle_row:
  assumes "messages_ok E db" "r \<in> set (sqs_messages db)" "m_receipt_handle r = rh"
  shows "r' \<in> set (sqs_messages db) \<and> m_receipt_handle r' = rh \<longleftrightarrow> r' = r"
  using key_inject[of m_receipt_handle "sqs_messages db" r' r] assms by (auto simp: messages_ok_def)

text \<open>
  Acknowledgement.  Deleting with the handle of a message just received succeeds and removes
  that message and no other.
\<close>

theorem sqs_delete_received:
  assumes "sqs_env E" "sqs_ok E db" "snapshot_ok q db"
    and "receive_tx E q opts now db = (Inr out, db')" "x \<in> set out"
  shows "delete_message_tx E q (rm_receipt_handle x) db' =
    (Inr (), db'\<lparr> sqs_messages := filter (\<lambda>m. m_message_id m \<noteq> rm_message_id x) (sqs_messages db') \<rparr>)
    \<and> (\<exists>m\<in>set (sqs_messages db'). m_message_id m = rm_message_id x)"
proof -
  note plan = receive_tx_plan[OF assms(1-3), of opts now]
  from plan(1) assms(4) have out: "out = plan_out E q opts now db" and db': "db' = plan_db E q opts now db"
    by simp_all
  from plan(2) have ok: "messages_ok E db'" by (simp add: db' sqs_ok_def)
  from delivered_row[OF assms(1-3) assms(5)[unfolded out]] obtain c where
    c: "c \<in> set (candidates q now (refresh q now db))" "rm_message_id x = m_message_id c"
    "plan_rows E q opts now db c = deliver_row (rm_receipt_handle x) (m_receive_count c + 1)
       (first_receive now c) now (receive_vt q opts) c"
    "plan_rows E q opts now db c \<in> set (sqs_messages db')" by (metis db')
  let ?r = "plan_rows E q opts now db c"
  have r: "m_message_id ?r = rm_message_id x" "m_queue_id ?r = q_id q" "m_receipt_handle ?r = rm_receipt_handle x"
    using c by (simp_all add: deliver_row_def set_candidates)
  have match: "m_queue_id m = q_id q \<and> m_receipt_handle m = rm_receipt_handle x \<longleftrightarrow> m_message_id m = rm_message_id x"
    if "m \<in> set (sqs_messages db')" for m
    using handle_row[OF ok c(4) r(3), of m] key_inject[of m_message_id "sqs_messages db'" m ?r] ok c(4) r that
    by (auto simp: messages_ok_def)
  then have "sql_delete (\<lambda>m. m_queue_id m = q_id q \<and> m_receipt_handle m = rm_receipt_handle x) (sqs_messages db')
      = filter (\<lambda>m. m_message_id m \<noteq> rm_message_id x) (sqs_messages db')"
    unfolding sql_delete_def by (intro filter_cong) simp_all
  moreover have "sql_count (\<lambda>m. m_queue_id m = q_id q \<and> m_receipt_handle m = rm_receipt_handle x) (sqs_messages db') \<noteq> 0"
    using c(4) r by (auto simp: sql_count_def filter_empty_conv)
  moreover have "rm_receipt_handle x \<noteq> []"
    by (rule delivered_row[OF assms(1-3) assms(5)[unfolded out]])
       (metis new_receipt_handle_nonempty[OF assms(1)])
  ultimately show ?thesis using c(4) r(1) by (auto simp: delete_message_tx_def Let_def)
qed

theorem sqs_delete_received_witness:
  "let db' = plan_db sample_ext (sample_read False) (sample_opts 1) 9 (sample_db False);
       rh = rm_receipt_handle (sample_delivery False 4 ''0'' ''a'')
   in delete_message_tx sample_ext (sample_read False) rh db' =
        (Inr (), db'\<lparr> sqs_messages := filter (\<lambda>m. m_message_id m \<noteq> ''0'') (sqs_messages db') \<rparr>)"
  using sqs_delete_received[of sample_ext "sample_db False" "sample_read False" "sample_opts 1" 9,
      OF _ _ _ sample_receive, of "sample_delivery False 4 ''0'' ''a''"]
  by (simp add: Let_def sample_delivery_def[of False 4])

text \<open>
  C3: A handle is good for one delivery.  When a message has been received again, deleting with the
  handle of the first delivery, through whatever queue record, removes nothing.
\<close>

theorem sqs_stale_handle:
  assumes "sqs_env E" "sqs_ok E db" "snapshot_ok q db" "snapshot_ok q' db"
    and "receive_tx E q opts now db = (Inr out, db1)" "x \<in> set out"
    and "receive_tx E q' opts' now' db1 = (Inr out', db2)" "x' \<in> set out'"
    and "rm_message_id x' = rm_message_id x"
  shows "snd (delete_message_tx E q'' (rm_receipt_handle x) db2) = db2"
proof -
  have p1: "out = plan_out E q opts now db" "db1 = plan_db E q opts now db"
    using receive_tx_plan(1)[OF assms(1-3), of opts now] assms(5) by simp_all
  have ok1: "sqs_ok E db1" using receive_tx_plan(2)[OF assms(1-3), of opts now] by (simp add: p1)
  have q': "snapshot_ok q' db1" using assms(4) by (simp add: snapshot_ok_def p1 plan_db_def)
  have p2: "out' = plan_out E q' opts' now' db1" "db2 = plan_db E q' opts' now' db1"
    using receive_tx_plan(1)[OF assms(1) ok1 q', of opts' now'] assms(7) by simp_all
  have ok2: "messages_ok E db2" using receive_tx_plan(2)[OF assms(1) ok1 q', of opts' now']
    by (simp add: p2 sqs_ok_def)
  let ?rh = "rm_receipt_handle x"
  obtain c where c: "rm_message_id x = m_message_id c" "plan_rows E q opts now db c \<in> set (sqs_messages db1)"
    "m_receipt_handle (plan_rows E q opts now db c) = ?rh"
    by (rule delivered_row[OF assms(1-3) assms(6)[unfolded p1]]) (auto simp: p1 deliver_row_def)
  have rh: "handle_before E (uuid_ctr db1) ?rh"
    using ok1 c(2,3) unfolding sqs_ok_def messages_ok_def message_ok_def by metis
  have asc: "ascii_start (q_name q')" using assms(4) by (simp add: snapshot_ok_def valid_queue_name_ascii)
  have newer: "new_receipt_handle E (q_name q') mid n \<noteq> ?rh" "''pending-'' @ uuid_v4 E n \<noteq> ?rh"
    if "uuid_ctr db1 \<le> n" for mid n
    using issued_unused[OF assms(1) handle_before_mono[OF rh that] asc, of mid]
      pending_unused[OF assms(1) handle_before_mono[OF rh that]] by auto
  have "m_receipt_handle r \<noteq> ?rh" if r2: "r \<in> set (sqs_messages db2)" for r
  proof -
    from r2 obtain d where d: "d \<in> set (sqs_messages (refresh q' now' db1))" "r = plan_rows E q' opts' now' db1 d"
      by (auto simp: p2 plan_db_def)
    have okr: "messages_ok E (refresh q' now' db1)" using refresh_ok[OF ok1] by (simp add: sqs_ok_def)
    from okr d(1) show ?thesis
    proof (cases rule: plan_rows_cases[where opts = opts'])
      case (acted a n)
      have "uuid_ctr db1 \<le> n" using stamp_range[OF acted(1)] by simp
      from newer[OF this] acted(2) d(2) show ?thesis
        by (cases a) (simp_all add: deliver_row_def redrive_row_def)
    next
      case kept
      show ?thesis
      proof
        assume h: "m_receipt_handle r = ?rh"
        from d(1) obtain e b where e: "e \<in> set (sqs_messages db1)" "d = e\<lparr> m_visible := b \<rparr>" by (rule refresh_rows)
        then have "m_receipt_handle e = ?rh" using kept(1) d(2) h by simp
        with e(1) handle_row[OF _ c(2,3), of E e] ok1 have "m_message_id e = m_message_id c"
          by (simp add: sqs_ok_def plan_rows_def)
        then have "m_message_id d = rm_message_id x'" using e(2) assms(9) c(1) by simp
        moreover obtain f where f: "f \<in> set (candidates q' now' (refresh q' now' db1))" "rm_message_id x' = m_message_id f"
          "(f, Deliver) \<in> set (plan_of E q' opts' now' db1)"
          by (rule delivered_row[OF assms(1) ok1 q' assms(8)[unfolded p2]])
        ultimately have "f = d"
          using key_inject[of m_message_id "sqs_messages (refresh q' now' db1)" f d] okr d(1)
          by (simp add: messages_ok_def set_candidates)
        with f(3) kept(2) show False by force
      qed
    qed
  qed
  then have "sql_delete (\<lambda>m. m_queue_id m = q_id q'' \<and> m_receipt_handle m = ?rh) (sqs_messages db2) = sqs_messages db2"
    by (auto simp: sql_delete_def filter_id_conv)
  then show ?thesis by (simp add: delete_message_tx_def Let_def)
qed

theorem sqs_stale_handle_witness:
  "snd (delete_message_tx sample_ext (sample_read False) (new_receipt_handle sample_ext ''jobs'' ''0'' 4)
     (snd (receive_tx sample_ext (sample_read False) (sample_opts 1) 30009
        (snd (receive_tx sample_ext (sample_read False) (sample_opts 1) 9 (sample_db False))))))
   = snd (receive_tx sample_ext (sample_read False) (sample_opts 1) 30009
        (snd (receive_tx sample_ext (sample_read False) (sample_opts 1) 9 (sample_db False))))"
proof -
  let ?q = "sample_read False" and ?o = "sample_opts 1"
  let ?x = "sample_delivery False 4 ''0'' ''a''"
  let ?db1 = "plan_db sample_ext ?q ?o 9 (sample_db False)"
  have ok1: "sqs_ok sample_ext ?db1" by (rule receive_tx_plan(2)) simp_all
  have q1: "snapshot_ok ?q ?db1" using sample_read_ok(1)[of False] by (simp add: snapshot_ok_def plan_db_def)
  note again = receive_tx_plan(1)[OF sample_env ok1 q1, of ?o 30009]
  obtain x' where x': "x' \<in> set (plan_out sample_ext ?q ?o 30009 ?db1)" "rm_message_id x' = rm_message_id ?x"
    using plan_out_ids[of sample_ext ?q ?o 30009 ?db1] unfolding sample_plan_again
    by (auto simp: map_eq_Cons_conv sample_redelivery_def deliver_row_def sample_message_def sample_delivery_def)
  have "snd (delete_message_tx sample_ext ?q (rm_receipt_handle ?x) (plan_db sample_ext ?q ?o 30009 ?db1))
      = plan_db sample_ext ?q ?o 30009 ?db1"
    by (rule sqs_stale_handle[of sample_ext "sample_db False" ?q ?q ?o 9 _ _ ?x, OF _ _ _ _ sample_receive _ again x'])
       simp_all
  then show ?thesis by (simp add: sample_receive again) (simp add: sample_delivery_def sample_read_def)
qed

end
