(* ===== verification/Paging.thy ===== *)
theory Paging
  imports Service
begin

text \<open>
  Prelude, part 5: listing in pages.  A client asks for the first page, then for the page of every
  continuation token, until a page has none.  The locale \<open>pager\<close> is the contract of a paged
  listing: tokens stand for positions, a page continues where its token says, and only the last
  page has no token.  The client then collects every item exactly once and in order.
\<close>

fun collect_pages ::
    "nat \<Rightarrow> ('t option \<Rightarrow> ('e, 'a list \<times> 't option) result) \<Rightarrow> 't option \<Rightarrow> 'a list option" where
  "collect_pages 0 page t = None"
| "collect_pages (Suc fuel) page t =
     (case page t of
        Inl e \<Rightarrow> None
      | Inr (xs, None) \<Rightarrow> Some xs
      | Inr (xs, Some u) \<Rightarrow> map_option ((@) xs) (collect_pages fuel page (Some u)))"

locale pager =
  fixes ok :: "'env \<Rightarrow> bool"
    and page :: "'env \<Rightarrow> 't option \<Rightarrow> ('e, 'a list \<times> 't option) result"
    and items :: "'env \<Rightarrow> 'a list"
    and at :: "'env \<Rightarrow> 't option \<Rightarrow> nat \<Rightarrow> bool"
  assumes at_start: "ok v \<Longrightarrow> at v None 0"
    and page_at: "ok v \<Longrightarrow> at v t i \<Longrightarrow>
      \<exists>xs u. page v t = Inr (xs, u) \<and> xs = take (length xs) (drop i (items v))
        \<and> (if u = None then i + length xs = length (items v) \<or> length (items v) \<le> i
           else xs \<noteq> [] \<and> at v u (i + length xs))"
begin

lemma collect_from:
  assumes "ok v" "at v t i" "length (items v) - i < fuel"
  shows "collect_pages fuel (page v) t = Some (drop i (items v))"
  using assms(2,3)
proof (induction fuel arbitrary: t i)
  case (Suc fuel)
  from page_at[OF assms(1) Suc.prems(1)] obtain xs u where
    p: "page v t = Inr (xs, u)" and xs: "xs = take (length xs) (drop i (items v))"
    and u: "if u = None then i + length xs = length (items v) \<or> length (items v) \<le> i
            else xs \<noteq> [] \<and> at v u (i + length xs)" by blast
  show ?case
  proof (cases u)
    case None
    with u have "i + length xs = length (items v) \<or> length (items v) \<le> i" by simp
    then have "xs = drop i (items v)" using xs by auto
    with p None show ?thesis by simp
  next
    case (Some w)
    with u have ne: "xs \<noteq> []" and "at v (Some w) (i + length xs)" by simp_all
    moreover have "length xs \<le> length (items v) - i" by (subst xs) simp
    ultimately have "collect_pages fuel (page v) (Some w) = Some (drop (i + length xs) (items v))"
      using Suc.prems(2) by (intro Suc.IH) (simp_all, cases xs, simp_all)
    moreover have "xs @ drop (length xs) (drop i (items v)) = drop i (items v)"
      by (subst (1) xs) (rule append_take_drop_id)
    ultimately show ?thesis using p Some by (simp add: add.commute)
  qed
qed simp

lemma collect_all: "ok v \<Longrightarrow> length (items v) < fuel \<Longrightarrow> collect_pages fuel (page v) None = Some (items v)"
  using collect_from[of v None 0 fuel] at_start by simp

end

end
