(* ===== verification/Sqs_Guarantees.thy ===== *)
theory Sqs_Guarantees
  imports Sqs_Properties Paging
begin

text \<open>
  SQS, part 9: further guarantees of the queue service: every reachable state, deduplication, the
  path of a message from producer to consumer, long polling, and the paged queue listing, which
  interprets the contract \<open>pager\<close>.
\<close>

subsection \<open>Listing queues\<close>

type_synonym listing = "externals \<times> string \<times> string \<times> int \<times> sqs_db"

definition listed_names :: "string \<Rightarrow> sqs_db \<Rightarrow> string list" where
  "listed_names pre db = filter (\<lambda>n. starts_with n pre) (sort (map qr_name (sqs_queues db)))"

fun listing_ok :: "listing \<Rightarrow> bool" where
  "listing_ok (E, base, pre, m, db) \<longleftrightarrow> sqs_env E \<and> queues_ok db \<and> 1 \<le> m \<and> m \<le> 1000"

fun listing_page :: "listing \<Rightarrow> string option \<Rightarrow> (sqs_error, string list \<times> string option) result" where
  "listing_page (E, base, pre, m, db) t = list_queues E base pre (Some m) t db"

fun listing_items :: "listing \<Rightarrow> string list" where
  "listing_items (E, base, pre, m, db) = map (queue_url base) (listed_names pre db)"

fun listing_at :: "listing \<Rightarrow> string option \<Rightarrow> nat \<Rightarrow> bool" where
  "listing_at (E, base, pre, m, db) t i \<longleftrightarrow>
     (t = None \<and> i = 0)
     \<or> (0 < i \<and> i \<le> length (listed_names pre db) \<and> t = Some (b64url_encode E (listed_names pre db ! (i - 1))))"

lemma listed_names_sorted: "queues_ok db \<Longrightarrow> sorted_wrt (<) (listed_names pre db)"
  unfolding listed_names_def queues_ok_def
  by (intro sorted_wrt_filter) (simp add: strict_sorted_iff)

lemma listed_names_valid: "queues_ok db \<Longrightarrow> n \<in> set (listed_names pre db) \<Longrightarrow> valid_queue_name n"
  by (auto simp: listed_names_def queues_ok_def queue_row_ok_def)

lemma valid_queue_name_utf8: "valid_queue_name n \<Longrightarrow> utf8_valid n"
proof (rule utf8_valid_ascii)
  assume v: "valid_queue_name n"
  have alnum: "code_of c < 128" if "is_alnum c \<or> c = CHR ''-'' \<or> c = CHR ''_''" for c
    using that by (auto dest: is_alnum_ascii)
  show "list_all (\<lambda>c. code_of c < 128) n"
  proof (cases "strip_suffix ''.fifo'' n")
    case None
    with v alnum show ?thesis by (auto simp: valid_queue_name_def list_all_iff)
  next
    case (Some b)
    then have "n = b @ ''.fifo''"
      by (auto simp: strip_suffix_def ends_with_def split: if_splits)
         (metis append_take_drop_id)
    with v Some alnum show ?thesis by (auto simp: valid_queue_name_def list_all_iff)
  qed
qed

lemma sorted_position:
  fixes xs :: "string list"
  assumes "sorted_wrt (<) xs" "0 < i" "i \<le> length xs"
  shows "length (takeWhile (\<lambda>x. \<not> xs ! (i - 1) < x) xs) = i"
proof (rule takeWhile_eq_take_P_nth[THEN arg_cong[where f = length], THEN trans])
  fix j assume "j < i" "j < length xs"
  show "\<not> xs ! (i - 1) < xs ! j"
  proof (cases "j = i - 1")
    case False
    then have "j < i - 1" "i - 1 < length xs" using \<open>j < i\<close> assms by auto
    from sorted_wrt_nth_less[OF assms(1) this] show ?thesis by (simp add: less_asym)
  qed simp
next
  assume "i < length xs"
  then show "\<not> \<not> xs ! (i - 1) < xs ! i"
    using assms sorted_wrt_nth_less[OF assms(1), of "i - 1" i] by simp
qed (use assms in simp)

lemma listing_start:
  assumes env: "sqs_env E" and q: "queues_ok db" and at: "listing_at (E, base, pre, m, db) t i"
  shows "page_start E (listed_names pre db) t = Inr i"
proof (cases t)
  case None
  with at show ?thesis by (simp add: page_start_def)
next
  case (Some tok)
  let ?ns = "listed_names pre db" and ?n = "listed_names pre db ! (i - 1)"
  from at Some have i: "0 < i" "i \<le> length ?ns" and tok: "tok = b64url_encode E ?n" by simp_all
  then have v: "valid_queue_name ?n" by (intro listed_names_valid[OF q, of _ pre] nth_mem) simp
  then obtain c r where "?n = c # r" using valid_queue_name_nonempty by (cases ?n) auto
  then have "tok \<noteq> []" using env unfolding tok sqs_env_def b64url_head_def by (metis list.discI)
  moreover have "b64url_decode E tok = Some ?n"
    using env by (simp add: tok sqs_env_def b64url_roundtrip_def)
  ultimately show ?thesis
    using sorted_position[OF listed_names_sorted[OF q] i] valid_queue_name_utf8[OF v]
    by (simp add: page_start_def Some)
qed

interpretation listing: pager listing_ok listing_page listing_items listing_at
proof unfold_locales
  fix v :: listing
  assume "listing_ok v"
  then show "listing_at v None 0" by (cases v) simp
next
  fix v :: listing and t i
  assume ok: "listing_ok v" and at: "listing_at v t i"
  obtain E base pre m db where v: "v = (E, base, pre, m, db)" by (cases v)
  let ?ns = "listed_names pre db"
  let ?page = "take (nat m) (drop i ?ns)"
  let ?u = "if i + length ?page < length ?ns then Some (b64url_encode E (last ?page)) else None"
  have ok': "sqs_env E" "queues_ok db" "1 \<le> m" "m \<le> 1000" using ok v by simp_all
  note start = listing_start[OF ok'(1,2) at[unfolded v]]
  have ne: "?page \<noteq> []" if "i + length ?page < length ?ns" using that ok'(3) by auto
  then have page: "listing_page v t = Inr (map (queue_url base) ?page, ?u)"
    using ok' start by (simp add: v list_queues_def paginate_def page_limit_def Let_def flip: listed_names_def)
      arith
  show "\<exists>xs u. listing_page v t = Inr (xs, u) \<and> xs = take (length xs) (drop i (listing_items v))
        \<and> (if u = None then i + length xs = length (listing_items v) \<or> length (listing_items v) \<le> i
           else xs \<noteq> [] \<and> listing_at v u (i + length xs))"
  proof (intro exI conjI)
    show "listing_page v t = Inr (map (queue_url base) ?page, ?u)" by (rule page)
    show "map (queue_url base) ?page
        = take (length (map (queue_url base) ?page)) (drop i (listing_items v))"
      by (simp add: v take_map drop_map min_def)
    show "if ?u = None then i + length (map (queue_url base) ?page) = length (listing_items v) \<or> length (listing_items v) \<le> i
           else map (queue_url base) ?page \<noteq> [] \<and> listing_at v ?u (i + length (map (queue_url base) ?page))"
    proof (cases "i + length ?page < length ?ns")
      case True
      then have "last ?page = ?ns ! (i + length ?page - 1)"
        using ne[OF True] by (simp add: last_conv_nth nth_append)
      with True ne[OF True] show ?thesis by (auto simp: v)
    qed (auto simp: v min_def split: if_splits)
  qed
qed

text \<open>
  Listing is complete.  A client that follows the continuation tokens of ListQueues, with any
  page size from 1 to 1000, ends and has collected the URL of every queue whose name starts with
  the given prefix, once each, in order of name.
\<close>

theorem sqs_list_queues_complete:
  assumes "sqs_env E" "sqs_ok E db" "1 \<le> m" "m \<le> 1000" "length (sqs_queues db) < fuel"
  shows "collect_pages fuel (\<lambda>t. list_queues E base pre (Some m) t db) None
    = Some (map (queue_url base) (filter (\<lambda>n. starts_with n pre) (sort (map qr_name (sqs_queues db)))))"
proof -
  have "length (listing_items (E, base, pre, m, db)) < fuel"
    using assms(5) by (simp add: listed_names_def le_less_trans[OF length_filter_le])
  moreover have "listing_page (E, base, pre, m, db) = (\<lambda>t. list_queues E base pre (Some m) t db)"
    by (rule ext) simp
  ultimately show ?thesis
    using listing.collect_all[of "(E, base, pre, m, db)" fuel] assms
    by (simp add: sqs_ok_def listed_names_def)
qed

theorem sqs_list_queues_complete_witness:
  "collect_pages 2 (\<lambda>t. list_queues sample_ext ''http://h/'' ''jo'' (Some 1) t (sample_db False)) None
    = Some [''http://h/000000000000/jobs'']"
  using sqs_list_queues_complete[of sample_ext "sample_db False" 1 2 "''http://h/''" "''jo''"]
  by (simp add: sample_queues sample_queue_def starts_with_def queue_url_def ACCOUNT_ID_def
      trim_end_char_def)

subsection \<open>Every reachable state\<close>

text \<open>
  C4: Whatever requests are made, in whatever interleaving: queue names, message ids and receipt
  handles are unique, every queue's stored integer attributes are in the documented range, a queue
  is a FIFO queue exactly when its name ends with .fifo, and no receive ever fails (in particular
  never on the uniqueness of receipt handles).
\<close>

theorem sqs_reachable_states:
  assumes "sqs_env E"
  shows "let (rs, s) = run_ops (sqs_exec E) ops sqs_sys_init; db = sys_db s in
    distinct (map qr_name (sqs_queues db)) \<and> distinct (map m_message_id (sqs_messages db))
    \<and> distinct (map m_receipt_handle (sqs_messages db))
    \<and> list_all (\<lambda>r. attrs_valid (qr_attributes r)
         \<and> (fifo_flag (qr_attributes r) \<longleftrightarrow> ends_with (qr_name r) ''.fifo'')) (sqs_queues db)
    \<and> (\<forall>e. RReceived (Inl e) \<notin> set rs)"
proof -
  let ?run = "run_ops (sqs_exec E) ops sqs_sys_init"
  have ok: "sqs_ok E (sys_db (snd ?run))"
    using sqs.inv_reached[OF assms, of ops] by (simp add: sqs_sys_ok_def)
  have "(\<forall>e. fst (sqs_exec E x s) \<noteq> RReceived (Inl e))" if s: "sqs_sys_ok E s" for s x
  proof (cases "\<exists>i opts now. x = QueueOp i (ReceiveMessage opts now) \<and> i < length (sys_reads s)")
    case True
    then obtain i opts now where x: "x = QueueOp i (ReceiveMessage opts now)" "i < length (sys_reads s)" by blast
    with s have "sqs_ok E (sys_db s)" "snapshot_ok (sys_reads s ! i) (sys_db s)" by (simp_all add: sqs_sys_ok_def)
    from receive_tx_plan(1)[OF assms this] x show ?thesis by (simp add: sqs_exec_def)
  next
    case False
    show ?thesis
    proof (cases x)
      case (QueueOp i act)
      with False show ?thesis
        by (cases act) (auto simp: sqs_exec_def map_prod_def split: prod.splits)
    qed (simp_all add: sqs_exec_def split: prod.splits)
  qed
  then have "\<forall>r\<in>set (fst ?run). \<forall>e. r \<noteq> RReceived (Inl e)"
    using sqs.run_with[OF assms, of "\<lambda>_. True" "\<lambda>_. True" "\<lambda>r. \<forall>e. r \<noteq> RReceived (Inl e)" sqs_sys_init ops]
      sqs.inv_init[OF assms] by simp
  with ok show ?thesis
    by (auto simp: Let_def split_beta sqs_ok_def queues_ok_def messages_ok_def queue_row_ok_def list_all_iff)
qed

theorem sqs_reachable_states_witness:
  "let (rs, s) = run_ops (sqs_exec sample_ext)
        [CreateQueue ''a.fifo'' ''u'' [(''FifoQueue'', ''true'')] [] 9, ReadQueue ''a.fifo'',
         QueueOp 0 (ReceiveMessage (sample_opts 1) 10), QueueOp 0 DeleteQueue] sqs_sys_init; db = sys_db s in
    distinct (map qr_name (sqs_queues db)) \<and> distinct (map m_message_id (sqs_messages db))
    \<and> distinct (map m_receipt_handle (sqs_messages db))
    \<and> list_all (\<lambda>r. attrs_valid (qr_attributes r)
         \<and> (fifo_flag (qr_attributes r) \<longleftrightarrow> ends_with (qr_name r) ''.fifo'')) (sqs_queues db)
    \<and> (\<forall>e. RReceived (Inl e) \<notin> set rs)"
  by (rule sqs_reachable_states) simp

subsection \<open>Long polling\<close>

lemma poll_loop_mono:
  "poll_loop fuel E name opts deadline wall instant others i db = Some r \<Longrightarrow> fuel \<le> fuel' \<Longrightarrow>
   poll_loop fuel' E name opts deadline wall instant others i db = Some r"
proof (induction fuel arbitrary: fuel' i db)
  case (Suc fuel)
  then obtain k where "fuel' = Suc k" "fuel \<le> k" by (cases fuel') auto
  with Suc show ?case by (auto simp: Let_def split: sum.splits prod.splits if_splits)
qed simp

lemma poll_loop_returns:
  "deadline \<le> instant n \<Longrightarrow> i \<le> n \<Longrightarrow> n - i < fuel \<Longrightarrow>
   poll_loop fuel E name opts deadline wall instant others i db \<noteq> None"
proof (induction fuel arbitrary: i db)
  case (Suc fuel)
  show ?case
  proof (cases "i = n")
    case True
    with Suc.prems show ?thesis by (auto simp: Let_def split: sum.splits prod.splits)
  next
    case False
    with Suc show ?thesis by (auto simp: Let_def split: sum.splits prod.splits)
  qed
qed simp

lemma sleeping_clock:
  assumes "start \<le> instant 0" "\<forall>i. min deadline (instant i + 100) \<le> instant (Suc i)"
  shows "min deadline (start + 100 * int i) \<le> instant i"
proof (induction i)
  case (Suc i)
  with assms(2)[rule_format, of i] show ?case by (simp add: algebra_simps min_def split: if_splits)
qed (use assms(1) in simp)

text \<open>
  C7: A receive returns.  However long the clock takes, as long as sleeping lets the time asked for
  pass (the rest of the wait, but at most 100 ms), ReceiveMessage polls the table at most 201 times
  and then has a result, whatever other requests do in between.
\<close>

theorem sqs_receive_returns:
  assumes "receive_check E queue opts db = Inr (q, wait)" "start \<le> instant 0"
    and "\<forall>i. min (start + wait * 1000) (instant i + 100) \<le> instant (Suc i)"
  shows "\<exists>res. \<forall>fuel\<ge>201. receive fuel E queue opts start wall instant others db = Some res"
proof -
  have "0 \<le> wait" "wait \<le> 20"
    using assms(1) by (auto simp: receive_check_def try_bind_def Let_def split: sum.splits if_splits option.splits)
  then have "start + wait * 1000 \<le> instant 200"
    using sleeping_clock[OF assms(2,3), of 200] by simp
  then have "poll_loop 201 E (q_name q) opts (start + wait * 1000) wall instant others 0 db \<noteq> None"
    by (rule poll_loop_returns) simp_all
  then obtain r where "poll_loop 201 E (q_name q) opts (start + wait * 1000) wall instant others 0 db = Some r"
    by blast
  with poll_loop_mono[OF this] assms(1) show ?thesis by (auto simp: receive_def)
qed

theorem sqs_receive_returns_witness:
  "\<exists>res. receive 201 sample_ext ''jobs'' ((sample_opts 1)\<lparr> ro_wait_seconds := Some 20 \<rparr>) 0
     (\<lambda>i. 9) (\<lambda>i. 100 * int i) (\<lambda>i db. db) (sample_db False) = Some res"
proof -
  have "receive_check sample_ext ''jobs'' ((sample_opts 1)\<lparr> ro_wait_seconds := Some 20 \<rparr>) (sample_db False)
      = Inr (sample_read False, 20)"
    using sample_read_eq[of False]
    by (simp add: receive_check_def sample_opts_def) (simp add: sample_read_def)
  from sqs_receive_returns[OF this, of 0 "\<lambda>i. 100 * int i"] show ?thesis by (force simp: min_def)
qed

subsection \<open>Deduplication\<close>

lemma refresh_keeps_dedup:
  "d \<in> set (sqs_fifo_dedup db) \<Longrightarrow> now \<le> d_expires_at d \<Longrightarrow> d \<in> set (sqs_fifo_dedup (refresh q now db))"
  by (auto simp: refresh_def Let_def)

text \<open>The deduplication id a FIFO send uses, if it has one.\<close>

definition dedup_id_of :: "externals \<Rightarrow> sqs_queue \<Rightarrow> send_input \<Rightarrow> string option" where
  "dedup_id_of E q input =
     (case si_dedup_id input of
        Some (c # r) \<Rightarrow> Some (c # r)
      | _ \<Rightarrow> if attr_bool q ''ContentBasedDeduplication'' then Some (sha256_hex E (si_body input)) else None)"

lemma fifo_decide_known:
  assumes "dedup_ok db" "d \<in> set (sqs_fifo_dedup db)" "d_queue_id d = q_id q" "now \<le> d_expires_at d"
    and "dedup_id_of E q input = Some (d_dedup_id d)" "si_group_id input = Some (c # g)"
  shows "fifo_decide E q input now db = FifoDuplicate (d_message_id d) (d_sequence_number d)"
proof -
  have same: "d' = d" if "d' \<in> set (sqs_fifo_dedup db)" "d_queue_id d' = q_id q" "d_dedup_id d' = d_dedup_id d" for d'
    using key_inject[of dedup_key "sqs_fifo_dedup db" d' d] assms(1-3) that by (simp add: dedup_ok_def dedup_key_def)
  have "find (\<lambda>x. d_queue_id x = q_id q \<and> d_dedup_id x = d_dedup_id d \<and> now \<le> d_expires_at x)
      (sqs_fifo_dedup db) = Some d"
    (is "find ?P _ = _")
  proof (cases "find ?P (sqs_fifo_dedup db)")
    case None
    with assms(2-4) show ?thesis by (auto simp: find_None_set)
  next
    case (Some d')
    with find_Some_set[OF Some] show ?thesis
      using same[of d'] by simp
  qed
  with assms(5,6) show ?thesis
    by (auto simp: fifo_decide_def dedup_id_of_def Let_def split: option.splits list.splits if_splits)
qed

lemma fifo_decide_dedup:
  "fifo_decide E q input now db = FifoFresh dedup seq db2 \<Longrightarrow> dedup_id_of E q input = Some dedup"
  by (auto simp: fifo_decide_def dedup_id_of_def Let_def split: option.splits list.splits if_splits)

text \<open>
  C6: Exactly-once sending.  When a send to a FIFO queue has stored a message, a second send with
  the same deduplication id within five minutes is answered with the message id and sequence number
  of the first one and changes nothing.
\<close>

theorem sqs_fifo_deduplication:
  assumes "sqs_env E" "sqs_ok E db" "snapshot_ok q db" "is_fifo q"
    and "send_tx E q input now db = (Inr o1, db1)" "db1 \<noteq> db"
    and "dedup_id_of E q input' = dedup_id_of E q input"
    and "send_check q input' = Inr delay'" "si_group_id input' = Some (c # g)"
    and "now' \<le> now + DEDUP_WINDOW_MS"
  shows "send_tx E q input' now' db1
    = (Inr (mk_outcome E input' (so_message_id o1) (so_sequence_number o1)), db1)"
  using assms(1,2,5)
proof (cases rule: send_tx_cases)
  case (fifo delay dedup seq db2)
  let ?mid = "uuid_v4 E (uuid_ctr db)"
  let ?d = "\<lparr> d_queue_id = q_id q, d_dedup_id = dedup, d_message_id = ?mid, d_sequence_number = seq,
              d_expires_at = now + DEDUP_WINDOW_MS \<rparr>"
  have "?d \<in> set (sqs_fifo_dedup db1)" by (simp add: fifo(5) remember_dedup_def)
  then have "?d \<in> set (sqs_fifo_dedup (refresh q now' db1))"
    by (rule refresh_keeps_dedup) (use assms(10) in simp)
  moreover have "dedup_ok (refresh q now' db1)"
    using refresh_ok send_ok[OF assms(1-3,5)] by (auto simp: sqs_ok_def)
  ultimately have "fifo_decide E q input' now' (refresh q now' db1) = FifoDuplicate ?mid seq"
    using fifo_decide_known[of "refresh q now' db1" ?d q now' E input' c g] assms(7,9,10)
      fifo_decide_dedup[OF fifo(3)] by simp
  moreover have "so_message_id o1 = ?mid" "so_sequence_number o1 = Some seq"
    using fifo(4) by (simp_all add: mk_outcome_def)
  ultimately show ?thesis using assms(4,8) by (simp add: send_tx_def Let_def)
qed (use assms(4,6) in simp_all)

theorem sqs_fifo_deduplication_witness:
  "let r1 = send_tx sample_ext (sample_read True) (sample_input ''x'') 9 (sample_db True) in
   so_message_id (projr (fst r1)) = ''4''
   \<and> send_tx sample_ext (sample_read True) (sample_input ''y'') 300009 (snd r1)
     = (Inr (mk_outcome sample_ext (sample_input ''y'') ''4'' (Some ''10000000000000000003'')), snd r1)"
proof -
  obtain db1 where r1: "send_tx sample_ext (sample_read True) (sample_input ''x'') 9 (sample_db True)
      = (Inr (mk_outcome sample_ext (sample_input ''x'') ''4'' (Some ''10000000000000000003'')), db1)"
    and ne: "db1 \<noteq> sample_db True" using sample_send[of "CHR ''x''"] by auto
  have "send_tx sample_ext (sample_read True) (sample_input ''y'') 300009 db1
      = (Inr (mk_outcome sample_ext (sample_input ''y'') ''4'' (Some ''10000000000000000003'')), db1)"
    using sqs_fifo_deduplication[OF sample_env sample_db_ok sample_read_ok(1) _ r1 ne,
        of "sample_input ''y''" 0 "CHR ''g''" "[]" 300009]
    by (simp add: sample_send_check DEDUP_WINDOW_MS_def) (simp add: dedup_id_of_def sample_input_def mk_outcome_def)
  then show ?thesis using r1 by (simp add: mk_outcome_def)
qed

subsection \<open>From producer to consumer\<close>

text \<open>The row a successful, non-duplicate send appends.\<close>

lemma send_appends:
  assumes "sqs_env E" "sqs_ok E db" "send_tx E q input now db = (Inr out, db1)" "db1 \<noteq> db"
  obtains delay dedup seq dbx where "send_check q input = Inr delay"
    "sqs_messages db1 = sqs_messages (refresh q now db) @
       [sent_row E (q_id q) (so_message_id out) input now (now + delay * 1000) dedup seq dbx]"
  using assms(1-3)
proof (cases rule: send_tx_cases)
  case (standard delay)
  then show ?thesis using that[OF standard(2)] by (simp add: stored_db_def mk_outcome_def)
next
  case (fifo delay dedup seq db2)
  note db2 = fifo_decide_fresh(1)[OF fifo(3)]
  have "sqs_messages db1 = sqs_messages (refresh q now db) @
       [sent_row E (q_id q) (so_message_id out) input now (now + delay * 1000) (Some dedup) (Some seq)
          (db2\<lparr> uuid_ctr := Suc (uuid_ctr db2) \<rparr>)]"
    using fifo(4,5) by (simp add: stored_db_def mk_outcome_def db2)
  then show ?thesis by (rule that[OF fifo(2)])
qed (use assms(4) in simp_all)

lemma wants_all: "''All'' \<in> set names \<Longrightarrow> wants_message_attr names k"
  by (auto simp: wants_message_attr_def list_ex_iff)

lemma stored_attrs_sent:
  assumes "list_all (attr_good E) attrs" "bt_ok attrs"
  shows "stored_attrs E (if attrs = [] then None else Some (attrs_to_json E attrs)) = attrs"
  using parse_attrs_encoded[OF assms] by (simp add: stored_attrs_def)

text \<open>A receive that finds exactly one row of the queue, never received before, delivers it.\<close>

lemma receive_single:
  assumes env: "sqs_env E" and ok: "sqs_ok E db" and q: "snapshot_ok q db"
    and row: "filter (\<lambda>m. m_queue_id m = q_id q) (sqs_messages (refresh q now db)) = [r]"
    and r: "m_visible_at r \<le> now" "m_receive_count r = 0"
    and lim: "\<forall>d mx. dead_letter_target E q (refresh q now db) = Some (d, mx) \<longrightarrow> 0 < mx"
    and mx: "1 \<le> ro_max opts"
  shows "\<exists>rh db'. receive_tx E q opts now db = (Inr [received E q opts r rh 1 (first_receive now r)], db')"
proof -
  have m: "messages_ok E (refresh q now db)" using refresh_ok[OF ok] by (simp add: sqs_ok_def)
  have "candidates q now (refresh q now db) = filter (\<lambda>m. m_visible_at m \<le> now) [r]"
    unfolding candidates_eq[OF m] row[symmetric] by (simp add: conj_commute)
  moreover have "inflight_groups q now (refresh q now db) = {}"
  proof -
    have "x = r" if "x \<in> set (sqs_messages (refresh q now db))" "m_queue_id x = q_id q" for x
    proof -
      from that have "x \<in> set (filter (\<lambda>m. m_queue_id m = q_id q) (sqs_messages (refresh q now db)))" by simp
      then show ?thesis unfolding row by simp
    qed
    with r(2) show ?thesis by (fastforce simp: inflight_groups_def map_filter_def)
  qed
  moreover have "\<not> (case map_option snd (dead_letter_target E q (refresh q now db)) of
      Some k \<Rightarrow> k \<le> m_receive_count r | None \<Rightarrow> False)"
    using lim r(2) by (auto split: option.splits)
  moreover have "\<not> group_blocked f {} r" for f by (simp add: group_blocked_def split: option.splits)
  ultimately have "plan_of E q opts now db = [(r, Deliver)]"
    using r(1) mx by (simp add: plan_of_def)
  with receive_tx_plan(1)[OF env ok q, of opts now] r(2) show ?thesis
    by (simp add: plan_out_def) blast
qed

text \<open>The rows of a queue.\<close>

definition rows_in :: "sqs_queue \<Rightarrow> sqs_db \<Rightarrow> sqs_message list" where
  "rows_in q db = filter (\<lambda>m. m_queue_id m = q_id q) (sqs_messages db)"

lemma send_alone:
  assumes "sqs_env E" "sqs_ok E db" "rows_in q db = []" "send_check q input = Inr delay"
    and "send_tx E q input now db = (Inr out, db1)" "db1 \<noteq> db"
  obtains dedup seq dbx where
    "rows_in q db1 = [sent_row E (q_id q) (so_message_id out) input now (now + delay * 1000) dedup seq dbx]"
proof -
  from assms(1,2,5,6) obtain dl dedup seq dbx where dl: "send_check q input = Inr dl" and
    msgs: "sqs_messages db1 = sqs_messages (refresh q now db) @
       [sent_row E (q_id q) (so_message_id out) input now (now + dl * 1000) dedup seq dbx]"
    by (rule send_appends)
  have none: "\<forall>m\<in>set (sqs_messages (refresh q now db)). m_queue_id m \<noteq> q_id q"
    using assms(3) unfolding rows_in_def filter_empty_conv by (auto elim: refresh_rows)
  have "dl = delay" using dl assms(4) by simp
  with none msgs show ?thesis
    by (intro that) (simp add: rows_in_def sent_row_def filter_empty_conv)
qed

lemma receive_sent:
  assumes "sqs_env E" "list_all (attr_good E) (si_attributes input) \<and> bt_ok (si_attributes input)" "sqs_ok E db1" "snapshot_ok q db1"
    and row: "rows_in q db1 = [sent_row E (q_id q) mid input now (now + delay * 1000) dedup seq dbx]" (is "_ = [?r]")
    and "now + delay * 1000 \<le> now'" "now' \<le> now + attr_i64 q ''MessageRetentionPeriod'' * 1000"
    and "\<forall>d mx. dead_letter_target E q (refresh q now' db1) = Some (d, mx) \<longrightarrow> 0 < mx"
    and "1 \<le> ro_max opts" "''All'' \<in> set (ro_message_attribute_names opts)"
  shows "\<exists>x db2. receive_tx E q opts now' db1 = (Inr [x], db2) \<and> rm_message_id x = mid
    \<and> rm_body x = si_body input \<and> rm_message_attributes x = si_attributes input"
proof -
  have rows: "sqs_messages (refresh q now' db1) = map (\<lambda>m. if m_queue_id m = q_id q \<and> m_visible m \<noteq> (m_visible_at m \<le> now')
      then m\<lparr> m_visible := (m_visible_at m \<le> now') \<rparr> else m)
    (filter (\<lambda>m. \<not> (m_queue_id m = q_id q \<and> 0 < m_sent_at m \<and> m_sent_at m + attr_i64 q ''MessageRetentionPeriod'' * 1000 < now'))
      (sqs_messages db1))"
    by (simp add: refresh_def Let_def sql_update_def sql_delete_def)
  have "filter (\<lambda>m. m_queue_id m = q_id q) (sqs_messages (refresh q now' db1))
      = map (\<lambda>m. if m_queue_id m = q_id q \<and> m_visible m \<noteq> (m_visible_at m \<le> now') then m\<lparr> m_visible := (m_visible_at m \<le> now') \<rparr> else m)
         (filter (\<lambda>m. \<not> (m_queue_id m = q_id q \<and> 0 < m_sent_at m \<and> m_sent_at m + attr_i64 q ''MessageRetentionPeriod'' * 1000 < now'))
           (rows_in q db1))"
    unfolding rows rows_in_def filter_map filter_filter by (intro arg_cong2[of _ _ _ _ map] filter_cong) auto
  also have "\<dots> = [?r\<lparr> m_visible := True \<rparr>]"
    unfolding row using assms(6,7) by (simp add: sent_row_def)
  finally have row': "filter (\<lambda>m. m_queue_id m = q_id q) (sqs_messages (refresh q now' db1)) = [?r\<lparr> m_visible := True \<rparr>]" .
  obtain rh db2 where rec: "receive_tx E q opts now' db1
      = (Inr [received E q opts (?r\<lparr> m_visible := True \<rparr>) rh 1 (first_receive now' (?r\<lparr> m_visible := True \<rparr>))], db2)"
    using receive_single[OF assms(1,3,4) row' _ _ assms(8,9)] assms(6) by (auto simp: sent_row_def)
  moreover have "filter (\<lambda>(k, _). wants_message_attr (ro_message_attribute_names opts) k) xs = xs" for xs :: msg_attrs
    using wants_all[OF assms(10)] by (simp add: filter_id_conv)
  ultimately show ?thesis
    using stored_attrs_sent[of E "si_attributes input"] assms(2) by (auto simp: received_def sent_row_def)
qed

lemma send_then_receive:
  assumes "sqs_env E" "list_all (attr_good E) (si_attributes input) \<and> bt_ok (si_attributes input)" "sqs_ok E db" "snapshot_ok q db"
    and "\<forall>m\<in>set (sqs_messages db). m_queue_id m \<noteq> q_id q"
    and "send_check q input = Inr delay"
    and "send_tx E q input now db = (Inr out, db1)" "db1 \<noteq> db"
    and "now + delay * 1000 \<le> now'" "now' \<le> now + attr_i64 q ''MessageRetentionPeriod'' * 1000"
    and "\<forall>d mx. dead_letter_target E q (refresh q now' db1) = Some (d, mx) \<longrightarrow> 0 < mx"
    and "1 \<le> ro_max opts" "''All'' \<in> set (ro_message_attribute_names opts)"
  shows "\<exists>x db2. receive_tx E q opts now' db1 = (Inr [x], db2) \<and> rm_message_id x = so_message_id out
    \<and> rm_body x = si_body input \<and> rm_message_attributes x = si_attributes input"
proof -
  have none: "rows_in q db = []" using assms(5) by (simp add: rows_in_def filter_empty_conv)
  have ok: "sqs_ok E db1" "snapshot_ok q db1"
    using send_ok[OF assms(1,3,4,7)] assms(4) by (simp_all add: snapshot_ok_def)
  from send_alone[OF assms(1,3) none assms(6-8)] obtain dedup seq dbx where
    "rows_in q db1 = [sent_row E (q_id q) (so_message_id out) input now (now + delay * 1000) dedup seq dbx]" .
  from receive_sent[OF assms(1,2) ok this assms(9-13)] show ?thesis .
qed

text \<open>
  C5: A message arrives as it was sent.  After a message has been stored in a queue that held no
  other, a receive of up to ten messages, made when the message's delay is over and its retention
  period is not, by a consumer that asks for all attributes, returns exactly this message: its id
  is the one the producer was told, its body is unchanged, and its attributes, which went through
  their JSON encoding in the table, are those the producer gave.
\<close>

theorem sqs_send_receive:
  assumes "sqs_env E" "b64_roundtrip E" "sqs_ok E db" "snapshot_ok q db"
    and "\<forall>m\<in>set (sqs_messages db). m_queue_id m \<noteq> q_id q"
    and "parse_attrs E v = Inr (si_attributes input)" "send_check q input = Inr delay"
    and "send_tx E q input now db = (Inr out, db1)" "db1 \<noteq> db"
    and "now + delay * 1000 \<le> now'" "now' \<le> now + attr_i64 q ''MessageRetentionPeriod'' * 1000"
    and "\<forall>d mx. dead_letter_target E q (refresh q now' db1) = Some (d, mx) \<longrightarrow> 0 < mx"
    and "1 \<le> ro_max opts" "''All'' \<in> set (ro_message_attribute_names opts)"
  shows "\<exists>x db2. receive_tx E q opts now' db1 = (Inr [x], db2) \<and> rm_message_id x = so_message_id out
    \<and> rm_body x = si_body input \<and> rm_message_attributes x = si_attributes input"
  using send_then_receive[OF assms(1) parse_attrs_good[OF assms(2,6)] assms(3-5,7-14)] .

theorem sqs_send_receive_witness:
  "\<exists>x db2. receive_tx sample_ext (sample_read False) (sample_opts 10) 9
       (snd (send_tx sample_ext (sample_read False) (sample_input ''x'') 9 sample_empty)) = (Inr [x], db2)
     \<and> rm_message_id x = ''4'' \<and> rm_body x = ''x'' \<and> rm_message_attributes x = []"
proof -
  obtain db1 where s: "send_tx sample_ext (sample_read False) (sample_input ''x'') 9 sample_empty
    = (Inr (mk_outcome sample_ext (sample_input ''x'') ''4'' None), db1)" "db1 \<noteq> sample_empty"
    using sample_send_empty by blast
  have a: "parse_attrs sample_ext None = Inr (si_attributes (sample_input ''x''))"
    by (simp add: parse_attrs_def sample_input_def)
  show ?thesis
    using sqs_send_receive[OF sample_env _ sample_empty_ok(1,2) _ a _ s, of 0 9 "sample_opts 10"]
    by (simp add: s sample_send_check) (simp add: mk_outcome_def sample_opts_def sample_input_def)
qed

subsection \<open>Concurrent writers\<close>

lemma write_tags_read:
  assumes "get_queue E n db = Inr q" "length tags \<le> 50" "write_tags (q_id q) tags db = (res, db')"
  shows "res = Inr () \<and> get_queue E n db' = Inr (q\<lparr> q_tags := tags \<rparr>)"
proof -
  let ?f = "\<lambda>r. r\<lparr> qr_tags := tags \<rparr>"
  have db': "res = Inr ()" "db' = db\<lparr> sqs_queues := sql_update (\<lambda>r. qr_id r = q_id q) ?f (sqs_queues db) \<rparr>"
    using assms(2,3) by (simp_all add: write_tags_def)
  from assms(1) obtain r where r: "find (\<lambda>r. qr_name r = queue_name_of n) (sqs_queues db) = Some r"
    and q: "q = queue_from_row E r" and ne: "queue_name_of n \<noteq> []"
    by (auto simp: get_queue_def require_queue_def find_queue_def Let_def split: if_splits option.splits)
  have "find (\<lambda>r. qr_name r = queue_name_of n) (sqs_queues db') = Some (?f r)"
    unfolding db' using find_sql_update[of "\<lambda>r. qr_name r = queue_name_of n" ?f
        "\<lambda>r. qr_id r = q_id q" "sqs_queues db"] r
    by (simp add: q queue_from_row_def Let_def)
  then show ?thesis
    using ne by (simp add: db' get_queue_def require_queue_def find_queue_def q queue_from_row_def Let_def)
qed

lemma length_bt_insert: "length (bt_insert k v m) \<le> Suc (length m)"
  by (induction m) (auto simp: bt_insert_def)

text \<open>
  Tags can be lost.  TagQueue reads the queue in one call to the database and writes the
  merged tags in another, so of two tag requests that both succeed on a queue the tags of the first
  are gone when the second read the queue before the first wrote; run one after the other they keep
  both.
\<close>

theorem sqs_tag_lost_update:
  assumes "get_queue E n db = Inr q" "bt_ok (q_tags q)" "length (q_tags q) < 50"
    and "k1 \<noteq> k2" "bt_get (q_tags q) k1 = None"
  shows "\<exists>db1 db2. tag_queue_tx q [(k1, v1)] db = (Inr (), db1) \<and> tag_queue_tx q [(k2, v2)] db1 = (Inr (), db2)
    \<and> (\<exists>q2. get_queue E n db2 = Inr q2 \<and> bt_get (q_tags q2) k1 = None)
    \<and> (\<exists>q1. get_queue E n db1 = Inr q1 \<and> bt_get (q_tags q1) k1 = Some v1)"
proof -
  let ?t1 = "bt_insert k1 v1 (q_tags q)" and ?t2 = "bt_insert k2 v2 (q_tags q)"
  have len: "length (bt_insert k v (q_tags q)) \<le> 50" for k v
    using length_bt_insert[of k v "q_tags q"] assms(3) by simp
  obtain res1 db1 where w1: "write_tags (q_id q) ?t1 db = (res1, db1)" by fastforce
  note r1 = write_tags_read[OF assms(1) len w1]
  obtain res2 db2 where w2: "write_tags (q_id q) ?t2 db1 = (res2, db2)" by fastforce
  have "get_queue E n db1 = Inr (q\<lparr> q_tags := ?t1 \<rparr>)" using r1 by simp
  from write_tags_read[OF this len, of k2 v2 res2 db2] w2
  have r2: "res2 = Inr ()" "get_queue E n db2 = Inr (q\<lparr> q_tags := ?t2 \<rparr>)" by simp_all
  from w1 w2 r1 r2 assms(2,4,5) show ?thesis
    by (auto simp: tag_queue_tx_def bt_extend_def)
qed

theorem sqs_tag_lost_update_witness:
  "\<exists>db1 db2. tag_queue_tx (sample_read False) [(''env'', ''dev'')] (sample_db False) = (Inr (), db1)
    \<and> tag_queue_tx (sample_read False) [(''team'', ''a'')] db1 = (Inr (), db2)
    \<and> (\<exists>q2. get_queue sample_ext ''jobs'' db2 = Inr q2 \<and> bt_get (q_tags q2) ''env'' = None)"
  using sqs_tag_lost_update[of sample_ext "''jobs''" "sample_db False" "sample_read False" "''env''" "''team''" "''dev''" "''a''"]
    sample_read_eq[of False]
  by (simp add: sample_read_def[of False]) blast

end
