(* ===== verification/Sqs_Requests.thy ===== *)
theory Sqs_Requests
  imports Sqs_Handlers Sqs_Guarantees
begin

text \<open>
  SQS, part 11: what requests keep and promise.  Every action keeps the invariant of the tables, and a
  batch answers each of its entries exactly once.
\<close>

subsection \<open>The invariant\<close>

definition app_ok :: "externals \<Rightarrow> sqs_app \<Rightarrow> bool" where
  "app_ok E s \<longleftrightarrow> sqs_ok E (app_db s)"

lemma on_db_keeps:
  "(\<And>db r db'. sqs_ok E db \<Longrightarrow> f db = (r, db') \<Longrightarrow> sqs_ok E db') \<Longrightarrow> act_keeps (app_ok E) (on_db f)"
  by (rule act_keepsI) (auto simp: on_db_def app_ok_def split: prod.splits)

lemma read_db_keeps [intro!, simp]: "act_keeps P (read_db f)"
  by (simp add: act_keeps_def read_db_def)

lemma emit_keeps [intro!, simp]: "act_keeps (app_ok E) (emit E' now a p)"
  by (simp add: act_keeps_def emit_def app_ok_def)

lemma url_field_keeps [intro!]: "(\<And>u. act_keeps P (k u)) \<Longrightarrow> act_keeps P (url_field body k)"
  unfolding url_field_def by blast

text \<open>One operation on a queue keeps the invariant when its transaction does, for a fresh read.\<close>

lemma with_queue_keeps:
  assumes "\<And>q db r db'. sqs_ok E db \<Longrightarrow> snapshot_ok q db \<Longrightarrow> named_as q db \<Longrightarrow> f q db = (r, db') \<Longrightarrow> sqs_ok E db'"
  shows "act_keeps (app_ok E) (on_db (with_queue E url f))"
proof (rule on_db_keeps)
  fix db r db' assume ok: "sqs_ok E db" and w: "with_queue E url f db = (r, db')"
  show "sqs_ok E db'"
  proof (cases "get_queue E url db")
    case (Inl e)
    with w ok show ?thesis by (simp add: with_queue_def)
  next
    case (Inr q)
    from ok have qs: "queues_ok db" by (simp add: sqs_ok_def)
    from w Inr have "f q db = (r, db')" by (simp add: with_queue_def)
    with assms[OF ok get_queue_snapshot[OF qs Inr] read_named_as[OF qs Inr]] show ?thesis by blast
  qed
qed

lemma exec_keeps:
  assumes "sqs_env E" "\<And>q db r db'. f q db = (r, db') \<Longrightarrow> \<exists>r'. sqs_queue_exec E q act db = (r', db')"
  shows "act_keeps (app_ok E) (on_db (with_queue E url f))"
  by (rule with_queue_keeps) (use sqs_queue_exec_ok[OF assms(1)] assms(2) in blast)

lemma queue_ops_keep:
  assumes "sqs_env E"
  shows "act_keeps (app_ok E) (on_db (delete_queue E u))" "act_keeps (app_ok E) (on_db (purge_queue E u))"
    "act_keeps (app_ok E) (on_db (set_queue_attributes E u attrs now))"
    "act_keeps (app_ok E) (on_db (tag_queue E u tags))" "act_keeps (app_ok E) (on_db (untag_queue E u keys))"
    "act_keeps (app_ok E) (on_db (get_queue_attributes E u names now))"
    "act_keeps (app_ok E) (on_db (send E u input now))"
    "act_keeps (app_ok E) (on_db (delete_message E u rh))"
    "act_keeps (app_ok E) (on_db (change_visibility E u rh timeout now))"
  unfolding delete_queue_def purge_queue_def set_queue_attributes_def tag_queue_def untag_queue_def
    get_queue_attributes_def send_def delete_message_def change_visibility_def
  by (rule exec_keeps[OF assms, where act = DeleteQueue], simp,
      rule exec_keeps[OF assms, where act = PurgeQueue], simp,
      rule exec_keeps[OF assms, where act = "SetAttributes attrs now"], simp,
      rule exec_keeps[OF assms, where act = "TagQueue tags"], simp,
      rule exec_keeps[OF assms, where act = "UntagQueue keys"], simp,
      rule exec_keeps[OF assms, where act = "GetAttributes names now"], simp,
      rule exec_keeps[OF assms, where act = "SendMessage input now"], simp,
      rule exec_keeps[OF assms, where act = "DeleteMessage rh"], simp,
      rule exec_keeps[OF assms, where act = "ChangeVisibility rh timeout now"], simp)

lemma create_queue_keeps_ok: "act_keeps (app_ok E) (on_db (create_queue E base name attrs tags now))"
  by (rule on_db_keeps)
     (auto simp: create_queue_def Let_def split: prod.splits sum.splits dest: create_queue_ok)

lemma batch_loop_keeps:
  "(\<And>i x. act_keeps P (step i x)) \<Longrightarrow> P s \<Longrightarrow> P (snd (batch_loop step ident i xs s))"
proof (induction xs arbitrary: i s)
  case (Cons x xs)
  obtain r s' where step: "step i x s = (r, s')" by fastforce
  have "P (snd (batch_loop step ident (Suc i) xs s'))"
    by (rule Cons.IH[OF Cons.prems(1) act_keepsD[OF Cons.prems(1,2) step]])
  with step show ?case by (cases r) (auto split: prod.splits)
qed simp

lemma batch_answer_keeps:
  assumes "\<And>i x. act_keeps (app_ok E) (step i x)"
  shows "act_keeps (app_ok E) (\<lambda>s. batch_answer E now a p (batch_loop step ident i xs s))"
proof -
  have "app_ok E (snd (batch_answer E now a p r))" if "app_ok E (snd r)" for r
    using that by (auto simp: batch_answer_def act_bind_def emit_def act_return_def app_ok_def split: prod.splits)
  with batch_loop_keeps[of "app_ok E" step, OF assms] show ?thesis by (simp add: act_keeps_def)
qed

lemma poll_loop_keeps:
  assumes "sqs_env E" "\<And>i db. sqs_ok E db \<Longrightarrow> sqs_ok E (others i db)"
    and "sqs_ok E db" "poll_loop fuel E name opts deadline wall instant others i db = Some (r, db')"
  shows "sqs_ok E db'"
  using assms(3,4)
proof (induction fuel arbitrary: i db)
  case (Suc fuel)
  let ?db = "others i db"
  have ok: "sqs_ok E ?db" by (rule assms(2)[OF Suc.prems(1)])
  show ?case
  proof (cases "require_queue E name ?db")
    case (Inl e)
    with ok Suc.prems(2) show ?thesis by (simp add: Let_def)
  next
    case (Inr q)
    have "snapshot_ok q ?db"
      using Inr ok by (auto simp: require_queue_def sqs_ok_def split: option.splits intro: find_queue_snapshot)
    note plan = receive_tx_plan[OF assms(1) ok this, of opts "wall i"]
    show ?thesis
      using Suc.IH[OF plan(2), of "Suc i"] Suc.prems(2) Inr plan by (auto simp: Let_def split: if_splits)
  qed
qed simp

lemma receive_keeps:
  assumes "sqs_env E" "\<And>i db. sqs_ok E db \<Longrightarrow> sqs_ok E (others i db)"
    and "sqs_ok E db" "receive fuel E queue opts start wall instant others db = Some (r, db')"
  shows "sqs_ok E db'"
proof (cases "receive_check E queue opts db")
  case (Inl e)
  with assms(3,4) show ?thesis by (simp add: receive_def)
next
  case (Inr p)
  obtain q wait where p: "p = (q, wait)" by fastforce
  with Inr assms(4) have "poll_loop fuel E (q_name q) opts (start + wait * 1000) wall instant others 0 db = Some (r, db')"
    by (simp add: receive_def)
  from poll_loop_keeps[OF assms(1,2,3) this] show ?thesis .
qed

lemma simple_keeps:
  "act_keeps (app_ok E) (on_db f) \<Longrightarrow> act_keeps (app_ok E) (handle_simple E now a p f)"
  unfolding handle_simple_def by blast

lemma entries_keep:
  assumes "sqs_env E"
  shows "act_keeps (app_ok E) (send_entry E u w i x)" "act_keeps (app_ok E) (delete_entry E u i y)"
    "act_keeps (app_ok E) (visibility_entry E u w i y)"
  unfolding send_entry_def delete_entry_def visibility_entry_def
  by (cases x) (auto intro!: queue_ops_keep[OF assms])

lemma batches_keep:
  assumes "sqs_env E"
  shows "act_keeps (app_ok E) (handle_send_batch E w body)"
    "act_keeps (app_ok E) (handle_delete_batch E now body)"
    "act_keeps (app_ok E) (handle_visibility_batch E w body)"
  unfolding handle_send_batch_def handle_delete_batch_def handle_visibility_batch_def Let_def
  by (auto intro!: batch_answer_keeps entries_keep[OF assms])

lemma handlers_keep:
  assumes "sqs_env E"
  shows "act_keeps (app_ok E) (handle_create_queue E base now body)"
    "act_keeps (app_ok E) (handle_get_queue_url E base body)"
    "act_keeps (app_ok E) (handle_list_queues E base body)"
    "act_keeps (app_ok E) (handle_list_dlq_sources E base body)"
    "act_keeps (app_ok E) (handle_get_attributes E now body)" "act_keeps (app_ok E) (handle_list_tags E body)"
    "act_keeps (app_ok E) (handle_send E now body)" "act_keeps (app_ok E) (handle_visibility E now body)"
  unfolding handle_create_queue_def handle_get_queue_url_def handle_list_queues_def handle_list_dlq_sources_def
    handle_get_attributes_def handle_list_tags_def handle_send_def handle_visibility_def Let_def
  by (auto intro!: queue_ops_keep[OF assms] create_queue_keeps_ok simple_keeps split: prod.splits)

lemma handle_receive_keeps:
  assumes env: "sqs_env E" and others: "\<And>i db. sqs_ok E db \<Longrightarrow> sqs_ok E (ck_others clk i db)"
    and ok: "app_ok E s" and h: "handle_receive E clk body s = Some (r, s')"
  shows "app_ok E s'"
proof (cases "try_bind (required body ''QueueUrl'') (\<lambda>url.
             try_bind (receive_options_of body) (\<lambda>opts. Inr (url, opts)))")
  case (Inl e)
  with ok h show ?thesis by (simp add: handle_receive_def)
next
  case (Inr p)
  obtain url opts where p: "p = (url, opts)" by fastforce
  from h Inr p obtain rr db' where
    rec: "receive (ck_fuel clk) E url opts (ck_start clk) (ck_wall clk) (ck_instant clk) (ck_others clk) (app_db s)
      = Some (rr, db')"
    by (auto simp: handle_receive_def)
  have "app_db s' = db'"
    using h Inr p rec
    by (cases rr) (auto simp: handle_receive_def act_bind_def act_result_def emit_def act_return_def split: if_splits)
  moreover have "sqs_ok E db'"
    using receive_keeps[OF env others _ rec] ok by (simp add: app_ok_def)
  ultimately show ?thesis by (simp add: app_ok_def)
qed

definition answer_keeps :: "externals \<Rightarrow> ('r \<times> sqs_app) option \<Rightarrow> bool" where
  "answer_keeps E x \<longleftrightarrow> (\<forall>r s'. x = Some (r, s') \<longrightarrow> app_ok E s')"

lemma answer_keeps_if: "answer_keeps E x \<Longrightarrow> answer_keeps E y \<Longrightarrow> answer_keeps E (if c then x else y)"
  by simp

lemma answer_keeps_act: "act_keeps (app_ok E) m \<Longrightarrow> app_ok E s \<Longrightarrow> answer_keeps E (Some (m s))"
  using act_keepsD[of "app_ok E" m s] by (auto simp: answer_keeps_def)

text \<open>
  Requests keep the tables well-formed.  Every request, of whatever action and with whatever
  body, leaves the tables with unique names, ids and handles and with valid attributes, also when it
  fails half way through a batch or while polling; requests running during a long poll only have to
  do the same.
\<close>

theorem sqs_requests_keep_invariant:
  assumes "sqs_env E" "\<And>i db. sqs_ok E db \<Longrightarrow> sqs_ok E (ck_others clk i db)"
    and "sqs_ok E (app_db s)" "dispatch E base clk action body s = Some (r, s')"
  shows "sqs_ok E (app_db s')"
proof -
  have ok: "app_ok E s" using assms(3) by (simp add: app_ok_def)
  have rec: "answer_keeps E (handle_receive E clk body s)"
    using handle_receive_keeps[OF assms(1,2) ok] by (simp add: answer_keeps_def)
  note act = handlers_keep[OF assms(1), THEN answer_keeps_act] batches_keep[OF assms(1), THEN answer_keeps_act]
    url_field_keeps[THEN answer_keeps_act] act_keeps_result[THEN answer_keeps_act, unfolded act_result_def]
  have "answer_keeps E (dispatch E base clk action body s)"
    unfolding dispatch_def Let_def
    by (intro answer_keeps_if rec act ok simple_keeps queue_ops_keep[OF assms(1)] act_keeps_bind
        act_keeps_result act_keeps_return read_db_keeps)
  with assms(4) show ?thesis by (simp add: answer_keeps_def app_ok_def)
qed

theorem sqs_requests_keep_invariant_witness:
  "let s = \<lparr> app_db = sample_db False, app_events = [] \<rparr>;
       clk = \<lparr> ck_fuel = 1, ck_start = 0, ck_wall = (\<lambda>i. 9), ck_instant = (\<lambda>i. 0), ck_others = (\<lambda>i db. db) \<rparr>
   in \<exists>r s'. dispatch sample_ext [] clk ''PurgeQueue'' (JObj [(''QueueUrl'', JStr ''jobs'')]) s = Some (r, s')
        \<and> sqs_ok sample_ext (app_db s')"
proof -
  let ?s = "\<lparr> app_db = sample_db False, app_events = [] \<rparr>"
  let ?clk = "\<lparr> ck_fuel = 1, ck_start = 0, ck_wall = (\<lambda>i. 9), ck_instant = (\<lambda>i. 0), ck_others = (\<lambda>i db. db) \<rparr>"
  obtain p where p: "dispatch sample_ext [] ?clk ''PurgeQueue'' (JObj [(''QueueUrl'', JStr ''jobs'')]) ?s = Some p"
    by (simp add: dispatch_def Let_def)
  obtain r s' where "p = (r, s')" by (cases p)
  with p have d: "dispatch sample_ext [] ?clk ''PurgeQueue'' (JObj [(''QueueUrl'', JStr ''jobs'')]) ?s = Some (r, s')"
    by simp
  from sqs_requests_keep_invariant[OF _ _ _ this] have "sqs_ok sample_ext (app_db s')" by simp
  with d show ?thesis unfolding Let_def by blast
qed

subsection \<open>Batches\<close>

lemma check_entries_distinct:
  "check_entries es seen = None \<Longrightarrow> distinct (map entry_id es) \<and> set (map entry_id es) \<inter> seen = {}
     \<and> list_all (valid_batch_id \<circ> entry_id) es"
proof (induction es arbitrary: seen)
  case (Cons e es)
  then have "valid_batch_id (entry_id e)" "entry_id e \<notin> seen" "check_entries es (insert (entry_id e) seen) = None"
    by (auto simp: Let_def split: if_splits)
  with Cons.IH[of "insert (entry_id e) seen"] show ?case by auto
qed simp

lemma batch_entries_ok:
  "batch_entries body = Inr es \<Longrightarrow> 1 \<le> length es \<and> length es \<le> 10 \<and> distinct (map entry_id es)
     \<and> list_all (valid_batch_id \<circ> entry_id) es"
  using check_entries_distinct[of es "{}"]
  by (auto simp: batch_entries_def Let_def Suc_le_eq split: if_splits option.splits)

lemma batch_loop_accounts:
  assumes "\<And>i x s v s'. step i x s = (Inr v, s') \<Longrightarrow> json_str ''Id'' v = Some (ident x)"
    and "batch_loop step ident i xs s = ((ok, failed), s')"
  shows "\<exists>flags. length flags = length xs
    \<and> map (json_str ''Id'') ok = map (\<lambda>p. Some (ident (fst p))) (filter snd (zip xs flags))
    \<and> map (json_str ''Id'') failed = map (\<lambda>p. Some (ident (fst p))) (filter (\<lambda>p. \<not> snd p) (zip xs flags))"
  using assms(2)
proof (induction xs arbitrary: i s ok failed)
  case (Cons x xs)
  obtain r s1 where step: "step i x s = (r, s1)" by fastforce
  obtain ok' failed' s2 where rest: "batch_loop step ident (Suc i) xs s1 = ((ok', failed'), s2)"
    by (metis surj_pair)
  with step Cons.prems have s2: "s2 = s'" by (cases r) auto
  from Cons.IH[OF rest[unfolded s2]] obtain flags where f: "length flags = length xs"
    "map (json_str ''Id'') ok' = map (\<lambda>p. Some (ident (fst p))) (filter snd (zip xs flags))"
    "map (json_str ''Id'') failed' = map (\<lambda>p. Some (ident (fst p))) (filter (\<lambda>p. \<not> snd p) (zip xs flags))" by blast
  show ?case
  proof (cases r)
    case (Inl e)
    have "json_str ''Id'' (failed_entry (ident x) e) = Some (ident x)"
      by (simp add: failed_entry_def json_get_obj)
    with Inl step rest Cons.prems f show ?thesis by (intro exI[of _ "False # flags"]) auto
  next
    case (Inr v)
    with assms(1) step have "json_str ''Id'' v = Some (ident x)" by blast
    with Inr step rest Cons.prems f show ?thesis by (intro exI[of _ "True # flags"]) auto
  qed
qed simp

lemma send_entry_id:
  "send_entry E url wall i x s = (Inr v, s') \<Longrightarrow> json_str ''Id'' v = Some (fst x)"
  by (cases x)
     (auto simp: send_entry_def act_bind_def act_result_def act_return_def json_get_obj split: sum.splits prod.splits)

text \<open>
  A batch answers every entry once.  When SendMessageBatch succeeds, the request had one to ten
  entries with distinct, valid ids, and each entry is reported exactly once, in order, under its own
  id: either as successful or as failed, so that one bad entry does not take the others with it.
\<close>

theorem sqs_send_batch_accounts:
  assumes "handle_send_batch E wall body s = (Inr v, s')"
  shows "\<exists>es flags ok failed. batch_entries body = Inr es \<and> 1 \<le> length es \<and> length es \<le> 10
    \<and> distinct (map entry_id es) \<and> length flags = length es
    \<and> v = json_obj [(''Successful'', JArr ok), (''Failed'', JArr failed)]
    \<and> map (json_str ''Id'') ok = map (\<lambda>p. Some (entry_id (fst p))) (filter snd (zip es flags))
    \<and> map (json_str ''Id'') failed = map (\<lambda>p. Some (entry_id (fst p))) (filter (\<lambda>p. \<not> snd p) (zip es flags))"
proof -
  let ?inputs = "\<lambda>es. map (\<lambda>e. (entry_id e, send_input_of E e)) es"
  from assms obtain url es s1 ok failed s2 where es: "batch_entries body = Inr es"
    and loop: "batch_loop (send_entry E url wall) fst 0 (?inputs es) s1 = ((ok, failed), s2)"
    and v: "v = json_obj [(''Successful'', JArr ok), (''Failed'', JArr failed)]"
    by (auto simp: handle_send_batch_def url_field_def act_bind_def act_result_def read_db_def Let_def
        batch_answer_def emit_def act_return_def split: sum.splits prod.splits)
  have "\<exists>flags. length flags = length (?inputs es)
      \<and> map (json_str ''Id'') ok = map (\<lambda>p. Some (fst (fst p))) (filter snd (zip (?inputs es) flags))
      \<and> map (json_str ''Id'') failed = map (\<lambda>p. Some (fst (fst p))) (filter (\<lambda>p. \<not> snd p) (zip (?inputs es) flags))"
    by (rule batch_loop_accounts[OF _ loop]) (rule send_entry_id)
  moreover have "map (\<lambda>p. Some (fst (fst p))) (filter (\<lambda>p. Q (snd p)) (zip (?inputs es) flags))
      = map (\<lambda>p. Some (entry_id (fst p))) (filter (\<lambda>p. Q (snd p)) (zip es flags))" for Q and flags :: "bool list"
    by (simp add: zip_map1 filter_map o_def split_beta)
  note zip = this[of "\<lambda>b. b"] this[of Not]
  ultimately obtain flags where "length flags = length es"
    "map (json_str ''Id'') ok = map (\<lambda>p. Some (entry_id (fst p))) (filter snd (zip es flags))"
    "map (json_str ''Id'') failed = map (\<lambda>p. Some (entry_id (fst p))) (filter (\<lambda>p. \<not> snd p) (zip es flags))"
    by (auto simp: zip)
  with es v batch_entries_ok[OF es] show ?thesis by blast
qed

definition sample_batch :: json where
  "sample_batch = JObj [(''Entries'', JArr [JObj [(''Id'', JStr ''a'')]]), (''QueueUrl'', JStr ''jobs'')]"

lemma sample_batch_runs:
  "\<exists>v s'. handle_send_batch sample_ext (\<lambda>i. 9) sample_batch \<lparr> app_db = sample_db False, app_events = [] \<rparr> = (Inr v, s')"
proof -
  have q: "get_queue sample_ext ''jobs'' (sample_db False) = Inr (sample_read False)"
    using sample_read_eq[of False] by (simp add: sample_read_def)
  have e: "batch_entries sample_batch = Inr [JObj [(''Id'', JStr ''a'')]]"
    by (simp add: batch_entries_def sample_batch_def entry_id_def str_field_def valid_batch_id_def is_alnum_def
        is_digit_def is_upper_def is_lower_def)
  have u: "required sample_batch ''QueueUrl'' = Inr ''jobs''"
    by (simp add: required_def sample_batch_def str_field_def)
  show ?thesis
    by (simp add: handle_send_batch_def url_field_def act_bind_def act_result_def read_db_def Let_def e u q
        check_batch_size_def send_entry_def send_input_of_def str_field_def batch_answer_def emit_def act_return_def)
qed

theorem sqs_send_batch_accounts_witness:
  "\<exists>es flags ok failed. batch_entries sample_batch = Inr es \<and> 1 \<le> length es \<and> length es \<le> 10
    \<and> distinct (map entry_id es) \<and> length flags = length es
    \<and> fst (handle_send_batch sample_ext (\<lambda>i. 9) sample_batch \<lparr> app_db = sample_db False, app_events = [] \<rparr>)
        = Inr (json_obj [(''Successful'', JArr ok), (''Failed'', JArr failed)])
    \<and> map (json_str ''Id'') ok = map (\<lambda>p. Some (entry_id (fst p))) (filter snd (zip es flags))
    \<and> map (json_str ''Id'') failed = map (\<lambda>p. Some (entry_id (fst p))) (filter (\<lambda>p. \<not> snd p) (zip es flags))"
proof -
  obtain v s' where "handle_send_batch sample_ext (\<lambda>i. 9) sample_batch
      \<lparr> app_db = sample_db False, app_events = [] \<rparr> = (Inr v, s')" using sample_batch_runs by blast
  with sqs_send_batch_accounts[OF this] show ?thesis by auto
qed

end
