(* ===== verification/Dynamo_Query.thy ===== *)
theory Dynamo_Query
  imports Service
begin

text \<open>
  DynamoDB, part 1: key conditions (src/src/aws/dynamodb/query.rs): splitting and parsing a
  KeyConditionExpression, the order of attribute values, and when an item matches.
\<close>

subsection \<open>Conditions\<close>

datatype rust_ordering = OLess | OEqual | OGreater

datatype sort_cond =
    Cmp string json
  | Between json json
  | BeginsWith json

record key_condition =
  kc_pk_name :: string
  kc_pk_value :: json
  kc_sort :: "(string \<times> sort_cond) option"

definition resolve_name :: "string \<Rightarrow> json \<Rightarrow> string" where
  "resolve_name token names =
     (if starts_with token ''#'' then (case json_str token names of Some n \<Rightarrow> n | None \<Rightarrow> token) else token)"

definition resolve_value :: "string \<Rightarrow> json \<Rightarrow> (string, json) result" where
  "resolve_value token values =
     (case json_get (trim token) values of
        Some v \<Rightarrow> Inr v
      | None \<Rightarrow> Inl (''Value provided in ExpressionAttributeValues unused in expressions or missing: ''
                     @ trim token))"

text \<open>
  The loop of \<open>split_and\<close>: \<open>start\<close> is where the current part begins, \<open>i\<close> where the search goes on,
  \<open>pending\<close> whether the AND of a BETWEEN has been passed.
\<close>

function split_and_loop :: "string \<Rightarrow> nat \<Rightarrow> nat \<Rightarrow> bool \<Rightarrow> string list" where
  "split_and_loop expr start i pending =
     (case str_find '' AND '' (drop i (ascii_uppercase expr)) of
        None \<Rightarrow> [trim (drop start expr)]
      | Some pos \<Rightarrow>
          let at = i + pos; part = take (at - start) (drop start expr) in
          if str_contains (ascii_uppercase part) '' BETWEEN '' \<and> \<not> pending
          then split_and_loop expr start (at + 5) True
          else trim part # split_and_loop expr (at + 5) (at + 5) False)"
  by pat_completeness auto
termination
proof (relation "measure (\<lambda>(expr, start, i, pending). length expr - i)", goal_cases)
  case (2 expr start i pending pos at part)
  then show ?case using str_find_bound[OF 2(1)] by (simp add: ascii_uppercase_def)
next
  case (3 expr start i pending pos at part)
  then show ?case using str_find_bound[OF 3(1)] by (simp add: ascii_uppercase_def)
qed simp

declare split_and_loop.simps [simp del]

definition split_and :: "string \<Rightarrow> string list" where
  "split_and expr = split_and_loop expr 0 0 False"

text \<open>Removing enclosing parentheses, as often as there are some.\<close>

function strip_parens :: "string \<Rightarrow> string" where
  "strip_parens p =
     (if starts_with p ''('' \<and> ends_with p '')''
      then strip_parens (trim (take (length p - 2) (drop 1 p))) else p)"
  by pat_completeness auto
termination
proof (relation "measure length", goal_cases)
  case (2 p)
  then have "p \<noteq> []" by (auto simp: starts_with_def)
  then show ?case
    using length_trim[of "take (length p - 2) (drop 1 p)"] by (cases p) auto
qed simp

declare strip_parens.simps [simp del]

definition parse_condition :: "string \<Rightarrow> json \<Rightarrow> json \<Rightarrow> (string, string \<times> sort_cond) result" where
  "parse_condition part names values =
     (let p = strip_parens (trim part) in
      if starts_with (ascii_lowercase p) ''begins_with'' then
        (case Option.bind (split_once (CHR ''('') p) (\<lambda>(_, r). map_option fst (rsplit_once (CHR '')'') r)) of
           None \<Rightarrow> Inl ''Invalid begins_with condition''
         | Some inner \<Rightarrow>
             (case split_once (CHR '','') inner of
                None \<Rightarrow> Inl ''Invalid begins_with condition''
              | Some (name, val) \<Rightarrow>
                  try_bind (resolve_value val values) (\<lambda>v.
                    Inr (resolve_name (trim name) names, BeginsWith v))))
      else case str_find '' BETWEEN '' (ascii_uppercase p) of
        Some bpos \<Rightarrow>
          let name = resolve_name (trim (take bpos p)) names; rest = drop (bpos + 9) p in
          (case str_find '' AND '' (ascii_uppercase rest) of
             None \<Rightarrow> Inl ''Invalid BETWEEN condition''
           | Some apos \<Rightarrow>
               try_bind (resolve_value (take apos rest) values) (\<lambda>lo.
               try_bind (resolve_value (drop (apos + 5) rest) values) (\<lambda>hi.
                 Inr (name, Between lo hi))))
      | None \<Rightarrow>
          (case find (\<lambda>op. str_find op p \<noteq> None) [''<='', ''>='', ''<'', ''>'', ''=''] of
             None \<Rightarrow> Inl (''Invalid KeyConditionExpression: '' @ part)
           | Some op \<Rightarrow>
               let pos = the (str_find op p) in
               try_bind (resolve_value (drop (pos + length op) p) values) (\<lambda>v.
                 Inr (resolve_name (trim (take pos p)) names, Cmp op v))))"

text \<open>The loop of \<open>parse\<close> over the parts; \<open>pk\<close> and \<open>srt\<close> are what it has found.\<close>

fun parse_parts ::
    "string list \<Rightarrow> json \<Rightarrow> json \<Rightarrow> string \<Rightarrow> json option \<Rightarrow> (string \<times> sort_cond) option
      \<Rightarrow> (string, json option \<times> (string \<times> sort_cond) option) result" where
  "parse_parts [] names values hash_key pk srt = Inr (pk, srt)"
| "parse_parts (part # parts) names values hash_key pk srt =
     try_bind (parse_condition part names values) (\<lambda>(name, cond).
       case cond of
         Cmp op v \<Rightarrow>
           if op = ''='' \<and> name = hash_key \<and> pk = None
           then parse_parts parts names values hash_key (Some v) srt
           else parse_parts parts names values hash_key pk (Some (name, cond))
       | _ \<Rightarrow> parse_parts parts names values hash_key pk (Some (name, cond)))"

definition parse_key_condition :: "string \<Rightarrow> json \<Rightarrow> json \<Rightarrow> string \<Rightarrow> (string, key_condition) result" where
  "parse_key_condition expr names values hash_key =
     (let parts = split_and expr in
      if parts = [] \<or> 2 < length parts then Inl ''Invalid KeyConditionExpression''
      else try_bind (parse_parts parts names values hash_key None None) (\<lambda>(pk, srt).
        case pk of
          None \<Rightarrow> Inl (''Query condition missed key schema element: '' @ hash_key)
        | Some v \<Rightarrow> Inr \<lparr> kc_pk_name = hash_key, kc_pk_value = v, kc_sort = srt \<rparr>))"

subsection \<open>Order and matching\<close>

definition ord_cmp :: "'a :: linorder \<Rightarrow> 'a \<Rightarrow> rust_ordering" where
  "ord_cmp x y = (if x < y then OLess else if x = y then OEqual else OGreater)"

fun f64_partial_cmp :: "f64 \<Rightarrow> f64 \<Rightarrow> rust_ordering option" where
  "f64_partial_cmp (F64 x) (F64 y) = Some (ord_cmp x y)"
| "f64_partial_cmp _ _ = None"

definition compare_attr :: "externals \<Rightarrow> json \<Rightarrow> json \<Rightarrow> rust_ordering option" where
  "compare_attr E a b =
     (case (json_str ''N'' a, json_str ''N'' b) of
        (Some x, Some y) \<Rightarrow>
          (case (parse_f64 x, parse_f64 y) of
             (Some u, Some w) \<Rightarrow> f64_partial_cmp u w | _ \<Rightarrow> None)
      | _ \<Rightarrow>
          (case (json_str ''S'' a, json_str ''S'' b) of
             (Some x, Some y) \<Rightarrow> Some (ord_cmp x y)
           | _ \<Rightarrow> (case (json_str ''B'' a, json_str ''B'' b) of
                    (Some x, Some y) \<Rightarrow> Some (ord_cmp x y) | _ \<Rightarrow> None)))"

definition cmp_holds :: "string \<Rightarrow> rust_ordering \<Rightarrow> bool" where
  "cmp_holds op c \<longleftrightarrow>
     (if op = ''='' then c = OEqual else if op = ''<'' then c = OLess
      else if op = ''<='' then c \<noteq> OGreater else if op = ''>'' then c = OGreater
      else if op = ''>='' then c \<noteq> OLess else False)"

definition text_value :: "json \<Rightarrow> string option" where
  "text_value v = (case json_str ''S'' v of Some s \<Rightarrow> Some s | None \<Rightarrow> json_str ''B'' v)"

definition sort_matches :: "externals \<Rightarrow> sort_cond \<Rightarrow> json \<Rightarrow> bool" where
  "sort_matches E cond v =
     (case cond of
        Cmp op rhs \<Rightarrow> (case compare_attr E v rhs of Some c \<Rightarrow> cmp_holds op c | None \<Rightarrow> False)
      | Between lo hi \<Rightarrow>
          (compare_attr E v lo \<in> {Some OGreater, Some OEqual})
          \<and> (compare_attr E v hi \<in> {Some OLess, Some OEqual})
      | BeginsWith pre \<Rightarrow>
          (case (text_value v, text_value pre) of (Some a, Some b) \<Rightarrow> starts_with a b | _ \<Rightarrow> False))"

definition kc_matches :: "externals \<Rightarrow> key_condition \<Rightarrow> json \<Rightarrow> bool" where
  "kc_matches E kc item \<longleftrightarrow>
     json_get (kc_pk_name kc) item = Some (kc_pk_value kc)
     \<and> (case kc_sort kc of
          None \<Rightarrow> True
        | Some (name, cond) \<Rightarrow>
            (case json_get name item of None \<Rightarrow> False | Some v \<Rightarrow> sort_matches E cond v))"

definition kc_sort_key :: "key_condition \<Rightarrow> string option" where
  "kc_sort_key kc = map_option fst (kc_sort kc)"

end
