(* ===== verification/Secrets_Manager.thy ===== *)
theory Secrets_Manager
  imports Http Sqs_Models
begin

text \<open>
  Secrets Manager (src/src/aws/secretsmanager): the table \<open>secrets\<close> of src/src/db.rs, the service
  and its request handler.

  Errors are texts (\<open>anyhow\<close>), which the handler classifies by looking for an exception name in
  them.  \<open>create_secret\<close> makes three calls to the database; \<open>others\<close> is what other requests do
  between them.  Under whole requests the service refines a map from names to values (\<open>vault\<close>); under
  every interleaving of database calls its names stay unique.
\<close>

subsection \<open>The service\<close>

record secret =
  sec_name :: string
  sec_arn :: string
  sec_string :: "string option"
  sec_created_at :: string
  sec_updated_at :: string

type_synonym secrets_db = "secret list"

definition secret_arn :: "string \<Rightarrow> string" where
  "secret_arn name = ''arn:aws:secretsmanager:'' @ REGION @ '':'' @ ACCOUNT_ID @ '':secret:'' @ name"

definition get_secret :: "string \<Rightarrow> secrets_db \<Rightarrow> secret option" where
  "get_secret name db = find (\<lambda>s. sec_name s = name) db"

text \<open>The INSERT, which the primary key can reject.\<close>

definition insert_secret ::
    "externals \<Rightarrow> string \<Rightarrow> string option \<Rightarrow> int \<Rightarrow> secrets_db \<Rightarrow> (string, unit) result \<times> secrets_db" where
  "insert_secret E name ss now db =
     (if name \<in> sec_name ` set db then (Inl ''UNIQUE constraint failed: secrets.name'', db)
      else (Inr (), db @ [\<lparr> sec_name = name, sec_arn = secret_arn name, sec_string = ss,
                            sec_created_at = to_rfc3339 E now, sec_updated_at = to_rfc3339 E now \<rparr>]))"

definition create_secret ::
    "externals \<Rightarrow> (nat \<Rightarrow> secrets_db \<Rightarrow> secrets_db) \<Rightarrow> string \<Rightarrow> string option \<Rightarrow> int \<Rightarrow> secrets_db
      \<Rightarrow> (string, secret) result \<times> secrets_db" where
  "create_secret E others name ss now db =
     (case get_secret name db of
        Some _ \<Rightarrow> (Inl (''ResourceExistsException: secret '' @ name @ '' already exists''), db)
      | None \<Rightarrow>
          (case insert_secret E name ss now (others 0 db) of
             (Inl e, db1) \<Rightarrow> (Inl e, db1)
           | (Inr _, db1) \<Rightarrow>
               let db2 = others 1 db1 in
               (case get_secret name db2 of
                  Some s \<Rightarrow> (Inr s, db2) | None \<Rightarrow> (Inl ''not found after insert'', db2))))"

definition secret_not_found :: "string \<Rightarrow> string" where
  "secret_not_found i = ''ResourceNotFoundException: secret '' @ i @ '' not found''"

definition get_secret_value :: "string \<Rightarrow> secrets_db \<Rightarrow> (string, secret) result" where
  "get_secret_value i db =
     (case get_secret i db of Some s \<Rightarrow> Inr s | None \<Rightarrow> Inl (secret_not_found i))"

definition put_secret_value ::
    "externals \<Rightarrow> string \<Rightarrow> string \<Rightarrow> int \<Rightarrow> secrets_db \<Rightarrow> (string, unit) result \<times> secrets_db" where
  "put_secret_value E i ss now db =
     (let affected = sql_count (\<lambda>s. sec_name s = i) db;
          db' = sql_update (\<lambda>s. sec_name s = i)
                  (\<lambda>s. s\<lparr> sec_string := Some ss, sec_updated_at := to_rfc3339 E now \<rparr>) db
      in if affected = 0 then (Inl (secret_not_found i), db') else (Inr (), db'))"

definition list_secrets :: "secrets_db \<Rightarrow> secret list" where
  "list_secrets db = sort_key sec_name db"

definition delete_secret :: "string \<Rightarrow> secrets_db \<Rightarrow> secrets_db" where
  "delete_secret i db = sql_delete (\<lambda>s. sec_name s = i) db"

subsection \<open>The request handler\<close>

definition body_str :: "json \<Rightarrow> string \<Rightarrow> string" where
  "body_str body k = (case json_str k body of Some s \<Rightarrow> s | None \<Rightarrow> [])"

text \<open>An error whose text mentions the exception name is a client error, any other an internal one.\<close>

definition classified_error :: "externals \<Rightarrow> string \<Rightarrow> string \<Rightarrow> http_response" where
  "classified_error E code e =
     (if str_contains e code then json_error_response E 400 code e
      else json_error_response E 500 ''InternalError'' e)"

definition opt_json :: "string option \<Rightarrow> json" where
  "opt_json v = (case v of Some s \<Rightarrow> JStr s | None \<Rightarrow> JNull)"

definition sm_handle_json ::
    "externals \<Rightarrow> (nat \<Rightarrow> secrets_db \<Rightarrow> secrets_db) \<Rightarrow> string \<Rightarrow> json \<Rightarrow> int \<Rightarrow> secrets_db
      \<Rightarrow> http_response \<times> secrets_db" where
  "sm_handle_json E others target body now db =
     (let i = body_str body ''SecretId'' in
      if target = ''secretsmanager.CreateSecret'' then
        (case create_secret E others (body_str body ''Name'') (json_str ''SecretString'' body) now db of
           (Inr s, db') \<Rightarrow> (axum_json E (json_obj [(''ARN'', JStr (sec_arn s)), (''Name'', JStr (sec_name s))]), db')
         | (Inl e, db') \<Rightarrow> (classified_error E ''ResourceExistsException'' e, db'))
      else if target = ''secretsmanager.GetSecretValue'' \<or> target = ''secretsmanager.DescribeSecret'' then
        (case get_secret_value i db of
           Inr s \<Rightarrow> (axum_json E (json_obj [(''ARN'', JStr (sec_arn s)), (''Name'', JStr (sec_name s)),
                                         (''SecretString'', opt_json (sec_string s)),
                                         (''CreatedDate'', JStr (sec_created_at s))]), db)
         | Inl e \<Rightarrow> (classified_error E ''ResourceNotFoundException'' e, db))
      else if target = ''secretsmanager.PutSecretValue'' then
        (case put_secret_value E i (body_str body ''SecretString'') now db of
           (Inr _, db') \<Rightarrow> (axum_json E (json_obj [(''ARN'', JStr i), (''Name'', JStr i)]), db')
         | (Inl e, db') \<Rightarrow> (classified_error E ''ResourceNotFoundException'' e, db'))
      else if target = ''secretsmanager.ListSecrets'' then
        (axum_json E (json_obj [(''SecretList'',
           JArr (map (\<lambda>s. json_obj [(''ARN'', JStr (sec_arn s)), (''Name'', JStr (sec_name s))])
                  (list_secrets db)))]), db)
      else if target = ''secretsmanager.DeleteSecret'' then
        (axum_json E (json_obj [(''ARN'', JStr i), (''Name'', JStr i)]), delete_secret i db)
      else (json_error_response E 400 ''InvalidAction''
              (''Unknown SecretsManager target: '' @ target), db))"

subsection \<open>The invariant\<close>

definition secrets_ok :: "secrets_db \<Rightarrow> bool" where
  "secrets_ok db \<longleftrightarrow> distinct (map sec_name db) \<and> (\<forall>s\<in>set db. sec_arn s = secret_arn (sec_name s))"

lemma insert_secret_ok: "secrets_ok db \<Longrightarrow> insert_secret E n ss now db = (r, db') \<Longrightarrow> secrets_ok db'"
  by (auto simp: insert_secret_def secrets_ok_def split: if_splits)

lemma put_secret_ok: "secrets_ok db \<Longrightarrow> put_secret_value E i ss now db = (r, db') \<Longrightarrow> secrets_ok db'"
  by (auto simp: put_secret_value_def Let_def secrets_ok_def set_sql_update map_key_sql_update split: if_splits)

lemma delete_secret_ok: "secrets_ok db \<Longrightarrow> secrets_ok (delete_secret i db)"
  by (auto simp: delete_secret_def secrets_ok_def)

lemma create_secret_ok:
  assumes "secrets_ok db" "\<And>i db. secrets_ok db \<Longrightarrow> secrets_ok (others i db)"
    and "create_secret E others n ss now db = (r, db')"
  shows "secrets_ok db'"
proof (cases "get_secret n db")
  case None
  obtain x db1 where i: "insert_secret E n ss now (others 0 db) = (x, db1)" by fastforce
  have "secrets_ok db1" by (rule insert_secret_ok[OF assms(2)[OF assms(1)] i])
  with None i assms(2)[of db1 1] assms(3) show ?thesis
    by (cases x) (auto simp: create_secret_def Let_def split: option.splits)
qed (use assms in \<open>simp add: create_secret_def\<close>)

text \<open>
  Every call a request makes to the database, as one step of a machine: its runs are all
  interleavings of requests.
\<close>

datatype secrets_op =
    SecretInsert string "string option" int
  | SecretPut string string int
  | SecretDelete string
  | SecretRead string

fun secrets_exec :: "externals \<Rightarrow> secrets_op \<Rightarrow> secrets_db \<Rightarrow> (string, secret option) result \<times> secrets_db" where
  "secrets_exec E (SecretInsert n ss now) db =
     (case insert_secret E n ss now db of (Inl e, db') \<Rightarrow> (Inl e, db') | (Inr _, db') \<Rightarrow> (Inr None, db'))"
| "secrets_exec E (SecretPut i ss now) db =
     (case put_secret_value E i ss now db of (Inl e, db') \<Rightarrow> (Inl e, db') | (Inr _, db') \<Rightarrow> (Inr None, db'))"
| "secrets_exec E (SecretDelete i) db = (Inr None, delete_secret i db)"
| "secrets_exec E (SecretRead i) db = (Inr (get_secret i db), db)"

interpretation secrets_svc: service "\<lambda>_. True" "[]" secrets_exec "\<lambda>_. secrets_ok"
proof unfold_locales
  fix E x db
  assume ok: "secrets_ok db"
  show "secrets_ok (snd (secrets_exec E x db))"
  proof (cases x)
    case (SecretInsert n ss now)
    then show ?thesis
      using insert_secret_ok[OF ok, of E n ss now]
      by (cases "insert_secret E n ss now db") (auto split: sum.splits)
  next
    case (SecretPut i ss now)
    then show ?thesis
      using put_secret_ok[OF ok, of E i ss now]
      by (cases "put_secret_value E i ss now db") (auto split: sum.splits)
  qed (use ok in \<open>simp_all add: delete_secret_ok\<close>)
qed (simp add: secrets_ok_def)

subsection \<open>What the service promises\<close>

text \<open>The service as a map: a name without a secret is \<open>None\<close>, a secret without a value \<open>Some None\<close>.  A request
  has a target and a body, and the map gives its status.\<close>

type_synonym vault = "string \<Rightarrow> string option option"

definition vault_step :: "string \<Rightarrow> json \<Rightarrow> vault \<Rightarrow> nat \<times> vault" where
  "vault_step target body m =
     (let i = body_str body ''SecretId''; n = body_str body ''Name'' in
      if target = ''secretsmanager.CreateSecret'' then
        (if m n = None then (200, m(n \<mapsto> json_str ''SecretString'' body)) else (400, m))
      else if target = ''secretsmanager.PutSecretValue'' then
        (if m i = None then (400, m) else (200, m(i \<mapsto> Some (body_str body ''SecretString''))))
      else if target = ''secretsmanager.DeleteSecret'' then (200, m(i := None))
      else if target = ''secretsmanager.GetSecretValue'' \<or> target = ''secretsmanager.DescribeSecret'' then
        (if m i = None then 400 else 200, m)
      else if target = ''secretsmanager.ListSecrets'' then (200, m)
      else (400, m))"

text \<open>An answer that tells what the map holds.\<close>

definition vault_answer :: "externals \<Rightarrow> string \<Rightarrow> json \<Rightarrow> vault \<Rightarrow> http_response \<Rightarrow> bool" where
  "vault_answer E target body m resp \<longleftrightarrow>
     (let i = body_str body ''SecretId'' in
      http_status resp = fst (vault_step target body m)
      \<and> (target = ''secretsmanager.GetSecretValue'' \<or> target = ''secretsmanager.DescribeSecret'' \<longrightarrow>
          (\<forall>v. m i = Some v \<longrightarrow> (\<exists>created. resp = axum_json E (json_obj [(''ARN'', JStr (secret_arn i)), (''Name'', JStr i),
             (''SecretString'', opt_json v), (''CreatedDate'', JStr created)]))))
      \<and> (target = ''secretsmanager.ListSecrets'' \<longrightarrow>
          resp = axum_json E (json_obj [(''SecretList'',
            JArr (map (\<lambda>n. json_obj [(''ARN'', JStr (secret_arn n)), (''Name'', JStr n)]) (sorted_list_of_set (dom m))))])))"

fun sm_exec :: "externals \<Rightarrow> string \<times> json \<times> int \<Rightarrow> secrets_db \<Rightarrow> http_response \<times> secrets_db" where
  "sm_exec E (target, body, now) db = sm_handle_json E (\<lambda>_ db. db) target body now db"

definition vault_run :: "(string \<times> json \<times> int) list \<Rightarrow> vault" where
  "vault_run xs = fold (\<lambda>(target, body, now) m. snd (vault_step target body m)) xs Map.empty"

definition vault_of :: "secrets_db \<Rightarrow> vault" where
  "vault_of db = (\<lambda>n. map_option sec_string (get_secret n db))"

lemma get_secret_None: "get_secret n db = None \<longleftrightarrow> n \<notin> sec_name ` set db"
  by (auto simp: get_secret_def find_None_set)

lemma get_secret_name: "get_secret n db = Some s \<Longrightarrow> sec_name s = n"
  by (auto simp: get_secret_def dest: find_Some_set)

lemma vault_insert:
  assumes "get_secret n db = None"
  shows "vault_of (db @ [\<lparr> sec_name = n, sec_arn = a, sec_string = ss, sec_created_at = c, sec_updated_at = u \<rparr>])
     = (vault_of db)(n \<mapsto> ss)"
  using assms by (intro ext) (auto simp: vault_of_def get_secret_def find_append split: option.splits)

lemma vault_put:
  assumes "get_secret i db = Some s"
  shows "vault_of (snd (put_secret_value E i v now db)) = (vault_of db)(i \<mapsto> Some v)"
proof
  fix n
  let ?f = "\<lambda>s. s\<lparr> sec_string := Some v, sec_updated_at := to_rfc3339 E now \<rparr>"
  have "get_secret n (snd (put_secret_value E i v now db)) = map_option (\<lambda>r. if sec_name r = i then ?f r else r) (get_secret n db)"
    unfolding get_secret_def put_secret_value_def Let_def by (simp add: find_sql_update)
  then show "vault_of (snd (put_secret_value E i v now db)) n = ((vault_of db)(i \<mapsto> Some v)) n"
    using assms get_secret_name[of n db] by (cases "get_secret n db") (auto simp: vault_of_def)
qed

lemma vault_delete: "vault_of (delete_secret i db) = (vault_of db)(i := None)"
proof
  fix n
  have "find (\<lambda>s. sec_name s = n) (delete_secret i db) = (if n = i then None else find (\<lambda>s. sec_name s = n) db)"
    by (induction db) (auto simp: delete_secret_def sql_delete_def)
  then show "vault_of (delete_secret i db) n = ((vault_of db)(i := None)) n" by (simp add: vault_of_def get_secret_def)
qed

lemma vault_dom: "dom (vault_of db) = sec_name ` set db"
proof (rule set_eqI)
  show "n \<in> dom (vault_of db) \<longleftrightarrow> n \<in> sec_name ` set db" for n
    using get_secret_None[of n db] by (auto simp: vault_of_def domIff simp del: not_None_eq)
qed

lemma listed_names:
  assumes "secrets_ok db"
  shows "map sec_name (list_secrets db) = sorted_list_of_set (dom (vault_of db))"
proof -
  have "sorted (map sec_name (list_secrets db))" "distinct (map sec_name (list_secrets db))"
    "set (map sec_name (list_secrets db)) = dom (vault_of db)"
    using assms by (simp_all add: list_secrets_def secrets_ok_def vault_dom distinct_map)
  then show ?thesis by (metis sorted_list_of_set.idem_if_sorted_distinct)
qed

lemma vault_simulation:
  assumes ok: "secrets_ok db"
  shows "vault_answer E target body (vault_of db) (fst (sm_exec E (target, body, now) db))"
    and "vault_of (snd (sm_exec E (target, body, now) db)) = snd (vault_step target body (vault_of db))"
    and "secrets_ok (snd (sm_exec E (target, body, now) db))"
proof -
  let ?i = "body_str body ''SecretId''" and ?n = "body_str body ''Name''"
  have exists: "str_contains (''ResourceExistsException: secret '' @ n @ '' already exists'') ''ResourceExistsException''"
    "str_contains (secret_not_found n) ''ResourceNotFoundException''" for n
    by (simp_all add: starts_with_def secret_not_found_def)
  have refused: "http_status (classified_error E ''ResourceExistsException'' (''ResourceExistsException: secret '' @ n @ '' already exists'')) = 400"
    "http_status (classified_error E ''ResourceNotFoundException'' (secret_not_found n)) = 400" for n
    unfolding classified_error_def if_P[OF exists(1)] if_P[OF exists(2)] by (simp_all add: json_error_response_def)
  have arn: "sec_arn s = secret_arn i \<and> sec_name s = i" if "get_secret i db = Some s" for i s
    using that ok by (auto simp: get_secret_def secrets_ok_def dest!: find_Some_set)
  have affected: "sql_count (\<lambda>s. sec_name s = ?i) db = 0 \<longleftrightarrow> get_secret ?i db = None"
    unfolding get_secret_None sql_count_def length_0_conv filter_empty_conv image_iff by (simp add: eq_commute[of ?i])
  have miss: "put_secret_value E ?i v now db = (Inl (secret_not_found ?i), db)" if "get_secret ?i db = None" for v
  proof -
    have "sql_update (\<lambda>s. sec_name s = ?i) f db = db" for f
      using that unfolding sql_update_def get_secret_None by (intro map_idI) (metis imageI)
    with that show ?thesis by (simp add: put_secret_value_def affected)
  qed
  have hit: "put_secret_value E ?i v now db = (Inr (), snd (put_secret_value E ?i v now db))" if "get_secret ?i db \<noteq> None" for v
    using that by (simp add: put_secret_value_def affected Let_def)
  have names: "map (\<lambda>s. json_obj [(''ARN'', JStr (sec_arn s)), (''Name'', JStr (sec_name s))]) (list_secrets db)
      = map (\<lambda>n. json_obj [(''ARN'', JStr (secret_arn n)), (''Name'', JStr n)]) (sorted_list_of_set (dom (vault_of db)))"
    using ok unfolding listed_names[OF ok, symmetric] by (simp add: secrets_ok_def list_secrets_def)
  show "secrets_ok (snd (sm_exec E (target, body, now) db))"
    using create_secret_ok[OF ok, of "\<lambda>_ db. db" E ?n "json_str ''SecretString'' body" now]
      put_secret_ok[OF ok, of E ?i "body_str body ''SecretString''" now] delete_secret_ok[OF ok] ok
    by (auto simp: sm_handle_json_def Let_def split: prod.splits sum.splits)
  have holds: "vault_of db n = map_option sec_string (get_secret n db)" for n by (simp add: vault_of_def)
  have "vault_answer E target body (vault_of db) (fst (sm_exec E (target, body, now) db))
    \<and> vault_of (snd (sm_exec E (target, body, now) db)) = snd (vault_step target body (vault_of db))"
  proof -
    consider (create) "target = ''secretsmanager.CreateSecret''" | (put) "target = ''secretsmanager.PutSecretValue''"
      | (read) "target = ''secretsmanager.GetSecretValue'' \<or> target = ''secretsmanager.DescribeSecret''"
      | (delete) "target = ''secretsmanager.DeleteSecret''" | (lists) "target = ''secretsmanager.ListSecrets''"
      | (other) "target \<notin> {''secretsmanager.CreateSecret'', ''secretsmanager.PutSecretValue'', ''secretsmanager.GetSecretValue'',
          ''secretsmanager.DescribeSecret'', ''secretsmanager.DeleteSecret'', ''secretsmanager.ListSecrets''}"
      unfolding insert_iff empty_iff by argo
    then show ?thesis
    proof cases
      case create
      show ?thesis
      proof (cases "get_secret ?n db")
        case None
        then have "?n \<notin> sec_name ` set db" by (simp add: get_secret_None)
        moreover have "get_secret ?n (db @ [r]) = Some r" if "sec_name r = ?n" for r
          using None that by (simp add: get_secret_def find_append)
        ultimately show ?thesis
          using None create
          by (simp add: sm_handle_json_def create_secret_def insert_secret_def vault_answer_def vault_step_def holds axum_json_def vault_insert)
      qed (simp add: create sm_handle_json_def create_secret_def vault_answer_def vault_step_def holds refused[unfolded append_Cons append_Nil] Let_def)
    next
      case put
      show ?thesis
      proof (cases "get_secret ?i db")
        case None
        then show ?thesis
          by (simp add: sm_handle_json_def put miss vault_answer_def vault_step_def holds refused Let_def)
      next
        case (Some s)
        obtain db' where "put_secret_value E ?i (body_str body ''SecretString'') now db = (Inr (), db')"
          "vault_of db' = (vault_of db)(?i \<mapsto> Some (body_str body ''SecretString''))"
          using hit vault_put[OF Some] Some by blast
        then show ?thesis
          using Some by (simp add: sm_handle_json_def put vault_answer_def vault_step_def holds axum_json_def Let_def)
      qed
    next
      case read
      show ?thesis
      proof (cases "get_secret ?i db")
        case None
        from read show ?thesis
          by (elim disjE; simp add: None sm_handle_json_def get_secret_value_def vault_answer_def vault_step_def holds refused Let_def)
      next
        case (Some s)
        from read show ?thesis
          by (elim disjE; simp add: Some arn[OF Some] sm_handle_json_def get_secret_value_def vault_answer_def vault_step_def holds
              axum_json_def Let_def; blast)
      qed
    qed (auto simp: sm_handle_json_def vault_answer_def vault_step_def axum_json_def json_error_response_def vault_delete names Let_def)
  qed
  then show "vault_answer E target body (vault_of db) (fst (sm_exec E (target, body, now) db))"
    and "vault_of (snd (sm_exec E (target, body, now) db)) = snd (vault_step target body (vault_of db))" by blast+
qed

lemma vault_simulation_run:
  "secrets_ok (snd (run_ops (sm_exec E) xs [])) \<and> vault_of (snd (run_ops (sm_exec E) xs [])) = vault_run xs"
proof (induction xs rule: rev_induct)
  case Nil
  then show ?case by (auto simp: secrets_ok_def vault_of_def vault_run_def get_secret_def)
next
  case (snoc x xs)
  then show ?case using vault_simulation[of "snd (run_ops (sm_exec E) xs [])"]
    by (cases x) (auto simp: run_ops_append Let_def vault_run_def)
qed

text \<open>
  C13: secrets read back.  In any sequence of requests, creations, puts, reads, listings and deletions in any
  order and at any times, every answer is the one of the map from names to values: a creation succeeds exactly
  when the name has no secret, also after a deletion; a put exactly when it has one; GetSecretValue and
  DescribeSecret return the value stored last and 400 when there is no secret or it was deleted since; ListSecrets
  lists the names there are, sorted.  No other request runs between the database calls of a creation.
\<close>

theorem secrets_last_write:
  "\<forall>k<length xs. case xs ! k of (target, body, now) \<Rightarrow>
     vault_answer E target body (vault_run (take k xs)) (fst (run_ops (sm_exec E) xs []) ! k)"
proof (intro allI impI)
  fix k assume k: "k < length xs"
  obtain target body now where x: "xs ! k = (target, body, now)" by (cases "xs ! k")
  show "case xs ! k of (target, body, now) \<Rightarrow>
     vault_answer E target body (vault_run (take k xs)) (fst (run_ops (sm_exec E) xs []) ! k)"
    using vault_simulation(1)[OF conjunct1[OF vault_simulation_run[of E "take k xs"]], of E target body now]
    by (simp add: run_ops_nth[OF k] x vault_simulation_run)
qed

text \<open>A secret that is created again after its deletion has its new value.\<close>

abbreviation secret_requests :: "(string \<times> json \<times> int) list" where
  "secret_requests \<equiv>
     [(''secretsmanager.CreateSecret'', JObj [(''Name'', JStr ''k''), (''SecretString'', JStr ''v'')], 1),
      (''secretsmanager.DeleteSecret'', JObj [(''SecretId'', JStr ''k'')], 2),
      (''secretsmanager.CreateSecret'', JObj [(''Name'', JStr ''k''), (''SecretString'', JStr ''w'')], 3),
      (''secretsmanager.GetSecretValue'', JObj [(''SecretId'', JStr ''k'')], 4)]"

theorem secrets_last_write_witness:
  "\<exists>created. fst (run_ops (sm_exec sample_ext) secret_requests []) ! 3
     = axum_json sample_ext (json_obj [(''ARN'', JStr (secret_arn ''k'')), (''Name'', JStr ''k''), (''SecretString'', JStr ''w''),
         (''CreatedDate'', JStr created)])"
proof -
  define r where "r = fst (run_ops (sm_exec sample_ext) secret_requests []) ! 3"
  have "3 < length secret_requests" by simp
  from secrets_last_write[of secret_requests sample_ext, rule_format, OF this]
  have "vault_answer sample_ext ''secretsmanager.GetSecretValue'' (JObj [(''SecretId'', JStr ''k'')]) (vault_run (take 3 secret_requests)) r"
    unfolding r_def[symmetric] by simp
  moreover have "body_str (JObj [(''SecretId'', JStr ''k'')]) ''SecretId'' = ''k''" by (simp add: body_str_def)
  moreover have "vault_run (take 3 secret_requests) ''k'' = Some (Some ''w'')"
    by (simp add: vault_run_def vault_step_def body_str_def)
  ultimately show ?thesis unfolding r_def[symmetric] by (simp add: vault_answer_def opt_json_def Let_def)
qed

text \<open>
  Names stay unique and ARNs correct under every interleaving of database calls: a secret
  that GetSecretValue returns has the name asked for and the ARN built from it, and no two secrets
  share a name.
\<close>

theorem secrets_reachable:
  "let (rs, db) = run_ops (secrets_exec E) ops [] in
   distinct (map sec_name db) \<and> (\<forall>i s. get_secret_value i db = Inr s \<longrightarrow> sec_name s = i \<and> sec_arn s = secret_arn i)"
proof -
  have "secrets_ok (snd (run_ops (secrets_exec E) ops []))" by (rule secrets_svc.inv_reached) simp
  then show ?thesis
    by (auto simp: Let_def split_beta secrets_ok_def get_secret_value_def get_secret_def
        split: option.splits dest!: find_Some_set)
qed

theorem secrets_reachable_witness:
  "let db = snd (run_ops (secrets_exec sample_ext)
        [SecretInsert ''a'' (Some ''1'') 9, SecretInsert ''a'' (Some ''2'') 9, SecretPut ''a'' ''3'' 10] [])
   in distinct (map sec_name db)"
  using secrets_reachable[of sample_ext
      "[SecretInsert ''a'' (Some ''1'') 9, SecretInsert ''a'' (Some ''2'') 9, SecretPut ''a'' ''3'' 10]"]
  by (simp add: Let_def split_beta)

text \<open>
  A lost race is an internal error.  When another request creates the secret between the check
  and the insertion, CreateSecret answers 500 InternalError, not ResourceExistsException as it does
  for a secret that exists before the request; either way the existing secret is kept.
\<close>

theorem secrets_create_race:
  assumes "get_secret n db = None" "n \<in> sec_name ` set (others 0 db)"
    and "body_str body ''Name'' = n" "get_secret n db' = Some s"
  shows "http_status (fst (sm_handle_json E others ''secretsmanager.CreateSecret'' body now db)) = 500
    \<and> snd (sm_handle_json E others ''secretsmanager.CreateSecret'' body now db) = others 0 db
    \<and> http_status (fst (sm_handle_json E others ''secretsmanager.CreateSecret'' body now db')) = 400
    \<and> snd (sm_handle_json E others ''secretsmanager.CreateSecret'' body now db') = db'"
proof -
  have "str_contains (''ResourceExistsException: secret '' @ n @ '' already exists'') ''ResourceExistsException''"
    by (simp add: starts_with_def)
  moreover have "\<not> str_contains ''UNIQUE constraint failed: secrets.name'' ''ResourceExistsException''"
    by (simp add: starts_with_def)
  ultimately show ?thesis
    using assms
    by (simp add: sm_handle_json_def create_secret_def insert_secret_def classified_error_def
        json_error_response_def)
qed

theorem secrets_create_race_witness:
  "http_status (fst (sm_handle_json sample_ext (\<lambda>i db. snd (insert_secret sample_ext ''k'' (Some ''v'') 9 db))
     ''secretsmanager.CreateSecret'' (JObj [(''Name'', JStr ''k'')]) 9 [])) = 500"
  using secrets_create_race[of "''k''" "[]" "\<lambda>i db. snd (insert_secret sample_ext ''k'' (Some ''v'') 9 db)"
      "JObj [(''Name'', JStr ''k'')]" "snd (insert_secret sample_ext ''k'' (Some ''v'') 9 [])" _ sample_ext 9]
  by (simp add: insert_secret_def get_secret_def body_str_def)

end
