(* ===== verification/Dynamo.thy ===== *)
theory Dynamo
  imports Dynamo_Query Secrets_Manager
begin

text \<open>
  DynamoDB, part 2: the tables (src/src/db.rs), the service (src/src/aws/dynamodb/service.rs) and the
  request handler (src/src/aws/dynamodb/handlers.rs).

  Key schemas, keys and items are stored as JSON text, as in the code; an item is found by the text
  of its key attributes.  An operation on items reads the table first and then acts, in two calls to
  the database: the second call is a definition of its own (\<open>put_tx\<close> and so on).  A request reads
  the clock once.
\<close>

subsection \<open>Tables\<close>

record dynamo_table =
  dt_name :: string
  dt_key_schema :: string
  dt_attr_defs :: string
  dt_created_at :: string

record dynamo_item =
  di_id :: int
  di_table :: string
  di_pk :: string
  di_sk :: string
  di_item :: string
  di_created_at :: string

record dynamo_db =
  dynamo_tables :: "dynamo_table list"
  dynamo_items :: "dynamo_item list"
  next_item_id :: int

definition dynamo_init :: dynamo_db where
  "dynamo_init = \<lparr> dynamo_tables = [], dynamo_items = [], next_item_id = 1 \<rparr>"

definition table_arn :: "string \<Rightarrow> string" where
  "table_arn name = ''arn:aws:dynamodb:'' @ REGION @ '':'' @ ACCOUNT_ID @ '':table/'' @ name"

definition get_table :: "string \<Rightarrow> dynamo_db \<Rightarrow> dynamo_table option" where
  "get_table name db = find (\<lambda>t. dt_name t = name) (dynamo_tables db)"

definition insert_table ::
    "externals \<Rightarrow> string \<Rightarrow> string \<Rightarrow> string \<Rightarrow> int \<Rightarrow> dynamo_db \<Rightarrow> (string, unit) result \<times> dynamo_db" where
  "insert_table E name ks ad now db =
     (if name \<in> dt_name ` set (dynamo_tables db) then
        (Inl ''UNIQUE constraint failed: dynamo_tables.name'', db)
      else (Inr (), db\<lparr> dynamo_tables := dynamo_tables db @
              [\<lparr> dt_name = name, dt_key_schema = ks, dt_attr_defs = ad, dt_created_at = to_rfc3339 E now \<rparr>] \<rparr>))"

definition create_table ::
    "externals \<Rightarrow> string \<Rightarrow> string \<Rightarrow> string \<Rightarrow> int \<Rightarrow> dynamo_db \<Rightarrow> (string, dynamo_table) result \<times> dynamo_db" where
  "create_table E name ks ad now db =
     (case get_table name db of
        Some t \<Rightarrow> (Inr t, db)
      | None \<Rightarrow>
          (case insert_table E name ks ad now db of
             (Inl e, db') \<Rightarrow> (Inl e, db')
           | (Inr _, db') \<Rightarrow>
               (case get_table name db' of
                  Some t \<Rightarrow> (Inr t, db') | None \<Rightarrow> (Inl ''create_table: not found after insert'', db'))))"

definition list_tables :: "dynamo_db \<Rightarrow> string list" where
  "list_tables db = sort (map dt_name (dynamo_tables db))"

definition delete_table :: "string \<Rightarrow> dynamo_db \<Rightarrow> dynamo_db" where
  "delete_table name db =
     db\<lparr> dynamo_items := sql_delete (\<lambda>i. di_table i = name) (dynamo_items db),
         dynamo_tables := sql_delete (\<lambda>t. dt_name t = name) (dynamo_tables db) \<rparr>"

definition parse_or_null :: "externals \<Rightarrow> string \<Rightarrow> json" where
  "parse_or_null E s = (case json_parse E s of Some v \<Rightarrow> v | None \<Rightarrow> JNull)"

definition table_to_json :: "externals \<Rightarrow> dynamo_table \<Rightarrow> json" where
  "table_to_json E t =
     json_obj [(''TableName'', JStr (dt_name t)), (''TableArn'', JStr (table_arn (dt_name t))),
               (''TableStatus'', JStr ''ACTIVE''), (''TableSizeBytes'', JInt 0), (''ItemCount'', JInt 0),
               (''CreationDateTime'', JStr (dt_created_at t)),
               (''KeySchema'', parse_or_null E (dt_key_schema t)),
               (''AttributeDefinitions'', parse_or_null E (dt_attr_defs t)),
               (''ProvisionedThroughput'',
                json_obj [(''ReadCapacityUnits'', JInt 5), (''WriteCapacityUnits'', JInt 5)])]"

subsection \<open>Items\<close>

definition schema_list :: "externals \<Rightarrow> string \<Rightarrow> json list" where
  "schema_list E key_schema =
     (case Option.bind (json_parse E key_schema) as_array of Some a \<Rightarrow> a | None \<Rightarrow> [])"

definition key_name :: "json list \<Rightarrow> string \<Rightarrow> string option" where
  "key_name schema t =
     Option.bind (find (\<lambda>k. json_str ''KeyType'' k = Some t) schema) (json_str ''AttributeName'')"

definition hash_name :: "json list \<Rightarrow> string" where
  "hash_name schema = (case key_name schema ''HASH'' of Some n \<Rightarrow> n | None \<Rightarrow> ''pk'')"

definition extract_key :: "externals \<Rightarrow> string \<Rightarrow> json \<Rightarrow> string \<times> string" where
  "extract_key E key_schema item =
     (let schema = schema_list E key_schema;
          text = (\<lambda>v. case v of Some j \<Rightarrow> json_print E j | None \<Rightarrow> [])
      in (text (json_get (hash_name schema) item),
          text (Option.bind (key_name schema ''RANGE'') (\<lambda>n. json_get n item))))"

definition table_not_found :: "string \<Rightarrow> string" where
  "table_not_found name = ''ResourceNotFoundException: table '' @ name @ '' not found''"

definition with_table ::
    "string \<Rightarrow> (dynamo_table \<Rightarrow> dynamo_db \<Rightarrow> (string, 'a) result \<times> dynamo_db) \<Rightarrow> dynamo_db
      \<Rightarrow> (string, 'a) result \<times> dynamo_db" where
  "with_table name f db =
     (case get_table name db of None \<Rightarrow> (Inl (table_not_found name), db) | Some t \<Rightarrow> f t db)"

definition at_key :: "string \<Rightarrow> string \<times> string \<Rightarrow> dynamo_item \<Rightarrow> bool" where
  "at_key table key i \<longleftrightarrow> di_table i = table \<and> (di_pk i, di_sk i) = key"

text \<open>
  The three statements on items; the first is
  \<open>INSERT \<dots> ON CONFLICT(table_name, pk, sk) DO UPDATE SET item = excluded.item\<close>.
\<close>

definition upsert_item ::
    "externals \<Rightarrow> int \<Rightarrow> string \<Rightarrow> string \<times> string \<Rightarrow> string \<Rightarrow> dynamo_db \<Rightarrow> dynamo_db" where
  "upsert_item E now table key text db =
     (if \<exists>i\<in>set (dynamo_items db). at_key table key i then
        db\<lparr> dynamo_items := sql_update (at_key table key) (\<lambda>i. i\<lparr> di_item := text \<rparr>) (dynamo_items db) \<rparr>
      else
        db\<lparr> dynamo_items := dynamo_items db @
              [\<lparr> di_id = next_item_id db, di_table = table, di_pk = fst key, di_sk = snd key,
                 di_item = text, di_created_at = to_rfc3339 E now \<rparr>],
            next_item_id := next_item_id db + 1 \<rparr>)"

definition select_item :: "string \<Rightarrow> dynamo_db \<Rightarrow> string \<times> string \<Rightarrow> string option" where
  "select_item table db key = map_option di_item (find (at_key table key) (dynamo_items db))"

definition remove_item :: "string \<Rightarrow> string \<times> string \<Rightarrow> dynamo_db \<Rightarrow> dynamo_db" where
  "remove_item table key db = db\<lparr> dynamo_items := sql_delete (at_key table key) (dynamo_items db) \<rparr>"

definition put_tx :: "externals \<Rightarrow> dynamo_table \<Rightarrow> json \<Rightarrow> int \<Rightarrow> dynamo_db \<Rightarrow> dynamo_db" where
  "put_tx E t item now =
     upsert_item E now (dt_name t) (extract_key E (dt_key_schema t) item) (json_print E item)"

definition put_item ::
    "externals \<Rightarrow> string \<Rightarrow> json \<Rightarrow> int \<Rightarrow> dynamo_db \<Rightarrow> (string, unit) result \<times> dynamo_db" where
  "put_item E name item now = with_table name (\<lambda>t db. (Inr (), put_tx E t item now db))"

definition get_tx :: "externals \<Rightarrow> dynamo_table \<Rightarrow> json \<Rightarrow> dynamo_db \<Rightarrow> json option" where
  "get_tx E t key db =
     map_option (parse_or_null E) (select_item (dt_name t) db (extract_key E (dt_key_schema t) key))"

definition get_item :: "externals \<Rightarrow> string \<Rightarrow> json \<Rightarrow> dynamo_db \<Rightarrow> (string, json option) result" where
  "get_item E name key db =
     (case get_table name db of None \<Rightarrow> Inl (table_not_found name) | Some t \<Rightarrow> Inr (get_tx E t key db))"

definition delete_tx :: "externals \<Rightarrow> dynamo_table \<Rightarrow> json \<Rightarrow> dynamo_db \<Rightarrow> dynamo_db" where
  "delete_tx E t key = remove_item (dt_name t) (extract_key E (dt_key_schema t) key)"

definition delete_item ::
    "externals \<Rightarrow> string \<Rightarrow> json \<Rightarrow> dynamo_db \<Rightarrow> (string, unit) result \<times> dynamo_db" where
  "delete_item E name key = with_table name (\<lambda>t db. (Inr (), delete_tx E t key db))"

text \<open>A negative LIMIT means no limit; rows whose text does not parse are left out.\<close>

definition scan :: "externals \<Rightarrow> string \<Rightarrow> int option \<Rightarrow> dynamo_db \<Rightarrow> json list" where
  "scan E name limit db =
     (let lim = (case limit of Some l \<Rightarrow> l | None \<Rightarrow> 1000);
          rows = sort_key di_id (filter (\<lambda>i. di_table i = name) (dynamo_items db))
      in List.map_filter (\<lambda>i. json_parse E (di_item i)) (if lim < 0 then rows else take (nat lim) rows))"

text \<open>
  \<open>sort_by\<close>: a stable sort by a comparison function.  The standard library specifies its result for
  a total order only; the theorems about sorted results are for keys that are all comparable.
\<close>

fun insert_by :: "('a \<Rightarrow> 'a \<Rightarrow> rust_ordering) \<Rightarrow> 'a \<Rightarrow> 'a list \<Rightarrow> 'a list" where
  "insert_by cmp x [] = [x]"
| "insert_by cmp x (y # ys) = (if cmp x y = OGreater then y # insert_by cmp x ys else x # y # ys)"

definition sort_by :: "('a \<Rightarrow> 'a \<Rightarrow> rust_ordering) \<Rightarrow> 'a list \<Rightarrow> 'a list" where
  "sort_by cmp xs = foldr (insert_by cmp) xs []"

definition range_cmp :: "externals \<Rightarrow> string \<Rightarrow> json \<Rightarrow> json \<Rightarrow> rust_ordering" where
  "range_cmp E rng a b =
     (case (json_get rng a, json_get rng b) of
        (Some x, Some y) \<Rightarrow> (case compare_attr E x y of Some c \<Rightarrow> c | None \<Rightarrow> OEqual)
      | _ \<Rightarrow> OEqual)"

definition query_condition :: "externals \<Rightarrow> json \<Rightarrow> dynamo_table \<Rightarrow> (string, key_condition \<times> string option) result" where
  "query_condition E req t =
     (let schema = schema_list E (dt_key_schema t); rng = key_name schema ''RANGE'';
          obj = (\<lambda>k. case json_get k req of Some v \<Rightarrow> v | None \<Rightarrow> JObj [])
      in case json_str ''KeyConditionExpression'' req of
           None \<Rightarrow> Inl ''ValidationException: KeyConditionExpression is required''
         | Some expr \<Rightarrow>
             (case parse_key_condition expr (obj ''ExpressionAttributeNames'')
                     (obj ''ExpressionAttributeValues'') (hash_name schema) of
                Inl e \<Rightarrow> Inl (''ValidationException: '' @ e)
              | Inr cond \<Rightarrow>
                  (case (kc_sort_key cond, rng) of
                     (Some sk, Some r) \<Rightarrow>
                       if sk \<noteq> r then Inl ''ValidationException: Query key condition not supported''
                       else Inr (cond, rng)
                   | _ \<Rightarrow> Inr (cond, rng))))"

definition query_items :: "externals \<Rightarrow> json \<Rightarrow> key_condition \<Rightarrow> string option \<Rightarrow> json list \<Rightarrow> json list \<times> nat" where
  "query_items E req cond rng everything =
     (let items = filter (kc_matches E cond) everything;
          sorted = (case rng of Some r \<Rightarrow> sort_by (range_cmp E r) items | None \<Rightarrow> items);
          ordered = (if Option.bind (json_get ''ScanIndexForward'' req) as_bool = Some False
                     then rev sorted else sorted);
          limited = (case Option.bind (json_get ''Limit'' req) as_u64 of
                       Some n \<Rightarrow> take n ordered | None \<Rightarrow> ordered)
      in (limited, length items))"

definition query :: "externals \<Rightarrow> json \<Rightarrow> dynamo_db \<Rightarrow> (string, json list \<times> nat) result" where
  "query E req db =
     (let name = body_str req ''TableName'' in
      case get_table name db of
        None \<Rightarrow> Inl ''ResourceNotFoundException: Requested resource not found''
      | Some t \<Rightarrow>
          try_bind (query_condition E req t) (\<lambda>(cond, rng).
            Inr (query_items E req cond rng (scan E name (Some i64_max) db))))"

text \<open>One assignment of a SET expression.\<close>

definition set_part :: "json \<Rightarrow> string \<Rightarrow> json \<Rightarrow> json" where
  "set_part vals part item =
     (case split_once (CHR ''='') part of
        None \<Rightarrow> item
      | Some (lhs, rhs) \<Rightarrow>
          (case (json_get (trim rhs) vals, item) of
             (Some v, JObj m) \<Rightarrow> JObj (bt_insert (trim_start_char (CHR ''#'') (trim lhs)) v m)
           | _ \<Rightarrow> item))"

definition apply_update :: "string option \<Rightarrow> json option \<Rightarrow> json \<Rightarrow> json" where
  "apply_update expr vals item =
     (case (expr, vals) of
        (Some e, Some vs) \<Rightarrow>
          let e = trim e in
          (case (case strip_prefix ''SET '' e of Some r \<Rightarrow> Some r | None \<Rightarrow> strip_prefix ''set '' e) of
             Some rest \<Rightarrow> fold (set_part vs) (split_on (CHR '','') rest) item
           | None \<Rightarrow> item)
      | _ \<Rightarrow> item)"

text \<open>The item is read and then written; \<open>others\<close> is what other requests do in between.\<close>

definition update_item ::
    "externals \<Rightarrow> (dynamo_db \<Rightarrow> dynamo_db) \<Rightarrow> string \<Rightarrow> json \<Rightarrow> string option \<Rightarrow> json option \<Rightarrow> int
      \<Rightarrow> dynamo_db \<Rightarrow> (string, json) result \<times> dynamo_db" where
  "update_item E others name key expr vals now db =
     (case get_item E name key db of
        Inl e \<Rightarrow> (Inl e, db)
      | Inr existing \<Rightarrow>
          let item = apply_update expr vals (case existing of Some i \<Rightarrow> i | None \<Rightarrow> key) in
          (case put_item E name item now (others db) of
             (Inl e, db') \<Rightarrow> (Inl e, db') | (Inr _, db') \<Rightarrow> (Inr item, db')))"

subsection \<open>Batches\<close>

text \<open>One request of a batch: a put and a delete, each if present; the first error ends the batch.\<close>

definition batch_step :: "externals \<Rightarrow> int \<Rightarrow> string \<times> json \<Rightarrow> (dynamo_db, string, unit) action" where
  "batch_step E now x =
     (case x of (name, req) \<Rightarrow>
        act_bind
          (case Option.bind (json_get ''PutRequest'' req) (json_get ''Item'') of
             Some item \<Rightarrow> put_item E name item now | None \<Rightarrow> act_return ())
          (\<lambda>_. case Option.bind (json_get ''DeleteRequest'' req) (json_get ''Key'') of
             Some key \<Rightarrow> delete_item E name key | None \<Rightarrow> act_return ()))"

fun act_seq :: "('s, 'e, unit) action list \<Rightarrow> ('s, 'e, unit) action" where
  "act_seq [] = act_return ()"
| "act_seq (m # ms) = act_bind m (\<lambda>_. act_seq ms)"

definition batch_write :: "externals \<Rightarrow> json \<Rightarrow> int \<Rightarrow> (dynamo_db, string, unit) action" where
  "batch_write E request_items now =
     (let obj = (case as_object request_items of Some m \<Rightarrow> m | None \<Rightarrow> []);
          reqs = concat (map (\<lambda>(name, rs). case as_array rs of Some a \<Rightarrow> map (Pair name) a | None \<Rightarrow> []) obj)
      in act_seq (map (batch_step E now) reqs))"

fun get_items :: "externals \<Rightarrow> string \<Rightarrow> json list \<Rightarrow> dynamo_db \<Rightarrow> (string, json list) result" where
  "get_items E name [] db = Inr []"
| "get_items E name (key # keys) db =
     try_bind (get_item E name key db) (\<lambda>r.
     try_bind (get_items E name keys db) (\<lambda>rest.
       Inr (case r of Some i \<Rightarrow> i # rest | None \<Rightarrow> rest)))"

fun batch_get_tables ::
    "externals \<Rightarrow> (string \<times> json) list \<Rightarrow> (string \<times> json) list \<Rightarrow> dynamo_db
      \<Rightarrow> (string, (string \<times> json) list) result" where
  "batch_get_tables E [] out db = Inr out"
| "batch_get_tables E ((name, req) # rest) out db =
     try_bind (get_items E name
                 (case Option.bind (json_get ''Keys'' req) as_array of Some ks \<Rightarrow> ks | None \<Rightarrow> []) db)
       (\<lambda>items. batch_get_tables E rest (bt_insert name (JArr items) out) db)"

definition batch_get :: "externals \<Rightarrow> json \<Rightarrow> dynamo_db \<Rightarrow> (string, json) result" where
  "batch_get E request_items db =
     try_bind (batch_get_tables E (case as_object request_items of Some m \<Rightarrow> m | None \<Rightarrow> []) [] db)
       (\<lambda>out. Inr (JObj out))"

subsection \<open>The request handler\<close>

definition body_obj :: "json \<Rightarrow> string \<Rightarrow> json" where
  "body_obj body k = (case json_get k body of Some v \<Rightarrow> v | None \<Rightarrow> JObj [])"

definition body_text :: "externals \<Rightarrow> json \<Rightarrow> string \<Rightarrow> string" where
  "body_text E body k = (case json_get k body of Some v \<Rightarrow> json_print E v | None \<Rightarrow> ''[]'')"

definition ddb_internal :: "externals \<Rightarrow> string \<Rightarrow> http_response" where
  "ddb_internal E e = json_error_response E 500 ''InternalError'' e"

definition query_error :: "externals \<Rightarrow> string \<Rightarrow> http_response" where
  "query_error E msg =
     (case strip_prefix ''ResourceNotFoundException: '' msg of
        Some m \<Rightarrow> json_error_response E 400 ''ResourceNotFoundException'' m
      | None \<Rightarrow>
          (case strip_prefix ''ValidationException: '' msg of
             Some m \<Rightarrow> json_error_response E 400 ''ValidationException'' m
           | None \<Rightarrow> ddb_internal E msg))"

definition ddb_reply ::
    "externals \<Rightarrow> ('a \<Rightarrow> json) \<Rightarrow> (string \<Rightarrow> http_response) \<Rightarrow> (string, 'a) result \<times> dynamo_db
      \<Rightarrow> http_response \<times> dynamo_db" where
  "ddb_reply E ok bad r =
     (case r of (Inr v, db) \<Rightarrow> (axum_json E (ok v), db) | (Inl e, db) \<Rightarrow> (bad e, db))"

definition ddb_scan :: "externals \<Rightarrow> json \<Rightarrow> dynamo_db \<Rightarrow> http_response" where
  "ddb_scan E body db =
     (let items = scan E (body_str body ''TableName'') (Option.bind (json_get ''Limit'' body) as_i64) db;
          n = JInt (int (length items))
      in axum_json E (json_obj [(''Items'', JArr items), (''Count'', n), (''ScannedCount'', n)]))"

definition ddb_query :: "externals \<Rightarrow> json \<Rightarrow> dynamo_db \<Rightarrow> http_response" where
  "ddb_query E body db =
     (case query E body db of
        Inr (items, scanned) \<Rightarrow>
          axum_json E (json_obj ([(''Count'', JInt (int (length items))), (''ScannedCount'', JInt (int scanned))]
            @ (if json_str ''Select'' body = Some ''COUNT'' then [] else [(''Items'', JArr items)])))
      | Inl e \<Rightarrow> query_error E e)"

definition ddb_batch_write :: "externals \<Rightarrow> json \<Rightarrow> int \<Rightarrow> dynamo_db \<Rightarrow> http_response \<times> dynamo_db" where
  "ddb_batch_write E body now db =
     ddb_reply E (\<lambda>_. json_obj [(''UnprocessedItems'', JObj [])]) (ddb_internal E)
       (batch_write E (body_obj body ''RequestItems'') now db)"

definition ddb_batch_get :: "externals \<Rightarrow> json \<Rightarrow> dynamo_db \<Rightarrow> http_response" where
  "ddb_batch_get E body db =
     (case batch_get E (body_obj body ''RequestItems'') db of
        Inr r \<Rightarrow> axum_json E (json_obj [(''Responses'', r), (''UnprocessedKeys'', JObj [])])
      | Inl e \<Rightarrow> ddb_internal E e)"

definition ddb_handle_json ::
    "externals \<Rightarrow> (dynamo_db \<Rightarrow> dynamo_db) \<Rightarrow> string \<Rightarrow> json \<Rightarrow> int \<Rightarrow> dynamo_db
      \<Rightarrow> http_response \<times> dynamo_db" where
  "ddb_handle_json E others target body now db =
     (let name = body_str body ''TableName''; nf = classified_error E ''ResourceNotFoundException'';
          key = body_obj body ''Key''
      in if target = ''DynamoDB_20120810.CreateTable'' then
           ddb_reply E (\<lambda>t. json_obj [(''TableDescription'', table_to_json E t)]) (ddb_internal E)
             (create_table E name (body_text E body ''KeySchema'') (body_text E body ''AttributeDefinitions'') now db)
         else if target = ''DynamoDB_20120810.DescribeTable'' then
           (case get_table name db of
              Some t \<Rightarrow> (axum_json E (json_obj [(''Table'', table_to_json E t)]), db)
            | None \<Rightarrow> (json_error_response E 400 ''ResourceNotFoundException'' (''Table not found: '' @ name), db))
         else if target = ''DynamoDB_20120810.ListTables'' then
           (axum_json E (json_obj [(''TableNames'', JArr (map JStr (list_tables db)))]), db)
         else if target = ''DynamoDB_20120810.DeleteTable'' then
           (axum_json E (json_obj [(''TableDescription'',
              json_obj [(''TableName'', JStr name), (''TableStatus'', JStr ''DELETING'')])]),
            delete_table name db)
         else if target = ''DynamoDB_20120810.PutItem'' then
           ddb_reply E (\<lambda>_. JObj []) nf (put_item E name (body_obj body ''Item'') now db)
         else if target = ''DynamoDB_20120810.GetItem'' then
           ddb_reply E (\<lambda>r. case r of Some i \<Rightarrow> json_obj [(''Item'', i)] | None \<Rightarrow> JObj []) nf
             (get_item E name key db, db)
         else if target = ''DynamoDB_20120810.DeleteItem'' then
           ddb_reply E (\<lambda>_. JObj []) nf (delete_item E name key db)
         else if target = ''DynamoDB_20120810.Scan'' then (ddb_scan E body db, db)
         else if target = ''DynamoDB_20120810.Query'' then (ddb_query E body db, db)
         else if target = ''DynamoDB_20120810.UpdateItem'' then
           ddb_reply E (\<lambda>i. json_obj [(''Attributes'', i)]) nf
             (update_item E others name key (json_str ''UpdateExpression'' body)
                (json_get ''ExpressionAttributeValues'' body) now db)
         else if target = ''DynamoDB_20120810.BatchWriteItem'' then ddb_batch_write E body now db
         else if target = ''DynamoDB_20120810.BatchGetItem'' then (ddb_batch_get E body db, db)
         else (json_error_response E 400 ''InvalidAction'' (''Unknown DynamoDB target: '' @ target), db))"

end
