(* ===== verification/Dynamo_Store.thy ===== *)
theory Dynamo_Store
  imports Dynamo
begin

text \<open>
  DynamoDB, part 3: the item store.

  \<open>items_ok\<close> is what the tables keep under every interleaving of database calls: unique table names,
  one item per table and key, identifiers in insertion order.  The three statements on items are a
  dictionary from key texts to item texts (contract \<open>dict\<close>).  \<open>store_ok\<close> adds what whole requests
  keep: every item belongs to a table and lies under the key its own attributes give.
\<close>

subsection \<open>The invariant of the tables\<close>

definition item_key :: "dynamo_item \<Rightarrow> string \<times> string \<times> string" where
  "item_key i = (di_table i, di_pk i, di_sk i)"

definition items_ok :: "dynamo_db \<Rightarrow> bool" where
  "items_ok db \<longleftrightarrow>
     distinct (map dt_name (dynamo_tables db)) \<and> distinct (map item_key (dynamo_items db))
     \<and> sorted_wrt (<) (map di_id (dynamo_items db)) \<and> (\<forall>i\<in>set (dynamo_items db). di_id i < next_item_id db)"

lemma at_key_iff: "at_key table key i \<longleftrightarrow> item_key i = (table, key)"
  by (auto simp: at_key_def item_key_def)

lemma upsert_items_ok: "items_ok db \<Longrightarrow> items_ok (upsert_item E now table key text db)"
  by (auto simp: items_ok_def upsert_item_def at_key_iff set_sql_update map_key_sql_update item_key_def
      sorted_wrt_append)

lemma remove_items_ok: "items_ok db \<Longrightarrow> items_ok (remove_item table key db)"
  by (auto simp: items_ok_def remove_item_def)

lemma delete_table_items_ok: "items_ok db \<Longrightarrow> items_ok (delete_table name db)"
  by (auto simp: items_ok_def delete_table_def)

lemma insert_table_items_ok:
  "items_ok db \<Longrightarrow> insert_table E name ks ad now db = (r, db') \<Longrightarrow> items_ok db'"
  by (auto simp: items_ok_def insert_table_def split: if_splits)

lemma create_table_items_ok:
  "items_ok db \<Longrightarrow> create_table E name ks ad now db = (r, db') \<Longrightarrow> items_ok db'"
  using insert_table_items_ok[of db E name ks ad now]
  by (auto simp: create_table_def split: option.splits prod.splits sum.splits)

subsection \<open>Items as a dictionary\<close>

lemma find_upsert:
  "find (at_key t k) (dynamo_items (upsert_item E now table key text db)) =
     (if (t, k) = (table, key)
      then (case find (at_key t k) (dynamo_items db) of
              Some i \<Rightarrow> Some (i\<lparr> di_item := text \<rparr>)
            | None \<Rightarrow> Some \<lparr> di_id = next_item_id db, di_table = table, di_pk = fst key, di_sk = snd key,
                            di_item = text, di_created_at = to_rfc3339 E now \<rparr>)
      else find (at_key t k) (dynamo_items db))"
proof (cases "\<exists>i\<in>set (dynamo_items db). at_key table key i")
  case True
  have "find (at_key t k) (sql_update (at_key table key) (\<lambda>i. i\<lparr> di_item := text \<rparr>) (dynamo_items db))
      = map_option (\<lambda>i. if at_key table key i then i\<lparr> di_item := text \<rparr> else i)
          (find (at_key t k) (dynamo_items db))"
    by (rule find_sql_update) (simp add: at_key_def)
  moreover have "find (at_key table key) (dynamo_items db) \<noteq> None"
    using True by (auto simp: find_None_set)
  ultimately show ?thesis
    using True
    by (cases "find (at_key t k) (dynamo_items db)")
       (auto simp: upsert_item_def at_key_iff dest: find_Some_set)
next
  case False
  then have "find (at_key table key) (dynamo_items db) = None" by (auto simp: find_None_set)
  with False show ?thesis
    by (auto simp: upsert_item_def find_append at_key_def split: option.splits)
qed

lemma select_upsert:
  "select_item t (upsert_item E now table key text db) k =
     (if (t, k) = (table, key) then Some text else select_item t db k)"
  by (auto simp: select_item_def find_upsert split: option.splits)

lemma find_remove:
  "find (at_key t k) (dynamo_items (remove_item table key db)) =
     (if (t, k) = (table, key) then None else find (at_key t k) (dynamo_items db))"
proof (cases "(t, k) = (table, key)")
  case True
  then show ?thesis by (simp add: remove_item_def find_sql_delete find_None_set)
next
  case False
  then have "(\<lambda>i. at_key t k i \<and> \<not> at_key table key i) = at_key t k" by (auto simp: at_key_iff)
  with False show ?thesis by (auto simp: remove_item_def find_sql_delete)
qed

lemma select_remove:
  "select_item t (remove_item table key db) k = (if (t, k) = (table, key) then None else select_item t db k)"
  by (simp add: select_item_def find_remove)

interpretation items: dict items_ok "select_item table" "upsert_item E now table" "remove_item table"
  for table E now
  by unfold_locales (simp_all add: upsert_items_ok remove_items_ok select_upsert select_remove)

subsection \<open>Database calls\<close>

text \<open>
  Every call a request makes to the database, as one step: the table an item operation works with is
  the one the request has read before, whatever became of it since.
\<close>

datatype dynamo_call =
    CallInsertTable string string string int
  | CallDeleteTable string
  | CallPut dynamo_table json int
  | CallDelete dynamo_table json
  | CallGet dynamo_table json

fun dynamo_exec :: "externals \<Rightarrow> dynamo_call \<Rightarrow> dynamo_db \<Rightarrow> (string, json option) result \<times> dynamo_db" where
  "dynamo_exec E (CallInsertTable name ks ad now) db =
     (case insert_table E name ks ad now db of (Inl e, db') \<Rightarrow> (Inl e, db') | (Inr _, db') \<Rightarrow> (Inr None, db'))"
| "dynamo_exec E (CallDeleteTable name) db = (Inr None, delete_table name db)"
| "dynamo_exec E (CallPut t item now) db = (Inr None, put_tx E t item now db)"
| "dynamo_exec E (CallDelete t key) db = (Inr None, delete_tx E t key db)"
| "dynamo_exec E (CallGet t key) db = (Inr (get_tx E t key db), db)"

interpretation dynamo_calls: service "\<lambda>_. True" dynamo_init dynamo_exec "\<lambda>_. items_ok"
proof unfold_locales
  fix E x db
  assume ok: "items_ok db"
  show "items_ok (snd (dynamo_exec E x db))"
  proof (cases x)
    case (CallInsertTable n ks ad now)
    then show ?thesis
      using insert_table_items_ok[OF ok, of E n ks ad now]
      by (cases "insert_table E n ks ad now db") (auto split: sum.splits)
  qed (use ok in \<open>simp_all add: delete_table_items_ok put_tx_def delete_tx_def upsert_items_ok remove_items_ok\<close>)
qed (simp add: items_ok_def dynamo_init_def)

subsection \<open>What requests keep\<close>

text \<open>The row was stored for the value \<open>v\<close>, in its table, under the key of \<open>v\<close>.\<close>

definition row_for :: "externals \<Rightarrow> dynamo_db \<Rightarrow> dynamo_item \<Rightarrow> json \<Rightarrow> bool" where
  "row_for E db i v \<longleftrightarrow>
     (\<exists>t. get_table (di_table i) db = Some t \<and> (di_pk i, di_sk i) = extract_key E (dt_key_schema t) v)
     \<and> di_item i = json_print E v"

definition store_ok :: "externals \<Rightarrow> dynamo_db \<Rightarrow> bool" where
  "store_ok E db \<longleftrightarrow> items_ok db \<and> (\<forall>i\<in>set (dynamo_items db). \<exists>v. row_for E db i v)"

lemma get_table_upsert [simp]: "get_table n (upsert_item E now table key text db) = get_table n db"
  by (simp add: get_table_def upsert_item_def)

lemma get_table_remove [simp]: "get_table n (remove_item table key db) = get_table n db"
  by (simp add: get_table_def remove_item_def)

lemma get_table_delete: "get_table n (delete_table name db) = (if n = name then None else get_table n db)"
proof -
  have "find (\<lambda>t. dt_name t = n) (sql_delete (\<lambda>t. dt_name t = name) ts)
      = (if n = name then None else find (\<lambda>t. dt_name t = n) ts)" for ts
    by (induction ts) (auto simp: sql_delete_def)
  from this[of "dynamo_tables db"] show ?thesis unfolding get_table_def delete_table_def by simp
qed

lemma get_table_name: "get_table n db = Some t \<Longrightarrow> dt_name t = n"
  by (auto simp: get_table_def dest: find_Some_set)

lemma row_for_upsert [simp]: "row_for E (upsert_item E' now table key text db) = row_for E db"
  by (intro ext) (simp add: row_for_def)

lemma row_for_remove [simp]: "row_for E (remove_item table key db) = row_for E db"
  by (intro ext) (simp add: row_for_def)

text \<open>What one request does to the rows, for a property \<open>P\<close> of the stored values.\<close>

definition rows_all :: "externals \<Rightarrow> (json \<Rightarrow> bool) \<Rightarrow> dynamo_db \<Rightarrow> bool" where
  "rows_all E P db \<longleftrightarrow> items_ok db \<and> (\<forall>i\<in>set (dynamo_items db). \<exists>v. row_for E db i v \<and> P v)"

lemma store_ok_rows: "store_ok E db \<longleftrightarrow> rows_all E (\<lambda>_. True) db"
  by (simp add: store_ok_def rows_all_def)

lemma upsert_rows:
  assumes "i \<in> set (dynamo_items (upsert_item E now table key text db))"
  shows "i \<in> set (dynamo_items db) \<or> at_key table key i \<and> di_item i = text"
proof (cases "\<exists>j\<in>set (dynamo_items db). at_key table key j")
  case True
  with assms obtain j where "j \<in> set (dynamo_items db)"
      "i = (if at_key table key j then j\<lparr> di_item := text \<rparr> else j)"
    by (auto simp: upsert_item_def set_sql_update)
  then show ?thesis by (cases "at_key table key j") (simp_all add: at_key_def)
next
  case False
  then have "upsert_item E now table key text db = db\<lparr> dynamo_items := dynamo_items db @
      [\<lparr> di_id = next_item_id db, di_table = table, di_pk = fst key, di_sk = snd key,
         di_item = text, di_created_at = to_rfc3339 E now \<rparr>], next_item_id := next_item_id db + 1 \<rparr>"
    by (simp add: upsert_item_def)
  with assms show ?thesis by (auto simp: at_key_def)
qed

lemma put_tx_rows:
  assumes "rows_all E P db" "get_table n db = Some t" "P v"
  shows "rows_all E P (put_tx E t v now db)"
proof -
  note [simp] = get_table_name[OF assms(2)]
  let ?k = "extract_key E (dt_key_schema t) v"
  have new: "row_for E db i v" if "at_key n ?k i" "di_item i = json_print E v" for i
    using that assms(2) by (auto simp: row_for_def at_key_def)
  have "\<exists>w. row_for E db i w \<and> P w" if "i \<in> set (dynamo_items (put_tx E t v now db))" for i
    using upsert_rows[OF that[unfolded put_tx_def]] new[of i] assms(1,3)
    by (auto simp: rows_all_def)
  with assms(1) show ?thesis by (simp add: rows_all_def put_tx_def upsert_items_ok)
qed

lemma put_item_rows: "rows_all E P db \<Longrightarrow> P v \<Longrightarrow> put_item E n v now db = (r, db') \<Longrightarrow> rows_all E P db'"
  by (auto simp: put_item_def with_table_def put_tx_rows split: option.splits)

lemma delete_item_rows: "rows_all E P db \<Longrightarrow> delete_item E n key db = (r, db') \<Longrightarrow> rows_all E P db'"
  by (auto simp: delete_item_def with_table_def delete_tx_def rows_all_def remove_items_ok split: option.splits)
     (auto simp: remove_item_def)

lemma delete_table_rows: "rows_all E P db \<Longrightarrow> rows_all E P (delete_table n db)"
  unfolding rows_all_def
  by (auto simp: delete_table_items_ok row_for_def get_table_delete) (auto simp: delete_table_def)

lemma create_table_rows:
  assumes "rows_all E P db" "create_table E' n ks ad now db = (r, db')"
  shows "rows_all E P db'"
proof (cases "get_table n db")
  case None
  then have "n \<notin> dt_name ` set (dynamo_tables db)" by (auto simp: get_table_def find_None_set)
  with None assms(2) have "db' = db\<lparr> dynamo_tables := dynamo_tables db @
        [\<lparr> dt_name = n, dt_key_schema = ks, dt_attr_defs = ad, dt_created_at = to_rfc3339 E' now \<rparr>] \<rparr>"
    by (auto simp: create_table_def insert_table_def split: option.splits)
  moreover from this have "get_table m db = Some t \<Longrightarrow> get_table m db' = Some t" for m t
    by (simp add: get_table_def find_append)
  ultimately show ?thesis
    using assms create_table_items_ok[OF _ assms(2)] by (fastforce simp: rows_all_def row_for_def)
qed (use assms in \<open>simp add: create_table_def\<close>)

lemmas rows_keeps =
  act_keepsI[where P = "rows_all E P" and m = "create_table E' n ks ad now" for E P E' n ks ad now,
    OF create_table_rows]
  act_keepsI[where P = "rows_all E P" and m = "delete_item E n key" for E P n key, OF delete_item_rows]

lemma put_item_keeps: "P v \<Longrightarrow> act_keeps (rows_all E P) (put_item E n v now)"
  by (rule act_keepsI) (rule put_item_rows)

lemma batch_step_rows:
  assumes "\<And>item. Option.bind (json_get ''PutRequest'' (snd x)) (json_get ''Item'') = Some item \<Longrightarrow> P item"
  shows "act_keeps (rows_all E P) (batch_step E now x)"
  unfolding batch_step_def
  by (cases x) (auto split: option.splits simp: assms intro!: put_item_keeps rows_keeps)

lemma act_keeps_seq: "(\<And>m. m \<in> set ms \<Longrightarrow> act_keeps P m) \<Longrightarrow> act_keeps P (act_seq ms)"
  by (induction ms) auto

text \<open>The requests of a batch, in the order they are carried out.\<close>

definition batch_requests :: "json \<Rightarrow> (string \<times> json) list" where
  "batch_requests ri =
     concat (map (\<lambda>(name, rs). case as_array rs of Some a \<Rightarrow> map (Pair name) a | None \<Rightarrow> [])
               (case as_object ri of Some m \<Rightarrow> m | None \<Rightarrow> []))"

lemma batch_write_seq: "batch_write E ri now = act_seq (map (batch_step E now) (batch_requests ri))"
  by (simp add: batch_write_def batch_requests_def Let_def)

lemma batch_write_rows:
  assumes "\<And>x item. x \<in> set (batch_requests ri) \<Longrightarrow>
      Option.bind (json_get ''PutRequest'' (snd x)) (json_get ''Item'') = Some item \<Longrightarrow> P item"
  shows "act_keeps (rows_all E P) (batch_write E ri now)"
  unfolding batch_write_seq by (intro act_keeps_seq) (auto intro!: batch_step_rows assms)

lemma update_item_rows:
  assumes "rows_all E P db" "\<And>item. P item"
  shows "rows_all E P (snd (update_item E (\<lambda>db. db) n key expr vals now db))"
proof (cases "get_item E n key db")
  case (Inr existing)
  let ?item = "apply_update expr vals (case existing of Some i \<Rightarrow> i | None \<Rightarrow> key)"
  obtain r db' where "put_item E n ?item now db = (r, db')" by fastforce
  with put_item_rows[OF assms this] Inr show ?thesis
    by (auto simp: update_item_def Let_def split: sum.splits)
qed (use assms in \<open>simp add: update_item_def\<close>)

lemma snd_ddb_batch_write [simp]:
  "snd (ddb_batch_write E body now db) = snd (batch_write E (body_obj body ''RequestItems'') now db)"
  by (auto simp: ddb_batch_write_def ddb_reply_def split: prod.splits sum.splits)

lemma snd_ddb_reply [simp]: "snd (ddb_reply E ok bad r) = snd r"
  by (auto simp: ddb_reply_def split: prod.splits sum.splits)

text \<open>A request without UpdateItem keeps what holds of the items it stores; any request keeps the rest.\<close>

lemma ddb_request_rows:
  assumes rows: "rows_all E P db"
    and put: "P (body_obj body ''Item'')"
    and batch: "\<And>x item. x \<in> set (batch_requests (body_obj body ''RequestItems'')) \<Longrightarrow>
      Option.bind (json_get ''PutRequest'' (snd x)) (json_get ''Item'') = Some item \<Longrightarrow> P item"
    and upd: "target = ''DynamoDB_20120810.UpdateItem'' \<Longrightarrow> P = (\<lambda>_. True)"
  shows "rows_all E P (snd (ddb_handle_json E (\<lambda>db. db) target body now db))"
proof -
  have keep: "rows_all E P (snd (m db))" if "act_keeps (rows_all E P) m" for m :: "(dynamo_db, 'e, 'a) action"
    using that rows by (auto simp: act_keeps_def)
  have c: "rows_all E P (snd (create_table E' n ks ad now' db))" for E' n ks ad now'
    by (rule keep) (rule rows_keeps)
  have p: "rows_all E P (snd (put_item E n (body_obj body ''Item'') now db))" for n
    by (rule keep) (rule put_item_keeps, rule put)
  have d: "rows_all E P (snd (delete_item E n key db))" for n key
    by (rule keep) (rule rows_keeps)
  have b: "rows_all E P (snd (batch_write E (body_obj body ''RequestItems'') now db))"
    by (rule keep) (rule batch_write_rows, rule batch)
  have u: "target = ''DynamoDB_20120810.UpdateItem'' \<Longrightarrow>
      rows_all E P (snd (update_item E (\<lambda>db. db) n key expr vals now db))" for n key expr vals
    using update_item_rows[OF rows] upd by simp
  show ?thesis
    unfolding ddb_handle_json_def Let_def
    by (simp only: if_distrib[of snd] if_distrib[of "rows_all E P"] snd_ddb_reply snd_ddb_batch_write snd_conv c p d b
        rows delete_table_rows[OF rows] option.case_distrib[of snd] option.case_distrib[of "rows_all E P"])
       (auto simp: u split: option.splits)
qed

subsection \<open>Concrete tables and items\<close>

text \<open>A table with a partition key, on the sample instance of the external functions.\<close>

definition sample_schema :: json where
  "sample_schema = JArr [JObj [(''AttributeName'', JStr ''pk''), (''KeyType'', JStr ''HASH'')]]"

definition sample_table :: dynamo_table where
  "sample_table = \<lparr> dt_name = ''t'', dt_key_schema = json_print sample_ext sample_schema, dt_attr_defs = ''[]'',
     dt_created_at = to_rfc3339 sample_ext 1 \<rparr>"

definition sample_key :: "string \<Rightarrow> json" where
  "sample_key k = JObj [(''pk'', JObj [(''S'', JStr k)])]"

definition sample_tables :: dynamo_db where
  "sample_tables = dynamo_init\<lparr> dynamo_tables := [sample_table] \<rparr>"

lemma utf8_valid_lit: "utf8_valid s = True" if "list_all (\<lambda>c. code_of c < 128) s"
  using utf8_valid_ascii[OF that] by simp

lemma sample_schema_ok: "json_ok sample_schema"
  by (simp add: sample_schema_def json_ok_def utf8_valid_lit bt_ok_def)

lemma sample_key_ok: "utf8_valid k \<Longrightarrow> json_ok (sample_key k)"
  by (simp add: sample_key_def json_ok_def utf8_valid_lit bt_ok_def)

lemma sample_parse: "json_ok v \<Longrightarrow> json_parse sample_ext (json_print sample_ext v) = Some v"
  using sample_ext_laws(5) by (simp add: json_roundtrip_def)

lemma sample_schema_list [simp]:
  "schema_list sample_ext (json_print sample_ext sample_schema) =
     [JObj [(''AttributeName'', JStr ''pk''), (''KeyType'', JStr ''HASH'')]]"
  by (simp add: schema_list_def sample_parse[OF sample_schema_ok]) (simp add: sample_schema_def)

definition sample_item :: "string \<Rightarrow> json" where
  "sample_item k = JObj [(''n'', JObj [(''N'', JStr ''1'')]), (''pk'', JObj [(''S'', JStr k)])]"

lemma sample_item_ok: "utf8_valid k \<Longrightarrow> json_ok (sample_item k)"
  by (simp add: sample_item_def json_ok_def utf8_valid_lit bt_ok_def)

lemma sample_get_table [simp]: "get_table ''t'' sample_tables = Some sample_table"
  by (simp add: get_table_def sample_tables_def sample_table_def)

lemma sample_table_fields [simp]:
  "dt_name sample_table = ''t''" "dt_key_schema sample_table = json_print sample_ext sample_schema"
  by (simp_all add: sample_table_def)

lemma sample_extract:
  "extract_key sample_ext (json_print sample_ext sample_schema) v =
     (case json_get ''pk'' v of Some j \<Rightarrow> json_print sample_ext j | None \<Rightarrow> [], [])"
  by (simp add: extract_key_def hash_name_def key_name_def Let_def)

end
