(* ===== verification/Dynamo_Properties.thy ===== *)
theory Dynamo_Properties
  imports Dynamo_Store
begin

text \<open>
  DynamoDB, part 4: what clients of the item store can rely on, and the two races of requests that
  read before they write.
\<close>

subsection \<open>Values inside a request\<close>

lemma fold_max_ge: "x \<in> set xs \<or> x \<le> a \<Longrightarrow> x \<le> fold max xs (a :: nat)"
proof (induction xs arbitrary: a)
  case (Cons y ys)
  show ?case using Cons.IH[of "max y a"] Cons.prems by (simp add: le_max_iff_disj) blast
qed simp

lemma json_ok_get:
  assumes "json_ok v" "json_get k v = Some w"
  shows "json_ok w"
proof -
  from assms(2) obtain m where v: "v = JObj m" "map_of m k = Some w" by (cases v) auto
  then have mem: "(k, w) \<in> set m" by (simp add: map_of_SomeD)
  then have "json_depth w \<in> set (map snd (map (map_prod id json_depth) m))" by force
  then have "json_depth w \<le> fold max (map snd (map (map_prod id json_depth) m)) 0"
    by (intro fold_max_ge) simp
  moreover have "json_exact w" using assms(1) v(1) mem by (force simp: json_ok_def list_all_iff)
  ultimately show ?thesis using assms(1) v(1) by (simp add: json_ok_def)
qed

lemma json_ok_elem:
  assumes "json_ok v" "as_array v = Some xs" "w \<in> set xs"
  shows "json_ok w"
proof -
  from assms(2) have v: "v = JArr xs" by (cases v) auto
  have "json_depth w \<le> fold max (map json_depth xs) 0" using assms(3) by (intro fold_max_ge) simp
  with assms(1,3) v show ?thesis by (auto simp: json_ok_def list_all_iff)
qed

lemma json_ok_empty [simp]: "json_ok (JObj [])"
  by (simp add: json_ok_def)

lemma json_ok_body_obj: "json_ok body \<Longrightarrow> json_ok (body_obj body k)"
  by (auto simp: body_obj_def dest: json_ok_get split: option.splits)

lemma json_ok_batch:
  assumes "json_ok ri" "x \<in> set (batch_requests ri)"
  shows "json_ok (snd x)"
proof -
  from assms(2) obtain m name rs a where x: "ri = JObj m" "(name, rs) \<in> set m" "as_array rs = Some a" "snd x \<in> set a"
    by (cases ri) (auto simp: batch_requests_def split: option.splits dest: sym)
  from x(1) assms(1) have "distinct (map fst m)"
    by (simp add: json_ok_def bt_ok_distinct)
  with x(1,2) have "json_get name ri = Some rs" by simp
  with assms(1) have "json_ok rs" by (rule json_ok_get)
  then show ?thesis using x(3,4) by (rule json_ok_elem)
qed

subsection \<open>Requests\<close>

text \<open>One request, carried out without another in between.\<close>

definition dynamo_serve :: "externals \<Rightarrow> string \<times> json \<times> int \<Rightarrow> dynamo_db \<Rightarrow> http_response \<times> dynamo_db" where
  "dynamo_serve E x db = (case x of (target, body, now) \<Rightarrow> ddb_handle_json E (\<lambda>db. db) target body now db)"

interpretation dynamo_requests: service "\<lambda>_. True" dynamo_init dynamo_serve store_ok
proof unfold_locales
  fix E x db
  assume "store_ok E db"
  then show "store_ok E (snd (dynamo_serve E x db))"
    by (cases x) (simp add: dynamo_serve_def store_ok_rows ddb_request_rows)
qed (simp add: store_ok_def items_ok_def dynamo_init_def)

lemma requests_rows:
  assumes "\<forall>(target, body, now)\<in>set xs. json_ok body \<and> target \<noteq> ''DynamoDB_20120810.UpdateItem''"
  shows "rows_all E json_ok (snd (run_ops (dynamo_serve E) xs dynamo_init))"
proof -
  let ?A = "\<lambda>(target, body, now). json_ok body \<and> target \<noteq> ''DynamoDB_20120810.UpdateItem''"
  have step: "rows_all E json_ok (snd (dynamo_serve E x s))" if A: "?A x" and r: "rows_all E json_ok s" for s x
  proof -
    obtain target body now where x: "x = (target, body, now)" by (cases x)
    with A have ok: "json_ok body" and not_upd: "target \<noteq> ''DynamoDB_20120810.UpdateItem''" by auto
    have item: "json_ok item" if "y \<in> set (batch_requests (body_obj body ''RequestItems''))"
        "Option.bind (json_get ''PutRequest'' (snd y)) (json_get ''Item'') = Some item" for y item
    proof -
      have "json_ok (snd y)" by (rule json_ok_batch[OF json_ok_body_obj[OF ok] that(1)])
      then show ?thesis
        using that(2) by (cases "json_get ''PutRequest'' (snd y)") (simp_all add: json_ok_get[OF json_ok_get])
    qed
    have "rows_all E json_ok (snd (ddb_handle_json E (\<lambda>db. db) target body now s))"
    proof (rule ddb_request_rows[OF r json_ok_body_obj[OF ok]])
      fix y j assume "y \<in> set (batch_requests (body_obj body ''RequestItems''))"
        "Option.bind (json_get ''PutRequest'' (snd y)) (json_get ''Item'') = Some j"
      then show "json_ok j" by (rule item)
    qed (use not_upd in blast)
    then show ?thesis by (simp add: x dynamo_serve_def)
  qed
  have "rows_all E json_ok dynamo_init" by (simp add: rows_all_def items_ok_def dynamo_init_def)
  with dynamo_requests.run_with[where I = "rows_all E json_ok" and P = "\<lambda>_. True" and A = ?A] step assms
  show ?thesis by (auto simp: dynamo_requests.inv_init)
qed

subsection \<open>Scans and lookups\<close>

lemma stored_item:
  assumes "json_roundtrip E" "rows_all E json_ok db" "get_table name db = Some t"
    and "i \<in> set (dynamo_items db)" "di_table i = name"
  obtains v where "json_parse E (di_item i) = Some v" "extract_key E (dt_key_schema t) v = (di_pk i, di_sk i)"
proof -
  from assms(2,4) obtain v where "row_for E db i v" "json_ok v" by (auto simp: rows_all_def)
  with assms(1,3,5) show ?thesis by (intro that[of v]) (auto simp: row_for_def json_roundtrip_def)
qed

lemma find_item:
  assumes "items_ok db" "i \<in> set (dynamo_items db)"
  shows "find (at_key (di_table i) (di_pk i, di_sk i)) (dynamo_items db) = Some i"
proof -
  have "at_key (di_table i) (di_pk i, di_sk i) = (\<lambda>j. item_key j = item_key i)"
    by (rule ext) (simp add: at_key_iff item_key_def)
  with assms show ?thesis by (simp add: items_ok_def find_unique)
qed

lemma scan_rows:
  "v \<in> set (scan E name lim db) \<Longrightarrow>
     \<exists>i\<in>set (dynamo_items db). di_table i = name \<and> json_parse E (di_item i) = Some v"
  by (auto simp: scan_def Let_def List.map_filter_def split: if_splits dest!: in_set_takeD)

lemma scan_all:
  "i \<in> set (dynamo_items db) \<Longrightarrow> di_table i = name \<Longrightarrow> json_parse E (di_item i) = Some v \<Longrightarrow>
     v \<in> set (scan E name (Some (- 1)) db)"
  by (force simp: scan_def Let_def List.map_filter_def)

text \<open>
  Scan and GetItem agree.  After any sequence of requests other than UpdateItem, an item a
  Scan returns, with or without a limit, is the item GetItem returns for its own key attributes;
  and every item that GetItem returns for some key is among those a Scan without a limit returns.
\<close>

theorem dynamo_scan_get:
  assumes "json_roundtrip E"
    and "\<forall>(target, body, now)\<in>set xs. json_ok body \<and> target \<noteq> ''DynamoDB_20120810.UpdateItem''"
    and "db = snd (run_ops (dynamo_serve E) xs dynamo_init)" "get_table name db = Some t"
  shows "(v \<in> set (scan E name lim db) \<longrightarrow> get_item E name v db = Inr (Some v))
    \<and> (get_item E name key db = Inr (Some v) \<longrightarrow> v \<in> set (scan E name (Some (- 1)) db))"
proof -
  have rows: "rows_all E json_ok db" using requests_rows[OF assms(2)] assms(3) by simp
  then have ok: "items_ok db" by (simp add: rows_all_def)
  note name = get_table_name[OF assms(4)]
  have "get_item E name v db = Inr (Some v)" if v: "v \<in> set (scan E name lim db)"
  proof -
    from scan_rows[OF v] obtain i where i: "i \<in> set (dynamo_items db)" "di_table i = name"
      "json_parse E (di_item i) = Some v" by blast
    from stored_item[OF assms(1) rows assms(4) i(1,2)] i(3)
    have "extract_key E (dt_key_schema t) v = (di_pk i, di_sk i)" by fastforce
    with find_item[OF ok i(1)] i assms(4) name show ?thesis
      by (simp add: get_item_def get_tx_def select_item_def parse_or_null_def)
  qed
  moreover have "v \<in> set (scan E name (Some (- 1)) db)" if "get_item E name key db = Inr (Some v)"
  proof -
    from that assms(4) have "get_tx E t key db = Some v" by (simp add: get_item_def)
    then obtain i where f: "find (at_key name (extract_key E (dt_key_schema t) key)) (dynamo_items db) = Some i"
      and v: "v = parse_or_null E (di_item i)"
      unfolding get_tx_def select_item_def name by fastforce
    from find_Some_set[OF f] have i: "i \<in> set (dynamo_items db)" "di_table i = name" by (auto simp: at_key_def)
    obtain w where "json_parse E (di_item i) = Some w" by (rule stored_item[OF assms(1) rows assms(4) i])
    with v have "json_parse E (di_item i) = Some v" by (simp add: parse_or_null_def)
    with i show ?thesis by (rule scan_all)
  qed
  ultimately show ?thesis by blast
qed

theorem dynamo_scan_get_witness:
  "let db = snd (run_ops (dynamo_serve sample_ext)
        [(''DynamoDB_20120810.CreateTable'', JObj [(''KeySchema'', sample_schema), (''TableName'', JStr ''t'')], 1),
         (''DynamoDB_20120810.PutItem'', JObj [(''Item'', sample_item ''a''), (''TableName'', JStr ''t'')], 2)]
        dynamo_init)
   in get_item sample_ext ''t'' (sample_item ''a'') db = Inr (Some (sample_item ''a''))"
proof -
  let ?xs = "[(''DynamoDB_20120810.CreateTable'', JObj [(''KeySchema'', sample_schema), (''TableName'', JStr ''t'')], 1),
     (''DynamoDB_20120810.PutItem'', JObj [(''Item'', sample_item ''a''), (''TableName'', JStr ''t'')], 2)]"
  have parse: "json_parse sample_ext (json_print sample_ext (sample_item ''a'')) = Some (sample_item ''a'')"
    by (rule sample_parse[OF sample_item_ok]) (simp add: utf8_valid_lit)
  let ?db = "snd (run_ops (dynamo_serve sample_ext) ?xs dynamo_init)"
  have db: "?db = put_tx sample_ext (sample_table\<lparr> dt_attr_defs := ''[]'' \<rparr>) (sample_item ''a'') 2 sample_tables"
    by (simp add: dynamo_serve_def ddb_handle_json_def ddb_reply_def create_table_def insert_table_def
        dynamo_init_def get_table_def body_str_def body_text_def body_obj_def put_item_def with_table_def
        sample_tables_def sample_table_def Let_def)
  have ok: "\<forall>(target, body, now)\<in>set ?xs. json_ok body \<and> target \<noteq> ''DynamoDB_20120810.UpdateItem''"
    by (simp add: json_ok_def utf8_valid_lit bt_ok_def sample_schema_def sample_item_def)
  have "get_table ''t'' ?db = Some sample_table" unfolding db by (simp add: put_tx_def)
  moreover have "sample_item ''a'' \<in> set (scan sample_ext ''t'' None ?db)"
    unfolding db
    by (simp add: scan_def put_tx_def upsert_item_def sample_tables_def dynamo_init_def List.map_filter_def parse)
  ultimately show ?thesis
    using dynamo_scan_get[OF sample_ext_laws(5) ok refl, of "''t''" sample_table "sample_item ''a''" None]
    unfolding Let_def by blast
qed

subsection \<open>Sequences of writes\<close>

text \<open>What a call writes under a key of the table \<open>t\<close>, and the calls of requests that have read \<open>t\<close>.\<close>

fun call_write :: "externals \<Rightarrow> dynamo_table \<Rightarrow> string \<times> string \<Rightarrow> dynamo_call \<Rightarrow> json option option" where
  "call_write E t k (CallPut t' v now) =
     (if t' = t \<and> extract_key E (dt_key_schema t) v = k then Some (Some v) else None)"
| "call_write E t k (CallDelete t' key) =
     (if t' = t \<and> extract_key E (dt_key_schema t) key = k then Some None else None)"
| "call_write E t k _ = None"

fun call_fits :: "dynamo_table \<Rightarrow> dynamo_call \<Rightarrow> bool" where
  "call_fits t (CallPut t' v now) \<longleftrightarrow> json_ok v \<and> (t' = t \<or> dt_name t' \<noteq> dt_name t)"
| "call_fits t (CallDelete t' key) \<longleftrightarrow> t' = t \<or> dt_name t' \<noteq> dt_name t"
| "call_fits t (CallDeleteTable n) \<longleftrightarrow> n \<noteq> dt_name t"
| "call_fits t _ \<longleftrightarrow> True"

lemma select_delete_table: "n \<noteq> table \<Longrightarrow> select_item table (delete_table n db) k = select_item table db k"
proof -
  assume "n \<noteq> table"
  then have "find (at_key table k) (sql_delete (\<lambda>i. di_table i = n) is) = find (at_key table k) is" for "is"
    by (induction "is") (auto simp: sql_delete_def at_key_def)
  then show ?thesis by (simp add: select_item_def delete_table_def)
qed

lemma dynamo_items_insert_table [simp]: "dynamo_items (snd (insert_table E n ks ad now db)) = dynamo_items db"
  by (simp add: insert_table_def)

lemma get_tx_call:
  assumes "json_roundtrip E" "call_fits t c"
  shows "get_tx E t key (snd (dynamo_exec E c db)) =
    (case call_write E t (extract_key E (dt_key_schema t) key) c of Some w \<Rightarrow> w | None \<Rightarrow> get_tx E t key db)"
proof (cases c)
  case (CallInsertTable n ks ad now)
  then show ?thesis
    using dynamo_items_insert_table[of E n ks ad now db]
    by (cases "insert_table E n ks ad now db") (auto simp: get_tx_def select_item_def split: sum.splits)
next
  case (CallPut t' v now)
  then have "json_parse E (json_print E v) = Some v"
    using assms by (auto simp: json_roundtrip_def)
  with CallPut assms(2) show ?thesis
    by (auto simp: get_tx_def put_tx_def select_upsert parse_or_null_def)
qed (use assms(2) in \<open>auto simp: get_tx_def delete_tx_def select_remove select_delete_table\<close>)

text \<open>
  C8: The last write is the one read.  Whatever requests interleave their database calls, as long
  as the table is not deleted: GetItem returns the item of the last PutItem whose key attributes
  have the same text, nothing if that key was deleted last, and otherwise what was there before.
\<close>

theorem dynamo_last_write:
  assumes "json_roundtrip E" "list_all (call_fits t) calls"
  shows "get_tx E t key (snd (run_ops (dynamo_exec E) calls db)) =
    (case rev (List.map_filter (call_write E t (extract_key E (dt_key_schema t) key)) calls) of
       [] \<Rightarrow> get_tx E t key db | w # _ \<Rightarrow> w)"
  using assms(2)
proof (induction calls rule: rev_induct)
  case (snoc c calls)
  then show ?case
    by (cases "call_write E t (extract_key E (dt_key_schema t) key) c")
       (simp_all add: run_ops_append get_tx_call[OF assms(1)] List.map_filter_def)
qed (simp add: List.map_filter_def)

theorem dynamo_last_write_witness:
  "get_tx sample_ext sample_table (sample_key ''a'')
     (snd (run_ops (dynamo_exec sample_ext)
        [CallPut sample_table (sample_item ''a'') 1, CallDelete sample_table (sample_key ''a''),
         CallPut sample_table (sample_key ''a'') 2] sample_tables)) = Some (sample_key ''a'')"
  using dynamo_last_write[OF sample_ext_laws(5), of sample_table
      "[CallPut sample_table (sample_item ''a'') 1, CallDelete sample_table (sample_key ''a''),
        CallPut sample_table (sample_key ''a'') 2]" "sample_key ''a''" sample_tables]
  by (simp add: sample_item_ok sample_key_ok utf8_valid_lit sample_extract List.map_filter_def)

subsection \<open>Keys\<close>

definition key_attrs :: "json list \<Rightarrow> json \<Rightarrow> json option \<times> json option" where
  "key_attrs schema v =
     (json_get (hash_name schema) v, Option.bind (key_name schema ''RANGE'') (\<lambda>n. json_get n v))"

text \<open>All key attributes of the schema are there.\<close>

definition has_key :: "json list \<Rightarrow> json \<Rightarrow> bool" where
  "has_key schema v \<longleftrightarrow>
     json_get (hash_name schema) v \<noteq> None
     \<and> (case key_name schema ''RANGE'' of None \<Rightarrow> True | Some n \<Rightarrow> json_get n v \<noteq> None)"

lemma extract_key_eq:
  assumes "json_roundtrip E" "json_ok v" "json_ok w"
    and "has_key (schema_list E ks) v" "has_key (schema_list E ks) w"
  shows "extract_key E ks v = extract_key E ks w \<longleftrightarrow> key_attrs (schema_list E ks) v = key_attrs (schema_list E ks) w"
proof -
  have inj: "json_print E a = json_print E b \<longleftrightarrow> a = b" if "json_get k v = Some a" "json_get k w = Some b" for k a b
    using that json_print_inject[OF assms(1)] json_ok_get assms(2,3) by blast
  show ?thesis
    using assms(4,5) inj by (auto simp: extract_key_def key_attrs_def has_key_def Let_def split: option.splits)
qed

text \<open>
  C11: Put, then get.  After a successful PutItem, GetItem returns exactly the item for a key with
  the same key attributes, and for any other key of the table, or of another table, what it
  returned before.
\<close>

theorem dynamo_put_get:
  assumes "json_roundtrip E" "json_ok item" "json_ok key" "get_table name db = Some t"
    and "has_key (schema_list E (dt_key_schema t)) item" "has_key (schema_list E (dt_key_schema t)) key"
    and "put_item E name item now db = (r, db')"
  shows "r = Inr () \<and> get_item E name key db' =
      (if key_attrs (schema_list E (dt_key_schema t)) key = key_attrs (schema_list E (dt_key_schema t)) item
       then Inr (Some item) else get_item E name key db)
    \<and> (other = name \<or> get_item E other key db' = get_item E other key db)"
proof -
  have db': "r = Inr ()" "db' = put_tx E t item now db"
    using assms(4,7) by (auto simp: put_item_def with_table_def)
  have "json_parse E (json_print E item) = Some item" using assms(1,2) by (simp add: json_roundtrip_def)
  moreover have "get_item E other key db' = get_item E other key db" if "other \<noteq> name"
    using that get_table_name[OF assms(4)]
    by (auto simp: db'(2) get_item_def get_tx_def put_tx_def select_upsert split: option.splits dest!: get_table_name)
  ultimately show ?thesis
    using db' extract_key_eq[OF assms(1,3,2,6,5)] assms(4)
    by (auto simp: get_item_def get_tx_def put_tx_def select_upsert parse_or_null_def)
qed

theorem dynamo_put_get_witness:
  "get_item sample_ext ''t'' (sample_key ''a'') (snd (put_item sample_ext ''t'' (sample_item ''a'') 1 sample_tables))
     = Inr (Some (sample_item ''a''))
   \<and> get_item sample_ext ''t'' (sample_key ''b'') (snd (put_item sample_ext ''t'' (sample_item ''a'') 1 sample_tables))
     = get_item sample_ext ''t'' (sample_key ''b'') sample_tables"
proof -
  have hk: "has_key (schema_list sample_ext (dt_key_schema sample_table)) (sample_item k)"
    "has_key (schema_list sample_ext (dt_key_schema sample_table)) (sample_key k)" for k
    by (simp_all add: has_key_def hash_name_def key_name_def sample_item_def sample_key_def)
  have ka: "key_attrs (schema_list sample_ext (dt_key_schema sample_table)) (sample_item k) = (Some (JObj [(''S'', JStr k)]), None)"
    "key_attrs (schema_list sample_ext (dt_key_schema sample_table)) (sample_key k) = (Some (JObj [(''S'', JStr k)]), None)" for k
    by (simp_all add: key_attrs_def hash_name_def key_name_def sample_item_def sample_key_def)
  have utf: "utf8_valid ''a''" "utf8_valid ''b''" by (simp_all add: utf8_valid_lit)
  note put_get = dynamo_put_get[OF sample_ext_laws(5) sample_item_ok[OF utf(1)] sample_key_ok sample_get_table
      hk(1) hk(2) prod.collapse[symmetric], of _ _ "''t''"]
  show ?thesis using put_get[OF utf(1)] put_get[OF utf(2)] by (simp only: ka) simp
qed

subsection \<open>Batches\<close>

definition batch_admits :: "dynamo_db \<Rightarrow> string \<times> json \<Rightarrow> bool" where
  "batch_admits db x \<longleftrightarrow>
     get_table (fst x) db \<noteq> None
     \<or> (Option.bind (json_get ''PutRequest'' (snd x)) (json_get ''Item'') = None
        \<and> Option.bind (json_get ''DeleteRequest'' (snd x)) (json_get ''Key'') = None)"

lemma get_table_put [simp]: "get_table n (snd (put_item E m v now db)) = get_table n db"
  by (simp add: put_item_def with_table_def put_tx_def split: option.splits)

lemma get_table_delete_item [simp]: "get_table n (snd (delete_item E m k db)) = get_table n db"
  by (simp add: delete_item_def with_table_def delete_tx_def split: option.splits)

lemma put_item_table:
  "fst (put_item E m v now db) = (if get_table m db = None then Inl (table_not_found m) else Inr ())"
  "get_table m db = None \<Longrightarrow> snd (put_item E m v now db) = db"
  by (auto simp: put_item_def with_table_def split: option.splits)

lemma delete_item_table:
  "fst (delete_item E m k db) = (if get_table m db = None then Inl (table_not_found m) else Inr ())"
  "get_table m db = None \<Longrightarrow> snd (delete_item E m k db) = db"
  by (auto simp: delete_item_def with_table_def split: option.splits)

lemma act_bind_eq:
  "act_bind m f s = (case fst (m s) of Inl e \<Rightarrow> (Inl e, snd (m s)) | Inr v \<Rightarrow> f v (snd (m s)))"
  by (cases "m s"; cases "fst (m s)") (simp_all add: act_bind_def)

lemma batch_step_table:
  "fst (batch_step E now x db) = (if batch_admits db x then Inr () else Inl (table_not_found (fst x)))"
  "\<not> batch_admits db x \<Longrightarrow> snd (batch_step E now x db) = db"
  "get_table n (snd (batch_step E now x db)) = get_table n db"
  by (cases x; auto simp: batch_step_def act_bind_eq act_return_def batch_admits_def put_item_table
      delete_item_table split: option.splits)+

lemma batch_admits_step [simp]: "batch_admits (snd (batch_step E now x db)) = batch_admits db"
  by (intro ext) (simp add: batch_admits_def batch_step_table(3))

lemma batch_seq:
  "act_seq (map (batch_step E now) xs) db =
     (case dropWhile (batch_admits db) xs of [] \<Rightarrow> Inr () | x # _ \<Rightarrow> Inl (table_not_found (fst x)),
      fold (\<lambda>x. snd \<circ> batch_step E now x) (takeWhile (batch_admits db) xs) db)"
proof (induction xs arbitrary: db)
  case (Cons x xs)
  then show ?case
    by (cases "batch_admits db x") (simp_all add: act_bind_eq batch_step_table(1,2))
qed (simp add: act_return_def)

text \<open>
  C12: A batch is carried out up to the first missing table.  BatchWriteItem carries out its
  requests in order; it answers 200 exactly when no request writes to a table that does not exist,
  and otherwise answers 500 with the requests before the first such one carried out and kept.
\<close>

theorem dynamo_batch_prefix:
  "let xs = batch_requests (body_obj body ''RequestItems'');
       (reply, db') = ddb_handle_json E others ''DynamoDB_20120810.BatchWriteItem'' body now db
   in http_status reply = (if list_all (batch_admits db) xs then 200 else 500)
      \<and> db' = fold (\<lambda>x. snd \<circ> batch_step E now x) (takeWhile (batch_admits db) xs) db"
proof -
  let ?xs = "batch_requests (body_obj body ''RequestItems'')"
  have "ddb_handle_json E others ''DynamoDB_20120810.BatchWriteItem'' body now db
      = ddb_reply E (\<lambda>_. json_obj [(''UnprocessedItems'', JObj [])]) (ddb_internal E)
          (batch_write E (body_obj body ''RequestItems'') now db)"
    by (simp add: ddb_handle_json_def ddb_batch_write_def)
  then have served: "ddb_handle_json E others ''DynamoDB_20120810.BatchWriteItem'' body now db
      = ddb_reply E (\<lambda>_. json_obj [(''UnprocessedItems'', JObj [])]) (ddb_internal E)
          (case dropWhile (batch_admits db) ?xs of [] \<Rightarrow> Inr () | x # _ \<Rightarrow> Inl (table_not_found (fst x)),
           fold (\<lambda>x. snd \<circ> batch_step E now x) (takeWhile (batch_admits db) ?xs) db)"
    by (simp only: batch_write_seq batch_seq)
  have "dropWhile (batch_admits db) ?xs = [] \<longleftrightarrow> list_all (batch_admits db) ?xs"
    by (simp add: dropWhile_eq_Nil_conv list_all_iff)
  then show ?thesis
    unfolding served
    by (cases "dropWhile (batch_admits db) ?xs")
       (auto simp: Let_def ddb_reply_def ddb_internal_def axum_json_def json_error_response_def
          simp del: dropWhile_eq_Nil_conv)
qed

subsection \<open>Races\<close>

text \<open>
  Updates can be lost.  Two UpdateItem requests on one item, the second between the read and
  the write of the first: both succeed, but the item keeps only what the first has set, and what
  the second has set is gone.  One after the other they would both be applied.
\<close>

theorem dynamo_update_race:
  assumes "json_roundtrip E" "get_table name db = Some t" "get_item E name key db = Inr (Some v)"
    and "\<And>w. w \<in> {v, apply_update e2 vals2 v} \<Longrightarrow> json_ok (apply_update e1 vals1 w)"
    and "json_ok (apply_update e2 vals2 v)"
    and "\<And>w. w \<in> {apply_update e1 vals1 v, apply_update e2 vals2 v, apply_update e1 vals1 (apply_update e2 vals2 v)}
           \<Longrightarrow> extract_key E (dt_key_schema t) w = extract_key E (dt_key_schema t) key"
  shows "let second = \<lambda>db. snd (update_item E (\<lambda>db. db) name key e2 vals2 now db);
             (r, db') = update_item E second name key e1 vals1 now db;
             (r2, db2) = update_item E (\<lambda>db. db) name key e1 vals1 now (second db)
         in r = Inr (apply_update e1 vals1 v) \<and> get_item E name key db' = Inr (Some (apply_update e1 vals1 v))
          \<and> r2 = Inr (apply_update e1 vals1 (apply_update e2 vals2 v))
          \<and> get_item E name key db2 = Inr (Some (apply_update e1 vals1 (apply_update e2 vals2 v)))"
proof -
  have put: "put_item E name w now db0 = (Inr (), put_tx E t w now db0)" if "get_table name db0 = Some t" for w db0
    using that by (simp add: put_item_def with_table_def)
  have got: "get_item E name key (put_tx E t w now db0) = Inr (Some w)"
    if "get_table name db0 = Some t" "json_ok w" "extract_key E (dt_key_schema t) w = extract_key E (dt_key_schema t) key" for w db0
    using that assms(1)
    by (simp add: get_item_def get_tx_def put_tx_def select_upsert parse_or_null_def json_roundtrip_def)
  have tab: "get_table name (put_tx E t w now db0) = get_table name db0" for w db0 by (simp add: put_tx_def)
  have upd: "update_item E others name key e vals now db0 = (Inr (apply_update e vals w), put_tx E t (apply_update e vals w) now (others db0))"
    if "get_item E name key db0 = Inr (Some w)" "get_table name (others db0) = Some t" for others e vals db0 w
    using that by (simp add: update_item_def Let_def put)
  have second: "snd (update_item E (\<lambda>db. db) name key e2 vals2 now db) = put_tx E t (apply_update e2 vals2 v) now db"
    using upd[OF assms(3), of "\<lambda>db. db" e2 vals2] assms(2) by simp
  have "get_item E name key (put_tx E t (apply_update e2 vals2 v) now db) = Inr (Some (apply_update e2 vals2 v))"
    by (rule got) (use assms in auto)
  then show ?thesis
    using assms by (simp add: second upd tab got)
qed

theorem dynamo_update_race_witness:
  "let db = snd (put_item sample_ext ''t'' (sample_key ''a'') 1 sample_tables);
       second = \<lambda>db. snd (update_item sample_ext (\<lambda>db. db) ''t'' (sample_key ''a'') (Some ''SET b = :y'')
                          (Some (JObj [('':y'', JStr ''2'')])) 1 db)
   in get_item sample_ext ''t'' (sample_key ''a'')
        (snd (update_item sample_ext second ''t'' (sample_key ''a'') (Some ''SET a = :x'')
           (Some (JObj [('':x'', JStr ''1'')])) 1 db))
      = Inr (Some (JObj [(''a'', JStr ''1''), (''pk'', JObj [(''S'', JStr ''a'')])]))"
proof -
  let ?e1 = "Some ''SET a = :x''" and ?v1 = "Some (JObj [('':x'', JStr ''1'')])"
  let ?e2 = "Some ''SET b = :y''" and ?v2 = "Some (JObj [('':y'', JStr ''2'')])"
  let ?db = "snd (put_item sample_ext ''t'' (sample_key ''a'') 1 sample_tables)"
  have words: "trim ''SET a = :x'' = ''SET a = :x''" "trim ''SET b = :y'' = ''SET b = :y''"
    "trim ''a '' = ''a''" "trim ''b '' = ''b''" "trim '' :x'' = '':x''" "trim '' :y'' = '':y''"
    using trim_word(3)[of "''a''"] trim_word(3)[of "''b''"]
    by (simp_all add: trim_word visible_word_def visible_def)
  have e1: "apply_update ?e1 ?v1 (JObj m) = JObj (bt_insert ''a'' (JStr ''1'') m)" for m
    by (simp add: apply_update_def set_part_def Let_def words split_once_def trim_start_char_def starts_with_def strip_prefix_def)
  have e2: "apply_update ?e2 ?v2 (JObj m) = JObj (bt_insert ''b'' (JStr ''2'') m)" for m
    by (simp add: apply_update_def set_part_def Let_def words split_once_def trim_start_char_def starts_with_def strip_prefix_def)
  have tab: "get_table ''t'' ?db = Some sample_table" by simp
  have key: "json_ok (sample_key ''a'')" by (rule sample_key_ok) (simp add: utf8_valid_lit)
  have got: "get_item sample_ext ''t'' (sample_key ''a'') ?db = Inr (Some (sample_key ''a''))"
    by (simp add: put_item_def with_table_def get_item_def get_tx_def put_tx_def select_upsert
        parse_or_null_def sample_parse[OF key])
  let ?k = "sample_key ''a''"
  note calc = e1 e2 sample_key_def sample_extract bt_insert_def json_ok_def utf8_valid_lit bt_ok_def
  have h1: "json_ok (apply_update ?e1 ?v1 w)" if "w \<in> {?k, apply_update ?e2 ?v2 ?k}" for w
    using that by (elim insertE emptyE) (simp_all add: calc)
  have h2: "json_ok (apply_update ?e2 ?v2 ?k)" by (simp add: calc)
  have h3: "extract_key sample_ext (dt_key_schema sample_table) w = extract_key sample_ext (dt_key_schema sample_table) ?k"
    if "w \<in> {apply_update ?e1 ?v1 ?k, apply_update ?e2 ?v2 ?k, apply_update ?e1 ?v1 (apply_update ?e2 ?v2 ?k)}" for w
    using that by (elim insertE emptyE) (simp_all add: calc)
  have "apply_update ?e1 ?v1 ?k = JObj [(''a'', JStr ''1''), (''pk'', JObj [(''S'', JStr ''a'')])]"
    by (simp add: calc)
  with dynamo_update_race[OF sample_ext_laws(5) tab got h1 h2 h3, of 1] show ?thesis
    by (simp add: Let_def split_beta)
qed

text \<open>
  Items can outlive their table.  A PutItem that has read the table before a DeleteTable and
  stores its item after it succeeds, and the item is there when a table of that name and key
  schema is created again; stored before the DeleteTable, it is gone.
\<close>

theorem dynamo_orphan_race:
  assumes "json_roundtrip E" "json_ok item" "get_table name db = Some t"
  shows "get_item E name item
        (snd (create_table E name (dt_key_schema t) ad now' (put_tx E t item now (delete_table name db)))) = Inr (Some item)
    \<and> get_item E name item
        (snd (create_table E name (dt_key_schema t) ad now' (delete_table name (put_tx E t item now db)))) = Inr None"
proof -
  have name: "dt_name t = name" by (rule get_table_name[OF assms(3)])
  have new: "get_item E name item (snd (create_table E name (dt_key_schema t) ad now' db0)) =
      Inr (map_option (parse_or_null E) (select_item name db0 (extract_key E (dt_key_schema t) item)))"
    if none: "get_table name db0 = None" for db0
  proof -
    from none have fresh: "name \<notin> dt_name ` set (dynamo_tables db0)" by (auto simp: get_table_def find_None_set)
    with none show ?thesis
      by (simp add: create_table_def insert_table_def get_item_def get_tx_def select_item_def)
         (simp add: get_table_def find_append get_tx_def select_item_def)
  qed
  have "select_item name (delete_table name db0) k = None" for db0 k
    by (auto simp: select_item_def delete_table_def find_None_set at_key_def)
  moreover have "json_parse E (json_print E item) = Some item" using assms(1,2) by (simp add: json_roundtrip_def)
  ultimately show ?thesis
    by (simp add: new get_table_delete put_tx_def name select_upsert parse_or_null_def)
qed

theorem dynamo_orphan_race_witness:
  "get_item sample_ext ''t'' (sample_item ''a'')
     (snd (create_table sample_ext ''t'' (json_print sample_ext sample_schema) ''[]'' 3
        (put_tx sample_ext sample_table (sample_item ''a'') 2 (delete_table ''t'' sample_tables))))
     = Inr (Some (sample_item ''a''))"
  using dynamo_orphan_race[OF sample_ext_laws(5) sample_item_ok[of "''a''"] sample_get_table]
  by (simp add: utf8_valid_lit)

end
