(* ===== verification/Dynamo_Conditions.thy ===== *)
theory Dynamo_Conditions
  imports Dynamo_Store "HOL-Library.Multiset"
begin

text \<open>
  DynamoDB, part 5: the parser of key conditions is right.  Searching, trimming and splitting are
  followed through the text of an expression that is rendered from its parts.  Then what Query
  returns: exactly the items that match, in the order of their sort key, where matching and order are
  defined from what the keys stand for (\<open>key_value\<close>, \<open>key_meets\<close>).
\<close>

subsection \<open>Searching in rendered expressions\<close>

lemma str_find_skip: "c \<notin> set u \<Longrightarrow> str_find (c # p) (u @ w) = map_option (\<lambda>n. length u + n) (str_find (c # p) w)"
proof (induction u)
  case Nil
  show ?case by (cases "str_find (c # p) w") auto
next
  case (Cons a u)
  then show ?case by (cases "str_find (c # p) w") (auto simp: starts_with_def)
qed

lemma str_find_absent: "c \<notin> set s \<Longrightarrow> str_find (c # p) s = None"
  by (induction s) (auto simp: starts_with_def)

lemma str_contains_find: "str_contains s p \<longleftrightarrow> str_find p s \<noteq> None"
  by (induction s) auto

definition token :: "string \<Rightarrow> bool" where
  "token s \<longleftrightarrow> s \<noteq> [] \<and> list_all (\<lambda>c. is_alnum c \<or> c \<in> set ''_.#:'') s"

lemma token_char:
  assumes "token s" "c \<in> set s"
  shows "visible c" "c \<notin> set ''()<>=, ''" "to_upper c \<noteq> CHR '' ''"
proof -
  have c: "is_alnum c \<or> c \<in> set ''_.#:''" using assms by (auto simp: token_def list_all_iff)
  have up: "char_of (code_of c - 32) \<noteq> CHR '' ''" if "is_lower c"
  proof
    assume "char_of (code_of c - 32) = CHR '' ''"
    then have "code_of (char_of (code_of c - 32) :: char) = 32" by simp
    moreover have "code_of c - 32 < 256" "64 < code_of c - 32" using that by (auto simp: is_lower_def)
    ultimately show False by simp
  qed
  from c show "visible c" "c \<notin> set ''()<>=, ''" "to_upper c \<noteq> CHR '' ''"
    by (auto simp: up to_upper_def) (auto simp: is_alnum_def is_digit_def is_upper_def is_lower_def visible_def)
qed

lemma token_sets:
  assumes "token s"
  shows "s \<noteq> []" "CHR '' '' \<notin> set s" "CHR ''('' \<notin> set s" "CHR '')'' \<notin> set s" "CHR ''<'' \<notin> set s"
    "CHR ''>'' \<notin> set s" "CHR ''='' \<notin> set s" "CHR '','' \<notin> set s" "CHR '' '' \<notin> to_upper ` set s"
    "visible (hd s)" "visible (last s)"
proof -
  show "CHR '' '' \<notin> to_upper ` set s"
  proof
    assume "CHR '' '' \<in> to_upper ` set s"
    then obtain c where "c \<in> set s" "to_upper c = CHR '' ''" by auto
    with token_char(3)[OF assms] show False by blast
  qed
qed (use token_char(1,2)[OF assms] assms in \<open>auto simp: token_def\<close>)

text \<open>The loop does not look at what lies before the current part.\<close>

lemma split_and_loop_drop:
  "k \<le> length expr \<Longrightarrow> split_and_loop expr (k + start) (k + i) pending = split_and_loop (drop k expr) start i pending"
proof (induction "drop k expr" start i pending rule: split_and_loop.induct)
  case (1 start i pending)
  have drops: "drop (k + i) (ascii_uppercase expr) = drop i (ascii_uppercase (drop k expr))"
    by (simp add: ascii_uppercase_def drop_map add.commute)
  have b: "drop (k + start) expr = drop start (drop k expr)" by (simp add: add.commute)
  show ?case
  proof (cases "str_find '' AND '' (drop i (ascii_uppercase (drop k expr)))")
    case None
    then show ?thesis
      unfolding split_and_loop.simps[of expr "k + start" "k + i" pending]
        split_and_loop.simps[of "drop k expr" start i pending] drops None option.case b by simp
  next
    case (Some pos)
    have a: "k + i + pos - (k + start) = i + pos - start" by simp
    have IH1: "split_and_loop expr (k + start) (k + (i + pos + 5)) True = split_and_loop (drop k expr) start (i + pos + 5) True"
      if "str_contains (ascii_uppercase (take (i + pos - start) (drop start (drop k expr)))) '' BETWEEN '' \<and> \<not> pending"
      using 1(1)[OF Some refl refl that] 1(3) by simp
    have IH2: "split_and_loop expr (k + (i + pos + 5)) (k + (i + pos + 5)) False = split_and_loop (drop k expr) (i + pos + 5) (i + pos + 5) False"
      if "\<not> (str_contains (ascii_uppercase (take (i + pos - start) (drop start (drop k expr)))) '' BETWEEN '' \<and> \<not> pending)"
      using 1(2)[OF Some refl refl that] 1(3) by simp
    show ?thesis
      unfolding split_and_loop.simps[of expr "k + start" "k + i" pending]
        split_and_loop.simps[of "drop k expr" start i pending] drops Some option.case Let_def a b
      using IH1 IH2
      by (cases "str_contains (ascii_uppercase (take (i + pos - start) (drop start (drop k expr)))) '' BETWEEN '' \<and> \<not> pending")
         (simp_all only: add.assoc if_True if_False simp_thms)
  qed
qed

corollary split_and_loop_append:
  "split_and_loop (u @ w) (length u) (length u) False = split_and w"
  using split_and_loop_drop[of "length u" "u @ w" 0 0 False] by (simp add: split_and_def)

lemma split_and_none: "str_find '' AND '' (ascii_uppercase s) = None \<Longrightarrow> split_and s = [trim s]"
  by (simp add: split_and_def split_and_loop.simps[of s])

lemma split_and_step:
  assumes "str_find '' AND '' (ascii_uppercase (u @ '' AND '' @ w)) = Some (length u)"
  shows "split_and (u @ '' AND '' @ w) =
    (if str_find '' BETWEEN '' (ascii_uppercase u) \<noteq> None
     then split_and_loop (u @ '' AND '' @ w) 0 (length u + 5) True else trim u # split_and w)"
proof -
  let ?e = "u @ '' AND '' @ w"
  have "split_and_loop ?e (length u + 5) (length u + 5) False = split_and w"
    using split_and_loop_append[of "u @ '' AND ''" w] by (simp add: numeral_eq_Suc)
  moreover have "drop 0 (ascii_uppercase ?e) = ascii_uppercase ?e" by simp
  moreover have "take (0 + length u - 0) (drop 0 ?e) = u" by simp
  ultimately show ?thesis
    unfolding split_and_def split_and_loop.simps[of ?e 0 0] str_contains_find
    by (simp only: assms option.case Let_def add_0 simp_thms)
qed

lemma split_and_between:
  assumes "str_find '' AND '' (ascii_uppercase (u @ '' AND '' @ w)) = Some (length u)"
    and "str_find '' BETWEEN '' (ascii_uppercase u) \<noteq> None" "str_find '' AND '' (ascii_uppercase w) = None"
  shows "split_and (u @ '' AND '' @ w) = [trim (u @ '' AND '' @ w)]"
proof -
  have "drop (length u + 5) (ascii_uppercase (u @ '' AND '' @ w)) = ascii_uppercase w"
    by (simp add: ascii_uppercase_def)
  with assms(3) have "split_and_loop (u @ '' AND '' @ w) 0 (length u + 5) True = [trim (u @ '' AND '' @ w)]"
    unfolding split_and_loop.simps[of "u @ '' AND '' @ w" 0 "length u + 5"] by (simp only: option.case drop0)
  with split_and_step[OF assms(1)] assms(2) show ?thesis by simp
qed

subsection \<open>Rendering and parsing\<close>

text \<open>The sort-key part of a KeyConditionExpression, over tokens; a value token is written with its colon.\<close>

datatype sort_expr = SortCmp string string string | SortBetween string string string | SortBegins string string

fun render_sort :: "sort_expr \<Rightarrow> string" where
  "render_sort (SortCmp sk op v) = sk @ '' '' @ op @ '' :'' @ v"
| "render_sort (SortBetween sk lo hi) = sk @ '' BETWEEN :'' @ lo @ '' AND :'' @ hi"
| "render_sort (SortBegins sk v) = ''begins_with('' @ sk @ '', :'' @ v @ '')''"

definition name_token :: "string \<Rightarrow> bool" where
  "name_token s \<longleftrightarrow> token s \<and> \<not> starts_with (ascii_lowercase s) ''begins_with''"

fun sort_ok :: "sort_expr \<Rightarrow> bool" where
  "sort_ok (SortCmp sk op v) \<longleftrightarrow> name_token sk \<and> op \<in> {''='', ''<'', ''<='', ''>'', ''>=''} \<and> token v"
| "sort_ok (SortBetween sk lo hi) \<longleftrightarrow> name_token sk \<and> token lo \<and> token hi"
| "sort_ok (SortBegins sk v) \<longleftrightarrow> token sk \<and> token v"

fun sort_meaning :: "json \<Rightarrow> json \<Rightarrow> sort_expr \<Rightarrow> (string \<times> sort_cond) option" where
  "sort_meaning names vals (SortCmp sk op v) =
     map_option (\<lambda>x. (resolve_name sk names, Cmp op x)) (json_get (CHR '':'' # v) vals)"
| "sort_meaning names vals (SortBetween sk lo hi) =
     Option.bind (json_get (CHR '':'' # lo) vals) (\<lambda>x.
       map_option (\<lambda>y. (resolve_name sk names, Between x y)) (json_get (CHR '':'' # hi) vals))"
| "sort_meaning names vals (SortBegins sk v) =
     map_option (\<lambda>x. (resolve_name sk names, BeginsWith x)) (json_get (CHR '':'' # v) vals)"

lemma name_token: "name_token s \<Longrightarrow> token s" by (simp add: name_token_def)

lemma upper_append [simp]: "ascii_uppercase (u @ w) = ascii_uppercase u @ ascii_uppercase w"
  and upper_Cons [simp]: "ascii_uppercase (c # w) = to_upper c # ascii_uppercase w"
  and upper_Nil [simp]: "ascii_uppercase [] = []"
  and set_upper [simp]: "set (ascii_uppercase s) = to_upper ` set s"
  and length_upper [simp]: "length (ascii_uppercase s) = length s"
  by (simp_all add: ascii_uppercase_def)

lemma upper_lits [simp]:
  "to_upper (CHR '' '') = CHR '' ''" "to_upper (CHR '':'') = CHR '':''" "to_upper (CHR ''='') = CHR ''=''"
  "to_upper (CHR ''<'') = CHR ''<''" "to_upper (CHR ''>'') = CHR ''>''" "to_upper (CHR '','') = CHR '',''"
  "to_upper (CHR ''('') = CHR ''(''" "to_upper (CHR '')'') = CHR '')''" "to_upper (CHR ''_'') = CHR ''_''"
  "to_upper (CHR ''A'') = CHR ''A''" "to_upper (CHR ''N'') = CHR ''N''" "to_upper (CHR ''D'') = CHR ''D''"
  "to_upper (CHR ''B'') = CHR ''B''" "to_upper (CHR ''E'') = CHR ''E''" "to_upper (CHR ''T'') = CHR ''T''"
  "to_upper (CHR ''W'') = CHR ''W''"
  by (simp_all add: to_upper_def is_lower_def)

lemma upper_begins_with [simp]:
  "to_upper (CHR ''b'') = CHR ''B''" "to_upper (CHR ''e'') = CHR ''E''" "to_upper (CHR ''g'') = CHR ''G''"
  "to_upper (CHR ''i'') = CHR ''I''" "to_upper (CHR ''n'') = CHR ''N''" "to_upper (CHR ''s'') = CHR ''S''"
  "to_upper (CHR ''w'') = CHR ''W''" "to_upper (CHR ''t'') = CHR ''T''" "to_upper (CHR ''h'') = CHR ''H''"
  by (simp_all add: to_upper_def is_lower_def char_of_def bit_0)

lemma starts_with_Cons [simp]: "starts_with (c # s) (d # p) \<longleftrightarrow> c = d \<and> starts_with s p"
  and starts_with_Nil [simp]: "starts_with s []"
  by (auto simp: starts_with_def)

lemma trim_rendered:
  assumes "visible_word s"
  shows "trim s = s"
  using assms by (rule trim_word)

lemma find_and_cmp:
  assumes "token pk" "token vp"
  shows "str_find '' AND '' (ascii_uppercase (pk @ '' = :'' @ vp @ '' AND '' @ w)) = Some (length (pk @ '' = :'' @ vp))"
    "str_find '' BETWEEN '' (ascii_uppercase (pk @ '' = :'' @ vp)) = None"
    "str_find '' AND '' (ascii_uppercase (pk @ '' = :'' @ vp)) = None"
  using token_sets(2,9)[OF assms(1)] token_sets(2,9)[OF assms(2)]
  by (simp_all add: str_find_skip str_find_absent)

lemma split_rendered:
  assumes "sort_ok se"
  shows "split_and (render_sort se) = [render_sort se]"
proof (cases se)
  case (SortCmp sk op v)
  with assms have t: "token sk" "token v" and op: "op \<in> {''='', ''<'', ''<='', ''>'', ''>=''}" by (auto simp: name_token)
  note [simp] = token_sets(1,2,9,10,11)[OF t(1)] token_sets(1,2,9,10,11)[OF t(2)]
  have "str_find '' AND '' (ascii_uppercase (render_sort se)) = None"
    using op SortCmp by (auto simp: str_find_skip str_find_absent)
  moreover have "visible_word (render_sort se)" using SortCmp by (simp add: visible_word_def)
  ultimately show ?thesis by (simp add: split_and_none trim_word)
next
  case (SortBegins sk v)
  with assms have t: "token sk" "token v" by auto
  note [simp] = token_sets(1,2,9,10,11)[OF t(1)] token_sets(1,2,9,10,11)[OF t(2)]
  have "str_find '' AND '' (ascii_uppercase (render_sort se)) = None"
    using SortBegins by (simp add: str_find_skip str_find_absent)
  moreover have "visible_word (render_sort se)" using SortBegins by (simp add: visible_word_def visible_def)
  ultimately show ?thesis by (simp add: split_and_none trim_word)
next
  case (SortBetween sk lo hi)
  with assms have t: "token sk" "token lo" "token hi" by (auto simp: name_token)
  note [simp] = token_sets(1,2,9,10,11)[OF t(1)] token_sets(1,2,9,10,11)[OF t(2)] token_sets(1,2,9,10,11)[OF t(3)]
  have "visible_word (render_sort se)" using SortBetween by (simp add: visible_word_def)
  moreover have "split_and (render_sort se) = [trim (render_sort se)]"
    using split_and_between[of "sk @ '' BETWEEN :'' @ lo" "CHR '':'' # hi"] SortBetween
    by (simp add: str_find_skip str_find_absent)
  ultimately show ?thesis by (simp add: trim_word)
qed

lemma starts_with_cut: "c \<notin> set q \<Longrightarrow> starts_with (u @ c # r) q \<longleftrightarrow> starts_with u q"
proof (induction u arbitrary: q)
  case Nil
  then show ?case by (cases q) (auto simp: starts_with_def)
next
  case (Cons a u)
  then show ?case by (cases q) auto
qed

lemma strip_parens_id: "visible_word s \<Longrightarrow> hd s \<noteq> CHR ''('' \<Longrightarrow> strip_parens s = s"
  by (cases s) (simp_all add: strip_parens.simps visible_word_def)

lemma lower_name:
  assumes "name_token sk"
  shows "\<not> starts_with (ascii_lowercase (sk @ CHR '' '' # r)) ''begins_with''"
proof -
  have "ascii_lowercase (sk @ CHR '' '' # r) = ascii_lowercase sk @ CHR '' '' # ascii_lowercase r"
    by (simp add: ascii_lowercase_def to_lower_def is_upper_def)
  then show ?thesis using assms by (simp add: starts_with_cut name_token_def)
qed

lemma trim_tokens:
  assumes "token s"
  shows "trim (s @ '' '') = s" "trim s = s" "trim ('' :'' @ s) = CHR '':'' # s" "trim (CHR '':'' # s) = CHR '':'' # s"
  using trim_word[of s] trim_word[of "CHR '':'' # s"] token_sets(1,10,11)[OF assms]
  by (simp_all add: visible_word_def visible_def)

lemma parse_cmp:
  assumes "name_token sk" "op \<in> {''='', ''<'', ''<='', ''>'', ''>=''}" "token v"
    and "json_get (CHR '':'' # v) vals = Some x"
  shows "parse_condition (render_sort (SortCmp sk op v)) names vals = Inr (resolve_name sk names, Cmp op x)"
proof -
  let ?p = "sk @ '' '' @ op @ '' :'' @ v"
  note sk = token_sets[OF name_token[OF assms(1)]] and v = token_sets[OF assms(3)]
  have w: "visible_word ?p" "hd ?p \<noteq> CHR ''(''" using sk(1,3,10) v(1,11) by (cases sk; auto simp: visible_word_def)+
  have id: "strip_parens (trim ?p) = ?p" using trim_word(1)[OF w(1)] strip_parens_id[OF w] by simp
  have lower: "\<not> starts_with (ascii_lowercase ?p) ''begins_with''"
    using lower_name[OF assms(1), of "op @ '' :'' @ v"] by simp
  have between: "str_find '' BETWEEN '' (ascii_uppercase ?p) = None"
    using assms(2) sk(9) v(9) by (auto simp: str_find_skip str_find_absent)
  have ops: "find (\<lambda>op. str_find op ?p \<noteq> None) [''<='', ''>='', ''<'', ''>'', ''=''] = Some op"
    and pos: "str_find op ?p = Some (length sk + 1)"
    using assms(2) sk(5-7) v(5-7) by (auto simp: str_find_skip str_find_absent)
  have cut: "take (length sk + 1) ?p = sk @ '' ''" "drop (length sk + 1 + length op) ?p = '' :'' @ v" by simp_all
  show ?thesis
    unfolding render_sort.simps parse_condition_def Let_def id
    using lower assms(4) trim_tokens[OF assms(3)] trim_tokens[OF name_token[OF assms(1)]]
    by (simp only: between ops pos cut option.case option.sel if_False resolve_value_def try_bind_simps)
qed

lemma parse_between:
  assumes "name_token sk" "token lo" "token hi"
    and "json_get (CHR '':'' # lo) vals = Some x" "json_get (CHR '':'' # hi) vals = Some y"
  shows "parse_condition (render_sort (SortBetween sk lo hi)) names vals = Inr (resolve_name sk names, Between x y)"
proof -
  let ?p = "sk @ '' BETWEEN :'' @ lo @ '' AND :'' @ hi"
  note sk = token_sets[OF name_token[OF assms(1)]] and lo = token_sets[OF assms(2)] and hi = token_sets[OF assms(3)]
  have w: "visible_word ?p" "hd ?p \<noteq> CHR ''(''" using sk(1,3,10) hi(1,11) by (cases sk; auto simp: visible_word_def)+
  have id: "strip_parens (trim ?p) = ?p" using trim_word(1)[OF w(1)] strip_parens_id[OF w] by simp
  have lower: "\<not> starts_with (ascii_lowercase ?p) ''begins_with''"
    using lower_name[OF assms(1), of "''BETWEEN :'' @ lo @ '' AND :'' @ hi"] by simp
  have between: "str_find '' BETWEEN '' (ascii_uppercase ?p) = Some (length sk)"
    using sk(9) by (simp add: str_find_skip)
  have rest: "drop (length sk + 9) ?p = CHR '':'' # lo @ '' AND :'' @ hi" by simp
  have pos: "str_find '' AND '' (ascii_uppercase (CHR '':'' # lo @ '' AND :'' @ hi)) = Some (length lo + 1)"
    using lo(9) by (simp add: str_find_skip)
  have cut: "take (length sk) ?p = sk" "take (length lo + 1) (CHR '':'' # lo @ '' AND :'' @ hi) = CHR '':'' # lo"
    "drop (length lo + 1 + 5) (CHR '':'' # lo @ '' AND :'' @ hi) = CHR '':'' # hi" by (simp_all add: numeral_eq_Suc)
  show ?thesis
    unfolding render_sort.simps parse_condition_def Let_def id
    using lower assms(4,5) trim_tokens[OF assms(2)] trim_tokens[OF assms(3)] trim_tokens[OF name_token[OF assms(1)]]
    by (simp only: between rest pos cut option.case if_False resolve_value_def try_bind_simps)
qed

lemma parse_begins:
  assumes "token sk" "token v" "json_get (CHR '':'' # v) vals = Some x"
  shows "parse_condition (render_sort (SortBegins sk v)) names vals = Inr (resolve_name sk names, BeginsWith x)"
proof -
  let ?p = "''begins_with('' @ sk @ '', :'' @ v @ '')''"
  note sk = token_sets[OF assms(1)] and v = token_sets[OF assms(2)]
  have w: "visible_word ?p" "hd ?p \<noteq> CHR ''(''" by (simp_all add: visible_word_def visible_def)
  have id: "strip_parens (trim ?p) = ?p" using trim_word(1)[OF w(1)] strip_parens_id[OF w] by simp
  have lower: "starts_with (ascii_lowercase ?p) ''begins_with''"
    by (simp add: ascii_lowercase_def to_lower_def is_upper_def)
  have s1: "split_once (CHR ''('') ?p = Some (''begins_with'', sk @ '', :'' @ v @ '')'')"
    using split_once_append[of "CHR ''(''" "''begins_with''" "sk @ '', :'' @ v @ '')''"] by simp
  have s2: "rsplit_once (CHR '')'') (sk @ '', :'' @ v @ '')'') = Some (sk @ '', :'' @ v, [])"
    using rsplit_once_append[of "CHR '')''" "[]" "sk @ '', :'' @ v"] by simp
  have s3: "split_once (CHR '','') (sk @ '', :'' @ v) = Some (sk, '' :'' @ v)"
    using split_once_append[of "CHR '',''" sk "'' :'' @ v"] sk(8) by simp
  show ?thesis
    unfolding render_sort.simps parse_condition_def Let_def id
    using lower assms(3) trim_tokens[OF assms(1)] trim_tokens[OF assms(2)]
    by (simp only: s1 s2 s3 option.case prod.case if_True resolve_value_def try_bind_simps bind.bind_lunit option.map fst_conv)
qed

lemma parse_rendered:
  assumes "sort_ok se" "sort_meaning names vals se = Some srt"
  shows "parse_condition (render_sort se) names vals = Inr srt"
proof (cases se)
  case (SortCmp sk op v)
  then show ?thesis using assms parse_cmp[of sk op v vals] by auto
next
  case (SortBetween sk lo hi)
  with assms obtain x y where "json_get (CHR '':'' # lo) vals = Some x" "json_get (CHR '':'' # hi) vals = Some y"
    "srt = (resolve_name sk names, Between x y)" by (auto simp: bind_eq_Some_conv)
  then show ?thesis using SortBetween assms(1) parse_between[of sk lo hi vals x y] by simp
next
  case (SortBegins sk v)
  then show ?thesis using assms parse_begins[of sk v vals] by auto
qed

definition render_condition :: "string \<Rightarrow> string \<Rightarrow> sort_expr option \<Rightarrow> string" where
  "render_condition pk vp se =
     pk @ '' = :'' @ vp @ (case se of Some e \<Rightarrow> '' AND '' @ render_sort e | None \<Rightarrow> [])"

lemma parse_rendered_condition:
  assumes "name_token pk" "token vp" "json_get (CHR '':'' # vp) vals = Some pv"
    and "case se of Some e \<Rightarrow> sort_ok e \<and> srt \<noteq> None \<and> sort_meaning names vals e = srt | None \<Rightarrow> srt = None"
  shows "parse_key_condition (render_condition pk vp se) names vals (resolve_name pk names) =
    Inr \<lparr> kc_pk_name = resolve_name pk names, kc_pk_value = pv, kc_sort = srt \<rparr>"
proof -
  let ?u = "pk @ '' = :'' @ vp"
  have pk: "token pk" using assms(1) by (rule name_token)
  have hash: "parse_condition ?u names vals = Inr (resolve_name pk names, Cmp ''='' pv)"
    using parse_cmp[OF assms(1) _ assms(2,3), of "''=''"] by simp
  have trim_u: "trim ?u = ?u"
    using token_sets(1,10)[OF pk] token_sets(1,11)[OF assms(2)] by (intro trim_word(1)) (simp add: visible_word_def)
  show ?thesis
  proof (cases se)
    case None
    have "split_and ?u = [?u]" using split_and_none[OF find_and_cmp(3)[OF pk assms(2)]] trim_u by simp
    with None assms(4) hash show ?thesis by (simp add: parse_key_condition_def render_condition_def)
  next
    case (Some e)
    with assms(4) obtain cs where e: "sort_ok e" "sort_meaning names vals e = Some cs" "srt = Some cs"
      by (cases srt) auto
    have "split_and (?u @ '' AND '' @ render_sort e) = [?u, render_sort e]"
      using split_and_step[of ?u "render_sort e"] find_and_cmp[OF pk assms(2)] trim_u split_rendered[OF e(1)] by simp
    moreover have "render_condition pk vp se = ?u @ '' AND '' @ render_sort e"
      using Some by (simp add: render_condition_def)
    moreover have "parse_parts [?u, render_sort e] names vals (resolve_name pk names) None None = Inr (Some pv, srt)"
      using hash parse_rendered[OF e(1,2)] e(3) by (cases cs) (auto split: sort_cond.splits)
    ultimately show ?thesis by (simp add: parse_key_condition_def del: parse_parts.simps)
  qed
qed

text \<open>
  C10: Key conditions are understood.  A KeyConditionExpression of the documented grammar (an
  equality on the partition key, alone or with one of the seven conditions on the sort key, also
  the BETWEEN whose own AND must not split it) is parsed to the condition it denotes, with its
  name placeholders and values resolved.
\<close>

theorem dynamo_parse_condition:
  assumes "name_token pk" "token vp" "json_get (CHR '':'' # vp) vals = Some pv"
    and "case se of Some e \<Rightarrow> sort_ok e \<and> srt \<noteq> None \<and> sort_meaning names vals e = srt | None \<Rightarrow> srt = None"
  shows "parse_key_condition (render_condition pk vp se) names vals (resolve_name pk names) =
    Inr \<lparr> kc_pk_name = resolve_name pk names, kc_pk_value = pv, kc_sort = srt \<rparr>"
  by (rule parse_rendered_condition[OF assms])

theorem dynamo_parse_condition_witness:
  "parse_key_condition ''#k = :p AND sk BETWEEN :lo AND :hi'' (JObj [(''#k'', JStr ''pk'')])
     (JObj [('':hi'', JInt 9), ('':lo'', JInt 2), ('':p'', JInt 1)]) ''pk''
   = Inr \<lparr> kc_pk_name = ''pk'', kc_pk_value = JInt 1, kc_sort = Some (''sk'', Between (JInt 2) (JInt 9)) \<rparr>"
  using dynamo_parse_condition[where pk = "''#k''" and vp = "''p''" and pv = "JInt 1"
      and vals = "JObj [('':hi'', JInt 9), ('':lo'', JInt 2), ('':p'', JInt 1)]" and se = "Some (SortBetween ''sk'' ''lo'' ''hi'')"
      and srt = "Some (''sk'', Between (JInt 2) (JInt 9))" and names = "JObj [(''#k'', JStr ''pk'')]"]
  by (simp add: name_token_def token_def is_alnum_def is_lower_def ascii_lowercase_def to_lower_def is_upper_def
      resolve_name_def render_condition_def)

subsection \<open>Query results\<close>

text \<open>A comparison that follows a key sorts as the library's stable sort by that key.\<close>

definition compares_by :: "('a \<Rightarrow> 'a \<Rightarrow> rust_ordering) \<Rightarrow> ('a \<Rightarrow> 'k :: linorder) \<Rightarrow> 'a set \<Rightarrow> bool" where
  "compares_by cmp k A \<longleftrightarrow> (\<forall>x\<in>A. \<forall>y\<in>A. cmp x y = ord_cmp (k x) (k y))"

lemma ord_cmp_greater: "ord_cmp x y \<noteq> OGreater \<longleftrightarrow> x \<le> y"
  by (auto simp: ord_cmp_def)

lemma insert_by_insort:
  "compares_by cmp k (insert x (set ys)) \<Longrightarrow> insert_by cmp x ys = insort_key k x ys"
  by (induction ys) (auto simp: compares_by_def ord_cmp_def)

lemma sort_by_sort_key: "compares_by cmp k (set xs) \<Longrightarrow> sort_by cmp xs = sort_key k xs"
proof (induction xs)
  case (Cons x xs)
  then have IH: "sort_by cmp xs = sort_key k xs" by (simp add: compares_by_def)
  have "insert_by cmp x (sort_key k xs) = insort_key k x (sort_key k xs)"
    by (rule insert_by_insort) (use Cons.prems in simp)
  with IH show ?case by (simp add: sort_by_def)
qed (simp add: sort_by_def)

lemma sort_by_sorted:
  assumes "compares_by cmp k (set xs)"
  shows "mset (sort_by cmp xs) = mset xs" "sorted_wrt (\<lambda>x y. cmp x y \<noteq> OGreater) (sort_by cmp xs)"
proof -
  note sort = sort_by_sort_key[OF assms]
  show "mset (sort_by cmp xs) = mset xs" by (simp add: sort)
  have "sorted_wrt (\<lambda>x y. k x \<le> k y) (sort_key k xs)"
    using sorted_sort_key[of k xs] by (simp add: sorted_wrt_map)
  then show "sorted_wrt (\<lambda>x y. cmp x y \<noteq> OGreater) (sort_by cmp xs)"
    unfolding sort by (rule sorted_wrt_mono_rel[rotated]) (use assms in \<open>auto simp: compares_by_def ord_cmp_greater\<close>)
qed

text \<open>
  What a key condition means, apart from the code that evaluates it.  A key is a number, a string or
  a binary value: the number its text stands for, the bytes of the string, the base64 text.  Keys of
  one type are ordered as numbers or lexicographically; keys of different types are not ordered.
\<close>

datatype key_val = KNumber rat | KString string | KBinary string

fun key_value :: "json \<Rightarrow> key_val option" where
  "key_value (JObj [(t, JStr s)]) =
     (if t = ''S'' then Some (KString s) else if t = ''B'' then Some (KBinary s)
      else if t = ''N'' then (case parse_f64 s of Some (F64 x) \<Rightarrow> Some (KNumber x) | _ \<Rightarrow> None) else None)"
| "key_value _ = None"

fun kind_of :: "key_val \<Rightarrow> string" where
  "kind_of (KNumber _) = ''N''"
| "kind_of (KString _) = ''S''"
| "kind_of (KBinary _) = ''B''"

fun below :: "key_val \<Rightarrow> key_val \<Rightarrow> bool" where
  "below (KNumber x) (KNumber y) = (x < y)"
| "below (KString x) (KString y) = (x < y)"
| "below (KBinary x) (KBinary y) = (x < y)"
| "below _ _ = False"

definition upto_key :: "key_val \<Rightarrow> key_val \<Rightarrow> bool" where
  "upto_key a b \<longleftrightarrow> below a b \<or> a = b"

inductive key_meets :: "sort_cond \<Rightarrow> json \<Rightarrow> bool" where
  meets_eq: "key_value v = Some a \<Longrightarrow> key_value w = Some a \<Longrightarrow> key_meets (Cmp ''='' w) v"
| meets_lt: "key_value v = Some a \<Longrightarrow> key_value w = Some b \<Longrightarrow> below a b \<Longrightarrow> key_meets (Cmp ''<'' w) v"
| meets_le: "key_value v = Some a \<Longrightarrow> key_value w = Some b \<Longrightarrow> upto_key a b \<Longrightarrow> key_meets (Cmp ''<='' w) v"
| meets_gt: "key_value v = Some a \<Longrightarrow> key_value w = Some b \<Longrightarrow> below b a \<Longrightarrow> key_meets (Cmp ''>'' w) v"
| meets_ge: "key_value v = Some a \<Longrightarrow> key_value w = Some b \<Longrightarrow> upto_key b a \<Longrightarrow> key_meets (Cmp ''>='' w) v"
| meets_between: "key_value v = Some a \<Longrightarrow> key_value lo = Some l \<Longrightarrow> key_value hi = Some h
    \<Longrightarrow> upto_key l a \<Longrightarrow> upto_key a h \<Longrightarrow> key_meets (Between lo hi) v"
| meets_begins: "key_value v = Some (KString (p @ rest)) \<Longrightarrow> key_value w = Some (KString p) \<Longrightarrow> key_meets (BeginsWith w) v"
| meets_begins_binary: "key_value v = Some (KBinary (p @ rest)) \<Longrightarrow> key_value w = Some (KBinary p) \<Longrightarrow> key_meets (BeginsWith w) v"

inductive_simps key_meets_simps: "key_meets (Cmp op w) v" "key_meets (Between lo hi) v" "key_meets (BeginsWith w) v"

fun cond_values :: "sort_cond \<Rightarrow> json list" where
  "cond_values (Cmp _ w) = [w]"
| "cond_values (Between lo hi) = [lo, hi]"
| "cond_values (BeginsWith w) = [w]"

text \<open>The items a condition asks for, among all the items stored in a table.\<close>

definition wanted :: "key_condition \<Rightarrow> json \<Rightarrow> bool" where
  "wanted c x \<longleftrightarrow> json_get (kc_pk_name c) x = Some (kc_pk_value c)
     \<and> (\<forall>name sc. kc_sort c = Some (name, sc) \<longrightarrow> (\<exists>v. json_get name x = Some v \<and> key_meets sc v))"

definition stored_items :: "externals \<Rightarrow> string \<Rightarrow> dynamo_db \<Rightarrow> json list" where
  "stored_items E name db = List.map_filter (\<lambda>i. if di_table i = name then json_parse E (di_item i) else None) (dynamo_items db)"

definition sort_value :: "string \<Rightarrow> json \<Rightarrow> key_val option" where
  "sort_value r x = Option.bind (json_get r x) key_value"

definition of_kind :: "string \<Rightarrow> key_val option \<Rightarrow> bool" where
  "of_kind k a \<longleftrightarrow> map_option kind_of a = Some k"

definition key_order :: "string \<Rightarrow> json \<Rightarrow> json \<Rightarrow> bool" where
  "key_order r x y \<longleftrightarrow> (\<exists>a b. sort_value r x = Some a \<and> sort_value r y = Some b \<and> upto_key a b)"

lemma key_value_cases:
  assumes "key_value v = Some a"
  obtains s x where "v = JObj [(''N'', JStr s)]" "parse_f64 s = Some (F64 x)" "a = KNumber x"
    | s where "v = JObj [(''S'', JStr s)]" "a = KString s"
    | s where "v = JObj [(''B'', JStr s)]" "a = KBinary s"
  using assms by (cases v rule: key_value.cases) (auto split: if_splits option.splits f64.splits)

lemma compare_attr_keys:
  assumes "key_value v = Some a" "key_value w = Some b" "kind_of a = kind_of b"
  shows "compare_attr E v w = Some (if below a b then OLess else if a = b then OEqual else OGreater)"
  by (rule key_value_cases[OF assms(1)]; rule key_value_cases[OF assms(2)])
     (use assms(3) in \<open>simp_all add: compare_attr_def ord_cmp_def\<close>)

lemma below_total: "kind_of a = kind_of b \<Longrightarrow> \<not> below a b \<longleftrightarrow> upto_key b a"
  by (cases a; cases b) (auto simp: upto_key_def)

lemma below_irrefl [simp]: "\<not> below a a"
  by (cases a) simp_all

text \<open>The code's evaluation of a condition on a key of the right type is its meaning.\<close>

lemma sort_matches_meets:
  assumes "of_kind k (key_value v)" "\<forall>w\<in>set (cond_values c). of_kind k (key_value w)"
  shows "sort_matches E c v \<longleftrightarrow> key_meets c v"
proof -
  obtain a where a: "key_value v = Some a" "kind_of a = k" using assms(1) by (auto simp: of_kind_def)
  have rhs: "\<exists>b. key_value w = Some b \<and> kind_of b = k" if "w \<in> set (cond_values c)" for w
    using assms(2) that by (auto simp: of_kind_def)
  note cmp = compare_attr_keys[OF a(1), of _ _ E]
  show ?thesis
  proof (cases c)
    case (Cmp op w)
    then obtain b where "key_value w = Some b" "kind_of b = k" using rhs by auto
    with Cmp a cmp below_total[of a b] below_total[of b a] show ?thesis
      by (auto simp: sort_matches_def cmp_holds_def key_meets_simps upto_key_def)
  next
    case (Between lo hi)
    then obtain l h where "key_value lo = Some l" "kind_of l = k" "key_value hi = Some h" "kind_of h = k"
      using rhs[of lo] rhs[of hi] by auto
    with Between a cmp below_total[of a l] below_total[of a h] show ?thesis
      by (auto simp: sort_matches_def key_meets_simps upto_key_def)
  next
    case (BeginsWith w)
    then obtain b where b: "key_value w = Some b" "kind_of b = k" using rhs by auto
    show ?thesis
      unfolding BeginsWith
      by (rule key_value_cases[OF a(1)]; rule key_value_cases[OF b(1)])
         (use a b in \<open>auto simp: sort_matches_def text_value_def key_meets_simps starts_with_iff\<close>)
  qed
qed

text \<open>Sorting by keys of one type puts them in order.\<close>

lemma of_kind_keys:
  assumes "\<forall>x\<in>set xs. of_kind k (sort_value r x)"
  shows "(\<exists>f :: json \<Rightarrow> rat. compares_by (range_cmp E r) f (set xs)) \<or> (\<exists>f :: json \<Rightarrow> string. compares_by (range_cmp E r) f (set xs))"
proof -
  have get: "\<exists>v a. json_get r x = Some v \<and> key_value v = Some a \<and> kind_of a = k" if "x \<in> set xs" for x
    using assms that by (auto simp: of_kind_def sort_value_def bind_eq_Some_conv)
  define num where "num x = (case sort_value r x of Some (KNumber q) \<Rightarrow> q | _ \<Rightarrow> 0)" for x
  define chars where "chars x = (case sort_value r x of Some (KString s) \<Rightarrow> s | Some (KBinary s) \<Rightarrow> s | _ \<Rightarrow> [])" for x
  have "range_cmp E r x y = (if k = ''N'' then ord_cmp (num x) (num y) else ord_cmp (chars x) (chars y))"
    if xy: "x \<in> set xs" "y \<in> set xs" for x y
  proof -
    obtain v a w b where v: "json_get r x = Some v" "key_value v = Some a" "kind_of a = k"
      and w: "json_get r y = Some w" "key_value w = Some b" "kind_of b = k"
      using get[OF xy(1)] get[OF xy(2)] by blast
    then show ?thesis
      using compare_attr_keys[OF v(2) w(2), of E]
      by (cases a; cases b) (auto simp: range_cmp_def num_def chars_def sort_value_def ord_cmp_def)
  qed
  then show ?thesis by (cases "k = ''N''") (auto simp: compares_by_def)
qed

lemma range_cmp_order:
  assumes "of_kind k (sort_value r x)" "of_kind k (sort_value r y)" "range_cmp E r x y \<noteq> OGreater"
  shows "key_order r x y"
proof -
  obtain v a w b where "json_get r x = Some v" "key_value v = Some a" "json_get r y = Some w" "key_value w = Some b" "kind_of a = kind_of b"
    using assms(1,2) by (auto simp: of_kind_def sort_value_def bind_eq_Some_conv)
  with assms(3) compare_attr_keys[of v a w b E] show ?thesis
    by (auto simp: key_order_def sort_value_def range_cmp_def upto_key_def split: if_splits)
qed

lemma sort_by_range:
  assumes "\<forall>x\<in>set xs. of_kind k (sort_value r x)"
  shows "mset (sort_by (range_cmp E r) xs) = mset xs" "sorted_wrt (key_order r) (sort_by (range_cmp E r) xs)"
proof -
  have sorted: "mset (sort_by (range_cmp E r) xs) = mset xs \<and> sorted_wrt (\<lambda>x y. range_cmp E r x y \<noteq> OGreater) (sort_by (range_cmp E r) xs)"
    using of_kind_keys[OF assms, of E] by (elim disjE exE) (simp_all only: sort_by_sorted simp_thms)
  then show "mset (sort_by (range_cmp E r) xs) = mset xs" by simp
  then have "set (sort_by (range_cmp E r) xs) = set xs" by (metis set_mset_mset)
  with sorted show "sorted_wrt (key_order r) (sort_by (range_cmp E r) xs)"
    using assms range_cmp_order by (intro sorted_wrt_mono_rel[rotated, OF conjunct2[OF sorted]]) blast
qed

lemma mset_map_filter: "mset (List.map_filter f xs) = image_mset (the \<circ> f) (filter_mset (\<lambda>x. f x \<noteq> None) (mset xs))"
  by (simp add: List.map_filter_def mset_map)

lemma scan_stored:
  assumes "int (length (dynamo_items db)) \<le> i64_max"
  shows "mset (scan E name (Some i64_max) db) = mset (stored_items E name db)"
proof -
  have "length (filter (\<lambda>i. di_table i = name) (dynamo_items db)) \<le> nat i64_max"
    using assms length_filter_le[of "\<lambda>i. di_table i = name" "dynamo_items db"] by linarith
  then have "scan E name (Some i64_max) db
      = List.map_filter (\<lambda>i. json_parse E (di_item i)) (sort_key di_id (filter (\<lambda>i. di_table i = name) (dynamo_items db)))"
    by (simp add: scan_def i64_max_def)
  moreover have "mset (List.map_filter (\<lambda>i. json_parse E (di_item i)) xs) = mset (List.map_filter (\<lambda>i. json_parse E (di_item i)) ys)"
    if "mset xs = mset ys" for xs ys using that by (simp add: mset_map_filter)
  moreover have "List.map_filter f (filter (\<lambda>i. di_table i = name) xs) = List.map_filter (\<lambda>i. if di_table i = name then f i else None) xs"
    for f :: "dynamo_item \<Rightarrow> json option" and xs
    by (induction xs) (simp_all add: List.map_filter_simps split: option.split)
  ultimately show ?thesis by (metis stored_items_def mset_sort)
qed


definition sample_range_schema :: json where
  "sample_range_schema = JArr [JObj [(''AttributeName'', JStr ''pk''), (''KeyType'', JStr ''HASH'')],
                               JObj [(''AttributeName'', JStr ''sk''), (''KeyType'', JStr ''RANGE'')]]"

definition number_attr :: "string \<Rightarrow> json" where
  "number_attr s = JObj [(''N'', JStr s)]"

definition sample_range_item :: "string \<Rightarrow> json" where
  "sample_range_item s = JObj [(''pk'', JObj [(''S'', JStr ''u'')]), (''sk'', number_attr s)]"

definition sample_range_table :: dynamo_table where
  "sample_range_table = \<lparr> dt_name = ''t'', dt_key_schema = json_print sample_ext sample_range_schema,
     dt_attr_defs = ''[]'', dt_created_at = '''' \<rparr>"

definition sample_range_db :: dynamo_db where
  "sample_range_db = \<lparr> dynamo_tables = [sample_range_table],
     dynamo_items = map (\<lambda>(i, s). \<lparr> di_id = i, di_table = ''t'', di_pk = [], di_sk = [],
       di_item = json_print sample_ext (sample_range_item s), di_created_at = [] \<rparr>) [(1, ''2''), (2, ''10''), (3, ''100''), (4, ''9'')],
     next_item_id = 5 \<rparr>"

definition sample_values :: json where
  "sample_values = JObj [('':hi'', number_attr ''10''), ('':lo'', number_attr ''9''), ('':p'', JObj [(''S'', JStr ''u'')])]"

definition sample_query :: json where
  "sample_query = JObj [(''ExpressionAttributeValues'', sample_values),
     (''KeyConditionExpression'', JStr ''pk = :p AND sk BETWEEN :lo AND :hi''), (''TableName'', JStr ''t'')]"

lemma sample_decimals:
  "parses_f64 ''2''" "parses_f64 ''9''" "parses_f64 ''10''" "parses_f64 ''100''"
  "digits_value ''2'' = 2" "digits_value ''9'' = 9" "digits_value ''10'' = 10" "digits_value ''100'' = 100"
  by code_simp+

lemma sample_texts:
  "strip_sign ''2'' = ''2''" "strip_sign ''9'' = ''9''" "strip_sign ''10'' = ''10''" "strip_sign ''100'' = ''100''"
  "ascii_lowercase ''2'' = ''2''" "ascii_lowercase ''9'' = ''9''" "ascii_lowercase ''10'' = ''10''" "ascii_lowercase ''100'' = ''100''"
  by code_simp+

lemma sample_numbers:
  "key_value (number_attr ''2'') = Some (KNumber 2)" "key_value (number_attr ''9'') = Some (KNumber 9)"
  "key_value (number_attr ''10'') = Some (KNumber 10)" "key_value (number_attr ''100'') = Some (KNumber 100)"
  using f64_round_int[of 2] f64_round_int[of 9] f64_round_int[of 10] f64_round_int[of 100]
  by (simp_all add: number_attr_def parse_f64_def Let_def sample_decimals sample_texts decimal_value_def starts_with_def)


end
