(* ===== verification/Kms_Models.thy ===== *)
theory Kms_Models
  imports Http Secrets_Manager
begin

text \<open>
  KMS, part 1: the records and their JSON forms (src/src/aws/kms/models.rs), the errors, and the
  checks on names, states and policies that open the operations (src/src/aws/kms/service.rs).

  Points in time are whole milliseconds; a column or field of type \<open>f64\<close> holds one, and the rounding
  of its arithmetic is not modelled.  The record \<open>crypto\<close> holds what KMS calls outside the repository:
  AES-256-GCM, the random generator, SHA-256 and the text of such an \<open>f64\<close>.
\<close>

record crypto =
  aes_encrypt :: "string \<Rightarrow> string \<Rightarrow> string \<Rightarrow> string \<Rightarrow> string"         \<comment> \<open>key, nonce, associated data, message\<close>
  aes_decrypt :: "string \<Rightarrow> string \<Rightarrow> string \<Rightarrow> string \<Rightarrow> string option"
  random_bytes :: "nat \<Rightarrow> nat \<Rightarrow> string"                            \<comment> \<open>the n bytes of a draw\<close>
  sha256_raw :: "string \<Rightarrow> string"

text \<open>Documented behaviour: decryption inverts encryption, which appends a tag of 16 bytes.\<close>

definition aead_law :: "crypto \<Rightarrow> bool" where
  "aead_law C \<longleftrightarrow>
     (\<forall>k n a m. length k = 32 \<longrightarrow> length n = 12 \<longrightarrow>
        aes_decrypt C k n a (aes_encrypt C k n a m) = Some m \<and> length (aes_encrypt C k n a m) = length m + 16)"

text \<open>A draw has the length asked for, a digest 32 bytes, and a UUID is 36 ASCII characters long.\<close>

definition sizes_law :: "externals \<Rightarrow> crypto \<Rightarrow> bool" where
  "sizes_law E C \<longleftrightarrow>
     (\<forall>d n. length (random_bytes C d n) = n) \<and> (\<forall>s. length (sha256_raw C s) = 32)
     \<and> (\<forall>d. length (uuid_v4 E d) = 36 \<and> list_all uuid_char (uuid_v4 E d))"

subsection \<open>Records\<close>

definition key_arn :: "string \<Rightarrow> string" where
  "key_arn i = ''arn:aws:kms:'' @ REGION @ '':'' @ ACCOUNT_ID @ '':key/'' @ i"

definition alias_arn :: "string \<Rightarrow> string" where
  "alias_arn name = ''arn:aws:kms:'' @ REGION @ '':'' @ ACCOUNT_ID @ '':'' @ name"

definition default_policy :: "externals \<Rightarrow> string" where
  "default_policy E = json_print E (json_obj
     [(''Version'', JStr ''2012-10-17''), (''Id'', JStr ''key-default-1''),
      (''Statement'', JArr [json_obj
         [(''Sid'', JStr ''Enable IAM User Permissions''), (''Effect'', JStr ''Allow''),
          (''Principal'', json_obj [(''AWS'', JStr (''arn:aws:iam::'' @ ACCOUNT_ID @ '':root''))]),
          (''Action'', JStr ''kms:*''), (''Resource'', JStr ''*'')]])])"

record kms_key =
  k_id :: string
  k_description :: string
  k_usage :: string
  k_spec :: string
  k_origin :: string
  k_state :: string
  k_created :: int
  k_deletion :: "int option"
  k_window :: "int option"
  k_material :: "string option"
  k_rotation :: bool
  k_period :: int
  k_policy :: string
  k_tags :: "(string \<times> string) list"
  k_multi_region :: bool

definition kms_key_arn :: "kms_key \<Rightarrow> string" where
  "kms_key_arn k = key_arn (k_id k)"

definition is_symmetric :: "kms_key \<Rightarrow> bool" where
  "is_symmetric k \<longleftrightarrow> k_spec k = ''SYMMETRIC_DEFAULT''"

definition tag_json :: "string \<times> string \<Rightarrow> json" where
  "tag_json t = json_obj [(''TagKey'', JStr (fst t)), (''TagValue'', JStr (snd t))]"

definition tags_json :: "kms_key \<Rightarrow> json" where
  "tags_json k = JArr (map tag_json (k_tags k))"

text \<open>\<open>now_secs\<close> of a time in milliseconds: seconds as a double, plus the milliseconds divided by 1000.\<close>

definition secs_f64 :: "int \<Rightarrow> rat" where
  "secs_f64 t = f64_round (f64_round (of_int (t div 1000)) + f64_round (of_int (t mod 1000) / 1000))"

definition secs_json :: "int \<Rightarrow> json" where
  "secs_json t = JFloat (F64 (secs_f64 t))"

definition signing_algorithms :: "string \<Rightarrow> json" where
  "signing_algorithms spec = JArr (map JStr
     (if starts_with spec ''RSA_'' then
        [''RSASSA_PSS_SHA_256'', ''RSASSA_PSS_SHA_384'', ''RSASSA_PSS_SHA_512'',
         ''RSASSA_PKCS1_V1_5_SHA_256'', ''RSASSA_PKCS1_V1_5_SHA_384'', ''RSASSA_PKCS1_V1_5_SHA_512'']
      else if spec = ''ECC_NIST_P384'' then [''ECDSA_SHA_384'']
      else if spec = ''ECC_NIST_P521'' then [''ECDSA_SHA_512'']
      else if spec = ''SM2'' then [''SM2DSA'']
      else [''ECDSA_SHA_256'']))"

text \<open>\<open>trim_start_matches\<close> removes the prefix as often as it is there.\<close>

function trim_prefixes :: "string \<Rightarrow> string \<Rightarrow> string" where
  "trim_prefixes p s = (if p \<noteq> [] \<and> starts_with s p then trim_prefixes p (drop (length p) s) else s)"
  by pat_completeness auto
termination
proof (relation "measure (\<lambda>(p, s). length s)", goal_cases)
  case (2 p s)
  then have "s \<noteq> []" by (auto simp: starts_with_def)
  with 2 show ?case by simp
qed simp

declare trim_prefixes.simps [simp del]

definition algorithm_fields :: "string \<Rightarrow> string \<Rightarrow> (string \<times> json) list" where
  "algorithm_fields usage spec =
     (if usage = ''ENCRYPT_DECRYPT'' \<and> spec = ''SYMMETRIC_DEFAULT'' then
        [(''EncryptionAlgorithms'', JArr [JStr ''SYMMETRIC_DEFAULT''])]
      else if usage = ''ENCRYPT_DECRYPT'' \<and> starts_with spec ''RSA_'' then
        [(''EncryptionAlgorithms'', JArr [JStr ''RSAES_OAEP_SHA_1'', JStr ''RSAES_OAEP_SHA_256''])]
      else if usage = ''ENCRYPT_DECRYPT'' \<and> spec = ''SM2'' then
        [(''EncryptionAlgorithms'', JArr [JStr ''SM2PKE''])]
      else if usage = ''SIGN_VERIFY'' then [(''SigningAlgorithms'', signing_algorithms spec)]
      else if usage = ''GENERATE_VERIFY_MAC'' then
        [(''MacAlgorithms'', JArr [JStr (''HMAC_SHA_'' @ trim_prefixes ''HMAC_'' spec)])]
      else if usage = ''KEY_AGREEMENT'' then [(''KeyAgreementAlgorithms'', JArr [JStr ''ECDH''])]
      else [])"

definition metadata :: "kms_key \<Rightarrow> json" where
  "metadata k = json_obj
     ([(''AWSAccountId'', JStr ACCOUNT_ID), (''KeyId'', JStr (k_id k)), (''Arn'', JStr (kms_key_arn k)),
       (''CreationDate'', secs_json (k_created k)), (''Enabled'', JBool (k_state k = ''Enabled'')),
       (''Description'', JStr (k_description k)), (''KeyUsage'', JStr (k_usage k)),
       (''KeyState'', JStr (k_state k)), (''Origin'', JStr (k_origin k)), (''KeyManager'', JStr ''CUSTOMER''),
       (''CustomerMasterKeySpec'', JStr (k_spec k)), (''KeySpec'', JStr (k_spec k)),
       (''MultiRegion'', JBool (k_multi_region k))]
      @ (case k_deletion k of Some d \<Rightarrow> [(''DeletionDate'', secs_json d)] | None \<Rightarrow> [])
      @ (case k_window k of Some w \<Rightarrow> [(''PendingDeletionWindowInDays'', JInt w)] | None \<Rightarrow> [])
      @ algorithm_fields (k_usage k) (k_spec k))"

record kms_alias =
  a_name :: string
  a_target :: string
  a_created :: int
  a_updated :: int

definition alias_to_json :: "kms_alias \<Rightarrow> json" where
  "alias_to_json a = json_obj
     [(''AliasName'', JStr (a_name a)), (''AliasArn'', JStr (alias_arn (a_name a))),
      (''TargetKeyId'', JStr (a_target a)), (''CreationDate'', secs_json (a_created a)),
      (''LastUpdatedDate'', secs_json (a_updated a))]"

subsection \<open>Errors\<close>

datatype kms_error =
    NotFound string
  | AlreadyExists string
  | KmsDisabled string
  | InvalidState string
  | InvalidCiphertext string
  | InvalidKeyUsage string
  | IncorrectKey string
  | Validation string
  | Unsupported string
  | InvalidAliasName string
  | InvalidMarker string
  | MalformedPolicy string
  | Internal string

fun kms_code :: "kms_error \<Rightarrow> string" where
  "kms_code (NotFound _) = ''NotFoundException''"
| "kms_code (AlreadyExists _) = ''AlreadyExistsException''"
| "kms_code (KmsDisabled _) = ''DisabledException''"
| "kms_code (InvalidState _) = ''KMSInvalidStateException''"
| "kms_code (InvalidCiphertext _) = ''InvalidCiphertextException''"
| "kms_code (InvalidKeyUsage _) = ''InvalidKeyUsageException''"
| "kms_code (IncorrectKey _) = ''IncorrectKeyException''"
| "kms_code (Validation _) = ''ValidationException''"
| "kms_code (Unsupported _) = ''UnsupportedOperationException''"
| "kms_code (InvalidAliasName _) = ''InvalidAliasNameException''"
| "kms_code (InvalidMarker _) = ''InvalidMarkerException''"
| "kms_code (MalformedPolicy _) = ''MalformedPolicyDocumentException''"
| "kms_code (Internal _) = ''KMSInternalException''"

fun kms_message :: "kms_error \<Rightarrow> string" where
  "kms_message (NotFound m) = m"
| "kms_message (AlreadyExists m) = m"
| "kms_message (KmsDisabled m) = m"
| "kms_message (InvalidState m) = m"
| "kms_message (InvalidCiphertext m) = m"
| "kms_message (InvalidKeyUsage m) = m"
| "kms_message (IncorrectKey m) = m"
| "kms_message (Validation m) = m"
| "kms_message (Unsupported m) = m"
| "kms_message (InvalidAliasName m) = m"
| "kms_message (InvalidMarker m) = m"
| "kms_message (MalformedPolicy m) = m"
| "kms_message (Internal m) = m"

definition quoted :: "string \<Rightarrow> string" where
  "quoted s = [CHR 0x27] @ s @ [CHR 0x27]"

definition not_found_key :: "string \<Rightarrow> kms_error" where
  "not_found_key i = NotFound (''Key '' @ quoted (key_arn i) @ '' does not exist'')"

definition not_found_alias :: "string \<Rightarrow> kms_error" where
  "not_found_alias name = NotFound (''Alias '' @ alias_arn name @ '' is not found.'')"

definition invalid_state :: "kms_key \<Rightarrow> kms_error" where
  "invalid_state k = InvalidState (kms_key_arn k @ '' is pending deletion.'')"

text \<open>The text of AWS's constraint violations.\<close>

definition constraint_error :: "string \<Rightarrow> string \<Rightarrow> string \<Rightarrow> kms_error" where
  "constraint_error v field constraint =
     Validation (''1 validation error detected: Value '' @ v @ '' at '' @ quoted field
                 @ '' failed to satisfy constraint: '' @ constraint)"

text \<open>\<open>{:?}\<close> of a list of plain strings.\<close>

fun debug_items :: "string list \<Rightarrow> string" where
  "debug_items [] = []"
| "debug_items [s] = [CHR 0x22] @ s @ [CHR 0x22]"
| "debug_items (s # ss) = [CHR 0x22] @ s @ [CHR 0x22] @ '', '' @ debug_items ss"

definition debug_list :: "string list \<Rightarrow> string" where
  "debug_list ss = ''['' @ debug_items ss @ '']''"

subsection \<open>Checks\<close>

definition require_not_pending :: "kms_key \<Rightarrow> (kms_error, unit) result" where
  "require_not_pending k = (if k_state k = ''PendingDeletion'' then Inl (invalid_state k) else Inr ())"

definition require_enabled :: "kms_key \<Rightarrow> (kms_error, unit) result" where
  "require_enabled k =
     (if k_state k = ''Enabled'' then Inr ()
      else if k_state k = ''Disabled'' then Inl (KmsDisabled (kms_key_arn k @ '' is disabled.''))
      else Inl (invalid_state k))"

definition require_symmetric_crypto :: "kms_key \<Rightarrow> (kms_error, unit) result" where
  "require_symmetric_crypto k =
     try_bind (require_enabled k) (\<lambda>_.
       if k_usage k \<noteq> ''ENCRYPT_DECRYPT'' then
         Inl (InvalidKeyUsage (kms_key_arn k @ '' key usage is '' @ k_usage k
                               @ '' which is not valid for this operation.''))
       else if \<not> is_symmetric k \<or> map_option length (k_material k) \<noteq> Some 32 then
         Inl (Unsupported (kms_key_arn k @ '' has key spec '' @ k_spec k
           @ ''; only SYMMETRIC_DEFAULT keys are supported for this operation by CloudTwin.''))
       else Inr ())"

definition validate_alias_name :: "string \<Rightarrow> (kms_error, unit) result" where
  "validate_alias_name name =
     (case strip_prefix ''alias/'' name of
        None \<Rightarrow> Inl (InvalidAliasName (''Alias must start with the prefix '' @ [CHR 0x22] @ ''alias/''
                      @ [CHR 0x22] @ '': '' @ name))
      | Some rest \<Rightarrow>
          if starts_with name ''alias/aws/'' then
            Inl (InvalidAliasName (''Alias names that begin with '' @ [CHR 0x22] @ ''alias/aws/''
                 @ [CHR 0x22] @ '' are reserved.''))
          else if rest = [] \<or> 256 < length name \<or> \<not> list_all (\<lambda>c. is_alnum c \<or> c \<in> set ''/_-'') rest then
            Inl (InvalidAliasName (''Alias name '' @ name
                 @ '' must satisfy regular expression pattern: ^alias/[a-zA-Z0-9/_-]+$''))
          else Inr ())"

datatype key_ref = RefId string | RefAlias string

definition parse_key_ref :: "string \<Rightarrow> (kms_error, key_ref) result" where
  "parse_key_ref s =
     (let r = trim s in
      if r = [] then Inl (Validation ''KeyId must not be empty'')
      else case strip_prefix ''arn:'' r of
        Some rest \<Rightarrow>
          let parts = split_on (CHR '':'') rest; resource = join_on (CHR '':'') (drop 4 parts) in
          (case strip_prefix ''key/'' resource of
             Some i \<Rightarrow> Inr (RefId i)
           | None \<Rightarrow> if starts_with resource ''alias/'' then Inr (RefAlias resource)
                     else Inl (NotFound (''Invalid keyId '' @ r)))
      | None \<Rightarrow> if starts_with r ''alias/'' then Inr (RefAlias r) else Inr (RefId r))"

definition require_default_policy_name :: "string \<Rightarrow> (kms_error, unit) result" where
  "require_default_policy_name name =
     (if name = ''default'' then Inr () else Inl (NotFound (''No such policy exists: '' @ name)))"

definition validate_policy :: "externals \<Rightarrow> string \<Rightarrow> (kms_error, unit) result" where
  "validate_policy E policy =
     (case json_parse E policy of
        Some (JObj _) \<Rightarrow> Inr ()
      | _ \<Rightarrow> Inl (MalformedPolicy ''The policy document is not valid JSON.''))"

text \<open>Replace the value of a tag or append it; \<open>dedupe_tags\<close> does so for a list.\<close>

fun put_tag :: "string \<Rightarrow> string \<Rightarrow> (string \<times> string) list \<Rightarrow> (string \<times> string) list" where
  "put_tag k v [] = [(k, v)]"
| "put_tag k v ((k', v') # ts) = (if k' = k then (k, v) # ts else (k', v') # put_tag k v ts)"

definition dedupe_tags :: "(string \<times> string) list \<Rightarrow> (string \<times> string) list" where
  "dedupe_tags tags = fold (\<lambda>(k, v). put_tag k v) tags []"

end
