(* ===== verification/Kms_Service.thy ===== *)
theory Kms_Service
  imports Kms_Models
begin

text \<open>
  KMS, part 2: the tables (src/src/aws/kms/schema.rs) and the operations of the service
  (src/src/aws/kms/service.rs).

  An operation that changes a key reads it, checks and changes the copy, and writes the copy back
  with \<open>save\<close>; \<open>others\<close> is what other requests do to the tables in between.  The random draws of a
  request are numbered from \<open>d\<close>.
\<close>

subsection \<open>Tables\<close>

record kms_row =
  kr_id :: string
  kr_description :: string
  kr_usage :: string
  kr_spec :: string
  kr_origin :: string
  kr_state :: string
  kr_created :: int
  kr_deletion :: "int option"
  kr_window :: "int option"
  kr_material :: "string option"
  kr_rotation :: int
  kr_period :: int
  kr_policy :: string
  kr_tags :: string
  kr_multi_region :: int

record kms_db =
  kms_keys :: "kms_row list"
  kms_aliases :: "kms_alias list"

definition kms_init :: kms_db where
  "kms_init = \<lparr> kms_keys = [], kms_aliases = [] \<rparr>"

definition stored_tag :: "json \<Rightarrow> (string \<times> string) option" where
  "stored_tag t =
     map_option (\<lambda>k. (k, case json_str ''TagValue'' t of Some v \<Rightarrow> v | None \<Rightarrow> [])) (json_str ''TagKey'' t)"

definition stored_tags :: "externals \<Rightarrow> string \<Rightarrow> (string \<times> string) list" where
  "stored_tags E s =
     (case Option.bind (json_parse E s) as_array of Some ts \<Rightarrow> List.map_filter stored_tag ts | None \<Rightarrow> [])"

definition key_from_row :: "externals \<Rightarrow> kms_row \<Rightarrow> kms_key" where
  "key_from_row E r =
     \<lparr> k_id = kr_id r, k_description = kr_description r, k_usage = kr_usage r, k_spec = kr_spec r,
       k_origin = kr_origin r, k_state = kr_state r, k_created = kr_created r, k_deletion = kr_deletion r,
       k_window = kr_window r, k_material = kr_material r, k_rotation = (kr_rotation r \<noteq> 0),
       k_period = kr_period r, k_policy = kr_policy r, k_tags = stored_tags E (kr_tags r),
       k_multi_region = (kr_multi_region r \<noteq> 0) \<rparr>"

definition kms_expired :: "int \<Rightarrow> kms_row \<Rightarrow> bool" where
  "kms_expired now r \<longleftrightarrow> kr_state r = ''PendingDeletion'' \<and> (case kr_deletion r of Some d \<Rightarrow> d \<le> now | None \<Rightarrow> False)"

definition purge_expired :: "int \<Rightarrow> kms_db \<Rightarrow> kms_db" where
  "purge_expired now db =
     db\<lparr> kms_aliases := sql_delete (\<lambda>a. a_target a \<in> kr_id ` {r \<in> set (kms_keys db). kms_expired now r}) (kms_aliases db),
         kms_keys := sql_delete (kms_expired now) (kms_keys db) \<rparr>"

definition load_key :: "externals \<Rightarrow> string \<Rightarrow> kms_db \<Rightarrow> kms_key option" where
  "load_key E i db = map_option (key_from_row E) (find (\<lambda>r. kr_id r = i) (kms_keys db))"

definition get_alias :: "string \<Rightarrow> kms_db \<Rightarrow> kms_alias option" where
  "get_alias name db = find (\<lambda>a. a_name a = name) (kms_aliases db)"

definition ok_or :: "'e \<Rightarrow> 'a option \<Rightarrow> ('e, 'a) result" where
  "ok_or e v = (case v of Some x \<Rightarrow> Inr x | None \<Rightarrow> Inl e)"

definition resolve :: "externals \<Rightarrow> string \<Rightarrow> kms_db \<Rightarrow> (kms_error, kms_key) result" where
  "resolve E ref db =
     try_bind (parse_key_ref ref) (\<lambda>r.
       case r of
         RefId i \<Rightarrow> ok_or (not_found_key i) (load_key E i db)
       | RefAlias name \<Rightarrow>
           try_bind (ok_or (not_found_alias name) (get_alias name db)) (\<lambda>a.
             ok_or (not_found_alias name) (load_key E (a_target a) db)))"

definition save :: "externals \<Rightarrow> kms_key \<Rightarrow> kms_db \<Rightarrow> kms_db" where
  "save E k db =
     db\<lparr> kms_keys := sql_update (\<lambda>r. kr_id r = k_id k)
           (\<lambda>r. r\<lparr> kr_description := k_description k, kr_state := k_state k, kr_deletion := k_deletion k,
                   kr_window := k_window k, kr_rotation := of_bool (k_rotation k), kr_period := k_period k,
                   kr_policy := k_policy k, kr_tags := json_print E (tags_json k) \<rparr>) (kms_keys db) \<rparr>"

subsection \<open>Key lifecycle\<close>

record create_key_input =
  ci_id :: "string option"
  ci_description :: "string option"
  ci_usage :: "string option"
  ci_spec :: "string option"
  ci_origin :: "string option"
  ci_policy :: "string option"
  ci_tags :: "(string \<times> string) list"
  ci_multi_region :: bool
  ci_material :: "string option"

definition KEY_SPECS :: "string list" where
  "KEY_SPECS = [''SYMMETRIC_DEFAULT'', ''RSA_2048'', ''RSA_3072'', ''RSA_4096'', ''ECC_NIST_P256'', ''ECC_NIST_P384'',
     ''ECC_NIST_P521'', ''ECC_SECG_P256K1'', ''HMAC_224'', ''HMAC_256'', ''HMAC_384'', ''HMAC_512'', ''SM2'']"

definition KEY_USAGES :: "string list" where
  "KEY_USAGES = [''ENCRYPT_DECRYPT'', ''SIGN_VERIFY'', ''GENERATE_VERIFY_MAC'', ''KEY_AGREEMENT'']"

definition or_default :: "'a \<Rightarrow> 'a option \<Rightarrow> 'a" where
  "or_default d v = (case v of Some x \<Rightarrow> x | None \<Rightarrow> d)"

definition default_usage :: "string \<Rightarrow> string" where
  "default_usage spec =
     (if starts_with spec ''HMAC_'' then ''GENERATE_VERIFY_MAC''
      else if starts_with spec ''ECC_'' then ''SIGN_VERIFY'' else ''ENCRYPT_DECRYPT'')"

definition usage_compatible :: "string \<Rightarrow> string \<Rightarrow> bool" where
  "usage_compatible spec usage \<longleftrightarrow>
     (if spec = ''SYMMETRIC_DEFAULT'' then usage = ''ENCRYPT_DECRYPT''
      else if starts_with spec ''HMAC_'' then usage = ''GENERATE_VERIFY_MAC''
      else if starts_with spec ''RSA_'' then usage \<in> {''ENCRYPT_DECRYPT'', ''SIGN_VERIFY''}
      else if spec = ''SM2'' then usage \<noteq> ''GENERATE_VERIFY_MAC''
      else usage \<in> {''SIGN_VERIFY'', ''KEY_AGREEMENT''})"

definition new_material :: "crypto \<Rightarrow> string \<Rightarrow> string option \<Rightarrow> nat \<Rightarrow> string option" where
  "new_material C spec given d =
     (if spec = ''SYMMETRIC_DEFAULT'' then Some (or_default (random_bytes C d 32) given)
      else if starts_with spec ''HMAC_'' then Some (random_bytes C d 64) else None)"

text \<open>The checks of \<open>create_key\<close> and the key it makes.\<close>

definition new_key :: "externals \<Rightarrow> crypto \<Rightarrow> create_key_input \<Rightarrow> nat \<Rightarrow> int \<Rightarrow> (kms_error, kms_key) result" where
  "new_key E C inp d now =
     (let spec = or_default ''SYMMETRIC_DEFAULT'' (ci_spec inp);
          usage = or_default (default_usage spec) (ci_usage inp);
          origin = or_default ''AWS_KMS'' (ci_origin inp);
          description = or_default [] (ci_description inp)
      in if spec \<notin> set KEY_SPECS then
           Inl (constraint_error (quoted spec) ''keySpec''
                  (''Member must satisfy enum value set: '' @ debug_list KEY_SPECS))
         else if usage \<notin> set KEY_USAGES then
           Inl (constraint_error (quoted usage) ''keyUsage''
                  (''Member must satisfy enum value set: '' @ debug_list KEY_USAGES))
         else if \<not> usage_compatible spec usage then
           Inl (Validation (''KeyUsage '' @ usage @ '' is not compatible with KeySpec '' @ spec))
         else if origin \<noteq> ''AWS_KMS'' then
           Inl (Unsupported (''Origin '' @ origin @ '' is not supported by CloudTwin; only AWS_KMS is.''))
         else if 8192 < length description then
           Inl (Validation ''Description must be at most 8192 characters'')
         else try_bind (case ci_policy inp of
                          Some p \<Rightarrow> try_bind (validate_policy E p) (\<lambda>_. Inr p) | None \<Rightarrow> Inr (default_policy E))
           (\<lambda>policy. Inr
              \<lparr> k_id = or_default (uuid_v4 E d) (ci_id inp), k_description = description, k_usage = usage,
                k_spec = spec, k_origin = origin, k_state = ''Enabled'', k_created = now, k_deletion = None,
                k_window = None, k_material = new_material C spec (ci_material inp) d, k_rotation = False,
                k_period = 365, k_policy = policy, k_tags = dedupe_tags (ci_tags inp),
                k_multi_region = ci_multi_region inp \<rparr>))"

definition new_row :: "externals \<Rightarrow> kms_key \<Rightarrow> kms_row" where
  "new_row E k =
     \<lparr> kr_id = k_id k, kr_description = k_description k, kr_usage = k_usage k, kr_spec = k_spec k,
       kr_origin = k_origin k, kr_state = k_state k, kr_created = k_created k, kr_deletion = None,
       kr_window = None, kr_material = k_material k, kr_rotation = 0, kr_period = 365, kr_policy = k_policy k,
       kr_tags = json_print E (tags_json k), kr_multi_region = of_bool (k_multi_region k) \<rparr>"

definition create_key ::
    "externals \<Rightarrow> crypto \<Rightarrow> create_key_input \<Rightarrow> nat \<Rightarrow> int \<Rightarrow> (kms_db, kms_error, kms_key) action" where
  "create_key E C inp d now db =
     (case new_key E C inp d now of
        Inl e \<Rightarrow> (Inl e, db)
      | Inr k \<Rightarrow>
          if k_id k \<in> kr_id ` set (kms_keys db) then
            (Inl (AlreadyExists (''Key '' @ kms_key_arn k @ '' already exists'')), db)
          else (Inr k, db\<lparr> kms_keys := kms_keys db @ [new_row E k] \<rparr>))"

definition list_key_ids :: "kms_db \<Rightarrow> string list" where
  "list_key_ids db = map kr_id (sort_key kr_created (kms_keys db))"

text \<open>Read a key, check and change the copy, write it back.\<close>

definition modify_key ::
    "externals \<Rightarrow> (kms_db \<Rightarrow> kms_db) \<Rightarrow> string \<Rightarrow> (kms_key \<Rightarrow> (kms_error, kms_key) result)
      \<Rightarrow> (kms_db, kms_error, kms_key) action" where
  "modify_key E others ref f db =
     (case try_bind (resolve E ref db) f of
        Inl e \<Rightarrow> (Inl e, db) | Inr k \<Rightarrow> (Inr k, save E k (others db)))"

definition set_enabled ::
    "externals \<Rightarrow> (kms_db \<Rightarrow> kms_db) \<Rightarrow> string \<Rightarrow> bool \<Rightarrow> (kms_db, kms_error, kms_key) action" where
  "set_enabled E others ref enabled =
     modify_key E others ref (\<lambda>k. try_bind (require_not_pending k) (\<lambda>_.
       Inr (k\<lparr> k_state := (if enabled then ''Enabled'' else ''Disabled'') \<rparr>)))"

text \<open>The deletion date is \<open>days\<close> days from now, in whole seconds.\<close>

definition deletion_date :: "int \<Rightarrow> int \<Rightarrow> int" where
  "deletion_date now days = (now + days * 86400000) div 1000 * 1000"

definition schedule_deletion ::
    "externals \<Rightarrow> (kms_db \<Rightarrow> kms_db) \<Rightarrow> string \<Rightarrow> int option \<Rightarrow> int \<Rightarrow> (kms_db, kms_error, kms_key) action" where
  "schedule_deletion E others ref days now =
     (let days = or_default 30 days in
      if days < 7 \<or> 30 < days then
        act_result (Inl (constraint_error (quoted (show_int days)) ''pendingWindowInDays''
                           ''Member must have value between 7 and 30''))
      else modify_key E others ref (\<lambda>k. try_bind (require_not_pending k) (\<lambda>_.
        Inr (k\<lparr> k_state := ''PendingDeletion'', k_deletion := Some (deletion_date now days),
                k_window := Some days \<rparr>))))"

definition cancel_deletion ::
    "externals \<Rightarrow> (kms_db \<Rightarrow> kms_db) \<Rightarrow> string \<Rightarrow> (kms_db, kms_error, kms_key) action" where
  "cancel_deletion E others ref =
     modify_key E others ref (\<lambda>k.
       if k_state k \<noteq> ''PendingDeletion'' then
         Inl (InvalidState (kms_key_arn k @ '' is not pending deletion (current state: '' @ k_state k @ '').''))
       else Inr (k\<lparr> k_state := ''Disabled'', k_deletion := None, k_window := None \<rparr>))"

definition set_rotation ::
    "externals \<Rightarrow> (kms_db \<Rightarrow> kms_db) \<Rightarrow> string \<Rightarrow> bool \<Rightarrow> int option \<Rightarrow> (kms_db, kms_error, kms_key) action" where
  "set_rotation E others ref enabled period =
     modify_key E others ref (\<lambda>k. try_bind (require_enabled k) (\<lambda>_.
       if \<not> is_symmetric k then
         Inl (Unsupported (kms_key_arn k @ '' does not support automatic key rotation.''))
       else case period of
         Some p \<Rightarrow> if p < 90 \<or> 2560 < p then Inl (Validation ''RotationPeriodInDays must be between 90 and 2560'')
                   else Inr (k\<lparr> k_period := p, k_rotation := enabled \<rparr>)
       | None \<Rightarrow> Inr (k\<lparr> k_rotation := enabled \<rparr>)))"

definition update_description ::
    "externals \<Rightarrow> (kms_db \<Rightarrow> kms_db) \<Rightarrow> string \<Rightarrow> string \<Rightarrow> (kms_db, kms_error, kms_key) action" where
  "update_description E others ref description =
     (if 8192 < length description then
        act_result (Inl (Validation ''Description must be at most 8192 characters''))
      else modify_key E others ref (\<lambda>k. try_bind (require_not_pending k) (\<lambda>_.
        Inr (k\<lparr> k_description := description \<rparr>))))"

fun add_tags :: "(string \<times> string) list \<Rightarrow> (string \<times> string) list \<Rightarrow> (kms_error, (string \<times> string) list) result" where
  "add_tags [] ts = (if 50 < length ts then Inl (Validation ''A key can have at most 50 tags'') else Inr ts)"
| "add_tags ((k, v) # new) ts =
     (if k = [] \<or> 128 < length k \<or> 256 < length v then Inl (Validation (''Invalid tag: '' @ k))
      else add_tags new (put_tag k v ts))"

definition kms_tag ::
    "externals \<Rightarrow> (kms_db \<Rightarrow> kms_db) \<Rightarrow> string \<Rightarrow> (string \<times> string) list \<Rightarrow> (kms_db, kms_error, kms_key) action" where
  "kms_tag E others ref tags =
     modify_key E others ref (\<lambda>k. try_bind (require_not_pending k) (\<lambda>_.
       try_bind (add_tags tags (k_tags k)) (\<lambda>ts. Inr (k\<lparr> k_tags := ts \<rparr>))))"

definition kms_untag ::
    "externals \<Rightarrow> (kms_db \<Rightarrow> kms_db) \<Rightarrow> string \<Rightarrow> string list \<Rightarrow> (kms_db, kms_error, kms_key) action" where
  "kms_untag E others ref tag_keys =
     modify_key E others ref (\<lambda>k. try_bind (require_not_pending k) (\<lambda>_.
       Inr (k\<lparr> k_tags := filter (\<lambda>(t, _). t \<notin> set tag_keys) (k_tags k) \<rparr>)))"

definition put_policy ::
    "externals \<Rightarrow> (kms_db \<Rightarrow> kms_db) \<Rightarrow> string \<Rightarrow> string \<Rightarrow> string \<Rightarrow> (kms_db, kms_error, kms_key) action" where
  "put_policy E others ref policy_name policy =
     act_bind (act_result (try_bind (require_default_policy_name policy_name) (\<lambda>_. validate_policy E policy)))
       (\<lambda>_. modify_key E others ref (\<lambda>k. try_bind (require_not_pending k) (\<lambda>_. Inr (k\<lparr> k_policy := policy \<rparr>))))"

subsection \<open>Aliases\<close>

definition create_alias ::
    "externals \<Rightarrow> (kms_db \<Rightarrow> kms_db) \<Rightarrow> string \<Rightarrow> string \<Rightarrow> int \<Rightarrow> (kms_db, kms_error, kms_alias) action" where
  "create_alias E others name target now db =
     (case try_bind (validate_alias_name name) (\<lambda>_. try_bind (resolve E target db) (\<lambda>k.
             try_bind (require_not_pending k) (\<lambda>_. Inr k))) of
        Inl e \<Rightarrow> (Inl e, db)
      | Inr k \<Rightarrow>
          let a = \<lparr> a_name = name, a_target = k_id k, a_created = now, a_updated = now \<rparr>; db' = others db in
          if name \<in> a_name ` set (kms_aliases db') then
            (Inl (AlreadyExists (''An alias with the name '' @ alias_arn name @ '' already exists'')), db')
          else (Inr a, db'\<lparr> kms_aliases := kms_aliases db' @ [a] \<rparr>))"

definition update_alias ::
    "externals \<Rightarrow> (kms_db \<Rightarrow> kms_db) \<Rightarrow> string \<Rightarrow> string \<Rightarrow> int \<Rightarrow> (kms_db, kms_error, kms_alias) action" where
  "update_alias E others name target now db =
     (case try_bind (validate_alias_name name) (\<lambda>_.
           try_bind (ok_or (not_found_alias name) (get_alias name db)) (\<lambda>a.
           try_bind (resolve E target db) (\<lambda>k.
           try_bind (require_not_pending k) (\<lambda>_. Inr (a\<lparr> a_target := k_id k, a_updated := now \<rparr>))))) of
        Inl e \<Rightarrow> (Inl e, db)
      | Inr a \<Rightarrow>
          (Inr a, (others db)\<lparr> kms_aliases := sql_update (\<lambda>x. a_name x = a_name a)
                     (\<lambda>x. x\<lparr> a_target := a_target a, a_updated := a_updated a \<rparr>) (kms_aliases (others db)) \<rparr>))"

definition delete_alias :: "string \<Rightarrow> (kms_db, kms_error, unit) action" where
  "delete_alias name db =
     (if \<not> starts_with name ''alias/'' then
        (Inl (InvalidAliasName (''Alias must start with the prefix '' @ [CHR 0x22] @ ''alias/''
           @ [CHR 0x22] @ '': '' @ name)), db)
      else let db' = db\<lparr> kms_aliases := sql_delete (\<lambda>a. a_name a = name) (kms_aliases db) \<rparr> in
        if sql_count (\<lambda>a. a_name a = name) (kms_aliases db) = 0 then (Inl (not_found_alias name), db')
        else (Inr (), db'))"

definition list_aliases :: "string option \<Rightarrow> kms_db \<Rightarrow> kms_alias list" where
  "list_aliases key_id db =
     sort_key a_name (filter (\<lambda>a. case key_id of None \<Rightarrow> True | Some i \<Rightarrow> a_target a = i) (kms_aliases db))"

subsection \<open>Cryptography\<close>

definition MAGIC :: string where "MAGIC = ''CTK'' @ [CHR 0x01]"
definition ID_LEN :: nat where "ID_LEN = 36"
definition NONCE_LEN :: nat where "NONCE_LEN = 12"
definition HEADER_LEN :: nat where "HEADER_LEN = length MAGIC + ID_LEN + NONCE_LEN"
definition MAX_ENCRYPT_PLAINTEXT :: nat where "MAX_ENCRYPT_PLAINTEXT = 4096"

definition seeded_material :: "crypto \<Rightarrow> string \<Rightarrow> string" where
  "seeded_material C i = sha256_raw C (''cloudtwin-kms-seed:'' @ i)"

definition canonical_context :: "externals \<Rightarrow> string btree \<Rightarrow> string" where
  "canonical_context E ctx = (if ctx = [] then [] else json_print E (json_strings ctx))"

text \<open>
  The key material has 32 bytes after the check and the plaintext is far below the cipher's limit,
  so neither building the cipher nor encrypting fails.
\<close>

definition seal ::
    "externals \<Rightarrow> crypto \<Rightarrow> kms_key \<Rightarrow> string \<Rightarrow> string btree \<Rightarrow> nat \<Rightarrow> (kms_error, string) result" where
  "seal E C k plaintext ctx d =
     try_bind (require_symmetric_crypto k) (\<lambda>_.
       let nonce = random_bytes C d NONCE_LEN in
       Inr (MAGIC @ k_id k @ nonce
            @ aes_encrypt C (or_default [] (k_material k)) nonce (canonical_context E ctx) plaintext))"

definition encrypt ::
    "externals \<Rightarrow> crypto \<Rightarrow> string \<Rightarrow> string \<Rightarrow> string btree \<Rightarrow> nat \<Rightarrow> kms_db \<Rightarrow> (kms_error, kms_key \<times> string) result" where
  "encrypt E C ref plaintext ctx d db =
     (if plaintext = [] \<or> MAX_ENCRYPT_PLAINTEXT < length plaintext then
        Inl (Validation (''1 validation error detected: Value at '' @ quoted ''plaintext''
          @ '' failed to satisfy constraint: Member must have length between 1 and '' @ show_nat MAX_ENCRYPT_PLAINTEXT))
      else try_bind (resolve E ref db) (\<lambda>k.
           try_bind (seal E C k plaintext ctx d) (\<lambda>blob. Inr (k, blob))))"

definition decrypt ::
    "externals \<Rightarrow> crypto \<Rightarrow> string \<Rightarrow> string btree \<Rightarrow> string option \<Rightarrow> kms_db \<Rightarrow> (kms_error, kms_key \<times> string) result" where
  "decrypt E C blob ctx ref db =
     (let i = take ID_LEN (drop (length MAGIC) blob);
          nonce = take NONCE_LEN (drop (length MAGIC + ID_LEN) blob)
      in if length blob < HEADER_LEN + 16 \<or> take (length MAGIC) blob \<noteq> MAGIC \<or> \<not> utf8_valid i
         then Inl (InvalidCiphertext [])
         else try_bind (ok_or (not_found_key i) (load_key E i db)) (\<lambda>k.
           try_bind (case ref of
                       None \<Rightarrow> Inr ()
                     | Some r \<Rightarrow> try_bind (resolve E r db) (\<lambda>requested.
                         if k_id requested \<noteq> k_id k then
                           Inl (IncorrectKey ''The key ID in the request does not identify a KMS key that can perform this operation.'')
                         else Inr ()))
             (\<lambda>_. try_bind (require_symmetric_crypto k) (\<lambda>_.
                case aes_decrypt C (or_default [] (k_material k)) nonce (canonical_context E ctx) (drop HEADER_LEN blob) of
                  Some plaintext \<Rightarrow> Inr (k, plaintext)
                | None \<Rightarrow> Inl (InvalidCiphertext [])))))"

definition re_encrypt ::
    "externals \<Rightarrow> crypto \<Rightarrow> string \<Rightarrow> string btree \<Rightarrow> string option \<Rightarrow> string \<Rightarrow> string btree \<Rightarrow> nat \<Rightarrow> kms_db
      \<Rightarrow> (kms_error, kms_key \<times> kms_key \<times> string) result" where
  "re_encrypt E C blob source_ctx source_ref dest_ref dest_ctx d db =
     try_bind (decrypt E C blob source_ctx source_ref db) (\<lambda>(source, plaintext).
     try_bind (resolve E dest_ref db) (\<lambda>dest.
     try_bind (seal E C dest plaintext dest_ctx d) (\<lambda>out. Inr (source, dest, out))))"

definition generate_data_key ::
    "externals \<Rightarrow> crypto \<Rightarrow> string \<Rightarrow> nat \<Rightarrow> string btree \<Rightarrow> nat \<Rightarrow> kms_db
      \<Rightarrow> (kms_error, kms_key \<times> string \<times> string) result" where
  "generate_data_key E C ref n ctx d db =
     try_bind (resolve E ref db) (\<lambda>k.
       let plaintext = random_bytes C d n in
       try_bind (seal E C k plaintext ctx (d + 1)) (\<lambda>blob. Inr (k, plaintext, blob)))"

end
