(* ===== verification/Kms_Handlers.thy ===== *)
theory Kms_Handlers
  imports Kms_Service
begin

text \<open>
  KMS, part 3: the request handler (src/src/aws/kms/handlers.rs).  \<open>kms_dispatch\<close> answers \<open>None\<close> for
  an operation it does not know.  Every request first deletes the keys whose deletion date has
  passed; successful changes are reported to the telemetry sink.
\<close>

subsection \<open>Request fields\<close>

definition lower_first :: "string \<Rightarrow> string" where
  "lower_first s = (case s of [] \<Rightarrow> [] | c # r \<Rightarrow> to_lower c # r)"

definition kms_missing :: "string \<Rightarrow> kms_error" where
  "kms_missing field = constraint_error ''null'' (lower_first field) ''Member must not be null''"

definition req_str :: "json \<Rightarrow> string \<Rightarrow> (kms_error, string) result" where
  "req_str b field =
     (case json_str field b of
        Some s \<Rightarrow> if s \<noteq> [] then Inr s else Inl (kms_missing field) | None \<Rightarrow> Inl (kms_missing field))"

definition opt_i64 :: "json \<Rightarrow> string \<Rightarrow> (kms_error, int option) result" where
  "opt_i64 b field =
     (case json_get field b of
        None \<Rightarrow> Inr None
      | Some v \<Rightarrow> if v = JNull then Inr None
          else (case as_i64 v of Some n \<Rightarrow> Inr (Some n) | None \<Rightarrow> Inl (Validation (field @ '' must be an integer''))))"

definition req_blob :: "externals \<Rightarrow> json \<Rightarrow> string \<Rightarrow> (kms_error, string) result" where
  "req_blob E b field =
     try_bind (ok_or (kms_missing field) (json_str field b)) (\<lambda>s.
       ok_or (Validation (field @ '' is not valid base64'')) (b64_decode E s))"

definition ciphertext :: "externals \<Rightarrow> json \<Rightarrow> string \<Rightarrow> (kms_error, string) result" where
  "ciphertext E b field =
     try_bind (ok_or (kms_missing field) (json_str field b)) (\<lambda>s.
       ok_or (InvalidCiphertext []) (b64_decode E s))"

fun collect_results :: "('e, 'a) result list \<Rightarrow> ('e, 'a list) result" where
  "collect_results [] = Inr []"
| "collect_results (r # rs) = try_bind r (\<lambda>x. try_bind (collect_results rs) (\<lambda>xs. Inr (x # xs)))"

definition kms_context :: "json \<Rightarrow> string \<Rightarrow> (kms_error, string btree) result" where
  "kms_context b field =
     (case json_get field b of
        None \<Rightarrow> Inr []
      | Some v \<Rightarrow> if v = JNull then Inr []
          else (case as_object v of
                  Some m \<Rightarrow>
                    try_bind (collect_results (map (\<lambda>(k, x).
                        case as_str x of Some s \<Rightarrow> Inr (k, s)
                        | None \<Rightarrow> Inl (Validation (field @ '' values must be strings''))) m))
                      (\<lambda>kvs. Inr (bt_of_list kvs))
                | None \<Rightarrow> Inl (Validation (field @ '' must be a map of strings''))))"

definition kms_tags :: "json \<Rightarrow> string \<Rightarrow> (kms_error, (string \<times> string) list) result" where
  "kms_tags b field =
     (case json_get field b of
        None \<Rightarrow> Inr []
      | Some v \<Rightarrow> if v = JNull then Inr []
          else (case as_array v of
                  Some items \<Rightarrow>
                    collect_results (map (\<lambda>t.
                      try_bind (ok_or (kms_missing ''TagKey'') (json_str ''TagKey'' t)) (\<lambda>k.
                        Inr (k, or_default [] (json_str ''TagValue'' t)))) items)
                | None \<Rightarrow> Inl (Validation (field @ '' must be a list''))))"

definition check_algorithm :: "json \<Rightarrow> string \<Rightarrow> (kms_error, unit) result" where
  "check_algorithm b field =
     (case json_str field b of
        None \<Rightarrow> Inr ()
      | Some other \<Rightarrow>
          if other = ''SYMMETRIC_DEFAULT'' then Inr ()
          else Inl (InvalidKeyUsage (''Encryption algorithm '' @ other @ '' is not supported by symmetric KMS keys.'')))"

definition byte_count_error :: "int \<Rightarrow> kms_error" where
  "byte_count_error n =
     constraint_error (quoted (show_int n)) ''numberOfBytes'' ''Member must have value between 1 and 1024''"

definition data_key_len :: "json \<Rightarrow> (kms_error, nat) result" where
  "data_key_len b =
     try_bind (opt_i64 b ''NumberOfBytes'') (\<lambda>nbytes.
       case (json_str ''KeySpec'' b, nbytes) of
         (Some _, Some _) \<Rightarrow> Inl (Validation ''Please specify either number of bytes or key spec, but not both.'')
       | (None, None) \<Rightarrow> Inl (Validation ''Please specify either number of bytes or key spec.'')
       | (Some s, None) \<Rightarrow>
           if s = ''AES_256'' then Inr 32 else if s = ''AES_128'' then Inr 16
           else Inl (constraint_error (quoted s) ''keySpec'' ''Member must satisfy enum value set: [AES_256, AES_128]'')
       | (None, Some n) \<Rightarrow> if 1 \<le> n \<and> n \<le> 1024 then Inr (nat n) else Inl (byte_count_error n))"

definition marker_start :: "nat \<Rightarrow> json \<Rightarrow> (kms_error, nat) result" where
  "marker_start len b =
     (case json_str ''Marker'' b of
        None \<Rightarrow> Inr 0
      | Some m \<Rightarrow>
          (case parse_usize m of
             Some s \<Rightarrow> if s \<le> len then Inr s else Inl (InvalidMarker (''Invalid marker: '' @ m))
           | None \<Rightarrow> Inl (InvalidMarker (''Invalid marker: '' @ m))))"

definition kms_paginate ::
    "'a list \<Rightarrow> json \<Rightarrow> int \<Rightarrow> int \<Rightarrow> (kms_error, 'a list \<times> string option) result" where
  "kms_paginate items b mx dflt =
     try_bind (opt_i64 b ''Limit'') (\<lambda>l.
       let limit = or_default dflt l in
       if limit < 1 \<or> mx < limit then
         Inl (constraint_error (quoted (show_int limit)) ''limit''
                (''Member must have value between 1 and '' @ show_int mx))
       else try_bind (marker_start (length items) b) (\<lambda>start.
         let fin = min (start + nat limit) (length items) in
         Inr (take (fin - start) (drop start items), if fin < length items then Some (show_nat fin) else None)))"

definition kms_paged :: "(string \<times> json) list \<Rightarrow> string option \<Rightarrow> json" where
  "kms_paged fs next_marker =
     json_obj (fs @ [(''Truncated'', JBool (next_marker \<noteq> None))]
               @ (case next_marker of Some n \<Rightarrow> [(''NextMarker'', JStr n)] | None \<Rightarrow> []))"

subsection \<open>Operations\<close>

type_synonym kms_action = "(kms_db, kms_error, json) action"

definition act_read :: "('s \<Rightarrow> ('e, 'a) result) \<Rightarrow> ('s, 'e, 'a) action" where
  "act_read f s = (f s, s)"

definition act_map :: "('a \<Rightarrow> 'b) \<Rightarrow> ('s, 'e, 'a) action \<Rightarrow> ('s, 'e, 'b) action" where
  "act_map f m = act_bind m (\<lambda>x. act_return (f x))"

definition on_key :: "json \<Rightarrow> (string \<Rightarrow> (kms_db, kms_error, 'a) action) \<Rightarrow> (kms_db, kms_error, 'a) action" where
  "on_key b f = act_bind (act_result (req_str b ''KeyId'')) f"

definition empty_reply :: "(kms_db, kms_error, 'a) action \<Rightarrow> kms_action" where
  "empty_reply m = act_map (\<lambda>_. JObj []) m"

definition op_create_key :: "externals \<Rightarrow> crypto \<Rightarrow> json \<Rightarrow> nat \<Rightarrow> int \<Rightarrow> kms_action" where
  "op_create_key E C b d now =
     act_bind (act_result (kms_tags b ''Tags'')) (\<lambda>ts.
       act_map (\<lambda>k. json_obj [(''KeyMetadata'', metadata k)])
         (create_key E C
            \<lparr> ci_id = None, ci_description = json_str ''Description'' b, ci_usage = json_str ''KeyUsage'' b,
              ci_spec = (case json_str ''KeySpec'' b of
                           Some s \<Rightarrow> Some s | None \<Rightarrow> json_str ''CustomerMasterKeySpec'' b),
              ci_origin = json_str ''Origin'' b, ci_policy = json_str ''Policy'' b, ci_tags = ts,
              ci_multi_region = or_default False (Option.bind (json_get ''MultiRegion'' b) as_bool),
              ci_material = None \<rparr> d now))"

definition op_describe_key :: "externals \<Rightarrow> json \<Rightarrow> kms_action" where
  "op_describe_key E b =
     on_key b (\<lambda>ref. act_map (\<lambda>k. json_obj [(''KeyMetadata'', metadata k)]) (act_read (resolve E ref)))"

definition op_list_keys :: "json \<Rightarrow> kms_action" where
  "op_list_keys b =
     act_read (\<lambda>db. try_bind (kms_paginate (list_key_ids db) b 1000 100) (\<lambda>(page, next_marker).
       Inr (kms_paged [(''Keys'', JArr (map (\<lambda>i. json_obj [(''KeyId'', JStr i), (''KeyArn'', JStr (key_arn i))]) page))]
              next_marker)))"

definition opt_secs :: "int option \<Rightarrow> json" where
  "opt_secs v = (case v of Some t \<Rightarrow> secs_json t | None \<Rightarrow> JNull)"

definition op_schedule_deletion :: "externals \<Rightarrow> (kms_db \<Rightarrow> kms_db) \<Rightarrow> json \<Rightarrow> int \<Rightarrow> kms_action" where
  "op_schedule_deletion E others b now =
     on_key b (\<lambda>ref. act_bind (act_result (opt_i64 b ''PendingWindowInDays'')) (\<lambda>days.
       act_map (\<lambda>k. json_obj
           [(''KeyId'', JStr (kms_key_arn k)), (''DeletionDate'', opt_secs (k_deletion k)),
            (''KeyState'', JStr (k_state k)),
            (''PendingWindowInDays'', case k_window k of Some w \<Rightarrow> JInt w | None \<Rightarrow> JNull)])
         (schedule_deletion E others ref days now)))"

definition op_rotation_status :: "externals \<Rightarrow> json \<Rightarrow> kms_action" where
  "op_rotation_status E b =
     on_key b (\<lambda>ref. act_map (\<lambda>k. json_obj
         ([(''KeyRotationEnabled'', JBool (k_rotation k)), (''KeyId'', JStr (kms_key_arn k))]
          @ (if k_rotation k then
               [(''RotationPeriodInDays'', JInt (k_period k)),
                (''NextRotationDate'', JFloat (F64 (f64_round
                    (secs_f64 (k_created k) + f64_round (of_int (k_period k) * 86400)))))] else [])))
       (act_read (resolve E ref)))"

definition op_untag :: "externals \<Rightarrow> (kms_db \<Rightarrow> kms_db) \<Rightarrow> json \<Rightarrow> kms_action" where
  "op_untag E others b =
     act_bind (act_result (ok_or (kms_missing ''TagKeys'') (Option.bind (json_get ''TagKeys'' b) as_array))) (\<lambda>ks.
       on_key b (\<lambda>ref. empty_reply (kms_untag E others ref (List.map_filter as_str ks))))"

definition op_list_tags :: "externals \<Rightarrow> json \<Rightarrow> kms_action" where
  "op_list_tags E b =
     on_key b (\<lambda>ref. act_read (\<lambda>db. try_bind (resolve E ref db) (\<lambda>k.
       try_bind (kms_paginate (map tag_json (k_tags k)) b 50 50) (\<lambda>(page, next_marker).
         Inr (kms_paged [(''Tags'', JArr page)] next_marker)))))"

definition op_list_aliases :: "externals \<Rightarrow> json \<Rightarrow> kms_action" where
  "op_list_aliases E b =
     act_read (\<lambda>db.
       try_bind (case json_str ''KeyId'' b of
                   Some r \<Rightarrow> try_bind (resolve E r db) (\<lambda>k. Inr (Some (k_id k))) | None \<Rightarrow> Inr None)
         (\<lambda>filt. try_bind (kms_paginate (map (alias_to_json) (list_aliases filt db)) b 100 50) (\<lambda>(page, next_marker).
            Inr (kms_paged [(''Aliases'', JArr page)] next_marker))))"

definition op_encrypt :: "externals \<Rightarrow> crypto \<Rightarrow> json \<Rightarrow> nat \<Rightarrow> kms_action" where
  "op_encrypt E C b d =
     act_bind (act_result (try_bind (check_algorithm b ''EncryptionAlgorithm'') (\<lambda>_.
       try_bind (req_blob E b ''Plaintext'') (\<lambda>p. try_bind (kms_context b ''EncryptionContext'') (\<lambda>c. Inr (p, c))))))
     (\<lambda>(plaintext, ctx). on_key b (\<lambda>ref.
       act_map (\<lambda>(k, blob). json_obj [(''CiphertextBlob'', JStr (b64_encode E blob)), (''KeyId'', JStr (kms_key_arn k)),
                                     (''EncryptionAlgorithm'', JStr ''SYMMETRIC_DEFAULT'')])
         (act_read (encrypt E C ref plaintext ctx d))))"

definition op_decrypt :: "externals \<Rightarrow> crypto \<Rightarrow> json \<Rightarrow> kms_action" where
  "op_decrypt E C b =
     act_bind (act_result (try_bind (check_algorithm b ''EncryptionAlgorithm'') (\<lambda>_.
       try_bind (ciphertext E b ''CiphertextBlob'') (\<lambda>x. try_bind (kms_context b ''EncryptionContext'') (\<lambda>c. Inr (x, c))))))
     (\<lambda>(blob, ctx).
       act_map (\<lambda>(k, plaintext). json_obj [(''KeyId'', JStr (kms_key_arn k)), (''Plaintext'', JStr (b64_encode E plaintext)),
                                          (''EncryptionAlgorithm'', JStr ''SYMMETRIC_DEFAULT'')])
         (act_read (decrypt E C blob ctx (json_str ''KeyId'' b))))"

definition op_re_encrypt :: "externals \<Rightarrow> crypto \<Rightarrow> json \<Rightarrow> nat \<Rightarrow> kms_action" where
  "op_re_encrypt E C b d =
     act_bind (act_result
       (try_bind (check_algorithm b ''SourceEncryptionAlgorithm'') (\<lambda>_.
        try_bind (check_algorithm b ''DestinationEncryptionAlgorithm'') (\<lambda>_.
        try_bind (ciphertext E b ''CiphertextBlob'') (\<lambda>blob.
        try_bind (kms_context b ''SourceEncryptionContext'') (\<lambda>sc.
        try_bind (req_str b ''DestinationKeyId'') (\<lambda>dest.
        try_bind (kms_context b ''DestinationEncryptionContext'') (\<lambda>dc. Inr (blob, sc, dest, dc)))))))))
     (\<lambda>(blob, sc, dest, dc).
       act_map (\<lambda>(s, t, out). json_obj
           [(''CiphertextBlob'', JStr (b64_encode E out)), (''SourceKeyId'', JStr (kms_key_arn s)),
            (''KeyId'', JStr (kms_key_arn t)), (''SourceEncryptionAlgorithm'', JStr ''SYMMETRIC_DEFAULT''),
            (''DestinationEncryptionAlgorithm'', JStr ''SYMMETRIC_DEFAULT'')])
         (act_read (re_encrypt E C blob sc (json_str ''SourceKeyId'' b) dest dc d)))"

definition op_generate_data_key :: "externals \<Rightarrow> crypto \<Rightarrow> bool \<Rightarrow> json \<Rightarrow> nat \<Rightarrow> kms_action" where
  "op_generate_data_key E C with_plaintext b d =
     act_bind (act_result (try_bind (data_key_len b) (\<lambda>n. try_bind (kms_context b ''EncryptionContext'') (\<lambda>c. Inr (n, c)))))
     (\<lambda>(n, ctx). on_key b (\<lambda>ref.
       act_map (\<lambda>(k, plaintext, blob). json_obj
           ([(''CiphertextBlob'', JStr (b64_encode E blob)), (''KeyId'', JStr (kms_key_arn k))]
            @ (if with_plaintext then [(''Plaintext'', JStr (b64_encode E plaintext))] else [])))
         (act_read (generate_data_key E C ref n ctx d))))"

definition op_generate_random :: "externals \<Rightarrow> crypto \<Rightarrow> json \<Rightarrow> nat \<Rightarrow> kms_action" where
  "op_generate_random E C b d =
     act_result (try_bind (opt_i64 b ''NumberOfBytes'') (\<lambda>v. try_bind (ok_or (kms_missing ''NumberOfBytes'') v) (\<lambda>n.
       if n < 1 \<or> 1024 < n then Inl (byte_count_error n)
       else Inr (json_obj [(''Plaintext'', JStr (b64_encode E (random_bytes C d (nat n))))]))))"

definition op_policy :: "externals \<Rightarrow> (kms_db \<Rightarrow> kms_db) \<Rightarrow> string \<Rightarrow> json \<Rightarrow> kms_action" where
  "op_policy E others op b =
     (let name = or_default ''default'' (json_str ''PolicyName'' b) in
      if op = ''GetKeyPolicy'' then
        act_bind (act_result (require_default_policy_name name)) (\<lambda>_. on_key b (\<lambda>ref.
          act_map (\<lambda>k. json_obj [(''Policy'', JStr (k_policy k)), (''PolicyName'', JStr ''default'')])
            (act_read (resolve E ref))))
      else if op = ''PutKeyPolicy'' then
        act_bind (act_result (req_str b ''Policy'')) (\<lambda>policy. on_key b (\<lambda>ref.
          empty_reply (put_policy E others ref name policy)))
      else on_key b (\<lambda>ref. act_map (\<lambda>_. json_obj [(''PolicyNames'', JArr [JStr ''default'']), (''Truncated'', JBool False)])
             (act_read (resolve E ref))))"

definition on_alias ::
    "json \<Rightarrow> (string \<Rightarrow> string \<Rightarrow> (kms_db, kms_error, 'a) action) \<Rightarrow> kms_action" where
  "on_alias b f =
     act_bind (act_result (req_str b ''AliasName'')) (\<lambda>name.
     act_bind (act_result (req_str b ''TargetKeyId'')) (\<lambda>target. empty_reply (f name target)))"

text \<open>The operations that change keys, and those on aliases.\<close>

definition op_change_key ::
    "externals \<Rightarrow> (kms_db \<Rightarrow> kms_db) \<Rightarrow> string \<Rightarrow> json \<Rightarrow> int \<Rightarrow> kms_action" where
  "op_change_key E others op b now =
     (if op = ''EnableKey'' \<or> op = ''DisableKey'' then
        on_key b (\<lambda>ref. empty_reply (set_enabled E others ref (op = ''EnableKey'')))
      else if op = ''ScheduleKeyDeletion'' then op_schedule_deletion E others b now
      else if op = ''CancelKeyDeletion'' then
        on_key b (\<lambda>ref. act_map (\<lambda>k. json_obj [(''KeyId'', JStr (kms_key_arn k))]) (cancel_deletion E others ref))
      else if op = ''EnableKeyRotation'' then
        on_key b (\<lambda>ref. act_bind (act_result (opt_i64 b ''RotationPeriodInDays'')) (\<lambda>p.
          empty_reply (set_rotation E others ref True p)))
      else if op = ''DisableKeyRotation'' then
        on_key b (\<lambda>ref. empty_reply (set_rotation E others ref False None))
      else if op = ''UpdateKeyDescription'' then
        act_bind (act_result (ok_or (kms_missing ''Description'') (json_str ''Description'' b))) (\<lambda>desc.
          on_key b (\<lambda>ref. empty_reply (update_description E others ref desc)))
      else if op = ''TagResource'' then
        on_key b (\<lambda>ref. act_bind (act_result (kms_tags b ''Tags'')) (\<lambda>ts. empty_reply (kms_tag E others ref ts)))
      else op_untag E others b)"

definition op_alias :: "externals \<Rightarrow> (kms_db \<Rightarrow> kms_db) \<Rightarrow> string \<Rightarrow> json \<Rightarrow> int \<Rightarrow> kms_action" where
  "op_alias E others op b now =
     (if op = ''CreateAlias'' then on_alias b (\<lambda>n t. create_alias E others n t now)
      else if op = ''UpdateAlias'' then on_alias b (\<lambda>n t. update_alias E others n t now)
      else if op = ''DeleteAlias'' then
        act_bind (act_result (req_str b ''AliasName'')) (\<lambda>n. empty_reply (delete_alias n))
      else op_list_aliases E b)"

definition op_crypto :: "externals \<Rightarrow> crypto \<Rightarrow> string \<Rightarrow> json \<Rightarrow> nat \<Rightarrow> kms_action" where
  "op_crypto E C op b d =
     (if op = ''Encrypt'' then op_encrypt E C b d
      else if op = ''Decrypt'' then op_decrypt E C b
      else if op = ''ReEncrypt'' then op_re_encrypt E C b d
      else op_generate_data_key E C (op = ''GenerateDataKey'') b d)"

definition kms_dispatch ::
    "externals \<Rightarrow> crypto \<Rightarrow> (kms_db \<Rightarrow> kms_db) \<Rightarrow> string \<Rightarrow> json \<Rightarrow> nat \<Rightarrow> int \<Rightarrow> (kms_db, kms_error, json option) action" where
  "kms_dispatch E C others op b d now =
     (let reply = act_map Some in
      if op = ''CreateKey'' then reply (op_create_key E C b d now)
      else if op = ''DescribeKey'' then reply (op_describe_key E b)
      else if op = ''ListKeys'' then reply (op_list_keys b)
      else if op \<in> {''EnableKey'', ''DisableKey'', ''ScheduleKeyDeletion'', ''CancelKeyDeletion'', ''EnableKeyRotation'',
                    ''DisableKeyRotation'', ''UpdateKeyDescription'', ''TagResource'', ''UntagResource''} then
        reply (op_change_key E others op b now)
      else if op = ''GetKeyRotationStatus'' then reply (op_rotation_status E b)
      else if op = ''ListResourceTags'' then reply (op_list_tags E b)
      else if op \<in> {''GetKeyPolicy'', ''PutKeyPolicy'', ''ListKeyPolicies''} then reply (op_policy E others op b)
      else if op \<in> {''CreateAlias'', ''UpdateAlias'', ''DeleteAlias'', ''ListAliases''} then
        reply (op_alias E others op b now)
      else if op \<in> {''Encrypt'', ''Decrypt'', ''ReEncrypt'', ''GenerateDataKey'', ''GenerateDataKeyWithoutPlaintext''} then
        reply (op_crypto E C op b d)
      else if op = ''GenerateRandom'' then reply (op_generate_random E C b d)
      else act_return None)"

subsection \<open>Requests\<close>

definition MUTATING :: "string list" where
  "MUTATING = [''CreateKey'', ''CreateAlias'', ''UpdateAlias'', ''DeleteAlias'', ''EnableKey'', ''DisableKey'',
     ''ScheduleKeyDeletion'', ''CancelKeyDeletion'', ''EnableKeyRotation'', ''DisableKeyRotation'', ''TagResource'',
     ''UntagResource'', ''UpdateKeyDescription'', ''PutKeyPolicy'']"

definition to_snake :: "string \<Rightarrow> string" where
  "to_snake op =
     concat (map (\<lambda>(i, c). if is_upper c then (if 0 < i then ''_'' else []) @ [to_lower c] else [c])
               (zip [0..<length op] op))"

definition telemetry_payload :: "externals \<Rightarrow> string \<Rightarrow> json \<Rightarrow> json \<Rightarrow> string" where
  "telemetry_payload E op req resp =
     (let key_id = (case Option.bind (json_get ''KeyMetadata'' resp) (json_get ''KeyId'') of
                      Some v \<Rightarrow> v
                    | None \<Rightarrow> (case json_get ''KeyId'' req of
                                 Some v \<Rightarrow> v | None \<Rightarrow> or_default JNull (json_get ''TargetKeyId'' req)))
      in json_print E (json_obj
           ([(''key_id'', key_id)]
            @ (case json_get ''AliasName'' req of Some a \<Rightarrow> [(''alias'', a)] | None \<Rightarrow> [])
            @ (if op = ''ScheduleKeyDeletion''
               then [(''deletion_date'', or_default JNull (json_get ''DeletionDate'' resp))] else []))))"

text \<open>\<open>json_ok\<close> of src/src/proto.rs.\<close>

definition json_ok_response :: "externals \<Rightarrow> json \<Rightarrow> http_response" where
  "json_ok_response E v =
     \<lparr> http_status = 200, http_headers = [(''content-type'', ''application/x-amz-json-1.1'')],
       http_body = json_print E v \<rparr>"

definition kms_error_response :: "externals \<Rightarrow> kms_error \<Rightarrow> http_response" where
  "kms_error_response E e =
     json_error_response E (case e of Internal _ \<Rightarrow> 500 | _ \<Rightarrow> 400) (kms_code e) (kms_message e)"

definition kms_handle_json ::
    "externals \<Rightarrow> crypto \<Rightarrow> (kms_db \<Rightarrow> kms_db) \<Rightarrow> string \<Rightarrow> json \<Rightarrow> nat \<Rightarrow> int \<Rightarrow> kms_db \<times> event list
      \<Rightarrow> http_response \<times> kms_db \<times> event list" where
  "kms_handle_json E C others target b d now s =
     (let op = or_default target (strip_prefix ''TrentService.'' target) in
      case kms_dispatch E C others op b d now (purge_expired now (fst s)) of
        (Inr (Some resp), db) \<Rightarrow>
          (json_ok_response E resp, db,
           if op \<in> set MUTATING
           then emit_event E ''aws'' ''kms'' (to_snake op) (telemetry_payload E op b resp) now (snd s) else snd s)
      | (Inr None, db) \<Rightarrow>
          (json_error_response E 400 ''UnsupportedOperationException'' (''Unsupported KMS operation: '' @ op), db, snd s)
      | (Inl e, db) \<Rightarrow> (kms_error_response E e, db, snd s))"

end
