(* ===== verification/Kms_Invariant.thy ===== *)
theory Kms_Invariant
  imports Kms_Handlers
begin

text \<open>
  KMS, part 4: the life of a key.

  The abstract specification of a key is the step relation \<open>key_step\<close> on its phase: created, enabled,
  disabled, doomed to be deleted at a date, saved again, gone.  \<open>kms_ok\<close> is the invariant of the
  tables.  Every operation keeps the invariant and moves every key along \<open>key_step\<close> only.
\<close>

subsection \<open>Phases of a key\<close>

datatype key_phase = Active | Inactive | Doomed int

inductive key_step :: "int \<Rightarrow> key_phase option \<Rightarrow> key_phase option \<Rightarrow> bool" for now where
  key_create: "key_step now None (Some Active)"
| key_enable: "key_step now (Some Inactive) (Some Active)"
| key_disable: "key_step now (Some Active) (Some Inactive)"
| key_doom: "p \<in> {Active, Inactive} \<Longrightarrow> 7 \<le> days \<Longrightarrow> days \<le> 30 \<Longrightarrow>
    key_step now (Some p) (Some (Doomed (deletion_date now days)))"
| key_cancel: "key_step now (Some (Doomed t)) (Some Inactive)"
| key_expire: "t \<le> now \<Longrightarrow> key_step now (Some (Doomed t)) None"

inductive_cases key_step_DoomedE: "key_step now (Some (Doomed t)) p"
inductive_cases key_step_NoneE: "key_step now None p"

definition phase_of :: "string \<Rightarrow> int option \<Rightarrow> key_phase" where
  "phase_of st del =
     (if st = ''Enabled'' then Active else if st = ''Disabled'' then Inactive else Doomed (or_default 0 del))"

definition key_view :: "kms_db \<Rightarrow> string \<Rightarrow> key_phase option" where
  "key_view db i = map_option (\<lambda>r. phase_of (kr_state r) (kr_deletion r)) (find (\<lambda>r. kr_id r = i) (kms_keys db))"

subsection \<open>The invariant\<close>

definition life_ok :: "string \<Rightarrow> int option \<Rightarrow> int option \<Rightarrow> int \<Rightarrow> bool" where
  "life_ok st del win per \<longleftrightarrow>
     (case (del, win) of
        (None, None) \<Rightarrow> st \<in> {''Enabled'', ''Disabled''}
      | (Some _, Some w) \<Rightarrow> st = ''PendingDeletion'' \<and> 7 \<le> w \<and> w \<le> 30
      | _ \<Rightarrow> False)
     \<and> 90 \<le> per \<and> per \<le> 2560"

definition uuid_text :: "string \<Rightarrow> bool" where
  "uuid_text i \<longleftrightarrow> length i = 36 \<and> list_all uuid_char i"

definition made_ok :: "string \<Rightarrow> string \<Rightarrow> string \<Rightarrow> string option \<Rightarrow> bool" where
  "made_ok i usage spec material \<longleftrightarrow>
     uuid_text i \<and> usage_compatible spec usage
     \<and> (spec = ''SYMMETRIC_DEFAULT'' \<longrightarrow> map_option length material = Some 32)"

definition row_ok :: "kms_row \<Rightarrow> bool" where
  "row_ok r \<longleftrightarrow> life_ok (kr_state r) (kr_deletion r) (kr_window r) (kr_period r)
     \<and> made_ok (kr_id r) (kr_usage r) (kr_spec r) (kr_material r)"

definition key_ok :: "kms_key \<Rightarrow> bool" where
  "key_ok k \<longleftrightarrow> life_ok (k_state k) (k_deletion k) (k_window k) (k_period k)
     \<and> made_ok (k_id k) (k_usage k) (k_spec k) (k_material k)"

definition kms_ok :: "kms_db \<Rightarrow> bool" where
  "kms_ok db \<longleftrightarrow> distinct (map kr_id (kms_keys db)) \<and> distinct (map a_name (kms_aliases db))
     \<and> a_target ` set (kms_aliases db) \<subseteq> kr_id ` set (kms_keys db) \<and> (\<forall>r\<in>set (kms_keys db). row_ok r)"

definition kept :: "int \<Rightarrow> kms_db \<Rightarrow> kms_db \<Rightarrow> bool" where
  "kept now db0 db \<longleftrightarrow> kms_ok db \<and> (\<forall>i. (key_step now)\<^sup>*\<^sup>* (key_view db0 i) (key_view db i))"

lemma kept_refl: "kms_ok db \<Longrightarrow> kept now db db"
  by (simp add: kept_def)

lemma kept_trans: "kept now db0 db1 \<Longrightarrow> kept now db1 db2 \<Longrightarrow> kept now db0 db2"
  unfolding kept_def by (meson rtranclp_trans)

lemma keepsI: "(\<And>db. kms_ok db \<Longrightarrow> kept now db (snd (m db))) \<Longrightarrow> act_keeps (kept now db0) m"
  unfolding act_keeps_def using kept_trans kept_def by blast

lemma key_from_row_ok [simp]: "key_ok (key_from_row E r) = row_ok r"
  by (simp add: key_ok_def row_ok_def key_from_row_def)

lemma load_key_row:
  assumes "load_key E i db = Some k"
  obtains r where "r \<in> set (kms_keys db)" "kr_id r = i" "k = key_from_row E r" "find (\<lambda>r. kr_id r = i) (kms_keys db) = Some r"
  using assms unfolding load_key_def by (auto dest: find_Some_set)

lemma ok_or_Inr_iff: "ok_or e v = Inr x \<longleftrightarrow> v = Some x"
  by (simp add: ok_or_def split: option.splits)

lemma resolve_key:
  assumes "resolve E ref db = Inr k"
  obtains i where "load_key E i db = Some k" "k_id k = i"
proof -
  from assms obtain r where "parse_key_ref ref = Inr r" and
    r: "(case r of RefId i \<Rightarrow> ok_or (not_found_key i) (load_key E i db)
         | RefAlias name \<Rightarrow> try_bind (ok_or (not_found_alias name) (get_alias name db)) (\<lambda>a.
             ok_or (not_found_alias name) (load_key E (a_target a) db))) = Inr k"
    by (auto simp: resolve_def try_bind_Inr_iff)
  then obtain i where l: "load_key E i db = Some k" by (cases r) (auto simp: try_bind_Inr_iff ok_or_Inr_iff)
  moreover from l have "k_id k = i" by (rule load_key_row) (simp add: key_from_row_def)
  ultimately show ?thesis by (rule that)
qed

lemma resolve_ok: "kms_ok db \<Longrightarrow> resolve E ref db = Inr k \<Longrightarrow> key_ok k"
  by (elim resolve_key load_key_row) (auto simp: kms_ok_def)

subsection \<open>Writing a key back\<close>

definition moves_ok :: "int \<Rightarrow> kms_key \<Rightarrow> kms_key \<Rightarrow> bool" where
  "moves_ok now k k' \<longleftrightarrow> k_id k' = k_id k \<and> life_ok (k_state k') (k_deletion k') (k_window k') (k_period k')
     \<and> (key_step now)\<^sup>*\<^sup>* (Some (phase_of (k_state k) (k_deletion k))) (Some (phase_of (k_state k') (k_deletion k')))"

lemma save_fields [simp]:
  "kms_aliases (save E k db) = kms_aliases db" "map kr_id (kms_keys (save E k db)) = map kr_id (kms_keys db)"
  "kr_id ` set (kms_keys (save E k db)) = kr_id ` set (kms_keys db)"
proof -
  show ids: "map kr_id (kms_keys (save E k db)) = map kr_id (kms_keys db)"
    by (simp add: save_def map_key_sql_update)
  show "kr_id ` set (kms_keys (save E k db)) = kr_id ` set (kms_keys db)"
    using arg_cong[OF ids, of set] by simp
qed (simp add: save_def)

lemma save_ok:
  assumes "kms_ok db" "life_ok (k_state k) (k_deletion k) (k_window k) (k_period k)"
  shows "kms_ok (save E k db)"
proof -
  have "\<forall>r\<in>set (kms_keys (save E k db)). row_ok r"
    using assms by (auto simp: kms_ok_def save_def set_sql_update row_ok_def)
  with assms(1) show ?thesis by (simp add: kms_ok_def)
qed

lemma view_save:
  "key_view (save E k db) i =
     (if i = k_id k then map_option (\<lambda>_. phase_of (k_state k) (k_deletion k)) (key_view db i) else key_view db i)"
proof -
  let ?f = "\<lambda>r. r\<lparr> kr_description := k_description k, kr_state := k_state k, kr_deletion := k_deletion k,
     kr_window := k_window k, kr_rotation := of_bool (k_rotation k), kr_period := k_period k,
     kr_policy := k_policy k, kr_tags := json_print E (tags_json k) \<rparr>"
  have "find (\<lambda>r. kr_id r = i) (kms_keys (save E k db))
      = map_option (\<lambda>r. if kr_id r = k_id k then ?f r else r) (find (\<lambda>r. kr_id r = i) (kms_keys db))"
    unfolding save_def by (simp add: find_sql_update)
  then show ?thesis
    by (cases "find (\<lambda>r. kr_id r = i) (kms_keys db)") (auto simp: key_view_def dest: find_Some_set)
qed

lemma modify_key_kept:
  assumes "\<And>k k'. key_ok k \<Longrightarrow> f k = Inr k' \<Longrightarrow> moves_ok now k k'"
  shows "act_keeps (kept now db0) (modify_key E (\<lambda>db. db) ref f)"
proof (rule keepsI)
  fix db assume ok: "kms_ok db"
  show "kept now db (snd (modify_key E (\<lambda>db. db) ref f db))"
  proof (cases "try_bind (resolve E ref db) f")
    case (Inr k')
    then obtain k where k: "resolve E ref db = Inr k" "f k = Inr k'" by (auto simp: try_bind_Inr_iff)
    have mv: "moves_ok now k k'" by (rule assms[OF resolve_ok[OF ok k(1)] k(2)])
    from k(1) obtain i where i: "load_key E i db = Some k" "k_id k = i" by (rule resolve_key)
    then have view: "key_view db i = Some (phase_of (k_state k) (k_deletion k))"
      by (elim load_key_row) (simp add: key_view_def key_from_row_def)
    have "(key_step now)\<^sup>*\<^sup>* (key_view db j) (key_view (save E k' db) j)" for j
      using mv view i(2) by (auto simp: view_save moves_ok_def)
    moreover have "kms_ok (save E k' db)" using mv ok by (simp add: save_ok moves_ok_def)
    ultimately show ?thesis using Inr by (simp add: modify_key_def kept_def)
  qed (use ok in \<open>simp add: modify_key_def kept_refl\<close>)
qed

lemma life_cases:
  assumes "key_ok k"
  obtains "k_state k = ''Enabled''" "k_deletion k = None" "k_window k = None"
  | "k_state k = ''Disabled''" "k_deletion k = None" "k_window k = None"
  | d w where "k_state k = ''PendingDeletion''" "k_deletion k = Some d" "k_window k = Some w" "7 \<le> w" "w \<le> 30"
  using assms unfolding key_ok_def life_ok_def by (auto split: option.splits)

lemmas check_simps = require_not_pending_def require_enabled_def invalid_state_def try_bind_Inr_iff

lemma moves_same:
  assumes "key_ok k" "k_id k' = k_id k" "k_state k' = k_state k" "k_deletion k' = k_deletion k"
    "k_window k' = k_window k" "90 \<le> k_period k'" "k_period k' \<le> 2560"
  shows "moves_ok now k k'"
  using assms by (simp add: moves_ok_def key_ok_def life_ok_def)

lemma key_period: "key_ok k \<Longrightarrow> 90 \<le> k_period k \<and> k_period k \<le> 2560"
  by (simp add: key_ok_def life_ok_def)

lemma set_enabled_kept: "act_keeps (kept now db0) (set_enabled E (\<lambda>db. db) ref en)"
  unfolding set_enabled_def
proof (rule modify_key_kept)
  fix k k' assume ok: "key_ok k"
    and "try_bind (require_not_pending k) (\<lambda>_. Inr (k\<lparr> k_state := (if en then ''Enabled'' else ''Disabled'') \<rparr>)) = Inr k'"
  then have k': "k' = k\<lparr> k_state := (if en then ''Enabled'' else ''Disabled'') \<rparr>" "k_state k \<noteq> ''PendingDeletion''"
    by (auto simp: check_simps split: if_splits)
  from ok k' key_period[OF ok] show "moves_ok now k k'"
    by (elim life_cases) (auto simp: moves_ok_def life_ok_def phase_of_def intro: key_step.intros r_into_rtranclp)
qed

lemma schedule_deletion_kept: "act_keeps (kept now db0) (schedule_deletion E (\<lambda>db. db) ref days now)"
proof -
  have "moves_ok now k k'" if ok: "key_ok k" and d: "7 \<le> d" "d \<le> 30"
    and "try_bind (require_not_pending k) (\<lambda>_. Inr (k\<lparr> k_state := ''PendingDeletion'',
           k_deletion := Some (deletion_date now d), k_window := Some d \<rparr>)) = Inr k'" for k k' d
  proof -
    from that have k': "k' = k\<lparr> k_state := ''PendingDeletion'', k_deletion := Some (deletion_date now d), k_window := Some d \<rparr>"
      "k_state k \<noteq> ''PendingDeletion''" by (auto simp: check_simps split: if_splits)
    from ok k' d key_period[OF ok] show ?thesis
      by (elim life_cases)
         (auto simp: moves_ok_def life_ok_def phase_of_def or_default_def intro!: r_into_rtranclp key_doom)
  qed
  then show ?thesis
    unfolding schedule_deletion_def Let_def by (auto intro!: modify_key_kept simp: not_less)
qed

lemma cancel_deletion_kept: "act_keeps (kept now db0) (cancel_deletion E (\<lambda>db. db) ref)"
  unfolding cancel_deletion_def
proof (rule modify_key_kept)
  fix k k' assume ok: "key_ok k"
    and "(if k_state k \<noteq> ''PendingDeletion'' then
         Inl (InvalidState (kms_key_arn k @ '' is not pending deletion (current state: '' @ k_state k @ '').''))
       else Inr (k\<lparr> k_state := ''Disabled'', k_deletion := None, k_window := None \<rparr>)) = Inr k'"
  then have k': "k' = k\<lparr> k_state := ''Disabled'', k_deletion := None, k_window := None \<rparr>" "k_state k = ''PendingDeletion''"
    by (auto split: if_splits)
  from ok k' key_period[OF ok] show "moves_ok now k k'"
    by (elim life_cases) (auto simp: moves_ok_def life_ok_def phase_of_def intro!: r_into_rtranclp key_cancel)
qed

lemma set_rotation_kept: "act_keeps (kept now db0) (set_rotation E (\<lambda>db. db) ref en per)"
  unfolding set_rotation_def
  by (rule modify_key_kept, rule moves_same)
     (auto simp: check_simps key_period split: if_splits option.splits dest: key_period)

lemma update_description_kept: "act_keeps (kept now db0) (update_description E (\<lambda>db. db) ref desc)"
  unfolding update_description_def
  by (auto intro!: modify_key_kept moves_same simp: check_simps dest: key_period split: if_splits)

lemma kms_tag_kept: "act_keeps (kept now db0) (kms_tag E (\<lambda>db. db) ref ts)"
  unfolding kms_tag_def
  by (rule modify_key_kept, rule moves_same) (auto simp: check_simps dest: key_period split: if_splits)

lemma kms_untag_kept: "act_keeps (kept now db0) (kms_untag E (\<lambda>db. db) ref ks)"
  unfolding kms_untag_def
  by (rule modify_key_kept, rule moves_same) (auto simp: check_simps dest: key_period split: if_splits)

lemma put_policy_kept: "act_keeps (kept now db0) (put_policy E (\<lambda>db. db) ref n p)"
  unfolding put_policy_def
  by (intro act_keeps_bind act_keeps_result modify_key_kept moves_same)
     (auto simp: check_simps dest: key_period split: if_splits)

lemmas change_kept = set_enabled_kept schedule_deletion_kept cancel_deletion_kept set_rotation_kept
  update_description_kept kms_tag_kept kms_untag_kept put_policy_kept

subsection \<open>Keys and aliases come and go\<close>

lemma view_append:
  "key_view (db\<lparr> kms_keys := kms_keys db @ [r] \<rparr>) i =
     (case key_view db i of
        Some p \<Rightarrow> Some p | None \<Rightarrow> if kr_id r = i then Some (phase_of (kr_state r) (kr_deletion r)) else None)"
  by (auto simp: key_view_def find_append split: option.splits)

lemma view_aliases [simp]: "key_view (db\<lparr> kms_aliases := as \<rparr>) i = key_view db i"
  by (simp add: key_view_def)

text \<open>The identifier and key material a caller may pass to \<open>create_key\<close>.\<close>

definition input_ok :: "create_key_input \<Rightarrow> bool" where
  "input_ok inp \<longleftrightarrow>
     (case ci_id inp of None \<Rightarrow> True | Some i \<Rightarrow> uuid_text i)
     \<and> (case ci_material inp of None \<Rightarrow> True | Some m \<Rightarrow> length m = 32)"

lemma new_key_ok:
  assumes "sizes_law E C" "input_ok inp" "new_key E C inp d now = Inr k"
  shows "k_state k = ''Enabled''" "k_deletion k = None" "k_window k = None" "k_period k = 365"
    "made_ok (k_id k) (k_usage k) (k_spec k) (k_material k)"
proof -
  let ?spec = "or_default ''SYMMETRIC_DEFAULT'' (ci_spec inp)"
  have k: "k_state k = ''Enabled''" "k_deletion k = None" "k_window k = None" "k_period k = 365"
    "k_id k = or_default (uuid_v4 E d) (ci_id inp)" "k_spec k = ?spec" "usage_compatible ?spec (k_usage k)"
    "k_material k = new_material C ?spec (ci_material inp) d"
    using assms(3) by (auto simp: new_key_def Let_def try_bind_Inr_iff split: if_splits)
  then show "k_state k = ''Enabled''" "k_deletion k = None" "k_window k = None" "k_period k = 365" by simp_all
  show "made_ok (k_id k) (k_usage k) (k_spec k) (k_material k)"
    using assms(1,2) k
    by (auto simp: made_ok_def sizes_law_def input_ok_def uuid_text_def new_material_def or_default_def split: option.splits)
qed

lemma create_key_kept:
  assumes "sizes_law E C" "input_ok inp"
  shows "act_keeps (kept now db0) (create_key E C inp d now)"
proof (rule keepsI)
  fix db assume ok: "kms_ok db"
  show "kept now db (snd (create_key E C inp d now db))"
  proof (cases "new_key E C inp d now")
    case (Inr k)
    note k = new_key_ok[OF assms Inr]
    show ?thesis
    proof (cases "k_id k \<in> kr_id ` set (kms_keys db)")
      case False
      let ?db = "db\<lparr> kms_keys := kms_keys db @ [new_row E k] \<rparr>"
      have "row_ok (new_row E k)" using k by (simp add: row_ok_def new_row_def life_ok_def)
      then have "kms_ok ?db" using ok False by (auto simp: kms_ok_def new_row_def)
      moreover have "(key_step now)\<^sup>*\<^sup>* (key_view db i) (key_view ?db i)" for i
        by (auto simp: view_append new_row_def k phase_of_def split: option.splits intro: key_create r_into_rtranclp)
      ultimately show ?thesis using Inr False by (simp add: create_key_def kept_def)
    qed (use ok Inr in \<open>simp add: create_key_def kept_refl\<close>)
  qed (use ok in \<open>simp add: create_key_def kept_refl\<close>)
qed

lemma view_purge:
  assumes "kms_ok db"
  shows "key_view (purge_expired now db) i =
    (case key_view db i of Some (Doomed t) \<Rightarrow> if t \<le> now then None else Some (Doomed t) | p \<Rightarrow> p)"
proof (cases "find (\<lambda>r. kr_id r = i) (kms_keys db)")
  case None
  then have "find (\<lambda>r. kr_id r = i) (kms_keys (purge_expired now db)) = None"
    by (auto simp: purge_expired_def find_None_set)
  with None show ?thesis by (simp add: key_view_def)
next
  case (Some r)
  then have r: "r \<in> set (kms_keys db)" "kr_id r = i" using find_Some_set[OF Some] by auto
  have "row_ok r" using r(1) assms by (simp add: kms_ok_def)
  then have life: "life_ok (kr_state r) (kr_deletion r) (kr_window r) (kr_period r)" by (simp add: row_ok_def)
  have uniq: "s = r" if "s \<in> set (kms_keys db)" "kr_id s = i" for s
    using key_inject[of kr_id "kms_keys db" s r] assms that r by (auto simp: kms_ok_def)
  show ?thesis
  proof (cases "kms_expired now r")
    case True
    then have "find (\<lambda>r. kr_id r = i) (kms_keys (purge_expired now db)) = None"
      using uniq by (auto simp: purge_expired_def find_None_set)
    with True Some show ?thesis
      by (auto simp: key_view_def kms_expired_def phase_of_def or_default_def split: option.splits)
  next
    case False
    then have "find (\<lambda>r. kr_id r = i) (kms_keys (purge_expired now db)) = Some r"
      using r assms find_unique[of kr_id "kms_keys (purge_expired now db)" r i]
      by (auto simp: purge_expired_def kms_ok_def)
    with False Some life show ?thesis
      by (auto simp: key_view_def kms_expired_def phase_of_def or_default_def life_ok_def split: option.splits)
  qed
qed

lemma purge_kept:
  assumes "kms_ok db"
  shows "kept now db (purge_expired now db)"
proof -
  have "a_target a \<in> kr_id ` set (kms_keys (purge_expired now db))"
    if "a \<in> set (kms_aliases (purge_expired now db))" for a
  proof -
    from that assms obtain r where "r \<in> set (kms_keys db)" "a_target a = kr_id r"
      "a_target a \<notin> kr_id ` {r \<in> set (kms_keys db). kms_expired now r}"
      by (auto simp: kms_ok_def purge_expired_def)
    then show ?thesis by (auto simp: purge_expired_def)
  qed
  then have "kms_ok (purge_expired now db)"
    using assms by (auto simp: kms_ok_def purge_expired_def)
  moreover have "(key_step now)\<^sup>*\<^sup>* (key_view db i) (key_view (purge_expired now db) i)" for i
    by (auto simp: view_purge[OF assms] split: option.splits key_phase.splits intro: key_expire r_into_rtranclp)
  ultimately show ?thesis by (simp add: kept_def)
qed

lemma kept_aliases:
  "kms_ok db \<Longrightarrow> distinct (map a_name as) \<Longrightarrow> a_target ` set as \<subseteq> kr_id ` set (kms_keys db) \<Longrightarrow>
    kept now db (db\<lparr> kms_aliases := as \<rparr>)"
  by (simp add: kept_def kms_ok_def)

lemma resolved_id: "resolve E ref db = Inr k \<Longrightarrow> k_id k \<in> kr_id ` set (kms_keys db)"
  by (elim resolve_key load_key_row) (auto simp: key_from_row_def)

lemma create_alias_kept: "act_keeps (kept now db0) (create_alias E (\<lambda>db. db) n t now')"
proof (rule keepsI)
  fix db assume ok: "kms_ok db"
  let ?r = "try_bind (validate_alias_name n) (\<lambda>_. try_bind (resolve E t db) (\<lambda>k.
             try_bind (require_not_pending k) (\<lambda>_. Inr k)))"
  show "kept now db (snd (create_alias E (\<lambda>db. db) n t now' db))"
  proof (cases ?r)
    case (Inr k)
    then have "resolve E t db = Inr k" by (auto simp: try_bind_Inr_iff)
    note id = resolved_id[OF this]
    let ?a = "\<lparr> a_name = n, a_target = k_id k, a_created = now', a_updated = now' \<rparr>"
    have "kept now db (db\<lparr> kms_aliases := kms_aliases db @ [?a] \<rparr>)" if "n \<notin> a_name ` set (kms_aliases db)"
      using ok id that by (intro kept_aliases) (simp_all add: kms_ok_def)
    with Inr ok show ?thesis by (simp add: create_alias_def Let_def kept_refl)
  qed (use ok in \<open>simp add: create_alias_def kept_refl\<close>)
qed

lemma update_alias_kept: "act_keeps (kept now db0) (update_alias E (\<lambda>db. db) n t now')"
proof (rule keepsI)
  fix db assume ok: "kms_ok db"
  let ?r = "try_bind (validate_alias_name n) (\<lambda>_.
           try_bind (ok_or (not_found_alias n) (get_alias n db)) (\<lambda>a.
           try_bind (resolve E t db) (\<lambda>k.
           try_bind (require_not_pending k) (\<lambda>_. Inr (a\<lparr> a_target := k_id k, a_updated := now' \<rparr>)))))"
  show "kept now db (snd (update_alias E (\<lambda>db. db) n t now' db))"
  proof (cases ?r)
    case (Inr a)
    then obtain k where "resolve E t db = Inr k" "a_target a = k_id k" by (auto simp: try_bind_Inr_iff)
    then have "a_target a \<in> kr_id ` set (kms_keys db)" using resolved_id by metis
    then have "kept now db (db\<lparr> kms_aliases := sql_update (\<lambda>x. a_name x = a_name a)
        (\<lambda>x. x\<lparr> a_target := a_target a, a_updated := a_updated a \<rparr>) (kms_aliases db) \<rparr>)"
      using ok by (intro kept_aliases) (auto simp: kms_ok_def map_key_sql_update set_sql_update)
    with Inr show ?thesis by (simp add: update_alias_def)
  qed (use ok in \<open>simp add: update_alias_def kept_refl\<close>)
qed

lemma delete_alias_kept: "act_keeps (kept now db0) (delete_alias n)"
proof (rule keepsI)
  fix db assume ok: "kms_ok db"
  then have "kept now db (db\<lparr> kms_aliases := sql_delete (\<lambda>a. a_name a = n) (kms_aliases db) \<rparr>)"
    by (intro kept_aliases) (auto simp: kms_ok_def)
  with ok show "kept now db (snd (delete_alias n db))" by (simp add: delete_alias_def Let_def kept_refl)
qed

subsection \<open>Requests\<close>

lemma keeps_read [intro!]: "act_keeps P (act_read f)"
  by (simp add: act_keeps_def act_read_def)

lemma keeps_map [intro!]: "act_keeps P m \<Longrightarrow> act_keeps P (act_map f m)"
  unfolding act_map_def by blast

lemma keeps_empty [intro!]: "act_keeps P m \<Longrightarrow> act_keeps P (empty_reply m)"
  unfolding empty_reply_def by blast

lemma keeps_on_key [intro!]: "(\<And>ref. act_keeps P (f ref)) \<Longrightarrow> act_keeps P (on_key b f)"
  unfolding on_key_def by blast

lemma keeps_on_alias [intro!]: "(\<And>n t. act_keeps P (f n t)) \<Longrightarrow> act_keeps P (on_alias b f)"
  unfolding on_alias_def by blast


lemmas keeps_intros = keeps_if keeps_read keeps_map keeps_empty keeps_on_key keeps_on_alias
  act_keeps_bind act_keeps_result act_keeps_return

lemma op_change_key_kept: "act_keeps (kept now db0) (op_change_key E (\<lambda>db. db) op b now)"
  unfolding op_change_key_def op_schedule_deletion_def op_untag_def by (intro keeps_intros change_kept)

lemma op_alias_kept: "act_keeps (kept now db0) (op_alias E (\<lambda>db. db) op b now')"
  unfolding op_alias_def op_list_aliases_def
  by (intro keeps_intros create_alias_kept update_alias_kept delete_alias_kept)

lemma op_policy_kept: "act_keeps (kept now db0) (op_policy E (\<lambda>db. db) op b)"
  unfolding op_policy_def Let_def by (intro keeps_intros change_kept)

lemma op_crypto_kept: "act_keeps P (op_crypto E C op b d)"
  unfolding op_crypto_def op_encrypt_def op_decrypt_def op_re_encrypt_def op_generate_data_key_def
  by (intro keeps_intros keeps_prod)

lemma op_create_key_kept: "sizes_law E C \<Longrightarrow> act_keeps (kept now db0) (op_create_key E C b d now)"
  unfolding op_create_key_def by (intro keeps_intros create_key_kept) (simp_all add: input_ok_def)

lemma dispatch_kept:
  assumes "sizes_law E C"
  shows "act_keeps (kept now db0) (kms_dispatch E C (\<lambda>db. db) op b d now)"
  unfolding kms_dispatch_def Let_def op_describe_key_def op_list_keys_def op_rotation_status_def op_list_tags_def
    op_generate_random_def
  by (intro keeps_intros op_create_key_kept[OF assms] op_change_key_kept op_alias_kept op_policy_kept op_crypto_kept)

lemma handle_db:
  "fst (snd (kms_handle_json E C others target b d now s)) =
     snd (kms_dispatch E C others (or_default target (strip_prefix ''TrentService.'' target)) b d now
            (purge_expired now (fst s)))"
  by (auto simp: kms_handle_json_def Let_def split: prod.splits sum.splits option.splits)

lemma request_kept:
  assumes "sizes_law E C" "kms_ok (fst s)"
  shows "kept now (fst s) (fst (snd (kms_handle_json E C (\<lambda>db. db) target b d now s)))"
proof -
  have "kept now (fst s) (purge_expired now (fst s))" by (rule purge_kept[OF assms(2)])
  then show ?thesis
    using dispatch_kept[OF assms(1), of now "fst s"] unfolding handle_db act_keeps_def by blast
qed

end
