(* ===== verification/Kms_Properties.thy ===== *)
theory Kms_Properties
  imports Kms_Invariant Paging
begin

text \<open>
  KMS, part 5: what its clients rely on.  The whole service interprets the contract \<open>service\<close>; the
  paged listings interpret \<open>pager\<close>.
\<close>

subsection \<open>Requests as a machine\<close>

definition kms_serve ::
    "externals \<times> crypto \<Rightarrow> string \<times> json \<times> nat \<times> int \<Rightarrow> kms_db \<times> event list
      \<Rightarrow> http_response \<times> kms_db \<times> event list" where
  "kms_serve env x s =
     (case (env, x) of ((E, C), (target, b, d, now)) \<Rightarrow> kms_handle_json E C (\<lambda>db. db) target b d now s)"

interpretation kms: service "\<lambda>(E, C). sizes_law E C" "(kms_init, [])" kms_serve "\<lambda>_ s. kms_ok (fst s)"
proof unfold_locales
  fix env x and s :: "kms_db \<times> event list"
  assume "case env of (E, C) \<Rightarrow> sizes_law E C" "kms_ok (fst s)"
  then show "kms_ok (fst (snd (kms_serve env x s)))"
    by (cases env; cases x) (auto simp: kms_serve_def dest: request_kept simp: kept_def)
qed (simp add: kms_init_def kms_ok_def)

lemma reached_ok: "sizes_law E C \<Longrightarrow> kms_ok (fst (snd (run_ops (kms_serve (E, C)) xs (kms_init, []))))"
  using kms.inv_reached[of "(E, C)" xs] by simp

subsection \<open>A concrete instance\<close>

definition kms_sample_ext :: externals where
  "kms_sample_ext = sample_ext\<lparr> uuid_v4 := (\<lambda>d. replicate 36 (if d = 0 then CHR ''a'' else CHR ''b'')) \<rparr>"

definition sample_crypto :: crypto where
  "sample_crypto = \<lparr> aes_encrypt = (\<lambda>k n a m. m @ replicate 16 (CHR ''t'')), aes_decrypt = (\<lambda>k n a c. Some (take (length c - 16) c)),
     random_bytes = (\<lambda>d n. replicate n (CHR ''r'')), sha256_raw = (\<lambda>s. replicate 32 (CHR ''h'')) \<rparr>"

lemma sample_crypto_laws [simp]: "aead_law sample_crypto" "sizes_law kms_sample_ext sample_crypto"
  by (simp_all add: aead_law_def sizes_law_def sample_crypto_def kms_sample_ext_def uuid_char_def list_all_iff)

definition sample_key_id :: string where
  "sample_key_id = replicate 36 (CHR ''a'')"

definition sample_create :: "string \<times> json \<times> nat \<times> int" where
  "sample_create = (''TrentService.CreateKey'', JObj [], 0, 1000)"

definition sample_kms_row :: kms_row where
  "sample_kms_row = \<lparr> kr_id = sample_key_id, kr_description = [], kr_usage = ''ENCRYPT_DECRYPT'', kr_spec = ''SYMMETRIC_DEFAULT'',
     kr_origin = ''AWS_KMS'', kr_state = ''Enabled'', kr_created = 1000, kr_deletion = None, kr_window = None,
     kr_material = Some (replicate 32 (CHR ''r'')), kr_rotation = 0, kr_period = 365, kr_policy = default_policy kms_sample_ext,
     kr_tags = json_print kms_sample_ext (JArr []), kr_multi_region = 0 \<rparr>"

definition sample_kms_db :: kms_db where
  "sample_kms_db = \<lparr> kms_keys = [sample_kms_row], kms_aliases = [] \<rparr>"

lemma sample_created: "fst (snd (run_ops (kms_serve (kms_sample_ext, sample_crypto)) [sample_create] (kms_init, []))) = sample_kms_db"
  by (simp add: kms_serve_def sample_create_def handle_db or_default_def strip_prefix_def starts_with_def purge_expired_def
      kms_init_def kms_dispatch_def op_create_key_def act_map_def act_bind_def act_result_def act_return_def kms_tags_def
      create_key_def new_key_def Let_def KEY_SPECS_def KEY_USAGES_def default_usage_def usage_compatible_def
      new_material_def dedupe_tags_def sample_kms_db_def sample_kms_row_def new_row_def sample_key_id_def kms_sample_ext_def
      sample_crypto_def tags_json_def sql_delete_def)

lemma sample_view: "key_view sample_kms_db sample_key_id = Some Active"
  by (simp add: key_view_def sample_kms_db_def sample_kms_row_def phase_of_def)

lemma sample_key_row: "load_key kms_sample_ext sample_key_id sample_kms_db = Some (key_from_row kms_sample_ext sample_kms_row)"
  by (simp add: load_key_def sample_kms_db_def sample_kms_row_def)

lemma sample_ref: "parse_key_ref sample_key_id = Inr (RefId sample_key_id)"
proof -
  have "trim sample_key_id = sample_key_id"
    by (rule trim_word) (simp add: visible_word_def visible_def sample_key_id_def numeral_eq_Suc)
  then show ?thesis
    by (simp add: parse_key_ref_def Let_def) (simp add: sample_key_id_def strip_prefix_def starts_with_def numeral_eq_Suc)
qed

lemma sample_resolve: "resolve kms_sample_ext sample_key_id sample_kms_db = Inr (key_from_row kms_sample_ext sample_kms_row)"
  by (simp add: resolve_def sample_ref sample_key_row ok_or_def)

subsection \<open>The life of a key\<close>

text \<open>What each of the five requests about the life of a key asks of its phase, and what it makes of it.\<close>

inductive key_event :: "json \<Rightarrow> int \<Rightarrow> string \<Rightarrow> key_phase option \<Rightarrow> key_phase option \<Rightarrow> bool" for b now where
  event_create: "key_event b now ''CreateKey'' None (Some Active)"
| event_enable: "p \<in> {Active, Inactive} \<Longrightarrow> key_event b now ''EnableKey'' (Some p) (Some Active)"
| event_disable: "p \<in> {Active, Inactive} \<Longrightarrow> key_event b now ''DisableKey'' (Some p) (Some Inactive)"
| event_schedule: "p \<in> {Active, Inactive} \<Longrightarrow> opt_i64 b ''PendingWindowInDays'' = Inr w \<Longrightarrow>
    days = or_default 30 w \<Longrightarrow> 7 \<le> days \<Longrightarrow> days \<le> 30 \<Longrightarrow>
    key_event b now ''ScheduleKeyDeletion'' (Some p) (Some (Doomed ((now + days * 86400000) div 1000 * 1000)))"
| event_cancel: "key_event b now ''CancelKeyDeletion'' (Some (Doomed t)) (Some Inactive)"

inductive_simps key_event_simps [simp]:
  "key_event b now ''CreateKey'' p q" "key_event b now ''EnableKey'' p q" "key_event b now ''DisableKey'' p q"
  "key_event b now ''ScheduleKeyDeletion'' p q" "key_event b now ''CancelKeyDeletion'' p q"

definition life_ops :: "string set" where
  "life_ops = {''CreateKey'', ''EnableKey'', ''DisableKey'', ''ScheduleKeyDeletion'', ''CancelKeyDeletion''}"

text \<open>The key a request is about: the one with the identifier it draws, or the one its \<open>KeyId\<close> refers to.\<close>

definition life_target :: "externals \<Rightarrow> string \<Rightarrow> json \<Rightarrow> nat \<Rightarrow> kms_db \<Rightarrow> string \<Rightarrow> bool" where
  "life_target E op b d db i \<longleftrightarrow>
     (if op = ''CreateKey'' then i = uuid_v4 E d
      else \<exists>ref k. req_str b ''KeyId'' = Inr ref \<and> resolve E ref db = Inr k \<and> k_id k = i)"

lemma resolve_view:
  assumes "resolve E ref db = Inr k"
  shows "key_view db (k_id k) = Some (phase_of (k_state k) (k_deletion k))"
  using assms by (elim resolve_key load_key_row) (auto simp: key_view_def key_from_row_def)

lemma views_save:
  assumes "resolve E ref db = Inr k" "k_id k' = k_id k"
  shows "key_view (save E k' db) = (key_view db)(k_id k := Some (phase_of (k_state k') (k_deletion k')))"
  using resolve_view[OF assms(1)] assms(2) by (auto simp: view_save)

text \<open>Every other request leaves all phases as they are.\<close>

lemma views_modify:
  assumes "\<And>k k'. f k = Inr k' \<Longrightarrow> k_id k' = k_id k \<and> k_state k' = k_state k \<and> k_deletion k' = k_deletion k"
  shows "act_keeps (\<lambda>db. key_view db = v) (modify_key E (\<lambda>db. db) ref f)"
  unfolding act_keeps_def
proof (intro allI impI)
  fix db assume v: "key_view db = v"
  show "key_view (snd (modify_key E (\<lambda>db. db) ref f db)) = v"
  proof (cases "try_bind (resolve E ref db) f")
    case (Inr k')
    then obtain k where k: "resolve E ref db = Inr k" "f k = Inr k'" by (auto simp: try_bind_Inr_iff)
    show ?thesis
      using assms[OF k(2)] resolve_view[OF k(1)] v Inr by (simp add: modify_key_def views_save[OF k(1)] fun_upd_idem)
  qed (use v in \<open>simp add: modify_key_def\<close>)
qed

lemma views_aliases: "key_view (db\<lparr> kms_aliases := as \<rparr>) = key_view db"
  by (rule ext) simp

lemma views_alias_ops:
  "act_keeps (\<lambda>db. key_view db = v) (create_alias E (\<lambda>db. db) n t now)"
  "act_keeps (\<lambda>db. key_view db = v) (update_alias E (\<lambda>db. db) n t now)"
  "act_keeps (\<lambda>db. key_view db = v) (delete_alias n)"
  unfolding act_keeps_def create_alias_def update_alias_def delete_alias_def Let_def
  by (auto simp: views_aliases split: sum.split)

lemma views_dispatch:
  assumes "op \<notin> life_ops"
  shows "act_keeps (\<lambda>db. key_view db = v) (kms_dispatch E C (\<lambda>db. db) op b d now)"
proof -
  have op: "op \<noteq> ''CreateKey''" "\<not> (op = ''EnableKey'' \<or> op = ''DisableKey'')" "op \<noteq> ''ScheduleKeyDeletion''" "op \<noteq> ''CancelKeyDeletion''"
    using assms by (simp_all add: life_ops_def)
  have change: "act_keeps (\<lambda>db. key_view db = v) (op_change_key E (\<lambda>db. db) op b now)"
    unfolding op_change_key_def if_not_P[OF op(2)] if_not_P[OF op(3)] if_not_P[OF op(4)] op_untag_def
      set_rotation_def update_description_def kms_tag_def kms_untag_def
    by (intro keeps_intros views_modify) (auto simp: check_simps split: if_splits option.splits)
  have policy: "act_keeps (\<lambda>db. key_view db = v) (op_policy E (\<lambda>db. db) op b)"
    unfolding op_policy_def Let_def put_policy_def
    by (intro keeps_intros views_modify) (auto simp: check_simps split: if_splits)
  have aliases: "act_keeps (\<lambda>db. key_view db = v) (op_alias E (\<lambda>db. db) op b now)"
    unfolding op_alias_def op_list_aliases_def by (intro keeps_intros views_alias_ops)
  show ?thesis
    unfolding kms_dispatch_def Let_def op_describe_key_def op_list_keys_def op_rotation_status_def op_list_tags_def
      op_generate_random_def if_not_P[OF op(1)]
    by (intro keeps_intros change policy aliases op_crypto_kept)
qed

text \<open>What a request about the life of a key comes to, and what it leaves.\<close>

definition life_outcome ::
    "externals \<Rightarrow> string \<Rightarrow> json \<Rightarrow> nat \<Rightarrow> int \<Rightarrow> kms_db \<Rightarrow> (kms_error, 'a) result \<times> kms_db \<Rightarrow> bool" where
  "life_outcome E op b d now db r \<longleftrightarrow>
     (if isl (fst r) then key_view (snd r) = key_view db
        \<and> (\<forall>i q. op \<noteq> ''CreateKey'' \<longrightarrow> life_target E op b d db i \<longrightarrow> \<not> key_event b now op (key_view db i) q)
      else \<exists>i q. life_target E op b d db i \<and> key_event b now op (key_view db i) q
        \<and> key_view (snd r) = (key_view db)(i := q))"

lemma life_outcome_map [simp]: "life_outcome E op b d now db (act_map f m db) = life_outcome E op b d now db (m db)"
  by (cases "m db"; cases "fst (m db)") (auto simp: life_outcome_def act_map_def act_bind_def act_return_def)

lemma life_outcome_reply [simp]: "life_outcome E op b d now db (empty_reply m db) = life_outcome E op b d now db (m db)"
  by (simp add: empty_reply_def)

text \<open>A request that refers to its key.\<close>

lemma life_on_key:
  assumes "op \<noteq> ''CreateKey''" "\<And>ref. req_str b ''KeyId'' = Inr ref \<Longrightarrow> life_outcome E op b d now db (f ref db)"
  shows "life_outcome E op b d now db (on_key b f db)"
  using assms by (cases "req_str b ''KeyId''") (auto simp: on_key_def act_bind_def act_result_def life_outcome_def life_target_def)

lemma life_modify:
  assumes ok: "kms_ok db" and op: "op \<noteq> ''CreateKey''" and ref: "req_str b ''KeyId'' = Inr ref"
    and does: "\<And>k k'. key_ok k \<Longrightarrow> f k = Inr k' \<Longrightarrow> k_id k' = k_id k \<and>
      key_event b now op (Some (phase_of (k_state k) (k_deletion k))) (Some (phase_of (k_state k') (k_deletion k')))"
    and refused: "\<And>k e q. key_ok k \<Longrightarrow> f k = Inl e \<Longrightarrow> \<not> key_event b now op (Some (phase_of (k_state k) (k_deletion k))) q"
  shows "life_outcome E op b d now db (modify_key E (\<lambda>db. db) ref f db)"
proof (cases "resolve E ref db")
  case (Inl e)
  with ref op show ?thesis by (simp add: modify_key_def life_outcome_def life_target_def)
next
  case (Inr k)
  note key = resolve_ok[OF ok Inr] and view = resolve_view[OF Inr]
  have target: "life_target E op b d db i \<longleftrightarrow> i = k_id k" for i using ref op Inr by (auto simp: life_target_def)
  show ?thesis
  proof (cases "f k")
    case (Inl e)
    with refused[OF key Inl] Inr show ?thesis by (simp add: modify_key_def life_outcome_def target view)
  next
    case f: (Inr k')
    with does[OF key f] Inr show ?thesis
      by (auto simp: modify_key_def life_outcome_def target view views_save[OF Inr])
  qed
qed

lemma life_set_enabled:
  assumes "kms_ok db" "req_str b ''KeyId'' = Inr ref" "op = (if en then ''EnableKey'' else ''DisableKey'')"
  shows "life_outcome E op b d now db (set_enabled E (\<lambda>db. db) ref en db)"
  unfolding set_enabled_def
  by (rule life_modify[OF assms(1) _ assms(2)])
     (auto simp: assms(3) check_simps phase_of_def elim!: life_cases split: if_splits)

lemma life_cancel:
  assumes "kms_ok db" "req_str b ''KeyId'' = Inr ref"
  shows "life_outcome E ''CancelKeyDeletion'' b d now db (cancel_deletion E (\<lambda>db. db) ref db)"
  unfolding cancel_deletion_def
  by (rule life_modify[OF assms(1) _ assms(2)])
     (auto simp: phase_of_def elim!: life_cases split: if_splits)

lemma life_schedule:
  assumes ok: "kms_ok db" and ref: "req_str b ''KeyId'' = Inr ref" and w: "opt_i64 b ''PendingWindowInDays'' = Inr w"
  shows "life_outcome E ''ScheduleKeyDeletion'' b d now db (schedule_deletion E (\<lambda>db. db) ref w now db)"
proof (cases "or_default 30 w < 7 \<or> 30 < or_default 30 w")
  case True
  then have "\<not> key_event b now ''ScheduleKeyDeletion'' p q" for p q using w by auto
  with True show ?thesis by (simp add: schedule_deletion_def Let_def act_result_def life_outcome_def)
next
  case False
  then show ?thesis
    unfolding schedule_deletion_def Let_def if_not_P[OF False]
    by (intro life_modify[OF ok _ ref])
       (auto simp: w check_simps phase_of_def deletion_date_def or_default_def elim!: life_cases split: if_splits)
qed

lemma life_create:
  assumes "sizes_law E C" "kms_ok db" "ci_id inp = None" "ci_material inp = None"
  shows "life_outcome E ''CreateKey'' b d now db (create_key E C inp d now db)"
proof (cases "new_key E C inp d now")
  case (Inl e)
  then show ?thesis by (simp add: create_key_def life_outcome_def)
next
  case (Inr k)
  have inp: "input_ok inp" using assms(3,4) by (simp add: input_ok_def)
  note k = new_key_ok[OF assms(1) inp Inr]
  have id: "k_id k = uuid_v4 E d"
    using Inr assms(3) by (auto simp: new_key_def Let_def try_bind_Inr_iff or_default_def split: if_splits)
  have new: "key_view db i = None \<longleftrightarrow> i \<notin> kr_id ` set (kms_keys db)" for i
    by (auto simp: key_view_def find_None_set)
  show ?thesis
  proof (cases "k_id k \<in> kr_id ` set (kms_keys db)")
    case True
    with new[of "k_id k"] Inr id show ?thesis by (auto simp: create_key_def life_outcome_def life_target_def)
  next
    case False
    have "key_view (db\<lparr> kms_keys := kms_keys db @ [new_row E k] \<rparr>) = (key_view db)(k_id k := Some Active)"
      using new[of "k_id k"] False by (intro ext) (auto simp: view_append new_row_def k phase_of_def split: option.split)
    with Inr False id new[of "k_id k"] show ?thesis by (simp add: create_key_def life_outcome_def life_target_def)
  qed
qed

lemma life_dispatch:
  assumes sizes: "sizes_law E C" and ok: "kms_ok db" and op: "op \<in> life_ops"
  shows "life_outcome E op b d now db (kms_dispatch E C (\<lambda>db. db) op b d now db)"
proof -
  consider "op = ''CreateKey''" | (enable) "op = ''EnableKey''" | (disable) "op = ''DisableKey''"
    | (schedule) "op = ''ScheduleKeyDeletion''" | (cancel) "op = ''CancelKeyDeletion''"
    using op unfolding life_ops_def insert_iff empty_iff by argo
  then show ?thesis
  proof cases
    case 1
    have "life_outcome E ''CreateKey'' b d now db (op_create_key E C b d now db)"
    proof (cases "kms_tags b ''Tags''")
      case (Inr ts)
      then show ?thesis by (simp add: op_create_key_def act_bind_def act_result_def life_create[OF sizes ok])
    qed (simp add: op_create_key_def act_bind_def act_result_def life_outcome_def)
    then show ?thesis by (simp add: kms_dispatch_def 1)
  next
    case enable
    have "life_outcome E ''EnableKey'' b d now db (on_key b (\<lambda>ref. empty_reply (set_enabled E (\<lambda>db. db) ref True)) db)"
      by (rule life_on_key) (simp_all add: life_set_enabled[OF ok])
    then show ?thesis by (simp add: kms_dispatch_def op_change_key_def enable)
  next
    case disable
    have "life_outcome E ''DisableKey'' b d now db (on_key b (\<lambda>ref. empty_reply (set_enabled E (\<lambda>db. db) ref False)) db)"
      by (rule life_on_key) (simp_all add: life_set_enabled[OF ok])
    then show ?thesis by (simp add: kms_dispatch_def op_change_key_def disable)
  next
    case schedule
    have "life_outcome E ''ScheduleKeyDeletion'' b d now db (op_schedule_deletion E (\<lambda>db. db) b now db)"
      unfolding op_schedule_deletion_def
    proof (rule life_on_key)
      fix ref assume ref: "req_str b ''KeyId'' = Inr ref"
      show "life_outcome E ''ScheduleKeyDeletion'' b d now db
          (act_bind (act_result (opt_i64 b ''PendingWindowInDays'')) (\<lambda>days. act_map (\<lambda>k. json_obj
             [(''KeyId'', JStr (kms_key_arn k)), (''DeletionDate'', opt_secs (k_deletion k)), (''KeyState'', JStr (k_state k)),
              (''PendingWindowInDays'', case k_window k of Some w \<Rightarrow> JInt w | None \<Rightarrow> JNull)])
            (schedule_deletion E (\<lambda>db. db) ref days now)) db)"
      proof (cases "opt_i64 b ''PendingWindowInDays''")
        case (Inr w)
        then show ?thesis by (simp add: act_bind_def act_result_def life_schedule[OF ok ref])
      qed (simp add: act_bind_def act_result_def life_outcome_def)
    qed simp
    then show ?thesis by (simp add: kms_dispatch_def op_change_key_def schedule)
  next
    case cancel
    have "life_outcome E ''CancelKeyDeletion'' b d now db
        (on_key b (\<lambda>ref. act_map (\<lambda>k. json_obj [(''KeyId'', JStr (kms_key_arn k))]) (cancel_deletion E (\<lambda>db. db) ref)) db)"
      by (rule life_on_key) (simp_all add: life_cancel[OF ok])
    then show ?thesis by (simp add: kms_dispatch_def op_change_key_def cancel)
  qed
qed

lemma reply_some: "fst (act_map Some m db) = Inr v \<Longrightarrow> v \<noteq> None"
  by (cases "m db"; cases "fst (m db)") (auto simp: act_map_def act_bind_def act_return_def)

lemma handle_status:
  assumes "op = or_default target (strip_prefix ''TrentService.'' target)" "op \<in> life_ops"
  shows "http_status (fst (kms_handle_json E C others target b d now s)) = 200
    \<longleftrightarrow> \<not> isl (fst (kms_dispatch E C others op b d now (purge_expired now (fst s))))"
proof -
  have "\<exists>m. kms_dispatch E C others op b d now = act_map Some m"
  proof (cases "op = ''CreateKey''")
    case True
    then show ?thesis by (intro exI[of _ "op_create_key E C b d now"]) (simp add: kms_dispatch_def)
  next
    case False
    then consider "op = ''EnableKey''" | "op = ''DisableKey''" | "op = ''ScheduleKeyDeletion''" | "op = ''CancelKeyDeletion''"
      using assms(2) unfolding life_ops_def insert_iff empty_iff by argo
    then show ?thesis by cases (intro exI[of _ "op_change_key E others op b now"], simp add: kms_dispatch_def)+
  qed
  then obtain m where m: "kms_dispatch E C others op b d now = act_map Some m" by blast
  show ?thesis
    using reply_some[of m "purge_expired now (fst s)"]
    by (cases "act_map Some m (purge_expired now (fst s))"; cases "fst (act_map Some m (purge_expired now (fst s)))")
       (auto simp: kms_handle_json_def m assms(1)[symmetric] Let_def json_ok_response_def kms_error_response_def
         json_error_response_def split: option.splits kms_error.splits)
qed

text \<open>
  C15: keys live as specified.  In every state that requests can reach, a request first removes the keys whose
  deletion date has passed.  A successful CreateKey, EnableKey, DisableKey, ScheduleKeyDeletion or
  CancelKeyDeletion then makes exactly the one step of \<open>key_event\<close> of that operation, on the key it is
  about, and no other key changes: a key is created enabled; only a key that is not pending deletion is
  enabled, disabled or scheduled (7 to 30 days ahead, 30 when the request does not say); a saved key is
  disabled.  Such a request that fails, and every other request, changes the phase of no key; and apart from CreateKey they
  fail only when their key has no such step.
\<close>

theorem kms_key_lifecycle:
  assumes "sizes_law E C" "s = snd (run_ops (kms_serve (E, C)) xs (kms_init, []))"
    and "op = or_default target (strip_prefix ''TrentService.'' target)"
    and "kms_handle_json E C (\<lambda>db. db) target b d now s = (resp, s')"
    and "v = (\<lambda>i. case key_view (fst s) i of Some (Doomed t) \<Rightarrow> if t \<le> now then None else Some (Doomed t) | p \<Rightarrow> p)"
  shows "if op \<in> life_ops \<and> http_status resp = 200
    then \<exists>i q. life_target E op b d (purge_expired now (fst s)) i \<and> key_event b now op (v i) q \<and> key_view (fst s') = v(i := q)
    else key_view (fst s') = v \<and> (op \<in> life_ops - {''CreateKey''} \<longrightarrow>
      (\<forall>i q. life_target E op b d (purge_expired now (fst s)) i \<longrightarrow> \<not> key_event b now op (v i) q))"
proof -
  let ?db = "purge_expired now (fst s)" and ?r = "kms_dispatch E C (\<lambda>db. db) op b d now (purge_expired now (fst s))"
  have ok: "kms_ok (fst s)" using reached_ok[OF assms(1)] assms(2) by simp
  then have ok': "kms_ok ?db" using purge_kept by (simp add: kept_def)
  have v: "key_view ?db = v" by (rule ext) (simp add: assms(5) view_purge[OF ok])
  have s': "fst s' = snd ?r" and resp: "resp = fst (kms_handle_json E C (\<lambda>db. db) target b d now s)"
    using handle_db[of E C "\<lambda>db. db" target b d now s] assms(3,4) by simp_all
  show ?thesis
  proof (cases "op \<in> life_ops")
    case True
    then show ?thesis
      using life_dispatch[OF assms(1) ok' True, of b d now] handle_status[OF assms(3) True, of E C "\<lambda>db. db" b d now s]
      unfolding s' resp life_outcome_def v by auto
  next
    case False
    then show ?thesis using views_dispatch[OF False, of v E C b d now] v by (simp add: s' act_keeps_def)
  qed
qed

text \<open>DisableKey on an enabled key.\<close>

theorem kms_key_lifecycle_witness:
  "let s = snd (run_ops (kms_serve (kms_sample_ext, sample_crypto)) [sample_create] (kms_init, []));
       (resp, s') = kms_handle_json kms_sample_ext sample_crypto (\<lambda>db. db) ''TrentService.DisableKey''
          (JObj [(''KeyId'', JStr sample_key_id)]) 0 5 s
   in fst s = sample_kms_db \<and> key_view (fst s) sample_key_id = Some Active
      \<and> http_status resp = 200 \<and> key_view (fst s') sample_key_id = Some Inactive"
proof -
  let ?s = "snd (run_ops (kms_serve (kms_sample_ext, sample_crypto)) [sample_create] (kms_init, []))"
    and ?b = "JObj [(''KeyId'', JStr sample_key_id)]"
  obtain resp s' where run: "kms_handle_json kms_sample_ext sample_crypto (\<lambda>db. db) ''TrentService.DisableKey'' ?b 0 5 ?s = (resp, s')"
    by (rule prod.exhaust)
  have op: "''DisableKey'' = or_default ''TrentService.DisableKey'' (strip_prefix ''TrentService.'' ''TrentService.DisableKey'')"
    by (simp add: or_default_def strip_prefix_def starts_with_def)
  have purged: "purge_expired 5 sample_kms_db = sample_kms_db"
    by (simp add: purge_expired_def sample_kms_db_def sample_kms_row_def kms_expired_def sql_delete_def)
  have "req_str ?b ''KeyId'' = Inr sample_key_id" by (simp add: req_str_def sample_key_id_def)
  then have target: "life_target kms_sample_ext ''DisableKey'' ?b 0 sample_kms_db i \<longleftrightarrow> i = sample_key_id" for i
    using sample_resolve by (auto simp: life_target_def key_from_row_def sample_kms_row_def)
  have "''DisableKey'' \<in> life_ops" "''DisableKey'' \<noteq> ''CreateKey''" by (simp_all add: life_ops_def)
  with kms_key_lifecycle[OF sample_crypto_laws(2) refl op run refl] sample_created sample_view target
  show ?thesis unfolding Let_def run by (auto simp: purged split: if_splits)
qed

lemma steps_keep_key:
  assumes "(key_step now)\<^sup>*\<^sup>* p q" "p \<noteq> None" "\<And>t. p = Some (Doomed t) \<Longrightarrow> now < t"
  shows "q \<noteq> None \<and> (\<forall>t. q = Some (Doomed t) \<longrightarrow> now < t)"
  using assms
proof (induction rule: rtranclp_induct)
  case (step q r)
  have later: "now < deletion_date now days" if "7 \<le> days" for days
  proof -
    have "now + 1000 \<le> now + days * 86400000" using that by linarith
    then have "(now + 1000) div 1000 \<le> (now + days * 86400000) div 1000" by (rule zdiv_mono1) simp
    then have "now div 1000 + 1 \<le> (now + days * 86400000) div 1000" by simp
    then have "(now div 1000 + 1) * 1000 \<le> deletion_date now days" unfolding deletion_date_def by (rule mult_right_mono) simp
    moreover have "now < (now div 1000 + 1) * 1000" by presburger
    ultimately show ?thesis by linarith
  qed
  from step.IH[OF step.prems] step.hyps(2) show ?case
    by (auto elim!: key_step.cases intro: later)
qed auto

text \<open>
  No key is lost early.  A request never removes a key that is not scheduled for deletion or
  whose deletion date has not yet come; deleting takes a request after the date.
\<close>

theorem kms_no_early_deletion:
  assumes "sizes_law E C" "s = snd (run_ops (kms_serve (E, C)) xs (kms_init, []))"
    and "key_view (fst s) i = Some p" "\<And>t. p = Doomed t \<Longrightarrow> now < t"
  shows "key_view (fst (snd (kms_handle_json E C (\<lambda>db. db) target b d now s))) i \<noteq> None"
proof -
  have "kept now (fst s) (fst (snd (kms_handle_json E C (\<lambda>db. db) target b d now s)))"
    using request_kept[OF assms(1)] reached_ok[OF assms(1)] assms(2) by simp
  then have "(key_step now)\<^sup>*\<^sup>* (key_view (fst s) i) (key_view (fst (snd (kms_handle_json E C (\<lambda>db. db) target b d now s))) i)"
    by (simp add: kept_def)
  from steps_keep_key[OF this] assms(3,4) show ?thesis by simp
qed

theorem kms_no_early_deletion_witness:
  "let s = snd (run_ops (kms_serve (kms_sample_ext, sample_crypto)) [sample_create] (kms_init, []))
   in key_view (fst (snd (kms_handle_json kms_sample_ext sample_crypto (\<lambda>db. db) ''TrentService.DisableKey''
        (JObj [(''KeyId'', JStr sample_key_id)]) 0 5 s))) sample_key_id \<noteq> None"
  using kms_no_early_deletion[OF sample_crypto_laws(2) refl, of "[sample_create]" sample_key_id Active 5
      "''TrentService.DisableKey''" "JObj [(''KeyId'', JStr sample_key_id)]" 0] sample_created sample_view
  unfolding Let_def by simp

text \<open>
  C16: The tables stay in range.  In every reachable state key identifiers and alias names are
  unique, every alias points to a key, a deletion date is set exactly for keys pending deletion,
  with a window of 7 to 30 days, and rotation periods lie between 90 and 2560 days.
\<close>

theorem kms_reachable:
  assumes "sizes_law E C" "db = fst (snd (run_ops (kms_serve (E, C)) xs (kms_init, [])))"
  shows "distinct (map kr_id (kms_keys db)) \<and> distinct (map a_name (kms_aliases db))
    \<and> a_target ` set (kms_aliases db) \<subseteq> kr_id ` set (kms_keys db)
    \<and> list_all (\<lambda>r. (kr_deletion r \<noteq> None) = (kr_state r = ''PendingDeletion'')
         \<and> (case kr_window r of None \<Rightarrow> kr_deletion r = None | Some w \<Rightarrow> kr_deletion r \<noteq> None \<and> 7 \<le> w \<and> w \<le> 30)
         \<and> 90 \<le> kr_period r \<and> kr_period r \<le> 2560) (kms_keys db)"
proof -
  have ok: "kms_ok db" using reached_ok[OF assms(1)] assms(2) by simp
  have "(kr_deletion r \<noteq> None) = (kr_state r = ''PendingDeletion'')
         \<and> (case kr_window r of None \<Rightarrow> kr_deletion r = None | Some w \<Rightarrow> kr_deletion r \<noteq> None \<and> 7 \<le> w \<and> w \<le> 30)
         \<and> 90 \<le> kr_period r \<and> kr_period r \<le> 2560" if "row_ok r" for r
    using that by (auto simp: row_ok_def life_ok_def split: option.splits)
  then show ?thesis using ok unfolding kms_ok_def list_all_iff by blast
qed

theorem kms_reachable_witness:
  "let db = fst (snd (run_ops (kms_serve (kms_sample_ext, sample_crypto)) [sample_create] (kms_init, [])))
   in db = sample_kms_db \<and> distinct (map kr_id (kms_keys db))"
  using kms_reachable[OF sample_crypto_laws(2) refl, of "[sample_create]"] sample_created unfolding Let_def by blast

subsection \<open>Encryption\<close>

text \<open>An identifier keeps its usage, spec and key material as long as no CreateKey draws it anew.\<close>

definition same_key :: "string \<Rightarrow> kms_db \<Rightarrow> kms_db \<Rightarrow> bool" where
  "same_key i db0 db \<longleftrightarrow>
     (\<forall>r\<in>set (kms_keys db). kr_id r = i \<longrightarrow> (\<exists>q\<in>set (kms_keys db0).
        (kr_id r, kr_usage r, kr_spec r, kr_material r) = (kr_id q, kr_usage q, kr_spec q, kr_material q)))"

lemma same_key_refl: "same_key i db db"
  by (auto simp: same_key_def)

lemma same_key_save: "same_key i db0 db \<Longrightarrow> same_key i db0 (save E k db)"
  unfolding same_key_def save_def by (auto simp: set_sql_update)

lemma same_key_modify: "act_keeps (same_key i db0) (modify_key E (\<lambda>db. db) ref f)"
  by (auto simp: act_keeps_def modify_key_def same_key_save split: sum.splits)

lemma same_key_aliases: "kms_keys db' = kms_keys db \<Longrightarrow> same_key i db0 db \<Longrightarrow> same_key i db0 db'"
  by (simp add: same_key_def)

lemma same_key_alias_ops:
  "act_keeps (same_key i db0) (create_alias E (\<lambda>db. db) n t now)" "act_keeps (same_key i db0) (update_alias E (\<lambda>db. db) n t now)"
  "act_keeps (same_key i db0) (delete_alias n)"
  by (auto simp: act_keeps_def create_alias_def update_alias_def delete_alias_def Let_def
      elim: same_key_aliases[rotated] split: sum.splits)

lemma same_key_purge: "same_key i db0 db \<Longrightarrow> same_key i db0 (purge_expired now db)"
  by (auto simp: same_key_def purge_expired_def)

lemma same_key_create:
  assumes "uuid_v4 E d \<noteq> i"
  shows "act_keeps (same_key i db0) (op_create_key E C b d now)"
proof -
  have "act_keeps (same_key i db0) (create_key E C inp d now)" if "ci_id inp = None" for inp
    using assms that
    by (auto simp: act_keeps_def create_key_def same_key_def new_row_def new_key_def Let_def or_default_def try_bind_Inr_iff
        split: sum.splits if_splits)
  then show ?thesis unfolding op_create_key_def by (intro keeps_intros) simp
qed

lemma same_key_dispatch:
  assumes "op = ''CreateKey'' \<Longrightarrow> uuid_v4 E d \<noteq> i"
  shows "act_keeps (same_key i db0) (kms_dispatch E C (\<lambda>db. db) op b d now)"
proof (cases "op = ''CreateKey''")
  case True
  have "act_keeps (same_key i db0) (act_map Some (op_create_key E C b d now))"
    by (intro keeps_intros same_key_create assms[OF True])
  then show ?thesis by (simp add: kms_dispatch_def True)
next
  case False
  have change: "act_keeps (same_key i db0) (op_change_key E (\<lambda>db. db) op b now)"
    unfolding op_change_key_def op_schedule_deletion_def op_untag_def set_enabled_def schedule_deletion_def cancel_deletion_def
      set_rotation_def update_description_def kms_tag_def kms_untag_def Let_def
    by (intro keeps_intros same_key_modify)
  have policy: "act_keeps (same_key i db0) (op_policy E (\<lambda>db. db) op b)"
    unfolding op_policy_def Let_def put_policy_def by (intro keeps_intros same_key_modify)
  have aliases: "act_keeps (same_key i db0) (op_alias E (\<lambda>db. db) op b now)"
    unfolding op_alias_def op_list_aliases_def by (intro keeps_intros same_key_alias_ops)
  show ?thesis
    unfolding kms_dispatch_def Let_def op_describe_key_def op_list_keys_def op_rotation_status_def op_list_tags_def
      op_generate_random_def if_not_P[OF False]
    by (intro keeps_intros change policy aliases op_crypto_kept)
qed

definition creates_key :: "string \<times> json \<times> nat \<times> int \<Rightarrow> bool" where
  "creates_key x \<longleftrightarrow> or_default (fst x) (strip_prefix ''TrentService.'' (fst x)) = ''CreateKey''"

text \<open>A CreateKey that draws the identifier \<open>i\<close>.\<close>

definition draws_id :: "externals \<Rightarrow> string \<Rightarrow> string \<times> json \<times> nat \<times> int \<Rightarrow> bool" where
  "draws_id E i x \<longleftrightarrow> creates_key x \<and> uuid_v4 E (fst (snd (snd x))) = i"

lemma same_key_run:
  assumes "list_all (\<lambda>x. \<not> draws_id E i x) ys"
  shows "same_key i (fst s) (fst (snd (run_ops (kms_serve (E, C)) ys s)))"
proof -
  have "same_key i db0 (fst (snd (run_ops (kms_serve (E, C)) ys s)))" if "same_key i db0 (fst s)" for db0
    using assms that
  proof (induction ys arbitrary: s)
    case (Cons y ys)
    obtain target b d now where y: "y = (target, b, d, now)" by (cases y)
    have "same_key i db0 (fst (snd (kms_serve (E, C) y s)))"
      using same_key_dispatch[of "or_default target (strip_prefix ''TrentService.'' target)" E d i db0 C b now]
        Cons.prems same_key_purge[of i db0 "fst s" now]
      by (simp add: y kms_serve_def handle_db draws_id_def creates_key_def act_keeps_def)
    with Cons show ?case by (simp add: Let_def)
  qed simp
  then show ?thesis using same_key_refl by blast
qed

text \<open>Without CreateKey this holds of every identifier.\<close>

definition same_keys :: "kms_db \<Rightarrow> kms_db \<Rightarrow> bool" where
  "same_keys db0 db \<longleftrightarrow>
     (\<forall>r\<in>set (kms_keys db). \<exists>q\<in>set (kms_keys db0).
        (kr_id r, kr_usage r, kr_spec r, kr_material r) = (kr_id q, kr_usage q, kr_spec q, kr_material q))"

lemma same_keys_each: "same_keys db0 db \<longleftrightarrow> (\<forall>i. same_key i db0 db)"
  by (auto simp: same_keys_def same_key_def)

lemma same_keys_refl: "same_keys db db"
  by (simp add: same_keys_each same_key_refl)

lemma same_keys_modify: "act_keeps (same_keys db0) (modify_key E (\<lambda>db. db) ref f)"
  using same_key_modify unfolding act_keeps_def same_keys_each by blast

lemma same_keys_run:
  assumes "list_all (\<lambda>x. \<not> creates_key x) ys"
  shows "same_keys (fst s) (fst (snd (run_ops (kms_serve (E, C)) ys s)))"
  unfolding same_keys_each
  by (intro allI same_key_run) (use assms in \<open>auto simp: list_all_iff draws_id_def\<close>)

lemma key_ok_crypto:
  assumes "row_ok r" "kr_state r = ''Enabled''" "kr_usage r = ''ENCRYPT_DECRYPT''" "kr_spec r = ''SYMMETRIC_DEFAULT''"
  shows "require_symmetric_crypto (key_from_row E r) = Inr ()"
  using assms by (simp add: require_symmetric_crypto_def require_enabled_def key_from_row_def is_symmetric_def row_ok_def made_ok_def)

lemma crypto_key:
  assumes "require_symmetric_crypto k = Inr ()"
  shows "k_state k = ''Enabled''" "k_usage k = ''ENCRYPT_DECRYPT''" "k_spec k = ''SYMMETRIC_DEFAULT''"
    "map_option length (k_material k) = Some 32"
  using assms by (auto simp: require_symmetric_crypto_def require_enabled_def is_symmetric_def try_bind_Inr_iff split: if_splits)

lemma uuid_char_ascii: "uuid_char c \<Longrightarrow> code_of c < 128"
  unfolding uuid_char_def by (simp, elim disjE) simp_all

lemma uuid_text_utf8: "uuid_text i \<Longrightarrow> utf8_valid i"
  by (rule utf8_valid_ascii) (simp add: uuid_text_def list_all_iff uuid_char_ascii)

text \<open>Opening a sealed blob: the header gives back the key's identifier and the nonce.\<close>

lemma decrypt_sealed:
  assumes "aead_law C" "sizes_law E C" "length m = 32" "uuid_text (k_id k)"
    and "load_key E (k_id k) db = Some k" "k_material k = Some m" "require_symmetric_crypto k = Inr ()"
    and blob: "blob = MAGIC @ k_id k @ nonce @ aes_encrypt C m nonce (canonical_context E ctx) p" "length nonce = 12"
  shows "decrypt E C blob ctx None db = Inr (k, p)"
proof -
  have sizes: "length (k_id k) = 36" "length MAGIC = 4" using assms(4) by (simp_all add: uuid_text_def MAGIC_def)
  have "aes_decrypt C m nonce (canonical_context E ctx) (aes_encrypt C m nonce (canonical_context E ctx) p) = Some p"
    "length (aes_encrypt C m nonce (canonical_context E ctx) p) = length p + 16"
    using assms(1,3) blob(2) by (simp_all add: aead_law_def)
  moreover have "take 36 (drop 4 blob) = k_id k" "take 12 (drop 40 blob) = nonce" "take 4 blob = MAGIC"
    "drop 52 blob = aes_encrypt C m nonce (canonical_context E ctx) p"
    using sizes blob by simp_all
  moreover have "\<not> length blob < 68" using calculation(2) sizes blob by simp
  ultimately show ?thesis
    using assms(5-7) uuid_text_utf8[OF assms(4)]
    by (simp add: decrypt_def Let_def sizes ID_LEN_def NONCE_LEN_def HEADER_LEN_def ok_or_def or_default_def)
qed

text \<open>
  A blob opens in every state in which its key is enabled and has the material it was made with.
\<close>

lemma decrypt_elsewhere:
  assumes "aead_law C" "sizes_law E C" "encrypt E C ref p ctx d db = Inr (k, blob)"
    and "kms_ok db'" "key_view db' (k_id k) = Some Active"
    and same: "\<And>r. r \<in> set (kms_keys db') \<Longrightarrow> kr_id r = k_id k \<Longrightarrow>
      kr_usage r = k_usage k \<and> kr_spec r = k_spec k \<and> kr_material r = k_material k"
  shows "\<exists>k'. decrypt E C blob ctx None db' = Inr (k', p) \<and> k_id k' = k_id k"
proof -
  from assms(3) have k: "require_symmetric_crypto k = Inr ()"
    and blob: "blob = MAGIC @ k_id k @ random_bytes C d NONCE_LEN @ aes_encrypt C (or_default [] (k_material k))
      (random_bytes C d NONCE_LEN) (canonical_context E ctx) p"
    by (auto simp: encrypt_def seal_def Let_def try_bind_Inr_iff split: if_splits)
  from crypto_key(4)[OF k] obtain m where m: "k_material k = Some m" "length m = 32" by auto
  from assms(5) obtain r where r: "find (\<lambda>r. kr_id r = k_id k) (kms_keys db') = Some r"
    "phase_of (kr_state r) (kr_deletion r) = Active" by (auto simp: key_view_def)
  then have r': "r \<in> set (kms_keys db')" "kr_id r = k_id k" by (auto dest: find_Some_set)
  have "row_ok r" using assms(4) r'(1) by (simp add: kms_ok_def)
  have "kr_state r = ''Enabled''" using r(2) by (auto simp: phase_of_def split: if_splits)
  with same[OF r'] crypto_key[OF k] \<open>row_ok r\<close> have "require_symmetric_crypto (key_from_row E r) = Inr ()"
    by (intro key_ok_crypto) simp_all
  moreover have "uuid_text (kr_id r)" using \<open>row_ok r\<close> by (simp add: row_ok_def made_ok_def)
  moreover have "load_key E (kr_id r) db' = Some (key_from_row E r)" using r(1) r'(2) by (simp add: load_key_def)
  moreover have "length (random_bytes C d NONCE_LEN) = 12" using assms(2) by (simp add: sizes_law_def NONCE_LEN_def)
  ultimately have "decrypt E C blob ctx None db' = Inr (key_from_row E r, p)"
    using assms(1,2) m blob same[OF r'] r'(2)
    by (intro decrypt_sealed[where nonce = "random_bytes C d NONCE_LEN" and m = m])
       (simp_all add: key_from_row_def or_default_def)
  then show ?thesis using r'(2) by (auto simp: key_from_row_def)
qed

text \<open>
  C14: what is encrypted can be decrypted.  A ciphertext that Encrypt returns in any reachable state
  decrypts, with the same encryption context, to the same plaintext and under the same key after
  any further requests that leave the key enabled, creations of other keys included.  None of them draws the
  key's identifier for a new key (\<open>draws_id\<close>): identifiers of version 4 do not repeat, and if one did after
  the key was deleted, the new key of that identifier would have other material.
\<close>

theorem kms_encrypt_decrypt:
  assumes "aead_law C" "sizes_law E C" "s = snd (run_ops (kms_serve (E, C)) xs (kms_init, []))"
    and "encrypt E C ref p ctx d (fst s) = Inr (k, blob)"
    and "s' = snd (run_ops (kms_serve (E, C)) ys s)" "list_all (\<lambda>x. \<not> draws_id E (k_id k) x) ys"
    and "key_view (fst s') (k_id k) = Some Active"
  shows "\<exists>k'. decrypt E C blob ctx None (fst s') = Inr (k', p) \<and> k_id k' = k_id k"
proof -
  have ok: "kms_ok (fst s)" using reached_ok[OF assms(2)] assms(3) by simp
  have ok': "kms_ok (fst s')"
    using reached_ok[OF assms(2), of "xs @ ys"] assms(3,5) by (simp add: run_ops_append)
  from assms(4) have "resolve E ref (fst s) = Inr k"
    by (auto simp: encrypt_def try_bind_Inr_iff split: if_splits)
  then obtain q where q: "q \<in> set (kms_keys (fst s))" "k = key_from_row E q"
    by (elim resolve_key load_key_row) blast
  have keys: "same_key (k_id k) (fst s) (fst s')" using same_key_run[OF assms(6), of s] assms(5) by simp
  have ids: "distinct (map kr_id (kms_keys (fst s)))" using ok by (simp add: kms_ok_def)
  show ?thesis
  proof (rule decrypt_elsewhere[OF assms(1,2,4) ok' assms(7)])
    fix r assume "r \<in> set (kms_keys (fst s'))" "kr_id r = k_id k"
    with keys obtain q' where q': "q' \<in> set (kms_keys (fst s))" "kr_id q' = k_id k"
      "(kr_usage r, kr_spec r, kr_material r) = (kr_usage q', kr_spec q', kr_material q')"
      by (auto simp: same_key_def)
    with key_inject[OF ids q'(1) q(1)] q(2) show "kr_usage r = k_usage k \<and> kr_spec r = k_spec k \<and> kr_material r = k_material k"
      by (simp add: key_from_row_def)
  qed
qed

text \<open>The key is disabled, another key is created, and the key is enabled again.\<close>

definition toggle :: "string \<Rightarrow> string \<times> json \<times> nat \<times> int" where
  "toggle op = (''TrentService.'' @ op, JObj [(''KeyId'', JStr sample_key_id)], 0, 1000)"

abbreviation later_requests :: "(string \<times> json \<times> nat \<times> int) list" where
  "later_requests \<equiv> [toggle ''DisableKey'', (''TrentService.CreateKey'', JObj [], 1, 1000), toggle ''EnableKey'']"

definition sample_other_row :: kms_row where
  "sample_other_row = sample_kms_row\<lparr> kr_id := replicate 36 (CHR ''b'') \<rparr>"

lemma sample_rows: "kr_id sample_kms_row = sample_key_id" "kr_id sample_other_row = replicate 36 (CHR ''b'')"
  "kr_state sample_kms_row = ''Enabled''" "kr_state sample_other_row = ''Enabled''" "sample_key_id \<noteq> []"
  "\<not> sample_key_id = replicate 36 (CHR ''b'')"
  by (simp_all add: sample_kms_row_def sample_other_row_def sample_key_id_def)


lemma sample_tags: "stored_tags kms_sample_ext (json_print kms_sample_ext (JArr [])) = []"
proof -
  have "json_parse kms_sample_ext (json_print kms_sample_ext (JArr [])) = Some (JArr [])"
    using sample_ext_laws(5) by (simp add: json_roundtrip_def kms_sample_ext_def json_ok_def)
  then show ?thesis by (simp add: stored_tags_def List.map_filter_def)
qed

lemma sample_toggled:
  assumes "st \<in> {''Enabled'', ''Disabled''}" "list_all (\<lambda>r. kr_id r \<noteq> sample_key_id \<and> kr_state r = ''Enabled'') rows" "op \<in> {''EnableKey'', ''DisableKey''}"
  shows "fst (snd (kms_serve (kms_sample_ext, sample_crypto) (toggle op)
      (\<lparr> kms_keys = sample_kms_row\<lparr> kr_state := st \<rparr> # rows, kms_aliases = [] \<rparr>, ev)))
    = \<lparr> kms_keys = sample_kms_row\<lparr> kr_state := (if op = ''EnableKey'' then ''Enabled'' else ''Disabled'') \<rparr> # rows, kms_aliases = [] \<rparr>"
proof -
  let ?db = "\<lparr> kms_keys = sample_kms_row\<lparr> kr_state := st \<rparr> # rows, kms_aliases = [] \<rparr>"
  have purge: "purge_expired 1000 ?db = ?db"
    using assms(1,2) by (auto simp: purge_expired_def sql_delete_def kms_expired_def sample_kms_row_def list_all_iff filter_id_conv)
  have key: "resolve kms_sample_ext sample_key_id ?db = Inr (key_from_row kms_sample_ext (sample_kms_row\<lparr> kr_state := st \<rparr>))"
    by (simp add: resolve_def sample_ref load_key_def ok_or_def) (simp add: sample_kms_row_def)
  have rest: "sql_update (\<lambda>r. kr_id r = sample_key_id) f rows = rows" for f
    using assms(2) unfolding sql_update_def by (intro map_idI) (simp add: list_all_iff)
  have pend: "require_not_pending (key_from_row kms_sample_ext (sample_kms_row\<lparr> kr_state := st \<rparr>)) = Inr ()"
    using assms(1) by (auto simp: require_not_pending_def key_from_row_def)
  have save: "save kms_sample_ext (key_from_row kms_sample_ext (sample_kms_row\<lparr> kr_state := st \<rparr>)\<lparr> k_state := st' \<rparr>) ?db
      = \<lparr> kms_keys = sample_kms_row\<lparr> kr_state := st' \<rparr> # rows, kms_aliases = [] \<rparr>" for st'
    using rest by (simp add: save_def key_from_row_def sql_update_def sample_kms_row_def sample_tags tags_json_def)
  have ref: "req_str (JObj [(''KeyId'', JStr sample_key_id)]) ''KeyId'' = Inr sample_key_id"
    by (simp add: req_str_def sample_rows)
  have dispatch: "snd (kms_dispatch kms_sample_ext sample_crypto (\<lambda>db. db) op (JObj [(''KeyId'', JStr sample_key_id)]) 0 1000 ?db)
      = save kms_sample_ext (key_from_row kms_sample_ext (sample_kms_row\<lparr> kr_state := st \<rparr>)
          \<lparr> k_state := (if op = ''EnableKey'' then ''Enabled'' else ''Disabled'') \<rparr>) ?db"
    using assms(3)
    by (auto simp: kms_dispatch_def op_change_key_def on_key_def ref act_bind_def act_result_def empty_reply_def act_map_def act_return_def
        set_enabled_def modify_key_def key pend)
  have op: "or_default (''TrentService.'' @ op) (strip_prefix ''TrentService.'' (''TrentService.'' @ op)) = op"
    by (simp add: or_default_def strip_prefix_def starts_with_def)
  show ?thesis
    unfolding kms_serve_def toggle_def prod.case handle_db op fst_conv purge dispatch save ..
qed

lemma sample_other_created:
  "fst (snd (kms_serve (kms_sample_ext, sample_crypto) (''TrentService.CreateKey'', JObj [], 1, 1000)
      (\<lparr> kms_keys = [sample_kms_row\<lparr> kr_state := ''Disabled'' \<rparr>], kms_aliases = [] \<rparr>, ev)))
    = \<lparr> kms_keys = [sample_kms_row\<lparr> kr_state := ''Disabled'' \<rparr>, sample_other_row], kms_aliases = [] \<rparr>"
  by (simp add: kms_serve_def handle_db or_default_def strip_prefix_def starts_with_def purge_expired_def kms_expired_def
      kms_dispatch_def op_create_key_def act_map_def act_bind_def act_result_def act_return_def kms_tags_def
      create_key_def new_key_def Let_def KEY_SPECS_def KEY_USAGES_def default_usage_def usage_compatible_def
      new_material_def dedupe_tags_def sample_kms_row_def new_row_def sample_key_id_def kms_sample_ext_def
      sample_crypto_def tags_json_def sql_delete_def sample_other_row_def)

lemma later_db:
  "fst (snd (run_ops (kms_serve (kms_sample_ext, sample_crypto)) later_requests (sample_kms_db, ev)))
     = \<lparr> kms_keys = [sample_kms_row, sample_other_row], kms_aliases = [] \<rparr>"
proof -
  let ?f = "\<lambda>x s. snd (kms_serve (kms_sample_ext, sample_crypto) x s)"
  have eta: "s = (fst s, snd s)" for s :: "kms_db \<times> event list" by simp
  have same: "sample_kms_row\<lparr> kr_state := ''Enabled'' \<rparr> = sample_kms_row" by (simp add: sample_kms_row_def)
  have "fst (?f (toggle ''DisableKey'') (sample_kms_db, ev)) = \<lparr> kms_keys = [sample_kms_row\<lparr> kr_state := ''Disabled'' \<rparr>], kms_aliases = [] \<rparr>"
    using sample_toggled[of "''Enabled''" "[]" "''DisableKey''" ev] unfolding same by (simp add: sample_kms_db_def)
  then obtain ev1 where 1: "?f (toggle ''DisableKey'') (sample_kms_db, ev) = (\<lparr> kms_keys = [sample_kms_row\<lparr> kr_state := ''Disabled'' \<rparr>], kms_aliases = [] \<rparr>, ev1)"
    using eta by metis
  obtain ev2 where 2: "?f (''TrentService.CreateKey'', JObj [], 1, 1000) (\<lparr> kms_keys = [sample_kms_row\<lparr> kr_state := ''Disabled'' \<rparr>], kms_aliases = [] \<rparr>, ev1)
      = (\<lparr> kms_keys = [sample_kms_row\<lparr> kr_state := ''Disabled'' \<rparr>, sample_other_row], kms_aliases = [] \<rparr>, ev2)"
    using eta sample_other_created by metis
  show ?thesis
    using sample_toggled[of "''Disabled''" "[sample_other_row]" "''EnableKey''" ev2] sample_rows(6)
    by (simp add: Let_def 1 2[unfolded One_nat_def] same sample_rows eq_commute[of sample_key_id])
qed

theorem kms_encrypt_decrypt_witness:
  "let s = snd (run_ops (kms_serve (kms_sample_ext, sample_crypto)) [sample_create] (kms_init, []));
       s' = snd (run_ops (kms_serve (kms_sample_ext, sample_crypto)) later_requests s);
       blob = MAGIC @ sample_key_id @ replicate 12 (CHR ''r'') @ ''hi'' @ replicate 16 (CHR ''t'')
   in fst s = sample_kms_db \<and> length (kms_keys (fst s')) = 2
      \<and> encrypt kms_sample_ext sample_crypto sample_key_id ''hi'' [] 7 (fst s) = Inr (key_from_row kms_sample_ext sample_kms_row, blob)
      \<and> (\<exists>k. decrypt kms_sample_ext sample_crypto blob [] None (fst s') = Inr (k, ''hi''))"
proof -
  let ?s = "snd (run_ops (kms_serve (kms_sample_ext, sample_crypto)) [sample_create] (kms_init, []))"
  let ?s' = "snd (run_ops (kms_serve (kms_sample_ext, sample_crypto)) later_requests ?s)"
  let ?blob = "MAGIC @ sample_key_id @ replicate 12 (CHR ''r'') @ ''hi'' @ replicate 16 (CHR ''t'')"
  have id: "k_id (key_from_row kms_sample_ext sample_kms_row) = sample_key_id" by (simp add: key_from_row_def sample_rows)
  have "require_symmetric_crypto (key_from_row kms_sample_ext sample_kms_row) = Inr ()"
    by (simp add: require_symmetric_crypto_def require_enabled_def key_from_row_def sample_kms_row_def is_symmetric_def)
  then have enc: "encrypt kms_sample_ext sample_crypto sample_key_id ''hi'' [] 7 (fst ?s) = Inr (key_from_row kms_sample_ext sample_kms_row, ?blob)"
    unfolding sample_created encrypt_def
    by (simp add: sample_resolve seal_def MAX_ENCRYPT_PLAINTEXT_def)
       (simp add: key_from_row_def sample_kms_row_def sample_crypto_def NONCE_LEN_def)
  have "?s = (sample_kms_db, snd ?s)" using sample_created by (metis prod.collapse)
  then have later: "fst ?s' = \<lparr> kms_keys = [sample_kms_row, sample_other_row], kms_aliases = [] \<rparr>" using later_db by metis
  have active: "key_view (fst ?s') (k_id (key_from_row kms_sample_ext sample_kms_row)) = Some Active"
    unfolding later id by (simp add: key_view_def sample_rows phase_of_def)
  have "list_all (\<lambda>x. \<not> draws_id kms_sample_ext (k_id (key_from_row kms_sample_ext sample_kms_row)) x) later_requests"
    unfolding id by (simp add: draws_id_def toggle_def creates_key_def or_default_def strip_prefix_def starts_with_def)
      (simp add: kms_sample_ext_def sample_key_id_def)
  from kms_encrypt_decrypt[OF sample_crypto_laws refl enc refl this active] enc sample_created later
  show ?thesis unfolding Let_def by auto
qed

text \<open>
  A key that is not enabled does nothing.  With a disabled key or one pending deletion, Encrypt,
  GenerateDataKey, ReEncrypt to it and Decrypt of its ciphertexts all fail with an error that
  names the state, and no other error hides it.
\<close>

theorem kms_unusable_key:
  assumes "resolve E ref db = Inr k" "require_enabled k = Inl e" "p \<noteq> []" "length p \<le> MAX_ENCRYPT_PLAINTEXT"
    and "take 4 blob = MAGIC" "68 \<le> length blob" "take 36 (drop 4 blob) = k_id k" "uuid_text (k_id k)"
    and "kr \<in> {None, Some ref}" "decrypt E C other sctx sref db = Inr (src, q)"
  shows "encrypt E C ref p ctx d db = Inl e \<and> generate_data_key E C ref n ctx d db = Inl e
    \<and> decrypt E C blob ctx kr db = Inl e \<and> re_encrypt E C other sctx sref ref ctx d db = Inl e
    \<and> (\<exists>m. e = KmsDisabled m \<or> e = InvalidState m)"
proof -
  have crypto: "require_symmetric_crypto k = Inl e" using assms(2) by (simp add: require_symmetric_crypto_def)
  from assms(1) obtain i where i: "load_key E i db = Some k" "k_id k = i" by (rule resolve_key)
  have "length MAGIC = 4" by (simp add: MAGIC_def)
  with assms(1,5-9) i crypto uuid_text_utf8[OF assms(8)] have "decrypt E C blob ctx kr db = Inl e"
    by (auto simp: decrypt_def Let_def ID_LEN_def NONCE_LEN_def HEADER_LEN_def ok_or_def)
  moreover have "\<exists>m. e = KmsDisabled m \<or> e = InvalidState m"
    using assms(2) by (auto simp: require_enabled_def invalid_state_def split: if_splits)
  ultimately show ?thesis
    using assms(1,3,4,10) crypto
    by (auto simp: encrypt_def generate_data_key_def re_encrypt_def seal_def)
qed

definition sample_disabled_row :: kms_row where
  "sample_disabled_row = sample_kms_row\<lparr> kr_id := replicate 36 (CHR ''b''), kr_state := ''Disabled'' \<rparr>"

definition sample_two_keys :: kms_db where
  "sample_two_keys = \<lparr> kms_keys = [sample_kms_row, sample_disabled_row], kms_aliases = [] \<rparr>"

definition sample_blob :: "char \<Rightarrow> string" where
  "sample_blob c = MAGIC @ replicate 36 c @ replicate 12 (CHR ''r'') @ ''hi'' @ replicate 16 (CHR ''t'')"

theorem kms_unusable_key_witness:
  "\<exists>e. encrypt kms_sample_ext sample_crypto (replicate 36 (CHR ''b'')) ''hi'' [] 0 sample_two_keys = Inl e
     \<and> decrypt kms_sample_ext sample_crypto (sample_blob (CHR ''b'')) [] None sample_two_keys = Inl e
     \<and> re_encrypt kms_sample_ext sample_crypto (sample_blob (CHR ''a'')) [] None (replicate 36 (CHR ''b'')) [] 0 sample_two_keys = Inl e"
proof -
  let ?i = "replicate 36 (CHR ''b'')" and ?k = "key_from_row kms_sample_ext sample_disabled_row"
  have "trim ?i = ?i" by (rule trim_word) (simp add: visible_word_def visible_def numeral_eq_Suc)
  then have "parse_key_ref ?i = Inr (RefId ?i)"
    by (simp add: parse_key_ref_def Let_def strip_prefix_def starts_with_def numeral_eq_Suc)
  moreover have "load_key kms_sample_ext ?i sample_two_keys = Some ?k"
    by (simp add: load_key_def sample_two_keys_def sample_kms_row_def sample_disabled_row_def sample_key_id_def numeral_eq_Suc)
  ultimately have res: "resolve kms_sample_ext ?i sample_two_keys = Inr ?k" by (simp add: resolve_def ok_or_def)
  have en: "require_enabled ?k = Inl (KmsDisabled (kms_key_arn ?k @ '' is disabled.''))"
    by (simp add: require_enabled_def key_from_row_def sample_disabled_row_def)
  have id: "k_id ?k = ?i" by (simp add: key_from_row_def sample_disabled_row_def)
  have uuid: "uuid_text (k_id ?k)" unfolding id by (simp add: uuid_text_def uuid_char_def list_all_iff)
  have blob: "take 4 (sample_blob (CHR ''b'')) = MAGIC" "68 \<le> length (sample_blob (CHR ''b''))"
    "take 36 (drop 4 (sample_blob (CHR ''b''))) = k_id ?k"
    unfolding id by (simp_all add: sample_blob_def MAGIC_def)
  have "load_key kms_sample_ext sample_key_id sample_two_keys = Some (key_from_row kms_sample_ext sample_kms_row)"
    by (simp add: load_key_def sample_two_keys_def sample_kms_row_def)
  moreover have "require_symmetric_crypto (key_from_row kms_sample_ext sample_kms_row) = Inr ()"
    by (simp add: require_symmetric_crypto_def require_enabled_def key_from_row_def sample_kms_row_def is_symmetric_def)
  moreover have "uuid_text sample_key_id" by (simp add: uuid_text_def uuid_char_def list_all_iff sample_key_id_def)
  ultimately have src: "decrypt kms_sample_ext sample_crypto (sample_blob (CHR ''a'')) [] None sample_two_keys
      = Inr (key_from_row kms_sample_ext sample_kms_row, ''hi'')"
    by (intro decrypt_sealed[where nonce = "replicate 12 (CHR ''r'')" and m = "replicate 32 (CHR ''r'')"])
       (simp_all add: key_from_row_def sample_kms_row_def sample_blob_def sample_key_id_def sample_crypto_def canonical_context_def
         aead_law_def sizes_law_def kms_sample_ext_def uuid_char_def list_all_iff)
  show ?thesis
    using kms_unusable_key[OF res en _ _ blob uuid _ src, of "''hi''" None "[]" 0 0]
    by (auto simp: MAX_ENCRYPT_PLAINTEXT_def)
qed

subsection \<open>References, listings and races\<close>

lemma split_on_arn: "split_on (CHR '':'') (''aws:kms:us-east-1:000000000000:'' @ s) =
    [''aws'', ''kms'', ''us-east-1'', ''000000000000''] @ split_on (CHR '':'') s"
  by (simp add: split_on_nonempty split: list.splits)

lemma parse_arn:
  assumes "visible_word (''arn:aws:kms:'' @ REGION @ '':'' @ ACCOUNT_ID @ '':'' @ s)"
  shows "parse_key_ref (''arn:aws:kms:'' @ REGION @ '':'' @ ACCOUNT_ID @ '':'' @ s) =
    (case strip_prefix ''key/'' s of
       Some i \<Rightarrow> Inr (RefId i)
     | None \<Rightarrow> if starts_with s ''alias/'' then Inr (RefAlias s)
         else Inl (NotFound (''Invalid keyId '' @ ''arn:aws:kms:'' @ REGION @ '':'' @ ACCOUNT_ID @ '':'' @ s)))"
proof -
  let ?r = "''arn:aws:kms:'' @ REGION @ '':'' @ ACCOUNT_ID @ '':'' @ s" and ?rest = "''aws:kms:us-east-1:000000000000:'' @ s"
  have strip: "strip_prefix ''arn:'' ?r = Some ?rest"
    by (simp add: strip_prefix_def starts_with_def REGION_def ACCOUNT_ID_def)
  have resource: "join_on (CHR '':'') (drop 4 (split_on (CHR '':'') ?rest)) = s"
    unfolding split_on_arn by (simp add: join_split)
  have ne: "?r \<noteq> []" by simp
  show ?thesis
    unfolding parse_key_ref_def Let_def trim_word(1)[OF assms] strip option.case if_not_P[OF ne] resource ..
qed

lemma uuid_words:
  assumes "uuid_text i"
  shows "visible_word i" "visible_word (''arn:aws:kms:'' @ REGION @ '':'' @ ACCOUNT_ID @ '':key/'' @ i)"
proof -
  have vis: "visible c" if "uuid_char c" for c using that unfolding uuid_char_def by (simp, elim disjE) (simp_all add: visible_def)
  have i: "i \<noteq> []" "list_all uuid_char i" using assms by (auto simp: uuid_text_def)
  have "visible (hd i)" "visible (last i)" using i vis by (auto simp: list_all_iff)
  with i(1) show "visible_word i" "visible_word (''arn:aws:kms:'' @ REGION @ '':'' @ ACCOUNT_ID @ '':key/'' @ i)"
    by (simp_all add: visible_word_def visible_def)
qed

lemma ref_uuid:
  assumes "uuid_text i"
  shows "parse_key_ref i = Inr (RefId i)"
proof -
  have i: "i \<noteq> []" "list_all uuid_char i" using assms by (auto simp: uuid_text_def)
  have no_colon: "hd i \<noteq> CHR ''r''" "\<not> starts_with i ''arn:''" "\<not> starts_with i ''alias/''"
  proof -
    have "\<not> uuid_char (CHR ''r'')" "\<not> uuid_char (CHR ''l'')" by (simp_all add: uuid_char_def)
    with i(2) have l: "CHR ''r'' \<notin> set i" "CHR ''l'' \<notin> set i" by (auto simp: list_all_iff)
    show "hd i \<noteq> CHR ''r''" using l(1) i(1) by (metis hd_in_set)
    show "\<not> starts_with i ''arn:''"
    proof
      assume "starts_with i ''arn:''"
      then have "set ''arn:'' \<subseteq> set i" unfolding starts_with_def by (metis set_take_subset)
      with l(1) show False by simp
    qed
    show "\<not> starts_with i ''alias/''"
    proof
      assume "starts_with i ''alias/''"
      then have "set ''alias/'' \<subseteq> set i" unfolding starts_with_def by (metis set_take_subset)
      with l(2) show False by simp
    qed
  qed
  show ?thesis
    using trim_word(1)[OF uuid_words(1)[OF assms]] i(1) no_colon by (simp add: parse_key_ref_def Let_def strip_prefix_def)
qed

text \<open>
  All references to a key agree.  A key is found under its identifier and under its ARN alike,
  and an alias leads to its key under its name and under its ARN alike.
\<close>

theorem kms_reference_forms:
  assumes "uuid_text i" "validate_alias_name n = Inr ()"
  shows "resolve E (key_arn i) db = resolve E i db \<and> resolve E (alias_arn n) db = resolve E n db
    \<and> resolve E i db = ok_or (not_found_key i) (load_key E i db)
    \<and> resolve E n db = try_bind (ok_or (not_found_alias n) (get_alias n db))
         (\<lambda>a. ok_or (not_found_alias n) (load_key E (a_target a) db))"
proof -
  note word = uuid_words[OF assms(1)] and ref_i = ref_uuid[OF assms(1)]
  have ref_arn: "parse_key_ref (key_arn i) = Inr (RefId i)"
    using parse_arn[of "''key/'' @ i"] word(2) by (simp add: key_arn_def strip_prefix_def starts_with_def)
  obtain rest where strip: "strip_prefix ''alias/'' n = Some rest"
    using assms(2) by (cases "strip_prefix ''alias/'' n") (simp_all add: validate_alias_name_def)
  then have "rest \<noteq> []" "list_all (\<lambda>c. is_alnum c \<or> c \<in> set ''/_-'') rest"
    using assms(2) by (auto simp: validate_alias_name_def split: if_splits)
  moreover have "n = ''alias/'' @ rest"
    using strip append_take_drop_id[of "length ''alias/''" n]
    unfolding strip_prefix_def starts_with_def by (metis option.distinct(1) option.inject)
  ultimately have n: "n = ''alias/'' @ rest" "rest \<noteq> []" "list_all (\<lambda>c. is_alnum c \<or> c \<in> set ''/_-'') rest"
    by blast+
  have alnum: "visible c" if "is_alnum c \<or> c \<in> set ''/_-''" for c
    using that by (auto simp: is_alnum_def is_digit_def is_upper_def is_lower_def visible_def)
  have last: "visible (last rest)" by (rule alnum) (use n(2,3) in \<open>simp add: list_all_iff\<close>)
  have nword: "visible_word n" "visible_word (''arn:aws:kms:'' @ REGION @ '':'' @ ACCOUNT_ID @ '':'' @ n)"
    using last n(2) by (simp_all add: n(1) visible_word_def visible_def)
  have ref_n: "parse_key_ref n = Inr (RefAlias n)"
    using trim_word(1)[OF nword(1)] by (simp add: parse_key_ref_def Let_def n(1) strip_prefix_def starts_with_def)
  have ref_narn: "parse_key_ref (alias_arn n) = Inr (RefAlias n)"
    using parse_arn[OF nword(2)] by (simp add: alias_arn_def n(1) strip_prefix_def starts_with_def)
  show ?thesis by (simp add: resolve_def ref_i ref_arn ref_n ref_narn)
qed

theorem kms_reference_forms_witness:
  "resolve kms_sample_ext (key_arn sample_key_id) sample_kms_db = resolve kms_sample_ext sample_key_id sample_kms_db
   \<and> resolve kms_sample_ext (alias_arn ''alias/app'') sample_kms_db = resolve kms_sample_ext ''alias/app'' sample_kms_db"
proof -
  have "uuid_text sample_key_id" by (simp add: uuid_text_def uuid_char_def list_all_iff sample_key_id_def)
  moreover have "validate_alias_name ''alias/app'' = Inr ()"
    by (simp add: validate_alias_name_def strip_prefix_def starts_with_def is_alnum_def is_lower_def)
  ultimately show ?thesis using kms_reference_forms by blast
qed

text \<open>The listing request with a limit and, from the second page on, a marker.\<close>

definition list_request :: "int \<Rightarrow> string option \<Rightarrow> json" where
  "list_request limit marker =
     JObj ((''Limit'', JInt limit) # (case marker of Some m \<Rightarrow> [(''Marker'', JStr m)] | None \<Rightarrow> []))"

interpretation kms_pages: pager
  "\<lambda>(mx, dflt, limit, items). 1 \<le> limit \<and> limit \<le> mx \<and> mx \<le> i64_max \<and> length items < 2 ^ 64"
  "\<lambda>(mx, dflt, limit, items) t. kms_paginate items (list_request limit t) mx dflt"
  "\<lambda>(mx, dflt, limit, items). items"
  "\<lambda>(mx, dflt, limit, items) t i. i \<le> length items \<and> (case t of None \<Rightarrow> i = 0 | Some m \<Rightarrow> m = show_nat i)"
proof (unfold_locales, goal_cases)
  case (1 v)
  then show ?case by (cases v) simp
next
  case (2 v t i)
  obtain mx dflt limit items where v: "v = (mx, dflt, limit, items)" by (cases v)
  let ?fin = "min (i + nat limit) (length items)"
  let ?u = "if ?fin < length items then Some (show_nat ?fin) else None"
  have l: "1 \<le> limit" "limit \<le> mx" "in_i64 limit" and i: "i \<le> length items" "length items < 2 ^ 64"
    using 2 by (auto simp: v in_i64_def i64_min_def)
  have start: "marker_start (length items) (list_request limit t) = Inr i"
    using 2 i by (cases t) (simp_all add: v marker_start_def list_request_def parse_usize_show)
  have "kms_paginate items (list_request limit t) mx dflt = Inr (take (?fin - i) (drop i items), ?u)"
    using l start by (simp add: kms_paginate_def opt_i64_def list_request_def or_default_def Let_def)
  moreover have "length (take (?fin - i) (drop i items)) = ?fin - i"
    unfolding length_take length_drop using i(1) by linarith
  ultimately show ?case
    using l i by (intro exI[of _ "take (?fin - i) (drop i items)"] exI[of _ ?u]) (auto simp: v)
qed

text \<open>
  Listing keys is complete.  A client that asks for pages of any permitted size and follows
  the markers collects the identifiers of all keys, each once, in the order of creation.
\<close>

theorem kms_list_keys_complete:
  assumes "1 \<le> limit" "limit \<le> 1000" "length (kms_keys db) < fuel" "fuel < 2 ^ 64"
  shows "collect_pages fuel (\<lambda>t. kms_paginate (list_key_ids db) (list_request limit t) 1000 100) None
    = Some (map kr_id (sort_key kr_created (kms_keys db)))"
  using kms_pages.collect_all[of "(1000, 100, limit, list_key_ids db)" fuel] assms
  by (simp add: i64_max_def list_key_ids_def)

theorem kms_list_keys_complete_witness:
  "collect_pages 3 (\<lambda>t. kms_paginate (list_key_ids sample_two_keys) (list_request 1 t) 1000 100) None
   = Some [sample_key_id, replicate 36 (CHR ''b'')]"
proof -
  have "length (kms_keys sample_two_keys) < 3" by (simp add: sample_two_keys_def)
  from kms_list_keys_complete[OF _ _ this, of 1] show ?thesis
    by (simp add: sample_two_keys_def sample_kms_row_def sample_disabled_row_def)
qed

text \<open>
  A stale write can enable a key again.  TagResource and the other operations that change a key
  write back the whole copy they have read: when a DisableKey succeeds in between, the key is
  enabled again afterwards, and both requests have succeeded.
\<close>

theorem kms_stale_enable:
  assumes "kms_ok db" "resolve E ref db = Inr k" "k_state k = ''Enabled''" "add_tags tags (k_tags k) = Inr ts"
    and "disable = (\<lambda>db. snd (set_enabled E (\<lambda>db. db) ref False db))"
  shows "(\<exists>k'. fst (set_enabled E (\<lambda>db. db) ref False db) = Inr k') \<and> key_view (disable db) (k_id k) = Some Inactive
    \<and> (\<exists>k''. fst (kms_tag E disable ref tags db) = Inr k'')
    \<and> key_view (snd (kms_tag E disable ref tags db)) (k_id k) = Some Active"
proof -
  from assms(2) obtain i where i: "load_key E i db = Some k" "k_id k = i" by (rule resolve_key)
  then obtain r where "find (\<lambda>r. kr_id r = k_id k) (kms_keys db) = Some r" by (elim load_key_row) blast
  then have view: "\<exists>p. key_view db (k_id k) = Some p" by (simp add: key_view_def)
  have pend: "require_not_pending k = Inr ()" using assms(3) by (simp add: require_not_pending_def)
  have dis: "set_enabled E (\<lambda>db. db) ref False db = (Inr (k\<lparr> k_state := ''Disabled'' \<rparr>), save E (k\<lparr> k_state := ''Disabled'' \<rparr>) db)"
    using assms(2) pend by (simp add: set_enabled_def modify_key_def)
  have tagged: "kms_tag E disable ref tags db = (Inr (k\<lparr> k_tags := ts \<rparr>), save E (k\<lparr> k_tags := ts \<rparr>) (disable db))"
    using assms(2,4) pend by (simp add: kms_tag_def modify_key_def)
  show ?thesis
    unfolding tagged dis using view assms(3) by (auto simp: assms(5) dis view_save phase_of_def)
qed

theorem kms_stale_enable_witness:
  "key_view (snd (kms_tag kms_sample_ext (\<lambda>db. snd (set_enabled kms_sample_ext (\<lambda>db. db) sample_key_id False db)) sample_key_id
      [(''env'', ''test'')] sample_kms_db)) sample_key_id = Some Active"
proof -
  have ok: "kms_ok sample_kms_db" using reached_ok[OF sample_crypto_laws(2), of "[sample_create]"] sample_created by simp
  have "k_state (key_from_row kms_sample_ext sample_kms_row) = ''Enabled''" "k_id (key_from_row kms_sample_ext sample_kms_row) = sample_key_id"
    by (simp_all add: key_from_row_def sample_kms_row_def)
  moreover have "json_parse kms_sample_ext (json_print kms_sample_ext (JArr [])) = Some (JArr [])"
    using sample_ext_laws(5) by (simp add: json_roundtrip_def kms_sample_ext_def json_ok_def)
  then have "k_tags (key_from_row kms_sample_ext sample_kms_row) = []"
    by (simp add: key_from_row_def sample_kms_row_def stored_tags_def List.map_filter_def)
  ultimately show ?thesis
    using kms_stale_enable[OF ok sample_resolve _ _ refl, of "[(''env'', ''test'')]" "[(''env'', ''test'')]"] by simp
qed

end
