(* ===== verification/Kms_Seed.thy ===== *)
theory Kms_Seed
  imports Kms_Properties
begin

text \<open>
  KMS, part 5: provisioning from a seed document (\<open>seed\<close> of src/src/aws/kms/mod.rs).

  The document lists keys, each with an identifier, aliases or a description.  The seed runs alone,
  as at start-up.  Parsing UUIDs is a parameter; it returns the hyphenated lower-case text.
\<close>

subsection \<open>The seed\<close>

definition kms_text :: "kms_error \<Rightarrow> string" where
  "kms_text e = kms_code e @ '': '' @ kms_message e"

definition or_text :: "(kms_db, kms_error, 'a) action \<Rightarrow> (kms_db, string, 'a) action" where
  "or_text m = (\<lambda>db. map_prod (map_sum kms_text id) id (m db))"

definition seed_aliases :: "json \<Rightarrow> string list" where
  "seed_aliases entry =
     (case json_str ''alias'' entry of Some a \<Rightarrow> [a] | None \<Rightarrow> [])
     @ List.map_filter as_str (seed_items ''aliases'' entry)"

fun check_aliases :: "string list \<Rightarrow> (string, unit) result" where
  "check_aliases [] = Inr ()"
| "check_aliases (a # as) =
     (case validate_alias_name a of Inl _ \<Rightarrow> Inl (''kms seed alias '' @ a) | Inr _ \<Rightarrow> check_aliases as)"

definition seed_description :: "json \<Rightarrow> string" where
  "seed_description entry = or_default [] (json_str ''description'' entry)"

definition seed_id :: "(string \<Rightarrow> string option) \<Rightarrow> json \<Rightarrow> (string, string option) result" where
  "seed_id parse_uuid entry =
     (case json_str ''id'' entry of
        None \<Rightarrow> Inr None
      | Some s \<Rightarrow>
          (case parse_uuid s of
             None \<Rightarrow> Inl (''kms seed id '' @ s @ '' is not a UUID'')
           | Some i \<Rightarrow> Inr (Some i)))"

text \<open>The key an entry stands for, when it is there.\<close>

definition seed_existing :: "externals \<Rightarrow> string option \<Rightarrow> string list \<Rightarrow> string \<Rightarrow> kms_db \<Rightarrow> string option" where
  "seed_existing E i aliases description db =
     (case i of
        Some i \<Rightarrow> map_option k_id (load_key E i db)
      | None \<Rightarrow>
          (case List.map_filter (\<lambda>a. get_alias a db) aliases of
             a # _ \<Rightarrow> Some (a_target a)
           | [] \<Rightarrow>
               if aliases \<noteq> [] then None
               else map_option k_id (find (\<lambda>k. k_description k = description)
                      (List.map_filter (\<lambda>i. load_key E i db) (list_key_ids db)))))"

definition seed_input :: "externals \<Rightarrow> crypto \<Rightarrow> json \<Rightarrow> string option \<Rightarrow> create_key_input" where
  "seed_input E C entry i =
     \<lparr> ci_id = i, ci_description = Some (seed_description entry), ci_usage = None, ci_spec = None, ci_origin = None,
       ci_policy = None,
       ci_tags = (case Option.bind (json_get ''tags'' entry) as_object of
                    Some m \<Rightarrow> map (\<lambda>(k, v). (k, plain_text E v)) m | None \<Rightarrow> []),
       ci_multi_region = False, ci_material = map_option (seeded_material C) i \<rparr>"

definition seed_new_key ::
    "externals \<Rightarrow> crypto \<Rightarrow> json \<Rightarrow> string option \<Rightarrow> nat \<Rightarrow> int \<Rightarrow> (kms_db, kms_error, string) action" where
  "seed_new_key E C entry i d now =
     act_bind (create_key E C (seed_input E C entry i) d now) (\<lambda>k.
     act_bind (if or_default True (Option.bind (json_get ''enabled'' entry) as_bool) then act_return k
               else set_enabled E (\<lambda>db. db) (k_id k) False) (\<lambda>_.
     act_return (k_id k)))"

text \<open>An alias that appeared meanwhile, or a key about to be deleted, does not stop the seed.\<close>

definition seed_alias :: "externals \<Rightarrow> string \<Rightarrow> int \<Rightarrow> string \<Rightarrow> (kms_db, string, unit) action" where
  "seed_alias E key now a = (\<lambda>db.
     if get_alias a db \<noteq> None then (Inr (), db)
     else case create_alias E (\<lambda>db. db) a key now db of
       (Inr _, db') \<Rightarrow> (Inr (), db')
     | (Inl e, db') \<Rightarrow>
         if kms_code e = ''AlreadyExistsException'' \<or> kms_code e = ''KMSInvalidStateException'' then (Inr (), db')
         else (Inl (''kms seed alias '' @ a @ '': '' @ kms_text e), db'))"

definition seed_key ::
    "externals \<Rightarrow> crypto \<Rightarrow> (string \<Rightarrow> string option) \<Rightarrow> json \<Rightarrow> nat \<Rightarrow> int \<Rightarrow> (kms_db, string, unit) action" where
  "seed_key E C parse_uuid entry d now =
     (let aliases = seed_aliases entry in
      act_bind (act_result (check_aliases aliases)) (\<lambda>_.
      act_bind (act_result (seed_id parse_uuid entry)) (\<lambda>i.
      act_bind (act_read (\<lambda>db. Inr (seed_existing E i aliases (seed_description entry) db))) (\<lambda>existing.
      act_bind (case existing of
                  Some k \<Rightarrow> act_return k
                | None \<Rightarrow> or_text (seed_new_key E C entry i d now)) (\<lambda>key.
      act_all (seed_alias E key now) aliases)))))"

text \<open>Every entry draws its own random values.\<close>

definition kms_seed ::
    "externals \<Rightarrow> crypto \<Rightarrow> (string \<Rightarrow> string option) \<Rightarrow> json \<Rightarrow> nat \<Rightarrow> int \<Rightarrow> (kms_db, string, unit) action" where
  "kms_seed E C parse_uuid doc d now =
     (let entries = seed_items ''keys'' doc in
      act_all (\<lambda>(n, entry). seed_key E C parse_uuid entry (d + n) now) (enumerate 0 entries))"


subsection \<open>Seeded keys\<close>

definition uuid_law :: "(string \<Rightarrow> string option) \<Rightarrow> bool" where
  "uuid_law parse_uuid \<longleftrightarrow> (\<forall>s i. parse_uuid s = Some i \<longrightarrow> uuid_text i)"

definition entry_enabled :: "json \<Rightarrow> bool" where
  "entry_enabled entry = or_default True (Option.bind (json_get ''enabled'' entry) as_bool)"

text \<open>Whatever key has the identifier was made from it, and is enabled if so wished.\<close>

definition seeded_keys :: "crypto \<Rightarrow> string \<Rightarrow> bool \<Rightarrow> kms_db \<Rightarrow> bool" where
  "seeded_keys C i en db \<longleftrightarrow> kms_ok db
     \<and> (\<forall>r\<in>set (kms_keys db). kr_id r = i \<longrightarrow> kr_usage r = ''ENCRYPT_DECRYPT'' \<and> kr_spec r = ''SYMMETRIC_DEFAULT''
          \<and> kr_material r = Some (seeded_material C i))
     \<and> (en \<longrightarrow> key_view db i \<in> {None, Some Active})"

lemma kept_ok: "act_keeps (kept now db0) m \<Longrightarrow> db0 = db \<Longrightarrow> kms_ok db \<Longrightarrow> kms_ok (snd (m db))"
  using kept_refl unfolding act_keeps_def kept_def by blast

lemma keeps_or_text: "act_keeps P m \<Longrightarrow> act_keeps P (or_text m)"
  by (simp add: act_keeps_def or_text_def)

lemma or_text_Inr: "or_text m db = (Inr x, t) \<Longrightarrow> m db = (Inr x, t)"
  by (cases "m db"; cases "fst (m db)") (auto simp: or_text_def)

lemma seed_input_ok:
  assumes "sizes_law E C" "case i of None \<Rightarrow> True | Some j \<Rightarrow> uuid_text j"
  shows "input_ok (seed_input E C entry i)"
  using assms by (auto simp: input_ok_def seed_input_def seeded_material_def sizes_law_def split: option.splits)

lemma create_seeded:
  assumes laws: "sizes_law E C" "case j of None \<Rightarrow> True | Some i' \<Rightarrow> uuid_text i'" "\<And>n. uuid_v4 E n \<noteq> i"
    and ok: "seeded_keys C i en db" and run: "create_key E C (seed_input E C entry j) d now db = (res, db')"
  shows "seeded_keys C i en db' \<and> (\<forall>k. res = Inr k \<longrightarrow> k_id k = or_default (uuid_v4 E d) j \<and> uuid_text (k_id k)
    \<and> k_id k \<in> kr_id ` set (kms_keys db'))"
proof -
  have "kms_ok db'"
    using kept_ok[OF create_key_kept[OF laws(1) seed_input_ok[OF laws(1,2)]] refl, of db entry d now] ok run
    by (simp add: seeded_keys_def)
  moreover have "db' = db \<and> (\<forall>k. res \<noteq> Inr k) \<or> (\<exists>k. res = Inr k \<and> db' = db\<lparr> kms_keys := kms_keys db @ [new_row E k] \<rparr>
      \<and> k_id k \<notin> kr_id ` set (kms_keys db) \<and> new_key E C (seed_input E C entry j) d now = Inr k)"
    using run by (cases "new_key E C (seed_input E C entry j) d now") (auto simp: create_key_def split: if_splits)
  moreover have "k_id k = or_default (uuid_v4 E d) j \<and> k_usage k = ''ENCRYPT_DECRYPT'' \<and> k_spec k = ''SYMMETRIC_DEFAULT''
      \<and> k_state k = ''Enabled'' \<and> uuid_text (k_id k) \<and> (k_id k = i \<longrightarrow> k_material k = Some (seeded_material C i))"
    if "new_key E C (seed_input E C entry j) d now = Inr k" for k
    using new_key_ok(5)[OF laws(1) seed_input_ok[OF laws(1,2)] that] that laws(3)[of d]
    by (auto simp: new_key_def seed_input_def Let_def or_default_def default_usage_def starts_with_def new_material_def
        made_ok_def split: if_splits option.splits)
  ultimately show ?thesis
    using ok
    by (auto simp: seeded_keys_def view_append new_row_def phase_of_def or_default_def split: option.splits)
qed


lemma disable_seeded:
  assumes ok: "seeded_keys C i en db" and key: "uuid_text j" "en \<longrightarrow> j \<noteq> i"
  shows "seeded_keys C i en (snd (set_enabled E (\<lambda>db. db) j v db))"
proof -
  let ?db = "snd (set_enabled E (\<lambda>db. db) j v db)"
  have "kms_ok ?db" using kept_ok[OF set_enabled_kept refl] ok by (simp add: seeded_keys_def)
  moreover have "same_keys db ?db"
    using same_keys_modify same_keys_refl unfolding set_enabled_def act_keeps_def by blast
  moreover have "key_view ?db i = key_view db i" if en
  proof (cases "fst (set_enabled E (\<lambda>db. db) j v db)")
    case (Inr k')
    then obtain k where "resolve E j db = Inr k" "k_id k' = k_id k" and db: "?db = save E k' db"
      by (auto simp: set_enabled_def modify_key_def try_bind_Inr_iff split: sum.splits)
    then have "k_id k' = j"
      using ref_uuid[OF key(1)] by (auto simp: resolve_def ok_or_Inr_iff key_from_row_def elim!: load_key_row)
    with key(2) that db show ?thesis by (simp add: view_save)
  qed (auto simp: set_enabled_def modify_key_def split: sum.splits)
  ultimately show ?thesis using ok by (fastforce simp: seeded_keys_def same_keys_def)
qed

lemma alias_seeded: "act_keeps (seeded_keys C i en) (seed_alias E key now a)"
proof (rule act_keepsI)
  fix db r db' assume ok: "seeded_keys C i en db" and run: "seed_alias E key now a db = (r, db')"
  have c: "kms_ok (snd (create_alias E (\<lambda>db. db) a key now db))" "kms_keys (snd (create_alias E (\<lambda>db. db) a key now db)) = kms_keys db"
    using kept_ok[OF create_alias_kept refl] ok by (auto simp: seeded_keys_def create_alias_def Let_def split: sum.splits)
  moreover have "db' = db \<or> db' = snd (create_alias E (\<lambda>db. db) a key now db)"
    using run by (auto simp: seed_alias_def split: if_splits prod.splits sum.splits)
  ultimately show "seeded_keys C i en db'" using ok by (auto simp: seeded_keys_def key_view_def)
qed

lemma new_key_seeded:
  assumes laws: "sizes_law E C" "case j of None \<Rightarrow> True | Some i' \<Rightarrow> uuid_text i'" "\<And>n. uuid_v4 E n \<noteq> i"
    and en: "en \<Longrightarrow> j = Some i \<Longrightarrow> entry_enabled entry"
  shows "act_keeps (seeded_keys C i en) (seed_new_key E C entry j d now)"
proof (rule act_keepsI)
  fix db r db' assume ok: "seeded_keys C i en db" and run: "seed_new_key E C entry j d now db = (r, db')"
  from run[unfolded seed_new_key_def] show "seeded_keys C i en db'"
  proof (cases rule: act_bind_cases)
    case (fail e)
    with create_seeded[OF laws ok fail(1)] show ?thesis by blast
  next
    case (go k t)
    note k = create_seeded[OF laws ok go(1)]
    show ?thesis
    proof (cases "entry_enabled entry")
      case True
      with go(2) k show ?thesis by (simp add: entry_enabled_def act_bind_def act_return_def)
    next
      case False
      then have "en \<longrightarrow> k_id k \<noteq> i" using en k laws(3) by (auto simp: or_default_def split: option.splits)
      with k have "seeded_keys C i en (snd (set_enabled E (\<lambda>db. db) (k_id k) False t))" by (blast intro: disable_seeded)
      with go(2) False show ?thesis
        by (auto simp: entry_enabled_def act_bind_def act_return_def split: prod.splits sum.splits)
    qed
  qed
qed

lemma seed_key_seeded:
  assumes "sizes_law E C" "uuid_law parse_uuid" "\<And>n. uuid_v4 E n \<noteq> i"
    and "en \<Longrightarrow> seed_id parse_uuid entry = Inr (Some i) \<Longrightarrow> entry_enabled entry"
  shows "act_keeps (seeded_keys C i en) (seed_key E C parse_uuid entry d now)"
proof -
  have make: "act_keeps (seeded_keys C i en) (seed_new_key E C entry j d now)" if "seed_id parse_uuid entry = Inr j" for j
    using assms that
    by (intro new_key_seeded) (auto simp: seed_id_def uuid_law_def split: option.splits)
  have read: "act_keeps P (act_read f)" for P and f :: "kms_db \<Rightarrow> (string, 'a) result" by (rule keeps_read)
  show ?thesis
    unfolding seed_key_def Let_def
    by (intro act_keeps_bind act_keeps_bind_post[where Q = "\<lambda>j. seed_id parse_uuid entry = Inr j"] act_post_result act_keeps_result
        keeps_read keeps_option act_keeps_return keeps_or_text make act_all_keeps alias_seeded)
qed

lemma kms_seed_seeded:
  assumes "sizes_law E C" "uuid_law parse_uuid" "\<And>n. uuid_v4 E n \<noteq> i"
    and "en \<Longrightarrow> \<forall>e\<in>set (seed_items ''keys'' doc). seed_id parse_uuid e = Inr (Some i) \<longrightarrow> entry_enabled e"
  shows "act_keeps (seeded_keys C i en) (kms_seed E C parse_uuid doc d now)"
  unfolding kms_seed_def Let_def
proof (rule act_all_keeps)
  fix x assume x: "x \<in> set (enumerate 0 (seed_items ''keys'' doc))"
  obtain n e where ne: "x = (n, e)" by (cases x)
  with x have "e \<in> set (seed_items ''keys'' doc)" by (auto simp: enumerate_eq_zip dest: set_zip_rightD)
  then have "en \<Longrightarrow> seed_id parse_uuid e = Inr (Some i) \<Longrightarrow> entry_enabled e" using assms(4) by blast
  from seed_key_seeded[OF assms(1-3) this]
  show "act_keeps (seeded_keys C i en) (case x of (n, entry) \<Rightarrow> seed_key E C parse_uuid entry (d + n) now)"
    unfolding ne prod.case .
qed


text \<open>No step of a seed removes a key, and after the step for an entry its key is there.\<close>

definition seeded_key_id :: "string \<Rightarrow> kms_db \<Rightarrow> bool" where
  "seeded_key_id i db \<longleftrightarrow> i \<in> kr_id ` set (kms_keys db)"

lemma seed_steps_have_key:
  "act_keeps (seeded_key_id i) (create_key E C inp d now)" "act_keeps (seeded_key_id i) (set_enabled E (\<lambda>db. db) ref v)"
  "act_keeps (seeded_key_id i) (seed_alias E key now a)"
  by (auto intro!: act_keepsI simp: seeded_key_id_def create_key_def set_enabled_def modify_key_def seed_alias_def create_alias_def Let_def
      split: sum.splits if_splits prod.splits)

lemma seed_key_has: "act_keeps (seeded_key_id i) (seed_key E C parse_uuid entry d now)"
  unfolding seed_key_def seed_new_key_def Let_def
  by (intro keeps_if act_keeps_bind act_keeps_result act_keeps_return keeps_read keeps_option keeps_or_text act_all_keeps seed_steps_have_key)

lemma seed_key_provides:
  assumes laws: "sizes_law E C" "uuid_law parse_uuid" "\<And>n. uuid_v4 E n \<noteq> i" and ok: "seeded_keys C i False db"
    and id: "seed_id parse_uuid entry = Inr (Some i)" and run: "seed_key E C parse_uuid entry d now db = (Inr (), db')"
  shows "seeded_key_id i db'"
proof -
  let ?as = "seed_aliases entry"
  from run id obtain key t where
    key: "(case seed_existing E (Some i) ?as (seed_description entry) db of
       Some k \<Rightarrow> act_return k | None \<Rightarrow> or_text (seed_new_key E C entry (Some i) d now)) db = (Inr key, t)"
    and rest: "act_all (seed_alias E key now) ?as t = (Inr (), db')"
    by (auto simp: seed_key_def Let_def act_result_def act_read_def elim!: act_bind_cases)
  have "seeded_key_id i t"
  proof (cases "load_key E i db")
    case None
    with key have "or_text (seed_new_key E C entry (Some i) d now) db = (Inr key, t)" by (simp add: seed_existing_def)
    from or_text_Inr[OF this, unfolded seed_new_key_def] obtain k u where "create_key E C (seed_input E C entry (Some i)) d now db = (Inr k, u)"
      and fin: "act_bind (if entry_enabled entry then act_return k else set_enabled E (\<lambda>db. db) (k_id k) False)
         (\<lambda>_. act_return (k_id k)) u = (Inr key, t)"
      by (cases rule: act_bind_cases) (simp_all add: entry_enabled_def)
    moreover have "uuid_text i" using laws(2) id by (auto simp: seed_id_def uuid_law_def split: option.splits)
    ultimately have "seeded_key_id i u"
      using create_seeded[OF laws(1) _ laws(3) ok, of "Some i" entry d now "Inr k" u] unfolding seeded_key_id_def by (metis or_default_def option.case(2))
    moreover have "act_keeps (seeded_key_id i) (act_bind (if entry_enabled entry then act_return k else set_enabled E (\<lambda>db. db) (k_id k) False)
         (\<lambda>_. act_return (k_id k)))"
      by (intro keeps_if act_keeps_bind act_keeps_return seed_steps_have_key)
    ultimately show ?thesis using fin by (blast dest: act_keepsD)
  next
    case (Some k)
    with key show ?thesis
      by (auto simp: seed_existing_def act_return_def seeded_key_id_def elim!: load_key_row)
  qed
  with act_keepsD[OF act_all_keeps[OF seed_steps_have_key(3)] _ rest] show ?thesis .
qed


lemma kms_seed_provides:
  assumes laws: "sizes_law E C" "uuid_law parse_uuid" "\<And>n. uuid_v4 E n \<noteq> i" and ok: "seeded_keys C i False db"
    and run: "kms_seed E C parse_uuid doc d now db = (Inr (), db')"
    and entry: "\<exists>e\<in>set (seed_items ''keys'' doc). seed_id parse_uuid e = Inr (Some i)"
  shows "seeded_key_id i db'"
proof -
  let ?f = "\<lambda>(n, entry). seed_key E C parse_uuid entry (d + n) now"
  have keeps: "act_keeps (seeded_keys C i False) (?f x)" "act_keeps (seeded_key_id i) (?f x)" for x
    using seed_key_seeded[OF laws, of False] seed_key_has by (cases x; simp)+
  have "seeded_key_id i db'" if "act_all ?f xs s = (Inr (), db')" "seeded_keys C i False s"
    "\<exists>x\<in>set xs. seed_id parse_uuid (snd x) = Inr (Some i)" for xs s
    using that
  proof (induction xs arbitrary: s)
    case (Cons x xs)
    from Cons.prems(1) obtain t where x: "?f x s = (Inr (), t)" and rest: "act_all ?f xs t = (Inr (), db')"
      by (auto elim!: act_bind_cases)
    have t: "seeded_keys C i False t" by (rule act_keepsD[OF keeps(1) Cons.prems(2) x])
    show ?case
    proof (cases "seed_id parse_uuid (snd x) = Inr (Some i)")
      case True
      obtain n e where ne: "x = (n, e)" by (cases x)
      with True x seed_key_provides[OF laws Cons.prems(2), of e "d + n" now t] have "seeded_key_id i t" by simp
      with act_keepsD[OF act_all_keeps[OF keeps(2)] _ rest] show ?thesis by blast
    qed (use Cons.IH[OF rest t] Cons.prems(3) in auto)
  qed simp
  moreover have "\<exists>x\<in>set (enumerate 0 (seed_items ''keys'' doc)). seed_id parse_uuid (snd x) = Inr (Some i)"
  proof -
    from entry obtain e where e: "e \<in> set (seed_items ''keys'' doc)" "seed_id parse_uuid e = Inr (Some i)" by blast
    from e(1) have "e \<in> set (map snd (enumerate 0 (seed_items ''keys'' doc)))" by (simp add: enumerate_eq_zip)
    then obtain x where "x \<in> set (enumerate 0 (seed_items ''keys'' doc))" "snd x = e" unfolding set_map by blast
    with e(2) show ?thesis by blast
  qed
  ultimately show ?thesis using run ok by (simp add: kms_seed_def Let_def)
qed

text \<open>
  Ciphertexts survive restarts.  The document of a seed gives a key with an explicit identifier,
  which is not among those drawn at random, and leaves it enabled.  Then what is encrypted under it
  after a first seed of an empty database and any requests but CreateKey decrypts after another
  empty database has been seeded.
\<close>

theorem kms_seed_ciphertexts:
  assumes "aead_law C" "sizes_law E C" "uuid_law parse_uuid" "\<And>n. uuid_v4 E n \<noteq> i"
    and "\<exists>e\<in>set (seed_items ''keys'' doc). seed_id parse_uuid e = Inr (Some i)"
    and "\<forall>e\<in>set (seed_items ''keys'' doc). seed_id parse_uuid e = Inr (Some i) \<longrightarrow> entry_enabled e"
    and "kms_seed E C parse_uuid doc d1 t1 kms_init = (r1, db1)"
    and "s = snd (run_ops (kms_serve (E, C)) xs (db1, []))" "list_all (\<lambda>x. \<not> creates_key x) xs"
    and "encrypt E C ref p ctx d (fst s) = Inr (k, blob)" "k_id k = i"
    and "kms_seed E C parse_uuid doc d2 t2 kms_init = (Inr (), db2)"
  shows "\<exists>k'. decrypt E C blob ctx None db2 = Inr (k', p) \<and> k_id k' = i"
proof -
  have init: "seeded_keys C i en kms_init" for en
    by (simp add: seeded_keys_def kms_init_def kms_ok_def key_view_def)
  have two: "seeded_keys C i True db2" and one: "seeded_keys C i True db1"
    using kms_seed_seeded[OF assms(2-4,6)] init assms(7,12) by (blast dest: act_keepsD)+
  have "seeded_key_id i db2" by (rule kms_seed_provides[OF assms(2-4) init assms(12,5)])
  then have "key_view db2 i \<noteq> None" by (auto simp: seeded_key_id_def key_view_def find_None_set)
  with two have active: "key_view db2 i = Some Active" by (auto simp: seeded_keys_def)
  from assms(10) have "resolve E ref (fst s) = Inr k" by (auto simp: encrypt_def try_bind_Inr_iff split: if_splits)
  then obtain q where q: "q \<in> set (kms_keys (fst s))" "k = key_from_row E q"
    by (elim resolve_key load_key_row) blast
  have "same_keys db1 (fst s)" using same_keys_run[OF assms(9), of "(db1, [])"] assms(8) by simp
  with q obtain q' where "q' \<in> set (kms_keys db1)"
    "(kr_id q, kr_usage q, kr_spec q, kr_material q) = (kr_id q', kr_usage q', kr_spec q', kr_material q')"
    by (auto simp: same_keys_def)
  with one q(2) assms(11) have k: "k_usage k = ''ENCRYPT_DECRYPT''" "k_spec k = ''SYMMETRIC_DEFAULT''"
    "k_material k = Some (seeded_material C i)" by (auto simp: seeded_keys_def key_from_row_def)
  show ?thesis
    using decrypt_elsewhere[OF assms(1,2,10), of db2] two active k unfolding assms(11) by (simp add: seeded_keys_def)
qed


subsection \<open>A concrete seed\<close>

definition sample_seed_id :: string where
  "sample_seed_id = replicate 36 (CHR ''c'')"

definition sample_uuid_parser :: "string \<Rightarrow> string option" where
  "sample_uuid_parser s = (if uuid_text s then Some s else None)"

definition sample_keys_doc :: json where
  "sample_keys_doc = JObj [(''keys'', JArr [JObj [(''id'', JStr sample_seed_id)]])]"

definition sample_seeded_row :: "int \<Rightarrow> kms_row" where
  "sample_seeded_row now = sample_kms_row\<lparr> kr_id := sample_seed_id, kr_created := now,
     kr_material := Some (replicate 32 (CHR ''h'')) \<rparr>"

lemma sample_seed_facts:
  "uuid_text sample_seed_id" "uuid_law sample_uuid_parser" "uuid_v4 kms_sample_ext n \<noteq> sample_seed_id"
  "seed_items ''keys'' sample_keys_doc = [JObj [(''id'', JStr sample_seed_id)]]"
  "seed_id sample_uuid_parser (JObj [(''id'', JStr sample_seed_id)]) = Inr (Some sample_seed_id)"
  "entry_enabled (JObj [(''id'', JStr sample_seed_id)])"
proof -
  show u: "uuid_text sample_seed_id" by (simp add: uuid_text_def sample_seed_id_def uuid_char_def list_all_iff)
  show "uuid_law sample_uuid_parser" by (simp add: uuid_law_def sample_uuid_parser_def)
  show "uuid_v4 kms_sample_ext n \<noteq> sample_seed_id" by (simp add: kms_sample_ext_def sample_seed_id_def numeral_eq_Suc)
  show "seed_items ''keys'' sample_keys_doc = [JObj [(''id'', JStr sample_seed_id)]]"
    by (simp add: seed_items_def sample_keys_doc_def)
  show "seed_id sample_uuid_parser (JObj [(''id'', JStr sample_seed_id)]) = Inr (Some sample_seed_id)"
    using u by (simp add: seed_id_def sample_uuid_parser_def)
  show "entry_enabled (JObj [(''id'', JStr sample_seed_id)])" by (simp add: entry_enabled_def or_default_def)
qed

lemma no_aliases: "seed_aliases (JObj [(''id'', JStr sample_seed_id)]) = []"
  by (simp add: seed_aliases_def seed_items_def List.map_filter_def)

lemma sample_kms_seed_run:
  "kms_seed kms_sample_ext sample_crypto sample_uuid_parser sample_keys_doc d now kms_init
     = (Inr (), \<lparr> kms_keys = [sample_seeded_row now], kms_aliases = [] \<rparr>)"
  unfolding kms_seed_def sample_seed_facts
  by (simp add: seed_key_def sample_seed_facts no_aliases act_bind_def act_result_def
      act_return_def act_read_def seed_existing_def load_key_def kms_init_def or_text_def seed_new_key_def create_key_def
      new_key_def seed_input_def Let_def or_default_def KEY_SPECS_def KEY_USAGES_def default_usage_def usage_compatible_def
      seed_description_def new_material_def dedupe_tags_def new_row_def sample_seeded_row_def sample_kms_row_def
      seeded_material_def tags_json_def List.map_filter_def starts_with_def)
     (simp add: sample_crypto_def)

lemma sample_seed_encrypts:
  "\<exists>blob. encrypt kms_sample_ext sample_crypto sample_seed_id ''hi'' [] 7
     \<lparr> kms_keys = [sample_seeded_row now], kms_aliases = [] \<rparr> = Inr (key_from_row kms_sample_ext (sample_seeded_row now), blob)"
proof -
  let ?db = "\<lparr> kms_keys = [sample_seeded_row now], kms_aliases = [] \<rparr>"
  have "resolve kms_sample_ext sample_seed_id ?db = Inr (key_from_row kms_sample_ext (sample_seeded_row now))"
    by (simp add: resolve_def ref_uuid[OF sample_seed_facts(1)] load_key_def ok_or_def sample_seeded_row_def)
  moreover have "require_symmetric_crypto (key_from_row kms_sample_ext (sample_seeded_row now)) = Inr ()"
    by (simp add: require_symmetric_crypto_def require_enabled_def key_from_row_def sample_seeded_row_def sample_kms_row_def is_symmetric_def)
  ultimately show ?thesis by (simp add: encrypt_def seal_def MAX_ENCRYPT_PLAINTEXT_def Let_def)
qed

theorem kms_seed_ciphertexts_witness:
  "\<exists>db1 db2 k blob k'.
     kms_seed kms_sample_ext sample_crypto sample_uuid_parser sample_keys_doc 0 5 kms_init = (Inr (), db1)
   \<and> kms_seed kms_sample_ext sample_crypto sample_uuid_parser sample_keys_doc 3 9 kms_init = (Inr (), db2)
   \<and> encrypt kms_sample_ext sample_crypto sample_seed_id ''hi'' [] 7 db1 = Inr (k, blob)
   \<and> decrypt kms_sample_ext sample_crypto blob [] None db2 = Inr (k', ''hi'')"
proof -
  let ?k = "key_from_row kms_sample_ext (sample_seeded_row 5)" and ?db1 = "\<lparr> kms_keys = [sample_seeded_row 5], kms_aliases = [] \<rparr>"
  obtain blob where enc: "encrypt kms_sample_ext sample_crypto sample_seed_id ''hi'' [] 7 ?db1 = Inr (?k, blob)"
    using sample_seed_encrypts by blast
  have id: "k_id ?k = sample_seed_id" by (simp add: key_from_row_def sample_seeded_row_def)
  have run: "(?db1, []) = snd (run_ops (kms_serve (kms_sample_ext, sample_crypto)) [] (?db1, []))" by simp
  have doc: "\<exists>e\<in>set (seed_items ''keys'' sample_keys_doc). seed_id sample_uuid_parser e = Inr (Some sample_seed_id)"
    "\<forall>e\<in>set (seed_items ''keys'' sample_keys_doc). seed_id sample_uuid_parser e = Inr (Some sample_seed_id) \<longrightarrow> entry_enabled e"
    using sample_seed_facts(5,6) unfolding sample_seed_facts(4) by simp_all
  have enc': "encrypt kms_sample_ext sample_crypto sample_seed_id ''hi'' [] 7 (fst (?db1, [])) = Inr (?k, blob)" using enc by simp
  from kms_seed_ciphertexts[OF sample_crypto_laws sample_seed_facts(2,3) doc sample_kms_seed_run run _ enc' id sample_kms_seed_run[of 3 9]]
  obtain k' where "decrypt kms_sample_ext sample_crypto blob [] None \<lparr> kms_keys = [sample_seeded_row 9], kms_aliases = [] \<rparr> = Inr (k', ''hi'')"
    by auto
  with enc sample_kms_seed_run show ?thesis by blast
qed

end
