(* ===== verification/Sns_Filter.thy ===== *)
theory Sns_Filter
  imports Sqs_Models
begin

text \<open>
  SNS, part 1: the subscription filter policies of src/src/aws/sns/filter.rs: policies on message
  attributes and on message bodies, the conditions, and the wildcard matcher.
\<close>

subsection \<open>Conditions\<close>

text \<open>\<open>num(v) == Some(target)\<close>.\<close>

definition num_eq :: "json \<Rightarrow> f64 \<Rightarrow> bool" where
  "num_eq v target = (case as_f64 v of Some x \<Rightarrow> f64_eq x target | None \<Rightarrow> False)"

text \<open>A predicate on the strings among the values.\<close>

definition any_str :: "(string \<Rightarrow> bool) \<Rightarrow> json list \<Rightarrow> bool" where
  "any_str P vs = list_ex (\<lambda>v. case as_str v of Some s \<Rightarrow> P s | None \<Rightarrow> False) vs"

definition string_op ::
    "json \<Rightarrow> json list \<Rightarrow> (string \<Rightarrow> string \<Rightarrow> bool) \<Rightarrow> (string \<Rightarrow> string \<Rightarrow> bool) \<Rightarrow> bool" where
  "string_op p vs exact ignore_case =
     (case as_str p of
        Some p \<Rightarrow> any_str (\<lambda>s. exact s p) vs
      | None \<Rightarrow> (case json_str ''equals-ignore-case'' p of
                   Some p \<Rightarrow> any_str (\<lambda>s. ignore_case s p) vs
                 | None \<Rightarrow> False))"

text \<open>The object form of \<open>anything-but\<close>.\<close>

definition excludes_object :: "(string \<times> json) list \<Rightarrow> json \<Rightarrow> bool" where
  "excludes_object m v =
     (let s = (case as_str v of Some s \<Rightarrow> s | None \<Rightarrow> []) in
      case Option.bind (map_of m ''prefix'') as_str of
        Some p \<Rightarrow> as_str v \<noteq> None \<and> starts_with s p
      | None \<Rightarrow>
          (case Option.bind (map_of m ''suffix'') as_str of
             Some p \<Rightarrow> as_str v \<noteq> None \<and> ends_with s p
           | None \<Rightarrow>
               (case map_of m ''equals-ignore-case'' of
                  Some p \<Rightarrow> any_str (\<lambda>x. eq_ignore_ascii_case x s) (case p of JArr a \<Rightarrow> a | other \<Rightarrow> [other])
                | None \<Rightarrow> False)))"

fun anything_but_excludes :: "json \<Rightarrow> json \<Rightarrow> bool" where
  "anything_but_excludes (JArr items) v = list_ex (\<lambda>i. anything_but_excludes i v) items"
| "anything_but_excludes (JObj m) v = excludes_object m v"
| "anything_but_excludes (JInt n) v = num_eq v (f64_of_int n)"
| "anything_but_excludes (JFloat x) v = num_eq v x"
| "anything_but_excludes ab v = (v = ab)"

definition numeric_op :: "string \<Rightarrow> f64 \<Rightarrow> f64 \<Rightarrow> bool" where
  "numeric_op op n rhs =
     (if op = ''='' then f64_eq n rhs
      else if op = ''<'' then f64_less n rhs
      else if op = ''<='' then f64_less n rhs \<or> f64_eq n rhs
      else if op = ''>'' then f64_less rhs n
      else if op = ''>='' then f64_less rhs n \<or> f64_eq n rhs
      else False)"

text \<open>The loop over the operators and their operands, two at a time.\<close>

fun numeric_loop :: "json list \<Rightarrow> f64 \<Rightarrow> bool \<Rightarrow> bool" where
  "numeric_loop (op # rhs # ops) n matched =
     (case (as_str op, as_f64 rhs) of
        (Some op, Some rhs) \<Rightarrow> if numeric_op op n rhs then numeric_loop ops n True else False
      | _ \<Rightarrow> False)"
| "numeric_loop _ n matched = matched"

definition numeric :: "json list \<Rightarrow> f64 \<Rightarrow> bool" where
  "numeric ops n = numeric_loop ops n False"

text \<open>The loop of \<open>wildcard\<close> over the parts after the first star.\<close>

fun wildcard_rest :: "string list \<Rightarrow> string \<Rightarrow> bool" where
  "wildcard_rest [] rest = True"
| "wildcard_rest [part] rest = ends_with rest part"
| "wildcard_rest (part # parts) rest =
     (case str_find part rest of
        Some pos \<Rightarrow> wildcard_rest parts (drop (pos + length part) rest)
      | None \<Rightarrow> False)"

definition wildcard :: "string \<Rightarrow> string \<Rightarrow> bool" where
  "wildcard pattern s =
     (case split_on (CHR ''*'') pattern of
        part # p # ps \<Rightarrow>
          (case strip_prefix part s of Some rest \<Rightarrow> wildcard_rest (p # ps) rest | None \<Rightarrow> False)
      | _ \<Rightarrow> pattern = s)"

text \<open>The operators of an object condition other than \<open>exists\<close>, on the values that are there.\<close>

definition match_object :: "externals \<Rightarrow> (string \<times> json) list \<Rightarrow> json list \<Rightarrow> bool" where
  "match_object E m vs =
     (case map_of m ''prefix'' of
        Some p \<Rightarrow> string_op p vs starts_with (\<lambda>s p. starts_with (str_lowercase E s) (str_lowercase E p))
      | None \<Rightarrow>
     (case map_of m ''suffix'' of
        Some p \<Rightarrow> string_op p vs ends_with (\<lambda>s p. ends_with (str_lowercase E s) (str_lowercase E p))
      | None \<Rightarrow>
     (case Option.bind (map_of m ''equals-ignore-case'') as_str of
        Some p \<Rightarrow> any_str (\<lambda>s. eq_ignore_ascii_case s p) vs
      | None \<Rightarrow>
     (case Option.bind (map_of m ''wildcard'') as_str of
        Some p \<Rightarrow> any_str (wildcard p) vs
      | None \<Rightarrow>
     (case map_of m ''anything-but'' of
        Some ab \<Rightarrow> list_all (\<lambda>v. \<not> anything_but_excludes ab v) vs
      | None \<Rightarrow>
     (case Option.bind (map_of m ''numeric'') as_array of
        Some ops \<Rightarrow> list_ex (\<lambda>v. case as_f64 v of Some n \<Rightarrow> numeric ops n | None \<Rightarrow> False) vs
      | None \<Rightarrow> False))))))"

definition match_condition :: "externals \<Rightarrow> json \<Rightarrow> json list option \<Rightarrow> bool" where
  "match_condition E cond vals =
     (case cond of
        JObj m \<Rightarrow>
          (case map_of m ''exists'' of
             Some e \<Rightarrow> (case as_bool e of Some b \<Rightarrow> b | None \<Rightarrow> True) = (vals \<noteq> None)
           | None \<Rightarrow> (case vals of None \<Rightarrow> False | Some vs \<Rightarrow> match_object E m vs))
      | JInt n \<Rightarrow> (case vals of None \<Rightarrow> False | Some vs \<Rightarrow> list_ex (\<lambda>v. num_eq v (f64_of_int n)) vs)
      | JFloat x \<Rightarrow> (case vals of None \<Rightarrow> False | Some vs \<Rightarrow> list_ex (\<lambda>v. num_eq v x) vs)
      | other \<Rightarrow> (case vals of None \<Rightarrow> False | Some vs \<Rightarrow> list_ex (\<lambda>v. v = other) vs))"

definition match_conditions :: "externals \<Rightarrow> json list \<Rightarrow> json list option \<Rightarrow> bool" where
  "match_conditions E conds vals = list_ex (\<lambda>c. match_condition E c vals) conds"

subsection \<open>Policies\<close>

text \<open>The values of a message attribute; \<open>Number::from_f64\<close> refuses what is not finite.\<close>

definition attr_values :: "externals \<Rightarrow> msg_attr \<Rightarrow> json list option" where
  "attr_values E a =
     map_option (\<lambda>s.
       if base_type a = ''Number'' then
         [case parse_f64 (trim s) of
            Some x \<Rightarrow> if f64_finite x then JFloat x else JStr s
          | None \<Rightarrow> JStr s]
       else if data_type a = ''String.Array'' then
         (case json_parse E s of Some (JArr items) \<Rightarrow> items | _ \<Rightarrow> [JStr s])
       else [JStr s]) (string_value a)"

definition conditions_of :: "json \<Rightarrow> json list" where
  "conditions_of cond = (case cond of JArr conds \<Rightarrow> conds | other \<Rightarrow> [other])"

text \<open>A part of a policy is smaller than the policy.\<close>

lemma json_part_size [termination_simp]:
  "(k, v) \<in> set m \<Longrightarrow> size v < Suc (size_list (size_prod (\<lambda>x. 0) size) m)"
  "(k, JArr ps) \<in> set m \<Longrightarrow> p \<in> set ps \<Longrightarrow> size p < Suc (size_list (size_prod (\<lambda>x. 0) size) m)"
proof -
  have part: "size w < Suc (size_list (size_prod (\<lambda>x. 0) size) m)" if "(k, w) \<in> set m" for w
    using size_list_estimation'[OF that, of "size w" "size_prod (\<lambda>x. 0) size"] by simp
  show "(k, v) \<in> set m \<Longrightarrow> size v < Suc (size_list (size_prod (\<lambda>x. 0) size) m)" by (rule part)
  show "(k, JArr ps) \<in> set m \<Longrightarrow> p \<in> set ps \<Longrightarrow> size p < Suc (size_list (size_prod (\<lambda>x. 0) size) m)"
    using part[of "JArr ps"] size_list_estimation'[of p ps "size p" size] by simp
qed

fun match_attrs :: "externals \<Rightarrow> json \<Rightarrow> msg_attrs \<Rightarrow> bool" where
  "match_attrs E (JObj m) attrs =
     list_all (\<lambda>(key, cond).
       if key = ''$or'' then
         (case cond of JArr alts \<Rightarrow> list_ex (\<lambda>p. match_attrs E p attrs) alts | _ \<Rightarrow> False)
       else match_conditions E (conditions_of cond) (Option.bind (map_of attrs key) (attr_values E))) m"
| "match_attrs E _ attrs = False"

fun match_body :: "externals \<Rightarrow> json \<Rightarrow> json option \<Rightarrow> bool" where
  "match_body E (JObj m) doc =
     list_all (\<lambda>(key, cond).
       if key = ''$or'' then
         (case cond of JArr alts \<Rightarrow> list_ex (\<lambda>p. match_body E p doc) alts | _ \<Rightarrow> False)
       else
         (case cond of
            JObj c \<Rightarrow> match_body E cond (Option.bind doc (json_get key))
          | JArr conds \<Rightarrow>
              match_conditions E conds
                (map_option (\<lambda>f. case f of JArr items \<Rightarrow> items | other \<Rightarrow> [other]) (Option.bind doc (json_get key)))
          | other \<Rightarrow> match_conditions E [other] (map_option (\<lambda>f. [f]) (Option.bind doc (json_get key))))) m"
| "match_body E _ doc = False"

definition filter_matches :: "externals \<Rightarrow> json \<Rightarrow> string \<Rightarrow> msg_attrs \<Rightarrow> string \<Rightarrow> bool" where
  "filter_matches E policy scope attrs body =
     (if scope = ''MessageBody'' then
        (case json_parse E body of
           Some doc \<Rightarrow> match_body E policy (Some doc)
         | None \<Rightarrow> (case as_object policy of Some m \<Rightarrow> m = [] | None \<Rightarrow> True))
      else match_attrs E policy attrs)"

definition filter_validate :: "externals \<Rightarrow> string \<Rightarrow> (string, json) result" where
  "filter_validate E policy =
     (case json_parse E policy of
        None \<Rightarrow> Inl (''Invalid parameter: FilterPolicy: failed to parse JSON. '' @ json_error E policy)
      | Some v \<Rightarrow>
          if as_object v = None
          then Inl ''Invalid parameter: FilterPolicy: Filter policy must be a JSON object''
          else Inr v)"

end
