(* ===== verification/Mailbox.thy ===== *)
theory Mailbox
  imports Http
begin

text \<open>
  The mailbox (src/src/mailbox/models.rs, src/src/mailbox/service.rs): the tables of captured mail
  and \<open>capture_raw\<close>, through which every message is stored.

  The parser of RFC 822 messages is the crate \<open>mail-parser\<close>: it is the argument \<open>parse_mail\<close>, and
  \<open>parsed_mail\<close> holds what the code reads of its result.
\<close>

datatype mail_address =
    Address_List "string option list"
  | Address_Group "string option list list"

record mail_part =
  mp_name :: "string option"
  mp_type :: "(string \<times> string option) option"
  mp_contents :: string

record parsed_mail =
  pm_from :: "mail_address option"
  pm_to :: "mail_address option"
  pm_cc :: "mail_address option"
  pm_bcc :: "mail_address option"
  pm_subject :: "string option"
  pm_text :: "string option"
  pm_html :: "string option"
  pm_attachments :: "mail_part list"

record mailbox_attachment =
  at_message_id :: string
  at_filename :: string
  at_content_type :: string
  at_size :: int
  at_content :: string
  at_created_at :: string

record mailbox_message =
  mb_message_id :: string
  mb_from :: string
  mb_to :: string
  mb_cc :: string
  mb_bcc :: string
  mb_subject :: string
  mb_text :: "string option"
  mb_html :: "string option"
  mb_raw :: string
  mb_source :: string
  mb_size :: int
  mb_created_at :: string

record mailbox_db =
  mailbox_messages :: "mailbox_message list"
  mailbox_attachments :: "mailbox_attachment list"

definition collect_addrs :: "mail_address option \<Rightarrow> string list" where
  "collect_addrs addr =
     (case addr of
        Some (Address_List l) \<Rightarrow> List.map_filter id l
      | Some (Address_Group gs) \<Rightarrow> List.map_filter id (concat gs)
      | None \<Rightarrow> [])"

definition attachment_row :: "externals \<Rightarrow> string \<Rightarrow> int \<Rightarrow> mail_part \<Rightarrow> mailbox_attachment" where
  "attachment_row E mid now p =
     \<lparr> at_message_id = mid,
       at_filename = (case mp_name p of Some n \<Rightarrow> n | None \<Rightarrow> ''attachment''),
       at_content_type =
         (case mp_type p of
            Some (t, Some sub) \<Rightarrow> t @ ''/'' @ sub
          | Some (t, None) \<Rightarrow> t
          | None \<Rightarrow> ''application/octet-stream''),
       at_size = int (length (mp_contents p)), at_content = mp_contents p,
       at_created_at = to_rfc3339 E now \<rparr>"

text \<open>What is stored of a message that cannot be parsed.\<close>

definition no_mail :: parsed_mail where
  "no_mail = \<lparr> pm_from = None, pm_to = None, pm_cc = None, pm_bcc = None, pm_subject = None,
               pm_text = None, pm_html = None, pm_attachments = [] \<rparr>"

definition addrs_json :: "externals \<Rightarrow> mail_address option \<Rightarrow> string" where
  "addrs_json E a = json_print E (JArr (map JStr (collect_addrs a)))"

definition message_row :: "externals \<Rightarrow> string \<Rightarrow> parsed_mail \<Rightarrow> string \<Rightarrow> string \<Rightarrow> int \<Rightarrow> mailbox_message" where
  "message_row E mid m raw source now =
     \<lparr> mb_message_id = mid,
       mb_from = (case collect_addrs (pm_from m) of a # _ \<Rightarrow> a | [] \<Rightarrow> []),
       mb_to = addrs_json E (pm_to m), mb_cc = addrs_json E (pm_cc m), mb_bcc = addrs_json E (pm_bcc m),
       mb_subject = (case pm_subject m of Some s \<Rightarrow> s | None \<Rightarrow> []),
       mb_text = pm_text m, mb_html = pm_html m, mb_raw = from_utf8_lossy raw, mb_source = source,
       mb_size = int (length raw), mb_created_at = to_rfc3339 E now \<rparr>"

text \<open>The transaction of \<open>capture_raw\<close>: the message, whose identifier must be new, and its attachments.\<close>

definition capture_raw ::
    "externals \<Rightarrow> (string \<Rightarrow> parsed_mail option) \<Rightarrow> string \<Rightarrow> string \<Rightarrow> string \<Rightarrow> int \<Rightarrow> mailbox_db
      \<Rightarrow> (string, unit) result \<times> mailbox_db" where
  "capture_raw E parse_mail mid raw source now db =
     (let m = (case parse_mail raw of Some m \<Rightarrow> m | None \<Rightarrow> no_mail) in
      if mid \<in> mb_message_id ` set (mailbox_messages db)
      then (Inl ''UNIQUE constraint failed: mailbox_messages.message_id'', db)
      else (Inr (), db\<lparr>
        mailbox_messages := mailbox_messages db @ [message_row E mid m raw source now],
        mailbox_attachments := mailbox_attachments db @ map (attachment_row E mid now) (pm_attachments m) \<rparr>))"

definition capture_event :: "externals \<Rightarrow> string \<Rightarrow> string \<Rightarrow> int \<Rightarrow> event list \<Rightarrow> event list" where
  "capture_event E mid source now events =
     emit_event E ''mailbox'' ''smtp'' ''capture''
       (json_print E (json_obj [(''source'', JStr source), (''message_id'', JStr mid)])) now events"

end
