(* ===== verification/Sns_Service.thy ===== *)
theory Sns_Service
  imports Sns_Filter Sqs_Messages Http Mailbox
begin

text \<open>
  SNS, part 2: the records (src/src/aws/sns/models.rs), the tables (src/src/aws/sns/schema.rs) and
  the operations of src/src/aws/sns/service.rs on topics, subscriptions, tags and the log of
  published messages.

  An operation is an action on the state of the whole program that SNS reaches: its own tables, the
  queues it delivers to, the mailbox, the HTTP requests it started and the telemetry events.  Every
  call of the database is one step; between two calls of one request the requests of other clients
  may run, which is the argument \<open>others\<close>, applied by \<open>pause\<close>.  The JSON text columns \<open>attributes\<close> and
  \<open>tags\<close> are held as the maps they encode.
\<close>

subsection \<open>Records, tables and errors\<close>

record sns_topic =
  t_arn :: string
  t_attributes :: "string btree"
  t_tags :: "string btree"

record sns_subscription =
  s_arn :: string
  s_topic_arn :: string
  s_protocol :: string
  s_endpoint :: string
  s_attributes :: "string btree"

definition topic_is_fifo :: "sns_topic \<Rightarrow> bool" where
  "topic_is_fifo t =
     (case map_of (t_attributes t) ''FifoTopic'' of Some v \<Rightarrow> eq_ignore_ascii_case v ''true'' | None \<Rightarrow> False)"

definition raw_delivery :: "sns_subscription \<Rightarrow> bool" where
  "raw_delivery s =
     (case map_of (s_attributes s) ''RawMessageDelivery'' of
        Some v \<Rightarrow> eq_ignore_ascii_case v ''true'' | None \<Rightarrow> False)"

record sns_topic_row =
  tr_topic :: sns_topic
  tr_name :: string
  tr_created_at :: string
  tr_fifo_seq :: int

record sns_sub_row =
  sr_sub :: sns_subscription
  sr_created_at :: string

record sns_message =
  sm_message_id :: string
  sm_topic_arn :: string
  sm_subject :: "string option"
  sm_body :: string
  sm_created_at :: string
  sm_attributes :: "string option"
  sm_delivered :: int

text \<open>A started HTTP request; it runs in the background and its outcome is only logged.\<close>

record http_post =
  post_url :: string
  post_headers :: "(string \<times> string) list"
  post_body :: string

record sns_app =
  sns_topics :: "sns_topic_row list"
  sns_subscriptions :: "sns_sub_row list"
  sns_messages :: "sns_message list"
  sns_queues :: sqs_db
  sns_mail :: mailbox_db
  sns_posts :: "http_post list"
  sns_events :: "event list"

record sns_error =
  se_code :: string
  se_status :: nat
  se_message :: string

definition sns_err :: "string \<Rightarrow> nat \<Rightarrow> string \<Rightarrow> sns_error" where
  "sns_err code status msg = \<lparr> se_code = code, se_status = status, se_message = msg \<rparr>"

definition sns_not_found :: "string \<Rightarrow> sns_error" where
  "sns_not_found msg = sns_err ''NotFound'' 404 msg"

definition resource_not_found :: sns_error where
  "resource_not_found = sns_err ''ResourceNotFound'' 404 ''Resource does not exist''"

definition sns_invalid :: "string \<Rightarrow> sns_error" where
  "sns_invalid msg = sns_err ''InvalidParameter'' 400 msg"

definition invalid_value :: "string \<Rightarrow> sns_error" where
  "invalid_value msg = sns_err ''ParameterValueInvalid'' 400 msg"

definition batch_error :: "string \<Rightarrow> string \<Rightarrow> sns_error" where
  "batch_error code msg = sns_err code 400 msg"

definition tag_limit :: sns_error where
  "tag_limit = sns_err ''TagLimitExceeded'' 400
     ''Could not complete request: tag quota of per resource exceeded''"

definition sns_internal :: "string \<Rightarrow> sns_error" where
  "sns_internal msg = sns_err ''InternalError'' 500 msg"

type_synonym 'a sns_action = "(sns_app, sns_error, 'a) action"

definition pause :: "(nat \<Rightarrow> sns_app \<Rightarrow> sns_app) \<Rightarrow> nat \<Rightarrow> (sns_app, 'e, unit) action" where
  "pause others i = (\<lambda>s. (Inr (), others i s))"

definition sns_read :: "(sns_app \<Rightarrow> 'a) \<Rightarrow> (sns_app, 'e, 'a) action" where
  "sns_read f = (\<lambda>s. (Inr (f s), s))"

definition sns_write :: "(sns_app \<Rightarrow> sns_app) \<Rightarrow> (sns_app, 'e, unit) action" where
  "sns_write f = (\<lambda>s. (Inr (), f s))"

definition draw_uuid :: "externals \<Rightarrow> (sns_app, 'e, string) action" where
  "draw_uuid E = (\<lambda>s. (Inr (uuid_v4 E (uuid_ctr (sns_queues s))),
     s\<lparr> sns_queues := (sns_queues s)\<lparr> uuid_ctr := Suc (uuid_ctr (sns_queues s)) \<rparr> \<rparr>))"

subsection \<open>Attributes\<close>

definition PROTOCOLS :: "string list" where
  "PROTOCOLS = [''http'', ''https'', ''email'', ''email-json'', ''sms'', ''sqs'', ''application'', ''lambda'', ''firehose'']"

definition SUBSCRIPTION_ATTRS :: "string list" where
  "SUBSCRIPTION_ATTRS =
     [''DeliveryPolicy'', ''FilterPolicy'', ''FilterPolicyScope'', ''RawMessageDelivery'', ''RedrivePolicy'',
      ''SubscriptionRoleArn'', ''ReplayPolicy'']"

definition TOPIC_ATTRS :: "string list" where
  "TOPIC_ATTRS =
     [''DisplayName'', ''Policy'', ''DeliveryPolicy'', ''KmsMasterKeyId'', ''SignatureVersion'', ''TracingConfig'',
      ''FifoTopic'', ''ContentBasedDeduplication'', ''ArchivePolicy'', ''DataProtectionPolicy'',
      ''FifoThroughputScope'']"

definition topic_arn :: "string \<Rightarrow> string" where
  "topic_arn name = ''arn:aws:sns:'' @ REGION @ '':'' @ ACCOUNT_ID @ '':'' @ name"

definition normalize_bool :: "string \<Rightarrow> string \<Rightarrow> (sns_error, string) result" where
  "normalize_bool name v =
     (let l = ascii_lowercase v in
      if l = ''true'' \<or> l = ''false'' then Inr l
      else Inl (sns_invalid (''Invalid parameter: Attributes Reason: '' @ name @ '': Invalid value ['' @ v
                               @ '']. Must be true or false.'')))"

text \<open>The branches that only require JSON.\<close>

definition require_json :: "externals \<Rightarrow> string \<Rightarrow> string \<Rightarrow> (sns_error, string) result" where
  "require_json E name v =
     (if json_parse E v = None
      then Inl (sns_invalid (''Invalid parameter: '' @ name @ '': failed to parse JSON.'')) else Inr v)"

definition validate_subscription_attr :: "externals \<Rightarrow> string \<Rightarrow> string \<Rightarrow> (sns_error, string) result" where
  "validate_subscription_attr E name v =
     (if name \<notin> set SUBSCRIPTION_ATTRS then Inl (sns_invalid (''Invalid parameter: AttributeName: '' @ name))
      else if name = ''RawMessageDelivery'' then normalize_bool name v
      else if name = ''FilterPolicy'' \<and> v \<noteq> [] then
        (case filter_validate E v of Inl e \<Rightarrow> Inl (sns_invalid e) | Inr _ \<Rightarrow> Inr v)
      else if name = ''FilterPolicyScope'' then
        (if v \<in> {''MessageAttributes'', ''MessageBody''} then Inr v
         else Inl (sns_invalid (''Invalid parameter: Attributes Reason: FilterPolicyScope: Invalid value. ''
                                  @ ''Must be one of: MessageAttributes, MessageBody'')))
      else if name \<in> {''DeliveryPolicy'', ''RedrivePolicy''} \<and> v \<noteq> [] then require_json E name v
      else Inr v)"

definition validate_topic_attr :: "externals \<Rightarrow> string \<Rightarrow> string \<Rightarrow> (sns_error, string) result" where
  "validate_topic_attr E name v =
     (let feedback = ends_with name ''FeedbackRoleArn'' \<or> ends_with name ''FeedbackSampleRate'' in
      if name \<notin> set TOPIC_ATTRS \<and> \<not> feedback then
        Inl (sns_invalid (''Invalid parameter: AttributeName: '' @ name))
      else if name \<in> {''FifoTopic'', ''ContentBasedDeduplication''} then normalize_bool name v
      else if name \<in> {''Policy'', ''DeliveryPolicy'', ''DataProtectionPolicy'', ''ArchivePolicy''} \<and> v \<noteq> []
        then require_json E name v
      else Inr v)"

definition valid_topic_name :: "string \<Rightarrow> bool" where
  "valid_topic_name name =
     (let base = (case strip_suffix ''.fifo'' name of Some b \<Rightarrow> b | None \<Rightarrow> name) in
      base \<noteq> [] \<and> length name \<le> 256
      \<and> list_all (\<lambda>c. is_alnum c \<or> c = CHR ''-'' \<or> c = CHR ''_'') base)"

text \<open>The loop that validates the attributes of a request; the first bad one ends it.\<close>

fun validate_each ::
    "(string \<Rightarrow> string \<Rightarrow> (sns_error, string) result) \<Rightarrow> (string \<Rightarrow> bool) \<Rightarrow> (string \<times> string) list
      \<Rightarrow> string btree \<Rightarrow> (sns_error, string btree) result" where
  "validate_each check keep [] out = Inr out"
| "validate_each check keep ((k, v) # rest) out =
     try_bind (check k v) (\<lambda>w. validate_each check keep rest (if keep w then bt_insert k w out else out))"

subsection \<open>Topics\<close>

definition find_topic :: "string \<Rightarrow> sns_app \<Rightarrow> sns_topic option" where
  "find_topic arn s = map_option tr_topic (find (\<lambda>r. t_arn (tr_topic r) = arn) (sns_topics s))"

definition get_topic :: "string \<Rightarrow> sns_topic sns_action" where
  "get_topic arn = (\<lambda>s. (case find_topic arn s of
     Some t \<Rightarrow> Inr t | None \<Rightarrow> Inl (sns_not_found ''Topic does not exist''), s))"

text \<open>
  \<open>INSERT \<dots> ON CONFLICT(name) DO NOTHING\<close>; the primary key is a function of the name, so only a
  name that is there can conflict.
\<close>

definition insert_topic :: "externals \<Rightarrow> string \<Rightarrow> string btree \<Rightarrow> string btree \<Rightarrow> int \<Rightarrow> sns_app \<Rightarrow> sns_app" where
  "insert_topic E name attrs tags now s =
     (if name \<in> tr_name ` set (sns_topics s) then s
      else s\<lparr> sns_topics := sns_topics s @
        [\<lparr> tr_topic = \<lparr> t_arn = topic_arn name, t_attributes = attrs, t_tags = tags \<rparr>, tr_name = name,
           tr_created_at = to_rfc3339 E now, tr_fifo_seq = 0 \<rparr>] \<rparr>)"

definition fifo_name_error :: sns_error where
  "fifo_name_error = sns_invalid (''Invalid parameter: Fifo Topic names must end with .fifo and must be made up of ''
     @ ''only uppercase and lowercase ASCII letters, numbers, underscores, and hyphens, and must be between ''
     @ ''1 and 256 characters long.'')"

text \<open>The checks of \<open>create_topic\<close> before it looks at the database.\<close>

definition create_topic_check ::
    "externals \<Rightarrow> string \<Rightarrow> string btree \<Rightarrow> string btree \<Rightarrow> (sns_error, string btree) result" where
  "create_topic_check E name attributes tags =
     (if \<not> valid_topic_name name then Inl (sns_invalid ''Invalid parameter: Topic Name'')
      else try_bind (validate_each (validate_topic_attr E) (\<lambda>_. True) attributes []) (\<lambda>attrs.
        if (map_of attrs ''FifoTopic'' = Some ''true'') \<noteq> ends_with name ''.fifo'' then Inl fifo_name_error
        else if 50 < length tags then Inl tag_limit
        else Inr attrs))"

definition create_topic ::
    "externals \<Rightarrow> (nat \<Rightarrow> sns_app \<Rightarrow> sns_app) \<Rightarrow> string \<Rightarrow> string btree \<Rightarrow> string btree \<Rightarrow> int \<Rightarrow> string sns_action" where
  "create_topic E others name attributes tags now =
     act_bind (act_result (create_topic_check E name attributes tags)) (\<lambda>attrs.
     act_bind (sns_read (find_topic (topic_arn name))) (\<lambda>existing.
     case existing of
       Some t \<Rightarrow>
         if list_ex (\<lambda>(k, v). case map_of (t_tags t) k of Some cur \<Rightarrow> cur \<noteq> v | None \<Rightarrow> False) tags
         then act_result (Inl (sns_invalid ''Invalid parameter: Tags Reason: Topic already exists with different tags''))
         else act_return (topic_arn name)
     | None \<Rightarrow>
         act_bind (pause others 0) (\<lambda>_.
         act_bind (sns_write (insert_topic E name attrs tags now)) (\<lambda>_.
         act_return (topic_arn name)))))"

definition list_topics :: "sns_app \<Rightarrow> sns_topic list" where
  "list_topics s = map tr_topic (sort_key (t_arn \<circ> tr_topic) (sns_topics s))"

definition delete_topic :: "string \<Rightarrow> sns_app \<Rightarrow> sns_app" where
  "delete_topic arn s =
     s\<lparr> sns_subscriptions := sql_delete (\<lambda>r. s_topic_arn (sr_sub r) = arn) (sns_subscriptions s),
        sns_topics := sql_delete (\<lambda>r. t_arn (tr_topic r) = arn) (sns_topics s) \<rparr>"

definition update_topic :: "string \<Rightarrow> (sns_topic \<Rightarrow> sns_topic) \<Rightarrow> sns_app \<Rightarrow> sns_app" where
  "update_topic arn f s =
     s\<lparr> sns_topics := sql_update (\<lambda>r. t_arn (tr_topic r) = arn) (\<lambda>r. r\<lparr> tr_topic := f (tr_topic r) \<rparr>) (sns_topics s) \<rparr>"

text \<open>Setting an attribute; the empty value removes it.\<close>

definition put_attr :: "string \<Rightarrow> string \<Rightarrow> string btree \<Rightarrow> string btree" where
  "put_attr name v attrs = (if v = [] then bt_remove name attrs else bt_insert name v attrs)"

definition set_topic_attribute ::
    "externals \<Rightarrow> (nat \<Rightarrow> sns_app \<Rightarrow> sns_app) \<Rightarrow> string \<Rightarrow> string \<Rightarrow> string \<Rightarrow> unit sns_action" where
  "set_topic_attribute E others arn name v =
     act_bind (get_topic arn) (\<lambda>topic.
     act_bind (act_result (validate_topic_attr E name v)) (\<lambda>w.
     if name = ''FifoTopic'' \<and> (w = ''true'') \<noteq> topic_is_fifo topic then
       act_result (Inl (sns_invalid ''Invalid parameter: AttributeName: FifoTopic cannot be changed''))
     else
       act_bind (pause others 0) (\<lambda>_.
       sns_write (update_topic arn (\<lambda>t. t\<lparr> t_attributes := put_attr name w (t_attributes topic) \<rparr>)))))"

definition set_tags :: "string \<Rightarrow> string btree \<Rightarrow> unit sns_action" where
  "set_tags arn tags =
     (if 50 < length tags then act_result (Inl tag_limit)
      else sns_write (update_topic arn (\<lambda>t. t\<lparr> t_tags := tags \<rparr>)))"

text \<open>The sequence number of a FIFO topic: \<open>u64\<close> addition, printed with twenty digits.\<close>

definition sequence_text :: "int \<Rightarrow> string" where
  "sequence_text q = show_padded 20 (nat ((10000000000000000000 + q mod 2 ^ 64) mod 2 ^ 64))"

definition next_sequence :: "string \<Rightarrow> string sns_action" where
  "next_sequence arn = (\<lambda>s.
     let s' = s\<lparr> sns_topics := sql_update (\<lambda>r. t_arn (tr_topic r) = arn)
                  (\<lambda>r. r\<lparr> tr_fifo_seq := tr_fifo_seq r + 1 \<rparr>) (sns_topics s) \<rparr>
     in (case find (\<lambda>r. t_arn (tr_topic r) = arn) (sns_topics s') of
           Some r \<Rightarrow> Inr (sequence_text (tr_fifo_seq r))
         | None \<Rightarrow> Inl (sns_internal ''Query returned no rows''), s'))"

subsection \<open>Subscriptions\<close>

definition list_subscriptions :: "string option \<Rightarrow> sns_app \<Rightarrow> sns_subscription list" where
  "list_subscriptions topic s =
     sort_key s_arn (filter (\<lambda>b. topic = None \<or> topic = Some (s_topic_arn b)) (map sr_sub (sns_subscriptions s)))"

definition endpoint_ok :: "string \<Rightarrow> string \<Rightarrow> bool" where
  "endpoint_ok protocol endpoint =
     (if protocol = ''http'' then starts_with endpoint ''http://''
      else if protocol = ''https'' then starts_with endpoint ''https://''
      else if protocol \<in> {''email'', ''email-json''} then CHR ''@'' \<in> set endpoint
      else if protocol = ''sqs'' then starts_with endpoint ''arn:aws:sqs:'' \<or> starts_with endpoint ''http''
      else endpoint \<noteq> [])"

definition subscribe_check ::
    "externals \<Rightarrow> string \<Rightarrow> string \<Rightarrow> string btree \<Rightarrow> (sns_error, string btree) result" where
  "subscribe_check E protocol endpoint attributes =
     (if protocol \<notin> set PROTOCOLS then
        Inl (sns_invalid (''Invalid parameter: Amazon SNS does not support this protocol string: '' @ protocol))
      else if \<not> endpoint_ok protocol endpoint then
        Inl (sns_invalid (''Invalid parameter: '' @ protocol @ '' Endpoint''))
      else validate_each (validate_subscription_attr E) (\<lambda>v. v \<noteq> []) attributes [])"

definition find_same_subscription :: "string \<Rightarrow> string \<Rightarrow> string \<Rightarrow> sns_app \<Rightarrow> sns_subscription option" where
  "find_same_subscription arn protocol endpoint s =
     find (\<lambda>b. s_topic_arn b = arn \<and> s_protocol b = protocol \<and> s_endpoint b = endpoint)
       (map sr_sub (sns_subscriptions s))"

definition insert_subscription :: "externals \<Rightarrow> sns_subscription \<Rightarrow> int \<Rightarrow> unit sns_action" where
  "insert_subscription E b now = (\<lambda>s.
     if s_arn b \<in> (s_arn \<circ> sr_sub) ` set (sns_subscriptions s)
     then (Inl (sns_internal ''UNIQUE constraint failed: sns_subscriptions.arn''), s)
     else (Inr (), s\<lparr> sns_subscriptions := sns_subscriptions s @ [\<lparr> sr_sub = b, sr_created_at = to_rfc3339 E now \<rparr>] \<rparr>))"

definition subscribe ::
    "externals \<Rightarrow> (nat \<Rightarrow> sns_app \<Rightarrow> sns_app) \<Rightarrow> string \<Rightarrow> string \<Rightarrow> string \<Rightarrow> string btree \<Rightarrow> int \<Rightarrow> string sns_action" where
  "subscribe E others arn protocol endpoint attributes now =
     act_bind (get_topic arn) (\<lambda>_.
     act_bind (act_result (subscribe_check E protocol endpoint attributes)) (\<lambda>attrs.
     act_bind (pause others 0) (\<lambda>_.
     act_bind (sns_read (find_same_subscription arn protocol endpoint)) (\<lambda>existing.
     case existing of
       Some b \<Rightarrow>
         if list_ex (\<lambda>(k, v). map_of (s_attributes b) k \<noteq> Some v) attrs
         then act_result (Inl (sns_invalid (''Invalid parameter: Attributes Reason: Subscription already exists ''
                                              @ ''with different attributes'')))
         else act_return (s_arn b)
     | None \<Rightarrow>
         act_bind (draw_uuid E) (\<lambda>u.
         act_bind (pause others 1) (\<lambda>_.
         act_bind (insert_subscription E
           \<lparr> s_arn = arn @ '':'' @ u, s_topic_arn = arn, s_protocol = protocol, s_endpoint = endpoint,
             s_attributes = attrs \<rparr> now) (\<lambda>_.
         act_return (arn @ '':'' @ u))))))))"

definition find_subscription :: "string \<Rightarrow> sns_app \<Rightarrow> sns_subscription option" where
  "find_subscription arn s = find (\<lambda>b. s_arn b = arn) (map sr_sub (sns_subscriptions s))"

definition get_subscription :: "string \<Rightarrow> sns_subscription sns_action" where
  "get_subscription arn = (\<lambda>s. (case find_subscription arn s of
     Some b \<Rightarrow> Inr b | None \<Rightarrow> Inl (sns_not_found ''Subscription does not exist''), s))"

definition unsubscribe :: "string \<Rightarrow> unit sns_action" where
  "unsubscribe arn =
     (if \<not> starts_with arn ''arn:'' then act_result (Inl (sns_invalid ''Invalid parameter: SubscriptionArn''))
      else sns_write (\<lambda>s. s\<lparr> sns_subscriptions := sql_delete (\<lambda>r. s_arn (sr_sub r) = arn) (sns_subscriptions s) \<rparr>))"

definition update_subscription :: "string \<Rightarrow> (sns_subscription \<Rightarrow> sns_subscription) \<Rightarrow> sns_app \<Rightarrow> sns_app" where
  "update_subscription arn f s =
     s\<lparr> sns_subscriptions := sql_update (\<lambda>r. s_arn (sr_sub r) = arn) (\<lambda>r. r\<lparr> sr_sub := f (sr_sub r) \<rparr>)
          (sns_subscriptions s) \<rparr>"

definition set_subscription_attribute ::
    "externals \<Rightarrow> (nat \<Rightarrow> sns_app \<Rightarrow> sns_app) \<Rightarrow> string \<Rightarrow> string \<Rightarrow> string \<Rightarrow> unit sns_action" where
  "set_subscription_attribute E others arn name v =
     act_bind (get_subscription arn) (\<lambda>b.
     act_bind (act_result (validate_subscription_attr E name v)) (\<lambda>w.
     act_bind (pause others 0) (\<lambda>_.
     sns_write (update_subscription arn (\<lambda>t. t\<lparr> s_attributes := put_attr name w (s_attributes b) \<rparr>)))))"

subsection \<open>Attribute listings\<close>

definition sns_default_policy :: "externals \<Rightarrow> string \<Rightarrow> string" where
  "sns_default_policy E arn = json_print E (json_obj
     [(''Version'', JStr ''2008-10-17''), (''Id'', JStr ''__default_policy_ID''),
      (''Statement'', JArr [json_obj
         [(''Sid'', JStr ''__default_statement_ID''), (''Effect'', JStr ''Allow''),
          (''Principal'', json_obj [(''AWS'', JStr ''*'')]),
          (''Action'', JArr (map JStr
             [''SNS:GetTopicAttributes'', ''SNS:SetTopicAttributes'', ''SNS:AddPermission'', ''SNS:RemovePermission'',
              ''SNS:DeleteTopic'', ''SNS:Subscribe'', ''SNS:ListSubscriptionsByTopic'', ''SNS:Publish''])),
          (''Resource'', JStr arn),
          (''Condition'', json_obj [(''StringEquals'', json_obj [(''AWS:SourceOwner'', JStr ACCOUNT_ID)])])]])])"

text \<open>A text with backquotes where the source has double quotes.\<close>

definition dquote :: "string \<Rightarrow> string" where
  "dquote s = map (\<lambda>c. if c = CHR ''`'' then CHR 0x22 else c) s"

definition EFFECTIVE_DELIVERY_POLICY :: string where
  "EFFECTIVE_DELIVERY_POLICY = dquote (''{`http`:{`defaultHealthyRetryPolicy`:{`minDelayTarget`:20,`maxDelayTarget`:20,''
     @ ''`numRetries`:3,`numMaxDelayRetries`:0,`numNoDelayRetries`:0,`numMinDelayRetries`:0,''
     @ ''`backoffFunction`:`linear`},`disableSubscriptionOverrides`:false,''
     @ ''`defaultRequestPolicy`:{`headerContentType`:`text/plain; charset=UTF-8`}}}'')"

definition topic_attributes :: "externals \<Rightarrow> (nat \<Rightarrow> sns_app \<Rightarrow> sns_app) \<Rightarrow> string \<Rightarrow> string btree sns_action" where
  "topic_attributes E others arn =
     act_bind (get_topic arn) (\<lambda>topic.
     act_bind (pause others 0) (\<lambda>_.
     act_bind (sns_read (list_subscriptions (Some arn))) (\<lambda>subs.
     act_return (bt_extend (bt_of_list
       ([(''TopicArn'', t_arn topic), (''Owner'', ACCOUNT_ID), (''DisplayName'', []),
         (''SubscriptionsConfirmed'', show_nat (length subs)), (''SubscriptionsPending'', ''0''),
         (''SubscriptionsDeleted'', ''0''), (''Policy'', sns_default_policy E (t_arn topic)),
         (''EffectiveDeliveryPolicy'', EFFECTIVE_DELIVERY_POLICY)]
        @ (if topic_is_fifo topic then [(''FifoTopic'', ''true''), (''ContentBasedDeduplication'', ''false'')] else [])))
       (t_attributes topic)))))"

definition subscription_attributes :: "sns_subscription \<Rightarrow> string btree" where
  "subscription_attributes b = bt_extend (bt_of_list
     ([(''SubscriptionArn'', s_arn b), (''TopicArn'', s_topic_arn b), (''Protocol'', s_protocol b),
       (''Endpoint'', s_endpoint b), (''Owner'', ACCOUNT_ID), (''RawMessageDelivery'', ''false''),
       (''PendingConfirmation'', ''false''), (''ConfirmationWasAuthenticated'', ''true''),
       (''SubscriptionPrincipal'', ''arn:aws:iam::'' @ ACCOUNT_ID @ '':user/cloudtwin'')]
      @ (if starts_with (s_protocol b) ''http'' then [(''EffectiveDeliveryPolicy'', EFFECTIVE_DELIVERY_POLICY)] else [])
      @ (if map_of (s_attributes b) ''FilterPolicy'' \<noteq> None then [(''FilterPolicyScope'', ''MessageAttributes'')] else [])))
     (s_attributes b)"

subsection \<open>Pages\<close>

definition encode_token :: "externals \<Rightarrow> string \<Rightarrow> string" where
  "encode_token E s = b64url_encode E s"

definition decode_token :: "externals \<Rightarrow> string option \<Rightarrow> (sns_error, string option) result" where
  "decode_token E t =
     (case t of
        None \<Rightarrow> Inr None
      | Some t \<Rightarrow>
          if t = [] then Inr None
          else (case b64url_decode E t of
                  Some b \<Rightarrow> Inr (Some (from_utf8_lossy b))
                | None \<Rightarrow> Inl (sns_invalid ''Invalid parameter: NextToken'')))"

definition sns_page ::
    "externals \<Rightarrow> 'a list \<Rightarrow> ('a \<Rightarrow> string) \<Rightarrow> string option \<Rightarrow> nat \<Rightarrow> 'a list \<times> string option" where
  "sns_page E xs key after limit =
     (let start = (case after of Some a \<Rightarrow> length (takeWhile (\<lambda>x. \<not> a < key x) xs) | None \<Rightarrow> 0);
          part = take limit (drop start xs)
      in (part, if start + length part < length xs \<and> part \<noteq> [] then Some (encode_token E (key (last part))) else None))"

subsection \<open>The message log\<close>

definition record_message ::
    "externals \<Rightarrow> string \<Rightarrow> string \<Rightarrow> string option \<Rightarrow> string \<Rightarrow> string option \<Rightarrow> nat \<Rightarrow> int \<Rightarrow> unit sns_action" where
  "record_message E mid arn subject body attrs delivered now =
     sns_write (\<lambda>s. s\<lparr> sns_messages := sns_messages s @
       [\<lparr> sm_message_id = mid, sm_topic_arn = arn, sm_subject = subject, sm_body = body,
          sm_created_at = to_rfc3339 E now, sm_attributes = attrs, sm_delivered = int delivered \<rparr>] \<rparr>)"

end
