(* ===== verification/Sns_Delivery.thy ===== *)
theory Sns_Delivery
  imports Sns_Service
begin

text \<open>
  SNS, part 3: publishing (src/src/aws/sns/delivery.rs and \<open>publish_internal\<close> of
  src/src/aws/sns/mod.rs): the checks of a request, the choice of the body for each protocol, the
  fan-out to the subscriptions and the deliveries.

  A delivery to a queue is SQS's \<open>send_with\<close> on the same state; mail goes to the mailbox; an HTTP
  request is started and not waited for, so the model records it in \<open>sns_posts\<close>.  \<open>now\<close> is the clock of
  the request, \<open>base\<close> the configured base URL.
\<close>

record publish_request =
  pr_topic_arn :: "string option"
  pr_phone_number :: "string option"
  pr_message :: string
  pr_subject :: "string option"
  pr_message_structure :: "string option"
  pr_attributes :: msg_attrs
  pr_group_id :: "string option"
  pr_dedup_id :: "string option"

record publish_result =
  pu_message_id :: string
  pu_sequence_number :: "string option"

record outgoing =
  o_message_id :: string
  o_topic_arn :: string
  o_subject :: "string option"
  o_bodies :: "string btree"
  o_attributes :: msg_attrs
  o_timestamp :: string
  o_group_id :: "string option"
  o_dedup_id :: "string option"
  o_sequence_number :: "string option"

definition body_for :: "outgoing \<Rightarrow> string \<Rightarrow> string" where
  "body_for out protocol =
     (case map_of (o_bodies out) protocol of
        Some b \<Rightarrow> b
      | None \<Rightarrow> (case map_of (o_bodies out) ''default'' of Some b \<Rightarrow> b | None \<Rightarrow> []))"

definition MAX_MESSAGE_BYTES :: nat where
  "MAX_MESSAGE_BYTES = 262144"

subsection \<open>Checks\<close>

definition quoted_name :: "string \<Rightarrow> string" where
  "quoted_name n = [CHR 0x27] @ n @ [CHR 0x27]"

definition attribute_typed :: "msg_attr \<Rightarrow> bool" where
  "attribute_typed a =
     (let t = data_type a in
      if t = ''String'' \<or> t = ''String.Array'' then string_value a \<noteq> None
      else if t = ''Number'' then (case string_value a of Some s \<Rightarrow> parses_f64 (trim s) | None \<Rightarrow> False)
      else if t = ''Binary'' then binary_value a \<noteq> None
      else if starts_with t ''String.'' \<or> starts_with t ''Number.'' then string_value a \<noteq> None
      else if starts_with t ''Binary.'' then binary_value a \<noteq> None
      else False)"

definition is_json_array :: "externals \<Rightarrow> string \<Rightarrow> bool" where
  "is_json_array E s = (case json_parse E s of Some (JArr _) \<Rightarrow> True | _ \<Rightarrow> False)"

fun validate_message_attributes :: "externals \<Rightarrow> (string \<times> msg_attr) list \<Rightarrow> (sns_error, unit) result" where
  "validate_message_attributes E [] = Inr ()"
| "validate_message_attributes E ((name, a) # rest) =
     (if \<not> attribute_typed a then
        Inl (invalid_value (''The message attribute '' @ quoted_name name @ '' has an invalid message attribute type, ''
               @ ''the set of supported type prefixes is Binary, Number, and String.''))
      else if data_type a = ''String.Array''
          \<and> \<not> is_json_array E (case string_value a of Some s \<Rightarrow> s | None \<Rightarrow> []) then
        Inl (invalid_value (''The message attribute '' @ quoted_name name @ '' with type ''
               @ quoted_name ''String.Array'' @ '' must contain a JSON array.''))
      else validate_message_attributes E rest)"

definition is_control :: "nat \<Rightarrow> bool" where
  "is_control c \<longleftrightarrow> c < 32 \<or> (127 \<le> c \<and> c < 160)"

definition subject_ok :: "string option \<Rightarrow> bool" where
  "subject_ok subject =
     (case subject of
        Some s \<Rightarrow> s \<noteq> [] \<and> length (utf8_chars s) \<le> 100 \<and> \<not> list_ex is_control (utf8_chars s)
      | None \<Rightarrow> True)"

text \<open>The body for each protocol: one for all, or those of a JSON document.\<close>

definition message_bodies :: "externals \<Rightarrow> string option \<Rightarrow> string \<Rightarrow> (sns_error, string btree) result" where
  "message_bodies E structure message =
     (if structure = Some ''json'' then
        (case json_parse E message of
           Some (JObj m) \<Rightarrow>
             (let bodies = bt_of_list (map (\<lambda>(k, v). (k, value_text E v)) m) in
              if map_of bodies ''default'' = None
              then Inl (sns_invalid ''Invalid parameter: Message Structure - No default entry in JSON message body'')
              else Inr bodies)
         | _ \<Rightarrow> Inl (sns_invalid ''Invalid parameter: Message Structure - JSON message body failed to parse''))
      else (case structure of
              Some st \<Rightarrow> if st \<noteq> [] then Inl (sns_invalid ''Invalid parameter: MessageStructure'')
                         else Inr [(''default'', message)]
            | None \<Rightarrow> Inr [(''default'', message)]))"

definition attribute_bytes :: "msg_attrs \<Rightarrow> nat" where
  "attribute_bytes attrs = sum_list (map (\<lambda>(k, a). length k + length (data_type a) + length (value_bytes a)) attrs)"

definition publish_check :: "externals \<Rightarrow> publish_request \<Rightarrow> (sns_error, string btree) result" where
  "publish_check E req =
     (if pr_message req = [] then Inl (sns_invalid ''Invalid parameter: Empty message'')
      else if MAX_MESSAGE_BYTES < length (pr_message req) + attribute_bytes (pr_attributes req) then
        Inl (sns_invalid ''Invalid parameter: Message too long'')
      else if \<not> subject_ok (pr_subject req) then Inl (sns_invalid ''Invalid parameter: Subject'')
      else try_bind (validate_message_attributes E (pr_attributes req)) (\<lambda>_.
        message_bodies E (pr_message_structure req) (pr_message req)))"

subsection \<open>Deliveries\<close>

definition passes_filter :: "externals \<Rightarrow> sns_subscription \<Rightarrow> outgoing \<Rightarrow> bool" where
  "passes_filter E b out =
     (case map_of (s_attributes b) ''FilterPolicy'' of
        None \<Rightarrow> True
      | Some p \<Rightarrow>
          (case json_parse E p of
             None \<Rightarrow> True
           | Some policy \<Rightarrow>
               filter_matches E policy
                 (case map_of (s_attributes b) ''FilterPolicyScope'' of Some sc \<Rightarrow> sc | None \<Rightarrow> ''MessageAttributes'')
                 (o_attributes out) (body_for out (s_protocol b))))"

definition SIGNATURE_PLACEHOLDER :: string where
  "SIGNATURE_PLACEHOLDER =
     ''Y2xvdWR0d2luLWxpdGUgZG9lcyBub3Qgc2lnbiBTTlMgbWVzc2FnZXMgLSB0aGlzIGlzIGEgcGxhY2Vob2xkZXIu''"

definition envelope_attr :: "externals \<Rightarrow> msg_attr \<Rightarrow> json" where
  "envelope_attr E a = json_obj
     [(''Type'', JStr (data_type a)),
      (''Value'', JStr (if is_binary a
         then b64_encode E (case binary_value a of Some b \<Rightarrow> b | None \<Rightarrow> [])
         else (case string_value a of Some s \<Rightarrow> s | None \<Rightarrow> [])))]"

definition unsubscribe_url :: "string \<Rightarrow> sns_subscription \<Rightarrow> string" where
  "unsubscribe_url base b =
     trim_end_char (CHR ''/'') base @ ''/?Action=Unsubscribe&SubscriptionArn='' @ s_arn b"

definition envelope :: "externals \<Rightarrow> string \<Rightarrow> sns_subscription \<Rightarrow> outgoing \<Rightarrow> string" where
  "envelope E base b out = json_print E (json_obj
     ([(''Type'', JStr ''Notification''), (''MessageId'', JStr (o_message_id out))]
      @ (case o_sequence_number out of Some q \<Rightarrow> [(''SequenceNumber'', JStr q)] | None \<Rightarrow> [])
      @ [(''TopicArn'', JStr (o_topic_arn out))]
      @ (case o_subject out of Some x \<Rightarrow> [(''Subject'', JStr x)] | None \<Rightarrow> [])
      @ [(''Message'', JStr (body_for out (s_protocol b))), (''Timestamp'', JStr (o_timestamp out)),
         (''SignatureVersion'', JStr ''1''), (''Signature'', JStr SIGNATURE_PLACEHOLDER),
         (''SigningCertURL'', JStr (trim_end_char (CHR ''/'') base @ ''/SimpleNotificationService-cloudtwin.pem'')),
         (''UnsubscribeURL'', JStr (unsubscribe_url base b))]
      @ (if o_attributes out = [] then []
         else [(''MessageAttributes'', json_obj (map (\<lambda>(k, a). (k, envelope_attr E a)) (o_attributes out)))])))"

text \<open>The error of a delivery is a text that is only logged.\<close>

type_synonym delivery = "(sns_app, string, unit) action"

definition send_to :: "externals \<Rightarrow> string \<Rightarrow> string \<Rightarrow> msg_attrs \<Rightarrow> outgoing \<Rightarrow> int \<Rightarrow> delivery" where
  "send_to E queue body attrs out now = (\<lambda>s.
     case send_with E queue body attrs (o_group_id out) (o_dedup_id out) now (sns_queues s) of
       (Inl e, db) \<Rightarrow> (Inl (err_code e @ '': '' @ err_message e), s\<lparr> sns_queues := db \<rparr>)
     | (Inr _, db) \<Rightarrow> (Inr (), s\<lparr> sns_queues := db \<rparr>))"

text \<open>The dead-letter queue of a subscription.\<close>

definition redrive_target :: "externals \<Rightarrow> sns_subscription \<Rightarrow> string option" where
  "redrive_target E b =
     Option.bind (map_of (s_attributes b) ''RedrivePolicy'') (\<lambda>r.
     Option.bind (json_parse E r) (json_str ''deadLetterTargetArn''))"

definition sqs_payload :: "externals \<Rightarrow> string \<Rightarrow> sns_subscription \<Rightarrow> outgoing \<Rightarrow> string \<times> msg_attrs" where
  "sqs_payload E base b out =
     (if raw_delivery b then (body_for out ''sqs'', o_attributes out) else (envelope E base b out, []))"

definition deliver_sqs :: "externals \<Rightarrow> string \<Rightarrow> sns_subscription \<Rightarrow> outgoing \<Rightarrow> int \<Rightarrow> delivery" where
  "deliver_sqs E base b out now = (\<lambda>s.
     let (body, attrs) = sqs_payload E base b out in
     case send_to E (s_endpoint b) body attrs out now s of
       (Inr _, s') \<Rightarrow> (Inr (), s')
     | (Inl e, s') \<Rightarrow>
         (case redrive_target E b of
            None \<Rightarrow> (Inl e, s')
          | Some dlq \<Rightarrow>
              (case send_to E dlq body attrs out now s' of
                 (Inl e', s'') \<Rightarrow> (Inl e', s'')
               | (Inr _, s'') \<Rightarrow> (Inl e, s''))))"

definition http_request :: "externals \<Rightarrow> string \<Rightarrow> sns_subscription \<Rightarrow> outgoing \<Rightarrow> http_post" where
  "http_request E base b out =
     \<lparr> post_url = s_endpoint b,
       post_headers =
         [(''Content-Type'', ''text/plain; charset=UTF-8''),
          (''User-Agent'', ''Amazon Simple Notification Service Agent''),
          (''x-amz-sns-message-type'', ''Notification''), (''x-amz-sns-message-id'', o_message_id out),
          (''x-amz-sns-topic-arn'', o_topic_arn out), (''x-amz-sns-subscription-arn'', s_arn b)]
         @ (if raw_delivery b then [(''x-amz-sns-rawdelivery'', ''true'')] else []),
       post_body = (if raw_delivery b then body_for out (s_protocol b) else envelope E base b out) \<rparr>"

text \<open>\<open>replace\<close> of CRLF by LF, and of LF by CRLF.\<close>

abbreviation CR :: char where "CR \<equiv> CHR 0x0D"
abbreviation LF :: char where "LF \<equiv> CHR 0x0A"

fun crlf_to_lf :: "string \<Rightarrow> string" where
  "crlf_to_lf (a # c # s) = (if a = CR \<and> c = LF then LF # crlf_to_lf s else a # crlf_to_lf (c # s))"
| "crlf_to_lf s = s"

definition lf_to_crlf :: "string \<Rightarrow> string" where
  "lf_to_crlf s = concat (map (\<lambda>c. if c = LF then [CR, LF] else [c]) s)"

definition email_body :: "externals \<Rightarrow> string \<Rightarrow> sns_subscription \<Rightarrow> outgoing \<Rightarrow> string" where
  "email_body E base b out =
     (if s_protocol b = ''email-json'' then envelope E base b out
      else body_for out ''email'' @ [LF, LF] @ ''--'' @ [LF]
        @ ''If you wish to stop receiving notifications from this topic, please click or visit the link below to unsubscribe:''
        @ [LF] @ unsubscribe_url base b @ [LF])"

definition email_raw :: "externals \<Rightarrow> string \<Rightarrow> sns_subscription \<Rightarrow> outgoing \<Rightarrow> int \<Rightarrow> string" where
  "email_raw E base b out now =
     concat (map (\<lambda>l. l @ [CR, LF])
       [''From: AWS Notifications <no-reply@sns.amazonaws.com>'', ''To: '' @ s_endpoint b,
        ''Subject: '' @ (case o_subject out of Some x \<Rightarrow> x | None \<Rightarrow> ''AWS Notification Message''),
        ''Date: '' @ to_rfc2822 E now, ''Message-ID: <'' @ o_message_id out @ ''@sns.amazonaws.com>'',
        ''MIME-Version: 1.0'', ''Content-Type: text/plain; charset=UTF-8'', ''Content-Transfer-Encoding: 8bit'', []])
     @ lf_to_crlf (crlf_to_lf (email_body E base b out))"

definition deliver_email ::
    "externals \<Rightarrow> (string \<Rightarrow> parsed_mail option) \<Rightarrow> string \<Rightarrow> sns_subscription \<Rightarrow> outgoing \<Rightarrow> int \<Rightarrow> delivery" where
  "deliver_email E parse_mail base b out now =
     act_bind (draw_uuid E) (\<lambda>u.
       let mid = u @ ''@cloudtwin.local'' in
       (\<lambda>s. case capture_raw E parse_mail mid (email_raw E base b out now) ''sns'' now (sns_mail s) of
          (Inl e, _) \<Rightarrow> (Inl e, s)
        | (Inr _, db) \<Rightarrow> (Inr (), s\<lparr> sns_mail := db, sns_events := capture_event E mid ''sns'' now (sns_events s) \<rparr>)))"

definition deliver ::
    "externals \<Rightarrow> (string \<Rightarrow> parsed_mail option) \<Rightarrow> string \<Rightarrow> sns_subscription \<Rightarrow> outgoing \<Rightarrow> int \<Rightarrow> delivery" where
  "deliver E parse_mail base b out now =
     (if s_protocol b = ''sqs'' then deliver_sqs E base b out now
      else if s_protocol b \<in> {''http'', ''https''} then
        sns_write (\<lambda>s. s\<lparr> sns_posts := sns_posts s @ [http_request E base b out] \<rparr>)
      else if s_protocol b \<in> {''email'', ''email-json''} then deliver_email E parse_mail base b out now
      else act_return ())"

subsection \<open>Fan-out\<close>

definition sns_emit :: "externals \<Rightarrow> string \<Rightarrow> json \<Rightarrow> int \<Rightarrow> (sns_app, 'e, unit) action" where
  "sns_emit E action payload now =
     sns_write (\<lambda>s. s\<lparr> sns_events := emit_event E ''aws'' ''sns'' action (json_print E payload) now (sns_events s) \<rparr>)"

definition deliver_event :: "sns_subscription \<Rightarrow> outgoing \<Rightarrow> bool \<Rightarrow> json" where
  "deliver_event b out ok = json_obj
     [(''topic_arn'', JStr (o_topic_arn out)), (''subscription_arn'', JStr (s_arn b)), (''protocol'', JStr (s_protocol b)),
      (''endpoint'', JStr (s_endpoint b)), (''message_id'', JStr (o_message_id out)), (''ok'', JBool ok)]"

text \<open>The loop over the subscriptions; a failed delivery is reported and the loop goes on.\<close>

fun fan_out_loop ::
    "externals \<Rightarrow> (string \<Rightarrow> parsed_mail option) \<Rightarrow> string \<Rightarrow> (nat \<Rightarrow> sns_app \<Rightarrow> sns_app) \<Rightarrow> outgoing \<Rightarrow> int
      \<Rightarrow> sns_subscription list \<Rightarrow> nat \<Rightarrow> sns_app \<Rightarrow> nat \<times> sns_app" where
  "fan_out_loop E parse_mail base others out now [] i s = (0, s)"
| "fan_out_loop E parse_mail base others out now (b # bs) i s =
     (if \<not> passes_filter E b out then fan_out_loop E parse_mail base others out now bs i s
      else
        let (r, s1) = deliver E parse_mail base b out now (others i s);
            ok = (case r of Inl _ \<Rightarrow> False | Inr _ \<Rightarrow> True);
            s2 = snd (sns_emit E ''deliver'' (deliver_event b out ok) now s1 :: (unit, unit) result \<times> sns_app);
            (n, s3) = fan_out_loop E parse_mail base others out now bs (Suc i) s2
        in ((if ok then Suc n else n), s3))"

definition fan_out ::
    "externals \<Rightarrow> (string \<Rightarrow> parsed_mail option) \<Rightarrow> string \<Rightarrow> (nat \<Rightarrow> sns_app \<Rightarrow> sns_app) \<Rightarrow> string \<Rightarrow> outgoing \<Rightarrow> int
      \<Rightarrow> nat sns_action" where
  "fan_out E parse_mail base others arn out now =
     act_bind (sns_read (list_subscriptions (Some arn))) (\<lambda>subs.
       (\<lambda>s. case fan_out_loop E parse_mail base others out now subs 3 s of (n, s') \<Rightarrow> (Inr n, s')))"

subsection \<open>Publish\<close>

text \<open>The group, deduplication and sequence fields of the outgoing message.\<close>

definition fifo_fields ::
    "externals \<Rightarrow> (nat \<Rightarrow> sns_app \<Rightarrow> sns_app) \<Rightarrow> publish_request \<Rightarrow> sns_topic
      \<Rightarrow> (string option \<times> string option \<times> string option) sns_action" where
  "fifo_fields E others req topic =
     (if topic_is_fifo topic then
        (if (case pr_group_id req of Some g \<Rightarrow> g | None \<Rightarrow> []) = [] then
           act_result (Inl (sns_invalid ''Invalid parameter: The MessageGroupId parameter is required for FIFO topics''))
         else
           (case (case pr_dedup_id req of
                    Some d \<Rightarrow> if d \<noteq> [] then Some d
                              else if map_of (t_attributes topic) ''ContentBasedDeduplication'' = Some ''true''
                              then Some (sha256_hex E (pr_message req)) else None
                  | None \<Rightarrow> if map_of (t_attributes topic) ''ContentBasedDeduplication'' = Some ''true''
                            then Some (sha256_hex E (pr_message req)) else None) of
              None \<Rightarrow> act_result (Inl (sns_invalid (''Invalid parameter: The topic should either have ''
                        @ ''ContentBasedDeduplication enabled or MessageDeduplicationId provided explicitly'')))
            | Some d \<Rightarrow>
                act_bind (pause others 0) (\<lambda>_.
                act_bind (next_sequence (t_arn topic)) (\<lambda>q.
                act_return (pr_group_id req, Some d, Some q)))))
      else act_return (if pr_group_id req = Some [] then None else pr_group_id req, None, None))"

definition stored_only :: "externals \<Rightarrow> string \<Rightarrow> string \<Rightarrow> publish_request \<Rightarrow> string option \<Rightarrow> int \<Rightarrow> publish_result sns_action" where
  "stored_only E mid target req attrs_json now =
     act_bind (record_message E mid target (pr_subject req) (pr_message req) attrs_json 0 now) (\<lambda>_.
       act_return \<lparr> pu_message_id = mid, pu_sequence_number = None \<rparr>)"

text \<open>The part of a publish that has a topic as its target.\<close>

definition publish_to ::
    "externals \<Rightarrow> (string \<Rightarrow> parsed_mail option) \<Rightarrow> string \<Rightarrow> (nat \<Rightarrow> sns_app \<Rightarrow> sns_app) \<Rightarrow> publish_request \<Rightarrow> string btree
      \<Rightarrow> string \<Rightarrow> string option \<Rightarrow> string \<Rightarrow> int \<Rightarrow> publish_result sns_action" where
  "publish_to E parse_mail base others req bodies mid attrs_json target now =
     act_bind (get_topic target) (\<lambda>topic.
     act_bind (fifo_fields E others req topic) (\<lambda>(group, dedup, seq).
     act_bind (pause others 1) (\<lambda>_.
     act_bind (fan_out E parse_mail base others (t_arn topic)
       \<lparr> o_message_id = mid, o_topic_arn = t_arn topic, o_subject = pr_subject req, o_bodies = bodies,
         o_attributes = pr_attributes req, o_timestamp = iso_millis E now, o_group_id = group,
         o_dedup_id = dedup, o_sequence_number = seq \<rparr> now) (\<lambda>delivered.
     act_bind (pause others 2) (\<lambda>_.
     act_bind (record_message E mid (t_arn topic) (pr_subject req) (pr_message req) attrs_json delivered now) (\<lambda>_.
     act_return \<lparr> pu_message_id = mid, pu_sequence_number = seq \<rparr>))))))"

definition publish ::
    "externals \<Rightarrow> (string \<Rightarrow> parsed_mail option) \<Rightarrow> string \<Rightarrow> (nat \<Rightarrow> sns_app \<Rightarrow> sns_app) \<Rightarrow> publish_request \<Rightarrow> int
      \<Rightarrow> publish_result sns_action" where
  "publish E parse_mail base others req now =
     act_bind (act_result (publish_check E req)) (\<lambda>bodies.
     act_bind (draw_uuid E) (\<lambda>mid.
     let attrs_json = (if pr_attributes req = [] then None
                       else Some (json_print E (attrs_to_json E (pr_attributes req)))) in
     case (case pr_topic_arn req of Some t \<Rightarrow> if t = [] then None else Some t | None \<Rightarrow> None) of
       None \<Rightarrow>
         (case (case pr_phone_number req of Some p \<Rightarrow> if p = [] then None else Some p | None \<Rightarrow> None) of
            Some phone \<Rightarrow> stored_only E mid (''sms:'' @ phone) req attrs_json now
          | None \<Rightarrow> act_result (Inl (sns_invalid (''Invalid parameter: TopicArn or TargetArn Reason: ''
                                                    @ ''no value for required parameter''))))
     | Some target \<Rightarrow>
         if str_contains target '':endpoint/'' then stored_only E mid target req attrs_json now
         else
           publish_to E parse_mail base others req bodies mid attrs_json target now))"

text \<open>Publishing on behalf of another service; errors are only text there.\<close>

definition publish_internal ::
    "externals \<Rightarrow> (string \<Rightarrow> parsed_mail option) \<Rightarrow> string \<Rightarrow> (nat \<Rightarrow> sns_app \<Rightarrow> sns_app) \<Rightarrow> string \<Rightarrow> string \<Rightarrow> string option
      \<Rightarrow> json option \<Rightarrow> int \<Rightarrow> (sns_app, string, string) action" where
  "publish_internal E parse_mail base others arn message subject attrs now =
     (case parse_attrs E attrs of
        Inl e \<Rightarrow> act_result (Inl e)
      | Inr a \<Rightarrow> (\<lambda>s.
          case publish E parse_mail base others
                 \<lparr> pr_topic_arn = Some arn, pr_phone_number = None, pr_message = message, pr_subject = subject,
                   pr_message_structure = None, pr_attributes = a, pr_group_id = None, pr_dedup_id = None \<rparr> now s of
            (Inl e, s') \<Rightarrow> (Inl (se_code e @ '': '' @ se_message e), s')
          | (Inr r, s') \<Rightarrow> (Inr (pu_message_id r), s')))"

end
