(* ===== verification/Aws_Query.thy ===== *)
theory Aws_Query
  imports Http
begin

text \<open>
  The AWS Query protocol (src/src/proto.rs): flattened form parameters decoded into nested JSON, and
  the XML of the responses.  The parameters are a \<open>HashMap\<close>: a list of distinct keys in an order the
  program does not control, which is the order of the list.
\<close>

type_synonym form_params = "(string \<times> string) list"

subsection \<open>Parameters\<close>

datatype qnode = Leaf string | Tree "(string \<times> qnode) list"

definition subtree :: "qnode option \<Rightarrow> (string \<times> qnode) list" where
  "subtree n = (case n of Some (Tree m) \<Rightarrow> m | _ \<Rightarrow> [])"

text \<open>A leaf in the way of a longer path is replaced by a tree, a tree in the way of a leaf by the leaf.\<close>

fun node_insert :: "(string \<times> qnode) list \<Rightarrow> string list \<Rightarrow> string \<Rightarrow> (string \<times> qnode) list" where
  "node_insert m [] v = m"
| "node_insert m [h] v = bt_insert h (Leaf v) m"
| "node_insert m (h # rest) v = bt_insert h (Tree (node_insert (subtree (map_of m h)) rest v)) m"

text \<open>\<open>str::parse::<u64>\<close>.\<close>

definition parse_u64 :: "string \<Rightarrow> nat option" where
  "parse_u64 s =
     (case parse_nat (case s of c # r \<Rightarrow> if c = CHR ''+'' then r else s | [] \<Rightarrow> []) of
        Some n \<Rightarrow> if n < 2 ^ 64 then Some n else None
      | None \<Rightarrow> None)"

definition convert_map :: "(string \<times> json) list \<Rightarrow> json" where
  "convert_map kids =
     (if kids \<noteq> [] \<and> list_all (\<lambda>(k, _). parse_u64 k \<noteq> None) kids then
        JArr (map snd (sort_key (\<lambda>(k, _). the (parse_u64 k)) kids))
      else (case kids of
              [(k, v)] \<Rightarrow> if k = ''member'' \<or> k = ''entry'' then v else JObj kids
            | _ \<Rightarrow> JObj kids))"

fun convert :: "qnode \<Rightarrow> json" where
  "convert (Leaf s) = JStr s"
| "convert (Tree m) = convert_map (map (\<lambda>(k, v). (k, convert v)) m)"

definition query_path :: "string \<Rightarrow> string \<Rightarrow> string list option" where
  "query_path pre k =
     map_option (split_on (CHR ''.''))
       (if pre = [] then Some k else Option.bind (strip_prefix pre k) (strip_prefix ''.''))"

definition query_tree :: "form_params \<Rightarrow> string \<Rightarrow> (string \<times> qnode) list" where
  "query_tree params pre =
     fold (\<lambda>(k, v) root. case query_path pre k of Some path \<Rightarrow> node_insert root path v | None \<Rightarrow> root) params []"

definition query_to_json :: "form_params \<Rightarrow> string \<Rightarrow> json" where
  "query_to_json params pre = convert (Tree (query_tree params pre))"

subsection \<open>XML\<close>

definition replace_char :: "char \<Rightarrow> string \<Rightarrow> string \<Rightarrow> string" where
  "replace_char c r s = concat (map (\<lambda>x. if x = c then r else [x]) s)"

definition xml_escape :: "string \<Rightarrow> string" where
  "xml_escape s =
     replace_char (CHR 0x27) ''&apos;'' (replace_char (CHR 0x22) ''&quot;''
       (replace_char (CHR ''>'') ''&gt;'' (replace_char (CHR ''<'') ''&lt;'' (replace_char (CHR ''&'') ''&amp;'' s))))"

definition xml_decl :: string where
  "xml_decl = ''<?xml version='' @ [CHR 0x22] @ ''1.0'' @ [CHR 0x22] @ '' encoding='' @ [CHR 0x22] @ ''UTF-8'' @ [CHR 0x22] @ ''?>''"

definition wrap_xml :: "string \<Rightarrow> string \<Rightarrow> string \<Rightarrow> string" where
  "wrap_xml action xmlns inner =
     xml_decl @ ''<'' @ action @ ''Response xmlns='' @ [CHR 0x22] @ xmlns @ [CHR 0x22] @ ''>'' @ inner
     @ ''<ResponseMetadata><RequestId>cloudtwin</RequestId></ResponseMetadata></'' @ action @ ''Response>''"

definition xml_ok :: "string \<Rightarrow> http_response" where
  "xml_ok body = \<lparr> http_status = 200, http_headers = [(''content-type'', ''text/xml'')], http_body = body \<rparr>"

definition xml_error_response :: "nat \<Rightarrow> string \<Rightarrow> string \<Rightarrow> http_response" where
  "xml_error_response status code message =
     \<lparr> http_status = status, http_headers = [(''content-type'', ''text/xml'')],
       http_body = xml_decl @ ''<ErrorResponse><Error><Type>Sender</Type><Code>'' @ xml_escape code
         @ ''</Code><Message>'' @ xml_escape message
         @ ''</Message></Error><RequestId>cloudtwin</RequestId></ErrorResponse>'' \<rparr>"

end
