(* ===== verification/Sns_Handlers.thy ===== *)
theory Sns_Handlers
  imports Sns_Delivery Aws_Query
begin

text \<open>
  SNS, part 4: the Query handlers of src/src/aws/sns/handlers.rs: decoding of the parameters, the
  dispatch on the action, and the XML of the answers.
\<close>

subsection \<open>Parameters\<close>

definition sns_required :: "form_params \<Rightarrow> string \<Rightarrow> (sns_error, string) result" where
  "sns_required params key =
     (case map_of params key of
        Some s \<Rightarrow> if s = [] then Inl (sns_invalid (''Invalid parameter: '' @ key @ '' Reason: no value for required parameter''))
                  else Inr s
      | None \<Rightarrow> Inl (sns_invalid (''Invalid parameter: '' @ key @ '' Reason: no value for required parameter'')))"

definition json_items :: "json \<Rightarrow> json list" where
  "json_items v = (case v of JArr a \<Rightarrow> a | JNull \<Rightarrow> [] | JObj m \<Rightarrow> if m = [] then [] else [v] | _ \<Rightarrow> [v])"

definition pair_map :: "string \<Rightarrow> string \<Rightarrow> json list \<Rightarrow> string btree" where
  "pair_map kf vf items = bt_of_list (List.map_filter (\<lambda>e.
     map_option (\<lambda>k. (k, case json_str vf e of Some v \<Rightarrow> v | None \<Rightarrow> [])) (json_str kf e)) items)"

definition entry_map :: "form_params \<Rightarrow> string \<Rightarrow> string btree" where
  "entry_map params pre = pair_map ''key'' ''value'' (json_items (query_to_json params pre))"

definition tag_map :: "form_params \<Rightarrow> string \<Rightarrow> string btree" where
  "tag_map params pre = pair_map ''Key'' ''Value'' (json_items (query_to_json params pre))"

definition message_attribute :: "externals \<Rightarrow> json \<Rightarrow> (sns_error, string \<times> msg_attr) result" where
  "message_attribute E item =
     (let name = (case json_str ''Name'' item of Some n \<Rightarrow> n | None \<Rightarrow> []);
          val = (case json_get ''Value'' item of Some v \<Rightarrow> v | None \<Rightarrow> JNull)
      in case json_str ''DataType'' val of
           None \<Rightarrow> Inl (invalid_value (''The message attribute '' @ quoted_name name
                          @ '' must contain non-empty message attribute type.''))
         | Some dt \<Rightarrow>
             try_bind (case json_str ''BinaryValue'' val of
                 None \<Rightarrow> Inr None
               | Some b \<Rightarrow> (case b64_decode E b of
                   Some raw \<Rightarrow> Inr (Some raw)
                 | None \<Rightarrow> Inl (invalid_value (''The message attribute '' @ quoted_name name
                                  @ '' has an invalid binary value.''))))
               (\<lambda>bv. Inr (name, \<lparr> data_type = dt, string_value = json_str ''StringValue'' val, binary_value = bv \<rparr>)))"

fun message_attributes :: "externals \<Rightarrow> json list \<Rightarrow> msg_attrs \<Rightarrow> (sns_error, msg_attrs) result" where
  "message_attributes E [] out = Inr out"
| "message_attributes E (item # rest) out =
     try_bind (message_attribute E item) (\<lambda>(name, a). message_attributes E rest (bt_insert name a out))"

definition publish_request_of :: "externals \<Rightarrow> json \<Rightarrow> string option \<Rightarrow> (sns_error, publish_request) result" where
  "publish_request_of E v arn =
     try_bind (message_attributes E (json_items (case json_get ''MessageAttributes'' v of Some a \<Rightarrow> a | None \<Rightarrow> JNull)) []) (\<lambda>attrs.
       Inr \<lparr> pr_topic_arn = arn, pr_phone_number = None,
             pr_message = (case json_str ''Message'' v of Some m \<Rightarrow> m | None \<Rightarrow> []),
             pr_subject = json_str ''Subject'' v, pr_message_structure = json_str ''MessageStructure'' v,
             pr_attributes = attrs, pr_group_id = json_str ''MessageGroupId'' v,
             pr_dedup_id = json_str ''MessageDeduplicationId'' v \<rparr>)"

definition sns_batch_id_ok :: "string \<Rightarrow> bool" where
  "sns_batch_id_ok i \<longleftrightarrow>
     i \<noteq> [] \<and> length i \<le> 80 \<and> list_all (\<lambda>c. is_alnum c \<or> c = CHR ''-'' \<or> c = CHR ''_'') i"

subsection \<open>Answers\<close>

definition NS :: string where
  "NS = ''https://sns.amazonaws.com/doc/2010-03-31/''"

definition PAGE_SIZE :: nat where
  "PAGE_SIZE = 100"

definition respond :: "string \<Rightarrow> string \<Rightarrow> http_response" where
  "respond action inner =
     xml_ok (wrap_xml action NS (if inner = [] then []
       else ''<'' @ action @ ''Result>'' @ inner @ ''</'' @ action @ ''Result>''))"

definition el :: "string \<Rightarrow> string \<Rightarrow> string" where
  "el name v = ''<'' @ name @ ''>'' @ xml_escape v @ ''</'' @ name @ ''>''"

definition member_xml :: "string \<Rightarrow> string" where
  "member_xml inner = ''<member>'' @ inner @ ''</member>''"

definition attributes_xml :: "string btree \<Rightarrow> string" where
  "attributes_xml attrs =
     ''<Attributes>'' @ concat (map (\<lambda>(k, v). ''<entry>'' @ el ''key'' k @ el ''value'' v @ ''</entry>'') attrs) @ ''</Attributes>''"

definition subscription_member :: "sns_subscription \<Rightarrow> string" where
  "subscription_member b =
     member_xml (el ''SubscriptionArn'' (s_arn b) @ el ''TopicArn'' (s_topic_arn b) @ el ''Protocol'' (s_protocol b)
       @ el ''Endpoint'' (s_endpoint b) @ el ''Owner'' ACCOUNT_ID)"

definition next_token_xml :: "string option \<Rightarrow> string" where
  "next_token_xml token = (case token of Some t \<Rightarrow> el ''NextToken'' t | None \<Rightarrow> [])"

subsection \<open>Actions\<close>

type_synonym sns_handler = "http_response sns_action"

definition with_required :: "form_params \<Rightarrow> string \<Rightarrow> (string \<Rightarrow> 'a sns_action) \<Rightarrow> 'a sns_action" where
  "with_required params key k = act_bind (act_result (sns_required params key)) k"

definition param_or_empty :: "form_params \<Rightarrow> string \<Rightarrow> string" where
  "param_or_empty params key = (case map_of params key of Some v \<Rightarrow> v | None \<Rightarrow> [])"

definition do_create_topic :: "externals \<Rightarrow> (nat \<Rightarrow> sns_app \<Rightarrow> sns_app) \<Rightarrow> form_params \<Rightarrow> int \<Rightarrow> sns_handler" where
  "do_create_topic E others params now =
     with_required params ''Name'' (\<lambda>name.
     act_bind (create_topic E others name (entry_map params ''Attributes'') (tag_map params ''Tags'') now) (\<lambda>arn.
     act_bind (sns_emit E ''create_topic'' (json_obj [(''topic_arn'', JStr arn)]) now) (\<lambda>_.
     act_return (respond ''CreateTopic'' (el ''TopicArn'' arn)))))"

definition do_list_topics :: "externals \<Rightarrow> form_params \<Rightarrow> sns_handler" where
  "do_list_topics E params =
     act_bind (sns_read list_topics) (\<lambda>topics.
     act_bind (act_result (decode_token E (map_of params ''NextToken''))) (\<lambda>after.
     case sns_page E topics t_arn after PAGE_SIZE of (items, token) \<Rightarrow>
       act_return (respond ''ListTopics''
         (''<Topics>'' @ concat (map (\<lambda>t. member_xml (el ''TopicArn'' (t_arn t))) items) @ ''</Topics>'' @ next_token_xml token))))"

definition do_delete_topic :: "externals \<Rightarrow> form_params \<Rightarrow> int \<Rightarrow> sns_handler" where
  "do_delete_topic E params now =
     with_required params ''TopicArn'' (\<lambda>arn.
     act_bind (sns_write (delete_topic arn)) (\<lambda>_.
     act_bind (sns_emit E ''delete_topic'' (json_obj [(''topic_arn'', JStr arn)]) now) (\<lambda>_.
     act_return (respond ''DeleteTopic'' []))))"

definition do_get_topic_attributes :: "externals \<Rightarrow> (nat \<Rightarrow> sns_app \<Rightarrow> sns_app) \<Rightarrow> form_params \<Rightarrow> sns_handler" where
  "do_get_topic_attributes E others params =
     with_required params ''TopicArn'' (\<lambda>arn.
     act_bind (topic_attributes E others arn) (\<lambda>attrs.
     act_return (respond ''GetTopicAttributes'' (attributes_xml attrs))))"

definition do_set_topic_attributes :: "externals \<Rightarrow> (nat \<Rightarrow> sns_app \<Rightarrow> sns_app) \<Rightarrow> form_params \<Rightarrow> int \<Rightarrow> sns_handler" where
  "do_set_topic_attributes E others params now =
     with_required params ''TopicArn'' (\<lambda>arn.
     with_required params ''AttributeName'' (\<lambda>name.
     act_bind (set_topic_attribute E others arn name (param_or_empty params ''AttributeValue'')) (\<lambda>_.
     act_bind (sns_emit E ''set_topic_attributes'' (json_obj [(''topic_arn'', JStr arn), (''attribute'', JStr name)]) now) (\<lambda>_.
     act_return (respond ''SetTopicAttributes'' [])))))"

definition do_subscribe :: "externals \<Rightarrow> (nat \<Rightarrow> sns_app \<Rightarrow> sns_app) \<Rightarrow> form_params \<Rightarrow> int \<Rightarrow> sns_handler" where
  "do_subscribe E others params now =
     with_required params ''TopicArn'' (\<lambda>arn.
     with_required params ''Protocol'' (\<lambda>protocol.
     let endpoint = param_or_empty params ''Endpoint'' in
     act_bind (subscribe E others arn protocol endpoint (entry_map params ''Attributes'') now) (\<lambda>sub.
     act_bind (sns_emit E ''subscribe'' (json_obj [(''topic_arn'', JStr arn), (''protocol'', JStr protocol),
       (''endpoint'', JStr endpoint), (''subscription_arn'', JStr sub)]) now) (\<lambda>_.
     act_return (respond ''Subscribe'' (el ''SubscriptionArn'' sub))))))"

definition do_unsubscribe :: "externals \<Rightarrow> form_params \<Rightarrow> int \<Rightarrow> sns_handler" where
  "do_unsubscribe E params now =
     with_required params ''SubscriptionArn'' (\<lambda>arn.
     act_bind (unsubscribe arn) (\<lambda>_.
     act_bind (sns_emit E ''unsubscribe'' (json_obj [(''subscription_arn'', JStr arn)]) now) (\<lambda>_.
     act_return (respond ''Unsubscribe'' []))))"

definition do_list_subscriptions :: "externals \<Rightarrow> (nat \<Rightarrow> sns_app \<Rightarrow> sns_app) \<Rightarrow> string \<Rightarrow> form_params \<Rightarrow> sns_handler" where
  "do_list_subscriptions E others action params =
     act_bind (if action = ''ListSubscriptionsByTopic'' then
                 with_required params ''TopicArn'' (\<lambda>arn.
                 act_bind (get_topic arn) (\<lambda>_.
                 act_bind (pause others 0) (\<lambda>_. act_return (Some arn))))
               else act_return None) (\<lambda>topic.
     act_bind (sns_read (list_subscriptions topic)) (\<lambda>subs.
     act_bind (act_result (decode_token E (map_of params ''NextToken''))) (\<lambda>after.
     case sns_page E subs s_arn after PAGE_SIZE of (items, token) \<Rightarrow>
       act_return (respond action
         (''<Subscriptions>'' @ concat (map subscription_member items) @ ''</Subscriptions>'' @ next_token_xml token)))))"

definition do_get_subscription_attributes :: "form_params \<Rightarrow> sns_handler" where
  "do_get_subscription_attributes params =
     with_required params ''SubscriptionArn'' (\<lambda>arn.
     act_bind (get_subscription arn) (\<lambda>b.
     act_return (respond ''GetSubscriptionAttributes'' (attributes_xml (subscription_attributes b)))))"

definition do_set_subscription_attributes :: "externals \<Rightarrow> (nat \<Rightarrow> sns_app \<Rightarrow> sns_app) \<Rightarrow> form_params \<Rightarrow> int \<Rightarrow> sns_handler" where
  "do_set_subscription_attributes E others params now =
     with_required params ''SubscriptionArn'' (\<lambda>arn.
     with_required params ''AttributeName'' (\<lambda>name.
     act_bind (set_subscription_attribute E others arn name (param_or_empty params ''AttributeValue'')) (\<lambda>_.
     act_bind (sns_emit E ''set_subscription_attributes''
       (json_obj [(''subscription_arn'', JStr arn), (''attribute'', JStr name)]) now) (\<lambda>_.
     act_return (respond ''SetSubscriptionAttributes'' [])))))"

type_synonym sns_env = "externals \<times> (string \<Rightarrow> parsed_mail option) \<times> string"

definition sequence_xml :: "publish_result \<Rightarrow> string" where
  "sequence_xml r = (case pu_sequence_number r of Some q \<Rightarrow> el ''SequenceNumber'' q | None \<Rightarrow> [])"

text \<open>
  The request of a single \<open>Publish\<close>: its fields are top-level parameters, its attributes the
  flattened ones.  A parameter named just \<open>MessageAttributes\<close> is read, and refused, by the first.
\<close>

definition single_publish_request :: "externals \<Rightarrow> form_params \<Rightarrow> (sns_error, publish_request) result" where
  "single_publish_request E params =
     (let topic = (case (case map_of params ''TopicArn'' of Some t \<Rightarrow> Some t | None \<Rightarrow> map_of params ''TargetArn'') of
                     Some t \<Rightarrow> if t = [] then None else Some t | None \<Rightarrow> None)
      in try_bind (publish_request_of E (json_obj (map (\<lambda>(k, v). (k, JStr v)) params)) topic) (\<lambda>req.
         try_bind (message_attributes E (json_items (query_to_json params ''MessageAttributes'')) []) (\<lambda>attrs.
         Inr (req\<lparr> pr_attributes := attrs, pr_phone_number := map_of params ''PhoneNumber'' \<rparr>))))"

definition do_publish :: "sns_env \<Rightarrow> (nat \<Rightarrow> sns_app \<Rightarrow> sns_app) \<Rightarrow> form_params \<Rightarrow> int \<Rightarrow> sns_handler" where
  "do_publish env others params now = (case env of (E, parse_mail, base) \<Rightarrow>
     act_bind (act_result (single_publish_request E params)) (\<lambda>req.
     act_bind (publish E parse_mail base others req now) (\<lambda>res.
     act_bind (sns_emit E ''publish'' (json_obj
       [(''topic_arn'', case pr_topic_arn req of Some t \<Rightarrow> JStr t | None \<Rightarrow> JNull), (''message_id'', JStr (pu_message_id res))]) now) (\<lambda>_.
     act_return (respond ''Publish'' (el ''MessageId'' (pu_message_id res) @ sequence_xml res))))))"

subsection \<open>Batches\<close>

definition batch_entry_id :: "json \<Rightarrow> string" where
  "batch_entry_id e = (case json_str ''Id'' e of Some i \<Rightarrow> i | None \<Rightarrow> [])"

fun check_batch_ids :: "json list \<Rightarrow> string set \<Rightarrow> sns_error option" where
  "check_batch_ids [] seen = None"
| "check_batch_ids (e # es) seen =
     (let i = batch_entry_id e in
      if \<not> sns_batch_id_ok i then
        Some (batch_error ''InvalidBatchEntryId''
          (''The Id of a batch entry in a batch request doesn'' @ [CHR 0x27] @ ''t abide by the specification''))
      else if i \<in> seen then
        Some (batch_error ''BatchEntryIdsNotDistinct'' ''Two or more batch entries in the request have the same Id'')
      else check_batch_ids es (insert i seen))"

definition batch_check :: "json list \<Rightarrow> (sns_error, unit) result" where
  "batch_check entries =
     (if entries = [] then
        Inl (batch_error ''EmptyBatchRequest'' (''The batch request doesn'' @ [CHR 0x27] @ ''t contain any entries''))
      else if 10 < length entries then
        Inl (batch_error ''TooManyEntriesInBatchRequest'' ''The batch request contains more entries than permissible'')
      else (case check_batch_ids entries {} of
              Some e \<Rightarrow> Inl e
            | None \<Rightarrow>
                if 262144 < sum_list (map (\<lambda>e. length (case json_str ''Message'' e of Some m \<Rightarrow> m | None \<Rightarrow> [])) entries)
                then Inl (batch_error ''BatchRequestTooLong''
                            ''The length of all the messages put together is more than the limit'')
                else Inr ()))"

definition publish_entry ::
    "sns_env \<Rightarrow> (nat \<Rightarrow> sns_app \<Rightarrow> sns_app) \<Rightarrow> string \<Rightarrow> json \<Rightarrow> int \<Rightarrow> publish_result sns_action" where
  "publish_entry env others arn e now = (case env of (E, parse_mail, base) \<Rightarrow>
     act_bind (act_result (publish_request_of E e (Some arn))) (\<lambda>req. publish E parse_mail base others req now))"

text \<open>The entries in turn; the answer of each is appended to the successful or the failed ones.\<close>

fun publish_batch_loop ::
    "sns_env \<Rightarrow> (nat \<Rightarrow> nat \<Rightarrow> sns_app \<Rightarrow> sns_app) \<Rightarrow> string \<Rightarrow> int \<Rightarrow> json list \<Rightarrow> nat \<Rightarrow> sns_app
      \<Rightarrow> ((string \<times> publish_result) list \<times> (string \<times> sns_error) list) \<times> sns_app" where
  "publish_batch_loop env others arn now [] i s = (([], []), s)"
| "publish_batch_loop env others arn now (e # es) i s =
     (case publish_entry env (others i) arn e now s of
        (r, s1) \<Rightarrow>
          (case publish_batch_loop env others arn now es (Suc i) s1 of
             ((oks, fails), s2) \<Rightarrow>
               (case r of
                  Inr p \<Rightarrow> (((batch_entry_id e, p) # oks, fails), s2)
                | Inl err \<Rightarrow> ((oks, (batch_entry_id e, err) # fails), s2))))"

definition ok_member :: "string \<times> publish_result \<Rightarrow> string" where
  "ok_member p = (case p of (i, r) \<Rightarrow> member_xml (el ''Id'' i @ el ''MessageId'' (pu_message_id r) @ sequence_xml r))"

definition failed_member :: "string \<times> sns_error \<Rightarrow> string" where
  "failed_member p = (case p of (i, e) \<Rightarrow>
     member_xml (el ''Id'' i @ el ''Code'' (se_code e) @ el ''Message'' (se_message e) @ ''<SenderFault>''
       @ (if se_status e < 500 then ''true'' else ''false'') @ ''</SenderFault>''))"

definition do_publish_batch ::
    "sns_env \<Rightarrow> (nat \<Rightarrow> nat \<Rightarrow> sns_app \<Rightarrow> sns_app) \<Rightarrow> form_params \<Rightarrow> int \<Rightarrow> sns_handler" where
  "do_publish_batch env others params now =
     with_required params ''TopicArn'' (\<lambda>arn.
     let entries = json_items (query_to_json params ''PublishBatchRequestEntries'') in
     act_bind (get_topic arn) (\<lambda>_.
     act_bind (act_result (batch_check entries)) (\<lambda>_.
     act_bind (pause (others 0) 0) (\<lambda>_.
     act_bind (\<lambda>s. case publish_batch_loop env others arn now entries 1 s of (r, s') \<Rightarrow> (Inr r, s')) (\<lambda>(oks, fails).
     act_bind (sns_emit (fst env) ''publish_batch''
       (json_obj [(''topic_arn'', JStr arn), (''count'', JInt (int (length entries)))]) now) (\<lambda>_.
     act_return (respond ''PublishBatch''
       (''<Successful>'' @ concat (map ok_member oks) @ ''</Successful><Failed>''
        @ concat (map failed_member fails) @ ''</Failed>''))))))))"

subsection \<open>Tags and dispatch\<close>

definition tagged_topic :: "string \<Rightarrow> sns_topic sns_action" where
  "tagged_topic arn = (\<lambda>s. (case find_topic arn s of Some t \<Rightarrow> Inr t | None \<Rightarrow> Inl resource_not_found, s))"

definition do_change_tags ::
    "externals \<Rightarrow> (nat \<Rightarrow> sns_app \<Rightarrow> sns_app) \<Rightarrow> string \<Rightarrow> string \<Rightarrow> (string btree \<Rightarrow> string btree) \<Rightarrow> form_params \<Rightarrow> int \<Rightarrow> sns_handler" where
  "do_change_tags E others action event change params now =
     with_required params ''ResourceArn'' (\<lambda>arn.
     act_bind (tagged_topic arn) (\<lambda>topic.
     act_bind (pause others 0) (\<lambda>_.
     act_bind (set_tags arn (change (t_tags topic))) (\<lambda>_.
     act_bind (sns_emit E event (json_obj [(''resource_arn'', JStr arn)]) now) (\<lambda>_.
     act_return (respond action []))))))"

definition do_list_tags :: "form_params \<Rightarrow> sns_handler" where
  "do_list_tags params =
     with_required params ''ResourceArn'' (\<lambda>arn.
     act_bind (tagged_topic arn) (\<lambda>topic.
     act_return (respond ''ListTagsForResource''
       (''<Tags>'' @ concat (map (\<lambda>(k, v). member_xml (el ''Key'' k @ el ''Value'' v)) (t_tags topic)) @ ''</Tags>''))))"

definition sns_dispatch ::
    "sns_env \<Rightarrow> (nat \<Rightarrow> nat \<Rightarrow> sns_app \<Rightarrow> sns_app) \<Rightarrow> string \<Rightarrow> form_params \<Rightarrow> int \<Rightarrow> sns_handler" where
  "sns_dispatch env others action params now =
     (let E = fst env; oth = others 0 in
      if action = ''CreateTopic'' then do_create_topic E oth params now
      else if action = ''ListTopics'' then do_list_topics E params
      else if action = ''DeleteTopic'' then do_delete_topic E params now
      else if action = ''GetTopicAttributes'' then do_get_topic_attributes E oth params
      else if action = ''SetTopicAttributes'' then do_set_topic_attributes E oth params now
      else if action = ''Subscribe'' then do_subscribe E oth params now
      else if action = ''Unsubscribe'' then do_unsubscribe E params now
      else if action = ''ListSubscriptions'' \<or> action = ''ListSubscriptionsByTopic'' then
        do_list_subscriptions E oth action params
      else if action = ''GetSubscriptionAttributes'' then do_get_subscription_attributes params
      else if action = ''SetSubscriptionAttributes'' then do_set_subscription_attributes E oth params now
      else if action = ''Publish'' then do_publish env oth params now
      else if action = ''PublishBatch'' then do_publish_batch env others params now
      else if action = ''TagResource'' then
        do_change_tags E oth action ''tag_resource'' (\<lambda>t. bt_extend t (tag_map params ''Tags'')) params now
      else if action = ''UntagResource'' then
        do_change_tags E oth action ''untag_resource''
          (fold bt_remove (List.map_filter as_str (json_items (query_to_json params ''TagKeys'')))) params now
      else if action = ''ListTagsForResource'' then do_list_tags params
      else act_result (Inl (sns_invalid (''Unknown SNS action: '' @ action))))"

definition handle_query ::
    "sns_env \<Rightarrow> (nat \<Rightarrow> nat \<Rightarrow> sns_app \<Rightarrow> sns_app) \<Rightarrow> string \<Rightarrow> form_params \<Rightarrow> int \<Rightarrow> sns_app \<Rightarrow> http_response \<times> sns_app" where
  "handle_query env others action params now s =
     (case sns_dispatch env others action params now s of
        (Inr r, s') \<Rightarrow> (r, s')
      | (Inl e, s') \<Rightarrow> (xml_error_response (se_status e) (se_code e) (se_message e), s'))"

end
