(* ===== verification/Sns_Invariant.thy ===== *)
theory Sns_Invariant
  imports Sns_Handlers Sqs_Receive
begin

text \<open>
  SNS, part 6: the invariant of the tables and that every request keeps it, whatever other requests
  run between its calls of the database.

  The invariant types what is stored: names, protocols, endpoints and attributes are the ones the
  checks accept, attributes in the form the checks normalize them to, and the FIFO flag of a topic
  agrees with its name.  The queues that SNS delivers to keep the invariant of SQS.
\<close>

subsection \<open>The invariant\<close>

definition topic_ok :: "externals \<Rightarrow> sns_topic \<Rightarrow> string \<Rightarrow> bool" where
  "topic_ok E t name \<longleftrightarrow>
     t_arn t = topic_arn name \<and> valid_topic_name name
     \<and> bt_ok (t_attributes t) \<and> list_all (\<lambda>(k, v). validate_topic_attr E k v = Inr v) (t_attributes t)
     \<and> bt_ok (t_tags t) \<and> length (t_tags t) \<le> 50
     \<and> (topic_is_fifo t \<longleftrightarrow> ends_with name ''.fifo'')"

definition subscription_ok :: "externals \<Rightarrow> sns_subscription \<Rightarrow> bool" where
  "subscription_ok E b \<longleftrightarrow>
     starts_with (s_arn b) (s_topic_arn b @ '':'') \<and> s_protocol b \<in> set PROTOCOLS
     \<and> endpoint_ok (s_protocol b) (s_endpoint b) \<and> bt_ok (s_attributes b)
     \<and> list_all (\<lambda>(k, v). v \<noteq> [] \<and> validate_subscription_attr E k v = Inr v) (s_attributes b)"

definition sns_ok :: "externals \<Rightarrow> sns_app \<Rightarrow> bool" where
  "sns_ok E s \<longleftrightarrow>
     distinct (map tr_name (sns_topics s)) \<and> list_all (\<lambda>r. topic_ok E (tr_topic r) (tr_name r)) (sns_topics s)
     \<and> distinct (map (s_arn \<circ> sr_sub) (sns_subscriptions s))
     \<and> list_all (subscription_ok E \<circ> sr_sub) (sns_subscriptions s)
     \<and> sqs_ok E (sns_queues s)"

lemma topic_arn_inject [simp]: "topic_arn a = topic_arn b \<longleftrightarrow> a = b"
  by (simp add: topic_arn_def)

subsection \<open>Attributes\<close>

lemma bool_texts: "ascii_lowercase ''true'' = ''true''" "ascii_lowercase ''false'' = ''false''"
  by (simp_all add: ascii_lowercase_def to_lower_def is_upper_def)

lemma normalize_bool_idem: "normalize_bool name v = Inr w \<Longrightarrow> normalize_bool name w = Inr w \<and> w \<in> {''true'', ''false''}"
  by (auto simp: normalize_bool_def Let_def bool_texts split: if_splits)

lemma require_json_id: "require_json E name v = Inr w \<Longrightarrow> w = v"
  by (auto simp: require_json_def split: if_splits)

lemma if_Inr_cases:
  "(if c then Inl e else x) = Inr w \<Longrightarrow> (x = Inr w \<Longrightarrow> Q) \<Longrightarrow> Q"
  "(if c then x else y) = Inr w \<Longrightarrow> (x = Inr w \<Longrightarrow> Q) \<Longrightarrow> (y = Inr w \<Longrightarrow> Q) \<Longrightarrow> Q"
  by (auto split: if_splits)

lemma validate_topic_attr_other:
  assumes "k \<notin> {''FifoTopic'', ''ContentBasedDeduplication''}" "validate_topic_attr E k v = Inr w"
  shows "w = v"
  using assms(2) unfolding validate_topic_attr_def Let_def if_not_P[OF assms(1)]
  by (elim if_Inr_cases) (simp_all add: require_json_id)

lemma validate_topic_attr_bool:
  assumes "k \<in> {''FifoTopic'', ''ContentBasedDeduplication''}"
  shows "validate_topic_attr E k v = normalize_bool k v"
  using assms by (auto simp: validate_topic_attr_def Let_def TOPIC_ATTRS_def)

lemma validate_topic_attr_idem:
  assumes "validate_topic_attr E k v = Inr w"
  shows "validate_topic_attr E k w = Inr w"
proof (cases "k \<in> {''FifoTopic'', ''ContentBasedDeduplication''}")
  case True
  with assms normalize_bool_idem show ?thesis unfolding validate_topic_attr_bool[OF True] by blast
next
  case False
  with assms validate_topic_attr_other[OF False assms] show ?thesis by simp
qed

lemma validate_subscription_attr_other:
  assumes "k \<noteq> ''RawMessageDelivery''" "validate_subscription_attr E k v = Inr w"
  shows "w = v"
  using assms(2) unfolding validate_subscription_attr_def if_not_P[OF assms(1)]
  by (elim if_Inr_cases) (simp_all add: require_json_id split: sum.splits)

lemma validate_subscription_attr_idem:
  assumes "validate_subscription_attr E k v = Inr w"
  shows "validate_subscription_attr E k w = Inr w"
proof (cases "k = ''RawMessageDelivery''")
  case True
  have "validate_subscription_attr E k x = normalize_bool k x" for x
    using True by (simp add: validate_subscription_attr_def SUBSCRIPTION_ATTRS_def)
  with assms normalize_bool_idem show ?thesis by metis
next
  case False
  with assms validate_subscription_attr_other[OF False assms] show ?thesis by simp
qed

lemma fifo_attr_values: "validate_topic_attr E ''FifoTopic'' v = Inr w \<Longrightarrow> w \<in> {''true'', ''false''}"
  using normalize_bool_idem[of "''FifoTopic''" v w] validate_topic_attr_bool[of "''FifoTopic''" E v] by simp

lemma topic_is_fifo_iff:
  assumes "list_all (\<lambda>(k, v). validate_topic_attr E k v = Inr v) (t_attributes t)"
  shows "topic_is_fifo t \<longleftrightarrow> map_of (t_attributes t) ''FifoTopic'' = Some ''true''"
proof (cases "map_of (t_attributes t) ''FifoTopic''")
  case (Some v)
  with assms have "validate_topic_attr E ''FifoTopic'' v = Inr v" by (auto simp: list_all_iff dest: map_of_SomeD)
  from fifo_attr_values[OF this] Some show ?thesis
    by (auto simp: topic_is_fifo_def eq_ignore_ascii_case_def ascii_lowercase_def to_lower_def is_upper_def)
qed (simp add: topic_is_fifo_def)

lemma validate_each_ok:
  assumes "validate_each check keep kvs out = Inr attrs" "bt_ok out" "list_all P out"
    and "\<And>k v w. check k v = Inr w \<Longrightarrow> keep w \<Longrightarrow> P (k, w)"
  shows "bt_ok attrs \<and> list_all P attrs"
  using assms
proof (induction check keep kvs out rule: validate_each.induct)
  case (2 check keep k v rest out)
  then obtain w where w: "check k v = Inr w"
    "validate_each check keep rest (if keep w then bt_insert k w out else out) = Inr attrs"
    by (auto simp: try_bind_Inr_iff)
  show ?case
    using 2(1)[OF w(2)] 2(3-5) w(1) list_all_bt_insert[of P k w out] by (cases "keep w") auto
qed simp

lemma put_attr_ok:
  assumes "bt_ok attrs" "list_all P attrs" "v \<noteq> [] \<Longrightarrow> P (k, v)"
  shows "bt_ok (put_attr k v attrs) \<and> list_all P (put_attr k v attrs)"
  using assms list_all_bt_insert[of P k v attrs]
  by (auto simp: put_attr_def bt_remove_def bt_ok_filter) (auto simp: list_all_iff)

subsection \<open>Queues\<close>

lemma sqs_ok_draw: "sqs_ok E db \<Longrightarrow> sqs_ok E (db\<lparr> uuid_ctr := Suc (uuid_ctr db) \<rparr>)"
  using queues_ok_cong[of db "db\<lparr> uuid_ctr := Suc (uuid_ctr db) \<rparr>"]
    messages_ok_cong[of E db "db\<lparr> uuid_ctr := Suc (uuid_ctr db) \<rparr>"]
    dedup_ok_cong[of db "db\<lparr> uuid_ctr := Suc (uuid_ctr db) \<rparr>"]
  by (simp add: sqs_ok_def)

lemma send_call_ok:
  assumes "sqs_env E" "sqs_ok E db" "send E queue input now db = (res, db')"
  shows "sqs_ok E db'"
proof (cases "get_queue E queue db")
  case (Inl e)
  with assms show ?thesis by (simp add: send_def with_queue_def)
next
  case (Inr q)
  with assms have "send_tx E q input now db = (res, db')" "snapshot_ok q db"
    by (auto simp: send_def with_queue_def sqs_ok_def dest: get_queue_snapshot)
  then show ?thesis using send_ok[OF assms(1,2)] by blast
qed

lemma send_with_ok:
  assumes "sqs_env E" "sqs_ok E db"
  shows "sqs_ok E (snd (send_with E queue body attrs g d now db))"
  using sqs_ok_draw[OF assms(2)] assms
  by (auto simp: send_with_def Let_def split: sum.splits option.splits prod.splits dest: send_call_ok)

subsection \<open>Steps\<close>

text \<open>Steps that do not touch what the invariant speaks of.\<close>

lemma sns_ok_cong:
  assumes "sns_ok E s" "sns_topics t = sns_topics s" "sns_subscriptions t = sns_subscriptions s"
    and "sqs_ok E (sns_queues t)"
  shows "sns_ok E t"
  using assms by (simp add: sns_ok_def)

lemma draw_keeps: "act_keeps (sns_ok E) (draw_uuid F)"
  by (rule act_keepsI) (auto simp: draw_uuid_def sns_ok_def intro: sqs_ok_draw)

lemma read_keeps: "act_keeps P (sns_read f)"
  by (rule act_keepsI) (simp add: sns_read_def)

lemma write_keeps: "(\<And>s. P s \<Longrightarrow> P (f s)) \<Longrightarrow> act_keeps P (sns_write f)"
  by (rule act_keepsI) (auto simp: sns_write_def)

lemma pause_keeps: "(\<And>i s. P s \<Longrightarrow> P (others i s)) \<Longrightarrow> act_keeps P (pause others i)"
  by (rule act_keepsI) (auto simp: pause_def)

lemma record_keeps: "act_keeps (sns_ok E) (record_message F mid arn subj body attrs n now)"
  unfolding record_message_def by (rule write_keeps) (rule sns_ok_cong, auto simp: sns_ok_def)

lemma sns_emit_keeps: "act_keeps (sns_ok E) (sns_emit F action payload now)"
  unfolding sns_emit_def by (rule write_keeps) (rule sns_ok_cong, auto simp: sns_ok_def)

lemma topics_ok_update:
  assumes "sns_ok E s" "\<And>r. r \<in> set (sns_topics s) \<Longrightarrow> P r \<Longrightarrow> tr_name (f r) = tr_name r \<and> topic_ok E (tr_topic (f r)) (tr_name r)"
  shows "sns_ok E (s\<lparr> sns_topics := sql_update P f (sns_topics s) \<rparr>)"
proof -
  have "map tr_name (sql_update P f (sns_topics s)) = map tr_name (sns_topics s)"
    using assms(2) by (auto simp: sql_update_def)
  moreover have "list_all (\<lambda>r. topic_ok E (tr_topic r) (tr_name r)) (sql_update P f (sns_topics s))"
    using assms by (auto simp: sns_ok_def list_all_iff set_sql_update)
  ultimately show ?thesis using assms(1) by (simp add: sns_ok_def)
qed

lemma topic_at:
  assumes "sns_ok E s" "r \<in> set (sns_topics s)"
  shows "topic_ok E (tr_topic r) (tr_name r)"
  using assms by (auto simp: sns_ok_def list_all_iff)

lemma update_topic_keeps:
  assumes "sns_ok E s"
    and "\<And>t. topic_ok E t name \<Longrightarrow> topic_ok E (f t) name"
  shows "sns_ok E (update_topic (topic_arn name) f s)"
  unfolding update_topic_def
proof (rule topics_ok_update[OF assms(1)])
  fix r assume r: "r \<in> set (sns_topics s)" "t_arn (tr_topic r) = topic_arn name"
  from topic_at[OF assms(1) r(1)] r(2) have "tr_name r = name" by (simp add: topic_ok_def)
  with topic_at[OF assms(1) r(1)] assms(2)
  show "tr_name (r\<lparr>tr_topic := f (tr_topic r)\<rparr>) = tr_name r \<and> topic_ok E (tr_topic (r\<lparr>tr_topic := f (tr_topic r)\<rparr>)) (tr_name r)"
    by simp
qed

text \<open>A topic read from the table, also when the table has changed since.\<close>

definition read_topic :: "externals \<Rightarrow> string \<Rightarrow> sns_topic \<Rightarrow> bool" where
  "read_topic E arn t \<longleftrightarrow> (\<exists>name. arn = topic_arn name \<and> topic_ok E t name)"

lemma find_topic_read: "sns_ok E s \<Longrightarrow> find_topic arn s = Some t \<Longrightarrow> read_topic E arn t"
  by (auto simp: find_topic_def read_topic_def topic_ok_def dest!: find_Some_set topic_at)

lemma get_topic_post: "act_post (sns_ok E) (get_topic arn) (read_topic E arn)"
  by (auto simp: act_post_def get_topic_def split: option.splits dest: find_topic_read)

lemma tagged_topic_post: "act_post (sns_ok E) (tagged_topic arn) (read_topic E arn)"
  by (auto simp: act_post_def tagged_topic_def split: option.splits dest: find_topic_read)

subsection \<open>Operations on topics\<close>

lemma create_check_ok:
  assumes "create_topic_check E name attributes tags = Inr attrs" "bt_ok tags"
  shows "topic_ok E \<lparr> t_arn = topic_arn name, t_attributes = attrs, t_tags = tags \<rparr> name"
proof -
  from assms(1) have name: "valid_topic_name name" and len: "length tags \<le> 50"
    and v: "validate_each (validate_topic_attr E) (\<lambda>_. True) attributes [] = Inr attrs"
    and fifo: "(map_of attrs ''FifoTopic'' = Some ''true'') = ends_with name ''.fifo''"
    by (auto simp: create_topic_check_def try_bind_Inr_iff split: if_splits)
  have "bt_ok attrs \<and> list_all (\<lambda>(k, v). validate_topic_attr E k v = Inr v) attrs"
    using v by (rule validate_each_ok) (simp_all add: validate_topic_attr_idem)
  with name len fifo assms(2) show ?thesis
    using topic_is_fifo_iff[of E "\<lparr> t_arn = topic_arn name, t_attributes = attrs, t_tags = tags \<rparr>"]
    by (simp add: topic_ok_def)
qed

lemma insert_topic_keeps:
  assumes "sns_ok E s" "topic_ok E \<lparr> t_arn = topic_arn name, t_attributes = attrs, t_tags = tags \<rparr> name"
  shows "sns_ok E (insert_topic F name attrs tags now s)"
  using assms by (auto simp: insert_topic_def sns_ok_def)

lemmas sns_intros = keeps_if keeps_prod keeps_option act_keeps_bind act_keeps_result act_keeps_return
  read_keeps sns_emit_keeps draw_keeps record_keeps

subsection \<open>Deliveries\<close>

lemma send_to_keeps: "sqs_env E \<Longrightarrow> act_keeps (sns_ok E) (send_to E queue body attrs out now)"
proof (rule act_keepsI)
  fix s r s' assume env: "sqs_env E" and ok: "sns_ok E s" and run: "send_to E queue body attrs out now s = (r, s')"
  from ok have "sqs_ok E (snd (send_with E queue body attrs (o_group_id out) (o_dedup_id out) now (sns_queues s)))"
    by (intro send_with_ok[OF env]) (simp add: sns_ok_def)
  with ok run show "sns_ok E s'" by (auto simp: send_to_def sns_ok_def split: prod.splits sum.splits)
qed

lemma deliver_sqs_keeps:
  assumes "sqs_env E"
  shows "act_keeps (sns_ok E) (deliver_sqs E base b out now)"
proof (rule act_keepsI)
  fix s r s' assume ok: "sns_ok E s" and run: "deliver_sqs E base b out now s = (r, s')"
  note sent = act_keepsD[OF send_to_keeps[OF assms]]
  show "sns_ok E s'"
    using run unfolding deliver_sqs_def Let_def
    by (auto split: prod.splits sum.splits option.splits dest: sent sent[OF ok])
qed

lemma deliver_keeps:
  assumes "sqs_env E"
  shows "act_keeps (sns_ok E) (deliver E parse_mail base b out now)"
proof -
  have post: "act_keeps (sns_ok E) (sns_write (\<lambda>s. s\<lparr> sns_posts := sns_posts s @ ps \<rparr>))" for ps
    by (rule write_keeps) (rule sns_ok_cong, auto simp: sns_ok_def)
  have mail: "act_keeps (sns_ok E) (\<lambda>s. case capture_raw E parse_mail mid raw src now (sns_mail s) of
      (Inl e, _) \<Rightarrow> (Inl e, s) | (Inr _, db) \<Rightarrow> (Inr (), s\<lparr> sns_mail := db, sns_events := f (sns_events s) \<rparr>))" for mid raw src f
    by (rule act_keepsI) (auto simp: sns_ok_def split: prod.splits sum.splits)
  show ?thesis
    unfolding deliver_def deliver_email_def Let_def
    by (intro sns_intros deliver_sqs_keeps[OF assms] post mail)
qed

lemma next_sequence_keeps: "act_keeps (sns_ok E) (next_sequence arn)"
proof (rule act_keepsI)
  fix s r s' assume ok: "sns_ok E s" and run: "next_sequence arn s = (r, s')"
  from topics_ok_update[OF ok, of "\<lambda>r. t_arn (tr_topic r) = arn" "\<lambda>r. r\<lparr> tr_fifo_seq := tr_fifo_seq r + 1 \<rparr>"] run
  show "sns_ok E s'" using topic_at[OF ok] by (auto simp: next_sequence_def Let_def)
qed

lemma set_tags_keeps:
  assumes "read_topic E arn t" "bt_ok tags"
  shows "act_keeps (sns_ok E) (set_tags arn tags)"
proof -
  from assms(1) obtain name where arn: "arn = topic_arn name" by (auto simp: read_topic_def)
  have "act_keeps (sns_ok E) (sns_write (update_topic arn (\<lambda>t. t\<lparr> t_tags := tags \<rparr>)))" if "length tags \<le> 50"
    using that assms(2) unfolding arn by (intro write_keeps update_topic_keeps) (simp_all add: topic_ok_def topic_is_fifo_def)
  then show ?thesis unfolding set_tags_def by (cases "50 < length tags") simp_all
qed

subsection \<open>Operations on subscriptions\<close>

lemma insert_subscription_keeps: "subscription_ok E b \<Longrightarrow> act_keeps (sns_ok E) (insert_subscription F b now)"
  by (rule act_keepsI) (auto simp: insert_subscription_def sns_ok_def split: if_splits)

lemma subscribe_check_ok:
  assumes "subscribe_check E protocol endpoint attributes = Inr attrs"
  shows "subscription_ok E \<lparr> s_arn = arn @ '':'' @ u, s_topic_arn = arn, s_protocol = protocol,
           s_endpoint = endpoint, s_attributes = attrs \<rparr>"
proof -
  from assms have p: "protocol \<in> set PROTOCOLS" "endpoint_ok protocol endpoint"
    and v: "validate_each (validate_subscription_attr E) (\<lambda>v. v \<noteq> []) attributes [] = Inr attrs"
    by (auto simp: subscribe_check_def simp del: set_simps split: if_splits)
  have "bt_ok attrs \<and> list_all (\<lambda>(k, v). v \<noteq> [] \<and> validate_subscription_attr E k v = Inr v) attrs"
    using v by (rule validate_each_ok) (simp_all add: validate_subscription_attr_idem)
  with p show ?thesis by (simp add: subscription_ok_def starts_with_iff)
qed

lemma delete_keeps:
  "sns_ok E s \<Longrightarrow> sns_ok E (s\<lparr> sns_subscriptions := sql_delete P (sns_subscriptions s) \<rparr>)"
  "sns_ok E s \<Longrightarrow> sns_ok E (s\<lparr> sns_topics := sql_delete R (sns_topics s) \<rparr>)"
  by (auto simp: sns_ok_def list_all_iff simp flip: set_map)

lemma delete_topic_keeps: "sns_ok E s \<Longrightarrow> sns_ok E (delete_topic arn s)"
  using delete_keeps(1)[THEN delete_keeps(2)] by (simp add: delete_topic_def)

lemma unsubscribe_keeps: "act_keeps (sns_ok E) (unsubscribe arn)"
  unfolding unsubscribe_def by (intro sns_intros write_keeps delete_keeps)

lemma get_subscription_post: "act_post (sns_ok E) (get_subscription arn) (\<lambda>b. subscription_ok E b \<and> s_arn b = arn)"
  by (auto simp: act_post_def get_subscription_def find_subscription_def sns_ok_def list_all_iff
      split: option.splits dest!: find_Some_set)

lemma update_subscription_keeps:
  assumes "sns_ok E s" "\<And>b. subscription_ok E b \<Longrightarrow> subscription_ok E (f b) \<and> s_arn (f b) = s_arn b"
  shows "sns_ok E (update_subscription arn f s)"
proof -
  have "map (s_arn \<circ> sr_sub) (sql_update P (\<lambda>r. r\<lparr> sr_sub := f (sr_sub r) \<rparr>) (sns_subscriptions s))
      = map (s_arn \<circ> sr_sub) (sns_subscriptions s)" for P
    using assms by (auto simp: sql_update_def sns_ok_def list_all_iff)
  moreover have "list_all (subscription_ok E \<circ> sr_sub) (sql_update P (\<lambda>r. r\<lparr> sr_sub := f (sr_sub r) \<rparr>) (sns_subscriptions s))" for P
    using assms by (auto simp: sql_update_def sns_ok_def list_all_iff)
  ultimately show ?thesis using assms(1) by (simp add: update_subscription_def sns_ok_def)
qed

subsection \<open>Requests among other requests\<close>

text \<open>
  The contract of the requests that run between the database calls of a request: they keep the
  invariant.  \<open>others i j\<close> is what happens at the j-th point of the i-th part of a request.
\<close>

locale sns_interleaving =
  fixes E :: externals
    and others :: "nat \<Rightarrow> nat \<Rightarrow> sns_app \<Rightarrow> sns_app"
  assumes others_ok: "sqs_env E \<Longrightarrow> sns_ok E s \<Longrightarrow> sns_ok E (others i j s)"
begin

lemma pauses: "sqs_env E \<Longrightarrow> act_keeps (sns_ok E) (pause (others i) j)"
  by (rule pause_keeps) (rule others_ok)

lemma create_topic_keeps:
  assumes "sqs_env E" "bt_ok tags"
  shows "act_keeps (sns_ok E) (create_topic E (others i) name attributes tags now)"
proof -
  have post: "act_post (sns_ok E) (act_result (create_topic_check E name attributes tags))
      (\<lambda>attrs. topic_ok E \<lparr> t_arn = topic_arn name, t_attributes = attrs, t_tags = tags \<rparr> name)"
    by (rule act_post_result) (rule create_check_ok[OF _ assms(2)])
  show ?thesis
    unfolding create_topic_def
    by (rule act_keeps_bind_post[OF post]) (intro sns_intros pauses[OF assms(1)] write_keeps insert_topic_keeps)
qed

lemma set_topic_attribute_keeps:
  assumes "sqs_env E"
  shows "act_keeps (sns_ok E) (set_topic_attribute E (others i) arn name v)"
  unfolding set_topic_attribute_def
proof (rule act_keeps_bind_post[OF get_topic_post])
  fix topic assume "read_topic E arn topic"
  then obtain n where arn: "arn = topic_arn n" and t: "topic_ok E topic n" by (auto simp: read_topic_def)
  have post: "act_post (sns_ok E) (act_result (validate_topic_attr E name v)) (\<lambda>w. validate_topic_attr E name w = Inr w)"
    by (rule act_post_result) (rule validate_topic_attr_idem)
  have new: "sns_ok E (update_topic arn (\<lambda>t. t\<lparr> t_attributes := put_attr name w (t_attributes topic) \<rparr>) s)"
    if w: "validate_topic_attr E name w = Inr w" "\<not> (name = ''FifoTopic'' \<and> (w = ''true'') \<noteq> topic_is_fifo topic)"
      and ok: "sns_ok E s" for w s
    unfolding arn
  proof (rule update_topic_keeps[OF ok])
    fix t' assume t': "topic_ok E t' n"
    let ?new = "t'\<lparr> t_attributes := put_attr name w (t_attributes topic) \<rparr>"
    have attrs: "bt_ok (t_attributes ?new) \<and> list_all (\<lambda>(k, v). validate_topic_attr E k v = Inr v) (t_attributes ?new)"
      using t w(1) put_attr_ok[of "t_attributes topic" "\<lambda>(k, v). validate_topic_attr E k v = Inr v" w name]
      by (simp add: topic_ok_def)
    have "topic_is_fifo ?new = topic_is_fifo topic"
    proof (cases "name = ''FifoTopic''")
      case True
      with fifo_attr_values w(1) have "w \<in> {''true'', ''false''}" by blast
      then have "w \<noteq> []" by auto
      with True w(2) topic_is_fifo_iff[of E ?new] attrs show ?thesis by (simp add: put_attr_def)
    next
      case False
      then show ?thesis by (simp add: topic_is_fifo_def put_attr_def)
    qed
    with t t' attrs show "topic_ok E ?new n" by (simp add: topic_ok_def)
  qed
  show "act_keeps (sns_ok E) (act_bind (act_result (validate_topic_attr E name v)) (\<lambda>w.
     if name = ''FifoTopic'' \<and> (w = ''true'') \<noteq> topic_is_fifo topic then
       act_result (Inl (sns_invalid ''Invalid parameter: AttributeName: FifoTopic cannot be changed''))
     else act_bind (pause (others i) 0) (\<lambda>_.
       sns_write (update_topic arn (\<lambda>t. t\<lparr> t_attributes := put_attr name w (t_attributes topic) \<rparr>)))))"
  proof (rule act_keeps_bind_post[OF post])
    fix w assume w: "validate_topic_attr E name w = Inr w"
    have go: "act_keeps (sns_ok E) (act_bind (pause (others i) 0) (\<lambda>_.
       sns_write (update_topic arn (\<lambda>t. t\<lparr> t_attributes := put_attr name w (t_attributes topic) \<rparr>))))"
      if "\<not> (name = ''FifoTopic'' \<and> (w = ''true'') \<noteq> topic_is_fifo topic)"
      using new[OF w that] by (intro act_keeps_bind pauses[OF assms] write_keeps)
    show "act_keeps (sns_ok E) (if name = ''FifoTopic'' \<and> (w = ''true'') \<noteq> topic_is_fifo topic then
       act_result (Inl (sns_invalid ''Invalid parameter: AttributeName: FifoTopic cannot be changed''))
     else act_bind (pause (others i) 0) (\<lambda>_.
       sns_write (update_topic arn (\<lambda>t. t\<lparr> t_attributes := put_attr name w (t_attributes topic) \<rparr>))))"
      by (cases "name = ''FifoTopic'' \<and> (w = ''true'') \<noteq> topic_is_fifo topic") (simp_all only: if_True if_False act_keeps_result go simp_thms)
  qed
qed

lemma subscribe_keeps:
  assumes "sqs_env E"
  shows "act_keeps (sns_ok E) (subscribe E (others i) arn protocol endpoint attributes now)"
proof -
  have post: "act_post (sns_ok E) (act_result (subscribe_check E protocol endpoint attributes))
      (\<lambda>attrs. \<forall>u. subscription_ok E \<lparr> s_arn = arn @ '':'' @ u, s_topic_arn = arn, s_protocol = protocol,
           s_endpoint = endpoint, s_attributes = attrs \<rparr>)"
    by (rule act_post_result) (rule allI, rule subscribe_check_ok)
  show ?thesis
    unfolding subscribe_def
    by (rule act_keeps_bind_post[OF get_topic_post], rule act_keeps_bind_post[OF post])
       (intro sns_intros pauses[OF assms] insert_subscription_keeps, blast)
qed

lemma set_subscription_attribute_keeps:
  assumes "sqs_env E"
  shows "act_keeps (sns_ok E) (set_subscription_attribute E (others i) arn name v)"
  unfolding set_subscription_attribute_def
proof (rule act_keeps_bind_post[OF get_subscription_post], rule act_keeps_bind_post)
  fix b assume b: "subscription_ok E b \<and> s_arn b = arn"
  show "act_post (sns_ok E) (act_result (validate_subscription_attr E name v)) (\<lambda>w. validate_subscription_attr E name w = Inr w)"
    by (rule act_post_result) (rule validate_subscription_attr_idem)
  fix w assume w: "validate_subscription_attr E name w = Inr w"
  from b w have "bt_ok (put_attr name w (s_attributes b)) \<and> list_all (\<lambda>(k, v). v \<noteq> [] \<and> validate_subscription_attr E k v = Inr v)
      (put_attr name w (s_attributes b))"
    by (intro put_attr_ok) (auto simp: subscription_ok_def)
  then show "act_keeps (sns_ok E) (act_bind (pause (others i) 0) (\<lambda>_. sns_write (update_subscription arn
      (\<lambda>t. t\<lparr> s_attributes := put_attr name w (s_attributes b) \<rparr>))))"
    by (intro act_keeps_bind pauses[OF assms] write_keeps update_subscription_keeps) (auto simp: subscription_ok_def)
qed

lemma fan_out_loop_keeps:
  "sqs_env E \<Longrightarrow> sns_ok E s \<Longrightarrow> sns_ok E (snd (fan_out_loop E parse_mail base (others i) out now bs j s))"
proof (induction bs arbitrary: j s)
  case (Cons b bs)
  obtain r s1 where d: "deliver E parse_mail base b out now (others i j s) = (r, s1)" by (cases "deliver E parse_mail base b out now (others i j s)")
  have "sns_ok E s1" using act_keepsD[OF deliver_keeps[OF Cons.prems(1)] others_ok[OF Cons.prems] d] .
  then have "sns_ok E (s1\<lparr> sns_events := evs \<rparr>)" for evs by (rule sns_ok_cong) (use \<open>sns_ok E s1\<close> in \<open>auto simp: sns_ok_def\<close>)
  then show ?case
    using Cons.IH[OF Cons.prems(1)] Cons.IH[OF Cons.prems] d
    by (auto simp: Let_def sns_emit_def sns_write_def split: prod.splits) (metis snd_conv)+
qed simp

lemma publish_keeps:
  assumes "sqs_env E"
  shows "act_keeps (sns_ok E) (publish E parse_mail base (others i) req now)"
proof -
  have fan: "act_keeps (sns_ok E) (fan_out E parse_mail base (others i) arn out now)" for arn out
    unfolding fan_out_def
    by (intro act_keeps_bind read_keeps act_keepsI)
       (use fan_out_loop_keeps[OF assms] in \<open>auto split: prod.splits, metis snd_conv\<close>)
  have fifo: "act_keeps (sns_ok E) (fifo_fields E (others i) req topic)" for topic
    unfolding fifo_fields_def by (intro sns_intros pauses[OF assms] next_sequence_keeps)
  have get: "act_keeps (sns_ok E) (get_topic arn)" for arn
    by (simp add: act_keeps_def get_topic_def)
  show ?thesis
    unfolding publish_def publish_to_def stored_only_def Let_def
    by (intro sns_intros pauses[OF assms] fan fifo get)
qed

end

lemma with_required_keeps:
  "(\<And>x. act_keeps P (k x)) \<Longrightarrow> act_keeps P (with_required params key k)"
  unfolding with_required_def by (intro act_keeps_bind act_keeps_result)

lemma post_keeps: "act_post P m Q \<Longrightarrow> act_keeps P m"
  by (simp add: act_post_def act_keeps_def)

lemmas reads_keep = get_topic_post[THEN post_keeps] tagged_topic_post[THEN post_keeps] get_subscription_post[THEN post_keeps]

lemma pair_map_ok [simp]: "bt_ok (pair_map kf vf items)"
  by (simp add: pair_map_def)

context sns_interleaving
begin

lemma publish_batch_loop_keeps:
  assumes "sqs_env E"
  shows "sns_ok E s \<Longrightarrow> sns_ok E (snd (publish_batch_loop (E, parse_mail, base) others arn now es i s))"
proof (induction es arbitrary: i s)
  case (Cons e es)
  have entry: "act_keeps (sns_ok E) (publish_entry (E, parse_mail, base) (others i) arn e now)"
    by (simp add: publish_entry_def) (intro sns_intros publish_keeps[OF assms])
  obtain r s1 where run: "publish_entry (E, parse_mail, base) (others i) arn e now s = (r, s1)" by fastforce
  have "sns_ok E s1" by (rule act_keepsD[OF entry Cons.prems run])
  from Cons.IH[OF this, of "Suc i"] run show ?case by (auto split: prod.splits sum.splits)
qed simp

lemma change_tags_keeps:
  assumes "sqs_env E" "\<And>t. bt_ok t \<Longrightarrow> bt_ok (change t)"
  shows "act_keeps (sns_ok E) (do_change_tags E (others i) action event change params now)"
  unfolding do_change_tags_def
proof (rule with_required_keeps, rule act_keeps_bind_post[OF tagged_topic_post])
  fix arn topic assume t: "read_topic E arn topic"
  then have "bt_ok (change (t_tags topic))" by (intro assms(2)) (auto simp: read_topic_def topic_ok_def)
  then show "act_keeps (sns_ok E) (act_bind (pause (others i) 0) (\<lambda>_. act_bind (set_tags arn (change (t_tags topic))) (\<lambda>_.
      act_bind (sns_emit E event (json_obj [(''resource_arn'', JStr arn)]) now) (\<lambda>_. act_return (respond action [])))))"
    by (intro sns_intros pauses[OF assms(1)] set_tags_keeps[OF t])
qed

lemma dispatch_keeps:
  assumes "sqs_env E"
  shows "act_keeps (sns_ok E) (sns_dispatch (E, parse_mail, base) others action params now)"
proof -
  have batch: "act_keeps (sns_ok E) (\<lambda>s. case publish_batch_loop (E, parse_mail, base) others arn now es 1 s of (r, s') \<Rightarrow> (Inr r, s'))" for arn es
    by (rule act_keepsI) (use publish_batch_loop_keeps[OF assms] in \<open>auto split: prod.splits, metis snd_conv\<close>)
  show ?thesis
    unfolding sns_dispatch_def do_create_topic_def do_list_topics_def do_delete_topic_def do_get_topic_attributes_def
      do_set_topic_attributes_def do_subscribe_def do_unsubscribe_def do_list_subscriptions_def
      do_get_subscription_attributes_def do_set_subscription_attributes_def do_publish_def do_publish_batch_def
      do_list_tags_def topic_attributes_def Let_def prod.case fst_conv
    by (intro sns_intros with_required_keeps pauses[OF assms] create_topic_keeps[OF assms] set_topic_attribute_keeps[OF assms]
        subscribe_keeps[OF assms] set_subscription_attribute_keeps[OF assms] publish_keeps[OF assms] batch reads_keep
        write_keeps delete_topic_keeps unsubscribe_keeps change_tags_keeps[OF assms])
       (simp_all add: entry_map_def tag_map_def btree.ok_fold_del)
qed

lemma handle_query_keeps:
  assumes "sqs_env E" "sns_ok E s"
  shows "sns_ok E (snd (handle_query (E, parse_mail, base) others action params now s))"
  using act_keepsD[OF dispatch_keeps[OF assms(1)] assms(2)]
  by (auto simp: handle_query_def split: prod.splits sum.splits)

end

end
