(* ===== verification/Sns_Matching.thy ===== *)
theory Sns_Matching
  imports Sns_Filter
begin

text \<open>
  SNS, part 5: what the filters of src/src/aws/sns/filter.rs decide: the wildcard matcher against the
  meaning of the pattern, and numbers against the integers they are written as.
\<close>

subsection \<open>Wildcards\<close>

text \<open>The meaning of a pattern: a star stands for any run of characters, every other character for itself.\<close>

fun glob :: "string \<Rightarrow> string \<Rightarrow> bool" where
  "glob [] s = (s = [])"
| "glob (c # p) s =
     (if c = CHR ''*'' then \<exists>t u. s = t @ u \<and> glob p u
      else (case s of [] \<Rightarrow> False | x # xs \<Rightarrow> x = c \<and> glob p xs))"

lemma glob_literal: "CHR ''*'' \<notin> set p \<Longrightarrow> glob (p @ q) s \<longleftrightarrow> (\<exists>r. s = p @ r \<and> glob q r)"
  by (induction p arbitrary: s) (auto split: list.splits)

lemma str_find_at: "str_find p r = Some i \<Longrightarrow> r = take i r @ p @ drop (i + length p) r"
proof (induction r arbitrary: i)
  case (Cons c r)
  show ?case
  proof (cases "starts_with (c # r) p")
    case True
    with Cons.prems show ?thesis by (auto simp: starts_with_iff)
  next
    case False
    with Cons.prems obtain j where "i = Suc j" "str_find p r = Some j" by (auto split: option.splits)
    with Cons.IH show ?thesis by auto
  qed
qed (simp split: if_splits)

lemma str_find_first: "\<exists>i \<le> length t. str_find p (t @ p @ v) = Some i"
proof (induction t)
  case Nil
  have "starts_with (p @ v) p" by simp
  then show ?case by (cases "p @ v") (auto simp: starts_with_def)
next
  case (Cons c t)
  then show ?case by auto
qed

lemma wildcard_rest_glob:
  assumes "ps \<noteq> []" "\<forall>p\<in>set ps. CHR ''*'' \<notin> set p"
  shows "wildcard_rest ps r \<longleftrightarrow> (\<exists>t u. r = t @ u \<and> glob (join_on (CHR ''*'') ps) u)"
  using assms
proof (induction ps r rule: wildcard_rest.induct)
  case (2 part rest)
  then show ?case using glob_literal[of part "[]"] by (auto simp: ends_with_iff)
next
  case (3 part p ps rest)
  let ?J = "join_on (CHR ''*'') (p # ps)"
  have part: "glob (join_on (CHR ''*'') (part # p # ps)) u \<longleftrightarrow> (\<exists>t v. u = part @ t @ v \<and> glob ?J v)" for u
    using 3(3) by (auto simp: glob_literal)
  show ?case
  proof (cases "str_find part rest")
    case None
    have "rest \<noteq> t @ part @ v" for t v
      using str_find_first[of t part v] None by auto
    with None show ?thesis unfolding part by auto
  next
    case (Some i)
    let ?after = "drop (i + length part) rest"
    have split: "rest = take i rest @ part @ ?after" by (rule str_find_at[OF Some])
    have "wildcard_rest (p # ps) ?after \<longleftrightarrow> (\<exists>t u. ?after = t @ u \<and> glob ?J u)"
      using 3 Some by simp
    also have "\<dots> \<longleftrightarrow> (\<exists>t u. rest = t @ u \<and> glob (join_on (CHR ''*'') (part # p # ps)) u)"
      unfolding part
    proof (intro iffI; elim exE conjE)
      fix t u assume "?after = t @ u" "glob ?J u"
      with split show "\<exists>t u. rest = t @ u \<and> (\<exists>t v. u = part @ t @ v \<and> glob ?J v)" by metis
    next
      fix t u t' v assume r: "rest = t @ u" "u = part @ t' @ v" and g: "glob ?J v"
      from str_find_first[of t part "t' @ v"] r Some have "i \<le> length t" by simp
      then have "i + length part \<le> length (t @ part @ t')" by simp
      then have "?after = drop (i + length part) (t @ part @ t') @ v"
        unfolding r using drop_append[of "i + length part" "t @ part @ t'" v] by simp
      with g show "\<exists>t u. ?after = t @ u \<and> glob ?J u" by blast
    qed
    finally show ?thesis using Some by simp
  qed
qed simp

lemma wildcard_glob: "wildcard pattern s \<longleftrightarrow> glob pattern s"
proof -
  let ?parts = "split_on (CHR ''*'') pattern"
  have free: "\<forall>p\<in>set ?parts. CHR ''*'' \<notin> set p" by (auto dest: split_on_pieces)
  have join: "join_on (CHR ''*'') ?parts = pattern" by (rule join_split)
  show ?thesis
  proof (cases ?parts rule: remdups_adj.cases)
    case (3 part p ps)
    then have parts: "?parts = part # p # ps" by simp
    have "pattern = part @ CHR ''*'' # join_on (CHR ''*'') (p # ps)" using join parts by simp
    moreover have "CHR ''*'' \<notin> set part" using free parts by simp
    ultimately have "glob pattern s \<longleftrightarrow> (\<exists>r. s = part @ r \<and> (\<exists>t u. r = t @ u \<and> glob (join_on (CHR ''*'') (p # ps)) u))"
      by (simp add: glob_literal del: join_on.simps)
    also have "\<dots> \<longleftrightarrow> (\<exists>r. s = part @ r \<and> wildcard_rest (p # ps) r)"
      using wildcard_rest_glob[of "p # ps"] free parts by simp
    finally show ?thesis
      by (auto simp: wildcard_def parts strip_prefix_Some_iff split: option.splits)
  next
    case (2 p)
    then have "?parts = [pattern]" using join by simp
    moreover have "glob pattern s \<longleftrightarrow> s = pattern" using glob_literal[of pattern "[]" s] free calculation by simp
    ultimately show ?thesis by (auto simp: wildcard_def)
  qed simp
qed

text \<open>
  Wildcards.  The matcher, which takes the parts between the stars one after the other at their
  first place, accepts exactly the strings the pattern stands for.
\<close>

theorem sns_wildcard: "wildcard pattern s \<longleftrightarrow> glob pattern s"
  by (rule wildcard_glob)

subsection \<open>Numbers\<close>

lemma f64_round_minus: "f64_round (- q) = - f64_round q"
  by (simp add: f64_round_def Let_def sgn_minus)

lemma digit_lower: "is_digit c \<Longrightarrow> to_lower c = c \<and> c \<noteq> CHR ''e'' \<and> c \<noteq> CHR ''.'' \<and> c \<noteq> CHR ''i'' \<and> c \<noteq> CHR ''n''"
  unfolding is_digit_def by (simp, elim disjE) (simp_all add: to_lower_def is_upper_def)

lemma digits_text:
  assumes "list_all is_digit s" "s \<noteq> []"
  shows "ascii_lowercase s = s" "split_on (CHR ''e'') s = [s]" "split_on (CHR ''.'') s = [s]"
    "s \<notin> {''inf'', ''infinity'', ''nan''}"
proof -
  have d: "c \<in> set s \<Longrightarrow> to_lower c = c \<and> c \<noteq> CHR ''e'' \<and> c \<noteq> CHR ''.'' \<and> c \<noteq> CHR ''i'' \<and> c \<noteq> CHR ''n''" for c
    using assms(1) digit_lower by (auto simp: list_all_iff)
  show "ascii_lowercase s = s" using d by (simp add: ascii_lowercase_def map_idI)
  show "split_on (CHR ''e'') s = [s]" "split_on (CHR ''.'') s = [s]" using d by (auto intro!: split_on_no_sep)
  show "s \<notin> {''inf'', ''infinity'', ''nan''}" using d by fastforce
qed

lemma sign_not_digit: "is_digit c \<Longrightarrow> c \<noteq> CHR ''-'' \<and> c \<noteq> CHR ''+''"
  by (auto simp: is_digit_def)

lemma strip_sign_show_int: "strip_sign (show_int n) = show_nat (nat \<bar>n\<bar>)"
proof (cases "n < 0")
  case False
  obtain c r where s: "show_nat (nat n) = c # r" using show_nat_nonempty[of "nat n"] by (cases "show_nat (nat n)") blast+
  with show_nat_hd_digit[OF s] sign_not_digit False show ?thesis by (auto simp: strip_sign_def show_int_def)
qed (simp add: strip_sign_def show_int_def)

lemma parse_f64_show_int: "parse_f64 (show_int n) = Some (f64_of_int n)"
proof -
  let ?s = "show_nat (nat \<bar>n\<bar>)"
  have digits: "list_all is_digit ?s" "?s \<noteq> []" using show_nat_digits show_nat_nonempty by auto
  note plain = digits_text[OF digits]
  have neg: "starts_with (show_int n) ''-'' \<longleftrightarrow> n < 0"
  proof (cases "n < 0")
    case False
    obtain c r where s: "show_nat (nat n) = c # r" using show_nat_nonempty[of "nat n"] by (cases "show_nat (nat n)") blast+
    with show_nat_hd_digit[OF s] sign_not_digit False show ?thesis by (auto simp: starts_with_def show_int_def)
  qed (simp add: starts_with_def show_int_def)
  have "decimal_value ?s 0 = of_int \<bar>n\<bar>"
    using plain(3) by (simp add: decimal_value_def digits_value_show_nat)
  moreover have "parses_f64 (show_int n)"
    using plain digits by (simp add: parses_f64_def Let_def strip_sign_show_int is_decimal_def)
  ultimately show ?thesis
    using plain neg f64_round_minus[of "of_int n"]
    by (cases "n < 0") (simp_all add: parse_f64_def Let_def strip_sign_show_int f64_of_int_def)
qed

lemma show_int_visible: "visible_word (show_int n)"
proof -
  have vis: "visible c" if "is_digit c" for c
    using that unfolding is_digit_def by (simp, elim disjE) (simp_all add: visible_def)
  obtain k where k: "show_int n = show_nat k \<or> show_int n = CHR ''-'' # show_nat k"
    using that[of "nat \<bar>n\<bar>"] by (simp add: show_int_def split: if_splits)
  have "show_nat k \<noteq> []" "list_all is_digit (show_nat k)" using show_nat_digits show_nat_nonempty by auto
  then have "visible (hd (show_nat k))" "visible (last (show_nat k))" by (auto simp: list_all_iff intro: vis)
  with k \<open>show_nat k \<noteq> []\<close> show ?thesis by (auto simp: visible_word_def visible_def)
qed

text \<open>An attribute of type Number that holds an integer.\<close>

definition int_attr :: "int \<Rightarrow> msg_attr" where
  "int_attr m = \<lparr> data_type = ''Number'', string_value = Some (show_int m), binary_value = None \<rparr>"

lemma f64_inf_bound: "(of_int (2 ^ 53) :: rat) < f64_inf"
  unfolding f64_inf_def of_int_power of_int_numeral by (rule power_strict_increasing) simp_all

lemma int_attr_values:
  assumes "\<bar>m\<bar> < 2 ^ 53"
  shows "attr_values E (int_attr m) = Some [JFloat (F64 (of_int m))]"
proof -
  have "\<bar>of_int m :: rat\<bar> < of_int (2 ^ 53)" using assms by (simp only: of_int_abs[symmetric] of_int_less_iff)
  also note f64_inf_bound
  finally have "f64_finite (F64 (of_int m))" by (simp add: f64_finite_def)
  then show ?thesis
    using trim_word(1)[OF show_int_visible[of m]]
    by (simp add: attr_values_def int_attr_def base_type_def parse_f64_show_int f64_of_int_small[OF assms])
qed

text \<open>The comparison a numeric condition writes.\<close>

definition int_compare :: "string \<Rightarrow> int \<Rightarrow> int \<Rightarrow> bool" where
  "int_compare op m n \<longleftrightarrow>
     op = ''='' \<and> m = n \<or> op = ''<'' \<and> m < n \<or> op = ''<='' \<and> m \<le> n \<or> op = ''>'' \<and> n < m \<or> op = ''>='' \<and> n \<le> m"

lemma numeric_op_int:
  "numeric_op op (F64 (of_int m)) (F64 (of_int n)) \<longleftrightarrow> int_compare op m n"
  by (auto simp: numeric_op_def int_compare_def)

lemma log2_nat_eq: "2 ^ k \<le> n \<Longrightarrow> n < 2 ^ Suc k \<Longrightarrow> log2_nat n = k"
  using log2_nat_bounds[of n] log2_nat_less[of n "Suc k"]
  by (metis gr0I le_less_trans less_Suc_eq_le linorder_neqE_nat not_less power_increasing_iff
      one_less_numeral_iff power_eq_0_iff semiring_norm(76) zero_neq_numeral le_zero_eq Suc_leI)

text \<open>From 2 ^ 53 to 2 ^ 54 the doubles are the even integers.\<close>

lemma f64_round_even:
  assumes "2 ^ 53 \<le> n" "n < 2 ^ 54" "round_even (of_int n / 2) = h" "h \<le> 2 ^ 53"
  shows "f64_round (of_int n) = of_int (2 * h)"
proof -
  have pos: "0 < n" using assms(1) by simp
  have "log2_nat (nat n) = 53" using assms by (intro log2_nat_eq) (simp_all add: nat_less_iff le_nat_iff)
  then have u: "pow2 (f64_ulp (of_int n)) = 2"
    using log2_rat_int[OF pos] by (simp add: f64_ulp_def pow2_def)
  have "(of_int (2 * h) :: rat) \<le> of_int (2 ^ 54)" using assms(4) by (simp only: of_int_le_iff) simp
  also have "\<dots> \<le> f64_inf" unfolding f64_inf_def of_int_power of_int_numeral by (rule power_increasing) simp_all
  finally have "min f64_inf (of_int h * 2) = of_int h * (2 :: rat)" by (simp add: mult.commute)
  with pos show ?thesis by (simp add: f64_round_def u assms(3) sgn_if)
qed

lemma f64_round_limit: "f64_round (of_int (2 ^ 53)) = of_int (2 ^ 53)" "f64_round (of_int (2 ^ 53 + 1)) = of_int (2 ^ 53)"
proof -
  have "round_even (of_int (2 ^ 53) / 2) = 2 ^ 52" "round_even (of_int (2 ^ 53 + 1) / 2) = 2 ^ 52"
    using floor_unique[of 4503599627370496 "9007199254740993 / 2 :: rat"] by (simp_all add: round_even_def Let_def)
  then show "f64_round (of_int (2 ^ 53)) = of_int (2 ^ 53)" "f64_round (of_int (2 ^ 53 + 1)) = of_int (2 ^ 53)"
    using f64_round_even[of "2 ^ 53" "2 ^ 52"] f64_round_even[of "2 ^ 53 + 1" "2 ^ 52"] by simp_all
qed

text \<open>
  Numbers in filter policies.  Below 2 ^ 53 in magnitude a number condition accepts an integer
  attribute exactly if the integers are equal, and a numeric comparison exactly if it holds of the
  integers; at 2 ^ 53 this ends, since the filter compares doubles: the condition 2 ^ 53 + 1 accepts
  the attribute 2 ^ 53.
\<close>

theorem sns_numeric_filter:
  "(\<bar>m\<bar> < 2 ^ 53 \<and> \<bar>n\<bar> < 2 ^ 53 \<and> k \<noteq> ''$or'' \<longrightarrow>
      match_attrs E (JObj [(k, JArr [JInt n])]) [(k, int_attr m)] = (m = n)
    \<and> match_attrs E (JObj [(k, JArr [JObj [(''numeric'', JArr [JStr op, JInt n])]])]) [(k, int_attr m)]
        = int_compare op m n)
   \<and> match_attrs E (JObj [(''n'', JArr [JInt (2 ^ 53 + 1)])]) [(''n'', int_attr (2 ^ 53))]"
proof (intro conjI impI)
  assume a: "\<bar>m\<bar> < 2 ^ 53 \<and> \<bar>n\<bar> < 2 ^ 53 \<and> k \<noteq> ''$or''"
  then have v: "attr_values E (int_attr m) = Some [JFloat (F64 (of_int m))]" "f64_of_int n = F64 (of_int n)"
    by (simp_all add: int_attr_values f64_of_int_small)
  show "match_attrs E (JObj [(k, JArr [JInt n])]) [(k, int_attr m)] = (m = n)"
    using a by (simp add: conditions_of_def match_conditions_def match_condition_def num_eq_def v)
  show "match_attrs E (JObj [(k, JArr [JObj [(''numeric'', JArr [JStr op, JInt n])]])]) [(k, int_attr m)]
      = int_compare op m n"
    using a by (simp add: conditions_of_def match_conditions_def match_condition_def match_object_def
        numeric_def v numeric_op_int)
next
  show "match_attrs E (JObj [(''n'', JArr [JInt (2 ^ 53 + 1)])]) [(''n'', int_attr (2 ^ 53))]"
    using trim_word(1)[OF show_int_visible[of "2 ^ 53"]] f64_round_limit f64_inf_bound
    by (simp add: conditions_of_def match_conditions_def match_condition_def num_eq_def attr_values_def int_attr_def
        base_type_def parse_f64_show_int f64_of_int_def f64_finite_def)
qed

theorem sns_numeric_filter_witness:
  "match_attrs sample_ext (JObj [(''price'', JArr [JObj [(''numeric'', JArr [JStr ''<'', JInt 20])]])])
     [(''price'', int_attr (- 15))]
   \<and> \<not> match_attrs sample_ext (JObj [(''price'', JArr [JInt 20])]) [(''price'', int_attr (- 15))]
   \<and> match_attrs sample_ext (JObj [(''n'', JArr [JInt (2 ^ 53 + 1)])]) [(''n'', int_attr (2 ^ 53))]"
  using sns_numeric_filter[of "- 15" 20 "''price''" sample_ext "''<''"] by (simp add: int_compare_def)

end
