(* ===== verification/Sns_Properties.thy ===== *)
theory Sns_Properties
  imports Sns_Invariant Sns_Matching Sqs_Guarantees
begin

text \<open>
  SNS, part 7: requests as a state machine, and its properties.  A request runs with requests of
  other clients between its database calls; those run to their end.
\<close>

type_synonym sns_request = "string \<times> form_params \<times> int"

definition sns_init :: "sqs_db \<Rightarrow> sns_app" where
  "sns_init db = \<lparr> sns_topics = [], sns_subscriptions = [], sns_messages = [], sns_queues = db,
     sns_mail = \<lparr> mailbox_messages = [], mailbox_attachments = [] \<rparr>, sns_posts = [], sns_events = [] \<rparr>"

definition sns_serve :: "sns_env \<Rightarrow> sns_request \<Rightarrow> sns_app \<Rightarrow> http_response \<times> sns_app" where
  "sns_serve env req s = (case req of (action, params, now) \<Rightarrow> handle_query env (\<lambda>_ _ s. s) action params now s)"

definition sns_serve_among ::
    "sns_env \<Rightarrow> (nat \<Rightarrow> nat \<Rightarrow> sns_request list) \<times> sns_request \<Rightarrow> sns_app \<Rightarrow> http_response \<times> sns_app" where
  "sns_serve_among env op s =
     (case op of (between, action, params, now) \<Rightarrow>
        handle_query env (\<lambda>i j s. snd (run_ops (sns_serve env) (between i j) s)) action params now s)"

interpretation sns_alone: sns_interleaving E "\<lambda>_ _ s. s" for E
  by unfold_locales

interpretation sns_one: service "\<lambda>env. sqs_env (fst env)" "sns_init sqs_init" sns_serve "\<lambda>env. sns_ok (fst env)"
proof unfold_locales
  fix env :: sns_env and x s assume "sqs_env (fst env)" "sns_ok (fst env) s"
  then show "sns_ok (fst env) (snd (sns_serve env x s))"
    by (cases env; cases x) (simp add: sns_serve_def sns_alone.handle_query_keeps)
qed (simp add: sns_init_def sns_ok_def sqs_ok_init)

interpretation sns_between: sns_interleaving E "\<lambda>i j s. snd (run_ops (sns_serve (E, parse_mail, base)) (between i j) s)"
  for E parse_mail base between
  by unfold_locales (use sns_one.inv_run[of "(E, parse_mail, base)"] in simp)

interpretation sns: service "\<lambda>env. sqs_env (fst env)" "sns_init sqs_init" sns_serve_among "\<lambda>env. sns_ok (fst env)"
proof unfold_locales
  fix env :: sns_env and x s assume "sqs_env (fst env)" "sns_ok (fst env) s"
  then show "sns_ok (fst env) (snd (sns_serve_among env x s))"
    by (cases env; cases x) (simp add: sns_serve_among_def sns_between.handle_query_keeps)
qed (rule sns_one.inv_init)

subsection \<open>What the tables hold\<close>

lemma stored_attr: "list_all (\<lambda>(k, v). P k v) m \<Longrightarrow> map_of m k = Some v \<Longrightarrow> P k v"
  by (auto simp: list_all_iff dest: map_of_SomeD)

lemma filter_policy_object:
  assumes "validate_subscription_attr E ''FilterPolicy'' p = Inr p" "p \<noteq> []"
  shows "\<exists>m. json_parse E p = Some (JObj m)"
proof -
  have "case filter_validate E p of Inl e \<Rightarrow> False | Inr v \<Rightarrow> True"
    using assms by (simp add: validate_subscription_attr_def SUBSCRIPTION_ATTRS_def split: sum.splits)
  then obtain v where v: "json_parse E p = Some v" "as_object v \<noteq> None"
    by (auto simp: filter_validate_def split: option.splits if_splits)
  then show ?thesis by (cases v) simp_all
qed

lemma scope_values:
  assumes "validate_subscription_attr E ''FilterPolicyScope'' v = Inr v"
  shows "v \<in> {''MessageAttributes'', ''MessageBody''}"
  using assms by (simp add: validate_subscription_attr_def SUBSCRIPTION_ATTRS_def split: if_splits)

lemma raw_values:
  assumes "validate_subscription_attr E ''RawMessageDelivery'' v = Inr v"
  shows "v \<in> {''true'', ''false''}"
  using assms normalize_bool_idem[of "''RawMessageDelivery''" v v]
  by (simp add: validate_subscription_attr_def SUBSCRIPTION_ATTRS_def split: if_splits)

lemma subscription_typed:
  assumes "subscription_ok E b"
  shows "s_protocol b \<in> set PROTOCOLS \<and> endpoint_ok (s_protocol b) (s_endpoint b)
    \<and> (\<forall>p. map_of (s_attributes b) ''FilterPolicy'' = Some p \<longrightarrow> (\<exists>m. json_parse E p = Some (JObj m)))
    \<and> map_of (s_attributes b) ''FilterPolicyScope'' \<in> {None, Some ''MessageAttributes'', Some ''MessageBody''}
    \<and> map_of (s_attributes b) ''RawMessageDelivery'' \<in> {None, Some ''true'', Some ''false''}"
proof (intro conjI)
  have "list_all (\<lambda>(k, v). v \<noteq> [] \<and> validate_subscription_attr E k v = Inr v) (s_attributes b)"
    using assms by (simp add: subscription_ok_def)
  note attr = stored_attr[of "\<lambda>k v. v \<noteq> [] \<and> validate_subscription_attr E k v = Inr v", OF this]
  show "map_of (s_attributes b) ''FilterPolicyScope'' \<in> {None, Some ''MessageAttributes'', Some ''MessageBody''}"
    using attr[of "''FilterPolicyScope''"] scope_values[of E] by (cases "map_of (s_attributes b) ''FilterPolicyScope''") auto
  show "map_of (s_attributes b) ''RawMessageDelivery'' \<in> {None, Some ''true'', Some ''false''}"
    using attr[of "''RawMessageDelivery''"] raw_values[of E] by (cases "map_of (s_attributes b) ''RawMessageDelivery''") auto
  show "\<forall>p. map_of (s_attributes b) ''FilterPolicy'' = Some p \<longrightarrow> (\<exists>m. json_parse E p = Some (JObj m))"
    using attr[of "''FilterPolicy''"] filter_policy_object[of E] by blast
  show "s_protocol b \<in> set PROTOCOLS" "endpoint_ok (s_protocol b) (s_endpoint b)"
    using assms unfolding subscription_ok_def by blast+
qed

text \<open>
  C18: What SNS stores is well typed.  Whatever requests have been served, with whatever other
  requests between their steps: topics have different names, the ARN that belongs to the name, and
  the FIFO flag exactly if the name ends in .fifo; subscriptions have different ARNs, a known
  protocol and an endpoint that fits it; a stored filter policy is a JSON object, its scope one of
  the two scopes, and the raw-delivery flag true or false.
\<close>

theorem sns_well_typed:
  assumes "sqs_env E" "sqs_ok E db" "s = snd (run_ops (sns_serve_among (E, parse_mail, base)) reqs (sns_init db))"
  shows "distinct (map tr_name (sns_topics s)) \<and> distinct (map (s_arn \<circ> sr_sub) (sns_subscriptions s))
    \<and> (\<forall>r\<in>set (sns_topics s). t_arn (tr_topic r) = topic_arn (tr_name r)
         \<and> (topic_is_fifo (tr_topic r) \<longleftrightarrow> ends_with (tr_name r) ''.fifo''))
    \<and> (\<forall>b\<in>sr_sub ` set (sns_subscriptions s).
         s_protocol b \<in> set PROTOCOLS \<and> endpoint_ok (s_protocol b) (s_endpoint b)
         \<and> (\<forall>p. map_of (s_attributes b) ''FilterPolicy'' = Some p \<longrightarrow> (\<exists>m. json_parse E p = Some (JObj m)))
         \<and> map_of (s_attributes b) ''FilterPolicyScope'' \<in> {None, Some ''MessageAttributes'', Some ''MessageBody''}
         \<and> map_of (s_attributes b) ''RawMessageDelivery'' \<in> {None, Some ''true'', Some ''false''})"
proof -
  have "sns_ok E (sns_init db)" using assms(2) by (simp add: sns_ok_def sns_init_def)
  with sns.inv_run[of "(E, parse_mail, base)"] assms(1,3) have ok: "sns_ok E s" by simp
  then have "\<forall>b\<in>sr_sub ` set (sns_subscriptions s). subscription_ok E b"
    "\<forall>r\<in>set (sns_topics s). topic_ok E (tr_topic r) (tr_name r)"
    "distinct (map tr_name (sns_topics s))" "distinct (map (s_arn \<circ> sr_sub) (sns_subscriptions s))"
    by (simp_all add: sns_ok_def list_all_iff)
  then show ?thesis
    by (intro conjI) (assumption, assumption, simp add: topic_ok_def, rule ballI, rule subscription_typed, rule bspec)
qed

text \<open>A topic created by a request.\<close>

definition sample_sns_env :: sns_env where
  "sample_sns_env = (sample_ext, \<lambda>_. None, ''http://localhost'')"

definition sample_topic :: sns_topic where
  "sample_topic = \<lparr> t_arn = topic_arn ''t'', t_attributes = [], t_tags = [] \<rparr>"

lemma sample_maps: "entry_map [(''Name'', ''t'')] ''Attributes'' = []" "tag_map [(''Name'', ''t'')] ''Tags'' = []"
  by (simp_all add: entry_map_def tag_map_def query_to_json_def query_tree_def query_path_def strip_prefix_def
      starts_with_def convert_map_def json_items_def pair_map_def bt_extend_def List.map_filter_def)

lemma sample_create_check: "create_topic_check sample_ext ''t'' [] [] = Inr []"
  by (simp add: create_topic_check_def valid_topic_name_def strip_suffix_def ends_with_def is_alnum_def is_lower_def)

lemma sample_create_topic:
  "map tr_topic (sns_topics (snd (run_ops (sns_serve_among sample_sns_env)
     [(\<lambda>_ _. [], ''CreateTopic'', [(''Name'', ''t'')], 5)] (sns_init sqs_init)))) = [sample_topic]"
  by (simp add: sns_serve_among_def handle_query_def sns_dispatch_def sample_sns_env_def do_create_topic_def with_required_def
      sns_required_def act_bind_def act_result_def act_return_def sample_maps create_topic_def sample_create_check
      sns_read_def find_topic_def sns_init_def pause_def sns_write_def insert_topic_def sns_emit_def sample_topic_def)

theorem sns_well_typed_witness:
  "let s = snd (run_ops (sns_serve_among sample_sns_env)
         [(\<lambda>_ _. [], ''CreateTopic'', [(''Name'', ''t'')], 5)] (sns_init sqs_init))
   in map tr_topic (sns_topics s) = [sample_topic] \<and> distinct (map tr_name (sns_topics s))"
  unfolding Let_def
  using sample_create_topic conjunct1[OF sns_well_typed[OF sample_env sqs_ok_init refl, of "\<lambda>_. None" "''http://localhost''"
      "[(\<lambda>_ _. [], ''CreateTopic'', [(''Name'', ''t'')], 5)]"]]
  unfolding sample_sns_env_def by (rule conjI)

subsection \<open>Publishing\<close>

text \<open>The reports of deliveries among the telemetry events.\<close>

definition delivery_reports :: "sns_app \<Rightarrow> event list" where
  "delivery_reports s = filter (\<lambda>e. ev_service e = ''sns'' \<and> ev_action e = ''deliver'') (sns_events s)"

definition delivery_report :: "externals \<Rightarrow> outgoing \<Rightarrow> int \<Rightarrow> sns_subscription \<times> bool \<Rightarrow> event" where
  "delivery_report E out now p = (case p of (b, ok) \<Rightarrow>
     \<lparr> ev_provider = ''aws'', ev_service = ''sns'', ev_action = ''deliver'',
       ev_payload = json_print E (deliver_event b out ok), ev_created_at = to_rfc3339 E now \<rparr>)"

lemma deliver_reports:
  assumes "deliver E parse_mail base b out now s = (r, s')"
  shows "delivery_reports s' = delivery_reports s \<and> sns_messages s' = sns_messages s"
proof -
  have send: "delivery_reports t' = delivery_reports t \<and> sns_messages t' = sns_messages t"
    if "send_to E queue body attrs out now t = (x, t')" for queue body attrs t x t'
    using that by (auto simp: send_to_def delivery_reports_def split: prod.splits sum.splits)
  have "delivery_reports s' = delivery_reports s \<and> sns_messages s' = sns_messages s"
    if "deliver_sqs E base b out now s = (r, s')"
    using that unfolding deliver_sqs_def Let_def
    by (auto split: prod.splits sum.splits option.splits dest!: send)
  with assms show ?thesis
    by (auto simp: deliver_def deliver_email_def act_bind_def act_return_def draw_uuid_def sns_write_def delivery_reports_def
        capture_event_def emit_event_def Let_def split: if_splits prod.splits sum.splits)
qed

lemma fan_out_accounts:
  assumes "fan_out_loop E parse_mail base (\<lambda>_ s. s) out now bs i s = (n, s')"
  shows "\<exists>oks. length oks = length (filter (\<lambda>b. passes_filter E b out) bs) \<and> n = length (filter (\<lambda>ok. ok) oks)
    \<and> delivery_reports s' = delivery_reports s @ map (delivery_report E out now) (zip (filter (\<lambda>b. passes_filter E b out) bs) oks)
    \<and> sns_messages s' = sns_messages s"
  using assms
proof (induction bs arbitrary: i s n s')
  case (Cons b bs)
  show ?case
  proof (cases "passes_filter E b out")
    case True
    obtain r s1 where d: "deliver E parse_mail base b out now s = (r, s1)" by fastforce
    define ok where "ok = (case r of Inl _ \<Rightarrow> False | Inr _ \<Rightarrow> True)"
    define s2 where "s2 = snd (sns_emit E ''deliver'' (deliver_event b out ok) now s1 :: (unit, unit) result \<times> sns_app)"
    obtain m s3 where rest: "fan_out_loop E parse_mail base (\<lambda>_ s. s) out now bs (Suc i) s2 = (m, s3)" by fastforce
    have res: "n = (if ok then Suc m else m)" "s' = s3"
      using Cons.prems True d rest by (auto simp: Let_def ok_def[symmetric] s2_def[symmetric])
    have s2: "delivery_reports s2 = delivery_reports s @ [delivery_report E out now (b, ok)]" "sns_messages s2 = sns_messages s"
      using deliver_reports[OF d]
      by (simp_all add: s2_def sns_emit_def sns_write_def delivery_reports_def emit_event_def delivery_report_def)
    from Cons.IH[OF rest] obtain oks where
      "length oks = length (filter (\<lambda>b. passes_filter E b out) bs)" "m = length (filter (\<lambda>ok. ok) oks)"
      "delivery_reports s3 = delivery_reports s2 @ map (delivery_report E out now) (zip (filter (\<lambda>b. passes_filter E b out) bs) oks)"
      "sns_messages s3 = sns_messages s2" by blast
    with res s2 True show ?thesis by (intro exI[of _ "ok # oks"]) simp
  next
    case False
    with Cons show ?thesis by simp
  qed
qed simp

lemma fifo_fields_same:
  assumes "fifo_fields E (\<lambda>_ s. s) req topic s = (r, s')"
  shows "sns_subscriptions s' = sns_subscriptions s \<and> sns_events s' = sns_events s \<and> sns_messages s' = sns_messages s
    \<and> sns_queues s' = sns_queues s"
  using assms
  by (auto simp: fifo_fields_def act_bind_def act_return_def act_result_def pause_def next_sequence_def Let_def
      split: if_splits option.splits)

text \<open>
  Publishing accounts for every subscription.  A publish to a topic that succeeds tries exactly the
  subscriptions of the topic whose filter accepts the message, each once and in the order of their ARNs,
  and reports each attempt with its outcome; the message is logged once, with the number of the
  attempts that succeeded.
\<close>

theorem sns_publish_accounts:
  assumes "publish E parse_mail base (\<lambda>_ s. s) req now s = (Inr r, s')"
    and "pr_topic_arn req = Some arn" "arn \<noteq> []" "\<not> str_contains arn '':endpoint/''"
  shows "\<exists>out oks tried.
      tried = filter (\<lambda>b. passes_filter E b out) (list_subscriptions (Some arn) s) \<and> length oks = length tried
    \<and> o_attributes out = pr_attributes req \<and> publish_check E req = Inr (o_bodies out) \<and> o_message_id out = pu_message_id r
    \<and> delivery_reports s' = delivery_reports s @ map (delivery_report E out now) (zip tried oks)
    \<and> (\<exists>row. sns_messages s' = sns_messages s @ [row] \<and> sm_message_id row = pu_message_id r \<and> sm_topic_arn row = arn
         \<and> sm_body row = pr_message req \<and> sm_delivered row = int (length (filter (\<lambda>ok. ok) oks)))"
proof -
  obtain bodies where bodies: "publish_check E req = Inr bodies"
    using assms(1) by (cases "publish_check E req") (auto simp: publish_def act_bind_def act_result_def)
  define mid s1 where "mid = uuid_v4 E (uuid_ctr (sns_queues s))"
    and "s1 = s\<lparr> sns_queues := (sns_queues s)\<lparr> uuid_ctr := Suc (uuid_ctr (sns_queues s)) \<rparr> \<rparr>"
  obtain attrs where run: "publish_to E parse_mail base (\<lambda>_ s. s) req bodies mid attrs arn now s1 = (Inr r, s')"
    using assms bodies by (simp add: publish_def act_bind_def act_result_def Let_def draw_uuid_def mid_def s1_def)
  obtain topic where topic: "find_topic arn s1 = Some topic"
    using run by (cases "find_topic arn s1") (auto simp: publish_to_def act_bind_def get_topic_def)
  have arn: "t_arn topic = arn" using topic by (auto simp: find_topic_def dest!: find_Some_set)
  obtain f s2 where f: "fifo_fields E (\<lambda>_ s. s) req topic s1 = (f, s2)" by fastforce
  obtain g d q where fg: "f = Inr (g, d, q)"
    using run topic f by (cases f) (auto simp: publish_to_def act_bind_def get_topic_def)
  have same: "list_subscriptions (Some arn) s2 = list_subscriptions (Some arn) s" "delivery_reports s2 = delivery_reports s"
    "sns_messages s2 = sns_messages s"
    using fifo_fields_same[OF f] by (simp_all add: s1_def list_subscriptions_def delivery_reports_def)
  define out where "out = \<lparr> o_message_id = mid, o_topic_arn = arn, o_subject = pr_subject req, o_bodies = bodies,
     o_attributes = pr_attributes req, o_timestamp = iso_millis E now, o_group_id = g, o_dedup_id = d, o_sequence_number = q \<rparr>"
  obtain n s3 where loop: "fan_out_loop E parse_mail base (\<lambda>_ s. s) out now (list_subscriptions (Some arn) s2) 3 s2 = (n, s3)"
    by fastforce
  have fin: "pu_message_id r = mid \<and> (\<exists>row. sns_messages s' = sns_messages s3 @ [row] \<and> sm_message_id row = mid
       \<and> sm_topic_arn row = arn \<and> sm_body row = pr_message req \<and> sm_delivered row = int n) \<and> delivery_reports s' = delivery_reports s3"
    using run topic f fg loop arn unfolding out_def
    by (auto simp: publish_to_def act_bind_def get_topic_def pause_def fan_out_def sns_read_def record_message_def sns_write_def
        act_return_def delivery_reports_def)
  from fan_out_accounts[OF loop] obtain oks where "length oks = length (filter (\<lambda>b. passes_filter E b out) (list_subscriptions (Some arn) s2))"
    "n = length (filter (\<lambda>ok. ok) oks)"
    "delivery_reports s3 = delivery_reports s2 @ map (delivery_report E out now)
       (zip (filter (\<lambda>b. passes_filter E b out) (list_subscriptions (Some arn) s2)) oks)"
    "sns_messages s3 = sns_messages s2" by blast
  with fin same bodies show ?thesis
    by (intro exI[of _ out] exI[of _ oks] exI) (simp add: out_def)
qed

subsection \<open>From a publisher to a consumer\<close>

text \<open>Sending an accepted message to a standard queue succeeds.\<close>

lemma send_standard:
  assumes "sqs_env E" "sqs_ok E db" "\<not> is_fifo q" "send_check q input = Inr delay"
  shows "\<exists>sent db1. send_tx E q input now db = (Inr sent, db1) \<and> db1 \<noteq> db"
proof -
  let ?d = "refresh q now db"
  have "messages_ok E ?d" using refresh_ok[OF assms(2)] by (simp add: sqs_ok_def)
  then have "messages_ok E (?d\<lparr> uuid_ctr := Suc (uuid_ctr ?d) \<rparr>)" by (rule messages_ok_cong) simp_all
  from insert_message_eq[OF assms(1) this] assms(3,4) obtain sent db1 where
    "send_tx E q input now db = (Inr sent, db1)" "uuid_ctr db1 = Suc (Suc (uuid_ctr db))"
    by (simp add: send_tx_def Let_def)
  then show ?thesis by (metis n_not_Suc_n Suc_n_not_le_n le_SucI le_refl)
qed

text \<open>What a raw delivery puts into a queue.\<close>

definition raw_input :: "outgoing \<Rightarrow> send_input" where
  "raw_input out = \<lparr> si_body = body_for out ''sqs'', si_delay_seconds = None, si_attributes = o_attributes out,
     si_system_attributes = [], si_group_id = o_group_id out, si_dedup_id = None \<rparr>"

lemma deliver_raw:
  assumes "sqs_ok E (sns_queues s)" "s_protocol b = ''sqs''" "raw_delivery b"
    and "get_queue E (s_endpoint b) (sns_queues s) = Inr q" "\<not> is_fifo q"
    and "send_tx E q (raw_input out) now (sns_queues s) = (Inr sent, db)"
  shows "deliver E parse_mail base b out now s = (Inr (), s\<lparr> sns_queues := db \<rparr>)"
  using assms(2-6) get_queue_by_name[OF assms(1,4)]
  by (simp add: deliver_def deliver_sqs_def sqs_payload_def send_to_def send_with_def send_def with_queue_def raw_input_def)

text \<open>A delivery to another queue leaves the queue \<open>q\<close> and its messages alone.\<close>

definition other_part :: "externals \<Rightarrow> sqs_queue \<Rightarrow> sqs_db \<Rightarrow> sqs_db \<Rightarrow> bool" where
  "other_part E q db db' \<longleftrightarrow> find_queue E (q_name q) db' = find_queue E (q_name q) db \<and> rows_in q db' = rows_in q db"

lemma other_part_cong:
  "sqs_queues db' = sqs_queues db \<Longrightarrow> sqs_messages db' = sqs_messages db \<Longrightarrow> other_part E q db db'"
  by (simp add: other_part_def find_queue_def rows_in_def)

lemma other_part_trans: "other_part E q a b \<Longrightarrow> other_part E q b c \<Longrightarrow> other_part E q a c"
  by (simp add: other_part_def)

lemma rows_in_refresh: "q_id p \<noteq> q_id q \<Longrightarrow> rows_in q (refresh p now db) = rows_in q db"
proof -
  assume ne: "q_id p \<noteq> q_id q"
  have upd: "filter (\<lambda>m. m_queue_id m = q_id q) (sql_update P f ms) = filter (\<lambda>m. m_queue_id m = q_id q) ms"
    if "\<And>m. P m \<Longrightarrow> m_queue_id m = q_id p" "\<And>m. m_queue_id (f m) = m_queue_id m" for P f and ms :: "sqs_message list"
    using that ne by (induction ms) (auto simp: sql_update_def)
  have del: "filter (\<lambda>m. m_queue_id m = q_id q) (sql_delete P ms) = filter (\<lambda>m. m_queue_id m = q_id q) ms"
    if "\<And>m. P m \<Longrightarrow> m_queue_id m = q_id p" for P and ms :: "sqs_message list"
    using that ne by (induction ms) (auto simp: sql_delete_def)
  show ?thesis
    unfolding rows_in_def refresh_def Let_def by (simp, subst upd, simp_all, subst del, simp_all)
qed

lemma find_queue_refresh: "find_queue E n (refresh p now db) = find_queue E n db"
  by (simp add: find_queue_def refresh_def Let_def)

lemma find_queue_seq:
  "find_queue E n (db\<lparr> sqs_queues := sql_update P (\<lambda>r. r\<lparr> qr_fifo_seq := f r \<rparr>) (sqs_queues db) \<rparr>) = find_queue E n db"
proof -
  have "map_option (queue_from_row E) (find (\<lambda>r. qr_name r = n) (sql_update P (\<lambda>r. r\<lparr> qr_fifo_seq := f r \<rparr>) rs))
      = map_option (queue_from_row E) (find (\<lambda>r. qr_name r = n) rs)" for rs
    by (induction rs) (auto simp: sql_update_def queue_from_row_def Let_def)
  then show ?thesis by (simp add: find_queue_def)
qed

lemma send_find:
  assumes "sqs_env E" "sqs_ok E db" "send_tx E p input now db = (r, db')"
  shows "find_queue E n db' = find_queue E n db"
  using assms
proof (cases rule: send_tx_cases)
  case (standard delay)
  then show ?thesis by (simp add: stored_db_def find_queue_def refresh_def Let_def)
next
  case (fifo delay dedup seq db2)
  have "find_queue E n db' = find_queue E n db2" by (simp add: fifo(5) stored_db_def find_queue_def remember_dedup_def)
  also have "\<dots> = find_queue E n db" unfolding fifo_decide_fresh(1)[OF fifo(3)] find_queue_seq find_queue_refresh ..
  finally show ?thesis .
qed simp_all

lemma send_other:
  assumes "sqs_env E" "sqs_ok E db" "q_id p \<noteq> q_id q" "send_tx E p input now db = (r, db')"
  shows "other_part E q db db'"
  using assms(1,2,4)
proof (cases rule: send_tx_cases)
  case (standard delay)
  then show ?thesis
    using assms(3) rows_in_refresh[of p q now db] send_find[OF assms(1,2,4)]
    by (simp add: other_part_def stored_db_def rows_in_def sent_row_def)
next
  case (fifo delay dedup seq db2)
  have "rows_in q db' = rows_in q (refresh p now db)"
    using assms(3) by (simp add: fifo(5) fifo_decide_fresh(1)[OF fifo(3)] stored_db_def rows_in_def sent_row_def)
  then show ?thesis using rows_in_refresh[OF assms(3)] send_find[OF assms(1,2,4)] by (simp add: other_part_def)
qed (simp_all add: other_part_def)

lemma named_apart:
  assumes "sqs_ok E db" "find_queue E (q_name q) db = Some q" "find_queue E n db = Some p" "n \<noteq> q_name q"
  shows "q_id p \<noteq> q_id q"
proof
  assume same: "q_id p = q_id q"
  obtain r s where r: "find (\<lambda>r. qr_name r = q_name q) (sqs_queues db) = Some r" "q = queue_from_row E r"
    and s: "find (\<lambda>r. qr_name r = n) (sqs_queues db) = Some s" "p = queue_from_row E s"
    using assms(2,3) by (auto simp: find_queue_def)
  have "sorted_wrt (<) (map qr_id (sqs_queues db))" using assms(1) by (simp add: sqs_ok_def queues_ok_def)
  then have "distinct (map qr_id (sqs_queues db))" using strict_sorted_iff by blast
  moreover have "qr_id r = qr_id s" using same r(2) s(2) by (simp add: queue_from_row_def Let_def)
  ultimately have "r = s" using key_inject find_Some_set[OF r(1)] find_Some_set[OF s(1)] by metis
  with find_Some_set[OF r(1)] find_Some_set[OF s(1)] assms(4) show False by auto
qed

lemma send_with_other:
  assumes env: "sqs_env E" and ok: "sqs_ok E db" and q: "find_queue E (q_name q) db = Some q" and n: "queue_name_of n \<noteq> q_name q"
  shows "other_part E q db (snd (send_with E n body attrs g d now db))"
proof (cases "get_queue E n db")
  case (Inl e)
  then show ?thesis by (simp add: send_with_def other_part_def)
next
  case (Inr p)
  then have p: "find_queue E (queue_name_of n) db = Some p"
    by (auto simp: get_queue_def require_queue_def Let_def split: if_splits option.splits)
  have ids: "q_id p \<noteq> q_id q" by (rule named_apart[OF ok q p n])
  have draw: "sqs_ok E (db\<lparr> uuid_ctr := Suc (uuid_ctr db) \<rparr>)" by (rule sqs_ok_draw[OF ok])
  have sent: "other_part E q db (snd (send E (q_name p) input now db'))"
    if "db' = db \<or> db' = db\<lparr> uuid_ctr := Suc (uuid_ctr db) \<rparr>" for input db'
  proof -
    have ok': "sqs_ok E db'" using that ok draw by blast
    have part: "other_part E q db db'" using that by (auto intro: other_part_cong)
    have "get_queue E (q_name p) db = Inr p" by (rule get_queue_by_name[OF ok Inr])
    then have "get_queue E (q_name p) db' = Inr p"
      using that by (auto simp: get_queue_def require_queue_def find_queue_def Let_def split: if_splits)
    then have "send E (q_name p) input now db' = send_tx E p input now db'" by (simp add: send_def with_queue_def)
    then show ?thesis
      using send_other[OF env ok' ids, of input now "fst (send_tx E p input now db')" "snd (send_tx E p input now db')"] part
      by (simp add: other_part_def)
  qed
  have case_snd: "snd (case x of (Inl e, db'') \<Rightarrow> (Inl e, db'') | (Inr out, db'') \<Rightarrow> (Inr (so_message_id out), db'')) = snd x"
    for x :: "(sqs_error, send_outcome) result \<times> sqs_db"
    by (cases x; cases "fst x") auto
  show ?thesis
    unfolding send_with_def Inr sum.case Let_def
    by (auto simp: case_snd sent split: option.split)
qed

text \<open>What the rest of a publish, and what other requests in between, may do: anything but touch the queue, its
  messages, the topic and the list of its subscriptions.\<close>

definition apart :: "externals \<Rightarrow> string \<Rightarrow> sqs_queue \<Rightarrow> sns_app \<Rightarrow> sns_app \<Rightarrow> bool" where
  "apart E arn q s t \<longleftrightarrow> (sns_ok E s \<longrightarrow> sns_ok E t) \<and> find_topic arn t = find_topic arn s
     \<and> list_subscriptions (Some arn) t = list_subscriptions (Some arn) s \<and> other_part E q (sns_queues s) (sns_queues t)"

lemma apart_refl: "apart E arn q s s"
  by (simp add: apart_def other_part_def)

lemma apart_trans: "apart E arn q s t \<Longrightarrow> apart E arn q t u \<Longrightarrow> apart E arn q s u"
  by (simp add: apart_def other_part_def)

text \<open>The queues a subscription can reach: its endpoint and its dead-letter queue.\<close>

definition reaches :: "externals \<Rightarrow> sns_subscription \<Rightarrow> string set" where
  "reaches E c = (if s_protocol c = ''sqs'' then {s_endpoint c} \<union> set_option (redrive_target E c) else {})"

lemma send_to_apart:
  assumes "sqs_env E" "sns_ok E s" "find_queue E (q_name q) (sns_queues s) = Some q" "queue_name_of n \<noteq> q_name q"
    and "send_to E n body attrs out now s = (r, t)"
  shows "apart E arn q s t"
proof -
  let ?db = "snd (send_with E n body attrs (o_group_id out) (o_dedup_id out) now (sns_queues s))"
  have "t = s\<lparr> sns_queues := ?db \<rparr>" using assms(5) by (auto simp: send_to_def split: prod.splits sum.splits)
  moreover have "sns_ok E t" using act_keepsD[OF send_to_keeps[OF assms(1)] assms(2,5)] .
  moreover have "other_part E q (sns_queues s) ?db"
    by (rule send_with_other[OF assms(1) _ assms(3,4)]) (use assms(2) in \<open>simp add: sns_ok_def\<close>)
  ultimately show ?thesis by (simp add: apart_def find_topic_def list_subscriptions_def)
qed

lemma apart_found: "apart E arn q s t \<Longrightarrow> find_queue E (q_name q) (sns_queues s) = Some q \<Longrightarrow> find_queue E (q_name q) (sns_queues t) = Some q"
  by (simp add: apart_def other_part_def)

lemma apart_ok: "apart E arn q s t \<Longrightarrow> sns_ok E s \<Longrightarrow> sns_ok E t"
  by (simp add: apart_def)

lemma deliver_apart:
  assumes env: "sqs_env E" and ok: "sns_ok E s" and q: "find_queue E (q_name q) (sns_queues s) = Some q"
    and n: "\<forall>n\<in>reaches E c. queue_name_of n \<noteq> q_name q" and run: "deliver E parse_mail base c out now s = (r, t)"
  shows "apart E arn q s t"
proof (cases "s_protocol c = ''sqs''")
  case True
  obtain body attrs where pay: "sqs_payload E base c out = (body, attrs)" by fastforce
  obtain r1 s1 where one: "send_to E (s_endpoint c) body attrs out now s = (r1, s1)" by fastforce
  have first: "apart E arn q s s1" by (rule send_to_apart[OF env ok q _ one]) (use n True in \<open>simp add: reaches_def\<close>)
  have run': "deliver_sqs E base c out now s = (r, t)" using run True by (simp add: deliver_def)
  show ?thesis
  proof (cases r1)
    case (Inr u)
    with run' pay one first show ?thesis by (simp add: deliver_sqs_def)
  next
    case (Inl e)
    show ?thesis
    proof (cases "redrive_target E c")
      case None
      with Inl run' pay one first show ?thesis by (simp add: deliver_sqs_def)
    next
      case (Some dlq)
      obtain r2 s2 where two: "send_to E dlq body attrs out now s1 = (r2, s2)" by fastforce
      have "apart E arn q s1 s2"
        by (rule send_to_apart[OF env apart_ok[OF first ok] apart_found[OF first q] _ two])
           (use n True Some in \<open>simp add: reaches_def\<close>)
      moreover have "t = s2" using Inl Some run' pay one two by (auto simp: deliver_sqs_def split: sum.splits)
      ultimately show ?thesis using apart_trans[OF first] by blast
    qed
  qed
next
  case False
  have "sns_ok E t" using act_keepsD[OF deliver_keeps[OF env] ok run] .
  moreover have "sns_topics t = sns_topics s \<and> sns_subscriptions t = sns_subscriptions s
      \<and> sqs_queues (sns_queues t) = sqs_queues (sns_queues s) \<and> sqs_messages (sns_queues t) = sqs_messages (sns_queues s)"
    using run False
    by (auto simp: deliver_def deliver_email_def act_bind_def act_return_def draw_uuid_def sns_write_def Let_def
        split: if_splits prod.splits sum.splits)
  ultimately show ?thesis by (auto simp: apart_def find_topic_def list_subscriptions_def intro: other_part_cong)
qed

lemma emit_apart: "apart E arn q s (snd (sns_emit F a p now s :: ('e, unit) result \<times> sns_app))"
  by (auto simp: sns_emit_def sns_write_def apart_def find_topic_def list_subscriptions_def sns_ok_def intro: other_part_cong)

lemma loop_apart:
  assumes env: "sqs_env E" and others: "\<And>i t. apart E arn q t (others i t)"
  shows "sns_ok E s \<Longrightarrow> find_queue E (q_name q) (sns_queues s) = Some q \<Longrightarrow>
    \<forall>c\<in>set bs. \<forall>n\<in>reaches E c. queue_name_of n \<noteq> q_name q \<Longrightarrow>
    apart E arn q s (snd (fan_out_loop E parse_mail base others out now bs i s))"
proof (induction bs arbitrary: i s)
  case (Cons c bs)
  show ?case
  proof (cases "passes_filter E c out")
    case True
    obtain r s1 where d: "deliver E parse_mail base c out now (others i s) = (r, s1)" by fastforce
    note o1 = others[of s i]
    have "apart E arn q (others i s) s1"
      by (rule deliver_apart[OF env apart_ok[OF o1 Cons.prems(1)] apart_found[OF o1 Cons.prems(2)] _ d]) (use Cons.prems(3) in simp)
    then have s1: "apart E arn q s s1" using o1 apart_trans by blast
    let ?s2 = "\<lambda>ok. snd (sns_emit E ''deliver'' (deliver_event c out ok) now s1 :: (unit, unit) result \<times> sns_app)"
    have s2: "apart E arn q s (?s2 ok)" for ok using apart_trans[OF s1 emit_apart] by blast
    have "apart E arn q (?s2 ok) (snd (fan_out_loop E parse_mail base others out now bs (Suc i) (?s2 ok)))" for ok
      by (rule Cons.IH[OF apart_ok[OF s2 Cons.prems(1)] apart_found[OF s2 Cons.prems(2)]]) (use Cons.prems(3) in simp)
    then have "apart E arn q s (snd (fan_out_loop E parse_mail base others out now bs (Suc i) (?s2 ok)))" for ok
      using apart_trans[OF s2] by blast
    with True d show ?thesis by (simp add: Let_def split_beta)
  next
    case False
    with Cons show ?thesis by simp
  qed
qed (simp add: apart_refl)
text \<open>The loop reaches every subscription, whatever becomes of the others.\<close>

lemma loop_reaches:
  assumes env: "sqs_env E" and others: "\<And>i t. apart E arn q t (others i t)" and pass: "passes_filter E b out"
    and found: "\<And>t. sns_ok E t \<Longrightarrow> find_queue E (q_name q) (sns_queues t) = Some q \<Longrightarrow>
      find_queue E (q_name q) (sns_queues (snd (deliver E parse_mail base b out now t))) = Some q"
  shows "sns_ok E s \<Longrightarrow> find_queue E (q_name q) (sns_queues s) = Some q \<Longrightarrow> distinct bs \<Longrightarrow> b \<in> set bs \<Longrightarrow>
    \<forall>c\<in>set bs - {b}. \<forall>n\<in>reaches E c. queue_name_of n \<noteq> q_name q \<Longrightarrow>
    \<exists>t. apart E arn q s t \<and> apart E arn q (snd (deliver E parse_mail base b out now t))
          (snd (fan_out_loop E parse_mail base others out now bs i s))"
proof (induction bs arbitrary: i s)
  case (Cons c bs)
  note ok = Cons.prems(1) and q = Cons.prems(2)
  obtain r s1 where d: "deliver E parse_mail base c out now (others i s) = (r, s1)" by fastforce
  note o1 = others[of s i]
  let ?s2 = "\<lambda>ok. snd (sns_emit E ''deliver'' (deliver_event c out ok) now s1 :: (unit, unit) result \<times> sns_app)"
  have step: "snd (fan_out_loop E parse_mail base others out now (c # bs) i s)
      = snd (fan_out_loop E parse_mail base others out now bs (Suc i) (?s2 (case r of Inl _ \<Rightarrow> False | Inr _ \<Rightarrow> True)))"
    if "passes_filter E c out" using that d by (simp add: Let_def split_beta)
  show ?case
  proof (cases "c = b")
    case True
    have s1: "s1 = snd (deliver E parse_mail base b out now (others i s))" using d True by simp
    have ok1: "sns_ok E s1" using act_keepsD[OF deliver_keeps[OF env] apart_ok[OF o1 ok] d] .
    have q1: "find_queue E (q_name q) (sns_queues s1) = Some q"
      unfolding s1 by (rule found[OF apart_ok[OF o1 ok] apart_found[OF o1 q]])
    have rest: "\<forall>c\<in>set bs. \<forall>n\<in>reaches E c. queue_name_of n \<noteq> q_name q" using Cons.prems(3,5) True by auto
    have emitted: "apart E arn q s1 (?s2 k)" for k by (rule emit_apart)
    have "apart E arn q (?s2 k) (snd (fan_out_loop E parse_mail base others out now bs (Suc i) (?s2 k)))" for k
      by (rule loop_apart[OF env others apart_ok[OF emitted ok1] apart_found[OF emitted q1] rest])
    then have "apart E arn q s1 (snd (fan_out_loop E parse_mail base others out now bs (Suc i) (?s2 k)))" for k
      using apart_trans[OF emitted] by blast
    then show ?thesis using step pass True o1 s1 by metis
  next
    case False
    then have b: "b \<in> set bs" and rest: "\<forall>c\<in>set bs - {b}. \<forall>n\<in>reaches E c. queue_name_of n \<noteq> q_name q"
      and c: "\<forall>n\<in>reaches E c. queue_name_of n \<noteq> q_name q" using Cons.prems(4,5) by auto
    show ?thesis
    proof (cases "passes_filter E c out")
      case True
      have s1: "apart E arn q s s1"
        using apart_trans[OF o1 deliver_apart[OF env apart_ok[OF o1 ok] apart_found[OF o1 q] c d]] .
      have s2: "apart E arn q s (?s2 k)" for k using apart_trans[OF s1 emit_apart] by blast
      from Cons.IH[OF apart_ok[OF s2 ok] apart_found[OF s2 q] _ b rest, of "case r of Inl _ \<Rightarrow> False | Inr _ \<Rightarrow> True" "Suc i"]
        Cons.prems(3) apart_trans[OF s2] show ?thesis unfolding step[OF True] by (metis distinct.simps(2))
    next
      case False
      with Cons.IH[OF ok q _ b rest] Cons.prems(3) show ?thesis by simp
    qed
  qed
qed simp

subsection \<open>Filter policies\<close>

text \<open>Conditions an attribute meets, by the documentation of filter policies: a text equal to the condition, with a
  prefix, or of a pattern; an integer that compares as asked; an attribute that is there, or is not.\<close>

inductive accepts :: "json \<Rightarrow> msg_attr option \<Rightarrow> bool" where
  accepts_text: "data_type a = ''String'' \<Longrightarrow> string_value a = Some x \<Longrightarrow> accepts (JStr x) (Some a)"
| accepts_prefix: "data_type a = ''String'' \<Longrightarrow> string_value a = Some (p @ rest) \<Longrightarrow>
    accepts (JObj [(''prefix'', JStr p)]) (Some a)"
| accepts_pattern: "data_type a = ''String'' \<Longrightarrow> string_value a = Some x \<Longrightarrow> glob p x \<Longrightarrow>
    accepts (JObj [(''wildcard'', JStr p)]) (Some a)"
| accepts_number: "\<bar>m\<bar> < 2 ^ 53 \<Longrightarrow> \<bar>n\<bar> < 2 ^ 53 \<Longrightarrow> int_compare op m n \<Longrightarrow>
    accepts (JObj [(''numeric'', JArr [JStr op, JInt n])]) (Some (int_attr m))"
| accepts_present: "string_value a \<noteq> None \<Longrightarrow> accepts (JObj [(''exists'', JBool True)]) (Some a)"
| accepts_absent: "accepts (JObj [(''exists'', JBool False)]) None"

text \<open>A policy on attributes: for every key one of its conditions is met.\<close>

definition policy_met :: "externals \<Rightarrow> sns_subscription \<Rightarrow> msg_attrs \<Rightarrow> bool" where
  "policy_met E b attrs \<longleftrightarrow> (case map_of (s_attributes b) ''FilterPolicy'' of
     None \<Rightarrow> True
   | Some p \<Rightarrow> map_of (s_attributes b) ''FilterPolicyScope'' \<noteq> Some ''MessageBody''
       \<and> (\<exists>m. json_parse E p = Some (JObj m) \<and> (\<forall>(k, v)\<in>set m. k \<noteq> ''$or''
            \<and> (\<exists>conds. v = JArr conds \<and> (\<exists>c\<in>set conds. accepts c (map_of attrs k))))))"

lemma accepts_match: "accepts c a \<Longrightarrow> match_condition E c (Option.bind a (attr_values E))"
proof (induction rule: accepts.induct)
  case (accepts_text a x)
  then show ?case by (simp add: match_condition_def attr_values_def base_type_def)
next
  case (accepts_prefix a p rest)
  then show ?case
    by (simp add: match_condition_def match_object_def string_op_def any_str_def attr_values_def base_type_def starts_with_iff)
next
  case (accepts_pattern a x p)
  then show ?case
    by (simp add: match_condition_def match_object_def any_str_def attr_values_def base_type_def wildcard_glob)
next
  case (accepts_number m n op)
  then show ?case
    by (simp add: match_condition_def match_object_def int_attr_values f64_of_int_small numeric_def numeric_op_int)
qed (auto simp: match_condition_def attr_values_def)

lemma policy_met_passes:
  assumes "policy_met E b (o_attributes out)"
  shows "passes_filter E b out"
proof (cases "map_of (s_attributes b) ''FilterPolicy''")
  case (Some p)
  with assms obtain m where m: "json_parse E p = Some (JObj m)" "map_of (s_attributes b) ''FilterPolicyScope'' \<noteq> Some ''MessageBody''"
    "\<forall>(k, v)\<in>set m. k \<noteq> ''$or'' \<and> (\<exists>conds. v = JArr conds \<and> (\<exists>c\<in>set conds. accepts c (map_of (o_attributes out) k)))"
    by (auto simp: policy_met_def)
  have "match_attrs E (JObj m) (o_attributes out)"
    using m(3) accepts_match by (fastforce simp: list_all_iff match_conditions_def list_ex_iff conditions_of_def)
  with m Some show ?thesis by (auto simp: passes_filter_def filter_matches_def split: option.split)
qed (simp add: passes_filter_def)
subsection \<open>A published message arrives\<close>


subsection \<open>A topic with a subscription\<close>

definition sample_sub :: "string \<Rightarrow> string \<Rightarrow> sns_subscription" where
  "sample_sub protocol endpoint = \<lparr> s_arn = topic_arn ''t'' @ '':0'', s_topic_arn = topic_arn ''t'', s_protocol = protocol,
     s_endpoint = endpoint, s_attributes = [(''RawMessageDelivery'', ''true'')] \<rparr>"

definition sample_sns :: "sns_subscription \<Rightarrow> sns_app" where
  "sample_sns b = (sns_init sample_empty)\<lparr>
     sns_topics := [\<lparr> tr_topic = sample_topic, tr_name = ''t'', tr_created_at = ''5'', tr_fifo_seq = 0 \<rparr>],
     sns_subscriptions := [\<lparr> sr_sub = b, sr_created_at = ''5'' \<rparr>] \<rparr>"

definition sample_publish :: publish_request where
  "sample_publish = \<lparr> pr_topic_arn = Some (topic_arn ''t''), pr_phone_number = None, pr_message = ''x'', pr_subject = None,
     pr_message_structure = None, pr_attributes = [], pr_group_id = None, pr_dedup_id = None \<rparr>"

lemma sample_check: "publish_check sample_ext sample_publish = Inr [(''default'', ''x'')]"
  by (simp add: publish_check_def sample_publish_def MAX_MESSAGE_BYTES_def attribute_bytes_def subject_ok_def message_bodies_def)

lemma sample_arn: "topic_arn ''t'' \<noteq> []" "\<not> str_contains (topic_arn ''t'') '':endpoint/''"
  by (simp_all add: topic_arn_def REGION_def ACCOUNT_ID_def starts_with_def)

lemma sample_find [simp]:
  "find_topic (topic_arn ''t'') (sample_sns b) = Some sample_topic" "\<not> topic_is_fifo sample_topic"
  by (simp_all add: find_topic_def sample_sns_def sample_topic_def topic_is_fifo_def)

lemma sample_list [simp]: "list_subscriptions (Some (topic_arn ''t'')) (sample_sns (sample_sub p e)) = [sample_sub p e]"
  by (simp add: list_subscriptions_def sample_sns_def sample_sub_def)

lemma sample_raw [simp]: "raw_delivery (sample_sub p e)" "map_of (s_attributes (sample_sub p e)) ''FilterPolicy'' = None"
  "s_protocol (sample_sub p e) = p" "s_endpoint (sample_sub p e) = e"
  by (simp_all add: raw_delivery_def sample_sub_def eq_ignore_ascii_case_def)

lemma sample_publishes:
  "\<exists>r s'. publish sample_ext (\<lambda>_. None) ''http://localhost'' (\<lambda>_ s. s) sample_publish 9
     (sample_sns (sample_sub ''http'' ''http://client'')) = (Inr r, s')"
proof -
  have pr: "pr_topic_arn sample_publish = Some (topic_arn ''t'')" "pr_group_id sample_publish = None" "pr_attributes sample_publish = []"
    by (simp_all add: sample_publish_def)
  have keep: "find_topic a (s\<lparr> sns_queues := d \<rparr>) = find_topic a s"
    "list_subscriptions t (s\<lparr> sns_queues := d \<rparr>) = list_subscriptions t s" for a s d t
    by (simp_all add: find_topic_def list_subscriptions_def)
  have arn: "t_arn sample_topic = topic_arn ''t''" by (simp add: sample_topic_def)
  show ?thesis
    by (simp add: publish_def publish_to_def act_bind_def act_result_def act_return_def Let_def draw_uuid_def get_topic_def
        fifo_fields_def pause_def fan_out_def sns_read_def record_message_def sns_write_def sns_emit_def keep pr arn sample_arn sample_check
        passes_filter_def deliver_def split: prod.splits)
qed

theorem sns_publish_accounts_witness:
  "\<exists>r s' out ok. publish sample_ext (\<lambda>_. None) ''http://localhost'' (\<lambda>_ s. s) sample_publish 9
       (sample_sns (sample_sub ''http'' ''http://client'')) = (Inr r, s')
     \<and> delivery_reports s' = [delivery_report sample_ext out 9 (sample_sub ''http'' ''http://client'', ok)]
     \<and> (\<exists>row. sns_messages s' = [row] \<and> sm_body row = ''x'' \<and> sm_delivered row = (if ok then 1 else 0))"
proof -
  let ?b = "sample_sub ''http'' ''http://client''"
  obtain r s' where run: "publish sample_ext (\<lambda>_. None) ''http://localhost'' (\<lambda>_ s. s) sample_publish 9 (sample_sns ?b) = (Inr r, s')"
    using sample_publishes by blast
  have pr: "pr_topic_arn sample_publish = Some (topic_arn ''t'')" by (simp add: sample_publish_def)
  have pass: "passes_filter sample_ext ?b out" for out by (simp add: passes_filter_def)
  have none: "delivery_reports (sample_sns ?b) = []" "sns_messages (sample_sns ?b) = []"
    by (simp_all add: delivery_reports_def sample_sns_def sns_init_def)
  from sns_publish_accounts[OF run pr sample_arn] obtain out oks row where "length oks = 1"
    "delivery_reports s' = map (delivery_report sample_ext out 9) (zip [?b] oks)" "sns_messages s' = [row]"
    "sm_body row = pr_message sample_publish" "sm_delivered row = int (length (filter (\<lambda>ok. ok) oks))"
    by (auto simp: pass none)
  then have "\<exists>ok. oks = [ok] \<and> delivery_reports s' = [delivery_report sample_ext out 9 (?b, ok)]
      \<and> (\<exists>row. sns_messages s' = [row] \<and> sm_body row = ''x'' \<and> sm_delivered row = (if ok then 1 else 0))"
    by (cases oks) (auto simp: sample_publish_def)
  with run show ?thesis by blast
qed

lemma sample_get_queue: "get_queue sample_ext (queue_arn ''jobs'') sample_empty = Inr (sample_read False)"
proof -
  have "visible_word (queue_arn ''jobs'')" by (simp add: visible_word_def visible_def queue_arn_def)
  then have "queue_name_of (queue_arn ''jobs'') = ''jobs''"
    unfolding queue_name_of_def by (simp add: trim_word(1)) (simp add: trim_end_char_def queue_arn_def starts_with_def REGION_def ACCOUNT_ID_def)
  then show ?thesis
    by (simp add: get_queue_def require_queue_def find_queue_def sample_empty_def purge_queue_tx_def sample_db_def
        sample_queue_def queue_from_row_def sample_read_def)
qed

lemma sample_sns_ok: "sns_ok sample_ext (sample_sns (sample_sub ''sqs'' (queue_arn ''jobs'')))"
proof -
  have "valid_topic_name ''t''"
    by (simp add: valid_topic_name_def strip_suffix_def ends_with_def is_alnum_def is_lower_def)
  moreover have "validate_subscription_attr sample_ext ''RawMessageDelivery'' ''true'' = Inr ''true''"
    by (simp add: validate_subscription_attr_def SUBSCRIPTION_ATTRS_def normalize_bool_def bool_texts)
  moreover have "endpoint_ok ''sqs'' (queue_arn ''jobs'')" "''sqs'' \<in> set PROTOCOLS"
    by (simp_all add: endpoint_ok_def queue_arn_def starts_with_def PROTOCOLS_def)
  ultimately show ?thesis
    using sample_find(2)
    by (simp add: sns_ok_def sample_sns_def sns_init_def topic_ok_def subscription_ok_def sample_sub_def starts_with_iff
        del: sample_raw) (simp add: sample_topic_def ends_with_def bt_ok_def)
qed

text \<open>A topic with two subscriptions, an HTTP endpoint and then the queue, which filters on an attribute.\<close>

definition kind_attr :: msg_attr where
  "kind_attr = \<lparr> data_type = ''String'', string_value = Some ''x'', binary_value = None \<rparr>"

definition kind_policy :: json where
  "kind_policy = JObj [(''kind'', JArr [JStr ''x''])]"

definition filtered_sub :: sns_subscription where
  "filtered_sub = \<lparr> s_arn = topic_arn ''t'' @ '':1'', s_topic_arn = topic_arn ''t'', s_protocol = ''sqs'', s_endpoint = queue_arn ''jobs'',
     s_attributes = [(''FilterPolicy'', json_print sample_ext kind_policy), (''RawMessageDelivery'', ''true'')] \<rparr>"

definition two_subs :: sns_app where
  "two_subs = (sample_sns (sample_sub ''http'' ''http://client''))\<lparr>
     sns_subscriptions := [\<lparr> sr_sub = sample_sub ''http'' ''http://client'', sr_created_at = ''5'' \<rparr>,
       \<lparr> sr_sub = filtered_sub, sr_created_at = ''6'' \<rparr>] \<rparr>"

definition kind_publish :: publish_request where
  "kind_publish = sample_publish\<lparr> pr_attributes := [(''kind'', kind_attr)] \<rparr>"

lemma kind_policy_parse: "json_parse sample_ext (json_print sample_ext kind_policy) = Some kind_policy"
  "json_print sample_ext kind_policy \<noteq> []"
proof -
  have "json_ok kind_policy" by code_simp
  then show "json_parse sample_ext (json_print sample_ext kind_policy) = Some kind_policy"
    using sample_ext_laws(5) by (simp add: json_roundtrip_def)
  show "json_print sample_ext kind_policy \<noteq> []" by (simp add: sample_ext_def sample_json_print_def)
qed

lemma two_subs_ok: "sns_ok sample_ext two_subs"
proof -
  have "validate_subscription_attr sample_ext ''RawMessageDelivery'' ''true'' = Inr ''true''"
    by (simp add: validate_subscription_attr_def SUBSCRIPTION_ATTRS_def normalize_bool_def bool_texts)
  moreover have "validate_subscription_attr sample_ext ''FilterPolicy'' (json_print sample_ext kind_policy) = Inr (json_print sample_ext kind_policy)"
    using kind_policy_parse by (simp add: validate_subscription_attr_def SUBSCRIPTION_ATTRS_def filter_validate_def) (simp add: kind_policy_def)
  moreover have "endpoint_ok ''sqs'' (queue_arn ''jobs'')" "endpoint_ok ''http'' ''http://client''" "''sqs'' \<in> set PROTOCOLS" "''http'' \<in> set PROTOCOLS"
    by (simp_all add: endpoint_ok_def queue_arn_def starts_with_def PROTOCOLS_def)
  moreover have "sns_ok sample_ext (sample_sns (sample_sub ''sqs'' (queue_arn ''jobs'')))" by (rule sample_sns_ok)
  ultimately show ?thesis
    using kind_policy_parse(2)
    by (simp add: sns_ok_def two_subs_def sample_sns_def sns_init_def subscription_ok_def sample_sub_def filtered_sub_def starts_with_iff
        del: sample_raw) (simp add: bt_ok_def)
qed


end
