(* ===== verification/Sqs_Seed.thy ===== *)
theory Sqs_Seed
  imports Sqs_Samples
begin

text \<open>
  SQS, part 9: provisioning from a seed document (\<open>seed\<close> and \<open>value_map\<close> of src/src/aws/sqs/mod.rs).

  The document lists queues; the ones that exist get their attributes and tags updated, the others
  are created, and redrive policies are set when all queues are there.  The seed runs alone, as at
  start-up.
\<close>

subsection \<open>Reading the document\<close>

definition seed_name :: "json \<Rightarrow> string option" where
  "seed_name q = (case as_str q of Some n \<Rightarrow> Some n | None \<Rightarrow> json_str ''name'' q)"

definition value_map :: "externals \<Rightarrow> json option \<Rightarrow> string btree" where
  "value_map E v =
     (case Option.bind v as_object of
        Some m \<Rightarrow> bt_of_list (map (\<lambda>(k, w). (k, plain_text E w)) m)
      | None \<Rightarrow> [])"

definition absolute_target :: "json \<Rightarrow> json" where
  "absolute_target rp =
     (case (json_str ''deadLetterTargetArn'' rp, rp) of
        (Some target, JObj m) \<Rightarrow> JObj (bt_insert ''deadLetterTargetArn'' (JStr (arn_for target)) m)
      | _ \<Rightarrow> rp)"

text \<open>The redrive policy of an entry, a text or a map.\<close>

definition seed_redrive :: "externals \<Rightarrow> json \<Rightarrow> (string, string option) result" where
  "seed_redrive E q =
     (case Option.bind (json_get ''attributes'' q) (json_get ''RedrivePolicy'') of
        None \<Rightarrow> Inr None
      | Some rp \<Rightarrow>
          try_bind (case rp of
                      JStr s \<Rightarrow> (case json_parse E s of Some v \<Rightarrow> Inr v | None \<Rightarrow> Inl (json_error E s))
                    | _ \<Rightarrow> Inr rp)
            (\<lambda>v. Inr (Some (json_print E (absolute_target v)))))"

definition seed_attrs :: "externals \<Rightarrow> string \<Rightarrow> json \<Rightarrow> string btree" where
  "seed_attrs E name q =
     (let attrs = bt_remove ''RedrivePolicy'' (value_map E (json_get ''attributes'' q)) in
      if ends_with name ''.fifo'' \<and> bt_get attrs ''FifoQueue'' = None then bt_insert ''FifoQueue'' ''true'' attrs
      else attrs)"

subsection \<open>The seed\<close>

text \<open>An error of the service, as the text \<open>anyhow\<close> keeps of it.\<close>

definition sqs_text :: "(sqs_error, 'a) result \<times> 's \<Rightarrow> (string, unit) result \<times> 's" where
  "sqs_text r = (case r of
     (Inl e, s) \<Rightarrow> (Inl (err_code e @ '': '' @ err_message e), s) | (Inr _, s) \<Rightarrow> (Inr (), s))"

definition seed_queue ::
    "externals \<Rightarrow> string \<Rightarrow> int \<Rightarrow> string \<Rightarrow> json \<Rightarrow> (sqs_db, string, unit) action" where
  "seed_queue E base now name q = (\<lambda>db.
     let attrs = seed_attrs E name q; tags = value_map E (json_get ''tags'' q) in
     case get_queue E name db of
       Inr _ \<Rightarrow>
         (let attrs' = bt_remove ''FifoQueue'' attrs in
          act_bind (if attrs' = [] then act_return () else (\<lambda>d. sqs_text (set_queue_attributes E name attrs' now d)))
            (\<lambda>_. if tags = [] then act_return () else (\<lambda>d. sqs_text (tag_queue E name tags d))) db)
     | Inl _ \<Rightarrow> sqs_text (create_queue E base name attrs tags now db))"

fun seed_queues ::
    "externals \<Rightarrow> string \<Rightarrow> int \<Rightarrow> json list \<Rightarrow> (string \<times> string) list
      \<Rightarrow> (sqs_db, string, (string \<times> string) list) action" where
  "seed_queues E base now [] redrives = act_return redrives"
| "seed_queues E base now (q # qs) redrives =
     (case seed_name q of
        None \<Rightarrow> seed_queues E base now qs redrives
      | Some name \<Rightarrow>
          act_bind (act_result (seed_redrive E q)) (\<lambda>rp.
          act_bind (seed_queue E base now name q) (\<lambda>_.
          seed_queues E base now qs
            (redrives @ (case rp of Some r \<Rightarrow> [(name, r)] | None \<Rightarrow> [])))))"

fun seed_redrives :: "externals \<Rightarrow> int \<Rightarrow> (string \<times> string) list \<Rightarrow> (sqs_db, string, unit) action" where
  "seed_redrives E now [] = act_return ()"
| "seed_redrives E now ((name, rp) # rest) =
     act_bind (\<lambda>db. sqs_text (set_queue_attributes E name [(''RedrivePolicy'', rp)] now db))
       (\<lambda>_. seed_redrives E now rest)"

definition sqs_seed :: "externals \<Rightarrow> string \<Rightarrow> json \<Rightarrow> int \<Rightarrow> (sqs_db, string, unit) action" where
  "sqs_seed E base doc now =
     act_bind (seed_queues E base now (seed_items ''queues'' doc) []) (seed_redrives E now)"


subsection \<open>What seeding keeps\<close>

abbreviation queue_rows :: "sqs_db \<Rightarrow> (int \<times> string) list" where
  "queue_rows db \<equiv> map (\<lambda>r. (qr_id r, qr_name r)) (sqs_queues db)"

definition has_queue :: "string \<Rightarrow> sqs_db \<Rightarrow> bool" where
  "has_queue n db \<longleftrightarrow> queue_name_of n \<noteq> [] \<and> queue_name_of n \<in> qr_name ` set (sqs_queues db)"

lemma row_names: "queue_rows db' = queue_rows db @ xs \<Longrightarrow> qr_name ` set (sqs_queues db) \<subseteq> qr_name ` set (sqs_queues db')"
  by (drule arg_cong[where f = "\<lambda>l. set (map snd l)"]) (auto simp: image_image)

lemma has_queue_get: "has_queue n db \<longleftrightarrow> (\<exists>q. get_queue E n db = Inr q)"
proof -
  have "find_queue E (queue_name_of n) db = None \<longleftrightarrow> queue_name_of n \<notin> qr_name ` set (sqs_queues db)"
    by (auto simp: find_queue_def find_None_set image_iff eq_commute[of "queue_name_of n"])
  then show ?thesis by (auto simp: has_queue_def get_queue_def require_queue_def Let_def split: option.splits)
qed

text \<open>Seeding queues with these names: rows are only added, and none when all names are there.\<close>

definition seeded :: "externals \<Rightarrow> string set \<Rightarrow> sqs_db \<Rightarrow> sqs_db \<Rightarrow> bool" where
  "seeded E names db db' \<longleftrightarrow> sqs_ok E db'
     \<and> (\<exists>xs. queue_rows db' = queue_rows db @ xs \<and> ((\<forall>n\<in>names. has_queue n db) \<longrightarrow> xs = []))"

lemma seeded_refl: "sqs_ok E db \<Longrightarrow> seeded E names db db"
  by (simp add: seeded_def)

lemma seeded_has: "seeded E names db db' \<Longrightarrow> has_queue n db \<Longrightarrow> has_queue n db'"
  using row_names unfolding seeded_def has_queue_def by blast

lemma seeded_trans:
  assumes "seeded E names db db1" "seeded E names' db1 db2"
  shows "seeded E (names \<union> names') db db2"
proof -
  obtain xs ys where rows: "queue_rows db1 = queue_rows db @ xs" "queue_rows db2 = queue_rows db1 @ ys"
    and none: "(\<forall>n\<in>names. has_queue n db) \<Longrightarrow> xs = []" "(\<forall>n\<in>names'. has_queue n db1) \<Longrightarrow> ys = []"
    using assms unfolding seeded_def by blast
  have "xs @ ys = []" if "\<forall>n\<in>names \<union> names'. has_queue n db"
    using none that seeded_has[OF assms(1)] by simp
  with rows assms(2) show ?thesis by (auto simp: seeded_def)
qed

lemma seeded_same: "sqs_ok E db' \<Longrightarrow> queue_rows db' = queue_rows db \<Longrightarrow> seeded E names db db'"
  by (simp add: seeded_def)

lemma rows_update:
  "(\<And>r. qr_name (f r) = qr_name r \<and> qr_id (f r) = qr_id r) \<Longrightarrow> sqs_queues db' = sql_update P f (sqs_queues db) \<Longrightarrow>
   queue_rows db' = queue_rows db"
  by (simp add: map_key_sql_update)

lemma set_queue_attributes_seeded:
  assumes "sqs_ok E db" "set_queue_attributes E n attrs now db = (res, db')"
  shows "seeded E names db db'"
proof (cases "get_queue E n db")
  case (Inl e)
  with assms show ?thesis by (simp add: set_queue_attributes_def with_queue_def seeded_refl)
next
  case (Inr q)
  with assms(2) have run: "set_attributes_tx E q attrs now db = (res, db')"
    by (simp add: set_queue_attributes_def with_queue_def)
  have qs: "queues_ok db" using assms(1) by (simp add: sqs_ok_def)
  have "queue_rows db' = queue_rows db"
    using run
  proof (cases rule: set_attributes_cases)
    case (changed m)
    then show ?thesis by (intro rows_update[where P = "\<lambda>r. qr_id r = q_id q" and f = "\<lambda>r. r\<lparr> qr_attributes :=
        fold merge_attr m (q_attributes q), qr_modified_ts := now div 1000 \<rparr>"]) simp_all
  qed simp
  with set_attributes_ok[OF assms(1) get_queue_snapshot[OF qs Inr] read_named_as[OF qs Inr] run] show ?thesis
    by (rule seeded_same)
qed

lemma tag_queue_seeded:
  assumes "sqs_ok E db" "tag_queue E n tags db = (res, db')"
  shows "seeded E names db db'"
proof (cases "get_queue E n db")
  case (Inl e)
  with assms show ?thesis by (simp add: tag_queue_def with_queue_def seeded_refl)
next
  case (Inr q)
  with assms(2) have run: "write_tags (q_id q) (bt_extend (q_tags q) tags) db = (res, db')"
    by (simp add: tag_queue_def with_queue_def tag_queue_tx_def)
  then have "queue_rows db' = queue_rows db"
    using rows_update[of "\<lambda>r. r\<lparr> qr_tags := bt_extend (q_tags q) tags \<rparr>" db' "\<lambda>r. qr_id r = q_id q" db]
    by (auto simp: write_tags_def split: if_splits)
  with write_tags_ok[OF assms(1) run] show ?thesis by (rule seeded_same)
qed


lemma create_queue_seeded:
  assumes ok: "sqs_ok E db" and run: "create_queue_tx E name url attrs tags now db = (res, db')"
    and new: "\<not> has_queue name db"
  shows "seeded E {name} db db' \<and> (res = Inr () \<longrightarrow> has_queue name db')"
proof -
  have "sqs_ok E db'" by (rule create_queue_ok[OF ok run])
  moreover have "\<exists>xs. queue_rows db' = queue_rows db @ xs"
    using run by (cases rule: create_queue_cases) auto
  moreover have "has_queue name db'" if "res = Inr ()"
  proof -
    have v: "valid_queue_name name" using run that by (auto simp: create_queue_tx_def split: if_splits)
    then have n: "queue_name_of name = name" by (rule queue_name_of_valid)
    from run show ?thesis
    proof (cases rule: create_queue_cases)
      case same
      show ?thesis
      proof (cases "find_queue E name db")
        case None
        with run that have "next_queue_id db' = next_queue_id db + 1"
          by (auto simp: create_queue_tx_def Let_def split: if_splits sum.splits)
        with same have False by simp
        then show ?thesis ..
      next
        case (Some x)
        with v n new show ?thesis
          by (auto simp: has_queue_def find_queue_def valid_queue_name_nonempty image_iff dest!: find_Some_set)
      qed
    next
      case (added m)
      with v n show ?thesis by (simp add: has_queue_def valid_queue_name_nonempty)
    qed
  qed
  ultimately show ?thesis using new by (auto simp: seeded_def)
qed

lemma sqs_text_eq: "sqs_text p = (r, s) \<longleftrightarrow> snd p = s \<and>
    r = (case fst p of Inl e \<Rightarrow> Inl (err_code e @ '': '' @ err_message e) | Inr _ \<Rightarrow> Inr ())"
  by (cases p) (auto simp: sqs_text_def split: sum.splits)

lemma seed_queue_seeded:
  assumes ok: "sqs_ok E db" and run: "seed_queue E base now name q db = (res, db')"
  shows "seeded E {name} db db' \<and> (res = Inr () \<longrightarrow> has_queue name db')"
proof (cases "get_queue E name db")
  case (Inl e)
  then have new: "\<not> has_queue name db" by (simp add: has_queue_get[of _ _ E])
  from Inl run obtain r where r: "create_queue_tx E name (queue_url base name) (seed_attrs E name q)
      (value_map E (json_get ''tags'' q)) now db = (r, db')" "res = Inr () \<Longrightarrow> r = Inr ()"
    by (auto simp: seed_queue_def Let_def create_queue_def sqs_text_eq split: prod.splits sum.splits)
  with create_queue_seeded[OF ok r(1) new] show ?thesis by blast
next
  case (Inr x)
  let ?a = "bt_remove ''FifoQueue'' (seed_attrs E name q)" and ?t = "value_map E (json_get ''tags'' q)"
  let ?m = "if ?a = [] then act_return () else (\<lambda>d. sqs_text (set_queue_attributes E name ?a now d))"
  have old: "has_queue name db" using Inr by (auto simp: has_queue_get[of _ _ E])
  have m: "seeded E {name} db d" if "?m db = (r, d)" for r d
    using that set_queue_attributes_seeded[OF ok] seeded_refl[OF ok]
    by (cases "set_queue_attributes E name ?a now db") (auto simp: sqs_text_eq act_return_def split: if_splits)
  have f: "seeded E {name} d db'"
    if "(if ?t = [] then act_return () else (\<lambda>d. sqs_text (tag_queue E name ?t d))) d = (r, db')" "sqs_ok E d" for d r
    using that tag_queue_seeded[OF that(2)] seeded_refl[OF that(2)]
    by (cases "tag_queue E name ?t d") (auto simp: sqs_text_eq act_return_def split: if_splits)
  from run Inr have "act_bind ?m (\<lambda>_. if ?t = [] then act_return () else (\<lambda>d. sqs_text (tag_queue E name ?t d))) db = (res, db')"
    by (simp add: seed_queue_def Let_def)
  then have "seeded E {name} db db'"
  proof (cases rule: act_bind_cases)
    case (go v t)
    with m[OF go(1)] f[OF go(2)] seeded_trans[of E "{name}" db t "{name}" db'] show ?thesis
      by (simp add: seeded_def)
  qed (rule m)
  with old show ?thesis using seeded_has by blast
qed


definition seed_names :: "json list \<Rightarrow> string set" where
  "seed_names qs = {n. \<exists>q\<in>set qs. seed_name q = Some n}"

lemma seed_names_simps [simp]:
  "seed_names [] = {}"
  "seed_names (q # qs) = (case seed_name q of Some n \<Rightarrow> {n} | None \<Rightarrow> {}) \<union> seed_names qs"
  by (auto simp: seed_names_def split: option.splits)

lemma seed_queues_seeded:
  assumes "sqs_ok E db" "seed_queues E base now qs redrives db = (res, db')"
  shows "seeded E (seed_names qs) db db' \<and> ((\<exists>rs. res = Inr rs) \<longrightarrow> (\<forall>n\<in>seed_names qs. has_queue n db'))"
  using assms
proof (induction qs arbitrary: redrives db)
  case Nil
  then show ?case by (simp add: act_return_def seeded_refl)
next
  case (Cons q qs)
  show ?case
  proof (cases "seed_name q")
    case None
    with Cons.prems Cons.IH[of db redrives] show ?thesis by simp
  next
    case (Some name)
    with Cons.prems(2) obtain rs where
      "act_bind (act_result (seed_redrive E q)) (\<lambda>rp. act_bind (seed_queue E base now name q) (\<lambda>_.
         seed_queues E base now qs (rs rp))) db = (res, db')" by auto
    then show ?thesis
    proof (cases rule: act_bind_cases)
      case (fail e)
      then show ?thesis using Cons.prems(1) by (simp add: act_result_def seeded_refl)
    next
      case (go rp t)
      then have "act_bind (seed_queue E base now name q) (\<lambda>_. seed_queues E base now qs (rs rp)) db = (res, db')"
        by (simp add: act_result_def)
      then show ?thesis
      proof (cases rule: act_bind_cases)
        case (fail e)
        with seed_queue_seeded[OF Cons.prems(1) fail(1)] Some show ?thesis by (auto simp: seeded_def)
      next
        case (go u d)
        note one = seed_queue_seeded[OF Cons.prems(1) go(1)]
        then have "sqs_ok E d" by (simp add: seeded_def)
        note rest = Cons.IH[OF this go(2)]
        have "seeded E ({name} \<union> seed_names qs) db db'" using one rest by (blast intro: seeded_trans)
        moreover have "has_queue name db'" using one rest seeded_has by auto
        ultimately show ?thesis using rest Some by simp
      qed
    qed
  qed
qed

lemma seed_redrives_seeded:
  assumes "sqs_ok E db" "seed_redrives E now rs db = (res, db')"
  shows "seeded E {} db db'"
  using assms
proof (induction rs arbitrary: db)
  case Nil
  then show ?case by (simp add: act_return_def seeded_refl)
next
  case (Cons r rs)
  obtain name rp where r: "r = (name, rp)" by (cases r)
  let ?m = "\<lambda>db. sqs_text (set_queue_attributes E name [(''RedrivePolicy'', rp)] now db)"
  have m: "seeded E {} db d" if "?m db = (x, d)" for x d
    using that set_queue_attributes_seeded[OF Cons.prems(1)]
    by (cases "set_queue_attributes E name [(''RedrivePolicy'', rp)] now db") (auto simp: sqs_text_eq)
  from Cons.prems(2) r have "act_bind ?m (\<lambda>_. seed_redrives E now rs) db = (res, db')" by simp
  then show ?case
  proof (cases rule: act_bind_cases)
    case (go v t)
    from m[OF go(1)] have "seeded E {} db t" "sqs_ok E t" by (simp_all add: seeded_def)
    with Cons.IH[OF _ go(2)] seeded_trans[of E "{}" db t "{}" db'] show ?thesis by simp
  qed (rule m)
qed

lemma sqs_seed_seeded:
  assumes "sqs_ok E db" "sqs_seed E base doc now db = (res, db')"
  shows "seeded E (seed_names (seed_items ''queues'' doc)) db db'
    \<and> (res = Inr () \<longrightarrow> (\<forall>n\<in>seed_names (seed_items ''queues'' doc). has_queue n db'))"
  using assms(2) unfolding sqs_seed_def
proof (cases rule: act_bind_cases)
  case (fail e)
  with seed_queues_seeded[OF assms(1) fail(1)] show ?thesis by simp
next
  case (go rs d)
  note one = seed_queues_seeded[OF assms(1) go(1)]
  then have "sqs_ok E d" by (simp add: seeded_def)
  note rest = seed_redrives_seeded[OF this go(2)]
  from one rest seeded_trans[of E _ db d "{}" db'] have "seeded E (seed_names (seed_items ''queues'' doc)) db db'" by simp
  with one rest show ?thesis by (auto intro: seeded_has)
qed

text \<open>
  Seeding queues.  A seed leaves the tables well formed and removes no queue, whether it succeeds or
  stops at an error; after one that succeeds every queue the document names is found; and applying the
  document again adds no queue.
\<close>

theorem sqs_seed_provisions:
  assumes "sqs_ok E db" "sqs_seed E base doc now db = (res, db')"
  shows "sqs_ok E db' \<and> (\<exists>new. queue_rows db' = queue_rows db @ new)
    \<and> (res = Inr () \<longrightarrow>
        (\<forall>q\<in>set (seed_items ''queues'' doc). \<forall>n. seed_name q = Some n \<longrightarrow> (\<exists>queue. get_queue E n db' = Inr queue))
      \<and> queue_rows (snd (sqs_seed E base doc now' db')) = queue_rows db')"
proof -
  note one = sqs_seed_seeded[OF assms]
  then have ok: "sqs_ok E db'" by (simp add: seeded_def)
  obtain res2 db2 where again: "sqs_seed E base doc now' db' = (res2, db2)" by fastforce
  have "queue_rows db2 = queue_rows db'" if "res = Inr ()"
    using sqs_seed_seeded[OF ok again] one that by (auto simp: seeded_def)
  with one ok again show ?thesis
    by (auto simp: seeded_def seed_names_def has_queue_get[of _ _ E])
qed


definition sample_seed :: json where
  "sample_seed = JObj [(''queues'', JArr [JStr ''jobs'', JObj [(''name'', JStr ''b'')]])]"

lemma seed_plain:
  assumes "seed_attrs E name q = []" "value_map E (json_get ''tags'' q) = []" "valid_queue_name name"
    and "\<not> ends_with name ''.fifo''" "name \<notin> qr_name ` set (sqs_queues db)"
  shows "\<exists>db'. seed_queue E base now name q db = (Inr (), db')
    \<and> queue_rows db' = queue_rows db @ [(next_queue_id db, name)] \<and> next_queue_id db' = next_queue_id db + 1"
proof -
  have none: "find_queue E name db = None" using assms(5) by (auto simp: find_queue_def find_None_set)
  then have "get_queue E name db = Inl queue_does_not_exist"
    using queue_name_of_valid[OF assms(3)] by (simp add: get_queue_def require_queue_def)
  with assms none show ?thesis
    by (simp add: seed_queue_def create_queue_def create_queue_tx_def validate_attributes_def Let_def sqs_text_def)
qed

lemma sample_seed_run:
  "\<exists>db'. sqs_seed sample_ext ''http://localhost'' sample_seed 9 sqs_init = (Inr (), db')
     \<and> queue_rows db' = [(1, ''jobs''), (2, ''b'')]"
proof -
  let ?seed = "seed_queue sample_ext ''http://localhost'' 9"
  let ?b = "JObj [(''name'', JStr ''b'')]"
  have name: "valid_queue_name ''jobs''" "valid_queue_name ''b''"
    by (simp_all add: valid_queue_name_def strip_suffix_def ends_with_def is_alnum_def is_lower_def)
  have attrs: "seed_attrs sample_ext ''jobs'' (JStr ''jobs'') = []" "seed_attrs sample_ext ''b'' ?b = []"
    "value_map sample_ext (json_get ''tags'' (JStr ''jobs'')) = []" "value_map sample_ext (json_get ''tags'' ?b) = []"
    by (simp_all add: seed_attrs_def value_map_def ends_with_def bt_remove_def)
  obtain db1 where one: "?seed ''jobs'' (JStr ''jobs'') sqs_init = (Inr (), db1)"
    "queue_rows db1 = [(1, ''jobs'')]" "next_queue_id db1 = 2"
    using seed_plain[OF attrs(1,3) name(1), of sqs_init "''http://localhost''" 9] by (auto simp: ends_with_def sqs_init_def)
  have "qr_name ` set (sqs_queues db1) = set (map snd (queue_rows db1))" by (simp add: image_image)
  also have "\<dots> = {''jobs''}" unfolding one(2) by simp
  finally have names: "qr_name ` set (sqs_queues db1) = {''jobs''}" .
  have fresh: "''b'' \<notin> qr_name ` set (sqs_queues db1)" "\<not> ends_with ''b'' ''.fifo''" unfolding names by (simp_all add: ends_with_def)
  obtain db2 where two: "?seed ''b'' ?b db1 = (Inr (), db2)" "queue_rows db2 = [(1, ''jobs''), (2, ''b'')]"
    using seed_plain[OF attrs(2,4) name(2) fresh(2,1), of "''http://localhost''" 9] unfolding one(2,3) by (elim exE conjE) simp
  have items: "seed_items ''queues'' sample_seed = [JStr ''jobs'', ?b]" "seed_name (JStr ''jobs'') = Some ''jobs''"
    "seed_name ?b = Some ''b''" "seed_redrive sample_ext (JStr ''jobs'') = Inr None" "seed_redrive sample_ext ?b = Inr None"
    by (simp_all add: sample_seed_def seed_items_def seed_name_def seed_redrive_def)
  have "sqs_seed sample_ext ''http://localhost'' sample_seed 9 sqs_init = (Inr (), db2)"
    by (simp add: sqs_seed_def items act_bind_def act_result_def act_return_def one(1) two(1))
  with two(2) show ?thesis by simp
qed

theorem sqs_seed_provisions_witness:
  "\<exists>db' queue. sqs_seed sample_ext ''http://localhost'' sample_seed 9 sqs_init = (Inr (), db')
     \<and> sqs_ok sample_ext db' \<and> get_queue sample_ext ''b'' db' = Inr queue
     \<and> queue_rows (snd (sqs_seed sample_ext ''http://localhost'' sample_seed 12 db')) = [(1, ''jobs''), (2, ''b'')]"
proof -
  obtain db' where run: "sqs_seed sample_ext ''http://localhost'' sample_seed 9 sqs_init = (Inr (), db')"
    and rows: "queue_rows db' = [(1, ''jobs''), (2, ''b'')]" using sample_seed_run by (elim exE conjE)
  let ?b = "JObj [(''name'', JStr ''b'')]"
  have b: "?b \<in> set (seed_items ''queues'' sample_seed)" "seed_name ?b = Some ''b''"
    by (simp_all add: sample_seed_def seed_items_def seed_name_def)
  note facts = sqs_seed_provisions[OF sqs_ok_init run, of 12]
  from facts have again: "queue_rows (snd (sqs_seed sample_ext ''http://localhost'' sample_seed 12 db')) = queue_rows db'"
    and found: "\<forall>q\<in>set (seed_items ''queues'' sample_seed). \<forall>n. seed_name q = Some n \<longrightarrow> (\<exists>queue. get_queue sample_ext n db' = Inr queue)"
    by (iprover elim: conjE)+
  from found[THEN bspec, OF b(1)] b(2) obtain queue where "get_queue sample_ext ''b'' db' = Inr queue" by iprover
  with run rows again conjunct1[OF facts] show ?thesis by (intro exI[of _ db'] exI[of _ queue]) simp
qed

end
