(* ===== verification/Sns_Seed.thy ===== *)
theory Sns_Seed
  imports Sns_Properties Sqs_Seed
begin

text \<open>
  SNS, part 7: provisioning from a seed document (\<open>seed\<close> and \<open>value_map\<close> of src/src/aws/sns/mod.rs).

  The document lists topics with their subscriptions; topics that exist get their attributes and
  tags updated, the others are created, and then the subscriptions are made.  The seed runs alone,
  as at start-up, so the pauses of the service's operations do nothing.
\<close>

subsection \<open>The seed\<close>

abbreviation alone :: "nat \<Rightarrow> sns_app \<Rightarrow> sns_app" where
  "alone \<equiv> \<lambda>_ s. s"

definition seed_topic_attrs :: "externals \<Rightarrow> string \<Rightarrow> json \<Rightarrow> string btree" where
  "seed_topic_attrs E name t =
     (let attrs = value_map E (json_get ''attributes'' t) in
      if ends_with name ''.fifo'' \<and> bt_get attrs ''FifoTopic'' = None then bt_insert ''FifoTopic'' ''true'' attrs
      else attrs)"

definition seed_topic :: "externals \<Rightarrow> string \<Rightarrow> json \<Rightarrow> int \<Rightarrow> unit sns_action" where
  "seed_topic E name t now =
     (let arn = topic_arn name; attrs = seed_topic_attrs E name t; tags = value_map E (json_get ''tags'' t) in
      act_bind (sns_read (find_topic arn)) (\<lambda>existing.
      case existing of
        Some old \<Rightarrow>
          act_bind (act_all (\<lambda>(k, v). if k = ''FifoTopic'' then act_return () else set_topic_attribute E alone arn k v) attrs) (\<lambda>_.
          if tags = [] then act_return () else set_tags arn (bt_extend (t_tags old) tags))
      | None \<Rightarrow> act_bind (create_topic E alone name attrs tags now) (\<lambda>_. act_return ())))"

definition seed_endpoint :: "json \<Rightarrow> string \<times> string" where
  "seed_endpoint b =
     (let protocol = (case json_str ''protocol'' b of Some p \<Rightarrow> p | None \<Rightarrow> ''sqs'');
          endpoint = (case json_str ''endpoint'' b of Some e \<Rightarrow> e | None \<Rightarrow> [])
      in (protocol,
          if protocol = ''sqs'' \<and> \<not> starts_with endpoint ''arn:'' \<and> \<not> starts_with endpoint ''http''
          then arn_for endpoint else endpoint))"

definition seed_subscription :: "externals \<Rightarrow> string \<Rightarrow> int \<Rightarrow> json \<Rightarrow> unit sns_action" where
  "seed_subscription E arn now b =
     (let (protocol, endpoint) = seed_endpoint b in
      act_bind (subscribe E alone arn protocol endpoint [] now) (\<lambda>sub_arn.
      act_all (\<lambda>(k, v). set_subscription_attribute E alone sub_arn k v) (value_map E (json_get ''attributes'' b))))"

definition seed_entry :: "externals \<Rightarrow> int \<Rightarrow> json \<Rightarrow> unit sns_action" where
  "seed_entry E now t =
     (case seed_name t of
        None \<Rightarrow> act_return ()
      | Some name \<Rightarrow>
          act_bind (seed_topic E name t now) (\<lambda>_.
          act_all (seed_subscription E (topic_arn name) now) (seed_items ''subscriptions'' t)))"

definition sns_seed :: "externals \<Rightarrow> json \<Rightarrow> int \<Rightarrow> unit sns_action" where
  "sns_seed E doc now = act_all (seed_entry E now) (seed_items ''topics'' doc)"

subsection \<open>What seeding keeps\<close>

lemma bt_ok_value_map [simp]: "bt_ok (value_map E v)"
  by (simp add: value_map_def split: option.splits)

lemma seed_entry_keeps:
  assumes "sqs_env E"
  shows "act_keeps (sns_ok E) (seed_entry E now t)"
proof -
  have topic: "act_keeps (sns_ok E) (seed_topic E name t now)" for name t
    unfolding seed_topic_def Let_def
  proof (rule act_keeps_bind_post[where Q = "\<lambda>x. \<forall>old. x = Some old \<longrightarrow> read_topic E (topic_arn name) old"])
    show "act_post (sns_ok E) (sns_read (find_topic (topic_arn name))) (\<lambda>x. \<forall>old. x = Some old \<longrightarrow> read_topic E (topic_arn name) old)"
      by (auto simp: act_post_def sns_read_def find_topic_read)
  qed (auto intro!: sns_intros act_all_keeps set_tags_keeps sns_alone.set_topic_attribute_keeps[OF assms]
        sns_alone.create_topic_keeps[OF assms] bt_ok_extend simp: read_topic_def topic_ok_def split: option.splits)
  have sub: "act_keeps (sns_ok E) (seed_subscription E arn now b)" for arn b
    unfolding seed_subscription_def
    by (auto intro!: sns_intros act_all_keeps sns_alone.subscribe_keeps[OF assms]
        sns_alone.set_subscription_attribute_keeps[OF assms])
  show ?thesis
    unfolding seed_entry_def by (auto intro!: sns_intros act_all_keeps topic sub split: option.splits)
qed

lemma sns_seed_keeps: "sqs_env E \<Longrightarrow> act_keeps (sns_ok E) (sns_seed E doc now)"
  unfolding sns_seed_def by (intro act_all_keeps seed_entry_keeps)


text \<open>No step of a seed removes a topic, and after the step for an entry its topic is there.\<close>

definition has_topic :: "string \<Rightarrow> sns_app \<Rightarrow> bool" where
  "has_topic arn s \<longleftrightarrow> arn \<in> (t_arn \<circ> tr_topic) ` set (sns_topics s)"

lemma has_topic_find: "has_topic arn s \<longleftrightarrow> find_topic arn s \<noteq> None"
  by (auto simp: has_topic_def find_topic_def find_None_set)

lemma has_topic_update: "(\<And>t. t_arn (f t) = t_arn t) \<Longrightarrow> has_topic arn (update_topic a f s) = has_topic arn s"
  using map_key_sql_update[of "\<lambda>r. t_arn (tr_topic r) = a" "t_arn \<circ> tr_topic" "\<lambda>r. r\<lparr> tr_topic := f (tr_topic r) \<rparr>" "sns_topics s"]
  by (simp add: has_topic_def update_topic_def comp_def flip: set_map)

lemma has_topic_insert: "has_topic arn s \<Longrightarrow> has_topic arn (insert_topic E n a t now s)"
  by (simp add: has_topic_def insert_topic_def)

lemma has_topic_subs: "has_topic arn (s\<lparr> sns_subscriptions := x \<rparr>) = has_topic arn s"
  "has_topic arn (s\<lparr> sns_queues := y \<rparr>) = has_topic arn s" "has_topic arn (update_subscription a f s) = has_topic arn s"
  by (simp_all add: has_topic_def update_subscription_def)

lemma read_has: "act_keeps (has_topic arn) (get_topic a)" "act_keeps (has_topic arn) (get_subscription a)"
  "act_keeps (has_topic arn) (draw_uuid E)" "act_keeps (has_topic arn) (insert_subscription E b now)"
  by (auto intro!: act_keepsI simp: get_topic_def get_subscription_def draw_uuid_def insert_subscription_def has_topic_subs
      split: if_splits)

lemmas has_intros = keeps_if keeps_prod keeps_option act_keeps_bind act_keeps_result act_keeps_return
  read_keeps read_has write_keeps pause_keeps has_topic_insert act_all_keeps

lemma seed_steps_have:
  "act_keeps (has_topic arn) (set_topic_attribute E alone a k v)"
  "act_keeps (has_topic arn) (set_tags a tags)"
  "act_keeps (has_topic arn) (create_topic E alone name attrs tags now)"
  "act_keeps (has_topic arn) (subscribe E alone a protocol endpoint as now)"
  "act_keeps (has_topic arn) (set_subscription_attribute E alone a k v)"
  unfolding set_topic_attribute_def set_tags_def create_topic_def subscribe_def set_subscription_attribute_def
  by (auto intro!: has_intros simp: has_topic_update has_topic_subs split: option.splits)


lemma seed_entry_has: "act_keeps (has_topic arn) (seed_entry E now t)"
  unfolding seed_entry_def seed_topic_def seed_subscription_def Let_def
  by (auto intro!: has_intros seed_steps_have split: option.splits)

lemma seed_topic_provides:
  assumes "sns_ok E s" "seed_topic E name t now s = (Inr (), s')"
  shows "has_topic (topic_arn name) s'"
proof (cases "find_topic (topic_arn name) s")
  case (Some old)
  then have "has_topic (topic_arn name) s" by (simp add: has_topic_find)
  moreover have "act_keeps (has_topic (topic_arn name)) (seed_topic E name t now)"
    unfolding seed_topic_def Let_def by (auto intro!: has_intros seed_steps_have split: option.splits)
  ultimately show ?thesis using assms(2) by (blast dest: act_keepsD)
next
  case None
  with assms(2) obtain arn where "create_topic E alone name (seed_topic_attrs E name t) (value_map E (json_get ''tags'' t)) now s
      = (Inr arn, s')"
    by (auto simp: seed_topic_def Let_def sns_read_def act_return_def elim!: act_bind_cases)
  with None obtain a where "s' = insert_topic E name a (value_map E (json_get ''tags'' t)) now s"
    by (auto simp: create_topic_def sns_read_def act_result_def pause_def sns_write_def act_return_def elim!: act_bind_cases)
  moreover have "has_topic (topic_arn name) s" if "name \<in> tr_name ` set (sns_topics s)"
    using that topic_at[OF assms(1)] by (force simp: has_topic_def topic_ok_def)
  ultimately show ?thesis by (auto simp: insert_topic_def has_topic_def)
qed

text \<open>After a seed that succeeds every topic the document names is there.\<close>

lemma sns_seed_provides:
  assumes "sqs_env E" "sns_ok E s" "sns_seed E doc now s = (Inr (), s')" "n \<in> seed_names (seed_items ''topics'' doc)"
  shows "\<exists>t. find_topic (topic_arn n) s' = Some t"
proof -
  have "has_topic (topic_arn n) s'"
    if "act_all (seed_entry E now) ts s = (Inr (), s')" "n \<in> seed_names ts" "sns_ok E s" for ts
    using that
  proof (induction ts arbitrary: s)
    case (Cons t ts)
    from Cons.prems(1) obtain d where t: "seed_entry E now t s = (Inr (), d)" and ts: "act_all (seed_entry E now) ts d = (Inr (), s')"
      by (auto elim!: act_bind_cases)
    show ?case
    proof (cases "n \<in> seed_names ts")
      case False
      with Cons.prems(2) have "seed_name t = Some n" by (auto split: option.splits)
      with t obtain u where "seed_topic E n t now s = (Inr (), u)" and subs: "act_all (seed_subscription E (topic_arn n) now)
          (seed_items ''subscriptions'' t) u = (Inr (), d)" by (auto simp: seed_entry_def elim!: act_bind_cases)
      with Cons.prems(3) have "has_topic (topic_arn n) u" by (blast intro: seed_topic_provides)
      moreover have "act_keeps (has_topic (topic_arn n)) (act_all (seed_subscription E (topic_arn n) now) (seed_items ''subscriptions'' t))"
        unfolding seed_subscription_def by (auto intro!: has_intros seed_steps_have)
      ultimately have "has_topic (topic_arn n) d" using subs by (blast dest: act_keepsD)
      with act_keepsD[OF act_all_keeps[OF seed_entry_has] _ ts] show ?thesis by blast
    qed (use Cons.IH[OF ts] act_keepsD[OF seed_entry_keeps[OF assms(1)] Cons.prems(3) t] in simp)
  qed simp
  with assms show ?thesis by (auto simp: sns_seed_def has_topic_find)
qed

end
