(* ===== verification/Aws_Query_Order.thy ===== *)
theory Aws_Query_Order
  imports Aws_Query "HOL-Library.Multiset" "HOL-Library.Sublist"
begin

text \<open>
  The AWS Query protocol, part 2: what \<open>query_to_json\<close> makes of the parameters does not depend on the
  order in which the \<open>HashMap\<close> yields them, unless a parameter is both a value and a structure.
\<close>

lemma bt_insert_same: "bt_insert k a (bt_insert k b m) = bt_insert k a m" for k :: "'k::linorder"
  by (induction m) (auto simp: bt_insert_def)

lemma filter_between: "(j :: 'k::linorder) < k \<Longrightarrow> filter (\<lambda>p. k < fst p) (filter (\<lambda>p. j < fst p) m) = filter (\<lambda>p. k < fst p) m"
  "j < k \<Longrightarrow> filter (\<lambda>p. fst p < j) (filter (\<lambda>p. fst p < k) m) = filter (\<lambda>p. fst p < j) m"
  by (auto intro!: filter_cong)

lemma bt_insert_less:
  assumes "(j :: 'k::linorder) < k"
  shows "bt_insert j b (bt_insert k a m) = bt_insert k a (bt_insert j b m)"
proof -
  have "filter (\<lambda>p. fst p < j) (filter (\<lambda>p. k < fst p) m) = []" "filter (\<lambda>p. k < fst p) (filter (\<lambda>p. fst p < j) m) = []"
    using assms by (auto simp: filter_empty_conv)
  moreover have "filter (\<lambda>p. j < fst p) (filter (\<lambda>p. k < fst p) m) = filter (\<lambda>p. k < fst p) m"
    "filter (\<lambda>p. fst p < k) (filter (\<lambda>p. fst p < j) m) = filter (\<lambda>p. fst p < j) m"
    using assms by (auto intro!: filter_cong)
  moreover have "filter (\<lambda>p. j < fst p) (filter (\<lambda>p. fst p < k) m) = filter (\<lambda>p. fst p < k) (filter (\<lambda>p. j < fst p) m)"
    by (auto intro!: filter_cong)
  ultimately show ?thesis using assms less_not_sym[OF assms] filter_between[OF assms, of m] by (simp add: bt_insert_def)
qed

lemma bt_insert_commute: "(j :: 'k::linorder) \<noteq> k \<Longrightarrow> bt_insert j b (bt_insert k a m) = bt_insert k a (bt_insert j b m)"
  by (metis bt_insert_less linorder_neqE)

lemma node_insert_commute:
  assumes "\<not> prefix p q" "\<not> prefix q p"
  shows "node_insert (node_insert m p v) q w = node_insert (node_insert m q w) p v"
  using assms
proof (induction p arbitrary: q m)
  case (Cons h r)
  then obtain h' r' where q: "q = h' # r'" by (cases q) auto
  have step: "\<exists>t. \<forall>m. node_insert m (x # xs) u = bt_insert x (t (map_of m x)) m" for x xs u
  proof (cases xs)
    case Nil
    then show ?thesis by (intro exI[of _ "\<lambda>_. Leaf u"]) simp
  next
    case (Cons y ys)
    then show ?thesis by (intro exI[of _ "\<lambda>n. Tree (node_insert (subtree n) xs u)"]) simp
  qed
  show ?case
  proof (cases "h = h'")
    case True
    with Cons.prems q obtain a as b bs where r: "r = a # as" "r' = b # bs" by (cases r; cases r') auto
    have "\<not> prefix r r'" "\<not> prefix r' r" using Cons.prems q True by auto
    from Cons.IH[OF this] show ?thesis by (simp add: q True r bt_insert_same subtree_def)
  next
    case False
    obtain t where t: "\<And>m. node_insert m (h # r) v = bt_insert h (t (map_of m h)) m" using step by blast
    obtain u where u: "\<And>m. node_insert m (h' # r') w = bt_insert h' (u (map_of m h')) m" using step by blast
    show ?thesis unfolding q t u using False by (simp add: bt_insert_commute[of h h'])
  qed
qed simp

text \<open>No parameter under the prefix is both a value and the beginning of a longer path.\<close>

definition paths_apart :: "form_params \<Rightarrow> string \<Rightarrow> bool" where
  "paths_apart params pre \<longleftrightarrow>
     (\<forall>(k, v)\<in>set params. \<forall>(k', v')\<in>set params. k \<noteq> k' \<longrightarrow>
        (case (query_path pre k, query_path pre k') of (Some p, Some q) \<Rightarrow> \<not> prefix p q | _ \<Rightarrow> True))"

text \<open>
  The order of the parameters does not matter.  When no parameter is both a value and a structure,
  the decoded document is the same for every order in which the map of parameters may be iterated.
\<close>

theorem query_order:
  assumes "paths_apart params pre" "distinct (map fst params)" "mset params' = mset params"
  shows "query_to_json params' pre = query_to_json params pre"
proof -
  let ?f = "\<lambda>(k, v) root. case query_path pre k of Some path \<Rightarrow> node_insert root path v | None \<Rightarrow> root"
  have "fold ?f params = fold ?f params'"
  proof (rule fold_multiset_equiv[OF _ assms(3)[symmetric]])
    fix x y assume x: "x \<in> set params" and y: "y \<in> set params"
    obtain k v k' v' where xy: "x = (k, v)" "y = (k', v')" by (cases x; cases y)
    show "?f x \<circ> ?f y = ?f y \<circ> ?f x"
    proof (cases "k = k'")
      case True
      with assms(2) x y xy have "x = y" by (metis eq_key_imp_eq_value)
      then show ?thesis by simp
    next
      case False
      have apart: "\<not> prefix p q \<and> \<not> prefix q p" if "query_path pre k = Some p" "query_path pre k' = Some q" for p q
      proof -
        note one = assms(1)[unfolded paths_apart_def, THEN bspec, OF x, unfolded xy, simplified, THEN bspec, OF y[unfolded xy], simplified]
        note two = assms(1)[unfolded paths_apart_def, THEN bspec, OF y, unfolded xy, simplified, THEN bspec, OF x[unfolded xy], simplified]
        show ?thesis using one two False that by simp
      qed
      show ?thesis
        unfolding xy by (rule ext) (auto simp: node_insert_commute apart split: option.splits)
    qed
  qed
  then show ?thesis by (simp add: query_to_json_def query_tree_def)
qed

theorem query_order_witness:
  "query_to_json [(''A.member.2'', ''y''), (''A.member.1'', ''x'')] ''A'' = JArr [JStr ''x'', JStr ''y'']"
proof -
  have one: "query_to_json [(''A.member.1'', ''x''), (''A.member.2'', ''y'')] ''A'' = JArr [JStr ''x'', JStr ''y'']"
    by (simp add: query_to_json_def query_tree_def query_path_def strip_prefix_def starts_with_def bt_insert_def subtree_def
        convert_map_def parse_u64_def parse_nat_def is_digit_def digits_value_def digit_val_def)
  have "paths_apart [(''A.member.1'', ''x''), (''A.member.2'', ''y'')] ''A''"
    by (simp add: paths_apart_def query_path_def strip_prefix_def starts_with_def)
  from query_order[OF this, of "[(''A.member.2'', ''y''), (''A.member.1'', ''x'')]"] show ?thesis
    by (simp add: one)
qed

text \<open>With a parameter that is both, the order decides which of the two is lost.\<close>

lemma query_order_matters:
  "query_to_json [(''X.A'', ''v''), (''X.A.B'', ''w'')] ''X'' = JObj [(''A'', JObj [(''B'', JStr ''w'')])]"
  "query_to_json [(''X.A.B'', ''w''), (''X.A'', ''v'')] ''X'' = JObj [(''A'', JStr ''v'')]"
  by (simp_all add: query_to_json_def query_tree_def query_path_def strip_prefix_def starts_with_def bt_insert_def subtree_def
      convert_map_def parse_u64_def parse_nat_def is_digit_def)

end
