(* ===== verification/Sns_Listing.thy ===== *)
theory Sns_Listing
  imports Sns_Invariant Sqs_Guarantees Aws_Query_Order
begin

text \<open>
  SNS, part 8: listing topics in pages.  A page starts after the key its token encodes, so a token
  stands for the position after a key; the pages are an instance of \<open>pager\<close>.
\<close>

definition topics_page :: "externals \<Rightarrow> sns_app \<Rightarrow> string option \<Rightarrow> (sns_error, sns_topic list \<times> string option) result" where
  "topics_page E s t = try_bind (decode_token E t) (\<lambda>after. Inr (sns_page E (list_topics s) t_arn after PAGE_SIZE))"

fun topics_at :: "externals \<times> sns_app \<Rightarrow> string option \<Rightarrow> nat \<Rightarrow> bool" where
  "topics_at (E, s) t i \<longleftrightarrow>
     (i = 0 \<and> t = None)
     \<or> (0 < i \<and> i \<le> length (list_topics s) \<and> t = Some (encode_token E (t_arn (list_topics s ! (i - 1)))))"

lemma list_topics_sorted:
  assumes "sns_ok E s"
  shows "sorted_wrt (<) (map t_arn (list_topics s))"
proof -
  have "map (t_arn \<circ> tr_topic) (sns_topics s) = map topic_arn (map tr_name (sns_topics s))"
    using assms by (auto simp: sns_ok_def list_all_iff topic_ok_def)
  then have "distinct (map (t_arn \<circ> tr_topic) (sns_topics s))"
    using assms by (simp add: sns_ok_def distinct_map comp_inj_on inj_on_def)
  moreover have "sorted (map (t_arn \<circ> tr_topic) (sort_key (t_arn \<circ> tr_topic) (sns_topics s)))" by (rule sorted_sort_key)
  ultimately show ?thesis
    by (simp add: list_topics_def strict_sorted_iff distinct_map)
qed

lemma list_topics_arn:
  assumes "sns_ok E s" "t \<in> set (list_topics s)"
  shows "utf8_valid (t_arn t)" "t_arn t \<noteq> []"
proof -
  obtain name where n: "t_arn t = topic_arn name" "valid_topic_name name"
    using assms by (auto simp: list_topics_def sns_ok_def list_all_iff topic_ok_def)
  have "list_all (\<lambda>c. code_of c < 128) name"
  proof (cases "strip_suffix ''.fifo'' name")
    case None
    with n(2) show ?thesis by (auto simp: valid_topic_name_def list_all_iff dest: is_alnum_ascii)
  next
    case (Some b)
    then have "name = b @ ''.fifo''" by (auto simp: strip_suffix_def ends_with_iff split: if_splits)
    with n(2) Some show ?thesis by (auto simp: valid_topic_name_def list_all_iff dest: is_alnum_ascii)
  qed
  then show "utf8_valid (t_arn t)" unfolding n(1)
    by (intro utf8_valid_ascii) (simp add: topic_arn_def REGION_def ACCOUNT_ID_def)
  show "t_arn t \<noteq> []" by (simp add: n(1) topic_arn_def)
qed

lemma topics_start:
  assumes env: "sqs_env E" and ok: "sns_ok E s" and at: "topics_at (E, s) t i"
  shows "topics_page E s t =
    (let part = take PAGE_SIZE (drop i (list_topics s))
     in Inr (part, if i + length part < length (list_topics s) then Some (encode_token E (t_arn (last part))) else None))"
proof -
  let ?ts = "list_topics s"
  have page: "sns_page E ?ts t_arn after PAGE_SIZE =
      (let part = take PAGE_SIZE (drop i ?ts)
       in (part, if i + length part < length ?ts then Some (encode_token E (t_arn (last part))) else None))"
    if "(case after of Some a \<Rightarrow> length (takeWhile (\<lambda>x. \<not> a < t_arn x) ?ts) | None \<Rightarrow> 0) = i" for after
    using that by (auto simp: sns_page_def Let_def PAGE_SIZE_def)
  show ?thesis
  proof (cases t)
    case None
    with at page[of None] show ?thesis by (simp add: topics_page_def decode_token_def Let_def)
  next
    case (Some tok)
    let ?a = "t_arn (?ts ! (i - 1))"
    from at Some have i: "0 < i" "i \<le> length ?ts" and tok: "tok = b64url_encode E ?a" by (simp_all add: encode_token_def)
    then have mem: "?ts ! (i - 1) \<in> set ?ts" by simp
    obtain c r where "?a = c # r" using list_topics_arn(2)[OF ok mem] by (cases ?a) auto
    then have "tok \<noteq> []" using env unfolding tok sqs_env_def b64url_head_def by (metis list.discI)
    moreover have "b64url_decode E tok = Some ?a" using env by (simp add: tok sqs_env_def b64url_roundtrip_def)
    ultimately have dec: "decode_token E t = Inr (Some ?a)"
      using list_topics_arn(1)[OF ok mem] by (simp add: decode_token_def Some)
    have "length (takeWhile (\<lambda>x. \<not> ?a < t_arn x) ?ts) = length (takeWhile (\<lambda>x. \<not> ?a < x) (map t_arn ?ts))"
      by (simp add: takeWhile_map comp_def)
    also have "\<dots> = i" using sorted_position[OF list_topics_sorted[OF ok], of i] i by (simp add: nth_map)
    finally show ?thesis using page[of "Some ?a"] dec by (simp add: topics_page_def Let_def)
  qed
qed

interpretation sns_topics_pages: pager
  "\<lambda>(E, s). sqs_env E \<and> sns_ok E s" "\<lambda>(E, s). topics_page E s" "\<lambda>(E, s). list_topics s" topics_at
proof (unfold_locales, goal_cases)
  case (1 v)
  then show ?case by (cases v) simp
next
  case (2 v t i)
  obtain E s where v: "v = (E, s)" by (cases v)
  let ?ts = "list_topics s" and ?part = "take PAGE_SIZE (drop i (list_topics s))"
  let ?u = "if i + length ?part < length ?ts then Some (encode_token E (t_arn (last ?part))) else None"
  have page: "topics_page E s t = Inr (?part, ?u)" using topics_start[of E s t i] 2 by (simp add: v Let_def)
  have more: "?part \<noteq> [] \<and> last ?part = ?ts ! (i + length ?part - 1)" if "i + length ?part < length ?ts"
    using that by (auto simp: last_conv_nth PAGE_SIZE_def min_def add.commute split: if_splits)
  show ?case
    unfolding v prod.case
    by (intro exI[of _ ?part] exI[of _ ?u] conjI page) (use more in \<open>auto simp: PAGE_SIZE_def min_def split: if_splits\<close>)
qed

lemma list_topics_answer:
  "do_list_topics E params s =
     (case topics_page E s (map_of params ''NextToken'') of
        Inl e \<Rightarrow> (Inl e, s)
      | Inr (ts, token) \<Rightarrow> (Inr (respond ''ListTopics'' (''<Topics>''
            @ concat (map (\<lambda>t. member_xml (el ''TopicArn'' (t_arn t))) ts) @ ''</Topics>'' @ next_token_xml token)), s))"
  by (simp add: do_list_topics_def topics_page_def act_bind_def act_result_def act_return_def sns_read_def try_bind_def
      split: sum.splits prod.splits)

text \<open>
  Listing topics is complete.  What ListTopics answers is a page of topics and the token of the
  next one; a client that follows the tokens ends and has collected every topic once, in order of ARN.
\<close>

theorem sns_list_topics_complete:
  assumes "sqs_env E" "sns_ok E s" "length (sns_topics s) < fuel"
  shows "(\<exists>ts. collect_pages fuel (topics_page E s) None = Some ts \<and> mset ts = mset (map tr_topic (sns_topics s))
      \<and> sorted_wrt (<) (map t_arn ts))
    \<and> do_list_topics E params s =
       (case topics_page E s (map_of params ''NextToken'') of
          Inl e \<Rightarrow> (Inl e, s)
        | Inr (ts, token) \<Rightarrow> (Inr (respond ''ListTopics'' (''<Topics>''
              @ concat (map (\<lambda>t. member_xml (el ''TopicArn'' (t_arn t))) ts) @ ''</Topics>'' @ next_token_xml token)), s))"
  using sns_topics_pages.collect_all[of "(E, s)" fuel] assms list_topics_sorted[OF assms(2)] list_topics_answer
  by (simp add: list_topics_def)

definition sample_topics :: "string list \<Rightarrow> sns_app" where
  "sample_topics names = \<lparr> sns_topics = map (\<lambda>n. \<lparr> tr_topic = \<lparr> t_arn = topic_arn n, t_attributes = [], t_tags = [] \<rparr>,
       tr_name = n, tr_created_at = ''5'', tr_fifo_seq = 0 \<rparr>) names,
     sns_subscriptions = [], sns_messages = [], sns_queues = sqs_init,
     sns_mail = \<lparr> mailbox_messages = [], mailbox_attachments = [] \<rparr>, sns_posts = [], sns_events = [] \<rparr>"

theorem sns_list_topics_complete_witness:
  "\<exists>ts. collect_pages 3 (topics_page sample_ext (sample_topics [''b'', ''a''])) None = Some ts
     \<and> mset ts = mset (map tr_topic (sns_topics (sample_topics [''b'', ''a'']))) \<and> sorted_wrt (<) (map t_arn ts)"
proof -
  have "sns_ok sample_ext (sample_topics [''b'', ''a''])"
    by (simp add: sns_ok_def sample_topics_def topic_ok_def topic_is_fifo_def valid_topic_name_def strip_suffix_def
        ends_with_def is_alnum_def is_lower_def sqs_ok_init)
  from sns_list_topics_complete[OF sample_env this, of 3] show ?thesis by (simp add: sample_topics_def)
qed

end
