(* ===== verification/Pubsub.thy ===== *)
theory Pubsub
  imports Http
begin

text \<open>
  Google Pub/Sub, part 1: tables and operations (service.rs, models.rs and schema.rs of
  src/src/gcp/pubsub).

  A subscription leases the messages it hands out; a row of \<open>ps_ackables\<close> is one message for one
  subscription.  Every operation is one call to the database, so a run of operations in any order is
  an interleaving of requests.  \<open>P\<close> is the configured project.
\<close>

subsection \<open>Tables\<close>

record pubsub_topic =
  pt_name :: string
  pt_created_at :: string

record pubsub_subscription =
  su_name :: string
  su_topic :: string
  su_deadline :: int
  su_created_at :: string

record pubsub_message =
  pm_message_id :: string
  pm_topic :: string
  pm_data :: string
  pm_attributes :: string
  pm_created_at :: string

record pubsub_ackable =
  ak_id :: string
  ak_subscription :: string
  ak_message_id :: string
  ak_acked :: bool
  ak_created_at :: string
  ak_lease_until :: "int option"
  ak_attempts :: int

text \<open>Messages are in the order of their numeric id.  The counter numbers the UUIDs drawn.\<close>

record pubsub_db =
  ps_topics :: "pubsub_topic list"
  ps_subscriptions :: "pubsub_subscription list"
  ps_messages :: "pubsub_message list"
  ps_ackables :: "pubsub_ackable list"
  ps_draws :: nat

definition pubsub_init :: pubsub_db where
  "pubsub_init = \<lparr> ps_topics = [], ps_subscriptions = [], ps_messages = [], ps_ackables = [], ps_draws = 0 \<rparr>"

datatype pubsub_error =
    PsNotFound string
  | PsAlreadyExists string
  | PsInvalidArgument string
  | PsInternal string

type_synonym 'a pubsub_action = "(pubsub_db, pubsub_error, 'a) action"

record outgoing_message =
  om_data :: string
  om_attributes :: json

definition DEFAULT_ACK_DEADLINE :: int where "DEFAULT_ACK_DEADLINE = 10"
definition MAX_ACK_DEADLINE :: int where "MAX_ACK_DEADLINE = 600"

definition rfc3339_z :: "externals \<Rightarrow> string \<Rightarrow> string" where
  "rfc3339_z E ts = (case reparse_micros E ts of Some t \<Rightarrow> t | None \<Rightarrow> ts)"

subsection \<open>Names\<close>

definition full_topic :: "string \<Rightarrow> string \<Rightarrow> string" where
  "full_topic P name =
     (if starts_with name ''projects/'' then name else ''projects/'' @ P @ ''/topics/'' @ name)"

definition full_sub :: "string \<Rightarrow> string \<Rightarrow> string" where
  "full_sub P name =
     (if starts_with name ''projects/'' then name else ''projects/'' @ P @ ''/subscriptions/'' @ name)"

definition topic_missing :: "string \<Rightarrow> pubsub_error" where
  "topic_missing n = PsNotFound (''Topic not found: '' @ n)"

definition sub_missing :: "string \<Rightarrow> pubsub_error" where
  "sub_missing n = PsNotFound (''Subscription does not exist: '' @ n)"

definition topic_exists :: "string \<Rightarrow> pubsub_db \<Rightarrow> bool" where
  "topic_exists n db \<longleftrightarrow> n \<in> pt_name ` set (ps_topics db)"

definition sub_exists :: "string \<Rightarrow> pubsub_db \<Rightarrow> bool" where
  "sub_exists n db \<longleftrightarrow> n \<in> su_name ` set (ps_subscriptions db)"

subsection \<open>Topics\<close>

definition ps_create_topic :: "externals \<Rightarrow> string \<Rightarrow> string \<Rightarrow> int \<Rightarrow> pubsub_topic pubsub_action" where
  "ps_create_topic E P name now = (\<lambda>db.
     let t = \<lparr> pt_name = full_topic P name, pt_created_at = rfc3339_micros E now \<rparr> in
     if topic_exists (pt_name t) db then (Inl (PsAlreadyExists (''Topic already exists: '' @ pt_name t)), db)
     else (Inr t, db\<lparr> ps_topics := ps_topics db @ [t] \<rparr>))"

definition ps_get_topic :: "string \<Rightarrow> string \<Rightarrow> pubsub_db \<Rightarrow> (pubsub_error, pubsub_topic) result" where
  "ps_get_topic P name db =
     (let n = full_topic P name in
      case find (\<lambda>t. pt_name t = n) (ps_topics db) of Some t \<Rightarrow> Inr t | None \<Rightarrow> Inl (topic_missing n))"

definition ps_list_topics :: "string \<Rightarrow> string option \<Rightarrow> pubsub_db \<Rightarrow> pubsub_topic list" where
  "ps_list_topics P project db =
     (let prefix = ''projects/'' @ (case project of Some p \<Rightarrow> p | None \<Rightarrow> P) @ ''/topics/'' in
      sort_key pt_name (filter (\<lambda>t. starts_with (pt_name t) prefix) (ps_topics db)))"

definition ps_delete_topic :: "string \<Rightarrow> string \<Rightarrow> unit pubsub_action" where
  "ps_delete_topic P name = (\<lambda>db.
     let n = full_topic P name in
     if \<not> topic_exists n db then (Inl (topic_missing n), db)
     else (Inr (), db\<lparr> ps_topics := sql_delete (\<lambda>t. pt_name t = n) (ps_topics db) \<rparr>))"

definition ps_topic_subscriptions :: "string \<Rightarrow> string \<Rightarrow> pubsub_db \<Rightarrow> (pubsub_error, string list) result" where
  "ps_topic_subscriptions P name db =
     (let n = full_topic P name in
      if \<not> topic_exists n db then Inl (topic_missing n)
      else Inr (sort (map su_name (filter (\<lambda>s. su_topic s = n) (ps_subscriptions db)))))"

subsection \<open>Subscriptions\<close>

definition clamp_deadline :: "int option \<Rightarrow> int" where
  "clamp_deadline d =
     (let s = (case d of Some s \<Rightarrow> if 0 < s then s else DEFAULT_ACK_DEADLINE | None \<Rightarrow> DEFAULT_ACK_DEADLINE)
      in max DEFAULT_ACK_DEADLINE (min MAX_ACK_DEADLINE s))"

definition ps_create_subscription ::
    "externals \<Rightarrow> string \<Rightarrow> string \<Rightarrow> string \<Rightarrow> int option \<Rightarrow> int \<Rightarrow> pubsub_subscription pubsub_action" where
  "ps_create_subscription E P name topic deadline now = (\<lambda>db.
     if topic = [] then (Inl (PsInvalidArgument ''Subscription topic is required''), db)
     else
       let s = \<lparr> su_name = full_sub P name, su_topic = full_topic P topic, su_deadline = clamp_deadline deadline,
                 su_created_at = rfc3339_micros E now \<rparr>
       in if \<not> topic_exists (su_topic s) db then (Inl (topic_missing (su_topic s)), db)
          else if sub_exists (su_name s) db then
            (Inl (PsAlreadyExists (''Subscription already exists: '' @ su_name s)), db)
          else (Inr s, db\<lparr> ps_subscriptions := ps_subscriptions db @ [s] \<rparr>))"

definition find_sub :: "string \<Rightarrow> pubsub_db \<Rightarrow> pubsub_subscription option" where
  "find_sub n db = find (\<lambda>s. su_name s = n) (ps_subscriptions db)"

definition ps_get_subscription :: "string \<Rightarrow> string \<Rightarrow> pubsub_db \<Rightarrow> (pubsub_error, pubsub_subscription) result" where
  "ps_get_subscription P name db =
     (let n = full_sub P name in case find_sub n db of Some s \<Rightarrow> Inr s | None \<Rightarrow> Inl (sub_missing n))"

definition ps_list_subscriptions :: "string \<Rightarrow> string option \<Rightarrow> pubsub_db \<Rightarrow> pubsub_subscription list" where
  "ps_list_subscriptions P project db =
     (let prefix = ''projects/'' @ (case project of Some p \<Rightarrow> p | None \<Rightarrow> P) @ ''/subscriptions/'' in
      sort_key su_name (filter (\<lambda>s. starts_with (su_name s) prefix) (ps_subscriptions db)))"

definition ps_delete_subscription :: "string \<Rightarrow> string \<Rightarrow> unit pubsub_action" where
  "ps_delete_subscription P name = (\<lambda>db.
     let n = full_sub P name in
     if \<not> sub_exists n db then (Inl (sub_missing n), db)
     else (Inr (), db\<lparr> ps_subscriptions := sql_delete (\<lambda>s. su_name s = n) (ps_subscriptions db),
                       ps_ackables := sql_delete (\<lambda>a. ak_subscription a = n) (ps_ackables db) \<rparr>))"

subsection \<open>Publishing\<close>

definition message_empty :: "outgoing_message \<Rightarrow> bool" where
  "message_empty m \<longleftrightarrow> om_data m = []
     \<and> (case as_object (om_attributes m) of None \<Rightarrow> True | Some a \<Rightarrow> a = [])"

text \<open>The row of a message; its identifiers were drawn before the call to the database.\<close>

definition message_row_of :: "externals \<Rightarrow> string \<Rightarrow> int \<Rightarrow> string \<times> outgoing_message \<Rightarrow> pubsub_message" where
  "message_row_of E topic now = (\<lambda>(mid, m).
     \<lparr> pm_message_id = mid, pm_topic = topic, pm_data = om_data m, pm_attributes = json_print E (om_attributes m),
       pm_created_at = rfc3339_micros E now \<rparr>)"

definition new_ackable :: "externals \<Rightarrow> string \<Rightarrow> string \<Rightarrow> string \<Rightarrow> int \<Rightarrow> pubsub_ackable" where
  "new_ackable E ack sub mid now =
     \<lparr> ak_id = ack, ak_subscription = sub, ak_message_id = mid, ak_acked = False,
       ak_created_at = rfc3339_micros E now, ak_lease_until = None, ak_attempts = 0 \<rparr>"

text \<open>The inner loop over the subscriptions; a second row with the same key would abort the transaction.\<close>

fun insert_ackables :: "externals \<Rightarrow> string list \<Rightarrow> string \<Rightarrow> int \<Rightarrow> unit pubsub_action" where
  "insert_ackables E [] mid now = act_return ()"
| "insert_ackables E (sub # subs) mid now = (\<lambda>db.
     let ack = uuid_v4 E (ps_draws db); db' = db\<lparr> ps_draws := Suc (ps_draws db) \<rparr> in
     if ack \<in> ak_id ` set (ps_ackables db) then
       (Inl (PsInternal ''UNIQUE constraint failed: pubsub_ackables.ack_id''), db')
     else insert_ackables E subs mid now
            (db'\<lparr> ps_ackables := ps_ackables db @ [new_ackable E ack sub mid now] \<rparr>))"

fun insert_messages :: "externals \<Rightarrow> string list \<Rightarrow> pubsub_message list \<Rightarrow> int \<Rightarrow> unit pubsub_action" where
  "insert_messages E subs [] now = act_return ()"
| "insert_messages E subs (m # ms) now =
     act_bind (\<lambda>db. insert_ackables E subs (pm_message_id m) now (db\<lparr> ps_messages := ps_messages db @ [m] \<rparr>))
       (\<lambda>_. insert_messages E subs ms now)"

text \<open>The rows are undone when the transaction fails; the UUIDs stay drawn.\<close>

definition publish_tx :: "externals \<Rightarrow> string \<Rightarrow> pubsub_message list \<Rightarrow> int \<Rightarrow> unit pubsub_action" where
  "publish_tx E topic rows now = (\<lambda>db.
     if \<not> topic_exists topic db then (Inl (topic_missing topic), db)
     else
       let subs = map su_name (filter (\<lambda>s. su_topic s = topic) (ps_subscriptions db)) in
       case insert_messages E subs rows now db of
         (Inl e, db') \<Rightarrow> (Inl e, db\<lparr> ps_draws := ps_draws db' \<rparr>)
       | (Inr _, db') \<Rightarrow> (Inr (), db'))"

definition ps_publish ::
    "externals \<Rightarrow> string \<Rightarrow> string \<Rightarrow> outgoing_message list \<Rightarrow> int \<Rightarrow> string list pubsub_action" where
  "ps_publish E P name messages now = (\<lambda>db.
     if messages = [] then (Inl (PsInvalidArgument ''The request contains no messages''), db)
     else if list_ex message_empty messages then
       (Inl (PsInvalidArgument ''Some messages contain neither data nor attributes''), db)
     else
       let topic = full_topic P name; n = ps_draws db;
           ids = map (\<lambda>i. uuid_v4 E (n + i)) [0..<length messages];
           rows = map (message_row_of E topic now) (zip ids messages)
       in act_bind (publish_tx E topic rows now) (\<lambda>_. act_return ids)
            (db\<lparr> ps_draws := n + length messages \<rparr>))"

subsection \<open>Pulling and acknowledging\<close>

definition ps_deliverable :: "string \<Rightarrow> int \<Rightarrow> pubsub_ackable \<Rightarrow> bool" where
  "ps_deliverable sub now a \<longleftrightarrow> ak_subscription a = sub \<and> \<not> ak_acked a
     \<and> (case ak_lease_until a of None \<Rightarrow> True | Some t \<Rightarrow> t \<le> now)"

text \<open>The join of the SELECT, in the order of the messages.\<close>

definition pull_candidates :: "string \<Rightarrow> int \<Rightarrow> pubsub_db \<Rightarrow> (pubsub_ackable \<times> pubsub_message) list" where
  "pull_candidates sub now db =
     concat (map (\<lambda>m. map (\<lambda>a. (a, m)) (filter (\<lambda>a. ak_message_id a = pm_message_id m \<and> ps_deliverable sub now a)
       (ps_ackables db))) (ps_messages db))"

definition ack_lease :: "string \<Rightarrow> int \<Rightarrow> pubsub_db \<Rightarrow> pubsub_db" where
  "ack_lease i until db =
     db\<lparr> ps_ackables := sql_update (\<lambda>a. ak_id a = i)
           (\<lambda>a. a\<lparr> ak_lease_until := Some until, ak_attempts := ak_attempts a + 1 \<rparr>) (ps_ackables db) \<rparr>"

definition pull_limit :: "int \<Rightarrow> int" where
  "pull_limit n = (if n \<le> 0 then 10 else min n 1000)"

definition ps_pull ::
    "string \<Rightarrow> string \<Rightarrow> int \<Rightarrow> int \<Rightarrow> (pubsub_ackable \<times> pubsub_message) list pubsub_action" where
  "ps_pull P name max_messages now = (\<lambda>db.
     let sub = full_sub P name in
     case find_sub sub db of
       None \<Rightarrow> (Inl (sub_missing sub), db)
     | Some s \<Rightarrow>
         let rows = take (nat (pull_limit max_messages)) (pull_candidates sub now db)
         in (Inr rows, fold (\<lambda>(a, _). ack_lease (ak_id a) (now + su_deadline s * 1000)) rows db))"

definition ack_row :: "string \<Rightarrow> string \<Rightarrow> pubsub_db \<Rightarrow> pubsub_db" where
  "ack_row sub i db =
     db\<lparr> ps_ackables := sql_update (\<lambda>a. ak_id a = i \<and> ak_subscription a = sub) (\<lambda>a. a\<lparr> ak_acked := True \<rparr>)
           (ps_ackables db) \<rparr>"

definition ps_acknowledge :: "string \<Rightarrow> string \<Rightarrow> string list \<Rightarrow> unit pubsub_action" where
  "ps_acknowledge P name acks = (\<lambda>db.
     let sub = full_sub P name in
     if \<not> sub_exists sub db then (Inl (sub_missing sub), db)
     else (Inr (), fold (ack_row sub) acks db))"

definition extend_row :: "string \<Rightarrow> int \<Rightarrow> string \<Rightarrow> pubsub_db \<Rightarrow> pubsub_db" where
  "extend_row sub until i db =
     db\<lparr> ps_ackables := sql_update (\<lambda>a. ak_id a = i \<and> ak_subscription a = sub \<and> \<not> ak_acked a)
           (\<lambda>a. a\<lparr> ak_lease_until := Some until \<rparr>) (ps_ackables db) \<rparr>"

definition ps_modify_ack_deadline ::
    "string \<Rightarrow> string \<Rightarrow> string list \<Rightarrow> int \<Rightarrow> int \<Rightarrow> unit pubsub_action" where
  "ps_modify_ack_deadline P name acks seconds now = (\<lambda>db.
     if seconds < 0 \<or> MAX_ACK_DEADLINE < seconds then
       (Inl (PsInvalidArgument (''Invalid ack deadline: '' @ show_int seconds @ ''; must be between 0 and ''
               @ show_int MAX_ACK_DEADLINE @ '' seconds'')), db)
     else
       let sub = full_sub P name in
       if \<not> sub_exists sub db then (Inl (sub_missing sub), db)
       else (Inr (), fold (extend_row sub (now + seconds * 1000)) acks db))"

end
