(* ===== verification/Pubsub_Properties.thy ===== *)
theory Pubsub_Properties
  imports Pubsub
begin

text \<open>
  Google Pub/Sub, part 3: what subscribers rely on.  The service interprets the contract \<open>service\<close>;
  the effect of an operation on the rows of \<open>ps_ackables\<close> is the relation \<open>row_step\<close>.
\<close>

subsection \<open>Operations as a machine\<close>

datatype pubsub_op =
    PsCreateTopic string int
  | PsDeleteTopic string
  | PsCreateSub string string "int option" int
  | PsDeleteSub string
  | PsPublish string "outgoing_message list" int
  | PsPull string int int
  | PsAck string "string list"
  | PsModify string "string list" int int

datatype pubsub_resp =
    PsDone "(pubsub_error, unit) result"
  | PsTopic "(pubsub_error, pubsub_topic) result"
  | PsSub "(pubsub_error, pubsub_subscription) result"
  | PsIds "(pubsub_error, string list) result"
  | PsPulled "(pubsub_error, (pubsub_ackable \<times> pubsub_message) list) result"

fun pubsub_exec :: "externals \<times> string \<Rightarrow> pubsub_op \<Rightarrow> pubsub_db \<Rightarrow> pubsub_resp \<times> pubsub_db" where
  "pubsub_exec (E, P) (PsCreateTopic n now) db = map_prod PsTopic id (ps_create_topic E P n now db)"
| "pubsub_exec (E, P) (PsDeleteTopic n) db = map_prod PsDone id (ps_delete_topic P n db)"
| "pubsub_exec (E, P) (PsCreateSub n t d now) db = map_prod PsSub id (ps_create_subscription E P n t d now db)"
| "pubsub_exec (E, P) (PsDeleteSub n) db = map_prod PsDone id (ps_delete_subscription P n db)"
| "pubsub_exec (E, P) (PsPublish t ms now) db = map_prod PsIds id (ps_publish E P t ms now db)"
| "pubsub_exec (E, P) (PsPull n k now) db = map_prod PsPulled id (ps_pull P n k now db)"
| "pubsub_exec (E, P) (PsAck n acks) db = map_prod PsDone id (ps_acknowledge P n acks db)"
| "pubsub_exec (E, P) (PsModify n acks secs now) db = map_prod PsDone id (ps_modify_ack_deadline P n acks secs now db)"

definition returned_acks :: "pubsub_resp \<Rightarrow> string set" where
  "returned_acks r = (case r of PsPulled (Inr rows) \<Rightarrow> (\<lambda>(a, _). ak_id a) ` set rows | _ \<Rightarrow> {})"

subsection \<open>The invariant\<close>

definition drawn :: "externals \<Rightarrow> pubsub_db \<Rightarrow> string \<Rightarrow> bool" where
  "drawn E db i \<longleftrightarrow> (\<exists>n<ps_draws db. i = uuid_v4 E n)"

definition pubsub_ok :: "externals \<Rightarrow> pubsub_db \<Rightarrow> bool" where
  "pubsub_ok E db \<longleftrightarrow>
     distinct (map pt_name (ps_topics db)) \<and> distinct (map su_name (ps_subscriptions db))
   \<and> list_all (\<lambda>s. 10 \<le> su_deadline s \<and> su_deadline s \<le> 600) (ps_subscriptions db)
   \<and> distinct (map pm_message_id (ps_messages db)) \<and> distinct (map ak_id (ps_ackables db))
   \<and> list_all (\<lambda>m. drawn E db (pm_message_id m)) (ps_messages db)
   \<and> list_all (\<lambda>a. drawn E db (ak_id a) \<and> ak_message_id a \<in> pm_message_id ` set (ps_messages db)
        \<and> ak_subscription a \<in> su_name ` set (ps_subscriptions db)) (ps_ackables db)"

lemma drawn_mono: "drawn E db i \<Longrightarrow> ps_draws db \<le> ps_draws db' \<Longrightarrow> drawn E db' i"
  by (auto simp: drawn_def intro: less_le_trans)

lemma drawnI: "n < ps_draws db \<Longrightarrow> drawn E db (uuid_v4 E n)"
  by (auto simp: drawn_def)

lemma draw_fresh: "uuids_fresh E \<Longrightarrow> ps_draws db \<le> n \<Longrightarrow> \<not> drawn E db (uuid_v4 E n)"
  by (auto simp: drawn_def uuid_inject)

subsection \<open>Publishing\<close>

text \<open>One row for every subscription and message.\<close>

lemma insert_ackables_eq:
  assumes "uuids_fresh E" "list_all (\<lambda>a. drawn E db (ak_id a)) (ps_ackables db)"
  shows "insert_ackables E subs mid now db = (Inr (), db\<lparr>
     ps_ackables := ps_ackables db @ map (\<lambda>(i, sub). new_ackable E (uuid_v4 E (ps_draws db + i)) sub mid now) (enumerate 0 subs),
     ps_draws := ps_draws db + length subs \<rparr>)"
  using assms(2)
proof (induction subs arbitrary: db)
  case Nil
  then show ?case by (simp add: act_return_def)
next
  case (Cons sub subs)
  let ?a = "new_ackable E (uuid_v4 E (ps_draws db)) sub mid now"
  let ?db = "db\<lparr> ps_draws := Suc (ps_draws db), ps_ackables := ps_ackables db @ [?a] \<rparr>"
  have "uuid_v4 E (ps_draws db) \<notin> ak_id ` set (ps_ackables db)"
    using Cons.prems draw_fresh[OF assms(1), of db "ps_draws db"] by (auto simp: list_all_iff)
  moreover have "list_all (\<lambda>a. drawn E ?db (ak_id a)) (ps_ackables ?db)"
    using Cons.prems by (auto simp: list_all_iff drawn_def new_ackable_def intro: less_SucI)
  from Cons.IH[OF this] have "insert_ackables E subs mid now ?db = (Inr (), db\<lparr>
      ps_ackables := ps_ackables db @ ?a # map (\<lambda>(i, sub). new_ackable E (uuid_v4 E (Suc (ps_draws db) + i)) sub mid now) (enumerate 0 subs),
      ps_draws := Suc (ps_draws db) + length subs \<rparr>)" by simp
  moreover have "map (\<lambda>(i, sub). new_ackable E (uuid_v4 E (Suc (ps_draws db) + i)) sub mid now) (enumerate 0 subs)
      = map (\<lambda>(i, sub). new_ackable E (uuid_v4 E (ps_draws db + i)) sub mid now) (enumerate 1 subs)"
    by (rule nth_equalityI) (simp_all add: nth_enumerate_eq)
  ultimately show ?case by (simp add: Let_def)
qed

text \<open>The rows of a publish, in the order the loops insert them, numbered from the first UUID drawn.\<close>

definition published_rows :: "externals \<Rightarrow> string list \<Rightarrow> pubsub_message list \<Rightarrow> int \<Rightarrow> nat \<Rightarrow> pubsub_ackable list" where
  "published_rows E subs ms now n =
     concat (map (\<lambda>(j, m). map (\<lambda>(i, sub). new_ackable E (uuid_v4 E (n + j * length subs + i)) sub (pm_message_id m) now)
       (enumerate 0 subs)) (enumerate 0 ms))"

lemma published_rows_Cons:
  "published_rows E subs (m # ms) now n =
     map (\<lambda>(i, sub). new_ackable E (uuid_v4 E (n + i)) sub (pm_message_id m) now) (enumerate 0 subs)
     @ published_rows E subs ms now (n + length subs)"
proof -
  have "enumerate (Suc 0) ms = map (\<lambda>(j, m). (Suc j, m)) (enumerate 0 ms)"
    by (rule nth_equalityI) (simp_all add: nth_enumerate_eq)
  then show ?thesis by (simp add: published_rows_def comp_def case_prod_unfold algebra_simps)
qed

lemma insert_messages_eq:
  assumes "uuids_fresh E" "list_all (\<lambda>a. drawn E db (ak_id a)) (ps_ackables db)"
  shows "insert_messages E subs ms now db = (Inr (), db\<lparr>
     ps_messages := ps_messages db @ ms,
     ps_ackables := ps_ackables db @ published_rows E subs ms now (ps_draws db),
     ps_draws := ps_draws db + length ms * length subs \<rparr>)"
  using assms(2)
proof (induction ms arbitrary: db)
  case Nil
  then show ?case by (simp add: act_return_def published_rows_def)
next
  case (Cons m ms)
  let ?new = "map (\<lambda>(i, sub). new_ackable E (uuid_v4 E (ps_draws db + i)) sub (pm_message_id m) now) (enumerate 0 subs)"
  let ?db = "db\<lparr> ps_messages := ps_messages db @ [m], ps_ackables := ps_ackables db @ ?new,
                 ps_draws := ps_draws db + length subs \<rparr>"
  have "insert_ackables E subs (pm_message_id m) now (db\<lparr> ps_messages := ps_messages db @ [m] \<rparr>) = (Inr (), ?db)"
    by (subst insert_ackables_eq[OF assms(1)]) (use Cons.prems in \<open>simp_all add: drawn_def\<close>)
  moreover have "list_all (\<lambda>a. drawn E ?db (ak_id a)) (ps_ackables ?db)"
  proof -
    have "drawn E ?db (ak_id a)" if "a \<in> set ?new" for a
      using that by (auto simp: new_ackable_def in_set_enumerate_eq intro!: drawnI)
    moreover have "drawn E ?db (ak_id a)" if "a \<in> set (ps_ackables db)" for a
      using that Cons.prems by (auto simp: list_all_iff intro: drawn_mono)
    ultimately show ?thesis by (auto simp: list_all_iff)
  qed
  ultimately show ?case
    using Cons.IH[of ?db] by (simp add: act_bind_def published_rows_Cons algebra_simps)
qed

lemma published_rows_rows:
  assumes "a \<in> set (published_rows E subs ms now n)"
  obtains k sub m where "a = new_ackable E (uuid_v4 E k) sub (pm_message_id m) now"
    "n \<le> k" "k < n + length ms * length subs" "sub \<in> set subs" "m \<in> set ms"
  using assms
proof (induction ms arbitrary: n thesis)
  case Nil
  then show ?case by (simp add: published_rows_def)
next
  case (Cons m ms)
  from Cons.prems(2) consider
      (here) i sub where "a = new_ackable E (uuid_v4 E (n + i)) sub (pm_message_id m) now" "i < length subs" "sub \<in> set subs"
    | (later) "a \<in> set (published_rows E subs ms now (n + length subs))"
    by (auto simp: published_rows_Cons in_set_enumerate_eq)
  then show ?case
  proof cases
    case here
    then show ?thesis by (intro Cons.prems(1)[of "n + i" sub m]) auto
  next
    case later
    then obtain k sub m' where "a = new_ackable E (uuid_v4 E k) sub (pm_message_id m') now"
      "n + length subs \<le> k" "k < n + length subs + length ms * length subs" "sub \<in> set subs" "m' \<in> set ms"
      using Cons.IH[of "n + length subs"] by blast
    then show ?thesis by (intro Cons.prems(1)[of k sub m']) auto
  qed
qed

lemma published_rows_ids:
  "map ak_id (published_rows E subs ms now n) = map (uuid_v4 E) [n..<n + length ms * length subs]"
proof (induction ms arbitrary: n)
  case Nil
  then show ?case by (simp add: published_rows_def)
next
  case (Cons m ms)
  have "map ak_id (map (\<lambda>(i, sub). new_ackable E (uuid_v4 E (n + i)) sub (pm_message_id m) now) (enumerate 0 subs))
      = map (uuid_v4 E) [n..<n + length subs]"
    by (rule nth_equalityI) (simp_all add: nth_enumerate_eq new_ackable_def)
  moreover have "[n..<n + length (m # ms) * length subs]
      = [n..<n + length subs] @ [n + length subs..<n + length subs + length ms * length subs]"
    using upt_add_eq_append[of n "n + length subs"] by (simp add: add.assoc)
  ultimately show ?case by (simp only: published_rows_Cons map_append Cons.IH)
qed

lemma published_rows_member:
  assumes "m \<in> set ms" "sub \<in> set subs"
  shows "\<exists>k. new_ackable E (uuid_v4 E k) sub (pm_message_id m) now \<in> set (published_rows E subs ms now n)"
  using assms(1)
proof (induction ms arbitrary: n)
  case (Cons x ms)
  show ?case
  proof (cases "m = x")
    case True
    obtain i where "i < length subs" "sub = subs ! i" using assms(2) by (metis in_set_conv_nth)
    then have "new_ackable E (uuid_v4 E (n + i)) sub (pm_message_id m) now \<in> set (published_rows E subs (x # ms) now n)"
      by (force simp: published_rows_Cons True in_set_enumerate_eq)
    then show ?thesis by blast
  next
    case False
    with Cons.prems have "m \<in> set ms" by simp
    from Cons.IH[OF this, of "n + length subs"] show ?thesis by (auto simp: published_rows_Cons)
  qed
qed simp

text \<open>What a publish does: it fails and only draws identifiers, or stores every message and its rows.\<close>

lemma ps_publish_cases:
  assumes E: "uuids_fresh E" and ok: "pubsub_ok E db" and run: "ps_publish E P t msgs now db = (r, db')"
  obtains (fail) e d where "r = Inl e" "db' = db\<lparr> ps_draws := d \<rparr>" "ps_draws db \<le> d"
  | (stored) subs ids rows where "subs = map su_name (filter (\<lambda>s. su_topic s = full_topic P t) (ps_subscriptions db))"
      "ids = map (uuid_v4 E) [ps_draws db..<ps_draws db + length msgs]"
      "rows = map (message_row_of E (full_topic P t) now) (zip ids msgs)" "r = Inr ids"
      "db' = db\<lparr> ps_messages := ps_messages db @ rows,
             ps_ackables := ps_ackables db @ published_rows E subs rows now (ps_draws db + length msgs),
             ps_draws := ps_draws db + length msgs + length rows * length subs \<rparr>"
proof -
  let ?n = "ps_draws db"
  let ?db = "db\<lparr> ps_draws := ?n + length msgs \<rparr>"
  let ?subs = "map su_name (filter (\<lambda>s. su_topic s = full_topic P t) (ps_subscriptions db))"
  let ?ids = "map (uuid_v4 E) [?n..<?n + length msgs]"
  let ?rows = "map (message_row_of E (full_topic P t) now) (zip ?ids msgs)"
  have ids: "map (\<lambda>i. uuid_v4 E (?n + i)) [0..<length msgs] = ?ids"
    by (rule nth_equalityI) simp_all
  have "list_all (\<lambda>a. drawn E ?db (ak_id a)) (ps_ackables ?db)"
    using ok by (auto simp: pubsub_ok_def list_all_iff intro: drawn_mono)
  from insert_messages_eq[OF E this] have ins: "insert_messages E ?subs ?rows now ?db = (Inr (), db\<lparr>
      ps_messages := ps_messages db @ ?rows,
      ps_ackables := ps_ackables db @ published_rows E ?subs ?rows now (?n + length msgs),
      ps_draws := ?n + length msgs + length ?rows * length ?subs \<rparr>)" by simp
  consider (empty) "msgs = []" | (blank) "msgs \<noteq> []" "list_ex message_empty msgs"
    | (missing) "msgs \<noteq> []" "\<not> list_ex message_empty msgs" "\<not> topic_exists (full_topic P t) db"
    | (go) "msgs \<noteq> []" "\<not> list_ex message_empty msgs" "topic_exists (full_topic P t) db" by blast
  then show ?thesis
  proof cases
    case empty
    with run show ?thesis by (intro fail[of _ ?n]) (auto simp: ps_publish_def)
  next
    case blank
    with run show ?thesis by (intro fail[of _ ?n]) (auto simp: ps_publish_def)
  next
    case missing
    with run show ?thesis
      by (intro fail[of "topic_missing (full_topic P t)" "?n + length msgs"])
         (auto simp: ps_publish_def Let_def publish_tx_def topic_exists_def act_bind_def)
  next
    case go
    with run ins show ?thesis
      by (intro stored[OF refl refl refl])
         (auto simp: ps_publish_def Let_def publish_tx_def topic_exists_def act_bind_def act_return_def ids)
  qed
qed

subsection \<open>What a request does to the rows\<close>

lemma ackables_cong:
  "(\<And>a. f a = g a) \<Longrightarrow> db\<lparr> ps_ackables := map f (ps_ackables db) \<rparr> = db\<lparr> ps_ackables := map g (ps_ackables db) \<rparr>"
  by simp

definition leased_times :: "(pubsub_ackable \<times> pubsub_message) list \<Rightarrow> string \<Rightarrow> nat" where
  "leased_times rows i = length (filter (\<lambda>(b, _). ak_id b = i) rows)"

lemma leased_times_pos: "leased_times rows i \<noteq> 0 \<longleftrightarrow> i \<in> (\<lambda>(b, _). ak_id b) ` set rows"
  by (auto simp: leased_times_def filter_empty_conv)

lemma fold_lease:
  "fold (\<lambda>(a, m). ack_lease (ak_id a) u) rows db = db\<lparr> ps_ackables := map (\<lambda>a.
     if leased_times rows (ak_id a) = 0 then a
     else a\<lparr> ak_lease_until := Some u, ak_attempts := ak_attempts a + int (leased_times rows (ak_id a)) \<rparr>)
     (ps_ackables db) \<rparr>"
proof (induction rows arbitrary: db)
  case (Cons r rows)
  then show ?case
    by (cases r) (auto simp: ack_lease_def sql_update_def leased_times_def comp_def intro!: ackables_cong)
qed (simp add: leased_times_def)

lemma fold_ack_row:
  "fold (ack_row sub) acks db = db\<lparr> ps_ackables := map (\<lambda>a.
     if ak_id a \<in> set acks \<and> ak_subscription a = sub then a\<lparr> ak_acked := True \<rparr> else a) (ps_ackables db) \<rparr>"
  by (induction acks arbitrary: db) (auto simp: ack_row_def sql_update_def comp_def intro!: ackables_cong)

lemma fold_extend_row:
  "fold (extend_row sub u) acks db = db\<lparr> ps_ackables := map (\<lambda>a.
     if ak_id a \<in> set acks \<and> ak_subscription a = sub \<and> \<not> ak_acked a then a\<lparr> ak_lease_until := Some u \<rparr> else a)
     (ps_ackables db) \<rparr>"
  by (induction acks arbitrary: db) (auto simp: extend_row_def sql_update_def comp_def intro!: ackables_cong)

text \<open>The step of one row; \<open>same_row\<close> is what no operation changes of it.\<close>

definition same_row :: "pubsub_ackable \<Rightarrow> pubsub_ackable \<Rightarrow> bool" where
  "same_row a b \<longleftrightarrow> ak_id b = ak_id a \<and> ak_subscription b = ak_subscription a
     \<and> ak_message_id b = ak_message_id a \<and> (ak_acked a \<longrightarrow> ak_acked b)"

fun row_step :: "string \<Rightarrow> pubsub_op \<Rightarrow> pubsub_ackable \<Rightarrow> pubsub_ackable \<Rightarrow> bool" where
  "row_step P (PsPull n k now) a b \<longleftrightarrow> b = a \<or>
     (same_row a b \<and> ak_acked b = ak_acked a \<and> ps_deliverable (full_sub P n) now a
      \<and> (\<exists>d. 10 \<le> d \<and> d \<le> 600 \<and> ak_lease_until b = Some (now + d * 1000)))"
| "row_step P (PsAck n acks) a b \<longleftrightarrow>
     b = (if ak_id a \<in> set acks \<and> ak_subscription a = full_sub P n then a\<lparr> ak_acked := True \<rparr> else a)"
| "row_step P (PsModify n acks secs now) a b \<longleftrightarrow> b = a \<or>
     (same_row a b \<and> ak_acked b = ak_acked a \<and> ak_id a \<in> set acks \<and> ak_subscription a = full_sub P n
      \<and> 0 \<le> secs \<and> secs \<le> 600 \<and> ak_lease_until b = Some (now + secs * 1000))"
| "row_step P (PsDeleteSub n) a b \<longleftrightarrow> b = a \<and> ak_subscription a \<noteq> full_sub P n"
| "row_step P x a b \<longleftrightarrow> b = a"

lemma row_step_same: "row_step P x a b \<Longrightarrow> same_row a b"
  by (cases x) (auto simp: same_row_def split: if_splits)

lemma pull_candidates_set:
  "(a, m) \<in> set (pull_candidates sub now db) \<longleftrightarrow>
     a \<in> set (ps_ackables db) \<and> m \<in> set (ps_messages db) \<and> ak_message_id a = pm_message_id m \<and> ps_deliverable sub now a"
  by (auto simp: pull_candidates_def)

lemma ps_pull_cases:
  assumes ok: "pubsub_ok E db" and run: "ps_pull P n k now db = (r, db')"
  obtains (fail) e where "r = Inl e" "db' = db"
  | (pulled) s rows where "s \<in> set (ps_subscriptions db)" "su_name s = full_sub P n" "10 \<le> su_deadline s" "su_deadline s \<le> 600"
      "rows = take (nat (pull_limit k)) (pull_candidates (full_sub P n) now db)" "r = Inr rows"
      "db' = fold (\<lambda>(a, m). ack_lease (ak_id a) (now + su_deadline s * 1000)) rows db"
proof (cases "find_sub (full_sub P n) db")
  case None
  then show ?thesis using run by (intro fail) (auto simp: ps_pull_def)
next
  case (Some s)
  then have "s \<in> set (ps_subscriptions db)" "su_name s = full_sub P n"
    by (auto simp: find_sub_def dest: find_Some_set)
  then show ?thesis
    using Some ok run by (intro pulled[of s]) (auto simp: ps_pull_def Let_def pubsub_ok_def list_all_iff)
qed

lemma row_step_pull_map:
  assumes rows: "rows = take l (pull_candidates (full_sub P n) now db)" and d: "10 \<le> d" "d \<le> 600"
    and ok: "distinct (map ak_id (ps_ackables db))" and a: "a \<in> set (ps_ackables db)"
  shows "row_step P (PsPull n k now) a (if leased_times rows (ak_id a) = 0 then a
     else a\<lparr> ak_lease_until := Some (now + d * 1000), ak_attempts := ak_attempts a + int (leased_times rows (ak_id a)) \<rparr>)"
proof (cases "leased_times rows (ak_id a) = 0")
  case False
  then have "ak_id a \<in> (\<lambda>(b, _). ak_id b) ` set rows" by (simp only: leased_times_pos)
  then obtain b m where b: "(b, m) \<in> set rows" "ak_id b = ak_id a" by auto
  then have "b \<in> set (ps_ackables db)" "ps_deliverable (full_sub P n) now b"
    using rows by (auto dest!: in_set_takeD simp: pull_candidates_set)
  with b(2) a ok have "ps_deliverable (full_sub P n) now a" using key_inject by metis
  with False d show ?thesis by (auto simp: same_row_def)
qed simp

text \<open>The rows after a request: every one changed by its step, new ones added, or a subscription's rows dropped.\<close>

lemma row_sub_exists: "pubsub_ok E db \<Longrightarrow> a \<in> set (ps_ackables db) \<Longrightarrow> sub_exists (ak_subscription a) db"
  by (simp add: pubsub_ok_def list_all_iff sub_exists_def)

lemma message_rows_ids:
  "length ids = length msgs \<Longrightarrow> map pm_message_id (map (message_row_of E t now) (zip ids msgs)) = ids"
  by (rule nth_equalityI) (simp_all add: message_row_of_def)

lemma pubsub_exec_rows:
  assumes E: "uuids_fresh E" and ok: "pubsub_ok E db" and run: "pubsub_exec (E, P) x db = (r, db')"
  obtains (mapped) f where "ps_ackables db' = map f (ps_ackables db)" "\<And>a. a \<in> set (ps_ackables db) \<Longrightarrow> row_step P x a (f a)"
      "ps_messages db' = ps_messages db" "ps_draws db \<le> ps_draws db'"
      "su_name ` set (ps_subscriptions db) \<subseteq> su_name ` set (ps_subscriptions db')"
  | (added) t ms now subs msgs n where "x = PsPublish t ms now" "ps_messages db' = ps_messages db @ msgs"
      "ps_ackables db' = ps_ackables db @ published_rows E subs msgs now n"
      "map pm_message_id msgs = map (uuid_v4 E) [ps_draws db..<n]"
      "ps_draws db \<le> n" "ps_draws db' = n + length msgs * length subs"
      "set subs \<subseteq> su_name ` set (ps_subscriptions db)" "ps_subscriptions db' = ps_subscriptions db"
  | (dropped) n where "x = PsDeleteSub n"
      "ps_subscriptions db' = sql_delete (\<lambda>s. su_name s = full_sub P n) (ps_subscriptions db)"
      "ps_ackables db' = sql_delete (\<lambda>a. ak_subscription a = full_sub P n) (ps_ackables db)"
      "ps_messages db' = ps_messages db" "ps_draws db' = ps_draws db"
proof (cases x)
  case (PsCreateTopic n now)
  then show ?thesis
    using run by (intro mapped[of id]) (auto simp: ps_create_topic_def Let_def split: if_splits)
next
  case (PsDeleteTopic n)
  then show ?thesis
    using run by (intro mapped[of id]) (auto simp: ps_delete_topic_def Let_def split: if_splits)
next
  case (PsCreateSub n t d now)
  then show ?thesis
    using run by (intro mapped[of id]) (auto simp: ps_create_subscription_def Let_def split: if_splits)
next
  case (PsDeleteSub n)
  show ?thesis
  proof (cases "sub_exists (full_sub P n) db")
    case True
    then show ?thesis using run PsDeleteSub by (intro dropped[of n]) (auto simp: ps_delete_subscription_def Let_def)
  next
    case False
    have "ak_subscription a \<noteq> full_sub P n" if "a \<in> set (ps_ackables db)" for a
      using row_sub_exists[OF ok that] False by auto
    with False show ?thesis
      using run PsDeleteSub by (intro mapped[of id]) (auto simp: ps_delete_subscription_def Let_def)
  qed
next
  case (PsPublish t ms now)
  then obtain r' where pub: "ps_publish E P t ms now db = (r', db')"
    using run by (cases "ps_publish E P t ms now db") auto
  from E ok pub show ?thesis
  proof (cases rule: ps_publish_cases)
    case (fail e d)
    then show ?thesis using PsPublish by (intro mapped[of id]) auto
  next
    case (stored subs ids rows)
    have ids: "map pm_message_id rows = map (uuid_v4 E) [ps_draws db..<ps_draws db + length ms]"
      unfolding stored(3) by (simp only: stored(2)) (rule message_rows_ids, simp)
    show ?thesis
    proof (rule added[OF PsPublish])
      show "map pm_message_id rows = map (uuid_v4 E) [ps_draws db..<ps_draws db + length ms]" by (rule ids)
      show "set subs \<subseteq> su_name ` set (ps_subscriptions db)" by (auto simp: stored(1))
    qed (simp_all add: stored(5))
  qed
next
  case (PsPull n k now)
  then obtain r' where pull: "ps_pull P n k now db = (r', db')" using run by (cases "ps_pull P n k now db") auto
  from ok pull show ?thesis
  proof (cases rule: ps_pull_cases)
    case fail
    then show ?thesis using PsPull by (intro mapped[of id]) auto
  next
    case (pulled s rows)
    have "distinct (map ak_id (ps_ackables db))" using ok by (simp add: pubsub_ok_def)
    note step = row_step_pull_map[OF pulled(5,3,4) this]
    show ?thesis
      by (rule mapped[of "\<lambda>a. if leased_times rows (ak_id a) = 0 then a
        else a\<lparr> ak_lease_until := Some (now + su_deadline s * 1000), ak_attempts := ak_attempts a + int (leased_times rows (ak_id a)) \<rparr>"])
         (simp_all add: pulled(7) fold_lease PsPull step del: row_step.simps)
  qed
next
  case (PsAck n acks)
  show ?thesis
  proof (cases "sub_exists (full_sub P n) db")
    case True
    then show ?thesis
      using run PsAck
      by (intro mapped[of "\<lambda>a. if ak_id a \<in> set acks \<and> ak_subscription a = full_sub P n then a\<lparr> ak_acked := True \<rparr> else a"])
         (auto simp: ps_acknowledge_def Let_def fold_ack_row)
  next
    case False
    have "ak_subscription a \<noteq> full_sub P n" if "a \<in> set (ps_ackables db)" for a
      using row_sub_exists[OF ok that] False by auto
    with False show ?thesis
      using run PsAck by (intro mapped[of id]) (auto simp: ps_acknowledge_def Let_def)
  qed
next
  case (PsModify n acks secs now)
  show ?thesis
  proof (cases "0 \<le> secs \<and> secs \<le> 600 \<and> sub_exists (full_sub P n) db")
    case True
    then show ?thesis
      using run PsModify
      by (intro mapped[of "\<lambda>a. if ak_id a \<in> set acks \<and> ak_subscription a = full_sub P n \<and> \<not> ak_acked a
            then a\<lparr> ak_lease_until := Some (now + secs * 1000) \<rparr> else a"])
         (auto simp: ps_modify_ack_deadline_def Let_def fold_extend_row same_row_def MAX_ACK_DEADLINE_def)
  next
    case False
    then show ?thesis
      using run PsModify
      by (intro mapped[of id]) (auto simp: ps_modify_ack_deadline_def Let_def MAX_ACK_DEADLINE_def split: if_splits)
  qed
qed

text \<open>The three facts the guarantees use.\<close>

lemma row_origin:
  assumes "uuids_fresh E" "pubsub_ok E db" "pubsub_exec (E, P) x db = (r, db')" "b \<in> set (ps_ackables db')"
    "drawn E db (ak_id b)"
  obtains a where "a \<in> set (ps_ackables db)" "row_step P x a b"
  using assms(1-3)
proof (cases rule: pubsub_exec_rows)
  case (mapped f)
  with assms(4) that show ?thesis by auto
next
  case (added t ms now subs msgs n)
  from assms(4) consider "b \<in> set (ps_ackables db)" | "b \<in> set (published_rows E subs msgs now n)" by (auto simp: added)
  then show ?thesis
  proof cases
    case 1
    with that[of b] show ?thesis by (simp add: added)
  next
    case 2
    then obtain k where "ak_id b = uuid_v4 E k" "n \<le> k" by (elim published_rows_rows) (auto simp: new_ackable_def)
    with added(5) draw_fresh[OF assms(1), of db k] assms(5) show ?thesis by simp
  qed
next
  case (dropped n)
  with assms(4) show ?thesis by (intro that[of b]) auto
qed

lemma row_survives:
  assumes "uuids_fresh E" "pubsub_ok E db" "pubsub_exec (E, P) x db = (r, db')" "a \<in> set (ps_ackables db)"
    "\<And>n. x = PsDeleteSub n \<Longrightarrow> ak_subscription a \<noteq> full_sub P n"
  obtains b where "b \<in> set (ps_ackables db')" "row_step P x a b"
  using assms(1-3)
proof (cases rule: pubsub_exec_rows)
  case (mapped f)
  then show ?thesis using that[of "f a"] assms(4) by auto
next
  case (added t ms now subs msgs n)
  with assms(4) that[of a] show ?thesis by simp
next
  case (dropped n)
  with assms(4,5) show ?thesis by (intro that[of a]) auto
qed

lemma messages_kept:
  assumes "uuids_fresh E" "pubsub_ok E db" "pubsub_exec (E, P) x db = (r, db')"
  shows "set (ps_messages db) \<subseteq> set (ps_messages db') \<and> ps_draws db \<le> ps_draws db'"
  using assms by (cases rule: pubsub_exec_rows) auto

subsection \<open>The invariant is kept\<close>

lemma ids_fresh_append:
  assumes E: "uuids_fresh E" and d: "distinct (map key xs)" and old: "list_all (\<lambda>x. drawn E db (key x)) xs"
    and new: "map key ys = map (uuid_v4 E) [i..<j]" "ps_draws db \<le> i"
  shows "distinct (map key (xs @ ys))"
proof -
  have "distinct (map (uuid_v4 E) [i..<j])" using E by (simp add: distinct_map uuids_fresh_def inj_on_def inj_def)
  moreover have "key x \<noteq> uuid_v4 E k" if "x \<in> set xs" "i \<le> k" for x k
    using draw_fresh[OF E, of db k] old that new(2) by (auto simp: list_all_iff)
  then have "set (map key xs) \<inter> set (map key ys) = {}" unfolding new(1) by auto
  ultimately show ?thesis using d new(1) by simp
qed

lemma published_rows_ok:
  assumes "a \<in> set (published_rows E subs ms now n)" "ps_draws db' = n + length ms * length subs"
    "set ms \<subseteq> set (ps_messages db')" "set subs \<subseteq> su_name ` set (ps_subscriptions db')"
  shows "drawn E db' (ak_id a) \<and> ak_message_id a \<in> pm_message_id ` set (ps_messages db')
    \<and> ak_subscription a \<in> su_name ` set (ps_subscriptions db')"
  using assms(1)
proof (rule published_rows_rows)
  fix k sub m
  assume a: "a = new_ackable E (uuid_v4 E k) sub (pm_message_id m) now" "k < n + length ms * length subs"
    "sub \<in> set subs" "m \<in> set ms"
  then have "drawn E db' (uuid_v4 E k)" by (intro drawnI) (simp add: assms(2))
  with a assms(3,4) show ?thesis by (auto simp: new_ackable_def)
qed

lemma pubsub_tables_ok:
  assumes E: "uuids_fresh E" and ok: "pubsub_ok E db" and run: "pubsub_exec (E, P) x db = (r, db')"
  shows "distinct (map pt_name (ps_topics db')) \<and> distinct (map su_name (ps_subscriptions db'))
   \<and> list_all (\<lambda>s. 10 \<le> su_deadline s \<and> su_deadline s \<le> 600) (ps_subscriptions db')"
proof -
  have t: "distinct (map pt_name (ps_topics db))" and s: "distinct (map su_name (ps_subscriptions db))"
    "list_all (\<lambda>s. 10 \<le> su_deadline s \<and> su_deadline s \<le> 600) (ps_subscriptions db)"
    using ok by (auto simp: pubsub_ok_def)
  show ?thesis
  proof (cases x)
    case (PsCreateTopic n now)
    with run t s show ?thesis
      by (auto simp: ps_create_topic_def Let_def topic_exists_def image_iff split: if_splits)
  next
    case (PsDeleteTopic n)
    with run t s show ?thesis
      by (auto simp: ps_delete_topic_def Let_def split: if_splits)
  next
    case (PsCreateSub n u d now)
    with run t s show ?thesis
      by (auto simp: ps_create_subscription_def Let_def sub_exists_def image_iff clamp_deadline_def
            DEFAULT_ACK_DEADLINE_def MAX_ACK_DEADLINE_def split: if_splits)
  next
    case (PsDeleteSub n)
    with run t s show ?thesis
      by (auto simp: ps_delete_subscription_def Let_def list_all_iff split: if_splits)
  next
    case (PsPublish u ms now)
    then obtain r' where pub: "ps_publish E P u ms now db = (r', db')"
      using run by (cases "ps_publish E P u ms now db") auto
    have "ps_topics db' = ps_topics db \<and> ps_subscriptions db' = ps_subscriptions db"
      using E ok pub by (cases rule: ps_publish_cases) simp_all
    with t s show ?thesis by simp
  next
    case (PsPull n k now)
    with run t s show ?thesis
      by (auto simp: ps_pull_def Let_def fold_lease split: option.splits)
  next
    case (PsAck n acks)
    with run t s show ?thesis
      by (auto simp: ps_acknowledge_def Let_def fold_ack_row split: if_splits)
  next
    case (PsModify n acks secs now)
    with run t s show ?thesis
      by (auto simp: ps_modify_ack_deadline_def Let_def fold_extend_row split: if_splits)
  qed
qed

lemma pubsub_exec_ok:
  assumes E: "uuids_fresh E" and ok: "pubsub_ok E db" and run: "pubsub_exec (E, P) x db = (r, db')"
  shows "pubsub_ok E db'"
proof -
  note tables = pubsub_tables_ok[OF E ok run]
  have msgs: "distinct (map pm_message_id (ps_messages db))" "list_all (\<lambda>m. drawn E db (pm_message_id m)) (ps_messages db)"
    and acks: "distinct (map ak_id (ps_ackables db))" "list_all (\<lambda>a. drawn E db (ak_id a)) (ps_ackables db)"
    and rows: "\<And>a. a \<in> set (ps_ackables db) \<Longrightarrow> drawn E db (ak_id a) \<and> ak_message_id a \<in> pm_message_id ` set (ps_messages db)
        \<and> ak_subscription a \<in> su_name ` set (ps_subscriptions db)"
    using ok by (auto simp: pubsub_ok_def list_all_iff)
  from E ok run show ?thesis
  proof (cases rule: pubsub_exec_rows)
    case (mapped f)
    have same: "same_row a (f a)" if "a \<in> set (ps_ackables db)" for a using mapped(2)[OF that] by (rule row_step_same)
    then have "map ak_id (ps_ackables db') = map ak_id (ps_ackables db)" by (simp add: mapped(1) same_row_def)
    moreover have "drawn E db' (pm_message_id m)" if "m \<in> set (ps_messages db)" for m
      using that msgs(2) mapped(4) by (auto simp: list_all_iff intro: drawn_mono)
    moreover have "drawn E db' (ak_id b) \<and> ak_message_id b \<in> pm_message_id ` set (ps_messages db)
        \<and> ak_subscription b \<in> su_name ` set (ps_subscriptions db')" if b: "b \<in> set (ps_ackables db')" for b
    proof -
      from b obtain a where a: "a \<in> set (ps_ackables db)" "b = f a" by (auto simp: mapped(1))
      from rows[OF a(1)] have "drawn E db' (ak_id a)" using mapped(4) by (blast intro: drawn_mono)
      with rows[OF a(1)] same[OF a(1)] mapped(5) show ?thesis by (auto simp: a(2) same_row_def)
    qed
    ultimately show ?thesis using tables msgs(1) acks(1) by (simp add: pubsub_ok_def list_all_iff mapped(3))
  next
    case (added t ms now subs new n)
    have grow: "ps_draws db \<le> ps_draws db'" using added by simp
    have "drawn E db' (pm_message_id m)" if "m \<in> set (ps_messages db')" for m
    proof (cases "m \<in> set (ps_messages db)")
      case False
      with that have "pm_message_id m \<in> set (map pm_message_id new)" by (simp add: added(2))
      then show ?thesis unfolding added(4) using added(6) by (auto intro!: drawnI)
    qed (use msgs(2) grow in \<open>auto simp: list_all_iff intro: drawn_mono\<close>)
    moreover have "drawn E db' (ak_id b) \<and> ak_message_id b \<in> pm_message_id ` set (ps_messages db')
        \<and> ak_subscription b \<in> su_name ` set (ps_subscriptions db')" if "b \<in> set (ps_ackables db')" for b
    proof (cases "b \<in> set (ps_ackables db)")
      case True
      then show ?thesis using rows[OF True] grow by (auto simp: added intro: drawn_mono)
    next
      case False
      with that have "b \<in> set (published_rows E subs new now n)" by (simp add: added(3))
      then show ?thesis by (rule published_rows_ok) (use added in auto)
    qed
    moreover have "distinct (map pm_message_id (ps_messages db'))"
      unfolding added(2) using E msgs added(4) order_refl by (rule ids_fresh_append)
    moreover have "distinct (map ak_id (ps_ackables db'))"
      unfolding added(3) using E acks published_rows_ids added(5) by (rule ids_fresh_append)
    ultimately show ?thesis using tables by (simp add: pubsub_ok_def list_all_iff)
  next
    case (dropped n)
    have "distinct (map ak_id (ps_ackables db'))" using acks(1) by (auto simp: dropped(3))
    moreover have "drawn E db' i \<longleftrightarrow> drawn E db i" for i by (simp add: drawn_def dropped(5))
    moreover have "su_name ` set (ps_subscriptions db') = su_name ` set (ps_subscriptions db) - {full_sub P n}"
      by (auto simp: dropped(2))
    ultimately show ?thesis
      using tables msgs rows by (auto simp: pubsub_ok_def list_all_iff dropped(3,4))
  qed
qed

interpretation pubsub: service "\<lambda>(E, P). uuids_fresh E" pubsub_init pubsub_exec "\<lambda>(E, P). pubsub_ok E"
proof unfold_locales
  fix env :: "externals \<times> string" and x db
  assume "case env of (E, P) \<Rightarrow> uuids_fresh E" "(case env of (E, P) \<Rightarrow> pubsub_ok E) db"
  then show "(case env of (E, P) \<Rightarrow> pubsub_ok E) (snd (pubsub_exec env x db))"
    by (cases env) (auto intro: pubsub_exec_ok[OF _ _ surjective_pairing])
qed (auto simp: pubsub_ok_def pubsub_init_def)

lemma pubsub_run_ok:
  assumes "uuids_fresh E" shows "pubsub_ok E (snd (run_ops (pubsub_exec (E, P)) xs pubsub_init))"
  using pubsub.inv_reached[of "(E, P)" xs] assms by simp

lemma pubsub_run_with:
  assumes "uuids_fresh E" "pubsub_ok E db" "I db" "\<forall>x\<in>set xs. A x"
    "\<And>db x r db'. pubsub_ok E db \<Longrightarrow> I db \<Longrightarrow> A x \<Longrightarrow> pubsub_exec (E, P) x db = (r, db') \<Longrightarrow> I db' \<and> Q r"
  shows "I (snd (run_ops (pubsub_exec (E, P)) xs db)) \<and> (\<forall>r\<in>set (fst (run_ops (pubsub_exec (E, P)) xs db)). Q r)"
proof (rule pubsub.run_with[of "(E, P)" I A Q])
  fix d x assume "(case (E, P) of (E, P) \<Rightarrow> pubsub_ok E) d" "I d" "A x"
  then show "I (snd (pubsub_exec (E, P) x d)) \<and> Q (fst (pubsub_exec (E, P) x d))"
    by (intro assms(5)) simp_all
qed (use assms in simp_all)

subsection \<open>Leases and acknowledgements\<close>

definition pulls_before :: "int \<Rightarrow> pubsub_op \<Rightarrow> bool" where
  "pulls_before t x = (case x of PsPull _ _ now \<Rightarrow> now < t | _ \<Rightarrow> True)"

definition modifies :: "string \<Rightarrow> pubsub_op \<Rightarrow> bool" where
  "modifies i x = (case x of PsModify _ acks _ _ \<Rightarrow> i \<in> set acks | _ \<Rightarrow> False)"

definition acknowledges :: "string \<Rightarrow> pubsub_op \<Rightarrow> bool" where
  "acknowledges i x = (case x of PsAck _ acks \<Rightarrow> i \<in> set acks | _ \<Rightarrow> False)"

text \<open>Every row of an acknowledgement id; the id has been drawn, so no later row gets it.\<close>

definition rows_of :: "externals \<Rightarrow> string \<Rightarrow> (pubsub_ackable \<Rightarrow> bool) \<Rightarrow> pubsub_db \<Rightarrow> bool" where
  "rows_of E i Q db \<longleftrightarrow> drawn E db i \<and> (\<forall>a\<in>set (ps_ackables db). ak_id a = i \<longrightarrow> Q a)"

lemma rows_of_step:
  assumes "uuids_fresh E" "pubsub_ok E db" "pubsub_exec (E, P) x db = (r, db')" "rows_of E i Q db"
    and step: "\<And>a b. ak_id a = i \<Longrightarrow> Q a \<Longrightarrow> a \<in> set (ps_ackables db) \<Longrightarrow> row_step P x a b \<Longrightarrow> R b"
  shows "rows_of E i R db'"
  unfolding rows_of_def
proof (intro conjI ballI impI)
  show "drawn E db' i" using assms(4) messages_kept[OF assms(1-3)] by (auto simp: rows_of_def intro: drawn_mono)
next
  fix b assume b: "b \<in> set (ps_ackables db')" "ak_id b = i"
  then have "drawn E db (ak_id b)" using assms(4) by (simp add: rows_of_def)
  from assms(1-3) b(1) this obtain a where a: "a \<in> set (ps_ackables db)" "row_step P x a b" by (rule row_origin)
  then have "ak_id a = i" using row_step_same[OF a(2)] b(2) by (simp add: same_row_def)
  with a assms(4) show "R b" by (intro step) (auto simp: rows_of_def)
qed

lemma returned_pull:
  "pubsub_exec (E, P) x db = (r, db') \<Longrightarrow> i \<in> returned_acks r \<Longrightarrow> \<exists>n k now. x = PsPull n k now"
  by (cases x) (auto simp: returned_acks_def map_prod_def split: prod.splits)

lemma returned_row:
  assumes "pubsub_ok E db" "pubsub_exec (E, P) x db = (r, db')" "i \<in> returned_acks r"
  obtains n k now a s where "x = PsPull n k now" "a \<in> set (ps_ackables db)" "ak_id a = i"
    "ps_deliverable (full_sub P n) now a" "find_sub (full_sub P n) db = Some s" "ak_subscription a = full_sub P n"
proof -
  obtain n k now where PsPull: "x = PsPull n k now" using returned_pull[OF assms(2,3)] by blast
  then obtain r' where pull: "ps_pull P n k now db = (r', db')" "r = PsPulled r'"
    using assms(2) by (cases "ps_pull P n k now db") auto
  from assms(1) pull(1) show ?thesis
  proof (cases rule: ps_pull_cases)
    case (fail e)
    with assms(3) pull(2) show ?thesis by (simp add: returned_acks_def)
  next
    case (pulled s rows)
    then obtain a m where "(a, m) \<in> set rows" "ak_id a = i"
      using assms(3) pull(2) by (auto simp: returned_acks_def)
    then have "a \<in> set (ps_ackables db)" "ps_deliverable (full_sub P n) now a"
      unfolding pulled(5) by (auto dest!: in_set_takeD simp: pull_candidates_set)
    moreover obtain s' where "find_sub (full_sub P n) db = Some s'"
      using pulled(1,2) by (cases "find_sub (full_sub P n) db") (auto simp: find_sub_def find_None_set)
    ultimately show ?thesis
      using that PsPull \<open>ak_id a = i\<close> by (auto simp: ps_deliverable_def)
  qed
qed

definition leased_to :: "int \<Rightarrow> pubsub_ackable \<Rightarrow> bool" where
  "leased_to t a \<longleftrightarrow> ak_acked a \<or> (\<exists>u. ak_lease_until a = Some u \<and> t \<le> u)"

lemma leased_hidden: "leased_to t a \<Longrightarrow> ps_deliverable sub now a \<Longrightarrow> \<not> now < t"
  by (auto simp: leased_to_def ps_deliverable_def)

lemma leased_step:
  assumes "leased_to t a" "row_step P x a b" "pulls_before t x" "\<not> modifies (ak_id a) x"
  shows "leased_to t b"
  using assms by (cases x) (auto simp: leased_to_def ps_deliverable_def pulls_before_def modifies_def same_row_def)

text \<open>The lease a pull takes.\<close>

lemma pull_leases:
  assumes E: "uuids_fresh E" and ok: "pubsub_ok E db" and run: "pubsub_exec (E, P) (PsPull n k now) db = (r, db')"
    and i: "i \<in> returned_acks r" and s: "find_sub (full_sub P n) db = Some s"
  shows "rows_of E i (leased_to (now + su_deadline s * 1000)) db'"
proof -
  obtain rows where rows: "r = PsPulled (Inr rows)"
      "db' = fold (\<lambda>(a, m). ack_lease (ak_id a) (now + su_deadline s * 1000)) rows db"
    using run s by (auto simp: ps_pull_def Let_def)
  from ok run i obtain a where a: "a \<in> set (ps_ackables db)" "ak_id a = i" by (rule returned_row)
  then have "drawn E db i" using ok by (auto simp: pubsub_ok_def list_all_iff)
  moreover have "leased_times rows i \<noteq> 0" using i unfolding leased_times_pos by (simp add: rows(1) returned_acks_def)
  ultimately show ?thesis by (auto simp: rows(2) fold_lease rows_of_def drawn_def leased_to_def)
qed

text \<open>C30: a pulled message stays with the subscriber that pulled it: until the subscription's deadline
  (10 to 600 seconds) has passed, no pull returns its acknowledgement id again, whatever requests come
  in between, unless one names it in \<open>modifyAckDeadline\<close>.\<close>

theorem pubsub_lease:
  assumes "uuids_fresh E" "db = snd (run_ops (pubsub_exec (E, P)) before pubsub_init)"
    and "pubsub_exec (E, P) (PsPull n k now) db = (r, db')" "i \<in> returned_acks r" "find_sub (full_sub P n) db = Some s"
    and "\<forall>x\<in>set after. pulls_before (now + su_deadline s * 1000) x \<and> \<not> modifies i x"
  shows "10 \<le> su_deadline s \<and> su_deadline s \<le> 600
    \<and> (\<forall>r\<in>set (fst (run_ops (pubsub_exec (E, P)) after db')). i \<notin> returned_acks r)"
proof -
  let ?t = "now + su_deadline s * 1000"
  have ok: "pubsub_ok E db" unfolding assms(2) by (rule pubsub_run_ok) (rule assms(1))
  have deadline: "10 \<le> su_deadline s \<and> su_deadline s \<le> 600"
    using ok assms(5) by (auto simp: find_sub_def pubsub_ok_def list_all_iff dest: find_Some_set)
  have ok': "pubsub_ok E db'" using assms(1) ok assms(3) by (rule pubsub_exec_ok)
  have start: "rows_of E i (leased_to ?t) db'" using assms(1) ok assms(3-5) by (rule pull_leases)
  have step: "rows_of E i (leased_to ?t) d' \<and> i \<notin> returned_acks r"
    if "pubsub_ok E d" "rows_of E i (leased_to ?t) d" "pulls_before ?t x \<and> \<not> modifies i x" "pubsub_exec (E, P) x d = (r, d')"
    for d x r d'
  proof
    show "rows_of E i (leased_to ?t) d'"
      using assms(1) that(1,4,2)
    proof (rule rows_of_step)
      fix a b assume "ak_id a = i" "leased_to ?t a" "row_step P x a b"
      then show "leased_to ?t b" using that(3) leased_step by blast
    qed
    show "i \<notin> returned_acks r"
    proof
      assume "i \<in> returned_acks r"
      with that(1,4) obtain n k now' a where "x = PsPull n k now'" "a \<in> set (ps_ackables d)" "ak_id a = i"
        "ps_deliverable (full_sub P n) now' a" by (rule returned_row)
      with that(2,3) show False using leased_hidden by (auto simp: rows_of_def pulls_before_def)
    qed
  qed
  have "rows_of E i (leased_to ?t) (snd (run_ops (pubsub_exec (E, P)) after db'))
      \<and> (\<forall>r\<in>set (fst (run_ops (pubsub_exec (E, P)) after db')). i \<notin> returned_acks r)"
    using assms(1) ok' start assms(6) by (rule pubsub_run_with) (rule step)
  with deadline show ?thesis by blast
qed

text \<open>A topic, a subscription with a deadline of 20 seconds and one message.\<close>

definition sample_publication :: "pubsub_op list" where
  "sample_publication =
     [PsCreateTopic ''t'' 0, PsCreateSub ''s'' ''t'' (Some 20) 0,
      PsPublish ''t'' [\<lparr> om_data = ''YQ=='', om_attributes = JObj [] \<rparr>] 1]"

abbreviation sample_serve :: "pubsub_op list \<Rightarrow> pubsub_db \<Rightarrow> pubsub_resp list \<times> pubsub_db" where
  "sample_serve \<equiv> run_ops (pubsub_exec (sample_ext, ''p''))"

definition sample_published :: pubsub_db where
  "sample_published = snd (sample_serve sample_publication pubsub_init)"

definition sample_pulled :: "pubsub_resp \<times> pubsub_db" where
  "sample_pulled = pubsub_exec (sample_ext, ''p'') (PsPull ''s'' 5 1000) sample_published"

lemma pubsub_lease_witness:
  "returned_acks (fst sample_pulled) = {''1''} \<and> list_all (\<lambda>r. ''1'' \<notin> returned_acks r)
     (fst (sample_serve [PsPull ''s'' 5 20999, PsDeleteTopic ''t'', PsPull ''s'' 5 3000] (snd sample_pulled)))"
proof -
  have r: "returned_acks (fst sample_pulled) = {''1''}" by code_simp
  have s: "find_sub (full_sub ''p'' ''s'') sample_published
      = Some \<lparr> su_name = ''projects/p/subscriptions/s'', su_topic = ''projects/p/topics/t'', su_deadline = 20, su_created_at = ''0'' \<rparr>"
    by code_simp
  have after: "\<forall>x\<in>set [PsPull ''s'' 5 20999, PsDeleteTopic ''t'', PsPull ''s'' 5 3000].
      pulls_before (1000 + su_deadline \<lparr> su_name = ''projects/p/subscriptions/s'', su_topic = ''projects/p/topics/t'',
        su_deadline = 20, su_created_at = ''0'' \<rparr> * 1000) x \<and> \<not> modifies ''1'' x"
    by (simp add: pulls_before_def modifies_def)
  have "pubsub_exec (sample_ext, ''p'') (PsPull ''s'' 5 1000) sample_published = (fst sample_pulled, snd sample_pulled)"
    by (simp only: sample_pulled_def prod.collapse)
  moreover have "''1'' \<in> returned_acks (fst sample_pulled)" by (simp only: r insertI1)
  ultimately show ?thesis
    using pubsub_lease[OF sample_ext_laws(3) sample_published_def _ _ s after] r by (simp only: list_all_iff conj_absorb) blast
qed

subsection \<open>Acknowledged for good\<close>

lemma pubsub_run_keeps:
  assumes "uuids_fresh E" "pubsub_ok E db" "I db"
    "\<And>db x r db'. pubsub_ok E db \<Longrightarrow> I db \<Longrightarrow> x \<in> set xs \<Longrightarrow> pubsub_exec (E, P) x db = (r, db') \<Longrightarrow> I db'"
  shows "I (snd (run_ops (pubsub_exec (E, P)) xs db)) \<and> pubsub_ok E (snd (run_ops (pubsub_exec (E, P)) xs db))"
proof -
  let ?run = "run_ops (pubsub_exec (E, P)) xs db"
  have "\<forall>x\<in>set xs. x \<in> set xs" by simp
  with assms(1-3) have "I (snd ?run) \<and> (\<forall>r\<in>set (fst ?run). True)"
    by (rule pubsub_run_with) (use assms(4) in blast)
  then show ?thesis using pubsub.inv_run[of "(E, P)" db xs] assms(1,2) by simp
qed

text \<open>A message is acknowledged for good: once a subscriber acknowledges what it pulled, whatever
  happened in between and whatever happens later, no pull returns that acknowledgement id again.\<close>

theorem pubsub_ack_final:
  assumes "uuids_fresh E" "db = snd (run_ops (pubsub_exec (E, P)) before pubsub_init)"
    and "pubsub_exec (E, P) (PsPull n k now) db = (r, db1)" "i \<in> returned_acks r"
    and "db2 = snd (run_ops (pubsub_exec (E, P)) between db1)" "i \<in> set acks" "full_sub P n' = full_sub P n"
  shows "\<forall>r\<in>set (fst (run_ops (pubsub_exec (E, P)) (PsAck n' acks # after) db2)). i \<notin> returned_acks r"
proof -
  have ok: "pubsub_ok E db" unfolding assms(2) by (rule pubsub_run_ok) (rule assms(1))
  have ok1: "pubsub_ok E db1" using assms(1) ok assms(3) by (rule pubsub_exec_ok)
  let ?mine = "\<lambda>a. ak_subscription a = full_sub P n"
  from ok assms(3,4) obtain a where a: "a \<in> set (ps_ackables db)" "ak_id a = i" "ak_subscription a = full_sub P n"
    by (rule returned_row) simp
  have "rows_of E i ?mine db"
    unfolding rows_of_def
  proof (intro conjI ballI impI)
    show "drawn E db i" using a(1,2) ok by (auto simp: pubsub_ok_def list_all_iff)
  next
    fix b assume b: "b \<in> set (ps_ackables db)" "ak_id b = i"
    have "distinct (map ak_id (ps_ackables db))" using ok by (simp add: pubsub_ok_def)
    from key_inject[OF this b(1) a(1)] b(2) a(2,3) show "?mine b" by simp
  qed
  with assms(1) ok assms(3) have "rows_of E i ?mine db1"
    by (rule rows_of_step) (auto dest: row_step_same simp: same_row_def)
  with assms(1) ok1 have "rows_of E i ?mine db2 \<and> pubsub_ok E db2"
    unfolding assms(5)
  proof (rule pubsub_run_keeps)
    fix d x r d' assume "pubsub_ok E d" "rows_of E i ?mine d" "pubsub_exec (E, P) x d = (r, d')"
    from assms(1) this(1,3,2) show "rows_of E i ?mine d'"
      by (rule rows_of_step) (auto dest: row_step_same simp: same_row_def)
  qed
  then have mine: "rows_of E i ?mine db2" and ok2: "pubsub_ok E db2" by simp_all
  define db3 where "db3 = snd (pubsub_exec (E, P) (PsAck n' acks) db2)"
  obtain r3 where ack: "pubsub_exec (E, P) (PsAck n' acks) db2 = (r3, db3)"
    by (metis db3_def prod.collapse)
  have ok3: "pubsub_ok E db3" using assms(1) ok2 ack by (rule pubsub_exec_ok)
  have acked: "rows_of E i ak_acked db3"
    using assms(1) ok2 ack mine by (rule rows_of_step) (simp add: assms(6,7))
  have step: "rows_of E i ak_acked d' \<and> i \<notin> returned_acks r"
    if "pubsub_ok E d" "rows_of E i ak_acked d" "x \<in> set after" "pubsub_exec (E, P) x d = (r, d')" for d x r d'
  proof
    show "rows_of E i ak_acked d'"
      using assms(1) that(1,4,2) by (rule rows_of_step) (auto dest: row_step_same simp: same_row_def)
    show "i \<notin> returned_acks r"
    proof
      assume "i \<in> returned_acks r"
      with that(1,4) obtain a sub now' where "a \<in> set (ps_ackables d)" "ak_id a = i" "ps_deliverable sub now' a"
        by (rule returned_row)
      with that(2) show False by (auto simp: rows_of_def ps_deliverable_def)
    qed
  qed
  have "\<forall>x\<in>set after. x \<in> set after" by simp
  with assms(1) ok3 acked have "rows_of E i ak_acked (snd (run_ops (pubsub_exec (E, P)) after db3))
      \<and> (\<forall>r\<in>set (fst (run_ops (pubsub_exec (E, P)) after db3)). i \<notin> returned_acks r)"
    by (rule pubsub_run_with) (rule step)
  moreover have "i \<notin> returned_acks r3" using returned_pull[OF ack] by auto
  ultimately show ?thesis using ack by (simp add: Let_def del: pubsub_exec.simps)
qed

lemma pubsub_ack_final_witness:
  "list_all (\<lambda>r. ''1'' \<notin> returned_acks r)
     (fst (sample_serve [PsAck ''projects/p/subscriptions/s'' [''1''], PsModify ''s'' [''1''] 0 70000, PsPull ''s'' 5 80000]
       (snd (sample_serve [PsPull ''s'' 5 21000] (snd sample_pulled)))))"
proof -
  have r: "''1'' \<in> returned_acks (fst sample_pulled)" by code_simp
  have pulled: "pubsub_exec (sample_ext, ''p'') (PsPull ''s'' 5 1000) sample_published = (fst sample_pulled, snd sample_pulled)"
    by (simp only: sample_pulled_def prod.collapse)
  have n: "full_sub ''p'' ''projects/p/subscriptions/s'' = full_sub ''p'' ''s''" by code_simp
  have i: "''1'' \<in> set [''1'']" by simp
  show ?thesis
    unfolding list_all_iff
    by (rule pubsub_ack_final[OF sample_ext_laws(3) sample_published_def pulled r refl i n])
qed

subsection \<open>At least once\<close>

text \<open>Requests of a time of at most \<open>t\<close>: those whose clock can extend a lease.\<close>

definition clock_until :: "int \<Rightarrow> pubsub_op \<Rightarrow> bool" where
  "clock_until t x = (case x of PsPull _ _ now \<Rightarrow> now \<le> t | PsModify _ _ _ now \<Rightarrow> now \<le> t | _ \<Rightarrow> True)"

definition deletes_sub :: "string \<Rightarrow> string \<Rightarrow> pubsub_op \<Rightarrow> bool" where
  "deletes_sub P sub x = (case x of PsDeleteSub n \<Rightarrow> full_sub P n = sub | _ \<Rightarrow> False)"

text \<open>The row by which a message waits for a subscription.\<close>

definition awaiting :: "string \<Rightarrow> string \<Rightarrow> pubsub_message \<Rightarrow> int \<Rightarrow> pubsub_db \<Rightarrow> bool" where
  "awaiting i sub m t db \<longleftrightarrow> m \<in> set (ps_messages db) \<and> (\<exists>a\<in>set (ps_ackables db). ak_id a = i \<and> ak_subscription a = sub
     \<and> ak_message_id a = pm_message_id m \<and> \<not> ak_acked a \<and> (\<forall>u. ak_lease_until a = Some u \<longrightarrow> u \<le> t + 600000))"

lemma awaiting_step:
  assumes "uuids_fresh E" "pubsub_ok E db" "pubsub_exec (E, P) x db = (r, db')" "awaiting i sub m t db"
    "clock_until t x" "\<not> acknowledges i x" "\<not> deletes_sub P sub x"
  shows "awaiting i sub m t db'"
proof -
  from assms(4) obtain a where a: "a \<in> set (ps_ackables db)" "ak_id a = i" "ak_subscription a = sub"
    "ak_message_id a = pm_message_id m" "\<not> ak_acked a" "\<forall>u. ak_lease_until a = Some u \<longrightarrow> u \<le> t + 600000"
    by (auto simp: awaiting_def)
  have "ak_subscription a \<noteq> full_sub P n" if "x = PsDeleteSub n" for n
    using assms(7) a(3) that by (auto simp: deletes_sub_def)
  from assms(1-3) a(1) this obtain b where b: "b \<in> set (ps_ackables db')" "row_step P x a b" by (rule row_survives)
  have same: "same_row a b" using b(2) by (rule row_step_same)
  have "\<not> ak_acked b \<and> (\<forall>u. ak_lease_until b = Some u \<longrightarrow> u \<le> t + 600000)"
    using b(2) a assms(5,6) by (cases x) (auto simp: clock_until_def acknowledges_def)
  moreover have "m \<in> set (ps_messages db')" using messages_kept[OF assms(1-3)] assms(4) by (auto simp: awaiting_def)
  ultimately show ?thesis using b(1) same a by (auto simp: awaiting_def same_row_def)
qed

lemma awaiting_pulled:
  assumes "pubsub_ok E db" "awaiting i (full_sub P n) m t db" "t + 600000 \<le> now"
  shows "\<exists>rows. fst (ps_pull P n k now db) = Inr rows
    \<and> (length rows = nat (pull_limit k) \<or> (\<exists>a. ak_id a = i \<and> (a, m) \<in> set rows))"
proof -
  from assms(2) obtain a where a: "a \<in> set (ps_ackables db)" "ak_id a = i" "ak_subscription a = full_sub P n"
    "ak_message_id a = pm_message_id m" "\<not> ak_acked a" "\<forall>u. ak_lease_until a = Some u \<longrightarrow> u \<le> t + 600000"
    and m: "m \<in> set (ps_messages db)" by (auto simp: awaiting_def)
  obtain s where s: "find_sub (full_sub P n) db = Some s"
    using row_sub_exists[OF assms(1) a(1)] a(3)
    by (cases "find_sub (full_sub P n) db") (auto simp: find_sub_def find_None_set sub_exists_def)
  let ?all = "pull_candidates (full_sub P n) now db"
  have "(a, m) \<in> set ?all"
    using a m assms(3) by (fastforce simp: pull_candidates_set ps_deliverable_def split: option.splits)
  then have "length (take l ?all) = l \<or> (a, m) \<in> set (take l ?all)" for l by (cases "l \<le> length ?all") simp_all
  with s a(2) show ?thesis by (auto simp: ps_pull_def Let_def)
qed

text \<open>C31: delivery at least once: a message published to a topic waits for every subscription the
  topic has; whatever requests follow, unless they acknowledge it or delete the subscription, a pull made
  600 seconds after the last of them returns it, or else as many other messages as it may return.\<close>

theorem pubsub_at_least_once:
  assumes "uuids_fresh E" "db = snd (run_ops (pubsub_exec (E, P)) before pubsub_init)"
    and "ps_publish E P topic msgs now db = (Inr ids, db')" "j < length msgs"
    and "s \<in> set (ps_subscriptions db)" "su_topic s = full_topic P topic" "su_name s = full_sub P n"
  shows "\<exists>i m. pm_message_id m = ids ! j \<and> pm_data m = om_data (msgs ! j) \<and> pm_attributes m = json_print E (om_attributes (msgs ! j))
    \<and> (\<forall>later t at_time k. (\<forall>x\<in>set later. clock_until t x \<and> \<not> acknowledges i x \<and> \<not> deletes_sub P (full_sub P n) x)
         \<and> t + 600000 \<le> at_time \<longrightarrow>
       (\<exists>rows. fst (ps_pull P n k at_time (snd (run_ops (pubsub_exec (E, P)) later db'))) = Inr rows
          \<and> (length rows = nat (pull_limit k) \<or> (\<exists>a. ak_id a = i \<and> (a, m) \<in> set rows))))"
proof -
  have ok: "pubsub_ok E db" unfolding assms(2) by (rule pubsub_run_ok) (rule assms(1))
  have "pubsub_exec (E, P) (PsPublish topic msgs now) db = (PsIds (Inr ids), db')" using assms(3) by simp
  with assms(1) ok have ok': "pubsub_ok E db'" by (rule pubsub_exec_ok)
  from assms(1) ok assms(3) show ?thesis
  proof (cases rule: ps_publish_cases)
    case (stored subs ids' rows)
    define m where "m = message_row_of E (full_topic P topic) now (ids ! j, msgs ! j)"
    have ids: "ids' = ids" "length ids = length msgs" using stored by auto
    then have "rows ! j = m" "j < length rows" using assms(4) by (simp_all add: stored(3) m_def)
    then have m: "m \<in> set rows" using nth_mem by metis
    have "full_sub P n \<in> set subs" unfolding stored(1) set_map set_filter by (rule image_eqI[of _ _ s]) (simp_all add: assms(5-7))
    from published_rows_member[OF m this, of E now "ps_draws db + length msgs"] obtain c where
      c: "new_ackable E (uuid_v4 E c) (full_sub P n) (pm_message_id m) now \<in> set (ps_ackables db')"
      by (auto simp: stored(5))
    let ?i = "uuid_v4 E c"
    have start: "awaiting ?i (full_sub P n) m t db'" for t
      unfolding awaiting_def
      by (intro conjI bexI[OF _ c]) (use m in \<open>simp_all add: stored(5) new_ackable_def\<close>)
    have "\<exists>rows. fst (ps_pull P n k at_time (snd (run_ops (pubsub_exec (E, P)) later db'))) = Inr rows
          \<and> (length rows = nat (pull_limit k) \<or> (\<exists>a. ak_id a = ?i \<and> (a, m) \<in> set rows))"
      if later: "\<forall>x\<in>set later. clock_until t x \<and> \<not> acknowledges ?i x \<and> \<not> deletes_sub P (full_sub P n) x"
        and late: "t + 600000 \<le> at_time" for later t at_time k
    proof -
      let ?run = "run_ops (pubsub_exec (E, P)) later db'"
      from assms(1) ok' start have "awaiting ?i (full_sub P n) m t (snd ?run) \<and> pubsub_ok E (snd ?run)"
      proof (rule pubsub_run_keeps)
        fix d x r d' assume "pubsub_ok E d" "awaiting ?i (full_sub P n) m t d" "x \<in> set later" "pubsub_exec (E, P) x d = (r, d')"
        with later assms(1) show "awaiting ?i (full_sub P n) m t d'" by (blast intro: awaiting_step)
      qed
      then show ?thesis using late awaiting_pulled by blast
    qed
    moreover have "pm_message_id m = ids ! j \<and> pm_data m = om_data (msgs ! j) \<and> pm_attributes m = json_print E (om_attributes (msgs ! j))" by (simp add: m_def message_row_of_def)
    ultimately show ?thesis by blast
  qed simp
qed

lemma pubsub_at_least_once_witness:
  "\<exists>i m rows. pm_message_id m = ''0'' \<and> pm_data m = ''YQ==''
     \<and> fst (ps_pull ''p'' ''s'' 5 603000 (snd (sample_serve [PsPull ''s'' 1 1000, PsModify ''s'' [''1''] 600 3000] sample_published))) = Inr rows
     \<and> (length rows = 5 \<or> (\<exists>a. ak_id a = i \<and> (a, m) \<in> set rows))"
proof -
  let ?db = "snd (sample_serve [PsCreateTopic ''t'' 0, PsCreateSub ''s'' ''t'' (Some 20) 0] pubsub_init)"
  let ?s = "\<lparr> su_name = ''projects/p/subscriptions/s'', su_topic = ''projects/p/topics/t'', su_deadline = 20, su_created_at = ''0'' \<rparr>"
  let ?msgs = "[\<lparr> om_data = ''YQ=='', om_attributes = JObj [] \<rparr>]"
  have pub: "ps_publish sample_ext ''p'' ''t'' ?msgs 1 ?db = (Inr [''0''], sample_published)" by code_simp
  have "0 < length ?msgs" "?s \<in> set (ps_subscriptions ?db)" "su_topic ?s = full_topic ''p'' ''t''" "su_name ?s = full_sub ''p'' ''s''"
    by code_simp+
  from pubsub_at_least_once[OF sample_ext_laws(3) refl pub this] obtain i m where
    m: "pm_message_id m = [''0''] ! 0" "pm_data m = om_data (?msgs ! 0)"
    and late: "\<And>later t at_time k. (\<forall>x\<in>set later. clock_until t x \<and> \<not> acknowledges i x \<and> \<not> deletes_sub ''p'' (full_sub ''p'' ''s'') x)
         \<and> t + 600000 \<le> at_time \<Longrightarrow> (\<exists>rows. fst (ps_pull ''p'' ''s'' k at_time (snd (sample_serve later sample_published))) = Inr rows
          \<and> (length rows = nat (pull_limit k) \<or> (\<exists>a. ak_id a = i \<and> (a, m) \<in> set rows)))" by blast
  have "\<exists>rows. fst (ps_pull ''p'' ''s'' 5 603000 (snd (sample_serve [PsPull ''s'' 1 1000, PsModify ''s'' [''1''] 600 3000] sample_published))) = Inr rows
          \<and> (length rows = nat (pull_limit 5) \<or> (\<exists>a. ak_id a = i \<and> (a, m) \<in> set rows))"
    by (rule late[of _ 3000]) (simp add: clock_until_def acknowledges_def deletes_sub_def)
  moreover have "nat (pull_limit 5) = 5" by (simp add: pull_limit_def)
  ultimately show ?thesis using m by auto
qed

end
