(* ===== verification/Pubsub_Handlers.thy ===== *)
theory Pubsub_Handlers
  imports Pubsub_Properties
begin

text \<open>
  Google Pub/Sub, part 2: the REST handlers (src/src/gcp/pubsub/handlers.rs).  \<open>pubsub_route\<close> is the
  router below \<open>/v1/projects\<close>: it takes the method, the decoded path segments and the body, and
  answers \<open>None\<close> where axum finds no route.  The state is the tables and the telemetry events.
\<close>

type_synonym pubsub_state = "pubsub_db \<times> event list"
type_synonym pubsub_handler = "pubsub_state \<Rightarrow> http_response \<times> pubsub_state"

subsection \<open>Names, bodies and responses\<close>

definition topic_path :: "string \<Rightarrow> string \<Rightarrow> string" where
  "topic_path project topic = ''projects/'' @ project @ ''/topics/'' @ topic"

definition sub_path :: "string \<Rightarrow> string \<Rightarrow> string" where
  "sub_path project sub = ''projects/'' @ project @ ''/subscriptions/'' @ sub"

definition rpc_error :: "externals \<Rightarrow> nat \<Rightarrow> string \<Rightarrow> string \<Rightarrow> http_response" where
  "rpc_error E status rpc_status message =
     (axum_json E (json_obj [(''error'', json_obj [(''code'', JInt (int status)), (''message'', JStr message),
        (''status'', JStr rpc_status)])]))\<lparr> http_status := status \<rparr>"

fun ps_error_response :: "externals \<Rightarrow> pubsub_error \<Rightarrow> http_response" where
  "ps_error_response E (PsNotFound m) = rpc_error E 404 ''NOT_FOUND'' m"
| "ps_error_response E (PsAlreadyExists m) = rpc_error E 409 ''ALREADY_EXISTS'' m"
| "ps_error_response E (PsInvalidArgument m) = rpc_error E 400 ''INVALID_ARGUMENT'' m"
| "ps_error_response E (PsInternal m) = rpc_error E 500 ''INTERNAL'' m"

definition empty_ok :: "externals \<Rightarrow> http_response" where
  "empty_ok E = axum_json E (JObj [])"

definition parse_body :: "externals \<Rightarrow> string \<Rightarrow> json" where
  "parse_body E body = (case json_parse E body of Some v \<Rightarrow> v | None \<Rightarrow> JObj [])"

definition topic_to_json :: "pubsub_topic \<Rightarrow> json" where
  "topic_to_json t = json_obj [(''name'', JStr (pt_name t))]"

definition sub_to_json :: "pubsub_subscription \<Rightarrow> json" where
  "sub_to_json s = json_obj [(''name'', JStr (su_name s)), (''topic'', JStr (su_topic s)), (''pushConfig'', JObj []),
     (''ackDeadlineSeconds'', JInt (su_deadline s)), (''messageRetentionDuration'', JStr ''604800s'')]"

definition ack_ids :: "json \<Rightarrow> string list" where
  "ack_ids body = string_list (json_get ''ackIds'' body)"

definition json_i64 :: "json option \<Rightarrow> int option" where
  "json_i64 v = Option.bind v (\<lambda>v. case as_i64 v of Some n \<Rightarrow> Some n | None \<Rightarrow> Option.bind (as_str v) parse_i64)"

text \<open>\<open>telemetry::emit\<close> after a success, and the match every handler ends with.\<close>

definition ps_emit :: "externals \<Rightarrow> int \<Rightarrow> string \<Rightarrow> json \<Rightarrow> event list \<Rightarrow> event list" where
  "ps_emit E now act payload = emit_event E ''gcp'' ''pubsub'' act (json_print E payload) now"

definition ps_answer ::
    "externals \<Rightarrow> 'a pubsub_action \<Rightarrow> ('a \<Rightarrow> http_response) \<Rightarrow> ('a \<Rightarrow> event list \<Rightarrow> event list) \<Rightarrow> pubsub_handler" where
  "ps_answer E act ok report = (\<lambda>(db, events). case act db of
     (Inl e, db') \<Rightarrow> (ps_error_response E e, db', events)
   | (Inr v, db') \<Rightarrow> (ok v, db', report v events))"

definition ps_read ::
    "externals \<Rightarrow> (pubsub_db \<Rightarrow> (pubsub_error, 'a) result) \<Rightarrow> ('a \<Rightarrow> http_response) \<Rightarrow> pubsub_handler" where
  "ps_read E q ok = ps_answer E (\<lambda>db. (q db, db)) ok (\<lambda>_ events. events)"

subsection \<open>Topics\<close>

definition h_create_topic :: "externals \<Rightarrow> string \<Rightarrow> string \<Rightarrow> string \<Rightarrow> int \<Rightarrow> pubsub_handler" where
  "h_create_topic E P project topic now =
     (let name = topic_path project topic in
      ps_answer E (ps_create_topic E P name now) (\<lambda>t. axum_json E (topic_to_json t))
        (\<lambda>_. ps_emit E now ''create_topic'' (json_obj [(''topic'', JStr name)])))"

definition h_get_topic :: "externals \<Rightarrow> string \<Rightarrow> string \<Rightarrow> string \<Rightarrow> pubsub_handler" where
  "h_get_topic E P project topic =
     ps_read E (ps_get_topic P (topic_path project topic)) (\<lambda>t. axum_json E (topic_to_json t))"

definition h_list_topics :: "externals \<Rightarrow> string \<Rightarrow> string \<Rightarrow> pubsub_handler" where
  "h_list_topics E P project =
     ps_read E (\<lambda>db. Inr (ps_list_topics P (Some project) db))
       (\<lambda>ts. axum_json E (json_obj [(''topics'', JArr (map topic_to_json ts))]))"

definition h_delete_topic :: "externals \<Rightarrow> string \<Rightarrow> string \<Rightarrow> string \<Rightarrow> int \<Rightarrow> pubsub_handler" where
  "h_delete_topic E P project topic now =
     (let name = topic_path project topic in
      ps_answer E (ps_delete_topic P name) (\<lambda>_. empty_ok E)
        (\<lambda>_. ps_emit E now ''delete_topic'' (json_obj [(''topic'', JStr name)])))"

definition h_topic_subscriptions :: "externals \<Rightarrow> string \<Rightarrow> string \<Rightarrow> string \<Rightarrow> pubsub_handler" where
  "h_topic_subscriptions E P project topic =
     ps_read E (ps_topic_subscriptions P (topic_path project topic))
       (\<lambda>subs. axum_json E (json_obj [(''subscriptions'', JArr (map JStr subs))]))"

definition message_of_json :: "json \<Rightarrow> outgoing_message" where
  "message_of_json m =
     \<lparr> om_data = (case json_str ''data'' m of Some d \<Rightarrow> d | None \<Rightarrow> []),
       om_attributes = (case json_get ''attributes'' m of Some (JObj a) \<Rightarrow> JObj a | _ \<Rightarrow> JObj []) \<rparr>"

definition h_publish :: "externals \<Rightarrow> string \<Rightarrow> string \<Rightarrow> json \<Rightarrow> int \<Rightarrow> pubsub_handler" where
  "h_publish E P topic body now =
     (let msgs = (case Option.bind (json_get ''messages'' body) as_array of Some a \<Rightarrow> map message_of_json a | None \<Rightarrow> []) in
      ps_answer E (ps_publish E P topic msgs now)
        (\<lambda>ids. axum_json E (json_obj [(''messageIds'', JArr (map JStr ids))]))
        (\<lambda>_. ps_emit E now ''publish'' (json_obj [(''topic'', JStr topic), (''count'', JInt (int (length msgs)))])))"

definition topic_action :: "externals \<Rightarrow> string \<Rightarrow> string \<Rightarrow> string \<Rightarrow> string \<Rightarrow> int \<Rightarrow> pubsub_handler" where
  "topic_action E P project segment body now =
     (case rsplit_once CHR '':'' segment of
        Some (topic, act) \<Rightarrow>
          if act = ''publish'' then h_publish E P (topic_path project topic) (parse_body E body) now
          else Pair (rpc_error E 404 ''NOT_FOUND'' (''Unknown topic method: '' @ segment))
      | None \<Rightarrow> Pair (rpc_error E 404 ''NOT_FOUND'' (''Unknown topic method: '' @ segment)))"

subsection \<open>Subscriptions\<close>

definition h_create_subscription ::
    "externals \<Rightarrow> string \<Rightarrow> string \<Rightarrow> string \<Rightarrow> string \<Rightarrow> int \<Rightarrow> pubsub_handler" where
  "h_create_subscription E P project sub raw now =
     (let body = parse_body E raw; name = sub_path project sub;
          topic = (case json_str ''topic'' body of Some t \<Rightarrow> t | None \<Rightarrow> []) in
      ps_answer E (ps_create_subscription E P name topic (json_i64 (json_get ''ackDeadlineSeconds'' body)) now)
        (\<lambda>s. axum_json E (sub_to_json s))
        (\<lambda>s. ps_emit E now ''create_subscription''
               (json_obj [(''subscription'', JStr name), (''topic'', JStr (su_topic s))])))"

definition h_get_subscription :: "externals \<Rightarrow> string \<Rightarrow> string \<Rightarrow> string \<Rightarrow> pubsub_handler" where
  "h_get_subscription E P project sub =
     ps_read E (ps_get_subscription P (sub_path project sub)) (\<lambda>s. axum_json E (sub_to_json s))"

definition h_list_subscriptions :: "externals \<Rightarrow> string \<Rightarrow> string \<Rightarrow> pubsub_handler" where
  "h_list_subscriptions E P project =
     ps_read E (\<lambda>db. Inr (ps_list_subscriptions P (Some project) db))
       (\<lambda>subs. axum_json E (json_obj [(''subscriptions'', JArr (map sub_to_json subs))]))"

definition h_delete_subscription :: "externals \<Rightarrow> string \<Rightarrow> string \<Rightarrow> string \<Rightarrow> int \<Rightarrow> pubsub_handler" where
  "h_delete_subscription E P project sub now =
     (let name = sub_path project sub in
      ps_answer E (ps_delete_subscription P name) (\<lambda>_. empty_ok E)
        (\<lambda>_. ps_emit E now ''delete_subscription'' (json_obj [(''subscription'', JStr name)])))"

definition pulled_json :: "externals \<Rightarrow> pubsub_ackable \<times> pubsub_message \<Rightarrow> json" where
  "pulled_json E = (\<lambda>(a, m).
     let attributes = (case json_parse E (pm_attributes m) of Some (JObj kvs) \<Rightarrow> JObj kvs | _ \<Rightarrow> JObj []) in
     json_obj [(''ackId'', JStr (ak_id a)),
       (''message'', json_obj [(''messageId'', JStr (pm_message_id m)), (''data'', JStr (pm_data m)),
          (''attributes'', attributes), (''publishTime'', JStr (rfc3339_z E (pm_created_at m)))])])"

definition h_pull :: "externals \<Rightarrow> string \<Rightarrow> string \<Rightarrow> json \<Rightarrow> int \<Rightarrow> pubsub_handler" where
  "h_pull E P sub body now =
     (let mx = (case json_i64 (json_get ''maxMessages'' body) of Some n \<Rightarrow> n | None \<Rightarrow> 10) in
      ps_answer E (ps_pull P sub mx now)
        (\<lambda>pairs. axum_json E (json_obj [(''receivedMessages'', JArr (map (pulled_json E) pairs))]))
        (\<lambda>_ events. events))"

definition subscription_action :: "externals \<Rightarrow> string \<Rightarrow> string \<Rightarrow> string \<Rightarrow> string \<Rightarrow> int \<Rightarrow> pubsub_handler" where
  "subscription_action E P project segment raw now =
     (let body = parse_body E raw in
      case rsplit_once CHR '':'' segment of
        None \<Rightarrow> Pair (rpc_error E 404 ''NOT_FOUND'' (''Unknown subscription method: '' @ segment))
      | Some (name, act) \<Rightarrow>
          let sub = sub_path project name in
          if act = ''pull'' then h_pull E P sub body now
          else if act = ''acknowledge'' then
            ps_answer E (ps_acknowledge P sub (ack_ids body)) (\<lambda>_. empty_ok E)
              (\<lambda>_. ps_emit E now ''acknowledge''
                     (json_obj [(''subscription'', JStr sub), (''count'', JInt (int (length (ack_ids body))))]))
          else if act = ''modifyAckDeadline'' then
            let seconds = (case json_i64 (json_get ''ackDeadlineSeconds'' body) of Some n \<Rightarrow> n | None \<Rightarrow> 0) in
            ps_answer E (ps_modify_ack_deadline P sub (ack_ids body) seconds now) (\<lambda>_. empty_ok E) (\<lambda>_ events. events)
          else Pair (rpc_error E 404 ''NOT_FOUND'' (''Unknown subscription method: '' @ act)))"

subsection \<open>Routes\<close>

definition pubsub_route ::
    "externals \<Rightarrow> string \<Rightarrow> string \<Rightarrow> string list \<Rightarrow> string \<Rightarrow> int \<Rightarrow> pubsub_handler option" where
  "pubsub_route E P meth segments body now = (case segments of
     [project, kind] \<Rightarrow>
       if meth = ''GET'' \<and> kind = ''topics'' then Some (h_list_topics E P project)
       else if meth = ''GET'' \<and> kind = ''subscriptions'' then Some (h_list_subscriptions E P project)
       else None
   | [project, kind, name] \<Rightarrow>
       if kind = ''topics'' then
         (if meth = ''PUT'' then Some (h_create_topic E P project name now)
          else if meth = ''GET'' then Some (h_get_topic E P project name)
          else if meth = ''DELETE'' then Some (h_delete_topic E P project name now)
          else if meth = ''POST'' then Some (topic_action E P project name body now)
          else None)
       else if kind = ''subscriptions'' then
         (if meth = ''PUT'' then Some (h_create_subscription E P project name body now)
          else if meth = ''GET'' then Some (h_get_subscription E P project name)
          else if meth = ''DELETE'' then Some (h_delete_subscription E P project name now)
          else if meth = ''POST'' then Some (subscription_action E P project name body now)
          else None)
       else None
   | [project, kind, name, sub] \<Rightarrow>
       if meth = ''GET'' \<and> kind = ''topics'' \<and> sub = ''subscriptions'' then Some (h_topic_subscriptions E P project name)
       else None
   | _ \<Rightarrow> None)"

subsection \<open>Requests and operations\<close>

lemma ps_answer_state:
  "fst (snd (ps_answer E act ok report (db, events))) = snd (act db)"
  "http_status (fst (ps_answer E act ok report (db, events))) =
     (case fst (act db) of Inl e \<Rightarrow> http_status (ps_error_response E e) | Inr v \<Rightarrow> http_status (ok v))"
  by (auto simp: ps_answer_def split: prod.splits sum.splits)

lemma ok_status [simp]: "http_status (axum_json E v) = 200" "http_status (empty_ok E) = 200"
  by (simp_all add: axum_json_def empty_ok_def)

lemma ps_error_status: "http_status (ps_error_response E e) \<in> {400, 404, 409, 500}"
  by (cases e) (simp_all add: rpc_error_def)

text \<open>The request is one operation, answered with status 200 exactly when that succeeds.\<close>

definition one_operation :: "externals \<Rightarrow> string \<Rightarrow> pubsub_handler \<Rightarrow> bool" where
  "one_operation E P h \<longleftrightarrow> (\<forall>db events. let (resp, db', events') = h (db, events) in
     (db' = db \<or> (\<exists>x. db' = snd (pubsub_exec (E, P) x db)))
   \<and> http_status resp \<in> {200, 400, 404, 409, 500}
   \<and> (http_status resp \<noteq> 200 \<longrightarrow> events' = events))"

lemma one_answer:
  assumes "\<And>db. snd (act db) = db \<or> (\<exists>x. snd (act db) = snd (pubsub_exec (E, P) x db))"
    and "\<And>v. http_status (ok v) = 200"
  shows "one_operation E P (ps_answer E act ok report)"
  unfolding one_operation_def Let_def
proof (intro allI, clarify)
  fix db events resp db' events' assume h: "ps_answer E act ok report (db, events) = (resp, db', events')"
  obtain r d where act: "act db = (r, d)" by (cases "act db")
  from assms(1)[of db] have db: "d = db \<or> (\<exists>x. d = snd (pubsub_exec (E, P) x db))" by (simp add: act)
  show "(db' = db \<or> (\<exists>x. db' = snd (pubsub_exec (E, P) x db))) \<and> http_status resp \<in> {200, 400, 404, 409, 500}
      \<and> (http_status resp \<noteq> 200 \<longrightarrow> events' = events)"
  proof (cases r)
    case (Inl e)
    with h act have "resp = ps_error_response E e" "db' = d" "events' = events" by (simp_all add: ps_answer_def)
    with db ps_error_status[of E e] show ?thesis by simp
  next
    case (Inr v)
    with h act have "resp = ok v" "db' = d" by (simp_all add: ps_answer_def)
    with db assms(2) show ?thesis by simp
  qed
qed

lemma one_read: "(\<And>v. http_status (ok v) = 200) \<Longrightarrow> one_operation E P (ps_read E q ok)"
  unfolding ps_read_def by (rule one_answer) simp_all

lemma one_error: "n \<in> {400, 404, 409, 500} \<Longrightarrow> one_operation E P (Pair (rpc_error E n st m))"
  by (auto simp: one_operation_def rpc_error_def Let_def)

lemma one_operations:
  "one_operation E P (h_create_topic E P pr n now)" "one_operation E P (h_delete_topic E P pr n now)"
  "one_operation E P (h_publish E P n body now)" "one_operation E P (h_create_subscription E P pr n raw now)"
  "one_operation E P (h_delete_subscription E P pr n now)" "one_operation E P (h_pull E P n body now)"
proof -
  have exec: "snd (pubsub_exec (E, P) x db) = snd (act db) \<Longrightarrow>
      snd (act db) = db \<or> (\<exists>x. snd (act db) = snd (pubsub_exec (E, P) x db))" for x db and act :: "pubsub_db \<Rightarrow> 'b \<times> pubsub_db"
    by metis
  show "one_operation E P (h_create_topic E P pr n now)"
    unfolding h_create_topic_def Let_def by (rule one_answer, rule exec[of "PsCreateTopic (topic_path pr n) now"]) simp_all
  show "one_operation E P (h_delete_topic E P pr n now)"
    unfolding h_delete_topic_def Let_def by (rule one_answer, rule exec[of "PsDeleteTopic (topic_path pr n)"]) simp_all
  show "one_operation E P (h_publish E P n body now)"
    unfolding h_publish_def Let_def by (rule one_answer, rule exec[of "PsPublish n _ now"]) simp_all
  show "one_operation E P (h_create_subscription E P pr n raw now)"
    unfolding h_create_subscription_def Let_def
    by (rule one_answer, rule exec[of "PsCreateSub (sub_path pr n) _ _ now"]) simp_all
  show "one_operation E P (h_delete_subscription E P pr n now)"
    unfolding h_delete_subscription_def Let_def by (rule one_answer, rule exec[of "PsDeleteSub (sub_path pr n)"]) simp_all
  show "one_operation E P (h_pull E P n body now)"
    unfolding h_pull_def Let_def by (rule one_answer, rule exec[of "PsPull n _ now"]) simp_all
qed

lemma one_if: "one_operation E P h \<Longrightarrow> one_operation E P k \<Longrightarrow> one_operation E P (if c then h else k)"
  by simp

lemma one_actions:
  "one_operation E P (topic_action E P pr seg body now)" "one_operation E P (subscription_action E P pr seg body now)"
proof -
  show "one_operation E P (topic_action E P pr seg body now)"
  proof (cases "rsplit_once CHR '':'' seg")
    case (Some q)
    obtain name act where q: "q = (name, act)" by (cases q)
    show ?thesis
      unfolding topic_action_def Some q option.case prod.case
      by (intro one_if one_operations(3) one_error) simp
  qed (simp add: topic_action_def one_error)
  have ack: "one_operation E P (ps_answer E (ps_acknowledge P n acks) (\<lambda>_. empty_ok E) report)" for n acks report
  proof (rule one_answer)
    fix db
    have "snd (ps_acknowledge P n acks db) = snd (pubsub_exec (E, P) (PsAck n acks) db)" by simp
    then show "snd (ps_acknowledge P n acks db) = db \<or> (\<exists>x. snd (ps_acknowledge P n acks db) = snd (pubsub_exec (E, P) x db))"
      by metis
  qed simp
  have modify: "one_operation E P (ps_answer E (ps_modify_ack_deadline P n acks secs now) (\<lambda>_. empty_ok E) report)"
    for n acks secs report
  proof (rule one_answer)
    fix db
    have "snd (ps_modify_ack_deadline P n acks secs now db) = snd (pubsub_exec (E, P) (PsModify n acks secs now) db)" by simp
    then show "snd (ps_modify_ack_deadline P n acks secs now db) = db
        \<or> (\<exists>x. snd (ps_modify_ack_deadline P n acks secs now db) = snd (pubsub_exec (E, P) x db))"
      by metis
  qed simp
  show "one_operation E P (subscription_action E P pr seg body now)"
  proof (cases "rsplit_once CHR '':'' seg")
    case None
    then show ?thesis by (simp add: subscription_action_def one_error)
  next
    case (Some q)
    obtain name act where q: "q = (name, act)" by (cases q)
    show ?thesis
      unfolding subscription_action_def Let_def Some q option.case prod.case
      by (intro one_if ack modify one_operations(6) one_error) simp
  qed
qed

lemma route_rules:
  "one_operation E P h \<Longrightarrow> pred_option (one_operation E P) (Some h)" "pred_option (one_operation E P) None"
  "pred_option (one_operation E P) r \<Longrightarrow> pred_option (one_operation E P) q \<Longrightarrow> pred_option (one_operation E P) (if c then r else q)"
  "pred_option (one_operation E P) r \<Longrightarrow> (\<And>x xs. pred_option (one_operation E P) (f x xs))
     \<Longrightarrow> pred_option (one_operation E P) (case l of [] \<Rightarrow> r | x # xs \<Rightarrow> f x xs)"
  by (simp_all split: list.split)

text \<open>Every request the Pub/Sub routes accept is a single step of the service, or leaves the tables
  as they are; it is answered with one of five status codes, and with an error it reports no event.\<close>

theorem pubsub_route_steps:
  assumes "pubsub_route E P meth segments body now = Some h" "h (db, events) = (resp, db', events')"
  shows "(db' = db \<or> (\<exists>x. db' = snd (pubsub_exec (E, P) x db))) \<and> http_status resp \<in> {200, 400, 404, 409, 500}
    \<and> (http_status resp \<noteq> 200 \<longrightarrow> events' = events)"
proof -
  have reads: "one_operation E P (h_get_topic E P pr n)" "one_operation E P (h_list_topics E P pr)"
    "one_operation E P (h_topic_subscriptions E P pr n)" "one_operation E P (h_get_subscription E P pr n)"
    "one_operation E P (h_list_subscriptions E P pr)" for pr n
    by (simp_all add: h_get_topic_def h_list_topics_def h_topic_subscriptions_def h_get_subscription_def
        h_list_subscriptions_def one_read)
  have "pred_option (one_operation E P) (pubsub_route E P meth segments body now)"
    unfolding pubsub_route_def by (intro route_rules reads one_operations one_actions)
  then have "one_operation E P h" by (simp add: assms(1))
  then have "let (resp, db', events') = h (db, events) in
     (db' = db \<or> (\<exists>x. db' = snd (pubsub_exec (E, P) x db)))
   \<and> http_status resp \<in> {200, 400, 404, 409, 500}
   \<and> (http_status resp \<noteq> 200 \<longrightarrow> events' = events)" unfolding one_operation_def by (elim allE)
  then show ?thesis unfolding assms(2) Let_def prod.case .
qed

lemma pubsub_route_steps_witness:
  "\<exists>h resp db' events'. pubsub_route sample_ext ''p'' ''DELETE'' [''p'', ''topics'', ''t''] [] 5 = Some h
     \<and> h (pubsub_init, []) = (resp, db', events') \<and> http_status resp \<in> {200, 400, 404, 409, 500}"
proof -
  let ?h = "h_delete_topic sample_ext ''p'' ''p'' ''t'' 5"
  have r: "pubsub_route sample_ext ''p'' ''DELETE'' [''p'', ''topics'', ''t''] [] 5 = Some ?h"
    by (simp add: pubsub_route_def)
  obtain resp db' events' where h: "?h (pubsub_init, []) = (resp, db', events')" by (cases "?h (pubsub_init, [])")
  from pubsub_route_steps[OF r h] r h show ?thesis by blast
qed

end
