(* ===== verification/Servicebus.thy ===== *)
theory Servicebus
  imports Http
begin

text \<open>
  Azure Service Bus, part 1: tables and operations (service.rs and models.rs of
  src/src/azure/servicebus).

  A message is active, locked by the consumer that received it, or dead-lettered.  The messages of a
  subscription are rows of \<open>asb_messages\<close> under the name of a virtual queue.  \<open>N\<close> is the configured
  namespace; the state is that of the database after every call.
\<close>

subsection \<open>Tables\<close>

definition ACTIVE :: int where "ACTIVE = 1"
definition LOCKED :: int where "LOCKED = 0"
definition DEADLETTER :: int where "DEADLETTER = 2"
definition MAX_RECEIVE :: int where "MAX_RECEIVE = 1000"

lemmas asb_states = ACTIVE_def LOCKED_def DEADLETTER_def

text \<open>A queue and a topic have the same columns.\<close>

record asb_entity =
  ae_name :: string
  ae_namespace :: string
  ae_created_at :: string

record asb_subscription =
  as_name :: string
  as_topic :: string
  as_namespace :: string
  as_created_at :: string

record asb_message =
  am_message_id :: string
  am_namespace :: string
  am_queue :: string
  am_body :: string
  am_lock :: string
  am_visible :: int
  am_created_at :: string

text \<open>Messages are in the order of their numeric id; the counter numbers the UUIDs drawn.\<close>

record asb_db =
  asb_queues :: "asb_entity list"
  asb_topics :: "asb_entity list"
  asb_subscriptions :: "asb_subscription list"
  asb_messages :: "asb_message list"
  asb_draws :: nat

definition asb_init :: asb_db where
  "asb_init = \<lparr> asb_queues = [], asb_topics = [], asb_subscriptions = [], asb_messages = [], asb_draws = 0 \<rparr>"

text \<open>The only failure of a call is a violated constraint, with SQLite's text.\<close>

type_synonym 'a asb_action = "(asb_db, string, 'a) action"

definition subscription_queue :: "string \<Rightarrow> string \<Rightarrow> string" where
  "subscription_queue topic sub = ''topic:'' @ topic @ '':sub:'' @ sub"

definition entity_is :: "string \<Rightarrow> string \<Rightarrow> asb_entity \<Rightarrow> bool" where
  "entity_is N n e \<longleftrightarrow> ae_namespace e = N \<and> ae_name e = n"

definition asb_sub_is :: "string \<Rightarrow> string \<Rightarrow> string \<Rightarrow> asb_subscription \<Rightarrow> bool" where
  "asb_sub_is N topic n s \<longleftrightarrow> as_namespace s = N \<and> as_topic s = topic \<and> as_name s = n"

text \<open>\<open>INSERT \<dots> ON CONFLICT DO NOTHING\<close> and the SELECT after it.\<close>

definition insert_entity :: "string \<Rightarrow> string \<Rightarrow> string \<Rightarrow> asb_entity list \<Rightarrow> asb_entity \<times> asb_entity list" where
  "insert_entity N n now es =
     (case find (entity_is N n) es of
        Some e \<Rightarrow> (e, es)
      | None \<Rightarrow> let e = \<lparr> ae_name = n, ae_namespace = N, ae_created_at = now \<rparr> in (e, es @ [e]))"

subsection \<open>Queues\<close>

definition asb_create_queue :: "externals \<Rightarrow> string \<Rightarrow> string \<Rightarrow> int \<Rightarrow> asb_entity asb_action" where
  "asb_create_queue E N name now = (\<lambda>db.
     let (q, qs) = insert_entity N name (to_rfc3339 E now) (asb_queues db) in (Inr q, db\<lparr> asb_queues := qs \<rparr>))"

definition asb_get_queue :: "string \<Rightarrow> string \<Rightarrow> asb_db \<Rightarrow> asb_entity option" where
  "asb_get_queue N name db = find (entity_is N name) (asb_queues db)"

definition asb_list_queues :: "string \<Rightarrow> asb_db \<Rightarrow> asb_entity list" where
  "asb_list_queues N db = sort_key ae_name (filter (\<lambda>q. ae_namespace q = N) (asb_queues db))"

definition asb_delete_queue :: "string \<Rightarrow> string \<Rightarrow> bool asb_action" where
  "asb_delete_queue N name = (\<lambda>db.
     (Inr (0 < sql_count (entity_is N name) (asb_queues db)),
      db\<lparr> asb_queues := sql_delete (entity_is N name) (asb_queues db),
          asb_messages := sql_delete (\<lambda>m. am_namespace m = N \<and> am_queue m = name) (asb_messages db) \<rparr>))"

subsection \<open>Topics\<close>

definition asb_create_topic :: "externals \<Rightarrow> string \<Rightarrow> string \<Rightarrow> int \<Rightarrow> asb_entity asb_action" where
  "asb_create_topic E N name now = (\<lambda>db.
     let (t, ts) = insert_entity N name (to_rfc3339 E now) (asb_topics db) in (Inr t, db\<lparr> asb_topics := ts \<rparr>))"

definition asb_get_topic :: "string \<Rightarrow> string \<Rightarrow> asb_db \<Rightarrow> asb_entity option" where
  "asb_get_topic N name db = find (entity_is N name) (asb_topics db)"

definition asb_list_topics :: "string \<Rightarrow> asb_db \<Rightarrow> asb_entity list" where
  "asb_list_topics N db = sort_key ae_name (filter (\<lambda>t. ae_namespace t = N) (asb_topics db))"

definition asb_delete_topic :: "string \<Rightarrow> string \<Rightarrow> bool asb_action" where
  "asb_delete_topic N name = (\<lambda>db.
     let sub_prefix = subscription_queue name [] in
     (Inr (0 < sql_count (entity_is N name) (asb_topics db)),
      db\<lparr> asb_topics := sql_delete (entity_is N name) (asb_topics db),
          asb_subscriptions := sql_delete (\<lambda>s. as_namespace s = N \<and> as_topic s = name) (asb_subscriptions db),
          asb_messages := sql_delete (\<lambda>m. am_namespace m = N \<and> starts_with (am_queue m) sub_prefix) (asb_messages db) \<rparr>))"

subsection \<open>Subscriptions\<close>

definition asb_create_subscription ::
    "externals \<Rightarrow> string \<Rightarrow> string \<Rightarrow> string \<Rightarrow> int \<Rightarrow> asb_subscription option asb_action" where
  "asb_create_subscription E N topic name now = (\<lambda>db.
     if sql_count (entity_is N topic) (asb_topics db) = 0 then (Inr None, db)
     else (case find (asb_sub_is N topic name) (asb_subscriptions db) of
             Some s \<Rightarrow> (Inr (Some s), db)
           | None \<Rightarrow>
               let s = \<lparr> as_name = name, as_topic = topic, as_namespace = N, as_created_at = to_rfc3339 E now \<rparr>
               in (Inr (Some s), db\<lparr> asb_subscriptions := asb_subscriptions db @ [s] \<rparr>)))"

definition subscription_exists :: "string \<Rightarrow> string \<Rightarrow> string \<Rightarrow> asb_db \<Rightarrow> bool" where
  "subscription_exists N topic name db \<longleftrightarrow> 0 < sql_count (asb_sub_is N topic name) (asb_subscriptions db)"

definition asb_list_subscriptions :: "string \<Rightarrow> string \<Rightarrow> asb_db \<Rightarrow> asb_subscription list" where
  "asb_list_subscriptions N topic db =
     sort_key as_name (filter (\<lambda>s. as_namespace s = N \<and> as_topic s = topic) (asb_subscriptions db))"

definition asb_delete_subscription :: "string \<Rightarrow> string \<Rightarrow> string \<Rightarrow> bool asb_action" where
  "asb_delete_subscription N topic name = (\<lambda>db.
     let vq = subscription_queue topic name in
     (Inr (0 < sql_count (asb_sub_is N topic name) (asb_subscriptions db)),
      db\<lparr> asb_subscriptions := sql_delete (asb_sub_is N topic name) (asb_subscriptions db),
          asb_messages := sql_delete (\<lambda>m. am_namespace m = N \<and> am_queue m = vq) (asb_messages db) \<rparr>))"

subsection \<open>Messages\<close>

definition asb_insert_message ::
    "externals \<Rightarrow> string \<Rightarrow> string \<Rightarrow> string \<Rightarrow> string \<Rightarrow> string \<Rightarrow> asb_message asb_action" where
  "asb_insert_message E mid N queue body now = (\<lambda>db.
     let m = \<lparr> am_message_id = mid, am_namespace = N, am_queue = queue, am_body = body,
               am_lock = uuid_v4 E (asb_draws db), am_visible = ACTIVE, am_created_at = now \<rparr>;
         db' = db\<lparr> asb_draws := Suc (asb_draws db) \<rparr>
     in if am_lock m \<in> am_lock ` set (asb_messages db) then
          (Inl ''UNIQUE constraint failed: asb_messages.lock_token'', db')
        else (Inr m, db'\<lparr> asb_messages := asb_messages db @ [m] \<rparr>))"

definition asb_send_message :: "externals \<Rightarrow> string \<Rightarrow> string \<Rightarrow> string \<Rightarrow> int \<Rightarrow> asb_message option asb_action" where
  "asb_send_message E N queue body now = (\<lambda>db.
     if sql_count (entity_is N queue) (asb_queues db) = 0 then (Inr None, db)
     else act_bind (asb_insert_message E (uuid_v4 E (asb_draws db)) N queue body (to_rfc3339 E now))
            (\<lambda>m. act_return (Some m)) (db\<lparr> asb_draws := Suc (asb_draws db) \<rparr>))"

fun asb_copies ::
    "externals \<Rightarrow> string \<Rightarrow> string \<Rightarrow> string \<Rightarrow> string \<Rightarrow> string \<Rightarrow> string list \<Rightarrow> asb_message list asb_action" where
  "asb_copies E mid N topic body now [] = act_return []"
| "asb_copies E mid N topic body now (s # subs) =
     act_bind (asb_insert_message E mid N (subscription_queue topic s) body now) (\<lambda>m.
       act_bind (asb_copies E mid N topic body now subs) (\<lambda>ms. act_return (m # ms)))"

text \<open>A failed insertion rolls the rows back; the UUIDs stay drawn.\<close>

definition asb_send_topic ::
    "externals \<Rightarrow> string \<Rightarrow> string \<Rightarrow> string \<Rightarrow> int \<Rightarrow> asb_message list option asb_action" where
  "asb_send_topic E N topic body now = (\<lambda>db.
     if sql_count (entity_is N topic) (asb_topics db) = 0 then (Inr None, db)
     else
       let subs = map as_name (asb_list_subscriptions N topic db) in
       case asb_copies E (uuid_v4 E (asb_draws db)) N topic body (to_rfc3339 E now) subs
              (db\<lparr> asb_draws := Suc (asb_draws db) \<rparr>) of
         (Inl e, db') \<Rightarrow> (Inl e, db\<lparr> asb_draws := asb_draws db' \<rparr>)
       | (Inr out, db') \<Rightarrow> (Inr (Some out), db'))"

definition asb_active :: "string \<Rightarrow> string \<Rightarrow> asb_message \<Rightarrow> bool" where
  "asb_active N queue m \<longleftrightarrow> am_namespace m = N \<and> am_queue m = queue \<and> am_visible m = ACTIVE"

definition set_visible :: "string \<Rightarrow> asb_message list \<Rightarrow> asb_message list" where
  "set_visible t = sql_update (\<lambda>m. am_lock m = t) (\<lambda>m. m\<lparr> am_visible := LOCKED \<rparr>)"

definition asb_receive :: "string \<Rightarrow> string \<Rightarrow> int \<Rightarrow> asb_message list asb_action" where
  "asb_receive N queue mx = (\<lambda>db.
     let lim = max 1 (min MAX_RECEIVE mx);
         msgs = take (nat lim) (filter (asb_active N queue) (asb_messages db))
     in (Inr (map (\<lambda>m. m\<lparr> am_visible := LOCKED \<rparr>) msgs),
         db\<lparr> asb_messages := fold (\<lambda>m. set_visible (am_lock m)) msgs (asb_messages db) \<rparr>))"

definition asb_settle :: "string \<Rightarrow> string \<Rightarrow> string \<Rightarrow> int option \<Rightarrow> bool asb_action" where
  "asb_settle N queue lock state = (\<lambda>db.
     let mine = (\<lambda>m. am_namespace m = N \<and> am_queue m = queue \<and> am_lock m = lock) in
     case state of
       Some v \<Rightarrow>
         let hit = (\<lambda>m. mine m \<and> am_visible m = LOCKED) in
         (Inr (0 < sql_count hit (asb_messages db)),
          db\<lparr> asb_messages := sql_update hit (\<lambda>m. m\<lparr> am_visible := v \<rparr>) (asb_messages db) \<rparr>)
     | None \<Rightarrow>
         (Inr (0 < sql_count mine (asb_messages db)),
          db\<lparr> asb_messages := sql_delete mine (asb_messages db) \<rparr>))"

definition complete_message :: "string \<Rightarrow> string \<Rightarrow> string \<Rightarrow> bool asb_action" where
  "complete_message N queue lock = asb_settle N queue lock None"

definition abandon_message :: "string \<Rightarrow> string \<Rightarrow> string \<Rightarrow> bool asb_action" where
  "abandon_message N queue lock = asb_settle N queue lock (Some ACTIVE)"

definition deadletter_message :: "string \<Rightarrow> string \<Rightarrow> string \<Rightarrow> bool asb_action" where
  "deadletter_message N queue lock = asb_settle N queue lock (Some DEADLETTER)"

definition state_name :: "int \<Rightarrow> string" where
  "state_name v = (if v = ACTIVE then ''active'' else if v = DEADLETTER then ''deadletter'' else ''locked'')"

end
