(* ===== verification/Servicebus_Handlers.thy ===== *)
theory Servicebus_Handlers
  imports Servicebus
begin

text \<open>
  Azure Service Bus, part 2: the REST handlers (src/src/azure/servicebus/handlers.rs).
  \<open>servicebus_route\<close> is the router: it takes the method, the decoded path segments, the decoded query
  parameters and the body, and answers \<open>None\<close> where axum finds no route.
\<close>

type_synonym asb_handler = "asb_db \<times> event list \<Rightarrow> http_response \<times> asb_db \<times> event list"

subsection \<open>Responses\<close>

definition asb_json :: "externals \<Rightarrow> nat \<Rightarrow> json \<Rightarrow> http_response" where
  "asb_json E status v = (axum_json E v)\<lparr> http_status := status \<rparr>"

definition asb_err :: "externals \<Rightarrow> nat \<Rightarrow> string \<Rightarrow> http_response" where
  "asb_err E status msg = asb_json E status (json_obj [(''error'', JStr msg)])"

definition asb_internal :: "externals \<Rightarrow> string \<Rightarrow> http_response" where
  "asb_internal E e = asb_err E 500 e"

definition no_content :: http_response where
  "no_content = \<lparr> http_status = 204, http_headers = [], http_body = [] \<rparr>"

definition ns_guard :: "externals \<Rightarrow> string \<Rightarrow> string \<Rightarrow> asb_handler \<Rightarrow> asb_handler" where
  "ns_guard E N ns h = (if ns \<noteq> N then Pair (asb_err E 404 (''Namespace not found: '' @ ns)) else h)"

definition msg_json :: "asb_message \<Rightarrow> json" where
  "msg_json m = json_obj [(''message_id'', JStr (am_message_id m)), (''lock_token'', JStr (am_lock m)),
     (''body'', JStr (am_body m)), (''state'', JStr (state_name (am_visible m))), (''created_at'', JStr (am_created_at m))]"

definition limit_param :: "(string \<times> string) list \<Rightarrow> int option" where
  "limit_param params =
     (case map_of (rev params) ''limit'' of
        None \<Rightarrow> Some 1
      | Some v \<Rightarrow> (case parse_i64 v of Some n \<Rightarrow> if 1 \<le> n then Some n else None | None \<Rightarrow> None))"

definition bad_limit :: "externals \<Rightarrow> http_response" where
  "bad_limit E = asb_err E 400 ''limit must be a positive integer''"

definition entity_json :: "asb_entity \<Rightarrow> json" where
  "entity_json e = json_obj [(''name'', JStr (ae_name e)), (''namespace'', JStr (ae_namespace e)),
     (''created_at'', JStr (ae_created_at e))]"

definition entity_item :: "asb_entity \<Rightarrow> json" where
  "entity_item e = json_obj [(''name'', JStr (ae_name e)), (''created_at'', JStr (ae_created_at e))]"

definition asb_sub_json :: "asb_subscription \<Rightarrow> json" where
  "asb_sub_json s = json_obj [(''name'', JStr (as_name s)), (''topic'', JStr (as_topic s)),
     (''created_at'', JStr (as_created_at s))]"

definition queue_missing :: "externals \<Rightarrow> string \<Rightarrow> http_response" where
  "queue_missing E q = asb_err E 404 (''Queue not found: '' @ q)"

definition asb_topic_missing :: "externals \<Rightarrow> string \<Rightarrow> http_response" where
  "asb_topic_missing E t = asb_err E 404 (''Topic not found: '' @ t)"

definition asb_sub_missing :: "externals \<Rightarrow> string \<Rightarrow> string \<Rightarrow> http_response" where
  "asb_sub_missing E t s = asb_err E 404 (''Subscription not found: '' @ t @ ''/'' @ s)"

definition message_missing :: "externals \<Rightarrow> string \<Rightarrow> http_response" where
  "message_missing E lock = asb_err E 404 (''Message not found: '' @ lock)"

definition asb_emit :: "externals \<Rightarrow> int \<Rightarrow> string \<Rightarrow> (string \<times> json) list \<Rightarrow> event list \<Rightarrow> event list" where
  "asb_emit E now act payload = emit_event E ''azure'' ''servicebus'' act (json_print E (json_obj payload)) now"

text \<open>The match a handler ends with: the response to a result, and the event it reports.\<close>

definition asb_answer ::
    "externals \<Rightarrow> 'a asb_action \<Rightarrow> ('a \<Rightarrow> http_response \<times> (event list \<Rightarrow> event list)) \<Rightarrow> asb_handler" where
  "asb_answer E act k = (\<lambda>(db, events). case act db of
     (Inl e, db') \<Rightarrow> (asb_internal E e, db', events)
   | (Inr v, db') \<Rightarrow> (fst (k v), db', snd (k v) events))"

definition asb_read :: "(asb_db \<Rightarrow> http_response) \<Rightarrow> asb_handler" where
  "asb_read f = (\<lambda>(db, events). (f db, db, events))"

subsection \<open>Queues\<close>

definition h_create_queue :: "externals \<Rightarrow> string \<Rightarrow> string \<Rightarrow> int \<Rightarrow> asb_handler" where
  "h_create_queue E N queue now =
     asb_answer E (asb_create_queue E N queue now) (\<lambda>q.
       (asb_json E 201 (entity_json q), asb_emit E now ''create_queue'' [(''queue'', JStr queue)]))"

definition h_list_queues :: "externals \<Rightarrow> string \<Rightarrow> asb_handler" where
  "h_list_queues E N =
     asb_read (\<lambda>db. asb_json E 200 (json_obj [(''queues'', JArr (map entity_item (asb_list_queues N db)))]))"

definition h_get_queue :: "externals \<Rightarrow> string \<Rightarrow> string \<Rightarrow> asb_handler" where
  "h_get_queue E N queue =
     asb_read (\<lambda>db. case asb_get_queue N queue db of
       Some q \<Rightarrow> asb_json E 200 (entity_json q) | None \<Rightarrow> queue_missing E queue)"

definition h_delete_queue :: "externals \<Rightarrow> string \<Rightarrow> string \<Rightarrow> int \<Rightarrow> asb_handler" where
  "h_delete_queue E N queue now =
     asb_answer E (asb_delete_queue N queue) (\<lambda>found.
       if found then (no_content, asb_emit E now ''delete_queue'' [(''queue'', JStr queue)])
       else (queue_missing E queue, id))"

definition h_send_message :: "externals \<Rightarrow> string \<Rightarrow> string \<Rightarrow> string \<Rightarrow> int \<Rightarrow> asb_handler" where
  "h_send_message E N queue body now =
     asb_answer E (asb_send_message E N queue (from_utf8_lossy body) now) (\<lambda>r. case r of
       Some m \<Rightarrow> (asb_json E 201 (msg_json m),
                 asb_emit E now ''send_message'' [(''queue'', JStr queue), (''message_id'', JStr (am_message_id m))])
     | None \<Rightarrow> (queue_missing E queue, id))"

definition receive_reply :: "externals \<Rightarrow> string \<Rightarrow> string \<Rightarrow> int \<Rightarrow> asb_handler" where
  "receive_reply E N queue lim =
     asb_answer E (asb_receive N queue lim) (\<lambda>ms.
       (asb_json E 200 (json_obj [(''messages'', JArr (map msg_json ms))]), id))"

definition h_receive_messages :: "externals \<Rightarrow> string \<Rightarrow> string \<Rightarrow> (string \<times> string) list \<Rightarrow> asb_handler" where
  "h_receive_messages E N queue params =
     (case limit_param params of
        None \<Rightarrow> Pair (bad_limit E)
      | Some lim \<Rightarrow> (\<lambda>(db, events). case asb_get_queue N queue db of
            None \<Rightarrow> (queue_missing E queue, db, events)
          | Some _ \<Rightarrow> receive_reply E N queue lim (db, events)))"

definition complete_reply :: "externals \<Rightarrow> string \<Rightarrow> string \<Rightarrow> string \<Rightarrow> asb_handler" where
  "complete_reply E N queue lock =
     asb_answer E (complete_message N queue lock) (\<lambda>found. (if found then no_content else message_missing E lock, id))"

definition settle_reply :: "externals \<Rightarrow> string \<Rightarrow> string \<Rightarrow> string \<Rightarrow> string \<Rightarrow> asb_handler" where
  "settle_reply E N queue lock act =
     (let reply = (\<lambda>found. (if found then asb_json E 200 (JObj []) else message_missing E lock, id)) in
      if act = ''abandon'' then asb_answer E (abandon_message N queue lock) reply
      else if act = ''deadletter'' then asb_answer E (deadletter_message N queue lock) reply
      else Pair (asb_err E 404 (''Unknown message action: '' @ act)))"

subsection \<open>Topics\<close>

definition h_asb_create_topic :: "externals \<Rightarrow> string \<Rightarrow> string \<Rightarrow> int \<Rightarrow> asb_handler" where
  "h_asb_create_topic E N topic now =
     asb_answer E (asb_create_topic E N topic now) (\<lambda>t.
       (asb_json E 201 (entity_json t), asb_emit E now ''create_topic'' [(''topic'', JStr topic)]))"

definition h_asb_list_topics :: "externals \<Rightarrow> string \<Rightarrow> asb_handler" where
  "h_asb_list_topics E N =
     asb_read (\<lambda>db. asb_json E 200 (json_obj [(''topics'', JArr (map entity_item (asb_list_topics N db)))]))"

definition h_asb_get_topic :: "externals \<Rightarrow> string \<Rightarrow> string \<Rightarrow> asb_handler" where
  "h_asb_get_topic E N topic =
     asb_read (\<lambda>db. case asb_get_topic N topic db of
       Some t \<Rightarrow> asb_json E 200 (entity_json t) | None \<Rightarrow> asb_topic_missing E topic)"

definition h_asb_delete_topic :: "externals \<Rightarrow> string \<Rightarrow> string \<Rightarrow> int \<Rightarrow> asb_handler" where
  "h_asb_delete_topic E N topic now =
     asb_answer E (asb_delete_topic N topic) (\<lambda>found.
       if found then (no_content, asb_emit E now ''delete_topic'' [(''topic'', JStr topic)])
       else (asb_topic_missing E topic, id))"

definition h_send_topic_message :: "externals \<Rightarrow> string \<Rightarrow> string \<Rightarrow> string \<Rightarrow> int \<Rightarrow> asb_handler" where
  "h_send_topic_message E N topic body now =
     asb_answer E (asb_send_topic E N topic (from_utf8_lossy body) now) (\<lambda>r. case r of
       Some copies \<Rightarrow>
         (asb_json E 201 (json_obj
            [(''message_id'', case copies of [] \<Rightarrow> JNull | m # _ \<Rightarrow> JStr (am_message_id m)),
             (''fan_out'', JInt (int (length copies)))]),
          asb_emit E now ''send_topic_message'' [(''topic'', JStr topic), (''fan_out'', JInt (int (length copies)))])
     | None \<Rightarrow> (asb_topic_missing E topic, id))"

subsection \<open>Subscriptions\<close>

definition h_asb_create_subscription :: "externals \<Rightarrow> string \<Rightarrow> string \<Rightarrow> string \<Rightarrow> int \<Rightarrow> asb_handler" where
  "h_asb_create_subscription E N topic sub now =
     asb_answer E (asb_create_subscription E N topic sub now) (\<lambda>r. case r of
       Some s \<Rightarrow> (asb_json E 201 (asb_sub_json s),
                 asb_emit E now ''create_subscription'' [(''topic'', JStr topic), (''subscription'', JStr sub)])
     | None \<Rightarrow> (asb_topic_missing E topic, id))"

definition h_asb_list_subscriptions :: "externals \<Rightarrow> string \<Rightarrow> string \<Rightarrow> asb_handler" where
  "h_asb_list_subscriptions E N topic =
     asb_read (\<lambda>db. case asb_get_topic N topic db of
       None \<Rightarrow> asb_topic_missing E topic
     | Some _ \<Rightarrow> asb_json E 200 (json_obj [(''subscriptions'', JArr (map (\<lambda>s.
           json_obj [(''name'', JStr (as_name s)), (''created_at'', JStr (as_created_at s))])
           (asb_list_subscriptions N topic db)))]))"

definition h_asb_get_subscription :: "externals \<Rightarrow> string \<Rightarrow> string \<Rightarrow> string \<Rightarrow> asb_handler" where
  "h_asb_get_subscription E N topic sub =
     asb_read (\<lambda>db. case find (\<lambda>s. as_name s = sub) (asb_list_subscriptions N topic db) of
       Some s \<Rightarrow> asb_json E 200 (asb_sub_json s) | None \<Rightarrow> asb_sub_missing E topic sub)"

definition h_asb_delete_subscription :: "externals \<Rightarrow> string \<Rightarrow> string \<Rightarrow> string \<Rightarrow> asb_handler" where
  "h_asb_delete_subscription E N topic sub =
     asb_answer E (asb_delete_subscription N topic sub) (\<lambda>found.
       (if found then no_content else asb_sub_missing E topic sub, id))"

definition h_receive_sub_messages ::
    "externals \<Rightarrow> string \<Rightarrow> string \<Rightarrow> string \<Rightarrow> (string \<times> string) list \<Rightarrow> asb_handler" where
  "h_receive_sub_messages E N topic sub params =
     (case limit_param params of
        None \<Rightarrow> Pair (bad_limit E)
      | Some lim \<Rightarrow> (\<lambda>(db, events).
            if subscription_exists N topic sub db then receive_reply E N (subscription_queue topic sub) lim (db, events)
            else (asb_sub_missing E topic sub, db, events)))"

subsection \<open>Routes\<close>

definition queue_routes ::
    "externals \<Rightarrow> string \<Rightarrow> string \<Rightarrow> string list \<Rightarrow> (string \<times> string) list \<Rightarrow> string \<Rightarrow> int \<Rightarrow> asb_handler option" where
  "queue_routes E N meth segments params body now = (case segments of
     [] \<Rightarrow> if meth = ''GET'' then Some (h_list_queues E N) else None
   | [q] \<Rightarrow>
       if meth = ''PUT'' then Some (h_create_queue E N q now)
       else if meth = ''GET'' then Some (h_get_queue E N q)
       else if meth = ''DELETE'' then Some (h_delete_queue E N q now) else None
   | [q, sub] \<Rightarrow>
       if sub \<noteq> ''messages'' then None
       else if meth = ''POST'' then Some (h_send_message E N q body now)
       else if meth = ''GET'' then Some (h_receive_messages E N q params) else None
   | [q, sub, lock] \<Rightarrow>
       if sub = ''messages'' \<and> meth = ''DELETE'' then Some (complete_reply E N q lock) else None
   | [q, sub, lock, act] \<Rightarrow>
       if sub = ''messages'' \<and> meth = ''POST'' then Some (settle_reply E N q lock act) else None
   | _ \<Rightarrow> None)"

definition topic_routes ::
    "externals \<Rightarrow> string \<Rightarrow> string \<Rightarrow> string list \<Rightarrow> (string \<times> string) list \<Rightarrow> string \<Rightarrow> int \<Rightarrow> asb_handler option" where
  "topic_routes E N meth segments params body now = (case segments of
     [] \<Rightarrow> if meth = ''GET'' then Some (h_asb_list_topics E N) else None
   | [t] \<Rightarrow>
       if meth = ''PUT'' then Some (h_asb_create_topic E N t now)
       else if meth = ''GET'' then Some (h_asb_get_topic E N t)
       else if meth = ''DELETE'' then Some (h_asb_delete_topic E N t now) else None
   | [t, kind] \<Rightarrow>
       if kind = ''messages'' \<and> meth = ''POST'' then Some (h_send_topic_message E N t body now)
       else if kind = ''subscriptions'' \<and> meth = ''GET'' then Some (h_asb_list_subscriptions E N t) else None
   | [t, kind, s] \<Rightarrow>
       if kind \<noteq> ''subscriptions'' then None
       else if meth = ''PUT'' then Some (h_asb_create_subscription E N t s now)
       else if meth = ''GET'' then Some (h_asb_get_subscription E N t s)
       else if meth = ''DELETE'' then Some (h_asb_delete_subscription E N t s) else None
   | [t, kind, s, sub] \<Rightarrow>
       if kind = ''subscriptions'' \<and> sub = ''messages'' \<and> meth = ''GET'' then Some (h_receive_sub_messages E N t s params)
       else None
   | [t, kind, s, sub, lock] \<Rightarrow>
       if kind = ''subscriptions'' \<and> sub = ''messages'' \<and> meth = ''DELETE''
       then Some (complete_reply E N (subscription_queue t s) lock) else None
   | [t, kind, s, sub, lock, act] \<Rightarrow>
       if kind = ''subscriptions'' \<and> sub = ''messages'' \<and> meth = ''POST''
       then Some (settle_reply E N (subscription_queue t s) lock act) else None
   | _ \<Rightarrow> None)"

definition servicebus_route ::
    "externals \<Rightarrow> string \<Rightarrow> string \<Rightarrow> string list \<Rightarrow> (string \<times> string) list \<Rightarrow> string \<Rightarrow> int \<Rightarrow> asb_handler option" where
  "servicebus_route E N meth segments params body now = (case segments of
     ns # kind # rest \<Rightarrow>
       if kind = ''queues'' then map_option (ns_guard E N ns) (queue_routes E N meth rest params body now)
       else if kind = ''topics'' then map_option (ns_guard E N ns) (topic_routes E N meth rest params body now)
       else None
   | _ \<Rightarrow> None)"

end
