(* ===== verification/Servicebus_Properties.thy ===== *)
theory Servicebus_Properties
  imports Servicebus_Handlers
begin

text \<open>
  Azure Service Bus, part 3: the life cycle of messages.  Every call to the database is a step of a
  machine that interprets the contract \<open>service\<close>; \<open>asb_moves\<close> is the abstract life cycle of a message,
  and \<open>asb_exec_rows\<close> says what a call does to the rows of \<open>asb_messages\<close>.
\<close>

subsection \<open>Calls as a machine\<close>

datatype asb_op =
    AsbCreateQueue string int
  | AsbDeleteQueue string
  | AsbCreateTopic string int
  | AsbDeleteTopic string
  | AsbCreateSub string string int
  | AsbDeleteSub string string
  | AsbSend string string int
  | AsbSendTopic string string int
  | AsbReceive string int
  | AsbComplete string string
  | AsbAbandon string string
  | AsbDeadletter string string

datatype asb_resp =
    AsbEntity "(string, asb_entity) result"
  | AsbFlag "(string, bool) result"
  | AsbSub "(string, asb_subscription option) result"
  | AsbSent "(string, asb_message option) result"
  | AsbCopies "(string, asb_message list option) result"
  | AsbReceived "(string, asb_message list) result"

fun asb_exec :: "externals \<times> string \<Rightarrow> asb_op \<Rightarrow> asb_db \<Rightarrow> asb_resp \<times> asb_db" where
  "asb_exec (E, N) (AsbCreateQueue n now) db = map_prod AsbEntity id (asb_create_queue E N n now db)"
| "asb_exec (E, N) (AsbDeleteQueue n) db = map_prod AsbFlag id (asb_delete_queue N n db)"
| "asb_exec (E, N) (AsbCreateTopic n now) db = map_prod AsbEntity id (asb_create_topic E N n now db)"
| "asb_exec (E, N) (AsbDeleteTopic n) db = map_prod AsbFlag id (asb_delete_topic N n db)"
| "asb_exec (E, N) (AsbCreateSub t n now) db = map_prod AsbSub id (asb_create_subscription E N t n now db)"
| "asb_exec (E, N) (AsbDeleteSub t n) db = map_prod AsbFlag id (asb_delete_subscription N t n db)"
| "asb_exec (E, N) (AsbSend q b now) db = map_prod AsbSent id (asb_send_message E N q b now db)"
| "asb_exec (E, N) (AsbSendTopic t b now) db = map_prod AsbCopies id (asb_send_topic E N t b now db)"
| "asb_exec (E, N) (AsbReceive q k) db = map_prod AsbReceived id (asb_receive N q k db)"
| "asb_exec (E, N) (AsbComplete q t) db = map_prod AsbFlag id (complete_message N q t db)"
| "asb_exec (E, N) (AsbAbandon q t) db = map_prod AsbFlag id (abandon_message N q t db)"
| "asb_exec (E, N) (AsbDeadletter q t) db = map_prod AsbFlag id (deadletter_message N q t db)"

definition received_locks :: "asb_resp \<Rightarrow> string set" where
  "received_locks r = (case r of AsbReceived (Inr ms) \<Rightarrow> am_lock ` set ms | _ \<Rightarrow> {})"

subsection \<open>The invariant\<close>

definition asb_drawn :: "externals \<Rightarrow> nat \<Rightarrow> string \<Rightarrow> bool" where
  "asb_drawn E d t \<longleftrightarrow> (\<exists>n<d. t = uuid_v4 E n)"

definition sub_key :: "asb_subscription \<Rightarrow> string \<times> string \<times> string" where
  "sub_key s = (as_namespace s, as_topic s, as_name s)"

definition asb_ok :: "externals \<Rightarrow> asb_db \<Rightarrow> bool" where
  "asb_ok E db \<longleftrightarrow> distinct (map am_lock (asb_messages db)) \<and> distinct (map sub_key (asb_subscriptions db))
     \<and> (\<forall>m\<in>set (asb_messages db). asb_drawn E (asb_draws db) (am_lock m) \<and> am_visible m \<in> {ACTIVE, LOCKED, DEADLETTER})"

lemma asb_drawn_mono: "asb_drawn E d t \<Longrightarrow> d \<le> d' \<Longrightarrow> asb_drawn E d' t"
  by (auto simp: asb_drawn_def intro: less_le_trans)

lemma asb_drawnI: "n < d \<Longrightarrow> asb_drawn E d (uuid_v4 E n)"
  by (auto simp: asb_drawn_def)

lemma asb_fresh: "uuids_fresh E \<Longrightarrow> d \<le> n \<Longrightarrow> \<not> asb_drawn E d (uuid_v4 E n)"
  by (auto simp: asb_drawn_def uuid_inject)

subsection \<open>Sending\<close>

definition locks_drawn :: "externals \<Rightarrow> asb_db \<Rightarrow> bool" where
  "locks_drawn E db \<longleftrightarrow> (\<forall>m\<in>set (asb_messages db). asb_drawn E (asb_draws db) (am_lock m))"

definition fresh_message :: "externals \<Rightarrow> string \<Rightarrow> string \<Rightarrow> string \<Rightarrow> string \<Rightarrow> string \<Rightarrow> nat \<Rightarrow> asb_message" where
  "fresh_message E mid N q body now n = \<lparr> am_message_id = mid, am_namespace = N, am_queue = q, am_body = body,
     am_lock = uuid_v4 E n, am_visible = ACTIVE, am_created_at = now \<rparr>"

lemma asb_insert_eq:
  assumes "uuids_fresh E" "locks_drawn E db"
  shows "asb_insert_message E mid N q body now db = (Inr (fresh_message E mid N q body now (asb_draws db)),
     db\<lparr> asb_messages := asb_messages db @ [fresh_message E mid N q body now (asb_draws db)], asb_draws := Suc (asb_draws db) \<rparr>)"
proof -
  have "uuid_v4 E (asb_draws db) \<notin> am_lock ` set (asb_messages db)"
    using assms asb_fresh[OF assms(1) order_refl[of "asb_draws db"]] by (auto simp: locks_drawn_def)
  then show ?thesis by (simp add: asb_insert_message_def fresh_message_def Let_def)
qed

text \<open>The copies of a message for the subscriptions, with the locks drawn from \<open>n\<close> on.\<close>

definition topic_copies ::
    "externals \<Rightarrow> string \<Rightarrow> string \<Rightarrow> string \<Rightarrow> string \<Rightarrow> string \<Rightarrow> string list \<Rightarrow> nat \<Rightarrow> asb_message list" where
  "topic_copies E mid N topic body now subs n =
     map (\<lambda>(i, s). fresh_message E mid N (subscription_queue topic s) body now (n + i)) (enumerate 0 subs)"

lemma topic_copies_Cons: "topic_copies E mid N topic body now (s # subs) n =
  fresh_message E mid N (subscription_queue topic s) body now n # topic_copies E mid N topic body now subs (Suc n)"
proof -
  have "enumerate (Suc 0) subs = map (\<lambda>(i, s). (Suc i, s)) (enumerate 0 subs)"
    by (rule nth_equalityI) (simp_all add: nth_enumerate_eq)
  then show ?thesis by (simp add: topic_copies_def comp_def case_prod_unfold)
qed

lemma asb_copies_eq:
  assumes "uuids_fresh E" "locks_drawn E db"
  shows "asb_copies E mid N topic body now subs db = (Inr (topic_copies E mid N topic body now subs (asb_draws db)),
     db\<lparr> asb_messages := asb_messages db @ topic_copies E mid N topic body now subs (asb_draws db),
         asb_draws := asb_draws db + length subs \<rparr>)"
  using assms(2)
proof (induction subs arbitrary: db)
  case Nil
  then show ?case by (simp add: act_return_def topic_copies_def)
next
  case (Cons s subs)
  let ?m = "fresh_message E mid N (subscription_queue topic s) body now (asb_draws db)"
  let ?db = "db\<lparr> asb_messages := asb_messages db @ [?m], asb_draws := Suc (asb_draws db) \<rparr>"
  have "locks_drawn E ?db"
    using Cons.prems by (auto simp: locks_drawn_def fresh_message_def intro: asb_drawn_mono asb_drawnI)
  from Cons.IH[OF this] show ?case
    by (simp add: act_bind_def act_return_def asb_insert_eq[OF assms(1) Cons.prems] topic_copies_Cons)
qed

lemma topic_copies_locks:
  "map am_lock (topic_copies E mid N topic body now subs n) = map (uuid_v4 E) [n..<n + length subs]"
  by (rule nth_equalityI) (simp_all add: topic_copies_def nth_enumerate_eq fresh_message_def)

subsection \<open>The life cycle\<close>

datatype asb_phase = Waiting | Held | Dead

definition asb_phase_of :: "asb_message \<Rightarrow> asb_phase" where
  "asb_phase_of m = (if am_visible m = ACTIVE then Waiting else if am_visible m = LOCKED then Held else Dead)"

text \<open>The moves a call may make with the message of a queue and a lock token.\<close>

inductive asb_moves :: "asb_op \<Rightarrow> string \<Rightarrow> string \<Rightarrow> asb_phase \<Rightarrow> asb_phase \<Rightarrow> bool" where
  stay: "asb_moves x q t p p"
| take: "asb_moves (AsbReceive q k) q t Waiting Held"
| release: "asb_moves (AsbAbandon q t) q t Held Waiting"
| bury: "asb_moves (AsbDeadletter q t) q t Held Dead"

inductive_cases movesE: "asb_moves x q t p p'"

text \<open>The calls that delete a message.\<close>

fun asb_removes :: "asb_op \<Rightarrow> string \<Rightarrow> string \<Rightarrow> bool" where
  "asb_removes (AsbComplete q' t') q t \<longleftrightarrow> q' = q \<and> t' = t"
| "asb_removes (AsbDeleteQueue q') q t \<longleftrightarrow> q' = q"
| "asb_removes (AsbDeleteSub topic s) q t \<longleftrightarrow> q = subscription_queue topic s"
| "asb_removes (AsbDeleteTopic topic) q t \<longleftrightarrow> starts_with q (subscription_queue topic [])"
| "asb_removes _ q t \<longleftrightarrow> False"

definition same_message :: "asb_message \<Rightarrow> asb_message \<Rightarrow> bool" where
  "same_message m m' \<longleftrightarrow> m' = m\<lparr> am_visible := am_visible m' \<rparr>"

definition message_step :: "asb_op \<Rightarrow> asb_message \<Rightarrow> asb_message \<Rightarrow> bool" where
  "message_step x m m' \<longleftrightarrow> same_message m m' \<and> asb_moves x (am_queue m) (am_lock m) (asb_phase_of m) (asb_phase_of m')
     \<and> (am_visible m \<in> {ACTIVE, LOCKED, DEADLETTER} \<longrightarrow> am_visible m' \<in> {ACTIVE, LOCKED, DEADLETTER})"

lemma message_stays: "message_step x m m"
  by (simp add: message_step_def same_message_def stay)

lemma fold_set_visible:
  "fold (\<lambda>m. set_visible (am_lock m)) ms rows =
     map (\<lambda>m. if am_lock m \<in> am_lock ` set ms then m\<lparr> am_visible := LOCKED \<rparr> else m) rows"
  by (induction ms arbitrary: rows) (auto simp: set_visible_def sql_update_def)

text \<open>A receive: the oldest active messages, each of them locked.\<close>

definition asb_taken :: "string \<Rightarrow> string \<Rightarrow> int \<Rightarrow> asb_db \<Rightarrow> asb_message list" where
  "asb_taken N q k db = take (nat (max 1 (min MAX_RECEIVE k))) (filter (asb_active N q) (asb_messages db))"

lemma receive_rows:
  assumes ok: "asb_ok E db" and ms: "ms = asb_taken N q k db"
  shows "asb_receive N q k db = (Inr (map (\<lambda>m. m\<lparr> am_visible := LOCKED \<rparr>) ms), db\<lparr> asb_messages :=
           map (\<lambda>m. if am_lock m \<in> am_lock ` set ms then m\<lparr> am_visible := LOCKED \<rparr> else m) (asb_messages db) \<rparr>)"
    and "m \<in> set (asb_messages db) \<Longrightarrow> am_lock m \<in> am_lock ` set ms \<Longrightarrow> m \<in> set ms \<and> asb_active N q m"
proof -
  show "asb_receive N q k db = (Inr (map (\<lambda>m. m\<lparr> am_visible := LOCKED \<rparr>) ms), db\<lparr> asb_messages :=
           map (\<lambda>m. if am_lock m \<in> am_lock ` set ms then m\<lparr> am_visible := LOCKED \<rparr> else m) (asb_messages db) \<rparr>)"
    by (simp add: asb_receive_def Let_def fold_set_visible ms asb_taken_def)
  assume m: "m \<in> set (asb_messages db)" "am_lock m \<in> am_lock ` set ms"
  then obtain n where n: "n \<in> set ms" "am_lock n = am_lock m" by auto
  then have "n \<in> set (asb_messages db) \<and> asb_active N q n" by (auto simp: ms asb_taken_def dest!: in_set_takeD)
  moreover have "distinct (map am_lock (asb_messages db))" using ok by (simp add: asb_ok_def)
  ultimately have "n = m" using key_inject[of am_lock "asb_messages db" n m] m(1) n(2) by simp
  with n \<open>n \<in> set (asb_messages db) \<and> asb_active N q n\<close> show "m \<in> set ms \<and> asb_active N q m" by simp
qed

lemma map_prod_response: "map_prod f id p = (r, d) \<longleftrightarrow> r = f (fst p) \<and> d = snd p"
  by (cases p) auto

lemma asb_exec_rows:
  assumes E: "uuids_fresh E" and ok: "asb_ok E db" and run: "asb_exec (E, N) x db = (r, db')"
  obtains (mapped) f where "asb_messages db' = map f (asb_messages db)"
      "\<And>m. m \<in> set (asb_messages db) \<Longrightarrow> message_step x m (f m)" "asb_draws db' = asb_draws db"
  | (added) new n where "asb_messages db' = asb_messages db @ new" "map am_lock new = map (uuid_v4 E) [n..<asb_draws db']"
      "asb_draws db \<le> n" "n \<le> asb_draws db'" "\<forall>m\<in>set new. am_visible m = ACTIVE"
  | (dropped) P where "asb_messages db' = sql_delete P (asb_messages db)"
      "\<And>m. P m \<Longrightarrow> asb_removes x (am_queue m) (am_lock m)" "asb_draws db' = asb_draws db"
proof -
  have drawn: "locks_drawn E (db\<lparr> asb_draws := Suc (asb_draws db) \<rparr>)"
    using ok by (auto simp: asb_ok_def locks_drawn_def intro: asb_drawn_mono)
  have settle: thesis
    if "x = AsbAbandon q t \<and> v = ACTIVE \<or> x = AsbDeadletter q t \<and> v = DEADLETTER" "db' = snd (asb_settle N q t (Some v) db)" for q t v
  proof (rule mapped)
    let ?f = "\<lambda>m. if am_namespace m = N \<and> am_queue m = q \<and> am_lock m = t \<and> am_visible m = LOCKED then m\<lparr> am_visible := v \<rparr> else m"
    show "asb_messages db' = map ?f (asb_messages db)" "asb_draws db' = asb_draws db"
      by (simp_all add: that(2) asb_settle_def Let_def sql_update_def)
    show "message_step x m (?f m)" for m
      using that(1) by (auto simp: message_step_def same_message_def asb_phase_of_def asb_states intro: asb_moves.intros)
  qed
  show thesis
  proof (cases x)
    case (AsbSend q b now)
    show ?thesis
    proof (cases "sql_count (entity_is N q) (asb_queues db) = 0")
      case True
      then show ?thesis using run AsbSend by (intro mapped[of id]) (auto simp: asb_send_message_def message_stays)
    next
      case False
      let ?m = "fresh_message E (uuid_v4 E (asb_draws db)) N q b (to_rfc3339 E now) (Suc (asb_draws db))"
      have "db' = db\<lparr> asb_messages := asb_messages db @ [?m], asb_draws := Suc (Suc (asb_draws db)) \<rparr>"
        using run False AsbSend by (simp add: asb_send_message_def act_bind_def act_return_def asb_insert_eq[OF E drawn])
      then show ?thesis by (intro added[of "[?m]" "Suc (asb_draws db)"]) (simp_all add: fresh_message_def)
    qed
  next
    case (AsbSendTopic t b now)
    show ?thesis
    proof (cases "sql_count (entity_is N t) (asb_topics db) = 0")
      case True
      then show ?thesis using run AsbSendTopic by (intro mapped[of id]) (auto simp: asb_send_topic_def message_stays)
    next
      case False
      let ?subs = "map as_name (asb_list_subscriptions N t db)"
      let ?new = "topic_copies E (uuid_v4 E (asb_draws db)) N t b (to_rfc3339 E now) ?subs (Suc (asb_draws db))"
      have "db' = db\<lparr> asb_messages := asb_messages db @ ?new, asb_draws := Suc (asb_draws db) + length ?subs \<rparr>"
        using run False AsbSendTopic by (simp add: asb_send_topic_def Let_def asb_copies_eq[OF E drawn])
      moreover have "\<forall>m\<in>set ?new. am_visible m = ACTIVE" by (auto simp: topic_copies_def fresh_message_def)
      moreover have "map am_lock ?new = map (uuid_v4 E) [Suc (asb_draws db)..<Suc (asb_draws db) + length ?subs]"
        by (rule topic_copies_locks)
      ultimately show ?thesis by (intro added[of ?new "Suc (asb_draws db)"]) (simp_all del: upt_Suc)
    qed
  next
    case (AsbReceive q k)
    let ?ms = "asb_taken N q k db"
    let ?f = "\<lambda>m. if am_lock m \<in> am_lock ` set ?ms then m\<lparr> am_visible := LOCKED \<rparr> else m"
    show ?thesis
    proof (rule mapped[of ?f])
      show "asb_messages db' = map ?f (asb_messages db)" "asb_draws db' = asb_draws db"
        using run AsbReceive by (auto simp: receive_rows(1)[OF ok refl])
      show "message_step x m (?f m)" if "m \<in> set (asb_messages db)" for m
      proof (cases "am_lock m \<in> am_lock ` set ?ms")
        case True
        from receive_rows(2)[OF ok refl that True] have "asb_active N q m" by simp
        then have "asb_moves x (am_queue m) (am_lock m) (asb_phase_of m) (asb_phase_of (m\<lparr> am_visible := LOCKED \<rparr>))"
          using take[of "am_queue m" k "am_lock m"] AsbReceive by (simp add: asb_active_def asb_phase_of_def asb_states)
        with True show ?thesis by (simp add: message_step_def same_message_def)
      qed (simp add: message_stays)
    qed
  next
    case (AsbAbandon q t)
    then show ?thesis using run by (intro settle[of q t ACTIVE]) (auto simp: abandon_message_def map_prod_response)
  next
    case (AsbDeadletter q t)
    then show ?thesis using run by (intro settle[of q t DEADLETTER]) (auto simp: deadletter_message_def map_prod_response)
  next
    case (AsbComplete q t)
    then show ?thesis
      using run by (intro dropped[of "\<lambda>m. am_namespace m = N \<and> am_queue m = q \<and> am_lock m = t"])
        (auto simp: complete_message_def asb_settle_def Let_def)
  next
    case (AsbDeleteQueue q)
    then show ?thesis
      using run by (intro dropped[of "\<lambda>m. am_namespace m = N \<and> am_queue m = q"]) (auto simp: asb_delete_queue_def)
  next
    case (AsbDeleteSub t n)
    then show ?thesis
      using run by (intro dropped[of "\<lambda>m. am_namespace m = N \<and> am_queue m = subscription_queue t n"])
        (auto simp: asb_delete_subscription_def Let_def)
  next
    case (AsbDeleteTopic t)
    then show ?thesis
      using run by (intro dropped[of "\<lambda>m. am_namespace m = N \<and> starts_with (am_queue m) (subscription_queue t [])"])
        (auto simp: asb_delete_topic_def Let_def)
  next
    case (AsbCreateQueue n now)
    then show ?thesis
      using run by (intro mapped[of id]) (auto simp: asb_create_queue_def message_stays split: prod.splits)
  next
    case (AsbCreateTopic n now)
    then show ?thesis
      using run by (intro mapped[of id]) (auto simp: asb_create_topic_def message_stays split: prod.splits)
  next
    case (AsbCreateSub t n now)
    then show ?thesis
      using run by (intro mapped[of id])
        (auto simp: asb_create_subscription_def message_stays Let_def split: if_splits option.splits)
  qed
qed

subsection \<open>The invariant is kept\<close>

lemma find_key_None: "find (asb_sub_is N t n) ss = None \<Longrightarrow> (N, t, n) \<notin> sub_key ` set ss"
  by (auto simp: find_None_set sub_key_def asb_sub_is_def)

lemma asb_subs_kept:
  assumes E: "uuids_fresh E" and ok: "asb_ok E db" and run: "asb_exec (E, N) x db = (r, db')"
  shows "distinct (map sub_key (asb_subscriptions db'))"
proof -
  have d: "distinct (map sub_key (asb_subscriptions db))" using ok by (simp add: asb_ok_def)
  have drawn: "locks_drawn E (db\<lparr> asb_draws := Suc (asb_draws db) \<rparr>)"
    using ok by (auto simp: asb_ok_def locks_drawn_def intro: asb_drawn_mono)
  note defs = asb_create_queue_def asb_create_topic_def asb_delete_queue_def asb_delete_topic_def asb_delete_subscription_def
    asb_receive_def complete_message_def abandon_message_def deadletter_message_def asb_settle_def
  show ?thesis
  proof (cases x)
    case (AsbCreateSub t n now)
    then show ?thesis
      using run d find_key_None[of N t n "asb_subscriptions db"]
      by (auto simp: asb_create_subscription_def map_prod_response Let_def sub_key_def split: if_splits option.splits)
  next
    case (AsbSend q b now)
    then show ?thesis
      using run d
      by (auto simp: asb_send_message_def map_prod_response act_bind_def act_return_def asb_insert_eq[OF E drawn] split: if_splits)
  next
    case (AsbSendTopic t b now)
    then show ?thesis
      using run d
      by (auto simp: asb_send_topic_def map_prod_response Let_def asb_copies_eq[OF E drawn] split: if_splits)
  qed (use run d in \<open>auto simp: defs map_prod_response Let_def split: prod.splits\<close>)
qed

lemma asb_exec_ok:
  assumes E: "uuids_fresh E" and ok: "asb_ok E db" and run: "asb_exec (E, N) x db = (r, db')"
  shows "asb_ok E db'"
proof -
  note subs = asb_subs_kept[OF E ok run]
  have locks: "distinct (map am_lock (asb_messages db))"
    and rows: "\<And>m. m \<in> set (asb_messages db) \<Longrightarrow> asb_drawn E (asb_draws db) (am_lock m) \<and> am_visible m \<in> {ACTIVE, LOCKED, DEADLETTER}"
    using ok by (auto simp: asb_ok_def)
  from E ok run show ?thesis
  proof (cases rule: asb_exec_rows)
    case (mapped f)
    have same: "am_lock (f m) = am_lock m" if "m \<in> set (asb_messages db)" for m
      using mapped(2)[OF that] unfolding message_step_def same_message_def by (metis asb_message.select_convs(5) asb_message.surjective asb_message.update_convs(6))
    then have "map am_lock (asb_messages db') = map am_lock (asb_messages db)" by (simp add: mapped(1))
    moreover have "asb_drawn E (asb_draws db') (am_lock m) \<and> am_visible m \<in> {ACTIVE, LOCKED, DEADLETTER}"
      if "m \<in> set (asb_messages db')" for m
    proof -
      from that obtain n where n: "n \<in> set (asb_messages db)" "m = f n" by (auto simp: mapped(1))
      with rows[OF n(1)] mapped(2)[OF n(1)] same[OF n(1)] mapped(3) show ?thesis by (simp add: message_step_def)
    qed
    ultimately show ?thesis using locks subs by (simp add: asb_ok_def)
  next
    case (added new n)
    have "distinct (map (uuid_v4 E) [n..<asb_draws db'])"
      using E by (simp add: distinct_map uuids_fresh_def inj_on_def inj_def)
    moreover have "am_lock m \<noteq> uuid_v4 E k" if "m \<in> set (asb_messages db)" "n \<le> k" for m k
      using rows[OF that(1)] asb_fresh[OF E, of "asb_draws db" k] that(2) added(3) by auto
    then have "set (map am_lock (asb_messages db)) \<inter> set (map am_lock new) = {}" unfolding added(2) by auto
    ultimately have "distinct (map am_lock (asb_messages db'))" using locks added(2) by (simp add: added(1))
    moreover have "asb_drawn E (asb_draws db') (am_lock m) \<and> am_visible m \<in> {ACTIVE, LOCKED, DEADLETTER}"
      if "m \<in> set (asb_messages db')" for m
    proof (cases "m \<in> set (asb_messages db)")
      case True
      then show ?thesis using rows[OF True] added(3,4) by (auto intro: asb_drawn_mono)
    next
      case False
      with that have "m \<in> set new" by (simp add: added(1))
      moreover from this have "am_lock m \<in> set (map am_lock new)" by simp
      then have "asb_drawn E (asb_draws db') (am_lock m)" unfolding added(2) by (auto intro: asb_drawnI)
      ultimately show ?thesis using added(5) by simp
    qed
    ultimately show ?thesis using subs by (simp add: asb_ok_def)
  next
    case (dropped P)
    then show ?thesis using ok subs by (auto simp: asb_ok_def)
  qed
qed

interpretation asb: service "\<lambda>(E, N). uuids_fresh E" asb_init asb_exec "\<lambda>(E, N). asb_ok E"
proof unfold_locales
  fix env :: "externals \<times> string" and x db
  assume "case env of (E, N) \<Rightarrow> uuids_fresh E" "(case env of (E, N) \<Rightarrow> asb_ok E) db"
  then show "(case env of (E, N) \<Rightarrow> asb_ok E) (snd (asb_exec env x db))"
    by (cases env) (auto intro: asb_exec_ok[OF _ _ surjective_pairing])
qed (auto simp: asb_ok_def asb_init_def)

lemma asb_reached_ok:
  "uuids_fresh E \<Longrightarrow> asb_ok E (snd (run_ops (asb_exec (E, N)) xs asb_init))"
  using asb.inv_reached[of "(E, N)" xs] by simp

subsection \<open>Guarantees\<close>

lemma step_same: "message_step x m m' \<Longrightarrow> am_lock m' = am_lock m \<and> am_queue m' = am_queue m"
  unfolding message_step_def same_message_def
  by (metis asb_message.select_convs(3,5) asb_message.surjective asb_message.update_convs(6))

lemma received_row:
  assumes ok: "asb_ok E db" and run: "asb_exec (E, N) x db = (r, db')" and t: "t \<in> received_locks r"
  obtains q k m where "x = AsbReceive q k" "m \<in> set (asb_messages db)" "am_lock m = t" "asb_active N q m"
    "m\<lparr> am_visible := LOCKED \<rparr> \<in> set (asb_messages db')"
proof -
  obtain q k where x: "x = AsbReceive q k"
    using run t by (cases x) (auto simp: received_locks_def map_prod_response)
  let ?ms = "asb_taken N q k db"
  have r: "r = AsbReceived (Inr (map (\<lambda>m. m\<lparr> am_visible := LOCKED \<rparr>) ?ms))"
    and db': "asb_messages db' = map (\<lambda>m. if am_lock m \<in> am_lock ` set ?ms then m\<lparr> am_visible := LOCKED \<rparr> else m) (asb_messages db)"
    using run x by (auto simp: receive_rows(1)[OF ok refl])
  from t obtain m where m: "m \<in> set ?ms" "am_lock m = t" by (auto simp: r received_locks_def)
  then have row: "m \<in> set (asb_messages db)" "asb_active N q m" by (auto simp: asb_taken_def dest!: in_set_takeD)
  have "am_lock m \<in> am_lock ` set ?ms" using m(1) by simp
  then have "m\<lparr> am_visible := LOCKED \<rparr> \<in> set (asb_messages db')"
    unfolding db' using row(1) by (auto intro!: image_eqI[of _ _ m])
  then show ?thesis by (rule that[OF x row(1) m(2) row(2)])
qed

text \<open>C32: every call follows the life cycle of messages.  It moves a message only from waiting to held by a
  receive on its queue, from held back to waiting by abandoning its token and from held to dead by dead-lettering
  it, and changes nothing else of it; only completing it or deleting its queue, subscription or topic removes it;
  new messages wait under a new token; and a receive returns exactly messages that waited and holds them.\<close>

theorem asb_lifecycle:
  assumes "uuids_fresh E" "db = snd (run_ops (asb_exec (E, N)) before asb_init)" "asb_exec (E, N) x db = (r, db')"
  shows "(\<forall>m\<in>set (asb_messages db). asb_removes x (am_queue m) (am_lock m) \<or> (\<exists>m'\<in>set (asb_messages db'). message_step x m m'))
    \<and> (\<forall>m'\<in>set (asb_messages db'). (\<exists>m\<in>set (asb_messages db). message_step x m m')
         \<or> asb_phase_of m' = Waiting \<and> am_lock m' \<notin> am_lock ` set (asb_messages db))
    \<and> (\<forall>t\<in>received_locks r. \<exists>m\<in>set (asb_messages db). am_lock m = t \<and> asb_phase_of m = Waiting
         \<and> m\<lparr> am_visible := LOCKED \<rparr> \<in> set (asb_messages db'))"
proof (intro conjI)
  have ok: "asb_ok E db" unfolding assms(2) by (rule asb_reached_ok) (rule assms(1))
  show "\<forall>t\<in>received_locks r. \<exists>m\<in>set (asb_messages db). am_lock m = t \<and> asb_phase_of m = Waiting
      \<and> m\<lparr> am_visible := LOCKED \<rparr> \<in> set (asb_messages db')"
  proof
    fix t assume "t \<in> received_locks r"
    with ok assms(3) obtain q m where "m \<in> set (asb_messages db)" "am_lock m = t" "asb_active N q m"
      "m\<lparr> am_visible := LOCKED \<rparr> \<in> set (asb_messages db')" by (rule received_row)
    then show "\<exists>m\<in>set (asb_messages db). am_lock m = t \<and> asb_phase_of m = Waiting \<and> m\<lparr> am_visible := LOCKED \<rparr> \<in> set (asb_messages db')"
      by (auto simp: asb_active_def asb_phase_of_def)
  qed
  from assms(1) ok assms(3) have "(\<forall>m\<in>set (asb_messages db). asb_removes x (am_queue m) (am_lock m) \<or> (\<exists>m'\<in>set (asb_messages db'). message_step x m m'))
    \<and> (\<forall>m'\<in>set (asb_messages db'). (\<exists>m\<in>set (asb_messages db). message_step x m m')
         \<or> asb_phase_of m' = Waiting \<and> am_lock m' \<notin> am_lock ` set (asb_messages db))"
  proof (cases rule: asb_exec_rows)
    case (mapped f)
    then show ?thesis by auto
  next
    case (added new n)
    have "asb_phase_of m' = Waiting \<and> am_lock m' \<notin> am_lock ` set (asb_messages db)" if "m' \<in> set new" for m'
    proof -
      have "am_lock m' \<in> set (map am_lock new)" using that by simp
      then obtain k where k: "am_lock m' = uuid_v4 E k" "n \<le> k" unfolding added(2) by auto
      have "\<not> asb_drawn E (asb_draws db) (uuid_v4 E k)" using added(3) k(2) by (intro asb_fresh[OF assms(1)]) simp
      then show ?thesis using ok that added(5) k(1) by (auto simp: asb_ok_def asb_phase_of_def)
    qed
    then show ?thesis using message_stays by (auto simp: added(1))
  next
    case (dropped P)
    then show ?thesis using message_stays by (fastforce simp: dropped(1))
  qed
  then show "\<forall>m\<in>set (asb_messages db). asb_removes x (am_queue m) (am_lock m) \<or> (\<exists>m'\<in>set (asb_messages db'). message_step x m m')"
    "\<forall>m'\<in>set (asb_messages db'). (\<exists>m\<in>set (asb_messages db). message_step x m m')
         \<or> asb_phase_of m' = Waiting \<and> am_lock m' \<notin> am_lock ` set (asb_messages db)" by blast+
qed

text \<open>A concrete service: a queue, a topic with two subscriptions and a message for each.\<close>

definition sample_bus :: "asb_op list" where
  "sample_bus = [AsbCreateQueue ''jobs'' 0, AsbCreateTopic ''news'' 0, AsbCreateSub ''news'' ''a'' 0,
     AsbCreateSub ''news'' ''b'' 0, AsbSend ''jobs'' ''hello'' 1]"

abbreviation bus_serve :: "asb_op list \<Rightarrow> asb_db \<Rightarrow> asb_resp list \<times> asb_db" where
  "bus_serve \<equiv> run_ops (asb_exec (sample_ext, ''ns''))"

definition bus_db :: asb_db where
  "bus_db = snd (bus_serve sample_bus asb_init)"

definition bus_received :: "asb_resp \<times> asb_db" where
  "bus_received = asb_exec (sample_ext, ''ns'') (AsbReceive ''jobs'' 1) bus_db"

lemma bus_received_pair: "asb_exec (sample_ext, ''ns'') (AsbReceive ''jobs'' 1) bus_db = (fst bus_received, snd bus_received)"
  by (simp only: bus_received_def prod.collapse)

lemma bus_received_locks: "received_locks (fst bus_received) = {''1''}"
  by code_simp

lemma asb_lifecycle_witness:
  "\<exists>m\<in>set (asb_messages bus_db). am_lock m = ''1'' \<and> asb_phase_of m = Waiting
     \<and> m\<lparr> am_visible := LOCKED \<rparr> \<in> set (asb_messages (snd bus_received))"
  using asb_lifecycle[OF sample_ext_laws(3) bus_db_def bus_received_pair] bus_received_locks by blast

text \<open>The rows with a lock token, of which there are never more than one.\<close>

definition lock_rows :: "externals \<Rightarrow> string \<Rightarrow> asb_phase set \<Rightarrow> asb_db \<Rightarrow> bool" where
  "lock_rows E t ps db \<longleftrightarrow> asb_drawn E (asb_draws db) t \<and> (\<forall>m\<in>set (asb_messages db). am_lock m = t \<longrightarrow> asb_phase_of m \<in> ps)"

lemma lock_rows_step:
  assumes "uuids_fresh E" "asb_ok E db" "asb_exec (E, N) x db = (r, db')" "lock_rows E t ps db"
    and closed: "\<And>q p p'. p \<in> ps \<Longrightarrow> asb_moves x q t p p' \<Longrightarrow> p' \<in> ps"
  shows "lock_rows E t ps db'"
  using assms(1-3)
proof (cases rule: asb_exec_rows)
  case (mapped f)
  have "asb_phase_of (f m) \<in> ps" if "m \<in> set (asb_messages db)" "am_lock (f m) = t" for m
    using that mapped(2)[OF that(1)] step_same[OF mapped(2)[OF that(1)]] assms(4) closed
    by (auto simp: lock_rows_def message_step_def)
  then show ?thesis using assms(4) by (simp add: lock_rows_def mapped(1,3))
next
  case (added new n)
  have drawn: "asb_drawn E (asb_draws db) t" using assms(4) by (simp add: lock_rows_def)
  have "am_lock m \<noteq> t" if "m \<in> set new" for m
  proof
    assume "am_lock m = t"
    with that have "t \<in> set (map am_lock new)" by auto
    then obtain k where "t = uuid_v4 E k" "n \<le> k" unfolding added(2) by auto
    with drawn added(3) asb_fresh[OF assms(1), of "asb_draws db" k] show False by simp
  qed
  moreover have "asb_drawn E (asb_draws db') t" using drawn added(3,4) by (auto intro: asb_drawn_mono)
  ultimately show ?thesis using assms(4) by (auto simp: lock_rows_def added(1))
next
  case (dropped P)
  then show ?thesis using assms(4) by (simp add: lock_rows_def)
qed

text \<open>While the calls keep a message out of \<open>Waiting\<close>, nobody receives it.\<close>

lemma not_received:
  assumes "uuids_fresh E" "asb_ok E db" "lock_rows E t ps db" "Waiting \<notin> ps"
    and closed: "\<And>x q p p'. x \<in> set xs \<Longrightarrow> p \<in> ps \<Longrightarrow> asb_moves x q t p p' \<Longrightarrow> p' \<in> ps"
  shows "\<forall>r\<in>set (fst (run_ops (asb_exec (E, N)) xs db)). t \<notin> received_locks r"
proof -
  have "lock_rows E t ps (snd (run_ops (asb_exec (E, N)) xs db))
      \<and> (\<forall>r\<in>set (fst (run_ops (asb_exec (E, N)) xs db)). t \<notin> received_locks r)"
  proof (rule asb.run_with[of "(E, N)" "lock_rows E t ps" "\<lambda>x. x \<in> set xs" "\<lambda>r. t \<notin> received_locks r"])
    fix d x assume "(case (E, N) of (E, N) \<Rightarrow> asb_ok E) d" and rows: "lock_rows E t ps d" and x: "x \<in> set xs"
    then have ok: "asb_ok E d" by simp
    obtain r d' where run: "asb_exec (E, N) x d = (r, d')" by (cases "asb_exec (E, N) x d")
    have "lock_rows E t ps d'" using assms(1) ok run rows closed[OF x] by (rule lock_rows_step)
    moreover have "t \<notin> received_locks r"
    proof
      assume "t \<in> received_locks r"
      with ok run obtain q m where "m \<in> set (asb_messages d)" "am_lock m = t" "asb_active N q m" by (rule received_row)
      then have "Waiting \<in> ps" using rows by (auto simp: lock_rows_def asb_active_def asb_phase_of_def)
      with assms(4) show False by contradiction
    qed
    ultimately show "lock_rows E t ps (snd (asb_exec (E, N) x d)) \<and> t \<notin> received_locks (fst (asb_exec (E, N) x d))"
      by (simp add: run)
  qed (use assms in simp_all)
  then show ?thesis by blast
qed

text \<open>C33: a received message is locked: no other receive returns it, by this or any other consumer, until its
  token is abandoned.\<close>

theorem asb_peek_lock:
  assumes "uuids_fresh E" "db = snd (run_ops (asb_exec (E, N)) before asb_init)"
    and "asb_exec (E, N) (AsbReceive q k) db = (r, db')" "t \<in> received_locks r"
    and "\<forall>x\<in>set after. \<forall>q. x \<noteq> AsbAbandon q t"
  shows "\<forall>r\<in>set (fst (run_ops (asb_exec (E, N)) after db')). t \<notin> received_locks r"
proof -
  have ok: "asb_ok E db" unfolding assms(2) by (rule asb_reached_ok) (rule assms(1))
  have ok': "asb_ok E db'" using assms(1) ok assms(3) by (rule asb_exec_ok)
  from ok assms(3,4) obtain m where m: "am_lock m = t" "m\<lparr> am_visible := LOCKED \<rparr> \<in> set (asb_messages db')"
    by (rule received_row)
  have distinct: "distinct (map am_lock (asb_messages db'))" using ok' by (simp add: asb_ok_def)
  have "asb_phase_of n \<in> {Held, Dead}" if "n \<in> set (asb_messages db')" "am_lock n = t" for n
    using key_inject[OF distinct that(1) m(2)] that(2) m(1) by (simp add: asb_phase_of_def asb_states)
  moreover have "asb_drawn E (asb_draws db') t" using ok' m by (force simp: asb_ok_def)
  ultimately have "lock_rows E t {Held, Dead} db'" by (simp add: lock_rows_def)
  with assms(1) ok' show ?thesis
    by (rule not_received) (use assms(5) in \<open>auto elim: movesE\<close>)
qed

lemma asb_peek_lock_witness:
  "list_all (\<lambda>r. ''1'' \<notin> received_locks r) (fst (bus_serve [AsbReceive ''jobs'' 10, AsbAbandon ''jobs'' ''0'',
     AsbDeadletter ''jobs'' ''1'', AsbReceive ''jobs'' 10] (snd bus_received)))"
  unfolding list_all_iff
  by (rule asb_peek_lock[OF sample_ext_laws(3) bus_db_def bus_received_pair]) (simp_all add: bus_received_locks)

text \<open>A dead-lettered message is never received again, also when its token is abandoned later.\<close>

theorem asb_deadletter_final:
  assumes "uuids_fresh E" "db = snd (run_ops (asb_exec (E, N)) before asb_init)"
    and "asb_exec (E, N) (AsbDeadletter q t) db = (AsbFlag (Inr True), db')"
  shows "\<forall>r\<in>set (fst (run_ops (asb_exec (E, N)) after db')). t \<notin> received_locks r"
proof -
  have ok: "asb_ok E db" unfolding assms(2) by (rule asb_reached_ok) (rule assms(1))
  have ok': "asb_ok E db'" using assms(1) ok assms(3) by (rule asb_exec_ok)
  let ?hit = "\<lambda>m. am_namespace m = N \<and> am_queue m = q \<and> am_lock m = t \<and> am_visible m = LOCKED"
  from assms(3) have hit: "0 < sql_count ?hit (asb_messages db)"
    and db': "asb_messages db' = sql_update ?hit (\<lambda>m. m\<lparr> am_visible := DEADLETTER \<rparr>) (asb_messages db)"
    by (auto simp: deadletter_message_def asb_settle_def Let_def conj_assoc)
  then obtain m where m: "m \<in> set (asb_messages db)" "?hit m"
    by (auto simp: sql_count_def filter_empty_conv)
  then have row: "m\<lparr> am_visible := DEADLETTER \<rparr> \<in> set (asb_messages db')"
    by (auto simp: db' set_sql_update intro!: image_eqI[of _ _ m])
  have distinct: "distinct (map am_lock (asb_messages db'))" using ok' by (simp add: asb_ok_def)
  have "asb_phase_of n \<in> {Dead}" if "n \<in> set (asb_messages db')" "am_lock n = t" for n
    using key_inject[OF distinct that(1) row] that(2) m(2) by (simp add: asb_phase_of_def asb_states)
  moreover have "asb_drawn E (asb_draws db') t" using ok' row m(2) by (force simp: asb_ok_def)
  ultimately have "lock_rows E t {Dead} db'" by (simp add: lock_rows_def)
  with assms(1) ok' show ?thesis
    by (rule not_received) (auto elim: movesE)
qed

lemma asb_deadletter_final_witness:
  "list_all (\<lambda>r. ''1'' \<notin> received_locks r) (fst (bus_serve [AsbAbandon ''jobs'' ''1'', AsbReceive ''jobs'' 10]
     (snd (asb_exec (sample_ext, ''ns'') (AsbDeadletter ''jobs'' ''1'') (snd (bus_serve (sample_bus @ [AsbReceive ''jobs'' 1]) asb_init))))))"
proof -
  let ?db = "snd (bus_serve (sample_bus @ [AsbReceive ''jobs'' 1]) asb_init)"
  have "fst (asb_exec (sample_ext, ''ns'') (AsbDeadletter ''jobs'' ''1'') ?db) = AsbFlag (Inr True)" by code_simp
  then have "asb_exec (sample_ext, ''ns'') (AsbDeadletter ''jobs'' ''1'') ?db
      = (AsbFlag (Inr True), snd (asb_exec (sample_ext, ''ns'') (AsbDeadletter ''jobs'' ''1'') ?db))"
    by (metis prod.collapse)
  then show ?thesis
    unfolding list_all_iff by (rule asb_deadletter_final[OF sample_ext_laws(3) refl])
qed

subsection \<open>Topics\<close>

lemma queue_of_subscription: "subscription_queue t s = subscription_queue t s' \<longleftrightarrow> s = s'"
  by (simp add: subscription_queue_def)

lemma active_fresh: "asb_active N q (fresh_message E mid N q' body now n) \<longleftrightarrow> q' = q"
  by (auto simp: asb_active_def fresh_message_def)

lemma no_active_copies:
  "s \<notin> set subs \<Longrightarrow> filter (asb_active N (subscription_queue t s)) (topic_copies E mid N t body now subs n) = []"
proof (induction subs arbitrary: n)
  case Nil
  then show ?case by (simp add: topic_copies_def)
next
  case (Cons a subs)
  then show ?case by (auto simp: topic_copies_Cons active_fresh queue_of_subscription)
qed

text \<open>Each subscription gets exactly one copy.\<close>

lemma one_active_copy:
  "distinct subs \<Longrightarrow> s \<in> set subs \<Longrightarrow> \<exists>m\<in>set (topic_copies E mid N t body now subs n). am_message_id m = mid \<and> am_body m = body
     \<and> filter (asb_active N (subscription_queue t s)) (topic_copies E mid N t body now subs n) = [m]"
proof (induction subs arbitrary: n)
  case (Cons a subs)
  show ?case
  proof (cases "a = s")
    case True
    with Cons.prems(1) have "s \<notin> set subs" by auto
    from no_active_copies[OF this] show ?thesis
      by (auto simp: topic_copies_Cons active_fresh True) (simp_all add: fresh_message_def)
  next
    case False
    with Cons.prems have "distinct subs" "s \<in> set subs" by auto
    from Cons.IH[OF this, of "Suc n"] False show ?thesis
      by (auto simp: topic_copies_Cons active_fresh queue_of_subscription)
  qed
qed simp

lemma listed_subscriptions:
  assumes "asb_ok E db"
  shows "distinct (map as_name (asb_list_subscriptions N t db))"
    and "set (map as_name (asb_list_subscriptions N t db)) = {s. subscription_exists N t s db}"
proof -
  let ?mine = "filter (\<lambda>s. as_namespace s = N \<and> as_topic s = t) (asb_subscriptions db)"
  have "distinct (map sub_key ?mine)" using assms by (auto simp: asb_ok_def distinct_map_filter)
  moreover have "map sub_key ?mine = map (\<lambda>n. (N, t, n)) (map as_name ?mine)" by (auto simp: sub_key_def)
  ultimately have "distinct (map as_name ?mine)" by (simp only: distinct_map)
  then show "distinct (map as_name (asb_list_subscriptions N t db))"
    by (simp add: asb_list_subscriptions_def distinct_map)
  show "set (map as_name (asb_list_subscriptions N t db)) = {s. subscription_exists N t s db}"
    by (auto simp: asb_list_subscriptions_def subscription_exists_def sql_count_def asb_sub_is_def filter_empty_conv)
qed

text \<open>A message sent to a topic reaches every subscription: as many copies as the topic has
  subscriptions are stored under one id, and a receive on the subscription that asks for more messages than were
  waiting before returns those first, in order, and then the copy.\<close>

theorem asb_fan_out:
  assumes "uuids_fresh E" "db = snd (run_ops (asb_exec (E, N)) before asb_init)"
    and "asb_send_topic E N t body now db = (Inr (Some copies), db')" "subscription_exists N t s db"
    and "waiting = filter (asb_active N (subscription_queue t s)) (asb_messages db)" "int (length waiting) < k" "k \<le> 1000"
  shows "length copies = card {s. subscription_exists N t s db}
    \<and> (\<exists>m\<in>set copies. am_body m = body \<and> am_message_id m = am_message_id (hd copies)
        \<and> fst (asb_receive N (subscription_queue t s) k db') = Inr (map (\<lambda>m. m\<lparr> am_visible := LOCKED \<rparr>) (waiting @ [m])))"
proof -
  have ok: "asb_ok E db" unfolding assms(2) by (rule asb_reached_ok) (rule assms(1))
  have drawn: "locks_drawn E (db\<lparr> asb_draws := Suc (asb_draws db) \<rparr>)"
    using ok by (auto simp: asb_ok_def locks_drawn_def intro: asb_drawn_mono)
  let ?subs = "map as_name (asb_list_subscriptions N t db)" and ?mid = "uuid_v4 E (asb_draws db)"
  let ?copies = "topic_copies E ?mid N t body (to_rfc3339 E now) ?subs (Suc (asb_draws db))"
  have copies: "copies = ?copies" and db': "asb_messages db' = asb_messages db @ copies"
    using assms(3) by (auto simp: asb_send_topic_def Let_def asb_copies_eq[OF assms(1) drawn] split: if_splits)
  note subs = listed_subscriptions[OF ok, of N t]
  have "length copies = length ?subs" by (simp add: copies topic_copies_def)
  also have "\<dots> = card {s. subscription_exists N t s db}" using subs distinct_card by metis
  finally have count: "length copies = card {s. subscription_exists N t s db}" .
  have "s \<in> set ?subs" using assms(4) unfolding subs(2) by simp
  with subs(1) obtain m where m: "m \<in> set ?copies" "am_message_id m = ?mid" "am_body m = body"
    "filter (asb_active N (subscription_queue t s)) ?copies = [m]" using one_active_copy by blast
  have "copies \<noteq> []" using m(1) copies by auto
  then have "hd copies \<in> set ?copies" using hd_in_set copies by metis
  then have "am_message_id (hd copies) = ?mid" by (auto simp: topic_copies_def fresh_message_def)
  moreover have "filter (asb_active N (subscription_queue t s)) (asb_messages db') = waiting @ [m]"
    by (simp add: db' copies m(4) assms(5))
  then have "fst (asb_receive N (subscription_queue t s) k db') = Inr (map (\<lambda>m. m\<lparr> am_visible := LOCKED \<rparr>) (waiting @ [m]))"
    using assms(6,7) by (simp add: asb_receive_def Let_def MAX_RECEIVE_def)
  ultimately show ?thesis using count m(1-3) copies by metis
qed

lemma asb_fan_out_witness:
  "\<exists>copies. fst (asb_send_topic sample_ext ''ns'' ''news'' ''extra'' 5 bus_db) = Inr (Some copies)
     \<and> length copies = card {s. subscription_exists ''ns'' ''news'' s bus_db}
     \<and> (\<exists>m. am_body m = ''extra'' \<and> fst (asb_receive ''ns'' (subscription_queue ''news'' ''b'') 3
          (snd (asb_send_topic sample_ext ''ns'' ''news'' ''extra'' 5 bus_db))) = Inr [m\<lparr> am_visible := LOCKED \<rparr>])"
proof -
  let ?send = "asb_send_topic sample_ext ''ns'' ''news'' ''extra'' 5 bus_db"
  let ?copies = "map (\<lambda>(q, lock). \<lparr> am_message_id = ''2'', am_namespace = ''ns'', am_queue = q, am_body = ''extra'',
      am_lock = lock, am_visible = 1, am_created_at = ''5'' \<rparr>) [(''topic:news:sub:a'', ''3''), (''topic:news:sub:b'', ''4'')]"
  have c: "fst ?send = Inr (Some ?copies)" by code_simp
  then have send: "?send = (Inr (Some ?copies), snd ?send)" by (metis prod.collapse)
  have s: "subscription_exists ''ns'' ''news'' ''b'' bus_db" by code_simp
  have w: "[] = filter (asb_active ''ns'' (subscription_queue ''news'' ''b'')) (asb_messages bus_db)" by code_simp
  have k: "int (length ([] :: asb_message list)) < 3" "(3 :: int) \<le> 1000" by simp_all
  from asb_fan_out[OF sample_ext_laws(3) bus_db_def send s w k] c show ?thesis by (simp only: append_Nil list.map) blast
qed

subsection \<open>Observations\<close>

text \<open>
  A lock token belongs to the message, not to the delivery: after a message is abandoned and received by
  somebody else, the first consumer can still complete it.
\<close>

lemma stale_token_completes:
  "map received_locks (fst (bus_serve [AsbReceive ''jobs'' 1, AsbAbandon ''jobs'' ''1'', AsbReceive ''jobs'' 1] bus_db))
     = [{''1''}, {}, {''1''}]
   \<and> fst (bus_serve [AsbReceive ''jobs'' 1, AsbAbandon ''jobs'' ''1'', AsbReceive ''jobs'' 1, AsbComplete ''jobs'' ''1''] bus_db) ! 3
     = AsbFlag (Inr True)"
  by code_simp

text \<open>Names of virtual queues collide, so the deletion of one topic can delete the messages of another.\<close>

lemma virtual_queues_collide:
  "subscription_queue topic (name @ '':sub:'' @ rest) = subscription_queue (topic @ '':sub:'' @ name) rest"
  by (simp add: subscription_queue_def)

lemma delete_topic_takes_others:
  assumes "m \<in> set (asb_messages db)" "am_namespace m = N" "am_queue m = subscription_queue (topic @ '':sub:'' @ name) sub"
  shows "m \<notin> set (asb_messages (snd (asb_delete_topic N topic db)))"
  using assms by (simp add: asb_delete_topic_def Let_def subscription_queue_def starts_with_def)

end
