(* ===== verification/Xml.thy ===== *)
theory Xml
  imports Http
begin

text \<open>
  XML request bodies (src/src/xml.rs).  The crate quick_xml turns a document into events; the
  module builds a tree of elements from them.
\<close>

datatype xml_element = Element (el_name: string) (el_attrs: "(string \<times> string) list") (el_children: "xml_element list") (el_text: string)

definition el_child :: "string \<Rightarrow> xml_element \<Rightarrow> xml_element option" where
  "el_child name e = find (\<lambda>c. el_name c = name) (el_children e)"

definition children_named :: "string \<Rightarrow> xml_element \<Rightarrow> xml_element list" where
  "children_named name e = filter (\<lambda>c. el_name c = name) (el_children e)"

definition child_text :: "string \<Rightarrow> xml_element \<Rightarrow> string option" where
  "child_text name e = map_option (\<lambda>c. trim (el_text c)) (el_child name e)"

fun el_path :: "string list \<Rightarrow> xml_element \<Rightarrow> xml_element option" where
  "el_path [] e = Some e"
| "el_path (n # ns) e = Option.bind (el_child n e) (el_path ns)"

definition local_name :: "string \<Rightarrow> string" where
  "local_name raw = (let s = from_utf8_lossy raw in case rsplit_once CHR '':'' s of Some (_, l) \<Rightarrow> l | None \<Rightarrow> s)"

text \<open>The events of the reader: names are raw bytes, values and texts are unescaped or the reason why not.\<close>

datatype xml_event =
    EvStart string "(string \<times> (string + string)) list"
  | EvEmpty string
  | EvEnd
  | EvText "string + string"
  | EvCData string
  | EvOther
  | EvFail string

definition add_child :: "xml_element \<Rightarrow> xml_element \<Rightarrow> xml_element" where
  "add_child c e = Element (el_name e) (el_attrs e) (el_children e @ [c]) (el_text e)"

definition add_text :: "string \<Rightarrow> xml_element \<Rightarrow> xml_element" where
  "add_text t e = Element (el_name e) (el_attrs e) (el_children e) (el_text e @ t)"

text \<open>A finished element goes to its parent, or becomes the root.\<close>

definition close_element :: "xml_element \<Rightarrow> xml_element list \<times> xml_element option \<Rightarrow> xml_element list \<times> xml_element option" where
  "close_element e = (\<lambda>(stack, root). case stack of parent # rest \<Rightarrow> (add_child e parent # rest, root) | [] \<Rightarrow> ([], Some e))"

fun xml_loop :: "xml_event list \<Rightarrow> xml_element list \<times> xml_element option \<Rightarrow> (string, xml_element) result" where
  "xml_loop [] (stack, root) = (case root of Some e \<Rightarrow> Inr e | None \<Rightarrow> Inl ''empty XML document'')"
| "xml_loop (ev # evs) (stack, root) = (case ev of
     EvStart name attrs \<Rightarrow>
       xml_loop evs (Element (local_name name)
         (map (\<lambda>(k, v). (local_name k, case v of Inr t \<Rightarrow> t | Inl _ \<Rightarrow> [])) attrs) [] [] # stack, root)
   | EvEmpty name \<Rightarrow> xml_loop evs (close_element (Element (local_name name) [] [] []) (stack, root))
   | EvEnd \<Rightarrow> (case stack of
         e # rest \<Rightarrow> xml_loop evs (close_element e (rest, root))
       | [] \<Rightarrow> Inl ''unbalanced XML'')
   | EvText t \<Rightarrow> (case stack of
         [] \<Rightarrow> xml_loop evs (stack, root)
       | cur # rest \<Rightarrow> (case t of Inl e \<Rightarrow> Inl e | Inr s \<Rightarrow> xml_loop evs (add_text s cur # rest, root)))
   | EvCData t \<Rightarrow> (case stack of
         [] \<Rightarrow> xml_loop evs (stack, root)
       | cur # rest \<Rightarrow> xml_loop evs (add_text (from_utf8_lossy t) cur # rest, root))
   | EvOther \<Rightarrow> xml_loop evs (stack, root)
   | EvFail e \<Rightarrow> Inl e)"

text \<open>\<open>read\<close> is the reader: the events up to the end of the input.\<close>

definition xml_parse :: "(string \<Rightarrow> xml_event list) \<Rightarrow> string \<Rightarrow> (string, xml_element) result" where
  "xml_parse read input = xml_loop (read input) ([], None)"

end
