(* ===== verification/S3.thy ===== *)
theory S3
  imports Xml
begin

text \<open>
  S3, part 1: tables, buckets and objects (service.rs, models.rs, errors.rs and schema.rs of
  src/src/aws/s3).

  The current version of a key is a row of \<open>s3_objects\<close>; other versions and delete markers are rows
  of \<open>s3_versions\<close>.  Every operation is one call to the database.  Metadata and tags are kept as the
  values their JSON columns encode.  \<open>X\<close> holds what is computed outside the repository: the record
  \<open>externals\<close>, the XML reader, the drawn version ids and hexadecimal decoding.
\<close>

record s3_env =
  s3_ext :: externals
  xml_read :: "string \<Rightarrow> xml_event list"
  version_ids :: "nat \<Rightarrow> string"
  hex_decode :: "string \<Rightarrow> string option"

subsection \<open>Data\<close>

record s3_error =
  e3_code :: string
  e3_message :: string
  e3_fields :: "(string \<times> string) list"
  e3_headers :: "(string \<times> string) list"

record obj_meta =
  mt_user :: "(string \<times> string) list"
  mt_headers :: "(string \<times> string) list"
  mt_sse :: "(string \<times> string) list"
  mt_checksums :: "(string \<times> string) list"
  mt_parts :: "int list"
  mt_storage_class :: "string option"
  mt_redirect :: "string option"

type_synonym s3_tags = "(string \<times> string) list"

definition default_meta :: obj_meta where
  "default_meta = \<lparr> mt_user = [], mt_headers = [], mt_sse = [], mt_checksums = [], mt_parts = [],
     mt_storage_class = None, mt_redirect = None \<rparr>"

definition storage_class :: "obj_meta \<Rightarrow> string" where
  "storage_class m = (case mt_storage_class m of Some s \<Rightarrow> s | None \<Rightarrow> ''STANDARD'')"

datatype versioning = Unversioned | VEnabled | VSuspended

definition versioning_parse :: "string \<Rightarrow> versioning" where
  "versioning_parse s = (if s = ''Enabled'' then VEnabled else if s = ''Suspended'' then VSuspended else Unversioned)"

definition is_configured :: "versioning \<Rightarrow> bool" where
  "is_configured v \<longleftrightarrow> v \<noteq> Unversioned"

record s3_bucket =
  b3_name :: string
  b3_created_at :: string

text \<open>A row of \<open>s3_objects\<close> (never a marker) or of \<open>s3_object_versions\<close>.\<close>

record s3_object =
  ob_bucket :: string
  ob_key :: string
  ob_version :: string
  ob_seq :: int
  ob_marker :: bool
  ob_content :: string
  ob_type :: string
  ob_size :: int
  ob_etag :: string
  ob_created_at :: string
  ob_meta :: obj_meta
  ob_tags :: s3_tags

record s3_config =
  cf_bucket :: string
  cf_kind :: string
  cf_body :: string

record s3_upload =
  up_id :: string
  up_bucket :: string
  up_key :: string
  up_type :: string
  up_meta :: obj_meta
  up_tags :: s3_tags
  up_created_at :: string

record s3_part =
  pa_upload :: string
  pa_number :: int
  pa_content :: string
  pa_size :: int
  pa_etag :: string
  pa_meta :: obj_meta
  pa_created_at :: string

record s3_db =
  s3_buckets :: "s3_bucket list"
  s3_objects :: "s3_object list"
  s3_versions :: "s3_object list"
  s3_configs :: "s3_config list"
  s3_uploads :: "s3_upload list"
  s3_parts :: "s3_part list"
  s3_seq :: int
  s3_draws :: nat

definition s3_init :: s3_db where
  "s3_init = \<lparr> s3_buckets = [], s3_objects = [], s3_versions = [], s3_configs = [], s3_uploads = [], s3_parts = [],
     s3_seq = 0, s3_draws = 0 \<rparr>"

type_synonym 'a s3_action = "(s3_db, s3_error, 'a) action"

text \<open>What the code returns of a version, beside its content.\<close>

record object_info =
  oi_row :: s3_object
  oi_latest :: bool

record new_object =
  no_content_bytes :: string
  no_type :: string
  no_etag :: string
  no_meta :: obj_meta
  no_tags :: s3_tags

record write_result =
  wr_version :: string
  wr_seq :: int
  wr_etag :: string
  wr_size :: int
  wr_created_at :: string
  wr_versioning :: versioning
  wr_meta :: obj_meta

record delete_outcome =
  de_version :: "string option"
  de_marker :: bool
  de_seq :: int
  de_versioning :: versioning

subsection \<open>Errors\<close>

definition s3_error_new :: "string \<Rightarrow> string \<Rightarrow> s3_error" where
  "s3_error_new code message = \<lparr> e3_code = code, e3_message = message, e3_fields = [], e3_headers = [] \<rparr>"

definition err_with :: "string \<Rightarrow> string \<Rightarrow> s3_error \<Rightarrow> s3_error" where
  "err_with name v e = e\<lparr> e3_fields := e3_fields e @ [(name, v)] \<rparr>"

definition err_header :: "string \<Rightarrow> string \<Rightarrow> s3_error \<Rightarrow> s3_error" where
  "err_header name v e = e\<lparr> e3_headers := e3_headers e @ [(name, v)] \<rparr>"

definition s3_internal :: "string \<Rightarrow> s3_error" where
  "s3_internal e = s3_error_new ''InternalError'' e"

definition no_such_bucket :: "string \<Rightarrow> s3_error" where
  "no_such_bucket b = err_with ''BucketName'' b (s3_error_new ''NoSuchBucket'' ''The specified bucket does not exist'')"

definition no_such_key :: "string \<Rightarrow> s3_error" where
  "no_such_key k = err_with ''Key'' k (s3_error_new ''NoSuchKey'' ''The specified key does not exist.'')"

definition no_such_upload :: "string \<Rightarrow> s3_error" where
  "no_such_upload i = err_with ''UploadId'' i (s3_error_new ''NoSuchUpload''
     (''The specified upload does not exist. The upload ID may be invalid, or the upload may have been ''
      @ ''aborted or completed.''))"

definition malformed_xml :: s3_error where
  "malformed_xml = s3_error_new ''MalformedXML''
     ''The XML you provided was not well-formed or did not validate against our published schema''"

definition s3_invalid_argument :: "string \<Rightarrow> s3_error" where
  "s3_invalid_argument msg = s3_error_new ''InvalidArgument'' msg"

definition s3_status :: "s3_error \<Rightarrow> nat" where
  "s3_status e =
     (let c = e3_code e in
      if c \<in> set [''NoSuchBucket'', ''NoSuchKey'', ''NoSuchUpload'', ''NoSuchVersion'', ''NoSuchTagSet'',
                  ''NoSuchCORSConfiguration'', ''NoSuchLifecycleConfiguration'', ''NoSuchBucketPolicy'',
                  ''NoSuchPublicAccessBlockConfiguration'', ''ServerSideEncryptionConfigurationNotFoundError'',
                  ''OwnershipControlsNotFoundError'', ''NoSuchWebsiteConfiguration'',
                  ''ReplicationConfigurationNotFoundError'', ''ObjectLockConfigurationNotFoundError''] then 404
      else if c \<in> set [''BucketNotEmpty'', ''BucketAlreadyExists'', ''BucketAlreadyOwnedByYou'', ''OperationAborted''] then 409
      else if c \<in> set [''AccessDenied'', ''CORSResponse'', ''SignatureDoesNotMatch''] then 403
      else if c = ''MethodNotAllowed'' then 405
      else if c = ''PreconditionFailed'' then 412
      else if c = ''InvalidRange'' then 416
      else if c = ''NotImplemented'' then 501
      else if c = ''InternalError'' then 500
      else 400)"

subsection \<open>Shared steps\<close>

definition s3_md5_etag :: "externals \<Rightarrow> string \<Rightarrow> string" where
  "s3_md5_etag E content = CHR 0x22 # md5_raw E content @ [CHR 0x22]"

definition new_version_id :: "s3_env \<Rightarrow> s3_db \<Rightarrow> string \<times> s3_db" where
  "new_version_id X db = (version_ids X (s3_draws db), db\<lparr> s3_draws := Suc (s3_draws db) \<rparr>)"

definition next_seq :: "s3_db \<Rightarrow> int \<times> s3_db" where
  "next_seq db = (s3_seq db + 1, db\<lparr> s3_seq := s3_seq db + 1 \<rparr>)"

definition bucket_exists :: "string \<Rightarrow> s3_db \<Rightarrow> bool" where
  "bucket_exists b db \<longleftrightarrow> 0 < sql_count (\<lambda>r. b3_name r = b) (s3_buckets db)"

definition require_bucket :: "string \<Rightarrow> s3_db \<Rightarrow> (s3_error, unit) result" where
  "require_bucket b db = (if bucket_exists b db then Inr () else Inl (no_such_bucket b))"

definition config_get :: "string \<Rightarrow> string \<Rightarrow> s3_db \<Rightarrow> string option" where
  "config_get b kind db = map_option cf_body (find (\<lambda>c. cf_bucket c = b \<and> cf_kind c = kind) (s3_configs db))"

definition versioning_of :: "string \<Rightarrow> s3_db \<Rightarrow> (s3_error, versioning) result" where
  "versioning_of b db =
     try_bind (require_bucket b db) (\<lambda>_.
       Inr (versioning_parse (case config_get b ''versioning'' db of Some s \<Rightarrow> s | None \<Rightarrow> [])))"

definition SSE_HEADER :: string where "SSE_HEADER = ''x-amz-server-side-encryption''"

text \<open>The algorithm and further headers a bucket's encryption document asks for.\<close>

definition bucket_sse :: "xml_element \<Rightarrow> string \<times> (string \<times> string) list" where
  "bucket_sse doc = (case el_child ''Rule'' doc of
     None \<Rightarrow> (''AES256'', [])
   | Some r \<Rightarrow>
       let def_el = el_child ''ApplyServerSideEncryptionByDefault'' r;
           algo = (case Option.bind def_el (child_text ''SSEAlgorithm'') of
                     Some a \<Rightarrow> if a \<noteq> [] then a else ''AES256'' | None \<Rightarrow> ''AES256'');
           kms_key = (if starts_with algo ''aws:kms'' then
               (case Option.bind def_el (child_text ''KMSMasterKeyID'') of
                  Some k \<Rightarrow> if k \<noteq> [] then [(''x-amz-server-side-encryption-aws-kms-key-id'', k)] else [] | None \<Rightarrow> [])
             else []);
           bucket_key = (if starts_with algo ''aws:kms'' \<and> child_text ''BucketKeyEnabled'' r = Some ''true''
             then [(''x-amz-server-side-encryption-bucket-key-enabled'', ''true'')] else [])
       in (algo, kms_key @ bucket_key))"

definition apply_default_sse :: "s3_env \<Rightarrow> string \<Rightarrow> s3_db \<Rightarrow> obj_meta \<Rightarrow> obj_meta" where
  "apply_default_sse X b db meta =
     (if list_ex (\<lambda>(k, _). k = SSE_HEADER \<or> k = ''x-amz-server-side-encryption-customer-algorithm'') (mt_sse meta) then meta
      else
        let (algo, extra) = (case config_get b ''encryption'' db of
               Some body \<Rightarrow> (case xml_parse (xml_read X) body of Inr doc \<Rightarrow> bucket_sse doc | Inl _ \<Rightarrow> (''AES256'', []))
             | None \<Rightarrow> (''AES256'', []))
        in meta\<lparr> mt_sse := (SSE_HEADER, algo) # mt_sse meta @ extra \<rparr>)"

definition is_object :: "string \<Rightarrow> string \<Rightarrow> s3_object \<Rightarrow> bool" where
  "is_object b k r \<longleftrightarrow> ob_bucket r = b \<and> ob_key r = k"

definition is_version :: "string \<Rightarrow> string \<Rightarrow> string \<Rightarrow> s3_object \<Rightarrow> bool" where
  "is_version b k v r \<longleftrightarrow> is_object b k r \<and> ob_version r = v"

definition info_from_row :: "s3_object \<Rightarrow> object_info" where
  "info_from_row r = \<lparr> oi_row = r, oi_latest = False \<rparr>"

definition current_row :: "string \<Rightarrow> string \<Rightarrow> s3_db \<Rightarrow> s3_object option" where
  "current_row b k db = find (is_object b k) (s3_objects db)"

definition current_info :: "string \<Rightarrow> string \<Rightarrow> s3_db \<Rightarrow> object_info option" where
  "current_info b k db = map_option (\<lambda>r. (info_from_row r)\<lparr> oi_latest := True \<rparr>) (current_row b k db)"

text \<open>\<open>ORDER BY seq DESC LIMIT 1\<close>.\<close>

definition latest_archived :: "string \<Rightarrow> string \<Rightarrow> s3_db \<Rightarrow> s3_object option" where
  "latest_archived b k db =
     (case sort_key (\<lambda>r. - ob_seq r) (filter (is_object b k) (s3_versions db)) of [] \<Rightarrow> None | r # _ \<Rightarrow> Some r)"

definition archived_row :: "string \<Rightarrow> string \<Rightarrow> string \<Rightarrow> s3_db \<Rightarrow> s3_object option" where
  "archived_row b k v db = find (is_version b k v) (s3_versions db)"

definition delete_current :: "string \<Rightarrow> string \<Rightarrow> s3_db \<Rightarrow> s3_db" where
  "delete_current b k db = db\<lparr> s3_objects := sql_delete (is_object b k) (s3_objects db) \<rparr>"

definition delete_archived :: "string \<Rightarrow> string \<Rightarrow> string \<Rightarrow> s3_db \<Rightarrow> s3_db" where
  "delete_archived b k v db = db\<lparr> s3_versions := sql_delete (is_version b k v) (s3_versions db) \<rparr>"

text \<open>\<open>INSERT OR REPLACE \<dots> SELECT\<close>, then the DELETE.\<close>

definition archive_current :: "string \<Rightarrow> string \<Rightarrow> s3_db \<Rightarrow> s3_db" where
  "archive_current b k db =
     (let db' = (case current_row b k db of
          None \<Rightarrow> db
        | Some r \<Rightarrow> db\<lparr> s3_versions := sql_delete (is_version b k (ob_version r)) (s3_versions db) @ [r\<lparr> ob_marker := False \<rparr>] \<rparr>)
      in delete_current b k db')"

definition restore_latest :: "string \<Rightarrow> string \<Rightarrow> s3_db \<Rightarrow> s3_db" where
  "restore_latest b k db =
     (case latest_archived b k db of
        None \<Rightarrow> db
      | Some l \<Rightarrow>
          let go = (\<lambda>d. if ob_marker l then d
                else delete_archived b k (ob_version l) (d\<lparr> s3_objects := s3_objects d @ [l] \<rparr>))
          in (case current_row b k db of
                Some c \<Rightarrow> if ob_seq l < ob_seq c then db else go (archive_current b k db)
              | None \<Rightarrow> go db))"

text \<open>Which version a request addresses.\<close>

definition method_not_allowed :: "string \<Rightarrow> s3_error" where
  "method_not_allowed v =
     err_header ''allow'' ''DELETE'' (err_header ''x-amz-version-id'' v (err_header ''x-amz-delete-marker'' ''true''
       (err_with ''ResourceType'' ''DeleteMarker'' (err_with ''Method'' ''GET''
         (s3_error_new ''MethodNotAllowed'' ''The specified method is not allowed against this resource.'')))))"

definition no_such_version :: "string \<Rightarrow> string \<Rightarrow> s3_error" where
  "no_such_version k v = err_with ''VersionId'' v (err_with ''Key'' k
     (s3_error_new ''NoSuchVersion'' ''The specified version does not exist.''))"

definition key_missing :: "string \<Rightarrow> s3_object option \<Rightarrow> s3_error" where
  "key_missing k latest = (case latest of
     Some l \<Rightarrow> if ob_marker l
       then err_header ''x-amz-version-id'' (ob_version l) (err_header ''x-amz-delete-marker'' ''true'' (no_such_key k))
       else no_such_key k
   | None \<Rightarrow> no_such_key k)"

definition resolve_version :: "string \<Rightarrow> string \<Rightarrow> string option \<Rightarrow> s3_db \<Rightarrow> (s3_error, object_info) result" where
  "resolve_version b k vid db =
     try_bind (require_bucket b db) (\<lambda>_. case vid of
       None \<Rightarrow> (case current_info b k db of
           Some i \<Rightarrow> Inr i
         | None \<Rightarrow> Inl (key_missing k (latest_archived b k db)))
     | Some v \<Rightarrow>
         let archived = (case archived_row b k v db of
               Some r \<Rightarrow> if ob_marker r then Inl (method_not_allowed v) else Inr (info_from_row r)
             | None \<Rightarrow> Inl (no_such_version k v))
         in (case current_info b k db of
               Some i \<Rightarrow> if ob_version (oi_row i) = v then Inr i else archived
             | None \<Rightarrow> archived))"

subsection \<open>Writing\<close>

definition write_object_tx :: "s3_env \<Rightarrow> string \<Rightarrow> string \<Rightarrow> new_object \<Rightarrow> int \<Rightarrow> write_result s3_action" where
  "write_object_tx X b k obj now = (\<lambda>db.
     case versioning_of b db of
       Inl e \<Rightarrow> (Inl e, db)
     | Inr ver \<Rightarrow>
         let meta = apply_default_sse X b db (no_meta obj);
             (seq, db1) = next_seq db;
             (vid, db2) = (if ver = VEnabled then new_version_id X db1 else (''null'', db1));
             db3 = (case current_row b k db2 of
                 Some cur \<Rightarrow> if ob_version cur = vid \<or> ver = Unversioned then delete_current b k db2 else archive_current b k db2
               | None \<Rightarrow> db2);
             db4 = (if vid = ''null'' then delete_archived b k ''null'' db3 else db3);
             row = \<lparr> ob_bucket = b, ob_key = k, ob_version = vid, ob_seq = seq, ob_marker = False,
                     ob_content = no_content_bytes obj, ob_type = no_type obj, ob_size = int (length (no_content_bytes obj)),
                     ob_etag = no_etag obj, ob_created_at = iso_millis (s3_ext X) now, ob_meta = meta, ob_tags = no_tags obj \<rparr>
         in (Inr \<lparr> wr_version = vid, wr_seq = seq, wr_etag = no_etag obj, wr_size = ob_size row,
                   wr_created_at = ob_created_at row, wr_versioning = ver, wr_meta = meta \<rparr>,
             db4\<lparr> s3_objects := s3_objects db4 @ [row] \<rparr>))"

definition put_object :: "s3_env \<Rightarrow> string \<Rightarrow> string \<Rightarrow> string \<Rightarrow> string \<Rightarrow> obj_meta \<Rightarrow> s3_tags \<Rightarrow> int \<Rightarrow> write_result s3_action" where
  "put_object X b k content ctype meta tags now =
     write_object_tx X b k \<lparr> no_content_bytes = content, no_type = ctype, no_etag = s3_md5_etag (s3_ext X) content,
       no_meta = meta, no_tags = tags \<rparr> now"

end
