(* ===== verification/S3_Service.thy ===== *)
theory S3_Service
  imports S3
begin

text \<open>
  S3, part 2: buckets, listings, reading and deleting objects, and multipart uploads (service.rs of
  src/src/aws/s3).
\<close>

subsection \<open>Buckets\<close>

definition s3_list_buckets :: "s3_db \<Rightarrow> s3_bucket list" where
  "s3_list_buckets db = sort_key b3_name (s3_buckets db)"

definition create_bucket :: "s3_env \<Rightarrow> string \<Rightarrow> int \<Rightarrow> bool s3_action" where
  "create_bucket X name now = (\<lambda>db.
     if bucket_exists name db then (Inr False, db)
     else (Inr True, db\<lparr> s3_buckets := s3_buckets db @ [\<lparr> b3_name = name, b3_created_at = iso_millis (s3_ext X) now \<rparr>] \<rparr>))"

definition delete_bucket :: "string \<Rightarrow> unit s3_action" where
  "delete_bucket name = (\<lambda>db.
     if \<not> bucket_exists name db then (Inl (no_such_bucket name), db)
     else if 0 < sql_count (\<lambda>r. ob_bucket r = name) (s3_objects db) + sql_count (\<lambda>r. ob_bucket r = name) (s3_versions db) then
       (Inl (err_with ''BucketName'' name (s3_error_new ''BucketNotEmpty'' ''The bucket you tried to delete is not empty'')), db)
     else
       let ids = up_id ` set (filter (\<lambda>u. up_bucket u = name) (s3_uploads db)) in
       (Inr (), db\<lparr> s3_configs := sql_delete (\<lambda>c. cf_bucket c = name) (s3_configs db),
                    s3_parts := sql_delete (\<lambda>p. pa_upload p \<in> ids) (s3_parts db),
                    s3_uploads := sql_delete (\<lambda>u. up_bucket u = name) (s3_uploads db),
                    s3_buckets := sql_delete (\<lambda>r. b3_name r = name) (s3_buckets db) \<rparr>))"

definition get_config :: "string \<Rightarrow> string \<Rightarrow> s3_db \<Rightarrow> (s3_error, string option) result" where
  "get_config b kind db = try_bind (require_bucket b db) (\<lambda>_. Inr (config_get b kind db))"

definition put_config :: "string \<Rightarrow> string \<Rightarrow> string \<Rightarrow> unit s3_action" where
  "put_config b kind body = (\<lambda>db.
     if \<not> bucket_exists b db then (Inl (no_such_bucket b), db)
     else
       let mine = (\<lambda>c. cf_bucket c = b \<and> cf_kind c = kind) in
       (Inr (), db\<lparr> s3_configs :=
          (if list_ex mine (s3_configs db) then sql_update mine (\<lambda>c. c\<lparr> cf_body := body \<rparr>) (s3_configs db)
           else s3_configs db @ [\<lparr> cf_bucket = b, cf_kind = kind, cf_body = body \<rparr>]) \<rparr>))"

definition delete_config :: "string \<Rightarrow> string \<Rightarrow> unit s3_action" where
  "delete_config b kind = (\<lambda>db.
     if \<not> bucket_exists b db then (Inl (no_such_bucket b), db)
     else (Inr (), db\<lparr> s3_configs := sql_delete (\<lambda>c. cf_bucket c = b \<and> cf_kind c = kind) (s3_configs db) \<rparr>))"

subsection \<open>Listing\<close>

record list_params =
  lp_prefix :: string
  lp_delimiter :: "string option"
  lp_after :: "string option"
  lp_max :: nat

record list_entry =
  le_key :: string
  le_size :: int
  le_etag :: string
  le_created_at :: string
  le_class :: string

record list_page =
  pg_contents :: "list_entry list"
  pg_prefixes :: "string list"
  pg_truncated :: bool
  pg_last :: "string option"

definition empty_page :: list_page where
  "empty_page = \<lparr> pg_contents = [], pg_prefixes = [], pg_truncated = False, pg_last = None \<rparr>"

definition common_prefix :: "string \<Rightarrow> string \<Rightarrow> string option \<Rightarrow> string option" where
  "common_prefix key prefix delim = (case delim of
     None \<Rightarrow> None
   | Some d \<Rightarrow> map_option (\<lambda>i. take (length prefix + i + length d) key) (str_find d (drop (length prefix) key)))"

definition list_entry_of :: "s3_object \<Rightarrow> list_entry" where
  "list_entry_of r = \<lparr> le_key = ob_key r, le_size = ob_size r, le_etag = ob_etag r, le_created_at = ob_created_at r,
     le_class = storage_class (ob_meta r) \<rparr>"

text \<open>The delimiter that groups keys: none when it is empty.\<close>

definition lp_delim :: "list_params \<Rightarrow> string option" where
  "lp_delim p = (case lp_delimiter p of Some d \<Rightarrow> if d \<noteq> [] then Some d else None | None \<Rightarrow> None)"

text \<open>The loop over the rows; \<open>last_cp\<close> is the common prefix reported last.\<close>

fun list_loop :: "list_params \<Rightarrow> s3_object list \<Rightarrow> nat \<Rightarrow> string option \<Rightarrow> list_page \<Rightarrow> list_page" where
  "list_loop p [] count last_cp page = page"
| "list_loop p (r # rows) count last_cp page =
     (let key = ob_key r in
      if \<not> starts_with key (lp_prefix p) then page
      else if (case lp_after p of Some a \<Rightarrow> key \<le> a | None \<Rightarrow> False) then list_loop p rows count last_cp page
      else
        let cp = common_prefix key (lp_prefix p) (lp_delim p) in
        if cp \<noteq> None \<and> (last_cp = cp \<or> lp_after p = cp) then list_loop p rows count last_cp page
        else if lp_max p \<le> count then page\<lparr> pg_truncated := True \<rparr>
        else (case cp of
            Some c \<Rightarrow> list_loop p rows (Suc count) (Some c)
                        (page\<lparr> pg_prefixes := pg_prefixes page @ [c], pg_last := Some c \<rparr>)
          | None \<Rightarrow> list_loop p rows (Suc count) last_cp
                        (page\<lparr> pg_contents := pg_contents page @ [list_entry_of r], pg_last := Some key \<rparr>)))"

definition list_rows :: "string \<Rightarrow> list_params \<Rightarrow> s3_db \<Rightarrow> s3_object list" where
  "list_rows b p db =
     (let start = max (lp_prefix p) (case lp_after p of Some a \<Rightarrow> a | None \<Rightarrow> []) in
      sort_key ob_key (filter (\<lambda>r. ob_bucket r = b \<and> start \<le> ob_key r) (s3_objects db)))"

definition list_objects :: "string \<Rightarrow> list_params \<Rightarrow> s3_db \<Rightarrow> (s3_error, list_page) result" where
  "list_objects b p db = try_bind (require_bucket b db) (\<lambda>_.
     if lp_max p = 0 then Inr empty_page else Inr (list_loop p (list_rows b p db) 0 None empty_page))"

record version_entry =
  ve_key :: string
  ve_version :: string
  ve_marker :: bool
  ve_latest :: bool
  ve_size :: int
  ve_etag :: string
  ve_created_at :: string
  ve_class :: string

record version_page =
  vp_entries :: "version_entry list"
  vp_prefixes :: "string list"
  vp_truncated :: bool
  vp_next_key :: "string option"
  vp_next_version :: "string option"

definition empty_version_page :: version_page where
  "empty_version_page = \<lparr> vp_entries = [], vp_prefixes = [], vp_truncated = False, vp_next_key = None, vp_next_version = None \<rparr>"

definition version_entry_of :: "bool \<Rightarrow> s3_object \<Rightarrow> version_entry" where
  "version_entry_of latest r = \<lparr> ve_key = ob_key r, ve_version = ob_version r, ve_marker = ob_marker r, ve_latest = latest,
     ve_size = ob_size r, ve_etag = ob_etag r, ve_created_at = ob_created_at r, ve_class = storage_class (ob_meta r) \<rparr>"

definition nonempty :: "string option \<Rightarrow> string option" where
  "nonempty s = (case s of Some t \<Rightarrow> if t \<noteq> [] then Some t else None | None \<Rightarrow> None)"

text \<open>The loop over the rows of both tables.  It carries the previous key and whether rows of the marker's
  key are still skipped.\<close>

fun version_loop ::
    "list_params \<Rightarrow> string option \<Rightarrow> s3_object list \<Rightarrow> nat \<Rightarrow> string option \<Rightarrow> string option \<Rightarrow> bool \<Rightarrow> version_page \<Rightarrow> version_page" where
  "version_loop p vm [] count last_cp prev skipping page = page"
| "version_loop p vm (r # rows) count last_cp prev skipping page =
     (let key = ob_key r; km = nonempty (lp_after p); latest = (prev \<noteq> Some key) in
      if \<not> starts_with key (lp_prefix p) then page
      else if vm \<noteq> None \<and> (case km of Some k \<Rightarrow> key < k | None \<Rightarrow> False) then
        version_loop p vm rows count last_cp (Some key) skipping page
      else if vm \<noteq> None \<and> km = Some key \<and> skipping then
        version_loop p vm rows count last_cp (Some key) (vm \<noteq> Some (ob_version r)) page
      else if vm = None \<and> (case km of Some k \<Rightarrow> key \<le> k | None \<Rightarrow> False) then
        version_loop p vm rows count last_cp (Some key) skipping page
      else
        let cp = common_prefix key (lp_prefix p) (lp_delim p) in
        if cp \<noteq> None \<and> (last_cp = cp \<or> km = cp) then version_loop p vm rows count last_cp (Some key) skipping page
        else if lp_max p \<le> count then page\<lparr> vp_truncated := True \<rparr>
        else (case cp of
            Some c \<Rightarrow> version_loop p vm rows (Suc count) (Some c) (Some key) skipping
                        (page\<lparr> vp_prefixes := vp_prefixes page @ [c], vp_next_key := Some c, vp_next_version := None \<rparr>)
          | None \<Rightarrow> version_loop p vm rows (Suc count) last_cp (Some key) skipping
                        (page\<lparr> vp_entries := vp_entries page @ [version_entry_of latest r], vp_next_key := Some key,
                               vp_next_version := Some (ob_version r) \<rparr>)))"

definition version_rows :: "string \<Rightarrow> list_params \<Rightarrow> s3_db \<Rightarrow> s3_object list" where
  "version_rows b p db =
     (let start = max (lp_prefix p) (case nonempty (lp_after p) of Some k \<Rightarrow> k | None \<Rightarrow> []);
          mine = filter (\<lambda>r. ob_bucket r = b \<and> start \<le> ob_key r)
      in sort_key ob_key (sort_key (\<lambda>r. - ob_seq r)
           (map (\<lambda>r. r\<lparr> ob_marker := False \<rparr>) (mine (s3_objects db)) @ mine (s3_versions db))))"

definition list_versions :: "string \<Rightarrow> list_params \<Rightarrow> string option \<Rightarrow> s3_db \<Rightarrow> (s3_error, version_page) result" where
  "list_versions b p version_marker db = try_bind (require_bucket b db) (\<lambda>_.
     if lp_max p = 0 then Inr empty_version_page
     else
       let vm = (if nonempty (lp_after p) = None then None else nonempty version_marker);
           page = version_loop p vm (version_rows b p db) 0 None None (vm \<noteq> None) empty_version_page
       in Inr (if vp_truncated page then page else page\<lparr> vp_next_key := None, vp_next_version := None \<rparr>))"

subsection \<open>Reading\<close>

definition same_row_as :: "s3_object \<Rightarrow> s3_object \<Rightarrow> bool" where
  "same_row_as i r \<longleftrightarrow> is_version (ob_bucket i) (ob_key i) (ob_version i) r \<and> ob_seq r = ob_seq i"

definition read_content :: "object_info \<Rightarrow> (nat \<times> nat) option \<Rightarrow> s3_db \<Rightarrow> string option" where
  "read_content info rng db =
     (let part = (\<lambda>r. case rng of Some (start, len) \<Rightarrow> take len (drop start (ob_content r)) | None \<Rightarrow> ob_content r);
          look = (\<lambda>rows. map_option part (find (same_row_as (oi_row info)) rows))
      in case look (s3_objects db) of Some c \<Rightarrow> Some c | None \<Rightarrow> look (s3_versions db))"

text \<open>Reads the addressed version; \<open>others\<close> is what other requests do between the two calls of a round.\<close>

fun full_loop :: "nat \<Rightarrow> (s3_db \<Rightarrow> s3_db) \<Rightarrow> string \<Rightarrow> string \<Rightarrow> string option \<Rightarrow> (object_info \<times> string) s3_action" where
  "full_loop 0 others b k vid db = (Inl (s3_internal ''object changed while reading''), db)"
| "full_loop (Suc n) others b k vid db =
     (case resolve_version b k vid db of
        Inl e \<Rightarrow> (Inl e, db)
      | Inr info \<Rightarrow>
          let db' = others db in
          case read_content info None db' of
            Some c \<Rightarrow> (Inr (info, c), db')
          | None \<Rightarrow> full_loop n others b k vid (others db'))"

definition get_object_full :: "(s3_db \<Rightarrow> s3_db) \<Rightarrow> string \<Rightarrow> string \<Rightarrow> string option \<Rightarrow> (object_info \<times> string) s3_action" where
  "get_object_full others b k vid = full_loop 3 others b k vid"

subsection \<open>Deleting and tagging\<close>

definition outcome :: "string option \<Rightarrow> bool \<Rightarrow> versioning \<Rightarrow> s3_db \<Rightarrow> delete_outcome \<times> s3_db" where
  "outcome vid marker ver db =
     (let (seq, db') = next_seq db in
      (\<lparr> de_version = vid, de_marker = marker, de_seq = seq, de_versioning = ver \<rparr>, db'))"

definition delete_version :: "string \<Rightarrow> string \<Rightarrow> string \<Rightarrow> versioning \<Rightarrow> s3_db \<Rightarrow> delete_outcome \<times> s3_db" where
  "delete_version b k v ver db =
     (let is_current = (case current_row b k db of Some c \<Rightarrow> ob_version c = v | None \<Rightarrow> False) in
      if is_current then outcome (Some v) False ver (restore_latest b k (delete_current b k db))
      else (case archived_row b k v db of
          Some a \<Rightarrow> outcome (Some v) (ob_marker a) ver (restore_latest b k (delete_archived b k v db))
        | None \<Rightarrow> outcome (Some v) False ver db))"

definition marker_row :: "s3_env \<Rightarrow> string \<Rightarrow> string \<Rightarrow> string \<Rightarrow> int \<Rightarrow> int \<Rightarrow> s3_object" where
  "marker_row X b k v seq now =
     \<lparr> ob_bucket = b, ob_key = k, ob_version = v, ob_seq = seq, ob_marker = True, ob_content = [],
       ob_type = ''application/octet-stream'', ob_size = 0, ob_etag = [], ob_created_at = iso_millis (s3_ext X) now,
       ob_meta = default_meta, ob_tags = [] \<rparr>"

definition add_marker :: "s3_env \<Rightarrow> string \<Rightarrow> string \<Rightarrow> versioning \<Rightarrow> int \<Rightarrow> delete_outcome s3_action" where
  "add_marker X b k ver now = (\<lambda>db.
     let (mid, db1) = (if ver = VEnabled then new_version_id X db else (''null'', db));
         db2 = (case current_row b k db1 of
             Some cur \<Rightarrow> if ob_version cur = mid then delete_current b k db1 else archive_current b k db1
           | None \<Rightarrow> db1);
         db3 = (if mid = ''null'' then delete_archived b k ''null'' db2 else db2);
         (seq, db4) = next_seq db3
     in if list_ex (is_version b k mid) (s3_versions db4) then
          (Inl (s3_internal (''UNIQUE constraint failed: s3_object_versions.bucket, s3_object_versions.key, ''
                 @ ''s3_object_versions.version_id'')), db\<lparr> s3_draws := s3_draws db4 \<rparr>)
        else (Inr \<lparr> de_version = Some mid, de_marker = True, de_seq = seq, de_versioning = ver \<rparr>,
              db4\<lparr> s3_versions := s3_versions db4 @ [marker_row X b k mid seq now] \<rparr>))"

definition delete_object :: "s3_env \<Rightarrow> string \<Rightarrow> string \<Rightarrow> string option \<Rightarrow> int \<Rightarrow> delete_outcome s3_action" where
  "delete_object X b k vid now = (\<lambda>db.
     case versioning_of b db of
       Inl e \<Rightarrow> (Inl e, db)
     | Inr ver \<Rightarrow> (case vid of
           Some v \<Rightarrow> map_prod Inr id (delete_version b k v ver db)
         | None \<Rightarrow>
             if ver = Unversioned then map_prod Inr id (outcome None False ver (delete_current b k db))
             else add_marker X b k ver now db))"

definition set_object_tags :: "string \<Rightarrow> string \<Rightarrow> string option \<Rightarrow> s3_tags \<Rightarrow> object_info s3_action" where
  "set_object_tags b k vid tags = (\<lambda>db.
     case resolve_version b k vid db of
       Inl e \<Rightarrow> (Inl e, db)
     | Inr info \<Rightarrow>
         let upd = sql_update (same_row_as (oi_row info)) (\<lambda>r. r\<lparr> ob_tags := tags \<rparr>) in
         (Inr info, db\<lparr> s3_objects := upd (s3_objects db), s3_versions := upd (s3_versions db) \<rparr>))"

end
