(* ===== verification/S3_Multipart.thy ===== *)
theory S3_Multipart
  imports S3_Service
begin

text \<open>
  S3, part 3: multipart uploads (service.rs of src/src/aws/s3).  Parts are stored under the upload;
  completing it concatenates the requested parts into an object.
\<close>

definition find_upload :: "string \<Rightarrow> string \<Rightarrow> string \<Rightarrow> s3_db \<Rightarrow> s3_upload option" where
  "find_upload b k i db = find (\<lambda>u. up_id u = i \<and> up_bucket u = b \<and> up_key u = k) (s3_uploads db)"

definition upload_row :: "string \<Rightarrow> string \<Rightarrow> string \<Rightarrow> s3_db \<Rightarrow> (s3_error, s3_upload) result" where
  "upload_row b k i db = try_bind (require_bucket b db) (\<lambda>_. case find_upload b k i db of
     Some u \<Rightarrow> Inr u | None \<Rightarrow> Inl (no_such_upload i))"

definition create_upload :: "s3_env \<Rightarrow> string \<Rightarrow> string \<Rightarrow> string \<Rightarrow> obj_meta \<Rightarrow> s3_tags \<Rightarrow> int \<Rightarrow> s3_upload s3_action" where
  "create_upload X b k ctype meta tags now = (\<lambda>db.
     if \<not> bucket_exists b db then (Inl (no_such_bucket b), db)
     else
       let u = \<lparr> up_id = uuid_simple (uuid_v4 (s3_ext X) (s3_draws db)), up_bucket = b, up_key = k, up_type = ctype,
                 up_meta = apply_default_sse X b db meta, up_tags = tags, up_created_at = iso_millis (s3_ext X) now \<rparr>;
           db' = db\<lparr> s3_draws := Suc (s3_draws db) \<rparr>
       in if up_id u \<in> up_id ` set (s3_uploads db) then
            (Inl (s3_internal ''UNIQUE constraint failed: s3_multipart_uploads.upload_id''), db')
          else (Inr u, db'\<lparr> s3_uploads := s3_uploads db @ [u] \<rparr>))"

definition bad_part_number :: "int \<Rightarrow> s3_error" where
  "bad_part_number n = err_with ''ArgumentValue'' (show_int n) (err_with ''ArgumentName'' ''partNumber''
     (s3_invalid_argument ''Part number must be an integer between 1 and 10000, inclusive''))"

definition is_part :: "string \<Rightarrow> int \<Rightarrow> s3_part \<Rightarrow> bool" where
  "is_part i n p \<longleftrightarrow> pa_upload p = i \<and> pa_number p = n"

definition upload_part ::
    "s3_env \<Rightarrow> string \<Rightarrow> string \<Rightarrow> string \<Rightarrow> int \<Rightarrow> string \<Rightarrow> obj_meta \<Rightarrow> int \<Rightarrow> string s3_action" where
  "upload_part X b k i n content meta now = (\<lambda>db.
     if n < 1 \<or> 10000 < n then (Inl (bad_part_number n), db)
     else
       let etag = s3_md5_etag (s3_ext X) content in
       case upload_row b k i db of
         Inl e \<Rightarrow> (Inl e, db)
       | Inr _ \<Rightarrow>
           let p = \<lparr> pa_upload = i, pa_number = n, pa_content = content, pa_size = int (length content), pa_etag = etag,
                     pa_meta = meta, pa_created_at = iso_millis (s3_ext X) now \<rparr>
           in (Inr etag, db\<lparr> s3_parts := sql_delete (is_part i n) (s3_parts db) @ [p] \<rparr>))"

definition list_parts :: "string \<Rightarrow> string \<Rightarrow> string \<Rightarrow> s3_db \<Rightarrow> (s3_error, s3_upload \<times> s3_part list) result" where
  "list_parts b k i db = try_bind (upload_row b k i db) (\<lambda>u.
     Inr (u, sort_key pa_number (filter (\<lambda>p. pa_upload p = i) (s3_parts db))))"

definition trim_quotes :: "string \<Rightarrow> string" where
  "trim_quotes s = trim_end_char CHR 0x22 (trim_start_char CHR 0x22 s)"

definition invalid_part :: "string \<Rightarrow> int \<Rightarrow> string \<Rightarrow> s3_error" where
  "invalid_part i n etag = err_with ''ETag'' etag (err_with ''PartNumber'' (show_int n) (err_with ''UploadId'' i
     (s3_error_new ''InvalidPart''
       (''One or more of the specified parts could not be found.  The part may not have been uploaded, or the ''
        @ ''specified entity tag may not have matched the part's entity tag.''))))"

text \<open>The loop over the requested parts: their contents, the bytes of their digests and their sizes.\<close>

fun gather_parts ::
    "s3_env \<Rightarrow> string \<Rightarrow> (int \<times> string) list \<Rightarrow> s3_db \<Rightarrow> (s3_error, string \<times> string \<times> int list) result" where
  "gather_parts X i [] db = Inr ([], [], [])"
| "gather_parts X i ((n, etag) # ps) db =
     (let want = trim_quotes (trim etag) in
      case find (is_part i n) (s3_parts db) of
        Some p \<Rightarrow>
          if trim_quotes (pa_etag p) = want then
            try_bind (gather_parts X i ps db) (\<lambda>(content, md5s, sizes).
              Inr (pa_content p @ content,
                   (case hex_decode X (trim_quotes (pa_etag p)) of Some d \<Rightarrow> d | None \<Rightarrow> []) @ md5s,
                   int (length (pa_content p)) # sizes))
          else Inl (invalid_part i n etag)
      | None \<Rightarrow> Inl (invalid_part i n etag))"

definition invalid_part_order :: "string \<Rightarrow> s3_error" where
  "invalid_part_order i = err_with ''UploadId'' i (s3_error_new ''InvalidPartOrder''
     ''The list of parts was not in ascending order. Parts must be ordered by part number.'')"

definition delete_upload :: "string \<Rightarrow> s3_db \<Rightarrow> s3_db" where
  "delete_upload i db = db\<lparr> s3_parts := sql_delete (\<lambda>p. pa_upload p = i) (s3_parts db),
     s3_uploads := sql_delete (\<lambda>u. up_id u = i) (s3_uploads db) \<rparr>"

definition complete_upload ::
    "s3_env \<Rightarrow> string \<Rightarrow> string \<Rightarrow> string \<Rightarrow> (int \<times> string) list \<Rightarrow> int \<Rightarrow> write_result s3_action" where
  "complete_upload X b k i requested now = (\<lambda>db.
     if requested = [] then (Inl malformed_xml, db)
     else if \<not> sorted_wrt (<) (map fst requested) then (Inl (invalid_part_order i), db)
     else (case upload_row b k i db of
         Inl e \<Rightarrow> (Inl e, db)
       | Inr u \<Rightarrow> (case gather_parts X i requested db of
             Inl e \<Rightarrow> (Inl e, db)
           | Inr (content, md5s, sizes) \<Rightarrow>
               let etag = CHR 0x22 # md5_raw (s3_ext X) md5s @ ''-'' @ show_nat (length requested) @ [CHR 0x22];
                   meta = (up_meta u)\<lparr> mt_parts := sizes, mt_checksums := [] \<rparr>;
                   obj = \<lparr> no_content_bytes = content, no_type = up_type u, no_etag = etag, no_meta = meta, no_tags = up_tags u \<rparr>
               in (case write_object_tx X b k obj now db of
                     (Inl e, db') \<Rightarrow> (Inl e, db')
                   | (Inr r, db') \<Rightarrow> (Inr r, delete_upload i db')))))"

definition abort_upload :: "string \<Rightarrow> string \<Rightarrow> string \<Rightarrow> unit s3_action" where
  "abort_upload b k i = (\<lambda>db. case upload_row b k i db of
     Inl e \<Rightarrow> (Inl e, db) | Inr _ \<Rightarrow> (Inr (), delete_upload i db))"

definition list_uploads :: "string \<Rightarrow> string \<Rightarrow> s3_db \<Rightarrow> (s3_error, s3_upload list) result" where
  "list_uploads b prefix db = try_bind (require_bucket b db) (\<lambda>_.
     Inr (filter (\<lambda>u. starts_with (up_key u) prefix)
       (sort_key up_key (sort_key up_created_at (filter (\<lambda>u. up_bucket u = b) (s3_uploads db))))))"

end
