(* ===== verification/S3_Wire.thy ===== *)
theory S3_Wire
  imports S3_Multipart Sns_Delivery Sns_Matching Aws_Query
begin

text \<open>
  S3, part 4: the wire format (xmlutil.rs and chunked.rs of src/src/aws/s3): percent-encoding,
  timestamps, tag sets and the \<open>aws-chunked\<close> framing of request bodies.

  \<open>H\<close> holds the environment of the service, the configuration and the crates only the protocol layer
  calls.  Times are milliseconds since the epoch.
\<close>

section \<open>The wire format\<close>

record s3_http =
  sh_env :: s3_env
  sh_base_url :: string
  sh_parse_mail :: "string \<Rightarrow> parsed_mail option"
  pct_encode :: "(char \<Rightarrow> bool) \<Rightarrow> string \<Rightarrow> string"   \<comment> \<open>utf8_percent_encode, given the characters left as they are\<close>
  pct_decode :: "string \<Rightarrow> string"
  form_pairs :: "string \<Rightarrow> (string \<times> string) list option"   \<comment> \<open>serde_urlencoded::from_str\<close>
  crc32_be :: "string \<Rightarrow> string"   \<comment> \<open>crc32fast::hash, big-endian bytes\<close>
  sha256_raw :: "string \<Rightarrow> string"
  md5_bytes :: "string \<Rightarrow> string"
  rfc3339_millis :: "string \<Rightarrow> int option"
  rfc2822_millis :: "string \<Rightarrow> int option"
  naive_millis :: "string \<Rightarrow> string \<Rightarrow> int option"   \<comment> \<open>NaiveDateTime::parse_from_str of a format\<close>
  imf_date :: "int \<Rightarrow> string"   \<comment> \<open>chrono, format %a, %d %b %Y %H:%M:%S GMT\<close>
  b64_no_pad :: "string \<Rightarrow> string"
  str_debug :: "string \<Rightarrow> string"   \<comment> \<open>the Debug format of a string\<close>
  utf8_error :: "string \<Rightarrow> string"   \<comment> \<open>why bytes are not UTF-8\<close>

abbreviation s3_ex :: "s3_http \<Rightarrow> externals" where
  "s3_ex H \<equiv> s3_ext (sh_env H)"

subsection \<open>Strings\<close>

definition CRLF :: string where "CRLF = [CR, LF]"

text \<open>\<open>str::split\<close> with a string as the separator (never empty here).\<close>

function split_str :: "string \<Rightarrow> string \<Rightarrow> string list" where
  "split_str p s =
     (if p = [] then [s]
      else case str_find p s of None \<Rightarrow> [s] | Some i \<Rightarrow> take i s # split_str p (drop (i + length p) s))"
  by pat_completeness auto
termination
proof (relation "measure (\<lambda>(p, s). length s)")
  fix p s :: string and i
  assume p: "p \<noteq> []" and i: "str_find p s = Some i"
  from str_find_bound[OF i] have "i + length p \<le> length s" .
  moreover from p have "0 < length p" by simp
  ultimately have "length s - (i + length p) < length s" by linarith
  then show "((p, drop (i + length p) s), (p, s)) \<in> measure (\<lambda>(p, s). length s)"
    by simp
qed simp

declare split_str.simps [simp del]

text \<open>\<open>usize::from_str_radix(s, 16)\<close>.\<close>

definition hex_digit :: "char \<Rightarrow> nat option" where
  "hex_digit c =
     (if is_digit c then Some (code_of c - 48)
      else if 97 \<le> code_of c \<and> code_of c \<le> 102 then Some (code_of c - 87)
      else if 65 \<le> code_of c \<and> code_of c \<le> 70 then Some (code_of c - 55)
      else None)"

definition hex_value :: "string \<Rightarrow> nat" where
  "hex_value s = foldl (\<lambda>n c. 16 * n + the (hex_digit c)) 0 s"

definition parse_hex :: "string \<Rightarrow> nat option" where
  "parse_hex s =
     (let d = (case s of c # r \<Rightarrow> if c = CHR ''+'' then r else s | [] \<Rightarrow> s) in
      if d \<noteq> [] \<and> list_all (\<lambda>c. hex_digit c \<noteq> None) d \<and> hex_value d < 2 ^ 64 then Some (hex_value d) else None)"

subsection \<open>The aws-chunked framing\<close>

type_synonym s3_headers = "(string \<times> string) list"

text \<open>\<open>HeaderMap::get\<close>, and its value when it is text.\<close>

definition header_str_of :: "string \<Rightarrow> s3_headers \<Rightarrow> string option" where
  "header_str_of name hs = (case map_of hs name of Some v \<Rightarrow> if header_text v then Some v else None | None \<Rightarrow> None)"

definition is_aws_chunked :: "s3_headers \<Rightarrow> bool" where
  "is_aws_chunked hs =
     (let sha = (case header_str_of ''x-amz-content-sha256'' hs of Some v \<Rightarrow> v | None \<Rightarrow> []);
          enc = (case header_str_of ''content-encoding'' hs of Some v \<Rightarrow> v | None \<Rightarrow> [])
      in starts_with sha ''STREAMING-'' \<or> list_ex (\<lambda>e. eq_ignore_ascii_case (trim e) ''aws-chunked'') (split_on CHR '','' enc))"

definition find_crlf :: "string \<Rightarrow> nat \<Rightarrow> nat option" where
  "find_crlf b from = (if length b < from then None else map_option (\<lambda>p. from + p) (str_find CRLF (drop from b)))"

text \<open>
  The loop over the chunks; it returns the data and the position behind the last chunk header.
  \<open>pos + size\<close> may wrap around; then the range of the slice is empty and the chunk truncated as well.
\<close>

function decode_chunks :: "s3_http \<Rightarrow> string \<Rightarrow> nat \<Rightarrow> string \<Rightarrow> (string, string \<times> nat) result" where
  "decode_chunks H body pos dat =
     (case find_crlf body pos of
        None \<Rightarrow> Inl ''missing chunk header terminator''
      | Some stop \<Rightarrow>
          let line = take (stop - pos) (drop pos body) in
          if \<not> utf8_valid line then Inl (utf8_error H line)
          else
            let size_hex = trim (hd (split_on CHR '';'' line)) in
            case parse_hex size_hex of
              None \<Rightarrow> Inl (''bad chunk size '' @ str_debug H size_hex)
            | Some n \<Rightarrow>
                let pos = stop + 2 in
                if n = 0 then Inr (dat, pos)
                else if length body < pos + n then Inl ''truncated chunk''
                else
                  let dat = dat @ take n (drop pos body);
                      pos = pos + n;
                      pos = (if pos + 2 \<le> length body \<and> take 2 (drop pos body) = CRLF then pos + 2 else pos)
                  in decode_chunks H body pos dat)"
  by pat_completeness auto
termination
proof (relation "measure (\<lambda>(H, body, pos, dat). length body - pos)", simp, goal_cases)
  case (1 H body pos dat stop line size_hex n p' dat' p2 p3)
  then have "pos \<le> stop" by (auto simp: find_crlf_def split: if_splits)
  moreover have "stop + 2 + n \<le> p3" "p' + n \<le> length body" "0 < n" "p' = stop + 2" using 1 by simp_all
  ultimately show ?case by simp
qed

declare decode_chunks.simps [simp del]

record decoded =
  dc_data :: string
  dc_trailers :: "(string \<times> string) list"

definition trailer_of :: "string \<Rightarrow> (string \<times> string) option" where
  "trailer_of l =
     (let line = trim l in
      if line = [] then None
      else (case split_once CHR '':'' line of
          None \<Rightarrow> None
        | Some (k, v) \<Rightarrow>
            let k = ascii_lowercase (trim k) in
            if k \<noteq> ''x-amz-trailer-signature'' then Some (k, trim v) else None))"

definition decode_aws_chunked :: "s3_http \<Rightarrow> string \<Rightarrow> (string, decoded) result" where
  "decode_aws_chunked H body = try_bind (decode_chunks H body 0 []) (\<lambda>(dat, pos).
     Inr \<lparr> dc_data = dat, dc_trailers = List.map_filter trailer_of (split_str CRLF (from_utf8_lossy (drop pos body))) \<rparr>)"

subsection \<open>Encodings and timestamps\<close>

definition XMLNS :: string where "XMLNS = ''http://s3.amazonaws.com/doc/2006-03-01/''"

definition s3_xml_decl :: string where "s3_xml_decl = xml_decl @ [LF]"

text \<open>An opening tag with the namespace of S3.\<close>

definition ns_tag :: "string \<Rightarrow> string" where
  "ns_tag name = ''<'' @ name @ '' xmlns='' @ [CHR 0x22] @ XMLNS @ [CHR 0x22]"

definition key_set :: "char \<Rightarrow> bool" where
  "key_set c \<longleftrightarrow> is_alnum c \<or> c \<in> set ''-_.~/''"

definition url_encode :: "s3_http \<Rightarrow> string \<Rightarrow> string" where
  "url_encode H s = pct_encode H key_set s"

definition url_encode_plus :: "s3_http \<Rightarrow> string \<Rightarrow> string" where
  "url_encode_plus H s = join_on CHR ''+'' (map (url_encode H) (split_on CHR '' '' s))"

definition url_decode :: "s3_http \<Rightarrow> string \<Rightarrow> string" where
  "url_decode H s = from_utf8_lossy (pct_decode H s)"

text \<open>A timestamp that cannot be read counts as now.\<close>

definition parse_ts :: "s3_http \<Rightarrow> int \<Rightarrow> string \<Rightarrow> int" where
  "parse_ts H now s =
     (case rfc3339_millis H s of
        Some t \<Rightarrow> t
      | None \<Rightarrow> (case naive_millis H ''%Y-%m-%d %H:%M:%S'' s of Some t \<Rightarrow> t | None \<Rightarrow> now))"

definition s3_iso :: "s3_http \<Rightarrow> int \<Rightarrow> string \<Rightarrow> string" where
  "s3_iso H now s = iso_millis (s3_ex H) (parse_ts H now s)"

definition s3_http_date :: "s3_http \<Rightarrow> int \<Rightarrow> string \<Rightarrow> string" where
  "s3_http_date H now s = imf_date H (parse_ts H now s)"

definition parse_http_date :: "s3_http \<Rightarrow> string \<Rightarrow> int option" where
  "parse_http_date H s =
     (let r = trim (case split_once CHR '','' s of Some (_, t) \<Rightarrow> t | None \<Rightarrow> s) in
      case naive_millis H ''%d %b %Y %H:%M:%S GMT'' r of
        Some t \<Rightarrow> Some t
      | None \<Rightarrow> (case rfc2822_millis H s of Some t \<Rightarrow> Some t | None \<Rightarrow> rfc3339_millis H s))"

definition xml_tag :: "string \<Rightarrow> string \<Rightarrow> string" where
  "xml_tag name v = ''<'' @ name @ ''>'' @ xml_escape v @ ''</'' @ name @ ''>''"

text \<open>\<open><name>\<dots></name>\<close> around text that is markup already.\<close>

definition wrap :: "string \<Rightarrow> string \<Rightarrow> string" where
  "wrap name inner = ''<'' @ name @ ''>'' @ inner @ ''</'' @ name @ ''>''"

definition show_bool :: "bool \<Rightarrow> string" where
  "show_bool b = (if b then ''true'' else ''false'')"

subsection \<open>Seed documents as XML\<close>

definition singular :: "string \<Rightarrow> string" where
  "singular k =
     (if k = ''Tags'' \<or> k = ''TagSet'' then ''Tag''
      else (case strip_suffix ''s'' k of Some t \<Rightarrow> t | None \<Rightarrow> k))"

fun json_to_xml_children :: "externals \<Rightarrow> json \<Rightarrow> string"
  and json_scalar_or_children :: "externals \<Rightarrow> json \<Rightarrow> string" where
  "json_to_xml_children E (JObj m) = concat (map (\<lambda>(k, v). case v of
       JArr items \<Rightarrow> concat (map (\<lambda>i. wrap (singular k) (json_scalar_or_children E i)) items)
     | _ \<Rightarrow> wrap k (json_scalar_or_children E v)) m)"
| "json_to_xml_children E _ = []"
| "json_scalar_or_children E (JObj m) = json_to_xml_children E (JObj m)"
| "json_scalar_or_children E (JStr s) = xml_escape s"
| "json_scalar_or_children E (JBool b) = show_bool b"
| "json_scalar_or_children E (JInt n) = json_print E (JInt n)"
| "json_scalar_or_children E (JFloat x) = json_print E (JFloat x)"
| "json_scalar_or_children E JNull = []"
| "json_scalar_or_children E (JArr xs) = []"

subsection \<open>Tag sets\<close>

definition invalid_tag :: "string \<Rightarrow> string \<Rightarrow> s3_error" where
  "invalid_tag message k = err_with ''TagKey'' k (s3_error_new ''InvalidTag'' message)"

fun check_tags :: "s3_tags \<Rightarrow> (s3_error, unit) result" where
  "check_tags [] = Inr ()"
| "check_tags ((k, v) # tags) =
     (if k = [] \<or> 128 < length (utf8_chars k) then Inl (invalid_tag ''The TagKey you have provided is invalid'' k)
      else if 256 < length (utf8_chars v) then Inl (invalid_tag ''The TagValue you have provided is too long'' k)
      else check_tags tags)"

definition validate_tags :: "s3_tags \<Rightarrow> nat \<Rightarrow> (s3_error, unit) result" where
  "validate_tags tags limit =
     (if limit < length tags
      then Inl (s3_error_new ''BadRequest'' (''Object tags cannot be greater than '' @ show_nat limit))
      else check_tags tags)"

fun tag_elements :: "xml_element list \<Rightarrow> s3_tags \<Rightarrow> (s3_error, s3_tags) result" where
  "tag_elements [] tags = Inr tags"
| "tag_elements (t # ts) tags =
     (case child_text ''Key'' t of
        None \<Rightarrow> Inl malformed_xml
      | Some k \<Rightarrow>
          let v = (case el_child ''Value'' t of Some e \<Rightarrow> el_text e | None \<Rightarrow> []) in
          if list_ex (\<lambda>(ek, _). ek = k) tags
          then Inl (invalid_tag ''Cannot provide multiple Tags with the same key'' k)
          else tag_elements ts (tags @ [(k, v)]))"

text \<open>Parse errors of any kind are the same to the caller.\<close>

definition parse_doc :: "s3_http \<Rightarrow> string \<Rightarrow> (s3_error, xml_element) result" where
  "parse_doc H body = (case xml_parse (xml_read (sh_env H)) body of Inl _ \<Rightarrow> Inl malformed_xml | Inr d \<Rightarrow> Inr d)"

definition parse_root :: "s3_http \<Rightarrow> string \<Rightarrow> string \<Rightarrow> (s3_error, xml_element) result" where
  "parse_root H name body = try_bind (parse_doc H body) (\<lambda>d. if el_name d \<noteq> name then Inl malformed_xml else Inr d)"

definition parse_tagging :: "s3_http \<Rightarrow> string \<Rightarrow> (s3_error, s3_tags) result" where
  "parse_tagging H body = try_bind (parse_root H ''Tagging'' body) (\<lambda>d.
     try_bind (case el_child ''TagSet'' d of Some t \<Rightarrow> tag_elements (children_named ''Tag'' t) [] | None \<Rightarrow> Inr []) (\<lambda>tags.
     try_bind (validate_tags tags 50) (\<lambda>_. Inr tags)))"

definition tagging_xml :: "s3_tags \<Rightarrow> string" where
  "tagging_xml tags = s3_xml_decl @ ns_tag ''Tagging'' @ ''><TagSet>''
     @ concat (map (\<lambda>(k, v). wrap ''Tag'' (xml_tag ''Key'' k @ xml_tag ''Value'' v)) tags) @ ''</TagSet></Tagging>''"

section \<open>CORS\<close>

text \<open>
  The CORS configuration of a bucket (cors.rs of src/src/aws/s3): parsing and checking
  rules, matching them against a request and the headers a matched rule adds.
\<close>

record cors_rule =
  cr_id :: "string option"
  cr_origins :: "string list"
  cr_methods :: "string list"
  cr_headers :: "string list"
  cr_expose :: "string list"
  cr_max_age :: "int option"

definition cors_methods :: "string list" where
  "cors_methods = [''GET'', ''PUT'', ''POST'', ''DELETE'', ''HEAD'']"

subsection \<open>Checking\<close>

definition unsupported_method :: "string \<Rightarrow> s3_error" where
  "unsupported_method m = s3_error_new ''InvalidRequest''
     (''Found unsupported HTTP method in CORS config. Unsupported method is '' @ m)"

definition too_many_stars :: "string \<Rightarrow> s3_error" where
  "too_many_stars origin = s3_error_new ''InvalidRequest''
     (''AllowedOrigin '' @ [CHR 0x22] @ origin @ [CHR 0x22] @ '' can not have more than one wildcard.'')"

definition stars :: "string \<Rightarrow> nat" where
  "stars s = length (filter (\<lambda>c. c = CHR ''*'') s)"

definition cors_validate :: "cors_rule \<Rightarrow> (s3_error, unit) result" where
  "cors_validate r =
     (if cr_origins r = [] \<or> cr_methods r = [] then Inl malformed_xml
      else (case find (\<lambda>m. m \<notin> set cors_methods) (cr_methods r) of
          Some m \<Rightarrow> Inl (unsupported_method m)
        | None \<Rightarrow> (case find (\<lambda>u. 1 < stars u) (cr_origins r) of
            Some u \<Rightarrow> Inl (too_many_stars u)
          | None \<Rightarrow> Inr ())))"

fun check_rules :: "cors_rule list \<Rightarrow> (s3_error, cors_rule list) result" where
  "check_rules [] = Inr []"
| "check_rules (r # rs) = try_bind (cors_validate r) (\<lambda>_. try_bind (check_rules rs) (\<lambda>rs'. Inr (r # rs')))"

subsection \<open>Parsing and printing\<close>

definition texts_of :: "xml_element \<Rightarrow> string \<Rightarrow> string list" where
  "texts_of e n = map (\<lambda>c. trim (el_text c)) (children_named n e)"

definition rule_of_element :: "xml_element \<Rightarrow> cors_rule" where
  "rule_of_element r = \<lparr> cr_id = child_text ''ID'' r, cr_origins = texts_of r ''AllowedOrigin'', cr_methods = texts_of r ''AllowedMethod'',
     cr_headers = texts_of r ''AllowedHeader'', cr_expose = texts_of r ''ExposeHeader'',
     cr_max_age = Option.bind (child_text ''MaxAgeSeconds'' r) parse_i64 \<rparr>"

definition parse_rules :: "s3_http \<Rightarrow> string \<Rightarrow> (s3_error, cors_rule list) result" where
  "parse_rules H xml = try_bind (parse_root H ''CORSConfiguration'' xml) (\<lambda>d.
     try_bind (check_rules (map rule_of_element (children_named ''CORSRule'' d))) (\<lambda>rules.
     if rules = [] then Inl malformed_xml else Inr rules))"

definition seed_strings :: "json \<Rightarrow> string \<Rightarrow> string list" where
  "seed_strings r n = (case json_get n r of
     Some (JArr a) \<Rightarrow> List.map_filter as_str a | Some (JStr s) \<Rightarrow> [s] | _ \<Rightarrow> [])"

definition rule_of_json :: "json \<Rightarrow> cors_rule" where
  "rule_of_json r = \<lparr> cr_id = json_str ''ID'' r, cr_origins = seed_strings r ''AllowedOrigins'',
     cr_methods = map ascii_uppercase (seed_strings r ''AllowedMethods''), cr_headers = seed_strings r ''AllowedHeaders'',
     cr_expose = seed_strings r ''ExposeHeaders'', cr_max_age = Option.bind (json_get ''MaxAgeSeconds'' r) as_i64 \<rparr>"

definition rules_from_json :: "json \<Rightarrow> (s3_error, cors_rule list) result" where
  "rules_from_json v =
     (let items = (case as_array v of
          Some a \<Rightarrow> a
        | None \<Rightarrow> (case Option.bind (json_get ''CORSRules'' v) as_array of Some a \<Rightarrow> a | None \<Rightarrow> []))
      in check_rules (map rule_of_json items))"

definition rule_to_xml :: "cors_rule \<Rightarrow> string" where
  "rule_to_xml r = wrap ''CORSRule''
     ((case cr_id r of Some i \<Rightarrow> xml_tag ''ID'' i | None \<Rightarrow> [])
      @ concat (map (\<lambda>(n, vs). concat (map (xml_tag n) vs))
          [(''AllowedHeader'', cr_headers r), (''AllowedMethod'', cr_methods r), (''AllowedOrigin'', cr_origins r),
           (''ExposeHeader'', cr_expose r)])
      @ (case cr_max_age r of Some m \<Rightarrow> wrap ''MaxAgeSeconds'' (show_int m) | None \<Rightarrow> []))"

definition rules_to_xml :: "cors_rule list \<Rightarrow> string" where
  "rules_to_xml rules = s3_xml_decl @ ns_tag ''CORSConfiguration'' @ ''>'' @ concat (map rule_to_xml rules) @ ''</CORSConfiguration>''"

subsection \<open>Matching\<close>

text \<open>The parts between the stars are matched like those of SNS filters.\<close>

definition wildcard_match :: "string \<Rightarrow> string \<Rightarrow> bool \<Rightarrow> bool" where
  "wildcard_match pattern s case_insensitive =
     (let (p, v) = (if case_insensitive then (ascii_lowercase pattern, ascii_lowercase s) else (pattern, s)) in
      case split_on CHR ''*'' p of
        first # q # parts \<Rightarrow> (case strip_prefix first v of Some rest \<Rightarrow> wildcard_rest (q # parts) rest | None \<Rightarrow> False)
      | _ \<Rightarrow> p = v)"

definition rule_admits :: "string \<Rightarrow> string \<Rightarrow> string list \<Rightarrow> cors_rule \<Rightarrow> bool" where
  "rule_admits origin m request_headers r \<longleftrightarrow>
     list_ex (\<lambda>u. wildcard_match u origin False) (cr_origins r)
     \<and> list_ex (\<lambda>a. a = m) (cr_methods r)
     \<and> list_all (\<lambda>h. list_ex (\<lambda>a. wildcard_match a h True) (cr_headers r)) request_headers"

definition find_rule :: "cors_rule list \<Rightarrow> string \<Rightarrow> string \<Rightarrow> string list \<Rightarrow> cors_rule option" where
  "find_rule rules origin m request_headers = find (rule_admits origin m request_headers) rules"

definition split_header_list :: "string \<Rightarrow> string list" where
  "split_header_list v = filter (\<lambda>s. s \<noteq> []) (map (\<lambda>s. ascii_lowercase (trim s)) (split_on CHR '','' v))"

fun join_str :: "string \<Rightarrow> string list \<Rightarrow> string" where
  "join_str sep [] = []"
| "join_str sep [p] = p"
| "join_str sep (p # q # ps) = p @ sep @ join_str sep (q # ps)"

definition cors_apply :: "cors_rule \<Rightarrow> string \<Rightarrow> bool \<Rightarrow> string list \<Rightarrow> http_response \<Rightarrow> http_response" where
  "cors_apply r origin preflight request_headers resp =
     (let a = (if list_ex (\<lambda>u. u = ''*'') (cr_origins r) then try_header ''access-control-allow-origin'' ''*'' resp
               else try_header ''access-control-allow-credentials'' ''true'' (try_header ''access-control-allow-origin'' origin resp));
          b = try_header ''access-control-allow-methods'' (join_str '', '' (cr_methods r)) a;
          c = (if preflight \<and> request_headers \<noteq> [] then try_header ''access-control-allow-headers'' (join_str '', '' request_headers) b
               else b);
          d = (if cr_expose r \<noteq> [] then try_header ''access-control-expose-headers'' (join_str '', '' (cr_expose r)) c else c);
          e = (case cr_max_age r of Some m \<Rightarrow> try_header ''access-control-max-age'' (show_int m) d | None \<Rightarrow> d)
      in try_header ''vary'' ''Origin, Access-Control-Request-Headers, Access-Control-Request-Method'' e)"

subsection \<open>What matching means\<close>

lemma wildcard_match_glob:
  "wildcard_match pattern s False \<longleftrightarrow> glob pattern s"
  "wildcard_match pattern s True \<longleftrightarrow> glob (ascii_lowercase pattern) (ascii_lowercase s)"
  unfolding wildcard_match_def wildcard_glob[symmetric] wildcard_def Let_def by (simp_all split: list.splits)

lemma find_rule_Some: "find_rule rules origin m hs = Some r \<Longrightarrow> r \<in> set rules \<and> rule_admits origin m hs r"
  unfolding find_rule_def by (rule find_Some_set)

lemma check_rules_Inr: "check_rules rs = Inr rs' \<Longrightarrow> rs' = rs \<and> list_all (\<lambda>r. cors_validate r = Inr ()) rs"
  by (induction rs arbitrary: rs') (auto simp: try_bind_Inr_iff)

section \<open>Event notifications\<close>

text \<open>
  Event notifications (notify.rs of src/src/aws/s3): the notification configuration of a
  bucket, which targets an event matches, and delivery to SQS queues and SNS topics.

  The protocol layer works on the S3 tables and the tables of the services it delivers to.  \<open>others\<close> is
  what other requests do between two database calls of a handler, and between those of a publication; a
  list of numbers says where in the handler.
\<close>

record s3_state =
  ss_db :: s3_db
  ss_app :: sns_app

record s3_others =
  between :: "nat list \<Rightarrow> s3_state \<Rightarrow> s3_state"
  publishing :: "nat list \<Rightarrow> nat \<Rightarrow> sns_app \<Rightarrow> sns_app"

type_synonym 'a s3_call = "(s3_state, s3_error, 'a) action"

definition on_tables :: "'a s3_action \<Rightarrow> 'a s3_call" where
  "on_tables m = (\<lambda>s. case m (ss_db s) of (r, db) \<Rightarrow> (r, s\<lparr> ss_db := db \<rparr>))"

definition read_tables :: "(s3_db \<Rightarrow> (s3_error, 'a) result) \<Rightarrow> 'a s3_call" where
  "read_tables f = (\<lambda>s. (f (ss_db s), s))"

definition meanwhile :: "s3_others \<Rightarrow> nat \<Rightarrow> unit s3_call" where
  "meanwhile others i = (\<lambda>s. (Inr (), between others [i] s))"

text \<open>The places inside the n-th step of a handler.\<close>

definition inside :: "nat \<Rightarrow> s3_others \<Rightarrow> s3_others" where
  "inside n others = \<lparr> between = (\<lambda>p. between others (n # p)), publishing = (\<lambda>p. publishing others (n # p)) \<rparr>"

definition s3_emit :: "s3_http \<Rightarrow> string \<Rightarrow> (string \<times> json) list \<Rightarrow> int \<Rightarrow> unit s3_call" where
  "s3_emit H act payload now = (\<lambda>s. (Inr (), s\<lparr> ss_app := (ss_app s)\<lparr> sns_events :=
     emit_event (s3_ex H) ''aws'' ''s3'' act (json_print (s3_ex H) (json_obj payload)) now (sns_events (ss_app s)) \<rparr> \<rparr>))"

subsection \<open>Configuration\<close>

datatype dest_kind = DestQueue | DestTopic | DestLambda

record notify_target =
  nt_kind :: dest_kind
  nt_id :: string
  nt_arn :: string
  nt_events :: "string list"
  nt_rules :: "(string \<times> string) list"

record notify_config =
  nc_targets :: "notify_target list"
  nc_eventbridge :: bool

definition no_targets :: notify_config where
  "no_targets = \<lparr> nc_targets = [], nc_eventbridge = False \<rparr>"

fun dest_element :: "dest_kind \<Rightarrow> string \<times> string" where
  "dest_element DestQueue = (''QueueConfiguration'', ''Queue'')"
| "dest_element DestTopic = (''TopicConfiguration'', ''Topic'')"
| "dest_element DestLambda = (''CloudFunctionConfiguration'', ''CloudFunction'')"

definition target_rule :: "string \<Rightarrow> notify_target \<Rightarrow> string option" where
  "target_rule name t = map_option snd (find (\<lambda>(n, _). eq_ignore_ascii_case n name) (nt_rules t))"

definition target_prefix :: "notify_target \<Rightarrow> string option" where
  "target_prefix t = target_rule ''prefix'' t"

definition target_suffix :: "notify_target \<Rightarrow> string option" where
  "target_suffix t = target_rule ''suffix'' t"

definition target_matches :: "notify_target \<Rightarrow> string \<Rightarrow> string \<Rightarrow> bool" where
  "target_matches t event_name key \<longleftrightarrow>
     (let full = ''s3:'' @ event_name in
      list_ex (\<lambda>e. e = full \<or> (case strip_suffix ''*'' e of Some p \<Rightarrow> starts_with full p | None \<Rightarrow> False)) (nt_events t)
      \<and> (case target_prefix t of Some p \<Rightarrow> starts_with key p | None \<Rightarrow> True)
      \<and> (case target_suffix t of Some p \<Rightarrow> ends_with key p | None \<Rightarrow> True))"

subsection \<open>Parsing\<close>

fun filter_rules :: "xml_element list \<Rightarrow> (s3_error, (string \<times> string) list) result" where
  "filter_rules [] = Inr []"
| "filter_rules (r # rs) =
     (let name = (case child_text ''Name'' r of Some n \<Rightarrow> n | None \<Rightarrow> []) in
      if \<not> eq_ignore_ascii_case name ''prefix'' \<and> \<not> eq_ignore_ascii_case name ''suffix'' then
        Inl (err_with ''ArgumentValue'' name (err_with ''ArgumentName'' ''FilterRule.Name''
          (s3_invalid_argument ''filter rule name must be either prefix or suffix'')))
      else try_bind (filter_rules rs) (\<lambda>rules.
        Inr ((name, case el_child ''Value'' r of Some v \<Rightarrow> el_text v | None \<Rightarrow> []) # rules)))"

definition event_names :: "xml_element \<Rightarrow> (s3_error, string list) result" where
  "event_names c =
     (let events = map (\<lambda>e. trim (el_text e)) (children_named ''Event'' c) in
      if events = [] then Inl malformed_xml
      else (case find (\<lambda>e. \<not> starts_with e ''s3:'') events of
          Some e \<Rightarrow> Inl (err_with ''ArgumentName'' e (s3_invalid_argument ''The event is not supported for notifications''))
        | None \<Rightarrow> Inr events))"

text \<open>The kind of a child of the document and the child element that holds its ARN.\<close>

definition config_kind :: "string \<Rightarrow> (dest_kind \<times> string) option" where
  "config_kind name =
     (if name = ''QueueConfiguration'' then Some (DestQueue, ''Queue'')
      else if name = ''TopicConfiguration'' then Some (DestTopic, ''Topic'')
      else if name = ''CloudFunctionConfiguration'' \<or> name = ''LambdaFunctionConfiguration'' then Some (DestLambda, ''CloudFunction'')
      else None)"

definition target_arn :: "string \<Rightarrow> xml_element \<Rightarrow> (s3_error, string) result" where
  "target_arn arn_name c =
     (case (case child_text arn_name c of Some a \<Rightarrow> Some a | None \<Rightarrow> child_text ''LambdaFunctionArn'' c) of
        Some a \<Rightarrow> if a \<noteq> [] then Inr a else Inl malformed_xml
      | None \<Rightarrow> Inl malformed_xml)"

definition generated_id :: "s3_http \<Rightarrow> nat \<Rightarrow> string" where
  "generated_id H draws = b64_no_pad H (uuid_simple (uuid_v4 (s3_ex H) draws))"

text \<open>A target without an id draws one.\<close>

definition parse_target :: "s3_http \<Rightarrow> dest_kind \<Rightarrow> string \<Rightarrow> xml_element \<Rightarrow> (nat, s3_error, notify_target) action" where
  "parse_target H kind arn_name c = (\<lambda>draws.
     case try_bind (target_arn arn_name c) (\<lambda>arn.
          try_bind (event_names c) (\<lambda>events.
          try_bind (case el_path [''Filter'', ''S3Key''] c of
              Some key \<Rightarrow> filter_rules (children_named ''FilterRule'' key) | None \<Rightarrow> Inr []) (\<lambda>rules.
          Inr (arn, events, rules)))) of
       Inl e \<Rightarrow> (Inl e, draws)
     | Inr (arn, events, rules) \<Rightarrow>
         let (i, draws) = (case nonempty (child_text ''Id'' c) of
               Some i \<Rightarrow> (i, draws) | None \<Rightarrow> (generated_id H draws, Suc draws))
         in (Inr \<lparr> nt_kind = kind, nt_id = i, nt_arn = arn, nt_events = events, nt_rules = rules \<rparr>, draws))"

fun parse_children :: "s3_http \<Rightarrow> xml_element list \<Rightarrow> notify_config \<Rightarrow> (nat, s3_error, notify_config) action" where
  "parse_children H [] cfg = act_return cfg"
| "parse_children H (c # cs) cfg =
     (case config_kind (el_name c) of
        Some (kind, arn_name) \<Rightarrow>
          act_bind (parse_target H kind arn_name c) (\<lambda>t. parse_children H cs (cfg\<lparr> nc_targets := nc_targets cfg @ [t] \<rparr>))
      | None \<Rightarrow>
          parse_children H cs (if el_name c = ''EventBridgeConfiguration'' then cfg\<lparr> nc_eventbridge := True \<rparr> else cfg))"

definition notify_parse :: "s3_http \<Rightarrow> string \<Rightarrow> (nat, s3_error, notify_config) action" where
  "notify_parse H xml = act_bind (act_result (parse_root H ''NotificationConfiguration'' xml)) (\<lambda>d.
     parse_children H (el_children d) no_targets)"

text \<open>The draws are those of the S3 tables.\<close>

definition on_draws :: "(nat, s3_error, 'a) action \<Rightarrow> 'a s3_call" where
  "on_draws m = on_tables (\<lambda>db. case m (s3_draws db) of (r, n) \<Rightarrow> (r, db\<lparr> s3_draws := n \<rparr>))"

subsection \<open>Printing\<close>

definition target_xml :: "notify_target \<Rightarrow> string" where
  "target_xml t =
     (let (el, arn_el) = dest_element (nt_kind t) in
      wrap el (xml_tag ''Id'' (nt_id t) @ xml_tag arn_el (nt_arn t) @ concat (map (xml_tag ''Event'') (nt_events t))
        @ (if nt_rules t \<noteq> [] then
             ''<Filter><S3Key>'' @ concat (map (\<lambda>(n, v). wrap ''FilterRule'' (xml_tag ''Name'' n @ xml_tag ''Value'' v)) (nt_rules t))
             @ ''</S3Key></Filter>'' else [])))"

definition notify_to_xml :: "notify_config \<Rightarrow> string" where
  "notify_to_xml cfg =
     s3_xml_decl @ ns_tag ''NotificationConfiguration'' @ ''>''
     @ concat (map (\<lambda>k. concat (map target_xml (filter (\<lambda>t. nt_kind t = k) (nc_targets cfg)))) [DestTopic, DestQueue, DestLambda])
     @ (if nc_eventbridge cfg then ''<EventBridgeConfiguration/>'' else []) @ ''</NotificationConfiguration>''"

definition notify_empty_xml :: string where
  "notify_empty_xml = s3_xml_decl @ ns_tag ''NotificationConfiguration'' @ ''/>''"

subsection \<open>Seeding\<close>

definition qualify :: "dest_kind \<Rightarrow> string \<Rightarrow> string" where
  "qualify kind name =
     (if starts_with name ''arn:'' then name
      else ''arn:aws:'' @ (if kind = DestQueue then ''sqs'' else ''sns'') @ '':'' @ REGION @ '':'' @ ACCOUNT_ID @ '':'' @ name)"

definition seed_target :: "string \<Rightarrow> dest_kind \<Rightarrow> string \<Rightarrow> nat \<times> json \<Rightarrow> notify_target option" where
  "seed_target lst kind field = (\<lambda>(i, item).
     case Option.bind (case json_get field item of Some v \<Rightarrow> Some v | None \<Rightarrow> json_get ''arn'' item) as_str of
       None \<Rightarrow> None
     | Some dest \<Rightarrow>
         let events = (case Option.bind (json_get ''events'' item) as_array of Some a \<Rightarrow> List.map_filter as_str a | None \<Rightarrow> []);
             rules = List.map_filter (\<lambda>r. map_option (Pair r) (json_str r item)) [''prefix'', ''suffix'']
         in Some \<lparr> nt_kind = kind,
              nt_id = (case json_str ''id'' item of Some s \<Rightarrow> s | None \<Rightarrow> ''seed-'' @ lst @ ''-'' @ show_nat i),
              nt_arn = qualify kind dest, nt_events = (if events = [] then [''s3:ObjectCreated:*''] else events), nt_rules = rules \<rparr>)"

definition notify_from_seed :: "json \<Rightarrow> notify_config" where
  "notify_from_seed v = \<lparr> nc_targets = concat (map (\<lambda>(lst, kind, field).
       List.map_filter (seed_target lst kind field) (List.enumerate 0
         (case Option.bind (json_get lst v) as_array of Some a \<Rightarrow> a | None \<Rightarrow> [])))
       [(''queues'', DestQueue, ''queue''), (''topics'', DestTopic, ''topic'')]), nc_eventbridge = False \<rparr>"

subsection \<open>Delivery\<close>

definition host_id :: "s3_http \<Rightarrow> string \<Rightarrow> string" where
  "host_id H request_id = b64_encode (s3_ex H) (''cloudtwin/'' @ request_id)"

text \<open>Whether the delivery succeeded; \<open>i\<close> numbers the publications of a request.\<close>

definition notify_deliver :: "s3_http \<Rightarrow> s3_others \<Rightarrow> nat \<Rightarrow> notify_target \<Rightarrow> string \<Rightarrow> int \<Rightarrow> s3_state \<Rightarrow> bool \<times> s3_state" where
  "notify_deliver H others i t body now s =
     (let app = ss_app s in
      case nt_kind t of
        DestQueue \<Rightarrow> (case send_internal (s3_ex H) (nt_arn t) body None now (sns_queues app) of
            (r, q) \<Rightarrow> (\<not> isl r, s\<lparr> ss_app := app\<lparr> sns_queues := q \<rparr> \<rparr>))
      | DestTopic \<Rightarrow> (case publish_internal (s3_ex H) (sh_parse_mail H) (sh_base_url H) (publishing others [i]) (nt_arn t) body
              (Some ''Amazon S3 Notification'') None now app of
            (r, app') \<Rightarrow> (\<not> isl r, s\<lparr> ss_app := app' \<rparr>))
      | DestLambda \<Rightarrow> (True, s))"

definition topic_known :: "string \<Rightarrow> sns_app \<Rightarrow> bool" where
  "topic_known arn app \<longleftrightarrow> 0 < sql_count (\<lambda>t. t_arn (tr_topic t) = arn) (sns_topics app)"

definition test_event :: "s3_http \<Rightarrow> string \<Rightarrow> string \<Rightarrow> int \<Rightarrow> string" where
  "test_event H b request_id now = json_print (s3_ex H) (json_obj
     [(''Service'', JStr ''Amazon S3''), (''Event'', JStr ''s3:TestEvent''), (''Time'', JStr (iso_millis (s3_ex H) now)),
      (''Bucket'', JStr b), (''RequestId'', JStr request_id), (''HostId'', JStr (host_id H request_id))])"

text \<open>A test event to each destination, once; \<open>i\<close> counts the targets reached.\<close>

fun validate_targets ::
    "s3_http \<Rightarrow> s3_others \<Rightarrow> string \<Rightarrow> int \<Rightarrow> notify_target list \<Rightarrow> string list \<Rightarrow> nat \<Rightarrow> unit s3_call" where
  "validate_targets H others test now [] seen i = act_return ()"
| "validate_targets H others test now (t # ts) seen i =
     (if nt_arn t \<in> set seen then validate_targets H others test now ts seen i
      else (\<lambda>s0.
        let s = between others [0, i] s0;
            known = nt_kind t \<noteq> DestTopic \<or> topic_known (nt_arn t) (ss_app s);
            (ok, s') = (if known then notify_deliver H others i t test now (between others [1, i] s) else (False, s))
        in if ok then validate_targets H others test now ts (seen @ [nt_arn t]) (Suc i) s'
           else (Inl (err_with ''ArgumentValue1'' ''The destination does not exist or is not reachable''
                   (err_with ''ArgumentName1'' (nt_arn t)
                     (s3_invalid_argument ''Unable to validate the following destination configurations''))), s')))"

definition notify_put :: "s3_http \<Rightarrow> s3_others \<Rightarrow> string \<Rightarrow> string \<Rightarrow> string \<Rightarrow> bool \<Rightarrow> int \<Rightarrow> unit s3_call" where
  "notify_put H others b body request_id skip_validation now =
     act_bind (read_tables (require_bucket b)) (\<lambda>_.
     act_bind (on_draws (notify_parse H body)) (\<lambda>cfg.
     act_bind (if skip_validation then act_return ()
               else validate_targets H (inside 0 others) (test_event H b request_id now) now
                      (filter (\<lambda>t. nt_kind t \<noteq> DestLambda) (nc_targets cfg)) [] 0) (\<lambda>_.
     act_bind (meanwhile others 1) (\<lambda>_.
       on_tables (put_config b ''notification'' (notify_to_xml cfg))))))"

subsection \<open>Events\<close>

record s3_event =
  en_bucket :: string
  en_key :: string
  en_name :: string
  en_size :: "int option"
  en_etag :: "string option"
  en_version :: "string option"
  en_seq :: int
  en_request_id :: string

text \<open>\<open>{:016X}\<close> of a signed number.\<close>

definition sequencer :: "int \<Rightarrow> string" where
  "sequencer n = (let s = show_hex_upper (nat (n mod 2 ^ 64)) in replicate (16 - length s) CHR ''0'' @ s)"

definition event_field :: "string \<Rightarrow> ('a \<Rightarrow> json) \<Rightarrow> 'a option \<Rightarrow> (string \<times> json) list" where
  "event_field k f v = (case v of Some x \<Rightarrow> [(k, f x)] | None \<Rightarrow> [])"

definition event_object :: "s3_http \<Rightarrow> s3_event \<Rightarrow> json" where
  "event_object H ev = json_obj
     ([(''key'', JStr (url_encode_plus H (en_key ev))), (''sequencer'', JStr (sequencer (en_seq ev)))]
      @ event_field ''size'' JInt (en_size ev) @ event_field ''eTag'' (\<lambda>e. JStr (trim_quotes e)) (en_etag ev)
      @ event_field ''versionId'' JStr (en_version ev))"

definition event_record :: "s3_http \<Rightarrow> s3_event \<Rightarrow> string \<Rightarrow> int \<Rightarrow> string" where
  "event_record H ev config_id now = json_print (s3_ex H) (json_obj [(''Records'', JArr [json_obj
     [(''eventVersion'', JStr ''2.1''), (''eventSource'', JStr ''aws:s3''), (''awsRegion'', JStr REGION),
      (''eventTime'', JStr (iso_millis (s3_ex H) now)), (''eventName'', JStr (en_name ev)),
      (''userIdentity'', json_obj [(''principalId'', JStr ''AWS:cloudtwin'')]),
      (''requestParameters'', json_obj [(''sourceIPAddress'', JStr ''127.0.0.1'')]),
      (''responseElements'', json_obj [(''x-amz-request-id'', JStr (en_request_id ev)),
         (''x-amz-id-2'', JStr (host_id H (en_request_id ev)))]),
      (''s3'', json_obj
         [(''s3SchemaVersion'', JStr ''1.0''), (''configurationId'', JStr config_id),
          (''bucket'', json_obj [(''name'', JStr (en_bucket ev)), (''ownerIdentity'', json_obj [(''principalId'', JStr ''cloudtwin'')]),
             (''arn'', JStr (''arn:aws:s3:::'' @ en_bucket ev))]),
          (''object'', event_object H ev)])]])])"

fun deliver_events :: "s3_http \<Rightarrow> s3_others \<Rightarrow> s3_event \<Rightarrow> int \<Rightarrow> notify_target list \<Rightarrow> nat \<Rightarrow> s3_state \<Rightarrow> s3_state" where
  "deliver_events H others ev now [] i s = s"
| "deliver_events H others ev now (t # ts) i s =
     deliver_events H others ev now ts (Suc i)
       (snd (notify_deliver H others i t (event_record H ev (nt_id t) now) now (between others [i] s)))"

text \<open>Failures are only logged.\<close>

definition notify_fire :: "s3_http \<Rightarrow> s3_others \<Rightarrow> s3_event \<Rightarrow> int \<Rightarrow> s3_state \<Rightarrow> s3_state" where
  "notify_fire H others ev now s =
     (case get_config (en_bucket ev) ''notification'' (ss_db s) of
        Inr (Some body) \<Rightarrow> (case on_draws (notify_parse H body) s of
            (Inr cfg, s') \<Rightarrow> deliver_events H others ev now
              (filter (\<lambda>t. nt_kind t \<noteq> DestLambda \<and> target_matches t (en_name ev) (en_key ev)) (nc_targets cfg)) 0 s'
          | (Inl _, s') \<Rightarrow> s')
      | _ \<Rightarrow> s)"

end
