(* ===== verification/S3_Requests.thy ===== *)
theory S3_Requests
  imports S3_Wire
begin

text \<open>
  S3, part 5: requests, responses and object attributes (the shared part of handlers.rs of
  src/src/aws/s3) and the checks of object.rs: body framing, checksums, conditions and ranges.
\<close>

section \<open>Requests and responses\<close>

subsection \<open>Requests\<close>

definition auth_params :: "string list" where
  "auth_params = [''x-amz-algorithm'', ''x-amz-credential'', ''x-amz-signature'', ''x-amz-date'', ''x-amz-expires'',
     ''x-amz-signedheaders'', ''x-amz-security-token'', ''x-amz-user-agent'', ''x-id'', ''awsaccesskeyid'', ''signature'', ''expires'']"

definition query_pair :: "s3_http \<Rightarrow> string \<Rightarrow> string \<times> string" where
  "query_pair H kv =
     (let (k, v) = (case split_once CHR ''='' kv of Some p \<Rightarrow> p | None \<Rightarrow> (kv, []));
          dec = (\<lambda>s. url_decode H (replace_char CHR ''+'' '' '' s))
      in (dec k, dec v))"

definition s3_parse_query :: "s3_http \<Rightarrow> string option \<Rightarrow> (string \<times> string) list" where
  "s3_parse_query H raw =
     filter (\<lambda>(k, _). ascii_lowercase k \<notin> set auth_params)
       (map (query_pair H) (filter (\<lambda>s. s \<noteq> []) (split_on CHR ''&'' (case raw of Some r \<Rightarrow> r | None \<Rightarrow> []))))"

text \<open>A decoded request; header values are bytes, header names in lower case.\<close>

record s3_req =
  q3_method :: string
  q3_bucket :: string
  q3_key :: "string option"
  q3_query :: "(string \<times> string) list"
  q3_headers :: s3_headers
  q3_body :: string
  q3_id :: string

definition q_get :: "s3_req \<Rightarrow> string \<Rightarrow> string option" where
  "q_get r name = map_of (q3_query r) name"

definition q_has :: "s3_req \<Rightarrow> string \<Rightarrow> bool" where
  "q_has r name \<longleftrightarrow> list_ex (\<lambda>(k, _). k = name) (q3_query r)"

definition s3_header_str :: "string \<Rightarrow> s3_headers \<Rightarrow> string option" where
  "s3_header_str name hs = map_option from_utf8_lossy (map_of hs name)"

definition q_header :: "s3_req \<Rightarrow> string \<Rightarrow> string option" where
  "q_header r name = s3_header_str name (q3_headers r)"

definition req_key :: "s3_req \<Rightarrow> string" where
  "req_key r = (case q3_key r of Some k \<Rightarrow> k | None \<Rightarrow> [])"

definition header_pairs :: "s3_headers \<Rightarrow> (string \<times> string) list" where
  "header_pairs hs = map (\<lambda>(k, v). (ascii_lowercase k, from_utf8_lossy v)) hs"

text \<open>The request id: 16 hexadecimal digits of a drawn UUID.\<close>

definition new_request_id :: "s3_http \<Rightarrow> nat \<Rightarrow> string" where
  "new_request_id H draws = ascii_uppercase (take 16 (uuid_simple (uuid_v4 (s3_ex H) draws)))"

subsection \<open>Responses\<close>

definition s3_xml_status :: "nat \<Rightarrow> string \<Rightarrow> http_response" where
  "s3_xml_status status body = \<lparr> http_status = status, http_headers = [(''content-type'', ''application/xml'')], http_body = body \<rparr>"

definition s3_xml_ok :: "string \<Rightarrow> http_response" where
  "s3_xml_ok body = s3_xml_status 200 body"

text \<open>\<open>HeaderName::from_bytes\<close> accepts tokens.\<close>

definition header_name :: "string \<Rightarrow> bool" where
  "header_name k \<longleftrightarrow> k \<noteq> [] \<and> length k \<le> 65535
     \<and> list_all (\<lambda>c. is_alnum c \<or> c \<in> set (''!#$%&*+-.^_|~'' @ [CHR 0x27, CHR 0x60])) k"

definition add_header :: "string \<times> string \<Rightarrow> http_response \<Rightarrow> http_response" where
  "add_header kv resp =
     (if header_name (fst kv) \<and> header_text (snd kv) then set_header (ascii_lowercase (fst kv)) (snd kv) resp else resp)"

definition s3_with_headers :: "http_response \<Rightarrow> (string \<times> string) list \<Rightarrow> http_response" where
  "s3_with_headers resp pairs = fold add_header pairs resp"

definition s3_error_response :: "s3_http \<Rightarrow> s3_error \<Rightarrow> string \<Rightarrow> string \<Rightarrow> string \<Rightarrow> http_response" where
  "s3_error_response H e m request_id resource =
     s3_with_headers
       (if m = ''HEAD'' then status_response (s3_status e)
        else
          let extra = concat (map (\<lambda>(k, v). xml_tag k v) (e3_fields e))
                @ (if list_ex (\<lambda>(k, _). k = ''Resource'') (e3_fields e) then [] else xml_tag ''Resource'' resource)
          in s3_xml_status (s3_status e)
               (s3_xml_decl @ ''<Error><Code>'' @ xml_escape (e3_code e) @ ''</Code><Message>'' @ xml_escape (e3_message e) @ ''</Message>''
                @ extra @ ''<RequestId>'' @ request_id @ ''</RequestId><HostId>'' @ host_id H request_id @ ''</HostId></Error>''))
       (e3_headers e)"

subsection \<open>Object attributes\<close>

definition STD_HEADERS :: "string list" where
  "STD_HEADERS = [''cache-control'', ''content-disposition'', ''content-encoding'', ''content-language'', ''expires'']"

definition SSE_HEADERS :: "string list" where
  "SSE_HEADERS = [''x-amz-server-side-encryption'', ''x-amz-server-side-encryption-aws-kms-key-id'',
     ''x-amz-server-side-encryption-bucket-key-enabled'', ''x-amz-server-side-encryption-context'',
     ''x-amz-server-side-encryption-customer-algorithm'', ''x-amz-server-side-encryption-customer-key-md5'']"

definition CHECKSUM_HEADERS :: "string list" where
  "CHECKSUM_HEADERS = [''x-amz-checksum-crc32'', ''x-amz-checksum-crc32c'', ''x-amz-checksum-crc64nvme'', ''x-amz-checksum-sha1'',
     ''x-amz-checksum-sha256'']"

record object_attrs_row =
  oa_type :: "string option"
  oa_meta :: obj_meta
  oa_tags :: "s3_tags option"

definition pair_of :: "(string \<times> string) list \<Rightarrow> string \<Rightarrow> string option" where
  "pair_of pairs name = map_of pairs name"

definition parse_tag_query :: "s3_http \<Rightarrow> string \<Rightarrow> (s3_error, s3_tags) result" where
  "parse_tag_query H s =
     (case form_pairs H s of
        None \<Rightarrow> Inl (s3_invalid_argument (''The header '' @ [CHR 0x27] @ ''x-amz-tagging'' @ [CHR 0x27]
                 @ '' shall be encoded as UTF-8 then URLEncoded URL query parameters without tag name duplicates.''))
      | Some tags \<Rightarrow> try_bind (validate_tags tags 10) (\<lambda>_. Inr tags))"

text \<open>The stored value of a standard header: \<open>aws-chunked\<close> is not part of the encoding.\<close>

definition std_value :: "string \<Rightarrow> string \<Rightarrow> string" where
  "std_value h v =
     (if h = ''content-encoding'' then
        join_str '', '' (filter (\<lambda>e. \<not> eq_ignore_ascii_case e ''aws-chunked'' \<and> e \<noteq> []) (map trim (split_on CHR '','' v)))
      else v)"

definition named_values :: "string list \<Rightarrow> (string \<times> string) list \<Rightarrow> (string \<times> string) list" where
  "named_values names pairs = List.map_filter (\<lambda>h. map_option (Pair h) (pair_of pairs h)) names"

definition bad_sse :: "string \<Rightarrow> s3_error" where
  "bad_sse algo = err_with ''ArgumentValue'' algo (err_with ''ArgumentName'' ''x-amz-server-side-encryption''
     (s3_invalid_argument (''Server Side Encryption with unsupported algorithm '' @ algo)))"

definition object_attrs :: "s3_http \<Rightarrow> (string \<times> string) list \<Rightarrow> (s3_error, object_attrs_row) result" where
  "object_attrs H pairs =
     (let meta = \<lparr>
            mt_user = List.map_filter (\<lambda>(k, v). map_option (\<lambda>n. (n, v)) (strip_prefix ''x-amz-meta-'' k)) pairs,
            mt_headers = filter (\<lambda>(h, v). v \<noteq> []) (map (\<lambda>(h, v). (h, std_value h v)) (named_values STD_HEADERS pairs)),
            mt_sse = named_values SSE_HEADERS pairs, mt_checksums = named_values CHECKSUM_HEADERS pairs, mt_parts = [],
            mt_storage_class = pair_of pairs ''x-amz-storage-class'',
            mt_redirect = pair_of pairs ''x-amz-website-redirect-location'' \<rparr>;
          refused = (case pair_of pairs ''x-amz-server-side-encryption'' of
            Some algo \<Rightarrow> if algo \<notin> set [''AES256'', ''aws:kms'', ''aws:kms:dsse''] then Some algo else None
          | None \<Rightarrow> None)
      in case refused of
           Some algo \<Rightarrow> Inl (bad_sse algo)
         | None \<Rightarrow> try_bind (case pair_of pairs ''x-amz-tagging'' of
                 Some t \<Rightarrow> try_bind (parse_tag_query H t) (\<lambda>tags. Inr (Some tags)) | None \<Rightarrow> Inr None) (\<lambda>tags.
               Inr \<lparr> oa_type = pair_of pairs ''content-type'', oa_meta = meta, oa_tags = tags \<rparr>))"

definition attrs_type :: "object_attrs_row \<Rightarrow> string" where
  "attrs_type a = (case oa_type a of Some t \<Rightarrow> t | None \<Rightarrow> ''binary/octet-stream'')"

definition attrs_tags :: "object_attrs_row \<Rightarrow> s3_tags" where
  "attrs_tags a = (case oa_tags a of Some t \<Rightarrow> t | None \<Rightarrow> [])"

definition sse_headers :: "obj_meta \<Rightarrow> (string \<times> string) list" where
  "sse_headers m = filter (\<lambda>(k, _). k \<noteq> ''x-amz-server-side-encryption-context'') (mt_sse m)"

definition bad_digest :: "string \<Rightarrow> s3_error" where
  "bad_digest name = s3_error_new ''BadDigest'' (''The '' @ name @ '' you specified did not match the calculated checksum.'')"

fun check_sums :: "s3_http \<Rightarrow> (string \<times> string) list \<Rightarrow> string \<Rightarrow> (s3_error, unit) result" where
  "check_sums H [] content = Inr ()"
| "check_sums H ((k, v) # sums) content =
     (if k = ''x-amz-checksum-crc32'' \<and> v \<noteq> b64_encode (s3_ex H) (crc32_be H content) then Inl (bad_digest ''CRC32'')
      else if k = ''x-amz-checksum-sha256'' \<and> v \<noteq> b64_encode (s3_ex H) (sha256_raw H content) then Inl (bad_digest ''SHA256'')
      else check_sums H sums content)"

definition verify_checksums :: "s3_http \<Rightarrow> obj_meta \<Rightarrow> string \<Rightarrow> (s3_error, unit) result" where
  "verify_checksums H m content = check_sums H (mt_checksums m) content"

subsection \<open>Bodies, conditions and ranges\<close>

definition decode_body :: "s3_http \<Rightarrow> s3_req \<Rightarrow> (s3_error, string \<times> (string \<times> string) list) result" where
  "decode_body H r =
     (if is_aws_chunked (q3_headers r) then
        (case decode_aws_chunked H (q3_body r) of
           Inl e \<Rightarrow> Inl (s3_error_new ''IncompleteBody'' (''Invalid aws-chunked request body: '' @ e))
         | Inr d \<Rightarrow> Inr (dc_data d, dc_trailers d))
      else Inr (q3_body r, []))"

definition check_content_md5 :: "s3_http \<Rightarrow> s3_headers \<Rightarrow> string \<Rightarrow> (s3_error, unit) result" where
  "check_content_md5 H hs content =
     (case header_str_of ''content-md5'' hs of
        None \<Rightarrow> Inr ()
      | Some v \<Rightarrow> (case b64_decode (s3_ex H) (trim v) of
            None \<Rightarrow> Inl (s3_error_new ''InvalidDigest'' ''The Content-MD5 you specified was invalid.'')
          | Some given \<Rightarrow>
              if given \<noteq> md5_bytes H content
              then Inl (s3_error_new ''BadDigest'' ''The Content-MD5 you specified did not match what we received.'')
              else Inr ()))"

text \<open>\<open>trim_start_matches\<close> of a string.\<close>

fun trim_start_weak :: "string \<Rightarrow> string" where
  "trim_start_weak (a # c # s) = (if a = CHR ''W'' \<and> c = CHR ''/'' then trim_start_weak s else a # c # s)"
| "trim_start_weak s = s"

definition etag_list_matches :: "string \<Rightarrow> string \<Rightarrow> bool" where
  "etag_list_matches lst etag \<longleftrightarrow>
     list_ex (\<lambda>e. let e = trim_quotes (trim_start_weak (trim e)) in e = ''*'' \<or> e = trim_quotes etag) (split_on CHR '','' lst)"

definition condition_failed :: "string \<Rightarrow> s3_error" where
  "condition_failed cond = err_with ''Condition'' cond
     (s3_error_new ''PreconditionFailed'' ''At least one of the pre-conditions you specified did not hold'')"

definition seconds :: "int \<Rightarrow> int" where
  "seconds t = t div 1000"

text \<open>\<open>Inr True\<close> is the answer \<open>304 Not Modified\<close>.\<close>

definition check_conditionals ::
    "s3_http \<Rightarrow> s3_headers \<Rightarrow> string \<Rightarrow> string \<Rightarrow> string \<Rightarrow> int \<Rightarrow> (s3_error, bool) result" where
  "check_conditionals H hs prefix etag last_modified now =
     (let h = (\<lambda>n. header_str_of (prefix @ n) hs);
          lm = seconds (parse_ts H now last_modified);
          copy = (prefix \<noteq> []);
          refused = (case h ''if-match'' of
              Some m \<Rightarrow> if \<not> etag_list_matches m etag then Some ''If-Match'' else None
            | None \<Rightarrow> (case Option.bind (h ''if-unmodified-since'') (parse_http_date H) of
                Some d \<Rightarrow> if seconds d < lm then Some ''If-Unmodified-Since'' else None
              | None \<Rightarrow> None));
          not_modified = (case h ''if-none-match'' of
              Some m \<Rightarrow> if etag_list_matches m etag then Some ''If-None-Match'' else None
            | None \<Rightarrow> (case Option.bind (h ''if-modified-since'') (parse_http_date H) of
                Some d \<Rightarrow> if lm \<le> seconds d then Some ''If-Modified-Since'' else None
              | None \<Rightarrow> None))
      in case refused of
           Some c \<Rightarrow> Inl (condition_failed c)
         | None \<Rightarrow> (case not_modified of
             Some c \<Rightarrow> if copy then Inl (condition_failed c) else Inr True
           | None \<Rightarrow> Inr False))"

text \<open>\<open>None\<close>: the header is ignored; \<open>Some None\<close>: the range cannot be satisfied.\<close>

definition s3_parse_range :: "string \<Rightarrow> nat \<Rightarrow> (nat \<times> nat) option option" where
  "s3_parse_range v sz =
     (case strip_prefix ''bytes='' (trim v) of
        None \<Rightarrow> None
      | Some spec \<Rightarrow>
          if CHR '','' \<in> set spec then None
          else (case split_once CHR ''-'' spec of
              None \<Rightarrow> None
            | Some (a, b) \<Rightarrow>
                let a = trim a; b = trim b in
                if a = [] then
                  (case parse_usize b of
                     None \<Rightarrow> None
                   | Some n \<Rightarrow> if n = 0 \<or> sz = 0 then Some None else Some (Some (sz - n, sz - 1)))
                else
                  (case parse_usize a of
                     None \<Rightarrow> None
                   | Some start \<Rightarrow>
                       (case (if b = [] then Some None else map_option Some (parse_usize b)) of
                          None \<Rightarrow> None
                        | Some stop \<Rightarrow>
                            if (case stop of Some e \<Rightarrow> e < start | None \<Rightarrow> False) then None
                            else if sz \<le> start then Some None
                            else Some (Some (start, case stop of Some e \<Rightarrow> min e (sz - 1) | None \<Rightarrow> sz - 1))))))"

definition version_header :: "string \<Rightarrow> versioning \<Rightarrow> (string \<times> string) list" where
  "version_header vid ver = (if is_configured ver \<or> vid \<noteq> ''null'' then [(''x-amz-version-id'', vid)] else [])"

definition write_headers :: "write_result \<Rightarrow> (string \<times> string) list" where
  "write_headers wr = [(''etag'', wr_etag wr)] @ version_header (wr_version wr) (wr_versioning wr) @ sse_headers (wr_meta wr)"

definition event_version :: "string \<Rightarrow> versioning \<Rightarrow> string option" where
  "event_version vid ver = (if is_configured ver then Some vid else None)"

definition fire_created :: "s3_http \<Rightarrow> s3_others \<Rightarrow> string \<Rightarrow> string \<Rightarrow> string \<Rightarrow> write_result \<Rightarrow> string \<Rightarrow> int \<Rightarrow> unit s3_call" where
  "fire_created H others b k name wr request_id now = (\<lambda>s. (Inr (), notify_fire H others
     \<lparr> en_bucket = b, en_key = k, en_name = name, en_size = Some (wr_size wr), en_etag = Some (wr_etag wr),
       en_version = event_version (wr_version wr) (wr_versioning wr), en_seq = wr_seq wr, en_request_id = request_id \<rparr> now s))"

definition bad_copy_source :: "string \<Rightarrow> s3_error" where
  "bad_copy_source src = err_with ''ArgumentValue'' src (err_with ''ArgumentName'' ''x-amz-copy-source''
     (s3_invalid_argument ''Invalid copy source object key''))"

text \<open>\<open>[/]bucket/key[?versionId=..]\<close>, URL-encoded.\<close>

definition parse_copy_source :: "s3_http \<Rightarrow> string \<Rightarrow> (s3_error, string \<times> string \<times> string option) result" where
  "parse_copy_source H src =
     (let (path, vid) = (case str_find ''?versionId='' src of
            Some i \<Rightarrow> (take i src, Some (url_decode H (drop (i + length ''?versionId='') src)))
          | None \<Rightarrow> (hd (split_on CHR ''?'' src), None))
      in case split_once CHR ''/'' (trim_start_char CHR ''/'' (url_decode H path)) of
           Some (b, k) \<Rightarrow> if b \<noteq> [] \<and> k \<noteq> [] then Inr (b, k, vid) else Inl (bad_copy_source src)
         | None \<Rightarrow> Inl (bad_copy_source src))"

section \<open>Objects\<close>

text \<open>
  The operations on \<open>/:bucket/*key\<close> (object.rs and multipart.rs of src/src/aws/s3).  A
  handler is an action on the tables whose errors the entry point turns into responses.
\<close>

type_synonym s3_handler = "http_response s3_call"

definition answer :: "http_response \<Rightarrow> s3_handler" where
  "answer resp = act_return resp"

text \<open>The calls of the service layer on behalf of a request.\<close>

definition find_version :: "s3_req \<Rightarrow> string option \<Rightarrow> object_info s3_call" where
  "find_version r vid = read_tables (resolve_version (q3_bucket r) (req_key r) vid)"

definition full_object :: "s3_others \<Rightarrow> string \<Rightarrow> string \<Rightarrow> string option \<Rightarrow> (object_info \<times> string) s3_call" where
  "full_object others b k vid = (\<lambda>s.
     on_tables (get_object_full (\<lambda>db. ss_db (between others [] (s\<lparr> ss_db := db \<rparr>))) b k vid) s)"

definition oi_version :: "object_info \<Rightarrow> string" where
  "oi_version info = ob_version (oi_row info)"

definition oi_meta :: "object_info \<Rightarrow> obj_meta" where
  "oi_meta info = ob_meta (oi_row info)"

subsection \<open>PutObject\<close>

definition put_request :: "s3_http \<Rightarrow> s3_req \<Rightarrow> (s3_error, object_attrs_row \<times> string) result" where
  "put_request H r =
     try_bind (decode_body H r) (\<lambda>(content, trailers).
     try_bind (object_attrs H (header_pairs (q3_headers r) @ trailers)) (\<lambda>attrs.
     try_bind (check_content_md5 H (q3_headers r) content) (\<lambda>_.
     try_bind (verify_checksums H (oa_meta attrs) content) (\<lambda>_.
     Inr (attrs, content)))))"

text \<open>The conditions of a write are looked up before it.\<close>

definition put_absent :: "s3_req \<Rightarrow> unit s3_call" where
  "put_absent r = (\<lambda>s.
     if (case q_header r ''if-none-match'' of Some m \<Rightarrow> trim m = ''*'' | None \<Rightarrow> False) \<and> \<not> isl (fst (find_version r None s))
     then (Inl (condition_failed ''If-None-Match''), s) else (Inr (), s))"

definition put_match :: "s3_req \<Rightarrow> unit s3_call" where
  "put_match r = (case q_header r ''if-match'' of
     None \<Rightarrow> act_return ()
   | Some m \<Rightarrow> act_bind (find_version r None) (\<lambda>cur.
       if \<not> etag_list_matches m (ob_etag (oi_row cur)) then act_result (Inl (condition_failed ''If-Match'')) else act_return ()))"

definition put_object_handler :: "s3_http \<Rightarrow> s3_others \<Rightarrow> s3_req \<Rightarrow> int \<Rightarrow> s3_handler" where
  "put_object_handler H others r now =
     act_bind (act_result (put_request H r)) (\<lambda>(attrs, content).
     act_bind (put_absent r) (\<lambda>_.
     act_bind (meanwhile others 0) (\<lambda>_.
     act_bind (put_match r) (\<lambda>_.
     act_bind (meanwhile others 1) (\<lambda>_.
     act_bind (on_tables (put_object (sh_env H) (q3_bucket r) (req_key r) content (attrs_type attrs) (oa_meta attrs) (attrs_tags attrs) now)) (\<lambda>wr.
     act_bind (meanwhile others 2) (\<lambda>_.
     act_bind (s3_emit H ''put_object'' [(''bucket'', JStr (q3_bucket r)), (''key'', JStr (req_key r)), (''size'', JInt (wr_size wr)),
                 (''version_id'', JStr (wr_version wr))] now) (\<lambda>_.
     act_bind (meanwhile others 3) (\<lambda>_.
     act_bind (fire_created H (inside 4 others) (q3_bucket r) (req_key r) ''ObjectCreated:Put'' wr (q3_id r) now) (\<lambda>_.
     answer (s3_with_headers (status_response 200) (write_headers wr @ mt_checksums (oa_meta attrs)))))))))))))"

subsection \<open>GetObject and HeadObject\<close>

definition RESPONSE_OVERRIDES :: "(string \<times> string) list" where
  "RESPONSE_OVERRIDES = [(''response-cache-control'', ''cache-control''), (''response-content-disposition'', ''content-disposition''),
     (''response-content-encoding'', ''content-encoding''), (''response-content-language'', ''content-language''),
     (''response-expires'', ''expires'')]"

definition object_headers :: "s3_http \<Rightarrow> object_info \<Rightarrow> versioning \<Rightarrow> s3_req \<Rightarrow> int \<Rightarrow> (string \<times> string) list" where
  "object_headers H info ver r now =
     (let row = oi_row info; meta = ob_meta row in
      [(''content-type'', case q_get r ''response-content-type'' of Some t \<Rightarrow> t | None \<Rightarrow> ob_type row), (''etag'', ob_etag row),
       (''last-modified'', s3_http_date H now (ob_created_at row)), (''accept-ranges'', ''bytes'')]
      @ version_header (ob_version row) ver
      @ filter (\<lambda>(k, _). \<not> list_ex (\<lambda>(q, hn). hn = k \<and> q_has r q) RESPONSE_OVERRIDES) (mt_headers meta)
      @ List.map_filter (\<lambda>(q, hn). map_option (Pair hn) (q_get r q)) RESPONSE_OVERRIDES
      @ map (\<lambda>(k, v). (''x-amz-meta-'' @ k, v)) (mt_user meta)
      @ sse_headers meta
      @ (if storage_class meta \<noteq> ''STANDARD'' then [(''x-amz-storage-class'', storage_class meta)] else [])
      @ (case mt_redirect meta of Some w \<Rightarrow> [(''x-amz-website-redirect-location'', w)] | None \<Rightarrow> [])
      @ (if ob_tags row \<noteq> [] then [(''x-amz-tagging-count'', show_nat (length (ob_tags row)))] else []))"

definition part_sizes :: "s3_object \<Rightarrow> int list" where
  "part_sizes row = (if mt_parts (ob_meta row) = [] then [ob_size row] else mt_parts (ob_meta row))"

definition invalid_part_number :: "nat \<Rightarrow> nat \<Rightarrow> s3_error" where
  "invalid_part_number pn count = err_with ''ActualPartCount'' (show_nat count) (err_with ''PartNumberRequested'' (show_nat pn)
     (s3_error_new ''InvalidPartNumber'' ''The requested partnumber is not satisfiable''))"

definition invalid_range :: "string \<Rightarrow> nat \<Rightarrow> s3_error" where
  "invalid_range rh sz = err_header ''content-range'' (''bytes */'' @ show_nat sz) (err_with ''ActualObjectSize'' (show_nat sz)
     (err_with ''RangeRequested'' rh (s3_error_new ''InvalidRange'' ''The requested range is not satisfiable'')))"

text \<open>The bytes a request asks for and the headers that come with them.\<close>

definition requested_range :: "s3_req \<Rightarrow> s3_object \<Rightarrow> (s3_error, (nat \<times> nat) option \<times> (string \<times> string) list) result" where
  "requested_range r row =
     (let sz = nat (ob_size row) in
      case q_get r ''partNumber'' of
        Some pn \<Rightarrow>
          (case Option.bind (parse_usize pn) (\<lambda>n. if 1 \<le> n then Some n else None) of
             None \<Rightarrow> Inl (s3_invalid_argument ''Part number must be an integer between 1 and 10000, inclusive'')
           | Some pn \<Rightarrow>
               let parts = part_sizes row in
               if length parts < pn then Inl (invalid_part_number pn (length parts))
               else
                 let start = sum_list (take (pn - 1) parts); len = parts ! (pn - 1) in
                 Inr (if 0 < len then Some (nat start, nat (start + len - 1)) else None,
                      [(''x-amz-mp-parts-count'', show_nat (length parts))]))
      | None \<Rightarrow> (case q_header r ''range'' of
            None \<Rightarrow> Inr (None, [])
          | Some rh \<Rightarrow> (case s3_parse_range rh sz of
                None \<Rightarrow> Inr (None, [])
              | Some None \<Rightarrow> Inl (invalid_range rh sz)
              | Some (Some rg) \<Rightarrow> Inr (Some rg, []))))"

definition checksum_mode :: "s3_req \<Rightarrow> bool" where
  "checksum_mode r = (case q_header r ''x-amz-checksum-mode'' of Some v \<Rightarrow> eq_ignore_ascii_case v ''ENABLED'' | None \<Rightarrow> False)"

definition content_headers :: "s3_req \<Rightarrow> s3_object \<Rightarrow> (nat \<times> nat) option \<Rightarrow> (string \<times> string) list" where
  "content_headers r row rng =
     (if checksum_mode r \<and> rng = None \<and> mt_parts (ob_meta row) = [] then mt_checksums (ob_meta row) else [])
     @ (case rng of
          Some (a, e) \<Rightarrow> [(''content-range'', ''bytes '' @ show_nat a @ ''-'' @ show_nat e @ ''/'' @ show_nat (nat (ob_size row)))]
        | None \<Rightarrow> [])"

definition octets :: "nat \<Rightarrow> string \<Rightarrow> http_response" where
  "octets status content =
     \<lparr> http_status = status, http_headers = [(''content-type'', ''application/octet-stream'')], http_body = content \<rparr>"

text \<open>The answer for a version that was found; \<open>None\<close> when it is gone before its content is read.\<close>

definition not_modified :: "s3_http \<Rightarrow> s3_object \<Rightarrow> int \<Rightarrow> http_response" where
  "not_modified H row now = s3_with_headers (status_response 304)
     [(''etag'', ob_etag row), (''last-modified'', s3_http_date H now (ob_created_at row))]"

definition get_found :: "s3_http \<Rightarrow> s3_req \<Rightarrow> bool \<Rightarrow> object_info \<Rightarrow> versioning \<Rightarrow> int \<Rightarrow> s3_db \<Rightarrow> (s3_error, http_response option) result" where
  "get_found H r head info ver now db =
     (let row = oi_row info in
      try_bind (check_conditionals H (q3_headers r) [] (ob_etag row) (ob_created_at row) now) (\<lambda>same.
      if same then Inr (Some (not_modified H row now))
      else try_bind (requested_range r row) (\<lambda>(rng, extra).
        let headers = object_headers H info ver r now @ extra @ content_headers r row rng;
            status = (if rng = None then 200 else 206)
        in if head then
             Inr (Some (set_header ''content-length''
               (show_nat (case rng of Some (a, e) \<Rightarrow> e - a + 1 | None \<Rightarrow> nat (ob_size row)))
               (s3_with_headers (status_response status) headers)))
           else Inr (map_option (\<lambda>content. s3_with_headers (octets status content) headers)
             (read_content info (map_option (\<lambda>(a, e). (a, e - a + 1)) rng) db)))))"

fun get_attempts :: "nat \<Rightarrow> s3_http \<Rightarrow> s3_others \<Rightarrow> s3_req \<Rightarrow> bool \<Rightarrow> int \<Rightarrow> s3_handler" where
  "get_attempts 0 H others r head now = act_result (Inl (s3_internal ''object changed while reading''))"
| "get_attempts (Suc n) H others r head now =
     act_bind (find_version r (q_get r ''versionId'')) (\<lambda>info.
     act_bind (meanwhile others (2 * n)) (\<lambda>_.
     act_bind (if oi_version info = ''null'' then read_tables (versioning_of (q3_bucket r)) else act_return VEnabled) (\<lambda>ver.
     act_bind (meanwhile others (2 * n + 1)) (\<lambda>_.
     act_bind (read_tables (get_found H r head info ver now)) (\<lambda>resp.
     case resp of Some x \<Rightarrow> answer x | None \<Rightarrow> get_attempts n H others r head now)))))"

definition get_object_handler :: "s3_http \<Rightarrow> s3_others \<Rightarrow> s3_req \<Rightarrow> bool \<Rightarrow> int \<Rightarrow> s3_handler" where
  "get_object_handler H others r head now = get_attempts 3 H others r head now"

subsection \<open>GetObjectAttributes\<close>

definition checksum_element :: "string \<Rightarrow> string option" where
  "checksum_element h = map_of
     [(''x-amz-checksum-crc32'', ''ChecksumCRC32''), (''x-amz-checksum-crc32c'', ''ChecksumCRC32C''),
      (''x-amz-checksum-crc64nvme'', ''ChecksumCRC64NVME''), (''x-amz-checksum-sha1'', ''ChecksumSHA1''),
      (''x-amz-checksum-sha256'', ''ChecksumSHA256'')] h"

definition checksums_xml :: "(string \<times> string) list \<Rightarrow> string" where
  "checksums_xml sums = concat (map (\<lambda>(k, v). case checksum_element k of Some n \<Rightarrow> xml_tag n v | None \<Rightarrow> []) sums)"

definition get_attributes_handler :: "s3_http \<Rightarrow> s3_others \<Rightarrow> s3_req \<Rightarrow> int \<Rightarrow> s3_handler" where
  "get_attributes_handler H others r now =
     act_bind (find_version r (q_get r ''versionId'')) (\<lambda>info.
     act_bind (meanwhile others 0) (\<lambda>_.
     act_bind (if oi_version info = ''null'' then read_tables (versioning_of (q3_bucket r)) else act_return VEnabled) (\<lambda>ver.
     let row = oi_row info; meta = ob_meta row; sums = checksums_xml (mt_checksums meta) in
     answer (s3_with_headers
       (s3_xml_ok (s3_xml_decl @ ns_tag ''GetObjectAttributesResponse'' @ ''>'' @ xml_tag ''ETag'' (trim_quotes (ob_etag row))
          @ (if sums \<noteq> [] \<and> mt_parts meta = [] then wrap ''Checksum'' sums else [])
          @ (if mt_parts meta \<noteq> [] then ''<ObjectParts>'' @ wrap ''PartsCount'' (show_nat (length (mt_parts meta))) @ ''</ObjectParts>'' else [])
          @ xml_tag ''StorageClass'' (storage_class meta) @ wrap ''ObjectSize'' (show_int (ob_size row))
          @ ''</GetObjectAttributesResponse>''))
       ((''last-modified'', s3_http_date H now (ob_created_at row)) # version_header (ob_version row) ver)))))"

subsection \<open>DeleteObject\<close>

definition after_delete :: "s3_http \<Rightarrow> s3_others \<Rightarrow> s3_req \<Rightarrow> string \<Rightarrow> string option \<Rightarrow> delete_outcome \<Rightarrow> int \<Rightarrow> unit s3_call" where
  "after_delete H others r key vid out now =
     act_bind (meanwhile others 0) (\<lambda>_.
     act_bind (s3_emit H ''delete_object'' [(''bucket'', JStr (q3_bucket r)), (''key'', JStr key),
        (''version_id'', case de_version out of Some v \<Rightarrow> JStr v | None \<Rightarrow> JNull), (''delete_marker'', JBool (de_marker out))] now) (\<lambda>_.
     act_bind (meanwhile others 1) (\<lambda>_.
     (\<lambda>s. (Inr (), notify_fire H (inside 2 others)
        \<lparr> en_bucket = q3_bucket r, en_key = key,
          en_name = (if vid = None \<and> de_marker out then ''ObjectRemoved:DeleteMarkerCreated'' else ''ObjectRemoved:Delete''),
          en_size = None, en_etag = None,
          en_version = (if is_configured (de_versioning out) then de_version out else None), en_seq = de_seq out,
          en_request_id = q3_id r \<rparr> now s)))))"

definition delete_object_handler :: "s3_http \<Rightarrow> s3_others \<Rightarrow> s3_req \<Rightarrow> int \<Rightarrow> s3_handler" where
  "delete_object_handler H others r now =
     (let vid = q_get r ''versionId'' in
      act_bind (on_tables (delete_object (sh_env H) (q3_bucket r) (req_key r) vid now)) (\<lambda>out.
      act_bind (after_delete H others r (req_key r) vid out now) (\<lambda>_.
      answer (s3_with_headers (status_response 204)
        ((if de_marker out then [(''x-amz-delete-marker'', ''true'')] else [])
         @ (case de_version out of Some v \<Rightarrow> [(''x-amz-version-id'', v)] | None \<Rightarrow> []))))))"

end
