(* ===== verification/S3_Uploads.thy ===== *)
theory S3_Uploads
  imports S3_Requests
begin

text \<open>
  S3, part 6: copying, object tags, multipart uploads and the dispatch of \<open>/:bucket/*key\<close> (object.rs
  and multipart.rs of src/src/aws/s3).
\<close>

section \<open>Copies and uploads\<close>

subsection \<open>CopyObject\<close>

definition header_or :: "s3_req \<Rightarrow> string \<Rightarrow> string \<Rightarrow> string" where
  "header_or r name d = (case q_header r name of Some v \<Rightarrow> v | None \<Rightarrow> d)"

definition bad_directive :: "string \<Rightarrow> s3_error" where
  "bad_directive d = err_with ''ArgumentValue'' d (err_with ''ArgumentName'' ''x-amz-metadata-directive''
     (s3_invalid_argument ''Unknown metadata directive.''))"

definition copy_to_self :: s3_error where
  "copy_to_self = s3_error_new ''InvalidRequest''
     (''This copy request is illegal because it is trying to copy an object to itself without changing the object''
      @ [CHR 0x27] @ ''s metadata, storage class, website redirect location or encryption attributes.'')"

text \<open>What the copy stores: type, metadata and tags.\<close>

definition copy_meta :: "string \<Rightarrow> object_attrs_row \<Rightarrow> s3_object \<Rightarrow> string \<times> obj_meta" where
  "copy_meta directive attrs src =
     (let (ctype, meta) = (if directive = ''REPLACE'' then (attrs_type attrs, oa_meta attrs)
            else (ob_type src, default_meta\<lparr> mt_user := mt_user (ob_meta src), mt_headers := mt_headers (ob_meta src),
                    mt_sse := mt_sse (oa_meta attrs), mt_storage_class := mt_storage_class (oa_meta attrs),
                    mt_redirect := mt_redirect (oa_meta attrs) \<rparr>))
      in (ctype, meta\<lparr> mt_checksums := (if mt_parts (ob_meta src) = [] then mt_checksums (ob_meta src) else []) \<rparr>))"

text \<open>The checks after the source was read.\<close>

definition copy_request ::
    "s3_http \<Rightarrow> s3_req \<Rightarrow> string \<Rightarrow> string \<Rightarrow> string option \<Rightarrow> s3_object \<Rightarrow> int
      \<Rightarrow> (s3_error, string \<times> obj_meta \<times> s3_tags) result" where
  "copy_request H r sb sk svid src now =
     try_bind (check_conditionals H (q3_headers r) ''x-amz-copy-source-'' (ob_etag src) (ob_created_at src) now) (\<lambda>_.
     try_bind (object_attrs H (header_pairs (q3_headers r))) (\<lambda>attrs.
     let directive = ascii_uppercase (header_or r ''x-amz-metadata-directive'' ''COPY'');
         tag_directive = ascii_uppercase (header_or r ''x-amz-tagging-directive'' ''COPY'');
         changes_encryption = list_ex (\<lambda>(k, _). k = ''x-amz-server-side-encryption'') (mt_sse (oa_meta attrs))
     in if directive \<noteq> ''COPY'' \<and> directive \<noteq> ''REPLACE'' then Inl (bad_directive directive)
        else if sb = q3_bucket r \<and> sk = req_key r \<and> svid = None \<and> directive = ''COPY'' \<and> \<not> changes_encryption
             \<and> mt_storage_class (oa_meta attrs) = None \<and> mt_redirect (oa_meta attrs) = None then Inl copy_to_self
        else
          let (ctype, meta) = copy_meta directive attrs src in
          Inr (ctype, meta, if tag_directive = ''REPLACE'' then attrs_tags attrs else ob_tags src)))"

definition copy_version_header :: "string option \<Rightarrow> object_info \<Rightarrow> (string \<times> string) list" where
  "copy_version_header svid info =
     (if svid \<noteq> None \<or> oi_version info \<noteq> ''null'' then [(''x-amz-copy-source-version-id'', oi_version info)] else [])"

definition no_etag_header :: "(string \<times> string) list \<Rightarrow> (string \<times> string) list" where
  "no_etag_header h = filter (\<lambda>(k, _). k \<noteq> ''etag'') h"

definition copy_object_handler :: "s3_http \<Rightarrow> s3_others \<Rightarrow> s3_req \<Rightarrow> int \<Rightarrow> s3_handler" where
  "copy_object_handler H others r now =
     act_bind (act_result (parse_copy_source H (header_or r ''x-amz-copy-source'' []))) (\<lambda>(sb, sk, svid).
     act_bind (read_tables (require_bucket (q3_bucket r))) (\<lambda>_.
     act_bind (meanwhile others 0) (\<lambda>_.
     act_bind (full_object (inside 1 others) sb sk svid) (\<lambda>(info, content).
     act_bind (act_result (copy_request H r sb sk svid (oi_row info) now)) (\<lambda>(ctype, meta, tags).
     act_bind (meanwhile others 2) (\<lambda>_.
     act_bind (on_tables (put_object (sh_env H) (q3_bucket r) (req_key r) content ctype meta tags now)) (\<lambda>wr.
     act_bind (meanwhile others 3) (\<lambda>_.
     act_bind (s3_emit H ''copy_object'' [(''bucket'', JStr (q3_bucket r)), (''key'', JStr (req_key r)),
                 (''source'', JStr (sb @ ''/'' @ sk))] now) (\<lambda>_.
     act_bind (meanwhile others 4) (\<lambda>_.
     act_bind (fire_created H (inside 5 others) (q3_bucket r) (req_key r) ''ObjectCreated:Copy'' wr (q3_id r) now) (\<lambda>_.
     answer (s3_with_headers
       (s3_xml_ok (s3_xml_decl @ ns_tag ''CopyObjectResult'' @ ''>'' @ wrap ''LastModified'' (s3_iso H now (wr_created_at wr))
          @ xml_tag ''ETag'' (wr_etag wr) @ checksums_xml (mt_checksums (wr_meta wr)) @ ''</CopyObjectResult>''))
       (no_etag_header (write_headers wr) @ copy_version_header svid info)))))))))))))"

subsection \<open>Object tags\<close>

definition tagging_version_header :: "object_info \<Rightarrow> (string \<times> string) list" where
  "tagging_version_header info = (if oi_version info \<noteq> ''null'' then [(''x-amz-version-id'', oi_version info)] else [])"

definition get_tagging :: "s3_req \<Rightarrow> s3_handler" where
  "get_tagging r = act_bind (find_version r (q_get r ''versionId'')) (\<lambda>info.
     answer (s3_with_headers (s3_xml_ok (tagging_xml (ob_tags (oi_row info)))) (tagging_version_header info)))"

definition change_tags :: "s3_http \<Rightarrow> s3_others \<Rightarrow> s3_req \<Rightarrow> s3_tags \<Rightarrow> string \<Rightarrow> nat \<Rightarrow> int \<Rightarrow> s3_handler" where
  "change_tags H others r tags act status now =
     act_bind (on_tables (set_object_tags (q3_bucket r) (req_key r) (q_get r ''versionId'') tags)) (\<lambda>info.
     act_bind (meanwhile others 0) (\<lambda>_.
     act_bind (s3_emit H act [(''bucket'', JStr (q3_bucket r)), (''key'', JStr (req_key r))] now) (\<lambda>_.
     answer (s3_with_headers (status_response status) (tagging_version_header info)))))"

definition put_tagging :: "s3_http \<Rightarrow> s3_others \<Rightarrow> s3_req \<Rightarrow> int \<Rightarrow> s3_handler" where
  "put_tagging H others r now =
     act_bind (act_result (try_bind (parse_tagging H (q3_body r)) (\<lambda>tags. try_bind (validate_tags tags 10) (\<lambda>_. Inr tags)))) (\<lambda>tags.
     change_tags H others r tags ''put_object_tagging'' 200 now)"

definition delete_tagging :: "s3_http \<Rightarrow> s3_others \<Rightarrow> s3_req \<Rightarrow> int \<Rightarrow> s3_handler" where
  "delete_tagging H others r now = change_tags H others r [] ''delete_object_tagging'' 204 now"

subsection \<open>Multipart uploads\<close>

definition req_upload_id :: "s3_req \<Rightarrow> (s3_error, string) result" where
  "req_upload_id r = (case q_get r ''uploadId'' of
     Some u \<Rightarrow> if u \<noteq> [] then Inr u else Inl (no_such_upload []) | None \<Rightarrow> Inl (no_such_upload []))"

definition req_part_number :: "s3_req \<Rightarrow> (s3_error, int) result" where
  "req_part_number r = (case Option.bind (q_get r ''partNumber'') parse_i64 of
     Some n \<Rightarrow> Inr n
   | None \<Rightarrow> Inl (err_with ''ArgumentName'' ''partNumber''
       (s3_invalid_argument ''Part number must be an integer between 1 and 10000, inclusive'')))"

definition create_upload_handler :: "s3_http \<Rightarrow> s3_others \<Rightarrow> s3_req \<Rightarrow> int \<Rightarrow> s3_handler" where
  "create_upload_handler H others r now =
     act_bind (act_result (object_attrs H (header_pairs (q3_headers r)))) (\<lambda>attrs.
     act_bind (on_tables (create_upload (sh_env H) (q3_bucket r) (req_key r) (attrs_type attrs)
                 ((oa_meta attrs)\<lparr> mt_checksums := [] \<rparr>) (attrs_tags attrs) now)) (\<lambda>up.
     act_bind (meanwhile others 0) (\<lambda>_.
     act_bind (s3_emit H ''create_multipart_upload'' [(''bucket'', JStr (q3_bucket r)), (''key'', JStr (req_key r)),
                 (''upload_id'', JStr (up_id up))] now) (\<lambda>_.
     answer (s3_with_headers
       (s3_xml_ok (s3_xml_decl @ ns_tag ''InitiateMultipartUploadResult'' @ ''>'' @ xml_tag ''Bucket'' (q3_bucket r)
          @ xml_tag ''Key'' (req_key r) @ xml_tag ''UploadId'' (up_id up) @ ''</InitiateMultipartUploadResult>''))
       (sse_headers (up_meta up)
        @ (case q_header r ''x-amz-checksum-algorithm'' of Some a \<Rightarrow> [(''x-amz-checksum-algorithm'', a)] | None \<Rightarrow> [])))))))"

definition bad_copy_range :: "string \<Rightarrow> nat \<Rightarrow> s3_error" where
  "bad_copy_range rg sz = err_with ''ArgumentValue'' rg (err_with ''ArgumentName'' ''x-amz-copy-source-range''
     (s3_invalid_argument (''Range specified is not valid for source object of size: '' @ show_nat sz)))"

definition copy_range :: "string option \<Rightarrow> string \<Rightarrow> (s3_error, string) result" where
  "copy_range rg content = (case rg of
     None \<Rightarrow> Inr content
   | Some rg \<Rightarrow>
       (case Option.bind (Option.bind (strip_prefix ''bytes='' (trim rg)) (split_once CHR ''-''))
          (\<lambda>(a, b). Option.bind (parse_usize (trim a)) (\<lambda>a. map_option (Pair a) (parse_usize (trim b)))) of
          None \<Rightarrow> Inl (bad_copy_range rg (length content))
        | Some (a, b) \<Rightarrow>
            if b < a \<or> length content \<le> b then Inl (bad_copy_range rg (length content))
            else Inr (take (b - a + 1) (drop a content))))"

definition upload_part_copy :: "s3_http \<Rightarrow> s3_others \<Rightarrow> s3_req \<Rightarrow> string \<Rightarrow> int \<Rightarrow> obj_meta \<Rightarrow> int \<Rightarrow> s3_handler" where
  "upload_part_copy H others r i n upm now =
     act_bind (act_result (parse_copy_source H (header_or r ''x-amz-copy-source'' []))) (\<lambda>(sb, sk, svid).
     act_bind (full_object (inside 0 others) sb sk svid) (\<lambda>(info, content).
     act_bind (act_result (try_bind (check_conditionals H (q3_headers r) ''x-amz-copy-source-''
                 (ob_etag (oi_row info)) (ob_created_at (oi_row info)) now) (\<lambda>_.
               copy_range (q_header r ''x-amz-copy-source-range'') content))) (\<lambda>part.
     act_bind (meanwhile others 1) (\<lambda>_.
     act_bind (on_tables (upload_part (sh_env H) (q3_bucket r) (req_key r) i n part default_meta now)) (\<lambda>etag.
     act_bind (meanwhile others 2) (\<lambda>_.
     act_bind (s3_emit H ''upload_part_copy'' [(''bucket'', JStr (q3_bucket r)), (''key'', JStr (req_key r)), (''upload_id'', JStr i),
                 (''part_number'', JInt n)] now) (\<lambda>_.
     answer (s3_with_headers
       (s3_xml_ok (s3_xml_decl @ ns_tag ''CopyPartResult'' @ ''>''
          @ wrap ''LastModified'' (s3_iso H now (iso_millis (s3_ex H) now)) @ xml_tag ''ETag'' etag @ ''</CopyPartResult>''))
       (sse_headers upm @ copy_version_header svid info)))))))))"

definition part_request :: "s3_http \<Rightarrow> s3_req \<Rightarrow> (s3_error, obj_meta \<times> string) result" where
  "part_request H r =
     try_bind (decode_body H r) (\<lambda>(content, trailers).
     try_bind (object_attrs H (header_pairs (q3_headers r) @ trailers)) (\<lambda>attrs.
     let meta = default_meta\<lparr> mt_checksums := mt_checksums (oa_meta attrs) \<rparr> in
     try_bind (check_content_md5 H (q3_headers r) content) (\<lambda>_.
     try_bind (verify_checksums H meta content) (\<lambda>_. Inr (meta, content)))))"

definition upload_part_handler :: "s3_http \<Rightarrow> s3_others \<Rightarrow> s3_req \<Rightarrow> int \<Rightarrow> s3_handler" where
  "upload_part_handler H others r now =
     act_bind (act_result (req_upload_id r)) (\<lambda>i.
     act_bind (act_result (req_part_number r)) (\<lambda>n.
     act_bind (read_tables (upload_row (q3_bucket r) (req_key r) i)) (\<lambda>up.
     act_bind (meanwhile others 0) (\<lambda>_.
     if q_header r ''x-amz-copy-source'' \<noteq> None then upload_part_copy H (inside 1 others) r i n (up_meta up) now
     else
       act_bind (act_result (part_request H r)) (\<lambda>(meta, content).
       act_bind (on_tables (upload_part (sh_env H) (q3_bucket r) (req_key r) i n content meta now)) (\<lambda>etag.
       act_bind (meanwhile others 2) (\<lambda>_.
       act_bind (s3_emit H ''upload_part'' [(''bucket'', JStr (q3_bucket r)), (''key'', JStr (req_key r)), (''upload_id'', JStr i),
                   (''part_number'', JInt n)] now) (\<lambda>_.
       answer (s3_with_headers (status_response 200) ((''etag'', etag) # sse_headers (up_meta up) @ mt_checksums meta))))))))))"

fun part_elements :: "xml_element list \<Rightarrow> (s3_error, (int \<times> string) list) result" where
  "part_elements [] = Inr []"
| "part_elements (p # ps) =
     (case Option.bind (child_text ''PartNumber'' p) parse_i64 of
        None \<Rightarrow> Inl malformed_xml
      | Some n \<Rightarrow> (case child_text ''ETag'' p of
            None \<Rightarrow> Inl malformed_xml
          | Some etag \<Rightarrow> try_bind (part_elements ps) (\<lambda>rest. Inr ((n, etag) # rest))))"

definition object_location :: "s3_http \<Rightarrow> string \<Rightarrow> string \<Rightarrow> string" where
  "object_location H b k = trim_end_char CHR ''/'' (sh_base_url H) @ ''/'' @ b @ ''/'' @ url_encode H k"

definition complete_upload_handler :: "s3_http \<Rightarrow> s3_others \<Rightarrow> s3_req \<Rightarrow> int \<Rightarrow> s3_handler" where
  "complete_upload_handler H others r now =
     act_bind (act_result (req_upload_id r)) (\<lambda>i.
     act_bind (act_result (try_bind (parse_root H ''CompleteMultipartUpload'' (q3_body r)) (\<lambda>d.
        part_elements (children_named ''Part'' d)))) (\<lambda>parts.
     act_bind (on_tables (complete_upload (sh_env H) (q3_bucket r) (req_key r) i parts now)) (\<lambda>wr.
     act_bind (meanwhile others 0) (\<lambda>_.
     act_bind (s3_emit H ''complete_multipart_upload'' [(''bucket'', JStr (q3_bucket r)), (''key'', JStr (req_key r)),
                 (''upload_id'', JStr i), (''size'', JInt (wr_size wr))] now) (\<lambda>_.
     act_bind (meanwhile others 1) (\<lambda>_.
     act_bind (fire_created H (inside 2 others) (q3_bucket r) (req_key r) ''ObjectCreated:CompleteMultipartUpload'' wr (q3_id r) now) (\<lambda>_.
     answer (s3_with_headers
       (s3_xml_ok (s3_xml_decl @ ns_tag ''CompleteMultipartUploadResult'' @ ''>''
          @ xml_tag ''Location'' (object_location H (q3_bucket r) (req_key r)) @ xml_tag ''Bucket'' (q3_bucket r)
          @ xml_tag ''Key'' (req_key r) @ xml_tag ''ETag'' (wr_etag wr) @ ''</CompleteMultipartUploadResult>''))
       (no_etag_header (write_headers wr))))))))))"

definition abort_upload_handler :: "s3_http \<Rightarrow> s3_others \<Rightarrow> s3_req \<Rightarrow> int \<Rightarrow> s3_handler" where
  "abort_upload_handler H others r now =
     act_bind (act_result (req_upload_id r)) (\<lambda>i.
     act_bind (on_tables (abort_upload (q3_bucket r) (req_key r) i)) (\<lambda>_.
     act_bind (meanwhile others 0) (\<lambda>_.
     act_bind (s3_emit H ''abort_multipart_upload'' [(''bucket'', JStr (q3_bucket r)), (''key'', JStr (req_key r)),
                 (''upload_id'', JStr i)] now) (\<lambda>_.
     answer (status_response 204)))))"

definition initiator_xml :: string where
  "initiator_xml = wrap ''Initiator'' ''<ID>cloudtwin</ID><DisplayName>cloudtwin</DisplayName>''"

definition owner_xml :: string where
  "owner_xml = wrap ''Owner'' ''<ID>cloudtwin</ID><DisplayName>cloudtwin</DisplayName>''"

definition part_xml :: "s3_http \<Rightarrow> int \<Rightarrow> s3_part \<Rightarrow> string" where
  "part_xml H now p = wrap ''Part''
     (wrap ''PartNumber'' (show_int (pa_number p)) @ xml_tag ''LastModified'' (s3_iso H now (pa_created_at p))
      @ xml_tag ''ETag'' (pa_etag p) @ wrap ''Size'' (show_int (pa_size p)) @ checksums_xml (mt_checksums (pa_meta p)))"

text \<open>The page of parts behind a marker and whether more follow.\<close>

definition part_page :: "int \<Rightarrow> nat \<Rightarrow> s3_part list \<Rightarrow> s3_part list \<times> bool" where
  "part_page marker limit parts =
     (let rest = filter (\<lambda>p. marker < pa_number p) parts in (take limit rest, limit < length rest))"

definition max_parts :: "s3_req \<Rightarrow> nat" where
  "max_parts r = min 1000 (case Option.bind (q_get r ''max-parts'') parse_usize of Some m \<Rightarrow> m | None \<Rightarrow> 1000)"

definition list_parts_handler :: "s3_http \<Rightarrow> s3_req \<Rightarrow> int \<Rightarrow> s3_handler" where
  "list_parts_handler H r now =
     act_bind (act_result (req_upload_id r)) (\<lambda>i.
     act_bind (read_tables (list_parts (q3_bucket r) (req_key r) i)) (\<lambda>(up, parts).
     let marker = (case Option.bind (q_get r ''part-number-marker'') parse_i64 of Some m \<Rightarrow> m | None \<Rightarrow> 0);
         limit = max_parts r;
         (page, truncated) = part_page marker limit parts
     in answer (s3_xml_ok (s3_xml_decl @ ns_tag ''ListPartsResult'' @ ''>'' @ xml_tag ''Bucket'' (q3_bucket r)
          @ xml_tag ''Key'' (req_key r) @ xml_tag ''UploadId'' (up_id up) @ initiator_xml @ owner_xml
          @ xml_tag ''StorageClass'' (storage_class (up_meta up)) @ wrap ''PartNumberMarker'' (show_int marker)
          @ (if page \<noteq> [] then wrap ''NextPartNumberMarker'' (show_int (pa_number (last page))) else [])
          @ wrap ''MaxParts'' (show_nat limit) @ wrap ''IsTruncated'' (show_bool truncated)
          @ concat (map (part_xml H now) page) @ ''</ListPartsResult>''))))"

subsection \<open>Dispatch\<close>

definition acl_xml :: string where
  "acl_xml = s3_xml_decl @ ns_tag ''AccessControlPolicy'' @ ''>'' @ owner_xml
     @ ''<AccessControlList><Grant><Grantee xmlns:xsi='' @ [CHR 0x22] @ ''http://www.w3.org/2001/XMLSchema-instance'' @ [CHR 0x22]
     @ '' xsi:type='' @ [CHR 0x22] @ ''CanonicalUser'' @ [CHR 0x22] @ ''><ID>cloudtwin</ID><DisplayName>cloudtwin</DisplayName></Grantee>''
     @ ''<Permission>FULL_CONTROL</Permission></Grant></AccessControlList></AccessControlPolicy>''"

definition not_implemented :: s3_error where
  "not_implemented = s3_error_new ''NotImplemented''
     ''A header or query you provided implies functionality that is not implemented.''"

definition object_dispatch :: "s3_http \<Rightarrow> s3_others \<Rightarrow> s3_req \<Rightarrow> int \<Rightarrow> s3_handler" where
  "object_dispatch H others r now =
     (let m = q3_method r in
      if m = ''GET'' then
        (if q_has r ''tagging'' then get_tagging r
         else if q_has r ''acl'' then act_bind (find_version r (q_get r ''versionId'')) (\<lambda>_. answer (s3_xml_ok acl_xml))
         else if q_has r ''uploadId'' then list_parts_handler H r now
         else if q_has r ''attributes'' then get_attributes_handler H others r now
         else get_object_handler H others r False now)
      else if m = ''HEAD'' then get_object_handler H others r True now
      else if m = ''PUT'' then
        (if q_has r ''tagging'' then put_tagging H others r now
         else if q_has r ''acl'' then act_bind (find_version r (q_get r ''versionId'')) (\<lambda>_. answer (status_response 200))
         else if q_has r ''uploadId'' \<or> q_has r ''partNumber'' then upload_part_handler H others r now
         else if q_header r ''x-amz-copy-source'' \<noteq> None then copy_object_handler H others r now
         else put_object_handler H others r now)
      else if m = ''DELETE'' then
        (if q_has r ''tagging'' then delete_tagging H others r now
         else if q_has r ''uploadId'' then abort_upload_handler H others r now
         else delete_object_handler H others r now)
      else if m = ''POST'' \<and> q_has r ''uploads'' then create_upload_handler H others r now
      else if m = ''POST'' \<and> q_has r ''uploadId'' then complete_upload_handler H others r now
      else act_result (Inl not_implemented))"

section \<open>Buckets\<close>

text \<open>
  The operations on \<open>/:bucket\<close> (bucket.rs of src/src/aws/s3): configuration documents,
  versioning, listings and the deletion of many objects.
\<close>

record config_row =
  ck_param :: string
  ck_root :: string   \<comment> \<open>empty for JSON\<close>
  ck_not_found :: string
  ck_message :: string

definition s3_configs_table :: "config_row list" where
  "s3_configs_table = map (\<lambda>(p, r, n, m). \<lparr> ck_param = p, ck_root = r, ck_not_found = n, ck_message = m \<rparr>)
     [(''tagging'', ''Tagging'', ''NoSuchTagSet'', ''The TagSet does not exist''),
      (''cors'', ''CORSConfiguration'', ''NoSuchCORSConfiguration'', ''The CORS configuration does not exist''),
      (''lifecycle'', ''LifecycleConfiguration'', ''NoSuchLifecycleConfiguration'', ''The lifecycle configuration does not exist''),
      (''encryption'', ''ServerSideEncryptionConfiguration'', ''ServerSideEncryptionConfigurationNotFoundError'',
       ''The server side encryption configuration was not found''),
      (''publicAccessBlock'', ''PublicAccessBlockConfiguration'', ''NoSuchPublicAccessBlockConfiguration'',
       ''The public access block configuration was not found''),
      (''ownershipControls'', ''OwnershipControls'', ''OwnershipControlsNotFoundError'', ''The bucket ownership controls were not found''),
      (''website'', ''WebsiteConfiguration'', ''NoSuchWebsiteConfiguration'',
       ''The specified bucket does not have a website configuration''),
      (''replication'', ''ReplicationConfiguration'', ''ReplicationConfigurationNotFoundError'',
       ''The replication configuration was not found''),
      (''object-lock'', ''ObjectLockConfiguration'', ''ObjectLockConfigurationNotFoundError'',
       ''Object Lock configuration does not exist for this bucket''),
      (''policy'', [], ''NoSuchBucketPolicy'', ''The bucket policy does not exist'')]"

definition bucket_method_not_allowed :: s3_error where
  "bucket_method_not_allowed = s3_error_new ''MethodNotAllowed'' ''The specified method is not allowed against this resource.''"

text \<open>\<open>get_config\<close> only to see whether the bucket exists.\<close>

definition config_of :: "s3_req \<Rightarrow> string \<Rightarrow> string option s3_call" where
  "config_of r kind = read_tables (get_config (q3_bucket r) kind)"

subsection \<open>Creating a bucket\<close>

definition ascii_space :: "char \<Rightarrow> bool" where
  "ascii_space c \<longleftrightarrow> c \<in> set [CHR '' '', CHR 0x09, CHR 0x0A, CHR 0x0C, CHR 0x0D]"

definition location_of :: "s3_http \<Rightarrow> string \<Rightarrow> (s3_error, string option) result" where
  "location_of H body =
     (if list_all ascii_space body then Inr None
      else try_bind (parse_doc H body) (\<lambda>d. Inr (nonempty (child_text ''LocationConstraint'' d))))"

text \<open>\<open>(status, [(name, value)], \<dots>)\<close>; a value that is no header value makes it an error.\<close>

definition s3_located :: "string \<Rightarrow> http_response" where
  "s3_located v =
     (if header_bytes v then set_header ''location'' v (status_response 200)
      else \<lparr> http_status = 500, http_headers = [(''content-type'', ''text/plain; charset=utf-8'')],
             http_body = ''failed to parse header value'' \<rparr>)"

definition create_bucket_handler :: "s3_http \<Rightarrow> s3_others \<Rightarrow> s3_req \<Rightarrow> int \<Rightarrow> s3_handler" where
  "create_bucket_handler H others r now =
     act_bind (act_result (location_of H (q3_body r))) (\<lambda>location.
     act_bind (on_tables (create_bucket (sh_env H) (q3_bucket r) now)) (\<lambda>created.
     act_bind (if created then
         act_bind (meanwhile others 0) (\<lambda>_.
         act_bind (case location of Some l \<Rightarrow> on_tables (put_config (q3_bucket r) ''location'' l) | None \<Rightarrow> act_return ()) (\<lambda>_.
         act_bind (meanwhile others 1) (\<lambda>_.
         s3_emit H ''create_bucket'' [(''bucket'', JStr (q3_bucket r))] now)))
       else act_return ()) (\<lambda>_.
     answer (s3_located (CHR ''/'' # q3_bucket r)))))"

subsection \<open>Configuration documents\<close>

definition sse_rule_ok :: "xml_element \<Rightarrow> bool" where
  "sse_rule_ok d = (case el_child ''Rule'' d of
     None \<Rightarrow> False
   | Some r \<Rightarrow> (case el_child ''ApplyServerSideEncryptionByDefault'' r of
         None \<Rightarrow> True
       | Some e \<Rightarrow> (case child_text ''SSEAlgorithm'' e of Some a \<Rightarrow> a | None \<Rightarrow> []) \<in> set [''AES256'', ''aws:kms'', ''aws:kms:dsse'']))"

definition lifecycle_ok :: "xml_element \<Rightarrow> bool" where
  "lifecycle_ok d \<longleftrightarrow> children_named ''Rule'' d \<noteq> []
     \<and> list_all (\<lambda>r. child_text ''Status'' r = Some ''Enabled'' \<or> child_text ''Status'' r = Some ''Disabled'') (children_named ''Rule'' d)"

definition validate_config :: "s3_http \<Rightarrow> config_row \<Rightarrow> string \<Rightarrow> (s3_error, unit) result" where
  "validate_config H c body =
     (if ck_root c = [] then
        (if json_parse (s3_ex H) body = None
         then Inl (s3_error_new ''MalformedPolicy'' (''Policies must be valid JSON and the first byte must be '' @ [CHR 0x27] @ ''{'' @ [CHR 0x27]))
         else Inr ())
      else try_bind (parse_root H (ck_root c) body) (\<lambda>d.
        if ck_param c = ''cors'' then try_bind (parse_rules H body) (\<lambda>_. Inr ())
        else if ck_param c = ''tagging'' then try_bind (parse_tagging H body) (\<lambda>_. Inr ())
        else if ck_param c = ''encryption'' then (if sse_rule_ok d then Inr () else Inl malformed_xml)
        else if ck_param c = ''lifecycle'' then (if lifecycle_ok d then Inr () else Inl malformed_xml)
        else Inr ()))"

definition json_answer :: "string \<Rightarrow> http_response" where
  "json_answer body = \<lparr> http_status = 200, http_headers = [(''content-type'', ''application/json'')], http_body = body \<rparr>"

definition config_op :: "s3_http \<Rightarrow> s3_others \<Rightarrow> s3_req \<Rightarrow> config_row \<Rightarrow> int \<Rightarrow> s3_handler" where
  "config_op H others r c now =
     (let event = [(''bucket'', JStr (q3_bucket r)), (''kind'', JStr (ck_param c))] in
      if q3_method r = ''GET'' then
        act_bind (config_of r (ck_param c)) (\<lambda>body. case body of
          None \<Rightarrow> act_result (Inl (err_with ''BucketName'' (q3_bucket r) (s3_error_new (ck_not_found c) (ck_message c))))
        | Some b \<Rightarrow> answer (if ck_root c = [] then json_answer b else s3_xml_ok b))
      else if q3_method r = ''PUT'' then
        act_bind (config_of r (ck_param c)) (\<lambda>_.
        act_bind (act_result (validate_config H c (q3_body r))) (\<lambda>_.
        act_bind (meanwhile others 0) (\<lambda>_.
        act_bind (on_tables (put_config (q3_bucket r) (ck_param c) (from_utf8_lossy (q3_body r)))) (\<lambda>_.
        act_bind (meanwhile others 1) (\<lambda>_.
        act_bind (s3_emit H ''put_bucket_config'' event now) (\<lambda>_.
        answer (status_response (if ck_param c = ''policy'' \<or> ck_param c = ''tagging'' then 204 else 200))))))))
      else if q3_method r = ''DELETE'' then
        act_bind (on_tables (delete_config (q3_bucket r) (ck_param c))) (\<lambda>_.
        act_bind (meanwhile others 0) (\<lambda>_.
        act_bind (s3_emit H ''delete_bucket_config'' event now) (\<lambda>_.
        answer (status_response 204))))
      else act_result (Inl bucket_method_not_allowed))"

definition ns_empty :: "string \<Rightarrow> string" where
  "ns_empty name = s3_xml_decl @ ns_tag name @ ''/>''"

definition ns_doc :: "string \<Rightarrow> string \<Rightarrow> string" where
  "ns_doc name inner = s3_xml_decl @ ns_tag name @ ''>'' @ inner @ ''</'' @ name @ ''>''"

definition get_versioning :: "s3_req \<Rightarrow> s3_handler" where
  "get_versioning r = act_bind (config_of r ''versioning'') (\<lambda>status. answer (s3_xml_ok (case status of
     Some s \<Rightarrow> ns_doc ''VersioningConfiguration'' (xml_tag ''Status'' s) | None \<Rightarrow> ns_empty ''VersioningConfiguration'')))"

definition versioning_status :: "s3_http \<Rightarrow> string \<Rightarrow> (s3_error, string) result" where
  "versioning_status H body = try_bind (parse_root H ''VersioningConfiguration'' body) (\<lambda>d.
     let status = (case child_text ''Status'' d of Some s \<Rightarrow> s | None \<Rightarrow> []) in
     if status \<noteq> ''Enabled'' \<and> status \<noteq> ''Suspended'' then Inl malformed_xml else Inr status)"

definition put_versioning :: "s3_http \<Rightarrow> s3_others \<Rightarrow> s3_req \<Rightarrow> int \<Rightarrow> s3_handler" where
  "put_versioning H others r now =
     act_bind (act_result (versioning_status H (q3_body r))) (\<lambda>status.
     act_bind (on_tables (put_config (q3_bucket r) ''versioning'' status)) (\<lambda>_.
     act_bind (meanwhile others 0) (\<lambda>_.
     act_bind (s3_emit H ''put_bucket_versioning'' [(''bucket'', JStr (q3_bucket r)), (''status'', JStr status)] now) (\<lambda>_.
     answer (status_response 200)))))"

subsection \<open>Listings\<close>

definition bad_max_keys :: "string \<Rightarrow> string \<Rightarrow> s3_error" where
  "bad_max_keys name v = err_with ''ArgumentValue'' v (err_with ''ArgumentName'' name
     (s3_invalid_argument ''Provided max-keys not an integer or within integer range''))"

definition max_keys :: "s3_req \<Rightarrow> string \<Rightarrow> (s3_error, nat) result" where
  "max_keys r name = (case q_get r name of
     None \<Rightarrow> Inr 1000
   | Some v \<Rightarrow> (case parse_i64 v of
         Some n \<Rightarrow> if 0 \<le> n then Inr (nat (min n 1000)) else Inl (bad_max_keys name v)
       | None \<Rightarrow> Inl (bad_max_keys name v)))"

definition url_encoding :: "s3_req \<Rightarrow> (s3_error, bool) result" where
  "url_encoding r = (case q_get r ''encoding-type'' of
     None \<Rightarrow> Inr False
   | Some v \<Rightarrow> if eq_ignore_ascii_case v ''url'' then Inr True
       else Inl (err_with ''ArgumentValue'' v (err_with ''ArgumentName'' ''encoding-type''
              (s3_invalid_argument ''Invalid Encoding Method specified in Request''))))"

definition q_or :: "s3_req \<Rightarrow> string \<Rightarrow> string" where
  "q_or r name = (case q_get r name of Some v \<Rightarrow> v | None \<Rightarrow> [])"

definition encode_if :: "s3_http \<Rightarrow> bool \<Rightarrow> string \<Rightarrow> string" where
  "encode_if H enc s = (if enc then url_encode H s else s)"

definition delimiter_of :: "s3_req \<Rightarrow> string option" where
  "delimiter_of r = nonempty (q_get r ''delimiter'')"

text \<open>Where a listing starts: the continuation token, the key to start after, or the marker.\<close>

definition list_v2 :: "s3_req \<Rightarrow> bool" where
  "list_v2 r \<longleftrightarrow> q_get r ''list-type'' = Some ''2''"

definition list_after :: "s3_http \<Rightarrow> s3_req \<Rightarrow> (s3_error, string option) result" where
  "list_after H r =
     (if list_v2 r then
        (case q_get r ''continuation-token'' of
           Some t \<Rightarrow> (case b64url_decode (s3_ex H) t of
               Some b \<Rightarrow> if utf8_valid b then Inr (Some b)
                 else Inl (err_with ''ArgumentName'' ''continuation-token'' (s3_invalid_argument ''The continuation token provided is incorrect''))
             | None \<Rightarrow> Inl (err_with ''ArgumentName'' ''continuation-token'' (s3_invalid_argument ''The continuation token provided is incorrect'')))
         | None \<Rightarrow> Inr (nonempty (q_get r ''start-after'')))
      else Inr (nonempty (q_get r ''marker'')))"

definition list_query :: "s3_http \<Rightarrow> s3_req \<Rightarrow> (s3_error, bool \<times> list_params) result" where
  "list_query H r =
     try_bind (url_encoding r) (\<lambda>enc.
     try_bind (max_keys r ''max-keys'') (\<lambda>limit.
     try_bind (list_after H r) (\<lambda>after.
     Inr (enc, \<lparr> lp_prefix = q_or r ''prefix'', lp_delimiter = delimiter_of r, lp_after = after, lp_max = limit \<rparr>))))"

definition opt_tag :: "string \<Rightarrow> string option \<Rightarrow> string" where
  "opt_tag name v = (case v of Some s \<Rightarrow> xml_tag name s | None \<Rightarrow> [])"

definition prefix_xml :: "s3_http \<Rightarrow> bool \<Rightarrow> string \<Rightarrow> string" where
  "prefix_xml H enc cp = wrap ''CommonPrefixes'' (xml_tag ''Prefix'' (encode_if H enc cp))"

definition content_xml :: "s3_http \<Rightarrow> int \<Rightarrow> bool \<Rightarrow> bool \<Rightarrow> list_entry \<Rightarrow> string" where
  "content_xml H now enc with_owner e = wrap ''Contents''
     (xml_tag ''Key'' (encode_if H enc (le_key e)) @ xml_tag ''LastModified'' (s3_iso H now (le_created_at e)) @ xml_tag ''ETag'' (le_etag e)
      @ wrap ''Size'' (show_int (le_size e)) @ (if with_owner then owner_xml else []) @ xml_tag ''StorageClass'' (le_class e))"

definition list_objects_xml :: "s3_http \<Rightarrow> s3_req \<Rightarrow> bool \<Rightarrow> list_params \<Rightarrow> list_page \<Rightarrow> int \<Rightarrow> string" where
  "list_objects_xml H r enc p page now =
     (let e = encode_if H enc; v2 = list_v2 r in
      ns_doc ''ListBucketResult''
        (xml_tag ''Name'' (q3_bucket r) @ xml_tag ''Prefix'' (e (lp_prefix p))
         @ (if v2 then opt_tag ''ContinuationToken'' (q_get r ''continuation-token'')
                @ opt_tag ''StartAfter'' (map_option e (q_get r ''start-after''))
                @ wrap ''KeyCount'' (show_nat (length (pg_contents page) + length (pg_prefixes page)))
            else xml_tag ''Marker'' (e (q_or r ''marker'')))
         @ wrap ''MaxKeys'' (show_nat (lp_max p)) @ opt_tag ''Delimiter'' (map_option e (lp_delimiter p))
         @ (if enc then wrap ''EncodingType'' ''url'' else []) @ wrap ''IsTruncated'' (show_bool (pg_truncated page))
         @ (if pg_truncated page then (case pg_last page of
                Some l \<Rightarrow> if v2 then xml_tag ''NextContinuationToken'' (b64url_encode (s3_ex H) l)
                          else if lp_delimiter p \<noteq> None then xml_tag ''NextMarker'' (e l) else []
              | None \<Rightarrow> []) else [])
         @ concat (map (content_xml H now enc (\<not> v2 \<or> q_get r ''fetch-owner'' = Some ''true'')) (pg_contents page))
         @ concat (map (prefix_xml H enc) (pg_prefixes page))))"

definition list_objects_handler :: "s3_http \<Rightarrow> s3_req \<Rightarrow> int \<Rightarrow> s3_handler" where
  "list_objects_handler H r now =
     act_bind (act_result (list_query H r)) (\<lambda>(enc, p).
     act_bind (read_tables (list_objects (q3_bucket r) p)) (\<lambda>page.
     answer (s3_xml_ok (list_objects_xml H r enc p page now))))"

definition version_xml :: "s3_http \<Rightarrow> int \<Rightarrow> bool \<Rightarrow> version_entry \<Rightarrow> string" where
  "version_xml H now enc v = wrap (if ve_marker v then ''DeleteMarker'' else ''Version'')
     (xml_tag ''Key'' (encode_if H enc (ve_key v)) @ xml_tag ''VersionId'' (ve_version v) @ wrap ''IsLatest'' (show_bool (ve_latest v))
      @ xml_tag ''LastModified'' (s3_iso H now (ve_created_at v))
      @ (if ve_marker v then [] else xml_tag ''ETag'' (ve_etag v) @ wrap ''Size'' (show_int (ve_size v)) @ xml_tag ''StorageClass'' (ve_class v))
      @ owner_xml)"

definition list_versions_handler :: "s3_http \<Rightarrow> s3_req \<Rightarrow> int \<Rightarrow> s3_handler" where
  "list_versions_handler H r now =
     act_bind (act_result (try_bind (url_encoding r) (\<lambda>enc. try_bind (max_keys r ''max-keys'') (\<lambda>limit. Inr (enc, limit))))) (\<lambda>(enc, limit).
     let e = encode_if H enc; prefix = q_or r ''prefix''; km = q_or r ''key-marker''; vm = q_or r ''version-id-marker'' in
     act_bind (read_tables (list_versions (q3_bucket r)
       \<lparr> lp_prefix = prefix, lp_delimiter = delimiter_of r, lp_after = Some km, lp_max = limit \<rparr> (Some vm))) (\<lambda>page.
     answer (s3_xml_ok (ns_doc ''ListVersionsResult''
       (xml_tag ''Name'' (q3_bucket r) @ xml_tag ''Prefix'' (e prefix) @ xml_tag ''KeyMarker'' (e km) @ xml_tag ''VersionIdMarker'' vm
        @ opt_tag ''NextKeyMarker'' (map_option e (vp_next_key page)) @ opt_tag ''NextVersionIdMarker'' (vp_next_version page)
        @ wrap ''MaxKeys'' (show_nat limit) @ opt_tag ''Delimiter'' (map_option e (delimiter_of r))
        @ (if enc then wrap ''EncodingType'' ''url'' else []) @ wrap ''IsTruncated'' (show_bool (vp_truncated page))
        @ concat (map (version_xml H now enc) (vp_entries page)) @ concat (map (prefix_xml H enc) (vp_prefixes page)))))))"

definition upload_xml :: "s3_http \<Rightarrow> int \<Rightarrow> bool \<Rightarrow> s3_upload \<Rightarrow> string" where
  "upload_xml H now enc u = wrap ''Upload''
     (xml_tag ''Key'' (encode_if H enc (up_key u)) @ xml_tag ''UploadId'' (up_id u) @ initiator_xml @ owner_xml
      @ xml_tag ''StorageClass'' (storage_class (up_meta u)) @ xml_tag ''Initiated'' (s3_iso H now (up_created_at u)))"

text \<open>The uploads behind the markers, up to the limit, and whether more follow.\<close>

definition upload_after :: "string \<Rightarrow> string \<Rightarrow> s3_upload \<Rightarrow> bool" where
  "upload_after km im u \<longleftrightarrow> km = [] \<or> km < up_key u \<or> im \<noteq> [] \<and> up_key u = km \<and> im < up_id u"

definition upload_page :: "string \<Rightarrow> string \<Rightarrow> nat \<Rightarrow> s3_upload list \<Rightarrow> s3_upload list \<times> bool" where
  "upload_page km im limit ups = (let rest = filter (upload_after km im) ups in (take limit rest, limit < length rest))"

definition list_uploads_handler :: "s3_http \<Rightarrow> s3_req \<Rightarrow> int \<Rightarrow> s3_handler" where
  "list_uploads_handler H r now =
     act_bind (act_result (try_bind (url_encoding r) (\<lambda>enc. try_bind (max_keys r ''max-uploads'') (\<lambda>limit. Inr (enc, limit))))) (\<lambda>(enc, limit).
     let e = encode_if H enc; prefix = q_or r ''prefix''; km = q_or r ''key-marker''; im = q_or r ''upload-id-marker'' in
     act_bind (read_tables (list_uploads (q3_bucket r) prefix)) (\<lambda>ups.
     let (page, truncated) = upload_page km im limit ups in
     answer (s3_xml_ok (ns_doc ''ListMultipartUploadsResult''
       (xml_tag ''Bucket'' (q3_bucket r) @ xml_tag ''KeyMarker'' (e km) @ xml_tag ''UploadIdMarker'' im
        @ (if truncated \<and> page \<noteq> [] then xml_tag ''NextKeyMarker'' (e (up_key (last page))) @ xml_tag ''NextUploadIdMarker'' (up_id (last page))
           else [])
        @ xml_tag ''Prefix'' (e prefix) @ wrap ''MaxUploads'' (show_nat limit) @ wrap ''IsTruncated'' (show_bool truncated)
        @ (if enc then wrap ''EncodingType'' ''url'' else []) @ concat (map (upload_xml H now enc) page))))))"

subsection \<open>DeleteObjects\<close>

definition delete_entries :: "s3_http \<Rightarrow> string \<Rightarrow> (s3_error, bool \<times> (string \<times> string option) list) result" where
  "delete_entries H body = try_bind (parse_root H ''Delete'' body) (\<lambda>d.
     let quiet = (case child_text ''Quiet'' d of Some q \<Rightarrow> eq_ignore_ascii_case q ''true'' | None \<Rightarrow> False);
         objects = map (\<lambda>e. (case el_child ''Key'' e of Some k \<Rightarrow> el_text k | None \<Rightarrow> [], nonempty (child_text ''VersionId'' e)))
           (children_named ''Object'' d)
     in if objects = [] \<or> 1000 < length objects then Inl malformed_xml else Inr (quiet, objects))"

definition deleted_xml :: "string \<Rightarrow> string option \<Rightarrow> delete_outcome \<Rightarrow> string" where
  "deleted_xml key vid out = wrap ''Deleted''
     (xml_tag ''Key'' key @ opt_tag ''VersionId'' vid
      @ (if de_marker out then wrap ''DeleteMarker'' ''true'' @ opt_tag ''DeleteMarkerVersionId'' (de_version out) else []))"

definition delete_error_xml :: "string \<Rightarrow> string option \<Rightarrow> s3_error \<Rightarrow> string" where
  "delete_error_xml key vid e = wrap ''Error''
     (xml_tag ''Key'' key @ opt_tag ''VersionId'' vid @ xml_tag ''Code'' (e3_code e) @ xml_tag ''Message'' (e3_message e))"

text \<open>An object that cannot be deleted is reported and the loop goes on.\<close>

fun delete_each ::
    "s3_http \<Rightarrow> s3_others \<Rightarrow> s3_req \<Rightarrow> bool \<Rightarrow> int \<Rightarrow> (string \<times> string option) list \<Rightarrow> nat \<Rightarrow> s3_state \<Rightarrow> string \<times> s3_state" where
  "delete_each H others r quiet now [] i s = ([], s)"
| "delete_each H others r quiet now ((key, vid) # objects) i s0 =
     (let s = between others [i] s0;
          (x, s') = (case on_tables (delete_object (sh_env H) (q3_bucket r) key vid now) s of
              (Inr out, s1) \<Rightarrow> (if quiet then [] else deleted_xml key vid out, snd (after_delete H (inside i others) r key vid out now s1))
            | (Inl e, s1) \<Rightarrow> (delete_error_xml key vid e, s1));
          (xs, s'') = delete_each H others r quiet now objects (Suc i) s'
      in (x @ xs, s''))"

definition delete_objects_handler :: "s3_http \<Rightarrow> s3_others \<Rightarrow> s3_req \<Rightarrow> int \<Rightarrow> s3_handler" where
  "delete_objects_handler H others r now =
     act_bind (act_result (delete_entries H (q3_body r))) (\<lambda>(quiet, objects).
     act_bind (read_tables (require_bucket (q3_bucket r))) (\<lambda>_.
     (\<lambda>s. case delete_each H others r quiet now objects 0 s of
        (x, s') \<Rightarrow> (Inr (s3_xml_ok (ns_doc ''DeleteResult'' x)), s'))))"

subsection \<open>Dispatch\<close>

text \<open>A document that is always the same, for a bucket that exists.\<close>

definition fixed_doc :: "s3_req \<Rightarrow> string \<Rightarrow> string \<Rightarrow> s3_handler" where
  "fixed_doc r kind body = act_bind (config_of r kind) (\<lambda>_. answer (s3_xml_ok body))"

definition location_doc :: "string option \<Rightarrow> string" where
  "location_doc loc = (case loc of
     Some l \<Rightarrow> if l \<noteq> [] \<and> l \<noteq> ''us-east-1'' then ns_doc ''LocationConstraint'' (xml_escape l) else ns_empty ''LocationConstraint''
   | None \<Rightarrow> ns_empty ''LocationConstraint'')"

definition bucket_get :: "s3_http \<Rightarrow> s3_req \<Rightarrow> int \<Rightarrow> s3_handler" where
  "bucket_get H r now =
     (if q_has r ''versioning'' then get_versioning r
      else if q_has r ''notification'' then act_bind (config_of r ''notification'') (\<lambda>cfg.
        answer (s3_xml_ok (case cfg of Some b \<Rightarrow> b | None \<Rightarrow> notify_empty_xml)))
      else if q_has r ''acl'' then fixed_doc r ''acl'' acl_xml
      else if q_has r ''location'' then act_bind (config_of r ''location'') (\<lambda>loc. answer (s3_xml_ok (location_doc loc)))
      else if q_has r ''versions'' then list_versions_handler H r now
      else if q_has r ''uploads'' then list_uploads_handler H r now
      else if q_has r ''logging'' then fixed_doc r ''logging'' (ns_empty ''BucketLoggingStatus'')
      else if q_has r ''requestPayment'' then
        fixed_doc r ''requestPayment'' (ns_doc ''RequestPaymentConfiguration'' (wrap ''Payer'' ''BucketOwner''))
      else if q_has r ''accelerate'' then fixed_doc r ''accelerate'' (ns_empty ''AccelerateConfiguration'')
      else if q_has r ''policyStatus'' then fixed_doc r ''policyStatus'' (ns_doc ''PolicyStatus'' (wrap ''IsPublic'' ''false''))
      else list_objects_handler H r now)"

definition bucket_put :: "s3_http \<Rightarrow> s3_others \<Rightarrow> s3_req \<Rightarrow> int \<Rightarrow> s3_handler" where
  "bucket_put H others r now =
     (if q_has r ''versioning'' then put_versioning H others r now
      else if q_has r ''notification'' then
        act_bind (notify_put H (inside 0 others) (q3_bucket r) (q3_body r) (q3_id r)
                    (q_header r ''x-amz-skip-destination-validation'' = Some ''true'') now) (\<lambda>_.
        act_bind (meanwhile others 1) (\<lambda>_.
        act_bind (s3_emit H ''put_bucket_notification'' [(''bucket'', JStr (q3_bucket r))] now) (\<lambda>_.
        answer (status_response 200))))
      else if q_has r ''acl'' then act_bind (config_of r ''acl'') (\<lambda>_. answer (status_response 200))
      else if q_has r ''logging'' \<or> q_has r ''requestPayment'' \<or> q_has r ''accelerate'' then
        act_bind (config_of r ''logging'') (\<lambda>_. answer (status_response 200))
      else create_bucket_handler H others r now)"

definition bucket_dispatch :: "s3_http \<Rightarrow> s3_others \<Rightarrow> s3_req \<Rightarrow> int \<Rightarrow> s3_handler" where
  "bucket_dispatch H others r now =
     (case find (\<lambda>c. q_has r (ck_param c)) s3_configs_table of
        Some c \<Rightarrow> config_op H others r c now
      | None \<Rightarrow>
          let m = q3_method r in
          if m = ''GET'' then bucket_get H r now
          else if m = ''PUT'' then bucket_put H others r now
          else if m = ''POST'' \<and> q_has r ''delete'' then delete_objects_handler H others r now
          else if m = ''DELETE'' then
            act_bind (on_tables (delete_bucket (q3_bucket r))) (\<lambda>_.
            act_bind (meanwhile others 0) (\<lambda>_.
            act_bind (s3_emit H ''delete_bucket'' [(''bucket'', JStr (q3_bucket r))] now) (\<lambda>_.
            answer (status_response 204))))
          else if m = ''HEAD'' then act_bind (read_tables (require_bucket (q3_bucket r))) (\<lambda>_.
            answer (s3_with_headers (status_response 200) [(''x-amz-bucket-region'', REGION), (''x-amz-access-point-alias'', ''false'')]))
          else act_result (Inl bucket_method_not_allowed))"

end
