(* ===== verification/S3_History.thy ===== *)
theory S3_History
  imports S3_Multipart
begin

text \<open>
  S3, part 4: versions as histories.  The two tables of a key are the history of its versions,
  newest first.  \<open>hist\<close> is the abstraction; every operation on a key is an operation on its history
  that says nothing of which table a version is in.
\<close>

subsection \<open>The rows of a key\<close>

abbreviation cur_rows :: "string \<Rightarrow> string \<Rightarrow> s3_db \<Rightarrow> s3_object list" where
  "cur_rows b k db \<equiv> filter (is_object b k) (s3_objects db)"

abbreviation old_rows :: "string \<Rightarrow> string \<Rightarrow> s3_db \<Rightarrow> s3_object list" where
  "old_rows b k db \<equiv> filter (is_object b k) (s3_versions db)"

abbreviation newest_first :: "s3_object list \<Rightarrow> s3_object list" where
  "newest_first \<equiv> sort_key (\<lambda>r. - ob_seq r)"

definition hist :: "s3_db \<Rightarrow> string \<Rightarrow> string \<Rightarrow> s3_object list" where
  "hist db b k = cur_rows b k db @ newest_first (old_rows b k db)"

definition known_id :: "s3_env \<Rightarrow> nat \<Rightarrow> string \<Rightarrow> bool" where
  "known_id X d v \<longleftrightarrow> v = ''null'' \<or> (\<exists>n<d. v = version_ids X n)"

text \<open>The state of versioning a bucket's document says.\<close>

definition bucket_state :: "string \<Rightarrow> s3_db \<Rightarrow> versioning" where
  "bucket_state b db = versioning_parse (case config_get b ''versioning'' db of Some s \<Rightarrow> s | None \<Rightarrow> [])"

definition shows_newest :: "s3_object list \<Rightarrow> s3_object list \<Rightarrow> bool" where
  "shows_newest C A \<longleftrightarrow> (case C of
     [] \<Rightarrow> (case newest_first A of [] \<Rightarrow> True | r # _ \<Rightarrow> ob_marker r)
   | c # _ \<Rightarrow> \<not> ob_marker c)"

definition s3_key_ok :: "s3_env \<Rightarrow> s3_db \<Rightarrow> string \<Rightarrow> string \<Rightarrow> bool" where
  "s3_key_ok X db b k \<longleftrightarrow> length (cur_rows b k db) \<le> 1
     \<and> sorted_wrt (\<lambda>r s. ob_seq s < ob_seq r) (hist db b k) \<and> distinct (map ob_version (hist db b k))
     \<and> (\<forall>r\<in>set (hist db b k). ob_seq r \<le> s3_seq db \<and> known_id X (s3_draws db) (ob_version r))
     \<and> shows_newest (cur_rows b k db) (old_rows b k db)
     \<and> (hist db b k \<noteq> [] \<longrightarrow> bucket_exists b db)
     \<and> (bucket_state b db = Unversioned \<longrightarrow> old_rows b k db = [] \<and> (\<forall>r\<in>set (cur_rows b k db). ob_version r = ''null''))"

definition s3_ok :: "s3_env \<Rightarrow> s3_db \<Rightarrow> bool" where
  "s3_ok X db \<longleftrightarrow> (\<forall>b k. s3_key_ok X db b k)"

definition ids_fresh :: "s3_env \<Rightarrow> bool" where
  "ids_fresh X \<longleftrightarrow> inj (version_ids X) \<and> (\<forall>n. version_ids X n \<noteq> ''null'')"

lemma known_mono: "known_id X d v \<Longrightarrow> d \<le> d' \<Longrightarrow> known_id X d' v"
  using less_le_trans unfolding known_id_def by blast

lemma next_id_fresh: "ids_fresh X \<Longrightarrow> \<not> known_id X d (version_ids X d)"
  by (auto simp: ids_fresh_def known_id_def inj_def)

subsection \<open>Steps on one key\<close>

lemma is_object_iff: "is_object b k r \<Longrightarrow> is_object b' k' r \<longleftrightarrow> b' = b \<and> k' = k"
  by (auto simp: is_object_def)

lemma is_version_object: "is_version b k v r \<longleftrightarrow> is_object b k r \<and> ob_version r = v"
  by (simp add: is_version_def)

lemma filter_absurd: "(\<And>r. r \<in> set rs \<Longrightarrow> P r \<Longrightarrow> \<not> Q r) \<Longrightarrow> filter (\<lambda>r. P r \<and> \<not> Q r) rs = filter P rs"
  by (rule filter_cong) auto

lemma find_filter: "find P xs = (case filter P xs of [] \<Rightarrow> None | r # _ \<Rightarrow> Some r)"
  by (induction xs) auto

lemma current_row_rows: "current_row b k db = (case cur_rows b k db of [] \<Rightarrow> None | r # _ \<Rightarrow> Some r)"
  unfolding current_row_def by (rule find_filter)

text \<open>What a step on the key \<open>k\<close> of \<open>b\<close> leaves alone.\<close>

definition s3_on_key :: "string \<Rightarrow> string \<Rightarrow> s3_db \<Rightarrow> s3_db \<Rightarrow> bool" where
  "s3_on_key b k db db' \<longleftrightarrow> s3_buckets db' = s3_buckets db \<and> s3_configs db' = s3_configs db
     \<and> s3_seq db \<le> s3_seq db' \<and> s3_draws db \<le> s3_draws db'
     \<and> (\<forall>b' k'. (b', k') \<noteq> (b, k) \<longrightarrow> cur_rows b' k' db' = cur_rows b' k' db \<and> old_rows b' k' db' = old_rows b' k' db)"

lemma on_key_refl: "s3_on_key b k db db"
  by (simp add: s3_on_key_def)

lemma on_key_trans: "s3_on_key b k db d \<Longrightarrow> s3_on_key b k d e \<Longrightarrow> s3_on_key b k db e"
  unfolding s3_on_key_def by (metis order_trans)

lemma key_delete_current:
  "cur_rows b k (delete_current b k db) = []" "old_rows b k (delete_current b k db) = old_rows b k db"
  "s3_on_key b k db (delete_current b k db)"
  by (auto simp: s3_on_key_def delete_current_def sql_delete_def filter_empty_conv is_object_def intro!: filter_cong[OF refl])

lemma key_delete_archived:
  "cur_rows b k (delete_archived b k v db) = cur_rows b k db"
  "old_rows b k (delete_archived b k v db) = filter (\<lambda>r. ob_version r \<noteq> v) (old_rows b k db)"
  "s3_on_key b k db (delete_archived b k v db)"
proof -
  show "old_rows b k (delete_archived b k v db) = filter (\<lambda>r. ob_version r \<noteq> v) (old_rows b k db)"
    by (auto simp: delete_archived_def sql_delete_def is_version_object filter_filter intro: filter_cong)
qed (auto simp: s3_on_key_def delete_archived_def sql_delete_def is_version_object is_object_def intro!: filter_cong[OF refl])

text \<open>A new row of either table.\<close>

definition add_current :: "s3_object \<Rightarrow> s3_db \<Rightarrow> s3_db" where
  "add_current r db = db\<lparr> s3_objects := s3_objects db @ [r] \<rparr>"

definition add_archived :: "s3_object \<Rightarrow> s3_db \<Rightarrow> s3_db" where
  "add_archived r db = db\<lparr> s3_versions := s3_versions db @ [r] \<rparr>"

lemma key_add:
  assumes "is_object b k r"
  shows "cur_rows b k (add_current r db) = cur_rows b k db @ [r]" "old_rows b k (add_current r db) = old_rows b k db"
    "cur_rows b k (add_archived r db) = cur_rows b k db" "old_rows b k (add_archived r db) = old_rows b k db @ [r]"
    "s3_on_key b k db (add_current r db)" "s3_on_key b k db (add_archived r db)"
  using assms by (auto simp: add_current_def add_archived_def s3_on_key_def is_object_iff)

lemma archive_current_eq:
  "archive_current b k db = (case current_row b k db of None \<Rightarrow> delete_current b k db
     | Some r \<Rightarrow> delete_current b k (add_archived (r\<lparr> ob_marker := False \<rparr>) (delete_archived b k (ob_version r) db)))"
  by (auto simp: archive_current_def delete_archived_def add_archived_def split: option.split)

lemma key_archive_current:
  assumes "cur_rows b k db = [c]" "\<not> ob_marker c"
  shows "cur_rows b k (archive_current b k db) = []"
    "old_rows b k (archive_current b k db) = filter (\<lambda>r. ob_version r \<noteq> ob_version c) (old_rows b k db) @ [c]"
    "s3_on_key b k db (archive_current b k db)"
proof -
  have "c \<in> set (cur_rows b k db)" by (simp only: assms(1) list.set_intros(1))
  then have c: "is_object b k c" by (simp only: set_filter mem_Collect_eq)
  have same: "c\<lparr> ob_marker := False \<rparr> = c" using assms(2) by (cases c) simp
  have arch: "archive_current b k db = delete_current b k (add_archived c (delete_archived b k (ob_version c) db))"
    using assms(1) by (simp add: archive_current_eq current_row_rows same)
  show "cur_rows b k (archive_current b k db) = []" unfolding arch by (rule key_delete_current)
  show "old_rows b k (archive_current b k db) = filter (\<lambda>r. ob_version r \<noteq> ob_version c) (old_rows b k db) @ [c]"
    unfolding arch by (simp only: key_delete_current key_add[OF c] key_delete_archived)
  show "s3_on_key b k db (archive_current b k db)"
    unfolding arch by (rule on_key_trans[OF key_delete_archived(3) on_key_trans[OF key_add(6)[OF c] key_delete_current(3)]])
qed

subsection \<open>Sorting by sequence number\<close>

abbreviation newer :: "s3_object \<Rightarrow> s3_object \<Rightarrow> bool" where
  "newer r s \<equiv> ob_seq s < ob_seq r"

lemma newer_distinct: "sorted_wrt newer rs \<Longrightarrow> distinct rs"
  by (induction rs) auto

lemma newer_seqs: "sorted_wrt newer rs \<Longrightarrow> distinct (map ob_seq rs)"
  by (induction rs) fastforce+

lemma newest_first_eq:
  assumes "sorted_wrt newer rs" "set rs = set xs" "distinct xs"
  shows "newest_first xs = rs"
proof (rule map_sorted_distinct_set_unique[of "\<lambda>r. - ob_seq r"])
  have rs: "distinct rs" using assms(1) by (rule newer_distinct)
  have "inj_on ob_seq (set rs)" using newer_seqs[OF assms(1)] by (simp add: distinct_map)
  then have inj: "inj_on (\<lambda>r. - ob_seq r) (set rs)" by (simp add: inj_on_def)
  then show "inj_on (\<lambda>r. - ob_seq r) (set (newest_first xs) \<union> set rs)" by (simp add: assms(2))
  show "sorted (map (\<lambda>r. - ob_seq r) (newest_first xs))" by (rule sorted_sort_key)
  show "sorted (map (\<lambda>r. - ob_seq r) rs)" using assms(1) by (induction rs) (auto simp: less_imp_le)
  show "distinct (map (\<lambda>r. - ob_seq r) rs)" using rs inj by (simp add: distinct_map)
  show "distinct (map (\<lambda>r. - ob_seq r) (newest_first xs))" using assms(2,3) inj by (simp add: distinct_map)
  show "set (newest_first xs) = set rs" by (simp add: assms(2))
qed

lemma newest_first_add:
  assumes "sorted_wrt newer (c # newest_first A)"
  shows "newest_first (A @ [c]) = c # newest_first A"
proof (rule newest_first_eq[OF assms])
  have "distinct (c # newest_first A)" using assms by (rule newer_distinct)
  then show "distinct (A @ [c])" by simp
qed auto

lemma newest_first_remove: "newest_first (filter P A) = filter P (newest_first A)"
  by (simp add: filter_sort)

subsection \<open>Steps on the history\<close>

lemma key_cases:
  assumes "s3_key_ok X db b k"
  obtains (hidden) "cur_rows b k db = []" "hist db b k = newest_first (old_rows b k db)"
  | (shown) c where "cur_rows b k db = [c]" "hist db b k = c # newest_first (old_rows b k db)" "\<not> ob_marker c"
      "c \<notin> set (old_rows b k db)" "\<forall>r\<in>set (old_rows b k db). newer c r \<and> ob_version r \<noteq> ob_version c"
proof (cases "cur_rows b k db")
  case Nil
  then show ?thesis by (intro hidden) (auto simp: hist_def)
next
  case (Cons c cs)
  with assms have cs: "cs = []" by (simp add: s3_key_ok_def)
  with Cons have h: "hist db b k = c # newest_first (old_rows b k db)" by (simp add: hist_def)
  moreover have "\<not> ob_marker c" using assms Cons by (simp add: s3_key_ok_def shows_newest_def)
  moreover have "sorted_wrt newer (c # newest_first (old_rows b k db))" "distinct (map ob_version (c # newest_first (old_rows b k db)))"
    using assms unfolding s3_key_ok_def h by blast+
  ultimately show ?thesis using Cons cs by (intro shown[of c]) (auto simp: image_iff)
qed

lemma hist_delete_current:
  assumes "s3_key_ok X db b k"
  shows "hist (delete_current b k db) b k = (case current_row b k db of None \<Rightarrow> hist db b k | Some _ \<Rightarrow> tl (hist db b k))"
  using assms
proof (cases rule: key_cases)
  case hidden
  then show ?thesis by (simp add: hist_def key_delete_current current_row_rows)
next
  case (shown c)
  then show ?thesis by (simp add: hist_def key_delete_current current_row_rows)
qed

lemma filter_all: "(\<And>r. r \<in> set rs \<Longrightarrow> P r) \<Longrightarrow> filter P rs = rs"
  by (rule filter_True) blast

lemma hist_archive_current:
  assumes ok: "s3_key_ok X db b k"
  shows "hist (archive_current b k db) b k = hist db b k" "cur_rows b k (archive_current b k db) = []"
    "s3_on_key b k db (archive_current b k db)"
proof -
  have "hist (archive_current b k db) b k = hist db b k \<and> cur_rows b k (archive_current b k db) = []
      \<and> s3_on_key b k db (archive_current b k db)"
    using ok
  proof (cases rule: key_cases)
    case hidden
    then have "archive_current b k db = delete_current b k db" by (simp add: archive_current_eq current_row_rows)
    with hidden show ?thesis by (simp add: hist_def key_delete_current)
  next
    case (shown c)
    note arch = key_archive_current[OF shown(1,3)]
    have "filter (\<lambda>r. ob_version r \<noteq> ob_version c) (old_rows b k db) = old_rows b k db"
      using shown(5) by (intro filter_all) blast
    moreover have "sorted_wrt newer (c # newest_first (old_rows b k db))" using ok shown(2) by (simp add: s3_key_ok_def)
    ultimately have "newest_first (old_rows b k (archive_current b k db)) = c # newest_first (old_rows b k db)"
      by (simp only: arch(2) newest_first_add)
    then show ?thesis using arch shown(2) by (simp add: hist_def)
  qed
  then show "hist (archive_current b k db) b k = hist db b k" "cur_rows b k (archive_current b k db) = []"
    "s3_on_key b k db (archive_current b k db)" by simp_all
qed

lemma latest_archived_eq: "latest_archived b k db = (case newest_first (old_rows b k db) of [] \<Rightarrow> None | r # _ \<Rightarrow> Some r)"
  by (simp add: latest_archived_def)

text \<open>Restoring changes no history; afterwards the newest version is shown unless it is a marker.\<close>

lemma hist_restore_latest:
  assumes len: "length (cur_rows b k db) \<le> 1" and sorted: "sorted_wrt newer (hist db b k)"
    and versions: "distinct (map ob_version (hist db b k))" and shown: "\<forall>c\<in>set (cur_rows b k db). \<not> ob_marker c"
  shows "hist (restore_latest b k db) b k = hist db b k" "s3_on_key b k db (restore_latest b k db)"
    "shows_newest (cur_rows b k (restore_latest b k db)) (old_rows b k (restore_latest b k db))"
    "length (cur_rows b k (restore_latest b k db)) \<le> 1"
proof -
  let ?A = "old_rows b k db" and ?db = "restore_latest b k db"
  have "hist ?db b k = hist db b k \<and> s3_on_key b k db ?db \<and> shows_newest (cur_rows b k ?db) (old_rows b k ?db)
      \<and> length (cur_rows b k ?db) \<le> 1"
  proof (cases "newest_first ?A")
    case Nil
    then have "?db = db" by (simp add: restore_latest_def latest_archived_eq)
    moreover have "shows_newest (cur_rows b k db) ?A"
    proof (cases "cur_rows b k db")
      case (Cons c cs)
      then have "c \<in> set (cur_rows b k db)" by (simp only: list.set_intros(1))
      with shown have "\<not> ob_marker c" by blast
      with Cons show ?thesis by (simp add: shows_newest_def)
    qed (simp add: shows_newest_def Nil)
    ultimately show ?thesis using len by (simp add: on_key_refl)
  next
    case (Cons l ls)
    show ?thesis
    proof (cases "cur_rows b k db")
      case Nil
      show ?thesis
      proof (cases "ob_marker l")
        case True
        with Cons Nil have "?db = db" by (simp add: restore_latest_def latest_archived_eq current_row_rows)
        then show ?thesis using Cons Nil True by (auto simp: on_key_refl shows_newest_def)
      next
        case False
        have "l \<in> set (newest_first ?A)" by (simp only: Cons list.set_intros(1))
        then have l: "is_object b k l" by (simp only: set_sort set_filter mem_Collect_eq)
        have db: "?db = delete_archived b k (ob_version l) (add_current l db)"
          using Cons Nil False by (simp add: restore_latest_def latest_archived_eq current_row_rows add_current_def)
        have cur: "cur_rows b k ?db = [l]" unfolding db by (simp only: key_delete_archived key_add[OF l] Nil append_Nil)
        have old: "old_rows b k ?db = filter (\<lambda>r. ob_version r \<noteq> ob_version l) ?A"
          unfolding db by (simp only: key_delete_archived key_add[OF l])
        have "hist db b k = l # ls" using Cons Nil by (simp add: hist_def)
        then have "\<forall>r\<in>set ls. ob_version r \<noteq> ob_version l" using versions by (auto simp: image_iff)
        then have "filter (\<lambda>r. ob_version r \<noteq> ob_version l) (newest_first ?A) = ls"
          by (simp add: Cons filter_all del: filter_sort)
        then have "newest_first (old_rows b k ?db) = ls" unfolding old newest_first_remove .
        then have "hist ?db b k = hist db b k" using \<open>hist db b k = l # ls\<close> by (simp add: hist_def cur)
        moreover have "s3_on_key b k db ?db"
          unfolding db by (rule on_key_trans[OF key_add(5)[OF l] key_delete_archived(3)])
        ultimately show ?thesis using False by (simp add: cur shows_newest_def)
      qed
    next
      case (Cons c cs)
      with len have cs: "cs = []" by simp
      have "hist db b k = c # l # ls" using Cons cs \<open>newest_first ?A = l # ls\<close> by (simp add: hist_def)
      then have "newer c l" using sorted by simp
      then have "?db = db"
        using Cons \<open>newest_first ?A = l # ls\<close> by (simp add: restore_latest_def latest_archived_eq current_row_rows)
      moreover have "c \<in> set (cur_rows b k db)" by (simp only: Cons list.set_intros(1))
      then have "\<not> ob_marker c" using shown by blast
      ultimately show ?thesis using Cons cs by (simp add: on_key_refl shows_newest_def)
    qed
  qed
  then show "hist ?db b k = hist db b k" "s3_on_key b k db ?db" "shows_newest (cur_rows b k ?db) (old_rows b k ?db)"
    "length (cur_rows b k ?db) \<le> 1" by simp_all
qed

text \<open>Making room for a version: the version with the same id goes, all others end up in the archive.\<close>

definition make_room :: "string \<Rightarrow> string \<Rightarrow> string \<Rightarrow> (s3_object \<Rightarrow> bool) \<Rightarrow> s3_db \<Rightarrow> s3_db" where
  "make_room b k vid Q db =
     (let d = (case current_row b k db of
          Some cur \<Rightarrow> if Q cur then delete_current b k db else archive_current b k db | None \<Rightarrow> db)
      in if vid = ''null'' then delete_archived b k ''null'' d else d)"

lemma hist_make_room:
  assumes ok: "s3_key_ok X db b k" and Q: "\<And>c. c \<in> set (cur_rows b k db) \<Longrightarrow> Q c \<longleftrightarrow> ob_version c = vid"
    and vid: "vid = ''null'' \<or> vid \<notin> ob_version ` set (hist db b k)"
  shows "cur_rows b k (make_room b k vid Q db) = []"
    "newest_first (old_rows b k (make_room b k vid Q db)) = filter (\<lambda>r. ob_version r \<noteq> vid) (hist db b k)"
    "s3_on_key b k db (make_room b k vid Q db)"
proof -
  define d where "d = (case current_row b k db of
    Some cur \<Rightarrow> if Q cur then delete_current b k db else archive_current b k db | None \<Rightarrow> db)"
  have room: "make_room b k vid Q db = (if vid = ''null'' then delete_archived b k ''null'' d else d)"
    by (simp add: make_room_def d_def)
  have "cur_rows b k d = [] \<and> s3_on_key b k db d
      \<and> filter (\<lambda>r. ob_version r \<noteq> vid) (newest_first (old_rows b k d)) = filter (\<lambda>r. ob_version r \<noteq> vid) (hist db b k)
      \<and> (vid \<notin> ob_version ` set (hist db b k) \<longrightarrow> newest_first (old_rows b k d) = hist db b k)"
    using ok
  proof (cases rule: key_cases)
    case hidden
    then have "d = db" by (simp add: d_def current_row_rows)
    with hidden show ?thesis by (simp add: on_key_refl hist_def del: filter_sort)
  next
    case (shown c)
    have cur: "current_row b k db = Some c" by (simp add: current_row_rows shown(1))
    have q: "Q c \<longleftrightarrow> ob_version c = vid" by (rule Q) (simp only: shown(1) list.set_intros(1))
    show ?thesis
    proof (cases "ob_version c = vid")
      case True
      then have "d = delete_current b k db" by (simp add: d_def cur q)
      with True shown(2) show ?thesis by (simp only: key_delete_current filter.simps) simp
    next
      case False
      then have d: "d = archive_current b k db" by (simp add: d_def cur q)
      note arch = hist_archive_current[OF ok]
      have "newest_first (old_rows b k d) = hist db b k"
        using arch(1) arch(2) unfolding d hist_def by simp
      with arch show ?thesis by (simp only: d simp_thms)
    qed
  qed
  then have c: "cur_rows b k d = []" and o: "s3_on_key b k db d"
    and f: "filter (\<lambda>r. ob_version r \<noteq> vid) (newest_first (old_rows b k d)) = filter (\<lambda>r. ob_version r \<noteq> vid) (hist db b k)"
    and n: "vid \<notin> ob_version ` set (hist db b k) \<longrightarrow> newest_first (old_rows b k d) = hist db b k"
    by blast+
  show "cur_rows b k (make_room b k vid Q db) = []" by (simp add: room key_delete_archived c)
  show "s3_on_key b k db (make_room b k vid Q db)"
    using o on_key_trans[OF o key_delete_archived(3)] by (simp add: room)
  show "newest_first (old_rows b k (make_room b k vid Q db)) = filter (\<lambda>r. ob_version r \<noteq> vid) (hist db b k)"
  proof (cases "vid = ''null''")
    case True
    then have "make_room b k vid Q db = delete_archived b k vid d" unfolding room by simp
    then have "old_rows b k (make_room b k vid Q db) = filter (\<lambda>r. ob_version r \<noteq> vid) (old_rows b k d)"
      by (simp only: key_delete_archived)
    then have "newest_first (old_rows b k (make_room b k vid Q db))
        = newest_first (filter (\<lambda>r. ob_version r \<noteq> vid) (old_rows b k d))" by (rule arg_cong)
    also have "\<dots> = filter (\<lambda>r. ob_version r \<noteq> vid) (newest_first (old_rows b k d))" by (rule newest_first_remove)
    also note f
    finally show ?thesis .
  next
    case False
    with vid have new: "vid \<notin> ob_version ` set (hist db b k)" by blast
    then have "filter (\<lambda>r. ob_version r \<noteq> vid) (hist db b k) = hist db b k" by (intro filter_all) auto
    moreover have "newest_first (old_rows b k d) = hist db b k" using n new by blast
    moreover have "make_room b k vid Q db = d" unfolding room using False by (rule if_not_P)
    ultimately show ?thesis by (simp only:)
  qed
qed

end
