(* ===== verification/S3_Refinement.thy ===== *)
theory S3_Refinement
  imports S3_History
begin

text \<open>
  S3, part 5: the operations refine the histories, and the invariant is kept.  Every operation is a
  step of a machine that interprets the contract \<open>service\<close>.
\<close>

subsection \<open>The abstract operations\<close>

text \<open>A write puts the new version in front and replaces the version of the same id, if there is one.\<close>

definition hist_put :: "s3_object \<Rightarrow> s3_object list \<Rightarrow> s3_object list" where
  "hist_put row h = row # filter (\<lambda>r. ob_version r \<noteq> ob_version row) h"

definition hist_drop :: "string \<Rightarrow> s3_object list \<Rightarrow> s3_object list" where
  "hist_drop v h = filter (\<lambda>r. ob_version r \<noteq> v) h"

text \<open>The newest version, unless it is a delete marker; or the version of an id.\<close>

definition hist_get :: "string \<Rightarrow> string option \<Rightarrow> s3_object list \<Rightarrow> (s3_error, s3_object) result" where
  "hist_get k vid h = (case vid of
     None \<Rightarrow> (case h of [] \<Rightarrow> Inl (no_such_key k) | r # _ \<Rightarrow> if ob_marker r then Inl (key_missing k (Some r)) else Inr r)
   | Some v \<Rightarrow> (case find (\<lambda>r. ob_version r = v) h of
         None \<Rightarrow> Inl (no_such_version k v)
       | Some r \<Rightarrow> if ob_marker r then Inl (method_not_allowed v) else Inr r))"

subsection \<open>Reading\<close>

lemma find_newest:
  assumes "distinct (map ob_version (newest_first A))"
  shows "find (\<lambda>r. ob_version r = v) (newest_first A) = find (\<lambda>r. ob_version r = v) A"
proof (cases "find (\<lambda>r. ob_version r = v) A")
  case None
  then have "find (\<lambda>r. ob_version r = v) (newest_first A) = None" by (simp add: find_None_set)
  with None show ?thesis by simp
next
  case (Some r)
  then have r: "r \<in> set (newest_first A)" "ob_version r = v" by (auto dest: find_Some_set)
  with find_unique[OF assms r] Some show ?thesis by simp
qed

lemma archived_row_eq:
  "archived_row b k v db = find (\<lambda>r. ob_version r = v) (old_rows b k db)"
  unfolding archived_row_def by (induction "s3_versions db") (auto simp: is_version_object find_filter)

lemma resolve_hist:
  assumes ok: "s3_key_ok X db b k" and "bucket_exists b db"
  shows "map_sum id oi_row (resolve_version b k vid db) = hist_get k vid (hist db b k)"
proof -
  have req: "require_bucket b db = Inr ()" by (simp add: require_bucket_def assms(2))
  have distinct: "distinct (map ob_version (hist db b k))" and top: "shows_newest (cur_rows b k db) (old_rows b k db)"
    using ok by (simp_all add: s3_key_ok_def)
  from ok show ?thesis
  proof (cases rule: key_cases)
    case hidden
    have cur: "current_info b k db = None" by (simp add: current_info_def current_row_rows hidden(1))
    have find: "archived_row b k v db = find (\<lambda>r. ob_version r = v) (hist db b k)" for v
      unfolding hidden(2) archived_row_eq by (rule find_newest[symmetric]) (use distinct hidden(2) in simp)
    show ?thesis
    proof (cases vid)
      case None
      show ?thesis
      proof (cases "hist db b k")
        case Nil
        then have "latest_archived b k db = None" by (simp add: latest_archived_eq hidden(2)[symmetric])
        then show ?thesis
          by (simp add: resolve_version_def req cur None hist_get_def Nil key_missing_def)
      next
        case (Cons r rs)
        then have "latest_archived b k db = Some r" by (simp add: latest_archived_eq hidden(2)[symmetric])
        moreover have "ob_marker r" using top Cons by (simp add: shows_newest_def hidden(1) hidden(2)[symmetric])
        ultimately show ?thesis by (simp add: resolve_version_def req cur None hist_get_def Cons)
      qed
    next
      case (Some v)
      then show ?thesis
        by (auto simp: resolve_version_def req cur hist_get_def find info_from_row_def split: option.splits)
    qed
  next
    case (shown c)
    have cur: "current_info b k db = Some ((info_from_row c)\<lparr> oi_latest := True \<rparr>)"
      by (simp add: current_info_def current_row_rows shown(1))
    have find: "archived_row b k v db = find (\<lambda>r. ob_version r = v) (newest_first (old_rows b k db))" for v
      unfolding archived_row_eq by (rule find_newest[symmetric]) (use distinct shown(2) in simp)
    show ?thesis
    proof (cases vid)
      case None
      then show ?thesis
        using shown(3) by (simp add: resolve_version_def req cur hist_get_def shown(2) info_from_row_def)
    next
      case (Some v)
      then show ?thesis
        using shown(3)
        by (auto simp: resolve_version_def req cur hist_get_def shown(2) find info_from_row_def split: option.splits)
    qed
  qed
qed

subsection \<open>Keeping the invariant\<close>

lemma frame_ok:
  assumes "s3_ok X db" "s3_on_key b k db db'" "s3_key_ok X db' b k"
  shows "s3_ok X db'"
  unfolding s3_ok_def
proof (intro allI)
  fix b' k'
  show "s3_key_ok X db' b' k'"
  proof (cases "(b', k') = (b, k)")
    case False
    have old: "s3_key_ok X db b' k'" using assms(1) by (simp add: s3_ok_def)
    have rows: "cur_rows b' k' db' = cur_rows b' k' db" "old_rows b' k' db' = old_rows b' k' db"
      and same: "s3_buckets db' = s3_buckets db" "s3_configs db' = s3_configs db"
      and grow: "s3_seq db \<le> s3_seq db'" "s3_draws db \<le> s3_draws db'"
      using assms(2) False unfolding s3_on_key_def by blast+
    have "hist db' b' k' = hist db b' k'" by (simp only: hist_def rows)
    moreover have "bucket_exists b' db' = bucket_exists b' db" "bucket_state b' db' = bucket_state b' db"
      by (simp_all only: bucket_exists_def bucket_state_def config_get_def same)
    moreover have "ob_seq r \<le> s3_seq db' \<and> known_id X (s3_draws db') (ob_version r)" if "r \<in> set (hist db b' k')" for r
      using old that grow unfolding s3_key_ok_def by (meson known_mono order_trans)
    ultimately show ?thesis using old unfolding s3_key_ok_def rows by simp
  qed (use assms(3) in simp)
qed

lemma versioning_Inr: "versioning_of b db = Inr ver \<longleftrightarrow> bucket_exists b db \<and> ver = bucket_state b db"
  by (auto simp: versioning_of_def require_bucket_def bucket_state_def)

lemma bucket_kept:
  "s3_on_key b k db db' \<Longrightarrow> bucket_exists c db' = bucket_exists c db \<and> bucket_state c db' = bucket_state c db"
  by (simp add: s3_on_key_def bucket_exists_def bucket_state_def config_get_def)

text \<open>A new version in front of the others.\<close>

lemma key_ok_push:
  assumes ok: "s3_key_ok X db b k" and frame: "s3_on_key b k db db'" and exists: "bucket_exists b db"
    and h: "hist db' b k = hist_put row (hist db b k)" and seq: "s3_seq db < ob_seq row" "ob_seq row \<le> s3_seq db'"
    and vid: "known_id X (s3_draws db') (ob_version row)"
    and C: "length (cur_rows b k db') \<le> 1" "shows_newest (cur_rows b k db') (old_rows b k db')"
    and U: "bucket_state b db = Unversioned \<Longrightarrow> old_rows b k db' = [] \<and> (\<forall>r\<in>set (cur_rows b k db'). ob_version r = ''null'')"
  shows "s3_key_ok X db' b k"
proof -
  have rows: "ob_seq r \<le> s3_seq db \<and> known_id X (s3_draws db) (ob_version r)" if "r \<in> set (hist db b k)" for r
    using ok that unfolding s3_key_ok_def by blast
  have sorted: "sorted_wrt newer (hist db b k)" and distinct: "distinct (map ob_version (hist db b k))"
    using ok unfolding s3_key_ok_def by blast+
  have grow: "s3_seq db \<le> s3_seq db'" "s3_draws db \<le> s3_draws db'" using frame unfolding s3_on_key_def by blast+
  have "sorted_wrt newer (hist_put row (hist db b k))"
    using sorted rows seq(1) by (force simp: hist_put_def sorted_wrt_filter)
  moreover have "distinct (map ob_version (hist_put row (hist db b k)))"
    using distinct by (auto simp: hist_put_def distinct_map_filter)
  moreover have "ob_seq r \<le> s3_seq db' \<and> known_id X (s3_draws db') (ob_version r)"
    if "r \<in> set (hist_put row (hist db b k))" for r
  proof (cases "r = row")
    case False
    with that have "r \<in> set (hist db b k)" by (auto simp: hist_put_def)
    from rows[OF this] grow show ?thesis by (meson known_mono order_trans)
  qed (use seq vid in simp)
  ultimately show ?thesis
    using C U bucket_kept[OF frame, of b] exists unfolding s3_key_ok_def h by simp
qed

lemma on_key_counters: "s3_seq db \<le> s \<Longrightarrow> s3_draws db \<le> d \<Longrightarrow> s3_on_key b k db (db\<lparr> s3_seq := s, s3_draws := d \<rparr>)"
  by (simp add: s3_on_key_def)

lemma counters_fields:
  "cur_rows b k (db\<lparr> s3_seq := s, s3_draws := d \<rparr>) = cur_rows b k db"
  "old_rows b k (db\<lparr> s3_seq := s, s3_draws := d \<rparr>) = old_rows b k db"
  "hist (db\<lparr> s3_seq := s, s3_draws := d \<rparr>) b k = hist db b k"
  "current_row b k (db\<lparr> s3_seq := s, s3_draws := d \<rparr>) = current_row b k db"
  by (simp_all add: hist_def current_row_def)

lemma key_ok_counters: "s3_key_ok X db b k \<Longrightarrow> s3_seq db \<le> s \<Longrightarrow> s3_draws db \<le> d \<Longrightarrow> s3_key_ok X (db\<lparr> s3_seq := s, s3_draws := d \<rparr>) b k"
  unfolding s3_key_ok_def counters_fields by (auto simp: bucket_exists_def bucket_state_def config_get_def dest: known_mono)

text \<open>The id a new version gets, and how many are drawn for it.\<close>

definition next_version :: "s3_env \<Rightarrow> string \<Rightarrow> s3_db \<Rightarrow> string" where
  "next_version X b db = (if bucket_state b db = VEnabled then version_ids X (s3_draws db) else ''null'')"

definition draws_after :: "string \<Rightarrow> s3_db \<Rightarrow> nat" where
  "draws_after b db = s3_draws db + (if bucket_state b db = VEnabled then 1 else 0)"

lemma next_version_known: "known_id X (draws_after b db) (next_version X b db)"
  by (auto simp: next_version_def draws_after_def known_id_def)

lemma next_version_new:
  assumes "ids_fresh X" "s3_key_ok X db b k"
  shows "next_version X b db = ''null'' \<or> next_version X b db \<notin> ob_version ` set (hist db b k)"
proof (cases "bucket_state b db = VEnabled")
  case True
  then have "\<not> known_id X (s3_draws db) (next_version X b db)" using next_id_fresh[OF assms(1)] by (simp add: next_version_def)
  with assms(2) show ?thesis by (auto simp: s3_key_ok_def)
qed (simp add: next_version_def)

text \<open>The row a write stores.\<close>

definition written_row :: "s3_env \<Rightarrow> string \<Rightarrow> string \<Rightarrow> new_object \<Rightarrow> int \<Rightarrow> s3_db \<Rightarrow> s3_object" where
  "written_row X b k obj now db =
     \<lparr> ob_bucket = b, ob_key = k, ob_version = next_version X b db, ob_seq = s3_seq db + 1, ob_marker = False,
       ob_content = no_content_bytes obj, ob_type = no_type obj, ob_size = int (length (no_content_bytes obj)),
       ob_etag = no_etag obj, ob_created_at = iso_millis (s3_ext X) now,
       ob_meta = apply_default_sse X b db (no_meta obj), ob_tags = no_tags obj \<rparr>"

lemma write_object_eq:
  assumes "bucket_exists b db"
  shows "write_object_tx X b k obj now db =
    (let row = written_row X b k obj now db;
         room = make_room b k (ob_version row) (\<lambda>c. ob_version c = ob_version row \<or> bucket_state b db = Unversioned)
           (db\<lparr> s3_seq := s3_seq db + 1, s3_draws := draws_after b db \<rparr>)
     in (Inr \<lparr> wr_version = ob_version row, wr_seq = ob_seq row, wr_etag = ob_etag row, wr_size = ob_size row,
             wr_created_at = ob_created_at row, wr_versioning = bucket_state b db, wr_meta = ob_meta row \<rparr>, add_current row room))"
proof -
  have "versioning_of b db = Inr (bucket_state b db)" using assms by (simp add: versioning_Inr)
  then show ?thesis
    by (simp add: write_object_tx_def Let_def next_seq_def new_version_id_def written_row_def next_version_def draws_after_def
        make_room_def add_current_def case_prod_unfold split: option.split)
qed

lemma write_object_hist:
  assumes fresh: "ids_fresh X" and ok: "s3_ok X db" and exists: "bucket_exists b db"
    and db': "db' = snd (write_object_tx X b k obj now db)"
  shows "hist db' b k = hist_put (written_row X b k obj now db) (hist db b k)" "s3_on_key b k db db'" "s3_ok X db'"
proof -
  let ?row = "written_row X b k obj now db"
  let ?d = "db\<lparr> s3_seq := s3_seq db + 1, s3_draws := draws_after b db \<rparr>"
  let ?Q = "\<lambda>c. ob_version c = ob_version ?row \<or> bucket_state b db = Unversioned"
  let ?room = "make_room b k (ob_version ?row) ?Q ?d"
  have key: "s3_key_ok X db b k" using ok by (simp add: s3_ok_def)
  have draws: "s3_draws db \<le> draws_after b db" by (simp add: draws_after_def)
  have keyd: "s3_key_ok X ?d b k" using key draws by (intro key_ok_counters) simp_all
  have version: "ob_version ?row = next_version X b db" by (simp add: written_row_def)
  have Q: "?Q c \<longleftrightarrow> ob_version c = ob_version ?row" if "c \<in> set (cur_rows b k ?d)" for c
  proof -
    have c: "c \<in> set (cur_rows b k db)" using that by (simp only: counters_fields)
    show ?thesis
    proof (cases "bucket_state b db = Unversioned")
      case True
      have "ob_version c = ''null''" using key True c unfolding s3_key_ok_def by blast
      with True show ?thesis by (simp add: version next_version_def)
    qed simp
  qed
  have vid: "ob_version ?row = ''null'' \<or> ob_version ?row \<notin> ob_version ` set (hist ?d b k)"
    unfolding counters_fields version by (rule next_version_new[OF fresh key])
  note room = hist_make_room[OF keyd Q vid, unfolded counters_fields]
  have row: "is_object b k ?row" by (simp add: written_row_def is_object_def)
  have db'_eq: "db' = add_current ?row ?room" by (simp add: db' write_object_eq[OF exists] Let_def)
  have cur: "cur_rows b k db' = [?row]" by (simp only: db'_eq key_add[OF row] room(1) append_Nil)
  have old: "old_rows b k db' = old_rows b k ?room" by (simp only: db'_eq key_add[OF row])
  show h: "hist db' b k = hist_put ?row (hist db b k)" by (simp only: hist_def[of db'] cur old room(2) hist_put_def append.simps)
  show frame: "s3_on_key b k db db'"
    unfolding db'_eq by (rule on_key_trans[OF on_key_counters on_key_trans[OF room(3) key_add(5)[OF row]]]) (use draws in simp_all)
  have fields: "s3_seq db' = s3_seq db + 1 \<and> s3_draws db' = draws_after b db"
    by (simp add: db'_eq add_current_def make_room_def delete_archived_def delete_current_def archive_current_def Let_def
        split: option.split)
  have "s3_key_ok X db' b k"
  proof (rule key_ok_push[OF key frame exists h])
    show "shows_newest (cur_rows b k db') (old_rows b k db')" by (simp only: cur) (simp add: shows_newest_def written_row_def)
    show "known_id X (s3_draws db') (ob_version ?row)" by (simp only: fields version next_version_known)
    show "old_rows b k db' = [] \<and> (\<forall>r\<in>set (cur_rows b k db'). ob_version r = ''null'')" if U: "bucket_state b db = Unversioned"
    proof -
      have "old_rows b k db = []" "\<forall>r\<in>set (cur_rows b k db). ob_version r = ''null''" using key U unfolding s3_key_ok_def by blast+
      then have "filter (\<lambda>r. ob_version r \<noteq> ''null'') (hist db b k) = []" by (auto simp: hist_def filter_empty_conv)
      then have "newest_first (old_rows b k ?room) = []" using room(2) U by (simp add: version next_version_def)
      then have "set (old_rows b k ?room) = {}" by (metis set_empty set_sort)
      then show ?thesis using U by (simp add: old cur version next_version_def)
    qed
  qed (use fields in \<open>simp_all add: cur\<close>, simp_all add: written_row_def)
  with ok frame show "s3_ok X db'" by (rule frame_ok)
qed

subsection \<open>Deleting\<close>

text \<open>Some versions less, and the newest one shown.\<close>

lemma key_ok_less:
  assumes ok: "s3_key_ok X db b k" and frame: "s3_on_key b k db db'"
    and h: "hist db' b k = filter P (hist db b k)"
    and C: "length (cur_rows b k db') \<le> 1" "shows_newest (cur_rows b k db') (old_rows b k db')"
  shows "s3_key_ok X db' b k"
proof -
  have sorted: "sorted_wrt newer (filter P (hist db b k))" and distinct: "distinct (map ob_version (filter P (hist db b k)))"
    using ok unfolding s3_key_ok_def by (auto simp: sorted_wrt_filter distinct_map_filter)
  have grow: "s3_seq db \<le> s3_seq db'" "s3_draws db \<le> s3_draws db'" using frame unfolding s3_on_key_def by blast+
  have rows: "ob_seq r \<le> s3_seq db' \<and> known_id X (s3_draws db') (ob_version r)" if "r \<in> set (filter P (hist db b k))" for r
    using ok that grow unfolding s3_key_ok_def by (auto intro: known_mono order_trans)
  have U: "old_rows b k db' = [] \<and> (\<forall>r\<in>set (cur_rows b k db'). ob_version r = ''null'')" if "bucket_state b db = Unversioned"
  proof -
    have "old_rows b k db = []" "\<forall>r\<in>set (cur_rows b k db). ob_version r = ''null''"
      using ok that unfolding s3_key_ok_def by blast+
    note empty = this
    have null: "\<forall>r\<in>set (hist db b k). ob_version r = ''null'' \<and> \<not> ob_marker r"
      using ok
    proof (cases rule: key_cases)
      case hidden
      then show ?thesis by (simp add: empty(1))
    next
      case (shown c)
      have "ob_version c = ''null''" using empty(2) by (simp only: shown(1)) simp
      then show ?thesis using shown by (simp add: empty(1))
    qed
    have all: "set (old_rows b k db') \<union> set (cur_rows b k db') \<subseteq> set (hist db b k)"
    proof -
      have "set (old_rows b k db') \<union> set (cur_rows b k db') = set (hist db' b k)" by (auto simp: hist_def)
      then show ?thesis unfolding h by auto
    qed
    have "old_rows b k db' = []"
    proof (rule ccontr)
      assume ne: "old_rows b k db' \<noteq> []"
      then obtain r where r: "r \<in> set (old_rows b k db')" by (meson list.set_sel(1))
      show False
      proof (cases "cur_rows b k db'")
        case Nil
        obtain l ls where l: "newest_first (old_rows b k db') = l # ls" using ne by (cases "newest_first (old_rows b k db')") (simp_all, metis set_empty set_sort)
        with C(2) Nil have "ob_marker l" by (simp add: shows_newest_def)
        moreover have "l \<in> set (old_rows b k db')" using l by (metis list.set_intros(1) set_sort)
        ultimately show False using null all by auto
      next
        case (Cons c cs)
        have "distinct (map ob_version (hist db' b k))" using distinct by (simp only: h)
        moreover have "ob_version c = ''null''" "ob_version r = ''null''" using null all r Cons by auto
        moreover have "hist db' b k = c # cs @ newest_first (old_rows b k db')" by (simp add: hist_def Cons)
        ultimately show False using r by (auto simp: image_iff)
      qed
    qed
    with all null show ?thesis by auto
  qed
  have "hist db' b k \<noteq> [] \<longrightarrow> bucket_exists b db'"
    using ok bucket_kept[OF frame, of b] unfolding h s3_key_ok_def by auto
  with sorted distinct rows C U bucket_kept[OF frame, of b] show ?thesis unfolding s3_key_ok_def h by simp
qed

lemma hist_seq: "hist (db\<lparr> s3_seq := s \<rparr>) b k = hist db b k" "cur_rows b k (db\<lparr> s3_seq := s \<rparr>) = cur_rows b k db"
  "old_rows b k (db\<lparr> s3_seq := s \<rparr>) = old_rows b k db"
  by (simp_all add: hist_def)

lemma on_key_seq: "s3_seq db \<le> s \<Longrightarrow> s3_on_key b k db (db\<lparr> s3_seq := s \<rparr>)"
  by (simp add: s3_on_key_def)

lemma outcome_eq: "outcome vid m ver db =
  (\<lparr> de_version = vid, de_marker = m, de_seq = s3_seq db + 1, de_versioning = ver \<rparr>, db\<lparr> s3_seq := s3_seq db + 1 \<rparr>)"
  by (simp add: outcome_def next_seq_def)

lemma filter_tl:
  assumes "distinct (map ob_version (c # h))"
  shows "filter (\<lambda>r. ob_version r \<noteq> ob_version c) (c # h) = h"
  using assms by (auto intro!: filter_all simp: image_iff)

text \<open>Removing one version.\<close>

lemma delete_version_hist:
  assumes ok: "s3_ok X db" and db': "db' = snd (delete_version b k v ver db)"
  shows "hist db' b k = hist_drop v (hist db b k)" "s3_on_key b k db db'" "s3_ok X db'"
proof -
  have key: "s3_key_ok X db b k" using ok by (simp add: s3_ok_def)
  have sorted: "sorted_wrt newer (hist db b k)" and distinct: "distinct (map ob_version (hist db b k))"
    using key unfolding s3_key_ok_def by blast+
  have restored: "hist db' b k = hist_drop v (hist db b k) \<and> s3_on_key b k db db' \<and> s3_key_ok X db' b k"
    if d: "db' = (restore_latest b k d)\<lparr> s3_seq := s3_seq (restore_latest b k d) + 1 \<rparr>" and frame: "s3_on_key b k db d"
      and h: "hist d b k = hist_drop v (hist db b k)" and len: "length (cur_rows b k d) \<le> 1"
      and cur: "set (cur_rows b k d) \<subseteq> set (cur_rows b k db)" for d
  proof -
    have s: "sorted_wrt newer (hist d b k)" "distinct (map ob_version (hist d b k))"
      using sorted distinct by (simp_all add: h hist_drop_def sorted_wrt_filter distinct_map_filter)
    have "\<forall>c\<in>set (cur_rows b k db). \<not> ob_marker c" using key by (cases rule: key_cases) auto
    then have m: "\<forall>c\<in>set (cur_rows b k d). \<not> ob_marker c" using cur by blast
    note r = hist_restore_latest[OF len s m]
    have f: "s3_on_key b k db db'" unfolding d by (rule on_key_trans[OF frame on_key_trans[OF r(2) on_key_seq]]) simp
    have h': "hist db' b k = hist_drop v (hist db b k)" by (simp only: d hist_seq r(1) h)
    moreover have "s3_key_ok X db' b k"
      by (rule key_ok_less[OF key f h'[unfolded hist_drop_def]]) (simp_all only: d hist_seq r(3,4))
    ultimately show ?thesis using f by blast
  qed
  have gone: "hist db' b k = hist_drop v (hist db b k) \<and> s3_on_key b k db db' \<and> s3_key_ok X db' b k"
    if d: "db' = db\<lparr> s3_seq := s3_seq db + 1 \<rparr>" and none: "v \<notin> ob_version ` set (hist db b k)"
  proof -
    have f: "s3_on_key b k db db'" unfolding d by (rule on_key_seq) simp
    have h: "hist_drop v (hist db b k) = hist db b k" unfolding hist_drop_def using none by (intro filter_all) auto
    have "s3_key_ok X db' b k"
      by (rule key_ok_less[OF key f, of "\<lambda>_. True"]) (use key in \<open>simp_all add: d hist_seq s3_key_ok_def\<close>)
    with f h show ?thesis by (simp add: d hist_seq)
  qed
  have "hist db' b k = hist_drop v (hist db b k) \<and> s3_on_key b k db db' \<and> s3_key_ok X db' b k"
    using key
  proof (cases rule: key_cases)
    case hidden
    have cur: "current_row b k db = None" by (simp add: current_row_rows hidden(1))
    have find: "archived_row b k v db = find (\<lambda>r. ob_version r = v) (hist db b k)"
      unfolding hidden(2) archived_row_eq by (rule find_newest[symmetric]) (use distinct hidden(2) in simp)
    show ?thesis
    proof (cases "archived_row b k v db")
      case None
      with find have "find (\<lambda>r. ob_version r = v) (hist db b k) = None" by simp
      then have "v \<notin> ob_version ` set (hist db b k)" by (auto simp: find_None_set)
      then show ?thesis using None by (intro gone) (simp_all add: db' delete_version_def cur outcome_eq)
    next
      case (Some a)
      show ?thesis
      proof (rule restored[of "delete_archived b k v db"])
        show "db' = (restore_latest b k (delete_archived b k v db))\<lparr> s3_seq := s3_seq (restore_latest b k (delete_archived b k v db)) + 1 \<rparr>"
          by (simp add: db' delete_version_def cur outcome_eq Some)
        show "hist (delete_archived b k v db) b k = hist_drop v (hist db b k)"
          by (simp only: hist_def[of "delete_archived b k v db"] key_delete_archived hidden append_Nil newest_first_remove hist_drop_def)
      qed (simp_all only: key_delete_archived hidden, simp_all)
    qed
  next
    case (shown c)
    have cur: "current_row b k db = Some c" by (simp add: current_row_rows shown(1))
    have find: "archived_row b k v db = find (\<lambda>r. ob_version r = v) (newest_first (old_rows b k db))"
      unfolding archived_row_eq by (rule find_newest[symmetric]) (use distinct shown(2) in simp)
    show ?thesis
    proof (cases "ob_version c = v")
      case True
      show ?thesis
      proof (rule restored[of "delete_current b k db"])
        show "db' = (restore_latest b k (delete_current b k db))\<lparr> s3_seq := s3_seq (restore_latest b k (delete_current b k db)) + 1 \<rparr>"
          by (simp add: db' delete_version_def cur outcome_eq True)
        have "hist (delete_current b k db) b k = newest_first (old_rows b k db)"
          by (simp only: hist_def[of "delete_current b k db"] key_delete_current append_Nil)
        also have "\<dots> = hist_drop v (hist db b k)"
          using filter_tl[of c "newest_first (old_rows b k db)"] distinct True by (simp only: shown(2) hist_drop_def)
        finally show "hist (delete_current b k db) b k = hist_drop v (hist db b k)" .
      qed (simp_all only: key_delete_current, simp_all)
    next
      case False
      show ?thesis
      proof (cases "archived_row b k v db")
        case None
        with find have "find (\<lambda>r. ob_version r = v) (newest_first (old_rows b k db)) = None" by simp
        with False have "v \<notin> ob_version ` set (hist db b k)" by (auto simp: find_None_set shown(2))
        then show ?thesis using None False by (intro gone) (simp_all add: db' delete_version_def cur outcome_eq)
      next
        case (Some a)
        show ?thesis
        proof (rule restored[of "delete_archived b k v db"])
          show "db' = (restore_latest b k (delete_archived b k v db))\<lparr> s3_seq := s3_seq (restore_latest b k (delete_archived b k v db)) + 1 \<rparr>"
            by (simp add: db' delete_version_def cur outcome_eq Some False)
          show "hist (delete_archived b k v db) b k = hist_drop v (hist db b k)"
            using False
            by (simp only: hist_def[of "delete_archived b k v db"] key_delete_archived shown(1,2) append.simps newest_first_remove
                hist_drop_def filter.simps if_True not_False_eq_True simp_thms)
        qed (simp_all only: key_delete_archived shown(1), simp_all)
      qed
    qed
  qed
  then show "hist db' b k = hist_drop v (hist db b k)" "s3_on_key b k db db'" "s3_ok X db'"
    using frame_ok[OF ok] by blast+
qed

end
