(* ===== verification/S3_System.thy ===== *)
theory S3_System
  imports S3_Refinement
begin

text \<open>
  S3, part 6: the machine of all operations of the service, and the invariant of its reachable states.
\<close>

subsection \<open>Delete markers\<close>

lemma add_marker_eq: "add_marker X b k ver now db =
  (let p = (if ver = VEnabled then new_version_id X db else (''null'', db));
       room = make_room b k (fst p) (\<lambda>c. ob_version c = fst p) (snd p)
   in if list_ex (is_version b k (fst p)) (s3_versions room) then
        (Inl (s3_internal (''UNIQUE constraint failed: s3_object_versions.bucket, s3_object_versions.key, ''
                 @ ''s3_object_versions.version_id'')), db\<lparr> s3_draws := s3_draws room \<rparr>)
      else (Inr \<lparr> de_version = Some (fst p), de_marker = True, de_seq = s3_seq room + 1, de_versioning = ver \<rparr>,
            add_archived (marker_row X b k (fst p) (s3_seq room + 1) now) (room\<lparr> s3_seq := s3_seq room + 1 \<rparr>)))"
  by (simp add: add_marker_def make_room_def Let_def next_seq_def case_prod_unfold add_archived_def)

lemma add_marker_hist:
  assumes fresh: "ids_fresh X" and ok: "s3_ok X db" and exists: "bucket_exists b db" and ver: "ver = bucket_state b db"
    and conf: "ver \<noteq> Unversioned" and db': "db' = snd (add_marker X b k ver now db)"
  shows "hist db' b k = hist_put (marker_row X b k (next_version X b db) (s3_seq db + 1) now) (hist db b k)"
    "s3_on_key b k db db'" "s3_ok X db'"
    "fst (add_marker X b k ver now db) = Inr \<lparr> de_version = Some (next_version X b db), de_marker = True,
       de_seq = s3_seq db + 1, de_versioning = ver \<rparr>"
proof -
  let ?mid = "next_version X b db" and ?Q = "\<lambda>c. ob_version c = next_version X b db"
  let ?d = "db\<lparr> s3_seq := s3_seq db, s3_draws := draws_after b db \<rparr>"
  let ?room = "make_room b k ?mid ?Q ?d" and ?row = "marker_row X b k ?mid (s3_seq db + 1) now"
  have key: "s3_key_ok X db b k" using ok by (simp add: s3_ok_def)
  have draws: "s3_draws db \<le> draws_after b db" by (simp add: draws_after_def)
  have keyd: "s3_key_ok X ?d b k" using key draws by (intro key_ok_counters) simp_all
  have vid: "?mid = ''null'' \<or> ?mid \<notin> ob_version ` set (hist ?d b k)"
    unfolding counters_fields by (rule next_version_new[OF fresh key])
  note room = hist_make_room[OF keyd refl vid, unfolded counters_fields]
  have fields: "s3_seq ?room = s3_seq db \<and> s3_draws ?room = draws_after b db"
    by (simp add: make_room_def delete_archived_def delete_current_def archive_current_def Let_def split: option.split)
  have "set (old_rows b k ?room) = set (filter (\<lambda>r. ob_version r \<noteq> ?mid) (hist db b k))"
    unfolding room(2)[symmetric] by (rule set_sort[symmetric])
  then have "\<forall>r\<in>set (s3_versions ?room). \<not> is_version b k ?mid r" by (auto simp: is_version_object)
  then have free: "\<not> list_ex (is_version b k ?mid) (s3_versions ?room)" by (simp add: list_ex_iff)
  have new: "(if ver = VEnabled then new_version_id X db else (''null'', db)) = (?mid, ?d)"
    by (simp add: new_version_id_def next_version_def draws_after_def ver)
  have "add_marker X b k ver now db = (Inr \<lparr> de_version = Some ?mid, de_marker = True, de_seq = s3_seq db + 1,
      de_versioning = ver \<rparr>, add_archived ?row (?room\<lparr> s3_seq := s3_seq db + 1 \<rparr>))"
    using free fields by (simp only: add_marker_eq new Let_def fst_conv snd_conv if_False)
  note run = this
  then show "fst (add_marker X b k ver now db) = Inr \<lparr> de_version = Some (next_version X b db), de_marker = True,
       de_seq = s3_seq db + 1, de_versioning = ver \<rparr>" by simp
  have row: "is_object b k ?row" by (simp add: marker_row_def is_object_def)
  have db'_eq: "db' = add_archived ?row (?room\<lparr> s3_seq := s3_seq db + 1 \<rparr>)" by (simp only: db' run snd_conv)
  have cur: "cur_rows b k db' = []" by (simp only: db'_eq key_add[OF row] hist_seq room(1))
  have old: "old_rows b k db' = old_rows b k ?room @ [?row]" by (simp only: db'_eq key_add[OF row] hist_seq)
  have rows: "ob_seq r \<le> s3_seq db" if "r \<in> set (hist db b k)" for r using key that unfolding s3_key_ok_def by blast
  have "sorted_wrt newer (hist_put ?row (hist db b k))"
    using key rows by (force simp: hist_put_def marker_row_def sorted_wrt_filter s3_key_ok_def)
  then have "sorted_wrt newer (?row # newest_first (old_rows b k ?room))"
    by (simp only: room(2) hist_put_def marker_row_def s3_object.select_convs)
  then have newest: "newest_first (old_rows b k db') = ?row # filter (\<lambda>r. ob_version r \<noteq> ?mid) (hist db b k)"
    unfolding old by (simp only: newest_first_add room(2))
  show h: "hist db' b k = hist_put ?row (hist db b k)"
    by (simp only: hist_def[of db'] cur newest append_Nil) (simp add: hist_put_def marker_row_def)
  show frame: "s3_on_key b k db db'"
    unfolding db'_eq
    by (rule on_key_trans[OF on_key_counters on_key_trans[OF room(3) on_key_trans[OF on_key_seq key_add(6)[OF row]]]])
       (use draws fields in simp_all)
  have "s3_key_ok X db' b k"
  proof (rule key_ok_push[OF key frame exists h])
    show "shows_newest (cur_rows b k db') (old_rows b k db')"
      by (simp only: shows_newest_def cur newest list.case) (simp add: marker_row_def)
    show "known_id X (s3_draws db') (ob_version ?row)"
      using fields by (simp add: db'_eq add_archived_def marker_row_def next_version_known)
    show "old_rows b k db' = [] \<and> (\<forall>r\<in>set (cur_rows b k db'). ob_version r = ''null'')" if "bucket_state b db = Unversioned"
      using conf ver that by simp
  qed (simp_all only: cur, simp_all add: db'_eq add_archived_def marker_row_def)
  with ok frame show "s3_ok X db'" by (rule frame_ok)
qed

text \<open>Deleting without a version in a bucket that never had versioning: the object is gone.\<close>

lemma delete_plain_hist:
  assumes ok: "s3_ok X db" and U: "bucket_state b db = Unversioned"
    and db': "db' = snd (outcome None False ver (delete_current b k db))"
  shows "hist db' b k = []" "s3_on_key b k db db'" "s3_ok X db'"
proof -
  have key: "s3_key_ok X db b k" using ok by (simp add: s3_ok_def)
  have old: "old_rows b k db = []" using key U unfolding s3_key_ok_def by blast
  have eq: "db' = (delete_current b k db)\<lparr> s3_seq := s3_seq db + 1 \<rparr>" by (simp add: db' outcome_eq delete_current_def)
  have rows: "cur_rows b k db' = []" "old_rows b k db' = []" by (simp_all only: eq hist_seq key_delete_current old)
  then show h: "hist db' b k = []" by (simp add: hist_def)
  show frame: "s3_on_key b k db db'"
    unfolding eq by (rule on_key_trans[OF key_delete_current(3) on_key_seq]) (simp add: delete_current_def)
  have "s3_key_ok X db' b k" unfolding s3_key_ok_def h rows by (simp add: shows_newest_def)
  with ok frame show "s3_ok X db'" by (rule frame_ok)
qed

subsection \<open>Tags\<close>

lemma set_tags_rows:
  assumes ok: "s3_ok X db" and info: "resolve_version b k vid db = Inr info"
  shows "hist (snd (set_object_tags b k vid tags db)) b' k'
      = map (\<lambda>r. if same_row_as (oi_row info) r then r\<lparr> ob_tags := tags \<rparr> else r) (hist db b' k')"
    "s3_ok X (snd (set_object_tags b k vid tags db))"
proof -
  define f where "f r = (if same_row_as (oi_row info) r then r\<lparr> ob_tags := tags \<rparr> else r)" for r
  let ?db = "snd (set_object_tags b k vid tags db)"
  have eq: "?db = db\<lparr> s3_objects := map f (s3_objects db), s3_versions := map f (s3_versions db) \<rparr>"
    by (simp add: set_object_tags_def info Let_def sql_update_def f_def)
  have keys: "is_object b' k' (f r) = is_object b' k' r" "ob_seq (f r) = ob_seq r" "ob_version (f r) = ob_version r"
    "ob_marker (f r) = ob_marker r" for b' k' r
    by (simp_all add: f_def is_object_def)
  have rows: "cur_rows b' k' ?db = map f (cur_rows b' k' db)" "old_rows b' k' ?db = map f (old_rows b' k' db)" for b' k'
    by (simp_all add: eq filter_map comp_def keys)
  have insort: "insort_key (\<lambda>r. - ob_seq r) (f x) (map f xs) = map f (insort_key (\<lambda>r. - ob_seq r) x xs)" for x xs
    by (induction xs) (simp_all add: keys)
  have sort: "newest_first (map f A) = map f (newest_first A)" for A
    by (induction A) (simp_all add: insort)
  have h: "hist ?db b' k' = map f (hist db b' k')" for b' k' by (simp only: hist_def rows sort map_append)
  then show "hist ?db b' k' = map (\<lambda>r. if same_row_as (oi_row info) r then r\<lparr> ob_tags := tags \<rparr> else r) (hist db b' k')"
    by (simp add: f_def)
  have comp: "ob_version \<circ> f = ob_version" by (simp add: fun_eq_iff keys)
  have "s3_key_ok X ?db b' k'" for b' k'
  proof -
    have "s3_key_ok X db b' k'" using ok by (simp add: s3_ok_def)
    moreover have "shows_newest (map f C) (map f A) = shows_newest C A" for C A
      by (simp add: shows_newest_def sort keys split: list.split)
    moreover have "bucket_exists b' ?db = bucket_exists b' db" "bucket_state b' ?db = bucket_state b' db"
      "s3_seq ?db = s3_seq db" "s3_draws ?db = s3_draws db"
      by (simp_all add: eq bucket_exists_def bucket_state_def config_get_def)
    ultimately show ?thesis by (simp add: s3_key_ok_def h rows sorted_wrt_map comp keys)
  qed
  then show "s3_ok X ?db" by (simp add: s3_ok_def)
qed

lemma set_tags_ok: "s3_ok X db \<Longrightarrow> s3_ok X (snd (set_object_tags b k vid tags db))"
proof (cases "resolve_version b k vid db")
  case (Inl e)
  then show "s3_ok X db \<Longrightarrow> s3_ok X (snd (set_object_tags b k vid tags db))" by (simp add: set_object_tags_def)
qed (rule set_tags_rows)

subsection \<open>Buckets and uploads\<close>

lemma rows_same_ok:
  assumes ok: "s3_ok X db" and rows: "s3_objects db' = s3_objects db" "s3_versions db' = s3_versions db"
    and grow: "s3_seq db \<le> s3_seq db'" "s3_draws db \<le> s3_draws db'"
    and exists: "\<And>b k. hist db b k \<noteq> [] \<Longrightarrow> bucket_exists b db'"
    and state: "\<And>b k. bucket_state b db' = Unversioned \<Longrightarrow> bucket_state b db = Unversioned \<or> hist db b k = []"
  shows "s3_ok X db'"
  unfolding s3_ok_def
proof (intro allI)
  fix b k
  have key: "s3_key_ok X db b k" using ok by (simp add: s3_ok_def)
  have h: "hist db' b k = hist db b k" by (simp only: hist_def rows)
  have "ob_seq r \<le> s3_seq db' \<and> known_id X (s3_draws db') (ob_version r)" if "r \<in> set (hist db b k)" for r
    using key that grow unfolding s3_key_ok_def by (meson known_mono order_trans)
  moreover have "old_rows b k db = [] \<and> (\<forall>r\<in>set (cur_rows b k db). ob_version r = ''null'')"
    if "bucket_state b db' = Unversioned"
  proof (cases "hist db b k = []")
    case True
    then have "cur_rows b k db = []" "newest_first (old_rows b k db) = []" by (simp_all add: hist_def)
    moreover from this(2) have "set (old_rows b k db) = {}" by (metis set_empty set_sort)
    ultimately show ?thesis by simp
  next
    case False
    with state that have "bucket_state b db = Unversioned" by blast
    with key show ?thesis unfolding s3_key_ok_def by blast
  qed
  ultimately show "s3_key_ok X db' b k"
    using key exists[of b k] unfolding s3_key_ok_def h rows by blast
qed

lemma bucket_exists_iff: "bucket_exists b db \<longleftrightarrow> b \<in> b3_name ` set (s3_buckets db)"
  by (auto simp: bucket_exists_def sql_count_def filter_empty_conv)

lemma hist_rows: "set (hist db b k) = {r \<in> set (s3_objects db) \<union> set (s3_versions db). is_object b k r}"
  by (auto simp: hist_def)

lemma config_get_sql_delete:
  "(\<And>c. P c \<Longrightarrow> \<not> (cf_bucket c = b \<and> cf_kind c = kind)) \<Longrightarrow>
   config_get b kind (db\<lparr> s3_configs := sql_delete P (s3_configs db) \<rparr>) = config_get b kind db"
proof -
  assume P: "\<And>c. P c \<Longrightarrow> \<not> (cf_bucket c = b \<and> cf_kind c = kind)"
  have "(\<lambda>c. (cf_bucket c = b \<and> cf_kind c = kind) \<and> \<not> P c) = (\<lambda>c. cf_bucket c = b \<and> cf_kind c = kind)"
    using P by auto
  then show ?thesis by (simp add: config_get_def find_sql_delete)
qed

lemma config_get_put:
  "config_get b' kind' (snd (put_config b kind body db)) =
     (if bucket_exists b db \<and> b' = b \<and> kind' = kind then Some body else config_get b' kind' db)"
proof (cases "bucket_exists b db")
  case True
  let ?m = "\<lambda>c. cf_bucket c = b \<and> cf_kind c = kind" and ?m' = "\<lambda>c. cf_bucket c = b' \<and> cf_kind c = kind'"
  have upd: "find ?m' (sql_update ?m (\<lambda>c. c\<lparr> cf_body := body \<rparr>) cs)
      = map_option (\<lambda>c. if ?m c then c\<lparr> cf_body := body \<rparr> else c) (find ?m' cs)" for cs
    by (rule find_sql_update) simp
  show ?thesis
  proof (cases "list_ex ?m (s3_configs db)")
    case some: True
    then have run: "s3_configs (snd (put_config b kind body db)) = sql_update ?m (\<lambda>c. c\<lparr> cf_body := body \<rparr>) (s3_configs db)"
      using True by (simp add: put_config_def Let_def)
    show ?thesis
    proof (cases "find ?m' (s3_configs db)")
      case None
      then have "\<not> (b' = b \<and> kind' = kind)" using some by (auto simp: find_None_set list_ex_iff)
      then show ?thesis unfolding config_get_def run upd None by simp
    next
      case (Some c)
      then have "?m' c" by (auto dest: find_Some_set)
      then show ?thesis unfolding config_get_def run upd Some using True by auto
    qed
  next
    case False
    then have "find ?m (s3_configs db) = None" by (auto simp: find_None_set list_ex_iff)
    then show ?thesis
      using True False by (auto simp: put_config_def config_get_def Let_def find_append split: option.splits)
  qed
qed (simp add: put_config_def config_get_def)

subsection \<open>The machine\<close>

text \<open>
  The state of versioning is set to enabled or suspended only, and no route stores or deletes its
  document otherwise (bucket.rs).
\<close>

datatype s3_op =
    S3CreateBucket string int
  | S3DeleteBucket string
  | S3SetVersioning string bool
  | S3PutConfig string string string
  | S3DeleteConfig string string
  | S3Write string string new_object int
  | S3Delete string string "string option" int
  | S3SetTags string string "string option" s3_tags
  | S3CreateUpload string string string obj_meta s3_tags int
  | S3UploadPart string string string int string obj_meta int
  | S3CompleteUpload string string string "(int \<times> string) list" int
  | S3AbortUpload string string string

datatype s3_resp =
    S3Bool "(s3_error, bool) result"
  | S3Unit "(s3_error, unit) result"
  | S3Written "(s3_error, write_result) result"
  | S3Deleted "(s3_error, delete_outcome) result"
  | S3Info "(s3_error, object_info) result"
  | S3Upload "(s3_error, s3_upload) result"
  | S3Etag "(s3_error, string) result"
  | S3Ignored

fun s3_exec :: "s3_env \<Rightarrow> s3_op \<Rightarrow> s3_db \<Rightarrow> s3_resp \<times> s3_db" where
  "s3_exec X (S3CreateBucket b now) db = map_prod S3Bool id (create_bucket X b now db)"
| "s3_exec X (S3DeleteBucket b) db = map_prod S3Unit id (delete_bucket b db)"
| "s3_exec X (S3SetVersioning b on) db =
     map_prod S3Unit id (put_config b ''versioning'' (if on then ''Enabled'' else ''Suspended'') db)"
| "s3_exec X (S3PutConfig b kind body) db =
     (if kind = ''versioning'' then (S3Ignored, db) else map_prod S3Unit id (put_config b kind body db))"
| "s3_exec X (S3DeleteConfig b kind) db =
     (if kind = ''versioning'' then (S3Ignored, db) else map_prod S3Unit id (delete_config b kind db))"
| "s3_exec X (S3Write b k obj now) db = map_prod S3Written id (write_object_tx X b k obj now db)"
| "s3_exec X (S3Delete b k vid now) db = map_prod S3Deleted id (delete_object X b k vid now db)"
| "s3_exec X (S3SetTags b k vid tags) db = map_prod S3Info id (set_object_tags b k vid tags db)"
| "s3_exec X (S3CreateUpload b k ct meta tags now) db = map_prod S3Upload id (create_upload X b k ct meta tags now db)"
| "s3_exec X (S3UploadPart b k i n content meta now) db = map_prod S3Etag id (upload_part X b k i n content meta now db)"
| "s3_exec X (S3CompleteUpload b k i parts now) db = map_prod S3Written id (complete_upload X b k i parts now db)"
| "s3_exec X (S3AbortUpload b k i) db = map_prod S3Unit id (abort_upload b k i db)"

subsection \<open>Operations on histories\<close>

type_synonym histories = "string \<Rightarrow> string \<Rightarrow> s3_object list"

definition upd_key :: "string \<Rightarrow> string \<Rightarrow> (s3_object list \<Rightarrow> s3_object list) \<Rightarrow> histories \<Rightarrow> histories" where
  "upd_key b k f h = (\<lambda>b' k'. if b' = b \<and> k' = k then f (h b k) else h b' k')"

text \<open>The object a completed upload stores, when it can be completed.\<close>

definition upload_object :: "s3_env \<Rightarrow> string \<Rightarrow> string \<Rightarrow> string \<Rightarrow> (int \<times> string) list \<Rightarrow> s3_db \<Rightarrow> new_object option" where
  "upload_object X b k i requested db =
     (if requested = [] \<or> \<not> sorted_wrt (<) (map fst requested) then None
      else (case upload_row b k i db of
          Inl e \<Rightarrow> None
        | Inr u \<Rightarrow> (case gather_parts X i requested db of
              Inl e \<Rightarrow> None
            | Inr (content, md5s, sizes) \<Rightarrow> Some
                \<lparr> no_content_bytes = content, no_type = up_type u,
                  no_etag = CHR 0x22 # md5_raw (s3_ext X) md5s @ ''-'' @ show_nat (length requested) @ [CHR 0x22],
                  no_meta = (up_meta u)\<lparr> mt_parts := sizes, mt_checksums := [] \<rparr>, no_tags = up_tags u \<rparr>)))"

fun hist_step :: "s3_env \<Rightarrow> s3_op \<Rightarrow> s3_db \<Rightarrow> histories \<Rightarrow> histories" where
  "hist_step X (S3Write b k obj now) db h =
     (if bucket_exists b db then upd_key b k (hist_put (written_row X b k obj now db)) h else h)"
| "hist_step X (S3CompleteUpload b k i parts now) db h =
     (case upload_object X b k i parts db of
        None \<Rightarrow> h | Some obj \<Rightarrow> upd_key b k (hist_put (written_row X b k obj now db)) h)"
| "hist_step X (S3Delete b k vid now) db h =
     (if bucket_exists b db then
        upd_key b k (\<lambda>vs. case vid of
            Some v \<Rightarrow> hist_drop v vs
          | None \<Rightarrow> if bucket_state b db = Unversioned then []
                    else hist_put (marker_row X b k (next_version X b db) (s3_seq db + 1) now) vs) h
      else h)"
| "hist_step X (S3SetTags b k vid tags) db h =
     (case hist_get k vid (h b k) of
        Inl e \<Rightarrow> h
      | Inr r \<Rightarrow> upd_key b k (map (\<lambda>s. if ob_version s = ob_version r then s\<lparr> ob_tags := tags \<rparr> else s)) h)"
| "hist_step X x db h = h"

lemma hist_upd_key:
  assumes "s3_on_key b k db db'" "hist db' b k = f (hist db b k)"
  shows "hist db' = upd_key b k f (hist db)"
proof (intro ext)
  fix b' k'
  show "hist db' b' k' = upd_key b k f (hist db) b' k'"
  proof (cases "(b', k') = (b, k)")
    case False
    then have "hist db' b' k' = hist db b' k'" using assms(1) unfolding s3_on_key_def hist_def by metis
    with False show ?thesis by (auto simp: upd_key_def)
  qed (use assms(2) in \<open>simp add: upd_key_def\<close>)
qed

lemma delete_upload_rows: "hist (delete_upload i db) = hist db" "s3_ok X (delete_upload i db) = s3_ok X db"
proof -
  have rows: "s3_objects (delete_upload i db) = s3_objects db" "s3_versions (delete_upload i db) = s3_versions db"
    by (simp_all add: delete_upload_def)
  then show h: "hist (delete_upload i db) = hist db" by (simp add: hist_def fun_eq_iff)
  show "s3_ok X (delete_upload i db) = s3_ok X db"
    unfolding s3_ok_def s3_key_ok_def h rows by (simp add: delete_upload_def bucket_exists_def bucket_state_def config_get_def)
qed

lemma complete_upload_eq:
  "snd (complete_upload X b k i parts now db) = (case upload_object X b k i parts db of
     None \<Rightarrow> db | Some obj \<Rightarrow> delete_upload i (snd (write_object_tx X b k obj now db)))"
proof (cases "upload_object X b k i parts db")
  case None
  then show ?thesis
    by (auto simp: complete_upload_def upload_object_def split: if_splits sum.splits prod.splits)
next
  case (Some obj)
  then obtain u where u: "upload_row b k i db = Inr u" by (auto simp: upload_object_def split: if_splits sum.splits)
  then have "bucket_exists b db" by (auto simp: upload_row_def require_bucket_def try_bind_def split: if_splits)
  then obtain w d where w: "write_object_tx X b k obj now db = (Inr w, d)" by (simp add: write_object_eq Let_def)
  with Some show ?thesis
    by (auto simp: complete_upload_def upload_object_def Let_def split: if_splits sum.splits)
qed

lemma upload_needs_bucket: "upload_object X b k i parts db = Some obj \<Longrightarrow> bucket_exists b db"
  by (auto simp: upload_object_def upload_row_def require_bucket_def try_bind_def split: if_splits sum.splits)

lemma write_no_bucket: "\<not> bucket_exists b db \<Longrightarrow> snd (write_object_tx X b k obj now db) = db"
  by (simp add: write_object_tx_def versioning_of_def require_bucket_def)

lemma delete_object_cases:
  "snd (delete_object X b k vid now db) =
     (if bucket_exists b db then (case vid of
          Some v \<Rightarrow> snd (delete_version b k v (bucket_state b db) db)
        | None \<Rightarrow> if bucket_state b db = Unversioned then snd (outcome None False (bucket_state b db) (delete_current b k db))
            else snd (add_marker X b k (bucket_state b db) now db))
      else db)"
proof (cases "bucket_exists b db")
  case True
  then have "versioning_of b db = Inr (bucket_state b db)" by (simp add: versioning_Inr)
  with True show ?thesis by (simp add: delete_object_def split: option.split)
qed (simp add: delete_object_def versioning_of_def require_bucket_def)

lemma hist_tags:
  assumes ok: "s3_ok X db"
  shows "hist (snd (set_object_tags b k vid tags db)) = hist_step X (S3SetTags b k vid tags) db (hist db)"
proof (cases "bucket_exists b db")
  case False
  then have "resolve_version b k vid db = Inl (no_such_bucket b)" by (simp add: resolve_version_def require_bucket_def)
  then have "snd (set_object_tags b k vid tags db) = db" by (simp add: set_object_tags_def)
  moreover have "hist db b k = []" using ok False unfolding s3_ok_def s3_key_ok_def by blast
  ultimately show ?thesis by (auto simp: hist_get_def split: option.splits)
next
  case True
  have key: "s3_key_ok X db b k" using ok by (simp add: s3_ok_def)
  note get = resolve_hist[OF key True, of vid]
  show ?thesis
  proof (cases "resolve_version b k vid db")
    case (Inl e)
    then have "snd (set_object_tags b k vid tags db) = db" by (simp add: set_object_tags_def)
    moreover have "hist_get k vid (hist db b k) = Inl e" using get Inl by simp
    ultimately show ?thesis by simp
  next
    case (Inr info)
    let ?r = "oi_row info" and ?db = "snd (set_object_tags b k vid tags db)"
    let ?f = "\<lambda>r. if same_row_as ?r r then r\<lparr> ob_tags := tags \<rparr> else r"
    have g: "hist_get k vid (hist db b k) = Inr ?r" using get Inr by simp
    have r: "?r \<in> set (hist db b k)"
      using g by (auto simp: hist_get_def dest: find_Some_set split: option.splits list.splits if_splits)
    have rk: "is_object b k ?r" using r by (simp add: hist_rows)
    note h = set_tags_rows(1)[OF ok Inr]
    show ?thesis
    proof (intro ext)
      fix b' k'
      show "hist ?db b' k' = hist_step X (S3SetTags b k vid tags) db (hist db) b' k'"
      proof (cases "b' = b \<and> k' = k")
        case True
        have "same_row_as ?r s \<longleftrightarrow> ob_version s = ob_version ?r" if s: "s \<in> set (hist db b k)" for s
        proof
          assume v: "ob_version s = ob_version ?r"
          have "distinct (map ob_version (hist db b k))" using key by (simp add: s3_key_ok_def)
          from key_inject[OF this s r v] rk show "same_row_as ?r s"
            by (simp add: same_row_as_def is_version_object is_object_def)
        qed (simp add: same_row_as_def is_version_object)
        then have "map ?f (hist db b k) = map (\<lambda>s. if ob_version s = ob_version ?r then s\<lparr> ob_tags := tags \<rparr> else s) (hist db b k)"
          by (intro map_cong) auto
        with True show ?thesis by (simp add: g h upd_key_def)
      next
        case False
        have "\<not> same_row_as ?r s" if "s \<in> set (hist db b' k')" for s
          using that rk False by (auto simp: hist_rows same_row_as_def is_version_object is_object_def)
        then have "map ?f (hist db b' k') = hist db b' k'" by (intro map_idI) auto
        with False show ?thesis by (auto simp: g h upd_key_def)
      qed
    qed
  qed
qed

lemma put_config_rows:
  "s3_objects (snd (put_config b kind body db)) = s3_objects db" "s3_versions (snd (put_config b kind body db)) = s3_versions db"
  "s3_seq (snd (put_config b kind body db)) = s3_seq db" "s3_draws (snd (put_config b kind body db)) = s3_draws db"
  "s3_buckets (snd (put_config b kind body db)) = s3_buckets db"
  by (simp_all add: put_config_def Let_def)

lemma put_config_ok:
  assumes ok: "s3_ok X db" and kind: "kind = ''versioning'' \<Longrightarrow> versioning_parse body \<noteq> Unversioned"
  shows "s3_ok X (snd (put_config b kind body db))"
proof (rule rows_same_ok[OF ok])
  fix b' k assume "hist db b' k \<noteq> []"
  then have "bucket_exists b' db" using ok unfolding s3_ok_def s3_key_ok_def by blast
  then show "bucket_exists b' (snd (put_config b kind body db))" by (simp add: bucket_exists_def put_config_rows)
next
  fix b' k assume "bucket_state b' (snd (put_config b kind body db)) = Unversioned"
  with kind show "bucket_state b' db = Unversioned \<or> hist db b' k = []"
    by (auto simp: bucket_state_def config_get_put split: if_splits)
qed (simp_all add: put_config_rows)

lemma delete_config_ok:
  assumes ok: "s3_ok X db" and kind: "kind \<noteq> ''versioning''"
  shows "s3_ok X (snd (delete_config b kind db))"
proof (cases "bucket_exists b db")
  case True
  let ?db = "snd (delete_config b kind db)"
  have eq: "?db = db\<lparr> s3_configs := sql_delete (\<lambda>c. cf_bucket c = b \<and> cf_kind c = kind) (s3_configs db) \<rparr>"
    using True by (simp add: delete_config_def)
  show ?thesis
  proof (rule rows_same_ok[OF ok])
    fix b' k assume "hist db b' k \<noteq> []"
    then have "bucket_exists b' db" using ok unfolding s3_ok_def s3_key_ok_def by blast
    then show "bucket_exists b' ?db" by (simp add: eq bucket_exists_def)
  next
    fix b' k assume "bucket_state b' ?db = Unversioned"
    moreover have "config_get b' ''versioning'' ?db = config_get b' ''versioning'' db"
      unfolding eq by (rule config_get_sql_delete) (use kind in auto)
    ultimately show "bucket_state b' db = Unversioned \<or> hist db b' k = []" by (simp add: bucket_state_def)
  qed (simp_all add: eq)
qed (use ok in \<open>simp add: delete_config_def\<close>)

lemma delete_bucket_ok:
  assumes ok: "s3_ok X db"
  shows "s3_ok X (snd (delete_bucket b db))"
proof (cases "bucket_exists b db \<and> sql_count (\<lambda>r. ob_bucket r = b) (s3_objects db) = 0
    \<and> sql_count (\<lambda>r. ob_bucket r = b) (s3_versions db) = 0")
  case True
  let ?db = "snd (delete_bucket b db)"
  have empty: "hist db b k = []" for k
    using True by (auto simp: hist_def sql_count_def filter_empty_conv is_object_def)
  have fields: "s3_objects ?db = s3_objects db" "s3_versions ?db = s3_versions db" "s3_seq ?db = s3_seq db"
    "s3_draws ?db = s3_draws db" "s3_buckets ?db = sql_delete (\<lambda>r. b3_name r = b) (s3_buckets db)"
    "s3_configs ?db = sql_delete (\<lambda>c. cf_bucket c = b) (s3_configs db)"
    using True by (simp_all add: delete_bucket_def Let_def)
  show ?thesis
  proof (rule rows_same_ok[OF ok])
    fix b' k assume h: "hist db b' k \<noteq> []"
    then have "b' \<noteq> b" using empty by auto
    moreover have "bucket_exists b' db" using ok h unfolding s3_ok_def s3_key_ok_def by blast
    ultimately show "bucket_exists b' ?db" by (auto simp: bucket_exists_iff fields)
  next
    fix b' k assume u: "bucket_state b' ?db = Unversioned"
    show "bucket_state b' db = Unversioned \<or> hist db b' k = []"
    proof (cases "b' = b")
      case False
      have "config_get b' ''versioning'' (db\<lparr> s3_configs := sql_delete (\<lambda>c. cf_bucket c = b) (s3_configs db) \<rparr>)
          = config_get b' ''versioning'' db"
        by (rule config_get_sql_delete) (use False in auto)
      then have "config_get b' ''versioning'' ?db = config_get b' ''versioning'' db" by (simp add: config_get_def fields)
      with u show ?thesis by (simp add: bucket_state_def)
    qed (simp add: empty)
  qed (simp_all add: fields)
qed (use ok in \<open>auto simp: delete_bucket_def\<close>)

lemma uploads_ok:
  assumes ok: "s3_ok X db" and same: "s3_objects db' = s3_objects db" "s3_versions db' = s3_versions db" "s3_seq db' = s3_seq db"
    "s3_draws db \<le> s3_draws db'" "s3_configs db' = s3_configs db" "set (s3_buckets db) \<subseteq> set (s3_buckets db')"
  shows "s3_ok X db'"
proof (rule rows_same_ok[OF ok])
  fix b k assume "hist db b k \<noteq> []"
  then have "bucket_exists b db" using ok unfolding s3_ok_def s3_key_ok_def by blast
  then show "bucket_exists b db'" using same(6) by (auto simp: bucket_exists_iff)
qed (use same in \<open>simp_all add: bucket_state_def config_get_def\<close>)

text \<open>Every operation does to the histories what the abstract operation does, and keeps the invariant.\<close>

lemma s3_exec_step:
  assumes fresh: "ids_fresh X" and ok: "s3_ok X db"
  shows "hist (snd (s3_exec X x db)) = hist_step X x db (hist db) \<and> s3_ok X (snd (s3_exec X x db))"
proof -
  have wr: "hist (snd (write_object_tx X b k obj now db)) = upd_key b k (hist_put (written_row X b k obj now db)) (hist db)
      \<and> s3_ok X (snd (write_object_tx X b k obj now db))" if "bucket_exists b db" for b k obj now
    using write_object_hist[OF fresh ok that refl] hist_upd_key by blast
  have rows: "s3_objects db' = s3_objects db \<Longrightarrow> s3_versions db' = s3_versions db \<Longrightarrow> hist db' = hist db" for db'
    by (simp add: hist_def fun_eq_iff)
  show ?thesis
  proof (cases x)
    case (S3CreateBucket b now)
    have "hist (snd (create_bucket X b now db)) = hist db" by (rule rows) (simp_all add: create_bucket_def)
    moreover have "s3_ok X (snd (create_bucket X b now db))" by (rule uploads_ok[OF ok]) (auto simp: create_bucket_def)
    ultimately show ?thesis by (simp add: S3CreateBucket)
  next
    case (S3DeleteBucket b)
    have "hist (snd (delete_bucket b db)) = hist db" by (rule rows) (simp_all add: delete_bucket_def Let_def)
    then show ?thesis using delete_bucket_ok[OF ok, of b] S3DeleteBucket by simp
  next
    case (S3SetVersioning b on)
    have "s3_ok X (snd (put_config b ''versioning'' (if on then ''Enabled'' else ''Suspended'') db))"
      by (rule put_config_ok[OF ok]) (simp add: versioning_parse_def)
    with S3SetVersioning show ?thesis using rows[OF put_config_rows(1,2)] by simp
  next
    case (S3PutConfig b kind body)
    then show ?thesis using put_config_ok[OF ok, of kind body b] ok rows[OF put_config_rows(1,2)] by simp
  next
    case (S3DeleteConfig b kind)
    have "hist (snd (delete_config b kind db)) = hist db" by (rule rows) (simp_all add: delete_config_def)
    with S3DeleteConfig show ?thesis using delete_config_ok[OF ok, of kind b] ok by simp
  next
    case (S3Write b k obj now)
    then show ?thesis using wr[of b k obj now] write_no_bucket[of b db X k obj now] ok by simp
  next
    case (S3Delete b k vid now)
    show ?thesis
    proof (cases "bucket_exists b db")
      case False
      then show ?thesis using S3Delete ok by (simp add: delete_object_cases)
    next
      case True
      note run = S3Delete True delete_object_cases[of X b k vid now db]
      show ?thesis
      proof (cases vid)
        case (Some v)
        with run have eq: "snd (s3_exec X x db) = snd (delete_version b k v (bucket_state b db) db)" by simp
        note d = delete_version_hist[OF ok eq]
        have "hist (snd (s3_exec X x db)) = upd_key b k (hist_drop v) (hist db)"
          by (rule hist_upd_key[where f = "hist_drop v", OF d(2,1)])
        with d(3) True Some S3Delete show ?thesis by simp
      next
        case None
        show ?thesis
        proof (cases "bucket_state b db = Unversioned")
          case U: True
          with run None have eq: "snd (s3_exec X x db) = snd (outcome None False (bucket_state b db) (delete_current b k db))" by simp
          note d = delete_plain_hist[OF ok U eq]
          have "hist (snd (s3_exec X x db)) = upd_key b k (\<lambda>_. []) (hist db)"
            by (rule hist_upd_key[where f = "\<lambda>_. []", OF d(2,1)])
          with d(3) True None U S3Delete show ?thesis by simp
        next
          case V: False
          with run None have eq: "snd (s3_exec X x db) = snd (add_marker X b k (bucket_state b db) now db)" by simp
          note d = add_marker_hist[OF fresh ok True refl V eq]
          have "hist (snd (s3_exec X x db))
              = upd_key b k (hist_put (marker_row X b k (next_version X b db) (s3_seq db + 1) now)) (hist db)"
            by (rule hist_upd_key[where f = "hist_put (marker_row X b k (next_version X b db) (s3_seq db + 1) now)", OF d(2,1)])
          with d(3) True None V S3Delete show ?thesis by simp
        qed
      qed
    qed
  next
    case (S3SetTags b k vid tags)
    then show ?thesis using hist_tags[OF ok, of b k vid tags] set_tags_ok[OF ok] by simp
  next
    case (S3CreateUpload b k ct meta tags now)
    have "hist (snd (s3_exec X x db)) = hist db"
      by (rule rows) (simp_all add: S3CreateUpload create_upload_def Let_def)
    moreover have "s3_ok X (snd (s3_exec X x db))"
      by (rule uploads_ok[OF ok]) (auto simp: S3CreateUpload create_upload_def Let_def)
    ultimately show ?thesis by (simp add: S3CreateUpload)
  next
    case (S3UploadPart b k i n content meta now)
    have "hist (snd (s3_exec X x db)) = hist db"
      by (rule rows) (simp_all add: S3UploadPart upload_part_def Let_def split: sum.split)
    moreover have "s3_ok X (snd (s3_exec X x db))"
      by (rule uploads_ok[OF ok]) (auto simp: S3UploadPart upload_part_def Let_def split: sum.split)
    ultimately show ?thesis by (simp add: S3UploadPart)
  next
    case (S3CompleteUpload b k i parts now)
    show ?thesis
    proof (cases "upload_object X b k i parts db")
      case None
      then show ?thesis using S3CompleteUpload ok by (simp add: complete_upload_eq)
    next
      case (Some obj)
      then show ?thesis
        using S3CompleteUpload wr[OF upload_needs_bucket[OF Some]] by (simp add: complete_upload_eq delete_upload_rows)
    qed
  next
    case (S3AbortUpload b k i)
    then show ?thesis using ok by (auto simp: abort_upload_def delete_upload_rows split: sum.split)
  qed
qed

interpretation s3: service ids_fresh s3_init s3_exec s3_ok
proof unfold_locales
  fix X show "s3_ok X s3_init"
    by (auto simp: s3_ok_def s3_key_ok_def hist_def s3_init_def shows_newest_def)
next
  fix X db x assume "ids_fresh X" "s3_ok X db"
  then show "s3_ok X (snd (s3_exec X x db))" using s3_exec_step by blast
qed

lemma s3_reached_ok: "ids_fresh X \<Longrightarrow> s3_ok X (snd (run_ops (s3_exec X) xs s3_init))"
  by (rule s3.inv_reached)

text \<open>An environment for examples.\<close>

definition s3_sample_env :: s3_env where
  "s3_sample_env = \<lparr> s3_ext = sample_ext, xml_read = (\<lambda>s. []), version_ids = (\<lambda>n. CHR ''v'' # show_nat n),
     hex_decode = Some \<rparr>"

lemma s3_sample_fresh: "ids_fresh s3_sample_env"
  by (simp add: ids_fresh_def s3_sample_env_def inj_def)

definition s3_sample_object :: "string \<Rightarrow> new_object" where
  "s3_sample_object content = \<lparr> no_content_bytes = content, no_type = [], no_etag = content, no_meta = default_meta, no_tags = [] \<rparr>"

text \<open>The tables of an example: a bucket, its documents and the objects written to it.\<close>

definition s3_sample_db :: "s3_config list \<Rightarrow> s3_object list \<Rightarrow> int \<Rightarrow> s3_db" where
  "s3_sample_db configs rows seq = s3_init\<lparr> s3_buckets := [\<lparr> b3_name = ''b'', b3_created_at = show_int 0 \<rparr>],
     s3_configs := configs, s3_objects := rows, s3_seq := seq \<rparr>"

definition s3_sample_row :: "string \<Rightarrow> string \<Rightarrow> int \<Rightarrow> s3_object" where
  "s3_sample_row k content seq = \<lparr> ob_bucket = ''b'', ob_key = k, ob_version = ''null'', ob_seq = seq, ob_marker = False,
     ob_content = content, ob_type = [], ob_size = int (length content), ob_etag = content, ob_created_at = show_int 1,
     ob_meta = default_meta\<lparr> mt_sse := [(SSE_HEADER, ''AES256'')] \<rparr>, ob_tags = [] \<rparr>"

lemma s3_sample_create: "snd (s3_exec s3_sample_env (S3CreateBucket ''b'' 0) s3_init) = s3_sample_db [] [] 0"
  by (simp add: s3_init_def s3_sample_db_def create_bucket_def bucket_exists_def sql_count_def s3_sample_env_def sample_ext_def)

lemma s3_sample_exists: "bucket_exists ''b'' (s3_sample_db configs rows seq)"
  by (simp add: s3_sample_db_def bucket_exists_def sql_count_def)

lemma s3_sample_write:
  "find (is_object ''b'' k) rows = None \<Longrightarrow>
   snd (s3_exec s3_sample_env (S3Write ''b'' k (s3_sample_object c) 1) (s3_sample_db [] rows seq))
     = s3_sample_db [] (rows @ [s3_sample_row k c (seq + 1)]) (seq + 1)"
  by (simp add: write_object_tx_def versioning_of_def require_bucket_def s3_sample_exists Let_def)
    (simp add: s3_sample_db_def s3_init_def config_get_def versioning_parse_def next_seq_def current_row_def
      delete_archived_def sql_delete_def s3_sample_row_def s3_sample_object_def apply_default_sse_def default_meta_def
      s3_sample_env_def sample_ext_def)

lemma s3_sample_enable:
  "snd (s3_exec s3_sample_env (S3SetVersioning ''b'' True) (s3_sample_db [] rows seq))
     = s3_sample_db [\<lparr> cf_bucket = ''b'', cf_kind = ''versioning'', cf_body = ''Enabled'' \<rparr>] rows seq"
  by (simp add: put_config_def s3_sample_exists Let_def) (simp add: s3_sample_db_def s3_init_def)

lemma s3_sample_enabled:
  "bucket_state ''b'' (s3_sample_db [\<lparr> cf_bucket = ''b'', cf_kind = ''versioning'', cf_body = ''Enabled'' \<rparr>] rows seq) = VEnabled"
  by (simp add: s3_sample_db_def bucket_state_def config_get_def versioning_parse_def)

end
