(* ===== verification/Grouping.thy ===== *)
theory Grouping
  imports Paging "HOL-Library.Multiset"
begin

text \<open>
  Prelude, part 7: listings that group keys by a delimiter.  An object store lists a key itself, or, when
  the delimiter occurs in it after the prefix, the part up to the delimiter, once for all keys that share
  it.  The locale \<open>grouping\<close> is the contract of the function that finds this part; the names a listing
  shows are then ordered like the keys, so that a name stands for a position.
\<close>

subsection \<open>Prefixes and the order of strings\<close>

lemma prefix_le: "(c :: string) \<le> c @ s"
  by (induction c) auto

lemma starts_with_split: "starts_with k c \<longleftrightarrow> (\<exists>s. k = c @ s)"
  unfolding starts_with_def by (metis append_eq_conv_conj append_take_drop_id)

lemma between_extensions: "(c :: string) \<le> k \<Longrightarrow> k \<le> c @ s \<Longrightarrow> starts_with k c"
proof (induction c arbitrary: k)
  case (Cons x c)
  then show ?case by (cases k) (auto simp: starts_with_def)
qed (simp add: starts_with_def)

lemma str_find_here: "str_find d (d @ y) = Some 0"
proof (cases "d @ y")
  case (Cons c x)
  moreover from Cons have "starts_with (c # x) d" unfolding starts_with_split by metis
  ultimately show ?thesis by simp
qed simp

lemma str_find_extension:
  "str_find d x = Some i \<Longrightarrow> str_find d (take (i + length d) x @ y) = Some i"
proof (induction x arbitrary: i)
  case Nil
  then show ?case by (cases y) (auto simp: starts_with_def split: if_splits)
next
  case (Cons c x)
  show ?case
  proof (cases "starts_with (c # x) d")
    case True
    then have i: "i = 0" and d: "take (length d) (c # x) = d" using Cons.prems by (auto simp: starts_with_def)
    then show ?thesis using str_find_here[of d y] by simp
  next
    case False
    then obtain j where j: "str_find d x = Some j" "i = Suc j" using Cons.prems by auto
    have "j + length d \<le> length x" by (rule str_find_bound[OF j(1)])
    then have "\<not> starts_with (c # take (j + length d) x @ y) d"
      using False by (auto simp: starts_with_def take_Cons' min_def split: if_splits)
    then show ?thesis using Cons.IH[OF j(1)] j(2) by simp
  qed
qed

text \<open>The part of a key up to the first delimiter after \<open>n\<close> bytes.\<close>

definition first_group :: "nat \<Rightarrow> string option \<Rightarrow> string \<Rightarrow> string option" where
  "first_group n delim key = (case delim of
     None \<Rightarrow> None
   | Some d \<Rightarrow> map_option (\<lambda>i. take (n + i + length d) key) (str_find d (drop n key)))"

lemma first_group_split: "first_group n delim k = Some c \<Longrightarrow> \<exists>s. k = c @ s"
  by (auto simp: first_group_def split: option.splits) (metis append_take_drop_id)

lemma first_group_same:
  assumes "first_group n delim k = Some c" "starts_with k' c" "delim \<noteq> Some []"
  shows "first_group n delim k' = Some c"
proof -
  obtain d i where d: "delim = Some d" and i: "str_find d (drop n k) = Some i" and c: "c = take (n + i + length d) k"
    using assms(1) by (auto simp: first_group_def split: option.splits)
  from assms(2) obtain s where s: "k' = c @ s" by (auto simp: starts_with_split)
  have "n + i + length d \<le> length k" using str_find_bound[OF i] assms(3) d by (cases "n \<le> length k") auto
  then have len: "length c = n + i + length d" by (simp add: c)
  have "drop n k' = take (i + length d) (drop n k) @ s"
    unfolding s c using \<open>n + i + length d \<le> length k\<close> by (simp add: drop_take)
  then have "str_find d (drop n k') = Some i" using str_find_extension[OF i] by simp
  then show ?thesis using len by (simp add: first_group_def d s)
qed

text \<open>What follows a position of an ordered list is what is greater.\<close>

lemma drop_greater:
  fixes xs :: "string list"
  assumes "sorted_wrt (<) xs" "0 < i" "i \<le> length xs"
  shows "filter (\<lambda>x. xs ! (i - 1) < x) xs = drop i xs"
proof -
  have "filter (\<lambda>x. xs ! (i - 1) < x) (take i xs) = []"
  proof (unfold filter_empty_conv, intro ballI)
    fix x assume "x \<in> set (take i xs)"
    then obtain j where j: "j < i" "x = xs ! j" "j < length xs" by (auto simp: in_set_conv_nth)
    then have "x \<le> xs ! (i - 1)"
      using assms by (cases "j = i - 1") (auto intro!: less_imp_le sorted_wrt_nth_less[OF assms(1)])
    then show "\<not> xs ! (i - 1) < x" by simp
  qed
  moreover have "filter (\<lambda>x. xs ! (i - 1) < x) (drop i xs) = drop i xs"
  proof (intro filter_True ballI)
    fix x assume "x \<in> set (drop i xs)"
    then obtain j where j: "i \<le> j" "j < length xs" "x = xs ! j" by (auto simp: in_set_conv_nth) (metis add.commute le_add2 less_diff_conv)
    then show "xs ! (i - 1) < x" using assms by (auto intro: sorted_wrt_nth_less[OF assms(1)])
  qed
  ultimately show ?thesis by (metis append_take_drop_id filter_append append_Nil)
qed

subsection \<open>Names\<close>

text \<open>The name a key is listed under.\<close>

definition listed_by :: "(string \<Rightarrow> string option) \<Rightarrow> string \<Rightarrow> string" where
  "listed_by grp k = (case grp k of Some c \<Rightarrow> c | None \<Rightarrow> k)"

locale grouping =
  fixes ok :: "'q \<Rightarrow> string \<Rightarrow> bool"
    and grp :: "'q \<Rightarrow> string \<Rightarrow> string option"
  assumes group_split: "ok q k \<Longrightarrow> grp q k = Some c \<Longrightarrow> \<exists>s. k = c @ s"
    and group_same: "ok q k \<Longrightarrow> grp q k = Some c \<Longrightarrow> starts_with k' c \<Longrightarrow> ok q k' \<and> grp q k' = Some c"
begin

lemma listed_le: "ok q k \<Longrightarrow> listed_by (grp q) k \<le> k"
  by (auto simp: listed_by_def prefix_le split: option.split dest!: group_split)

lemma listed_mono:
  assumes "ok q k" "ok q k'" "k \<le> k'"
  shows "listed_by (grp q) k \<le> listed_by (grp q) k'"
proof (cases "grp q k'")
  case None
  then show ?thesis using listed_le[OF assms(1)] assms(3) by (simp add: listed_by_def)
next
  case (Some c)
  show ?thesis
  proof (cases "listed_by (grp q) k \<le> c")
    case False
    then have "c \<le> k" using listed_le[OF assms(1)] by simp
    moreover obtain s where "k' = c @ s" using group_split[OF assms(2) Some] by blast
    ultimately have "starts_with k c" using between_extensions assms(3) by blast
    from group_same[OF assms(2) Some this] Some show ?thesis by (simp add: listed_by_def)
  qed (simp add: listed_by_def Some)
qed

text \<open>A key that is listed itself shares its name with no later key.\<close>

lemma listed_key:
  assumes "ok q k'" "grp q k = None" "k < k'"
  shows "k < listed_by (grp q) k'"
proof (cases "grp q k'")
  case (Some c)
  obtain s where s: "k' = c @ s" using group_split[OF assms(1) Some] by blast
  show ?thesis
  proof (rule ccontr)
    assume "\<not> k < listed_by (grp q) k'"
    then have "c \<le> k" by (simp add: listed_by_def Some)
    then have "starts_with k c" by (rule between_extensions) (use assms(3) s in \<open>auto intro: less_imp_le\<close>)
    with group_same[OF assms(1) Some] assms(2) show False by simp
  qed
qed (use assms in \<open>simp add: listed_by_def\<close>)

text \<open>What is not after a name was listed before it.\<close>

lemma not_after_name:
  assumes "ok q k" "ok q k'" "a = listed_by (grp q) k'"
  shows "(k \<le> a \<or> grp q k = Some a) \<longleftrightarrow> listed_by (grp q) k \<le> a"
proof
  assume "k \<le> a \<or> grp q k = Some a"
  then show "listed_by (grp q) k \<le> a" using listed_le[OF assms(1)] by (auto simp: listed_by_def)
next
  assume le: "listed_by (grp q) k \<le> a"
  show "k \<le> a \<or> grp q k = Some a"
  proof (cases "k \<le> a")
    case False
    then obtain c where c: "grp q k = Some c" using le by (auto simp: listed_by_def split: option.splits)
    then obtain s where s: "k = c @ s" using group_split[OF assms(1)] by blast
    have "starts_with a c" by (rule between_extensions[of _ _ s]) (use le c s False in \<open>auto simp: listed_by_def\<close>)
    moreover obtain t where "k' = a @ t"
      unfolding assms(3) by (cases "grp q k'") (auto simp: listed_by_def dest!: group_split[OF assms(2)])
    ultimately have "starts_with k' c" by (auto simp: starts_with_split)
    from group_same[OF assms(1) c this] show ?thesis using c assms(3) by (simp add: listed_by_def)
  qed simp
qed

text \<open>The names of keys in order are in order, each once.\<close>

lemma names_sorted:
  assumes "sorted_wrt (<) ks" "list_all (ok q) ks"
  shows "sorted_wrt (<) (remdups_adj (map (listed_by (grp q)) ks))"
proof -
  have sorted: "sorted (map (listed_by (grp q)) ks)"
    using assms
  proof (induction ks)
    case (Cons k ks)
    have "listed_by (grp q) k \<le> listed_by (grp q) x" if "x \<in> set ks" for x
      by (rule listed_mono) (use Cons.prems that in \<open>auto simp: list_all_iff intro: less_imp_le\<close>)
    with Cons show ?case by auto
  qed simp
  have "distinct (remdups_adj xs)" if "sorted xs" for xs :: "string list"
    using that by (induction xs rule: remdups_adj.induct) (auto simp: not_le[symmetric])
  with sorted show ?thesis by (simp add: strict_sorted_iff sorted_remdups_adj)
qed

end

end
