(* ===== verification/S3_Listing.thy ===== *)
theory S3_Listing
  imports S3_System Grouping
begin

text \<open>
  S3, part 7: listing objects in pages.  A page starts after the last name of the one before; a name
  is a key or the common prefix of a group of keys.  Following the markers lists every name once.
\<close>

subsection \<open>Names\<close>

abbreviation cp_of :: "list_params \<Rightarrow> string \<Rightarrow> string option" where
  "cp_of p k \<equiv> common_prefix k (lp_prefix p) (lp_delim p)"

text \<open>The name a key is listed under.\<close>

abbreviation listed_as :: "list_params \<Rightarrow> string \<Rightarrow> string" where
  "listed_as p \<equiv> listed_by (cp_of p)"

lemma cp_first_group: "cp_of p k = first_group (length (lp_prefix p)) (lp_delim p) k"
  by (simp add: common_prefix_def first_group_def)

interpretation s3_groups: grouping "\<lambda>p k. True" cp_of
proof unfold_locales
  fix p k c k' assume "cp_of p k = Some c" "starts_with k' c"
  moreover have "lp_delim p \<noteq> Some []" by (auto simp: lp_delim_def split: option.splits if_splits)
  ultimately show "True \<and> cp_of p k' = Some c"
    unfolding cp_first_group by (intro conjI TrueI) (rule first_group_same)
qed (simp add: cp_first_group first_group_split)

lemmas cp_split = s3_groups.group_split[OF TrueI]
lemmas cp_same = s3_groups.group_same[OF TrueI, THEN conjunct2]
lemmas listed_as_le = s3_groups.listed_le[OF TrueI]
lemmas listed_as_mono = s3_groups.listed_mono[OF TrueI TrueI]
lemmas not_after_listed = s3_groups.not_after_name[OF TrueI TrueI]

subsection \<open>The loop\<close>

abbreviation name_of :: "list_params \<Rightarrow> s3_object \<Rightarrow> string" where
  "name_of p r \<equiv> listed_as p (ob_key r)"

definition page_names :: "list_page \<Rightarrow> string list" where
  "page_names pg = sort (map le_key (pg_contents pg) @ pg_prefixes pg)"

text \<open>The names the remaining rows add.\<close>

definition to_list :: "list_params \<Rightarrow> string option \<Rightarrow> s3_object list \<Rightarrow> string list" where
  "to_list p last_cp rows = sorted_list_of_set (name_of p ` set rows - set_option last_cp)"

lemma page_names_add:
  assumes "\<forall>x\<in>set (page_names pg). x \<le> n"
  shows "page_names (pg\<lparr> pg_prefixes := pg_prefixes pg @ [n], pg_last := l \<rparr>) = page_names pg @ [n]"
    "le_key e = n \<Longrightarrow> page_names (pg\<lparr> pg_contents := pg_contents pg @ [e], pg_last := l \<rparr>) = page_names pg @ [n]"
proof -
  have "sorted (page_names pg @ [n])" using assms by (simp add: sorted_append page_names_def)
  then show "page_names (pg\<lparr> pg_prefixes := pg_prefixes pg @ [n], pg_last := l \<rparr>) = page_names pg @ [n]"
    "le_key e = n \<Longrightarrow> page_names (pg\<lparr> pg_contents := pg_contents pg @ [e], pg_last := l \<rparr>) = page_names pg @ [n]"
    unfolding page_names_def by (auto intro!: properties_for_sort)
qed

lemma slos_insert_least:
  fixes c :: string
  assumes "finite A" "\<And>x. x \<in> A \<Longrightarrow> c \<le> x"
  shows "sorted_list_of_set (insert c A) = c # sorted_list_of_set (A - {c})"
  using assms by (simp add: sorted_list_of_set.sorted_key_list_of_set_insert_remove insort_is_Cons)

lemma to_list_skip: "last_cp = Some (name_of p r) \<Longrightarrow> to_list p last_cp (r # rows) = to_list p last_cp rows"
  by (simp add: to_list_def)

lemma to_list_prefix:
  assumes "\<And>s. s \<in> set rows \<Longrightarrow> c \<le> name_of p s" "name_of p r = c" "\<And>d. last_cp = Some d \<Longrightarrow> d < c"
  shows "to_list p last_cp (r # rows) = c # to_list p (Some c) rows"
proof -
  have "d \<notin> insert c (name_of p ` set rows)" if "last_cp = Some d" for d
    using assms(1) assms(3)[OF that] by (auto dest: leD)
  then have all: "name_of p ` set (r # rows) - set_option last_cp = insert c (name_of p ` set rows)"
    using assms(2) by (cases last_cp) auto
  show ?thesis unfolding to_list_def all option.set by (rule slos_insert_least) (use assms(1) in auto)
qed

lemma to_list_key:
  assumes "\<And>s. s \<in> set rows \<Longrightarrow> k < name_of p s" "name_of p r = k" "\<And>d. last_cp = Some d \<Longrightarrow> d < k"
  shows "to_list p last_cp (r # rows) = k # to_list p last_cp rows"
proof -
  have no: "d \<notin> insert k (name_of p ` set rows)" if "last_cp = Some d" for d
    using assms(1) assms(3)[OF that] by (auto dest: less_asym)
  have all: "name_of p ` set (r # rows) - set_option last_cp = insert k (name_of p ` set rows)"
    using no assms(2) by (cases last_cp) auto
  have rest: "name_of p ` set rows - set_option last_cp = name_of p ` set rows - {k}"
    using no assms(1) by (cases last_cp) auto
  show ?thesis unfolding to_list_def all rest by (rule slos_insert_least) (use assms(1) in \<open>auto intro: less_imp_le\<close>)
qed

text \<open>The rows a page is made of: the keys with the prefix after the marker, in order.\<close>

definition pageable :: "list_params \<Rightarrow> s3_object list \<Rightarrow> bool" where
  "pageable p rows \<longleftrightarrow> sorted_wrt (<) (map ob_key rows)
     \<and> (\<forall>r\<in>set rows. starts_with (ob_key r) (lp_prefix p)
         \<and> (\<forall>a. lp_after p = Some a \<longrightarrow> a < ob_key r \<and> cp_of p (ob_key r) \<noteq> Some a))"

lemma pageable_step:
  assumes "pageable p (r # rows)"
  shows "pageable p rows" "starts_with (ob_key r) (lp_prefix p)"
    "(case lp_after p of Some a \<Rightarrow> ob_key r \<le> a | None \<Rightarrow> False) = False"
    "cp_of p (ob_key r) = None \<or> lp_after p \<noteq> cp_of p (ob_key r)"
    "\<And>s. s \<in> set rows \<Longrightarrow> ob_key r < ob_key s" "\<And>s. s \<in> set rows \<Longrightarrow> name_of p r \<le> name_of p s"
proof -
  show "\<And>s. s \<in> set rows \<Longrightarrow> name_of p r \<le> name_of p s"
    using assms by (intro listed_as_mono) (auto simp: pageable_def intro: less_imp_le)
qed (use assms in \<open>auto simp: pageable_def not_le split: option.split\<close>)

lemma list_loop_names:
  assumes "pageable p rows" "n \<le> lp_max p" "\<And>d. last_cp = Some d \<Longrightarrow> cp_of p d = Some d"
    "\<And>d r. last_cp = Some d \<Longrightarrow> r \<in> set rows \<Longrightarrow> d \<le> name_of p r"
    "\<And>x r. x \<in> set (page_names pg) \<Longrightarrow> r \<in> set rows \<Longrightarrow> x \<le> name_of p r" "\<not> pg_truncated pg"
  defines "new \<equiv> take (lp_max p - n) (to_list p last_cp rows)"
  shows "page_names (list_loop p rows n last_cp pg) = page_names pg @ new
    \<and> pg_truncated (list_loop p rows n last_cp pg) = (lp_max p - n < length (to_list p last_cp rows))
    \<and> pg_last (list_loop p rows n last_cp pg) = (if new = [] then pg_last pg else Some (last new))"
  using assms(1-6) unfolding new_def
proof (induction rows arbitrary: n last_cp pg)
  case Nil
  then show ?case by (simp add: to_list_def)
next
  case (Cons r rows)
  note step = pageable_step[OF Cons.prems(1)]
  let ?k = "ob_key r" and ?n = "name_of p r"
  show ?case
  proof (cases "cp_of p ?k \<noteq> None \<and> last_cp = cp_of p ?k")
    case True
    then have "last_cp = Some ?n" by (auto simp: listed_by_def)
    then have "to_list p last_cp (r # rows) = to_list p last_cp rows" by (rule to_list_skip)
    moreover have "list_loop p (r # rows) n last_cp pg = list_loop p rows n last_cp pg"
      using True step(2,3) by simp
    ultimately show ?thesis using Cons.IH[of n last_cp pg] Cons.prems step(1) by simp
  next
    case skip: False
    have last: "d < ?n" if "last_cp = Some d" for d
    proof -
      have "d \<noteq> ?n"
      proof
        assume "d = ?n"
        moreover obtain s where "?k = ?n @ s" by (cases "cp_of p ?k") (auto simp: listed_by_def dest: cp_split)
        ultimately have "cp_of p ?k = Some d" using cp_same[OF Cons.prems(3)[OF that]] by (auto simp: starts_with_split)
        with skip that show False by simp
      qed
      with Cons.prems(4)[OF that, of r] show ?thesis by simp
    qed
    have ge: "\<forall>x\<in>set (page_names pg). x \<le> ?n" using Cons.prems(5) by simp
    have le: "x \<le> name_of p s" if "x \<in> set (page_names pg)" "s \<in> set rows" for x s using Cons.prems(5) that by simp
    have run: "list_loop p (r # rows) n last_cp pg = (if lp_max p \<le> n then pg\<lparr> pg_truncated := True \<rparr>
        else (case cp_of p ?k of
            Some c \<Rightarrow> list_loop p rows (Suc n) (Some c) (pg\<lparr> pg_prefixes := pg_prefixes pg @ [c], pg_last := Some c \<rparr>)
          | None \<Rightarrow> list_loop p rows (Suc n) last_cp
                      (pg\<lparr> pg_contents := pg_contents pg @ [list_entry_of r], pg_last := Some ?k \<rparr>)))"
      using skip step(2-4) by (cases "cp_of p ?k") auto
    show ?thesis
    proof (cases "lp_max p \<le> n")
      case True
      have "to_list p last_cp (r # rows) \<noteq> []"
        unfolding to_list_def using last by (cases last_cp) (auto simp: Diff_eq_empty_iff)
      with True Cons.prems(2) show ?thesis by (simp add: run page_names_def del: list_loop.simps(2))
    next
      case False
      then obtain m where m: "lp_max p - n = Suc m" "lp_max p - Suc n = m" by (metis Suc_diff_Suc not_le)
      show ?thesis
      proof (cases "cp_of p ?k")
        case (Some c)
        then have c: "c = ?n" by (simp add: listed_by_def)
        have "starts_with c c" by (simp add: starts_with_def)
        note cpc = cp_same[OF Some this]
        have todo: "to_list p last_cp (r # rows) = c # to_list p (Some c) rows"
          by (rule to_list_prefix) (use step(6) last c in auto)
        let ?pg = "pg\<lparr> pg_prefixes := pg_prefixes pg @ [c], pg_last := Some c \<rparr>"
        have names: "page_names ?pg = page_names pg @ [c]" by (rule page_names_add(1)) (use ge c in simp)
        have "page_names (list_loop p rows (Suc n) (Some c) ?pg) = page_names ?pg @ take m (to_list p (Some c) rows)
            \<and> pg_truncated (list_loop p rows (Suc n) (Some c) ?pg) = (m < length (to_list p (Some c) rows))
            \<and> pg_last (list_loop p rows (Suc n) (Some c) ?pg)
                = (if take m (to_list p (Some c) rows) = [] then pg_last ?pg else Some (last (take m (to_list p (Some c) rows))))"
          unfolding m(2)[symmetric]
        proof (rule Cons.IH[OF step(1)])
          show "x \<le> name_of p s" if "x \<in> set (page_names ?pg)" "s \<in> set rows" for x s
            using that(1)[unfolded names] step(6)[OF that(2)] le[OF _ that(2)] c by auto
        qed (use False Cons.prems(6) cpc step(6) c in auto)
        then show ?thesis using Some False by (simp add: run todo m names del: list_loop.simps(2))
      next
        case None
        then have k: "?n = ?k" by (simp add: listed_by_def)
        have after: "?k < name_of p s" if "s \<in> set rows" for s
        proof -
          have "?k \<noteq> name_of p s"
          proof
            assume e: "?k = name_of p s"
            show False
            proof (cases "cp_of p (ob_key s)")
              case (Some c)
              then have "cp_of p ?k = Some c" using e by (intro cp_same[OF Some]) (simp add: listed_by_def starts_with_def)
              with None show False by simp
            qed (use e step(5)[OF that] in \<open>simp add: listed_by_def\<close>)
          qed
          with step(6)[OF that] k show ?thesis by simp
        qed
        have todo: "to_list p last_cp (r # rows) = ?k # to_list p last_cp rows"
          by (rule to_list_key) (use after last k in auto)
        have key: "le_key (list_entry_of r) = ?n" by (simp add: list_entry_of_def k)
        let ?pg = "pg\<lparr> pg_contents := pg_contents pg @ [list_entry_of r], pg_last := Some ?k \<rparr>"
        have names: "page_names ?pg = page_names pg @ [?k]" using page_names_add(2)[OF ge key] k by simp
        have "page_names (list_loop p rows (Suc n) last_cp ?pg) = page_names ?pg @ take m (to_list p last_cp rows)
            \<and> pg_truncated (list_loop p rows (Suc n) last_cp ?pg) = (m < length (to_list p last_cp rows))
            \<and> pg_last (list_loop p rows (Suc n) last_cp ?pg)
                = (if take m (to_list p last_cp rows) = [] then pg_last ?pg else Some (last (take m (to_list p last_cp rows))))"
          unfolding m(2)[symmetric]
        proof (rule Cons.IH[OF step(1)])
          show "x \<le> name_of p s" if "x \<in> set (page_names ?pg)" "s \<in> set rows" for x s
            using that after[OF that(2)] le by (auto simp: names)
          show "cp_of p d = Some d" if "last_cp = Some d" for d by (rule Cons.prems(3)[OF that])
        qed (use False Cons.prems(4,6) in auto)
        then show ?thesis using None False by (simp add: run todo m names del: list_loop.simps(2))
      qed
    qed
  qed
qed

subsection \<open>Pages\<close>

text \<open>The rows of the statement, cut at the first key without the prefix.\<close>

lemma list_loop_stops:
  "list_loop p rows n last_cp pg = list_loop p (takeWhile (\<lambda>r. starts_with (ob_key r) (lp_prefix p)) rows) n last_cp pg"
  by (induction rows arbitrary: n last_cp pg) (simp_all add: Let_def split: option.split)

lemma list_loop_skips:
  assumes "lp_after p = Some a"
    "\<And>r. r \<in> set xs \<Longrightarrow> starts_with (ob_key r) (lp_prefix p) \<and> (ob_key r \<le> a \<or> cp_of p (ob_key r) = Some a)"
  shows "list_loop p (xs @ ys) n last_cp pg = list_loop p ys n last_cp pg"
  using assms(2)
proof (induction xs)
  case (Cons r xs)
  then have "starts_with (ob_key r) (lp_prefix p)" "ob_key r \<le> a \<or> cp_of p (ob_key r) = Some a" by simp_all
  with assms(1) have "list_loop p (r # xs @ ys) n last_cp pg = list_loop p (xs @ ys) n last_cp pg" by (auto simp: Let_def)
  with Cons show ?case by simp
qed simp

lemma takeWhile_sorted:
  fixes f :: "'a \<Rightarrow> string"
  assumes "sorted (map f xs)" "\<And>x y. x \<in> set xs \<Longrightarrow> f x \<le> f y \<Longrightarrow> P (f y) \<Longrightarrow> P (f x)"
  shows "takeWhile (\<lambda>x. P (f x)) xs = filter (\<lambda>x. P (f x)) xs"
  using assms
proof (induction xs)
  case (Cons x xs)
  show ?case
  proof (cases "P (f x)")
    case False
    then have "\<not> P (f y)" if "y \<in> set xs" for y
      using Cons.prems(2)[of x y] Cons.prems(1) that by auto
    with False show ?thesis by (simp add: filter_empty_conv)
  qed (use Cons in simp)
qed simp

lemma takeWhile_filter_split:
  "takeWhile P xs = filter P xs \<Longrightarrow> xs = filter P xs @ filter (\<lambda>x. \<not> P x) xs"
proof (induction xs)
  case (Cons x xs)
  show ?case
  proof (cases "P x")
    case False
    with Cons.prems have none: "filter P xs = []" by simp
    then have "filter (\<lambda>x. \<not> P x) xs = xs" by (simp add: filter_empty_conv)
    with False none show ?thesis by simp
  qed (use Cons in simp)
qed simp

definition keys_with :: "string \<Rightarrow> string \<Rightarrow> s3_db \<Rightarrow> string set" where
  "keys_with b prefix db = {k. starts_with k prefix \<and> (\<exists>r\<in>set (s3_objects db). is_object b k r)}"

definition all_names :: "string \<Rightarrow> list_params \<Rightarrow> s3_db \<Rightarrow> string list" where
  "all_names b p db = sorted_list_of_set (listed_as p ` keys_with b (lp_prefix p) db)"

lemma distinct_if_single:
  assumes "\<And>k. length (filter (\<lambda>r. P r \<and> f r = k) xs) \<le> 1"
  shows "distinct (map f (filter P xs))"
  using assms
proof (induction xs)
  case (Cons x xs)
  have "length (filter (\<lambda>r. P r \<and> f r = k) xs) \<le> 1" for k
    using Cons.prems[of k] by (auto split: if_splits)
  then have rest: "distinct (map f (filter P xs))" by (rule Cons.IH)
  show ?case
  proof (cases "P x")
    case True
    with Cons.prems[of "f x"] have "filter (\<lambda>r. P r \<and> f r = f x) xs = []" by simp
    then have "f x \<notin> f ` set (filter P xs)" by (auto simp: filter_empty_conv)
    with rest True show ?thesis by simp
  qed (use rest in simp)
qed simp

definition single_rows :: "string \<Rightarrow> s3_db \<Rightarrow> bool" where
  "single_rows b db \<longleftrightarrow> (\<forall>k. length (cur_rows b k db) \<le> 1)"

lemma list_rows_sorted:
  assumes "single_rows b db"
  shows "sorted_wrt (<) (map ob_key (list_rows b p db))"
proof -
  have "distinct (map ob_key (filter (\<lambda>r. ob_bucket r = b) (s3_objects db)))"
  proof (rule distinct_if_single)
    have "is_object b k = (\<lambda>r. ob_bucket r = b \<and> ob_key r = k)" for k by (simp add: fun_eq_iff is_object_def)
    then show "length (filter (\<lambda>r. ob_bucket r = b \<and> ob_key r = k) (s3_objects db)) \<le> 1" for k
      using assms by (metis single_rows_def)
  qed
  then have "distinct (map ob_key (filter Q (filter (\<lambda>r. ob_bucket r = b) (s3_objects db))))" for Q
    by (rule distinct_map_filter)
  then have "distinct (map ob_key (filter (\<lambda>r. ob_bucket r = b \<and> Q r) (s3_objects db)))" for Q
    by (simp add: conj_commute)
  then show ?thesis
    unfolding list_rows_def Let_def strict_sorted_iff by (simp add: distinct_map del: filter_sort)
qed

lemma set_list_rows: "set (list_rows b p db) = {r \<in> set (s3_objects db). ob_bucket r = b
    \<and> max (lp_prefix p) (case lp_after p of Some a \<Rightarrow> a | None \<Rightarrow> []) \<le> ob_key r}"
  by (auto simp: list_rows_def Let_def)

text \<open>The names a page is drawn from: those after the marker.\<close>

lemma list_page_names:
  assumes single: "single_rows b db" and max: "0 < lp_max p"
    and after: "\<And>a. lp_after p = Some a \<Longrightarrow> \<exists>k. a = listed_as p k"
  defines "pg \<equiv> list_loop p (list_rows b p db) 0 None empty_page"
    and "N \<equiv> sorted_list_of_set {n \<in> listed_as p ` keys_with b (lp_prefix p) db. (\<forall>a. lp_after p = Some a \<longrightarrow> a < n)}"
  shows "page_names pg = take (lp_max p) N" "pg_truncated pg = (lp_max p < length N)"
    "pg_last pg = (if N = [] then None else Some (last (take (lp_max p) N)))"
proof -
  let ?in = "\<lambda>r. starts_with (ob_key r) (lp_prefix p)"
  let ?old = "\<lambda>r. \<exists>a. lp_after p = Some a \<and> name_of p r \<le> a"
  let ?rows = "takeWhile ?in (list_rows b p db)"
  have sorted: "sorted (map ob_key (list_rows b p db))" using list_rows_sorted[OF single] by (rule strict_sorted_imp_sorted)
  from sorted have tw: "?rows = filter ?in (list_rows b p db)"
    by (rule takeWhile_sorted)
      (auto simp: set_list_rows starts_with_split[of _ "lp_prefix p"] dest: between_extensions)
  have old: "takeWhile ?old ?rows = filter ?old ?rows"
  proof (cases "lp_after p")
    case (Some a)
    have "takeWhile (\<lambda>r. listed_as p (ob_key r) \<le> a) ?rows = filter (\<lambda>r. listed_as p (ob_key r) \<le> a) ?rows"
      by (rule takeWhile_sorted[where P = "\<lambda>k. listed_as p k \<le> a"])
        (use sorted in \<open>auto simp: tw sorted_filter intro: order_trans dest: listed_as_mono\<close>)
    with Some show ?thesis by simp
  qed (simp add: takeWhile_eq_Nil_iff)
  let ?new = "filter (\<lambda>r. \<not> ?old r) ?rows"
  have split: "?rows = filter ?old ?rows @ ?new" using takeWhile_filter_split[OF old] by simp
  have pg: "pg = list_loop p ?new 0 None empty_page"
  proof (cases "lp_after p")
    case None
    then show ?thesis by (simp add: pg_def list_loop_stops[of p "list_rows b p db"])
  next
    case (Some a)
    then obtain k where k: "a = listed_as p k" using after by blast
    have "list_loop p (filter ?old ?rows @ ?new) 0 None empty_page = list_loop p ?new 0 None empty_page"
      by (rule list_loop_skips[OF Some]) (use Some not_after_listed[OF k] in \<open>auto simp: tw\<close>)
    then show ?thesis unfolding pg_def list_loop_stops[of p "list_rows b p db"] using split by simp
  qed
  have "pageable p ?new"
    unfolding pageable_def
  proof (intro conjI ballI allI impI)
    show "sorted_wrt (<) (map ob_key ?new)"
      using list_rows_sorted[OF single] by (simp add: tw sorted_wrt_map sorted_wrt_filter)
    fix r assume r: "r \<in> set ?new"
    then show "starts_with (ob_key r) (lp_prefix p)" by (simp add: tw)
    fix a assume a: "lp_after p = Some a"
    then obtain k where k: "a = listed_as p k" using after by blast
    have "\<not> name_of p r \<le> a" using r a by auto
    then show "a < ob_key r" "cp_of p (ob_key r) \<noteq> Some a" using not_after_listed[OF k, of "ob_key r"] by auto
  qed
  note run = list_loop_names[OF this, of 0 None empty_page]
  have "name_of p ` set ?new = {n \<in> listed_as p ` keys_with b (lp_prefix p) db. \<forall>a. lp_after p = Some a \<longrightarrow> a < n}"
  proof (intro equalityI subsetI)
    fix n assume "n \<in> {n \<in> listed_as p ` keys_with b (lp_prefix p) db. \<forall>a. lp_after p = Some a \<longrightarrow> a < n}"
    then obtain r where n: "n = name_of p r" and r: "r \<in> set (s3_objects db)" "ob_bucket r = b" "starts_with (ob_key r) (lp_prefix p)"
      and late: "\<And>a. lp_after p = Some a \<Longrightarrow> a < n" by (auto simp: keys_with_def is_object_def)
    have "lp_prefix p \<le> ob_key r" using r(3) by (auto simp: starts_with_split prefix_le)
    moreover have "a \<le> ob_key r" if "lp_after p = Some a" for a
      using late[OF that] listed_as_le[of p "ob_key r"] n by simp
    ultimately have "r \<in> set ?new" using r late n by (auto simp: tw set_list_rows not_le split: option.split)
    with n show "n \<in> name_of p ` set ?new" by blast
  qed (auto simp: tw set_list_rows keys_with_def is_object_def not_le)
  then have N: "to_list p None ?new = N" by (simp add: to_list_def N_def)
  have "page_names empty_page = []" "pg_truncated empty_page = False" "pg_last empty_page = None"
    by (simp_all add: page_names_def empty_page_def)
  with run[unfolded N] show "page_names pg = take (lp_max p) N" "pg_truncated pg = (lp_max p < length N)"
    "pg_last pg = (if N = [] then None else Some (last (take (lp_max p) N)))"
    using max by (auto simp: pg simp del: filter_filter)
qed

text \<open>A page as a client sees it: its names and, when it is truncated, the marker of the next one.\<close>

definition names_page :: "string \<Rightarrow> list_params \<Rightarrow> s3_db \<Rightarrow> string option \<Rightarrow> (s3_error, string list \<times> string option) result" where
  "names_page b p db t = try_bind (list_objects b (p\<lparr> lp_after := t \<rparr>) db) (\<lambda>pg.
     Inr (page_names pg, if pg_truncated pg then pg_last pg else None))"

fun names_at :: "string \<times> list_params \<times> s3_db \<Rightarrow> string option \<Rightarrow> nat \<Rightarrow> bool" where
  "names_at (b, p, db) t i \<longleftrightarrow>
     (i = 0 \<and> t = None) \<or> (0 < i \<and> i \<le> length (all_names b p db) \<and> t = Some (all_names b p db ! (i - 1)))"

lemma slos_filter: "finite A \<Longrightarrow> sorted_list_of_set {x \<in> A. P x} = filter P (sorted_list_of_set (A :: string set))"
  by (rule strict_sorted_equal) (auto intro: sorted_wrt_filter)

lemma names_page_at:
  assumes "single_rows b db" "0 < lp_max p" "bucket_exists b db" "names_at (b, p, db) t i"
  shows "names_page b p db t = (let rest = drop i (all_names b p db)
    in Inr (take (lp_max p) rest, if lp_max p < length rest then Some (last (take (lp_max p) rest)) else None))"
proof -
  let ?q = "p\<lparr> lp_after := t \<rparr>"
  have same: "lp_delim ?q = lp_delim p" by (simp add: lp_delim_def)
  have fin: "finite (listed_as p ` keys_with b (lp_prefix p) db)"
  proof (rule finite_imageI, rule finite_subset)
    show "keys_with b (lp_prefix p) db \<subseteq> ob_key ` set (s3_objects db)" by (auto simp: keys_with_def is_object_def)
  qed simp
  have strict: "sorted_wrt (<) (all_names b p db)" by (simp add: all_names_def)
  have name: "\<exists>k. a = listed_as ?q k" if "t = Some a" for a
  proof -
    have "a \<in> set (all_names b p db)" using that assms(4) by auto
    then show ?thesis unfolding same all_names_def using fin by auto
  qed
  have N: "sorted_list_of_set {n \<in> listed_as p ` keys_with b (lp_prefix p) db. \<forall>a. t = Some a \<longrightarrow> a < n}
      = drop i (all_names b p db)"
  proof (cases t)
    case (Some a)
    then show ?thesis using assms(4) drop_greater[OF strict, of i] by (simp add: slos_filter[OF fin] all_names_def[symmetric])
  qed (use assms(4) in \<open>simp add: all_names_def\<close>)
  have sel: "lp_max ?q = lp_max p" "lp_prefix ?q = lp_prefix p" "lp_after ?q = t" by simp_all
  note page = list_page_names[of b db ?q, unfolded same sel N, OF assms(1,2) name[unfolded same sel]]
  show ?thesis
    using assms(2,3) by (auto simp: names_page_def list_objects_def require_bucket_def Let_def page)
qed

interpretation s3_names: pager
  "\<lambda>(b, p, db). single_rows b db \<and> 0 < lp_max p \<and> bucket_exists b db" "\<lambda>(b, p, db). names_page b p db"
  "\<lambda>(b, p, db). all_names b p db" names_at
proof (unfold_locales, goal_cases)
  case (1 v)
  then show ?case by (cases v) simp
next
  case (2 v t i)
  obtain b p db where v: "v = (b, p, db)" by (cases v)
  let ?ns = "all_names b p db" and ?part = "take (lp_max p) (drop i (all_names b p db))"
  let ?u = "if lp_max p < length (drop i ?ns) then Some (last ?part) else None"
  have page: "names_page b p db t = Inr (?part, ?u)"
    using names_page_at[of b db p t i] 2 by (simp add: v Let_def)
  have more: "?part \<noteq> [] \<and> last ?part = ?ns ! (i + length ?part - 1)" if "lp_max p < length (drop i ?ns)"
    using that 2 by (auto simp: v last_conv_nth min_def)
  show ?case
    unfolding v prod.case
    by (intro exI[of _ ?part] exI[of _ ?u] conjI page) (use more 2 in \<open>auto simp: v min_def split: if_splits\<close>)
qed

lemma s3_single_rows: "s3_ok X db \<Longrightarrow> single_rows b db"
  by (simp add: s3_ok_def s3_key_ok_def single_rows_def)

text \<open>C21: listing is complete.  Following the markers of ListObjects, with any prefix, delimiter and page
  size, collects in order and once each the keys that have the prefix, grouped by the delimiter.
\<close>

theorem s3_listing_complete:
  assumes "ids_fresh X" "db = snd (run_ops (s3_exec X) xs s3_init)" "bucket_exists b db" "0 < lp_max p"
    and "length (s3_objects db) < fuel"
  shows "\<exists>names. collect_pages fuel (names_page b p db) None = Some names \<and> sorted_wrt (<) names
    \<and> set names = {listed_as p (ob_key r) | r. r \<in> set (s3_objects db) \<and> ob_bucket r = b \<and> starts_with (ob_key r) (lp_prefix p)}"
proof -
  let ?A = "listed_as p ` keys_with b (lp_prefix p) db"
  have single: "single_rows b db" using s3_reached_ok[OF assms(1), of xs] s3_single_rows assms(2) by blast
  have A: "?A = {listed_as p (ob_key r) | r. r \<in> set (s3_objects db) \<and> ob_bucket r = b \<and> starts_with (ob_key r) (lp_prefix p)}"
    by (auto simp: keys_with_def is_object_def)
  then have sub: "?A \<subseteq> (\<lambda>r. listed_as p (ob_key r)) ` set (s3_objects db)" by auto
  have fin: "finite ?A" by (rule finite_subset[OF sub]) simp
  have "card ?A \<le> card ((\<lambda>r. listed_as p (ob_key r)) ` set (s3_objects db))" by (rule card_mono[OF _ sub]) simp
  also have "\<dots> \<le> card (set (s3_objects db))" by (rule card_image_le) simp
  also have "\<dots> \<le> length (s3_objects db)" by (rule card_length)
  finally have card: "card ?A \<le> length (s3_objects db)" .
  have "collect_pages fuel (names_page b p db) None = Some (all_names b p db)"
    using s3_names.collect_all[of "(b, p, db)" fuel] single assms(3,4,5) card by (simp add: all_names_def)
  then show ?thesis using fin A by (auto simp: all_names_def)
qed

theorem s3_listing_complete_witness:
  "\<exists>names. collect_pages 9
      (names_page ''b'' \<lparr> lp_prefix = [], lp_delimiter = Some ''/'', lp_after = None, lp_max = 1 \<rparr>
        (snd (run_ops (s3_exec s3_sample_env)
          (S3CreateBucket ''b'' 0 # map (\<lambda>k. S3Write ''b'' k (s3_sample_object []) 1) [''a/x'', ''c'', ''a/y'']) s3_init))) None
      = Some names \<and> sorted_wrt (<) names \<and> set names = {''a/'', ''c''}"
proof -
  let ?p = "\<lparr> lp_prefix = [], lp_delimiter = Some ''/'', lp_after = None, lp_max = 1 \<rparr>"
  let ?rows = "[s3_sample_row ''a/x'' [] 1, s3_sample_row ''c'' [] 2, s3_sample_row ''a/y'' [] 3]"
  let ?ops = "S3CreateBucket ''b'' 0 # map (\<lambda>k. S3Write ''b'' k (s3_sample_object []) 1) [''a/x'', ''c'', ''a/y'']"
  have "find (is_object ''b'' k) [] = None" "find (is_object ''b'' ''c'') [s3_sample_row ''a/x'' [] 1] = None"
    "find (is_object ''b'' ''a/y'') [s3_sample_row ''a/x'' [] 1, s3_sample_row ''c'' [] 2] = None" for k
    by (simp_all add: is_object_def s3_sample_row_def)
  then have db: "s3_sample_db [] ?rows 3 = snd (run_ops (s3_exec s3_sample_env) ?ops s3_init)"
    by (simp add: Let_def s3_sample_create s3_sample_write del: s3_exec.simps find.simps)
  have rows: "s3_objects (s3_sample_db [] ?rows 3) = ?rows" by (simp add: s3_sample_db_def)
  have all: "{f r | r. r \<in> S \<and> P r \<and> Q r} = f ` S" if "\<And>r. r \<in> S \<Longrightarrow> P r \<and> Q r"
    for f :: "s3_object \<Rightarrow> string" and S P Q using that by blast
  have "{listed_as ?p (ob_key r) | r. r \<in> set ?rows \<and> ob_bucket r = ''b'' \<and> starts_with (ob_key r) (lp_prefix ?p)}
      = name_of ?p ` set ?rows"
    by (rule all) (auto simp: starts_with_def s3_sample_row_def)
  also have "\<dots> = {''a/'', ''c''}"
    by (simp add: insert_commute s3_sample_row_def listed_by_def common_prefix_def lp_delim_def starts_with_def)
  finally show ?thesis
    using s3_listing_complete[OF s3_sample_fresh db s3_sample_exists, of ?p 9] unfolding rows db[symmetric] by simp
qed

end
