(* ===== verification/S3_Properties.thy ===== *)
theory S3_Properties
  imports S3_Listing
begin

text \<open>
  S3, part 8: what clients rely on.  Objects are histories of versions, a version stays readable
  until it is deleted, and a completed upload is the concatenation of its parts.
\<close>

subsection \<open>Histories\<close>

text \<open>C19: objects are histories.  In every reachable state an operation does to the versions of every key
  what the abstract operation \<open>hist_step\<close> does, which says nothing of the two tables; and a request
  for a version, or for the newest, is answered from the history.
\<close>

theorem s3_history:
  assumes "ids_fresh X" "db = snd (run_ops (s3_exec X) xs s3_init)" "bucket_exists b db"
  shows "hist (snd (s3_exec X x db)) = hist_step X x db (hist db)
    \<and> map_sum id oi_row (resolve_version b k vid db) = hist_get k vid (hist db b k)"
proof -
  have ok: "s3_ok X db" unfolding assms(2) by (rule s3_reached_ok[OF assms(1)])
  then have "s3_key_ok X db b k" by (simp add: s3_ok_def)
  from s3_exec_step[OF assms(1) ok] resolve_hist[OF this assms(3)] show ?thesis by blast
qed

theorem s3_history_witness:
  "map_sum id oi_row (resolve_version ''b'' ''k'' None (snd (run_ops (s3_exec s3_sample_env)
      [S3CreateBucket ''b'' 0, S3Write ''b'' ''k'' (s3_sample_object ''one'') 1] s3_init)))
    = Inr (s3_sample_row ''k'' ''one'' 1)"
proof -
  let ?db = "s3_sample_db [] [s3_sample_row ''k'' ''one'' 1] 1"
  have run: "?db = snd (run_ops (s3_exec s3_sample_env)
      [S3CreateBucket ''b'' 0, S3Write ''b'' ''k'' (s3_sample_object ''one'') 1] s3_init)"
    by (simp add: Let_def s3_sample_create s3_sample_write del: s3_exec.simps)
  have "hist ?db ''b'' ''k'' = [s3_sample_row ''k'' ''one'' 1]"
    by (simp add: hist_def s3_sample_db_def s3_init_def s3_sample_row_def is_object_def)
  then have "hist_get ''k'' None (hist ?db ''b'' ''k'') = Inr (s3_sample_row ''k'' ''one'' 1)"
    by (simp add: hist_get_def s3_sample_row_def)
  with s3_history[OF s3_sample_fresh run s3_sample_exists, of "S3DeleteBucket []" "''k''" None] show ?thesis
    unfolding run[symmetric] by simp
qed

subsection \<open>Versions stay readable\<close>

lemma read_row:
  assumes ok: "s3_ok X db" and r: "r \<in> set (hist db b k)" and info: "oi_row info = r"
  shows "read_content info None db = Some (ob_content r)"
proof -
  have key: "s3_key_ok X db b k" using ok by (simp add: s3_ok_def)
  have rk: "is_object b k r" using r by (simp add: hist_rows)
  have same: "s = r" if "s \<in> set (s3_objects db) \<union> set (s3_versions db)" "same_row_as r s" for s
  proof -
    have "is_object b k s" "ob_version s = ob_version r"
      using that(2) rk by (auto simp: same_row_as_def is_version_object is_object_def)
    with that(1) have "s \<in> set (hist db b k)" by (simp add: hist_rows)
    moreover have "distinct (map ob_version (hist db b k))" using key by (simp add: s3_key_ok_def)
    ultimately show ?thesis using key_inject[OF _ _ r] \<open>ob_version s = ob_version r\<close> by blast
  qed
  have "same_row_as r r" by (simp add: same_row_as_def is_version_object is_object_def)
  moreover have "r \<in> set (s3_objects db) \<or> r \<in> set (s3_versions db)" using r by (auto simp: hist_rows)
  ultimately have "find (same_row_as r) (s3_objects db) = Some r
      \<or> find (same_row_as r) (s3_objects db) = None \<and> find (same_row_as r) (s3_versions db) = Some r"
    using same by (cases "find (same_row_as r) (s3_objects db)"; cases "find (same_row_as r) (s3_versions db)")
      (auto simp: find_None_set dest: find_Some_set)
  then show ?thesis unfolding read_content_def Let_def info by auto
qed

abbreviation untagged :: "s3_object \<Rightarrow> s3_object" where
  "untagged r \<equiv> r\<lparr> ob_tags := [] \<rparr>"

text \<open>The version \<open>r\<close>, its tags aside, is one of the versions of its key.\<close>

definition keeps_version :: "s3_env \<Rightarrow> s3_object \<Rightarrow> s3_db \<Rightarrow> bool" where
  "keeps_version X r db \<longleftrightarrow> s3_ok X db \<and> (\<exists>s\<in>set (hist db (ob_bucket r) (ob_key r)). untagged s = untagged r)"

lemma untagged_version: "untagged s = untagged r \<Longrightarrow> ob_version s = ob_version r"
  by (metis s3_object.select_convs(3) s3_object.surjective s3_object.update_convs(12))

lemma keeps_version_step:
  assumes fresh: "ids_fresh X" and keeps: "keeps_version X r db" and v: "ob_version r \<noteq> ''null''"
    and no: "\<And>now. x \<noteq> S3Delete (ob_bucket r) (ob_key r) (Some (ob_version r)) now"
  shows "keeps_version X r (snd (s3_exec X x db))"
proof -
  let ?b = "ob_bucket r" and ?k = "ob_key r"
  obtain s where ok: "s3_ok X db" and s: "s \<in> set (hist db ?b ?k)" "untagged s = untagged r"
    using keeps by (auto simp: keeps_version_def)
  have sv: "ob_version s = ob_version r" by (rule untagged_version[OF s(2)])
  have key: "s3_key_ok X db ?b ?k" using ok by (simp add: s3_ok_def)
  have other: "next_version X ?b db \<noteq> ob_version s" using next_version_new[OF fresh key] s(1) sv v by (metis imageI)
  have put: "s \<in> set (hist_put row (hist db ?b ?k))" if "ob_version row = next_version X ?b db" for row
    using s(1) other that by (simp add: hist_put_def)
  have "\<exists>s\<in>set (hist_step X x db (hist db) ?b ?k). untagged s = untagged r"
  proof (cases x)
    case (S3Write b k obj now)
    then show ?thesis using s put[of "written_row X b k obj now db"] by (auto simp: upd_key_def written_row_def)
  next
    case (S3CompleteUpload b k i parts now)
    then show ?thesis
      using s put[of "written_row X b k (the (upload_object X b k i parts db)) now db"]
      by (auto simp: upd_key_def written_row_def split: option.split)
  next
    case (S3Delete b k vid now)
    show ?thesis
    proof (cases "bucket_exists b db \<and> b = ?b \<and> k = ?k")
      case True
      then have b: "b = ?b" "k = ?k" "bucket_exists ?b db" by auto
      show ?thesis
      proof (cases vid)
        case None
        have "bucket_state ?b db \<noteq> Unversioned"
        proof
          assume "bucket_state ?b db = Unversioned"
          then have "old_rows ?b ?k db = []" "\<forall>r\<in>set (cur_rows ?b ?k db). ob_version r = ''null''"
            using key unfolding s3_key_ok_def by blast+
          moreover from this(1) s(1) have "s \<in> set (cur_rows ?b ?k db)" by (simp add: hist_def)
          ultimately show False using sv v by metis
        qed
        then show ?thesis
          using s put[of "marker_row X ?b ?k (next_version X ?b db) (s3_seq db + 1) now"] b None
          by (auto simp: S3Delete upd_key_def marker_row_def)
      next
        case (Some w)
        with no[of now] b S3Delete have "w \<noteq> ob_version r" by simp
        then show ?thesis using s b Some sv by (auto simp: S3Delete upd_key_def hist_drop_def)
      qed
    qed (use s in \<open>auto simp: S3Delete upd_key_def\<close>)
  next
    case (S3SetTags b k vid tags)
    have "\<exists>u\<in>set (map (\<lambda>s. if P s then s\<lparr> ob_tags := tags \<rparr> else s) (hist db ?b ?k)). untagged u = untagged r" for P
      by (rule bexI[of _ "if P s then s\<lparr> ob_tags := tags \<rparr> else s"]) (use s in auto)
    then show ?thesis using s unfolding S3SetTags hist_step.simps upd_key_def by (auto split: sum.split simp del: set_map)
  qed (use s in auto)
  with s3_exec_step[OF fresh ok] show ?thesis by (simp add: keeps_version_def)
qed

lemma keeps_version_reached:
  assumes "ids_fresh X" "ob_version r \<noteq> ''null''"
    and no: "\<And>x now. x \<in> set ys \<Longrightarrow> x \<noteq> S3Delete (ob_bucket r) (ob_key r) (Some (ob_version r)) now"
    and keeps: "keeps_version X r db"
  shows "keeps_version X r (snd (run_ops (s3_exec X) ys db))"
  using no keeps
proof (induction ys arbitrary: db)
  case (Cons y ys)
  have "keeps_version X r (snd (s3_exec X y db))"
    by (rule keeps_version_step[OF assms(1) Cons.prems(2) assms(2)]) (use Cons.prems(1) in simp)
  with Cons show ?case by (simp add: Let_def)
qed simp

lemma keeps_version_read:
  assumes keeps: "keeps_version X r db" and "\<not> ob_marker r"
  shows "\<exists>info. resolve_version (ob_bucket r) (ob_key r) (Some (ob_version r)) db = Inr info
    \<and> untagged (oi_row info) = untagged r \<and> read_content info None db = Some (ob_content r)"
proof -
  let ?b = "ob_bucket r" and ?k = "ob_key r"
  obtain s where ok: "s3_ok X db" and s: "s \<in> set (hist db ?b ?k)" "untagged s = untagged r"
    using keeps by (auto simp: keeps_version_def)
  have key: "s3_key_ok X db ?b ?k" using ok by (simp add: s3_ok_def)
  then have distinct: "distinct (map ob_version (hist db ?b ?k))" and exists: "bucket_exists ?b db"
    using s(1) by (auto simp: s3_key_ok_def)
  have same: "ob_version s = ob_version r" "ob_marker s = ob_marker r" "ob_content s = ob_content r"
    using s(2) by (cases s; cases r; simp)+
  have "find (\<lambda>t. ob_version t = ob_version r) (hist db ?b ?k) = Some s"
    using find_unique[OF distinct s(1)] same(1) by simp
  then have "hist_get ?k (Some (ob_version r)) (hist db ?b ?k) = Inr s"
    using assms(2) same(2) by (simp add: hist_get_def)
  with resolve_hist[OF key exists, of "Some (ob_version r)"]
  obtain info where info: "resolve_version ?b ?k (Some (ob_version r)) db = Inr info" "oi_row info = s"
    by (cases "resolve_version ?b ?k (Some (ob_version r)) db") auto
  with read_row[OF ok s(1)] s(2) same(3) show ?thesis by simp
qed

text \<open>C20: versions are kept.  What is written while versioning is enabled stays readable under the id the
  writer was told, with its content, type, tag and metadata, whatever requests follow, as long as
  none deletes that version by its id.
\<close>

theorem s3_version_kept:
  assumes fresh: "ids_fresh X" and db: "db = snd (run_ops (s3_exec X) xs s3_init)"
    and enabled: "bucket_exists b db" "bucket_state b db = VEnabled"
    and written: "write_object_tx X b k obj now db = (Inr w, db')"
    and kept: "\<And>t. S3Delete b k (Some (wr_version w)) t \<notin> set ys"
    and later: "later = snd (run_ops (s3_exec X) ys db')"
  shows "\<exists>info. resolve_version b k (Some (wr_version w)) later = Inr info
    \<and> read_content info None later = Some (no_content_bytes obj)
    \<and> ob_type (oi_row info) = no_type obj \<and> ob_etag (oi_row info) = no_etag obj \<and> ob_meta (oi_row info) = wr_meta w"
proof -
  have ok: "s3_ok X db" unfolding db by (rule s3_reached_ok[OF fresh])
  let ?r = "written_row X b k obj now db"
  have w: "wr_version w = ob_version ?r" "wr_meta w = ob_meta ?r"
    using written enabled by (auto simp: write_object_eq Let_def)
  have row: "ob_bucket ?r = b" "ob_key ?r = k" "ob_content ?r = no_content_bytes obj" "\<not> ob_marker ?r"
    "ob_type ?r = no_type obj" "ob_etag ?r = no_etag obj" by (simp_all add: written_row_def)
  have v: "ob_version ?r \<noteq> ''null''" using fresh enabled(2) by (simp add: written_row_def next_version_def ids_fresh_def)
  note h = write_object_hist[OF fresh ok enabled(1) refl, of k obj now]
  then have "keeps_version X ?r db'"
    using written by (simp add: keeps_version_def row hist_put_def)
  from keeps_version_reached[OF fresh v _ this, of ys]
  have "keeps_version X ?r later" using kept w(1) later row by auto
  from keeps_version_read[OF this row(4)] obtain info where
    info: "resolve_version b k (Some (wr_version w)) later = Inr info" "untagged (oi_row info) = untagged ?r"
      "read_content info None later = Some (no_content_bytes obj)" by (auto simp: row w)
  have "ob_type (oi_row info) = ob_type ?r" "ob_etag (oi_row info) = ob_etag ?r" "ob_meta (oi_row info) = ob_meta ?r"
    using info(2) by (cases "oi_row info"; cases ?r; simp)+
  with info(1,3) show ?thesis by (auto simp: row w)
qed

theorem s3_version_kept_witness:
  "\<exists>info. resolve_version ''b'' ''k'' (Some ''v0'') (snd (run_ops (s3_exec s3_sample_env)
      [S3Write ''b'' ''k'' (s3_sample_object ''two'') 2, S3Delete ''b'' ''k'' None 3]
      (snd (write_object_tx s3_sample_env ''b'' ''k'' (s3_sample_object ''one'') 1
        (snd (run_ops (s3_exec s3_sample_env) [S3CreateBucket ''b'' 0, S3SetVersioning ''b'' True] s3_init)))))) = Inr info
    \<and> read_content info None (snd (run_ops (s3_exec s3_sample_env)
      [S3Write ''b'' ''k'' (s3_sample_object ''two'') 2, S3Delete ''b'' ''k'' None 3]
      (snd (write_object_tx s3_sample_env ''b'' ''k'' (s3_sample_object ''one'') 1
        (snd (run_ops (s3_exec s3_sample_env) [S3CreateBucket ''b'' 0, S3SetVersioning ''b'' True] s3_init)))))) = Some ''one''"
proof -
  let ?db = "s3_sample_db [\<lparr> cf_bucket = ''b'', cf_kind = ''versioning'', cf_body = ''Enabled'' \<rparr>] [] 0"
  have run: "?db = snd (run_ops (s3_exec s3_sample_env) [S3CreateBucket ''b'' 0, S3SetVersioning ''b'' True] s3_init)"
    by (simp add: Let_def s3_sample_create s3_sample_enable del: s3_exec.simps)
  obtain w db' where w: "write_object_tx s3_sample_env ''b'' ''k'' (s3_sample_object ''one'') 1 ?db = (Inr w, db')"
    and "wr_version w = next_version s3_sample_env ''b'' ?db"
    using s3_sample_exists by (simp add: write_object_eq Let_def written_row_def)
  then have v: "wr_version w = ''v0''"
    by (simp add: next_version_def s3_sample_enabled) (simp add: s3_sample_env_def s3_sample_db_def s3_init_def show_nat.simps digit_char_def)
  show ?thesis
    unfolding run[symmetric] w snd_conv v[symmetric]
    using s3_version_kept[OF s3_sample_fresh run s3_sample_exists s3_sample_enabled w _ refl,
        of "[S3Write ''b'' ''k'' (s3_sample_object ''two'') 2, S3Delete ''b'' ''k'' None 3]"]
    by (auto simp: s3_sample_object_def simp del: run_ops.simps)
qed

subsection \<open>Multipart uploads\<close>

text \<open>The parts a request names, as they are stored.\<close>

definition named_parts :: "string \<Rightarrow> s3_db \<Rightarrow> (int \<times> string) list \<Rightarrow> s3_part list" where
  "named_parts i db parts = map (\<lambda>(n, _). the (find (is_part i n) (s3_parts db))) parts"

lemma gather_named:
  "gather_parts X i parts db = Inr (content, md5s, sizes) \<Longrightarrow>
   content = concat (map pa_content (named_parts i db parts))
   \<and> sizes = map (\<lambda>p. int (length (pa_content p))) (named_parts i db parts)
   \<and> map pa_number (named_parts i db parts) = map fst parts
   \<and> list_all (\<lambda>p. find (is_part i (pa_number p)) (s3_parts db) = Some p) (named_parts i db parts)"
proof (induction parts arbitrary: content md5s sizes)
  case (Cons q parts)
  obtain n e where q: "q = (n, e)" by (cases q)
  obtain p c m z where p: "find (is_part i n) (s3_parts db) = Some p" and rest: "gather_parts X i parts db = Inr (c, m, z)"
    and content: "content = pa_content p @ c" "sizes = int (length (pa_content p)) # z"
    using Cons.prems q by (auto simp: Let_def try_bind_Inr_iff split: option.splits if_splits)
  have "pa_number p = n" using p by (auto simp: is_part_def dest: find_Some_set)
  with Cons.IH[OF rest] p content show ?case by (simp add: named_parts_def q)
qed (simp add: named_parts_def)

text \<open>C22: multipart uploads.  A completed upload is read back as the concatenation of the stored parts the
  request names, in strictly ascending order of their numbers, with their sizes; the upload and its
  parts are gone.
\<close>

theorem s3_multipart_concat:
  assumes fresh: "ids_fresh X" and db: "db = snd (run_ops (s3_exec X) xs s3_init)"
    and complete: "complete_upload X b k i parts now db = (Inr w, db')"
  shows "\<exists>ps info. map pa_number ps = map fst parts \<and> sorted_wrt (<) (map fst parts)
    \<and> list_all (\<lambda>p. find (is_part i (pa_number p)) (s3_parts db) = Some p) ps
    \<and> resolve_version b k None db' = Inr info \<and> ob_version (oi_row info) = wr_version w
    \<and> read_content info None db' = Some (concat (map pa_content ps))
    \<and> mt_parts (ob_meta (oi_row info)) = map (\<lambda>p. int (length (pa_content p))) ps
    \<and> find_upload b k i db' = None \<and> list_all (\<lambda>p. pa_upload p \<noteq> i) (s3_parts db')"
proof -
  have ok: "s3_ok X db" unfolding db by (rule s3_reached_ok[OF fresh])
  obtain u content md5s sizes where run: "sorted_wrt (<) (map fst parts)" "upload_row b k i db = Inr u"
      "gather_parts X i parts db = Inr (content, md5s, sizes)"
    using complete by (auto simp: complete_upload_def split: if_splits sum.splits)
  define obj where "obj = \<lparr> no_content_bytes = content, no_type = up_type u,
    no_etag = CHR 0x22 # md5_raw (s3_ext X) md5s @ ''-'' @ show_nat (length parts) @ [CHR 0x22],
    no_meta = (up_meta u)\<lparr> mt_parts := sizes, mt_checksums := [] \<rparr>, no_tags = up_tags u \<rparr>"
  let ?row = "written_row X b k obj now db"
  have exists: "bucket_exists b db"
    using run(2) by (auto simp: upload_row_def require_bucket_def try_bind_def split: if_splits)
  have db': "db' = delete_upload i (snd (write_object_tx X b k obj now db))" and w: "wr_version w = ob_version ?row"
    using complete run exists by (auto simp: complete_upload_def write_object_eq Let_def obj_def split: if_splits)
  note h = write_object_hist[OF fresh ok exists refl, of k obj now]
  have ok': "s3_ok X db'" and hist: "hist db' b k = hist_put ?row (hist db b k)"
    using h by (simp_all add: db' delete_upload_rows)
  have row: "?row \<in> set (hist db' b k)" "\<not> ob_marker ?row" "ob_content ?row = content" "mt_parts (ob_meta ?row) = sizes"
    by (auto simp: hist hist_put_def written_row_def obj_def apply_default_sse_def Let_def split: prod.split)
  have key: "s3_key_ok X db' b k" using ok' by (simp add: s3_ok_def)
  moreover have "hist db' b k \<noteq> []" using row(1) by auto
  ultimately have exists': "bucket_exists b db'" unfolding s3_key_ok_def by blast
  have "hist_get k None (hist db' b k) = Inr ?row" using row(2) by (simp add: hist_get_def hist hist_put_def)
  with resolve_hist[OF key exists', of None] obtain info where
    info: "resolve_version b k None db' = Inr info" "oi_row info = ?row" by (cases "resolve_version b k None db'") auto
  have gone: "find_upload b k i db' = None" "list_all (\<lambda>p. pa_upload p \<noteq> i) (s3_parts db')"
    by (auto simp: db' delete_upload_def find_upload_def find_None_set list_all_iff)
  show ?thesis
    using gather_named[OF run(3)] run(1) info gone read_row[OF ok' row(1) info(2)] row(3,4) w
    by (intro exI[of _ "named_parts i db parts"] exI[of _ info]) simp
qed

definition s3_sample_upload :: s3_upload where
  "s3_sample_upload = \<lparr> up_id = ''0'', up_bucket = ''b'', up_key = ''k'', up_type = [], up_meta =
     default_meta\<lparr> mt_sse := [(SSE_HEADER, ''AES256'')] \<rparr>, up_tags = [], up_created_at = show_int 1 \<rparr>"

definition s3_sample_part :: "int \<Rightarrow> string \<Rightarrow> s3_part" where
  "s3_sample_part n content = \<lparr> pa_upload = ''0'', pa_number = n, pa_content = content, pa_size = int (length content),
     pa_etag = CHR 0x22 # content @ [CHR 0x22], pa_meta = default_meta, pa_created_at = show_int 1 \<rparr>"

definition s3_sample_uploads :: "s3_part list \<Rightarrow> s3_db" where
  "s3_sample_uploads ps = (s3_sample_db [] [] 0)\<lparr> s3_uploads := [s3_sample_upload], s3_parts := ps, s3_draws := 1 \<rparr>"

lemma s3_sample_uploads_exists: "require_bucket ''b'' (s3_sample_uploads ps) = Inr ()"
  by (simp add: s3_sample_uploads_def s3_sample_db_def require_bucket_def bucket_exists_def sql_count_def)

lemma s3_sample_create_upload:
  "snd (s3_exec s3_sample_env (S3CreateUpload ''b'' ''k'' [] default_meta [] 1) (s3_sample_db [] [] 0)) = s3_sample_uploads []"
  by (simp add: create_upload_def s3_sample_exists Let_def)
    (simp add: s3_sample_uploads_def s3_sample_upload_def s3_sample_db_def s3_init_def s3_sample_env_def sample_ext_def
      uuid_simple_def show_nat.simps digit_char_def apply_default_sse_def default_meta_def config_get_def)

lemma s3_sample_upload_row: "upload_row ''b'' ''k'' ''0'' (s3_sample_uploads ps) = Inr s3_sample_upload"
  unfolding upload_row_def s3_sample_uploads_exists
  by (simp add: find_upload_def s3_sample_uploads_def s3_sample_upload_def)

lemma s3_sample_upload_part:
  "n = 1 \<or> n = 2 \<Longrightarrow> list_all (\<lambda>p. pa_number p \<noteq> n) ps \<Longrightarrow>
   snd (s3_exec s3_sample_env (S3UploadPart ''b'' ''k'' ''0'' n c default_meta 1) (s3_sample_uploads ps))
     = s3_sample_uploads (ps @ [s3_sample_part n c])"
  by (auto simp: upload_part_def s3_sample_upload_row Let_def)
    (auto simp: s3_sample_uploads_def s3_sample_part_def s3_sample_env_def sample_ext_def s3_md5_etag_def sql_delete_def
      is_part_def list_all_iff)

theorem s3_multipart_concat_witness:
  "\<exists>w db' info. complete_upload s3_sample_env ''b'' ''k'' ''0'' [(1, ''ab''), (2, ''cd'')] 2
      (snd (run_ops (s3_exec s3_sample_env)
        [S3CreateBucket ''b'' 0, S3CreateUpload ''b'' ''k'' [] default_meta [] 1,
         S3UploadPart ''b'' ''k'' ''0'' 2 ''cd'' default_meta 1, S3UploadPart ''b'' ''k'' ''0'' 1 ''ab'' default_meta 1] s3_init))
      = (Inr w, db')
    \<and> resolve_version ''b'' ''k'' None db' = Inr info \<and> read_content info None db' = Some ''abcd''"
proof -
  let ?ps = "[s3_sample_part 2 ''cd'', s3_sample_part 1 ''ab'']" and ?req = "[(1, ''ab''), (2, ''cd'')] :: (int \<times> string) list"
  let ?db = "s3_sample_uploads ?ps"
  have run: "?db = snd (run_ops (s3_exec s3_sample_env)
        [S3CreateBucket ''b'' 0, S3CreateUpload ''b'' ''k'' [] default_meta [] 1,
         S3UploadPart ''b'' ''k'' ''0'' 2 ''cd'' default_meta 1, S3UploadPart ''b'' ''k'' ''0'' 1 ''ab'' default_meta 1] s3_init)"
    by (simp add: Let_def s3_sample_create s3_sample_create_upload s3_sample_upload_part s3_sample_part_def del: s3_exec.simps)
  have parts: "s3_parts ?db = ?ps" by (simp add: s3_sample_uploads_def)
  have find: "find (is_part ''0'' 1) ?ps = Some (s3_sample_part 1 ''ab'')" "find (is_part ''0'' 2) ?ps = Some (s3_sample_part 2 ''cd'')"
    by (simp_all add: is_part_def s3_sample_part_def)
  have trimmed: "trim ''ab'' = ''ab''" "trim ''cd'' = ''cd''" by code_simp+
  have "gather_parts s3_sample_env ''0'' ?req ?db = Inr (''abcd'', ''abcd'', [2, 2])"
    by (simp add: parts find Let_def del: find.simps)
      (simp add: s3_sample_part_def trim_quotes_def s3_sample_env_def trim_end_char_def trim_start_char_def trimmed)
  then have "\<exists>w db'. complete_upload s3_sample_env ''b'' ''k'' ''0'' ?req 2 ?db = (Inr w, db')"
    using s3_sample_uploads_exists[of ?ps]
    by (auto simp: complete_upload_def s3_sample_upload_row write_object_eq Let_def require_bucket_def split: if_splits)
  then obtain w db' where w: "complete_upload s3_sample_env ''b'' ''k'' ''0'' ?req 2 ?db = (Inr w, db')" by blast
  have content: "concat (map pa_content ps) = ''abcd''"
    if "map pa_number ps = map fst ?req" "list_all (\<lambda>p. find (is_part ''0'' (pa_number p)) (s3_parts ?db) = Some p) ps" for ps
  proof -
    from that(1) obtain p q where "ps = [p, q]" "pa_number p = 1" "pa_number q = 2" by (auto simp: map_eq_Cons_conv)
    with that(2) find show ?thesis unfolding parts by (simp add: s3_sample_part_def del: find.simps)
  qed
  from s3_multipart_concat[OF s3_sample_fresh run w] obtain ps info where
    "map pa_number ps = map fst ?req" "list_all (\<lambda>p. find (is_part ''0'' (pa_number p)) (s3_parts ?db) = Some p) ps"
    "resolve_version ''b'' ''k'' None db' = Inr info" "read_content info None db' = Some (concat (map pa_content ps))"
    by blast
  with w content[of ps] show ?thesis unfolding run[symmetric] by auto
qed

end
