(* ===== verification/S3_Routes.thy ===== *)
theory S3_Routes
  imports S3_Uploads S3_Properties
begin

text \<open>
  S3, part 7: browser uploads (post_object.rs), the entry points and CORS (handlers.rs) and the
  operations for other services and for seed documents (mod.rs of src/src/aws/s3).

  The multipart form of a browser upload is read by axum: \<open>form_read\<close> gives the fields as they come.
\<close>

section \<open>Routes\<close>

datatype form_event =
    FormField (ff_name: "string option") (ff_file: "string option") (ff_bytes: "string + string") (ff_text: "string + string")
  | FormFail string

record s3_site =
  si_http :: s3_http
  form_read :: "s3_headers \<Rightarrow> string + string \<Rightarrow> string + form_event list"

subsection \<open>The form\<close>

record post_form =
  fm_fields :: "(string \<times> string) list"
  fm_filename :: string
  fm_content :: string

definition form_get :: "post_form \<Rightarrow> string \<Rightarrow> string option" where
  "form_get f name = map_of (fm_fields f) name"

definition malformed_post :: "string \<Rightarrow> s3_error" where
  "malformed_post msg = s3_error_new ''MalformedPOSTRequest'' msg"

definition bad_form :: "string \<Rightarrow> s3_error" where
  "bad_form e = malformed_post (''The body of your POST request is not well-formed multipart/form-data: '' @ e)"

text \<open>Fields after the file are ignored.\<close>

fun read_fields :: "form_event list \<Rightarrow> (string \<times> string) list \<Rightarrow> (s3_error, post_form) result" where
  "read_fields [] fs = Inl (err_with ''ArgumentValue'' ''0'' (err_with ''ArgumentName'' ''file''
     (s3_invalid_argument ''POST requires exactly one file upload per request.'')))"
| "read_fields (FormFail e # evs) fs = Inl (bad_form e)"
| "read_fields (FormField name file bytes txt # evs) fs =
     (let n = ascii_lowercase (case name of Some n \<Rightarrow> n | None \<Rightarrow> []) in
      if n = ''file'' then
        (case bytes of
           Inl e \<Rightarrow> Inl (malformed_post e)
         | Inr c \<Rightarrow> Inr \<lparr> fm_fields = fs, fm_filename = (case file of Some f \<Rightarrow> f | None \<Rightarrow> []), fm_content = c \<rparr>)
      else
        (case txt of
           Inl e \<Rightarrow> Inl (malformed_post e)
         | Inr v \<Rightarrow> read_fields evs (fs @ [(n, v)])))"

definition read_form :: "s3_site \<Rightarrow> s3_headers \<Rightarrow> string + string \<Rightarrow> (s3_error, post_form) result" where
  "read_form S hs body = (case form_read S hs body of Inl e \<Rightarrow> Inl (bad_form e) | Inr evs \<Rightarrow> read_fields evs [])"

subsection \<open>The policy\<close>

definition denied :: "s3_http \<Rightarrow> json \<Rightarrow> s3_error" where
  "denied H cond = s3_error_new ''AccessDenied''
     (''Invalid according to Policy: Policy Condition failed: '' @ json_print (s3_ex H) cond)"

definition invalid_policy :: "string \<Rightarrow> s3_error" where
  "invalid_policy m = s3_error_new ''InvalidPolicyDocument'' (''Invalid Policy: '' @ m)"

definition policy_value :: "post_form \<Rightarrow> string \<Rightarrow> string \<Rightarrow> string \<Rightarrow> string" where
  "policy_value form b k field =
     (let f = ascii_lowercase (trim_start_char CHR ''$'' field) in
      if f = ''bucket'' then b else if f = ''key'' then k else (case form_get form f of Some v \<Rightarrow> v | None \<Rightarrow> []))"

definition size_error :: "string \<Rightarrow> string \<Rightarrow> int \<Rightarrow> string \<Rightarrow> int \<Rightarrow> s3_error" where
  "size_error code msg sz bound_name bound = err_with bound_name (show_int bound) (err_with ''ProposedSize'' (show_int sz)
     (s3_error_new code msg))"

definition nth_or :: "json list \<Rightarrow> nat \<Rightarrow> (json \<Rightarrow> 'a option) \<Rightarrow> 'a \<Rightarrow> 'a" where
  "nth_or xs i f d = (case (if i < length xs then f (xs ! i) else None) of Some v \<Rightarrow> v | None \<Rightarrow> d)"

definition check_condition :: "s3_http \<Rightarrow> post_form \<Rightarrow> string \<Rightarrow> string \<Rightarrow> json \<Rightarrow> (s3_error, unit) result" where
  "check_condition H form b k cond =
     (case cond of
        JObj m \<Rightarrow>
          if list_all (\<lambda>(f, v). policy_value form b k f = (case as_str v of Some s \<Rightarrow> s | None \<Rightarrow> [])) m then Inr () else Inl (denied H cond)
      | JArr a \<Rightarrow>
          if a = [] then Inl (invalid_policy ''Invalid condition'')
          else
            let op = ascii_lowercase (nth_or a 0 as_str []); sz = int (length (fm_content form)) in
            if op = ''content-length-range'' then
              (let lo = nth_or a 1 as_i64 0; hi = nth_or a 2 as_i64 i64_max in
               if hi < sz then Inl (size_error ''EntityTooLarge'' ''Your proposed upload exceeds the maximum allowed size'' sz ''MaxSizeAllowed'' hi)
               else if sz < lo then
                 Inl (size_error ''EntityTooSmall'' ''Your proposed upload is smaller than the minimum allowed size'' sz ''MinSizeAllowed'' lo)
               else Inr ())
            else if op = ''eq'' \<or> op = ''starts-with'' then
              (let field = nth_or a 1 as_str []; expected = nth_or a 2 as_str []; actual = policy_value form b k field;
                   ok = (if op = ''eq'' then actual = expected
                     else if eq_ignore_ascii_case field ''$content-type''
                     then list_all (\<lambda>t. starts_with (trim t) expected) (split_on CHR '','' actual)
                     else starts_with actual expected)
               in if ok then Inr () else Inl (denied H cond))
            else Inl (invalid_policy (''Invalid condition operator '' @ op))
      | _ \<Rightarrow> Inl (invalid_policy ''Invalid condition''))"

fun check_conditions :: "s3_http \<Rightarrow> post_form \<Rightarrow> string \<Rightarrow> string \<Rightarrow> json list \<Rightarrow> (s3_error, unit) result" where
  "check_conditions H form b k [] = Inr ()"
| "check_conditions H form b k (c # cs) = try_bind (check_condition H form b k c) (\<lambda>_. check_conditions H form b k cs)"

definition policy_document :: "s3_http \<Rightarrow> string \<Rightarrow> (s3_error, json) result" where
  "policy_document H b64 =
     (case b64_decode (s3_ex H) (trim b64) of
        None \<Rightarrow> Inl (invalid_policy ''Invalid Base64 Encoding.'')
      | Some raw \<Rightarrow> (case json_parse (s3_ex H) raw of None \<Rightarrow> Inl (invalid_policy ''Invalid JSON.'') | Some v \<Rightarrow> Inr v))"

definition policy_live :: "s3_http \<Rightarrow> json \<Rightarrow> int \<Rightarrow> (s3_error, unit) result" where
  "policy_live H policy now =
     (case json_str ''expiration'' policy of
        None \<Rightarrow> Inr ()
      | Some e \<Rightarrow> (case rfc3339_millis H e of
            None \<Rightarrow> Inl (invalid_policy (''Invalid '' @ [CHR 0x27] @ ''expiration'' @ [CHR 0x27] @ '' value.''))
          | Some t \<Rightarrow> if t < now then Inl (s3_error_new ''AccessDenied'' ''Invalid according to Policy: Policy expired.'') else Inr ()))"

definition check_policy :: "s3_http \<Rightarrow> string \<Rightarrow> post_form \<Rightarrow> string \<Rightarrow> string \<Rightarrow> int \<Rightarrow> (s3_error, unit) result" where
  "check_policy H b64 form b k now =
     try_bind (policy_document H b64) (\<lambda>policy.
     try_bind (policy_live H policy now) (\<lambda>_.
     check_conditions H form b k (case Option.bind (json_get ''conditions'' policy) as_array of Some cs \<Rightarrow> cs | None \<Rightarrow> [])))"

subsection \<open>POST Object\<close>

definition post_key :: "post_form \<Rightarrow> (s3_error, string) result" where
  "post_key form = (case form_get form ''key'' of
     Some k \<Rightarrow> Inr (join_str (fm_filename form) (split_str ''${filename}'' k))
   | None \<Rightarrow> Inl (err_with ''ArgumentValue'' [] (err_with ''ArgumentName'' ''key''
       (s3_invalid_argument (''Bucket POST must contain a field named '' @ [CHR 0x27] @ ''key'' @ [CHR 0x27]
          @ ''.  If it is specified, please check the order of the fields.'')))))"

definition post_checks :: "s3_http \<Rightarrow> post_form \<Rightarrow> string \<Rightarrow> string \<Rightarrow> int \<Rightarrow> (s3_error, object_attrs_row \<times> s3_tags) result" where
  "post_checks H form b k now =
     try_bind (case form_get form ''policy'' of Some p \<Rightarrow> check_policy H p form b k now | None \<Rightarrow> Inr ()) (\<lambda>_.
     try_bind (object_attrs H (fm_fields form)) (\<lambda>attrs.
     try_bind (case form_get form ''tagging'' of
         Some t \<Rightarrow> try_bind (parse_tagging H t) (\<lambda>tags. try_bind (validate_tags tags 10) (\<lambda>_. Inr tags))
       | None \<Rightarrow> Inr []) (\<lambda>tags. Inr (attrs, tags))))"

definition post_response :: "s3_http \<Rightarrow> post_form \<Rightarrow> string \<Rightarrow> string \<Rightarrow> write_result \<Rightarrow> http_response" where
  "post_response H form b k wr =
     (let location = object_location H b k; h = write_headers wr in
      case nonempty (case form_get form ''success_action_redirect'' of Some u \<Rightarrow> Some u | None \<Rightarrow> form_get form ''redirect'') of
        Some url \<Rightarrow>
          s3_with_headers (status_response 303) (h @ [(''location'',
            url @ [if CHR ''?'' \<in> set url then CHR ''&'' else CHR ''?''] @ ''bucket='' @ url_encode H b @ ''&key='' @ url_encode H k
            @ ''&etag='' @ url_encode H (wr_etag wr))])
      | None \<Rightarrow>
          s3_with_headers
            (case form_get form ''success_action_status'' of
               Some st \<Rightarrow>
                 if st = ''200'' then status_response 200
                 else if st = ''201'' then s3_xml_status 201 (s3_xml_decl @ wrap ''PostResponse''
                   (xml_tag ''Location'' location @ xml_tag ''Bucket'' b @ xml_tag ''Key'' k @ xml_tag ''ETag'' (wr_etag wr)))
                 else status_response 204
             | None \<Rightarrow> status_response 204)
            (h @ [(''location'', location)]))"

definition post_object :: "s3_site \<Rightarrow> s3_others \<Rightarrow> string \<Rightarrow> s3_headers \<Rightarrow> string + string \<Rightarrow> string \<Rightarrow> int \<Rightarrow> s3_handler" where
  "post_object S others b hs body request_id now =
     (let H = si_http S in
      act_bind (act_result (read_form S hs body)) (\<lambda>form.
      act_bind (act_result (post_key form)) (\<lambda>k.
      act_bind (read_tables (require_bucket b)) (\<lambda>_.
      act_bind (act_result (post_checks H form b k now)) (\<lambda>(attrs, tags).
      act_bind (meanwhile others 0) (\<lambda>_.
      act_bind (on_tables (put_object (sh_env H) b k (fm_content form) (attrs_type attrs) (oa_meta attrs) tags now)) (\<lambda>wr.
      act_bind (meanwhile others 1) (\<lambda>_.
      act_bind (s3_emit H ''post_object'' [(''bucket'', JStr b), (''key'', JStr k), (''size'', JInt (wr_size wr))] now) (\<lambda>_.
      act_bind (meanwhile others 2) (\<lambda>_.
      act_bind (fire_created H (inside 3 others) b k ''ObjectCreated:Post'' wr request_id now) (\<lambda>_.
      answer (post_response H form b k wr))))))))))))"

subsection \<open>Entry points\<close>

record raw_request =
  rw_method :: string
  rw_query :: "string option"
  rw_headers :: s3_headers
  rw_body :: "string + string"   \<comment> \<open>the bytes, or why they cannot be read\<close>

definition cors_refused :: "string \<Rightarrow> s3_error" where
  "cors_refused m = err_with ''ResourceType'' ''BUCKET'' (err_with ''Method'' m (s3_error_new ''CORSResponse''
     (''This CORS request is not allowed. This is usually because the evalution of Origin, request method / ''
      @ ''Access-Control-Request-Method or Access-Control-Request-Headers are not whitelisted by the resource''
      @ [CHR 0x27] @ ''s CORS spec.'')))"

text \<open>The CORS document of a bucket; a missing bucket has none.\<close>

definition cors_document :: "string \<Rightarrow> s3_db \<Rightarrow> string option" where
  "cors_document b db = (case get_config b ''cors'' db of Inr c \<Rightarrow> c | Inl _ \<Rightarrow> None)"

definition preflight_rule :: "s3_http \<Rightarrow> string \<Rightarrow> s3_headers \<Rightarrow> s3_db \<Rightarrow> (s3_error, string \<times> cors_rule \<times> string list) result" where
  "preflight_rule H b hs db =
     (case (s3_header_str ''origin'' hs, s3_header_str ''access-control-request-method'' hs) of
        (Some origin, Some m) \<Rightarrow>
          (let req_headers = (case s3_header_str ''access-control-request-headers'' hs of Some v \<Rightarrow> split_header_list v | None \<Rightarrow> []) in
           case cors_document b db of
             None \<Rightarrow> Inl (s3_error_new ''CORSResponse'' ''CORS is not enabled for this bucket.'')
           | Some xml \<Rightarrow> try_bind (parse_rules H xml) (\<lambda>rules.
               case find_rule rules origin (trim m) req_headers of
                 None \<Rightarrow> Inl (cors_refused m) | Some r \<Rightarrow> Inr (origin, r, req_headers)))
      | _ \<Rightarrow> Inl (s3_error_new ''BadRequest'' ''Insufficient information. Origin request header needed.''))"

definition preflight :: "s3_http \<Rightarrow> string \<Rightarrow> s3_headers \<Rightarrow> s3_handler" where
  "preflight H b hs = act_bind (read_tables (preflight_rule H b hs)) (\<lambda>(origin, r, req_headers).
     answer (cors_apply r origin True req_headers (status_response 200)))"

text \<open>The headers every response gets, and those of CORS for a request with an origin.\<close>

definition add_cors :: "s3_http \<Rightarrow> string \<Rightarrow> string \<Rightarrow> string option \<Rightarrow> s3_db \<Rightarrow> http_response \<Rightarrow> http_response" where
  "add_cors H b m origin db resp =
     (case origin of
        Some u \<Rightarrow>
          if m \<noteq> ''OPTIONS'' \<and> b \<noteq> [] then
            (case cors_document b db of
               Some xml \<Rightarrow> (case parse_rules H xml of
                   Inr rules \<Rightarrow> (case find_rule rules u m [] of Some r \<Rightarrow> cors_apply r u False [] resp | None \<Rightarrow> resp)
                 | Inl _ \<Rightarrow> resp)
             | None \<Rightarrow> resp)
          else resp
      | None \<Rightarrow> resp)"

definition s3_finish ::
    "s3_http \<Rightarrow> string \<Rightarrow> string \<Rightarrow> string option \<Rightarrow> string \<Rightarrow> string \<Rightarrow> (s3_error, http_response) result \<Rightarrow> s3_db \<Rightarrow> http_response" where
  "s3_finish H b m origin request_id resource res db =
     (let resp = (case res of Inr x \<Rightarrow> x | Inl e \<Rightarrow> s3_error_response H e m request_id resource) in
      add_cors H b m origin db (try_header ''x-amz-id-2'' (host_id H request_id) (try_header ''x-amz-request-id'' request_id resp)))"

definition is_form_post :: "raw_request \<Rightarrow> string option \<Rightarrow> bool" where
  "is_form_post q key \<longleftrightarrow> key = None \<and> rw_method q = ''POST''
     \<and> (case s3_header_str ''content-type'' (rw_headers q) of
          Some c \<Rightarrow> starts_with (ascii_lowercase c) ''multipart/form-data'' | None \<Rightarrow> False)"

definition s3_dispatch :: "s3_site \<Rightarrow> s3_others \<Rightarrow> string \<Rightarrow> string option \<Rightarrow> raw_request \<Rightarrow> string \<Rightarrow> int \<Rightarrow> s3_handler" where
  "s3_dispatch S others b key q request_id now =
     (let H = si_http S in
      if rw_method q = ''OPTIONS'' then preflight H b (rw_headers q)
      else if is_form_post q key then post_object S others b (rw_headers q) (rw_body q) request_id now
      else (case rw_body q of
          Inl e \<Rightarrow> act_result (Inl (s3_error_new ''IncompleteBody'' e))
        | Inr body \<Rightarrow>
            let r = \<lparr> q3_method = rw_method q, q3_bucket = b, q3_key = key, q3_query = s3_parse_query H (rw_query q),
                      q3_headers = rw_headers q, q3_body = body, q3_id = request_id \<rparr>
            in if key \<noteq> None then object_dispatch H others r now else bucket_dispatch H others r now))"

text \<open>Every request draws an id.\<close>

definition drawing_id :: "s3_http \<Rightarrow> (string \<Rightarrow> s3_state \<Rightarrow> 'a) \<Rightarrow> s3_state \<Rightarrow> 'a" where
  "drawing_id H f s =
     f (new_request_id H (s3_draws (ss_db s))) (s\<lparr> ss_db := (ss_db s)\<lparr> s3_draws := Suc (s3_draws (ss_db s)) \<rparr> \<rparr>)"

definition s3_entry :: "s3_site \<Rightarrow> s3_others \<Rightarrow> string \<Rightarrow> string option \<Rightarrow> raw_request \<Rightarrow> int \<Rightarrow> s3_state \<Rightarrow> http_response \<times> s3_state" where
  "s3_entry S others b key q now = drawing_id (si_http S) (\<lambda>request_id s.
     case s3_dispatch S (inside 0 others) b key q request_id now s of
       (res, s1) \<Rightarrow>
         let s2 = between others [1] s1;
             resource = CHR ''/'' # b @ (case key of Some k \<Rightarrow> CHR ''/'' # k | None \<Rightarrow> [])
         in (s3_finish (si_http S) b (rw_method q) (s3_header_str ''origin'' (rw_headers q)) request_id resource res (ss_db s2), s2))"

definition list_buckets_xml :: "s3_http \<Rightarrow> s3_bucket list \<Rightarrow> int \<Rightarrow> string" where
  "list_buckets_xml H bs now = ns_doc ''ListAllMyBucketsResult'' (owner_xml @ wrap ''Buckets'' (concat (map (\<lambda>b. wrap ''Bucket''
     (xml_tag ''Name'' (b3_name b) @ wrap ''CreationDate'' (s3_iso H now (b3_created_at b)) @ wrap ''BucketRegion'' REGION)) bs)))"

definition list_buckets_handler :: "s3_http \<Rightarrow> int \<Rightarrow> s3_state \<Rightarrow> http_response \<times> s3_state" where
  "list_buckets_handler H now = drawing_id H (\<lambda>request_id s.
     (s3_finish H [] ''GET'' None request_id ''/'' (Inr (s3_xml_ok (list_buckets_xml H (s3_list_buckets (ss_db s)) now))) (ss_db s), s))"

subsection \<open>Other services and seed documents\<close>

definition s3_error_text :: "s3_error \<Rightarrow> string" where
  "s3_error_text e = e3_code e @ '': '' @ e3_message e"

definition with_text :: "'a s3_call \<Rightarrow> (s3_state, string, 'a) action" where
  "with_text m = (\<lambda>s. case m s of (Inl e, s') \<Rightarrow> (Inl (s3_error_text e), s') | (Inr v, s') \<Rightarrow> (Inr v, s'))"

definition internal_meta :: "(string \<times> string) list \<Rightarrow> obj_meta" where
  "internal_meta metadata = default_meta\<lparr> mt_user := map (\<lambda>(k, v).
     (let k = ascii_lowercase k in (case strip_prefix ''x-amz-meta-'' k of Some n \<Rightarrow> n | None \<Rightarrow> k), v)) metadata \<rparr>"

definition put_object_internal ::
    "s3_http \<Rightarrow> s3_others \<Rightarrow> string \<Rightarrow> string \<Rightarrow> string \<Rightarrow> string \<Rightarrow> (string \<times> string) list \<Rightarrow> int \<Rightarrow> (s3_state, string, string) action" where
  "put_object_internal H others b k body ctype metadata now = with_text
     (act_bind (on_tables (put_object (sh_env H) b k body ctype (internal_meta metadata) [] now)) (\<lambda>wr.
      act_bind (meanwhile others 0) (\<lambda>_.
      act_bind (s3_emit H ''put_object'' [(''bucket'', JStr b), (''key'', JStr k), (''size'', JInt (wr_size wr)), (''internal'', JBool True)] now) (\<lambda>_.
      act_bind (meanwhile others 1) (\<lambda>_.
      drawing_id H (\<lambda>request_id.
      act_bind (fire_created H (inside 2 others) b k ''ObjectCreated:Put'' wr request_id now) (\<lambda>_.
      act_return (wr_etag wr))))))))"

definition seed_doc :: "externals \<Rightarrow> json \<Rightarrow> string \<Rightarrow> string" where
  "seed_doc E v root = (case v of JStr s \<Rightarrow> s | _ \<Rightarrow> ns_doc root (json_to_xml_children E v))"

definition seed_config :: "string \<Rightarrow> string \<Rightarrow> string \<Rightarrow> unit s3_call" where
  "seed_config b kind body = on_tables (put_config b kind body)"

text \<open>A step of the seed, when the document has the field.\<close>

definition seed_field :: "json \<Rightarrow> string \<Rightarrow> (json \<Rightarrow> unit s3_call) \<Rightarrow> unit s3_call" where
  "seed_field b name f = (case json_get name b of Some v \<Rightarrow> f v | None \<Rightarrow> act_return ())"

definition seed_versioning :: "string \<Rightarrow> json \<Rightarrow> unit s3_call" where
  "seed_versioning name v = (case v of
     JBool True \<Rightarrow> seed_config name ''versioning'' ''Enabled''
   | JStr s \<Rightarrow> if s = ''Enabled'' \<or> s = ''Suspended'' then seed_config name ''versioning'' s else act_return ()
   | _ \<Rightarrow> act_return ())"

definition seed_encryption :: "externals \<Rightarrow> json \<Rightarrow> string" where
  "seed_encryption E v =
     (let doc = seed_doc E v ''ServerSideEncryptionConfiguration'' in
      case v of
        JStr s \<Rightarrow> if \<not> starts_with (trim_start s) ''<'' then
            ns_doc ''ServerSideEncryptionConfiguration'' (wrap ''Rule'' (wrap ''ApplyServerSideEncryptionByDefault'' (xml_tag ''SSEAlgorithm'' s)))
          else doc
      | _ \<Rightarrow> doc)"

definition seed_bucket :: "s3_http \<Rightarrow> json \<Rightarrow> int \<Rightarrow> unit s3_call" where
  "seed_bucket H b now =
     (let E = s3_ex H in
      case (case as_str b of Some n \<Rightarrow> Some n | None \<Rightarrow> json_str ''name'' b) of
        None \<Rightarrow> act_return ()
      | Some name \<Rightarrow>
          act_bind (on_tables (create_bucket (sh_env H) name now)) (\<lambda>_.
          act_bind (seed_field b ''versioning'' (seed_versioning name)) (\<lambda>_.
          act_bind (seed_field b ''cors'' (\<lambda>c. act_bind (act_result (rules_from_json c)) (\<lambda>rules.
             seed_config name ''cors'' (rules_to_xml rules)))) (\<lambda>_.
          act_bind (seed_field b ''notifications'' (\<lambda>n. seed_config name ''notification'' (notify_to_xml (notify_from_seed n)))) (\<lambda>_.
          act_bind (seed_field b ''lifecycle'' (\<lambda>l. seed_config name ''lifecycle'' (seed_doc E
             (case l of JArr rules \<Rightarrow> json_obj [(''Rules'', JArr rules)] | _ \<Rightarrow> l) ''LifecycleConfiguration''))) (\<lambda>_.
          act_bind (seed_field b ''public_access_block'' (\<lambda>p.
             seed_config name ''publicAccessBlock'' (seed_doc E p ''PublicAccessBlockConfiguration''))) (\<lambda>_.
          act_bind (seed_field b ''encryption'' (\<lambda>e. seed_config name ''encryption'' (seed_encryption E e))) (\<lambda>_.
          act_bind (seed_field b ''policy'' (\<lambda>p. seed_config name ''policy'' (value_text E p))) (\<lambda>_.
          seed_field b ''tags'' (\<lambda>t. case as_object t of
             Some m \<Rightarrow> seed_config name ''tagging'' (tagging_xml (map (\<lambda>(k, v). (k, value_text E v)) m))
           | None \<Rightarrow> act_return ()))))))))))"

definition s3_seed :: "s3_http \<Rightarrow> json \<Rightarrow> int \<Rightarrow> (s3_state, string, unit) action" where
  "s3_seed H doc now = act_all (\<lambda>b. with_text (seed_bucket H b now))
     (case Option.bind (json_get ''buckets'' doc) as_array of Some bs \<Rightarrow> bs | None \<Rightarrow> [])"

section \<open>What requests do to the tables\<close>

text \<open>
  What requests do to the tables.  The locale \<open>s3_tables\<close> is what the protocol layer needs
  of the service layer: a property of the tables that every operation and every draw of an identifier
  keeps.  Then every request keeps it, whatever other requests do in between that keeps it too.
\<close>

abbreviation tab_keeps :: "(s3_db \<Rightarrow> bool) \<Rightarrow> 'a s3_call \<Rightarrow> bool" where
  "tab_keeps Q m \<equiv> act_keeps (\<lambda>s. Q (ss_db s)) m"

definition others_keep :: "(s3_db \<Rightarrow> bool) \<Rightarrow> s3_others \<Rightarrow> bool" where
  "others_keep Q others \<longleftrightarrow> (\<forall>p s. Q (ss_db s) \<longrightarrow> Q (ss_db (between others p s)))"

lemma others_keepD: "others_keep Q others \<Longrightarrow> Q (ss_db s) \<Longrightarrow> Q (ss_db (between others p s))"
  by (simp add: others_keep_def)

lemma others_keep_inside [intro]: "others_keep Q others \<Longrightarrow> others_keep Q (inside n others)"
  by (simp add: others_keep_def inside_def)

lemma keeps_meanwhile: "others_keep Q others \<Longrightarrow> tab_keeps Q (meanwhile others i)"
  by (simp add: act_keeps_def meanwhile_def others_keep_def)

lemma keeps_read_tables: "tab_keeps Q (read_tables f)"
  by (simp add: act_keeps_def read_tables_def)

lemma keeps_emit: "tab_keeps Q (s3_emit H act payload now)"
  by (simp add: act_keeps_def s3_emit_def)

lemma keeps_answer: "tab_keeps Q (answer x)"
  by (simp add: answer_def)

lemma keeps_on_tables: "(\<And>db. Q db \<Longrightarrow> Q (snd (m db))) \<Longrightarrow> tab_keeps Q (on_tables m)"
  by (auto simp: act_keeps_def on_tables_def split: prod.split) (metis snd_conv)

lemma keeps_state: "(\<And>s. Q (ss_db s) \<Longrightarrow> Q (ss_db (f s))) \<Longrightarrow> tab_keeps Q (\<lambda>s. (Inr v, f s))"
  by (simp add: act_keeps_def)

lemma keeps_let_call: "tab_keeps Q (f v) \<Longrightarrow> tab_keeps Q (Let v f)"
  by simp

lemma keeps_sum: "(\<And>e. v = Inl e \<Longrightarrow> act_keeps P (f e)) \<Longrightarrow> (\<And>x. v = Inr x \<Longrightarrow> act_keeps P (g x)) \<Longrightarrow>
    act_keeps P (case v of Inl e \<Rightarrow> f e | Inr x \<Rightarrow> g x)"
  by (cases v) simp_all

lemmas call_intros = keeps_if keeps_prod keeps_option keeps_let_call act_keeps_bind act_keeps_result act_keeps_return
  keeps_meanwhile keeps_read_tables keeps_emit keeps_answer others_keep_inside

subsection \<open>Notifications\<close>

lemma parse_target_draws: "parse_target H k n c d = (r, d') \<Longrightarrow> d \<le> d'"
  by (auto simp: parse_target_def Let_def split: sum.splits option.splits prod.splits)

lemma parse_children_draws: "parse_children H cs cfg d = (r, d') \<Longrightarrow> d \<le> d'"
proof (induction cs arbitrary: cfg d)
  case (Cons c cs)
  show ?case
  proof (cases "config_kind (el_name c)")
    case (Some ka)
    with Cons.prems obtain k n where run: "act_bind (parse_target H k n c) (\<lambda>t. parse_children H cs (cfg\<lparr> nc_targets := nc_targets cfg @ [t] \<rparr>)) d = (r, d')"
      by (cases ka) auto
    then show ?thesis
    proof (cases rule: act_bind_cases)
      case (go v t)
      with Cons.IH parse_target_draws show ?thesis using le_trans by blast
    qed (auto dest: parse_target_draws)
  qed (use Cons in auto)
qed (simp add: act_return_def)

lemma notify_parse_draws: "notify_parse H xml d = (r, d') \<Longrightarrow> d \<le> d'"
  by (auto simp: notify_parse_def act_bind_def act_result_def split: prod.splits sum.splits dest: parse_children_draws)

lemma deliver_tables [simp]: "ss_db (snd (notify_deliver H others i t body now s)) = ss_db s"
  by (auto simp: notify_deliver_def Let_def split: dest_kind.split prod.split)

lemma deliver_events_keep: "others_keep Q others \<Longrightarrow> Q (ss_db s) \<Longrightarrow> Q (ss_db (deliver_events H others ev now ts i s))"
  by (induction ts arbitrary: i s) (simp_all add: others_keepD)

lemma validate_targets_keep: "others_keep Q others \<Longrightarrow> tab_keeps Q (validate_targets H others test now ts seen i)"
proof (induction ts arbitrary: seen i)
  case (Cons t ts)
  show ?case
  proof (rule act_keepsI)
    fix s0 r s' assume q: "Q (ss_db s0)" and run: "validate_targets H others test now (t # ts) seen i s0 = (r, s')"
    define s where "s = between others [0, i] s0"
    obtain ok s1 where d: "(if nt_kind t \<noteq> DestTopic \<or> topic_known (nt_arn t) (ss_app s)
        then notify_deliver H others i t test now (between others [1, i] s) else (False, s)) = (ok, s1)" by fastforce
    have "Q (ss_db s)" using Cons.prems q by (simp add: s_def others_keepD)
    then have "Q (ss_db s1)" using d Cons.prems
      by (auto split: if_splits) (metis deliver_tables others_keepD snd_conv)+
    then show "Q (ss_db s')"
      using run q Cons.IH[OF Cons.prems] d unfolding s_def[symmetric]
      by (auto simp: Let_def s_def[symmetric] split: if_splits dest: act_keepsD)
  qed
qed simp

subsection \<open>The contract of the tables\<close>

locale s3_tables =
  fixes env_ok :: "s3_env \<Rightarrow> bool"
    and inv :: "s3_env \<Rightarrow> s3_db \<Rightarrow> bool"
  assumes exec_inv: "env_ok X \<Longrightarrow> inv X db \<Longrightarrow> inv X (snd (s3_exec X x db))"
    and draw_inv: "inv X db \<Longrightarrow> s3_draws db \<le> n \<Longrightarrow> inv X (db\<lparr> s3_draws := n \<rparr>)"
begin

lemma op_keeps:
  assumes "env_ok X"
  shows "tab_keeps (inv X) (on_tables (create_bucket X b now))" "tab_keeps (inv X) (on_tables (delete_bucket b))"
    "kind \<noteq> ''versioning'' \<Longrightarrow> tab_keeps (inv X) (on_tables (put_config b kind body))"
    "st = ''Enabled'' \<or> st = ''Suspended'' \<Longrightarrow> tab_keeps (inv X) (on_tables (put_config b ''versioning'' st))"
    "kind \<noteq> ''versioning'' \<Longrightarrow> tab_keeps (inv X) (on_tables (delete_config b kind))"
    "tab_keeps (inv X) (on_tables (put_object X b k content ct meta tags now))"
    "tab_keeps (inv X) (on_tables (delete_object X b k vid now))"
    "tab_keeps (inv X) (on_tables (set_object_tags b k vid tags))"
    "tab_keeps (inv X) (on_tables (create_upload X b k ct meta tags now))"
    "tab_keeps (inv X) (on_tables (upload_part X b k i n content meta now))"
    "tab_keeps (inv X) (on_tables (complete_upload X b k i parts now))"
    "tab_keeps (inv X) (on_tables (abort_upload b k i))"
proof -
  note k = exec_inv[OF assms]
  show "tab_keeps (inv X) (on_tables (create_bucket X b now))" using k[of _ "S3CreateBucket b now"] by (intro keeps_on_tables) simp
  show "tab_keeps (inv X) (on_tables (delete_bucket b))" using k[of _ "S3DeleteBucket b"] by (intro keeps_on_tables) simp
  show "kind \<noteq> ''versioning'' \<Longrightarrow> tab_keeps (inv X) (on_tables (put_config b kind body))"
    using k[of _ "S3PutConfig b kind body"] by (intro keeps_on_tables) simp
  show "st = ''Enabled'' \<or> st = ''Suspended'' \<Longrightarrow> tab_keeps (inv X) (on_tables (put_config b ''versioning'' st))"
    using k[of _ "S3SetVersioning b (st = ''Enabled'')"] by (intro keeps_on_tables) auto
  show "kind \<noteq> ''versioning'' \<Longrightarrow> tab_keeps (inv X) (on_tables (delete_config b kind))"
    using k[of _ "S3DeleteConfig b kind"] by (intro keeps_on_tables) simp
  show "tab_keeps (inv X) (on_tables (put_object X b k content ct meta tags now))"
    unfolding put_object_def using k[of _ "S3Write b k _ now"] by (intro keeps_on_tables) simp
  show "tab_keeps (inv X) (on_tables (delete_object X b k vid now))" using k[of _ "S3Delete b k vid now"] by (intro keeps_on_tables) simp
  show "tab_keeps (inv X) (on_tables (set_object_tags b k vid tags))" using k[of _ "S3SetTags b k vid tags"] by (intro keeps_on_tables) simp
  show "tab_keeps (inv X) (on_tables (create_upload X b k ct meta tags now))"
    using k[of _ "S3CreateUpload b k ct meta tags now"] by (intro keeps_on_tables) simp
  show "tab_keeps (inv X) (on_tables (upload_part X b k i n content meta now))"
    using k[of _ "S3UploadPart b k i n content meta now"] by (intro keeps_on_tables) simp
  show "tab_keeps (inv X) (on_tables (complete_upload X b k i parts now))"
    using k[of _ "S3CompleteUpload b k i parts now"] by (intro keeps_on_tables) simp
  show "tab_keeps (inv X) (on_tables (abort_upload b k i))" using k[of _ "S3AbortUpload b k i"] by (intro keeps_on_tables) simp
qed

lemma draws_keep: "tab_keeps (inv X) (on_draws (notify_parse H xml))"
  unfolding on_draws_def
  by (rule keeps_on_tables) (auto split: prod.split intro: draw_inv dest: notify_parse_draws)

lemma fire_keeps:
  assumes "others_keep (inv X) others" "inv X (ss_db s)"
  shows "inv X (ss_db (notify_fire H others ev now s))"
proof -
  show ?thesis
  proof (cases "get_config (en_bucket ev) ''notification'' (ss_db s)")
    case (Inr body)
    show ?thesis
    proof (cases body)
      case (Some x)
      obtain r s' where run: "on_draws (notify_parse H x) s = (r, s')" by fastforce
      then have "inv X (ss_db s')" using draws_keep assms(2) by (rule act_keepsD[rotated 2])
      then show ?thesis using Inr Some run assms(1) by (cases r) (simp_all add: notify_fire_def deliver_events_keep)
    qed (use Inr assms(2) in \<open>simp add: notify_fire_def\<close>)
  qed (use assms(2) in \<open>simp add: notify_fire_def\<close>)
qed

lemma created_keeps: "others_keep (inv X) others \<Longrightarrow> tab_keeps (inv X) (fire_created H others b k name wr i now)"
  unfolding fire_created_def by (rule keeps_state) (rule fire_keeps)

lemma notify_put_keeps:
  assumes "env_ok X" "others_keep (inv X) others"
  shows "tab_keeps (inv X) (notify_put H others b body i skip now)"
  unfolding notify_put_def
  by (intro call_intros draws_keep validate_targets_keep op_keeps assms) simp

lemma full_keeps:
  assumes "others_keep (inv X) others"
  shows "tab_keeps (inv X) (full_object others b k vid)"
proof (rule act_keepsI)
  fix s r s' assume q: "inv X (ss_db s)" and run: "full_object others b k vid s = (r, s')"
  let ?f = "\<lambda>db. ss_db (between others [] (s\<lparr> ss_db := db \<rparr>))"
  have f: "inv X db \<Longrightarrow> inv X (?f db)" for db using others_keepD[OF assms, of "s\<lparr> ss_db := db \<rparr>"] by simp
  have "inv X db \<Longrightarrow> inv X (snd (full_loop n ?f b k vid db))" for n db
    by (induction n arbitrary: db) (auto simp: Let_def f split: sum.split option.split)
  from this[OF q, of 3] run show "inv X (ss_db s')"
    by (simp add: full_object_def on_tables_def get_object_full_def split: prod.splits) auto
qed

lemma object_reads_keep:
  "tab_keeps (inv X) (find_version r vid)" "tab_keeps (inv X) (put_absent r)" "tab_keeps (inv X) (put_match r)"
proof -
  show f: "tab_keeps (inv X) (find_version r vid)" for r vid by (simp add: find_version_def keeps_read_tables)
  show "tab_keeps (inv X) (put_absent r)" by (simp add: act_keeps_def put_absent_def)
  show "tab_keeps (inv X) (put_match r)" unfolding put_match_def by (intro call_intros f)
qed

lemma get_attempts_keep: "others_keep (inv X) others \<Longrightarrow> tab_keeps (inv X) (get_attempts n H others r head now)"
proof (induction n)
  case (Suc n)
  show ?case unfolding get_attempts.simps by (intro call_intros object_reads_keep Suc)
qed simp

lemma after_delete_keeps: "others_keep (inv X) others \<Longrightarrow> tab_keeps (inv X) (after_delete H others r key vid out now)"
  unfolding after_delete_def by (intro call_intros keeps_state fire_keeps; assumption)

lemma object_writes_keep:
  assumes "env_ok (sh_env H)" "others_keep (inv (sh_env H)) others"
  shows "tab_keeps (inv (sh_env H)) (put_object_handler H others r now)"
    "tab_keeps (inv (sh_env H)) (delete_object_handler H others r now)"
    "tab_keeps (inv (sh_env H)) (copy_object_handler H others r now)"
    "tab_keeps (inv (sh_env H)) (change_tags H others r tags act st now)"
  unfolding put_object_handler_def delete_object_handler_def copy_object_handler_def change_tags_def
  by (intro call_intros op_keeps created_keeps after_delete_keeps full_keeps object_reads_keep assms)+

lemma upload_writes_keep:
  assumes "env_ok (sh_env H)" "others_keep (inv (sh_env H)) others"
  shows "tab_keeps (inv (sh_env H)) (create_upload_handler H others r now)"
    "tab_keeps (inv (sh_env H)) (upload_part_handler H others r now)"
    "tab_keeps (inv (sh_env H)) (complete_upload_handler H others r now)"
    "tab_keeps (inv (sh_env H)) (abort_upload_handler H others r now)"
  unfolding create_upload_handler_def upload_part_handler_def complete_upload_handler_def abort_upload_handler_def upload_part_copy_def
  by (intro call_intros op_keeps created_keeps full_keeps assms)+

lemma object_dispatch_keeps:
  assumes "env_ok (sh_env H)" "others_keep (inv (sh_env H)) others"
  shows "tab_keeps (inv (sh_env H)) (object_dispatch H others r now)"
  unfolding object_dispatch_def get_tagging_def put_tagging_def delete_tagging_def list_parts_handler_def
    get_attributes_handler_def get_object_handler_def
  by (intro call_intros object_reads_keep object_writes_keep upload_writes_keep get_attempts_keep assms)

lemma create_bucket_keeps:
  assumes "env_ok (sh_env H)" "others_keep (inv (sh_env H)) others"
  shows "tab_keeps (inv (sh_env H)) (create_bucket_handler H others r now)"
  unfolding create_bucket_handler_def by (intro call_intros op_keeps assms) simp

lemma config_kinds: "find (\<lambda>c. q_has r (ck_param c)) s3_configs_table = Some c \<Longrightarrow> ck_param c \<noteq> ''versioning''"
  by (drule find_Some_set) (auto simp: s3_configs_table_def)

lemma config_op_keeps:
  assumes "env_ok (sh_env H)" "others_keep (inv (sh_env H)) others" "ck_param c \<noteq> ''versioning''"
  shows "tab_keeps (inv (sh_env H)) (config_op H others r c now)"
  unfolding config_op_def config_of_def by (intro call_intros op_keeps assms)

lemma versioning_status_Inr: "versioning_status H body = Inr st \<Longrightarrow> st = ''Enabled'' \<or> st = ''Suspended''"
  by (auto simp: versioning_status_def Let_def try_bind_Inr_iff split: if_splits)

lemma put_versioning_keeps:
  assumes "env_ok (sh_env H)" "others_keep (inv (sh_env H)) others"
  shows "tab_keeps (inv (sh_env H)) (put_versioning H others r now)"
  unfolding put_versioning_def
proof (rule act_keeps_bind_post[OF act_post_result])
  show "v = ''Enabled'' \<or> v = ''Suspended''" if "versioning_status H (q3_body r) = Inr v" for v
    using that by (rule versioning_status_Inr)
qed (intro call_intros op_keeps assms)

lemma delete_each_keeps:
  assumes "env_ok (sh_env H)" "others_keep (inv (sh_env H)) others"
  shows "inv (sh_env H) (ss_db s) \<Longrightarrow> inv (sh_env H) (ss_db (snd (delete_each H others r quiet now objects i s)))"
proof (induction objects arbitrary: i s)
  case (Cons ob objects)
  obtain key vid where ob: "ob = (key, vid)" by fastforce
  define s1 where "s1 = between others [i] s"
  obtain res s2 where del: "on_tables (delete_object (sh_env H) (q3_bucket r) key vid now) s1 = (res, s2)" by fastforce
  have "inv (sh_env H) (ss_db s1)" unfolding s1_def by (rule others_keepD[OF assms(2) Cons.prems])
  then have s2: "inv (sh_env H) (ss_db s2)" by (rule act_keepsD[OF op_keeps(7)[OF assms(1)] _ del])
  have after: "inv (sh_env H) (ss_db (snd (after_delete H (inside i others) r key vid out now s2)))" for out
    by (rule act_keepsD[OF after_delete_keeps[OF others_keep_inside[OF assms(2)]] s2 surjective_pairing])
  show ?case
  proof (cases res)
    case (Inl e)
    obtain xs s3 where "delete_each H others r quiet now objects (Suc i) s2 = (xs, s3)" by fastforce
    then show ?thesis using Cons.IH[OF s2, of "Suc i"] by (simp add: ob s1_def[symmetric] del Inl)
  next
    case (Inr out)
    let ?t = "snd (after_delete H (inside i others) r key vid out now s2)"
    obtain xs s3 where "delete_each H others r quiet now objects (Suc i) ?t = (xs, s3)" by fastforce
    then show ?thesis using Cons.IH[OF after, of "Suc i" out] by (simp add: ob s1_def[symmetric] del Inr)
  qed
qed simp

lemma delete_objects_keeps:
  assumes "env_ok (sh_env H)" "others_keep (inv (sh_env H)) others"
  shows "tab_keeps (inv (sh_env H)) (delete_objects_handler H others r now)"
proof -
  have "tab_keeps (inv (sh_env H)) (\<lambda>s. case delete_each H others r quiet now objects 0 s of
        (x, s') \<Rightarrow> (Inr (s3_xml_ok (ns_doc ''DeleteResult'' x)), s'))" for quiet objects
    unfolding act_keeps_def
  proof (intro allI impI)
    fix s :: s3_state assume s: "inv (sh_env H) (ss_db s)"
    obtain x s' where "delete_each H others r quiet now objects 0 s = (x, s')" by fastforce
    with delete_each_keeps[OF assms s, of r quiet now objects 0]
    show "inv (sh_env H) (ss_db (snd (case delete_each H others r quiet now objects 0 s of
        (x, s') \<Rightarrow> (Inr (s3_xml_ok (ns_doc ''DeleteResult'' x)), s'))))" by simp
  qed
  then show ?thesis unfolding delete_objects_handler_def by (intro call_intros)
qed

lemma bucket_dispatch_keeps:
  assumes "env_ok (sh_env H)" "others_keep (inv (sh_env H)) others"
  shows "tab_keeps (inv (sh_env H)) (bucket_dispatch H others r now)"
proof (cases "find (\<lambda>c. q_has r (ck_param c)) s3_configs_table")
  case None
  have get: "tab_keeps (inv (sh_env H)) (bucket_get H r now)"
    unfolding bucket_get_def get_versioning_def fixed_doc_def list_versions_handler_def list_uploads_handler_def
      list_objects_handler_def config_of_def by (intro call_intros)
  have put: "tab_keeps (inv (sh_env H)) (bucket_put H others r now)"
    unfolding bucket_put_def config_of_def by (intro call_intros put_versioning_keeps notify_put_keeps create_bucket_keeps assms)
  show ?thesis
    unfolding bucket_dispatch_def None option.case by (intro call_intros get put delete_objects_keeps op_keeps assms)
next
  case (Some c)
  show ?thesis
    unfolding bucket_dispatch_def Some option.case by (rule config_op_keeps[OF assms config_kinds[OF Some]])
qed

lemma form_keeps:
  assumes "env_ok (sh_env (si_http S))" "others_keep (inv (sh_env (si_http S))) others"
  shows "tab_keeps (inv (sh_env (si_http S))) (post_object S others b hs body i now)"
  unfolding post_object_def by (intro call_intros op_keeps created_keeps assms)

lemma s3_dispatch_keeps:
  assumes "env_ok (sh_env (si_http S))" "others_keep (inv (sh_env (si_http S))) others"
  shows "tab_keeps (inv (sh_env (si_http S))) (s3_dispatch S others b key q i now)"
  unfolding s3_dispatch_def preflight_def
  by (intro call_intros keeps_sum form_keeps object_dispatch_keeps bucket_dispatch_keeps assms)

lemma drawing_keeps: "inv X (ss_db s) \<Longrightarrow> inv X (ss_db (s\<lparr> ss_db := (ss_db s)\<lparr> s3_draws := Suc (s3_draws (ss_db s)) \<rparr> \<rparr>))"
  by (simp add: draw_inv)

text \<open>Every request.\<close>

lemma entry_keeps:
  assumes "env_ok (sh_env (si_http S))" "others_keep (inv (sh_env (si_http S))) others" "inv (sh_env (si_http S)) (ss_db s)"
  shows "inv (sh_env (si_http S)) (ss_db (snd (s3_entry S others b key q now s)))"
proof -
  let ?s = "s\<lparr> ss_db := (ss_db s)\<lparr> s3_draws := Suc (s3_draws (ss_db s)) \<rparr> \<rparr>"
  let ?i = "new_request_id (si_http S) (s3_draws (ss_db s))"
  obtain res s1 where run: "s3_dispatch S (inside 0 others) b key q ?i now ?s = (res, s1)" by fastforce
  have "inv (sh_env (si_http S)) (ss_db s1)"
    by (rule act_keepsD[OF s3_dispatch_keeps[OF assms(1) others_keep_inside[OF assms(2)]] drawing_keeps[OF assms(3)] run])
  then have "inv (sh_env (si_http S)) (ss_db (between others [1] s1))" by (rule others_keepD[OF assms(2)])
  then show ?thesis by (simp add: s3_entry_def drawing_id_def run Let_def)
qed

lemma seed_keeps:
  assumes "env_ok (sh_env H)"
  shows "tab_keeps (inv (sh_env H)) (seed_bucket H b now)"
proof -
  have v: "tab_keeps (inv (sh_env H)) (seed_versioning name v)" for name v
    unfolding seed_versioning_def seed_config_def by (auto split: json.split bool.split intro: op_keeps assms)
  show ?thesis
    unfolding seed_bucket_def seed_field_def seed_config_def
    by (intro call_intros v op_keeps assms) simp_all
qed

end

interpretation s3_keep: s3_tables ids_fresh s3_ok
proof unfold_locales
  fix X db x assume "ids_fresh X" "s3_ok X db"
  then show "s3_ok X (snd (s3_exec X x db))" using s3_exec_step by blast
next
  fix X db n assume ok: "s3_ok X db" and n: "s3_draws db \<le> n"
  show "s3_ok X (db\<lparr> s3_draws := n \<rparr>)" by (rule uploads_ok[OF ok]) (use n in simp_all)
qed

end
