(* ===== verification/S3_Web.thy ===== *)
theory S3_Web
  imports S3_Routes
begin

text \<open>
  S3, part 8: what clients of the REST interface rely on.
\<close>

section \<open>Clients of the REST interface\<close>

subsection \<open>Every request keeps the invariant\<close>

text \<open>
  C25: a request of any kind, to a bucket, an object or with a form, whatever it asks for and however it
  ends, leaves tables in which the versions of every key are in order.
\<close>

theorem s3_requests_keep_invariant:
  assumes "ids_fresh (sh_env (si_http S))" "others_keep (s3_ok (sh_env (si_http S))) others" "s3_ok (sh_env (si_http S)) (ss_db s)"
  shows "s3_ok (sh_env (si_http S)) (ss_db (snd (s3_entry S others b key q now s)))"
  by (rule s3_keep.entry_keeps[OF assms])

subsection \<open>Sample data\<close>

definition s3_sample_http :: s3_http where
  "s3_sample_http = \<lparr> sh_env = s3_sample_env, sh_base_url = ''http://h'', sh_parse_mail = (\<lambda>s. None),
     pct_encode = (\<lambda>keep s. s), pct_decode = (\<lambda>s. s), form_pairs = (\<lambda>s. Some []), crc32_be = (\<lambda>s. s), sha256_raw = (\<lambda>s. s),
     md5_bytes = (\<lambda>s. s), rfc3339_millis = (\<lambda>s. None), rfc2822_millis = (\<lambda>s. None), naive_millis = (\<lambda>f s. None),
     imf_date = show_int, b64_no_pad = (\<lambda>s. s), str_debug = (\<lambda>s. s), utf8_error = (\<lambda>s. s) \<rparr>"

definition s3_sample_site :: s3_site where
  "s3_sample_site = \<lparr> si_http = s3_sample_http, form_read = (\<lambda>h b. Inl []) \<rparr>"

definition no_others :: s3_others where
  "no_others = \<lparr> between = (\<lambda>p s. s), publishing = (\<lambda>p n a. a) \<rparr>"

definition s3_sample_app :: sns_app where
  "s3_sample_app = \<lparr> sns_topics = [], sns_subscriptions = [], sns_messages = [], sns_queues = sqs_init,
     sns_mail = \<lparr> mailbox_messages = [], mailbox_attachments = [] \<rparr>, sns_posts = [], sns_events = [] \<rparr>"

definition s3_sample_state :: "s3_config list \<Rightarrow> s3_object list \<Rightarrow> int \<Rightarrow> s3_state" where
  "s3_sample_state configs rows seq = \<lparr> ss_db = s3_sample_db configs rows seq, ss_app = s3_sample_app \<rparr>"

definition s3_sample_req :: "string \<Rightarrow> (string \<times> string) list \<Rightarrow> string \<Rightarrow> s3_req" where
  "s3_sample_req m hs body = \<lparr> q3_method = m, q3_bucket = ''b'', q3_key = Some ''k'', q3_query = [], q3_headers = hs,
     q3_body = body, q3_id = [] \<rparr>"

theorem s3_requests_keep_invariant_witness:
  "s3_ok s3_sample_env (ss_db (snd (s3_entry s3_sample_site no_others ''b'' (Some ''k'')
     \<lparr> rw_method = ''PUT'', rw_query = None, rw_headers = [], rw_body = Inr ''one'' \<rparr> 1 \<lparr> ss_db = s3_init, ss_app = s3_sample_app \<rparr>)))"
proof -
  have env: "sh_env (si_http s3_sample_site) = s3_sample_env" by (simp add: s3_sample_site_def s3_sample_http_def)
  have "s3_ok s3_sample_env (snd (run_ops (s3_exec s3_sample_env) [] s3_init))" by (rule s3_reached_ok[OF s3_sample_fresh])
  then have "s3_ok (sh_env (si_http s3_sample_site)) (ss_db \<lparr> ss_db = s3_init, ss_app = s3_sample_app \<rparr>)" by (simp add: env)
  moreover have "others_keep (s3_ok (sh_env (si_http s3_sample_site))) no_others" by (simp add: others_keep_def no_others_def)
  moreover have "ids_fresh (sh_env (si_http s3_sample_site))" by (simp add: env s3_sample_fresh)
  ultimately show ?thesis unfolding env[symmetric] by (intro s3_requests_keep_invariant)
qed

subsection \<open>Reading what was written\<close>

text \<open>Other requests that leave the tables of S3 alone.\<close>

definition quiet :: "s3_others \<Rightarrow> bool" where
  "quiet others \<longleftrightarrow> (\<forall>p s. ss_db (between others p s) = ss_db s)"

lemma quiet_inside [simp]: "quiet others \<Longrightarrow> quiet (inside n others)"
  by (simp add: quiet_def inside_def)

lemma quietD [simp]: "quiet others \<Longrightarrow> ss_db (between others p s) = ss_db s"
  by (simp add: quiet_def)

text \<open>The tables up to the draws of identifiers.\<close>

abbreviation same_tables :: "s3_db \<Rightarrow> s3_db \<Rightarrow> bool" where
  "same_tables db db' \<equiv> db'\<lparr> s3_draws := 0 \<rparr> = db\<lparr> s3_draws := 0 \<rparr>"

lemma fire_same_tables:
  assumes "quiet others"
  shows "same_tables (ss_db s) (ss_db (notify_fire H others ev now s))"
proof -
  have loop: "ss_db (deliver_events H others ev now ts i t) = ss_db t" for ts i t
    using assms by (induction ts arbitrary: i t) simp_all
  have parse: "same_tables (ss_db s) (ss_db s')" if "on_draws (notify_parse H body) s = (r, s')" for body r s'
    using that by (auto simp: on_draws_def on_tables_def split: prod.splits)
  show ?thesis
  proof (cases "get_config (en_bucket ev) ''notification'' (ss_db s)")
    case (Inr body)
    show ?thesis
    proof (cases body)
      case (Some x)
      obtain r s' where run: "on_draws (notify_parse H x) s = (r, s')" by fastforce
      then show ?thesis using parse[OF run] Inr Some by (cases r) (simp_all add: notify_fire_def loop)
    qed (use Inr in \<open>simp add: notify_fire_def\<close>)
  qed (simp add: notify_fire_def)
qed

text \<open>The newest row of a key that can be read.\<close>

definition stored_at :: "string \<Rightarrow> string \<Rightarrow> string \<Rightarrow> s3_db \<Rightarrow> bool" where
  "stored_at b k content db \<longleftrightarrow> bucket_exists b db \<and>
     (\<exists>r. cur_rows b k db = [r] \<and> ob_content r = content \<and> ob_size r = int (length content) \<and> mt_parts (ob_meta r) = [])"

lemma stored_same: "same_tables db db' \<Longrightarrow> stored_at b k content db' = stored_at b k content db"
proof -
  assume s: "same_tables db db'"
  have "s3_buckets db' = s3_buckets db" "s3_objects db' = s3_objects db"
    using arg_cong[OF s, of s3_buckets] arg_cong[OF s, of s3_objects] by simp_all
  then show ?thesis by (simp add: stored_at_def bucket_exists_def)
qed

lemma room_made: "cur_rows b k (make_room b k v Q db) = []"
proof (cases "cur_rows b k db")
  case Nil
  then show ?thesis by (simp add: make_room_def current_row_rows delete_archived_def)
next
  case (Cons c cs)
  then show ?thesis
    by (auto simp: make_room_def current_row_rows delete_archived_def archive_current_def delete_current_def sql_delete_def
        Let_def filter_empty_conv)
qed

lemma put_stored:
  assumes "put_object X b k content ct meta tags now db = (Inr wr, db')" "mt_parts meta = []"
  shows "stored_at b k content db'"
proof -
  have ex: "bucket_exists b db"
    using assms(1) by (auto simp: put_object_def write_object_tx_def versioning_of_def require_bucket_def try_bind_def split: if_splits)
  have rows: "cur_rows b k (add_current r (make_room b k v Q d)) = (if is_object b k r then [r] else [])" for r v Q d
    by (simp add: add_current_def room_made)
  have room: "s3_buckets (make_room b k v Q d) = s3_buckets d" for v Q d
    by (simp add: make_room_def Let_def delete_archived_def archive_current_def delete_current_def split: option.split)
  have parts: "mt_parts (apply_default_sse X b db m) = mt_parts m" for m
    by (auto simp: apply_default_sse_def Let_def split: prod.split)
  from assms(1) show ?thesis
    unfolding put_object_def write_object_eq[OF ex] Let_def using ex
    by (auto simp: stored_at_def rows bucket_exists_def room add_current_def[of _ "make_room _ _ _ _ _", THEN arg_cong[where f = s3_buckets]]
        written_row_def is_object_def parts assms(2))
qed

lemma with_headers_simps [simp]:
  "http_status (s3_with_headers resp h) = http_status resp" "http_body (s3_with_headers resp h) = http_body resp"
  by (induction h arbitrary: resp) (auto simp: s3_with_headers_def add_header_def set_header_def)

lemma call_Inr: "act_bind m f s = (Inr v, s') \<longleftrightarrow> (\<exists>x t. m s = (Inr x, t) \<and> f x t = (Inr v, s'))"
  by (auto simp: act_bind_def split: prod.splits sum.splits)

lemma attrs_no_parts: "object_attrs H pairs = Inr a \<Longrightarrow> mt_parts (oa_meta a) = []"
  by (auto simp: object_attrs_def Let_def try_bind_Inr_iff split: option.splits if_splits)

lemma put_request_no_parts: "put_request H r = Inr (a, content) \<Longrightarrow> mt_parts (oa_meta a) = []"
  by (auto simp: put_request_def try_bind_Inr_iff dest: attrs_no_parts)

lemma put_handler_stored:
  assumes req: "put_request H r = Inr (attrs, content)" and run: "put_object_handler H others r now s = (Inr resp, s')"
    and quiet: "quiet others"
  shows "stored_at (q3_bucket r) (req_key r) content (ss_db s')"
proof -
  let ?put = "put_object (sh_env H) (q3_bucket r) (req_key r) content (attrs_type attrs) (oa_meta attrs) (attrs_tags attrs) now"
  have "\<exists>s1 wr s2. on_tables ?put s1 = (Inr wr, s2) \<and> same_tables (ss_db s2) (ss_db s')"
    using run quiet
    by (auto simp: put_object_handler_def req call_Inr act_result_def meanwhile_def s3_emit_def fire_created_def answer_def
        act_return_def fire_same_tables)
      (intro exI conjI, assumption, rule refl)
  then obtain s1 wr s2 where put: "on_tables ?put s1 = (Inr wr, s2)" and same: "same_tables (ss_db s2) (ss_db s')" by blast
  obtain db' where db': "?put (ss_db s1) = (Inr wr, db')" "ss_db s2 = db'"
    using put by (auto simp: on_tables_def split: prod.splits)
  have "stored_at (q3_bucket r) (req_key r) content (ss_db s2)"
    unfolding db'(2) by (rule put_stored[OF db'(1) put_request_no_parts[OF req]])
  then show ?thesis by (simp add: stored_same[OF same])
qed

text \<open>A read of a stored object, up to what the request asks for.\<close>

lemma get_stored:
  assumes stored: "stored_at (q3_bucket g) (req_key g) content (ss_db s)" and quiet: "quiet others"
    and plain: "q_get g ''versionId'' = None"
      "\<And>etag lm. check_conditionals H (q3_headers g) [] etag lm now = Inr False"
  obtains info ver r where "oi_row info = r" "ob_size r = int (length content)" "mt_parts (ob_meta r) = []"
    "fst (get_object_handler H others g head now s) =
       (case get_found H g head info ver now (ss_db s) of
          Inl e \<Rightarrow> Inl e | Inr (Some x) \<Rightarrow> Inr x
        | Inr None \<Rightarrow> fst (get_attempts 2 H others g head now (between others [5] (between others [4] s))))"
    "\<And>rng. read_content info rng (ss_db s) = Some (case rng of Some (a, n) \<Rightarrow> take n (drop a content) | None \<Rightarrow> content)"
proof -
  obtain r where r: "cur_rows (q3_bucket g) (req_key g) (ss_db s) = [r]" "ob_content r = content" "ob_size r = int (length content)"
      "mt_parts (ob_meta r) = []" and ex: "bucket_exists (q3_bucket g) (ss_db s)"
    using stored by (auto simp: stored_at_def)
  let ?info = "(info_from_row r)\<lparr> oi_latest := True \<rparr>"
  have row: "oi_row ?info = r" by (simp add: info_from_row_def)
  have find: "resolve_version (q3_bucket g) (req_key g) None (ss_db s) = Inr ?info"
    using ex r(1) by (simp add: resolve_version_def require_bucket_def current_info_def current_row_rows)
  define ver where "ver = (if oi_version ?info = ''null'' then bucket_state (q3_bucket g) (ss_db s) else VEnabled)"
  have ver: "(if oi_version ?info = ''null'' then read_tables (versioning_of (q3_bucket g)) else act_return VEnabled) t
      = (Inr ver, t)" if "ss_db t = ss_db s" for t
  proof -
    have "versioning_of (q3_bucket g) (ss_db s) = Inr (bucket_state (q3_bucket g) (ss_db s))" using ex by (simp add: versioning_Inr)
    then show ?thesis using that by (simp add: ver_def read_tables_def act_return_def)
  qed
  have read: "read_content ?info rng (ss_db s) = Some (case rng of Some (a, n) \<Rightarrow> take n (drop a content) | None \<Rightarrow> content)" for rng
  proof -
    have "r \<in> set (cur_rows (q3_bucket g) (req_key g) (ss_db s))" by (simp only: r(1) list.set_intros(1))
    then have "is_object (q3_bucket g) (req_key g) r" by simp
    then have obj: "is_object (ob_bucket r) (ob_key r) = is_object (q3_bucket g) (req_key g)" by (simp add: is_object_def)
    have "filter (same_row_as r) (s3_objects (ss_db s)) = filter (same_row_as r) (cur_rows (q3_bucket g) (req_key g) (ss_db s))"
      by (auto simp: same_row_as_def is_version_object obj intro!: filter_cong)
    also have "\<dots> = [r]" using r(1) by (simp add: same_row_as_def is_version_object obj[symmetric]) (simp add: is_object_def)
    finally have "find (same_row_as r) (s3_objects (ss_db s)) = Some r" by (simp add: find_filter)
    then show ?thesis by (cases rng) (auto simp: read_content_def Let_def row r(2))
  qed
  have db: "ss_db (between others [5] (between others [4] s)) = ss_db s" "ss_db (between others [4] s) = ss_db s" using quiet by simp_all
  have step: "get_attempts (Suc n) H others g head now s = (case get_found H g head ?info ver now (ss_db s) of
      Inl e \<Rightarrow> (Inl e, between others [2 * n + 1] (between others [2 * n] s))
    | Inr (Some x) \<Rightarrow> (Inr x, between others [2 * n + 1] (between others [2 * n] s))
    | Inr None \<Rightarrow> get_attempts n H others g head now (between others [2 * n + 1] (between others [2 * n] s)))" for n
  proof -
    have f: "find_version g (q_get g ''versionId'') s = (Inr ?info, s)" by (simp add: find_version_def read_tables_def plain(1) find)
    have v: "(if oi_version ?info = ''null'' then read_tables (versioning_of (q3_bucket g)) else act_return VEnabled)
        (between others [2 * n] s) = (Inr ver, between others [2 * n] s)" by (rule ver) (use quiet in simp)
    have d: "ss_db (between others [2 * n + 1] (between others [2 * n] s)) = ss_db s" using quiet by simp
    show ?thesis
      unfolding get_attempts.simps act_bind_def f prod.case sum.case meanwhile_def v
      by (simp only: read_tables_def prod.case d) (simp add: answer_def act_return_def split: sum.split option.split)
  qed
  have "get_object_handler H others g head now s = get_attempts (Suc 2) H others g head now s"
    by (simp only: get_object_handler_def) simp
  then show thesis unfolding step
    by (intro that[OF row r(3,4) _ read, of ver]) (simp split: sum.split option.split)
qed

lemma no_conditions: "map_of hs (pre @ ''if-match'') = None \<Longrightarrow> map_of hs (pre @ ''if-unmodified-since'') = None \<Longrightarrow>
    map_of hs (pre @ ''if-none-match'') = None \<Longrightarrow> map_of hs (pre @ ''if-modified-since'') = None \<Longrightarrow>
    check_conditionals H hs pre etag lm now = Inr False"
  by (simp add: check_conditionals_def header_str_of_def)

text \<open>
  C23: an object that was put is read back: a plain GET after a successful PUT answers 200 with the bytes
  the body of the PUT stands for, chunk framing removed.
\<close>

theorem s3_put_get:
  assumes "put_request H r = Inr (attrs, content)" and "put_object_handler H others r now s = (Inr resp, s')"
    and "quiet others" and "quiet others'"
    and "q3_bucket g = q3_bucket r" and "req_key g = req_key r" and "q3_query g = []" and "q3_headers g = []"
  shows "\<exists>x. fst (get_object_handler H others' g False later s') = Inr x \<and> http_status x = 200 \<and> http_body x = content"
proof -
  have stored: "stored_at (q3_bucket g) (req_key g) content (ss_db s')"
    using put_handler_stored[OF assms(1-3)] assms(5,6) by simp
  have q: "q_get g name = None" "q_header g name = None" for name using assms(7,8) by (simp_all add: q_get_def q_header_def s3_header_str_def)
  have c: "check_conditionals H (q3_headers g) [] etag lm later = Inr False" for etag lm by (rule no_conditions) (simp_all add: assms(8))
  obtain info ver r' where r: "oi_row info = r'"
    and get: "fst (get_object_handler H others' g False later s') = (case get_found H g False info ver later (ss_db s') of
          Inl e \<Rightarrow> Inl e | Inr (Some x) \<Rightarrow> Inr x
        | Inr None \<Rightarrow> fst (get_attempts 2 H others' g False later (between others' [5] (between others' [4] s'))))"
    and read: "\<And>rng. read_content info rng (ss_db s') = Some (case rng of Some (a, n) \<Rightarrow> take n (drop a content) | None \<Rightarrow> content)"
    by (rule get_stored[OF stored assms(4) q(1) c, of False]) blast
  have "requested_range g r' = Inr (None, [])" by (simp add: requested_range_def q Let_def)
  then show ?thesis unfolding get get_found_def r c Let_def by (simp add: read octets_def)
qed

lemma s3_range_text:
  assumes "a < len" "a \<le> e" "a < 2 ^ 64" "e < 2 ^ 64"
  shows "s3_parse_range (''bytes='' @ show_nat a @ ''-'' @ show_nat e) len = Some (Some (a, min e (len - 1)))"
proof -
  have "\<not> is_digit CHR ''-''" "\<not> is_digit CHR '',''" by (simp_all add: is_digit_def)
  note digits = this[THEN not_in_show_nat]
  have "visible_word (''bytes='' @ show_nat a @ ''-'' @ show_nat e)"
    using show_nat_visible(3)[of e] by (simp add: visible_word_def visible_def)
  then have "trim (''bytes='' @ show_nat a @ ''-'' @ show_nat e) = ''bytes='' @ show_nat a @ ''-'' @ show_nat e" by (rule trim_word(1))
  moreover have "split_once CHR ''-'' (show_nat a @ ''-'' @ show_nat e) = Some (show_nat a, show_nat e)"
    using split_once_append[of "CHR ''-''" "show_nat a" "show_nat e"] digits by simp
  moreover have "trim (show_nat i) = show_nat i" for i
    by (rule trim_word(1)) (use show_nat_visible(2,3)[of i] in \<open>simp add: visible_word_def\<close>)
  ultimately show ?thesis
    using parse_usize_show assms digits
    by (simp add: s3_parse_range_def strip_prefix_append[of "''bytes=''", simplified])
qed

lemma ascii_range: "from_utf8_lossy (''bytes='' @ show_nat a @ ''-'' @ show_nat e) = ''bytes='' @ show_nat a @ ''-'' @ show_nat e"
proof (rule from_utf8_lossy_valid, rule utf8_valid_ascii)
  show "list_all (\<lambda>c. code_of c < 128) (''bytes='' @ show_nat a @ ''-'' @ show_nat e)"
    using show_nat_visible(1)[of a] show_nat_visible(1)[of e] by (auto simp: list_all_iff visible_def)
qed

text \<open>
  C24: ranged reads.  A GET of the bytes from \<open>a\<close> to \<open>e\<close> of an object that was put, with \<open>a\<close> inside the
  object, answers 206 with those bytes, cut off at the end of the object.
\<close>

theorem s3_put_get_range:
  assumes "put_request H r = Inr (attrs, content)" and "put_object_handler H others r now s = (Inr resp, s')"
    and "quiet others" and "quiet others'"
    and "q3_bucket g = q3_bucket r" and "req_key g = req_key r" and "q3_query g = []"
    and "q3_headers g = [(''range'', ''bytes='' @ show_nat a @ ''-'' @ show_nat e)]"
    and "a \<le> e" and "a < length content" and "e < 2 ^ 64"
  shows "\<exists>x. fst (get_object_handler H others' g False later s') = Inr x \<and> http_status x = 206
    \<and> http_body x = drop a (take (Suc e) content)"
proof -
  have stored: "stored_at (q3_bucket g) (req_key g) content (ss_db s')"
    using put_handler_stored[OF assms(1-3)] assms(5,6) by simp
  have q: "q_get g name = None" for name using assms(7) by (simp add: q_get_def)
  have h: "q_header g ''range'' = Some (''bytes='' @ show_nat a @ ''-'' @ show_nat e)" "q_header g ''x-amz-checksum-mode'' = None"
    using assms(8) ascii_range[of a e] by (simp_all add: q_header_def s3_header_str_def)
  have c: "check_conditionals H (q3_headers g) [] etag lm later = Inr False" for etag lm by (rule no_conditions) (simp_all add: assms(8))
  obtain info ver r' where r: "oi_row info = r'" "ob_size r' = int (length content)"
    and get: "fst (get_object_handler H others' g False later s') = (case get_found H g False info ver later (ss_db s') of
          Inl e \<Rightarrow> Inl e | Inr (Some x) \<Rightarrow> Inr x
        | Inr None \<Rightarrow> fst (get_attempts 2 H others' g False later (between others' [5] (between others' [4] s'))))"
    and read: "\<And>rng. read_content info rng (ss_db s') = Some (case rng of Some (a, n) \<Rightarrow> take n (drop a content) | None \<Rightarrow> content)"
    by (rule get_stored[OF stored assms(4) q c, of False]) blast
  let ?e = "min e (length content - 1)"
  have "a < 2 ^ 64" using assms(9,11) by simp
  from s3_range_text[OF assms(10,9) this assms(11)]
  have rng: "requested_range g r' = Inr (Some (a, ?e), [])" by (simp add: requested_range_def q h(1) Let_def r(2))
  have "a \<le> ?e" using assms(9,10) by simp
  then have "take (?e - a + 1) (drop a content) = drop a (take (Suc ?e) content)" by (simp add: take_drop Suc_diff_le)
  also have "take (Suc ?e) content = take (Suc e) content" 
  proof (cases "e < length content")
    case False
    with assms(10) have "Suc ?e = length content" by simp
    with False show ?thesis by simp
  qed (simp add: min_def)
  finally show ?thesis unfolding get get_found_def r c Let_def by (simp add: read rng octets_def)
qed

subsection \<open>Writes under a condition\<close>

text \<open>
  A PUT with \<open>If-None-Match: *\<close> for a key that has an object is refused before it touches anything.
\<close>

theorem s3_put_if_absent:
  assumes "q_header r ''if-none-match'' = Some m" and "trim m = ''*''" and "\<not> isl (resolve_version (q3_bucket r) (req_key r) None (ss_db s))"
  shows "\<exists>e. put_object_handler H others r now s = (Inl e, s) \<and> (\<not> isl (put_request H r) \<longrightarrow> s3_status e = 412)"
proof (cases "put_request H r")
  case (Inl e)
  then show ?thesis by (simp add: put_object_handler_def act_bind_def act_result_def)
next
  case (Inr p)
  have "put_absent r s = (Inl (condition_failed ''If-None-Match''), s)"
    using assms by (simp add: put_absent_def find_version_def read_tables_def)
  moreover have "s3_status (condition_failed ''If-None-Match'') = 412" by (simp add: condition_failed_def s3_status_def err_with_def s3_error_new_def)
  ultimately show ?thesis using Inr by (cases p) (simp add: put_object_handler_def act_bind_def act_result_def)
qed

lemma put_succeeds:
  assumes req: "put_request H r = Inr (attrs, content)" and absent: "put_absent r s = (Inr (), s)" and nomatch: "q_header r ''if-match'' = None"
    and exists: "bucket_exists (q3_bucket r) (ss_db (between others [1] (between others [0] s)))"
  shows "\<not> isl (fst (put_object_handler H others r now s))"
proof -
  let ?t = "between others [1] (between others [0] s)"
  have match: "put_match r t = (Inr (), t)" for t by (simp add: put_match_def nomatch act_return_def)
  obtain wr db where "put_object (sh_env H) (q3_bucket r) (req_key r) content (attrs_type attrs) (oa_meta attrs) (attrs_tags attrs) now (ss_db ?t)
      = (Inr wr, db)"
    using write_object_eq[OF exists] by (simp add: put_object_def Let_def)
  then show ?thesis
    by (simp add: put_object_handler_def req act_bind_def act_result_def absent match meanwhile_def on_tables_def s3_emit_def
        fire_created_def answer_def act_return_def)
qed

text \<open>
  The check and the write are separate calls.  A PUT with \<open>If-None-Match: *\<close> that found no object writes,
  also when another request has put one in between, which is lost in a bucket without versioning.
\<close>

lemma s3_put_race:
  assumes "put_request H r = Inr (attrs, content)" and "q_header r ''if-match'' = None"
    and "isl (resolve_version (q3_bucket r) (req_key r) None (ss_db s))"
    and "bucket_exists (q3_bucket r) (ss_db (between others [1] (between others [0] s)))"
  shows "\<not> isl (fst (put_object_handler H others r now s))"
  by (rule put_succeeds[OF assms(1) _ assms(2,4)]) (use assms(3) in \<open>simp add: put_absent_def find_version_def read_tables_def\<close>)

subsection \<open>Examples\<close>

lemma trim_nil: "trim [] = []"
  by (simp add: trim_def trim_start_def trim_end_def strip_seqs.simps whitespace_seqs_def starts_with_def)

lemma plain_put_request:
  assumes "map_of (q3_headers r) ''x-amz-content-sha256'' = None" "map_of (q3_headers r) ''content-encoding'' = None"
    "map_of (q3_headers r) ''content-md5'' = None" "object_attrs H (header_pairs (q3_headers r)) = Inr a" "mt_checksums (oa_meta a) = []"
  shows "put_request H r = Inr (a, q3_body r)"
  using assms
  by (simp add: put_request_def decode_body_def is_aws_chunked_def header_str_of_def starts_with_def eq_ignore_ascii_case_def
      ascii_lowercase_def trim_nil check_content_md5_def verify_checksums_def)

lemma plain_attrs:
  assumes "pair_of pairs ''x-amz-server-side-encryption'' = None" "pair_of pairs ''x-amz-tagging'' = None" "named_values CHECKSUM_HEADERS pairs = []"
  obtains a where "object_attrs H pairs = Inr a" "mt_checksums (oa_meta a) = []"
  using assms by (simp add: object_attrs_def Let_def)

lemma s3_sample_put_request:
  assumes "hs = [] \<or> hs = [(''if-none-match'', ''*'')]"
  obtains a where "put_request s3_sample_http (s3_sample_req ''PUT'' hs body) = Inr (a, body)"
proof -
  have star: "from_utf8_lossy ''*'' = ''*''" by (rule from_utf8_lossy_valid, rule utf8_valid_ascii) simp
  let ?pairs = "header_pairs (q3_headers (s3_sample_req ''PUT'' hs body))"
  have pairs: "?pairs = hs" using assms
    by (auto simp add: s3_sample_req_def header_pairs_def star ascii_lowercase_def to_lower_def is_upper_def)
  obtain a where "object_attrs s3_sample_http ?pairs = Inr a" "mt_checksums (oa_meta a) = []"
    by (rule plain_attrs[of ?pairs])
      (use assms in \<open>auto simp add: pairs pair_of_def named_values_def CHECKSUM_HEADERS_def List.map_filter_simps\<close>)
  then show thesis
    by (intro that[of a], subst plain_put_request) (use assms in \<open>auto simp add: s3_sample_req_def\<close>)
qed

lemma s3_sample_req_simps:
  "q3_bucket (s3_sample_req m hs body) = ''b''" "req_key (s3_sample_req m hs body) = ''k''" "q3_query (s3_sample_req m hs body) = []"
  "q3_headers (s3_sample_req m hs body) = hs" "q3_body (s3_sample_req m hs body) = body"
  by (simp_all add: s3_sample_req_def req_key_def)

lemma no_others_quiet: "quiet no_others" "between no_others p s = s"
  by (simp_all add: quiet_def no_others_def)

lemma s3_sample_put:
  obtains attrs resp s' where "put_request s3_sample_http (s3_sample_req ''PUT'' [] body) = Inr (attrs, body)"
    "put_object_handler s3_sample_http no_others (s3_sample_req ''PUT'' [] body) 1 (s3_sample_state [] [] 0) = (Inr resp, s')"
proof -
  let ?r = "s3_sample_req ''PUT'' [] body" and ?s = "s3_sample_state [] [] 0"
  obtain a where a: "put_request s3_sample_http ?r = Inr (a, body)" by (rule s3_sample_put_request[of "[]"]) simp
  have h: "q_header ?r n = None" for n by (simp add: q_header_def s3_header_str_def s3_sample_req_simps)
  have "\<not> isl (fst (put_object_handler s3_sample_http no_others ?r 1 ?s))"
    by (rule put_succeeds[OF a _ h])
      (simp_all add: put_absent_def h no_others_quiet s3_sample_req_simps s3_sample_state_def s3_sample_exists)
  then show thesis using that[OF a] by (cases "put_object_handler s3_sample_http no_others ?r 1 ?s"; cases "fst (put_object_handler s3_sample_http no_others ?r 1 ?s)") auto
qed

theorem s3_put_get_witness:
  "\<exists>resp s' x. put_object_handler s3_sample_http no_others (s3_sample_req ''PUT'' [] ''one'') 1 (s3_sample_state [] [] 0) = (Inr resp, s')
     \<and> fst (get_object_handler s3_sample_http no_others (s3_sample_req ''GET'' [] []) False 2 s') = Inr x
     \<and> http_status x = 200 \<and> http_body x = ''one''"
proof -
  obtain attrs resp s' where put: "put_request s3_sample_http (s3_sample_req ''PUT'' [] ''one'') = Inr (attrs, ''one'')"
    "put_object_handler s3_sample_http no_others (s3_sample_req ''PUT'' [] ''one'') 1 (s3_sample_state [] [] 0) = (Inr resp, s')"
    by (rule s3_sample_put)
  from s3_put_get[OF put no_others_quiet(1,1), of "s3_sample_req ''GET'' [] []" 2] put(2) show ?thesis
    by (simp add: s3_sample_req_simps)
qed

theorem s3_put_get_range_witness:
  "\<exists>resp s' x. put_object_handler s3_sample_http no_others (s3_sample_req ''PUT'' [] ''one'') 1 (s3_sample_state [] [] 0) = (Inr resp, s')
     \<and> fst (get_object_handler s3_sample_http no_others (s3_sample_req ''GET'' [(''range'', ''bytes=1-9'')] []) False 2 s') = Inr x
     \<and> http_status x = 206 \<and> http_body x = ''ne''"
proof -
  obtain attrs resp s' where put: "put_request s3_sample_http (s3_sample_req ''PUT'' [] ''one'') = Inr (attrs, ''one'')"
    "put_object_handler s3_sample_http no_others (s3_sample_req ''PUT'' [] ''one'') 1 (s3_sample_state [] [] 0) = (Inr resp, s')"
    by (rule s3_sample_put)
  have "''bytes=1-9'' = ''bytes='' @ show_nat 1 @ ''-'' @ show_nat 9" by (simp add: show_nat.simps digit_char_def)
  with s3_put_get_range[OF put no_others_quiet(1,1), of "s3_sample_req ''GET'' [(''range'', ''bytes=1-9'')] []" 1 9 2] put(2) show ?thesis
    by (simp add: s3_sample_req_simps)
qed

theorem s3_put_if_absent_witness:
  "\<exists>e. put_object_handler s3_sample_http no_others (s3_sample_req ''PUT'' [(''if-none-match'', ''*'')] ''two'') 2
       (s3_sample_state [] [s3_sample_row ''k'' ''one'' 1] 1) = (Inl e, s3_sample_state [] [s3_sample_row ''k'' ''one'' 1] 1)
     \<and> s3_status e = 412"
proof -
  let ?r = "s3_sample_req ''PUT'' [(''if-none-match'', ''*'')] ''two''" and ?s = "s3_sample_state [] [s3_sample_row ''k'' ''one'' 1] 1"
  have "q_header ?r ''if-none-match'' = Some (from_utf8_lossy ''*'')" by (simp add: q_header_def s3_header_str_def s3_sample_req_simps)
  moreover have "from_utf8_lossy ''*'' = ''*''" by (rule from_utf8_lossy_valid, rule utf8_valid_ascii) simp
  moreover have "trim ''*'' = ''*''" by (rule trim_word) (simp add: visible_word_def visible_def)
  moreover have "\<not> isl (resolve_version (q3_bucket ?r) (req_key ?r) None (ss_db ?s))"
    by (simp add: s3_sample_req_simps s3_sample_state_def resolve_version_def require_bucket_def s3_sample_exists current_info_def current_row_def)
      (simp add: s3_sample_db_def s3_sample_row_def is_object_def)
  moreover obtain a where "put_request s3_sample_http ?r = Inr (a, ''two'')" by (rule s3_sample_put_request[of "[(''if-none-match'', ''*'')]"]) simp
  ultimately show ?thesis using s3_put_if_absent[of ?r "''*''" ?s s3_sample_http no_others 2] by auto
qed

section \<open>Chunked bodies\<close>

text \<open>
  The framing of \<open>aws-chunked\<close> bodies as a client writes it (Signature Version 4, streaming
  uploads), and the proof that decoding it gives back the data and the trailers.
\<close>

subsection \<open>The format\<close>

definition body_chunk :: "string \<times> string \<Rightarrow> string" where
  "body_chunk c = show_hex_upper (length (snd c)) @ fst c @ CRLF @ snd c @ CRLF"

definition trailer_line :: "string \<times> string \<Rightarrow> string" where
  "trailer_line t = fst t @ CHR '':'' # snd t @ CRLF"

definition aws_chunked_body :: "(string \<times> string) list \<Rightarrow> string \<Rightarrow> (string \<times> string) list \<Rightarrow> string" where
  "aws_chunked_body chunks ext trailers =
     concat (map body_chunk chunks) @ show_hex_upper 0 @ ext @ CRLF @ concat (map trailer_line trailers) @ CRLF"

text \<open>What may follow the size of a chunk: nothing, or extensions after a semicolon.\<close>

definition chunk_ext :: "string \<Rightarrow> bool" where
  "chunk_ext e \<longleftrightarrow> (e = [] \<or> hd e = CHR '';'') \<and> list_all (\<lambda>c. code_of c < 128 \<and> c \<noteq> CR) e"

definition plain_trailer :: "string \<times> string \<Rightarrow> bool" where
  "plain_trailer t \<longleftrightarrow> visible_word (fst t) \<and> visible_word (snd t) \<and> ascii_lowercase (fst t) = fst t \<and> CHR '':'' \<notin> set (fst t)
     \<and> list_all (\<lambda>c. code_of c < 128 \<and> c \<noteq> CR) (fst t @ snd t)"

subsection \<open>Lines and numbers\<close>

lemma find_CRLF: "CR \<notin> set l \<Longrightarrow> str_find CRLF (l @ CRLF @ r) = Some (length l)"
  by (induction l) (auto simp: CRLF_def starts_with_def)

lemma find_crlf_at:
  assumes "drop pos body = l @ CRLF @ r" "pos \<le> length body" "CR \<notin> set l"
  shows "find_crlf body pos = Some (pos + length l)"
  using assms by (simp add: find_crlf_def find_CRLF)

lemma split_CRLF: "CR \<notin> set l \<Longrightarrow> split_str CRLF (l @ CRLF @ r) = l # split_str CRLF r"
  by (subst split_str.simps) (simp add: find_CRLF, simp add: CRLF_def)

lemma split_CRLF_end: "split_str CRLF [] = [[]]"
  by (subst split_str.simps) (simp add: CRLF_def)

lemma hex_digits: "d < 16 \<Longrightarrow> hex_digit (''0123456789ABCDEF'' ! d) = Some d \<and> visible (''0123456789ABCDEF'' ! d)
    \<and> ''0123456789ABCDEF'' ! d \<noteq> CHR '';'' \<and> ''0123456789ABCDEF'' ! d \<noteq> CR \<and> ''0123456789ABCDEF'' ! d \<noteq> CHR ''+''"
proof -
  have "list_all (\<lambda>d. hex_digit (''0123456789ABCDEF'' ! d) = Some d \<and> visible (''0123456789ABCDEF'' ! d)
    \<and> ''0123456789ABCDEF'' ! d \<noteq> CHR '';'' \<and> ''0123456789ABCDEF'' ! d \<noteq> CR \<and> ''0123456789ABCDEF'' ! d \<noteq> CHR ''+'') [0..<16]"
    by code_simp
  then show "d < 16 \<Longrightarrow> ?thesis" by (simp add: list_all_iff)
qed

definition hex_text :: "string \<Rightarrow> bool" where
  "hex_text s \<longleftrightarrow> list_all (\<lambda>c. hex_digit c \<noteq> None \<and> visible c \<and> c \<noteq> CHR '';'' \<and> c \<noteq> CR \<and> c \<noteq> CHR ''+'') s"

lemma show_hex_text: "hex_text (show_hex_upper n) \<and> show_hex_upper n \<noteq> [] \<and> hex_value (show_hex_upper n) = n"
proof (induction n rule: show_hex_upper.induct)
  case (1 n)
  show ?case
  proof (cases "n < 16")
    case True
    then show ?thesis using hex_digits[of n] by (subst (1 2 3) show_hex_upper.simps) (auto simp: hex_text_def hex_value_def)
  next
    case False
    then have "n mod 16 < 16" "16 * (n div 16) + n mod 16 = n" by simp_all
    with False 1 hex_digits[of "n mod 16"] show ?thesis
      by (subst (1 2 3) show_hex_upper.simps) (auto simp: hex_text_def hex_value_def)
  qed
qed

lemma parse_show_hex: "n < 2 ^ 64 \<Longrightarrow> parse_hex (show_hex_upper n) = Some n"
  using show_hex_text[of n] by (cases "show_hex_upper n") (auto simp: parse_hex_def hex_text_def Let_def list_all_iff)

subsection \<open>Decoding\<close>

lemma hex_line:
  assumes "chunk_ext e"
  shows "CR \<notin> set (show_hex_upper n @ e)" "utf8_valid (show_hex_upper n @ e)"
    "trim (hd (split_on CHR '';'' (show_hex_upper n @ e))) = show_hex_upper n"
proof -
  let ?h = "show_hex_upper n"
  have h: "hex_text ?h" "?h \<noteq> []" using show_hex_text[of n] by simp_all
  show "CR \<notin> set (?h @ e)" using h(1) assms by (auto simp: hex_text_def chunk_ext_def list_all_iff)
  show "utf8_valid (?h @ e)"
    by (rule utf8_valid_ascii) (use h(1) assms in \<open>force simp: hex_text_def chunk_ext_def list_all_iff visible_def\<close>)
  have "CHR '';'' \<notin> set ?h" using h(1) by (auto simp: hex_text_def list_all_iff)
  then have "hd (split_on CHR '';'' (?h @ e)) = ?h"
    using assms by (cases e) (auto simp: chunk_ext_def split_on_no_sep split_on_append)
  moreover have "visible_word ?h" using h by (auto simp: visible_word_def hex_text_def list_all_iff)
  ultimately show "trim (hd (split_on CHR '';'' (?h @ e))) = ?h" by (simp add: trim_word)
qed

text \<open>One header line of the loop.\<close>

lemma decode_header:
  assumes body: "drop pos body = show_hex_upper n @ e @ CRLF @ r" and pos: "pos \<le> length body" and e: "chunk_ext e" and n: "n < 2 ^ 64"
  defines "p \<equiv> pos + length (show_hex_upper n @ e) + 2"
  shows "decode_chunks H body pos dat =
     (if n = 0 then Inr (dat, p)
      else if length body < p + n then Inl ''truncated chunk''
      else decode_chunks H body
        (if p + n + 2 \<le> length body \<and> take 2 (drop (p + n) body) = CRLF then p + n + 2 else p + n) (dat @ take n (drop p body)))"
    "drop p body = r" "p \<le> length body"
proof -
  let ?l = "show_hex_upper n @ e"
  have d: "drop pos body = ?l @ CRLF @ r" using body by simp
  have f: "find_crlf body pos = Some (pos + length ?l)" by (rule find_crlf_at[OF d pos hex_line(1)[OF e]])
  have l: "take (pos + length ?l - pos) (drop pos body) = ?l" unfolding d by simp
  have s: "parse_hex (trim (hd (split_on CHR '';'' ?l))) = Some n" by (simp only: hex_line(3)[OF e] parse_show_hex[OF n])
  show "decode_chunks H body pos dat =
     (if n = 0 then Inr (dat, p)
      else if length body < p + n then Inl ''truncated chunk''
      else decode_chunks H body
        (if p + n + 2 \<le> length body \<and> take 2 (drop (p + n) body) = CRLF then p + n + 2 else p + n) (dat @ take n (drop p body)))"
    by (subst decode_chunks.simps) (simp only: f option.case Let_def l s hex_line(2)[OF e] not_True_eq_False if_False p_def)
  have "drop p body = drop (length (?l @ CRLF)) (drop pos body)" by (simp add: p_def CRLF_def add.commute add.left_commute)
  then show "drop p body = r" unfolding d by simp
  have "length (drop pos body) = length (?l @ CRLF @ r)" by (simp only: d)
  then show "p \<le> length body" by (simp add: p_def CRLF_def)
qed

lemma decode_frames:
  "drop pos body = concat (map body_chunk chunks) @ show_hex_upper 0 @ ext @ CRLF @ r \<Longrightarrow> pos \<le> length body \<Longrightarrow>
   length body < 2 ^ 64 \<Longrightarrow> list_all (\<lambda>c. chunk_ext (fst c) \<and> snd c \<noteq> []) chunks \<Longrightarrow> chunk_ext ext \<Longrightarrow>
   \<exists>p. decode_chunks H body pos dat = Inr (dat @ concat (map snd chunks), p) \<and> drop p body = r"
proof (induction chunks arbitrary: pos dat)
  case Nil
  then show ?case using decode_header(1)[of pos body 0 ext r H dat] decode_header(2)[of pos body 0 ext r] by auto
next
  case (Cons c chunks)
  let ?n = "length (snd c)"
  let ?r = "concat (map body_chunk chunks) @ show_hex_upper 0 @ ext @ CRLF @ r"
  have d: "drop pos body = show_hex_upper ?n @ fst c @ CRLF @ snd c @ CRLF @ ?r"
    using Cons.prems(1) by (simp add: body_chunk_def[of c])
  have "length (drop pos body) \<le> length body" by simp
  then have n: "?n < 2 ^ 64" using Cons.prems(3) unfolding d by simp
  have e: "chunk_ext (fst c)" and ne: "?n \<noteq> 0" using Cons.prems(4) by simp_all
  define p where "p = pos + length (show_hex_upper ?n @ fst c) + 2"
  note h = decode_header(1)[OF d Cons.prems(2) e n, folded p_def, of H dat] decode_header(2,3)[OF d Cons.prems(2) e n, folded p_def]
  have at: "drop (p + ?n) body = CRLF @ ?r"
    using h(2) by (metis add.commute append_eq_conv_conj drop_drop)
  have len: "p + ?n + 2 \<le> length body"
  proof -
    have "length (drop p body) = ?n + 2 + length ?r" using h(2) by (simp add: CRLF_def)
    then show ?thesis using h(3) by simp
  qed
  have "decode_chunks H body pos dat = decode_chunks H body (p + ?n + 2) (dat @ snd c)"
    using h(1) ne len at h(2) by (simp add: CRLF_def)
  moreover have "drop (p + ?n + 2) body = ?r" using at by (metis CRLF_def add.commute append_eq_conv_conj drop_drop length_Cons list.size(3) numeral_2_eq_2)
  ultimately show ?case using Cons.IH[of "p + ?n + 2" "dat @ snd c"] len Cons.prems(3,4,5) by simp
qed

lemma trailer_of_line:
  assumes "plain_trailer t"
  shows "trailer_of (fst t @ CHR '':'' # snd t) = (if fst t = ''x-amz-trailer-signature'' then None else Some t)"
proof -
  have w: "visible_word (fst t)" "visible_word (snd t)" "CHR '':'' \<notin> set (fst t)" "ascii_lowercase (fst t) = fst t"
    using assms by (simp_all add: plain_trailer_def)
  have "visible_word (fst t @ CHR '':'' # snd t)" using w by (auto simp: visible_word_def)
  then show ?thesis using w by (cases t) (simp add: trailer_of_def trim_word split_once_append)
qed

lemma trailer_lines:
  "list_all plain_trailer trailers \<Longrightarrow>
   List.map_filter trailer_of (split_str CRLF (concat (map trailer_line trailers) @ CRLF))
     = filter (\<lambda>t. fst t \<noteq> ''x-amz-trailer-signature'') trailers"
proof (induction trailers)
  case Nil
  have "trailer_of [] = None" by (simp add: trailer_of_def trim_def trim_start_def trim_end_def strip_seqs.simps whitespace_seqs_def starts_with_def)
  moreover have "split_str CRLF CRLF = [[], []]" using split_CRLF[of "[]" "[]"] by (simp add: split_CRLF_end)
  ultimately show ?case by (simp add: List.map_filter_simps)
next
  case (Cons t trailers)
  have "CR \<notin> set (fst t @ CHR '':'' # snd t)" using Cons.prems by (auto simp: plain_trailer_def list_all_iff)
  from split_CRLF[OF this] have "split_str CRLF (concat (map trailer_line (t # trailers)) @ CRLF)
      = (fst t @ CHR '':'' # snd t) # split_str CRLF (concat (map trailer_line trailers) @ CRLF)"
    by (simp add: trailer_line_def)
  with Cons show ?case by (auto simp: List.map_filter_simps trailer_of_line)
qed

lemma trailers_valid: "list_all plain_trailer trailers \<Longrightarrow> utf8_valid (concat (map trailer_line trailers) @ CRLF)"
  by (rule utf8_valid_ascii) (auto simp: trailer_line_def plain_trailer_def CRLF_def list_all_iff)

text \<open>
  C29: decoding an \<open>aws-chunked\<close> body gives the bytes of its chunks, in order, and the trailers that
  follow the last chunk without the signature, whatever chunk extensions the client sends.
\<close>

theorem s3_chunked:
  assumes "list_all (\<lambda>c. chunk_ext (fst c) \<and> snd c \<noteq> []) chunks" and "chunk_ext ext" and "list_all plain_trailer trailers"
    and "length (aws_chunked_body chunks ext trailers) < 2 ^ 64"
  shows "decode_aws_chunked H (aws_chunked_body chunks ext trailers) =
    Inr \<lparr> dc_data = concat (map snd chunks), dc_trailers = filter (\<lambda>t. fst t \<noteq> ''x-amz-trailer-signature'') trailers \<rparr>"
proof -
  let ?b = "aws_chunked_body chunks ext trailers" and ?r = "concat (map trailer_line trailers) @ CRLF"
  have d: "drop 0 ?b = concat (map body_chunk chunks) @ show_hex_upper 0 @ ext @ CRLF @ ?r" by (simp add: aws_chunked_body_def)
  obtain p where "decode_chunks H ?b 0 [] = Inr ([] @ concat (map snd chunks), p)" "drop p ?b = ?r"
    using decode_frames[OF d _ assms(4,1,2), of H "[]"] by auto
  then show ?thesis
    using trailers_valid[OF assms(3)] trailer_lines[OF assms(3)] by (simp add: decode_aws_chunked_def)
qed

theorem s3_chunked_witness:
  "decode_aws_chunked s3_sample_http (aws_chunked_body [('';chunk-signature=ab'', ''hello''), ([], [CR, LF])] [] [(''x-amz-checksum-crc32'', ''DUoRhQ=='')])
     = Inr \<lparr> dc_data = ''hello'' @ [CR, LF], dc_trailers = [(''x-amz-checksum-crc32'', ''DUoRhQ=='')] \<rparr>"
  by (subst s3_chunked)
    (simp_all add: chunk_ext_def plain_trailer_def visible_word_def visible_def ascii_lowercase_def to_lower_def is_upper_def
      aws_chunked_body_def body_chunk_def trailer_line_def CRLF_def show_hex_upper.simps)

end
