(* ===== verification/S3_Access.thy ===== *)
theory S3_Access
  imports S3_Web Sns_Properties
begin

text \<open>
  S3, part 9: who gets in from a browser (CORS and policies of forms), and events of a bucket that reach
  a queue.
\<close>

subsection \<open>CORS preflight\<close>

text \<open>
  What the documents of a bucket let a page do: the rule is one of the document, and its patterns, in
  which a star stands for anything, admit the origin and every header, case aside.
\<close>

definition allows :: "string \<Rightarrow> string \<Rightarrow> string list \<Rightarrow> cors_rule \<Rightarrow> bool" where
  "allows origin m headers r \<longleftrightarrow> (\<exists>p\<in>set (cr_origins r). glob p origin) \<and> m \<in> set (cr_methods r)
     \<and> (\<forall>h\<in>set headers. \<exists>p\<in>set (cr_headers r). glob (ascii_lowercase p) (ascii_lowercase h))"

lemma rule_admits_allows: "rule_admits origin m headers r \<longleftrightarrow> allows origin m headers r"
  by (simp add: rule_admits_def allows_def wildcard_match_glob list_ex_iff list_all_iff)

abbreviation asked_headers :: "s3_headers \<Rightarrow> string list" where
  "asked_headers hs \<equiv> (case s3_header_str ''access-control-request-headers'' hs of Some v \<Rightarrow> split_header_list v | None \<Rightarrow> [])"

lemma header_set [simp]:
  "map_of (http_headers (try_header n v resp)) k = (if n = k \<and> header_text v then Some v else map_of (http_headers resp) k)"
proof -
  have "map_of (filter (\<lambda>(k, _). k \<noteq> n) hs @ [(n, v)]) k = (if n = k then Some v else map_of hs k)" for hs and n k :: string
    by (induction hs) auto
  then show ?thesis by (simp add: try_header_def set_header_def del: map_of_append)
qed

text \<open>
  C28: a preflight request is answered with success exactly when a rule of the bucket's CORS document
  admits its origin, the method and every header it asks for; then the page is told its own origin or,
  by a rule that names the origin \<open>*\<close>, any.
\<close>

theorem s3_preflight:
  assumes "s3_header_str ''origin'' hs = Some origin" "header_text origin"
    and "s3_header_str ''access-control-request-method'' hs = Some m"
    and "cors_document b (ss_db s) = Some xml" "parse_rules H xml = Inr rules"
  shows "case fst (preflight H b hs s) of
      Inr resp \<Rightarrow> (\<exists>r\<in>set rules. allows origin (trim m) (asked_headers hs) r
        \<and> map_of (http_headers resp) ''access-control-allow-origin'' = Some (if ''*'' \<in> set (cr_origins r) then ''*'' else origin))
    | Inl e \<Rightarrow> \<not> (\<exists>r\<in>set rules. allows origin (trim m) (asked_headers hs) r)"
proof (cases "find_rule rules origin (trim m) (asked_headers hs)")
  case None
  then have "\<not> (\<exists>r\<in>set rules. allows origin (trim m) (asked_headers hs) r)"
    by (simp add: find_rule_def find_None_iff rule_admits_allows)
  with None show ?thesis
    using assms by (simp add: preflight_def preflight_rule_def act_bind_def read_tables_def)
next
  case (Some r)
  have run: "fst (preflight H b hs s) = Inr (cors_apply r origin True (asked_headers hs) (status_response 200))"
    using assms Some by (simp add: preflight_def preflight_rule_def act_bind_def read_tables_def answer_def act_return_def)
  have star: "header_text ''*''" by (simp add: header_text_def visible_def)
  have "map_of (http_headers (cors_apply r origin True (asked_headers hs) (status_response 200))) ''access-control-allow-origin''
      = Some (if ''*'' \<in> set (cr_origins r) then ''*'' else origin)"
    unfolding cors_apply_def Let_def by (simp add: assms(2) star list_ex_iff split: option.split)
  with find_rule_Some[OF Some] show ?thesis unfolding run rule_admits_allows by auto
qed

subsection \<open>Uploads under a policy\<close>

text \<open>What a condition of a policy asks of the form; \<open>content-length-range\<close> bounds the file.\<close>

definition meets :: "post_form \<Rightarrow> string \<Rightarrow> string \<Rightarrow> json \<Rightarrow> bool" where
  "meets form b k c \<longleftrightarrow>
     (\<exists>m. c = JObj m \<and> (\<forall>(f, v)\<in>set m. policy_value form b k f = (case as_str v of Some s \<Rightarrow> s | None \<Rightarrow> [])))
     \<or> (\<exists>op args. c = JArr (op # args) \<and>
          (let name = ascii_lowercase (case as_str op of Some s \<Rightarrow> s | None \<Rightarrow> []);
               actual = policy_value form b k (nth_or args 0 as_str []); expected = nth_or args 1 as_str [] in
           name = ''content-length-range'' \<and> nth_or args 0 as_i64 0 \<le> int (length (fm_content form))
             \<and> int (length (fm_content form)) \<le> nth_or args 1 as_i64 i64_max
           \<or> name = ''eq'' \<and> actual = expected
           \<or> name = ''starts-with'' \<and> (starts_with actual expected
               \<or> eq_ignore_ascii_case (nth_or args 0 as_str []) ''$content-type''
                 \<and> (\<forall>t\<in>set (split_on CHR '','' actual). starts_with (trim t) expected))))"

lemma nth_or_Cons: "nth_or (x # xs) (Suc i) f d = nth_or xs i f d" "nth_or (x # xs) 0 f d = (case f x of Some v \<Rightarrow> v | None \<Rightarrow> d)"
  by (simp_all add: nth_or_def)

lemma check_condition_meets: "check_condition H form b k c = Inr () \<Longrightarrow> meets form b k c"
proof (cases c)
  case (JObj m)
  then show "check_condition H form b k c = Inr () \<Longrightarrow> meets form b k c"
    by (auto simp: check_condition_def meets_def list_all_iff split: if_splits)
next
  case (JArr a)
  assume ok: "check_condition H form b k c = Inr ()"
  then obtain op args where a: "a = op # args" using JArr by (cases a) (simp_all add: check_condition_def)
  have nth: "nth_or (op # args) 1 f d = nth_or args 0 f d" "nth_or (op # args) 2 f d = nth_or args 1 f d" for f :: "json \<Rightarrow> 'z option" and d
    by (simp_all add: nth_or_def numeral_2_eq_2)
  show ?thesis
    using ok by (simp add: JArr a check_condition_def meets_def Let_def nth nth_or_Cons list_all_iff split: if_splits)
qed (simp_all add: check_condition_def)

lemma check_conditions_meet: "check_conditions H form b k cs = Inr () \<Longrightarrow> \<forall>c\<in>set cs. meets form b k c"
  by (induction cs) (auto simp: try_bind_Inr_iff intro: check_condition_meets)

abbreviation policy_conditions :: "json \<Rightarrow> json list" where
  "policy_conditions policy \<equiv> (case Option.bind (json_get ''conditions'' policy) as_array of Some cs \<Rightarrow> cs | None \<Rightarrow> [])"

lemma check_policy_Inr:
  assumes "check_policy H p form b k now = Inr ()"
  obtains v where "policy_document H p = Inr v" "policy_live H v now = Inr ()" "\<forall>c\<in>set (policy_conditions v). meets form b k c"
  using assms by (auto simp: check_policy_def try_bind_Inr_iff dest!: check_conditions_meet)

lemma policy_live_Inr:
  "policy_live H v now = Inr () \<longleftrightarrow>
     (case json_str ''expiration'' v of None \<Rightarrow> True | Some e \<Rightarrow> \<exists>t. rfc3339_millis H e = Some t \<and> now \<le> t)"
  by (auto simp: policy_live_def split: option.splits)

lemma post_object_Inr:
  assumes run: "post_object S others b hs body rid now s = (Inr resp, s')" and quiet: "quiet others" and form: "read_form S hs body = Inr form"
  obtains k attrs tags where "post_key form = Inr k" "post_checks (si_http S) form b k now = Inr (attrs, tags)"
    "stored_at b k (fm_content form) (ss_db s')"
proof -
  let ?put = "\<lambda>k attrs tags. put_object (sh_env (si_http S)) b k (fm_content form) (attrs_type attrs) (oa_meta attrs) tags now"
  have "\<exists>k attrs tags s1 wr s2. post_key form = Inr k \<and> post_checks (si_http S) form b k now = Inr (attrs, tags)
      \<and> on_tables (?put k attrs tags) s1 = (Inr wr, s2) \<and> same_tables (ss_db s2) (ss_db s')"
    using run quiet
    by (auto simp: post_object_def Let_def form call_Inr act_result_def meanwhile_def s3_emit_def fire_created_def answer_def
        act_return_def fire_same_tables read_tables_def) (intro exI conjI, assumption, rule refl)
  then obtain k attrs tags s1 wr s2 where h: "post_key form = Inr k" "post_checks (si_http S) form b k now = Inr (attrs, tags)"
    and put: "on_tables (?put k attrs tags) s1 = (Inr wr, s2)" and same: "same_tables (ss_db s2) (ss_db s')" by blast
  obtain db' where db': "?put k attrs tags (ss_db s1) = (Inr wr, db')" "ss_db s2 = db'"
    using put by (auto simp: on_tables_def split: prod.splits)
  have "mt_parts (oa_meta attrs) = []" using h(2) by (auto simp: post_checks_def try_bind_Inr_iff dest: attrs_no_parts)
  then have "stored_at b k (fm_content form) (ss_db s2)" unfolding db'(2) by (rule put_stored[OF db'(1)])
  with h show thesis by (intro that) (simp_all add: stored_same[OF same])
qed

text \<open>
  C26: an accepted browser upload.  The file is what a read of the key that the form names then finds, and if
  the form has a policy, it is a document that has not expired and every one of its conditions holds for the
  form, also those that bound the size of the file.  A form may also have no policy: then nothing bounds it.
  Between the calls of the handler nobody writes the object (\<open>quiet\<close>).
\<close>

theorem s3_post_policy:
  assumes "post_object S others b hs body rid now s = (Inr resp, s')" "quiet others"
  shows "\<exists>form k. read_form S hs body = Inr form \<and> post_key form = Inr k \<and> stored_at b k (fm_content form) (ss_db s')
    \<and> (case form_get form ''policy'' of None \<Rightarrow> True
       | Some p \<Rightarrow> \<exists>v. policy_document (si_http S) p = Inr v
           \<and> (case json_str ''expiration'' v of None \<Rightarrow> True | Some e \<Rightarrow> \<exists>t. rfc3339_millis (si_http S) e = Some t \<and> now \<le> t)
           \<and> (\<forall>c\<in>set (policy_conditions v). meets form b k c))"
proof -
  obtain form where form: "read_form S hs body = Inr form"
    using assms(1) by (cases "read_form S hs body") (simp_all add: post_object_def Let_def act_bind_def act_result_def)
  from post_object_Inr[OF assms form] obtain k attrs tags where h: "post_key form = Inr k"
    "post_checks (si_http S) form b k now = Inr (attrs, tags)" "stored_at b k (fm_content form) (ss_db s')" .
  have "check_policy (si_http S) p form b k now = Inr ()" if "form_get form ''policy'' = Some p" for p
    using h(2) that by (simp add: post_checks_def try_bind_Inr_iff)
  then have "case form_get form ''policy'' of None \<Rightarrow> True
       | Some p \<Rightarrow> \<exists>v. policy_document (si_http S) p = Inr v
           \<and> (case json_str ''expiration'' v of None \<Rightarrow> True | Some e \<Rightarrow> \<exists>t. rfc3339_millis (si_http S) e = Some t \<and> now \<le> t)
           \<and> (\<forall>c\<in>set (policy_conditions v). meets form b k c)"
    by (cases "form_get form ''policy''") (simp, force simp: policy_live_Inr elim!: check_policy_Inr)
  with form h show ?thesis by blast
qed

subsection \<open>Events reach their queues\<close>

text \<open>
  C27: an event of a bucket arrives.  When the notification document of the bucket has one destination
  that the event matches, a standard queue without messages, a consumer who receives from the queue,
  when its delay is over and its retention period is not, gets exactly the record of the event.
\<close>

theorem s3_event_arrives:
  assumes "sqs_env (s3_ex H)" "sqs_ok (s3_ex H) (sns_queues (ss_app s))"
    and "get_config (en_bucket ev) ''notification'' (ss_db s) = Inr (Some body)"
    and "notify_parse H body (s3_draws (ss_db s)) = (Inr cfg, n)"
    and "filter (\<lambda>t. nt_kind t \<noteq> DestLambda \<and> target_matches t (en_name ev) (en_key ev)) (nc_targets cfg) = [t]" "nt_kind t = DestQueue"
    and "\<forall>p s. ss_app (between others p s) = ss_app s"
    and "get_queue (s3_ex H) (nt_arn t) (sns_queues (ss_app s)) = Inr q" "\<not> is_fifo q"
    and "\<forall>m\<in>set (sqs_messages (sns_queues (ss_app s))). m_queue_id m \<noteq> q_id q"
    and "input = \<lparr> si_body = event_record H ev (nt_id t) now, si_delay_seconds = None, si_attributes = [],
           si_system_attributes = [], si_group_id = None, si_dedup_id = None \<rparr>" "send_check q input = Inr delay"
    and "now + delay * 1000 \<le> now'" "now' \<le> now + attr_i64 q ''MessageRetentionPeriod'' * 1000"
    and "redrive (s3_ex H) q = None" "1 \<le> ro_max opts" "''All'' \<in> set (ro_message_attribute_names opts)"
  shows "\<exists>x db. receive_tx (s3_ex H) q opts now' (sns_queues (ss_app (notify_fire H others ev now s))) = (Inr [x], db)
    \<and> rm_body x = event_record H ev (nt_id t) now"
proof -
  let ?E = "s3_ex H" and ?db = "sns_queues (ss_app s)"
  obtain sent db where sent: "send_tx ?E q input now ?db = (Inr sent, db)" "db \<noteq> ?db"
    using send_standard[OF assms(1,2,9,12)] by blast
  have name: "get_queue ?E (q_name q) ?db = Inr q" by (rule get_queue_by_name[OF assms(2,8)])
  have parse: "on_draws (notify_parse H body) s = (Inr cfg, s\<lparr> ss_db := (ss_db s)\<lparr> s3_draws := n \<rparr> \<rparr>)"
    by (simp add: on_draws_def on_tables_def assms(4))
  have send: "send_internal ?E (nt_arn t) (event_record H ev (nt_id t) now) None now ?db = (Inr (so_message_id sent), db)"
    using sent(1) name assms(8,9,11) by (simp add: send_internal_def parse_attrs_def send_with_def send_def with_queue_def)
  have fired: "sns_queues (ss_app (notify_fire H others ev now s)) = db"
    by (simp add: notify_fire_def assms(3,5,6,7) parse notify_deliver_def Let_def send)
  have snap: "snapshot_ok q ?db" by (rule get_queue_snapshot[OF _ assms(8)]) (use assms(2) in \<open>simp add: sqs_ok_def\<close>)
  have "\<forall>d mx. dead_letter_target ?E q (refresh q now' db) = Some (d, mx) \<longrightarrow> 0 < mx"
    using assms(15) by (simp add: dead_letter_target_def)
  from send_then_receive[OF assms(1) _ assms(2) snap assms(10,12) sent assms(13,14) this assms(16,17)] show ?thesis
    by (auto simp: fired assms(11) bt_ok_def)
qed

subsection \<open>Pages of uploads\<close>

text \<open>
  The uploads of a bucket are sorted by key and time of creation, and a page continues behind the
  identifier of the last upload shown.  An upload whose identifier is smaller than that of an older upload
  of the same key is on no page.
\<close>

lemma s3_uploads_skipped:
  assumes "up_key u \<noteq> []" "up_key v = up_key u" "up_id v < up_id u"
  shows "upload_page [] [] 1 [u, v] = ([u], True) \<and> upload_page (up_key u) (up_id u) 1 [u, v] = ([], False)"
  using assms by (cases "up_id u") (auto simp add: upload_page_def upload_after_def dest: order.asym)

subsection \<open>Examples of access and events\<close>

lemma local_plain:
  assumes "list_all (\<lambda>c. code_of c < 128) s" "CHR '':'' \<notin> set s"
  shows "local_name s = s"
proof -
  have "rsplit_once CHR '':'' s = None" using assms(2) by (simp add: rsplit_once_def split_once_def)
  then show ?thesis by (simp add: local_name_def utf8_valid_ascii[OF assms(1)])
qed

text \<open>A reader that finds the same document in every text.\<close>

definition xml_leaf :: "string \<Rightarrow> string \<Rightarrow> xml_event list" where
  "xml_leaf n t = [EvStart n [], EvText (Inr t), EvEnd]"

definition reading :: "xml_event list \<Rightarrow> s3_http" where
  "reading evs = s3_sample_http\<lparr> sh_env := s3_sample_env\<lparr> xml_read := (\<lambda>_. evs),
     s3_ext := sample_ext\<lparr> json_print := (\<lambda>_. ''e'') \<rparr> \<rparr> \<rparr>"

definition sample_cors_events :: "xml_event list" where
  "sample_cors_events = [EvStart ''CORSConfiguration'' [], EvStart ''CORSRule'' []] @ xml_leaf ''AllowedOrigin'' ''*''
     @ xml_leaf ''AllowedMethod'' ''GET'' @ [EvEnd, EvEnd]"

lemma sample_cors_rules:
  "parse_rules (reading sample_cors_events) xml = Inr [\<lparr> cr_id = None, cr_origins = [''*''], cr_methods = [''GET''], cr_headers = [],
     cr_expose = [], cr_max_age = None \<rparr>]"
proof -
  have names: "local_name ''CORSConfiguration'' = ''CORSConfiguration''" "local_name ''CORSRule'' = ''CORSRule''"
    "local_name ''AllowedOrigin'' = ''AllowedOrigin''" "local_name ''AllowedMethod'' = ''AllowedMethod''"
    by (rule local_plain; simp)+
  have words: "trim ''*'' = ''*''" "trim ''GET'' = ''GET''" by (rule trim_word, simp add: visible_word_def visible_def)+
  have "parse_doc (reading sample_cors_events) xml = Inr (Element ''CORSConfiguration'' [] [Element ''CORSRule'' []
      [Element ''AllowedOrigin'' [] [] ''*'', Element ''AllowedMethod'' [] [] ''GET''] []] [])"
    by (simp add: parse_doc_def reading_def sample_cors_events_def xml_leaf_def xml_parse_def names close_element_def add_child_def add_text_def)
  then show ?thesis
    by (simp add: parse_rules_def parse_root_def children_named_def rule_of_element_def texts_of_def words child_text_def el_child_def
        cors_validate_def cors_methods_def stars_def)
qed

theorem s3_preflight_witness:
  "\<exists>resp. fst (preflight (reading sample_cors_events) ''b'' [(''origin'', ''http://h''), (''access-control-request-method'', ''GET'')]
       (s3_sample_state [\<lparr> cf_bucket = ''b'', cf_kind = ''cors'', cf_body = ''x'' \<rparr>] [] 0)) = Inr resp
     \<and> map_of (http_headers resp) ''access-control-allow-origin'' = Some ''*''"
proof -
  let ?hs = "[(''origin'', ''http://h''), (''access-control-request-method'', ''GET'')]"
    and ?s = "s3_sample_state [\<lparr> cf_bucket = ''b'', cf_kind = ''cors'', cf_body = ''x'' \<rparr>] [] 0"
  have plain: "from_utf8_lossy ''http://h'' = ''http://h''" "from_utf8_lossy ''GET'' = ''GET''"
    by (rule from_utf8_lossy_valid, rule utf8_valid_ascii, simp)+
  have origin: "s3_header_str ''origin'' ?hs = Some ''http://h''" by (simp add: s3_header_str_def plain)
  have meth: "s3_header_str ''access-control-request-method'' ?hs = Some ''GET''" by (simp add: s3_header_str_def plain)
  have none: "asked_headers ?hs = []" by (simp add: s3_header_str_def)
  have ok: "header_text ''http://h''" by (simp add: header_text_def visible_def)
  have doc: "cors_document ''b'' (ss_db ?s) = Some ''x''"
    by (simp add: cors_document_def get_config_def require_bucket_def s3_sample_state_def s3_sample_exists)
      (simp add: config_get_def s3_sample_db_def)
  have word: "trim ''GET'' = ''GET''" by (rule trim_word, simp add: visible_word_def visible_def)
  show ?thesis
    using s3_preflight[OF origin ok meth doc sample_cors_rules]
    by (simp add: none word allows_def split: sum.splits)
qed

text \<open>A form with a file of three bytes and a policy that allows up to five.\<close>

definition small_files :: json where
  "small_files = JObj [(''conditions'', JArr [JArr [JStr ''content-length-range'', JInt 1, JInt 5]])]"

definition form_site :: s3_site where
  "form_site = \<lparr> si_http = s3_sample_http\<lparr> sh_env := s3_sample_env\<lparr> s3_ext := sample_ext\<lparr> json_parse := (\<lambda>_. Some small_files) \<rparr> \<rparr> \<rparr>,
     form_read = (\<lambda>_ _. Inr [FormField (Some ''key'') None (Inr ''k'') (Inr ''k''), FormField (Some ''policy'') None (Inr ''p'') (Inr ''p''),
       FormField (Some ''file'') (Some ''f'') (Inr ''one'') (Inr ''one'')]) \<rparr>"

definition sample_form :: post_form where
  "sample_form = \<lparr> fm_fields = [(''key'', ''k''), (''policy'', ''p'')], fm_filename = ''f'', fm_content = ''one'' \<rparr>"

lemma post_succeeds:
  assumes "read_form S hs body = Inr form" "post_key form = Inr k" "post_checks (si_http S) form b k now = Inr (attrs, tags)"
    and "bucket_exists b (ss_db s)" "bucket_exists b (ss_db (between others [0] s))"
  shows "\<not> isl (fst (post_object S others b hs body rid now s))"
proof -
  let ?t = "between others [0] s"
  obtain wr db where "put_object (sh_env (si_http S)) b k (fm_content form) (attrs_type attrs) (oa_meta attrs) tags now (ss_db ?t) = (Inr wr, db)"
    using write_object_eq[OF assms(5)] by (simp add: put_object_def Let_def)
  then show ?thesis
    by (simp add: post_object_def Let_def assms(1-4) act_bind_def act_result_def read_tables_def require_bucket_def meanwhile_def
        on_tables_def s3_emit_def fire_created_def answer_def act_return_def)
qed

lemma sample_form_read: "read_form form_site hs body = Inr sample_form"
  by (simp add: read_form_def form_site_def sample_form_def ascii_lowercase_def to_lower_def is_upper_def)

lemma sample_form_key: "post_key sample_form = Inr ''k''"
  by (simp add: post_key_def form_get_def sample_form_def split_str.simps starts_with_def)

lemma sample_form_policy: "check_policy (si_http form_site) ''p'' sample_form b k now = Inr ()"
  by (simp add: check_policy_def policy_document_def policy_live_def form_site_def s3_sample_http_def s3_sample_env_def sample_ext_def
      small_files_def check_condition_def nth_or_def in_i64_def i64_max_def i64_min_def sample_form_def Let_def ascii_lowercase_def to_lower_def is_upper_def)

lemma sample_form_checks: obtains attrs where "post_checks (si_http form_site) sample_form b k now = Inr (attrs, [])"
proof -
  obtain a where a: "object_attrs (si_http form_site) (fm_fields sample_form) = Inr a" "mt_checksums (oa_meta a) = []"
    by (rule plain_attrs[of "fm_fields sample_form"])
      (simp_all add: sample_form_def pair_of_def named_values_def CHECKSUM_HEADERS_def List.map_filter_simps)
  have "form_get sample_form ''policy'' = Some ''p''" "form_get sample_form ''tagging'' = None"
    by (simp_all add: form_get_def sample_form_def)
  then show thesis by (intro that[of a]) (simp add: post_checks_def sample_form_policy a(1))
qed

theorem s3_post_policy_witness:
  "\<exists>resp s'. post_object form_site no_others ''b'' [] (Inr []) [] 1 (s3_sample_state [] [] 0) = (Inr resp, s')
     \<and> stored_at ''b'' ''k'' ''one'' (ss_db s')
     \<and> (\<exists>v. policy_document (si_http form_site) ''p'' = Inr v \<and> (\<forall>c\<in>set (policy_conditions v). meets sample_form ''b'' ''k'' c))"
proof -
  let ?s = "s3_sample_state [] [] 0"
  obtain attrs where c: "post_checks (si_http form_site) sample_form ''b'' ''k'' 1 = Inr (attrs, [])" by (rule sample_form_checks)
  have "\<not> isl (fst (post_object form_site no_others ''b'' [] (Inr []) [] 1 ?s))"
    by (rule post_succeeds[OF sample_form_read sample_form_key c]) (simp_all add: no_others_quiet s3_sample_state_def s3_sample_exists)
  then obtain resp s' where run: "post_object form_site no_others ''b'' [] (Inr []) [] 1 ?s = (Inr resp, s')"
    by (cases "post_object form_site no_others ''b'' [] (Inr []) [] 1 ?s"; cases "fst (post_object form_site no_others ''b'' [] (Inr []) [] 1 ?s)") auto
  have "form_get sample_form ''policy'' = Some ''p''" "fm_content sample_form = ''one''"
    by (simp_all add: form_get_def sample_form_def)
  with s3_post_policy[OF run no_others_quiet(1)] run show ?thesis
    unfolding sample_form_read by (auto simp: sample_form_key)
qed

text \<open>A bucket that reports to the sample queue.\<close>

definition sample_notify_events :: "xml_event list" where
  "sample_notify_events = [EvStart ''NotificationConfiguration'' [], EvStart ''QueueConfiguration'' []] @ xml_leaf ''Id'' ''i''
     @ xml_leaf ''Queue'' (queue_arn ''jobs'') @ xml_leaf ''Event'' ''s3:ObjectCreated:*'' @ [EvEnd, EvEnd]"

definition sample_target :: notify_target where
  "sample_target = \<lparr> nt_kind = DestQueue, nt_id = ''i'', nt_arn = queue_arn ''jobs'', nt_events = [''s3:ObjectCreated:*''], nt_rules = [] \<rparr>"

definition sample_event :: s3_event where
  "sample_event = \<lparr> en_bucket = ''b'', en_key = ''k'', en_name = ''ObjectCreated:Put'', en_size = None, en_etag = None,
     en_version = None, en_seq = 1, en_request_id = [] \<rparr>"

definition sample_watched :: s3_state where
  "sample_watched = \<lparr> ss_db = s3_sample_db [\<lparr> cf_bucket = ''b'', cf_kind = ''notification'', cf_body = ''x'' \<rparr>] [] 0,
     ss_app = s3_sample_app\<lparr> sns_queues := sample_empty \<rparr> \<rparr>"

lemma sample_notify_parse:
  "notify_parse (reading sample_notify_events) xml n = (Inr \<lparr> nc_targets = [sample_target], nc_eventbridge = False \<rparr>, n)"
proof -
  have names: "local_name ''NotificationConfiguration'' = ''NotificationConfiguration''" "local_name ''QueueConfiguration'' = ''QueueConfiguration''"
    "local_name ''Id'' = ''Id''" "local_name ''Queue'' = ''Queue''" "local_name ''Event'' = ''Event''"
    by (rule local_plain; simp)+
  have word: "trim ''s3:ObjectCreated:*'' = ''s3:ObjectCreated:*''" by (rule trim_word, simp add: visible_word_def visible_def)
  have arn: "queue_arn ''jobs'' \<noteq> []" by (simp add: queue_arn_def)
  have words: "trim ''i'' = ''i''" "trim (queue_arn ''jobs'') = queue_arn ''jobs''"
    by (rule trim_word, simp add: visible_word_def visible_def queue_arn_def)+
  have "parse_doc (reading sample_notify_events) xml = Inr (Element ''NotificationConfiguration'' [] [Element ''QueueConfiguration'' []
      [Element ''Id'' [] [] ''i'', Element ''Queue'' [] [] (queue_arn ''jobs''), Element ''Event'' [] [] ''s3:ObjectCreated:*''] []] [])"
    by (simp add: parse_doc_def reading_def sample_notify_events_def xml_leaf_def xml_parse_def names close_element_def add_child_def add_text_def)
  then show ?thesis
    by (simp add: notify_parse_def act_bind_def act_result_def act_return_def parse_root_def config_kind_def parse_target_def target_arn_def
        child_text_def el_child_def arn event_names_def children_named_def word words starts_with_def nonempty_def no_targets_def sample_target_def)
qed

theorem s3_event_arrives_witness:
  "\<exists>x db. receive_tx (s3_ex (reading sample_notify_events)) (sample_read False) (sample_opts 10) 9
       (sns_queues (ss_app (notify_fire (reading sample_notify_events) no_others sample_event 9 sample_watched))) = (Inr [x], db)
     \<and> rm_body x = ''e''"
proof -
  let ?H = "reading sample_notify_events" and ?in = "\<lparr> si_body = ''e'', si_delay_seconds = None, si_attributes = [],
     si_system_attributes = [], si_group_id = None, si_dedup_id = None \<rparr>"
  have ex: "s3_ex ?H = sample_ext\<lparr> json_print := (\<lambda>_. ''e'') \<rparr>" by (simp add: reading_def)
  have env: "sqs_env (s3_ex ?H)"
    using sample_env by (simp add: ex sqs_env_def uuids_fresh_def b64url_roundtrip_def b64url_head_def)
  have queues: "sns_queues (ss_app sample_watched) = sample_empty" by (simp add: sample_watched_def)
  have ok: "sqs_ok (s3_ex ?H) sample_empty" using sample_empty_ok(1) by (simp add: sqs_ok_def messages_ok_def)
  have cfg: "get_config (en_bucket sample_event) ''notification'' (ss_db sample_watched) = Inr (Some ''x'')"
    by (simp add: get_config_def require_bucket_def sample_watched_def sample_event_def s3_sample_exists)
      (simp add: config_get_def s3_sample_db_def)
  have match: "target_matches sample_target ''ObjectCreated:Put'' ''k''"
    by (simp add: target_matches_def sample_target_def target_prefix_def target_suffix_def target_rule_def strip_suffix_def ends_with_def
        starts_with_def)
  have get: "get_queue (s3_ex ?H) (queue_arn ''jobs'') sample_empty = Inr (sample_read False)"
  proof -
    have "queue_from_row (s3_ex ?H) = queue_from_row sample_ext" by (rule ext) (simp add: ex queue_from_row_def Let_def)
    then show ?thesis using sample_get_queue by (simp add: get_queue_def Let_def require_queue_def find_queue_def split: if_splits)
  qed
  have chk: "send_check (sample_read False) ?in = Inr 0"
    unfolding send_check_def sample_attrs sample_fifo
    by (simp add: utf8_chars_def utf8_pieces.simps utf8_step_def code_point_def valid_body_char_def
        MAX_ATTRIBUTES_def message_size_def attrs_size_def)
  have rd: "redrive (s3_ex ?H) (sample_read False) = None" by (simp add: redrive_def sample_read_def)
  have rec: "event_record ?H ev i now = ''e''" for ev i now by (simp add: event_record_def ex)
  show ?thesis
    using s3_event_arrives[OF env _ cfg sample_notify_parse, where t = sample_target and others = no_others and q = "sample_read False"
        and input = ?in and delay = 0 and now = 9 and now' = 9 and opts = "sample_opts 10"]
    by (simp add: queues ok get chk rd rec no_others_quiet sample_event_def match) (simp add: sample_target_def sample_opts_def get)
qed

end
