(* ===== verification/Crc32c.thy ===== *)
theory Crc32c
  imports Rust_Strings "HOL-Library.Word"
begin

unbundle bit_operations_syntax

text \<open>
  CRC-32C, the checksum of Cloud Storage objects (\<open>crc32c\<close> in src/src/gcp/storage/models.rs): the
  code's table of the 256 byte values against the division of polynomials over two elements by the
  Castagnoli generator, which defines CRC-32C, and what the checksum detects.
\<close>

subsection \<open>The code\<close>

text \<open>One round of the loop that fills the table.\<close>

definition crc_step :: "32 word \<Rightarrow> 32 word" where
  "crc_step c = (if c AND 1 \<noteq> 0 then drop_bit 1 c XOR 0x82F63B78 else drop_bit 1 c)"

definition crc_table :: "32 word list" where
  "crc_table = map (\<lambda>i. (crc_step ^^ 8) (of_nat i)) [0..<256]"

definition crc_byte :: "32 word \<Rightarrow> char \<Rightarrow> 32 word" where
  "crc_byte crc b = crc_table ! unat ((crc XOR of_nat (code_of b)) AND 0xff) XOR drop_bit 8 crc"

definition crc32c :: "string \<Rightarrow> 32 word" where
  "crc32c data = NOT (foldl crc_byte (NOT 0) data)"

subsection \<open>Bit by bit\<close>

text \<open>Division by the polynomial, one bit at a time: the byte enters at the low end, then eight steps.\<close>

definition crc_shift :: "32 word \<Rightarrow> char \<Rightarrow> 32 word" where
  "crc_shift crc b = (crc_step ^^ 8) (crc XOR of_nat (code_of b))"

lemma low_bit: "c AND 1 \<noteq> 0 \<longleftrightarrow> bit c 0" for c :: "32 word"
  by (simp add: bit_0 and_one_eq odd_iff_mod_2_eq_one)

lemma crc_step_bit: "crc_step c = drop_bit 1 c XOR (if bit c 0 then 0x82F63B78 else 0)"
  by (simp add: crc_step_def low_bit)

lemma crc_step_xor: "crc_step (x XOR y) = crc_step x XOR crc_step y"
  by (rule bit_word_eqI) (auto simp: crc_step_bit bit_simps)

lemma crc_steps_xor: "(crc_step ^^ n) (x XOR y) = (crc_step ^^ n) x XOR (crc_step ^^ n) y"
  by (induction n) (simp_all add: crc_step_xor)

text \<open>A step can be undone: the top bit tells whether the polynomial was added.\<close>

lemma crc_step_top: "bit (crc_step c) 31 \<longleftrightarrow> bit c 0"
  using bit_imp_le_length[of c 32] by (auto simp: crc_step_bit bit_simps)

lemma xor_cancel: "x XOR z = y XOR z \<longleftrightarrow> x = y" for x :: "32 word"
  by (metis xor.assoc xor.right_neutral xor_self_eq)

lemma xor_cancel_left: "z XOR x = z XOR y \<longleftrightarrow> x = y" for x :: "32 word"
  by (metis xor.commute xor_cancel)

lemma crc_step_inj: "crc_step x = crc_step y \<Longrightarrow> x = y"
proof -
  assume e: "crc_step x = crc_step y"
  have low: "bit x 0 \<longleftrightarrow> bit y 0" using arg_cong[OF e, of "\<lambda>w. bit w 31"] by (simp add: crc_step_top)
  have "drop_bit 1 x = drop_bit 1 y"
    using e low by (simp add: crc_step_bit xor_cancel split: if_splits)
  moreover have "bit w (Suc n) \<longleftrightarrow> bit (drop_bit 1 w) n" for w :: "32 word" and n by (simp add: bit_drop_bit_eq)
  ultimately have high: "bit x (Suc n) \<longleftrightarrow> bit y (Suc n)" for n by (simp only:)
  show "x = y"
  proof (rule bit_word_eqI)
    fix n show "bit x n \<longleftrightarrow> bit y n" using low high by (cases n) auto
  qed
qed

lemma crc_steps_inj: "(crc_step ^^ n) x = (crc_step ^^ n) y \<Longrightarrow> x = y"
  by (induction n) (auto dest: crc_step_inj)

text \<open>Steps on a word whose low bits are clear only shift.\<close>

lemma crc_steps_shift: "(\<And>i. i < n \<Longrightarrow> \<not> bit c i) \<Longrightarrow> (crc_step ^^ n) c = drop_bit n c"
proof (induction n)
  case (Suc n)
  then have "(crc_step ^^ Suc n) c = crc_step (drop_bit n c)" by simp
  also have "\<dots> = drop_bit 1 (drop_bit n c)" using Suc.prems[of n] by (simp add: crc_step_bit bit_simps)
  finally show ?case by simp
qed simp

lemma code_bit: "8 \<le> n \<Longrightarrow> \<not> bit (code_of b) n"
proof -
  assume n: "8 \<le> n"
  have "take_bit 8 (code_of b) = code_of b" by (rule take_bit_nat_eq_self) simp
  then show "\<not> bit (code_of b) n" using n by (metis bit_take_bit_iff not_le)
qed

lemma crc_byte_shift: "crc_byte crc b = crc_shift crc b"
proof -
  let ?c = "crc XOR of_nat (code_of b) :: 32 word"
  let ?low = "?c AND 0xff" and ?high = "?c AND NOT 0xff"
  have ff: "(0xff :: 32 word) = mask 8" by (simp add: mask_eq_exp_minus_1)
  have split: "?c = ?low XOR ?high" by (rule bit_word_eqI) (auto simp: bit_simps)
  have "?low = take_bit 8 ?c" by (simp add: ff take_bit_eq_mask)
  then have "unat ?low < 256" using unsigned_take_bit_eq[of 8 ?c] by (simp add: take_bit_eq_mod unat_mod)
  then have "crc_table ! unat ?low = (crc_step ^^ 8) ?low" by (simp add: crc_table_def)
  moreover have "(crc_step ^^ 8) ?high = drop_bit 8 ?high"
    by (rule crc_steps_shift) (auto simp: ff bit_simps)
  moreover have "drop_bit 8 ?high = drop_bit 8 crc"
    by (rule bit_word_eqI) (auto simp: ff bit_simps code_bit dest: bit_imp_le_length)
  ultimately show ?thesis
    unfolding crc_byte_def crc_shift_def by (metis split crc_steps_xor)
qed

text \<open>The first byte of a block ends up lowest: up to four bytes enter as one word.\<close>

fun crc_pack :: "string \<Rightarrow> 32 word" where
  "crc_pack [] = 0"
| "crc_pack (b # bs) = of_nat (code_of b) XOR push_bit 8 (crc_pack bs)"

lemma crc_pack_bits: "8 * length bs \<le> n \<Longrightarrow> \<not> bit (crc_pack bs) n"
  by (induction bs arbitrary: n) (auto simp: bit_simps code_bit)

lemma crc_pack_inj: "length as = length bs \<Longrightarrow> length as \<le> 4 \<Longrightarrow> crc_pack as = crc_pack bs \<Longrightarrow> as = bs"
proof (induction as bs rule: list_induct2)
  case (Cons a as b bs)
  have bits: "bit (crc_pack (a # as)) n \<longleftrightarrow> bit (crc_pack (b # bs)) n" for n using Cons.prems(2) by simp
  have "bit (code_of a) n \<longleftrightarrow> bit (code_of b) n" for n
  proof (cases "n < 8")
    case True
    with bits[of n] show ?thesis by (simp add: bit_simps)
  qed (simp add: code_bit)
  then have "code_of a = code_of b" by (simp add: bit_eq_iff)
  then have ab: "a = b" by simp
  have "bit (crc_pack as) n \<longleftrightarrow> bit (crc_pack bs) n" for n
  proof (cases "n < 24")
    case True
    with bits[of "n + 8"] ab show ?thesis by (simp add: bit_simps code_bit)
  next
    case False
    then show ?thesis using Cons.prems(1) Cons.hyps by (simp add: crc_pack_bits)
  qed
  then have "crc_pack as = crc_pack bs" by (simp add: bit_eq_iff)
  with Cons.IH Cons.prems(1) ab show ?case by simp
qed simp

lemma crc_block: "length bs \<le> 4 \<Longrightarrow> foldl crc_shift c bs = (crc_step ^^ (8 * length bs)) (c XOR crc_pack bs)"
proof (induction bs arbitrary: c)
  case (Cons b bs)
  let ?p = "crc_pack bs"
  have "(crc_step ^^ 8) (push_bit 8 ?p) = drop_bit 8 (push_bit 8 ?p)"
    by (rule crc_steps_shift) (simp add: bit_simps)
  also have "\<dots> = ?p"
  proof (rule bit_word_eqI)
    fix n
    have "bit ?p n \<Longrightarrow> n < 24" using crc_pack_bits[of bs n] Cons.prems by (cases "n < 24") auto
    then show "bit (drop_bit 8 (push_bit 8 ?p)) n \<longleftrightarrow> bit ?p n" by (auto simp: bit_simps)
  qed
  finally have p: "(crc_step ^^ 8) (push_bit 8 ?p) = ?p" .
  have "foldl crc_shift c (b # bs) = (crc_step ^^ (8 * length bs)) (crc_shift c b XOR ?p)"
    using Cons by simp
  also have "crc_shift c b XOR ?p = (crc_step ^^ 8) (c XOR crc_pack (b # bs))"
  proof -
    have "crc_shift c b XOR ?p = (crc_step ^^ 8) (c XOR of_nat (code_of b)) XOR (crc_step ^^ 8) (push_bit 8 ?p)"
      unfolding crc_shift_def p ..
    then show ?thesis by (simp add: crc_steps_xor[symmetric] xor.assoc)
  qed
  finally show ?case by (simp add: funpow_add[symmetric, THEN fun_cong, unfolded comp_def] add.commute)
qed simp

lemma crc_shift_inj: "foldl crc_shift c bs = foldl crc_shift d bs \<Longrightarrow> c = d"
proof (induction bs arbitrary: c d)
  case (Cons b bs)
  then have "crc_shift c b = crc_shift d b" by simp
  then show ?case by (auto simp: crc_shift_def xor_cancel dest: crc_steps_inj)
qed simp

lemma crc32c_bits: "crc32c data = NOT (foldl crc_shift (NOT 0) data)"
  by (simp add: crc32c_def crc_byte_shift[abs_def])

subsection \<open>CRC-32C\<close>

text \<open>The checksum as its standard (RFC 3720, appendix B.4) has it, without reference to the code: the message is a
  polynomial over the field of two elements, the first bit (the lowest of the first byte) its highest
  coefficient; its first 32 coefficients are complemented, it is multiplied by \<open>x ^ 32\<close> and divided by
  Castagnoli's generator; the checksum is the complement of the remainder, the coefficient of \<open>x ^ 31\<close> in the
  lowest bit.\<close>

definition castagnoli :: "nat set" where
  "castagnoli = {32, 28, 27, 26, 25, 23, 22, 20, 19, 18, 14, 13, 11, 10, 9, 8, 6, 0}"

text \<open>The coefficients below \<open>x ^ 32\<close>, highest first.\<close>

definition generator_tail :: "bool list" where
  "generator_tail = map (\<lambda>k. k \<in> castagnoli) (rev [0..<32])"

text \<open>A polynomial is the list of its coefficients, highest first; the first is added at the front of the second.\<close>

fun add_front :: "bool list \<Rightarrow> bool list \<Rightarrow> bool list" where
  "add_front [] ys = ys"
| "add_front (x # xs) [] = x # xs"
| "add_front (x # xs) (y # ys) = (x \<noteq> y) # add_front xs ys"

lemma length_add_front [simp]: "length (add_front xs ys) = max (length xs) (length ys)"
  by (induction xs ys rule: add_front.induct) auto

text \<open>Long division: as long as the degree is at least 32, the generator is subtracted from the front when the
  highest coefficient is one.\<close>

function poly_rem :: "bool list \<Rightarrow> bool list" where
  "poly_rem p =
     (if length p \<le> 32 then p
      else if hd p then poly_rem (add_front generator_tail (tl p)) else poly_rem (tl p))"
  by pat_completeness auto
termination
  by (relation "measure length") (auto simp: generator_tail_def)

declare poly_rem.simps [simp del]

definition message_bits :: "string \<Rightarrow> bool list" where
  "message_bits data = concat (map (\<lambda>c. map (bit (code_of c)) [0..<8]) data)"

definition crc32c_division :: "string \<Rightarrow> 32 word" where
  "crc32c_division data = horner_sum of_bool 2
     (map Not (poly_rem (add_front (replicate 32 True) (message_bits data @ replicate 32 False))))"

text \<open>The code's word as a list of coefficients.\<close>

definition reg :: "32 word \<Rightarrow> bool list" where
  "reg c = map (bit c) [0..<32]"

lemma length_reg [simp]: "length (reg c) = 32" "length generator_tail = 32"
  by (simp_all add: reg_def generator_tail_def)

lemma reg_nth: "i < 32 \<Longrightarrow> reg c ! i \<longleftrightarrow> bit c i"
  by (simp add: reg_def)

lemma generator_bits: "i < 32 \<Longrightarrow> generator_tail ! i \<longleftrightarrow> bit (0x82F63B78 :: 32 word) i"
proof -
  have "list_all (\<lambda>i. generator_tail ! i = bit (0x82F63B78 :: 32 word) i) [0..<32]" by code_simp
  then show "i < 32 \<Longrightarrow> generator_tail ! i \<longleftrightarrow> bit (0x82F63B78 :: 32 word) i" by (simp add: list_all_iff)
qed

lemma reg_step:
  "reg (crc_step (c XOR of_bool b)) =
     (if bit c 0 \<noteq> b then map2 (\<noteq>) generator_tail (tl (reg c) @ [False]) else tl (reg c) @ [False])"
proof -
  have shifted: "(tl (reg c) @ [False]) ! i \<longleftrightarrow> bit c (Suc i)" if "i < 32" for i
  proof (cases "i < 31")
    case False
    with that have "i = 31" by simp
    with bit_imp_le_length[of c 32] show ?thesis by (auto simp: reg_def nth_append)
  qed (simp add: reg_def nth_append nth_tl)
  show ?thesis
    by (rule nth_equalityI)
       (auto simp: shifted generator_bits reg_nth crc_step_bit bit_simps simp del: bit_numeral_simps split: if_splits)
qed

lemma add_front_pad: "length xs < length ys \<Longrightarrow> add_front (xs @ [False]) ys = add_front xs ys"
  by (induction xs ys rule: add_front.induct) (auto simp: neq_Nil_conv)

lemma add_front_add: "length xs = length ys \<Longrightarrow> length ys \<le> length zs \<Longrightarrow>
    add_front xs (add_front ys zs) = add_front (map2 (\<noteq>) xs ys) zs"
proof (induction xs ys arbitrary: zs rule: list_induct2)
  case (Cons x xs y ys)
  then show ?case by (cases zs) auto
qed simp

lemma add_front_zeros: "add_front xs (replicate (length xs) False) = xs"
  by (induction xs) auto

lemma reg_Cons: "reg c = bit c 0 # tl (reg c)"
  by (simp add: reg_def upt_rec)

lemma poly_rem_bits:
  "poly_rem (add_front (reg c) (bs @ replicate 32 False)) = reg (foldl (\<lambda>c b. crc_step (c XOR of_bool b)) c bs)"
proof (induction bs arbitrary: c)
  case Nil
  have "add_front (reg c) (replicate 32 False) = reg c" using add_front_zeros[of "reg c"] by simp
  then show ?case by (simp add: poly_rem.simps)
next
  case (Cons b bs)
  let ?rest = "bs @ replicate 32 False"
  have front: "add_front (reg c) ((b # bs) @ replicate 32 False) = (bit c 0 \<noteq> b) # add_front (tl (reg c)) ?rest"
    by (subst reg_Cons) simp
  have pad: "add_front (tl (reg c)) ?rest = add_front (tl (reg c) @ [False]) ?rest"
    by (rule add_front_pad[symmetric]) simp
  have "poly_rem (add_front (reg c) ((b # bs) @ replicate 32 False)) = poly_rem (add_front (reg (crc_step (c XOR of_bool b))) ?rest)"
    unfolding front by (subst poly_rem.simps) (simp add: pad reg_step add_front_add)
  with Cons.IH show ?case by simp
qed

text \<open>A byte enters the code's word at once, its bits the division one by one.\<close>

lemma crc_steps_bits:
  "(\<And>k. n \<le> k \<Longrightarrow> \<not> bit w k) \<Longrightarrow>
     (crc_step ^^ n) (c XOR w) = foldl (\<lambda>c b. crc_step (c XOR of_bool b)) c (map (bit w) [0..<n])"
proof (induction n arbitrary: c w)
  case 0
  then have "w = 0" by (auto intro: bit_word_eqI)
  then show ?case by simp
next
  case (Suc n)
  let ?w = "drop_bit 1 w"
  have w: "c XOR w = (c XOR of_bool (bit w 0)) XOR push_bit 1 ?w"
  proof (rule bit_word_eqI)
    fix k
    show "bit (c XOR w) k \<longleftrightarrow> bit ((c XOR of_bool (bit w 0)) XOR push_bit 1 ?w) k"
      by (cases k) (auto simp: bit_simps simp del: push_bit_of_Suc_0 push_bit_Suc push_bit_numeral dest: bit_imp_le_length)
  qed
  have "crc_step (push_bit 1 ?w) = ?w"
    by (rule bit_word_eqI)
       (auto simp: crc_step_bit bit_simps simp del: push_bit_of_Suc_0 push_bit_Suc push_bit_numeral dest: bit_imp_le_length)
  then have "(crc_step ^^ Suc n) (c XOR w) = (crc_step ^^ n) (crc_step (c XOR of_bool (bit w 0)) XOR ?w)"
    by (simp add: funpow_swap1 w crc_step_xor)
  also have "\<dots> = foldl (\<lambda>c b. crc_step (c XOR of_bool b)) (crc_step (c XOR of_bool (bit w 0))) (map (bit ?w) [0..<n])"
    by (rule Suc.IH) (simp add: Suc.prems bit_drop_bit_eq)
  also have "map (bit w) [0..<Suc n] = bit w 0 # map (bit ?w) [0..<n]"
    by (simp add: upt_conv_Cons map_Suc_upt[symmetric] bit_drop_bit_eq del: upt_Suc)
  ultimately show ?case by simp
qed

lemma crc_shift_bits: "foldl crc_shift c data = foldl (\<lambda>c b. crc_step (c XOR of_bool b)) c (message_bits data)"
proof (induction data arbitrary: c)
  case (Cons a data)
  have "crc_shift c a = foldl (\<lambda>c b. crc_step (c XOR of_bool b)) c (map (bit (of_nat (code_of a) :: 32 word)) [0..<8])"
    unfolding crc_shift_def by (rule crc_steps_bits) (auto simp: bit_simps code_bit)
  also have "map (bit (of_nat (code_of a) :: 32 word)) [0..<8] = map (bit (code_of a)) [0..<8]"
    by (simp add: bit_simps)
  finally show ?case using Cons by (simp add: message_bits_def)
qed (simp add: message_bits_def)

lemma reg_word: "horner_sum of_bool 2 (map Not (reg c)) = NOT c"
  by (rule bit_word_eqI) (auto simp: bit_horner_sum_bit_iff reg_def bit_simps)

lemma crc32c_spec: "crc32c data = crc32c_division data"
proof -
  have "replicate 32 True = reg (NOT 0)"
    by (rule nth_equalityI) (simp_all add: reg_def bit_simps)
  then show ?thesis
    unfolding crc32c_division_def by (simp add: poly_rem_bits reg_word crc32c_bits crc_shift_bits)
qed

text \<open>C36: the checksum of Cloud Storage objects.  The table-driven code computes CRC-32C, the division of the
  message by Castagnoli's generator as the standard defines it, for every content, and the checksum detects
  every corruption of at most four consecutive bytes.\<close>

theorem gcs_crc32c:
  assumes "length as = length bs" "length as \<le> 4" "as \<noteq> bs"
  shows "crc32c (pre @ as @ post) = crc32c_division (pre @ as @ post)
    \<and> crc32c (pre @ as @ post) \<noteq> crc32c (pre @ bs @ post)"
proof -
  let ?c = "foldl crc_shift (NOT 0) pre"
  have "foldl crc_shift ?c as \<noteq> foldl crc_shift ?c bs"
    using assms crc_pack_inj[of as bs] by (auto simp: crc_block xor_cancel_left dest!: crc_steps_inj)
  then have "crc32c (pre @ as @ post) \<noteq> crc32c (pre @ bs @ post)"
    unfolding crc32c_bits by (auto dest!: crc_shift_inj)
  with crc32c_spec show ?thesis by blast
qed

text \<open>The check value of CRC-32C, the checksum of the digits.\<close>

theorem gcs_crc32c_witness:
  "crc32c ''123456789'' = 0xE3069283 \<and> crc32c ''123456789'' \<noteq> crc32c ''12E456789''"
proof -
  have "length ''3'' = length ''E''" "length ''3'' \<le> 4" "''3'' \<noteq> ''E''" by simp_all
  from gcs_crc32c[OF this, of "''12''" "''456789''", unfolded append.simps]
  have "crc32c ''123456789'' = crc32c_division ''123456789'' \<and> crc32c ''123456789'' \<noteq> crc32c ''12E456789''" .
  moreover have "crc32c_division ''123456789'' = 0xE3069283" by code_simp
  ultimately show ?thesis by metis
qed

end
