(* ===== verification/Gcs.thy ===== *)
theory Gcs
  imports Http Crc32c
begin

text \<open>
  Google Cloud Storage, part 1: buckets and objects (service.rs and models.rs of src/src/gcp/storage).

  Every operation is one call to the database.  \<open>X\<close> holds what is computed outside the repository,
  beside \<open>externals\<close>: reading and printing time stamps, upper case by the Unicode tables, the bytes of
  MD5, and percent-encoding.  Times are microseconds.  A row keeps its properties as the JSON text the
  code stores.  Names hold no NUL, where SQLite's \<open>length\<close> stops.
\<close>

record gcs_env =
  gx_ext :: externals
  gx_project :: string
  parse_micros :: "string \<Rightarrow> int option"   \<comment> \<open>DateTime::parse_from_rfc3339, timestamp_micros\<close>
  format_millis :: "string \<Rightarrow> string option"   \<comment> \<open>a parsed RFC 3339 text printed in UTC with milliseconds\<close>
  to_uppercase :: "string \<Rightarrow> string"
  md5_bytes :: "string \<Rightarrow> string"
  encode_name :: "string \<Rightarrow> string"   \<comment> \<open>utf8_percent_encode of a path segment\<close>

subsection \<open>Data\<close>

datatype gcs_error =
    BucketNotFound string
  | BucketExists string
  | BucketNotEmpty string
  | ObjectNotFound string string
  | GcsPrecondition string
  | GcsInternal string

type_synonym ('s, 'a) gcs_act = "('s, gcs_error, 'a) action"

record gcs_bucket =
  gb_name :: string
  gb_project :: string
  gb_location :: string
  gb_created_at :: string

record gcs_object =
  go_bucket :: string
  go_name :: string
  go_content :: string
  go_type :: string
  go_size :: int
  go_etag :: string
  go_created_at :: string
  go_props :: json

text \<open>A row of \<open>gcs_objects\<close>: an object whose properties are text.\<close>

record gcs_row =
  gr_bucket :: string
  gr_name :: string
  gr_content :: string
  gr_type :: string
  gr_size :: int
  gr_etag :: string
  gr_created_at :: string
  gr_props :: string

record gcs_db =
  gcs_buckets :: "gcs_bucket list"
  gcs_objects :: "gcs_row list"

definition gcs_init :: gcs_db where
  "gcs_init = \<lparr> gcs_buckets = [], gcs_objects = [] \<rparr>"

definition OBJECT_PROPS :: "string list" where
  "OBJECT_PROPS = [''metadata'', ''cacheControl'', ''contentEncoding'', ''contentDisposition'', ''contentLanguage'', ''customTime'']"

definition generation :: "gcs_env \<Rightarrow> gcs_object \<Rightarrow> int" where
  "generation X ob = (case parse_micros X (go_created_at ob) of Some t \<Rightarrow> t | None \<Rightarrow> 1)"

definition md5_b64 :: "gcs_env \<Rightarrow> gcs_object \<Rightarrow> string" where
  "md5_b64 X ob = b64_encode (gx_ext X) (md5_bytes X (go_content ob))"

definition be_bytes :: "32 word \<Rightarrow> string" where
  "be_bytes w = map (\<lambda>i. char_of (unat (drop_bit i w AND 0xff))) [24, 16, 8, 0]"

definition crc32c_b64 :: "gcs_env \<Rightarrow> gcs_object \<Rightarrow> string" where
  "crc32c_b64 X ob = b64_encode (gx_ext X) (be_bytes (crc32c (go_content ob)))"

definition now_ts :: "gcs_env \<Rightarrow> int \<Rightarrow> string" where
  "now_ts X now = rfc3339_micros (gx_ext X) now"

definition gcs_rfc3339_z :: "gcs_env \<Rightarrow> string \<Rightarrow> string" where
  "gcs_rfc3339_z X ts = (case format_millis X ts of Some t \<Rightarrow> t | None \<Rightarrow> ts)"

definition row_to_object :: "gcs_env \<Rightarrow> gcs_row \<Rightarrow> gcs_object" where
  "row_to_object X r = \<lparr> go_bucket = gr_bucket r, go_name = gr_name r, go_content = gr_content r, go_type = gr_type r,
     go_size = gr_size r, go_etag = gr_etag r, go_created_at = gr_created_at r,
     go_props = (case json_parse (gx_ext X) (gr_props r) of Some v \<Rightarrow> v | None \<Rightarrow> JObj []) \<rparr>"

definition gcs_row_is :: "string \<Rightarrow> string \<Rightarrow> gcs_row \<Rightarrow> bool" where
  "gcs_row_is b n r \<longleftrightarrow> gr_bucket r = b \<and> gr_name r = n"

definition gcs_bucket_exists :: "string \<Rightarrow> gcs_db \<Rightarrow> bool" where
  "gcs_bucket_exists name db = list_ex (\<lambda>r. gb_name r = name) (gcs_buckets db)"

definition load_object :: "gcs_env \<Rightarrow> string \<Rightarrow> string \<Rightarrow> gcs_db \<Rightarrow> gcs_object option" where
  "load_object X b n db = map_option (row_to_object X) (find (gcs_row_is b n) (gcs_objects db))"

text \<open>An \<open>ifGenerationMatch\<close> precondition; 0 asks that there is no object.\<close>

definition check_generation :: "gcs_env \<Rightarrow> gcs_object option \<Rightarrow> int option \<Rightarrow> string \<Rightarrow> (gcs_error, unit) result" where
  "check_generation X existing want what = (case want of
     None \<Rightarrow> Inr ()
   | Some g \<Rightarrow>
       if g = 0 \<and> existing = None then Inr ()
       else if map_option (generation X) existing = Some g then Inr ()
       else Inl (GcsPrecondition what))"

subsection \<open>Buckets\<close>

definition gcs_create_bucket :: "gcs_env \<Rightarrow> string \<Rightarrow> string option \<Rightarrow> int \<Rightarrow> (gcs_db, gcs_bucket) gcs_act" where
  "gcs_create_bucket X name location now = (\<lambda>db.
     let b = \<lparr> gb_name = name, gb_project = gx_project X,
               gb_location = to_uppercase X (case location of Some l \<Rightarrow> l | None \<Rightarrow> ''US''), gb_created_at = now_ts X now \<rparr>
     in if gcs_bucket_exists name db then (Inl (BucketExists name), db)
        else (Inr b, db\<lparr> gcs_buckets := gcs_buckets db @ [b] \<rparr>))"

definition gcs_list_buckets :: "gcs_env \<Rightarrow> gcs_db \<Rightarrow> gcs_bucket list" where
  "gcs_list_buckets X db = sort_key gb_name (filter (\<lambda>b. gb_project b = gx_project X) (gcs_buckets db))"

definition gcs_get_bucket :: "string \<Rightarrow> gcs_db \<Rightarrow> (gcs_error, gcs_bucket) result" where
  "gcs_get_bucket name db =
     (case find (\<lambda>r. gb_name r = name) (gcs_buckets db) of Some b \<Rightarrow> Inr b | None \<Rightarrow> Inl (BucketNotFound name))"

definition gcs_delete_bucket :: "string \<Rightarrow> (gcs_db, unit) gcs_act" where
  "gcs_delete_bucket name = (\<lambda>db.
     if \<not> gcs_bucket_exists name db then (Inl (BucketNotFound name), db)
     else if 0 < sql_count (\<lambda>r. gr_bucket r = name) (gcs_objects db) then (Inl (BucketNotEmpty name), db)
     else (Inr (), db\<lparr> gcs_buckets := sql_delete (\<lambda>r. gb_name r = name) (gcs_buckets db) \<rparr>))"

subsection \<open>Objects\<close>

definition new_gcs_object :: "gcs_env \<Rightarrow> string \<Rightarrow> string \<Rightarrow> string \<Rightarrow> string \<Rightarrow> json \<Rightarrow> int \<Rightarrow> gcs_object" where
  "new_gcs_object X b n content ctype props now =
     \<lparr> go_bucket = b, go_name = n, go_content = content, go_type = ctype, go_size = int (length content),
       go_etag = md5_raw (gx_ext X) content, go_created_at = now_ts X now, go_props = props \<rparr>"

definition object_to_row :: "gcs_env \<Rightarrow> gcs_object \<Rightarrow> gcs_row" where
  "object_to_row X ob = \<lparr> gr_bucket = go_bucket ob, gr_name = go_name ob, gr_content = go_content ob, gr_type = go_type ob,
     gr_size = go_size ob, gr_etag = go_etag ob, gr_created_at = go_created_at ob,
     gr_props = json_print (gx_ext X) (go_props ob) \<rparr>"

definition gcs_upsert :: "gcs_row \<Rightarrow> gcs_row list \<Rightarrow> gcs_row list" where
  "gcs_upsert r rows =
     (if list_ex (gcs_row_is (gr_bucket r) (gr_name r)) rows then sql_update (gcs_row_is (gr_bucket r) (gr_name r)) (\<lambda>_. r) rows
      else rows @ [r])"

definition gcs_upload_object ::
    "gcs_env \<Rightarrow> string \<Rightarrow> string \<Rightarrow> string \<Rightarrow> string \<Rightarrow> json \<Rightarrow> int option \<Rightarrow> int \<Rightarrow> (gcs_db, gcs_object) gcs_act" where
  "gcs_upload_object X b n content ctype props if_gen now = (\<lambda>db.
     let obj = new_gcs_object X b n content ctype props now in
     if \<not> gcs_bucket_exists b db then (Inl (BucketNotFound b), db)
     else (case check_generation X (load_object X b n db) if_gen n of
         Inl e \<Rightarrow> (Inl e, db)
       | Inr _ \<Rightarrow> (Inr obj, db\<lparr> gcs_objects := gcs_upsert (object_to_row X obj) (gcs_objects db) \<rparr>)))"

definition gcs_get_object :: "gcs_env \<Rightarrow> string \<Rightarrow> string \<Rightarrow> gcs_db \<Rightarrow> (gcs_error, gcs_object) result" where
  "gcs_get_object X b n db =
     (if \<not> gcs_bucket_exists b db then Inl (BucketNotFound b)
      else (case load_object X b n db of Some ob \<Rightarrow> Inr ob | None \<Rightarrow> Inl (ObjectNotFound b n)))"

text \<open>The properties of a metadata document that are stored; a null removes one.\<close>

definition merge_metadata :: "(string \<times> json) list \<Rightarrow> (string \<times> json) list \<Rightarrow> (string \<times> json) list" where
  "merge_metadata updates m = fold (\<lambda>(k, v). if v = JNull then bt_remove k else bt_insert k v) updates m"

definition merge_prop :: "json \<Rightarrow> string \<Rightarrow> (string \<times> json) list \<Rightarrow> (string \<times> json) list" where
  "merge_prop patch key target = (case json_get key patch of
     None \<Rightarrow> target
   | Some v \<Rightarrow>
       if key = ''metadata'' then
         let meta = (case bt_get target ''metadata'' of Some m \<Rightarrow> m | None \<Rightarrow> JObj []);
             target = bt_insert ''metadata'' meta target
         in (case (as_object meta, as_object v) of
               (Some m, Some updates) \<Rightarrow> bt_insert ''metadata'' (JObj (merge_metadata updates m)) target
             | _ \<Rightarrow> if v = JNull then bt_remove ''metadata'' target else target)
       else if v = JNull then bt_remove key target
       else bt_insert key v target)"

definition merge_props :: "json \<Rightarrow> json \<Rightarrow> json" where
  "merge_props props patch = JObj (fold (merge_prop patch) OBJECT_PROPS (case as_object props of Some m \<Rightarrow> m | None \<Rightarrow> []))"

definition gcs_patch_object :: "gcs_env \<Rightarrow> string \<Rightarrow> string \<Rightarrow> json \<Rightarrow> (gcs_db, gcs_object) gcs_act" where
  "gcs_patch_object X b n patch = (\<lambda>db.
     if \<not> gcs_bucket_exists b db then (Inl (BucketNotFound b), db)
     else (case load_object X b n db of
         None \<Rightarrow> (Inl (ObjectNotFound b n), db)
       | Some ob \<Rightarrow>
           let ctype = (case json_str ''contentType'' patch of Some ct \<Rightarrow> ct | None \<Rightarrow> go_type ob);
               obj = ob\<lparr> go_type := ctype, go_props := merge_props (go_props ob) patch \<rparr>
           in (Inr obj, db\<lparr> gcs_objects := sql_update (gcs_row_is b n)
                (\<lambda>r. r\<lparr> gr_type := ctype, gr_props := json_print (gx_ext X) (go_props obj) \<rparr>) (gcs_objects db) \<rparr>)))"

definition gcs_delete_object :: "gcs_env \<Rightarrow> string \<Rightarrow> string \<Rightarrow> int option \<Rightarrow> (gcs_db, unit) gcs_act" where
  "gcs_delete_object X b n if_gen = (\<lambda>db.
     if \<not> gcs_bucket_exists b db then (Inl (BucketNotFound b), db)
     else (case load_object X b n db of
         None \<Rightarrow> (Inl (ObjectNotFound b n), db)
       | Some ob \<Rightarrow> (case check_generation X (Some ob) if_gen n of
             Inl e \<Rightarrow> (Inl e, db)
           | Inr _ \<Rightarrow> (Inr (), db\<lparr> gcs_objects := sql_delete (gcs_row_is b n) (gcs_objects db) \<rparr>))))"

subsection \<open>Listing\<close>

record gcs_query =
  gq_prefix :: string
  gq_delimiter :: "string option"
  gq_start :: "string option"
  gq_end :: "string option"
  gq_max :: "nat option"
  gq_token :: "string option"

record gcs_listing =
  gl_items :: "gcs_object list"
  gl_prefixes :: "string list"
  gl_token :: "string option"

datatype gcs_entry = GItem gcs_object | GPrefix string

fun entry_key :: "gcs_entry \<Rightarrow> string" where
  "entry_key (GItem ob) = go_name ob"
| "entry_key (GPrefix p) = p"

definition gq_after :: "gcs_env \<Rightarrow> gcs_query \<Rightarrow> string option" where
  "gq_after X q = Option.bind (Option.bind (gq_token q) (b64url_decode (gx_ext X))) (\<lambda>v. if utf8_valid v then Some v else None)"

definition gq_delim :: "gcs_query \<Rightarrow> string option" where
  "gq_delim q = (case gq_delimiter q of Some d \<Rightarrow> if d \<noteq> [] then Some d else None | None \<Rightarrow> None)"

definition gcs_outside :: "gcs_query \<Rightarrow> string \<Rightarrow> bool" where
  "gcs_outside q name \<longleftrightarrow> (case gq_start q of Some s \<Rightarrow> name < s | None \<Rightarrow> False)
     \<or> (case gq_end q of Some e \<Rightarrow> e \<le> name | None \<Rightarrow> False)"

definition gcs_group :: "gcs_query \<Rightarrow> string \<Rightarrow> string option" where
  "gcs_group q name =
     (let rest = drop (length (gq_prefix q)) name in
      map_option (\<lambda>pos. gq_prefix q @ take pos rest)
        (Option.bind (gq_delim q) (\<lambda>d. map_option (\<lambda>p. p + length d) (str_find d rest))))"

text \<open>\<open>seen\<close> is the set of prefixes that have an entry.\<close>

fun gcs_entries :: "gcs_query \<Rightarrow> gcs_object list \<Rightarrow> string list \<Rightarrow> gcs_entry list" where
  "gcs_entries q [] seen = []"
| "gcs_entries q (ob # rows) seen =
     (if gcs_outside q (go_name ob) then gcs_entries q rows seen
      else case gcs_group q (go_name ob) of
          Some p \<Rightarrow> if p \<in> set seen then gcs_entries q rows seen else GPrefix p # gcs_entries q rows (p # seen)
        | None \<Rightarrow> GItem ob # gcs_entries q rows seen)"

definition gcs_max :: "gcs_query \<Rightarrow> nat" where
  "gcs_max q = (case gq_max q of Some m \<Rightarrow> if 0 < m then m else 1000 | None \<Rightarrow> 1000)"

definition gcs_paginate :: "gcs_env \<Rightarrow> gcs_object list \<Rightarrow> gcs_query \<Rightarrow> gcs_listing" where
  "gcs_paginate X rows q =
     (let remaining = filter (\<lambda>e. case gq_after X q of Some a \<Rightarrow> a < entry_key e | None \<Rightarrow> True) (gcs_entries q rows []);
          page = take (gcs_max q) remaining
      in \<lparr> gl_items = List.map_filter (\<lambda>e. case e of GItem ob \<Rightarrow> Some ob | GPrefix _ \<Rightarrow> None) page,
           gl_prefixes = List.map_filter (\<lambda>e. case e of GPrefix p \<Rightarrow> Some p | GItem _ \<Rightarrow> None) page,
           gl_token = (if gcs_max q < length remaining \<and> page \<noteq> []
                       then Some (b64url_encode (gx_ext X) (entry_key (last page))) else None) \<rparr>)"

definition gcs_list_objects :: "gcs_env \<Rightarrow> string \<Rightarrow> gcs_query \<Rightarrow> gcs_db \<Rightarrow> (gcs_error, gcs_listing) result" where
  "gcs_list_objects X b q db =
     (if \<not> gcs_bucket_exists b db then Inl (BucketNotFound b)
      else Inr (gcs_paginate X (map (row_to_object X)
        (sort_key gr_name (filter (\<lambda>r. gr_bucket r = b \<and> starts_with (gr_name r) (gq_prefix q)) (gcs_objects db)))) q))"

end
