(* ===== verification/Gcs_Handlers.thy ===== *)
theory Gcs_Handlers
  imports Gcs "HOL-Library.AList"
begin

text \<open>
  Google Cloud Storage, part 2: the JSON API (src/src/gcp/storage/handlers.rs).  \<open>gcs_route\<close> is the
  router; it takes the method, the route that axum matched with its decoded captures, and the request,
  and answers \<open>None\<close> where the route has no handler for the method.  The state is the tables, the
  resumable upload sessions in memory, the number of identifiers drawn and the telemetry events.
\<close>

record gcs_session =
  se_bucket :: string
  se_name :: string
  se_type :: string
  se_meta :: json
  se_if_gen :: "int option"
  se_data :: string

record gcs_state =
  gs_db :: gcs_db
  gs_sessions :: "(string \<times> gcs_session) list"
  gs_draws :: nat
  gs_events :: "event list"

type_synonym gcs_handler = "gcs_state \<Rightarrow> http_response \<times> gcs_state"

subsection \<open>Responses\<close>

definition base_url :: "web_request \<Rightarrow> string" where
  "base_url r =
     (case header_get ''x-forwarded-proto'' r of Some p \<Rightarrow> p | None \<Rightarrow> ''http'') @ ''://''
     @ (case header_get ''host'' r of Some h \<Rightarrow> h | None \<Rightarrow> ''localhost:4793'')"

definition bucket_to_json :: "gcs_env \<Rightarrow> gcs_bucket \<Rightarrow> string \<Rightarrow> json" where
  "bucket_to_json X b base =
     (let ts = JStr (gcs_rfc3339_z X (gb_created_at b)) in
      json_obj [(''kind'', JStr ''storage#bucket''), (''id'', JStr (gb_name b)),
        (''selfLink'', JStr (base @ ''/storage/v1/b/'' @ gb_name b)), (''name'', JStr (gb_name b)),
        (''projectNumber'', JStr ''000000000000''), (''metageneration'', JStr ''1''), (''location'', JStr (gb_location b)),
        (''locationType'', JStr ''multi-region''), (''storageClass'', JStr ''STANDARD''), (''etag'', JStr ''CAE=''),
        (''timeCreated'', ts), (''updated'', ts),
        (''iamConfiguration'', json_obj [(''uniformBucketLevelAccess'', json_obj [(''enabled'', JBool False)]),
           (''publicAccessPrevention'', JStr ''inherited'')])])"

definition object_to_json :: "gcs_env \<Rightarrow> gcs_object \<Rightarrow> string \<Rightarrow> json" where
  "object_to_json X ob base =
     (let g = show_int (generation X ob); enc = encode_name X (go_name ob); ts = JStr (gcs_rfc3339_z X (go_created_at ob));
          doc = bt_of_list [(''kind'', JStr ''storage#object''),
            (''id'', JStr (go_bucket ob @ ''/'' @ go_name ob @ ''/'' @ g)),
            (''selfLink'', JStr (base @ ''/storage/v1/b/'' @ go_bucket ob @ ''/o/'' @ enc)),
            (''mediaLink'', JStr (base @ ''/download/storage/v1/b/'' @ go_bucket ob @ ''/o/'' @ enc
               @ ''?generation='' @ g @ ''&alt=media'')),
            (''name'', JStr (go_name ob)), (''bucket'', JStr (go_bucket ob)), (''generation'', JStr g),
            (''metageneration'', JStr ''1''), (''contentType'', JStr (go_type ob)), (''storageClass'', JStr ''STANDARD''),
            (''size'', JStr (show_int (go_size ob))), (''md5Hash'', JStr (md5_b64 X ob)), (''crc32c'', JStr (crc32c_b64 X ob)),
            (''etag'', JStr (go_etag ob)), (''timeCreated'', ts), (''updated'', ts), (''timeStorageClassUpdated'', ts)]
      in JObj (case as_object (go_props ob) of
            None \<Rightarrow> doc
          | Some props \<Rightarrow> fold (\<lambda>key doc. case bt_get props key of Some p \<Rightarrow> bt_insert key p doc | None \<Rightarrow> doc) OBJECT_PROPS doc))"

definition gcs_error_json :: "gcs_env \<Rightarrow> nat \<Rightarrow> string \<Rightarrow> string \<Rightarrow> http_response" where
  "gcs_error_json X status reason message =
     (axum_json (gx_ext X) (json_obj [(''error'', json_obj [(''code'', JInt (int status)), (''message'', JStr message),
        (''errors'', JArr [json_obj [(''message'', JStr message), (''domain'', JStr ''global''), (''reason'', JStr reason)]])])]))
     \<lparr> http_status := status \<rparr>"

fun gcs_error_response :: "gcs_env \<Rightarrow> gcs_error \<Rightarrow> http_response" where
  "gcs_error_response X (BucketNotFound b) = gcs_error_json X 404 ''notFound'' (''The specified bucket does not exist: '' @ b)"
| "gcs_error_response X (ObjectNotFound b n) = gcs_error_json X 404 ''notFound'' (''No such object: '' @ b @ ''/'' @ n)"
| "gcs_error_response X (BucketExists b) = gcs_error_json X 409 ''conflict''
     (''Your previous request to create the named bucket succeeded and you already own it: '' @ b)"
| "gcs_error_response X (BucketNotEmpty b) = gcs_error_json X 409 ''conflict''
     (''The bucket you tried to delete is not empty: '' @ b)"
| "gcs_error_response X (GcsPrecondition n) = gcs_error_json X 412 ''conditionNotMet''
     (''At least one of the pre-conditions you specified did not hold: '' @ n)"
| "gcs_error_response X (GcsInternal m) = gcs_error_json X 500 ''backendError'' m"

definition gcs_json :: "gcs_env \<Rightarrow> json \<Rightarrow> http_response" where
  "gcs_json X v = axum_json (gx_ext X) v"

definition param_i64 :: "web_request \<Rightarrow> string \<Rightarrow> int option" where
  "param_i64 r key = Option.bind (map_of (rq_params r) key) parse_i64"

definition object_name :: "string \<Rightarrow> string" where
  "object_name raw = (case strip_prefix ''/'' raw of Some n \<Rightarrow> n | None \<Rightarrow> raw)"

definition body_json :: "gcs_env \<Rightarrow> string \<Rightarrow> json" where
  "body_json X body = (case json_parse (gx_ext X) body of Some v \<Rightarrow> v | None \<Rightarrow> JObj [])"

definition gcs_header :: "string \<Rightarrow> web_request \<Rightarrow> string option" where
  "gcs_header name r = (case header_get name r of Some v \<Rightarrow> if v \<noteq> [] then Some v else None | None \<Rightarrow> None)"

text \<open>The match on the outcome of a call; a success that changes something is reported.\<close>

definition gcs_emit :: "gcs_env \<Rightarrow> int \<Rightarrow> string \<Rightarrow> json \<Rightarrow> event list \<Rightarrow> event list" where
  "gcs_emit X now act payload = emit_event (gx_ext X) ''gcp'' ''storage'' act (json_print (gx_ext X) payload) (now div 1000)"

definition gcs_answer ::
    "gcs_env \<Rightarrow> (gcs_db, 'a) gcs_act \<Rightarrow> ('a \<Rightarrow> http_response) \<Rightarrow> ('a \<Rightarrow> event list \<Rightarrow> event list) \<Rightarrow> gcs_handler" where
  "gcs_answer X act ok report = (\<lambda>s. case act (gs_db s) of
     (Inl e, db) \<Rightarrow> (gcs_error_response X e, s\<lparr> gs_db := db \<rparr>)
   | (Inr v, db) \<Rightarrow> (ok v, s\<lparr> gs_db := db, gs_events := report v (gs_events s) \<rparr>))"

definition gcs_read :: "gcs_env \<Rightarrow> (gcs_db \<Rightarrow> (gcs_error, 'a) result) \<Rightarrow> ('a \<Rightarrow> http_response) \<Rightarrow> gcs_handler" where
  "gcs_read X q ok = gcs_answer X (\<lambda>db. (q db, db)) ok (\<lambda>_ ev. ev)"

subsection \<open>Buckets\<close>

definition h_gcs_create_bucket :: "gcs_env \<Rightarrow> web_request \<Rightarrow> int \<Rightarrow> gcs_handler" where
  "h_gcs_create_bucket X r now =
     (let body = body_json X (rq_body r);
          name = (case json_str ''name'' body of Some n \<Rightarrow> n | None \<Rightarrow> [])
      in if name = [] then (\<lambda>s. (gcs_error_json X 400 ''required'' ''Required: bucket name'', s))
         else gcs_answer X (gcs_create_bucket X name (json_str ''location'' body) now)
                (\<lambda>b. gcs_json X (bucket_to_json X b (base_url r)))
                (\<lambda>_. gcs_emit X now ''create_bucket'' (json_obj [(''bucket'', JStr name)])))"

definition h_gcs_list_buckets :: "gcs_env \<Rightarrow> web_request \<Rightarrow> gcs_handler" where
  "h_gcs_list_buckets X r =
     gcs_read X (\<lambda>db. Inr (gcs_list_buckets X db))
       (\<lambda>bs. gcs_json X (json_obj [(''kind'', JStr ''storage#buckets''),
          (''items'', JArr (map (\<lambda>b. bucket_to_json X b (base_url r)) bs))]))"

definition h_gcs_get_bucket :: "gcs_env \<Rightarrow> string \<Rightarrow> web_request \<Rightarrow> gcs_handler" where
  "h_gcs_get_bucket X bucket r = gcs_read X (gcs_get_bucket bucket) (\<lambda>b. gcs_json X (bucket_to_json X b (base_url r)))"

definition h_gcs_delete_bucket :: "gcs_env \<Rightarrow> string \<Rightarrow> int \<Rightarrow> gcs_handler" where
  "h_gcs_delete_bucket X bucket now =
     gcs_answer X (gcs_delete_bucket bucket) (\<lambda>_. status_response 204)
       (\<lambda>_. gcs_emit X now ''delete_bucket'' (json_obj [(''bucket'', JStr bucket)]))"

subsection \<open>Uploads\<close>

text \<open>\<open>find_map\<close> over a list.\<close>

fun find_map :: "('a \<Rightarrow> 'b option) \<Rightarrow> 'a list \<Rightarrow> 'b option" where
  "find_map f [] = None"
| "find_map f (x # xs) = (case f x of Some y \<Rightarrow> Some y | None \<Rightarrow> find_map f xs)"

definition multipart_boundary :: "string \<Rightarrow> string option" where
  "multipart_boundary ctype = find_map (\<lambda>p.
     Option.bind (split_once CHR ''='' (trim p)) (\<lambda>(k, v).
       if eq_ignore_ascii_case (trim k) ''boundary'' then Some (trim_end_char CHR 0x22 (trim_start_char CHR 0x22 (trim v)))
       else None)) (split_on CHR '';'' ctype)"

definition bytes_find :: "string \<Rightarrow> string \<Rightarrow> nat \<Rightarrow> nat option" where
  "bytes_find hay needle start =
     (if length hay < start \<or> needle = [] then None else map_option (\<lambda>i. i + start) (str_find needle (drop start hay)))"

text \<open>\<open>str::lines\<close>: split at line feeds, a carriage return before one dropped, no empty last line.\<close>

definition str_lines :: "string \<Rightarrow> string list" where
  "str_lines s =
     (let ps = split_on CHR 0x0A s;
          strip = (\<lambda>l. case strip_suffix [CHR 0x0D] l of Some t \<Rightarrow> t | None \<Rightarrow> l)
      in map strip (butlast ps) @ (if last ps = [] then [] else [last ps]))"

definition crlf :: string where "crlf = [CHR 0x0D, CHR 0x0A]"

definition part_type :: "string \<Rightarrow> string" where
  "part_type head =
     (case find_map (\<lambda>l. Option.bind (split_once CHR '':'' l) (\<lambda>(k, v).
         if eq_ignore_ascii_case (trim k) ''content-type'' then Some (trim v) else None)) (str_lines (from_utf8_lossy head))
      of Some t \<Rightarrow> t | None \<Rightarrow> [])"

text \<open>The headers and the data of a part.\<close>

definition part_split :: "string \<Rightarrow> string \<times> string" where
  "part_split part =
     (if starts_with part crlf then ([], drop 2 part)
      else case bytes_find part (crlf @ crlf) 0 of
          Some h \<Rightarrow> (take h part, drop (h + 4) part)
        | None \<Rightarrow> (part, []))"

lemma bytes_find_start: "bytes_find hay needle start = Some i \<Longrightarrow> start \<le> i \<and> i + length needle \<le> length hay"
  by (auto simp: bytes_find_def split: if_splits dest!: str_find_bound)

text \<open>The loop over the parts; \<open>pos\<close> is where a delimiter begins.\<close>

function multipart_loop :: "string \<Rightarrow> string \<Rightarrow> nat \<Rightarrow> (string \<times> string) list" where
  "multipart_loop delim body pos =
     (let pos = pos + length delim in
      if starts_with (drop pos body) ''--'' then []
      else case bytes_find body [CHR 0x0A] pos of
          None \<Rightarrow> []
        | Some line_end \<Rightarrow>
            let start = line_end + 1;
                stop = (case bytes_find body (crlf @ delim) start of Some e \<Rightarrow> e | None \<Rightarrow> length body);
                (head, data) = part_split (take (stop - start) (drop start body))
            in (part_type head, data) # (if length body \<le> stop then [] else multipart_loop delim body (stop + 2)))"
  by pat_completeness auto
termination
proof (relation "measure (\<lambda>(delim, body, pos). length body + 2 - pos)")
  fix delim body :: string and pos p line_end start stop
  assume p: "p = pos + length delim" and line: "bytes_find body [CHR 0x0A] p = Some line_end" and start: "start = line_end + 1"
    and stop: "stop = (case bytes_find body (crlf @ delim) start of Some e \<Rightarrow> e | None \<Rightarrow> length body)"
    and more: "\<not> length body \<le> stop"
  from stop more obtain e where "bytes_find body (crlf @ delim) start = Some e" "stop = e" by (auto split: option.splits)
  with bytes_find_start[OF this(1)] bytes_find_start[OF line] p start
  show "((delim, body, stop + 2), (delim, body, pos)) \<in> measure (\<lambda>(delim, body, pos). length body + 2 - pos)" by simp linarith
qed simp

declare multipart_loop.simps [simp del]

definition parse_multipart :: "string \<Rightarrow> string \<Rightarrow> (string \<times> string) list" where
  "parse_multipart body boundary =
     (let delim = ''--'' @ boundary in
      case bytes_find body delim 0 of None \<Rightarrow> [] | Some pos \<Rightarrow> multipart_loop delim body pos)"

definition store_object ::
    "gcs_env \<Rightarrow> web_request \<Rightarrow> string \<Rightarrow> string \<Rightarrow> string \<Rightarrow> string \<Rightarrow> json \<Rightarrow> int option \<Rightarrow> int \<Rightarrow> gcs_handler" where
  "store_object X r bucket name data ctype meta if_gen now =
     (if name = [] then (\<lambda>s. (gcs_error_json X 400 ''required'' ''Required: object name'', s))
      else gcs_answer X (gcs_upload_object X bucket name data ctype (merge_props (JObj []) meta) if_gen now)
             (\<lambda>ob. gcs_json X (object_to_json X ob (base_url r)))
             (\<lambda>ob. gcs_emit X now ''put_object''
                (json_obj [(''bucket'', JStr bucket), (''object'', JStr name), (''size'', JInt (go_size ob))])))"

definition start_resumable :: "gcs_env \<Rightarrow> string \<Rightarrow> web_request \<Rightarrow> gcs_handler" where
  "start_resumable X bucket r = (\<lambda>s.
     let meta = body_json X (rq_body r);
         name = (case json_str ''name'' meta of Some n \<Rightarrow> n
                 | None \<Rightarrow> (case map_of (rq_params r) ''name'' of Some n \<Rightarrow> n | None \<Rightarrow> []))
     in if name = [] then (gcs_error_json X 400 ''required'' ''Required: object name'', s)
        else (case gcs_get_bucket bucket (gs_db s) of
            Inl e \<Rightarrow> (gcs_error_response X e, s)
          | Inr _ \<Rightarrow>
              let ctype = (case json_str ''contentType'' meta of Some c \<Rightarrow> c
                    | None \<Rightarrow> (case gcs_header ''x-upload-content-type'' r of Some c \<Rightarrow> c | None \<Rightarrow> ''application/octet-stream''));
                  uid = uuid_simple (uuid_v4 (gx_ext X) (gs_draws s));
                  session = \<lparr> se_bucket = bucket, se_name = name, se_type = ctype, se_meta = meta,
                              se_if_gen = param_i64 r ''ifGenerationMatch'', se_data = [] \<rparr>;
                  location = base_url r @ ''/upload/storage/v1/b/'' @ bucket @ ''/o?uploadType=resumable&upload_id='' @ uid
              in (try_header ''location'' location (status_response 200),
                  s\<lparr> gs_draws := Suc (gs_draws s), gs_sessions := AList.update uid session (gs_sessions s) \<rparr>)))"

definition h_gcs_upload :: "gcs_env \<Rightarrow> string \<Rightarrow> web_request \<Rightarrow> int \<Rightarrow> gcs_handler" where
  "h_gcs_upload X bucket r now =
     (let upload_type = (case map_of (rq_params r) ''uploadType'' of Some t \<Rightarrow> t | None \<Rightarrow> ''media'');
          if_gen = param_i64 r ''ifGenerationMatch'';
          query_name = (case map_of (rq_params r) ''name'' of Some n \<Rightarrow> n | None \<Rightarrow> []);
          header_ct = (case gcs_header ''content-type'' r of Some c \<Rightarrow> c | None \<Rightarrow> ''application/octet-stream'');
          invalid = (\<lambda>msg s. (gcs_error_json X 400 ''invalid'' msg, s))
      in if upload_type = ''media'' then store_object X r bucket query_name (rq_body r) header_ct (JObj []) if_gen now
         else if upload_type = ''multipart'' then
           (case multipart_boundary header_ct of
              None \<Rightarrow> invalid ''Missing multipart boundary''
            | Some boundary \<Rightarrow> (case parse_multipart (rq_body r) boundary of
                  (_, meta_raw) # (part_ct, data) # _ \<Rightarrow>
                    let meta = body_json X meta_raw;
                        name = (case json_str ''name'' meta of Some n \<Rightarrow> n | None \<Rightarrow> query_name);
                        ctype = (case json_str ''contentType'' meta of Some c \<Rightarrow> c
                                 | None \<Rightarrow> if part_ct \<noteq> [] then part_ct else ''application/octet-stream'')
                    in store_object X r bucket name data ctype meta if_gen now
                | _ \<Rightarrow> invalid ''Multipart upload requires metadata and media parts''))
         else if upload_type = ''resumable'' then start_resumable X bucket r
         else invalid (''Unknown uploadType: '' @ upload_type))"

subsection \<open>Resumable uploads\<close>

record chunk_range =
  cr_start :: "nat option"
  cr_total :: "nat option"

definition parse_content_range :: "string \<Rightarrow> chunk_range option" where
  "parse_content_range v =
     Option.bind (strip_prefix ''bytes'' (trim v)) (\<lambda>rest.
     Option.bind (split_once CHR ''/'' (trim rest)) (\<lambda>(cr, total).
     Option.bind (if trim total = ''*'' then Some None else map_option Some (parse_usize (trim total))) (\<lambda>t.
     Option.bind (if trim cr = ''*'' then Some None
                  else Option.bind (split_once CHR ''-'' (trim cr)) (\<lambda>(a, _). map_option Some (parse_usize (trim a)))) (\<lambda>st.
     Some \<lparr> cr_start = st, cr_total = t \<rparr>))))"

text \<open>What a chunk does to the data of its session, and whether the upload is complete.\<close>

definition add_chunk :: "chunk_range option \<Rightarrow> string \<Rightarrow> string \<Rightarrow> (string \<times> bool) option" where
  "add_chunk cr body data = (case cr of
     None \<Rightarrow> Some (body, True)
   | Some r \<Rightarrow>
       let got = (case cr_start r of
             None \<Rightarrow> Some data
           | Some start \<Rightarrow> if length data < start then None else Some (take start data @ body))
       in map_option (\<lambda>d. (d, case cr_total r of Some t \<Rightarrow> t \<le> length d | None \<Rightarrow> False)) got)"

definition h_gcs_resumable_put :: "gcs_env \<Rightarrow> web_request \<Rightarrow> int \<Rightarrow> gcs_handler" where
  "h_gcs_resumable_put X r now = (\<lambda>s.
     case map_of (rq_params r) ''upload_id'' of
       None \<Rightarrow> (gcs_error_json X 400 ''required'' ''Required: upload_id'', s)
     | Some uid \<Rightarrow>
         (case (case gcs_header ''content-range'' r of
                 None \<Rightarrow> Some None
               | Some v \<Rightarrow> map_option Some (parse_content_range v)) of
            None \<Rightarrow> (gcs_error_json X 400 ''invalid'' ''Invalid Content-Range'', s)
          | Some cr \<Rightarrow> (case map_of (gs_sessions s) uid of
                None \<Rightarrow> (gcs_error_json X 404 ''notFound'' ''Upload session not found'', s)
              | Some session \<Rightarrow> (case add_chunk cr (rq_body r) (se_data session) of
                    None \<Rightarrow> (gcs_error_json X 400 ''invalid'' ''Chunk starts beyond received data'', s)
                  | Some (data, False) \<Rightarrow>
                      ((if 0 < length data then try_header ''range'' (''bytes=0-'' @ show_nat (length data - 1)) else id)
                         (status_response 308),
                       s\<lparr> gs_sessions := AList.update uid (session\<lparr> se_data := data \<rparr>) (gs_sessions s) \<rparr>)
                  | Some (data, True) \<Rightarrow>
                      store_object X r (se_bucket session) (se_name session) data (se_type session) (se_meta session)
                        (se_if_gen session) now (s\<lparr> gs_sessions := AList.delete uid (gs_sessions s) \<rparr>)))))"

definition h_gcs_resumable_cancel :: "gcs_env \<Rightarrow> web_request \<Rightarrow> gcs_handler" where
  "h_gcs_resumable_cancel X r = (\<lambda>s.
     case Option.bind (map_of (rq_params r) ''upload_id'') (\<lambda>uid. map_option (\<lambda>_. uid) (map_of (gs_sessions s) uid)) of
       Some uid \<Rightarrow> (status_response 499, s\<lparr> gs_sessions := AList.delete uid (gs_sessions s) \<rparr>)
     | None \<Rightarrow> (gcs_error_json X 404 ''notFound'' ''Upload session not found'', s))"

subsection \<open>Objects\<close>

definition gcs_query_of :: "web_request \<Rightarrow> gcs_query" where
  "gcs_query_of r =
     (let p = map_of (rq_params r) in
      \<lparr> gq_prefix = (case p ''prefix'' of Some s \<Rightarrow> s | None \<Rightarrow> []), gq_delimiter = p ''delimiter'', gq_start = p ''startOffset'',
        gq_end = p ''endOffset'', gq_max = Option.bind (p ''maxResults'') parse_usize, gq_token = p ''pageToken'' \<rparr>)"

definition h_gcs_list_objects :: "gcs_env \<Rightarrow> string \<Rightarrow> web_request \<Rightarrow> gcs_handler" where
  "h_gcs_list_objects X bucket r =
     gcs_read X (gcs_list_objects X bucket (gcs_query_of r)) (\<lambda>l.
       gcs_json X (json_obj
         ([(''kind'', JStr ''storage#objects''), (''items'', JArr (map (\<lambda>ob. object_to_json X ob (base_url r)) (gl_items l)))]
          @ (if gl_prefixes l \<noteq> [] then [(''prefixes'', JArr (map JStr (gl_prefixes l)))] else [])
          @ (case gl_token l of Some t \<Rightarrow> [(''nextPageToken'', JStr t)] | None \<Rightarrow> []))))"

definition fetch_object :: "gcs_env \<Rightarrow> string \<Rightarrow> string \<Rightarrow> web_request \<Rightarrow> gcs_db \<Rightarrow> (gcs_error, gcs_object) result" where
  "fetch_object X bucket name r db = try_bind (gcs_get_object X bucket name db) (\<lambda>ob.
     case param_i64 r ''generation'' of
       Some g \<Rightarrow> if g \<noteq> generation X ob then Inl (ObjectNotFound bucket name) else Inr ob
     | None \<Rightarrow> Inr ob)"

text \<open>\<open>Range: bytes=..\<close> as an inclusive range: \<open>None\<close> asks for everything, \<open>Some None\<close> cannot be satisfied.\<close>

definition gcs_parse_range :: "string option \<Rightarrow> nat \<Rightarrow> (nat \<times> nat) option option" where
  "gcs_parse_range v len =
     Option.bind v (\<lambda>v. Option.bind (strip_prefix ''bytes='' (trim v)) (\<lambda>spec.
       if CHR '','' \<in> set spec then None
       else Option.bind (split_once CHR ''-'' spec) (\<lambda>(a, b).
         let a = trim a; b = trim b in
         if a = [] then
           Option.bind (parse_usize b) (\<lambda>n.
             if n = 0 \<or> len = 0 then Some None else Some (Some (len - n, len - 1)))
         else
           Option.bind (parse_usize a) (\<lambda>start.
           Option.bind (if b = [] then Some (len - 1) else map_option (\<lambda>e. min e (len - 1)) (parse_usize b)) (\<lambda>stop.
             if len \<le> start \<or> stop < start then Some None else Some (Some (start, stop)))))))"

definition media_headers :: "gcs_env \<Rightarrow> gcs_object \<Rightarrow> (string \<times> string) list" where
  "media_headers X ob =
     [(''content-type'', go_type ob), (''etag'', CHR 0x22 # go_etag ob @ [CHR 0x22]),
      (''x-goog-hash'', ''crc32c='' @ crc32c_b64 X ob @ '',md5='' @ md5_b64 X ob),
      (''x-goog-generation'', show_int (generation X ob)), (''x-goog-metageneration'', ''1''),
      (''x-goog-stored-content-length'', show_nat (length (go_content ob))),
      (''x-goog-stored-content-encoding'', ''identity''), (''accept-ranges'', ''bytes'')]"

definition media_response :: "gcs_env \<Rightarrow> gcs_object \<Rightarrow> web_request \<Rightarrow> http_response" where
  "media_response X ob r =
     (let len = length (go_content ob); hs = media_headers X ob in
      case gcs_parse_range (gcs_header ''range'' r) len of
        None \<Rightarrow> bytes_response 200 hs (go_content ob)
      | Some (Some (start, stop)) \<Rightarrow>
          try_header ''content-range'' (''bytes '' @ show_nat start @ ''-'' @ show_nat stop @ ''/'' @ show_nat len)
            (bytes_response 206 hs (take (stop + 1 - start) (drop start (go_content ob))))
      | Some None \<Rightarrow>
          try_header ''content-range'' (''bytes */'' @ show_nat len)
            (gcs_error_json X 416 ''requestedRangeNotSatisfiable'' ''Requested range not satisfiable''))"

definition h_gcs_get_object :: "gcs_env \<Rightarrow> string \<Rightarrow> string \<Rightarrow> web_request \<Rightarrow> gcs_handler" where
  "h_gcs_get_object X bucket raw r =
     gcs_read X (fetch_object X bucket (object_name raw) r) (\<lambda>ob.
       if map_of (rq_params r) ''alt'' = Some ''media'' then media_response X ob r
       else gcs_json X (object_to_json X ob (base_url r)))"

definition h_gcs_download :: "gcs_env \<Rightarrow> string \<Rightarrow> string \<Rightarrow> web_request \<Rightarrow> gcs_handler" where
  "h_gcs_download X bucket raw r = gcs_read X (fetch_object X bucket (object_name raw) r) (\<lambda>ob. media_response X ob r)"

definition h_gcs_patch :: "gcs_env \<Rightarrow> string \<Rightarrow> string \<Rightarrow> web_request \<Rightarrow> gcs_handler" where
  "h_gcs_patch X bucket raw r =
     gcs_answer X (gcs_patch_object X bucket (object_name raw) (body_json X (rq_body r)))
       (\<lambda>ob. gcs_json X (object_to_json X ob (base_url r))) (\<lambda>_ ev. ev)"

definition h_gcs_delete_object :: "gcs_env \<Rightarrow> string \<Rightarrow> string \<Rightarrow> web_request \<Rightarrow> int \<Rightarrow> gcs_handler" where
  "h_gcs_delete_object X bucket raw r now =
     (let name = object_name raw in
      gcs_answer X (gcs_delete_object X bucket name (param_i64 r ''ifGenerationMatch'')) (\<lambda>_. status_response 204)
        (\<lambda>_. gcs_emit X now ''delete_object'' (json_obj [(''bucket'', JStr bucket), (''object'', JStr name)])))"

subsection \<open>The router\<close>

datatype gcs_target =
    RBuckets
  | RBucket string
  | RUpload string
  | RObjects string
  | RObject string string
  | RDownload string string

text \<open>\<open>HEAD\<close> requests, which axum answers like \<open>GET\<close> without the body, are not listed.\<close>

fun gcs_route :: "gcs_env \<Rightarrow> string \<Rightarrow> gcs_target \<Rightarrow> web_request \<Rightarrow> int \<Rightarrow> gcs_handler option" where
  "gcs_route X m RBuckets r now =
     (if m = ''POST'' then Some (h_gcs_create_bucket X r now)
      else if m = ''GET'' then Some (h_gcs_list_buckets X r) else None)"
| "gcs_route X m (RBucket b) r now =
     (if m = ''GET'' then Some (h_gcs_get_bucket X b r)
      else if m = ''DELETE'' then Some (h_gcs_delete_bucket X b now) else None)"
| "gcs_route X m (RUpload b) r now =
     (if m = ''POST'' then Some (h_gcs_upload X b r now)
      else if m = ''PUT'' then Some (h_gcs_resumable_put X r now)
      else if m = ''DELETE'' then Some (h_gcs_resumable_cancel X r) else None)"
| "gcs_route X m (RObjects b) r now = (if m = ''GET'' then Some (h_gcs_list_objects X b r) else None)"
| "gcs_route X m (RObject b n) r now =
     (if m = ''GET'' then Some (h_gcs_get_object X b n r)
      else if m = ''PATCH'' then Some (h_gcs_patch X b n r)
      else if m = ''DELETE'' then Some (h_gcs_delete_object X b n r now) else None)"
| "gcs_route X m (RDownload b n) r now = (if m = ''GET'' then Some (h_gcs_download X b n r) else None)"

end
