(* ===== verification/Gcs_Properties.thy ===== *)
theory Gcs_Properties
  imports Gcs_Handlers
begin

text \<open>
  Google Cloud Storage, part 3: generations as a guard against lost updates, and resumable uploads.
\<close>

subsection \<open>Operations\<close>

datatype gcs_op =
    GcsCreateBucket string "string option" int
  | GcsDeleteBucket string
  | GcsUpload string string string string json "int option" int
  | GcsPatch string string json
  | GcsDelete string string "int option"

datatype gcs_resp =
    GcsBucketResp "(gcs_error, gcs_bucket) result"
  | GcsUnit "(gcs_error, unit) result"
  | GcsObjectResp "(gcs_error, gcs_object) result"

fun gcs_exec :: "gcs_env \<Rightarrow> gcs_op \<Rightarrow> gcs_db \<Rightarrow> gcs_resp \<times> gcs_db" where
  "gcs_exec X (GcsCreateBucket name loc now) db = map_prod GcsBucketResp id (gcs_create_bucket X name loc now db)"
| "gcs_exec X (GcsDeleteBucket name) db = map_prod GcsUnit id (gcs_delete_bucket name db)"
| "gcs_exec X (GcsUpload b n content ctype props if_gen now) db =
     map_prod GcsObjectResp id (gcs_upload_object X b n content ctype props if_gen now db)"
| "gcs_exec X (GcsPatch b n patch) db = map_prod GcsObjectResp id (gcs_patch_object X b n patch db)"
| "gcs_exec X (GcsDelete b n if_gen) db = map_prod GcsUnit id (gcs_delete_object X b n if_gen db)"

text \<open>The time of an upload.\<close>

fun upload_at :: "gcs_op \<Rightarrow> int option" where
  "upload_at (GcsUpload b n content ctype props if_gen now) = Some now"
| "upload_at _ = None"

subsection \<open>Generations\<close>

text \<open>A printed time stamp is read back with its microseconds.\<close>

definition micros_roundtrip :: "gcs_env \<Rightarrow> bool" where
  "micros_roundtrip X \<longleftrightarrow> (\<forall>t. parse_micros X (rfc3339_micros (gx_ext X) t) = Some t)"

text \<open>Every stored generation of a name satisfies \<open>P\<close>.\<close>

definition generations :: "gcs_env \<Rightarrow> string \<Rightarrow> string \<Rightarrow> (int \<Rightarrow> bool) \<Rightarrow> gcs_db \<Rightarrow> bool" where
  "generations X b n P db \<longleftrightarrow> (\<forall>r\<in>set (gcs_objects db). gcs_row_is b n r \<longrightarrow> P (generation X (row_to_object X r)))"

lemma generation_row: "generation X (row_to_object X r) = (case parse_micros X (gr_created_at r) of Some t \<Rightarrow> t | None \<Rightarrow> 1)"
  by (simp add: generation_def row_to_object_def)

lemma set_gcs_upsert:
  "set (gcs_upsert r rows) \<subseteq> insert r {s \<in> set rows. \<not> gcs_row_is (gr_bucket r) (gr_name r) s}"
  by (auto simp: gcs_upsert_def set_sql_update list_ex_iff)

lemma upload_generation:
  "micros_roundtrip X \<Longrightarrow> generation X (row_to_object X (object_to_row X (new_gcs_object X b n c ct p now))) = now"
  by (simp add: generation_row object_to_row_def new_gcs_object_def now_ts_def micros_roundtrip_def)

lemma generations_step:
  assumes law: "micros_roundtrip X" and gens: "generations X b n P db" and time: "\<And>t. upload_at x = Some t \<Longrightarrow> P t"
  shows "generations X b n P (snd (gcs_exec X x db))"
proof (cases x)
  case (GcsUpload b' n' c ct p g now)
  let ?new = "object_to_row X (new_gcs_object X b' n' c ct p now)"
  have "snd (gcs_exec X x db) = db \<or> gcs_objects (snd (gcs_exec X x db)) = gcs_upsert ?new (gcs_objects db)"
    by (simp add: GcsUpload gcs_upload_object_def Let_def split: sum.split)
  moreover have "P (generation X (row_to_object X ?new))" using time GcsUpload upload_generation[OF law] by simp
  ultimately show ?thesis
    using gens set_gcs_upsert[of ?new "gcs_objects db"] unfolding generations_def by auto
next
  case (GcsPatch b' n' patch)
  have keep: "gcs_row_is b n (r\<lparr> gr_type := y, gr_props := z \<rparr>) = gcs_row_is b n r"
    "generation X (row_to_object X (r\<lparr> gr_type := y, gr_props := z \<rparr>)) = generation X (row_to_object X r)" for r y z
    by (simp_all add: gcs_row_is_def generation_row)
  show ?thesis
    using gens unfolding generations_def GcsPatch
    by (auto simp: gcs_patch_object_def Let_def set_sql_update keep split: option.split)
qed (use gens in \<open>auto simp: generations_def gcs_create_bucket_def gcs_delete_bucket_def gcs_delete_object_def Let_def
       split: option.split sum.split\<close>)

lemma generations_run:
  assumes "micros_roundtrip X" "list_all (\<lambda>x. case upload_at x of Some t \<Rightarrow> P t | None \<Rightarrow> True) xs" "generations X b n P db"
  shows "generations X b n P (snd (run_ops (gcs_exec X) xs db))"
  using assms(2,3)
proof (induction xs arbitrary: db)
  case (Cons x xs)
  have "generations X b n P (snd (gcs_exec X x db))"
    by (rule generations_step[OF assms(1) Cons.prems(2)]) (use Cons.prems(1) in auto)
  with Cons show ?case by (simp add: Let_def)
qed simp

lemma load_generation:
  "generations X b n P db \<Longrightarrow> load_object X b n db = Some ob \<Longrightarrow> P (generation X ob)"
  by (auto simp: generations_def load_object_def dest: find_Some_set)

text \<open>A write or a deletion that asks for the generation \<open>g\<close> of an object.\<close>

fun asks_generation :: "string \<Rightarrow> string \<Rightarrow> int \<Rightarrow> gcs_op \<Rightarrow> bool" where
  "asks_generation b n g (GcsUpload b' n' content ctype props if_gen now) \<longleftrightarrow> b' = b \<and> n' = n \<and> if_gen = Some g"
| "asks_generation b n g (GcsDelete b' n' if_gen) \<longleftrightarrow> b' = b \<and> n' = n \<and> if_gen = Some g"
| "asks_generation b n g _ \<longleftrightarrow> False"

fun gcs_ok :: "gcs_resp \<Rightarrow> bool" where
  "gcs_ok (GcsBucketResp r) = (case r of Inr _ \<Rightarrow> True | Inl _ \<Rightarrow> False)"
| "gcs_ok (GcsUnit r) = (case r of Inr _ \<Rightarrow> True | Inl _ \<Rightarrow> False)"
| "gcs_ok (GcsObjectResp r) = (case r of Inr _ \<Rightarrow> True | Inl _ \<Rightarrow> False)"

text \<open>A success takes the generation away, and without it there is no other.\<close>

lemma asked_success:
  assumes law: "micros_roundtrip X" and old: "generations X b n P db" and x: "asks_generation b n g x" "g \<noteq> 0"
    and ok: "gcs_ok (fst (gcs_exec X x db))"
  shows "P g" "(\<And>t. upload_at x = Some t \<Longrightarrow> t \<noteq> g) \<Longrightarrow> generations X b n (\<lambda>t. t \<noteq> g) (snd (gcs_exec X x db))"
proof -
  have "\<exists>ob. load_object X b n db = Some ob \<and> generation X ob = g"
    using x ok by (cases x) (auto simp: gcs_upload_object_def gcs_delete_object_def check_generation_def Let_def split: if_splits option.splits)
  with load_generation[OF old] show "P g" by blast
  assume time: "\<And>t. upload_at x = Some t \<Longrightarrow> t \<noteq> g"
  show "generations X b n (\<lambda>t. t \<noteq> g) (snd (gcs_exec X x db))"
  proof (cases x)
    case (GcsUpload b' n' content ctype props if_gen now)
    let ?new = "object_to_row X (new_gcs_object X b n content ctype props now)"
    have "gcs_objects (snd (gcs_exec X x db)) = gcs_upsert ?new (gcs_objects db)"
      using x ok by (auto simp: GcsUpload gcs_upload_object_def Let_def split: if_splits sum.splits)
    moreover have "gr_bucket ?new = b" "gr_name ?new = n" by (simp_all add: object_to_row_def new_gcs_object_def)
    ultimately show ?thesis
      using set_gcs_upsert[of ?new "gcs_objects db"] upload_generation[OF law, of b n content ctype props now] time
      by (auto simp: generations_def GcsUpload)
  next
    case (GcsDelete b' n' if_gen)
    then show ?thesis
      using x ok by (auto simp: generations_def gcs_delete_object_def Let_def split: if_splits option.splits sum.splits)
  qed (use x in simp_all)
qed

lemma asked_refused:
  assumes "generations X b n (\<lambda>t. t \<noteq> g) db" "asks_generation b n g x" "g \<noteq> 0"
  shows "\<not> gcs_ok (fst (gcs_exec X x db))"
proof -
  have "load_object X b n db = Some ob \<Longrightarrow> generation X ob \<noteq> g" for ob using load_generation[OF assms(1)] .
  with assms(2,3) show ?thesis
    by (cases x) (auto simp: gcs_upload_object_def gcs_delete_object_def check_generation_def Let_def split: option.splits)
qed

text \<open>C34: no lost update.  In any run from the empty store, of the uploads and the deletions that ask for one
  generation of an object at most one succeeds, whichever of the two it is and whatever requests come in
  between (uploads and deletions without the condition, patches, requests about the bucket).  No two uploads
  of the run have the same time: the generation of an object is its creation time in microseconds.\<close>

theorem gcs_no_lost_update:
  assumes law: "micros_roundtrip X"
    and clock: "distinct (List.map_filter upload_at ops)"
    and answers: "answers = fst (run_ops (gcs_exec X) ops gcs_init)"
    and asked: "asks_generation b n g (ops ! i)" "asks_generation b n g (ops ! j)" "g \<noteq> 0"
    and order: "i < j" "j < length ops"
  shows "\<not> (gcs_ok (answers ! i) \<and> gcs_ok (answers ! j))"
proof
  assume ok: "gcs_ok (answers ! i) \<and> gcs_ok (answers ! j)"
  let ?db = "\<lambda>k. snd (run_ops (gcs_exec X) (take k ops) gcs_init)"
  have at: "answers ! k = fst (gcs_exec X (ops ! k) (?db k))" if "k < length ops" for k
    unfolding answers using that by (rule run_ops_nth)
  have times: "ops = take i ops @ ops ! i # drop (Suc i) ops" using order by (simp add: id_take_nth_drop)
  have app: "List.map_filter f (xs @ ys) = List.map_filter f xs @ List.map_filter f ys" for f :: "gcs_op \<Rightarrow> int option" and xs ys
    by (simp add: map_filter_def)
  let ?old = "set (List.map_filter upload_at (take i ops))"
  have clock': "distinct (List.map_filter upload_at (take i ops @ ops ! i # drop (Suc i) ops))" using clock times by simp
  have old: "generations X b n (\<lambda>t. t \<in> ?old) (?db i)"
    by (rule generations_run[OF law])
       (auto simp: list_all_iff generations_def gcs_init_def map_filter_def image_iff split: option.split)
  have "gcs_ok (fst (gcs_exec X (ops ! i) (?db i)))" using at[of i] ok order by simp
  note first = asked_success[OF law old asked(1,3) this]
  note g = first(1)
  have new: "t \<noteq> g" if "upload_at (ops ! i) = Some t" for t
    using clock' g that by (auto simp: app map_filter_simps)
  have gone: "generations X b n (\<lambda>t. t \<noteq> g) (snd (gcs_exec X (ops ! i) (?db i)))" using first(2) new by blast
  let ?ys = "take (j - Suc i) (drop (Suc i) ops)"
  have "take j ops = take i ops @ ops ! i # ?ys"
    using order by (metis Suc_leI take_Suc_conv_app_nth append.assoc append_Cons append_Nil le_add_diff_inverse less_trans take_add)
  then have "?db j = snd (run_ops (gcs_exec X) ?ys (snd (gcs_exec X (ops ! i) (?db i))))" by (simp add: run_ops_append Let_def)
  moreover have "t \<noteq> g" if "x \<in> set ?ys" "upload_at x = Some t" for x t
  proof -
    have "x \<in> set (drop (Suc i) ops)" using that(1) by (rule in_set_takeD)
    with that(2) have "t \<in> set (List.map_filter upload_at (drop (Suc i) ops))" by (force simp: map_filter_def image_iff)
    with clock' g show ?thesis by (auto simp: app map_filter_simps split: option.splits)
  qed
  then have "list_all (\<lambda>x. case upload_at x of Some t \<Rightarrow> t \<noteq> g | None \<Rightarrow> True) ?ys"
    by (auto simp: list_all_iff split: option.split)
  ultimately have "generations X b n (\<lambda>t. t \<noteq> g) (?db j)" using generations_run[OF law _ gone] by simp
  from asked_refused[OF this asked(2,3)] at[OF order(2)] ok show False by simp
qed

subsection \<open>A concrete environment\<close>

definition read_int :: "string \<Rightarrow> int option" where
  "read_int s = (if take 1 s = ''-'' then map_option (\<lambda>n. - int n) (parse_nat (drop 1 s)) else map_option int (parse_nat s))"

lemma read_int_show [simp]: "read_int (show_int i) = Some i"
proof (cases "i < 0")
  case False
  have "take 1 (show_nat n) \<noteq> ''-''" for n
    using show_nat_hd_digit[of n "CHR ''-''"] by (cases "show_nat n") auto
  with False show ?thesis by (simp add: read_int_def show_int_def)
qed (simp add: read_int_def show_int_def)

definition gcs_sample_env :: gcs_env where
  "gcs_sample_env = \<lparr> gx_ext = sample_ext, gx_project = ''p'', parse_micros = read_int, format_millis = Some,
     to_uppercase = (\<lambda>s. s), md5_bytes = (\<lambda>s. s), encode_name = (\<lambda>s. s) \<rparr>"

lemma gcs_sample_laws [simp]: "micros_roundtrip gcs_sample_env" "gx_ext gcs_sample_env = sample_ext"
  by (simp_all add: micros_roundtrip_def gcs_sample_env_def sample_ext_def)

definition gcs_sample_row :: "string \<Rightarrow> string \<Rightarrow> int \<Rightarrow> gcs_row" where
  "gcs_sample_row n c now = object_to_row gcs_sample_env (new_gcs_object gcs_sample_env ''b'' n c ''t'' (JObj []) now)"

definition gcs_sample_db :: "gcs_row list \<Rightarrow> gcs_db" where
  "gcs_sample_db rows = \<lparr> gcs_buckets = [\<lparr> gb_name = ''b'', gb_project = ''p'', gb_location = ''US'', gb_created_at = show_int 0 \<rparr>],
     gcs_objects = rows \<rparr>"

lemma gcs_sample_create: "snd (gcs_exec gcs_sample_env (GcsCreateBucket ''b'' None 0) gcs_init) = gcs_sample_db []"
  by (simp add: Let_def gcs_create_bucket_def gcs_bucket_exists_def gcs_init_def gcs_sample_db_def now_ts_def gcs_sample_env_def sample_ext_def)

lemma gcs_sample_row_is [simp]: "gcs_row_is b n (gcs_sample_row m c now) \<longleftrightarrow> b = ''b'' \<and> n = m"
  by (auto simp: gcs_row_is_def gcs_sample_row_def object_to_row_def new_gcs_object_def)

lemma gcs_sample_row_sel [simp]: "gr_bucket (gcs_sample_row n c now) = ''b''" "gr_name (gcs_sample_row n c now) = n"
  by (simp_all add: gcs_sample_row_def object_to_row_def new_gcs_object_def)

lemma gcs_sample_exists [simp]: "gcs_bucket_exists ''b'' (gcs_sample_db rows)"
  by (simp add: gcs_sample_db_def gcs_bucket_exists_def)

lemma gcs_sample_objects [simp]: "gcs_objects (gcs_sample_db rows) = rows"
  "(gcs_sample_db rows)\<lparr> gcs_objects := rows' \<rparr> = gcs_sample_db rows'"
  by (simp_all add: gcs_sample_db_def)

lemma gcs_sample_upload:
  "gcs_upload_object gcs_sample_env ''b'' n c ''t'' (JObj []) None now (gcs_sample_db rows)
     = (Inr (new_gcs_object gcs_sample_env ''b'' n c ''t'' (JObj []) now), gcs_sample_db (gcs_upsert (gcs_sample_row n c now) rows))"
  by (simp add: gcs_upload_object_def check_generation_def Let_def gcs_sample_row_def)

lemma gcs_sample_generation: "generation gcs_sample_env (row_to_object gcs_sample_env (gcs_sample_row n c now)) = now"
  unfolding gcs_sample_row_def by (rule upload_generation) simp

abbreviation gcs_sample_ops :: "gcs_op list" where
  "gcs_sample_ops \<equiv> [GcsCreateBucket ''b'' None 0, GcsUpload ''b'' ''n'' ''x'' ''t'' (JObj []) None 2,
     GcsDelete ''b'' ''n'' (Some 2), GcsUpload ''b'' ''n'' ''y'' ''t'' (JObj []) None 3, GcsDelete ''b'' ''n'' (Some 2)]"

text \<open>Two deletions of the same generation: the first succeeds, so the second does not.\<close>

theorem gcs_no_lost_update_witness:
  "gcs_ok (fst (run_ops (gcs_exec gcs_sample_env) gcs_sample_ops gcs_init) ! 2)
    \<and> \<not> gcs_ok (fst (run_ops (gcs_exec gcs_sample_env) gcs_sample_ops gcs_init) ! 4)"
proof -
  let ?row = "gcs_sample_row ''n'' ''x'' 2"
  have load: "load_object gcs_sample_env ''b'' ''n'' (gcs_sample_db [?row]) = Some (row_to_object gcs_sample_env ?row)"
    by (simp add: load_object_def)
  have "snd (run_ops (gcs_exec gcs_sample_env) (take 2 gcs_sample_ops) gcs_init) = gcs_sample_db [?row]"
    using gcs_sample_create by (simp add: Let_def gcs_sample_upload gcs_upsert_def)
  then have "fst (run_ops (gcs_exec gcs_sample_env) gcs_sample_ops gcs_init) ! 2
      = fst (gcs_exec gcs_sample_env (GcsDelete ''b'' ''n'' (Some 2)) (gcs_sample_db [?row]))"
    by (subst run_ops_nth) simp_all
  then have first: "gcs_ok (fst (run_ops (gcs_exec gcs_sample_env) gcs_sample_ops gcs_init) ! 2)"
    by (simp add: gcs_delete_object_def load check_generation_def gcs_sample_generation Let_def)
  have "distinct (List.map_filter upload_at gcs_sample_ops)" by (simp add: map_filter_simps)
  from gcs_no_lost_update[OF gcs_sample_laws(1) this refl, of "''b''" "''n''" 2 2 4] first show ?thesis by simp
qed

end
