(* ===== verification/Gcs_Listing.thy ===== *)
theory Gcs_Listing
  imports Gcs_Properties Grouping
begin

text \<open>
  Google Cloud Storage, part 4: listing objects in pages.  The entries of a listing are the names of
  \<open>grouping\<close>, and its pages an instance of \<open>pager\<close>.
\<close>

subsection \<open>One row per object\<close>

definition gcs_keys_ok :: "gcs_db \<Rightarrow> bool" where
  "gcs_keys_ok db \<longleftrightarrow> distinct (map (\<lambda>r. (gr_bucket r, gr_name r)) (gcs_objects db))"

lemma gcs_upsert_keys:
  assumes "distinct (map (\<lambda>r. (gr_bucket r, gr_name r)) rows)"
  shows "distinct (map (\<lambda>r. (gr_bucket r, gr_name r)) (gcs_upsert r rows))"
proof (cases "list_ex (gcs_row_is (gr_bucket r) (gr_name r)) rows")
  case True
  then have "map (\<lambda>r. (gr_bucket r, gr_name r)) (gcs_upsert r rows) = map (\<lambda>r. (gr_bucket r, gr_name r)) rows"
    unfolding gcs_upsert_def if_P[OF True] by (intro map_key_sql_update) (simp add: gcs_row_is_def)
  with assms show ?thesis by simp
next
  case False
  with assms show ?thesis by (auto simp: gcs_upsert_def gcs_row_is_def list_ex_iff)
qed

interpretation gcs: service "\<lambda>X. True" gcs_init gcs_exec "\<lambda>X. gcs_keys_ok"
proof unfold_locales
  show "gcs_keys_ok gcs_init" by (simp add: gcs_keys_ok_def gcs_init_def)
  fix X db x assume ok: "gcs_keys_ok db"
  show "gcs_keys_ok (snd (gcs_exec X x db))"
  proof (cases x)
    case (GcsUpload b n c ct p g now)
    with ok show ?thesis
      by (auto simp: gcs_keys_ok_def gcs_upload_object_def Let_def intro: gcs_upsert_keys split: sum.split)
  next
    case (GcsPatch b n patch)
    with ok show ?thesis
      by (auto simp: gcs_keys_ok_def gcs_patch_object_def Let_def map_key_sql_update split: option.split)
  next
    case (GcsDelete b n g)
    with ok show ?thesis
      by (auto simp: gcs_keys_ok_def gcs_delete_object_def Let_def intro: distinct_sql_delete split: option.split sum.split)
  qed (use ok in \<open>auto simp: gcs_keys_ok_def gcs_create_bucket_def gcs_delete_bucket_def Let_def\<close>)
qed

subsection \<open>Entries\<close>

abbreviation gcs_listed :: "gcs_query \<Rightarrow> string \<Rightarrow> string" where
  "gcs_listed q \<equiv> listed_by (gcs_group q)"

lemma gcs_group_first:
  assumes "starts_with k (gq_prefix q)"
  shows "gcs_group q k = first_group (length (gq_prefix q)) (gq_delim q) k"
proof -
  obtain s where "k = gq_prefix q @ s" using assms by (auto simp: starts_with_split)
  then show ?thesis by (simp add: gcs_group_def first_group_def Let_def option.map_comp comp_def add.assoc split: option.split)
qed

lemma gcs_group_prefix: "gcs_group q k = Some c \<Longrightarrow> starts_with c (gq_prefix q)"
  by (auto simp: gcs_group_def Let_def starts_with_split)

interpretation gcs_groups: grouping "\<lambda>q k. starts_with k (gq_prefix q)" gcs_group
proof unfold_locales
  fix q k c assume k: "starts_with k (gq_prefix q)" "gcs_group q k = Some c"
  then show "\<exists>s. k = c @ s" using first_group_split by (simp add: gcs_group_first)
  fix k' assume k': "starts_with k' c"
  then have ok: "starts_with k' (gq_prefix q)" using gcs_group_prefix[OF k(2)] by (auto simp: starts_with_split)
  have "gq_delim q \<noteq> Some []" by (auto simp: gq_delim_def split: option.splits if_splits)
  from first_group_same[OF _ k' this] k ok have "gcs_group q k' = Some c" by (simp add: gcs_group_first)
  with ok show "starts_with k' (gq_prefix q) \<and> gcs_group q k' = Some c" by blast
qed

text \<open>Every entry is a name, in order; \<open>seen\<close> are names at or before all that follow.\<close>

lemma gcs_entries_keys:
  assumes "sorted_wrt (<) (map go_name rows)" "\<And>ob. ob \<in> set rows \<Longrightarrow> starts_with (go_name ob) (gq_prefix q)"
    "\<And>c ob. c \<in> set seen \<Longrightarrow> ob \<in> set rows \<Longrightarrow> c \<le> gcs_listed q (go_name ob) \<and> gcs_group q c = Some c"
  shows "sorted_wrt (<) (map entry_key (gcs_entries q rows seen))
    \<and> set (map entry_key (gcs_entries q rows seen))
      = gcs_listed q ` go_name ` {ob \<in> set rows. \<not> gcs_outside q (go_name ob)} - set seen"
  using assms
proof (induction rows arbitrary: seen)
  case (Cons r rows)
  let ?n = "go_name r"
  have prem: "sorted_wrt (<) (map go_name rows)" "\<And>ob. ob \<in> set rows \<Longrightarrow> starts_with (go_name ob) (gq_prefix q)"
    "starts_with ?n (gq_prefix q)" "\<And>ob. ob \<in> set rows \<Longrightarrow> ?n < go_name ob"
    using Cons.prems(1,2) by auto
  have le: "gcs_listed q ?n \<le> gcs_listed q (go_name ob)" if "ob \<in> set rows" for ob
    by (rule gcs_groups.listed_mono) (use prem that in \<open>auto intro: less_imp_le\<close>)
  have IH: "sorted_wrt (<) (map entry_key (gcs_entries q rows seen'))
      \<and> set (map entry_key (gcs_entries q rows seen'))
        = gcs_listed q ` go_name ` {ob \<in> set rows. \<not> gcs_outside q (go_name ob)} - set seen'"
    if "\<And>c ob. c \<in> set seen' \<Longrightarrow> ob \<in> set rows \<Longrightarrow> c \<le> gcs_listed q (go_name ob) \<and> gcs_group q c = Some c" for seen'
    by (rule Cons.IH) (use prem that in auto)
  have seen: "sorted_wrt (<) (map entry_key (gcs_entries q rows seen))
      \<and> set (map entry_key (gcs_entries q rows seen))
        = gcs_listed q ` go_name ` {ob \<in> set rows. \<not> gcs_outside q (go_name ob)} - set seen"
    by (rule IH) (use Cons.prems(3) in auto)
  show ?case
  proof (cases "gcs_outside q ?n")
    case True
    then show ?thesis using seen by (auto simp: image_def)
  next
    case inside: False
    show ?thesis
    proof (cases "gcs_group q ?n")
      case None
      then have name: "gcs_listed q ?n = ?n" by (simp add: listed_by_def)
      have later: "?n < gcs_listed q (go_name ob)" if "ob \<in> set rows" for ob
        by (rule gcs_groups.listed_key[OF _ None]) (use prem that in auto)
      have "?n \<notin> set seen" using Cons.prems(3)[of ?n r] None by auto
      moreover have "{ob \<in> set (r # rows). \<not> gcs_outside q (go_name ob)} = insert r {ob \<in> set rows. \<not> gcs_outside q (go_name ob)}"
        using inside by auto
      moreover have "?n < x" if "x \<in> set (map entry_key (gcs_entries q rows seen))" for x
      proof -
        have "x \<in> gcs_listed q ` go_name ` set rows" using seen that by blast
        with later show ?thesis by auto
      qed
      ultimately show ?thesis using seen inside None name by (simp add: insert_Diff_if del: set_simps(2)) auto
    next
      case (Some p)
      then have name: "gcs_listed q ?n = p" by (simp add: listed_by_def)
      show ?thesis
      proof (cases "p \<in> set seen")
        case True
        then show ?thesis using seen inside Some name by (auto simp: image_iff)
      next
        case False
        have pp: "gcs_group q p = Some p"
          using gcs_groups.group_same[OF prem(3) Some] by (simp add: starts_with_def)
        have IHp: "sorted_wrt (<) (map entry_key (gcs_entries q rows (p # seen)))
            \<and> set (map entry_key (gcs_entries q rows (p # seen)))
              = gcs_listed q ` go_name ` {ob \<in> set rows. \<not> gcs_outside q (go_name ob)} - set (p # seen)"
          by (rule IH) (use Cons.prems(3) le pp name in auto)
        have "p < x" if "x \<in> set (map entry_key (gcs_entries q rows (p # seen)))" for x
        proof -
          have "x \<in> gcs_listed q ` go_name ` set rows" "x \<noteq> p" using IHp that by (blast, auto)
          with le name show ?thesis by (auto simp: order.not_eq_order_implies_strict)
        qed
        moreover have "{ob \<in> set (r # rows). \<not> gcs_outside q (go_name ob)} = insert r {ob \<in> set rows. \<not> gcs_outside q (go_name ob)}"
          using inside by auto
        ultimately show ?thesis using IHp inside Some name False by (simp add: insert_Diff_if del: set_simps(2)) auto
      qed
    qed
  qed
qed simp

subsection \<open>Pages\<close>

lemma gcs_query_token:
  "gcs_outside (q\<lparr> gq_token := t \<rparr>) = gcs_outside q" "gcs_group (q\<lparr> gq_token := t \<rparr>) = gcs_group q"
  "gcs_max (q\<lparr> gq_token := t \<rparr>) = gcs_max q"
  by (auto simp: fun_eq_iff gcs_outside_def gcs_group_def gq_delim_def gcs_max_def)

lemma gcs_entries_token: "gcs_entries (q\<lparr> gq_token := t \<rparr>) rows seen = gcs_entries q rows seen"
  by (induction rows arbitrary: seen) (simp_all add: gcs_query_token split: option.split)

definition gcs_list_rows :: "gcs_env \<Rightarrow> string \<Rightarrow> gcs_query \<Rightarrow> gcs_db \<Rightarrow> gcs_object list" where
  "gcs_list_rows X b q db = map (row_to_object X)
     (sort_key gr_name (filter (\<lambda>r. gr_bucket r = b \<and> starts_with (gr_name r) (gq_prefix q)) (gcs_objects db)))"

definition gcs_names :: "gcs_env \<Rightarrow> string \<Rightarrow> gcs_query \<Rightarrow> gcs_db \<Rightarrow> string list" where
  "gcs_names X b q db = map entry_key (gcs_entries q (gcs_list_rows X b q db) [])"

lemma gcs_names_sorted:
  assumes "gcs_keys_ok db"
  shows "sorted_wrt (<) (gcs_names X b q db)"
    "set (gcs_names X b q db) = {gcs_listed q (gr_name r) | r. r \<in> set (gcs_objects db) \<and> gr_bucket r = b
       \<and> starts_with (gr_name r) (gq_prefix q) \<and> \<not> gcs_outside q (gr_name r)}"
proof -
  let ?P = "\<lambda>r. gr_bucket r = b \<and> starts_with (gr_name r) (gq_prefix q)"
  have name: "go_name \<circ> row_to_object X = gr_name" by (simp add: fun_eq_iff row_to_object_def)
  have "distinct (map gr_name (filter ?P (gcs_objects db)))"
    using assms unfolding gcs_keys_ok_def distinct_map inj_on_def by auto
  then have "sorted_wrt (<) (map go_name (gcs_list_rows X b q db))"
    unfolding gcs_list_rows_def map_map name strict_sorted_iff by (simp add: distinct_map del: filter_sort)
  moreover have prefix: "starts_with (go_name ob) (gq_prefix q)" if "ob \<in> set (gcs_list_rows X b q db)" for ob
    using that by (auto simp: gcs_list_rows_def row_to_object_def)
  ultimately have keys: "sorted_wrt (<) (gcs_names X b q db) \<and> set (gcs_names X b q db)
      = gcs_listed q ` go_name ` {ob \<in> set (gcs_list_rows X b q db). \<not> gcs_outside q (go_name ob)} - set []"
    unfolding gcs_names_def by (intro gcs_entries_keys) auto
  then show "sorted_wrt (<) (gcs_names X b q db)" by blast
  have "go_name ` {ob \<in> set (gcs_list_rows X b q db). \<not> gcs_outside q (go_name ob)}
      = gr_name ` {r \<in> set (gcs_objects db). ?P r \<and> \<not> gcs_outside q (gr_name r)}"
    by (force simp: gcs_list_rows_def row_to_object_def image_iff)
  with keys show "set (gcs_names X b q db) = {gcs_listed q (gr_name r) | r. r \<in> set (gcs_objects db) \<and> gr_bucket r = b
       \<and> starts_with (gr_name r) (gq_prefix q) \<and> \<not> gcs_outside q (gr_name r)}" by auto
qed

text \<open>A page as its names, in order.\<close>

definition gcs_names_page ::
    "gcs_env \<Rightarrow> string \<Rightarrow> gcs_query \<Rightarrow> gcs_db \<Rightarrow> string option \<Rightarrow> (gcs_error, string list \<times> string option) result" where
  "gcs_names_page X b q db t = map_sum id (\<lambda>l. (sort (map go_name (gl_items l) @ gl_prefixes l), gl_token l))
     (gcs_list_objects X b (q\<lparr> gq_token := t \<rparr>) db)"

lemma entry_names:
  "sorted (map entry_key es) \<Longrightarrow> sort (map go_name (List.map_filter (\<lambda>e. case e of GItem ob \<Rightarrow> Some ob | GPrefix _ \<Rightarrow> None) es)
     @ List.map_filter (\<lambda>e. case e of GPrefix p \<Rightarrow> Some p | GItem _ \<Rightarrow> None) es) = map entry_key es"
proof (rule properties_for_sort)
  show "mset (map entry_key es) = mset (map go_name (List.map_filter (\<lambda>e. case e of GItem ob \<Rightarrow> Some ob | GPrefix _ \<Rightarrow> None) es)
     @ List.map_filter (\<lambda>e. case e of GPrefix p \<Rightarrow> Some p | GItem _ \<Rightarrow> None) es)"
    by (induction es) (auto simp: List.map_filter_def split: gcs_entry.split)
qed

fun gcs_at :: "gcs_env \<times> string \<times> gcs_query \<times> gcs_db \<Rightarrow> string option \<Rightarrow> nat \<Rightarrow> bool" where
  "gcs_at (X, b, q, db) None i \<longleftrightarrow> i = 0"
| "gcs_at (X, b, q, db) (Some t) i \<longleftrightarrow> (\<exists>a. t = b64url_encode (gx_ext X) a \<and> 0 < i \<and> i \<le> length (gcs_names X b q db)
     \<and> a = gcs_names X b q db ! (i - 1))"

definition gcs_paged :: "gcs_env \<times> string \<times> gcs_query \<times> gcs_db \<Rightarrow> bool" where
  "gcs_paged = (\<lambda>(X, b, q, db). b64url_roundtrip (gx_ext X) \<and> gcs_keys_ok db \<and> gcs_bucket_exists b db
     \<and> list_all utf8_valid (gcs_names X b q db))"

lemma gcs_names_page_at:
  assumes "gcs_paged (X, b, q, db)" "gcs_at (X, b, q, db) t i"
  shows "gcs_names_page X b q db t = (let rest = drop i (gcs_names X b q db)
    in Inr (take (gcs_max q) rest,
       if gcs_max q < length rest then Some (b64url_encode (gx_ext X) (last (take (gcs_max q) rest))) else None))"
proof -
  let ?q = "q\<lparr> gq_token := t \<rparr>" and ?es = "gcs_entries q (gcs_list_rows X b q db) []"
  let ?after = "\<lambda>n. case gq_after X ?q of Some a \<Rightarrow> a < n | None \<Rightarrow> True"
  let ?page = "take (gcs_max q) (filter (\<lambda>e. ?after (entry_key e)) ?es)"
  have ok: "gcs_keys_ok db" "gcs_bucket_exists b db" "list_all utf8_valid (gcs_names X b q db)" "b64url_roundtrip (gx_ext X)"
    using assms(1) by (simp_all add: gcs_paged_def)
  have strict: "sorted_wrt (<) (map entry_key ?es)" using gcs_names_sorted(1)[OF ok(1)] by (simp add: gcs_names_def)
  have rest: "map entry_key (filter (\<lambda>e. ?after (entry_key e)) ?es) = drop i (gcs_names X b q db)"
  proof (cases t)
    case None
    with assms(2) show ?thesis by (simp add: gq_after_def gcs_names_def)
  next
    case (Some tok)
    then obtain a where a: "tok = b64url_encode (gx_ext X) a" "0 < i" "i \<le> length (gcs_names X b q db)"
      "a = gcs_names X b q db ! (i - 1)" using assms(2) by auto
    then have "utf8_valid a" using ok(3) by (simp add: list_all_length)
    then have "gq_after X ?q = Some a" using ok(4) a(1) Some by (simp add: gq_after_def b64url_roundtrip_def)
    then show ?thesis
      using drop_greater[OF strict a(2)] a(3,4) by (simp add: gcs_names_def filter_map comp_def)
  qed
  have len: "length (filter (\<lambda>e. ?after (entry_key e)) ?es) = length (drop i (gcs_names X b q db))"
    unfolding rest[symmetric] by simp
  have page: "map entry_key ?page = take (gcs_max q) (drop i (gcs_names X b q db))"
    unfolding take_map[symmetric] rest ..
  have "sorted (map entry_key ?page)"
    using strict unfolding page gcs_names_def by (simp add: strict_sorted_iff sorted_wrt_take sorted_wrt_drop)
  then have names: "sort (map go_name (List.map_filter (\<lambda>e. case e of GItem ob \<Rightarrow> Some ob | GPrefix _ \<Rightarrow> None) ?page)
     @ List.map_filter (\<lambda>e. case e of GPrefix p \<Rightarrow> Some p | GItem _ \<Rightarrow> None) ?page) = take (gcs_max q) (drop i (gcs_names X b q db))"
    using entry_names[of ?page] page by simp
  have max: "0 < gcs_max q" by (simp add: gcs_max_def split: option.split)
  have last: "entry_key (last ?page) = last (take (gcs_max q) (drop i (gcs_names X b q db)))" if "?page \<noteq> []"
    using that by (simp add: page[symmetric] last_map)
  have "gcs_list_objects X b ?q db = Inr (gcs_paginate X (gcs_list_rows X b q db) ?q)"
    using ok(2) by (simp add: gcs_list_objects_def gcs_list_rows_def)
  moreover have "?page \<noteq> []" if "gcs_max q < length (drop i (gcs_names X b q db))"
    using that max len by (metis gr_implies_not0 length_0_conv length_greater_0_conv not_gr_zero take_eq_Nil)
  ultimately show ?thesis
    using last by (simp add: gcs_names_page_def gcs_paginate_def gcs_query_token gcs_entries_token Let_def names len)
qed

interpretation gcs_pages: pager gcs_paged "\<lambda>(X, b, q, db). gcs_names_page X b q db"
  "\<lambda>(X, b, q, db). gcs_names X b q db" gcs_at
proof (unfold_locales, goal_cases)
  case (1 v)
  then show ?case by (cases v) simp
next
  case (2 v t i)
  obtain X b q db where v: "v = (X, b, q, db)" by (cases v)
  let ?ns = "gcs_names X b q db"
  let ?part = "take (gcs_max q) (drop i ?ns)"
  let ?u = "if gcs_max q < length (drop i ?ns) then Some (b64url_encode (gx_ext X) (last ?part)) else None"
  have page: "gcs_names_page X b q db t = Inr (?part, ?u)"
    using gcs_names_page_at[of X b q db t i] 2 by (simp add: v Let_def)
  have max: "0 < gcs_max q" by (simp add: gcs_max_def split: option.split)
  have more: "?part \<noteq> [] \<and> last ?part = ?ns ! (i + length ?part - 1)" if "gcs_max q < length (drop i ?ns)"
    using that max by (auto simp: last_conv_nth min_def)
  show ?case
    unfolding v prod.case
    by (intro exI[of _ ?part] exI[of _ ?u] conjI page) (use more max in \<open>auto simp: min_def split: if_splits\<close>)
qed

text \<open>Listing is complete.  Following the page tokens of objects.list, with any prefix, delimiter, offsets
  and page size, collects in order and once each the names that have the prefix and lie within the offsets,
  grouped by the delimiter.\<close>

theorem gcs_listing_complete:
  assumes law: "b64url_roundtrip (gx_ext X)" and db: "db = snd (run_ops (gcs_exec X) xs gcs_init)"
    and b: "gcs_bucket_exists b db" and utf8: "list_all utf8_valid (gcs_names X b q db)"
    and fuel: "length (gcs_objects db) < fuel"
  shows "\<exists>names. collect_pages fuel (gcs_names_page X b q db) None = Some names \<and> sorted_wrt (<) names
    \<and> set names = {gcs_listed q (gr_name r) | r. r \<in> set (gcs_objects db) \<and> gr_bucket r = b
        \<and> starts_with (gr_name r) (gq_prefix q) \<and> \<not> gcs_outside q (gr_name r)}"
proof -
  have ok: "gcs_keys_ok db" unfolding db by (rule gcs.inv_reached) simp
  note names = gcs_names_sorted[OF ok, of X b q]
  have "length (gcs_names X b q db) = card (set (gcs_names X b q db))"
    using names(1) by (metis distinct_card strict_sorted_iff)
  also have "\<dots> \<le> card ((\<lambda>r. gcs_listed q (gr_name r)) ` set (gcs_objects db))"
    by (rule card_mono) (auto simp: names(2))
  also have "\<dots> \<le> card (set (gcs_objects db))" by (rule card_image_le) simp
  also have "\<dots> \<le> length (gcs_objects db)" by (rule card_length)
  finally have "length (gcs_names X b q db) < fuel" using fuel by simp
  then have "collect_pages fuel (gcs_names_page X b q db) None = Some (gcs_names X b q db)"
    using gcs_pages.collect_all[of "(X, b, q, db)" fuel] law ok b utf8 by (simp add: gcs_paged_def)
  with names show ?thesis by blast
qed

lemma gcs_sample_object_name [simp]: "go_name (row_to_object X r) = gr_name r"
  by (simp add: row_to_object_def)

theorem gcs_listing_complete_witness:
  "\<exists>names. collect_pages 9
      (gcs_names_page gcs_sample_env ''b''
        \<lparr> gq_prefix = [], gq_delimiter = Some ''/'', gq_start = None, gq_end = Some ''d'', gq_max = Some 1, gq_token = None \<rparr>
        (snd (run_ops (gcs_exec gcs_sample_env)
          (GcsCreateBucket ''b'' None 0 # map (\<lambda>n. GcsUpload ''b'' n ''x'' ''t'' (JObj []) None 1) [''a/x'', ''c'', ''a/y'']) gcs_init))) None
      = Some names \<and> sorted_wrt (<) names \<and> set names = {''a/'', ''c''}"
proof -
  define q where "q = \<lparr> gq_prefix = [], gq_delimiter = Some ''/'', gq_start = None, gq_end = Some ''d'', gq_max = Some 1, gq_token = None \<rparr>"
  let ?rows = "[gcs_sample_row ''a/x'' ''x'' 1, gcs_sample_row ''c'' ''x'' 1, gcs_sample_row ''a/y'' ''x'' 1]"
  let ?ops = "GcsCreateBucket ''b'' None 0 # map (\<lambda>n. GcsUpload ''b'' n ''x'' ''t'' (JObj []) None 1) [''a/x'', ''c'', ''a/y'']"
  have "snd (run_ops (gcs_exec gcs_sample_env) ?ops gcs_init) = gcs_sample_db ?rows"
    using gcs_sample_create by (simp add: Let_def gcs_sample_upload gcs_upsert_def)
  then have db: "gcs_sample_db ?rows = snd (run_ops (gcs_exec gcs_sample_env) ?ops gcs_init)" ..
  have group: "gcs_group q ''a/x'' = Some ''a/''" "gcs_group q ''a/y'' = Some ''a/''" "gcs_group q ''c'' = None"
    by (simp_all add: q_def gcs_group_def gq_delim_def starts_with_def)
  have q_prefix: "gq_prefix q = []" by (simp add: q_def)
  have inside: "\<not> gcs_outside q ''a/x''" "\<not> gcs_outside q ''a/y''" "\<not> gcs_outside q ''c''"
    by (simp_all add: q_def gcs_outside_def)
  have "gcs_keys_ok (gcs_sample_db ?rows)" by (simp add: gcs_keys_ok_def)
  note names = gcs_names_sorted(2)[OF this, of gcs_sample_env "''b''" q]
  have all: "{f r | r. r \<in> S \<and> P r \<and> Q r \<and> R r} = f ` S" if "\<And>r. r \<in> S \<Longrightarrow> P r \<and> Q r \<and> R r"
    for f :: "gcs_row \<Rightarrow> string" and S P Q R using that by blast
  have set: "{gcs_listed q (gr_name r) | r. r \<in> set ?rows \<and> gr_bucket r = ''b''
      \<and> starts_with (gr_name r) (gq_prefix q) \<and> \<not> gcs_outside q (gr_name r)} = {''a/'', ''c''}"
    by (subst all) (auto simp: starts_with_def q_prefix inside group listed_by_def)
  have "utf8_valid ''a/''" "utf8_valid ''c''" by code_simp+
  then have "list_all utf8_valid (gcs_names gcs_sample_env ''b'' q (gcs_sample_db ?rows))"
    unfolding list_all_iff using names set by simp
  from gcs_listing_complete[OF _ db _ this, of 9] show ?thesis unfolding db[symmetric] q_def[symmetric] using set by simp
qed

end
