(* ===== verification/Gcs_Resumable.thy ===== *)
theory Gcs_Resumable
  imports Gcs_Properties
begin

text \<open>
  Google Cloud Storage, part 5: resumable uploads.  Requests reach the router in any order; those that
  carry a chunk of an upload say which bytes of the file they hold.
\<close>

subsection \<open>Serving requests\<close>

type_synonym gcs_call = "string \<times> gcs_target \<times> web_request \<times> int"

definition gcs_serve :: "gcs_env \<Rightarrow> gcs_call \<Rightarrow> gcs_state \<Rightarrow> http_response \<times> gcs_state" where
  "gcs_serve X = (\<lambda>(m, target, r, now) s. case gcs_route X m target r now of Some h \<Rightarrow> h s | None \<Rightarrow> (status_response 405, s))"

text \<open>Upload identifiers drawn at different times differ.\<close>

definition uploads_fresh :: "gcs_env \<Rightarrow> bool" where
  "uploads_fresh X \<longleftrightarrow> inj (\<lambda>n. uuid_simple (uuid_v4 (gx_ext X) n))"

text \<open>A chunk request for the upload holds the bytes of \<open>data\<close> at the offset it states, and states the length of \<open>data\<close> or none.\<close>

definition honest_chunk :: "string \<Rightarrow> web_request \<Rightarrow> bool" where
  "honest_chunk data r \<longleftrightarrow> (case Option.bind (gcs_header ''content-range'' r) parse_content_range of
     None \<Rightarrow> gcs_header ''content-range'' r = None \<longrightarrow> rq_body r = data
   | Some cr \<Rightarrow> (case cr_start cr of Some a \<Rightarrow> rq_body r = take (length (rq_body r)) (drop a data) | None \<Rightarrow> True)
       \<and> (case cr_total cr of Some t \<Rightarrow> t = length data | None \<Rightarrow> True))"

definition honest_call :: "string \<Rightarrow> string \<Rightarrow> gcs_call \<Rightarrow> bool" where
  "honest_call uid data = (\<lambda>(m, target, r, now).
     (case target of RUpload b \<Rightarrow> m = ''PUT'' \<and> map_of (rq_params r) ''upload_id'' = Some uid | _ \<Rightarrow> False) \<longrightarrow> honest_chunk data r)"

subsection \<open>Sessions\<close>

text \<open>The session of an upload holds the first bytes of the file; no later session gets its identifier.\<close>

definition upload_ok :: "gcs_env \<Rightarrow> string \<Rightarrow> gcs_session \<Rightarrow> string \<Rightarrow> gcs_state \<Rightarrow> bool" where
  "upload_ok X uid ses data s \<longleftrightarrow> (\<exists>k<gs_draws s. uid = uuid_simple (uuid_v4 (gx_ext X) k))
     \<and> (\<forall>ss. map_of (gs_sessions s) uid = Some ss \<longrightarrow> se_bucket ss = se_bucket ses \<and> se_name ss = se_name ses
          \<and> (\<exists>k. se_data ss = take k data))"

lemma gcs_answer_sessions:
  "gs_sessions (snd (gcs_answer X act ok rep s)) = gs_sessions s" "gs_draws (snd (gcs_answer X act ok rep s)) = gs_draws s"
  by (simp_all add: gcs_answer_def split: prod.split sum.split)

lemma store_object_sessions:
  "gs_sessions (snd (store_object X r b n data ct meta g now s)) = gs_sessions s"
  "gs_draws (snd (store_object X r b n data ct meta g now s)) = gs_draws s"
  by (simp_all add: store_object_def gcs_answer_sessions)

lemma upload_ok_keep:
  assumes ok: "upload_ok X uid ses data s" and draws: "gs_draws s \<le> gs_draws s'"
    and sess: "map_of (gs_sessions s') uid = None \<or> map_of (gs_sessions s') uid = map_of (gs_sessions s) uid"
  shows "upload_ok X uid ses data s'"
proof -
  from ok draws have "\<exists>k<gs_draws s'. uid = uuid_simple (uuid_v4 (gx_ext X) k)"
    unfolding upload_ok_def using less_le_trans by blast
  then show ?thesis using ok sess unfolding upload_ok_def by force
qed

lemma start_resumable_ok:
  assumes "uploads_fresh X" "upload_ok X uid ses data s"
  shows "upload_ok X uid ses data (snd (start_resumable X b r s))"
proof -
  let ?new = "uuid_simple (uuid_v4 (gx_ext X) (gs_draws s))"
  obtain k where k: "k < gs_draws s" "uid = uuid_simple (uuid_v4 (gx_ext X) k)" using assms(2) by (auto simp: upload_ok_def)
  have "?new \<noteq> uid"
  proof
    assume "?new = uid"
    then have "gs_draws s = k" using assms(1) k(2) unfolding uploads_fresh_def by (auto dest: injD)
    with k(1) show False by simp
  qed
  then have "upload_ok X uid ses data (s\<lparr> gs_draws := Suc (gs_draws s), gs_sessions := AList.update ?new se (gs_sessions s) \<rparr>)" for se
    by (intro upload_ok_keep[OF assms(2)]) (simp_all add: update_conv')
  then show ?thesis using assms(2) by (simp add: start_resumable_def Let_def split: sum.split)
qed

lemma keeps_let: "(\<And>x. Q (f x s)) \<Longrightarrow> Q ((Let v f) s)"
  by simp

lemma gcs_upload_ok:
  assumes "uploads_fresh X" "upload_ok X uid ses data s"
  shows "upload_ok X uid ses data (snd (h_gcs_upload X b r now s))"
proof -
  have store: "upload_ok X uid ses data (snd (store_object X r b n d ct meta g now s))" for n d ct meta g
    by (intro upload_ok_keep[OF assms(2)]) (simp_all add: store_object_sessions)
  note keeps = keeps_let[where Q = "\<lambda>p. upload_ok X uid ses data (snd p)"]
  show ?thesis
    unfolding h_gcs_upload_def
    by (rule keeps, rule keeps, rule keeps, rule keeps)
       (simp add: store start_resumable_ok[OF assms] assms(2) Let_def split: option.split list.split prod.split)
qed

text \<open>What a chunk adds.\<close>

lemma add_chunk_prefix:
  assumes "honest_chunk data r" "gcs_header ''content-range'' r = None \<and> cr = None
      \<or> (\<exists>v c. gcs_header ''content-range'' r = Some v \<and> parse_content_range v = Some c \<and> cr = Some c)"
    "add_chunk cr (rq_body r) (take k data) = Some (d, complete)"
  shows "\<exists>j. d = take j data" "complete \<Longrightarrow> d = data \<or> (\<exists>c. cr = Some c \<and> cr_total c = None)"
proof -
  show prefix: "\<exists>j. d = take j data"
  proof (cases cr)
    case None
    with assms have "d = data" by (auto simp: add_chunk_def honest_chunk_def)
    then show ?thesis by (intro exI[of _ "length data"]) simp
  next
    case (Some c)
    with assms(1,2) have h: "case cr_start c of Some a \<Rightarrow> rq_body r = take (length (rq_body r)) (drop a data) | None \<Rightarrow> True"
      by (auto simp: honest_chunk_def)
    show ?thesis
    proof (cases "cr_start c")
      case None
      with assms(3) Some show ?thesis by (auto simp: add_chunk_def)
    next
      case start: (Some a)
      with h assms(3) Some have a: "a \<le> length (take k data)" and d: "d = take a (take k data) @ rq_body r"
        by (auto simp: add_chunk_def split: if_splits)
      have "d = take a data @ take (length (rq_body r)) (drop a data)" using h start a d by (simp add: min_def split: if_splits)
      then show ?thesis by (intro exI[of _ "a + length (rq_body r)"]) (simp add: take_add)
    qed
  qed
  assume complete
  then show "d = data \<or> (\<exists>c. cr = Some c \<and> cr_total c = None)"
  proof (cases cr)
    case (Some c)
    show ?thesis
    proof (cases "cr_total c")
      case (Some t)
      with \<open>cr = Some c\<close> assms(1,2) have "t = length data" by (auto simp: honest_chunk_def)
      moreover have "t \<le> length d" using assms(3) \<open>cr = Some c\<close> Some \<open>complete\<close> by (auto simp: add_chunk_def split: if_splits)
      ultimately show ?thesis using prefix by auto
    qed (use Some in simp)
  qed (use assms in \<open>auto simp: add_chunk_def honest_chunk_def\<close>)
qed

subsection \<open>Every request keeps the session a prefix of the file\<close>

lemma gcs_put_range:
  assumes "(case gcs_header ''content-range'' r of None \<Rightarrow> Some None | Some v \<Rightarrow> map_option Some (parse_content_range v)) = Some cr"
  shows "gcs_header ''content-range'' r = None \<and> cr = None
    \<or> (\<exists>v c. gcs_header ''content-range'' r = Some v \<and> parse_content_range v = Some c \<and> cr = Some c)"
  using assms by (auto split: option.splits)

lemma resumable_put_other:
  assumes "map_of (rq_params r) ''upload_id'' = Some u" "u \<noteq> uid" "upload_ok X uid ses data s"
  shows "upload_ok X uid ses data (snd (h_gcs_resumable_put X r now s))"
proof -
  let ?s = "snd (h_gcs_resumable_put X r now s)"
  have "gs_draws ?s = gs_draws s" "map_of (gs_sessions ?s) uid = map_of (gs_sessions s) uid"
    using assms(1,2)
    by (auto simp: h_gcs_resumable_put_def store_object_sessions update_conv' delete_conv' split: option.split bool.split)
  then show ?thesis by (intro upload_ok_keep[OF assms(3)]) simp_all
qed

lemma resumable_put_here:
  assumes "map_of (rq_params r) ''upload_id'' = Some uid" "honest_chunk data r" "upload_ok X uid ses data s"
  shows "upload_ok X uid ses data (snd (h_gcs_resumable_put X r now s))"
proof (cases "case gcs_header ''content-range'' r of None \<Rightarrow> Some None | Some v \<Rightarrow> map_option Some (parse_content_range v)")
  case None
  then show ?thesis using assms by (simp add: h_gcs_resumable_put_def)
next
  case (Some cr)
  note range = gcs_put_range[OF Some]
  show ?thesis
  proof (cases "map_of (gs_sessions s) uid")
    case None
    then show ?thesis using assms Some by (simp add: h_gcs_resumable_put_def)
  next
    case ses': (Some ss)
    then obtain k where k: "se_data ss = take k data" "se_bucket ss = se_bucket ses" "se_name ss = se_name ses"
      using assms(3) by (auto simp: upload_ok_def)
    show ?thesis
    proof (cases "add_chunk cr (rq_body r) (se_data ss)")
      case None
      then show ?thesis using assms Some ses' by (simp add: h_gcs_resumable_put_def)
    next
      case (Some res)
      obtain d c where res: "res = (d, c)" by (cases res)
      obtain j where "d = take j data" using add_chunk_prefix(1)[OF assms(2) range] Some res k(1) by metis
      then have upd: "upload_ok X uid ses data
          (s\<lparr> gs_sessions := AList.update uid (ss\<lparr> se_data := d \<rparr>) (gs_sessions s) \<rparr>)"
        using assms(3) k unfolding upload_ok_def by (simp add: update_conv') blast
      have del: "upload_ok X uid ses data (snd (store_object X r b n d' ct meta g now
          (s\<lparr> gs_sessions := AList.delete uid (gs_sessions s) \<rparr>)))" for b n d' ct meta g
        by (intro upload_ok_keep[OF assms(3)]) (simp_all add: store_object_sessions delete_conv')
      show ?thesis
        using assms(1) \<open>_ = Some cr\<close> ses' Some res upd del
        by (cases c) (simp_all add: h_gcs_resumable_put_def)
    qed
  qed
qed

lemma upload_ok_serve:
  assumes fresh: "uploads_fresh X" and ok: "upload_ok X uid ses data s" and honest: "honest_call uid data x"
  shows "upload_ok X uid ses data (snd (gcs_serve X x s))"
proof -
  obtain m target r now where x: "x = (m, target, r, now)" by (cases x)
  have same: "upload_ok X uid ses data (snd (gcs_answer X act f rep s))" for act :: "(gcs_db, 'a) gcs_act" and f rep
    by (intro upload_ok_keep[OF ok]) (simp_all add: gcs_answer_sessions)
  show ?thesis
  proof (cases target)
    case (RUpload b)
    have put: "upload_ok X uid ses data (snd (h_gcs_resumable_put X r now s))" if "m = ''PUT''"
    proof (cases "map_of (rq_params r) ''upload_id''")
      case None
      then show ?thesis using ok by (simp add: h_gcs_resumable_put_def)
    next
      case (Some u)
      show ?thesis
      proof (cases "u = uid")
        case True
        then have "honest_chunk data r" using honest that RUpload Some by (simp add: honest_call_def x)
        then show ?thesis using resumable_put_here Some True ok by blast
      qed (use resumable_put_other Some ok in blast)
    qed
    have cancel: "upload_ok X uid ses data (snd (h_gcs_resumable_cancel X r s))"
      by (rule upload_ok_keep[OF ok])
         (simp_all add: h_gcs_resumable_cancel_def delete_conv' split: option.split)
    show ?thesis
      unfolding x gcs_serve_def RUpload
      using put cancel gcs_upload_ok[OF fresh ok] ok by (simp split: option.split)
  qed (use ok in \<open>simp_all add: x gcs_serve_def gcs_read_def same h_gcs_create_bucket_def h_gcs_list_buckets_def h_gcs_get_bucket_def
      h_gcs_delete_bucket_def h_gcs_list_objects_def h_gcs_get_object_def h_gcs_patch_def h_gcs_delete_object_def h_gcs_download_def Let_def\<close>)
qed

subsection \<open>What is stored\<close>

lemma find_sql_update_row:
  "list_ex P rows \<Longrightarrow> P r \<Longrightarrow> find P (sql_update P (\<lambda>_. r) rows) = Some r"
  by (induction rows) (auto simp: sql_update_def)

lemma load_gcs_upsert:
  "load_object X (gr_bucket r) (gr_name r) (db\<lparr> gcs_objects := gcs_upsert r rows \<rparr>) = Some (row_to_object X r)"
proof -
  have self: "gcs_row_is (gr_bucket r) (gr_name r) r" by (simp add: gcs_row_is_def)
  have "find (gcs_row_is (gr_bucket r) (gr_name r)) (gcs_upsert r rows) = Some r"
  proof (cases "list_ex (gcs_row_is (gr_bucket r) (gr_name r)) rows")
    case True
    with find_sql_update_row[OF this self] show ?thesis by (simp add: gcs_upsert_def)
  next
    case False
    then have "find (gcs_row_is (gr_bucket r) (gr_name r)) rows = None" by (auto simp: list_ex_iff find_None_iff)
    with False self show ?thesis by (simp add: gcs_upsert_def find_append)
  qed
  then show ?thesis by (simp add: load_object_def)
qed

lemma gcs_upload_stores:
  assumes "gcs_upload_object X b n c ct p g now db = (Inr ob, db')"
  shows "\<exists>ob'. load_object X b n db' = Some ob' \<and> go_content ob' = c"
proof -
  let ?r = "object_to_row X (new_gcs_object X b n c ct p now)"
  have "db' = db\<lparr> gcs_objects := gcs_upsert ?r (gcs_objects db) \<rparr>"
    using assms by (auto simp: gcs_upload_object_def Let_def split: if_splits sum.splits)
  moreover have "gr_bucket ?r = b" "gr_name ?r = n" "go_content (row_to_object X ?r) = c"
    by (simp_all add: object_to_row_def new_gcs_object_def row_to_object_def)
  ultimately show ?thesis using load_gcs_upsert[where X = X and r = ?r and db = db and rows = "gcs_objects db"] by metis
qed

lemma gcs_error_status: "http_status (gcs_error_response X e) \<noteq> 200"
  by (cases e) (simp_all add: gcs_error_json_def)

lemma store_object_stores:
  assumes "http_status (fst (store_object X r b n data ct meta g now s)) = 200"
  shows "\<exists>ob. load_object X b n (gs_db (snd (store_object X r b n data ct meta g now s))) = Some ob \<and> go_content ob = data"
proof -
  have n: "n \<noteq> []" using assms by (auto simp: store_object_def gcs_error_json_def)
  obtain res db' where up: "gcs_upload_object X b n data ct (merge_props (JObj []) meta) g now (gs_db s) = (res, db')"
    by (cases "gcs_upload_object X b n data ct (merge_props (JObj []) meta) g now (gs_db s)")
  then obtain ob where "res = Inr ob"
    using assms n gcs_error_status by (cases res) (auto simp: store_object_def gcs_answer_def)
  with gcs_upload_stores up n show ?thesis by (simp add: store_object_def gcs_answer_def)
qed

text \<open>C35: resumable uploads.  Whatever requests reach the server after an upload was started - chunks lost,
  repeated, overlapping or out of order, requests for other uploads and objects - if those that name the
  upload carry bytes of one file at the offsets they state, then the object stored when one of them is
  answered with 200 is that file, whole.\<close>

theorem gcs_resumable:
  assumes fresh: "uploads_fresh X"
    and start: "start_resumable X b r s = (resp, s0)" "http_status resp = 200" "uid = uuid_simple (uuid_v4 (gx_ext X) (gs_draws s))"
    and ses: "map_of (gs_sessions s0) uid = Some ses"
    and rs: "list_all (honest_call uid data) rs" "s1 = snd (run_ops (gcs_serve X) rs s0)"
    and final: "map_of (rq_params rf) ''upload_id'' = Some uid" "honest_chunk data rf"
    and stored: "gcs_serve X (''PUT'', RUpload b', rf, now) s1 = (rf_resp, s2)" "http_status rf_resp = 200"
  shows "\<exists>ob. load_object X b (se_name ses) (gs_db s2) = Some ob \<and> go_content ob = data"
proof -
  have bucket: "se_bucket ses = b" "se_data ses = []" "gs_draws s0 = Suc (gs_draws s)"
    using start ses gcs_error_status
    by (auto simp: start_resumable_def Let_def gcs_error_json_def update_conv' split: if_splits sum.splits)
  have "\<exists>k<gs_draws s0. uid = uuid_simple (uuid_v4 (gx_ext X) k)"
    using start(3) bucket(3) by (intro exI[of _ "gs_draws s"]) simp
  moreover have "\<exists>k. se_data ses = take k data" by (intro exI[of _ 0]) (simp add: bucket(2))
  ultimately have "upload_ok X uid ses data s0" using ses by (simp add: upload_ok_def)
  moreover have "upload_ok X uid ses data (snd (run_ops (gcs_serve X) rs s'))" if "upload_ok X uid ses data s'" for s'
    using that rs(1)
  proof (induction rs arbitrary: s')
    case (Cons x xs)
    with upload_ok_serve[OF fresh] show ?case by (simp add: Let_def)
  qed simp
  ultimately have ok: "upload_ok X uid ses data s1" using rs(2) by blast
  have put: "h_gcs_resumable_put X rf now s1 = (rf_resp, s2)" using stored(1) by (simp add: gcs_serve_def)
  obtain cr where cr: "(case gcs_header ''content-range'' rf of None \<Rightarrow> Some None | Some v \<Rightarrow> map_option Some (parse_content_range v)) = Some cr"
    using put stored(2) final(1)
    by (cases "case gcs_header ''content-range'' rf of None \<Rightarrow> Some None | Some v \<Rightarrow> map_option Some (parse_content_range v)")
       (auto simp: h_gcs_resumable_put_def gcs_error_json_def)
  obtain ss where ss: "map_of (gs_sessions s1) uid = Some ss"
    using put stored(2) final(1) cr by (cases "map_of (gs_sessions s1) uid") (auto simp: h_gcs_resumable_put_def gcs_error_json_def)
  obtain k where k: "se_data ss = take k data" "se_bucket ss = b" "se_name ss = se_name ses"
    using ok ss bucket(1) by (auto simp: upload_ok_def)
  obtain d c where dc: "add_chunk cr (rq_body rf) (take k data) = Some (d, c)"
    using put stored(2) final(1) cr ss k(1) by (cases "add_chunk cr (rq_body rf) (take k data)") (auto simp: h_gcs_resumable_put_def gcs_error_json_def)
  have c: "c"
    using put stored(2) final(1) cr ss k(1) dc
    by (cases c) (auto simp: h_gcs_resumable_put_def status_response_def try_header_def set_header_def split: if_splits)
  then have "\<not> (\<exists>c. cr = Some c \<and> cr_total c = None)" using dc by (auto simp: add_chunk_def Let_def split: option.splits)
  then have d: "d = data" using add_chunk_prefix(2)[OF final(2) gcs_put_range[OF cr] dc] c by blast
  have "store_object X rf b (se_name ses) data (se_type ss) (se_meta ss) (se_if_gen ss) now
      (s1\<lparr> gs_sessions := AList.delete uid (gs_sessions s1) \<rparr>) = (rf_resp, s2)"
    using put final(1) cr ss k dc c d by (simp add: h_gcs_resumable_put_def)
  then show ?thesis using store_object_stores stored(2) by (metis fst_conv snd_conv)
qed

lemma parse_content_range_text:
  assumes "a < 2 ^ 64" "t < 2 ^ 64"
  shows "parse_content_range (''bytes '' @ show_nat a @ ''-'' @ show_nat e @ ''/'' @ show_nat t)
    = Some \<lparr> cr_start = Some a, cr_total = Some t \<rparr>"
proof -
  have sep: "\<not> is_digit CHR ''-''" "\<not> is_digit CHR ''/''" "\<not> is_digit CHR ''*''" by (simp_all add: is_digit_def)
  note no = not_in_show_nat[OF sep(1)] not_in_show_nat[OF sep(2)] and ends = show_nat_visible(2,3) and word = show_nat_visible(4)
  let ?range = "show_nat a @ ''-'' @ show_nat e" and ?all = "show_nat a @ ''-'' @ show_nat e @ ''/'' @ show_nat t"
  have words: "visible_word ?range" "visible_word ?all" using ends by (simp_all add: visible_word_def)
  have "visible_word (''bytes '' @ ?all)" using ends by (simp add: visible_word_def visible_def)
  then have "trim (''bytes '' @ ?all) = ''bytes '' @ ?all" by (rule trim_word(1))
  moreover have "strip_prefix ''bytes'' (''bytes '' @ ?all) = Some (CHR '' '' # ?all)"
    using strip_prefix_append[of "''bytes''" "CHR '' '' # ?all"] by simp
  moreover have "split_once CHR ''/'' ?all = Some (?range, show_nat t)"
    using split_once_append[of "CHR ''/''" ?range "show_nat t"] no by simp
  moreover have "split_once CHR ''-'' ?range = Some (show_nat a, show_nat e)"
    using split_once_append[of "CHR ''-''" "show_nat a" "show_nat e"] no by simp
  moreover have "show_nat n \<noteq> ''*''" for n using not_in_show_nat[OF sep(3), of n] by auto
  moreover have "?range \<noteq> ''*''" using show_nat_nonempty[of a] by (cases "show_nat a") auto
  ultimately show ?thesis
    using trim_word(2)[OF words(2)] trim_word(1)[OF words(1)] trim_word(1)[OF word] parse_usize_show assms
    by (simp add: parse_content_range_def)
qed

text \<open>A file in two chunks, the first one sent twice.\<close>

definition sample_chunk :: "string \<Rightarrow> string \<Rightarrow> web_request" where
  "sample_chunk cr body = \<lparr> rq_params = [(''upload_id'', ''0'')], rq_headers = [(''content-range'', cr)], rq_body = body \<rparr>"

definition sample_upload :: "string \<Rightarrow> gcs_state" where
  "sample_upload data = \<lparr> gs_db = gcs_sample_db [], gs_sessions = [(''0'', \<lparr> se_bucket = ''b'', se_name = ''n'',
     se_type = ''application/octet-stream'', se_meta = JObj [], se_if_gen = None, se_data = data \<rparr>)], gs_draws = 1, gs_events = [] \<rparr>"

definition sample_start :: web_request where
  "sample_start = \<lparr> rq_params = [(''name'', ''n'')], rq_headers = [], rq_body = [] \<rparr>"

lemma sample_ranges:
  "gcs_header ''content-range'' (sample_chunk ''bytes 0-2/5'' d) = Some ''bytes 0-2/5''"
  "gcs_header ''content-range'' (sample_chunk ''bytes 2-4/5'' d) = Some ''bytes 2-4/5''"
  "parse_content_range ''bytes 0-2/5'' = Some \<lparr> cr_start = Some 0, cr_total = Some 5 \<rparr>"
  "parse_content_range ''bytes 2-4/5'' = Some \<lparr> cr_start = Some 2, cr_total = Some 5 \<rparr>"
proof -
  have "header_text ''bytes 0-2/5''" "header_text ''bytes 2-4/5''" by code_simp+
  then show "gcs_header ''content-range'' (sample_chunk ''bytes 0-2/5'' d) = Some ''bytes 0-2/5''"
    "gcs_header ''content-range'' (sample_chunk ''bytes 2-4/5'' d) = Some ''bytes 2-4/5''"
    by (simp_all add: sample_chunk_def gcs_header_def header_get_def)
  have digits: "show_nat 0 = ''0''" "show_nat 2 = ''2''" "show_nat 4 = ''4''" "show_nat 5 = ''5''" by code_simp+
  show "parse_content_range ''bytes 0-2/5'' = Some \<lparr> cr_start = Some 0, cr_total = Some 5 \<rparr>"
    using parse_content_range_text[of 0 5 2] by (simp add: digits)
  show "parse_content_range ''bytes 2-4/5'' = Some \<lparr> cr_start = Some 2, cr_total = Some 5 \<rparr>"
    using parse_content_range_text[of 2 5 4] by (simp add: digits)
qed

lemma sample_chunk_param: "map_of (rq_params (sample_chunk cr d)) ''upload_id'' = Some ''0''"
  by (simp add: sample_chunk_def)

lemma sample_chunk_body: "rq_body (sample_chunk cr d) = d"
  by (simp add: sample_chunk_def)

lemma sample_first:
  "gcs_serve gcs_sample_env (''PUT'', RUpload ''b'', sample_chunk ''bytes 0-2/5'' ''abc'', 1) (sample_upload (take k ''abc''))
     = (try_header ''range'' ''bytes=0-2'' (status_response 308), sample_upload ''abc'')"
proof -
  have "show_nat 2 = ''2''" by code_simp
  then show ?thesis
    by (simp add: gcs_serve_def h_gcs_resumable_put_def sample_ranges sample_chunk_param sample_chunk_body sample_upload_def add_chunk_def numeral_2_eq_2)
qed

lemma sample_begin:
  "start_resumable gcs_sample_env ''b'' sample_start ((sample_upload [])\<lparr> gs_sessions := [], gs_draws := 0 \<rparr>)
     = (try_header ''location'' (base_url sample_start @ ''/upload/storage/v1/b/b/o?uploadType=resumable&upload_id=0'') (status_response 200),
        sample_upload [])"
proof -
  have "uuid_simple (uuid_v4 sample_ext 0) = ''0''" by (simp add: uuid_simple_def sample_ext_def) code_simp
  moreover have "body_json gcs_sample_env [] = JObj []"
    by (simp add: body_json_def sample_ext_def sample_json_parse_def parse_nat_def)
  ultimately show ?thesis
    by (simp add: start_resumable_def Let_def sample_start_def sample_upload_def gcs_get_bucket_def gcs_sample_db_def param_i64_def
        gcs_header_def header_get_def)
qed

lemma sample_last:
  "http_status (fst (gcs_serve gcs_sample_env (''PUT'', RUpload ''b'', sample_chunk ''bytes 2-4/5'' ''cde'', 2) (sample_upload ''abc''))) = 200"
  by (simp add: gcs_serve_def h_gcs_resumable_put_def sample_ranges sample_chunk_param sample_chunk_body sample_upload_def add_chunk_def
      numeral_2_eq_2 store_object_def gcs_answer_def gcs_upload_object_def check_generation_def Let_def gcs_json_def axum_json_def)

lemma sample_honest: "honest_chunk ''abcde'' (sample_chunk ''bytes 0-2/5'' ''abc'')" "honest_chunk ''abcde'' (sample_chunk ''bytes 2-4/5'' ''cde'')"
  by (simp_all add: honest_chunk_def sample_ranges sample_chunk_body)

theorem gcs_resumable_witness:
  "\<exists>ob. load_object gcs_sample_env ''b'' ''n'' (gs_db (snd (gcs_serve gcs_sample_env
      (''PUT'', RUpload ''b'', sample_chunk ''bytes 2-4/5'' ''cde'', 2) (sample_upload ''abc'')))) = Some ob \<and> go_content ob = ''abcde''"
proof -
  let ?first = "(''PUT'', RUpload ''b'', sample_chunk ''bytes 0-2/5'' ''abc'', 1)"
  obtain resp2 s2 where out: "gcs_serve gcs_sample_env (''PUT'', RUpload ''b'', sample_chunk ''bytes 2-4/5'' ''cde'', 2) (sample_upload ''abc'') = (resp2, s2)"
    by (meson surj_pair)
  then have ok: "http_status resp2 = 200" using sample_last by simp
  have "inj (\<lambda>n. uuid_simple (show_nat n))"
  proof (rule injI)
    fix m n assume "uuid_simple (show_nat m) = uuid_simple (show_nat n)"
    moreover have "uuid_simple (show_nat k) = show_nat k" for k
      using show_nat_digits[of k] not_digit_sign(1) unfolding uuid_simple_def list_all_iff by (intro filter_True) blast
    ultimately show "m = n" by simp
  qed
  then have fresh: "uploads_fresh gcs_sample_env" by (simp add: uploads_fresh_def sample_ext_def)
  have uid: "''0'' = uuid_simple (uuid_v4 (gx_ext gcs_sample_env) (gs_draws ((sample_upload [])\<lparr> gs_sessions := [], gs_draws := 0 \<rparr>)))"
    by (simp add: uuid_simple_def sample_ext_def) code_simp
  have status: "http_status (try_header ''location'' v (status_response 200)) = 200" for v
    by (simp add: try_header_def set_header_def status_response_def)
  have ses: "map_of (gs_sessions (sample_upload [])) ''0'' = Some \<lparr> se_bucket = ''b'', se_name = ''n'',
     se_type = ''application/octet-stream'', se_meta = JObj [], se_if_gen = None, se_data = [] \<rparr>" by (simp add: sample_upload_def)
  have honest: "list_all (honest_call ''0'' ''abcde'') [?first, ?first]" using sample_honest(1) by (simp add: honest_call_def)
  have "snd (run_ops (gcs_serve gcs_sample_env) [?first, ?first] (sample_upload [])) = sample_upload ''abc''"
    using sample_first[of 0] sample_first[of 3] by (simp add: Let_def)
  from gcs_resumable[OF fresh sample_begin status uid ses honest this[symmetric] sample_chunk_param sample_honest(2) out ok]
  show ?thesis using out by simp
qed

end
