(* ===== verification/Azure_Blob.thy ===== *)
theory Azure_Blob
  imports Http Aws_Query
begin

text \<open>
  Azure Blob Storage, part 1: containers and blobs (service.rs and models.rs of src/src/azure/blob).
  Every operation is one call to the database, a transaction.  \<open>A\<close> is the configured account; \<open>now\<close> is in
  milliseconds.  Names hold no NUL, where SQLite's \<open>length\<close> stops.
\<close>

subsection \<open>Data\<close>

record az_container =
  ac_name :: string
  ac_account :: string
  ac_created_at :: string

record az_blob =
  ab_container :: string
  ab_account :: string
  ab_name :: string
  ab_content :: string
  ab_type :: string
  ab_size :: int
  ab_etag :: string
  ab_created_at :: string

record az_db =
  az_containers :: "az_container list"
  az_blobs :: "az_blob list"

definition az_init :: az_db where
  "az_init = \<lparr> az_containers = [], az_blobs = [] \<rparr>"

datatype put_outcome = Stored az_blob | ContainerNotFound | AlreadyExists

definition az_etag :: "externals \<Rightarrow> string \<Rightarrow> string" where
  "az_etag E data = CHR 0x22 # md5_raw E data @ [CHR 0x22]"

definition container_is :: "string \<Rightarrow> string \<Rightarrow> az_container \<Rightarrow> bool" where
  "container_is A c r \<longleftrightarrow> ac_account r = A \<and> ac_name r = c"

definition blob_in :: "string \<Rightarrow> string \<Rightarrow> az_blob \<Rightarrow> bool" where
  "blob_in A c r \<longleftrightarrow> ab_account r = A \<and> ab_container r = c"

definition blob_is :: "string \<Rightarrow> string \<Rightarrow> string \<Rightarrow> az_blob \<Rightarrow> bool" where
  "blob_is A c n r \<longleftrightarrow> blob_in A c r \<and> ab_name r = n"

subsection \<open>Containers\<close>

definition create_container :: "externals \<Rightarrow> string \<Rightarrow> string \<Rightarrow> int \<Rightarrow> az_db \<Rightarrow> bool \<times> az_db" where
  "create_container E A c now db =
     (if list_ex (container_is A c) (az_containers db) then (False, db)
      else (True, db\<lparr> az_containers := az_containers db @ [\<lparr> ac_name = c, ac_account = A, ac_created_at = to_rfc3339 E now \<rparr>] \<rparr>))"

definition list_containers :: "string \<Rightarrow> az_db \<Rightarrow> az_container list" where
  "list_containers A db = sort_key ac_name (filter (\<lambda>r. ac_account r = A) (az_containers db))"

definition get_container :: "string \<Rightarrow> string \<Rightarrow> az_db \<Rightarrow> az_container option" where
  "get_container A c db = find (container_is A c) (az_containers db)"

definition delete_container :: "string \<Rightarrow> string \<Rightarrow> az_db \<Rightarrow> bool \<times> az_db" where
  "delete_container A c db =
     (0 < sql_count (container_is A c) (az_containers db),
      db\<lparr> az_containers := sql_delete (container_is A c) (az_containers db),
          az_blobs := sql_delete (blob_in A c) (az_blobs db) \<rparr>)"

subsection \<open>Blobs\<close>

definition new_blob :: "externals \<Rightarrow> string \<Rightarrow> string \<Rightarrow> string \<Rightarrow> string \<Rightarrow> string \<Rightarrow> int \<Rightarrow> az_blob" where
  "new_blob E A c n content ctype now =
     \<lparr> ab_container = c, ab_account = A, ab_name = n, ab_content = content, ab_type = ctype, ab_size = int (length content),
       ab_etag = az_etag E content, ab_created_at = to_rfc3339 E now \<rparr>"

text \<open>An overwrite sets every column but the time of creation.\<close>

definition overwrite :: "az_blob \<Rightarrow> az_blob \<Rightarrow> az_blob" where
  "overwrite new old = old\<lparr> ab_content := ab_content new, ab_type := ab_type new, ab_size := ab_size new, ab_etag := ab_etag new \<rparr>"

definition select_blob :: "string \<Rightarrow> string \<Rightarrow> string \<Rightarrow> az_db \<Rightarrow> az_blob option" where
  "select_blob A c n db = find (blob_is A c n) (az_blobs db)"

definition without_content :: "az_blob \<Rightarrow> az_blob" where
  "without_content b = b\<lparr> ab_content := [] \<rparr>"

definition put_blob ::
    "externals \<Rightarrow> string \<Rightarrow> string \<Rightarrow> string \<Rightarrow> string \<Rightarrow> string \<Rightarrow> bool \<Rightarrow> int \<Rightarrow> az_db
       \<Rightarrow> (string, put_outcome) result \<times> az_db" where
  "put_blob E A c n content ctype if_none_match now db =
     (if sql_count (container_is A c) (az_containers db) = 0 then (Inr ContainerNotFound, db)
      else if if_none_match \<and> 0 < sql_count (blob_is A c n) (az_blobs db) then (Inr AlreadyExists, db)
      else
        let new = new_blob E A c n content ctype now;
            db' = db\<lparr> az_blobs := sql_upsert (blob_is A c n) (overwrite new) new (az_blobs db) \<rparr>
        in (case select_blob A c n db' of
            Some b \<Rightarrow> (Inr (Stored (without_content b)), db') | None \<Rightarrow> (Inl ''Query returned no rows'', db)))"

definition get_blob :: "string \<Rightarrow> string \<Rightarrow> string \<Rightarrow> az_db \<Rightarrow> az_blob option" where
  "get_blob A c n db = select_blob A c n db"

definition az_list_blobs :: "string \<Rightarrow> string \<Rightarrow> string \<Rightarrow> az_db \<Rightarrow> az_blob list" where
  "az_list_blobs A c prefix db =
     map without_content (sort_key ab_name (filter (\<lambda>r. blob_in A c r \<and> starts_with (ab_name r) prefix) (az_blobs db)))"

definition delete_blob :: "string \<Rightarrow> string \<Rightarrow> string \<Rightarrow> az_db \<Rightarrow> bool \<times> az_db" where
  "delete_blob A c n db =
     (0 < sql_count (blob_is A c n) (az_blobs db), db\<lparr> az_blobs := sql_delete (blob_is A c n) (az_blobs db) \<rparr>)"

end
