(* ===== verification/Azure_Blob_Handlers.thy ===== *)
theory Azure_Blob_Handlers
  imports Azure_Blob
begin

text \<open>
  Azure Blob Storage, part 2: the REST handlers (src/src/azure/blob/handlers.rs).  \<open>blob_route\<close> is the
  router: it takes the method and the decoded captures of the route axum matched, and answers \<open>None\<close>
  where the route has no handler for the method.  \<open>X\<close> holds the configuration and what is computed outside
  the repository; \<open>others\<close> is what other requests do to the tables between two database calls of a handler.
\<close>

record blob_env =
  bx_ext :: externals
  bx_account :: string
  bx_base_url :: string
  http_date :: "int \<Rightarrow> string"   \<comment> \<open>chrono, format %a, %d %b %Y %H:%M:%S GMT, of epoch seconds\<close>
  md5_half :: "string \<Rightarrow> string"   \<comment> \<open>upper-case hex of the first eight bytes of MD5\<close>
  md5_b64_of :: "string \<Rightarrow> string"   \<comment> \<open>base64 of MD5\<close>

record blob_state =
  bs_db :: az_db
  bs_draws :: nat
  bs_events :: "event list"

type_synonym blob_handler = "blob_state \<Rightarrow> http_response \<times> blob_state"
type_synonym header_map = "(string \<times> string) list"

subsection \<open>Headers and responses\<close>

definition rfc1123 :: "blob_env \<Rightarrow> string \<Rightarrow> int \<Rightarrow> string" where
  "rfc1123 X ts now = http_date X (case from_rfc3339 (bx_ext X) ts of Some t \<Rightarrow> t | None \<Rightarrow> now div 1000)"

definition container_etag :: "blob_env \<Rightarrow> az_container \<Rightarrow> string" where
  "container_etag X c = CHR 0x22 # ''0x'' @ md5_half X (ac_name c @ ac_created_at c) @ [CHR 0x22]"

definition hm_insert :: "string \<Rightarrow> string \<Rightarrow> header_map \<Rightarrow> header_map" where
  "hm_insert name v h = filter (\<lambda>(k, _). k \<noteq> name) h @ [(name, v)]"

definition hm_set :: "string \<Rightarrow> string \<Rightarrow> header_map \<Rightarrow> header_map" where
  "hm_set name v h = (if header_text v then hm_insert name v h else h)"

definition hm_extend :: "header_map \<Rightarrow> header_map \<Rightarrow> header_map" where
  "hm_extend extra h = fold (\<lambda>(k, v). hm_insert k v) extra h"

definition hm_of :: "(string \<times> string) list \<Rightarrow> header_map" where
  "hm_of kvs = fold (\<lambda>(k, v). hm_set k v) kvs []"

definition base_headers :: "blob_env \<Rightarrow> web_request \<Rightarrow> int \<Rightarrow> nat \<Rightarrow> header_map" where
  "base_headers X r now draws =
     (let h = [(''x-ms-version'', case map_of (rq_headers r) ''x-ms-version'' of Some v \<Rightarrow> v | None \<Rightarrow> ''2021-08-06'')];
          h = hm_set ''x-ms-request-id'' (uuid_v4 (bx_ext X) draws) h;
          h = (case map_of (rq_headers r) ''x-ms-client-request-id'' of
                 Some v \<Rightarrow> hm_insert ''x-ms-client-request-id'' v h | None \<Rightarrow> h)
      in hm_set ''date'' (rfc1123 X (to_rfc3339 (bx_ext X) now) now) h)"

text \<open>Every response draws a request id.\<close>

definition blob_respond :: "blob_env \<Rightarrow> web_request \<Rightarrow> int \<Rightarrow> nat \<Rightarrow> (header_map \<Rightarrow> header_map) \<Rightarrow> string \<Rightarrow> blob_handler" where
  "blob_respond X r now status hs body = (\<lambda>s.
     (\<lparr> http_status = status, http_headers = hs (base_headers X r now (bs_draws s)), http_body = body \<rparr>,
      s\<lparr> bs_draws := Suc (bs_draws s) \<rparr>))"

definition blob_xml_ok :: "blob_env \<Rightarrow> web_request \<Rightarrow> int \<Rightarrow> string \<Rightarrow> blob_handler" where
  "blob_xml_ok X r now body = blob_respond X r now 200 (hm_set ''content-type'' ''application/xml'') body"

definition blob_empty :: "blob_env \<Rightarrow> web_request \<Rightarrow> int \<Rightarrow> nat \<Rightarrow> header_map \<Rightarrow> blob_handler" where
  "blob_empty X r now status extra = blob_respond X r now status (hm_extend extra) []"

definition xml_prolog :: string where
  "xml_prolog = ''<?xml version='' @ [CHR 0x22] @ ''1.0'' @ [CHR 0x22] @ '' encoding='' @ [CHR 0x22] @ ''utf-8'' @ [CHR 0x22] @ ''?>''"

definition blob_xml_err :: "blob_env \<Rightarrow> web_request \<Rightarrow> int \<Rightarrow> nat \<Rightarrow> string \<Rightarrow> string \<Rightarrow> blob_handler" where
  "blob_xml_err X r now status code msg =
     blob_respond X r now status (\<lambda>h. hm_set ''x-ms-error-code'' code (hm_set ''content-type'' ''application/xml'' h))
       (xml_prolog @ ''<Error><Code>'' @ code @ ''</Code><Message>'' @ xml_escape msg @ ''</Message></Error>'')"

definition blob_internal :: "blob_env \<Rightarrow> web_request \<Rightarrow> int \<Rightarrow> string \<Rightarrow> blob_handler" where
  "blob_internal X r now e = blob_xml_err X r now 500 ''InternalError'' e"

definition account_not_found :: "blob_env \<Rightarrow> web_request \<Rightarrow> int \<Rightarrow> blob_handler" where
  "account_not_found X r now = blob_xml_err X r now 404 ''ResourceNotFound'' ''The specified account does not exist.''"

definition container_not_found :: "blob_env \<Rightarrow> web_request \<Rightarrow> int \<Rightarrow> blob_handler" where
  "container_not_found X r now = blob_xml_err X r now 404 ''ContainerNotFound'' ''The specified container does not exist.''"

definition blob_not_found :: "blob_env \<Rightarrow> web_request \<Rightarrow> int \<Rightarrow> blob_handler" where
  "blob_not_found X r now = blob_xml_err X r now 404 ''BlobNotFound'' ''The specified blob does not exist.''"

definition blob_unsupported :: "blob_env \<Rightarrow> web_request \<Rightarrow> int \<Rightarrow> blob_handler" where
  "blob_unsupported X r now =
     blob_xml_err X r now 400 ''UnsupportedQueryParameter'' ''This operation is not supported by CloudTwin.''"

definition blob_param :: "web_request \<Rightarrow> string \<Rightarrow> string" where
  "blob_param r k = (case map_of (rq_params r) k of Some v \<Rightarrow> v | None \<Rightarrow> [])"

text \<open>Every handler first compares the account.\<close>

definition for_account :: "blob_env \<Rightarrow> string \<Rightarrow> blob_handler \<Rightarrow> blob_handler \<Rightarrow> blob_handler" where
  "for_account X account missing h = (if account \<noteq> bx_account X then missing else h)"

definition blob_emit :: "blob_env \<Rightarrow> int \<Rightarrow> string \<Rightarrow> (string \<times> json) list \<Rightarrow> blob_state \<Rightarrow> blob_state" where
  "blob_emit X now act payload s = s\<lparr> bs_events :=
     emit_event (bx_ext X) ''azure'' ''blob'' act (json_print (bx_ext X) (json_obj payload)) now (bs_events s) \<rparr>"

subsection \<open>Pagination\<close>

definition blob_max :: "web_request \<Rightarrow> nat" where
  "blob_max r = (case Option.bind (map_of (rq_params r) ''maxresults'') parse_usize of
     Some m \<Rightarrow> if 0 < m then m else 5000 | None \<Rightarrow> 5000)"

definition blob_paginate :: "'a list \<Rightarrow> ('a \<Rightarrow> string) \<Rightarrow> web_request \<Rightarrow> 'a list \<times> string" where
  "blob_paginate items name r =
     (let marker = blob_param r ''marker''; max = blob_max r;
          page = filter (\<lambda>i. marker = [] \<or> marker \<le> name i) items
      in if max < length page then (take max page, name (page ! max)) else (page, []))"

definition endpoint :: "blob_env \<Rightarrow> string" where
  "endpoint X = trim_end_char CHR ''/'' (bx_base_url X) @ ''/'' @ bx_account X @ ''/''"

definition max_text :: "web_request \<Rightarrow> string" where
  "max_text r = (case map_of (rq_params r) ''maxresults'' of Some m \<Rightarrow> m | None \<Rightarrow> ''5000'')"

subsection \<open>The account\<close>

definition container_item_xml :: "blob_env \<Rightarrow> int \<Rightarrow> az_container \<Rightarrow> string" where
  "container_item_xml X now c =
     ''<Container><Name>'' @ xml_escape (ac_name c) @ ''</Name><Properties><Last-Modified>'' @ rfc1123 X (ac_created_at c) now
     @ ''</Last-Modified><Etag>'' @ container_etag X c @ ''</Etag>''
     @ ''<LeaseStatus>unlocked</LeaseStatus><LeaseState>available</LeaseState>''
     @ ''<DefaultEncryptionScope>$account-encryption-key</DefaultEncryptionScope>''
     @ ''<DenyEncryptionScopeOverride>false</DenyEncryptionScopeOverride>''
     @ ''<HasImmutabilityPolicy>false</HasImmutabilityPolicy><HasLegalHold>false</HasLegalHold>''
     @ ''</Properties></Container>''"

definition account_get :: "blob_env \<Rightarrow> string \<Rightarrow> web_request \<Rightarrow> int \<Rightarrow> blob_handler" where
  "account_get X account r now =
     for_account X account (account_not_found X r now)
       (if blob_param r ''comp'' \<noteq> ''list'' then blob_unsupported X r now
        else (\<lambda>s.
          let prefix = blob_param r ''prefix'';
              (page, next) = blob_paginate (filter (\<lambda>c. starts_with (ac_name c) prefix) (list_containers (bx_account X) (bs_db s))) ac_name r
          in blob_xml_ok X r now
               (xml_prolog @ ''<EnumerationResults ServiceEndpoint='' @ [CHR 0x22] @ xml_escape (endpoint X) @ [CHR 0x22] @ ''><Prefix>''
                @ xml_escape prefix @ ''</Prefix><Marker>'' @ xml_escape (blob_param r ''marker'') @ ''</Marker><MaxResults>''
                @ xml_escape (max_text r) @ ''</MaxResults><Containers>'' @ concat (map (container_item_xml X now) page)
                @ ''</Containers><NextMarker>'' @ xml_escape next @ ''</NextMarker></EnumerationResults>'') s))"

subsection \<open>Containers\<close>

definition container_headers :: "blob_env \<Rightarrow> int \<Rightarrow> az_container \<Rightarrow> header_map" where
  "container_headers X now c = hm_of
     [(''etag'', container_etag X c), (''last-modified'', rfc1123 X (ac_created_at c) now), (''x-ms-lease-status'', ''unlocked''),
      (''x-ms-lease-state'', ''available''), (''x-ms-has-immutability-policy'', ''false''), (''x-ms-has-legal-hold'', ''false''),
      (''x-ms-default-encryption-scope'', ''$account-encryption-key''), (''x-ms-deny-encryption-scope-override'', ''false'')]"

definition container_put :: "blob_env \<Rightarrow> (az_db \<Rightarrow> az_db) \<Rightarrow> string \<Rightarrow> string \<Rightarrow> web_request \<Rightarrow> int \<Rightarrow> blob_handler" where
  "container_put X others account c r now =
     for_account X account (account_not_found X r now)
       (if blob_param r ''restype'' \<noteq> ''container'' \<or> map_of (rq_params r) ''comp'' \<noteq> None then blob_unsupported X r now
        else (\<lambda>s. case create_container (bx_ext X) (bx_account X) c now (bs_db s) of
            (True, db) \<Rightarrow>
              let s' = blob_emit X now ''create_container'' [(''container'', JStr c)] (s\<lparr> bs_db := others db \<rparr>)
              in (case get_container (bx_account X) c (bs_db s') of
                    Some row \<Rightarrow> blob_empty X r now 201 (container_headers X now row) s'
                  | None \<Rightarrow> container_not_found X r now s')
          | (False, db) \<Rightarrow>
              blob_xml_err X r now 409 ''ContainerAlreadyExists'' ''The specified container already exists.'' (s\<lparr> bs_db := db \<rparr>)))"

definition container_delete :: "blob_env \<Rightarrow> string \<Rightarrow> string \<Rightarrow> web_request \<Rightarrow> int \<Rightarrow> blob_handler" where
  "container_delete X account c r now =
     for_account X account (account_not_found X r now)
       (if blob_param r ''restype'' \<noteq> ''container'' \<or> map_of (rq_params r) ''comp'' \<noteq> None then blob_unsupported X r now
        else (\<lambda>s. let (found, db) = delete_container (bx_account X) c (bs_db s); s' = s\<lparr> bs_db := db \<rparr> in
          if found then blob_empty X r now 202 [] (blob_emit X now ''delete_container'' [(''container'', JStr c)] s')
          else container_not_found X r now s'))"

definition container_head :: "blob_env \<Rightarrow> string \<Rightarrow> string \<Rightarrow> web_request \<Rightarrow> int \<Rightarrow> blob_handler" where
  "container_head X account c r now =
     for_account X account (blob_empty X r now 404 [])
       (if blob_param r ''restype'' \<noteq> ''container'' then blob_empty X r now 400 []
        else (\<lambda>s. case get_container (bx_account X) c (bs_db s) of
            Some row \<Rightarrow> blob_empty X r now 200 (container_headers X now row) s
          | None \<Rightarrow> blob_empty X r now 404 (hm_of [(''x-ms-error-code'', ''ContainerNotFound'')]) s))"

subsection \<open>Listing blobs\<close>

datatype listed = LBlob az_blob | LPrefix string

fun listed_name :: "listed \<Rightarrow> string" where
  "listed_name (LBlob b) = ab_name b"
| "listed_name (LPrefix p) = p"

definition blob_item_xml :: "blob_env \<Rightarrow> int \<Rightarrow> az_blob \<Rightarrow> string" where
  "blob_item_xml X now b =
     (let lm = rfc1123 X (ab_created_at b) now in
      ''<Blob><Name>'' @ xml_escape (ab_name b) @ ''</Name><Properties><Creation-Time>'' @ lm @ ''</Creation-Time><Last-Modified>'' @ lm
      @ ''</Last-Modified><Etag>'' @ xml_escape (ab_etag b) @ ''</Etag><Content-Length>'' @ show_int (ab_size b)
      @ ''</Content-Length><Content-Type>'' @ xml_escape (ab_type b) @ ''</Content-Type>''
      @ ''<BlobType>BlockBlob</BlobType><AccessTier>Hot</AccessTier><AccessTierInferred>true</AccessTierInferred>''
      @ ''<LeaseStatus>unlocked</LeaseStatus><LeaseState>available</LeaseState><ServerEncrypted>false</ServerEncrypted>''
      @ ''</Properties></Blob>'')"

definition blob_group :: "string \<Rightarrow> string \<Rightarrow> string \<Rightarrow> string option" where
  "blob_group prefix delim name =
     (let rest = drop (length prefix) name in
      if delim = [] then None else map_option (\<lambda>i. prefix @ take (i + length delim) rest) (str_find delim rest))"

fun list_items :: "string \<Rightarrow> string \<Rightarrow> az_blob list \<Rightarrow> listed list \<Rightarrow> listed list" where
  "list_items prefix delim [] items = items"
| "list_items prefix delim (b # blobs) items = list_items prefix delim blobs
     (case blob_group prefix delim (ab_name b) of
        Some p \<Rightarrow> if items \<noteq> [] \<and> last items = LPrefix p then items else items @ [LPrefix p]
      | None \<Rightarrow> items @ [LBlob b])"

definition listed_xml :: "blob_env \<Rightarrow> int \<Rightarrow> listed \<Rightarrow> string" where
  "listed_xml X now i = (case i of LBlob b \<Rightarrow> blob_item_xml X now b
     | LPrefix p \<Rightarrow> ''<BlobPrefix><Name>'' @ xml_escape p @ ''</Name></BlobPrefix>'')"

definition blob_page :: "blob_env \<Rightarrow> string \<Rightarrow> web_request \<Rightarrow> az_db \<Rightarrow> listed list \<times> string" where
  "blob_page X c r db =
     (let prefix = blob_param r ''prefix''; delim = blob_param r ''delimiter'' in
      blob_paginate (list_items prefix delim (az_list_blobs (bx_account X) c prefix db) []) listed_name r)"

definition list_blobs :: "blob_env \<Rightarrow> string \<Rightarrow> web_request \<Rightarrow> int \<Rightarrow> blob_handler" where
  "list_blobs X c r now = (\<lambda>s.
     let (page, next) = blob_page X c r (bs_db s); delim = blob_param r ''delimiter'' in
     blob_xml_ok X r now
       (xml_prolog @ ''<EnumerationResults ServiceEndpoint='' @ [CHR 0x22] @ xml_escape (endpoint X) @ [CHR 0x22] @ '' ContainerName=''
        @ [CHR 0x22] @ xml_escape c @ [CHR 0x22] @ ''><Prefix>'' @ xml_escape (blob_param r ''prefix'') @ ''</Prefix><Marker>''
        @ xml_escape (blob_param r ''marker'') @ ''</Marker><MaxResults>'' @ xml_escape (max_text r) @ ''</MaxResults>''
        @ (if delim = [] then [] else ''<Delimiter>'' @ xml_escape delim @ ''</Delimiter>'')
        @ ''<Blobs>'' @ concat (map (listed_xml X now) page) @ ''</Blobs><NextMarker>'' @ xml_escape next
        @ ''</NextMarker></EnumerationResults>'') s)"

definition container_get :: "blob_env \<Rightarrow> (az_db \<Rightarrow> az_db) \<Rightarrow> string \<Rightarrow> string \<Rightarrow> web_request \<Rightarrow> int \<Rightarrow> blob_handler" where
  "container_get X others account c r now =
     for_account X account (account_not_found X r now)
       (if blob_param r ''restype'' \<noteq> ''container'' then blob_unsupported X r now
        else (\<lambda>s. case get_container (bx_account X) c (bs_db s) of
            None \<Rightarrow> container_not_found X r now s
          | Some row \<Rightarrow>
              let comp = blob_param r ''comp'' in
              if comp = [] then blob_empty X r now 200 (container_headers X now row) s
              else if comp = ''list'' then list_blobs X c r now (s\<lparr> bs_db := others (bs_db s) \<rparr>)
              else blob_unsupported X r now s))"

subsection \<open>Blobs\<close>

definition blob_headers :: "blob_env \<Rightarrow> int \<Rightarrow> az_blob \<Rightarrow> header_map" where
  "blob_headers X now b = hm_of
     [(''etag'', ab_etag b), (''last-modified'', rfc1123 X (ab_created_at b) now), (''x-ms-creation-time'', rfc1123 X (ab_created_at b) now),
      (''x-ms-blob-type'', ''BlockBlob''), (''x-ms-lease-status'', ''unlocked''), (''x-ms-lease-state'', ''available''),
      (''x-ms-server-encrypted'', ''false''), (''x-ms-access-tier'', ''Hot''), (''x-ms-access-tier-inferred'', ''true''),
      (''accept-ranges'', ''bytes''), (''content-type'', ab_type b)]"

definition read_conditions :: "blob_env \<Rightarrow> web_request \<Rightarrow> int \<Rightarrow> az_blob \<Rightarrow> blob_handler option" where
  "read_conditions X r now b =
     (if (case header_get ''if-match'' r of Some m \<Rightarrow> m \<noteq> ''*'' \<and> m \<noteq> ab_etag b | None \<Rightarrow> False)
      then Some (blob_xml_err X r now 412 ''ConditionNotMet''
             ''The condition specified using HTTP conditional header(s) is not met.'')
      else if (case header_get ''if-none-match'' r of Some m \<Rightarrow> m = ''*'' \<or> m = ab_etag b | None \<Rightarrow> False)
      then Some (blob_empty X r now 304 (hm_of [(''etag'', ab_etag b)]))
      else None)"

definition h_put_blob :: "blob_env \<Rightarrow> string \<Rightarrow> string \<Rightarrow> string \<Rightarrow> web_request \<Rightarrow> int \<Rightarrow> blob_handler" where
  "h_put_blob X account c n r now =
     for_account X account (account_not_found X r now)
       (if map_of (rq_params r) ''comp'' \<noteq> None then blob_unsupported X r now
        else if header_get ''x-ms-blob-type'' r \<notin> {None, Some ''BlockBlob''}
        then blob_xml_err X r now 400 ''InvalidBlobType'' ''Only BlockBlob is supported by CloudTwin.''
        else (\<lambda>s.
          let ct = (case header_get ''x-ms-blob-content-type'' r of Some t \<Rightarrow> t
                    | None \<Rightarrow> (case header_get ''content-type'' r of Some t \<Rightarrow> t | None \<Rightarrow> ''application/octet-stream''));
              (res, db) = put_blob (bx_ext X) (bx_account X) c n (rq_body r) ct (header_get ''if-none-match'' r = Some ''*'') now (bs_db s);
              s' = s\<lparr> bs_db := db \<rparr>
          in (case res of
                Inr (Stored b) \<Rightarrow>
                  blob_empty X r now 201
                    (hm_of [(''etag'', ab_etag b), (''last-modified'', rfc1123 X (ab_created_at b) now),
                            (''content-md5'', md5_b64_of X (rq_body r)), (''x-ms-request-server-encrypted'', ''false'')])
                    (blob_emit X now ''put_blob'' [(''container'', JStr c), (''blob'', JStr n)] s')
              | Inr ContainerNotFound \<Rightarrow> container_not_found X r now s'
              | Inr AlreadyExists \<Rightarrow> blob_xml_err X r now 409 ''BlobAlreadyExists'' ''The specified blob already exists.'' s'
              | Inl e \<Rightarrow> blob_internal X r now e s')))"

text \<open>\<open>bytes=start-[end]\<close> as an inclusive range: \<open>None\<close> is no range, \<open>Some None\<close> cannot be satisfied.\<close>

definition blob_parse_range :: "string \<Rightarrow> nat \<Rightarrow> (nat \<times> nat) option option" where
  "blob_parse_range spec len =
     Option.bind (strip_prefix ''bytes='' (trim spec)) (\<lambda>r.
     Option.bind (split_once CHR ''-'' r) (\<lambda>(a, e).
     Option.bind (parse_usize (trim a)) (\<lambda>start.
       if len \<le> start then Some None
       else Option.bind (if trim e = [] then Some (len - 1) else map_option (\<lambda>e. min e (len - 1)) (parse_usize (trim e)))
              (\<lambda>stop. if stop < start then Some None else Some (Some (start, stop))))))"

definition h_get_blob :: "blob_env \<Rightarrow> string \<Rightarrow> string \<Rightarrow> string \<Rightarrow> web_request \<Rightarrow> int \<Rightarrow> blob_handler" where
  "h_get_blob X account c n r now =
     for_account X account (account_not_found X r now)
       (if map_of (rq_params r) ''comp'' \<noteq> None then blob_unsupported X r now
        else (\<lambda>s. case get_blob (bx_account X) c n (bs_db s) of
            None \<Rightarrow> blob_not_found X r now s
          | Some b \<Rightarrow> (case read_conditions X r now b of
                Some abort \<Rightarrow> abort s
              | None \<Rightarrow>
                  let len = length (ab_content b); h = blob_headers X now b;
                      spec = (case header_get ''x-ms-range'' r of Some v \<Rightarrow> Some v | None \<Rightarrow> header_get ''range'' r)
                  in (case Option.bind spec (\<lambda>v. blob_parse_range v len) of
                        Some (Some (start, stop)) \<Rightarrow>
                          let chunk = take (stop + 1 - start) (drop start (ab_content b));
                              h = hm_set ''content-range'' (''bytes '' @ show_nat start @ ''-'' @ show_nat stop @ ''/'' @ show_nat len) h;
                              h = (if header_get ''x-ms-range-get-content-md5'' r = Some ''true''
                                   then hm_set ''content-md5'' (md5_b64_of X chunk) h else h);
                              h = hm_set ''x-ms-blob-content-md5'' (md5_b64_of X (ab_content b)) h
                          in blob_respond X r now 206 (hm_extend h) chunk s
                      | Some None \<Rightarrow>
                          map_prod (try_header ''content-range'' (''bytes */'' @ show_nat len)) id
                            (blob_xml_err X r now 416 ''InvalidRange''
                              ''The range specified is invalid for the current size of the resource.'' s)
                      | None \<Rightarrow>
                          blob_respond X r now 200 (hm_extend (hm_set ''content-md5'' (md5_b64_of X (ab_content b)) h)) (ab_content b) s))))"

definition h_head_blob :: "blob_env \<Rightarrow> string \<Rightarrow> string \<Rightarrow> string \<Rightarrow> web_request \<Rightarrow> int \<Rightarrow> blob_handler" where
  "h_head_blob X account c n r now =
     for_account X account (blob_empty X r now 404 [])
       (\<lambda>s. case get_blob (bx_account X) c n (bs_db s) of
          Some b \<Rightarrow> (case read_conditions X r now b of
              Some abort \<Rightarrow> abort s
            | None \<Rightarrow> blob_empty X r now 200
                (hm_set ''content-md5'' (md5_b64_of X (ab_content b))
                  (hm_set ''content-length'' (show_nat (length (ab_content b))) (blob_headers X now b))) s)
        | None \<Rightarrow> blob_empty X r now 404 (hm_of [(''x-ms-error-code'', ''BlobNotFound'')]) s)"

definition h_delete_blob :: "blob_env \<Rightarrow> string \<Rightarrow> string \<Rightarrow> string \<Rightarrow> web_request \<Rightarrow> int \<Rightarrow> blob_handler" where
  "h_delete_blob X account c n r now =
     for_account X account (account_not_found X r now)
       (if map_of (rq_params r) ''comp'' \<noteq> None then blob_unsupported X r now
        else (\<lambda>s. let (found, db) = delete_blob (bx_account X) c n (bs_db s); s' = s\<lparr> bs_db := db \<rparr> in
          if found then
            blob_empty X r now 202 (hm_of [(''x-ms-delete-type-permanent'', ''true'')])
              (blob_emit X now ''delete_blob'' [(''container'', JStr c), (''blob'', JStr n)] s')
          else blob_not_found X r now s'))"

subsection \<open>The router\<close>

datatype blob_target =
    BAccount string
  | BContainer string string
  | BBlob string string string

text \<open>A \<open>HEAD\<close> on an account is answered by axum like a \<open>GET\<close> without the body and is not listed.\<close>

fun blob_route :: "blob_env \<Rightarrow> (az_db \<Rightarrow> az_db) \<Rightarrow> string \<Rightarrow> blob_target \<Rightarrow> web_request \<Rightarrow> int \<Rightarrow> blob_handler option" where
  "blob_route X others m (BAccount a) r now = (if m = ''GET'' then Some (account_get X a r now) else None)"
| "blob_route X others m (BContainer a c) r now =
     (if m = ''PUT'' then Some (container_put X others a c r now)
      else if m = ''DELETE'' then Some (container_delete X a c r now)
      else if m = ''GET'' then Some (container_get X others a c r now)
      else if m = ''HEAD'' then Some (container_head X a c r now) else None)"
| "blob_route X others m (BBlob a c n) r now =
     (if m = ''PUT'' then Some (h_put_blob X a c n r now)
      else if m = ''GET'' then Some (h_get_blob X a c n r now)
      else if m = ''HEAD'' then Some (h_head_blob X a c n r now)
      else if m = ''DELETE'' then Some (h_delete_blob X a c n r now) else None)"

end
