(* ===== verification/Azure_Blob_Properties.thy ===== *)
theory Azure_Blob_Properties
  imports Azure_Blob_Handlers Grouping
begin

text \<open>
  Azure Blob Storage, part 3: the invariant of the tables, conditional uploads, downloads in ranges, and
  listings in pages, which are instances of \<open>pager\<close> over the names of \<open>grouping\<close>.
\<close>

subsection \<open>Operations\<close>

datatype az_op =
    AzCreateContainer string int
  | AzDeleteContainer string
  | AzPut string string string string bool int
  | AzDelete string string

datatype az_resp = AzFlag bool | AzPutResp "(string, put_outcome) result"

fun az_exec :: "externals \<times> string \<Rightarrow> az_op \<Rightarrow> az_db \<Rightarrow> az_resp \<times> az_db" where
  "az_exec (E, A) (AzCreateContainer c now) db = map_prod AzFlag id (create_container E A c now db)"
| "az_exec (E, A) (AzDeleteContainer c) db = map_prod AzFlag id (delete_container A c db)"
| "az_exec (E, A) (AzPut c n content ctype inm now) db = map_prod AzPutResp id (put_blob E A c n content ctype inm now db)"
| "az_exec (E, A) (AzDelete c n) db = map_prod AzFlag id (delete_blob A c n db)"

text \<open>Blobs have one row each, in a container that exists, with the size and the tag of their content.\<close>

definition az_ok :: "externals \<times> string \<Rightarrow> az_db \<Rightarrow> bool" where
  "az_ok = (\<lambda>(E, A) db. distinct (map (\<lambda>r. (ab_account r, ab_container r, ab_name r)) (az_blobs db))
     \<and> (\<forall>r\<in>set (az_blobs db). ab_account r = A \<and> (\<exists>k\<in>set (az_containers db). container_is A (ab_container r) k)
          \<and> ab_size r = int (length (ab_content r)) \<and> ab_etag r = az_etag E (ab_content r)))"

lemma blob_is_keys: "blob_is A c n r \<longleftrightarrow> (ab_account r, ab_container r, ab_name r) = (A, c, n)"
  by (auto simp: blob_is_def blob_in_def)

lemma overwrite_keys [simp]: "ab_account (overwrite new r) = ab_account r" "ab_container (overwrite new r) = ab_container r"
  "ab_name (overwrite new r) = ab_name r" "blob_is A c n (overwrite new r) = blob_is A c n r"
  by (simp_all add: overwrite_def blob_is_keys)

lemma overwrite_sel [simp]: "ab_content (overwrite new r) = ab_content new" "ab_size (overwrite new r) = ab_size new"
  "ab_etag (overwrite new r) = ab_etag new"
  by (simp_all add: overwrite_def)

lemma new_blob_sel [simp]: "ab_account (new_blob E A c n b t now) = A" "ab_container (new_blob E A c n b t now) = c"
  "ab_name (new_blob E A c n b t now) = n" "ab_content (new_blob E A c n b t now) = b"
  "ab_size (new_blob E A c n b t now) = int (length b)" "ab_etag (new_blob E A c n b t now) = az_etag E b"
  "blob_is A c n (new_blob E A c n b t now)"
  by (simp_all add: new_blob_def blob_is_keys)

lemma sql_count_zero: "sql_count P rows = 0 \<longleftrightarrow> \<not> list_ex P rows"
  by (auto simp: sql_count_def filter_empty_conv list_ex_iff)

lemma put_blob_stores:
  "put_blob E A c n b t inm now db =
     (if \<not> list_ex (container_is A c) (az_containers db) then (Inr ContainerNotFound, db)
      else if inm \<and> select_blob A c n db \<noteq> None then (Inr AlreadyExists, db)
      else (Inr (Stored (without_content (case select_blob A c n db of
              Some old \<Rightarrow> overwrite (new_blob E A c n b t now) old | None \<Rightarrow> new_blob E A c n b t now))),
            db\<lparr> az_blobs := sql_upsert (blob_is A c n) (overwrite (new_blob E A c n b t now)) (new_blob E A c n b t now) (az_blobs db) \<rparr>))"
proof -
  have "0 < sql_count (blob_is A c n) (az_blobs db) \<longleftrightarrow> select_blob A c n db \<noteq> None"
    by (auto simp: sql_count_def select_blob_def find_None_set filter_empty_conv)
  moreover have "select_blob A c n (db\<lparr> az_blobs := sql_upsert (blob_is A c n) (overwrite (new_blob E A c n b t now)) (new_blob E A c n b t now) (az_blobs db) \<rparr>)
      = Some (case select_blob A c n db of Some old \<Rightarrow> overwrite (new_blob E A c n b t now) old | None \<Rightarrow> new_blob E A c n b t now)"
    unfolding select_blob_def by (subst find_sql_upsert[symmetric]) simp_all
  ultimately show ?thesis by (auto simp: put_blob_def Let_def sql_count_zero)
qed

lemma set_sql_upsert: "set (sql_upsert P f r rows) \<subseteq> insert r (f ` {x \<in> set rows. P x} \<union> {x \<in> set rows. \<not> P x})"
  by (auto simp: sql_upsert_def set_sql_update list_ex_iff)

lemma distinct_sql_upsert:
  assumes "distinct (map key rows)" "\<And>x. key (f x) = key x" "\<And>x. P x \<longleftrightarrow> key x = key r"
  shows "distinct (map key (sql_upsert P f r rows))"
  using assms by (auto simp: sql_upsert_def map_key_sql_update list_ex_iff)

interpretation az: service "\<lambda>X. True" az_init az_exec az_ok
proof unfold_locales
  show "az_ok X az_init" for X by (simp add: az_ok_def az_init_def split: prod.split)
  fix X db x assume ok: "az_ok X db"
  obtain E A where X: "X = (E, A)" by (cases X)
  show "az_ok X (snd (az_exec X x db))"
  proof (cases x)
    case (AzPut c n b t inm now)
    let ?new = "new_blob E A c n b t now"
    let ?blobs = "sql_upsert (blob_is A c n) (overwrite ?new) ?new (az_blobs db)"
    have "az_ok X (db\<lparr> az_blobs := ?blobs \<rparr>)" if "list_ex (container_is A c) (az_containers db)"
    proof -
      have "distinct (map (\<lambda>r. (ab_account r, ab_container r, ab_name r)) ?blobs)"
        by (rule distinct_sql_upsert) (use ok in \<open>auto simp: az_ok_def X blob_is_keys\<close>)
      moreover have "ab_account r = A \<and> (\<exists>k\<in>set (az_containers db). container_is A (ab_container r) k)
          \<and> ab_size r = int (length (ab_content r)) \<and> ab_etag r = az_etag E (ab_content r)" if r: "r \<in> set ?blobs" for r
      proof -
        have c: "\<exists>k\<in>set (az_containers db). container_is A c k" using \<open>list_ex _ _\<close> by (auto simp: list_ex_iff)
        consider "r = ?new" | x where "x \<in> set (az_blobs db)" "r = overwrite ?new x" | "r \<in> set (az_blobs db)"
          using r set_sql_upsert[of "blob_is A c n" "overwrite ?new" ?new "az_blobs db"] by blast
        then show ?thesis using c ok by cases (simp_all add: az_ok_def X)
      qed
      ultimately show ?thesis by (simp add: az_ok_def X)
    qed
    then show ?thesis using ok by (simp add: X AzPut put_blob_stores)
  next
    case (AzDeleteContainer c)
    have "distinct (map (\<lambda>r. (ab_account r, ab_container r, ab_name r)) (sql_delete (blob_in A c) (az_blobs db)))"
      by (rule distinct_sql_delete) (use ok in \<open>simp add: az_ok_def X\<close>)
    moreover have "\<exists>k\<in>set (az_containers db). container_is A (ab_container r) k \<and> \<not> container_is A c k"
      if r: "r \<in> set (az_blobs db)" "\<not> blob_in A c r" for r
    proof -
      obtain k where "k \<in> set (az_containers db)" "container_is A (ab_container r) k" "ab_account r = A"
        using ok r(1) by (auto simp: az_ok_def X)
      with r(2) show ?thesis by (auto simp: container_is_def blob_in_def)
    qed
    ultimately show ?thesis using ok by (auto simp: az_ok_def X AzDeleteContainer delete_container_def)
  next
    case (AzDelete c n)
    have "distinct (map (\<lambda>r. (ab_account r, ab_container r, ab_name r)) (sql_delete (blob_is A c n) (az_blobs db)))"
      by (rule distinct_sql_delete) (use ok in \<open>simp add: az_ok_def X\<close>)
    then show ?thesis using ok by (simp add: az_ok_def X AzDelete delete_blob_def)
  next
    case (AzCreateContainer c now)
    then show ?thesis using ok by (auto simp: az_ok_def X create_container_def)
  qed
qed

subsection \<open>A blob stays\<close>

text \<open>A request that neither deletes the blob or its container nor overwrites it unconditionally.\<close>

fun keeps_blob :: "string \<Rightarrow> string \<Rightarrow> az_op \<Rightarrow> bool" where
  "keeps_blob c n (AzCreateContainer c' now) = True"
| "keeps_blob c n (AzDeleteContainer c') = (c' \<noteq> c)"
| "keeps_blob c n (AzPut c' n' content ctype inm now) = (inm \<or> (c', n') \<noteq> (c, n))"
| "keeps_blob c n (AzDelete c' n') = ((c', n') \<noteq> (c, n))"

lemma select_kept:
  assumes "select_blob A c n db = Some b" "keeps_blob c n x"
  shows "select_blob A c n (snd (az_exec (E, A) x db)) = Some b"
proof (cases x)
  case (AzPut c' n' content ctype inm now)
  let ?new = "new_blob E A c' n' content ctype now"
  have other: "blob_is A c n r \<Longrightarrow> \<not> blob_is A c' n' r" if "(c', n') \<noteq> (c, n)" for r
    using that by (auto simp: blob_is_keys)
  have "find (blob_is A c n) (sql_upsert (blob_is A c' n') (overwrite ?new) ?new rows) = find (blob_is A c n) rows"
    if "(c', n') \<noteq> (c, n)" "find (blob_is A c n) rows = Some b" for rows
    using that other by (auto simp: sql_upsert_def find_sql_update find_append dest: find_Some_set split: option.split)
  then have "(c', n') \<noteq> (c, n) \<Longrightarrow> ?thesis" using assms(1) by (simp add: AzPut put_blob_stores select_blob_def)
  moreover have "(c', n') = (c, n) \<Longrightarrow> ?thesis" using assms by (simp add: AzPut put_blob_stores)
  ultimately show ?thesis by blast
next
  case (AzDeleteContainer c')
  have "(\<lambda>r. blob_is A c n r \<and> \<not> blob_in A c' r) = blob_is A c n"
    using assms(2) by (auto simp: AzDeleteContainer blob_is_def blob_in_def)
  with assms show ?thesis by (simp add: AzDeleteContainer delete_container_def select_blob_def find_sql_delete)
next
  case (AzDelete c' n')
  have "(\<lambda>r. blob_is A c n r \<and> \<not> blob_is A c' n' r) = blob_is A c n"
    using assms(2) by (auto simp: AzDelete blob_is_def blob_in_def)
  with assms show ?thesis by (simp add: AzDelete delete_blob_def select_blob_def find_sql_delete)
qed (use assms in \<open>simp add: create_container_def select_blob_def\<close>)

lemma select_kept_run:
  "select_blob A c n db = Some b \<Longrightarrow> list_all (keeps_blob c n) xs \<Longrightarrow> select_blob A c n (snd (run_ops (az_exec (E, A)) xs db)) = Some b"
  by (induction xs arbitrary: db) (auto simp: Let_def select_kept)

lemma put_selected:
  assumes "put_blob E A c n content ctype inm now db = (Inr (Stored m), db')"
  shows "\<exists>b. select_blob A c n db' = Some b \<and> ab_content b = content \<and> without_content b = m"
proof -
  let ?new = "new_blob E A c n content ctype now"
  let ?b = "case select_blob A c n db of Some old \<Rightarrow> overwrite ?new old | None \<Rightarrow> ?new"
  have "m = without_content ?b" "db' = db\<lparr> az_blobs := sql_upsert (blob_is A c n) (overwrite ?new) ?new (az_blobs db) \<rparr>"
    using assms by (auto simp: put_blob_stores split: if_splits)
  moreover have "find (blob_is A c n) (sql_upsert (blob_is A c n) (overwrite ?new) ?new (az_blobs db)) = Some ?b"
    unfolding select_blob_def by (subst find_sql_upsert) simp_all
  moreover have "ab_content ?b = content" by (simp split: option.split)
  ultimately show ?thesis by (auto simp: select_blob_def)
qed

text \<open>C38: conditional creation.  Once an upload has stored a blob, every upload with If-None-Match: * is
  refused and changes nothing, and the blob reads as it was stored, whatever requests come in between that
  do not delete it, delete its container or overwrite it unconditionally.\<close>

theorem azb_create_once:
  assumes "db = snd (run_ops (az_exec (E, A)) ys az_init)"
    and "put_blob E A c n content ctype inm now db = (Inr (Stored m), db1)"
    and "list_all (keeps_blob c n) xs" "db2 = snd (run_ops (az_exec (E, A)) xs db1)"
  shows "put_blob E A c n content' ctype' True now' db2 = (Inr AlreadyExists, db2)
    \<and> (\<exists>b. get_blob A c n db2 = Some b \<and> ab_content b = content \<and> without_content b = m)"
proof -
  have "az_ok (E, A) db" unfolding assms(1) by (rule az.inv_reached) simp
  moreover have "db1 = snd (az_exec (E, A) (AzPut c n content ctype inm now) db)" using assms(2) by simp
  ultimately have "az_ok (E, A) db1" using az.inv_exec by blast
  then have ok: "az_ok (E, A) db2" unfolding assms(4) using az.inv_run by blast
  obtain b where b: "select_blob A c n db1 = Some b" "ab_content b = content" "without_content b = m"
    using put_selected[OF assms(2)] by blast
  have b2: "select_blob A c n db2 = Some b" using select_kept_run[OF b(1) assms(3)] assms(4) by blast
  then have "b \<in> set (az_blobs db2)" "ab_container b = c"
    by (auto simp: select_blob_def blob_is_keys dest: find_Some_set)
  with ok have "list_ex (container_is A c) (az_containers db2)" by (auto simp: az_ok_def list_ex_iff)
  with b b2 show ?thesis by (simp add: get_blob_def put_blob_stores)
qed

definition az_sample_db :: "az_blob list \<Rightarrow> az_db" where
  "az_sample_db blobs = \<lparr> az_containers = [\<lparr> ac_name = ''c'', ac_account = ''a'', ac_created_at = show_int 0 \<rparr>], az_blobs = blobs \<rparr>"

abbreviation az_sample_blob :: "string \<Rightarrow> string \<Rightarrow> az_blob" where
  "az_sample_blob n content \<equiv> new_blob sample_ext ''a'' ''c'' n content ''t'' 1"

lemma az_sample_create: "snd (az_exec (sample_ext, ''a'') (AzCreateContainer ''c'' 0) az_init) = az_sample_db []"
  by (simp add: create_container_def az_init_def az_sample_db_def sample_ext_def)

lemma az_sample_put:
  assumes "list_all (\<lambda>b. \<not> blob_is ''a'' ''c'' n b) blobs"
  shows "put_blob sample_ext ''a'' ''c'' n content ''t'' inm 1 (az_sample_db blobs)
    = (Inr (Stored (without_content (az_sample_blob n content))), az_sample_db (blobs @ [az_sample_blob n content]))"
proof -
  have "select_blob ''a'' ''c'' n (az_sample_db blobs) = None"
    using assms by (auto simp: select_blob_def az_sample_db_def find_None_set list_all_iff)
  moreover have "\<not> list_ex (blob_is ''a'' ''c'' n) blobs" using assms by (auto simp: list_all_iff list_ex_iff)
  ultimately show ?thesis by (simp add: put_blob_stores sql_upsert_def) (simp add: az_sample_db_def container_is_def)
qed

definition blob_sample_env :: blob_env where
  "blob_sample_env = \<lparr> bx_ext = sample_ext, bx_account = ''a'', bx_base_url = ''http://localhost:4793'', http_date = show_int,
     md5_half = (\<lambda>s. s), md5_b64_of = (\<lambda>s. s) \<rparr>"

theorem azb_create_once_witness:
  "put_blob sample_ext ''a'' ''c'' ''n'' ''y'' ''t'' True 1 (az_sample_db [az_sample_blob ''n'' ''x'', az_sample_blob ''k'' ''z''])
      = (Inr AlreadyExists, az_sample_db [az_sample_blob ''n'' ''x'', az_sample_blob ''k'' ''z''])
    \<and> (\<exists>b. get_blob ''a'' ''c'' ''n'' (az_sample_db [az_sample_blob ''n'' ''x'', az_sample_blob ''k'' ''z'']) = Some b
        \<and> ab_content b = ''x'' \<and> without_content b = without_content (az_sample_blob ''n'' ''x''))"
proof -
  have db: "az_sample_db [] = snd (run_ops (az_exec (sample_ext, ''a'')) [AzCreateContainer ''c'' 0] az_init)"
    using az_sample_create by simp
  have first: "put_blob sample_ext ''a'' ''c'' ''n'' ''x'' ''t'' True 1 (az_sample_db [])
      = (Inr (Stored (without_content (az_sample_blob ''n'' ''x''))), az_sample_db [az_sample_blob ''n'' ''x''])"
    by (subst az_sample_put) simp_all
  have "\<not> blob_is ''a'' ''c'' ''k'' (az_sample_blob ''n'' ''x'')" by (simp add: blob_is_keys)
  then have run: "az_sample_db [az_sample_blob ''n'' ''x'', az_sample_blob ''k'' ''z'']
      = snd (run_ops (az_exec (sample_ext, ''a'')) [AzPut ''c'' ''k'' ''z'' ''t'' False 1] (az_sample_db [az_sample_blob ''n'' ''x'']))"
    by (simp add: az_sample_put)
  have keeps: "list_all (keeps_blob ''c'' ''n'') [AzPut ''c'' ''k'' ''z'' ''t'' False 1]" by simp
  from azb_create_once[OF db first keeps run] show ?thesis .
qed

end
