(* ===== verification/Azure_Blob_Listing.thy ===== *)
theory Azure_Blob_Listing
  imports Azure_Blob_Properties
begin

text \<open>
  Azure Blob Storage, part 4: listing blobs in pages.  \<open>NextMarker\<close> is the name of the first entry of the
  next page.
\<close>

subsection \<open>Names\<close>

abbreviation blob_grp :: "string \<times> string \<Rightarrow> string \<Rightarrow> string option" where
  "blob_grp q \<equiv> blob_group (fst q) (snd q)"

lemma blob_group_first:
  assumes "starts_with k prefix"
  shows "blob_group prefix delim k = first_group (length prefix) (if delim = [] then None else Some delim) k"
proof -
  obtain s where "k = prefix @ s" using assms by (auto simp: starts_with_split)
  then show ?thesis by (simp add: blob_group_def first_group_def add.assoc)
qed

interpretation blob_groups: grouping "\<lambda>q k. starts_with k (fst q)" blob_grp
proof unfold_locales
  fix q k c assume k: "starts_with k (fst q)" "blob_grp q k = Some c"
  then show "\<exists>s. k = c @ s" using first_group_split by (simp add: blob_group_first)
  fix k' assume k': "starts_with k' c"
  have "starts_with c (fst q)" using k(2) by (auto simp: blob_group_def Let_def starts_with_split split: if_splits)
  with k' have ok: "starts_with k' (fst q)" by (auto simp: starts_with_split)
  have "(if snd q = [] then None else Some (snd q)) \<noteq> Some []" by simp
  from first_group_same[OF _ k' this] k ok have "blob_grp q k' = Some c" by (simp add: blob_group_first)
  with ok show "starts_with k' (fst q) \<and> blob_grp q k' = Some c" by blast
qed

abbreviation blob_listed :: "string \<Rightarrow> string \<Rightarrow> string \<Rightarrow> string" where
  "blob_listed prefix delim \<equiv> listed_by (blob_group prefix delim)"

lemma sorted_snoc: "sorted_wrt (<) (xs :: string list) \<Longrightarrow> (\<And>x. x \<in> set xs \<Longrightarrow> x < y) \<Longrightarrow> sorted_wrt (<) (xs @ [y])"
  by (simp add: sorted_wrt_append)

text \<open>Entries are names in order, once each: the last entry is the only one that can repeat.\<close>

lemma list_items_names:
  assumes "sorted_wrt (<) (map ab_name blobs)" "\<And>b. b \<in> set blobs \<Longrightarrow> starts_with (ab_name b) prefix"
    and "sorted_wrt (<) (map listed_name items)"
    and "\<And>x b. x \<in> set items \<Longrightarrow> b \<in> set blobs \<Longrightarrow> listed_name x \<le> blob_listed prefix delim (ab_name b)
       \<and> (listed_name x = blob_listed prefix delim (ab_name b) \<longrightarrow> x = LPrefix (listed_name x) \<and> blob_group prefix delim (ab_name b) \<noteq> None)"
  shows "sorted_wrt (<) (map listed_name (list_items prefix delim blobs items))
    \<and> set (map listed_name (list_items prefix delim blobs items))
      = set (map listed_name items) \<union> blob_listed prefix delim ` ab_name ` set blobs"
  using assms
proof (induction blobs arbitrary: items)
  case (Cons b blobs)
  let ?n = "blob_listed prefix delim (ab_name b)" and ?g = "blob_group prefix delim"
  have rest: "sorted_wrt (<) (map ab_name blobs)" "\<And>b. b \<in> set blobs \<Longrightarrow> starts_with (ab_name b) prefix"
    "starts_with (ab_name b) prefix" "\<And>b'. b' \<in> set blobs \<Longrightarrow> ab_name b < ab_name b'"
    using Cons.prems(1,2) by auto
  have mono: "?n \<le> blob_listed prefix delim (ab_name b')" if "b' \<in> set blobs" for b'
    using blob_groups.listed_mono[of "ab_name b" "(prefix, delim)" "ab_name b'"] rest that by (auto intro: less_imp_le)
  have key: "ab_name b < blob_listed prefix delim (ab_name b')" if "b' \<in> set blobs" "?g (ab_name b) = None" for b'
    using blob_groups.listed_key[of "ab_name b'" "(prefix, delim)" "ab_name b"] rest that by simp
  have group: "?g p = Some p" if "?g (ab_name b) = Some p" for p
    using blob_groups.group_same[of "ab_name b" "(prefix, delim)" p p] that rest(3) by (simp add: starts_with_def)
  have same: "?g (ab_name b') \<noteq> None" if "b' \<in> set blobs" "?g (ab_name b) = Some p" "p = blob_listed prefix delim (ab_name b')" for b' p
  proof
    assume none: "?g (ab_name b') = None"
    then have "ab_name b' = p" using that(3) by (simp add: listed_by_def)
    with group[OF that(2)] none show False by simp
  qed
  define step where "step = (case ?g (ab_name b) of
        Some p \<Rightarrow> if items \<noteq> [] \<and> last items = LPrefix p then items else items @ [LPrefix p]
      | None \<Rightarrow> items @ [LBlob b])"
  have cases: "step = items \<and> items \<noteq> [] \<and> last items = LPrefix ?n \<and> ?g (ab_name b) = Some ?n
    \<or> (\<exists>x. step = items @ [x] \<and> listed_name x = ?n \<and> (items = [] \<or> last items \<noteq> LPrefix ?n \<or> ?g (ab_name b) = None)
        \<and> (x = LPrefix ?n \<and> ?g (ab_name b) = Some ?n \<or> x = LBlob b \<and> ?g (ab_name b) = None))"
    by (auto simp: step_def listed_by_def split: option.split)
  have old: "listed_name x < ?n" if mem: "x \<in> set items" "items = [] \<or> last items \<noteq> LPrefix ?n \<or> ?g (ab_name b) = None" for x
  proof -
    have le: "listed_name x \<le> ?n" and eq: "listed_name x = ?n \<longrightarrow> x = LPrefix (listed_name x) \<and> ?g (ab_name b) \<noteq> None"
      using Cons.prems(4)[OF mem(1), of b] by auto
    have "listed_name x \<noteq> ?n"
    proof
      assume e: "listed_name x = ?n"
      with eq have x: "x = LPrefix ?n" "?g (ab_name b) \<noteq> None" by auto
      then have "last items \<noteq> x" using mem by auto
      moreover have "listed_name (last items) = ?n"
      proof -
        obtain ys z where items: "items = ys @ [z]" using mem(1) by (cases items rule: rev_cases) auto
        have "listed_name x \<le> listed_name z" using mem(1) Cons.prems(3) by (auto simp: items sorted_wrt_append)
        moreover have "listed_name z \<le> ?n" using Cons.prems(4)[of z b] by (simp add: items)
        ultimately show ?thesis using e by (simp add: items)
      qed
      moreover have "last items \<in> set items" using mem(1) by (cases items) auto
      then have "listed_name (last items) = ?n \<longrightarrow> last items = LPrefix ?n" using Cons.prems(4)[of "last items" b] by auto
      ultimately show False using x by simp
    qed
    with le show ?thesis by simp
  qed
  have names: "sorted_wrt (<) (map listed_name step)" "set (map listed_name step) = set (map listed_name items) \<union> {?n}"
  proof -
    show "sorted_wrt (<) (map listed_name step)" using cases Cons.prems(3) old by (auto simp: sorted_wrt_append)
    show "set (map listed_name step) = set (map listed_name items) \<union> {?n}"
    proof -
      have "?n \<in> listed_name ` set items" if "items \<noteq> []" "last items = LPrefix ?n"
        using image_eqI[of ?n listed_name "LPrefix ?n" "set items"] that last_in_set[OF that(1)] by simp
      with cases show ?thesis by auto
    qed
  qed
  have "listed_name x \<le> blob_listed prefix delim (ab_name b')
      \<and> (listed_name x = blob_listed prefix delim (ab_name b') \<longrightarrow> x = LPrefix (listed_name x) \<and> ?g (ab_name b') \<noteq> None)"
    if "x \<in> set step" "b' \<in> set blobs" for x b'
  proof (cases "x \<in> set items")
    case True
    with Cons.prems(4)[of x b'] that(2) show ?thesis by simp
  next
    case False
    then have x: "listed_name x = ?n" "x = LPrefix ?n \<and> ?g (ab_name b) = Some ?n \<or> x = LBlob b \<and> ?g (ab_name b) = None"
      using cases that(1) by auto
    show ?thesis
    proof (cases "?g (ab_name b)")
      case None
      then have "?n = ab_name b" by (simp add: listed_by_def)
      with x key[OF that(2) None] show ?thesis by auto
    next
      case (Some p)
      with x mono[OF that(2)] same[OF that(2)] show ?thesis by auto
    qed
  qed
  then have "sorted_wrt (<) (map listed_name (list_items prefix delim blobs step))
    \<and> set (map listed_name (list_items prefix delim blobs step))
      = set (map listed_name step) \<union> blob_listed prefix delim ` ab_name ` set blobs"
    by (intro Cons.IH rest(1,2) names(1))
  then show ?case using names(2) by (simp add: step_def[symmetric])
qed simp

subsection \<open>Pages\<close>

definition blob_rows :: "blob_env \<Rightarrow> string \<Rightarrow> string \<Rightarrow> az_db \<Rightarrow> az_blob list" where
  "blob_rows X c prefix db = az_list_blobs (bx_account X) c prefix db"

definition list_request_of :: "string \<Rightarrow> string \<Rightarrow> string \<Rightarrow> string option \<Rightarrow> web_request" where
  "list_request_of prefix delim mx marker =
     \<lparr> rq_params = [(''prefix'', prefix), (''delimiter'', delim), (''maxresults'', mx)]
         @ (case marker of Some m \<Rightarrow> [(''marker'', m)] | None \<Rightarrow> []), rq_headers = [], rq_body = [] \<rparr>"

text \<open>A page as a client sees it: the names of its entries and the marker of the next page, if any.\<close>

definition blob_names_page ::
    "blob_env \<Rightarrow> string \<Rightarrow> string \<Rightarrow> string \<Rightarrow> string \<Rightarrow> az_db \<Rightarrow> string option \<Rightarrow> (unit, string list \<times> string option) result" where
  "blob_names_page X c prefix delim mx db marker =
     (let (page, next) = blob_page X c (list_request_of prefix delim mx marker) db
      in Inr (map listed_name page, if next = [] then None else Some next))"

definition blob_names :: "blob_env \<Rightarrow> string \<Rightarrow> string \<Rightarrow> string \<Rightarrow> az_db \<Rightarrow> string list" where
  "blob_names X c prefix delim db = map listed_name (list_items prefix delim (blob_rows X c prefix db) [])"

lemma blob_names_sorted:
  assumes "az_ok (E, bx_account X) db"
  shows "sorted_wrt (<) (blob_names X c prefix delim db)"
    "set (blob_names X c prefix delim db) = {blob_listed prefix delim (ab_name r) | r.
       r \<in> set (az_blobs db) \<and> blob_in (bx_account X) c r \<and> starts_with (ab_name r) prefix}"
proof -
  let ?P = "\<lambda>r. blob_in (bx_account X) c r \<and> starts_with (ab_name r) prefix"
  have name: "ab_name \<circ> without_content = ab_name" by (simp add: fun_eq_iff without_content_def)
  have "distinct (map ab_name (filter ?P (az_blobs db)))"
    using assms unfolding az_ok_def distinct_map inj_on_def blob_in_def by auto
  then have "sorted_wrt (<) (map ab_name (blob_rows X c prefix db))"
    unfolding blob_rows_def az_list_blobs_def map_map name strict_sorted_iff by (simp add: distinct_map del: filter_sort)
  moreover have "starts_with (ab_name b) prefix" if "b \<in> set (blob_rows X c prefix db)" for b
    using that by (auto simp: blob_rows_def az_list_blobs_def without_content_def)
  ultimately have names: "sorted_wrt (<) (blob_names X c prefix delim db)
      \<and> set (blob_names X c prefix delim db) = blob_listed prefix delim ` ab_name ` set (blob_rows X c prefix db)"
    unfolding blob_names_def using list_items_names[of "blob_rows X c prefix db" prefix "[]" delim] by simp
  then show "sorted_wrt (<) (blob_names X c prefix delim db)" by blast
  have "ab_name ` set (blob_rows X c prefix db) = ab_name ` {r \<in> set (az_blobs db). ?P r}"
    by (auto simp: blob_rows_def az_list_blobs_def image_image name[unfolded comp_def fun_eq_iff, rule_format])
  with names show "set (blob_names X c prefix delim db) = {blob_listed prefix delim (ab_name r) | r.
       r \<in> set (az_blobs db) \<and> blob_in (bx_account X) c r \<and> starts_with (ab_name r) prefix}" by auto
qed

fun blob_at :: "blob_env \<times> string \<times> string \<times> string \<times> string \<times> az_db \<Rightarrow> string option \<Rightarrow> nat \<Rightarrow> bool" where
  "blob_at (X, c, prefix, delim, mx, db) None i \<longleftrightarrow> i = 0"
| "blob_at (X, c, prefix, delim, mx, db) (Some m) i \<longleftrightarrow>
     i < length (blob_names X c prefix delim db) \<and> m = blob_names X c prefix delim db ! i"

text \<open>What is at or after a position of an ordered list.\<close>

lemma drop_at_least:
  fixes xs :: "string list"
  assumes "sorted_wrt (<) xs" "i < length xs"
  shows "filter (\<lambda>x. xs ! i \<le> x) xs = drop i xs"
proof (cases i)
  case 0
  have "xs ! 0 \<le> x" if "x \<in> set xs" for x
    using assms that by (cases xs) (auto intro: less_imp_le simp: 0)
  then show ?thesis by (simp add: 0)
next
  case (Suc j)
  have "xs ! i \<le> x \<longleftrightarrow> xs ! j < x" if x: "x \<in> set xs" for x
  proof -
    obtain k where k: "k < length xs" "x = xs ! k" using x by (auto simp: in_set_conv_nth)
    have less: "a < b \<Longrightarrow> b < length xs \<Longrightarrow> xs ! a < xs ! b" for a b by (rule sorted_wrt_nth_less[OF assms(1)])
    show ?thesis
    proof (cases "i \<le> k")
      case True
      with less[of j k] less[of i k] k assms(2) show ?thesis by (cases "i = k") (auto simp: Suc intro: less_imp_le)
    next
      case False
      with less[of k i] less[of k j] k assms(2) show ?thesis by (cases "k = j") (auto simp: Suc)
    qed
  qed
  then have "filter (\<lambda>x. xs ! i \<le> x) xs = filter (\<lambda>x. xs ! j < x) xs" by (intro filter_cong) simp_all
  then show ?thesis using drop_greater[OF assms(1), of i] assms(2) by (simp add: Suc)
qed

definition blob_paged :: "blob_env \<times> string \<times> string \<times> string \<times> string \<times> az_db \<Rightarrow> bool" where
  "blob_paged = (\<lambda>(X, c, prefix, delim, mx, db). az_ok (bx_ext X, bx_account X) db \<and> [] \<notin> set (blob_names X c prefix delim db))"

abbreviation page_size :: "string \<Rightarrow> nat" where
  "page_size mx \<equiv> blob_max (list_request_of [] [] mx None)"

lemma blob_names_page_at:
  assumes "blob_paged (X, c, prefix, delim, mx, db)" "blob_at (X, c, prefix, delim, mx, db) t i"
  shows "blob_names_page X c prefix delim mx db t = (let rest = drop i (blob_names X c prefix delim db)
    in Inr (take (page_size mx) rest, if page_size mx < length rest then Some (rest ! page_size mx) else None))"
proof -
  let ?r = "list_request_of prefix delim mx t" and ?items = "list_items prefix delim (blob_rows X c prefix db) []"
  have ok: "az_ok (bx_ext X, bx_account X) db" "[] \<notin> set (blob_names X c prefix delim db)"
    using assms(1) by (simp_all add: blob_paged_def)
  have params: "blob_param ?r ''prefix'' = prefix" "blob_param ?r ''delimiter'' = delim"
    "blob_param ?r ''marker'' = (case t of Some m \<Rightarrow> m | None \<Rightarrow> [])" "blob_max ?r = page_size mx"
    by (auto simp: blob_param_def list_request_of_def blob_max_def split: option.split)
  let ?page = "filter (\<lambda>i. blob_param ?r ''marker'' = [] \<or> blob_param ?r ''marker'' \<le> listed_name i) ?items"
  have rest: "map listed_name ?page = drop i (blob_names X c prefix delim db)"
  proof (cases t)
    case None
    then show ?thesis using assms(2) params(3) by (simp add: blob_names_def)
  next
    case (Some m)
    then have m: "i < length (blob_names X c prefix delim db)" "m = blob_names X c prefix delim db ! i" using assms(2) by simp_all
    then have "m \<noteq> []" using ok(2) by (metis nth_mem)
    then show ?thesis
      using drop_at_least[OF blob_names_sorted(1)[OF ok(1)] m(1)] m(2) params(3)
      by (simp add: Some blob_names_def filter_map comp_def)
  qed
  have len: "length ?page = length (drop i (blob_names X c prefix delim db))" unfolding rest[symmetric] by simp
  have nth: "listed_name (?page ! k) = drop i (blob_names X c prefix delim db) ! k" if "k < length ?page" for k
    using that by (simp add: rest[symmetric])
  have nonempty: "drop i (blob_names X c prefix delim db) ! k \<noteq> []" if "k < length (drop i (blob_names X c prefix delim db))" for k
    using ok(2) in_set_dropD[OF nth_mem[OF that]] by metis
  have "blob_page X c ?r db = (if page_size mx < length ?page then (take (page_size mx) ?page, listed_name (?page ! page_size mx)) else (?page, []))"
    by (simp add: blob_page_def Let_def params blob_paginate_def blob_rows_def)
  then show ?thesis
    using nth nonempty len by (auto simp: blob_names_page_def Let_def rest take_map[symmetric])
qed

interpretation blob_pages: pager blob_paged "\<lambda>(X, c, prefix, delim, mx, db). blob_names_page X c prefix delim mx db"
  "\<lambda>(X, c, prefix, delim, mx, db). blob_names X c prefix delim db" blob_at
proof (unfold_locales, goal_cases)
  case (1 v)
  then show ?case by (cases v) simp
next
  case (2 v t i)
  obtain X c prefix delim mx db where v: "v = (X, c, prefix, delim, mx, db)" by (cases v)
  let ?ns = "blob_names X c prefix delim db" and ?m = "page_size mx"
  let ?u = "if ?m < length (drop i ?ns) then Some (drop i ?ns ! ?m) else None"
  have page: "blob_names_page X c prefix delim mx db t = Inr (take ?m (drop i ?ns), ?u)"
    using blob_names_page_at[of X c prefix delim mx db t i] 2 by (simp add: v Let_def)
  have "0 < ?m" by (simp add: blob_max_def split: option.split)
  then show ?case
    unfolding v prod.case
    by (intro exI[of _ "take ?m (drop i ?ns)"] exI[of _ ?u] conjI page) (auto simp: min_def)
qed

text \<open>Listing is complete.  Following NextMarker of List Blobs, with any prefix, delimiter and page
  size, collects in order and once each the names that have the prefix, grouped by the delimiter.\<close>

theorem azb_listing_complete:
  assumes db: "db = snd (run_ops (az_exec (bx_ext X, bx_account X)) xs az_init)"
    and names: "list_all (\<lambda>r. ab_name r \<noteq> []) (az_blobs db)" and fuel: "length (az_blobs db) < fuel"
  shows "\<exists>names. collect_pages fuel (blob_names_page X c prefix delim mx db) None = Some names \<and> sorted_wrt (<) names
    \<and> set names = {blob_listed prefix delim (ab_name r) | r.
        r \<in> set (az_blobs db) \<and> blob_in (bx_account X) c r \<and> starts_with (ab_name r) prefix}"
proof -
  have ok: "az_ok (bx_ext X, bx_account X) db" unfolding db by (rule az.inv_reached) simp
  note ns = blob_names_sorted[OF ok, of c prefix delim]
  have "blob_listed prefix delim (ab_name r) \<noteq> []" if "r \<in> set (az_blobs db)" for r
  proof -
    have "ab_name r \<noteq> []" using names that by (auto simp: list_all_iff)
    moreover have "blob_group prefix delim (ab_name r) = Some p \<Longrightarrow> p \<noteq> []" for p
      using str_find_bound[of delim "drop (length prefix) (ab_name r)"]
      by (auto simp: blob_group_def Let_def split: if_splits)
    ultimately show ?thesis by (auto simp: listed_by_def split: option.split)
  qed
  then have nonempty: "[] \<notin> set (blob_names X c prefix delim db)" unfolding ns(2) mem_Collect_eq by metis
  have "length (blob_names X c prefix delim db) = card (set (blob_names X c prefix delim db))"
    using ns(1) by (metis distinct_card strict_sorted_iff)
  also have "\<dots> \<le> card ((\<lambda>r. blob_listed prefix delim (ab_name r)) ` set (az_blobs db))"
    by (rule card_mono) (auto simp: ns(2))
  also have "\<dots> \<le> card (set (az_blobs db))" by (rule card_image_le) simp
  also have "\<dots> \<le> length (az_blobs db)" by (rule card_length)
  finally have "length (blob_names X c prefix delim db) < fuel" using fuel by simp
  then have "collect_pages fuel (blob_names_page X c prefix delim mx db) None = Some (blob_names X c prefix delim db)"
    using blob_pages.collect_all[of "(X, c, prefix, delim, mx, db)" fuel] ok nonempty by (simp add: blob_paged_def)
  with ns show ?thesis by blast
qed

theorem azb_listing_complete_witness:
  "\<exists>names. collect_pages 9 (blob_names_page blob_sample_env ''c'' [] ''/'' ''1''
      (az_sample_db [az_sample_blob ''a/x'' ''1'', az_sample_blob ''c'' ''2'', az_sample_blob ''a/y'' ''3''])) None = Some names
    \<and> sorted_wrt (<) names \<and> set names = {''a/'', ''c''}"
proof -
  let ?blobs = "[az_sample_blob ''a/x'' ''1'', az_sample_blob ''c'' ''2'', az_sample_blob ''a/y'' ''3'']"
  let ?ops = "AzCreateContainer ''c'' 0 # map (\<lambda>(n, b). AzPut ''c'' n b ''t'' False 1) [(''a/x'', ''1''), (''c'', ''2''), (''a/y'', ''3'')]"
  have env: "bx_ext blob_sample_env = sample_ext" "bx_account blob_sample_env = ''a''" by (simp_all add: blob_sample_env_def)
  have db: "az_sample_db ?blobs = snd (run_ops (az_exec (bx_ext blob_sample_env, bx_account blob_sample_env)) ?ops az_init)"
    using az_sample_create by (simp add: env Let_def az_sample_put blob_is_keys)
  have blobs: "az_blobs (az_sample_db ?blobs) = ?blobs" by (simp add: az_sample_db_def)
  have group: "blob_group [] ''/'' ''a/x'' = Some ''a/''" "blob_group [] ''/'' ''a/y'' = Some ''a/''" "blob_group [] ''/'' ''c'' = None"
    by (simp_all add: blob_group_def starts_with_def)
  have all: "{f r | r. r \<in> S \<and> P r \<and> Q r} = f ` S" if "\<And>r. r \<in> S \<Longrightarrow> P r \<and> Q r"
    for f :: "az_blob \<Rightarrow> string" and S P Q using that by blast
  have set: "{blob_listed [] ''/'' (ab_name r) | r. r \<in> set ?blobs \<and> blob_in (bx_account blob_sample_env) ''c'' r \<and> starts_with (ab_name r) []}
      = {''a/'', ''c''}"
    by (subst all) (auto simp: starts_with_def env blob_in_def listed_by_def group)
  have "list_all (\<lambda>r. ab_name r \<noteq> []) (az_blobs (az_sample_db ?blobs))" by (simp add: blobs)
  from azb_listing_complete[OF db this, of 9 "''c''" "[]" "''/''" "''1''"] show ?thesis unfolding blobs set by simp
qed

end
