(* ===== verification/Azure_Blob_Ranges.thy ===== *)
theory Azure_Blob_Ranges
  imports Azure_Blob_Properties
begin

text \<open>
  Azure Blob Storage, part 5: downloads in ranges.  A client asks for ranges of a size it chooses and reads
  the length of the blob from the Content-Range header of each answer; the ranges are the pages of a \<open>pager\<close>.
\<close>

subsection \<open>Header maps\<close>

lemma map_of_hm_insert: "map_of (hm_insert k v h) = (map_of h)(k \<mapsto> v)"
proof
  fix x
  have "map_of (filter (\<lambda>(k', _). k' \<noteq> k) h) x = (if x = k then None else map_of h x)"
    by (induction h) auto
  then show "map_of (hm_insert k v h) x = ((map_of h)(k \<mapsto> v)) x" by (simp add: hm_insert_def map_add_def split: option.split)
qed

lemma map_of_hm_set: "map_of (hm_set k v h) = (if header_text v then (map_of h)(k \<mapsto> v) else map_of h)"
  by (simp add: hm_set_def map_of_hm_insert)

lemma distinct_hm_set: "distinct (map fst h) \<Longrightarrow> distinct (map fst (hm_set k v h))"
  by (induction h) (auto simp: hm_set_def hm_insert_def split: if_splits)

lemma distinct_hm_of: "distinct (map fst (hm_of kvs))"
proof -
  have "distinct (map fst h) \<Longrightarrow> distinct (map fst (fold (\<lambda>(k, v). hm_set k v) kvs h))" for h
    by (induction kvs arbitrary: h) (auto simp: distinct_hm_set)
  then show ?thesis by (simp add: hm_of_def)
qed

lemma map_of_hm_extend: "distinct (map fst extra) \<Longrightarrow> map_of (hm_extend extra h) k = (case map_of extra k of Some v \<Rightarrow> Some v | None \<Rightarrow> map_of h k)"
proof (induction extra arbitrary: h)
  case (Cons e extra)
  obtain k' v where e: "e = (k', v)" by (cases e)
  have unfold: "hm_extend ((k', v) # extra) h = hm_extend extra (hm_insert k' v h)" by (simp add: hm_extend_def)
  have "map_of extra k' = None" using Cons.prems by (auto simp: e map_of_eq_None_iff)
  with Cons show ?case by (auto simp: unfold e map_of_hm_insert split: option.split)
qed (simp add: hm_extend_def)

subsection \<open>Range texts\<close>

lemma blob_range_text:
  assumes "a < len" "a \<le> e" "a < 2 ^ 64" "e < 2 ^ 64"
  shows "blob_parse_range (''bytes='' @ show_nat a @ ''-'' @ show_nat e) len = Some (Some (a, min e (len - 1)))"
proof -
  have sep: "\<not> is_digit CHR ''-''" by (simp add: is_digit_def)
  have "visible_word (''bytes='' @ show_nat a @ ''-'' @ show_nat e)"
    using show_nat_visible(3)[of e] by (simp add: visible_word_def visible_def)
  then have "trim (''bytes='' @ show_nat a @ ''-'' @ show_nat e) = ''bytes='' @ show_nat a @ ''-'' @ show_nat e" by (rule trim_word(1))
  moreover have "split_once CHR ''-'' (show_nat a @ ''-'' @ show_nat e) = Some (show_nat a, show_nat e)"
    using split_once_append[of "CHR ''-''" "show_nat a" "show_nat e"] not_in_show_nat[OF sep] by simp
  ultimately show ?thesis
    using trim_word(1)[OF show_nat_visible(4)] parse_usize_show assms
    by (simp add: blob_parse_range_def strip_prefix_append[of "''bytes=''", simplified])
qed

lemma range_header_text: "header_text (p @ show_nat a @ ''-'' @ show_nat b) = header_text p"
  using show_nat_visible(1)[of a] show_nat_visible(1)[of b] by (auto simp: header_text_def visible_def list_all_iff)

subsection \<open>The client\<close>

definition range_request :: "nat \<Rightarrow> nat \<Rightarrow> web_request" where
  "range_request off step = \<lparr> rq_params = [], rq_headers = [(''x-ms-range'', ''bytes='' @ show_nat off @ ''-'' @ show_nat (off + step - 1))], rq_body = [] \<rparr>"

definition range_total :: "http_response \<Rightarrow> nat option" where
  "range_total resp = Option.bind (map_of (http_headers resp) ''content-range'')
     (\<lambda>v. Option.bind (rsplit_once CHR ''/'' v) (\<lambda>(_, t). parse_usize t))"

text \<open>The page at an offset: its bytes, and the next offset unless the length of the blob is reached.\<close>

definition range_page ::
    "blob_env \<Rightarrow> string \<Rightarrow> string \<Rightarrow> nat \<Rightarrow> int \<Rightarrow> blob_state \<Rightarrow> nat option \<Rightarrow> (nat, string \<times> nat option) result" where
  "range_page X c n step now s t =
     (let off = (case t of Some k \<Rightarrow> k | None \<Rightarrow> 0);
          resp = fst (h_get_blob X (bx_account X) c n (range_request off step) now s);
          next = off + length (http_body resp)
      in if http_status resp \<noteq> 206 then Inl (http_status resp)
         else Inr (http_body resp, case range_total resp of Some len \<Rightarrow> if next < len then Some next else None | None \<Rightarrow> None))"

lemma range_page_at:
  assumes b: "select_blob (bx_account X) c n (bs_db s) = Some b" and off: "off < length (ab_content b)" and step: "0 < step"
    and small: "length (ab_content b) + step < 2 ^ 64" and t: "off = (case t of Some k \<Rightarrow> k | None \<Rightarrow> 0)"
  shows "range_page X c n step now s t = (let part = take step (drop off (ab_content b))
    in Inr (part, if off + length part < length (ab_content b) then Some (off + length part) else None))"
proof -
  let ?len = "length (ab_content b)" and ?r = "range_request off step"
  define stop where "stop = min (off + step - 1) (?len - 1)"
  let ?range = "''bytes '' @ show_nat off @ ''-'' @ show_nat stop @ ''/'' @ show_nat ?len"
  let ?part = "take step (drop off (ab_content b))"
  have "header_text (''bytes='' @ show_nat off @ ''-'' @ show_nat (off + step - 1))"
    using range_header_text[of "''bytes=''" off "off + step - 1"] by (simp add: header_text_def visible_def)
  moreover define spec where "spec = ''bytes='' @ show_nat off @ ''-'' @ show_nat (off + step - 1)"
  ultimately have get: "header_get ''x-ms-range'' ?r = Some spec" by (simp add: range_request_def header_get_def)
  have none: "header_get ''if-match'' ?r = None" "header_get ''if-none-match'' ?r = None" "header_get ''x-ms-range-get-content-md5'' ?r = None"
    "map_of (rq_params ?r) ''comp'' = None"
    by (simp_all add: range_request_def header_get_def)
  have parse: "blob_parse_range spec ?len = Some (Some (off, stop))"
    unfolding stop_def spec_def by (rule blob_range_text) (use off step small in simp_all)
  have chunk: "take (Suc stop - off) (drop off (ab_content b)) = ?part"
    using off step by (auto simp: stop_def min_def intro!: take_all)
  let ?h = "hm_set ''x-ms-blob-content-md5'' (md5_b64_of X (ab_content b)) (hm_set ''content-range'' ?range (blob_headers X now b))"
  have resp: "fst (h_get_blob X (bx_account X) c n ?r now s)
      = \<lparr> http_status = 206, http_headers = hm_extend ?h (base_headers X ?r now (bs_draws s)), http_body = ?part \<rparr>"
    using b by (simp add: h_get_blob_def for_account_def get_blob_def read_conditions_def none get parse chunk Let_def blob_respond_def)
  have "header_text ?range"
    using show_nat_visible(1) by (simp add: header_text_def list_all_iff) (auto simp: visible_def)
  then have "map_of ?h ''content-range'' = Some ?range" by (simp add: map_of_hm_set)
  moreover have "distinct (map fst ?h)" by (simp add: distinct_hm_set blob_headers_def distinct_hm_of)
  ultimately have "map_of (hm_extend ?h (base_headers X ?r now (bs_draws s))) ''content-range'' = Some ?range"
    by (simp add: map_of_hm_extend)
  moreover have "rsplit_once CHR ''/'' ?range = Some (''bytes '' @ show_nat off @ ''-'' @ show_nat stop, show_nat ?len)"
    using rsplit_once_append[of "CHR ''/''" "show_nat ?len" "''bytes '' @ show_nat off @ ''-'' @ show_nat stop"]
      not_in_show_nat[of "CHR ''/''" ?len] by (simp add: is_digit_def)
  moreover have "parse_usize (show_nat ?len) = Some ?len" by (rule parse_usize_show) (use small in simp)
  ultimately have "range_total \<lparr> http_status = 206, http_headers = hm_extend ?h (base_headers X ?r now (bs_draws s)), http_body = ?part \<rparr> = Some ?len"
    by (simp add: range_total_def)
  then show ?thesis using off by (simp add: range_page_def t[symmetric] Let_def resp)
qed

subsection \<open>The whole download\<close>

type_synonym download = "blob_env \<times> string \<times> string \<times> nat \<times> int \<times> blob_state \<times> string"

definition download_ok :: "download \<Rightarrow> bool" where
  "download_ok = (\<lambda>(X, c, n, step, now, s, content). 0 < step \<and> content \<noteq> [] \<and> length content + step < 2 ^ 64
     \<and> (\<exists>b. select_blob (bx_account X) c n (bs_db s) = Some b \<and> ab_content b = content))"

fun download_at :: "download \<Rightarrow> nat option \<Rightarrow> nat \<Rightarrow> bool" where
  "download_at (X, c, n, step, now, s, content) t i \<longleftrightarrow> i < length content \<and> i = (case t of Some k \<Rightarrow> k | None \<Rightarrow> 0)"

interpretation blob_download: pager download_ok "\<lambda>(X, c, n, step, now, s, content). range_page X c n step now s"
  "\<lambda>(X, c, n, step, now, s, content). content" download_at
proof (unfold_locales, goal_cases)
  case (1 v)
  then show ?case by (cases v) (simp add: download_ok_def)
next
  case (2 v t i)
  obtain X c n step now s content where v: "v = (X, c, n, step, now, s, content)" by (cases v)
  from 2 obtain b where b: "select_blob (bx_account X) c n (bs_db s) = Some b" "ab_content b = content"
    and step: "0 < step" "length content + step < 2 ^ 64" by (auto simp: v download_ok_def)
  have i: "i < length content" "i = (case t of Some k \<Rightarrow> k | None \<Rightarrow> 0)" using 2(2) by (simp_all add: v)
  let ?part = "take step (drop i content)"
  let ?u = "if i + length ?part < length content then Some (i + length ?part) else None"
  have page: "range_page X c n step now s t = Inr (?part, ?u)"
    using range_page_at[OF b(1) _ step(1) _ i(2)] b(2) step(2) i(1) by (simp add: Let_def)
  show ?case
    unfolding v prod.case
    by (intro exI[of _ ?part] exI[of _ ?u] conjI page) (use i step in \<open>auto simp: min_def\<close>)
qed

text \<open>C37: downloads.  A blob that was uploaded is read back, in ranges of any size, exactly as it was stored,
  whatever requests come in between that neither delete it, delete its container nor overwrite it.\<close>

theorem azb_ranged_download:
  assumes put: "put_blob (bx_ext X) (bx_account X) c n content ctype inm now db = (Inr (Stored m), db1)" "content \<noteq> []"
    and later: "list_all (keeps_blob c n) xs" "bs_db s = snd (run_ops (az_exec (bx_ext X, bx_account X)) xs db1)"
    and step: "0 < step" "length content + step < 2 ^ 64" "length content < fuel"
  shows "collect_pages fuel (range_page X c n step now' s) None = Some content"
proof -
  obtain b where b: "select_blob (bx_account X) c n db1 = Some b" "ab_content b = content"
    using put_selected[OF put(1)] by blast
  have "select_blob (bx_account X) c n (bs_db s) = Some b" unfolding later(2) by (rule select_kept_run[OF b(1) later(1)])
  with b(2) put(2) step show ?thesis
    using blob_download.collect_all[of "(X, c, n, step, now', s, content)" fuel] by (auto simp: download_ok_def)
qed

theorem azb_ranged_download_witness:
  "collect_pages 9 (range_page blob_sample_env ''c'' ''n'' 2 5
     \<lparr> bs_db = az_sample_db [az_sample_blob ''n'' ''abcde'', az_sample_blob ''k'' ''z''], bs_draws = 0, bs_events = [] \<rparr>) None = Some ''abcde''"
proof -
  let ?s = "\<lparr> bs_db = az_sample_db [az_sample_blob ''n'' ''abcde'', az_sample_blob ''k'' ''z''], bs_draws = 0, bs_events = [] \<rparr>"
  have env: "bx_ext blob_sample_env = sample_ext" "bx_account blob_sample_env = ''a''" by (simp_all add: blob_sample_env_def)
  have first: "put_blob (bx_ext blob_sample_env) (bx_account blob_sample_env) ''c'' ''n'' ''abcde'' ''t'' False 1 (az_sample_db [])
      = (Inr (Stored (without_content (az_sample_blob ''n'' ''abcde''))), az_sample_db [az_sample_blob ''n'' ''abcde''])"
    unfolding env by (subst az_sample_put) simp_all
  have "\<not> blob_is ''a'' ''c'' ''k'' (az_sample_blob ''n'' ''abcde'')" by (simp add: blob_is_keys)
  then have run: "bs_db ?s = snd (run_ops (az_exec (bx_ext blob_sample_env, bx_account blob_sample_env))
      [AzPut ''c'' ''k'' ''z'' ''t'' False 1] (az_sample_db [az_sample_blob ''n'' ''abcde'']))"
    by (simp add: env az_sample_put)
  have keeps: "list_all (keeps_blob ''c'' ''n'') [AzPut ''c'' ''k'' ''z'' ''t'' False 1]" by simp
  show ?thesis by (rule azb_ranged_download[OF first _ keeps run]) simp_all
qed

end
