(* ===== verification/Bedrock.thy ===== *)
theory Bedrock
  imports Http "HOL-Library.AList" "HOL-Library.Word"
begin

text \<open>
  Bedrock, part 1: the simulation (config.rs, state.rs, generator.rs and scenario_engine.rs of
  src/src/aws/bedrock).  A response depends on the configuration of the model, the number of requests the
  model has had and the prompt.  A \<open>HashMap\<close> of the configuration is an association list with distinct
  keys.  Counters are below \<open>2 ^ 64\<close>; lengths of texts have the 64 bits of \<open>usize\<close> and wrap, as in a
  release build.
\<close>

unbundle bit_operations_syntax

subsection \<open>Configuration\<close>

record latency =
  lt_min :: nat
  lt_max :: nat

record streaming =
  sm_enabled :: bool
  sm_chunk_mode :: string
  sm_fixed :: nat
  sm_first_delay :: nat
  sm_delay :: nat
  sm_fail_after :: "nat option"

record text_config =
  tc_template :: string
  tc_min_words :: "64 word"
  tc_max_words :: "64 word"

datatype schema_node = SchemaNode
  (sn_kind: string)
  (sn_properties: "(string \<times> schema_node) list")
  (sn_items: "schema_node option")
  (sn_enum: "json list option")

record error_entry =
  ee_kind :: string
  ee_message :: string

record response_entry =
  re_static :: "json option"
  re_mode :: "string option"
  re_text :: "text_config option"
  re_error :: "error_entry option"

record sequence_config =
  sq_mode :: string
  sq_responses :: "response_entry list"

record rule_config =
  ru_contains :: "string option"
  ru_response :: "response_entry option"
  ru_error :: "error_entry option"

record error_inject =
  ei_every :: nat
  ei_kind :: string
  ei_message :: string

record model_config =
  mc_name :: "string option"
  mc_provider :: "string option"
  mc_mode :: "string option"
  mc_static :: "json option"
  mc_schema :: "schema_node option"
  mc_text :: "text_config option"
  mc_sequence :: "sequence_config option"
  mc_rules :: "rule_config list"
  mc_errors :: "error_inject list"
  mc_streaming :: "streaming option"
  mc_latency :: "latency option"

record defaults_config =
  df_mode :: string
  df_latency :: "latency option"

record bedrock_config =
  bc_defaults :: defaults_config
  bc_models :: "(string \<times> model_config) list"

datatype model_ref = Owned model_config | Default defaults_config

definition get_model_config :: "bedrock_config \<Rightarrow> string \<Rightarrow> model_ref" where
  "get_model_config cfg model = (case map_of (bc_models cfg) model of Some m \<Rightarrow> Owned m | None \<Rightarrow> Default (bc_defaults cfg))"

fun mr_mode :: "model_ref \<Rightarrow> string" where
  "mr_mode (Owned m) = (case mc_mode m of Some s \<Rightarrow> s | None \<Rightarrow> ''text'')"
| "mr_mode (Default d) = df_mode d"

fun mr_static :: "model_ref \<Rightarrow> json option" where
  "mr_static (Owned m) = mc_static m" | "mr_static (Default d) = None"

fun mr_schema :: "model_ref \<Rightarrow> schema_node option" where
  "mr_schema (Owned m) = mc_schema m" | "mr_schema (Default d) = None"

fun mr_text :: "model_ref \<Rightarrow> text_config option" where
  "mr_text (Owned m) = mc_text m" | "mr_text (Default d) = None"

fun mr_sequence :: "model_ref \<Rightarrow> sequence_config option" where
  "mr_sequence (Owned m) = mc_sequence m" | "mr_sequence (Default d) = None"

fun mr_rules :: "model_ref \<Rightarrow> rule_config list" where
  "mr_rules (Owned m) = mc_rules m" | "mr_rules (Default d) = []"

fun mr_errors :: "model_ref \<Rightarrow> error_inject list" where
  "mr_errors (Owned m) = mc_errors m" | "mr_errors (Default d) = []"

fun mr_streaming :: "model_ref \<Rightarrow> streaming option" where
  "mr_streaming (Owned m) = mc_streaming m" | "mr_streaming (Default d) = None"

fun mr_latency :: "model_ref \<Rightarrow> latency option" where
  "mr_latency (Owned m) = mc_latency m" | "mr_latency (Default d) = df_latency d"

definition effective_name :: "model_config \<Rightarrow> string \<Rightarrow> string" where
  "effective_name m model = (case mc_name m of Some n \<Rightarrow> n | None \<Rightarrow> model)"

definition effective_provider :: "model_config \<Rightarrow> string \<Rightarrow> string" where
  "effective_provider m model = (case mc_provider m of Some p \<Rightarrow> p | None \<Rightarrow> hd (split_on CHR ''.'' model))"

subsection \<open>Request counters\<close>

type_synonym counters = "(string \<times> nat) list"

definition counter_of :: "string \<Rightarrow> counters \<Rightarrow> nat" where
  "counter_of model cs = (case map_of cs model of Some n \<Rightarrow> n | None \<Rightarrow> 0)"

definition increment :: "string \<Rightarrow> counters \<Rightarrow> nat \<times> counters" where
  "increment model cs = (let n = Suc (counter_of model cs) in (n, AList.update model n cs))"

definition reset_counters :: "string option \<Rightarrow> counters \<Rightarrow> counters" where
  "reset_counters model cs = (case model of None \<Rightarrow> [] | Some m \<Rightarrow> AList.delete m cs)"

subsection \<open>Generated data\<close>

definition LIPSUM :: "string list" where
  "LIPSUM = [''lorem'', ''ipsum'', ''dolor'', ''sit'', ''amet'', ''consectetur'', ''adipiscing'', ''elit'', ''sed'', ''do'',
     ''eiusmod'', ''tempor'', ''incididunt'', ''ut'', ''labore'', ''et'', ''dolore'', ''magna'', ''aliqua'', ''enim'', ''ad'', ''minim'',
     ''veniam'', ''quis'', ''nostrud'', ''exercitation'', ''ullamco'', ''laboris'', ''nisi'', ''aliquip'', ''ex'', ''ea'', ''commodo'',
     ''consequat'']"

definition FLOATS :: "f64 list" where
  "FLOATS = map (\<lambda>n. F64 (f64_round (of_nat n / 100))) [42, 73, 17, 85, 61, 33, 94, 28, 55, 79]"

definition INTEGERS :: "int list" where
  "INTEGERS = [1, 7, 42, 13, 99, 5, 28, 64, 3, 17]"

text \<open>The FNV-1a hash of the model, the path and the count.\<close>

definition compute_seed :: "string \<Rightarrow> string \<Rightarrow> nat \<Rightarrow> 64 word" where
  "compute_seed model path n =
     foldl (\<lambda>h b. (h XOR of_nat (code_of b)) * 1099511628211) 14695981039346656037
       (model @ '':'' @ path @ '':'' @ show_nat n)"

definition pick :: "'a list \<Rightarrow> 64 word \<Rightarrow> 'a" where
  "pick xs seed = xs ! (unat seed mod length xs)"

definition word_count :: "string \<Rightarrow> nat \<Rightarrow> text_config option \<Rightarrow> 64 word" where
  "word_count model n cfg =
     (let lo = (case cfg of Some c \<Rightarrow> tc_min_words c | None \<Rightarrow> 5); hi = (case cfg of Some c \<Rightarrow> tc_max_words c | None \<Rightarrow> 15)
      in lo + compute_seed model ''text'' n mod (max (hi - lo + 1) 1))"

definition generate_text :: "string \<Rightarrow> nat \<Rightarrow> text_config option \<Rightarrow> string" where
  "generate_text model n cfg =
     join_on CHR '' '' (map (\<lambda>i. pick LIPSUM (compute_seed model (''text.word.'' @ show_nat i) n)) [0..<unat (word_count model n cfg)])"

definition lipsum_at :: "string \<Rightarrow> nat \<Rightarrow> string \<Rightarrow> json" where
  "lipsum_at model n path = JStr (pick LIPSUM (compute_seed model path n))"

definition array_size :: "string \<Rightarrow> nat \<Rightarrow> string \<Rightarrow> nat" where
  "array_size model n path = 1 + unat (compute_seed model (path @ ''.len'') n) mod 3"

definition item_path :: "string \<Rightarrow> nat \<Rightarrow> string" where
  "item_path path i = path @ ''['' @ show_nat i @ '']''"

definition child_path :: "string \<Rightarrow> string \<Rightarrow> string" where
  "child_path path key = (if path = [] then key else path @ ''.'' @ key)"

lemma size_schema_child: "(k, c) \<in> set props \<Longrightarrow> size c < size (SchemaNode kind props items en)"
  by (induction props) auto

text \<open>The default item of an array is a string node.\<close>

function generate_from_schema :: "schema_node \<Rightarrow> string \<Rightarrow> nat \<Rightarrow> string \<Rightarrow> json" where
  "generate_from_schema (SchemaNode kind props items en) model n path =
     (case (case en of Some vs \<Rightarrow> if vs \<noteq> [] then Some (pick vs (compute_seed model path n)) else None | None \<Rightarrow> None) of
        Some v \<Rightarrow> v
      | None \<Rightarrow>
          if kind = ''object'' then
            JObj (bt_of_list (map (\<lambda>(key, c). (key, generate_from_schema c model n (child_path path key))) (sort_key fst props)))
          else if kind = ''array'' then
            JArr (map (\<lambda>i. case items of Some c \<Rightarrow> generate_from_schema c model n (item_path path i)
                                       | None \<Rightarrow> lipsum_at model n (item_path path i)) [0..<array_size model n path])
          else if kind = ''number'' then JFloat (pick FLOATS (compute_seed model path n))
          else if kind = ''integer'' then JInt (pick INTEGERS (compute_seed model path n))
          else if kind = ''boolean'' then JBool (even (unat (compute_seed model path n)))
          else lipsum_at model n path)"
  by pat_completeness auto
termination
  by (relation "measure (\<lambda>(s, _). size s)") (auto dest: size_schema_child)

declare generate_from_schema.simps [simp del]

subsection \<open>The scenario engine\<close>

record resolved =
  rs_kind :: string
  rs_json :: "json option"
  rs_text :: "string option"
  rs_model :: string
  rs_count :: nat
  rs_source :: string
  rs_streaming :: bool
  rs_streaming_config :: "streaming option"
  rs_latency :: "latency option"
  rs_error_type :: "string option"
  rs_error_message :: "string option"

record resolve_ctx =
  rx_model :: string
  rx_count :: nat
  rx_streaming :: bool
  rx_streaming_config :: "streaming option"
  rx_latency :: "latency option"

definition success_response :: "resolve_ctx \<Rightarrow> string \<Rightarrow> json option \<Rightarrow> string option \<Rightarrow> resolved" where
  "success_response x source js text =
     \<lparr> rs_kind = ''success'', rs_json = js, rs_text = text, rs_model = rx_model x, rs_count = rx_count x, rs_source = source,
       rs_streaming = rx_streaming x, rs_streaming_config = rx_streaming_config x, rs_latency = rx_latency x,
       rs_error_type = None, rs_error_message = None \<rparr>"

definition bedrock_error :: "resolve_ctx \<Rightarrow> string \<Rightarrow> string \<Rightarrow> string \<Rightarrow> resolved" where
  "bedrock_error x kind message source =
     (success_response x source None None)\<lparr> rs_kind := ''error'', rs_error_type := Some kind, rs_error_message := Some message \<rparr>"

definition resolve_response_entry :: "response_entry \<Rightarrow> resolve_ctx \<Rightarrow> string \<Rightarrow> resolved" where
  "resolve_response_entry e x source =
     (case re_error e of
        Some err \<Rightarrow> bedrock_error x (ee_kind err) (ee_message err) source
      | None \<Rightarrow> (case re_static e of
            Some payload \<Rightarrow> success_response x source (Some payload) None
          | None \<Rightarrow> success_response x source None (Some (generate_text (rx_model x) (rx_count x) (re_text e)))))"

fun find_inject :: "error_inject list \<Rightarrow> nat \<Rightarrow> error_inject option" where
  "find_inject [] n = None"
| "find_inject (i # rest) n = (if 0 < ei_every i \<and> ei_every i dvd n then Some i else find_inject rest n)"

fun apply_rules :: "rule_config list \<Rightarrow> string \<Rightarrow> resolve_ctx \<Rightarrow> resolved option" where
  "apply_rules [] prompt x = None"
| "apply_rules (r # rs) prompt x =
     (if (case ru_contains r of Some needle \<Rightarrow> str_find needle prompt \<noteq> None | None \<Rightarrow> False) then
        (case ru_error r of
           Some err \<Rightarrow> Some (bedrock_error x (ee_kind err) (ee_message err) ''rule_error'')
         | None \<Rightarrow> (case ru_response r of
               Some resp \<Rightarrow> Some (resolve_response_entry resp x ''rule'')
             | None \<Rightarrow> apply_rules rs prompt x))
      else apply_rules rs prompt x)"

definition sequence_index :: "sequence_config \<Rightarrow> nat \<Rightarrow> nat" where
  "sequence_index q n =
     (if sq_mode q = ''cycle'' then (n - 1) mod length (sq_responses q) else min (n - 1) (length (sq_responses q) - 1))"

definition apply_sequence :: "sequence_config option \<Rightarrow> resolve_ctx \<Rightarrow> resolved option" where
  "apply_sequence q x = (case q of
     None \<Rightarrow> None
   | Some q \<Rightarrow>
       if sq_responses q = [] then None
       else let idx = sequence_index q (rx_count x) in
         Some (resolve_response_entry (sq_responses q ! idx) x (''sequence['' @ show_nat idx @ '']'')))"

definition resolve_mode :: "model_ref \<Rightarrow> resolve_ctx \<Rightarrow> resolved" where
  "resolve_mode m x =
     (if mr_mode m = ''schema'' then
        success_response x ''schema'' (Some (generate_from_schema
          (case mr_schema m of Some s \<Rightarrow> s | None \<Rightarrow> SchemaNode [] [] None None) (rx_model x) (rx_count x) [])) None
      else if mr_mode m = ''static'' then
        success_response x ''static'' (Some (case mr_static m of Some v \<Rightarrow> v | None \<Rightarrow> JNull)) None
      else success_response x ''text'' None (Some (generate_text (rx_model x) (rx_count x) (mr_text m))))"

text \<open>What the n-th request of a model is answered with.\<close>

definition resolve_at :: "externals \<Rightarrow> bedrock_config \<Rightarrow> string \<Rightarrow> string \<Rightarrow> nat \<Rightarrow> resolved" where
  "resolve_at E cfg model prompt n =
     (let m = get_model_config cfg model;
          x = \<lparr> rx_model = model, rx_count = n,
                rx_streaming = (case mr_streaming m of Some s \<Rightarrow> sm_enabled s | None \<Rightarrow> False),
                rx_streaming_config = mr_streaming m, rx_latency = mr_latency m \<rparr>
      in case find_inject (mr_errors m) n of
           Some i \<Rightarrow> bedrock_error x (ei_kind i) (ei_message i) ''error_injection''
         | None \<Rightarrow> (case apply_rules (mr_rules m) (str_lowercase E prompt) x of
               Some r \<Rightarrow> r
             | None \<Rightarrow> (case apply_sequence (mr_sequence m) x of Some r \<Rightarrow> r | None \<Rightarrow> resolve_mode m x)))"

definition bedrock_resolve :: "externals \<Rightarrow> bedrock_config \<Rightarrow> string \<Rightarrow> string \<Rightarrow> counters \<Rightarrow> resolved \<times> counters" where
  "bedrock_resolve E cfg model prompt cs =
     (let (n, cs') = increment model cs in (resolve_at E cfg model prompt n, cs'))"

end
