(* ===== verification/Bedrock_Handlers.thy ===== *)
theory Bedrock_Handlers
  imports Bedrock
begin

text \<open>
  Bedrock, part 2: the event stream (streaming.rs) and the handlers (handlers.rs of src/src/aws/bedrock).
  \<open>crc\<close> is the checksum of the crate crc32fast.  The state is the request counters.  The random sleep of
  \<open>apply_latency\<close> is the number of milliseconds a generator \<open>rand\<close> picks in a range.
\<close>

subsection \<open>Frames\<close>

text \<open>The \<open>k\<close> lowest bytes of a number, most significant first: \<open>to_be_bytes\<close> after a cast to that width.\<close>

primrec be_of :: "nat \<Rightarrow> nat \<Rightarrow> string" where
  "be_of 0 n = []"
| "be_of (Suc k) n = be_of k (n div 256) @ [char_of (n mod 256)]"

definition encode_header :: "string \<times> string \<Rightarrow> string" where
  "encode_header = (\<lambda>(name, v). be_of 1 (length name) @ name @ [char_of (7 :: nat)] @ be_of 2 (length v) @ v)"

definition encode_event_stream_message :: "(string \<Rightarrow> 32 word) \<Rightarrow> (string \<times> string) list \<Rightarrow> string \<Rightarrow> string" where
  "encode_event_stream_message crc headers payload =
     (let hd = concat (map encode_header headers);
          prelude = be_of 4 (16 + length hd + length payload) @ be_of 4 (length hd);
          msg = prelude @ be_of 4 (unat (crc prelude)) @ hd @ payload
      in msg @ be_of 4 (unat (crc msg)))"

subsection \<open>Chunks\<close>

text \<open>\<open>split_whitespace\<close>; \<open>acc\<close> is the word read so far, reversed.\<close>

function split_ws :: "string \<Rightarrow> string \<Rightarrow> string list" where
  "split_ws [] acc = (if acc = [] then [] else [rev acc])"
| "split_ws (c # s) acc =
     (case find (\<lambda>w. w \<noteq> [] \<and> starts_with (c # s) w) whitespace_seqs of
        Some w \<Rightarrow> (if acc = [] then [] else [rev acc]) @ split_ws (drop (length w) (c # s)) []
      | None \<Rightarrow> split_ws s (c # acc))"
  by pat_completeness auto
termination
  by (relation "measure (\<lambda>(s, _). length s)") (auto simp: find_Some_iff)

declare split_ws.simps [simp del]

text \<open>\<open>chunks(n)\<close>, for \<open>n\<close> not 0.\<close>

function chunks_of :: "nat \<Rightarrow> 'a list \<Rightarrow> 'a list list" where
  "chunks_of n xs = (if xs = [] \<or> n = 0 then [] else take n xs # chunks_of n (drop n xs))"
  by pat_completeness auto
termination
  by (relation "measure (\<lambda>(n, xs). length xs)") auto

declare chunks_of.simps [simp del]

definition split_chunks :: "string \<Rightarrow> streaming \<Rightarrow> string list" where
  "split_chunks text cfg =
     (if sm_chunk_mode cfg = ''word'' then map (\<lambda>w. w @ '' '') (split_ws text [])
      else if sm_chunk_mode cfg = ''char'' then map snd (utf8_pieces text)
      else if sm_chunk_mode cfg = ''fixed'' then map from_utf8_lossy (chunks_of (max (sm_fixed cfg) 1) text)
      else [text])"

subsection \<open>Events\<close>

definition event_headers :: "(string \<times> string) list" where
  "event_headers = [('':event-type'', ''chunk''), ('':content-type'', ''application/json''), ('':message-type'', ''event'')]"

definition chunk_json :: "string \<Rightarrow> json" where
  "chunk_json text = json_obj [(''type'', JStr ''content_block_delta''),
     (''delta'', json_obj [(''type'', JStr ''text_delta''), (''text'', JStr text)])]"

definition bytes_payload :: "externals \<Rightarrow> json \<Rightarrow> string" where
  "bytes_payload E v = json_print E (json_obj [(''bytes'', JStr (b64_encode E (json_print E v)))])"

definition chunk_event :: "externals \<Rightarrow> (string \<Rightarrow> 32 word) \<Rightarrow> string \<Rightarrow> string" where
  "chunk_event E crc text = encode_event_stream_message crc event_headers (bytes_payload E (chunk_json text))"

definition stop_json :: json where
  "stop_json = json_obj [(''type'', JStr ''message_stop''), (''stop_reason'', JStr ''end_turn'')]"

definition stop_event :: "externals \<Rightarrow> (string \<Rightarrow> 32 word) \<Rightarrow> string" where
  "stop_event E crc = encode_event_stream_message crc event_headers (bytes_payload E stop_json)"

definition error_headers :: "string \<Rightarrow> (string \<times> string) list" where
  "error_headers kind = [('':event-type'', ''modelStreamErrorException''), ('':content-type'', ''application/json''),
     ('':message-type'', ''exception''), ('':exception-type'', kind)]"

definition error_payload :: "externals \<Rightarrow> string \<Rightarrow> string \<Rightarrow> string" where
  "error_payload E kind message = json_print E (json_obj [(''message'', JStr message), (''__type'', JStr kind)])"

definition error_event :: "externals \<Rightarrow> (string \<Rightarrow> 32 word) \<Rightarrow> string \<Rightarrow> string \<Rightarrow> string" where
  "error_event E crc kind message = encode_event_stream_message crc (error_headers kind) (error_payload E kind message)"

text \<open>The loop over the chunks with their numbers.\<close>

fun stream_loop :: "externals \<Rightarrow> (string \<Rightarrow> 32 word) \<Rightarrow> nat option \<Rightarrow> nat \<Rightarrow> string list \<Rightarrow> string" where
  "stream_loop E crc fail i [] = stop_event E crc"
| "stream_loop E crc fail i (c # cs) =
     (if (case fail of Some f \<Rightarrow> f \<le> i | None \<Rightarrow> False)
      then error_event E crc ''ModelStreamErrorException'' ''Forced stream error''
      else chunk_event E crc c @ stream_loop E crc fail (Suc i) cs)"

definition build_streaming_body :: "externals \<Rightarrow> (string \<Rightarrow> 32 word) \<Rightarrow> string \<Rightarrow> streaming \<Rightarrow> string" where
  "build_streaming_body E crc content cfg = stream_loop E crc (sm_fail_after cfg) 0 (split_chunks content cfg)"

definition build_error_streaming_body :: "externals \<Rightarrow> (string \<Rightarrow> 32 word) \<Rightarrow> string \<Rightarrow> string \<Rightarrow> string" where
  "build_error_streaming_body E crc kind message = error_event E crc kind message"

subsection \<open>Handlers\<close>

definition bedrock_json_response :: "externals \<Rightarrow> nat \<Rightarrow> json \<Rightarrow> http_response" where
  "bedrock_json_response E status body =
     \<lparr> http_status = status, http_headers = [(''content-type'', ''application/json'')], http_body = json_print E body \<rparr>"

definition model_summary :: "string \<times> model_config \<Rightarrow> json" where
  "model_summary = (\<lambda>(model, m). json_obj
     [(''modelId'', JStr model), (''modelName'', JStr (effective_name m model)), (''providerName'', JStr (effective_provider m model)),
      (''responseStreamingSupported'', JBool True), (''inputModalities'', JArr [JStr ''TEXT'']), (''outputModalities'', JArr [JStr ''TEXT'']),
      (''modelLifecycle'', json_obj [(''status'', JStr ''ACTIVE'')])])"

definition list_foundation_models :: "externals \<Rightarrow> bedrock_config \<Rightarrow> http_response" where
  "list_foundation_models E cfg =
     bedrock_json_response E 200 (json_obj [(''modelSummaries'', JArr (map model_summary (bc_models cfg)))])"

definition build_parity_headers :: "resolved \<Rightarrow> (string \<times> string) list" where
  "build_parity_headers r =
     (''x-cloudtwin-request-count'', show_nat (rs_count r))
     # (if header_text (rs_source r) then [(''x-cloudtwin-response-source'', rs_source r)] else [])"

definition parity_response :: "nat \<Rightarrow> resolved \<Rightarrow> string \<Rightarrow> string \<Rightarrow> http_response" where
  "parity_response status r ctype body =
     \<lparr> http_status = status, http_headers = build_parity_headers r @ [(''content-type'', ctype)], http_body = body \<rparr>"

definition apply_latency :: "(nat \<Rightarrow> nat \<Rightarrow> nat) \<Rightarrow> latency option \<Rightarrow> nat" where
  "apply_latency rand lat = (case lat of
     None \<Rightarrow> 0
   | Some l \<Rightarrow> if lt_min l = 0 \<and> lt_max l = 0 then 0
              else if lt_max l \<le> lt_min l then lt_min l else rand (lt_min l) (lt_max l))"

definition message_texts :: "json \<Rightarrow> string list" where
  "message_texts msg = (case json_get ''content'' msg of
     None \<Rightarrow> []
   | Some c \<Rightarrow> (case as_str c of
         Some s \<Rightarrow> [s]
       | None \<Rightarrow> (case as_array c of
             None \<Rightarrow> []
           | Some arr \<Rightarrow> List.map_filter (\<lambda>item. if json_str ''type'' item = Some ''text'' then json_str ''text'' item else None) arr)))"

definition extract_prompt :: "externals \<Rightarrow> json \<Rightarrow> string" where
  "extract_prompt E body = (case json_str ''prompt'' body of
     Some p \<Rightarrow> p
   | None \<Rightarrow> (case json_str ''inputText'' body of
         Some p \<Rightarrow> p
       | None \<Rightarrow>
           let parts = (case Option.bind (json_get ''messages'' body) as_array of
                 Some messages \<Rightarrow> concat (map message_texts messages) | None \<Rightarrow> [])
           in if parts \<noteq> [] then join_on CHR '' '' parts else json_print E body))"

definition bedrock_body :: "externals \<Rightarrow> string \<Rightarrow> json" where
  "bedrock_body E body = (case json_parse E body of Some v \<Rightarrow> v | None \<Rightarrow> JObj [])"

definition error_pair :: "resolved \<Rightarrow> string \<times> string" where
  "error_pair r = (case rs_error_type r of Some t \<Rightarrow> t | None \<Rightarrow> ''ThrottlingException'',
     case rs_error_message r of Some m \<Rightarrow> m | None \<Rightarrow> ''Synthetic error'')"

definition invoke_model ::
    "externals \<Rightarrow> (nat \<Rightarrow> nat \<Rightarrow> nat) \<Rightarrow> bedrock_config \<Rightarrow> string \<Rightarrow> string \<Rightarrow> counters \<Rightarrow> (nat \<times> http_response) \<times> counters" where
  "invoke_model E rand cfg model body cs =
     (let (r, cs') = bedrock_resolve E cfg model (extract_prompt E (bedrock_body E body)) cs;
          resp = (if rs_kind r = ''error'' then
              (let (kind, message) = error_pair r in
               parity_response 400 r ''application/json'' (error_payload E kind message))
            else parity_response 200 r ''application/json'' (json_print E (case rs_text r of
                Some text \<Rightarrow> json_obj [(''content'', JStr text), (''stop_reason'', JStr ''end_turn''), (''model'', JStr model),
                    (''usage'', json_obj [(''input_tokens'', JInt 10), (''output_tokens'', JInt 20)])]
              | None \<Rightarrow> (case rs_json r of Some v \<Rightarrow> v | None \<Rightarrow> JNull))))
      in ((apply_latency rand (rs_latency r), resp), cs'))"

definition default_streaming :: streaming where
  "default_streaming = \<lparr> sm_enabled = True, sm_chunk_mode = ''word'', sm_fixed = 0, sm_first_delay = 0, sm_delay = 0, sm_fail_after = None \<rparr>"

definition streamed_content :: "externals \<Rightarrow> resolved \<Rightarrow> string" where
  "streamed_content E r = (case rs_text r of Some t \<Rightarrow> t
     | None \<Rightarrow> (case rs_json r of Some v \<Rightarrow> json_print E v | None \<Rightarrow> []))"

definition invoke_model_stream ::
    "externals \<Rightarrow> (string \<Rightarrow> 32 word) \<Rightarrow> (nat \<Rightarrow> nat \<Rightarrow> nat) \<Rightarrow> bedrock_config \<Rightarrow> string \<Rightarrow> string \<Rightarrow> counters
       \<Rightarrow> (nat \<times> http_response) \<times> counters" where
  "invoke_model_stream E crc rand cfg model body cs =
     (let (r, cs') = bedrock_resolve E cfg model (extract_prompt E (bedrock_body E body)) cs;
          resp = (if rs_kind r = ''error'' then
              (let (kind, message) = error_pair r in
               parity_response 200 r ''application/vnd.amazon.eventstream'' (build_error_streaming_body E crc kind message))
            else parity_response 200 r ''application/vnd.amazon.eventstream''
              (build_streaming_body E crc (streamed_content E r)
                (case rs_streaming_config r of Some c \<Rightarrow> c | None \<Rightarrow> default_streaming)))
      in ((apply_latency rand (rs_latency r), resp), cs'))"

datatype bedrock_target = FoundationModels | Invoke string | InvokeStream string

text \<open>The router; the second component of an answer is how long the handler sleeps.\<close>

fun bedrock_route ::
    "externals \<Rightarrow> (string \<Rightarrow> 32 word) \<Rightarrow> (nat \<Rightarrow> nat \<Rightarrow> nat) \<Rightarrow> bedrock_config \<Rightarrow> string \<Rightarrow> bedrock_target \<Rightarrow> string
       \<Rightarrow> (counters \<Rightarrow> (nat \<times> http_response) \<times> counters) option" where
  "bedrock_route E crc rand cfg m FoundationModels body =
     (if m = ''GET'' then Some (\<lambda>cs. ((0, list_foundation_models E cfg), cs)) else None)"
| "bedrock_route E crc rand cfg m (Invoke model) body =
     (if m = ''POST'' then Some (invoke_model E rand cfg model body) else None)"
| "bedrock_route E crc rand cfg m (InvokeStream model) body =
     (if m = ''POST'' then Some (invoke_model_stream E crc rand cfg model body) else None)"

end
