(* ===== verification/Bedrock_Properties.thy ===== *)
theory Bedrock_Properties
  imports Bedrock_Handlers Service
begin

text \<open>
  Bedrock, part 3: what the k-th request of a model is answered with, whatever requests other models get,
  and event streams read by a client that knows the frame layout.
\<close>

subsection \<open>The schedule of a model\<close>

text \<open>A request of a client, or the administrator's reset of the counters.\<close>

datatype bed_op = BAsk bedrock_target string | BReset "string option"

type_synonym bed_env = "externals \<times> (string \<Rightarrow> 32 word) \<times> (nat \<Rightarrow> nat \<Rightarrow> nat) \<times> bedrock_config"

fun bed_exec :: "bed_env \<Rightarrow> bed_op \<Rightarrow> counters \<Rightarrow> http_response option \<times> counters" where
  "bed_exec (E, crc, rand, cfg) (BAsk target body) cs =
     (case bedrock_route E crc rand cfg ''POST'' target body of
        None \<Rightarrow> (None, cs) | Some h \<Rightarrow> map_prod (\<lambda>(_, resp). Some resp) id (h cs))"
| "bed_exec env (BReset model) cs = (None, reset_counters model cs)"

text \<open>Requests that count for a model, and those among them that ask for a stream.\<close>

fun asks :: "string \<Rightarrow> bed_op \<Rightarrow> bool" where
  "asks m (BAsk (Invoke model) body) = (model = m)"
| "asks m (BAsk (InvokeStream model) body) = (model = m)"
| "asks m x = False"

fun streams :: "bed_op \<Rightarrow> bool" where
  "streams (BAsk (InvokeStream model) body) = True"
| "streams x = False"

fun resets :: "string \<Rightarrow> bed_op \<Rightarrow> bool" where
  "resets m (BReset r) = (r = None \<or> r = Some m)"
| "resets m (BAsk t body) = False"

lemma counter_increment: "counter_of m (snd (increment model cs)) = (if model = m then Suc (counter_of m cs) else counter_of m cs)"
  by (simp add: counter_of_def increment_def Let_def update_conv')

lemma counter_reset: "counter_of m (reset_counters r cs) = (if r = None \<or> r = Some m then 0 else counter_of m cs)"
  by (cases r) (simp_all add: counter_of_def reset_counters_def delete_conv')

lemma snd_resolve: "snd (bedrock_resolve E cfg model prompt cs) = snd (increment model cs)"
  by (simp add: bedrock_resolve_def split: prod.split)

lemma snd_invoke [simp]:
  "snd (invoke_model E rand cfg model body cs) = snd (increment model cs)"
  "snd (invoke_model_stream E crc rand cfg model body cs) = snd (increment model cs)"
  unfolding snd_resolve[of E cfg model "extract_prompt E (bedrock_body E body)", symmetric]
  by (simp_all add: invoke_model_def invoke_model_stream_def Let_def split: prod.split)

lemma counter_step:
  "\<not> resets m x \<Longrightarrow> counter_of m (snd (bed_exec env x cs)) = (if asks m x then Suc (counter_of m cs) else counter_of m cs)"
proof (cases env)
  case (fields E crc rand cfg)
  assume "\<not> resets m x"
  then show ?thesis
  proof (cases x)
    case (BAsk t body)
    then show ?thesis by (cases t) (simp_all add: fields counter_increment split: prod.split)
  qed (auto simp: counter_reset)
qed

lemma counter_nil [simp]: "counter_of m [] = 0"
  by (simp add: counter_of_def)

lemma counter_run:
  "list_all (\<lambda>x. \<not> resets m x) xs \<Longrightarrow> counter_of m (snd (run_ops (bed_exec env) xs [])) = length (filter (asks m) xs)"
  by (induction xs rule: rev_induct) (simp_all add: run_ops_append Let_def counter_step)

text \<open>Nothing but the injection is configured to answer with an error.\<close>

definition only_injected :: "model_ref \<Rightarrow> bool" where
  "only_injected m \<longleftrightarrow>
     (\<forall>r\<in>set (mr_rules m). ru_error r = None \<and> (\<forall>e\<in>set_option (ru_response r). re_error e = None))
     \<and> (\<forall>q\<in>set_option (mr_sequence m). \<forall>e\<in>set (sq_responses q). re_error e = None)"

lemma entry_kind: "re_error e = None \<Longrightarrow> rs_kind (resolve_response_entry e x source) = ''success''"
  by (simp add: resolve_response_entry_def success_response_def split: option.split)

lemma apply_rules_kind:
  "apply_rules rs p x = Some r \<Longrightarrow>
   (\<forall>r\<in>set rs. ru_error r = None \<and> (\<forall>e\<in>set_option (ru_response r). re_error e = None)) \<Longrightarrow> rs_kind r = ''success''"
  by (induction rs p x rule: apply_rules.induct) (auto simp: entry_kind split: if_splits option.splits)

lemma sequence_index_less: "sq_responses q \<noteq> [] \<Longrightarrow> sequence_index q n < length (sq_responses q)"
  by (cases "sq_responses q") (auto simp: sequence_index_def min_def)

lemma apply_sequence_kind:
  assumes "apply_sequence q x = Some r" "\<forall>q\<in>set_option q. \<forall>e\<in>set (sq_responses q). re_error e = None"
  shows "rs_kind r = ''success''"
proof -
  obtain q' where q: "q = Some q'" "sq_responses q' \<noteq> []"
    and r: "r = resolve_response_entry (sq_responses q' ! sequence_index q' (rx_count x)) x (''sequence['' @ show_nat (sequence_index q' (rx_count x)) @ '']'')"
    using assms(1) by (auto simp: apply_sequence_def Let_def split: option.splits if_splits)
  with assms(2) sequence_index_less[OF q(2)] show ?thesis by (auto simp: entry_kind)
qed

lemma resolve_kind:
  assumes "mr_errors (get_model_config cfg m) = [i]" "0 < ei_every i" "only_injected (get_model_config cfg m)"
  shows "if ei_every i dvd n
    then rs_kind (resolve_at E cfg m p n) = ''error'' \<and> error_pair (resolve_at E cfg m p n) = (ei_kind i, ei_message i)
    else rs_kind (resolve_at E cfg m p n) = ''success''"
  using assms
  by (auto simp: only_injected_def resolve_at_def Let_def bedrock_error_def error_pair_def resolve_mode_def success_response_def
      dest!: apply_sequence_kind[unfolded option.set_map] dest: apply_rules_kind split: option.splits)

text \<open>The two ways a request is answered: InvokeModel by its status, a stream by its body.\<close>

definition bed_failed :: "externals \<Rightarrow> (string \<Rightarrow> 32 word) \<Rightarrow> error_inject \<Rightarrow> bed_op \<Rightarrow> http_response option \<Rightarrow> bool" where
  "bed_failed E crc i x r = (\<exists>resp. r = Some resp
     \<and> http_status resp = (if streams x then 200 else 400)
     \<and> http_body resp = (if streams x then build_error_streaming_body E crc (ei_kind i) (ei_message i)
                         else error_payload E (ei_kind i) (ei_message i)))"

definition bed_succeeded :: "externals \<Rightarrow> (string \<Rightarrow> 32 word) \<Rightarrow> bed_op \<Rightarrow> http_response option \<Rightarrow> bool" where
  "bed_succeeded E crc x r = (\<exists>resp. r = Some resp \<and> http_status resp = 200
     \<and> (streams x \<longrightarrow> (\<exists>content cfg. http_body resp = build_streaming_body E crc content cfg)))"

lemma bed_answer:
  assumes cfg: "mr_errors (get_model_config cfg m) = [i]" "0 < ei_every i" "only_injected (get_model_config cfg m)"
    and x: "asks m x" and n: "counter_of m cs = n"
  shows "if ei_every i dvd Suc n then bed_failed E crc i x (fst (bed_exec (E, crc, rand, cfg) x cs))
    else bed_succeeded E crc x (fst (bed_exec (E, crc, rand, cfg) x cs))"
proof -
  note kind = resolve_kind[OF cfg, of "Suc n" E]
  have resolve: "bedrock_resolve E cfg m p cs = (resolve_at E cfg m p (Suc n), snd (increment m cs))" for p
    using n by (simp add: bedrock_resolve_def increment_def Let_def)
  show ?thesis
  proof (cases x)
    case (BAsk t body)
    let ?p = "extract_prompt E (bedrock_body E body)"
    from kind[of ?p] x BAsk show ?thesis
      by (cases t)
         (auto simp: bed_failed_def bed_succeeded_def invoke_model_def invoke_model_stream_def resolve parity_response_def Let_def)
  qed (use x in simp)
qed


definition bed_sample_model :: model_config where
  "bed_sample_model = \<lparr> mc_name = None, mc_provider = None, mc_mode = Some ''static'', mc_static = Some (JInt 1), mc_schema = None,
     mc_text = None, mc_sequence = None, mc_rules = [], mc_errors = [\<lparr> ei_every = 2, ei_kind = ''E'', ei_message = ''m'' \<rparr>],
     mc_streaming = None, mc_latency = None \<rparr>"

definition bed_sample_cfg :: bedrock_config where
  "bed_sample_cfg = \<lparr> bc_defaults = \<lparr> df_mode = ''text'', df_latency = None \<rparr>, bc_models = [(''m'', bed_sample_model)] \<rparr>"

abbreviation bed_sample_ops :: "bed_op list" where
  "bed_sample_ops \<equiv> [BAsk (Invoke ''m'') ''a'', BAsk (InvokeStream ''k'') ''b'', BReset (Some ''k''), BAsk (Invoke ''m'') ''c'',
     BAsk (Invoke ''m'') ''d'']"

abbreviation bed_sample_env :: bed_env where
  "bed_sample_env \<equiv> (sample_ext, \<lambda>s. of_nat (length s), \<lambda>a b. a, bed_sample_cfg)"


subsection \<open>Reading frames\<close>

text \<open>The frame layout of the documentation of streaming.rs, read back.\<close>

definition be_val :: "string \<Rightarrow> nat" where
  "be_val s = foldl (\<lambda>n c. n * 256 + code_of c) 0 s"

function decode_headers :: "string \<Rightarrow> (string \<times> string) list option" where
  "decode_headers [] = Some []"
| "decode_headers (n # s) =
     (let name = take (code_of n) s; r = drop (code_of n) s; len = be_val (take 2 (drop 1 r)); rest = drop 3 r in
      if length r < 3 \<or> code_of (hd r) \<noteq> 7 \<or> length rest < len then None
      else map_option (Cons (name, take len rest)) (decode_headers (drop len rest)))"
  by pat_completeness auto
termination
  by (relation "measure length") auto

declare decode_headers.simps(2) [simp del]

definition decode_frame :: "(string \<Rightarrow> 32 word) \<Rightarrow> string \<Rightarrow> (((string \<times> string) list \<times> string) \<times> string) option" where
  "decode_frame crc s =
     (let len = be_val (take 4 s); hl = be_val (take 4 (drop 4 s)) in
      if length s < len \<or> len < 16 + hl \<or> be_val (take 4 (drop 8 s)) \<noteq> unat (crc (take 8 s))
         \<or> be_val (take 4 (drop (len - 4) s)) \<noteq> unat (crc (take (len - 4) s)) then None
      else map_option (\<lambda>hs. ((hs, take (len - 16 - hl) (drop (12 + hl) s)), drop len s)) (decode_headers (take hl (drop 12 s))))"

text \<open>Every frame has at least 16 bytes, so the length of the input bounds the number of frames.\<close>

fun decode_frames :: "nat \<Rightarrow> (string \<Rightarrow> 32 word) \<Rightarrow> string \<Rightarrow> ((string \<times> string) list \<times> string) list option" where
  "decode_frames 0 crc s = (if s = [] then Some [] else None)"
| "decode_frames (Suc fuel) crc s =
     (if s = [] then Some []
      else Option.bind (decode_frame crc s) (\<lambda>(f, rest). map_option (Cons f) (decode_frames fuel crc rest)))"

lemma length_be_of [simp]: "length (be_of k n) = k"
  by (induction k arbitrary: n) simp_all

lemma be_val_snoc: "be_val (s @ [c]) = be_val s * 256 + code_of c"
  by (simp add: be_val_def)

lemma be_val_be_of: "be_val (be_of k n) = n mod 256 ^ k"
proof (induction k arbitrary: n)
  case (Suc k)
  have "n mod 256 ^ Suc k = (n div 256 mod 256 ^ k) * 256 + n mod 256"
    using mod_mult2_eq[of n 256 "256 ^ k"] by (simp add: mult.commute)
  with Suc show ?case by (simp add: be_val_snoc)
qed (simp add: be_val_def)

definition header_fits :: "string \<times> string \<Rightarrow> bool" where
  "header_fits = (\<lambda>(name, v). length name < 256 \<and> length v < 65536)"

lemma decode_encode_header:
  assumes "header_fits h"
  shows "decode_headers (encode_header h @ s) = map_option (Cons h) (decode_headers s)"
proof -
  obtain name v where h: "h = (name, v)" by (cases h)
  have fits: "length name < 256" "length v < 65536" using assms by (simp_all add: header_fits_def h)
  have enc: "encode_header h @ s = char_of (length name) # name @ [char_of (7 :: nat)] @ be_of 2 (length v) @ v @ s"
    using fits(1) by (simp add: encode_header_def h)
  have "code_of (char_of (length name)) = length name" using fits(1) by simp
  moreover have "be_val (be_of 2 (length v)) = length v" using fits(2) by (simp add: be_val_be_of)
  ultimately show ?thesis unfolding enc decode_headers.simps(2) by (simp add: Let_def h)
qed

lemma decode_encode_headers: "list_all header_fits hs \<Longrightarrow> decode_headers (concat (map encode_header hs)) = Some hs"
  by (induction hs) (simp_all add: decode_encode_header)

definition frame_fits :: "(string \<times> string) list \<times> string \<Rightarrow> bool" where
  "frame_fits = (\<lambda>(hs, payload). list_all header_fits hs \<and> length (concat (map encode_header hs)) + length payload + 16 < 2 ^ 32)"

lemma decode_encode_frame:
  assumes "frame_fits (hs, payload)"
  shows "decode_frame crc (encode_event_stream_message crc hs payload @ s) = Some ((hs, payload), s)"
proof -
  let ?hd = "concat (map encode_header hs)"
  have fits: "list_all header_fits hs" "length ?hd + length payload + 16 < 2 ^ 32" using assms by (simp_all add: frame_fits_def)
  define p where "p = be_of 4 (16 + length ?hd + length payload) @ be_of 4 (length ?hd)"
  define msg where "msg = p @ be_of 4 (unat (crc p)) @ ?hd @ payload"
  have enc: "encode_event_stream_message crc hs payload @ s = msg @ be_of 4 (unat (crc msg)) @ s"
    by (simp add: encode_event_stream_message_def Let_def msg_def p_def)
  have len: "length p = 8" "length msg = 12 + length ?hd + length payload" by (simp_all add: p_def msg_def)
  have val: "be_val (be_of 4 n) = n" if "n < 2 ^ 32" for n using that by (simp add: be_val_be_of)
  have crc: "be_val (be_of 4 (unat w)) = unat w" for w :: "32 word" by (rule val) (use unsigned_less[of w] in simp)
  define S where "S = msg @ be_of 4 (unat (crc msg)) @ s"
  have total: "be_val (take 4 S) = 16 + length ?hd + length payload"
    using fits(2) by (simp add: S_def msg_def p_def val)
  have hl: "be_val (take 4 (drop 4 S)) = length ?hd" using fits(2) by (simp add: S_def msg_def p_def val)
  have parts: "take 8 S = p" "take 4 (drop 8 S) = be_of 4 (unat (crc p))" "take (length ?hd) (drop 12 S) = ?hd"
    "take (length payload) (drop (12 + length ?hd) S) = payload" "drop (16 + length ?hd + length payload) S = s"
    "take 4 (drop (12 + length ?hd + length payload) S) = be_of 4 (unat (crc msg))"
    "take (12 + length ?hd + length payload) S = msg" "16 + length ?hd + length payload \<le> length S"
    by (simp_all add: S_def len) (simp_all add: msg_def len)
  show ?thesis
    unfolding enc S_def[symmetric] decode_frame_def total hl Let_def
    using parts decode_encode_headers[OF fits(1)] crc by (simp add: add.assoc)
qed

lemma encode_nonempty: "encode_event_stream_message crc hs payload \<noteq> []"
  by (simp add: encode_event_stream_message_def Let_def flip: length_0_conv)

lemma decode_encode_frames:
  assumes "list_all frame_fits fs" "length fs \<le> fuel"
  shows "decode_frames fuel crc (concat (map (\<lambda>(hs, payload). encode_event_stream_message crc hs payload) fs)) = Some fs"
  using assms
proof (induction fs arbitrary: fuel)
  case Nil
  then show ?case by (cases fuel) simp_all
next
  case (Cons f fs)
  obtain hs payload where f: "f = (hs, payload)" by (cases f)
  obtain k where "fuel = Suc k" "length fs \<le> k" using Cons.prems(2) by (cases fuel) auto
  then show ?case using Cons by (simp add: f decode_encode_frame encode_nonempty)
qed

subsection \<open>Streams\<close>

definition chunk_frame :: "externals \<Rightarrow> string \<Rightarrow> (string \<times> string) list \<times> string" where
  "chunk_frame E c = (event_headers, bytes_payload E (chunk_json c))"

definition stop_frame :: "externals \<Rightarrow> (string \<times> string) list \<times> string" where
  "stop_frame E = (event_headers, bytes_payload E stop_json)"

definition fail_frame :: "externals \<Rightarrow> (string \<times> string) list \<times> string" where
  "fail_frame E = (error_headers ''ModelStreamErrorException'', error_payload E ''ModelStreamErrorException'' ''Forced stream error'')"

text \<open>The text a client finds in a chunk.\<close>

definition frame_text :: "externals \<Rightarrow> (string \<times> string) list \<times> string \<Rightarrow> string option" where
  "frame_text E = (\<lambda>(hs, payload).
     Option.bind (json_parse E payload) (\<lambda>v.
     Option.bind (json_str ''bytes'' v) (\<lambda>b.
     Option.bind (b64_decode E b) (\<lambda>t.
     Option.bind (json_parse E t) (\<lambda>w.
     Option.bind (json_get ''delta'' w) (json_str ''text''))))))"

text \<open>Chunks whose frames have a length of 32 bits and whose JSON is read back.\<close>

definition chunk_fits :: "externals \<Rightarrow> string \<Rightarrow> bool" where
  "chunk_fits E c \<longleftrightarrow> json_ok (chunk_json c) \<and> json_ok (json_obj [(''bytes'', JStr (b64_encode E (json_print E (chunk_json c))))])
     \<and> length (bytes_payload E (chunk_json c)) < 2 ^ 31"

definition sent_chunks :: "nat option \<Rightarrow> string list \<Rightarrow> string list" where
  "sent_chunks fail chunks = (case fail of Some f \<Rightarrow> take f chunks | None \<Rightarrow> chunks)"

definition stream_fails :: "nat option \<Rightarrow> string list \<Rightarrow> bool" where
  "stream_fails fail chunks \<longleftrightarrow> (case fail of Some f \<Rightarrow> f < length chunks | None \<Rightarrow> False)"

definition last_frame :: "externals \<Rightarrow> bool \<Rightarrow> (string \<times> string) list \<times> string" where
  "last_frame E failed = (if failed then fail_frame E else stop_frame E)"

lemma stream_loop_frames:
  "stream_loop E crc fail i cs = concat (map (\<lambda>(hs, payload). encode_event_stream_message crc hs payload)
     (map (chunk_frame E) (sent_chunks (map_option (\<lambda>f. f - i) fail) cs)
      @ [last_frame E (stream_fails (map_option (\<lambda>f. f - i) fail) cs)]))"
proof (induction cs arbitrary: i)
  case Nil
  then show ?case by (cases fail) (simp_all add: sent_chunks_def stream_fails_def last_frame_def stop_frame_def stop_event_def)
next
  case (Cons c cs)
  show ?case
  proof (cases fail)
    case None
    with Cons[of "Suc i"] show ?thesis
      by (simp add: sent_chunks_def stream_fails_def chunk_frame_def chunk_event_def)
  next
    case (Some f)
    show ?thesis
    proof (cases "f \<le> i")
      case True
      with Some show ?thesis by (simp add: sent_chunks_def stream_fails_def last_frame_def fail_frame_def error_event_def)
    next
      case False
      then have "f - i = Suc (f - Suc i)" by simp
      with Some False Cons[of "Suc i"] show ?thesis
        by (simp add: sent_chunks_def stream_fails_def chunk_frame_def chunk_event_def)
    qed
  qed
qed

lemma frame_text_chunk:
  assumes "json_roundtrip E" "b64_roundtrip E" "chunk_fits E c"
  shows "frame_text E (chunk_frame E c) = Some c"
proof -
  have "json_parse E (bytes_payload E (chunk_json c)) = Some (json_obj [(''bytes'', JStr (b64_encode E (json_print E (chunk_json c))))])"
    using assms unfolding json_roundtrip_def chunk_fits_def bytes_payload_def by blast
  moreover have "json_parse E (json_print E (chunk_json c)) = Some (chunk_json c)"
    using assms unfolding json_roundtrip_def chunk_fits_def by blast
  moreover have "b64_decode E (b64_encode E s) = Some s" for s using assms(2) by (simp add: b64_roundtrip_def)
  moreover have "Option.bind (json_get ''delta'' (chunk_json c)) (json_str ''text'') = Some c"
    by (simp add: chunk_json_def json_get_obj)
  ultimately show ?thesis by (simp add: frame_text_def chunk_frame_def json_get_obj)
qed

lemma chunk_frame_fits: "chunk_fits E c \<Longrightarrow> frame_fits (chunk_frame E c)"
  by (simp add: frame_fits_def chunk_frame_def chunk_fits_def event_headers_def header_fits_def encode_header_def)

lemma concat_split_chunks:
  assumes "sm_chunk_mode cfg \<noteq> ''word''" "sm_chunk_mode cfg \<noteq> ''fixed''"
  shows "concat (split_chunks content cfg) = content"
  using assms by (simp add: split_chunks_def concat_utf8_pieces)

text \<open>C40: event streams.  A client that reads the frames by their documented layout and checks both checksums
  gets the chunks of the response in order, all of them and then the stop event, or, when the model is
  configured to fail after k chunks and there are more, the first k and then the exception; unless it is
  cut into words or into fixed numbers of bytes, the chunks make up the whole text.\<close>

theorem bedrock_stream:
  assumes laws: "json_roundtrip E" "b64_roundtrip E"
    and chunks: "chunks = split_chunks content cfg" "list_all (chunk_fits E) chunks"
    and last: "length (bytes_payload E stop_json) < 2 ^ 31"
      "length (error_payload E ''ModelStreamErrorException'' ''Forced stream error'') < 2 ^ 31"
  shows "\<exists>frames. decode_frames (Suc (length chunks)) crc (build_streaming_body E crc content cfg)
        = Some (frames @ [last_frame E (stream_fails (sm_fail_after cfg) chunks)])
      \<and> map (frame_text E) frames = map Some (sent_chunks (sm_fail_after cfg) chunks)
    \<and> (sm_chunk_mode cfg \<in> {''word'', ''fixed''} \<or> concat chunks = content)"
proof -
  let ?sent = "sent_chunks (sm_fail_after cfg) chunks" and ?last = "last_frame E (stream_fails (sm_fail_after cfg) chunks)"
  have "set ?sent \<subseteq> set chunks" by (auto simp: sent_chunks_def dest: in_set_takeD split: option.splits)
  then have fits: "list_all (chunk_fits E) ?sent" using chunks(2) by (auto simp: list_all_iff)
  have "frame_fits ?last"
    using last by (simp add: last_frame_def frame_fits_def stop_frame_def fail_frame_def event_headers_def error_headers_def
        header_fits_def encode_header_def)
  moreover have "list_all frame_fits (map (chunk_frame E) ?sent)" using fits by (auto simp: list_all_iff chunk_frame_fits)
  ultimately have all: "list_all frame_fits (map (chunk_frame E) ?sent @ [?last])" by simp
  have "length (map (chunk_frame E) ?sent @ [?last]) \<le> Suc (length chunks)" by (simp add: sent_chunks_def split: option.split)
  from decode_encode_frames[OF all this]
  have "decode_frames (Suc (length chunks)) crc (build_streaming_body E crc content cfg) = Some (map (chunk_frame E) ?sent @ [?last])"
    unfolding build_streaming_body_def chunks(1)[symmetric] stream_loop_frames by (simp add: option.map_ident)
  moreover have "map (frame_text E) (map (chunk_frame E) ?sent) = map Some ?sent"
    using fits frame_text_chunk[OF laws] by (simp add: list_all_iff)
  moreover have "sm_chunk_mode cfg \<in> {''word'', ''fixed''} \<or> concat chunks = content" using concat_split_chunks chunks(1) by auto
  ultimately show ?thesis by blast
qed

text \<open>A printer with short texts for the documents of one stream.\<close>

definition stream_docs :: "json list" where
  "stream_docs = [chunk_json ''hi'', json_obj [(''bytes'', JStr ''d'')], stop_json, json_obj [(''bytes'', JStr ''ddd'')],
     json_obj [(''message'', JStr ''Forced stream error''), (''__type'', JStr ''ModelStreamErrorException'')]]"

definition stream_print :: "json \<Rightarrow> string" where
  "stream_print v =
     (if v = stream_docs ! 0 then ''d'' else if v = stream_docs ! 1 then ''dd'' else if v = stream_docs ! 2 then ''ddd''
      else if v = stream_docs ! 3 then ''dddd'' else if v = stream_docs ! 4 then ''ddddd'' else CHR ''x'' # show_nat (to_nat v))"

definition stream_parse :: "string \<Rightarrow> json option" where
  "stream_parse s = (if hd s = CHR ''d'' then Some (stream_docs ! (length s - 1)) else map_option from_nat (parse_nat (tl s)))"

definition stream_ext :: externals where
  "stream_ext = sample_ext\<lparr> json_print := stream_print, json_parse := stream_parse \<rparr>"

lemma stream_ext_laws: "json_roundtrip stream_ext" "b64_roundtrip stream_ext"
proof -
  have "stream_parse (stream_print v) = Some v" for v
    by (simp add: stream_print_def stream_parse_def eval_nat_numeral)
  then show "json_roundtrip stream_ext" by (simp add: json_roundtrip_def stream_ext_def)
  show "b64_roundtrip stream_ext" by (simp add: b64_roundtrip_def stream_ext_def sample_ext_def)
qed

abbreviation sample_streaming :: streaming where
  "sample_streaming \<equiv> default_streaming\<lparr> sm_chunk_mode := ''text'', sm_fail_after := Some 1 \<rparr>"

theorem bedrock_stream_witness:
  "\<exists>frames. decode_frames 2 (\<lambda>s. of_nat (length s)) (build_streaming_body stream_ext (\<lambda>s. of_nat (length s)) ''hi'' sample_streaming)
      = Some (frames @ [last_frame stream_ext False])
    \<and> map (frame_text stream_ext) frames = [Some ''hi''] \<and> (sm_chunk_mode sample_streaming \<in> {''word'', ''fixed''} \<or> concat [''hi''] = ''hi'')"
proof -
  have print: "json_print stream_ext (chunk_json ''hi'') = ''d''" "b64_encode stream_ext ''d'' = ''d''"
    "json_print stream_ext (json_obj [(''bytes'', JStr ''d'')]) \<in> {''d'', ''dd''}"
    by (simp_all add: stream_ext_def stream_print_def stream_docs_def sample_ext_def)
  have short: "length (json_print stream_ext v) < 2 ^ 31" if "v \<in> set stream_docs" for v
    using that by (auto simp: stream_ext_def stream_print_def stream_docs_def)
  have "json_print stream_ext stop_json \<in> {''d'', ''dd'', ''ddd''}"
    by (simp add: stream_ext_def stream_print_def stream_docs_def)
  moreover have "stop_json \<noteq> chunk_json ''hi''" "stop_json \<noteq> json_obj [(''bytes'', JStr ''d'')]"
    using json_get_obj[of "''delta''" "[(''type'', JStr ''message_stop''), (''stop_reason'', JStr ''end_turn'')]"]
      json_get_obj[of "''delta''" "[(''type'', JStr ''content_block_delta''), (''delta'', json_obj [(''type'', JStr ''text_delta''), (''text'', JStr ''hi'')])]"]
      json_get_obj[of "''bytes''" "[(''type'', JStr ''message_stop''), (''stop_reason'', JStr ''end_turn'')]"]
      json_get_obj[of "''bytes''" "[(''bytes'', JStr ''d'')]"]
    by (auto simp: stop_json_def chunk_json_def)
  ultimately have stop: "json_print stream_ext stop_json = ''ddd''"
    by (simp add: stream_ext_def stream_print_def stream_docs_def)
  have last: "length (bytes_payload stream_ext stop_json) < 2 ^ 31"
    "length (error_payload stream_ext ''ModelStreamErrorException'' ''Forced stream error'') < 2 ^ 31"
    using short by (simp_all add: bytes_payload_def error_payload_def stop stream_docs_def) (simp_all add: stream_ext_def sample_ext_def)
  have ok: "json_ok (chunk_json ''hi'')" "json_ok (json_obj [(''bytes'', JStr ''d'')])" by code_simp+
  have chunks: "[''hi''] = split_chunks ''hi'' sample_streaming" by (simp add: split_chunks_def)
  have "chunk_fits stream_ext ''hi''"
    using ok short by (simp add: chunk_fits_def print bytes_payload_def stream_docs_def)
  then have "list_all (chunk_fits stream_ext) [''hi'']" by simp
  from bedrock_stream[OF stream_ext_laws chunks this last, of "\<lambda>s. of_nat (length s)"] show ?thesis
    by (simp add: sent_chunks_def stream_fails_def numeral_2_eq_2)
qed

end
