(* ===== verification/Spec2Isabelle.thy ===== *)
theory Spec2Isabelle
  imports Sqs_Requests Dynamo_Properties Dynamo_Conditions Kms_Seed Sns_Seed Sns_Listing Pubsub_Handlers Servicebus_Properties S3_Access Gcs_Listing Gcs_Resumable Azure_Blob_Listing Azure_Blob_Ranges Bedrock_Properties
begin

text \<open>
  CloudTwin is a local emulator of cloud services, written in Rust on top of SQLite.  This
  development models the core of several of its services, operation by operation, and proves what
  makes them correct.  File names below are relative to src/src/.

  \<^bold>\<open>The parts and how they interact.\<close>  Each service has a handler (handlers.rs), which decodes a request,
  calls the service (service.rs) and encodes its answer, and tables in a database that all services
  share (schema.rs, db.rs).  A call of the service runs in one or several calls to the database;
  requests of other clients can run between them.  SNS sends to SQS queues and to the mailbox; every
  handler that changes something writes a telemetry event.

  \<^bold>\<open>Prelude.\<close>  Rust_Strings: strings as lists of bytes, with the operations of \<open>str\<close> the code uses
  (trim, split, find, UTF-8 decoding, decimal numbers).  F64: doubles as exact rationals with rounding
  to 53 bits, and their parser.  Dict: \<open>BTreeMap\<close> as an association list ordered by key.  Json:
  \<open>serde_json::Value\<close>, and the record \<open>externals\<close> of what the crates compute (parsing and printing JSON,
  digests, base64, UUIDs, dates).  Service: results, actions (a state transformer that can fail),
  tables as lists of rows in insertion order, and the locale \<open>service\<close>, the contract of a machine whose
  steps keep an invariant, which every service interprets.  Paging: the locale \<open>pager\<close>, the contract of
  a paged listing, interpreted by ListQueues, ListKeys and ListTopics.  Http: responses and telemetry.
  Aws_Query: decoding of form parameters and XML answers (proto.rs), Aws_Query_Order: when the decoding
  does not depend on the order of the hash map.

  \<^bold>\<open>SQS\<close> (aws/sqs).  Sqs_Models: message attributes and their digest (models.rs).  Sqs_Queues: queues and
  their attributes.  Sqs_Messages: sending, receiving, deleting, visibility (service.rs; each transaction
  is a definition whose name ends in tx).  Sqs_Invariant, Sqs_Receive: the invariant \<open>sqs_ok\<close>, and what
  a receive does, as a plan over the candidate messages.  Sqs_System: the machine whose runs include
  every interleaving of requests, because any queue record read earlier can be acted upon at any time.
  Sqs_Handlers, Sqs_Requests: the request handlers (handlers.rs).  Sqs_Properties, Sqs_Guarantees: what
  clients rely on.  Sqs_Seed: provisioning (mod.rs).  Sqs_Samples: a concrete database.

  \<^bold>\<open>Secrets Manager\<close> (aws/secretsmanager), in one theory, which ends with the abstract map from names to values
  that every sequence of requests is shown to implement.

  \<^bold>\<open>DynamoDB\<close> (aws/dynamodb).  Dynamo_Query: key conditions (query.rs).  Dynamo: tables, items and handlers.
  Dynamo_Store: the invariant.  Dynamo_Properties, Dynamo_Conditions: what clients rely on; the
  meaning of a key condition and the order of keys are defined there, apart from the code's.

  \<^bold>\<open>KMS\<close> (aws/kms).  Kms_Models, Kms_Service, Kms_Handlers follow the files of those names; Kms_Invariant
  states the life cycle of a key as the abstract relation \<open>key_step\<close> and shows that every request
  refines it; Kms_Properties, where \<open>key_event\<close> labels the steps with the operations that make them, and Kms_Seed hold the properties and provisioning (mod.rs).

  \<^bold>\<open>SNS\<close> (aws/sns) and the mailbox (mailbox).  Sns_Filter (filter.rs), Sns_Service (service.rs, models.rs,
  schema.rs), Sns_Delivery (delivery.rs), Sns_Handlers (handlers.rs), Sns_Seed (mod.rs), Mailbox
  (mailbox/service.rs).  Sns_Invariant: the invariant \<open>sns_ok\<close>, inside the locale \<open>sns_interleaving\<close> for
  whatever other requests do in between.  Sns_Matching, Sns_Properties, Sns_Listing: the properties.

  \<^bold>\<open>Pub/Sub\<close> (gcp/pubsub).  Pubsub: tables and operations (service.rs).  Pubsub_Handlers: the routes
  (handlers.rs).  Pubsub_Properties: every operation changes a row of the acknowledgement table only by
  the relation \<open>row_step\<close>; leases, acknowledgement and delivery at least once follow from it.

  \<^bold>\<open>Service Bus\<close> (azure/servicebus).  Servicebus (service.rs), Servicebus_Handlers (handlers.rs),
  Servicebus_Properties: every call moves messages only along the abstract life cycle \<open>asb_moves\<close>;
  locking, dead-lettering and the fan-out of topics follow.

  \<^bold>\<open>S3\<close> (aws/s3).  Xml: trees of XML request bodies (xml.rs) over a tokenizer that is a parameter.
  S3: tables, versions and writing; S3_Service: buckets, listings, reading and deleting; S3_Multipart:
  multipart uploads (service.rs).  S3_History, S3_Refinement and S3_System: the two tables of a key are
  abstracted to the history of its versions, every operation is an operation on histories, and the
  invariant \<open>s3_ok\<close> holds in reachable states.  S3_Listing: listing in pages is an instance of \<open>pager\<close>.
  S3_Properties: versions stay readable, multipart uploads concatenate their parts.  The request handlers:
  S3_Wire: chunked bodies, encodings, CORS and event notifications (chunked.rs, xmlutil.rs, cors.rs,
  notify.rs); S3_Requests: requests, answers, reading, writing and deleting objects (handlers.rs, object.rs);
  S3_Uploads: copies, tags, multipart uploads, buckets (object.rs, multipart.rs, bucket.rs); S3_Routes: browser
  uploads, the entry points and seed documents (post_object.rs, handlers.rs, mod.rs), and the contract
  \<open>s3_tables\<close>, by which every request keeps \<open>s3_ok\<close>.  S3_Web: what was put is read back, whole, in ranges and
  from chunked bodies.  S3_Access: CORS, policies of forms, and events that reach their queues.

  \<^bold>\<open>Cloud Storage\<close> (gcp/storage).  Crc32c: the checksum (models.rs) against the
  polynomial division that defines CRC-32C.
  Gcs: buckets, objects, generations and listings (service.rs, models.rs); Gcs_Handlers: the routes, multipart
  and resumable uploads and ranges (handlers.rs).  Gcs_Properties: generations guard against lost updates.
  Gcs_Listing: page tokens, an instance of \<open>pager\<close> over the names of \<open>grouping\<close> (theory Grouping),
  which S3_Listing shares.  Gcs_Resumable: the session of an upload always holds the first bytes of the file,
  under every interleaving of requests.

  \<^bold>\<open>Blob Storage\<close> (azure/blob).  Azure_Blob: containers and blobs (service.rs).  Azure_Blob_Handlers:
  the routes (handlers.rs).  Azure_Blob_Properties: the invariant \<open>az_ok\<close> and conditional uploads.
  Azure_Blob_Listing and Azure_Blob_Ranges: listings and downloads in ranges are instances of \<open>pager\<close>.

  \<^bold>\<open>Bedrock\<close> (aws/bedrock).  Bedrock: configuration, request counters, generated data and the scenario
  engine (config.rs, state.rs, generator.rs, scenario_engine.rs); texts wrap like a release build.
  Bedrock_Handlers: event streams and routes (streaming.rs, handlers.rs).  Bedrock_Properties: the answer to
  the k-th request of a model depends on k alone, and a decoder of frames reads the streams back; it is
  given as much fuel as there are frames.

  \<^bold>\<open>How state and effects correspond.\<close>  The database of a service is a record of tables.  JSON kept in a text
  column is kept decoded where the code only writes what it read back (SQS and SNS maps), and as text
  otherwise.  The clock is an argument, in milliseconds, read once per request.  Random values are
  drawn by number: a counter in the state (SQS, SNS) or an argument of the request (KMS).  A function
  argument \<open>others\<close> stands for what other requests do between two calls to the database.  Errors are
  the left summand of a result; every early return is a branch.

  \<^bold>\<open>Bounds and fuel.\<close>  The long-polling loop of a receive is given 201 rounds: it waits at most 20 seconds,
  100 milliseconds per round, and \<open>sqs_receive_returns\<close> proves that this is enough.  Collecting pages
  is given one round more than there are entries, which the contract \<open>pager\<close> proves to be enough.
  \<open>decode_chunks\<close> and \<open>split_str\<close> terminate because less of the input is left in every round.  All other
  loops are structural recursions.

  \<^bold>\<open>Hypotheses.\<close>  \<open>sqs_env\<close>: drawn UUIDs differ and are hexadecimal digits and hyphens, base64 and JSON read
  back what they write.  \<open>aead_law\<close>, \<open>sizes_law\<close>: AES-GCM decrypts what it encrypts, and sizes.  \<open>uuid_law\<close>:
  a parsed UUID has 36 characters.  They are documented behaviour of the crates, and the witnesses
  instantiate them.

  \<^bold>\<open>Not modelled.\<close>  Failures of SQLite other than violated constraints (the disk is not full, the file
  not damaged).  Unicode case mapping (a parameter).  The SMTP server (mailbox/smtp.rs), the dashboard, start-up,
  configuration files and environment variables: input and output.  SES, Cognito and the routing in front of all services: not reached.
\<close>

end
